(* ===== verification/Prelude.thy ===== *)
theory Prelude
  imports Complex_Main "HOL-Library.AList" "HOL-Library.List_Lexorder" "HOL-Library.Char_ord"
begin

text \<open>
  The Python runtime the components share: dynamic values, dictionaries with insertion
  order, exceptions as values, the string methods the service calls, and rounding.

  \<^item> A \<open>str\<close> is a HOL \<open>string\<close> holding its UTF-8 bytes. Equality, prefixes, splitting at an
    ASCII separator and the code-point order are those of Python; \<open>lower\<close>, \<open>upper\<close> and
    \<open>strip\<close> act on the ASCII letters and the ASCII white space.
  \<^item> A \<open>float\<close> is a \<open>rat\<close>: the arithmetic is exact, so binary rounding errors are not part
    of the model. \<open>round(x, n)\<close> rounds half to even, as Python does.
  \<^item> A \<open>dict\<close> is an association list in insertion order with distinct keys; assignment is
    \<open>AList.update\<close>, which replaces in place or appends at the end.
  \<^item> A call that may raise returns \<open>exn + 'a\<close>, with \<open>Inl\<close> for the exception.
\<close>

section \<open>Exceptions and results\<close>

datatype exn =
    ValueError string
  | KeyError string
  | TypeError
  | AttributeError
  | JSONDecodeError
  | RedisError string
  | ServiceError string

type_synonym 'a result = "exn + 'a"

definition rbind :: "'a result \<Rightarrow> ('a \<Rightarrow> 'b result) \<Rightarrow> 'b result" where
  "rbind m f = (case m of Inl e \<Rightarrow> Inl e | Inr x \<Rightarrow> f x)"

section \<open>Dynamic values and dictionaries\<close>

datatype pyval =
    PNone
  | PBool bool
  | PNum rat
  | PStr string
  | PList "pyval list"
  | PDict "(string \<times> pyval) list"

type_synonym pydict = "(string \<times> pyval) list"

text \<open>Python's truth value of an object.\<close>

fun truthy :: "pyval \<Rightarrow> bool" where
  "truthy PNone = False"
| "truthy (PBool b) = b"
| "truthy (PNum q) = (q \<noteq> 0)"
| "truthy (PStr s) = (s \<noteq> [])"
| "truthy (PList xs) = (xs \<noteq> [])"
| "truthy (PDict d) = (d \<noteq> [])"

text \<open>\<open>d.get(k)\<close>, \<open>d.get(k, default)\<close>, \<open>d[k] = v\<close>, \<open>d.update(e)\<close>.\<close>

definition dget :: "pydict \<Rightarrow> string \<Rightarrow> pyval" where
  "dget d k = (case map_of d k of None \<Rightarrow> PNone | Some v \<Rightarrow> v)"

definition dget_or :: "pydict \<Rightarrow> string \<Rightarrow> pyval \<Rightarrow> pyval" where
  "dget_or d k v0 = (case map_of d k of None \<Rightarrow> v0 | Some v \<Rightarrow> v)"

abbreviation dset :: "pydict \<Rightarrow> string \<Rightarrow> pyval \<Rightarrow> pydict" where
  "dset d k v \<equiv> AList.update k v d"

definition dupdate :: "pydict \<Rightarrow> pydict \<Rightarrow> pydict" where
  "dupdate d e = foldl (\<lambda>d kv. dset d (fst kv) (snd kv)) d e"

text \<open>\<open>a or b\<close> on values.\<close>

definition py_or :: "pyval \<Rightarrow> pyval \<Rightarrow> pyval" where
  "py_or a b = (if truthy a then a else b)"

text \<open>
  \<open>len(v)\<close>, where the length of a string counts the bytes that start a code point, and the
  elements a \<open>for\<close> loop over \<open>v\<close> visits.
\<close>

definition utf8_start :: "char \<Rightarrow> bool" where
  "utf8_start c \<longleftrightarrow> \<not> (128 \<le> (of_char c :: nat) \<and> (of_char c :: nat) < 192)"

fun py_len :: "pyval \<Rightarrow> nat result" where
  "py_len (PStr s) = Inr (length (filter utf8_start s))"
| "py_len (PList xs) = Inr (length xs)"
| "py_len (PDict d) = Inr (length d)"
| "py_len _ = Inl TypeError"

fun py_chars :: "string \<Rightarrow> string list" where
  "py_chars [] = []"
| "py_chars (c # cs) =
     (case py_chars cs of
        [] \<Rightarrow> [[c]]
      | p # ps \<Rightarrow> if utf8_start (hd p) then [c] # p # ps else (c # p) # ps)"

fun py_iter :: "pyval \<Rightarrow> pyval list result" where
  "py_iter (PStr s) = Inr (map PStr (py_chars s))"
| "py_iter (PList xs) = Inr xs"
| "py_iter (PDict d) = Inr (map (\<lambda>kv. PStr (fst kv)) d)"
| "py_iter _ = Inl TypeError"

section \<open>Strings\<close>

definition code :: "char \<Rightarrow> nat" where
  "code c = of_char c"

definition lower_char :: "char \<Rightarrow> char" where
  "lower_char c = (if 65 \<le> code c \<and> code c \<le> 90 then char_of (code c + 32) else c)"

definition upper_char :: "char \<Rightarrow> char" where
  "upper_char c = (if 97 \<le> code c \<and> code c \<le> 122 then char_of (code c - 32) else c)"

definition is_space :: "char \<Rightarrow> bool" where
  "is_space c \<longleftrightarrow> 9 \<le> code c \<and> code c \<le> 13 \<or> 28 \<le> code c \<and> code c \<le> 32"

definition py_lower :: "string \<Rightarrow> string" where
  "py_lower s = map lower_char s"

definition py_upper :: "string \<Rightarrow> string" where
  "py_upper s = map upper_char s"

definition py_strip :: "string \<Rightarrow> string" where
  "py_strip s = rev (dropWhile is_space (rev (dropWhile is_space s)))"

text \<open>\<open>s.split(sep)\<close> for a one-character separator: never empty.\<close>

fun split_on :: "char \<Rightarrow> string \<Rightarrow> string list" where
  "split_on c [] = [[]]"
| "split_on c (x # xs) =
     (if x = c then [] # split_on c xs
      else (case split_on c xs of [] \<Rightarrow> [[x]] | p # ps \<Rightarrow> (x # p) # ps))"

fun py_join :: "string \<Rightarrow> string list \<Rightarrow> string" where
  "py_join sep [] = []"
| "py_join sep [p] = p"
| "py_join sep (p # q # ps) = p @ sep @ py_join sep (q # ps)"

fun starts_with :: "string \<Rightarrow> string \<Rightarrow> bool" where
  "starts_with [] s = True"
| "starts_with (p # ps) [] = False"
| "starts_with (p # ps) (x # xs) = (p = x \<and> starts_with ps xs)"

text \<open>\<open>p in s\<close> on strings.\<close>

fun py_in :: "string \<Rightarrow> string \<Rightarrow> bool" where
  "py_in p [] = (p = [])"
| "py_in p (x # xs) = (starts_with p (x # xs) \<or> py_in p xs)"

text \<open>\<open>s.replace(old, new)\<close> for a non-empty \<open>old\<close>.\<close>

fun py_replace :: "string \<Rightarrow> string \<Rightarrow> string \<Rightarrow> string" where
  "py_replace old new [] = []"
| "py_replace old new (x # xs) =
     (if old \<noteq> [] \<and> starts_with old (x # xs) then new @ py_replace old new (drop (length old - 1) xs)
      else x # py_replace old new xs)"

section \<open>Numbers\<close>

text \<open>Decimal digits, and the text of a natural number.\<close>

definition is_digit :: "char \<Rightarrow> bool" where
  "is_digit c \<longleftrightarrow> 48 \<le> code c \<and> code c \<le> 57"

definition digits_value :: "string \<Rightarrow> nat" where
  "digits_value ds = foldl (\<lambda>n c. 10 * n + (code c - 48)) 0 ds"

fun nat_str :: "nat \<Rightarrow> string" where
  "nat_str n = (if n < 10 then [char_of (48 + n)] else nat_str (n div 10) @ [char_of (48 + n mod 10)])"

declare nat_str.simps [simp del]

text \<open>\<open>int(x)\<close> truncates; \<open>round(x, n)\<close> rounds half to even at \<open>n\<close> decimals.\<close>

definition py_int :: "rat \<Rightarrow> int" where
  "py_int q = (if 0 \<le> q then \<lfloor>q\<rfloor> else \<lceil>q\<rceil>)"

definition round_half_even :: "rat \<Rightarrow> int" where
  "round_half_even q =
     (let f = \<lfloor>q\<rfloor>; d = q - of_int f in
      if d < 1 / 2 then f
      else if 1 / 2 < d then f + 1
      else if even f then f else f + 1)"

definition py_round :: "nat \<Rightarrow> rat \<Rightarrow> rat" where
  "py_round n q = of_int (round_half_even (q * 10 ^ n)) / 10 ^ n"

section \<open>Lemmas the components share\<close>

subsection \<open>Dictionaries\<close>

lemma map_of_dset [simp]: "map_of (AList.update k v d) = (map_of d)(k \<mapsto> v)"
  by (rule update_conv')

lemma dget_dset [simp]: "dget (dset d k v) k' = (if k' = k then v else dget d k')"
  by (simp add: dget_def)

lemma dget_or_dset [simp]: "dget_or (dset d k v) k' v0 = (if k' = k then v else dget_or d k' v0)"
  by (simp add: dget_or_def)

lemma dget_Nil [simp]: "dget [] k = PNone"
  by (simp add: dget_def)

lemma dget_Cons [simp]: "dget ((k, v) # d) k' = (if k' = k then v else dget d k')"
  by (simp add: dget_def)

lemma dget_or_Nil [simp]: "dget_or [] k v0 = v0"
  by (simp add: dget_or_def)

lemma dget_or_Cons [simp]:
  "dget_or ((k, v) # d) k' v0 = (if k' = k then v else dget_or d k' v0)"
  by (simp add: dget_or_def)

lemma dupdate_Nil [simp]: "dupdate d [] = d"
  by (simp add: dupdate_def)

lemma dupdate_Cons [simp]: "dupdate d (kv # e) = dupdate (dset d (fst kv) (snd kv)) e"
  by (simp add: dupdate_def)

lemma dget_dupdate_other: "k \<notin> fst ` set e \<Longrightarrow> dget (dupdate d e) k = dget d k"
  by (induction e arbitrary: d) auto

lemma truthy_py_or [simp]: "truthy (py_or a b) \<longleftrightarrow> truthy a \<or> truthy b"
  by (simp add: py_or_def)

subsection \<open>Strings\<close>

lemma code_char_of: "n < 256 \<Longrightarrow> code (char_of n) = n"
  by (simp add: code_def)

lemma code_less: "code c < 256"
  using of_char_of by (simp add: code_def)

lemma lower_char_idem [simp]: "lower_char (lower_char c) = lower_char c"
  by (auto simp: lower_char_def code_char_of)

lemma is_space_lower [simp]: "is_space (lower_char c) = is_space c"
  by (auto simp: lower_char_def is_space_def code_char_of)

lemma py_lower_idem [simp]: "py_lower (py_lower s) = py_lower s"
  by (simp add: py_lower_def)

lemma py_lower_eq_Nil [simp]: "py_lower s = [] \<longleftrightarrow> s = []"
  by (simp add: py_lower_def)

lemma dropWhile_idem_rev:
  "dropWhile P (rev (dropWhile P (rev (dropWhile P xs)))) = rev (dropWhile P (rev (dropWhile P xs)))"
proof (cases "dropWhile P xs")
  case Nil
  then show ?thesis by (simp only: dropWhile.simps rev.simps)
next
  case (Cons y ys)
  then have y: "\<not> P y"
    by (metis hd_dropWhile list.distinct(1) list.sel(1))
  then have "\<exists>zs. rev (dropWhile P (rev (y # ys))) = y # zs"
    by (simp add: dropWhile_append) (metis rev_rev_ident)
  then show ?thesis
    using Cons y by auto
qed

lemma py_strip_idem [simp]: "py_strip (py_strip s) = py_strip s"
  by (simp add: py_strip_def dropWhile_idem_rev)

lemma dropWhile_map_lower:
  "dropWhile is_space (map lower_char s) = map lower_char (dropWhile is_space s)"
  by (induction s) auto

lemma py_strip_lower: "py_strip (py_lower s) = py_lower (py_strip s)"
  by (simp add: py_strip_def py_lower_def dropWhile_map_lower rev_map)

lemma split_on_not_Nil [simp]: "split_on c s \<noteq> []"
  by (cases s) (auto split: list.splits)

lemma split_on_no_sep: "c \<notin> set s \<Longrightarrow> split_on c s = [s]"
  by (induction s) auto

lemma split_on_append: "c \<notin> set s \<Longrightarrow> split_on c (s @ c # t) = s # split_on c t"
  by (induction s) auto

lemma py_join_split_on: "py_join [c] (split_on c s) = s"
proof (induction s)
  case (Cons x xs)
  then show ?case
    by (cases "split_on c xs"; cases "tl (split_on c xs)") auto
qed simp

lemma starts_with_prefix: "starts_with p s \<longleftrightarrow> (\<exists>t. s = p @ t)"
  by (induction p s rule: starts_with.induct) auto

lemma py_in_iff: "py_in p s \<longleftrightarrow> (\<exists>u v. s = u @ p @ v)"
proof (induction s)
  case Nil
  then show ?case by auto
next
  case (Cons x xs)
  show ?case
  proof
    assume "py_in p (x # xs)"
    then show "\<exists>u v. x # xs = u @ p @ v"
    proof (simp, elim disjE)
      assume "starts_with p (x # xs)"
      then obtain v where "x # xs = [] @ p @ v"
        by (auto simp: starts_with_prefix)
      then show ?thesis by blast
    next
      assume "py_in p xs"
      then obtain u v where "x # xs = (x # u) @ p @ v"
        using Cons.IH by auto
      then show ?thesis by blast
    qed
  next
    assume "\<exists>u v. x # xs = u @ p @ v"
    then obtain u v where uv: "x # xs = u @ p @ v" by blast
    show "py_in p (x # xs)"
    proof (cases u)
      case Nil
      with uv have "starts_with p (x # xs)"
        by (auto simp: starts_with_prefix)
      then show ?thesis by simp
    next
      case (Cons y ys)
      with uv have "xs = ys @ p @ v" by simp
      with Cons.IH have "py_in p xs" by blast
      then show ?thesis by simp
    qed
  qed
qed

lemma find_SomeD: "find P xs = Some x \<Longrightarrow> P x \<and> x \<in> set xs"
  by (induction xs) (auto split: if_splits)

lemma length_le_1_eq: "length xs \<le> 1 \<Longrightarrow> a \<in> set xs \<Longrightarrow> b \<in> set xs \<Longrightarrow> a = b"
  by (cases xs) auto

subsection \<open>Rounding\<close>

lemma floor_rat_divide_numeral [simp]:
  "\<lfloor>(numeral a :: rat) / numeral b\<rfloor> = numeral a div numeral b"
  using floor_divide_of_int_eq [of "numeral a" "numeral b", where ?'a = rat] by simp

lemma floor_rat_1_divide_numeral [simp]:
  "\<lfloor>(1 :: rat) / numeral b\<rfloor> = 1 div numeral b"
  using floor_divide_of_int_eq [of 1 "numeral b", where ?'a = rat] by simp

lemma floor_rat_neg_divide_numeral [simp]:
  "\<lfloor>- (numeral a :: rat) / numeral b\<rfloor> = - numeral a div numeral b"
  using floor_divide_of_int_eq [of "- numeral a" "numeral b", where ?'a = rat] by simp

lemma round_half_even_of_int [simp]: "round_half_even (of_int k) = k"
  by (simp add: round_half_even_def)

lemma round_half_even_mono:
  assumes "p \<le> q"
  shows "round_half_even p \<le> round_half_even q"
proof (cases "\<lfloor>p\<rfloor> = \<lfloor>q\<rfloor>")
  case True
  with assms show ?thesis
    by (auto simp: round_half_even_def Let_def)
next
  case False
  with assms have "\<lfloor>p\<rfloor> + 1 \<le> \<lfloor>q\<rfloor>"
    by (metis add1_zle_eq floor_mono order_less_le)
  moreover have "round_half_even p \<le> \<lfloor>p\<rfloor> + 1"
    by (simp add: round_half_even_def Let_def)
  moreover have "\<lfloor>q\<rfloor> \<le> round_half_even q"
    by (simp add: round_half_even_def Let_def)
  ultimately show ?thesis by linarith
qed

lemma py_round_mono: "p \<le> q \<Longrightarrow> py_round n p \<le> py_round n q"
  by (simp add: py_round_def divide_right_mono round_half_even_mono mult_right_mono)

lemma py_round_0 [simp]: "py_round n 0 = 0"
  using round_half_even_of_int [of 0] by (simp add: py_round_def)

lemma py_round_1 [simp]: "py_round n 1 = 1"
proof -
  have "round_half_even ((10::rat) ^ n) = 10 ^ n"
    using round_half_even_of_int [of "10 ^ n"] by simp
  then show ?thesis by (simp add: py_round_def)
qed

lemma py_round_unit:
  assumes "0 \<le> q" and "q \<le> 1"
  shows "0 \<le> py_round n q" and "py_round n q \<le> 1"
  using py_round_mono [OF assms(1), of n] py_round_mono [OF assms(2), of n] by simp_all

subsection \<open>Evaluation of closed terms\<close>

lemmas str_eval = code_def lower_char_def upper_char_def py_lower_def py_upper_def
  py_strip_def is_space_def char_of_def bit_0

lemmas round_eval = py_round_def round_half_even_def Let_def

end
