(* ===== verification/Status_Normalization.thy ===== *)
theory Status_Normalization
  imports Prelude
begin

text \<open>
  The status vocabulary of \<open>src/app/status_normalization\<close>: the two enumerations, the
  tables of \<open>constants.py\<close> and the static methods of \<open>StatusNormalizer\<close>. The tables are
  association lists in source order, looked up with \<open>map_of\<close>; the enumerations are
  datatypes and their \<open>.value\<close> is a string.
\<close>

section \<open>Enumerations\<close>

datatype NormalizedStatus =
    TO_PROCESS | IN_QUEUE | ON_PROCESS | STOPPING | PENDING
  | COMPLETED | ERROR | STOPPED | SKIPPED | ROUTED

fun status_value :: "NormalizedStatus \<Rightarrow> string" where
  "status_value TO_PROCESS = ''to_process''"
| "status_value IN_QUEUE = ''in_queue''"
| "status_value ON_PROCESS = ''on_process''"
| "status_value STOPPING = ''stopping''"
| "status_value PENDING = ''pending''"
| "status_value COMPLETED = ''completed''"
| "status_value ERROR = ''error''"
| "status_value STOPPED = ''stopped''"
| "status_value SKIPPED = ''skipped''"
| "status_value ROUTED = ''routed''"

definition all_statuses :: "NormalizedStatus list" where
  "all_statuses = [TO_PROCESS, IN_QUEUE, ON_PROCESS, STOPPING, PENDING,
     COMPLETED, ERROR, STOPPED, SKIPPED, ROUTED]"

text \<open>\<open>NormalizedStatus(s)\<close>: the member with that value, or \<open>ValueError\<close>.\<close>

definition NormalizedStatus_of :: "string \<Rightarrow> NormalizedStatus result" where
  "NormalizedStatus_of s =
     (case find (\<lambda>st. status_value st = s) all_statuses of
        None \<Rightarrow> Inl (ValueError s) | Some st \<Rightarrow> Inr st)"

datatype StatusCategory = CAT_TO_PROCESS | CAT_IN_PROCESS | CAT_PENDING | CAT_PROCESSED

fun category_value :: "StatusCategory \<Rightarrow> string" where
  "category_value CAT_TO_PROCESS = ''to_process''"
| "category_value CAT_IN_PROCESS = ''in_process''"
| "category_value CAT_PENDING = ''pending''"
| "category_value CAT_PROCESSED = ''processed''"

section \<open>Tables\<close>

definition RAW_TO_NORMALIZED :: "(string \<times> NormalizedStatus) list" where
  "RAW_TO_NORMALIZED = [
     (''running'', ON_PROCESS), (''processing'', ON_PROCESS),
     (''in queue'', IN_QUEUE), (''in_queue'', IN_QUEUE), (''queued'', IN_QUEUE),
     (''success'', COMPLETED), (''close'', COMPLETED), (''closed'', COMPLETED),
     (''done'', COMPLETED), (''finished'', COMPLETED), (''completed'', COMPLETED),
     (''to_process'', TO_PROCESS), (''on_process'', ON_PROCESS), (''stopping'', STOPPING),
     (''pending'', PENDING), (''error'', ERROR), (''stopped'', STOPPED),
     (''skipped'', SKIPPED), (''routed'', ROUTED)]"

definition NORMALIZED_TO_CATEGORY :: "(NormalizedStatus \<times> StatusCategory) list" where
  "NORMALIZED_TO_CATEGORY = [
     (TO_PROCESS, CAT_TO_PROCESS), (ERROR, CAT_TO_PROCESS),
     (STOPPED, CAT_TO_PROCESS), (SKIPPED, CAT_TO_PROCESS),
     (IN_QUEUE, CAT_IN_PROCESS), (ON_PROCESS, CAT_IN_PROCESS), (STOPPING, CAT_IN_PROCESS),
     (PENDING, CAT_PENDING),
     (COMPLETED, CAT_PROCESSED), (ROUTED, CAT_PROCESSED)]"

definition CATEGORY_STATUS_GROUPS :: "(StatusCategory \<times> NormalizedStatus set) list" where
  "CATEGORY_STATUS_GROUPS = [
     (CAT_TO_PROCESS, {TO_PROCESS, ERROR, STOPPED, SKIPPED}),
     (CAT_IN_PROCESS, {IN_QUEUE, ON_PROCESS, STOPPING}),
     (CAT_PENDING, {PENDING}),
     (CAT_PROCESSED, {COMPLETED, ROUTED})]"

definition FUNCTION_SPECIFIC_OVERRIDES :: "(string \<times> (string \<times> NormalizedStatus) list) list" where
  "FUNCTION_SPECIFIC_OVERRIDES = [
     (''router'', [(''success'', ROUTED), (''completed'', ROUTED)]),
     (''banker'', []),
     (''apbookeeper'', [])]"

section \<open>StatusNormalizer\<close>

text \<open>
  An \<open>Optional[str]\<close> is an option; \<open>not raw_status\<close> holds for \<open>None\<close> and the empty
  string. The parameter \<open>default\<close> has the value \<open>"to_process"\<close> unless the caller gives one.
\<close>

definition DEFAULT_STATUS :: string where
  "DEFAULT_STATUS = ''to_process''"

definition normalized_key :: "string \<Rightarrow> string" where
  "normalized_key raw = py_strip (py_lower raw)"

fun normalize :: "string option \<Rightarrow> string \<Rightarrow> string" where
  "normalize None dflt = dflt"
| "normalize (Some raw) dflt =
     (if raw = [] then dflt
      else case map_of RAW_TO_NORMALIZED (normalized_key raw) of
             Some st \<Rightarrow> status_value st
           | None \<Rightarrow> normalized_key raw)"

fun normalize_for_function :: "string option \<Rightarrow> string option \<Rightarrow> string \<Rightarrow> string" where
  "normalize_for_function fn None dflt = dflt"
| "normalize_for_function fn (Some raw) dflt =
     (if raw = [] then dflt
      else
        let override =
          (case fn of
             None \<Rightarrow> None
           | Some name \<Rightarrow>
               if name = [] then None
               else case map_of FUNCTION_SPECIFIC_OVERRIDES (normalized_key name) of
                      None \<Rightarrow> None
                    | Some overrides \<Rightarrow> map_of overrides (normalized_key raw))
        in case override of
             Some st \<Rightarrow> status_value st
           | None \<Rightarrow> normalize (Some raw) dflt)"

definition get_category :: "string \<Rightarrow> string" where
  "get_category status =
     (case NormalizedStatus_of status of
        Inl _ \<Rightarrow> category_value CAT_TO_PROCESS
      | Inr st \<Rightarrow>
          (case map_of NORMALIZED_TO_CATEGORY st of
             Some cat \<Rightarrow> category_value cat
           | None \<Rightarrow> category_value CAT_TO_PROCESS))"

definition is_valid_status :: "string \<Rightarrow> bool" where
  "is_valid_status status = (case NormalizedStatus_of status of Inl _ \<Rightarrow> False | Inr _ \<Rightarrow> True)"

definition is_in_progress :: "string \<Rightarrow> bool" where
  "is_in_progress status =
     (normalize (Some status) DEFAULT_STATUS
        \<in> {status_value IN_QUEUE, status_value ON_PROCESS, status_value STOPPING})"

definition is_completed :: "string \<Rightarrow> bool" where
  "is_completed status =
     (normalize (Some status) DEFAULT_STATUS \<in> {status_value COMPLETED, status_value ROUTED})"

definition is_error :: "string \<Rightarrow> bool" where
  "is_error status = (normalize (Some status) DEFAULT_STATUS = status_value ERROR)"

section \<open>Library lemmas\<close>

lemma all_statuses_complete: "st \<in> set all_statuses"
  by (cases st) (simp_all add: all_statuses_def)

lemma status_value_inject [simp]: "status_value a = status_value b \<longleftrightarrow> a = b"
  by (cases a; cases b; simp)

lemma NormalizedStatus_of_value [simp]: "NormalizedStatus_of (status_value st) = Inr st"
  by (cases st) (simp_all add: NormalizedStatus_of_def all_statuses_def)

lemma NormalizedStatus_of_Inr: "NormalizedStatus_of s = Inr st \<longleftrightarrow> s = status_value st"
proof
  assume "NormalizedStatus_of s = Inr st"
  then have "find (\<lambda>st. status_value st = s) all_statuses = Some st"
    by (simp add: NormalizedStatus_of_def split: option.splits)
  then show "s = status_value st"
    using find_SomeD by fastforce
qed simp

lemma normalized_key_value [simp]: "normalized_key (status_value st) = status_value st"
  by (cases st) (simp_all add: normalized_key_def str_eval)

lemma raw_table_value [simp]: "map_of RAW_TO_NORMALIZED (status_value st) = Some st"
  by (cases st) (simp_all add: RAW_TO_NORMALIZED_def)

lemma status_value_not_Nil [simp]: "status_value st \<noteq> []"
  by (cases st) simp_all

lemma normalized_key_idem [simp]: "normalized_key (normalized_key s) = normalized_key s"
  by (simp add: normalized_key_def py_strip_lower)

lemma normalize_value [simp]: "normalize (Some (status_value st)) d = status_value st"
  by simp

lemma category_total: "\<exists>cat. map_of NORMALIZED_TO_CATEGORY st = Some cat"
  by (cases st) (simp_all add: NORMALIZED_TO_CATEGORY_def)

lemma get_category_value:
  "get_category (status_value st) = category_value (the (map_of NORMALIZED_TO_CATEGORY st))"
  using category_total [of st] by (auto simp: get_category_def)

lemma get_category_unknown:
  "\<not> is_valid_status s \<Longrightarrow> get_category s = ''to_process''"
  by (auto simp: is_valid_status_def get_category_def split: sum.splits)

lemma get_category_range:
  "get_category s \<in> {''to_process'', ''in_process'', ''pending'', ''processed''}"
proof -
  have "category_value cat \<in> {''to_process'', ''in_process'', ''pending'', ''processed''}" for cat
    by (cases cat) simp_all
  then show ?thesis
    by (auto simp: get_category_def split: sum.splits option.splits)
qed

lemma is_valid_status_iff: "is_valid_status s \<longleftrightarrow> (\<exists>st. s = status_value st)"
  by (cases "NormalizedStatus_of s") (auto simp: is_valid_status_def NormalizedStatus_of_Inr)

lemma in_process_tab:
  "s \<in> {status_value IN_QUEUE, status_value ON_PROCESS, status_value STOPPING}
     \<longleftrightarrow> get_category s = ''in_process''"
proof (cases "is_valid_status s")
  case True
  then obtain st where "s = status_value st" by (auto simp: is_valid_status_iff)
  then show ?thesis
    by (cases st) (simp_all add: get_category_value NORMALIZED_TO_CATEGORY_def del: status_value.simps)
next
  case False
  then have "s \<noteq> status_value st" for st by (auto simp: is_valid_status_iff)
  with False show ?thesis by (simp add: get_category_unknown del: status_value.simps)
qed

lemma processed_tab:
  "s \<in> {status_value COMPLETED, status_value ROUTED} \<longleftrightarrow> get_category s = ''processed''"
proof (cases "is_valid_status s")
  case True
  then obtain st where "s = status_value st" by (auto simp: is_valid_status_iff)
  then show ?thesis
    by (cases st) (simp_all add: get_category_value NORMALIZED_TO_CATEGORY_def del: status_value.simps)
next
  case False
  then have "s \<noteq> status_value st" for st by (auto simp: is_valid_status_iff)
  with False show ?thesis by (simp add: get_category_unknown del: status_value.simps)
qed

section \<open>Properties\<close>

text \<open>
  Normalising a status twice changes nothing: for every raw status that is not blank,
  \<open>normalize\<close> of a normalised status is that status, whatever the default of either call.
  (A blank raw status is normalised to the empty string, which a second call maps to the
  default, so the hypothesis is needed.)
\<close>

theorem normalize_idempotent:
  assumes "py_strip raw \<noteq> []"
  shows "normalize (Some (normalize (Some raw) d)) d' = normalize (Some raw) d"
proof -
  have key: "normalized_key raw \<noteq> []"
    using assms by (simp add: normalized_key_def py_strip_lower)
  have raw: "raw \<noteq> []"
    using assms by (auto simp: py_strip_def)
  show ?thesis
  proof (cases "map_of RAW_TO_NORMALIZED (normalized_key raw)")
    case None
    then show ?thesis using key raw by simp
  next
    case (Some st)
    then have "normalize (Some raw) d = status_value st" using raw by simp
    then show ?thesis by simp
  qed
qed

theorem normalize_idempotent_witness:
  "py_strip ''  Running '' \<noteq> [] \<and>
   normalize (Some (normalize (Some ''  Running '') ''x'')) ''y'' = normalize (Some ''  Running '') ''x''"
proof -
  have h: "py_strip ''  Running '' \<noteq> []" by (simp add: str_eval)
  show ?thesis using h normalize_idempotent [OF h] by blast
qed

text \<open>
  The three sources of truth about tabs agree. A status is in the group of a category
  exactly when the status table sends it there, and for every raw status the predicate
  \<open>is_in_progress\<close> holds exactly when the normalised status is shown in the in-process tab,
  \<open>is_completed\<close> exactly when it is shown in the processed tab.
\<close>

theorem category_tables_agree:
  "(\<exists>g. map_of CATEGORY_STATUS_GROUPS cat = Some g \<and> st \<in> g)
     = (map_of NORMALIZED_TO_CATEGORY st = Some cat) \<and>
   is_in_progress raw = (get_category (normalize (Some raw) DEFAULT_STATUS) = ''in_process'') \<and>
   is_completed raw = (get_category (normalize (Some raw) DEFAULT_STATUS) = ''processed'')"
proof (intro conjI)
  show "(\<exists>g. map_of CATEGORY_STATUS_GROUPS cat = Some g \<and> st \<in> g)
     = (map_of NORMALIZED_TO_CATEGORY st = Some cat)"
    by (cases cat; cases st) (simp_all add: CATEGORY_STATUS_GROUPS_def NORMALIZED_TO_CATEGORY_def)
  let ?n = "normalize (Some raw) DEFAULT_STATUS"
  show "is_in_progress raw = (get_category ?n = ''in_process'')"
    unfolding is_in_progress_def by (rule in_process_tab)
  show "is_completed raw = (get_category ?n = ''processed'')"
    unfolding is_completed_def by (rule processed_tab)
qed

text \<open>
  The only effect of a function name on normalisation is the Router override: the
  result of \<open>normalize_for_function\<close> is \<open>"routed"\<close> when the function is the router and the
  status is a success or a completion, and is that of \<open>normalize\<close> in every other case.
\<close>

theorem normalize_for_function_eq:
  "normalize_for_function fn raw d =
    (case (fn, raw) of
       (Some f, Some r) \<Rightarrow>
         (if normalized_key f = ''router'' \<and> r \<noteq> [] \<and> normalized_key r \<in> {''success'', ''completed''}
          then ''routed'' else normalize raw d)
     | _ \<Rightarrow> normalize raw d)"
proof (cases raw)
  case None
  then show ?thesis by (simp split: option.split)
next
  case (Some r)
  have empty: "normalized_key [] = []" by (simp add: normalized_key_def py_lower_def py_strip_def)
  have "map_of FUNCTION_SPECIFIC_OVERRIDES k =
      (if k = ''router'' then Some [(''success'', ROUTED), (''completed'', ROUTED)]
       else if k \<in> {''banker'', ''apbookeeper''} then Some [] else None)" for k
    by (simp add: FUNCTION_SPECIFIC_OVERRIDES_def)
  then show ?thesis using Some
    by (auto simp: empty Let_def split: option.split)
qed

end
