(* ===== verification/Domain_Config.thy ===== *)
theory Domain_Config
  imports Status_Normalization
begin

text \<open>
  The domain configurations of \<open>src/app/domain_config\<close>: \<open>ActionConfig\<close>, the class attributes
  and class methods of \<open>BaseDomainConfig\<close>, the four concrete domains, and the registry of
  \<open>domain_config/__init__.py\<close>.

  A configuration class is a record of its class attributes and of the one class method that
  a subclass overrides (\<open>get_list_for_status\<close>), so that a call through the class reaches the
  override, as Python's dispatch does. The locale \<open>list_assignment\<close> is the contract the list
  manager relies on; every concrete domain is an interpretation of it.
\<close>

section \<open>ActionType, ActionConfig, BaseDomainConfig\<close>

datatype ActionType = OPTIMISTIC | PESSIMISTIC

record ActionConfig =
  ac_type :: ActionType
  initial_status :: "string option"
  success_status :: "string option"
  error_status :: "string option"
  ws_event_started :: "string option"
  ws_event_completed :: "string option"
  ws_event_error :: "string option"

record domain_config =
  DOMAIN :: string
  LIST_NAMES :: "(string \<times> string) list"
  ACTIONS :: "(string \<times> ActionConfig) list"
  STATUS_TO_LIST_OVERRIDE :: "(string \<times> string) list"
  cls_get_list_for_status :: "string \<Rightarrow> string"

definition get_action_type :: "domain_config \<Rightarrow> string \<Rightarrow> ActionType" where
  "get_action_type cls action =
     (case map_of (ACTIONS cls) action of Some c \<Rightarrow> ac_type c | None \<Rightarrow> PESSIMISTIC)"

definition is_optimistic :: "domain_config \<Rightarrow> string \<Rightarrow> bool" where
  "is_optimistic cls action = (get_action_type cls action = OPTIMISTIC)"

definition is_pessimistic :: "domain_config \<Rightarrow> string \<Rightarrow> bool" where
  "is_pessimistic cls action = (get_action_type cls action = PESSIMISTIC)"

definition get_initial_status :: "domain_config \<Rightarrow> string \<Rightarrow> string option" where
  "get_initial_status cls action =
     (case map_of (ACTIONS cls) action of Some c \<Rightarrow> initial_status c | None \<Rightarrow> None)"

definition get_success_status :: "domain_config \<Rightarrow> string \<Rightarrow> string option" where
  "get_success_status cls action =
     (case map_of (ACTIONS cls) action of Some c \<Rightarrow> success_status c | None \<Rightarrow> None)"

definition get_error_status :: "domain_config \<Rightarrow> string \<Rightarrow> string option" where
  "get_error_status cls action =
     (case map_of (ACTIONS cls) action of Some c \<Rightarrow> error_status c | None \<Rightarrow> Some ''error'')"

definition get_action_config :: "domain_config \<Rightarrow> string \<Rightarrow> ActionConfig option" where
  "get_action_config cls action = map_of (ACTIONS cls) action"

text \<open>\<open>LIST_NAMES.get(category, d)\<close>.\<close>

definition list_name_or :: "(string \<times> string) list \<Rightarrow> string \<Rightarrow> string \<Rightarrow> string" where
  "list_name_or names category d =
     (case map_of names category of Some n \<Rightarrow> n | None \<Rightarrow> d)"

text \<open>\<open>BaseDomainConfig.get_list_for_status\<close>, over the class attributes it reads.\<close>

definition base_get_list_for_status ::
  "(string \<times> string) list \<Rightarrow> (string \<times> string) list \<Rightarrow> string \<Rightarrow> string" where
  "base_get_list_for_status names overrides status =
     (case map_of overrides status of
        Some category \<Rightarrow> list_name_or names category category
      | None \<Rightarrow> (let category = get_category status in list_name_or names category category))"

text \<open>\<open>x or y\<close> on an optional string: a missing and an empty event name both fall back.\<close>

definition or_default :: "string option \<Rightarrow> string \<Rightarrow> string" where
  "or_default x d = (case x of Some (c # cs) \<Rightarrow> c # cs | _ \<Rightarrow> d)"

definition get_ws_event_type :: "domain_config \<Rightarrow> string \<Rightarrow> string \<Rightarrow> string option" where
  "get_ws_event_type cls action event_phase =
     (case map_of (ACTIONS cls) action of
        None \<Rightarrow> None
      | Some config \<Rightarrow>
          if event_phase = ''started''
          then Some (or_default (ws_event_started config) (DOMAIN cls @ ''.'' @ action @ ''_started''))
          else if event_phase = ''completed''
          then Some (or_default (ws_event_completed config) (DOMAIN cls @ ''.'' @ action @ ''_completed''))
          else if event_phase = ''error''
          then Some (or_default (ws_event_error config) (DOMAIN cls @ ''.error''))
          else None)"

definition get_all_actions :: "domain_config \<Rightarrow> string list" where
  "get_all_actions cls = map fst (ACTIONS cls)"

definition get_optimistic_actions :: "domain_config \<Rightarrow> string list" where
  "get_optimistic_actions cls =
     map fst (filter (\<lambda>(a, c). ac_type c = OPTIMISTIC) (ACTIONS cls))"

definition get_pessimistic_actions :: "domain_config \<Rightarrow> string list" where
  "get_pessimistic_actions cls =
     map fst (filter (\<lambda>(a, c). ac_type c = PESSIMISTIC) (ACTIONS cls))"

section \<open>The concrete domains\<close>

definition std_list_names :: "(string \<times> string) list" where
  "std_list_names = [(''to_process'', ''to_process''), (''in_process'', ''in_process''),
     (''pending'', ''pending''), (''processed'', ''processed'')]"

text \<open>\<open>ActionConfig(type, initial, success, error, started, completed, error event)\<close>.\<close>

definition mk_action ::
  "ActionType \<Rightarrow> string option \<Rightarrow> string option \<Rightarrow> string option \<Rightarrow> string \<Rightarrow> string \<Rightarrow> string
     \<Rightarrow> ActionConfig" where
  "mk_action t i s e st c er =
     \<lparr>ac_type = t, initial_status = i, success_status = s, error_status = e,
      ws_event_started = Some st, ws_event_completed = Some c, ws_event_error = Some er\<rparr>"

definition RoutingDomainConfig :: domain_config where
  "RoutingDomainConfig =
     \<lparr>DOMAIN = ''routing'',
      LIST_NAMES = std_list_names,
      ACTIONS =
        [(''process'', mk_action OPTIMISTIC (Some ''in_queue'') (Some ''routed'') (Some ''error'')
            ''routing.processing_started'' ''routing.item_update'' ''routing.error''),
         (''stop'', mk_action PESSIMISTIC (Some ''stopping'') (Some ''stopped'') (Some ''error'')
            ''routing.stop_started'' ''routing.stopped'' ''routing.error''),
         (''delete'', mk_action PESSIMISTIC None None None
            ''routing.delete_started'' ''routing.deleted'' ''routing.error''),
         (''restart'', mk_action PESSIMISTIC (Some ''to_process'') (Some ''to_process'') (Some ''error'')
            ''routing.restart_started'' ''routing.restarted'' ''routing.error'')],
      STATUS_TO_LIST_OVERRIDE = [],
      cls_get_list_for_status = base_get_list_for_status std_list_names []\<rparr>"

definition InvoicesDomainConfig :: domain_config where
  "InvoicesDomainConfig =
     \<lparr>DOMAIN = ''invoices'',
      LIST_NAMES = std_list_names,
      ACTIONS =
        [(''process'', mk_action OPTIMISTIC (Some ''in_queue'') (Some ''completed'') (Some ''error'')
            ''invoices.processing_started'' ''invoices.item_update'' ''invoices.error''),
         (''stop'', mk_action PESSIMISTIC (Some ''stopping'') (Some ''stopped'') (Some ''error'')
            ''invoices.stop_started'' ''invoices.stopped'' ''invoices.error''),
         (''delete'', mk_action PESSIMISTIC None None None
            ''invoices.delete_started'' ''invoices.deleted'' ''invoices.error''),
         (''restart'', mk_action PESSIMISTIC (Some ''to_process'') (Some ''to_process'') (Some ''error'')
            ''invoices.restart_started'' ''invoices.restarted'' ''invoices.error''),
         (''approve'', mk_action PESSIMISTIC (Some ''pending'') (Some ''completed'') (Some ''error'')
            ''invoices.approval_started'' ''invoices.approved'' ''invoices.error'')],
      STATUS_TO_LIST_OVERRIDE = [],
      cls_get_list_for_status = base_get_list_for_status std_list_names []\<rparr>"

definition BankingDomainConfig :: domain_config where
  "BankingDomainConfig =
     \<lparr>DOMAIN = ''banking'',
      LIST_NAMES = std_list_names,
      ACTIONS =
        [(''process'', mk_action OPTIMISTIC (Some ''in_queue'') (Some ''completed'') (Some ''error'')
            ''banking.processing_started'' ''banking.item_update'' ''banking.error''),
         (''stop'', mk_action PESSIMISTIC (Some ''stopping'') (Some ''stopped'') (Some ''error'')
            ''banking.stop_started'' ''banking.stopped'' ''banking.error''),
         (''delete'', mk_action PESSIMISTIC None None None
            ''banking.delete_started'' ''banking.deleted'' ''banking.error''),
         (''restart'', mk_action PESSIMISTIC (Some ''to_process'') (Some ''to_process'') (Some ''error'')
            ''banking.restart_started'' ''banking.restarted'' ''banking.error''),
         (''match'', mk_action PESSIMISTIC (Some ''pending'') (Some ''completed'') (Some ''error'')
            ''banking.match_started'' ''banking.matched'' ''banking.error'')],
      STATUS_TO_LIST_OVERRIDE = [],
      cls_get_list_for_status = base_get_list_for_status std_list_names []\<rparr>"

definition expenses_overrides :: "(string \<times> string) list" where
  "expenses_overrides =
     [(''to_process'', ''to_process''), (''open'', ''to_process''), (''draft'', ''to_process''),
      (''running'', ''in_process''), (''in_process'', ''in_process''), (''processing'', ''in_process''),
      (''pending'', ''pending''),
      (''close'', ''processed''), (''closed'', ''processed''), (''completed'', ''processed''),
      (''processed'', ''processed'')]"

text \<open>\<open>ExpensesDomainConfig.get_list_for_status\<close>, the override of the base method.\<close>

definition expenses_get_list_for_status :: "string \<Rightarrow> string" where
  "expenses_get_list_for_status status =
     (let status_lower = (if status \<noteq> [] then py_lower status else ''to_process'') in
      case map_of expenses_overrides status_lower of
        Some category \<Rightarrow> list_name_or std_list_names category ''to_process''
      | None \<Rightarrow> ''to_process'')"

definition ExpensesDomainConfig :: domain_config where
  "ExpensesDomainConfig =
     \<lparr>DOMAIN = ''expenses'',
      LIST_NAMES = std_list_names,
      ACTIONS =
        [(''close'', mk_action OPTIMISTIC (Some ''processed'') (Some ''processed'') (Some ''to_process'')
            ''expenses.close_started'' ''expenses.item_update'' ''expenses.error''),
         (''reopen'', mk_action OPTIMISTIC (Some ''to_process'') (Some ''to_process'') (Some ''processed'')
            ''expenses.reopen_started'' ''expenses.item_update'' ''expenses.error''),
         (''update'', mk_action OPTIMISTIC None None None
            ''expenses.update_started'' ''expenses.item_update'' ''expenses.error''),
         (''delete'', mk_action OPTIMISTIC None None None
            ''expenses.delete_started'' ''expenses.item_update'' ''expenses.error''),
         (''process'', mk_action OPTIMISTIC (Some ''in_process'') (Some ''processed'') (Some ''to_process'')
            ''expenses.processing_started'' ''expenses.item_update'' ''expenses.error'')],
      STATUS_TO_LIST_OVERRIDE = expenses_overrides,
      cls_get_list_for_status = expenses_get_list_for_status\<rparr>"

section \<open>The registry of the package\<close>

type_synonym registry = "(string \<times> domain_config) list"

definition DOMAIN_CONFIGS :: registry where
  "DOMAIN_CONFIGS =
     [(''routing'', RoutingDomainConfig), (''invoices'', InvoicesDomainConfig),
      (''banking'', BankingDomainConfig), (''bank'', BankingDomainConfig),
      (''expenses'', ExpensesDomainConfig)]"

definition package_get_domain_config :: "registry \<Rightarrow> string \<Rightarrow> domain_config result" where
  "package_get_domain_config reg domain =
     (case map_of reg domain of
        None \<Rightarrow> Inl (ValueError (''Unknown domain: '' @ domain))
      | Some c \<Rightarrow> Inr c)"

definition get_supported_domains :: "registry \<Rightarrow> string list" where
  "get_supported_domains reg = map fst reg"

section \<open>The contract of a configuration class\<close>

text \<open>
  What the list manager relies on: a status is assigned to one of the lists of the domain,
  and list names are distinct and not empty.
\<close>

locale list_assignment =
  fixes cfg :: domain_config
  assumes assigned: "cls_get_list_for_status cfg status \<in> snd ` set (LIST_NAMES cfg)"
    and names_distinct: "distinct (map snd (LIST_NAMES cfg))"
    and names_nonempty: "n \<in> snd ` set (LIST_NAMES cfg) \<Longrightarrow> n \<noteq> []"
begin

lemma assigned_nonempty: "cls_get_list_for_status cfg status \<noteq> []"
  using assigned names_nonempty by blast

lemma assigned_listed: "cls_get_list_for_status cfg status \<in> set (map snd (LIST_NAMES cfg))"
  using assigned by simp

end

section \<open>Library lemmas\<close>

lemma std_names_image: "snd ` set std_list_names = {''to_process'', ''in_process'', ''pending'', ''processed''}"
  by (simp add: std_list_names_def)

lemma map_of_std_list_names:
  "map_of std_list_names c =
     (if c \<in> {''to_process'', ''in_process'', ''pending'', ''processed''} then Some c else None)"
  by (simp add: std_list_names_def)

lemma base_std_eq: "base_get_list_for_status std_list_names [] s = get_category s"
  using get_category_range [of s]
  by (simp add: base_get_list_for_status_def list_name_or_def Let_def map_of_std_list_names split: option.split)

lemma expenses_range:
  "expenses_get_list_for_status s \<in> {''to_process'', ''in_process'', ''pending'', ''processed''}"
  by (auto simp: expenses_get_list_for_status_def list_name_or_def Let_def map_of_std_list_names
      split: option.split)

lemma std_names_contract:
  assumes "\<And>s. f s \<in> {''to_process'', ''in_process'', ''pending'', ''processed''}"
  shows "list_assignment \<lparr>DOMAIN = d, LIST_NAMES = std_list_names, ACTIONS = a,
     STATUS_TO_LIST_OVERRIDE = ov, cls_get_list_for_status = f\<rparr>"
  using assms by unfold_locales (auto simp: std_list_names_def)

interpretation routing: list_assignment RoutingDomainConfig
  unfolding RoutingDomainConfig_def
  by (rule std_names_contract) (simp only: base_std_eq get_category_range)

interpretation invoices: list_assignment InvoicesDomainConfig
  unfolding InvoicesDomainConfig_def
  by (rule std_names_contract) (simp only: base_std_eq get_category_range)

interpretation banking: list_assignment BankingDomainConfig
  unfolding BankingDomainConfig_def
  by (rule std_names_contract) (simp only: base_std_eq get_category_range)

interpretation expenses: list_assignment ExpensesDomainConfig
  unfolding ExpensesDomainConfig_def
  by (rule std_names_contract) (rule expenses_range)

lemma domain_configs_contract: "map_of DOMAIN_CONFIGS d = Some cfg \<Longrightarrow> list_assignment cfg"
  using routing.list_assignment_axioms invoices.list_assignment_axioms
    banking.list_assignment_axioms expenses.list_assignment_axioms
  by (auto simp: DOMAIN_CONFIGS_def split: if_splits)

lemma domain_configs_names: "map_of DOMAIN_CONFIGS d = Some cfg \<Longrightarrow> LIST_NAMES cfg = std_list_names"
  by (auto simp: DOMAIN_CONFIGS_def RoutingDomainConfig_def InvoicesDomainConfig_def
      BankingDomainConfig_def ExpensesDomainConfig_def split: if_splits)

section \<open>Properties\<close>

text \<open>
  In the three job domains the configured statuses of an action lead to the lists the
  workflow promises: starting puts an item in process, success shows it as processed, an error
  sends it back to be processed, stopping keeps it in process until it is stopped and then sends
  it back, and a restart sends it back at once.
\<close>

theorem job_workflow_lists:
  assumes "cfg \<in> {RoutingDomainConfig, InvoicesDomainConfig, BankingDomainConfig}"
  defines "L \<equiv> \<lambda>st. cls_get_list_for_status cfg (normalize st DEFAULT_STATUS)"
  shows "L (get_initial_status cfg ''process'') = ''in_process'' \<and>
    L (get_success_status cfg ''process'') = ''processed'' \<and>
    L (get_error_status cfg ''process'') = ''to_process'' \<and>
    L (get_initial_status cfg ''stop'') = ''in_process'' \<and>
    L (get_success_status cfg ''stop'') = ''to_process'' \<and>
    L (get_initial_status cfg ''restart'') = ''to_process'' \<and>
    is_optimistic cfg ''process'' \<and> is_pessimistic cfg ''stop'' \<and>
    is_pessimistic cfg ''delete'' \<and> is_pessimistic cfg ''restart''"
proof -
  have L: "L (Some (status_value st)) = category_value (the (map_of NORMALIZED_TO_CATEGORY st))" for st
    using assms(1) by (auto simp: L_def RoutingDomainConfig_def InvoicesDomainConfig_def
        BankingDomainConfig_def base_std_eq get_category_value simp del: normalize.simps)
  show ?thesis
    using assms(1) L [of IN_QUEUE] L [of COMPLETED] L [of ROUTED] L [of ERROR] L [of STOPPING]
      L [of STOPPED] L [of TO_PROCESS]
    by (auto simp: RoutingDomainConfig_def InvoicesDomainConfig_def BankingDomainConfig_def
        get_initial_status_def get_success_status_def get_error_status_def is_optimistic_def
        is_pessimistic_def get_action_type_def mk_action_def NORMALIZED_TO_CATEGORY_def
        simp del: normalize.simps)
qed

theorem job_workflow_lists_witness:
  "RoutingDomainConfig \<in> {RoutingDomainConfig, InvoicesDomainConfig, BankingDomainConfig} \<and>
   cls_get_list_for_status RoutingDomainConfig
     (normalize (get_success_status RoutingDomainConfig ''process'') DEFAULT_STATUS) = ''processed''"
proof -
  have h: "RoutingDomainConfig \<in> {RoutingDomainConfig, InvoicesDomainConfig, BankingDomainConfig}"
    by simp
  show ?thesis using job_workflow_lists [OF h] by blast
qed

end
