(* ===== verification/List_Manager.thy ===== *)
theory List_Manager
  imports Domain_Config "HOL-Library.Multiset"
begin

text \<open>
  \<open>ListManager\<close> of \<open>src/app/domain_config/list_manager.py\<close>: items move between the lists of a
  cached page when their status changes. The state is the class-level registry of
  configurations and the page cache, a dictionary of lists of items and a \<open>counts\<close> entry;
  both are passed explicitly. The wall clock is the argument \<open>now\<close> (the ISO string of one
  reading, used for every time stamp of one call).

  The lists are typed here, so nothing in the body of the \<open>try\<close> can raise; \<open>Page_Change\<close> has the
  same operation on a dictionary of arbitrary values, with its \<open>except\<close> branch.

  An item is a dictionary; an identifier to search for is a Python value, because
  \<open>rollback_status_change\<close> passes \<open>item.get("id")\<close>, which may be \<open>None\<close>.
\<close>

section \<open>State and results\<close>

type_synonym item = pydict

record cache =
  lists :: "string \<Rightarrow> item list option"
  cache_counts :: "(string \<times> nat) list option"

record ws_payload =
  wp_type :: string
  wp_trigger_action :: "string option"
  wp_items :: "item list"
  wp_item_ids :: "pyval list"
  wp_from_list :: string
  wp_to_list :: string
  wp_new_status :: string
  wp_counts :: "(string \<times> nat) list"
  wp_timestamp :: string

record ListChangeResult =
  lcr_success :: bool
  items_moved :: "item list"
  from_list :: string
  to_list :: string
  new_status :: string
  lcr_counts :: "(string \<times> nat) list"
  lcr_error :: "string option"
  lcr_ws_payload :: "ws_payload option"

section \<open>Registry\<close>

definition register_domain :: "registry \<Rightarrow> string \<Rightarrow> domain_config \<Rightarrow> registry" where
  "register_domain reg domain cfg = AList.update domain cfg reg"

text \<open>
  \<open>ListManager.get_domain_config\<close>: on a domain that is not registered the whole registry is
  replaced by the five built-in entries before the lookup.
\<close>

definition get_domain_config :: "registry \<Rightarrow> string \<Rightarrow> registry \<times> domain_config option" where
  "get_domain_config reg domain =
     (let reg' = (if domain \<in> fst ` set reg then reg else DOMAIN_CONFIGS)
      in (reg', map_of reg' domain))"

section \<open>Operations on the cached lists\<close>

definition get_list :: "cache \<Rightarrow> string \<Rightarrow> item list" where
  "get_list c n = (case lists c n of None \<Rightarrow> [] | Some xs \<Rightarrow> xs)"

definition set_list :: "cache \<Rightarrow> string \<Rightarrow> item list \<Rightarrow> cache" where
  "set_list c n xs = c\<lparr>lists := (lists c)(n \<mapsto> xs)\<rparr>"

definition has_id :: "item \<Rightarrow> pyval \<Rightarrow> bool" where
  "has_id it x \<longleftrightarrow> dget it ''id'' = x \<or> dget it ''job_id'' = x \<or> dget it ''expense_id'' = x"

fun find_item_in_lists :: "cache \<Rightarrow> pyval \<Rightarrow> string list \<Rightarrow> (item \<times> string) option" where
  "find_item_in_lists c x [] = None"
| "find_item_in_lists c x (n # ns) =
     (case find (\<lambda>it. has_id it x) (get_list c n) of
        Some it \<Rightarrow> Some (it, n)
      | None \<Rightarrow> find_item_in_lists c x ns)"

fun remove_first :: "('a \<Rightarrow> bool) \<Rightarrow> 'a list \<Rightarrow> 'a list" where
  "remove_first P [] = []"
| "remove_first P (x # xs) = (if P x then xs else x # remove_first P xs)"

definition remove_item_from_list :: "cache \<Rightarrow> pyval \<Rightarrow> string \<Rightarrow> cache" where
  "remove_item_from_list c x n =
     (case lists c n of
        None \<Rightarrow> c
      | Some xs \<Rightarrow> set_list c n (remove_first (\<lambda>it. has_id it x) xs))"

definition same_item :: "item \<Rightarrow> item \<Rightarrow> bool" where
  "same_item it old \<longleftrightarrow>
     truthy (dget it ''id'') \<and> dget old ''id'' = dget it ''id'' \<or>
     truthy (dget it ''job_id'') \<and> dget old ''job_id'' = dget it ''job_id'' \<or>
     truthy (dget it ''expense_id'') \<and> dget old ''expense_id'' = dget it ''expense_id''"

definition add_item_to_list :: "cache \<Rightarrow> item \<Rightarrow> string \<Rightarrow> cache" where
  "add_item_to_list c it n =
     set_list c n (it # filter (\<lambda>old. \<not> same_item it old) (get_list c n))"

definition update_item :: "item \<Rightarrow> string \<Rightarrow> string \<Rightarrow> pydict option \<Rightarrow> item" where
  "update_item it status now extra =
     (let it1 = dset (dset it ''status'' (PStr status)) ''updated_at'' (PStr now) in
      case extra of None \<Rightarrow> it1 | Some e \<Rightarrow> dupdate it1 e)"

definition calculate_counts :: "cache \<Rightarrow> string list \<Rightarrow> (string \<times> nat) list" where
  "calculate_counts c names = map (\<lambda>n. (n, length (get_list c n))) names"

definition build_ws_payload ::
  "string \<Rightarrow> string option \<Rightarrow> item list \<Rightarrow> string \<Rightarrow> string \<Rightarrow> string \<Rightarrow> (string \<times> nat) list \<Rightarrow> string
     \<Rightarrow> ws_payload" where
  "build_ws_payload domain action its frm to status cnts now =
     \<lparr>wp_type = domain @ ''.item_update'', wp_trigger_action = action, wp_items = its,
      wp_item_ids = map (\<lambda>it. dget it ''id'') its, wp_from_list = frm, wp_to_list = to,
      wp_new_status = status, wp_counts = cnts, wp_timestamp = now\<rparr>"

section \<open>Status changes\<close>

text \<open>The body of the loop over \<open>item_ids\<close>: state is the cache, \<open>items_moved\<close>, \<open>from_list\<close>.\<close>

type_synonym move_state = "cache \<times> item list \<times> string option"

definition move_one ::
  "string list \<Rightarrow> string \<Rightarrow> string \<Rightarrow> string option \<Rightarrow> string \<Rightarrow> pydict option \<Rightarrow> move_state \<Rightarrow> pyval
     \<Rightarrow> move_state" where
  "move_one names to status action now extra st x =
     (case st of (c, moved, frm) \<Rightarrow>
      (case find_item_in_lists c x names of
         None \<Rightarrow> (c, moved, frm)
       | Some (it, src) \<Rightarrow>
           if it = [] then (c, moved, frm)
           else
             let c1 = remove_item_from_list c x src;
                 upd = update_item it status now extra;
                 c2 = (if action \<noteq> Some ''delete'' \<and> to \<noteq> [] then add_item_to_list c1 upd to else c1)
             in (c2, moved @ [upd], (case frm of None \<Rightarrow> Some src | Some f \<Rightarrow> Some f))))"

definition apply_status_change ::
  "registry \<Rightarrow> string \<Rightarrow> cache \<Rightarrow> pyval list \<Rightarrow> string option \<Rightarrow> string option \<Rightarrow> pydict option \<Rightarrow> string
     \<Rightarrow> registry \<times> cache \<times> ListChangeResult" where
  "apply_status_change reg domain c item_ids status action extra now =
     (case get_domain_config reg domain of
        (reg', None) \<Rightarrow>
          (reg', c, \<lparr>lcr_success = False, items_moved = [], from_list = [], to_list = [],
             new_status = [], lcr_counts = [], lcr_error = Some (''Unknown domain: '' @ domain),
             lcr_ws_payload = None\<rparr>)
      | (reg', Some cfg) \<Rightarrow>
          let nst = normalize status DEFAULT_STATUS;
              to = cls_get_list_for_status cfg nst;
              names = map snd (LIST_NAMES cfg)
          in case foldl (move_one names to nst action now extra) (c, [], None) item_ids of
               (c1, moved, frm) \<Rightarrow>
                 let cnts = calculate_counts c1 names;
                     c2 = c1\<lparr>cache_counts := Some cnts\<rparr>;
                     f = (case frm of None \<Rightarrow> [] | Some f \<Rightarrow> f)
                 in (reg', c2,
                     \<lparr>lcr_success = True, items_moved = moved, from_list = f, to_list = to,
                      new_status = nst, lcr_counts = cnts, lcr_error = None,
                      lcr_ws_payload = Some (build_ws_payload domain action moved f to nst cnts now)\<rparr>))"

definition rollback_status_change ::
  "registry \<Rightarrow> string \<Rightarrow> cache \<Rightarrow> item list \<Rightarrow> string option \<Rightarrow> string \<Rightarrow> string
     \<Rightarrow> registry \<times> cache \<times> ListChangeResult" where
  "rollback_status_change reg domain c its original_status original_list now =
     apply_status_change reg domain c (map (\<lambda>it. dget it ''id'') its) original_status
       (Some ''rollback'') None now"

definition get_initial_status_for_action :: "registry \<Rightarrow> string \<Rightarrow> string \<Rightarrow> registry \<times> string option" where
  "get_initial_status_for_action reg domain action =
     (case get_domain_config reg domain of
        (reg', None) \<Rightarrow> (reg', None)
      | (reg', Some cfg) \<Rightarrow> (reg', get_initial_status cfg action))"

definition is_action_optimistic :: "registry \<Rightarrow> string \<Rightarrow> string \<Rightarrow> registry \<times> bool" where
  "is_action_optimistic reg domain action =
     (case get_domain_config reg domain of
        (reg', None) \<Rightarrow> (reg', False)
      | (reg', Some cfg) \<Rightarrow> (reg', is_optimistic cfg action))"

definition is_action_pessimistic :: "registry \<Rightarrow> string \<Rightarrow> string \<Rightarrow> registry \<times> bool" where
  "is_action_pessimistic reg domain action =
     (case get_domain_config reg domain of
        (reg', None) \<Rightarrow> (reg', True)
      | (reg', Some cfg) \<Rightarrow> (reg', is_pessimistic cfg action))"

section \<open>Well-formed caches\<close>

text \<open>
  The identifiers of an item are its non-empty \<open>id\<close>, \<open>job_id\<close> and \<open>expense_id\<close>; a cache is
  well formed when no two entries of its lists share one.
\<close>

definition ids_of :: "item \<Rightarrow> pyval list" where
  "ids_of it = filter truthy [dget it ''id'', dget it ''job_id'', dget it ''expense_id'']"

definition all_items :: "cache \<Rightarrow> string list \<Rightarrow> item list" where
  "all_items c names = concat (map (get_list c) names)"

definition unique_ids :: "item list \<Rightarrow> bool" where
  "unique_ids xs = sorted_wrt (\<lambda>a b. set (ids_of a) \<inter> set (ids_of b) = {}) xs"

definition wf_cache :: "cache \<Rightarrow> string list \<Rightarrow> bool" where
  "wf_cache c names = unique_ids (all_items c names)"

text \<open>The identifiers a page request names: none empty, no item named twice.\<close>

definition proper_request :: "cache \<Rightarrow> string list \<Rightarrow> pyval list \<Rightarrow> bool" where
  "proper_request c names xs \<longleftrightarrow>
     list_all truthy xs \<and> distinct xs \<and>
     list_all (\<lambda>it. length (filter (has_id it) xs) \<le> 1) (all_items c names)"

definition keeps_ids :: "pydict option \<Rightarrow> bool" where
  "keeps_ids extra = (case extra of None \<Rightarrow> True
     | Some e \<Rightarrow> list_all (\<lambda>kv. fst kv \<notin> {''id'', ''job_id'', ''expense_id''}) e)"

definition requested :: "pyval list \<Rightarrow> item \<Rightarrow> bool" where
  "requested xs it = list_ex (has_id it) xs"

section \<open>Library lemmas\<close>

lemma get_list_set_list [simp]:
  "get_list (set_list c n xs) m = (if m = n then xs else get_list c m)"
  by (simp add: get_list_def set_list_def)

lemma get_list_counts [simp]: "get_list (c\<lparr>cache_counts := k\<rparr>) = get_list c"
  by (simp add: get_list_def fun_eq_iff)

lemma get_list_remove:
  "get_list (remove_item_from_list c x n) m =
     (if m = n then remove_first (\<lambda>it. has_id it x) (get_list c n) else get_list c m)"
  by (auto simp: remove_item_from_list_def split: option.split) (auto simp: get_list_def)

lemma get_list_add:
  "get_list (add_item_to_list c it n) m =
     (if m = n then it # filter (\<lambda>old. \<not> same_item it old) (get_list c n) else get_list c m)"
  by (simp add: add_item_to_list_def)

lemma set_ids_of: "x \<in> set (ids_of it) \<longleftrightarrow> truthy x \<and> has_id it x"
  by (auto simp: ids_of_def has_id_def)

lemma dget_update_item:
  assumes "keeps_ids extra" and "k \<in> {''id'', ''job_id'', ''expense_id''}"
  shows "dget (update_item it status now extra) k = dget it k"
proof (cases extra)
  case None
  then show ?thesis using assms(2) by (auto simp: update_item_def)
next
  case (Some e)
  then have "k \<notin> fst ` set e"
    using assms by (auto simp: keeps_ids_def list_all_iff)
  then show ?thesis using Some assms(2)
    by (auto simp: update_item_def dget_dupdate_other)
qed

lemma has_id_update_item [simp]:
  "keeps_ids extra \<Longrightarrow> has_id (update_item it status now extra) x = has_id it x"
  by (simp add: has_id_def dget_update_item)

lemma ids_of_update_item [simp]:
  "keeps_ids extra \<Longrightarrow> ids_of (update_item it status now extra) = ids_of it"
  by (simp add: ids_of_def dget_update_item)

lemma same_item_ids: "same_item it old \<Longrightarrow> set (ids_of it) \<inter> set (ids_of old) \<noteq> {}"
  by (auto simp: same_item_def ids_of_def)

lemma has_id_truthy_not_Nil: "truthy x \<Longrightarrow> has_id it x \<Longrightarrow> it \<noteq> []"
  by (auto simp: has_id_def)

subsection \<open>Unique identifiers by counting\<close>

lemma unique_ids_count:
  "unique_ids xs \<longleftrightarrow> (\<forall>x. truthy x \<longrightarrow> length (filter (\<lambda>it. has_id it x) xs) \<le> 1)"
proof (induction xs)
  case Nil
  then show ?case by (simp add: unique_ids_def)
next
  case (Cons a xs)
  have "(\<forall>b \<in> set xs. set (ids_of a) \<inter> set (ids_of b) = {})
     \<longleftrightarrow> (\<forall>x. truthy x \<longrightarrow> has_id a x \<longrightarrow> filter (\<lambda>it. has_id it x) xs = [])"
    by (auto simp: filter_empty_conv disjoint_iff set_ids_of)
  moreover have "length (filter (\<lambda>it. has_id it x) (a # xs)) \<le> 1
     \<longleftrightarrow> (has_id a x \<longrightarrow> filter (\<lambda>it. has_id it x) xs = [])
        \<and> length (filter (\<lambda>it. has_id it x) xs) \<le> 1" for x
    by (cases "filter (\<lambda>it. has_id it x) xs") auto
  ultimately show ?case
    using Cons.IH by (simp only: unique_ids_def sorted_wrt.simps) blast
qed

lemma unique_ids_mset: "mset xs = mset ys \<Longrightarrow> unique_ids xs = unique_ids ys"
proof -
  assume eq: "mset xs = mset ys"
  have "length (filter P xs) = length (filter P ys)" for P
    by (metis eq mset_filter size_mset)
  then show ?thesis by (simp add: unique_ids_count)
qed

lemma mset_all_items: "mset (all_items c names) = (\<Sum>n \<leftarrow> names. mset (get_list c n))"
  by (induction names) (simp_all add: all_items_def)

lemma set_all_items: "set (all_items c names) = (\<Union>n \<in> set names. set (get_list c n))"
  by (simp add: all_items_def)

lemma find_item_in_lists_Some:
  "find_item_in_lists c x names = Some (it, src) \<Longrightarrow>
     src \<in> set names \<and> it \<in> set (get_list c src) \<and> has_id it x"
  by (induction names) (auto split: option.splits dest: find_SomeD)

lemma find_item_in_lists_None:
  "find_item_in_lists c x names = None \<Longrightarrow> it \<in> set (all_items c names) \<Longrightarrow> \<not> has_id it x"
  by (induction names) (auto simp: all_items_def find_None_iff split: option.splits)

lemma remove_first_filter:
  "length (filter P xs) \<le> 1 \<Longrightarrow> remove_first P xs = filter (\<lambda>x. \<not> P x) xs"
  by (induction xs) (auto simp: filter_empty_conv intro!: filter_True [symmetric])

lemma length_filter_le_all:
  "n \<in> set names \<Longrightarrow> length (filter P (get_list c n)) \<le> length (filter P (all_items c names))"
  by (induction names) (auto simp: all_items_def)

lemma unique_same_list:
  assumes "unique_ids (all_items c names)" "distinct names" "truthy x"
    and "n \<in> set names" "m \<in> set names" "a \<in> set (get_list c n)" "b \<in> set (get_list c m)"
    and "has_id a x" "has_id b x"
  shows "n = m \<and> a = b"
proof -
  let ?P = "\<lambda>it. has_id it x"
  have le: "length (filter ?P (all_items c names)) \<le> 1"
    using assms(1,3) by (simp add: unique_ids_count)
  have sum: "length (filter ?P (all_items c names)) = (\<Sum>k \<leftarrow> names. length (filter ?P (get_list c k)))"
    by (induction names) (simp_all add: all_items_def)
  have "n = m"
  proof (rule ccontr)
    assume "n \<noteq> m"
    have pos: "0 < length (filter ?P (get_list c k))" if "k \<in> {n, m}" for k
      using that assms(6-9) by (auto simp: filter_empty_conv)
    have "(\<Sum>k \<leftarrow> names. length (filter ?P (get_list c k)))
        = (\<Sum>k \<in> set names. length (filter ?P (get_list c k)))"
      using assms(2) by (simp add: sum_list_distinct_conv_sum_set)
    also have "\<dots> \<ge> (\<Sum>k \<in> {n, m}. length (filter ?P (get_list c k)))"
      using assms(4,5) by (intro sum_mono2) auto
    finally have "length (filter ?P (get_list c n)) + length (filter ?P (get_list c m)) \<le> 1"
      using le sum \<open>n \<noteq> m\<close> by simp
    with pos [of n] pos [of m] show False by (simp del: length_greater_0_conv)
  qed
  have one: "length (filter ?P (get_list c n)) \<le> 1"
    using le length_filter_le_all [OF assms(4)] order_trans by blast
  have "a \<in> set (filter ?P (get_list c n))" "b \<in> set (filter ?P (get_list c n))"
    using assms(6-9) \<open>n = m\<close> by auto
  from length_le_1_eq [OF one this] \<open>n = m\<close> show ?thesis by simp
qed

subsection \<open>One move\<close>

text \<open>
  The item with identifier \<open>x\<close> leaves its list and its updated copy becomes the head of the
  target list; every other entry keeps its place.
\<close>

lemma move_one_found:
  assumes wf: "wf_cache c names" "distinct names" and to: "to \<in> set names" "to \<noteq> []"
    and x: "truthy x" and kid: "keeps_ids extra"
    and found: "find_item_in_lists c x names = Some (it, src)"
  shows "move_one names to status action now extra (c, moved, frm) x = (c', moved', frm') \<Longrightarrow>
     moved' = moved @ [update_item it status now extra] \<and>
     (\<forall>n \<in> set names. get_list c' n =
       (if n = to \<and> action \<noteq> Some ''delete'' then [update_item it status now extra] else [])
        @ filter (\<lambda>i. \<not> has_id i x) (get_list c n))"
proof -
  let ?u = "update_item it status now extra"
  let ?c1 = "remove_item_from_list c x src"
  note f = find_item_in_lists_Some [OF found]
  have uniq: "n = src \<and> b = it" if "n \<in> set names" "b \<in> set (get_list c n)" "has_id b y" "has_id it y" "truthy y" for n b y
    using unique_same_list [OF wf(1) [unfolded wf_cache_def] wf(2) that(5) that(1) _ that(2) _ that(3)] f that(4)
    by blast
  have l1: "length (filter (\<lambda>i. has_id i x) (get_list c src)) \<le> 1"
    using wf(1) x f length_filter_le_all [of src names]
    unfolding wf_cache_def unique_ids_count by (meson order_trans)
  have c1: "get_list ?c1 n = filter (\<lambda>i. \<not> has_id i x) (get_list c n)" if n: "n \<in> set names" for n
  proof (cases "n = src")
    case True
    then show ?thesis using l1 by (simp add: get_list_remove remove_first_filter)
  next
    case False
    then have "\<forall>b \<in> set (get_list c n). \<not> has_id b x"
      using uniq n f x by blast
    then show ?thesis using False by (simp add: get_list_remove)
  qed
  have "\<not> same_item ?u old" if "old \<in> set (get_list ?c1 to)" for old
  proof
    assume "same_item ?u old"
    then obtain y where y: "truthy y" "has_id it y" "has_id old y"
      using same_item_ids kid by (fastforce simp: set_ids_of)
    have "old \<in> set (get_list c to)" "\<not> has_id old x"
      using that c1 [OF to(1)] by auto
    then show False using uniq [OF to(1) _ y(3) y(2) y(1)] f by blast
  qed
  then have "filter (\<lambda>old. \<not> same_item ?u old) (get_list ?c1 to) = get_list ?c1 to"
    by (simp add: filter_id_conv)
  moreover have "it \<noteq> []" using f x has_id_truthy_not_Nil by blast
  ultimately show "move_one names to status action now extra (c, moved, frm) x = (c', moved', frm') \<Longrightarrow> ?thesis"
    using found to(2) c1 by (auto simp: move_one_def Let_def get_list_add split: if_splits)
qed

subsection \<open>A batch of moves, as multisets\<close>

lemma sum_list_mset_if:
  "distinct ns \<Longrightarrow>
   (\<Sum>n \<leftarrow> ns. f n + (if n = m \<and> b then A else {#})) = (\<Sum>n \<leftarrow> ns. f n) + (if m \<in> set ns \<and> b then A else {#})"
  by (induction ns) auto

lemma sum_list_filter_mset:
  "(\<Sum>n \<leftarrow> ns. filter_mset P (f n)) = filter_mset P (\<Sum>n \<leftarrow> ns. f n)"
  by (induction ns) auto

lemma filter_mset_id: "(\<And>x. x \<in># M \<Longrightarrow> P x) \<Longrightarrow> filter_mset P M = M"
  by (induction M) auto

lemma filter_mset_disj:
  "filter_mset (\<lambda>i. P i \<or> Q i) A = filter_mset P A + filter_mset (\<lambda>i. Q i \<and> \<not> P i) A"
  by (induction A) auto

lemma size_filter_split:
  "size (filter_mset Q (filter_mset (\<lambda>i. \<not> P i) A)) + size (filter_mset Q (filter_mset P A))
     = size (filter_mset Q A)"
  by (induction A) auto

lemma filter_mset_unique:
  assumes "wf_cache c names" "distinct names" "truthy x" "n \<in> set names" "it \<in> set (get_list c n)" "has_id it x"
  shows "filter_mset (\<lambda>i. has_id i x) (mset (all_items c names)) = {#it#}"
proof -
  let ?xs = "filter (\<lambda>i. has_id i x) (all_items c names)"
  have "length ?xs \<le> 1"
    using assms(1,3) by (simp add: wf_cache_def unique_ids_count)
  moreover have "it \<in> set ?xs" using assms(4-6) by (auto simp: set_all_items)
  ultimately have "?xs = [it]" by (cases ?xs) auto
  then show ?thesis by (metis mset.simps mset_filter)
qed

lemma move_one_mset:
  fixes status now :: string and extra :: "pydict option" and c :: cache and x :: pyval and names
  defines "upd \<equiv> \<lambda>it. update_item it status now extra"
  assumes wf: "wf_cache c names" "distinct names" and to: "to \<in> set names" "to \<noteq> []"
    and x: "truthy x" and kid: "keeps_ids extra"
    and step: "move_one names to status action now extra (c, moved, frm) x = (c', moved', frm')"
  defines "R \<equiv> image_mset upd (filter_mset (\<lambda>i. has_id i x) (mset (all_items c names)))"
  shows "mset moved' = mset moved + R"
    and "n \<in> set names \<Longrightarrow> mset (get_list c' n) = filter_mset (\<lambda>i. \<not> has_id i x) (mset (get_list c n))
        + (if n = to \<and> action \<noteq> Some ''delete'' then R else {#})"
    and "mset (all_items c' names) = filter_mset (\<lambda>i. \<not> has_id i x) (mset (all_items c names))
        + (if action \<noteq> Some ''delete'' then R else {#})"
proof -
  have *: "mset moved' = mset moved + R \<and>
      (\<forall>n \<in> set names. mset (get_list c' n) = filter_mset (\<lambda>i. \<not> has_id i x) (mset (get_list c n))
        + (if n = to \<and> action \<noteq> Some ''delete'' then R else {#}))"
  proof (cases "find_item_in_lists c x names")
    case None
    then have no: "\<forall>i \<in> set (all_items c names). \<not> has_id i x"
      using find_item_in_lists_None by blast
    then have "R = {#}" by (auto simp: R_def filter_mset_eq_mempty_iff)
    moreover have "filter_mset (\<lambda>i. \<not> has_id i x) (mset (get_list c n)) = mset (get_list c n)"
      if "n \<in> set names" for n
    proof -
      have "filter (\<lambda>i. \<not> has_id i x) (get_list c n) = get_list c n"
        using no that by (auto simp: set_all_items filter_id_conv)
      then show ?thesis by (metis mset_filter)
    qed
    ultimately show ?thesis using None step by (auto simp: move_one_def)
  next
    case (Some p)
    obtain it src where p: "p = (it, src)" by fastforce
    note f = find_item_in_lists_Some [OF Some [unfolded p]]
    have "R = {#upd it#}"
      using filter_mset_unique [OF wf x, of src it] f by (simp add: R_def)
    then show ?thesis
      using move_one_found [OF wf to x kid Some [unfolded p] step] by (auto simp: upd_def)
  qed
  show "mset moved' = mset moved + R" using * by blast
  show "n \<in> set names \<Longrightarrow> mset (get_list c' n) = filter_mset (\<lambda>i. \<not> has_id i x) (mset (get_list c n))
        + (if n = to \<and> action \<noteq> Some ''delete'' then R else {#})" for n using * by blast
  have "(\<Sum>n \<leftarrow> names. mset (get_list c' n)) = (\<Sum>n \<leftarrow> names. filter_mset (\<lambda>i. \<not> has_id i x) (mset (get_list c n))
        + (if n = to \<and> action \<noteq> Some ''delete'' then R else {#}))"
    using * by (intro arg_cong [where f = sum_list] map_cong) auto
  then show "mset (all_items c' names) = filter_mset (\<lambda>i. \<not> has_id i x) (mset (all_items c names))
        + (if action \<noteq> Some ''delete'' then R else {#})"
    using wf(2) to(1) by (simp add: mset_all_items sum_list_mset_if sum_list_filter_mset)
qed

lemma move_one_wf:
  assumes wf: "wf_cache c names" "distinct names" and to: "to \<in> set names" "to \<noteq> []"
    and x: "truthy x" and kid: "keeps_ids extra"
    and step: "move_one names to status action now extra (c, moved, frm) x = (c', moved', frm')"
  shows "wf_cache c' names"
  unfolding wf_cache_def unique_ids_count
proof (intro allI impI)
  fix y assume y: "truthy y"
  let ?upd = "\<lambda>it. update_item it status now extra" and ?A = "mset (all_items c names)"
  have "size (filter_mset (\<lambda>i. has_id i y) (mset (all_items c' names)))
      \<le> size (filter_mset (\<lambda>i. has_id i y) (filter_mset (\<lambda>i. \<not> has_id i x) ?A))
       + size (filter_mset (\<lambda>i. has_id i y) (image_mset ?upd (filter_mset (\<lambda>i. has_id i x) ?A)))"
    by (simp add: move_one_mset(3) [OF wf to x kid step])
  also have "filter_mset (\<lambda>i. has_id i y) (image_mset ?upd M) = image_mset ?upd (filter_mset (\<lambda>i. has_id i y) M)" for M
    by (simp add: filter_mset_image_mset kid)
  also have "size (filter_mset (\<lambda>i. has_id i y) (filter_mset (\<lambda>i. \<not> has_id i x) ?A))
      + size (image_mset ?upd (filter_mset (\<lambda>i. has_id i y) (filter_mset (\<lambda>i. has_id i x) ?A)))
      = size (filter_mset (\<lambda>i. has_id i y) ?A)"
    by (simp only: size_image_mset size_filter_split)
  also have "\<dots> \<le> 1"
    using wf(1) y unfolding wf_cache_def unique_ids_count by (metis mset_filter size_mset)
  finally show "length (filter (\<lambda>i. has_id i y) (all_items c' names)) \<le> 1"
    by (metis mset_filter size_mset)
qed

lemma requested_simps [simp]:
  "requested [] it = False"
  "requested (x # xs) it = (has_id it x \<or> requested xs it)"
  by (simp_all add: requested_def)

lemma requested_update_item [simp]:
  "keeps_ids extra \<Longrightarrow> requested xs (update_item it status now extra) = requested xs it"
  by (simp add: requested_def list_ex_iff)

lemma requested_filter: "requested xs it \<longleftrightarrow> filter (has_id it) xs \<noteq> []"
  by (auto simp: requested_def list_ex_iff filter_empty_conv)

lemma proper_requestD:
  assumes "proper_request c names (x # xs)" "it \<in> set (all_items c names)" "has_id it x"
  shows "\<not> requested xs it"
  using assms by (auto simp: proper_request_def list_all_iff requested_filter)

lemma proper_request_subset:
  assumes "proper_request c names (x # xs)" and "keeps_ids extra"
    and "set (all_items c' names) \<subseteq> set (all_items c names) \<union> (\<lambda>it. update_item it status now extra) ` set (all_items c names)"
  shows "proper_request c' names xs"
proof -
  have "length (filter (has_id it) xs) \<le> 1" if it: "it \<in> set (all_items c' names)" for it
  proof -
    obtain it0 where it0: "it0 \<in> set (all_items c names)" and "has_id it = has_id it0"
      using it assms(2,3) by (fastforce simp: fun_eq_iff)
    moreover have "length (filter (has_id it0) xs) \<le> length (filter (has_id it0) (x # xs))"
      by simp
    ultimately show ?thesis
      using assms(1) by (fastforce simp: proper_request_def list_all_iff)
  qed
  then show ?thesis
    using assms(1) by (simp add: proper_request_def list_all_iff)
qed

text \<open>
  The refinement of the loop: seen as multisets, the requested items leave every list and
  their updated copies enter the target list (or disappear, when the action is a deletion).
\<close>

lemma move_all_mset:
  assumes "distinct names" "to \<in> set names" "to \<noteq> []" "keeps_ids extra"
    and "wf_cache c names" "proper_request c names xs"
    and "foldl (move_one names to status action now extra) (c, moved, frm) xs = (c', moved', frm')"
  defines "R \<equiv> image_mset (\<lambda>it. update_item it status now extra)
      (filter_mset (requested xs) (mset (all_items c names)))"
  shows "wf_cache c' names \<and> mset moved' = mset moved + R \<and>
    (\<forall>n \<in> set names. mset (get_list c' n) =
       filter_mset (\<lambda>it. \<not> requested xs it) (mset (get_list c n))
        + (if n = to \<and> action \<noteq> Some ''delete'' then R else {#}))"
  using assms(5-7) unfolding R_def
proof (induction xs arbitrary: c moved frm)
  case Nil
  then show ?case by simp
next
  case (Cons x xs)
  let ?upd = "\<lambda>it. update_item it status now extra" and ?A = "mset (all_items c names)"
  obtain c1 moved1 frm1 where step: "move_one names to status action now extra (c, moved, frm) x = (c1, moved1, frm1)"
    by (metis prod_cases3)
  have x: "truthy x" using Cons.prems(2) by (simp add: proper_request_def)
  note one = move_one_mset [OF Cons.prems(1) assms(1,2,3) x assms(4) step]
  note wf1 = move_one_wf [OF Cons.prems(1) assms(1,2,3) x assms(4) step]
  have "set (all_items c1 names) \<subseteq> set (all_items c names) \<union> ?upd ` set (all_items c names)"
    using arg_cong [OF one(3), of set_mset] by (auto split: if_splits)
  then have pr1: "proper_request c1 names xs"
    using Cons.prems(2) assms(4) proper_request_subset by blast
  have req: "requested (x # xs) = (\<lambda>i. has_id i x \<or> requested xs i)"
    by (simp add: fun_eq_iff)
  have hit: "filter_mset (requested xs) (filter_mset (\<lambda>i. has_id i x) ?A) = {#}"
    using proper_requestD [OF Cons.prems(2)] by (auto simp: filter_mset_eq_mempty_iff)
  have rest: "filter_mset (requested xs) (mset (all_items c1 names))
      = filter_mset (requested xs) (filter_mset (\<lambda>i. \<not> has_id i x) ?A)"
    using hit assms(4) by (auto simp: one(3) filter_mset_image_mset)
  have keep: "filter_mset (\<lambda>i. \<not> requested xs i) (image_mset ?upd (filter_mset (\<lambda>i. has_id i x) ?A))
      = image_mset ?upd (filter_mset (\<lambda>i. has_id i x) ?A)"
    using proper_requestD [OF Cons.prems(2)] assms(4) by (intro filter_mset_id) auto
  have "foldl (move_one names to status action now extra) (c1, moved1, frm1) xs = (c', moved', frm')"
    using Cons.prems(3) step by simp
  note IH = Cons.IH [OF wf1 pr1 this]
  show ?case using IH
    by (auto simp: one(1,2) req filter_mset_disj rest keep filter_filter_mset conj_commute split: if_splits)
qed

subsection \<open>Status changes of a registered domain\<close>

text \<open>
  In the context of the contract of a configuration class, \<open>apply_status_change\<close> is the batch
  of moves followed by the count.
\<close>

lemma get_domain_config_hit:
  "map_of reg domain = Some cfg \<Longrightarrow> get_domain_config reg domain = (reg, Some cfg)"
  by (auto simp: get_domain_config_def Let_def dest: map_of_SomeD intro: rev_image_eqI)

lemma apply_status_change_hit:
  assumes "map_of reg domain = Some cfg"
    and "apply_status_change reg domain c ids status action extra now = (reg', c', r)"
  obtains c1 moved frm where
    "foldl (move_one (map snd (LIST_NAMES cfg)) (cls_get_list_for_status cfg (normalize status DEFAULT_STATUS))
       (normalize status DEFAULT_STATUS) action now extra) (c, [], None) ids = (c1, moved, frm)"
    "reg' = reg" "c' = c1\<lparr>cache_counts := Some (calculate_counts c1 (map snd (LIST_NAMES cfg)))\<rparr>"
    "items_moved r = moved" "lcr_success r" "lcr_error r = None"
    "to_list r = cls_get_list_for_status cfg (normalize status DEFAULT_STATUS)"
    "new_status r = normalize status DEFAULT_STATUS"
    "lcr_counts r = calculate_counts c1 (map snd (LIST_NAMES cfg))"
    "map_option wp_counts (lcr_ws_payload r) = Some (calculate_counts c1 (map snd (LIST_NAMES cfg)))"
    "map_option wp_items (lcr_ws_payload r) = Some moved"
  using assms
  by (cases "foldl (move_one (map snd (LIST_NAMES cfg)) (cls_get_list_for_status cfg (normalize status DEFAULT_STATUS))
       (normalize status DEFAULT_STATUS) action now extra) (c, [], None) ids")
     (auto simp: apply_status_change_def get_domain_config_hit Let_def build_ws_payload_def)

lemma all_items_counts [simp]: "all_items (c\<lparr>cache_counts := k\<rparr>) names = all_items c names"
  by (simp add: all_items_def)

lemma calculate_counts_counts [simp]:
  "calculate_counts (c\<lparr>cache_counts := k\<rparr>) names = calculate_counts c names"
  by (simp add: calculate_counts_def)

context list_assignment
begin

lemma apply_refines:
  assumes reg: "map_of reg domain = Some cfg"
    and wf: "wf_cache c (map snd (LIST_NAMES cfg))"
    and pr: "proper_request c (map snd (LIST_NAMES cfg)) ids" and kid: "keeps_ids extra"
    and run: "apply_status_change reg domain c ids status action extra now = (reg', c', r)"
  defines "R \<equiv> image_mset (\<lambda>it. update_item it (new_status r) now extra)
      (filter_mset (requested ids) (mset (all_items c (map snd (LIST_NAMES cfg)))))"
  shows "wf_cache c' (map snd (LIST_NAMES cfg))"
    and "mset (items_moved r) = R"
    and "n \<in> snd ` set (LIST_NAMES cfg) \<Longrightarrow> mset (get_list c' n) =
       filter_mset (\<lambda>it. \<not> requested ids it) (mset (get_list c n))
        + (if n = to_list r \<and> action \<noteq> Some ''delete'' then R else {#})"
proof -
  obtain c1 moved frm where
    f: "foldl (move_one (map snd (LIST_NAMES cfg)) (cls_get_list_for_status cfg (normalize status DEFAULT_STATUS))
       (normalize status DEFAULT_STATUS) action now extra) (c, [], None) ids = (c1, moved, frm)"
    and r: "c' = c1\<lparr>cache_counts := Some (calculate_counts c1 (map snd (LIST_NAMES cfg)))\<rparr>"
    "items_moved r = moved" "to_list r = cls_get_list_for_status cfg (normalize status DEFAULT_STATUS)"
    "new_status r = normalize status DEFAULT_STATUS"
    by (rule apply_status_change_hit [OF reg run]) blast
  note all = move_all_mset [OF names_distinct assigned_listed assigned_nonempty kid wf pr f]
  show "wf_cache c' (map snd (LIST_NAMES cfg))" "mset (items_moved r) = R"
    using all by (simp_all add: R_def r wf_cache_def)
  show "n \<in> snd ` set (LIST_NAMES cfg) \<Longrightarrow> mset (get_list c' n) =
       filter_mset (\<lambda>it. \<not> requested ids it) (mset (get_list c n))
        + (if n = to_list r \<and> action \<noteq> Some ''delete'' then R else {#})"
    using all by (auto simp: R_def r)
qed

end

subsection \<open>Rolling back\<close>

definition identity :: "item \<Rightarrow> pyval list" where
  "identity it = [dget it ''id'', dget it ''job_id'', dget it ''expense_id'']"

lemma identity_update_item [simp]:
  "keeps_ids extra \<Longrightarrow> identity (update_item it status now extra) = identity it"
  by (simp add: identity_def dget_update_item)

lemma unique_ids_eq:
  assumes "unique_ids xs" "a \<in> set xs" "b \<in> set xs" "truthy x" "has_id a x" "has_id b x"
  shows "a = b"
  using assms length_le_1_eq [of "filter (\<lambda>it. has_id it x) xs" a b]
  by (auto simp: unique_ids_count)

text \<open>The \<open>id\<close> fields of some entries of a well-formed cache are a proper request for them.\<close>

lemma id_fields_request:
  assumes uniq: "unique_ids (all_items c names)"
    and sub: "mset its \<subseteq># mset (all_items c names)"
    and ids: "\<And>it. it \<in> set its \<Longrightarrow> truthy (dget it ''id'')"
  shows "proper_request c names (map (\<lambda>it. dget it ''id'') its)"
    and "it \<in> set (all_items c names) \<Longrightarrow> requested (map (\<lambda>it. dget it ''id'') its) it \<longleftrightarrow> it \<in> set its"
proof -
  let ?id = "\<lambda>it. dget it ''id''"
  have mem: "it \<in> set (all_items c names)" if "it \<in> set its" for it
    using that sub by (meson mset_subset_eqD set_mset_mset in_multiset_in_set)
  have own: "has_id it (?id it)" for it by (simp add: has_id_def)
  have eq: "b = it" if "b \<in> set its" "it \<in> set (all_items c names)" "has_id it (?id b)" for b it
    using unique_ids_eq [OF uniq mem [OF that(1)] that(2) ids [OF that(1)] own that(3)] .
  show "requested (map ?id its) it \<longleftrightarrow> it \<in> set its" if "it \<in> set (all_items c names)" for it
    using eq [OF _ that] own by (auto simp: requested_def list_ex_iff)
  have count1: "length (filter (\<lambda>b. has_id b (?id it)) its) \<le> 1" if "it \<in> set its" for it
  proof -
    have "size (filter_mset (\<lambda>b. has_id b (?id it)) (mset its))
        \<le> size (filter_mset (\<lambda>b. has_id b (?id it)) (mset (all_items c names)))"
      using sub by (intro size_mset_mono multiset_filter_mono)
    also have "\<dots> \<le> 1"
      using uniq ids [OF that] unfolding unique_ids_count by (metis mset_filter size_mset)
    finally show ?thesis by (metis mset_filter size_mset)
  qed
  have "distinct (map ?id its)"
    using count1 mem eq
  proof (induction its)
    case (Cons a its)
    have "?id a \<notin> ?id ` set its"
    proof
      assume "?id a \<in> ?id ` set its"
      then obtain b where b: "b \<in> set its" "?id b = ?id a" by auto
      then have "filter (\<lambda>i. has_id i (?id a)) its \<noteq> []"
        using own [of b] by (auto simp: filter_empty_conv)
      then show False using Cons.prems(1) [of a] own [of a]
        by (cases "filter (\<lambda>i. has_id i (?id a)) its") auto
    qed
    moreover have "length (filter (\<lambda>b. has_id b (?id it)) its) \<le> 1" if "it \<in> set its" for it
      using Cons.prems(1) [of it] that by (auto split: if_splits)
    ultimately show ?case using Cons by auto
  qed simp
  moreover have "length (filter (has_id it) (map ?id its)) \<le> 1" if "it \<in> set (all_items c names)" for it
    using eq [OF _ that] \<open>distinct (map ?id its)\<close>
  proof (induction its)
    case (Cons a its)
    have "filter (has_id it) (map ?id its) = []" if "has_id it (?id a)"
    proof -
      have "a = it" using Cons.prems(1) [of a] that by simp
      then show ?thesis using Cons.prems by (fastforce simp: filter_empty_conv)
    qed
    then show ?case using Cons by auto
  qed simp
  ultimately show "proper_request c names (map ?id its)"
    using ids by (simp add: proper_request_def list_all_iff)
qed

lemma sum_list_empty: "(\<Sum>n \<leftarrow> ns. {#}) = {#}"
  by (induction ns) auto

context list_assignment
begin

lemma apply_all_items:
  assumes reg: "map_of reg domain = Some cfg"
    and wf: "wf_cache c (map snd (LIST_NAMES cfg))"
    and pr: "proper_request c (map snd (LIST_NAMES cfg)) ids" and kid: "keeps_ids extra"
    and act: "action \<noteq> Some ''delete''"
    and run: "apply_status_change reg domain c ids status action extra now = (reg', c', r)"
  shows "mset (all_items c' (map snd (LIST_NAMES cfg)))
      = filter_mset (\<lambda>it. \<not> requested ids it) (mset (all_items c (map snd (LIST_NAMES cfg)))) + mset (items_moved r)"
proof -
  let ?names = "map snd (LIST_NAMES cfg)"
  have "(\<Sum>n \<leftarrow> ?names. mset (get_list c' n)) = (\<Sum>n \<leftarrow> ?names. filter_mset (\<lambda>it. \<not> requested ids it) (mset (get_list c n))
      + (if n = to_list r \<and> True then mset (items_moved r) else {#}))"
    using apply_refines(2,3) [OF reg wf pr kid run] act
    by (intro arg_cong [where f = sum_list] map_cong) auto
  moreover have "to_list r \<in> set ?names"
    by (rule apply_status_change_hit [OF reg run]) (simp only: assigned_listed)
  ultimately show ?thesis
    using names_distinct by (simp only: mset_all_items sum_list_mset_if sum_list_filter_mset) simp
qed

lemma apply_moved:
  assumes reg: "map_of reg domain = Some cfg"
    and wf: "wf_cache c (map snd (LIST_NAMES cfg))"
    and pr: "proper_request c (map snd (LIST_NAMES cfg)) ids" and kid: "keeps_ids extra"
    and run: "apply_status_change reg domain c ids status action extra now = (reg', c', r)"
    and it: "it \<in> set (items_moved r)"
  shows "requested ids it"
    and "\<exists>it0 \<in> set (all_items c (map snd (LIST_NAMES cfg))). requested ids it0 \<and> identity it = identity it0"
proof -
  have "it \<in># image_mset (\<lambda>it. update_item it (new_status r) now extra)
      (filter_mset (requested ids) (mset (all_items c (map snd (LIST_NAMES cfg)))))"
    using apply_refines(2) [OF reg wf pr kid run] it by (metis in_multiset_in_set)
  then obtain it0 where "it0 \<in> set (all_items c (map snd (LIST_NAMES cfg)))" "requested ids it0"
    "it = update_item it0 (new_status r) now extra" by auto
  then show "requested ids it"
    and "\<exists>it0 \<in> set (all_items c (map snd (LIST_NAMES cfg))). requested ids it0 \<and> identity it = identity it0"
    using kid by auto
qed

lemma requested_at_home:
  assumes "\<And>n it. n \<in> snd ` set (LIST_NAMES cfg) \<Longrightarrow> it \<in> set (get_list c n) \<Longrightarrow> requested ids it \<Longrightarrow>
      n = cls_get_list_for_status cfg st"
  shows "filter_mset (requested ids) (mset (all_items c (map snd (LIST_NAMES cfg))))
      = filter_mset (requested ids) (mset (get_list c (cls_get_list_for_status cfg st)))"
proof -
  let ?names = "map snd (LIST_NAMES cfg)" and ?L = "cls_get_list_for_status cfg st"
  have "(\<Sum>n \<leftarrow> ?names. filter_mset (requested ids) (mset (get_list c n)))
      = (\<Sum>n \<leftarrow> ?names. {#} + (if n = ?L \<and> True then filter_mset (requested ids) (mset (get_list c ?L)) else {#}))"
    using assms by (intro arg_cong [where f = sum_list] map_cong) (auto simp: filter_mset_eq_mempty_iff)
  then show ?thesis
    using names_distinct assigned_listed
    by (simp only: sum_list_mset_if sum_list_filter_mset mset_all_items) (simp add: comp_def sum_list_empty)
qed

lemma rollback_restores:
  assumes reg: "map_of reg domain = Some cfg"
    and wf: "wf_cache c (map snd (LIST_NAMES cfg))"
    and pr: "proper_request c (map snd (LIST_NAMES cfg)) ids" and kid: "keeps_ids extra"
    and act: "action \<noteq> Some ''delete''"
    and home: "\<And>n it. n \<in> snd ` set (LIST_NAMES cfg) \<Longrightarrow> it \<in> set (get_list c n) \<Longrightarrow> requested ids it \<Longrightarrow>
        n = cls_get_list_for_status cfg (normalize orig DEFAULT_STATUS) \<and> truthy (dget it ''id'')"
    and run: "apply_status_change reg domain c ids status action extra now = (reg', c', r)"
    and undo: "rollback_status_change reg domain c' (items_moved r) orig olist now' = (reg'', c'', r')"
    and n: "n \<in> snd ` set (LIST_NAMES cfg)"
  shows "image_mset identity (mset (get_list c'' n)) = image_mset identity (mset (get_list c n))"
proof -
  let ?names = "map snd (LIST_NAMES cfg)" and ?L = "cls_get_list_for_status cfg (normalize orig DEFAULT_STATUS)"
  let ?A = "mset (all_items c ?names)" and ?M = "mset (items_moved r)"
  let ?ids = "map (\<lambda>it. dget it ''id'') (items_moved r)" and ?B = "mset (all_items c' ?names)"
  note one = apply_refines [OF reg wf pr kid run]
  note all' = apply_all_items [OF reg wf pr kid act run]
  note moved = apply_moved [OF reg wf pr kid run]
  have ids: "truthy (dget it ''id'')" if "it \<in> set (items_moved r)" for it
    using moved(2) [OF that] home by (fastforce simp: set_all_items identity_def)
  have wf': "unique_ids (all_items c' ?names)" using one(1) by (simp add: wf_cache_def)
  have sub: "?M \<subseteq># ?B" by (simp add: all')
  note req2 = id_fields_request [OF wf' sub ids]
  have reqs: "requested ?ids it \<longleftrightarrow> requested ids it" if "it \<in># ?B" for it
    using req2(2) [of it] that moved(1) by (auto simp: all' simp flip: set_mset_mset)
  have undo': "apply_status_change reg domain c' ?ids orig (Some ''rollback'') None now' = (reg'', c'', r')"
    using undo by (simp add: rollback_status_change_def)
  have L: "to_list r' = ?L" by (rule apply_status_change_hit [OF reg undo']) simp
  have two: "mset (get_list c'' n) = filter_mset (\<lambda>it. \<not> requested ?ids it) (mset (get_list c' n))
      + (if n = ?L then image_mset (\<lambda>it. update_item it (new_status r') now' None) (filter_mset (requested ?ids) ?B) else {#})"
    using apply_refines(3) [OF reg one(1) req2(1) _ undo' n] L by (simp add: keeps_ids_def)
  have "filter_mset (\<lambda>it. \<not> requested ?ids it) (mset (get_list c' n))
      = filter_mset (\<lambda>it. \<not> requested ids it) (mset (get_list c' n))"
    using reqs n by (intro filter_mset_cong) (auto simp: set_all_items)
  also have "\<dots> = filter_mset (\<lambda>it. \<not> requested ids it) (mset (get_list c n))"
    using moved(1) by (auto simp: one(3) [OF n] one(2) [symmetric] filter_filter_mset)
  finally have stay: "filter_mset (\<lambda>it. \<not> requested ?ids it) (mset (get_list c' n))
      = filter_mset (\<lambda>it. \<not> requested ids it) (mset (get_list c n))" .
  have "filter_mset (requested ?ids) ?B = filter_mset (requested ids) ?B"
    using reqs by (intro filter_mset_cong) auto
  also have "\<dots> = ?M"
    using filter_mset_id [of ?M "requested ids"] moved(1) by (simp add: all' filter_filter_mset)
  finally have "image_mset (\<lambda>it. identity (update_item it (new_status r') now' None)) (filter_mset (requested ?ids) ?B)
      = image_mset identity (filter_mset (requested ids) ?A)"
    using one(2) kid by (simp add: image_mset.compositionality comp_def keeps_ids_def)
  moreover have "filter_mset (requested ids) ?A = filter_mset (requested ids) (mset (get_list c ?L))"
    using home by (intro requested_at_home) auto
  moreover have "filter_mset (requested ids) (mset (get_list c n)) = {#}" if "n \<noteq> ?L"
    using home [OF n] that by (auto simp: filter_mset_eq_mempty_iff)
  moreover have "image_mset identity (mset (get_list c n)) = image_mset identity (filter_mset (\<lambda>it. \<not> requested ids it) (mset (get_list c n)))
      + image_mset identity (filter_mset (requested ids) (mset (get_list c n)))"
    by (metis add.commute image_mset_union multiset_partition)
  ultimately show ?thesis
    by (simp add: two stay image_mset.compositionality comp_def)
qed

end

section \<open>Properties\<close>

text \<open>The four lists every built-in domain uses.\<close>

definition LISTS :: "string list" where
  "LISTS = [''to_process'', ''in_process'', ''pending'', ''processed'']"

lemma domain_configs_lists: "map_of DOMAIN_CONFIGS d = Some cfg \<Longrightarrow> map snd (LIST_NAMES cfg) = LISTS"
  using domain_configs_names by (simp add: std_list_names_def LISTS_def)

text \<open>
  C1: a status change moves exactly the requested items. On a well-formed cache of a built-in
  domain, seen as multisets, every requested item leaves the list it is in, its copy with the
  new status enters the target list (or is dropped, for the action delete), all other items stay
  where they are, the result lists exactly the moved copies, and the cache stays well formed.
\<close>

theorem apply_status_change_moves:
  assumes "map_of DOMAIN_CONFIGS domain = Some cfg"
    and "wf_cache c LISTS" and "proper_request c LISTS ids" and "keeps_ids extra"
    and "apply_status_change DOMAIN_CONFIGS domain c ids status action extra now = (reg', c', r)"
  defines "R \<equiv> image_mset (\<lambda>it. update_item it (new_status r) now extra)
      (filter_mset (requested ids) (mset (all_items c LISTS)))"
  shows "wf_cache c' LISTS \<and> mset (items_moved r) = R \<and> to_list r \<in> set LISTS \<and>
    (\<forall>n \<in> set LISTS. mset (get_list c' n) =
       filter_mset (\<lambda>it. \<not> requested ids it) (mset (get_list c n))
        + (if n = to_list r \<and> action \<noteq> Some ''delete'' then R else {#}))"
proof -
  note cfg = domain_configs_contract [OF assms(1)] and names = domain_configs_lists [OF assms(1)]
  note ref = list_assignment.apply_refines [OF cfg assms(1), of c ids, unfolded names, OF assms(2-5)]
  have "snd ` set (LIST_NAMES cfg) = set LISTS" using names by (metis set_map)
  moreover have "to_list r \<in> set LISTS"
    by (rule apply_status_change_hit [OF assms(1,5)])
       (simp only: list_assignment.assigned_listed [OF cfg] flip: names)
  ultimately show ?thesis using ref by (simp add: R_def)
qed

text \<open>A page with one item to process and one in process, used by the witnesses.\<close>

definition demo_cache :: cache where
  "demo_cache = \<lparr>lists = [''to_process'' \<mapsto> [[(''id'', PStr ''a''), (''status'', PStr ''to_process'')]],
     ''in_process'' \<mapsto> [[(''id'', PStr ''b''), (''status'', PStr ''on_process'')]]], cache_counts = None\<rparr>"

lemma demo_cache_wf: "wf_cache demo_cache LISTS" "proper_request demo_cache LISTS [PStr ''a'']"
  by (simp_all add: wf_cache_def unique_ids_def all_items_def LISTS_def get_list_def demo_cache_def
      ids_of_def proper_request_def has_id_def)

theorem apply_status_change_moves_witness:
  "\<exists>reg' c' r. apply_status_change DOMAIN_CONFIGS ''routing'' demo_cache [PStr ''a''] (Some ''queued'')
       (Some ''process'') None ''t'' = (reg', c', r) \<and>
     wf_cache demo_cache LISTS \<and> proper_request demo_cache LISTS [PStr ''a''] \<and> wf_cache c' LISTS \<and>
     to_list r \<in> set LISTS"
proof -
  obtain reg' c' r where run: "apply_status_change DOMAIN_CONFIGS ''routing'' demo_cache [PStr ''a'']
      (Some ''queued'') (Some ''process'') None ''t'' = (reg', c', r)"
    by (metis prod_cases3)
  have "map_of DOMAIN_CONFIGS ''routing'' = Some RoutingDomainConfig"
    by (simp add: DOMAIN_CONFIGS_def)
  from apply_status_change_moves [OF this demo_cache_wf _ run] run demo_cache_wf
  show ?thesis by (auto simp: keeps_ids_def)
qed

text \<open>
  C29: an optimistic update that failed can be undone. On a well-formed cache of a built-in
  domain, for an action other than \<open>delete\<close>, when every requested item carries a non-empty \<open>id\<close> and lies
  in the list its original status belongs to (expenses do not: \<open>rollback_expense_missed\<close>), a status change followed by \<open>rollback_status_change\<close> of the moved items gives
  every list back the same items (as a multiset of identities).
\<close>

theorem rollback_round_trip:
  assumes "map_of DOMAIN_CONFIGS domain = Some cfg"
    and "wf_cache c LISTS" and "proper_request c LISTS ids" and "keeps_ids extra"
    and "action \<noteq> Some ''delete''"
    and "\<And>n it. n \<in> set LISTS \<Longrightarrow> it \<in> set (get_list c n) \<Longrightarrow> requested ids it \<Longrightarrow>
        n = cls_get_list_for_status cfg (normalize orig DEFAULT_STATUS) \<and> truthy (dget it ''id'')"
    and "apply_status_change DOMAIN_CONFIGS domain c ids status action extra now = (reg', c', r)"
    and "rollback_status_change DOMAIN_CONFIGS domain c' (items_moved r) orig olist now' = (reg'', c'', r')"
    and "n \<in> set LISTS"
  shows "image_mset identity (mset (get_list c'' n)) = image_mset identity (mset (get_list c n))"
proof -
  note cfg = domain_configs_contract [OF assms(1)] and names = domain_configs_lists [OF assms(1)]
  have img: "snd ` set (LIST_NAMES cfg) = set LISTS" using names by (metis set_map)
  show ?thesis
    using list_assignment.rollback_restores [OF cfg assms(1), of c ids, unfolded names img, OF assms(2-9)] .
qed

theorem rollback_round_trip_witness:
  "\<exists>reg' c' r reg'' c'' r'.
     apply_status_change DOMAIN_CONFIGS ''routing'' demo_cache [PStr ''a''] (Some ''queued'')
       (Some ''process'') None ''t'' = (reg', c', r) \<and>
     rollback_status_change DOMAIN_CONFIGS ''routing'' c' (items_moved r) (Some ''to_process'') ''to_process'' ''u''
       = (reg'', c'', r') \<and>
     image_mset identity (mset (get_list c'' ''to_process'')) = {#[PStr ''a'', PNone, PNone]#}"
proof -
  obtain reg' c' r where run: "apply_status_change DOMAIN_CONFIGS ''routing'' demo_cache [PStr ''a'']
      (Some ''queued'') (Some ''process'') None ''t'' = (reg', c', r)"
    by (metis prod_cases3)
  obtain reg'' c'' r' where undo: "rollback_status_change DOMAIN_CONFIGS ''routing'' c' (items_moved r)
      (Some ''to_process'') ''to_process'' ''u'' = (reg'', c'', r')"
    by (metis prod_cases3)
  have cfg: "map_of DOMAIN_CONFIGS ''routing'' = Some RoutingDomainConfig"
    by (simp add: DOMAIN_CONFIGS_def)
  have target: "cls_get_list_for_status RoutingDomainConfig (normalize (Some ''to_process'') DEFAULT_STATUS) = ''to_process''"
    using get_category_value [of TO_PROCESS] normalize_value [of TO_PROCESS]
    by (simp add: RoutingDomainConfig_def base_std_eq NORMALIZED_TO_CATEGORY_def del: normalize.simps)
  have "image_mset identity (mset (get_list c'' ''to_process'')) = image_mset identity (mset (get_list demo_cache ''to_process''))"
    by (rule rollback_round_trip [OF cfg demo_cache_wf _ _ _ run undo, unfolded target])
       (auto simp: keeps_ids_def LISTS_def demo_cache_def get_list_def has_id_def)
  moreover have "image_mset identity (mset (get_list demo_cache ''to_process'')) = {#[PStr ''a'', PNone, PNone]#}"
    by (simp add: get_list_def demo_cache_def identity_def)
  ultimately show ?thesis using run undo by metis
qed

text \<open>
  For expenses the rollback misses its item. Expenses carry an \<open>expense_id\<close> and no \<open>id\<close>,
  so \<open>rollback_status_change\<close> searches for \<open>None\<close>, which the first expense without an \<open>id\<close>
  matches: after closing expense e2 and rolling back, e2 is still in the processed list.
\<close>

definition expense_cache :: cache where
  "expense_cache = \<lparr>lists = [''to_process'' \<mapsto> [[(''expense_id'', PStr ''e1'')], [(''expense_id'', PStr ''e2'')]]],
     cache_counts = None\<rparr>"

theorem rollback_expense_missed:
  "case apply_status_change DOMAIN_CONFIGS ''expenses'' expense_cache [PStr ''e2''] (Some ''processed'')
       (Some ''close'') None ''t'' of (reg', c', r) \<Rightarrow>
     (case rollback_status_change reg' ''expenses'' c' (items_moved r) (Some ''to_process'') ''to_process'' ''u'' of
        (reg'', c'', r') \<Rightarrow>
          map (\<lambda>it. dget it ''expense_id'') (get_list c' ''processed'') = [PStr ''e2''] \<and>
          map (\<lambda>it. dget it ''expense_id'') (get_list c'' ''processed'') = [PStr ''e2''] \<and>
          map (\<lambda>it. dget it ''expense_id'') (get_list c'' ''to_process'') = [PStr ''e1''])"
  by code_simp

text \<open>
  An expense that starts running is shown as not started. Although the expenses
  configuration sends the raw status running to the in-process list, \<open>apply_status_change\<close>
  normalises the status first, and no normalised in-progress status is in the expenses table: the
  target list of every in-progress status is to_process.
\<close>

theorem expenses_in_progress_list:
  assumes "is_in_progress raw"
    and "apply_status_change DOMAIN_CONFIGS ''expenses'' c ids (Some raw) action extra now = (reg', c', r)"
  shows "to_list r = ''to_process'' \<and> expenses_get_list_for_status ''running'' = ''in_process''"
proof
  have cfg: "map_of DOMAIN_CONFIGS ''expenses'' = Some ExpensesDomainConfig"
    by (simp add: DOMAIN_CONFIGS_def)
  have "expenses_get_list_for_status s = ''to_process''" if "s \<in> {''in_queue'', ''on_process'', ''stopping''}" for s
    using that by (auto simp: expenses_get_list_for_status_def expenses_overrides_def list_name_or_def
        std_list_names_def str_eval)
  then have "expenses_get_list_for_status (normalize (Some raw) DEFAULT_STATUS) = ''to_process''"
    using assms(1) unfolding is_in_progress_def status_value.simps by blast
  then show "to_list r = ''to_process''"
    by - (rule apply_status_change_hit [OF cfg assms(2)], simp add: ExpensesDomainConfig_def)
  show "expenses_get_list_for_status ''running'' = ''in_process''"
    by (simp add: expenses_get_list_for_status_def expenses_overrides_def list_name_or_def
        std_list_names_def str_eval)
qed

theorem expenses_in_progress_list_witness:
  "\<exists>reg' c' r. is_in_progress ''running'' \<and>
     apply_status_change DOMAIN_CONFIGS ''expenses'' expense_cache [PStr ''e2''] (Some ''running'')
       (Some ''process'') None ''t'' = (reg', c', r) \<and> to_list r = ''to_process''"
proof -
  have h: "is_in_progress ''running''" by code_simp
  obtain reg' c' r where run: "apply_status_change DOMAIN_CONFIGS ''expenses'' expense_cache [PStr ''e2'']
      (Some ''running'') (Some ''process'') None ''t'' = (reg', c', r)"
    by (metis prod_cases3)
  from expenses_in_progress_list [OF h run] run h show ?thesis by blast
qed

text \<open>
  A domain registered before the first use of a built-in domain is lost. The registry of
  the list manager starts empty; looking up a built-in domain that is not in it replaces the
  whole registry, so a domain registered earlier is unknown afterwards.
\<close>

theorem registered_domain_lost:
  assumes "custom \<notin> set (get_supported_domains DOMAIN_CONFIGS)"
    and "builtin \<in> set (get_supported_domains DOMAIN_CONFIGS)"
  shows "snd (get_domain_config (register_domain [] custom cfg) custom) = Some cfg \<and>
    snd (get_domain_config (fst (get_domain_config (register_domain [] custom cfg) builtin)) custom) = None"
proof -
  have "builtin \<noteq> custom" using assms by blast
  moreover have "map_of DOMAIN_CONFIGS custom = None"
    using assms(1) by (simp add: get_supported_domains_def map_of_eq_None_iff)
  ultimately show ?thesis
    using assms(1) by (auto simp: get_domain_config_def register_domain_def Let_def get_supported_domains_def)
qed

theorem registered_domain_lost_witness:
  "''payroll'' \<notin> set (get_supported_domains DOMAIN_CONFIGS) \<and>
   snd (get_domain_config (fst (get_domain_config (register_domain [] ''payroll'' RoutingDomainConfig) ''routing'')) ''payroll'') = None"
proof -
  have h: "''payroll'' \<notin> set (get_supported_domains DOMAIN_CONFIGS)"
    "''routing'' \<in> set (get_supported_domains DOMAIN_CONFIGS)"
    by (simp_all add: get_supported_domains_def DOMAIN_CONFIGS_def)
  show ?thesis using registered_domain_lost [OF h] h(1) by blast
qed

end
