(* ===== verification/Redis_Client.thy ===== *)
theory Redis_Client
  imports Prelude
begin

text \<open>
  Redis is a service outside the repository, so it is a parameter: a record of the commands the
  service calls, over an abstract server state. Every command may raise, and returns the new
  server state. The locale \<open>redis_server\<close> states the documented effect of a command that
  returns, over the map of live keys to their value and remaining time to live; \<open>redis_up\<close> adds
  that a well-typed command returns. Time passes by \<open>tick\<close> only.

  A value stored by the service is either the text of a JSON document or any other text. The
  JSON text itself is not modelled: \<open>json.dumps(v)\<close> is \<open>Json v\<close> and \<open>json.loads\<close> is its
  inverse, raising on a text that is not JSON.

  \<open>mem_redis\<close> is an in-memory server with a clock and lazily expiring keys; it interprets both
  locales and is the instance the witnesses run on.
\<close>

section \<open>Texts and JSON\<close>

datatype text_val = Json pyval | Raw string

definition json_dumps :: "pyval \<Rightarrow> text_val" where
  "json_dumps v = Json v"

fun json_loads :: "text_val \<Rightarrow> pyval result" where
  "json_loads (Json v) = Inr v"
| "json_loads (Raw s) = Inl JSONDecodeError"

lemma json_loads_dumps [simp]: "json_loads (json_dumps v) = Inr v"
  by (simp add: json_dumps_def)

section \<open>The client interface\<close>

datatype rvalue = VStr text_val | VList "text_val list" | VHash "(string \<times> text_val) list"

type_synonym rview = "string \<Rightarrow> (rvalue \<times> nat option) option"

record 's redis =
  r_get :: "string \<Rightarrow> 's \<Rightarrow> text_val option result \<times> 's"
  r_setex :: "string \<Rightarrow> nat \<Rightarrow> text_val \<Rightarrow> 's \<Rightarrow> unit result \<times> 's"
  r_set_nx_ex :: "string \<Rightarrow> text_val \<Rightarrow> nat \<Rightarrow> 's \<Rightarrow> bool result \<times> 's"
  r_delete :: "string list \<Rightarrow> 's \<Rightarrow> nat result \<times> 's"
  r_exists :: "string \<Rightarrow> 's \<Rightarrow> nat result \<times> 's"
  r_expire :: "string \<Rightarrow> nat \<Rightarrow> 's \<Rightarrow> bool result \<times> 's"
  r_keys :: "string \<Rightarrow> 's \<Rightarrow> string list result \<times> 's"
  r_rpush :: "string \<Rightarrow> text_val \<Rightarrow> 's \<Rightarrow> nat result \<times> 's"
  r_lrange_all :: "string \<Rightarrow> 's \<Rightarrow> text_val list result \<times> 's"
  r_llen :: "string \<Rightarrow> 's \<Rightarrow> nat result \<times> 's"
  r_set :: "string \<Rightarrow> text_val \<Rightarrow> 's \<Rightarrow> unit result \<times> 's"
  r_strlen :: "string \<Rightarrow> 's \<Rightarrow> nat result \<times> 's"
  r_hset :: "string \<Rightarrow> (string \<times> text_val) list \<Rightarrow> 's \<Rightarrow> nat result \<times> 's"
  r_hget :: "string \<Rightarrow> string \<Rightarrow> 's \<Rightarrow> text_val option result \<times> 's"
  r_lpush :: "string \<Rightarrow> text_val \<Rightarrow> 's \<Rightarrow> nat result \<times> 's"
  r_publish :: "string \<Rightarrow> text_val \<Rightarrow> 's \<Rightarrow> nat result \<times> 's"

text \<open>
  Calls in sequence over the server state: an exception skips the rest and keeps the effects so
  far. \<open>stry\<close> is \<open>try ... except Exception\<close> with a handler that returns a value.
\<close>

definition sret :: "'a \<Rightarrow> 's \<Rightarrow> 'a result \<times> 's" where
  "sret x s = (Inr x, s)"

definition sraise :: "exn \<Rightarrow> 's \<Rightarrow> 'a result \<times> 's" where
  "sraise e s = (Inl e, s)"

definition slift :: "'a result \<Rightarrow> 's \<Rightarrow> 'a result \<times> 's" where
  "slift r s = (r, s)"

definition sbind :: "('s \<Rightarrow> 'a result \<times> 's) \<Rightarrow> ('a \<Rightarrow> 's \<Rightarrow> 'b result \<times> 's) \<Rightarrow> 's \<Rightarrow> 'b result \<times> 's" where
  "sbind m f s = (case m s of (Inl e, s') \<Rightarrow> (Inl e, s') | (Inr x, s') \<Rightarrow> f x s')"

definition stry :: "('s \<Rightarrow> 'a result \<times> 's) \<Rightarrow> (exn \<Rightarrow> 'a) \<Rightarrow> 's \<Rightarrow> 'a \<times> 's" where
  "stry m h s = (case m s of (Inl e, s') \<Rightarrow> (h e, s') | (Inr x, s') \<Rightarrow> (x, s'))"

lemmas seq_defs = sret_def sraise_def slift_def sbind_def stry_def

text \<open>The string or the list at a key; \<open>None\<close> where the key holds the other type.\<close>

definition str_at :: "rview \<Rightarrow> string \<Rightarrow> text_val option" where
  "str_at vw k = (case vw k of Some (VStr t, _) \<Rightarrow> Some t | _ \<Rightarrow> None)"

definition list_at :: "rview \<Rightarrow> string \<Rightarrow> text_val list" where
  "list_at vw k = (case vw k of Some (VList ts, _) \<Rightarrow> ts | _ \<Rightarrow> [])"

definition str_key :: "rview \<Rightarrow> string \<Rightarrow> bool" where
  "str_key vw k = (case vw k of None \<Rightarrow> True | Some (VStr _, _) \<Rightarrow> True | _ \<Rightarrow> False)"

definition list_key :: "rview \<Rightarrow> string \<Rightarrow> bool" where
  "list_key vw k = (case vw k of None \<Rightarrow> True | Some (VList _, _) \<Rightarrow> True | _ \<Rightarrow> False)"

definition hash_at :: "rview \<Rightarrow> string \<Rightarrow> (string \<times> text_val) list" where
  "hash_at vw k = (case vw k of Some (VHash h, _) \<Rightarrow> h | _ \<Rightarrow> [])"

definition hash_key :: "rview \<Rightarrow> string \<Rightarrow> bool" where
  "hash_key vw k = (case vw k of None \<Rightarrow> True | Some (VHash _, _) \<Rightarrow> True | _ \<Rightarrow> False)"

definition ttl_at :: "rview \<Rightarrow> string \<Rightarrow> nat option" where
  "ttl_at vw k = (case vw k of Some (_, t) \<Rightarrow> t | None \<Rightarrow> None)"

lemma str_key_upd [simp]: "str_key (vw(k \<mapsto> (VStr t, e))) k' = (k' = k \<or> str_key vw k')"
  by (simp add: str_key_def)

lemma str_at_upd [simp]: "str_at (vw(k \<mapsto> (VStr t, e))) k' = (if k' = k then Some t else str_at vw k')"
  by (simp add: str_at_def)

text \<open>What remains of an entry after \<open>d\<close> seconds.\<close>

definition age :: "nat \<Rightarrow> (rvalue \<times> nat option) option \<Rightarrow> (rvalue \<times> nat option) option" where
  "age d e = (case e of
       None \<Rightarrow> None
     | Some (v, None) \<Rightarrow> Some (v, None)
     | Some (v, Some t) \<Rightarrow> if d < t then Some (v, Some (t - d)) else None)"

text \<open>Characters with a meaning in a \<open>KEYS\<close> pattern.\<close>

definition no_glob :: "string \<Rightarrow> bool" where
  "no_glob p = list_all (\<lambda>c. c \<notin> {CHR ''*'', CHR ''?'', CHR ''['', CHR '']'', CHR 0x5C}) p"

locale redis_server =
  fixes rc :: "'s redis" and view :: "'s \<Rightarrow> rview" and tick :: "nat \<Rightarrow> 's \<Rightarrow> 's"
  assumes get_law: "r_get rc k s = (Inr v, s') \<Longrightarrow> str_key (view s) k \<and> v = str_at (view s) k \<and> view s' = view s"
    and get_err: "r_get rc k s = (Inl e, s') \<Longrightarrow> view s' = view s"
    and setex_law: "r_setex rc k ttl t s = (Inr u, s') \<Longrightarrow> view s' = (view s)(k \<mapsto> (VStr t, Some ttl))"
    and set_nx_law: "r_set_nx_ex rc k t ttl s = (Inr b, s') \<Longrightarrow>
        b = (view s k = None) \<and> view s' = (if b then (view s)(k \<mapsto> (VStr t, Some ttl)) else view s)"
    and delete_law: "r_delete rc ks s = (Inr n, s') \<Longrightarrow>
        view s' = (\<lambda>k. if k \<in> set ks then None else view s k) \<and> n = card {k \<in> set ks. view s k \<noteq> None}"
    and exists_law: "r_exists rc k s = (Inr n, s') \<Longrightarrow> n = (if view s k = None then 0 else 1) \<and> view s' = view s"
    and expire_law: "r_expire rc k ttl s = (Inr b, s') \<Longrightarrow> b = (view s k \<noteq> None) \<and>
        view s' = (\<lambda>k'. if k' = k then map_option (\<lambda>(v, _). (v, Some ttl)) (view s k) else view s k')"
    and keys_law: "no_glob p \<Longrightarrow> r_keys rc (p @ ''*'') s = (Inr ks, s') \<Longrightarrow>
        distinct ks \<and> set ks = {k. view s k \<noteq> None \<and> starts_with p k} \<and> view s' = view s"
    and rpush_law: "r_rpush rc k t s = (Inr n, s') \<Longrightarrow>
        list_key (view s) k \<and> n = length (list_at (view s) k) + 1 \<and>
        view s' = (view s)(k \<mapsto> (VList (list_at (view s) k @ [t]), ttl_at (view s) k))"
    and lrange_law: "r_lrange_all rc k s = (Inr ts, s') \<Longrightarrow>
        list_key (view s) k \<and> ts = list_at (view s) k \<and> view s' = view s"
    and llen_law: "r_llen rc k s = (Inr n, s') \<Longrightarrow> list_key (view s) k \<and> n = length (list_at (view s) k) \<and> view s' = view s"
    and set_law: "r_set rc k t s = (Inr u, s') \<Longrightarrow> view s' = (view s)(k \<mapsto> (VStr t, None))"
    and strlen_law: "r_strlen rc k s = (Inr n, s') \<Longrightarrow> str_key (view s) k \<and> view s' = view s"
    and hset_law: "r_hset rc k fs s = (Inr n, s') \<Longrightarrow> hash_key (view s) k \<and>
        view s' = (view s)(k \<mapsto> (VHash (AList.updates (map fst fs) (map snd fs) (hash_at (view s) k)), ttl_at (view s) k))"
    and hget_law: "r_hget rc k f s = (Inr v, s') \<Longrightarrow>
        hash_key (view s) k \<and> v = map_of (hash_at (view s) k) f \<and> view s' = view s"
    and tick_law: "view (tick d s) k = age d (view s k)"
    and lpush_law: "r_lpush rc k t s = (Inr n, s') \<Longrightarrow>
        list_key (view s) k \<and> n = length (list_at (view s) k) + 1 \<and>
        view s' = (view s)(k \<mapsto> (VList (t # list_at (view s) k), ttl_at (view s) k))"
    and publish_law: "r_publish rc ch t s = (Inr n, s') \<Longrightarrow> view s' = view s"

locale redis_up = redis_server +
  assumes get_ok: "str_key (view s) k \<Longrightarrow> \<exists>v s'. r_get rc k s = (Inr v, s')"
    and setex_ok: "0 < ttl \<Longrightarrow> \<exists>s'. r_setex rc k ttl t s = (Inr (), s')"
    and set_nx_ok: "0 < ttl \<Longrightarrow> \<exists>b s'. r_set_nx_ex rc k t ttl s = (Inr b, s')"
    and delete_ok: "ks \<noteq> [] \<Longrightarrow> \<exists>n s'. r_delete rc ks s = (Inr n, s')"
    and exists_ok: "\<exists>n s'. r_exists rc k s = (Inr n, s')"
    and expire_ok: "0 < ttl \<Longrightarrow> \<exists>b s'. r_expire rc k ttl s = (Inr b, s')"
    and keys_ok: "\<exists>ks s'. r_keys rc p s = (Inr ks, s')"
    and rpush_ok: "list_key (view s) k \<Longrightarrow> \<exists>n s'. r_rpush rc k t s = (Inr n, s')"
    and lrange_ok: "list_key (view s) k \<Longrightarrow> \<exists>ts s'. r_lrange_all rc k s = (Inr ts, s')"
    and llen_ok: "list_key (view s) k \<Longrightarrow> \<exists>n s'. r_llen rc k s = (Inr n, s')"
    and set_ok: "\<exists>s'. r_set rc k t s = (Inr (), s')"
    and strlen_ok: "str_key (view s) k \<Longrightarrow> \<exists>n s'. r_strlen rc k s = (Inr n, s')"
    and hset_ok: "hash_key (view s) k \<Longrightarrow> fs \<noteq> [] \<Longrightarrow> \<exists>n s'. r_hset rc k fs s = (Inr n, s')"
    and hget_ok: "hash_key (view s) k \<Longrightarrow> \<exists>v s'. r_hget rc k f s = (Inr v, s')"
    and lpush_ok: "list_key (view s) k \<Longrightarrow> \<exists>n s'. r_lpush rc k t s = (Inr n, s')"
    and publish_ok: "\<exists>n s'. r_publish rc ch t s = (Inr n, s')"
begin

text \<open>With the server up, a command on a key of the right type is a function of the view.\<close>

lemma get_up:
  assumes "str_key (view s) k"
  obtains s' where "r_get rc k s = (Inr (str_at (view s) k), s')" "view s' = view s"
proof -
  obtain v s' where r: "r_get rc k s = (Inr v, s')" using get_ok [OF assms] by blast
  show thesis using that [of s'] r get_law [OF r] by simp
qed

lemma setex_up:
  assumes "0 < ttl"
  obtains s' where "r_setex rc k ttl t s = (Inr (), s')" "view s' = (view s)(k \<mapsto> (VStr t, Some ttl))"
proof -
  obtain s' where r: "r_setex rc k ttl t s = (Inr (), s')" using setex_ok [OF assms] by blast
  show thesis using that [OF r] setex_law [OF r] by blast
qed

lemma set_nx_up:
  assumes "0 < ttl"
  obtains s' where "r_set_nx_ex rc k t ttl s = (Inr (view s k = None), s')"
    "view s' = (if view s k = None then (view s)(k \<mapsto> (VStr t, Some ttl)) else view s)"
proof -
  obtain b s' where r: "r_set_nx_ex rc k t ttl s = (Inr b, s')" using set_nx_ok [OF assms] by blast
  show thesis using that [of s'] r set_nx_law [OF r] by simp
qed

lemma delete1_up:
  obtains s' where "r_delete rc [k] s = (Inr (if view s k = None then 0 else 1), s')"
    "view s' = (view s)(k := None)"
proof -
  obtain n s' where d: "r_delete rc [k] s = (Inr n, s')" using delete_ok [of "[k]" s] by auto
  have "{k'. k' = k \<and> view s k' \<noteq> None} = (if view s k = None then {} else {k})" by auto
  then have "n = (if view s k = None then 0 else 1)" "view s' = (view s)(k := None)"
    using delete_law [OF d] by (auto simp: fun_eq_iff)
  then show thesis using that d by simp
qed

lemma rpush_up:
  assumes "list_key (view s) k"
  obtains n s' where "r_rpush rc k t s = (Inr n, s')"
    "view s' = (view s)(k \<mapsto> (VList (list_at (view s) k @ [t]), ttl_at (view s) k))"
proof -
  obtain n s' where r: "r_rpush rc k t s = (Inr n, s')" using rpush_ok [OF assms] by blast
  show thesis using that [OF r] rpush_law [OF r] by blast
qed

lemma expire_up:
  assumes "0 < ttl"
  obtains b s' where "r_expire rc k ttl s = (Inr b, s')"
    "view s' = (\<lambda>k'. if k' = k then map_option (\<lambda>(v, _). (v, Some ttl)) (view s k) else view s k')"
proof -
  obtain b s' where r: "r_expire rc k ttl s = (Inr b, s')" using expire_ok [OF assms] by blast
  show thesis using that [OF r] expire_law [OF r] by blast
qed

lemma set_up:
  obtains s' where "r_set rc k t s = (Inr (), s')" "view s' = (view s)(k \<mapsto> (VStr t, None))"
proof -
  obtain s' where r: "r_set rc k t s = (Inr (), s')" using set_ok by blast
  show thesis using that [OF r] set_law [OF r] by blast
qed

lemma hset_up:
  assumes "hash_key (view s) k" and "fs \<noteq> []"
  obtains n s' where "r_hset rc k fs s = (Inr n, s')"
    "view s' = (view s)(k \<mapsto> (VHash (AList.updates (map fst fs) (map snd fs) (hash_at (view s) k)), ttl_at (view s) k))"
proof -
  obtain n s' where r: "r_hset rc k fs s = (Inr n, s')" using hset_ok [OF assms] by blast
  show thesis using that [OF r] hset_law [OF r] by blast
qed

lemma hget_up:
  assumes "hash_key (view s) k"
  obtains s' where "r_hget rc k f s = (Inr (map_of (hash_at (view s) k) f), s')" "view s' = view s"
proof -
  obtain v s' where r: "r_hget rc k f s = (Inr v, s')" using hget_ok [OF assms] by blast
  show thesis using that [of s'] r hget_law [OF r] by simp
qed

lemma lpush_up:
  assumes "list_key (view s) k"
  obtains n s' where "r_lpush rc k t s = (Inr n, s')"
    "view s' = (view s)(k \<mapsto> (VList (t # list_at (view s) k), ttl_at (view s) k))"
proof -
  obtain n s' where r: "r_lpush rc k t s = (Inr n, s')" using lpush_ok [OF assms] by blast
  show thesis using that [OF r] lpush_law [OF r] by blast
qed

lemma lrange_up:
  assumes "list_key (view s) k"
  obtains s' where "r_lrange_all rc k s = (Inr (list_at (view s) k), s')" "view s' = view s"
proof -
  obtain ts s' where r: "r_lrange_all rc k s = (Inr ts, s')" using lrange_ok [OF assms] by blast
  show thesis using that [of s'] r lrange_law [OF r] by simp
qed

end

section \<open>An in-memory server\<close>

record mem =
  m_now :: nat
  m_db :: "(string \<times> (rvalue \<times> nat option)) list"
  m_out :: "(string \<times> text_val) list"

definition mem_view :: "mem \<Rightarrow> rview" where
  "mem_view s k = (case map_of (m_db s) k of
       None \<Rightarrow> None
     | Some (v, None) \<Rightarrow> Some (v, None)
     | Some (v, Some e) \<Rightarrow> if m_now s < e then Some (v, Some (e - m_now s)) else None)"

definition mem_tick :: "nat \<Rightarrow> mem \<Rightarrow> mem" where
  "mem_tick d s = s\<lparr>m_now := m_now s + d\<rparr>"

definition mem_put :: "string \<Rightarrow> rvalue \<Rightarrow> nat option \<Rightarrow> mem \<Rightarrow> mem" where
  "mem_put k v ttl s = s\<lparr>m_db := AList.update k (v, map_option (\<lambda>t. m_now s + t) ttl) (m_db s)\<rparr>"

definition WRONGTYPE :: exn where
  "WRONGTYPE = RedisError ''WRONGTYPE''"

definition mem_redis :: "mem redis" where
  "mem_redis = \<lparr>
     r_get = (\<lambda>k s. (if str_key (mem_view s) k then Inr (str_at (mem_view s) k) else Inl WRONGTYPE, s)),
     r_setex = (\<lambda>k ttl t s. if ttl = 0 then (Inl (RedisError ''invalid expire time''), s)
        else (Inr (), mem_put k (VStr t) (Some ttl) s)),
     r_set_nx_ex = (\<lambda>k t ttl s. if ttl = 0 then (Inl (RedisError ''invalid expire time''), s)
        else if mem_view s k = None then (Inr True, mem_put k (VStr t) (Some ttl) s) else (Inr False, s)),
     r_delete = (\<lambda>ks s. if ks = [] then (Inl (RedisError ''wrong number of arguments''), s)
        else (Inr (length (filter (\<lambda>k. mem_view s k \<noteq> None) (remdups ks))),
              s\<lparr>m_db := filter (\<lambda>kv. fst kv \<notin> set ks) (m_db s)\<rparr>)),
     r_exists = (\<lambda>k s. (Inr (if mem_view s k = None then 0 else 1), s)),
     r_expire = (\<lambda>k ttl s. if ttl = 0 then (Inl (RedisError ''invalid expire time''), s)
        else case mem_view s k of None \<Rightarrow> (Inr False, s)
             | Some (v, _) \<Rightarrow> (Inr True, mem_put k v (Some ttl) s)),
     r_keys = (\<lambda>p s. (Inr (filter (\<lambda>k. mem_view s k \<noteq> None \<and> starts_with (butlast p) k)
        (remdups (map fst (m_db s)))), s)),
     r_rpush = (\<lambda>k t s. if list_key (mem_view s) k
        then (Inr (length (list_at (mem_view s) k) + 1),
              mem_put k (VList (list_at (mem_view s) k @ [t])) (ttl_at (mem_view s) k) s)
        else (Inl WRONGTYPE, s)),
     r_lrange_all = (\<lambda>k s. (if list_key (mem_view s) k then Inr (list_at (mem_view s) k) else Inl WRONGTYPE, s)),
     r_llen = (\<lambda>k s. (if list_key (mem_view s) k then Inr (length (list_at (mem_view s) k)) else Inl WRONGTYPE, s)),
     r_set = (\<lambda>k t s. (Inr (), mem_put k (VStr t) None s)),
     r_strlen = (\<lambda>k s. (if str_key (mem_view s) k then Inr (case str_at (mem_view s) k of Some (Raw t) \<Rightarrow> length t | Some _ \<Rightarrow> 2 | None \<Rightarrow> 0)
        else Inl WRONGTYPE, s)),
     r_hset = (\<lambda>k fs s. if fs = [] then (Inl (RedisError ''wrong number of arguments''), s)
        else if hash_key (mem_view s) k
        then (Inr (length (filter (\<lambda>f. f \<notin> fst ` set (hash_at (mem_view s) k)) (remdups (map fst fs)))),
              mem_put k (VHash (AList.updates (map fst fs) (map snd fs) (hash_at (mem_view s) k))) (ttl_at (mem_view s) k) s)
        else (Inl WRONGTYPE, s)),
     r_hget = (\<lambda>k f s. (if hash_key (mem_view s) k then Inr (map_of (hash_at (mem_view s) k) f) else Inl WRONGTYPE, s)),
     r_lpush = (\<lambda>k t s. if list_key (mem_view s) k
        then (Inr (length (list_at (mem_view s) k) + 1),
              mem_put k (VList (t # list_at (mem_view s) k)) (ttl_at (mem_view s) k) s)
        else (Inl WRONGTYPE, s)),
     r_publish = (\<lambda>ch t s. (Inr 0, s\<lparr>m_out := m_out s @ [(ch, t)]\<rparr>))
   \<rparr>"

lemma mem_view_put:
  assumes "ttl \<noteq> Some 0"
  shows "mem_view (mem_put k v ttl s) = (mem_view s)(k \<mapsto> (v, ttl))"
  using assms by (cases ttl) (auto simp: mem_view_def mem_put_def fun_eq_iff split: option.splits)

lemma map_of_filter_keys:
  "map_of (filter (\<lambda>kv. fst kv \<notin> A) d) k = (if k \<in> A then None else map_of d k)"
  by (induction d) auto

lemma mem_view_filter:
  "mem_view (s\<lparr>m_db := filter (\<lambda>kv. fst kv \<notin> A) (m_db s)\<rparr>) = (\<lambda>k. if k \<in> A then None else mem_view s k)"
  by (auto simp: mem_view_def fun_eq_iff map_of_filter_keys split: option.splits)

lemma mem_view_live: "mem_view s k \<noteq> None \<Longrightarrow> k \<in> fst ` set (m_db s)"
  by (cases "map_of (m_db s) k")
     (auto simp: mem_view_def dest: map_of_SomeD intro: rev_image_eqI)

lemma mem_view_out [simp]: "mem_view (s\<lparr>m_out := x\<rparr>) = mem_view s"
  by (simp add: mem_view_def fun_eq_iff split: option.split)

lemma ttl_at_pos: "ttl_at (mem_view s) k \<noteq> Some 0"
  by (auto simp: ttl_at_def mem_view_def split: option.splits if_splits)

interpretation mem: redis_up mem_redis mem_view mem_tick
proof (unfold_locales, goal_cases)
  case (7 k ttl s b s')
  then show ?case
    by (cases "mem_view s k")
       (auto simp: mem_redis_def mem_view_put fun_eq_iff split: if_splits)
next
  case (8 p s ks s')
  then show ?case using mem_view_live by (fastforce simp: mem_redis_def)
next
  case (16 d s k)
  then show ?case
    by (auto simp: mem_tick_def mem_view_def age_def split: option.splits)
qed (auto simp: mem_redis_def mem_view_put mem_view_filter ttl_at_pos distinct_length_filter Int_def
      conj_commute split: if_splits option.splits)

lemma mem_redis_up: "redis_up mem_redis mem_view mem_tick"
  by unfold_locales

definition empty_mem :: mem where
  "empty_mem = \<lparr>m_now = 0, m_db = [], m_out = []\<rparr>"

end
