(* ===== verification/Pending_Actions.thy ===== *)
theory Pending_Actions
  imports Redis_Client
begin

text \<open>
  \<open>PendingActionManager\<close> of \<open>src/app/wrappers/pending_action_manager.py\<close>: the state of an
  external redirect (OAuth, payment) kept in Redis under one key per user and session, guarded by
  a state token and consumed on completion. The random token and the clock reading are arguments.
\<close>

section \<open>Definitions\<close>

definition PENDING_ACTION_TTL :: nat where
  "PENDING_ACTION_TTL = 900"

definition PENDING_ACTION_PREFIX :: string where
  "PENDING_ACTION_PREFIX = ''pending_action''"

definition VALID_ACTION_TYPES :: "string list" where
  "VALID_ACTION_TYPES = [''oauth'', ''payment'', ''verification'', ''subscription'', ''connect_service'']"

definition pa_build_key :: "string \<Rightarrow> string \<Rightarrow> string" where
  "pa_build_key uid session_id = PENDING_ACTION_PREFIX @ '':'' @ uid @ '':'' @ session_id"

definition pending_record ::
  "string \<Rightarrow> string \<Rightarrow> string \<Rightarrow> string \<Rightarrow> string \<Rightarrow> string \<Rightarrow> pydict option \<Rightarrow> string \<Rightarrow> string \<Rightarrow> pydict" where
  "pending_record uid session_id action_type provider return_page return_path context token now =
     [(''action_type'', PStr action_type), (''provider'', PStr provider),
      (''return_page'', PStr return_page), (''return_path'', PStr return_path),
      (''context'', PDict (case context of None \<Rightarrow> [] | Some d \<Rightarrow> d)),
      (''initiated_at'', PStr now), (''state_token'', PStr token),
      (''uid'', PStr uid), (''session_id'', PStr session_id)]"

definition save_pending_action ::
  "'s redis \<Rightarrow> string \<Rightarrow> string \<Rightarrow> string \<Rightarrow> string \<Rightarrow> string \<Rightarrow> string \<Rightarrow> pydict option \<Rightarrow> nat \<Rightarrow> string \<Rightarrow> string
     \<Rightarrow> 's \<Rightarrow> string result \<times> 's" where
  "save_pending_action rc uid session_id action_type provider return_page return_path context ttl token now s =
     (if action_type \<notin> set VALID_ACTION_TYPES
      then (Inl (ValueError (''Invalid action_type: '' @ action_type)), s)
      else case r_setex rc (pa_build_key uid session_id) ttl
             (json_dumps (PDict (pending_record uid session_id action_type provider return_page return_path
                context token now))) s of
             (Inl e, s1) \<Rightarrow> (Inl e, s1)
           | (Inr _, s1) \<Rightarrow> (Inr token, s1))"

text \<open>
  A document that is not an object makes the \<open>action.get(...)\<close> of the log line raise, which the
  handler turns into \<open>None\<close>, like a failed read or an invalid document.
\<close>

definition get_pending_action :: "'s redis \<Rightarrow> string \<Rightarrow> string \<Rightarrow> 's \<Rightarrow> pydict option \<times> 's" where
  "get_pending_action rc uid session_id s =
     (case r_get rc (pa_build_key uid session_id) s of
        (Inl _, s1) \<Rightarrow> (None, s1)
      | (Inr None, s1) \<Rightarrow> (None, s1)
      | (Inr (Some raw), s1) \<Rightarrow>
          if raw = Raw [] then (None, s1)
          else (case json_loads raw of Inr (PDict d) \<Rightarrow> (Some d, s1) | _ \<Rightarrow> (None, s1)))"

definition validate_state_token :: "'s redis \<Rightarrow> string \<Rightarrow> string \<Rightarrow> string \<Rightarrow> 's \<Rightarrow> bool \<times> 's" where
  "validate_state_token rc uid session_id token s =
     (case get_pending_action rc uid session_id s of
        (None, s1) \<Rightarrow> (False, s1)
      | (Some action, s1) \<Rightarrow>
          (action \<noteq> [] \<and> dget action ''state_token'' = PStr token, s1))"

text \<open>
  \<open>complete_pending_action\<close> in the two server interactions it makes: read and validate, then
  delete. The second is run only when the first returned an action.
\<close>

definition complete_check ::
  "'s redis \<Rightarrow> string \<Rightarrow> string \<Rightarrow> string option \<Rightarrow> 's \<Rightarrow> pydict option \<times> 's" where
  "complete_check rc uid session_id token s =
     (case get_pending_action rc uid session_id s of
        (None, s1) \<Rightarrow> (None, s1)
      | (Some action, s1) \<Rightarrow>
          if action = [] then (None, s1)
          else (case token of
                  Some (c # cs) \<Rightarrow>
                    if dget action ''state_token'' \<noteq> PStr (c # cs) then (None, s1) else (Some action, s1)
                | _ \<Rightarrow> (Some action, s1)))"

definition complete_delete :: "'s redis \<Rightarrow> string \<Rightarrow> string \<Rightarrow> pydict \<Rightarrow> 's \<Rightarrow> pydict option \<times> 's" where
  "complete_delete rc uid session_id action s =
     (case r_delete rc [pa_build_key uid session_id] s of
        (Inl _, s1) \<Rightarrow> (Some action, s1)
      | (Inr _, s1) \<Rightarrow> (Some action, s1))"

definition complete_pending_action ::
  "'s redis \<Rightarrow> string \<Rightarrow> string \<Rightarrow> string option \<Rightarrow> 's \<Rightarrow> pydict option \<times> 's" where
  "complete_pending_action rc uid session_id token s =
     (case complete_check rc uid session_id token s of
        (None, s1) \<Rightarrow> (None, s1)
      | (Some action, s1) \<Rightarrow> complete_delete rc uid session_id action s1)"

definition cancel_pending_action :: "'s redis \<Rightarrow> string \<Rightarrow> string \<Rightarrow> 's \<Rightarrow> bool \<times> 's" where
  "cancel_pending_action rc uid session_id s =
     (case r_delete rc [pa_build_key uid session_id] s of
        (Inl _, s1) \<Rightarrow> (False, s1)
      | (Inr deleted, s1) \<Rightarrow> (0 < deleted, s1))"

definition has_pending_action :: "'s redis \<Rightarrow> string \<Rightarrow> string \<Rightarrow> 's \<Rightarrow> bool result \<times> 's" where
  "has_pending_action rc uid session_id s =
     (case r_exists rc (pa_build_key uid session_id) s of
        (Inl e, s1) \<Rightarrow> (Inl e, s1)
      | (Inr n, s1) \<Rightarrow> (Inr (0 < n), s1))"

definition get_pending_action_type :: "'s redis \<Rightarrow> string \<Rightarrow> string \<Rightarrow> 's \<Rightarrow> pyval \<times> 's" where
  "get_pending_action_type rc uid session_id s =
     (case get_pending_action rc uid session_id s of
        (None, s1) \<Rightarrow> (PNone, s1)
      | (Some action, s1) \<Rightarrow> (if action = [] then PNone else dget action ''action_type'', s1))"

definition build_oauth_state :: "string \<Rightarrow> string \<Rightarrow> string \<Rightarrow> string" where
  "build_oauth_state uid session_id token = uid @ '':'' @ session_id @ '':'' @ token"

definition parse_oauth_state :: "string \<Rightarrow> (string \<times> string \<times> string) option" where
  "parse_oauth_state state =
     (case split_on CHR '':'' state of
        [uid, session_id, token] \<Rightarrow> Some (uid, session_id, token)
      | _ \<Rightarrow> None)"

section \<open>Library lemmas\<close>

lemma pa_key_inject:
  assumes "CHR '':'' \<notin> set uid" "CHR '':'' \<notin> set uid'"
  shows "pa_build_key uid sid = pa_build_key uid' sid' \<longleftrightarrow> uid = uid' \<and> sid = sid'"
proof
  assume "pa_build_key uid sid = pa_build_key uid' sid'"
  then have eq: "uid @ CHR '':'' # sid = uid' @ CHR '':'' # sid'"
    by (simp add: pa_build_key_def)
  then have "hd (split_on CHR '':'' (uid @ CHR '':'' # sid)) = hd (split_on CHR '':'' (uid' @ CHR '':'' # sid'))"
    by simp
  then have "uid = uid'" using assms by (simp add: split_on_append)
  then show "uid = uid' \<and> sid = sid'" using eq by simp
qed simp

lemma dget_token [simp]:
  "dget (pending_record uid sid aty pr rp path ctx token now) ''state_token'' = PStr token"
  by (simp add: pending_record_def)

lemma pending_record_not_Nil [simp]: "pending_record uid sid aty pr rp path ctx token now \<noteq> []"
  by (simp add: pending_record_def)

context redis_up
begin

lemma save_up:
  assumes "aty \<in> set VALID_ACTION_TYPES" "0 < ttl"
  obtains s' where
    "save_pending_action rc uid sid aty pr rp path ctx ttl token now s = (Inr token, s')"
    "view s' = (view s)(pa_build_key uid sid \<mapsto>
       (VStr (Json (PDict (pending_record uid sid aty pr rp path ctx token now))), Some ttl))"
proof -
  obtain s' where "r_setex rc (pa_build_key uid sid) ttl
      (json_dumps (PDict (pending_record uid sid aty pr rp path ctx token now))) s = (Inr (), s')"
    "view s' = (view s)(pa_build_key uid sid \<mapsto>
       (VStr (json_dumps (PDict (pending_record uid sid aty pr rp path ctx token now))), Some ttl))"
    by (rule setex_up [OF assms(2)])
  then show thesis using that [of s'] assms(1) by (simp add: save_pending_action_def json_dumps_def)
qed

lemma get_pending_hit:
  assumes "view s (pa_build_key uid sid) = Some (VStr (Json (PDict d)), t)"
  obtains s' where "get_pending_action rc uid sid s = (Some d, s')" "view s' = view s"
proof -
  have "str_key (view s) (pa_build_key uid sid)" "str_at (view s) (pa_build_key uid sid) = Some (Json (PDict d))"
    using assms by (simp_all add: str_key_def str_at_def)
  then obtain s' where "r_get rc (pa_build_key uid sid) s = (Inr (Some (Json (PDict d))), s')" "view s' = view s"
    using get_up by metis
  then show thesis using that [of s'] by (simp add: get_pending_action_def)
qed

lemma get_pending_miss:
  assumes "view s (pa_build_key uid sid) = None"
  obtains s' where "get_pending_action rc uid sid s = (None, s')" "view s' = view s"
proof -
  have "str_key (view s) (pa_build_key uid sid)" "str_at (view s) (pa_build_key uid sid) = None"
    using assms by (simp_all add: str_key_def str_at_def)
  then obtain s' where "r_get rc (pa_build_key uid sid) s = (Inr None, s')" "view s' = view s"
    using get_up by metis
  then show thesis using that [of s'] by (simp add: get_pending_action_def)
qed

lemma complete_check_hit:
  assumes "view s (pa_build_key uid sid) = Some (VStr (Json (PDict d)), t)" "d \<noteq> []"
  obtains s' where
    "complete_check rc uid sid tk s =
       (if tk = None \<or> tk = Some [] \<or> dget d ''state_token'' = PStr (the tk) then Some d else None, s')"
    "view s' = view s"
proof -
  obtain s' where "get_pending_action rc uid sid s = (Some d, s')" "view s' = view s"
    by (rule get_pending_hit [OF assms(1)])
  then show thesis using that [of s'] assms(2)
    by (auto simp: complete_check_def split: option.split list.split)
qed

lemma complete_check_ok:
  assumes "view s (pa_build_key uid sid) = Some (VStr (Json (PDict d)), t)" "dget d ''state_token'' = PStr tok"
  obtains s' where "complete_check rc uid sid (Some tok) s = (Some d, s')" "view s' = view s"
proof -
  have "d \<noteq> []" using assms(2) by auto
  from complete_check_hit [OF assms(1) this, of "Some tok"] that assms(2) show thesis by auto
qed

lemma complete_miss:
  assumes "view s (pa_build_key uid sid) = None"
  obtains s' where "complete_pending_action rc uid sid tk s = (None, s')" "view s' = view s"
proof -
  obtain s' where "get_pending_action rc uid sid s = (None, s')" "view s' = view s"
    by (rule get_pending_miss [OF assms])
  then show thesis using that [of s'] by (simp add: complete_pending_action_def complete_check_def)
qed

lemma complete_delete_up:
  obtains s' where "complete_delete rc uid sid a s = (Some a, s')"
    "view s' = (view s)(pa_build_key uid sid := None)"
proof -
  obtain n s' where "r_delete rc [pa_build_key uid sid] s = (Inr n, s')"
    "view s' = (view s)(pa_build_key uid sid := None)"
    by (rule delete1_up)
  then show thesis using that [of s'] by (simp add: complete_delete_def)
qed

end

section \<open>Properties\<close>

text \<open>
  C27: a saved action can be completed once. With Redis up, after \<open>save_pending_action\<close> with a
  valid type and any delay shorter than its time to live, completing with the returned token
  yields exactly the saved record, and a later completion, with whatever token, yields nothing.
\<close>

theorem pending_action_one_time:
  assumes "redis_up rc view tick" and "action_type \<in> set VALID_ACTION_TYPES" and "d < ttl"
    and "save_pending_action rc uid sid action_type provider page path ctx ttl token now s = (r, s1)"
    and "complete_pending_action rc uid sid (Some token) (tick d s1) = (a, s2)"
    and "complete_pending_action rc uid sid tk s2 = (b, s3)"
  shows "r = Inr token \<and> a = Some (pending_record uid sid action_type provider page path ctx token now) \<and> b = None"
proof -
  note up = assms(1)
  let ?k = "pa_build_key uid sid" and ?d = "pending_record uid sid action_type provider page path ctx token now"
  have ttl: "0 < ttl" using assms(3) by simp
  have r: "r = Inr token" and v1: "view s1 = (view s)(?k \<mapsto> (VStr (Json (PDict ?d)), Some ttl))"
    using redis_up.save_up [OF up assms(2) ttl, of uid sid provider page path ctx token now s] assms(4) by auto
  have "view (tick d s1) ?k = Some (VStr (Json (PDict ?d)), Some (ttl - d))"
    using v1 assms(3) redis_server.tick_law [OF redis_up.axioms(1) [OF up]] by (simp add: age_def)
  from redis_up.complete_check_ok [OF up this dget_token]
  obtain s1' where chk: "complete_check rc uid sid (Some token) (tick d s1) = (Some ?d, s1')" .
  obtain s2' where "complete_delete rc uid sid ?d s1' = (Some ?d, s2')" "view s2' = (view s1')(?k := None)"
    by (rule redis_up.complete_delete_up [OF up])
  then have a: "a = Some ?d" and v2: "view s2 ?k = None"
    using assms(5) chk by (simp_all add: complete_pending_action_def)
  have "b = None"
    using redis_up.complete_miss [OF up v2, of tk] assms(6) by (metis prod.inject)
  then show ?thesis using r a by simp
qed

theorem pending_action_one_time_witness:
  "\<exists>r s1 a s2 b s3. redis_up mem_redis mem_view mem_tick \<and> ''oauth'' \<in> set VALID_ACTION_TYPES \<and>
     save_pending_action mem_redis ''u'' ''s'' ''oauth'' ''google'' ''settings'' ''/p'' None 900 ''tok'' ''t0'' empty_mem = (r, s1) \<and>
     complete_pending_action mem_redis ''u'' ''s'' (Some ''tok'') (mem_tick 60 s1) = (a, s2) \<and>
     complete_pending_action mem_redis ''u'' ''s'' None s2 = (b, s3) \<and>
     a = Some (pending_record ''u'' ''s'' ''oauth'' ''google'' ''settings'' ''/p'' None ''tok'' ''t0'') \<and> b = None"
proof -
  obtain r s1 where 1: "save_pending_action mem_redis ''u'' ''s'' ''oauth'' ''google'' ''settings'' ''/p'' None 900
      ''tok'' ''t0'' empty_mem = (r, s1)" by fastforce
  obtain a s2 where 2: "complete_pending_action mem_redis ''u'' ''s'' (Some ''tok'') (mem_tick 60 s1) = (a, s2)" by fastforce
  obtain b s3 where 3: "complete_pending_action mem_redis ''u'' ''s'' None s2 = (b, s3)" by fastforce
  have v: "''oauth'' \<in> set VALID_ACTION_TYPES" "(60::nat) < 900" by (simp_all add: VALID_ACTION_TYPES_def)
  from pending_action_one_time [OF mem_redis_up v 1 2 3] 1 2 3 v(1) mem_redis_up show ?thesis by metis
qed

text \<open>
  A wrong state token completes nothing. When the stored action carries another token, a
  completion with a non-empty token returns nothing and leaves every key of the server as it was,
  so the rightful callback can still complete the action.
\<close>

theorem wrong_token_rejected:
  assumes "redis_up rc view tick"
    and "view s (pa_build_key uid sid) = Some (VStr (Json (PDict d)), t)"
    and "dget d ''state_token'' \<noteq> PStr token" and "token \<noteq> []"
    and "complete_pending_action rc uid sid (Some token) s = (r, s')"
  shows "r = None \<and> view s' = view s"
proof (cases "d = []")
  case True
  obtain s1 where "get_pending_action rc uid sid s = (Some d, s1)" "view s1 = view s"
    by (rule redis_up.get_pending_hit [OF assms(1,2)])
  then show ?thesis using True assms(5) by (simp add: complete_pending_action_def complete_check_def)
next
  case False
  obtain s1 where "complete_check rc uid sid (Some token) s = (None, s1)" "view s1 = view s"
    using redis_up.complete_check_hit [OF assms(1,2) False, of "Some token"] assms(3,4) by auto
  then show ?thesis using assms(5) by (simp add: complete_pending_action_def)
qed

definition one_action_mem :: mem where
  "one_action_mem = mem_put (pa_build_key ''u'' ''s'')
     (VStr (Json (PDict [(''state_token'', PStr ''good'')]))) (Some 900) empty_mem"

lemma one_action_view:
  "mem_view one_action_mem (pa_build_key ''u'' ''s'') = Some (VStr (Json (PDict [(''state_token'', PStr ''good'')])), Some 900)"
  by (simp add: one_action_mem_def mem_view_put)

theorem wrong_token_rejected_witness:
  "\<exists>r s'. complete_pending_action mem_redis ''u'' ''s'' (Some ''bad'') one_action_mem = (r, s') \<and>
     dget [(''state_token'', PStr ''good'')] ''state_token'' \<noteq> PStr ''bad'' \<and> r = None \<and>
     mem_view s' = mem_view one_action_mem"
proof -
  obtain r s' where 1: "complete_pending_action mem_redis ''u'' ''s'' (Some ''bad'') one_action_mem = (r, s')" by fastforce
  have h: "dget [(''state_token'', PStr ''good'')] ''state_token'' \<noteq> PStr ''bad''" by simp
  from wrong_token_rejected [OF mem_redis_up one_action_view h _ 1] 1 h show ?thesis by auto
qed

text \<open>
  The OAuth state parameter is read back exactly. Parsing the state built from parts without
  a colon gives those parts, and whatever parses is the state built from its parts.
\<close>

theorem oauth_state_round_trip:
  "(CHR '':'' \<notin> set uid \<and> CHR '':'' \<notin> set sid \<and> CHR '':'' \<notin> set token \<longrightarrow>
     parse_oauth_state (build_oauth_state uid sid token) = Some (uid, sid, token)) \<and>
   (parse_oauth_state st = Some (u, i, t) \<longrightarrow> build_oauth_state u i t = st)"
proof (intro conjI impI)
  assume "CHR '':'' \<notin> set uid \<and> CHR '':'' \<notin> set sid \<and> CHR '':'' \<notin> set token"
  then show "parse_oauth_state (build_oauth_state uid sid token) = Some (uid, sid, token)"
    by (simp add: parse_oauth_state_def build_oauth_state_def split_on_append split_on_no_sep)
next
  assume "parse_oauth_state st = Some (u, i, t)"
  then have "split_on CHR '':'' st = [u, i, t]"
    by (auto simp: parse_oauth_state_def split: list.splits)
  then have "py_join '':'' [u, i, t] = st"
    using py_join_split_on by metis
  then show "build_oauth_state u i t = st" by (simp add: build_oauth_state_def)
qed

theorem oauth_state_round_trip_witness:
  "parse_oauth_state (build_oauth_state ''u1'' ''s9'' ''tok'') = Some (''u1'', ''s9'', ''tok'') \<and>
   build_oauth_state ''u1'' ''s9'' ''tok'' = ''u1:s9:tok''"
  using oauth_state_round_trip [of "''u1''" "''s9''" "''tok''" "''u1:s9:tok''" "''u1''" "''s9''" "''tok''"]
  by (simp add: build_oauth_state_def)

text \<open>
  One-time use is not enforced between concurrent callbacks. Completion reads the key and
  deletes it in two commands and does not look at the number of deleted keys: when two completions
  with the right token interleave, read, read, delete, delete, both return the action.
\<close>

theorem concurrent_completion_twice:
  assumes "redis_up rc view tick"
    and "view s (pa_build_key uid sid) = Some (VStr (Json (PDict d)), t)"
    and "dget d ''state_token'' = PStr token"
    and "complete_check rc uid sid (Some token) s = (a1, s1)"
    and "complete_check rc uid sid (Some token) s1 = (a2, s2)"
    and "complete_delete rc uid sid (the a1) s2 = (r1, s3)"
    and "complete_delete rc uid sid (the a2) s3 = (r2, s4)"
  shows "r1 = Some d \<and> r2 = Some d"
proof -
  note up = assms(1)
  obtain t1 where c1: "complete_check rc uid sid (Some token) s = (Some d, t1)" "view t1 = view s"
    by (rule redis_up.complete_check_ok [OF up assms(2,3)])
  then have s1: "a1 = Some d" "view s1 (pa_build_key uid sid) = Some (VStr (Json (PDict d)), t)"
    using assms(2,4) by auto
  obtain t2 where "complete_check rc uid sid (Some token) s1 = (Some d, t2)"
    by (rule redis_up.complete_check_ok [OF up s1(2) assms(3)])
  then have "a2 = Some d" using assms(5) by simp
  moreover obtain t3 where "complete_delete rc uid sid d s2 = (Some d, t3)"
    by (rule redis_up.complete_delete_up [OF up])
  moreover obtain t4 where "complete_delete rc uid sid d s3 = (Some d, t4)"
    by (rule redis_up.complete_delete_up [OF up])
  ultimately show ?thesis using assms(6,7) s1(1) by auto
qed

theorem concurrent_completion_twice_witness:
  "\<exists>a1 s1 a2 s2 r1 s3 r2 s4. complete_check mem_redis ''u'' ''s'' (Some ''good'') one_action_mem = (a1, s1) \<and>
     complete_check mem_redis ''u'' ''s'' (Some ''good'') s1 = (a2, s2) \<and>
     complete_delete mem_redis ''u'' ''s'' (the a1) s2 = (r1, s3) \<and>
     complete_delete mem_redis ''u'' ''s'' (the a2) s3 = (r2, s4) \<and>
     r1 = Some [(''state_token'', PStr ''good'')] \<and> r2 = r1"
proof -
  obtain a1 s1 where 1: "complete_check mem_redis ''u'' ''s'' (Some ''good'') one_action_mem = (a1, s1)" by fastforce
  obtain a2 s2 where 2: "complete_check mem_redis ''u'' ''s'' (Some ''good'') s1 = (a2, s2)" by fastforce
  obtain r1 s3 where 3: "complete_delete mem_redis ''u'' ''s'' (the a1) s2 = (r1, s3)" by fastforce
  obtain r2 s4 where 4: "complete_delete mem_redis ''u'' ''s'' (the a2) s3 = (r2, s4)" by fastforce
  have h: "dget [(''state_token'', PStr ''good'')] ''state_token'' = PStr ''good''" by simp
  from concurrent_completion_twice [OF mem_redis_up one_action_view h 1 2 3 4] 1 2 3 4 show ?thesis by metis
qed

end
