(* ===== verification/Ws_Buffer.thy ===== *)
theory Ws_Buffer
  imports Redis_Client
begin

text \<open>
  \<open>WebSocketMessageBuffer\<close> of \<open>src/app/ws_message_buffer.py\<close>: messages for a chat thread whose
  WebSocket is not connected wait in a Redis list, one per user and thread.
\<close>

section \<open>Definitions\<close>

definition buffer_ttl :: nat where
  "buffer_ttl = 300"

definition generate_key :: "string \<Rightarrow> string \<Rightarrow> string" where
  "generate_key uid thread_key = ''pending_ws_messages:'' @ uid @ '':'' @ thread_key"

definition store_pending_message :: "'s redis \<Rightarrow> string \<Rightarrow> string \<Rightarrow> pydict \<Rightarrow> 's \<Rightarrow> bool \<times> 's" where
  "store_pending_message rc uid thread_key message s =
     (let key = generate_key uid thread_key in
      case r_rpush rc key (json_dumps (PDict message)) s of
        (Inl _, s1) \<Rightarrow> (False, s1)
      | (Inr _, s1) \<Rightarrow>
          (case r_expire rc key buffer_ttl s1 of
             (Inl _, s2) \<Rightarrow> (False, s2)
           | (Inr _, s2) \<Rightarrow> (True, s2)))"

text \<open>Texts that are not JSON are logged and skipped.\<close>

definition decode_messages :: "text_val list \<Rightarrow> pyval list" where
  "decode_messages ts =
     concat (map (\<lambda>t. case json_loads t of Inl _ \<Rightarrow> [] | Inr v \<Rightarrow> [v]) ts)"

definition get_pending_messages :: "'s redis \<Rightarrow> string \<Rightarrow> string \<Rightarrow> bool \<Rightarrow> 's \<Rightarrow> pyval list \<times> 's" where
  "get_pending_messages rc uid thread_key delete_after s =
     (let key = generate_key uid thread_key in
      case r_lrange_all rc key s of
        (Inl _, s1) \<Rightarrow> ([], s1)
      | (Inr ts, s1) \<Rightarrow>
          if ts = [] then ([], s1)
          else
            let messages = decode_messages ts in
            if delete_after \<and> messages \<noteq> []
            then (case r_delete rc [key] s1 of
                    (Inl _, s2) \<Rightarrow> ([], s2)
                  | (Inr _, s2) \<Rightarrow> (messages, s2))
            else (messages, s1))"

definition has_pending_messages :: "'s redis \<Rightarrow> string \<Rightarrow> string \<Rightarrow> 's \<Rightarrow> bool \<times> 's" where
  "has_pending_messages rc uid thread_key s =
     (case r_llen rc (generate_key uid thread_key) s of
        (Inl _, s1) \<Rightarrow> (False, s1)
      | (Inr n, s1) \<Rightarrow> (0 < n, s1))"

definition clear_pending_messages :: "'s redis \<Rightarrow> string \<Rightarrow> string \<Rightarrow> 's \<Rightarrow> bool \<times> 's" where
  "clear_pending_messages rc uid thread_key s =
     (case r_delete rc [generate_key uid thread_key] s of
        (Inl _, s1) \<Rightarrow> (False, s1)
      | (Inr _, s1) \<Rightarrow> (True, s1))"

text \<open>Messages stored one after the other.\<close>

fun store_all :: "'s redis \<Rightarrow> string \<Rightarrow> string \<Rightarrow> pydict list \<Rightarrow> 's \<Rightarrow> 's" where
  "store_all rc uid thread_key [] s = s"
| "store_all rc uid thread_key (m # ms) s =
     store_all rc uid thread_key ms (snd (store_pending_message rc uid thread_key m s))"

section \<open>Library lemmas\<close>

lemma decode_messages_json [simp]: "decode_messages (map (\<lambda>m. Json (PDict m)) ms) = map PDict ms"
  by (induction ms) (simp_all add: decode_messages_def)

lemma list_at_upd [simp]: "list_at (vw(k \<mapsto> (VList ts, e))) k = ts"
  by (simp add: list_at_def)

context redis_up
begin

lemma store_up:
  assumes "list_key (view s) (generate_key uid tk)"
  obtains s' where "store_pending_message rc uid tk m s = (True, s')"
    "view s' = (view s)(generate_key uid tk \<mapsto>
       (VList (list_at (view s) (generate_key uid tk) @ [Json (PDict m)]), Some buffer_ttl))"
proof -
  let ?k = "generate_key uid tk"
  obtain n s1 where 1: "r_rpush rc ?k (json_dumps (PDict m)) s = (Inr n, s1)"
    "view s1 = (view s)(?k \<mapsto> (VList (list_at (view s) ?k @ [json_dumps (PDict m)]), ttl_at (view s) ?k))"
    by (rule rpush_up [OF assms])
  have "0 < buffer_ttl" by (simp add: buffer_ttl_def)
  then obtain b s2 where 2: "r_expire rc ?k buffer_ttl s1 = (Inr b, s2)"
    "view s2 = (\<lambda>k'. if k' = ?k then map_option (\<lambda>(v, _). (v, Some buffer_ttl)) (view s1 ?k) else view s1 k')"
    by (rule expire_up)
  show thesis
    using that [of s2] 1 2 by (auto simp: store_pending_message_def Let_def json_dumps_def fun_eq_iff)
qed

lemma store_all_up:
  assumes "list_key (view s) (generate_key uid tk)"
  shows "list_key (view (store_all rc uid tk ms s)) (generate_key uid tk) \<and>
    list_at (view (store_all rc uid tk ms s)) (generate_key uid tk)
      = list_at (view s) (generate_key uid tk) @ map (\<lambda>m. Json (PDict m)) ms \<and>
    (\<forall>k. k \<noteq> generate_key uid tk \<longrightarrow> view (store_all rc uid tk ms s) k = view s k)"
  using assms
proof (induction ms arbitrary: s)
  case Nil
  then show ?case by simp
next
  case (Cons m ms)
  obtain s1 where 1: "store_pending_message rc uid tk m s = (True, s1)"
    "view s1 = (view s)(generate_key uid tk \<mapsto>
       (VList (list_at (view s) (generate_key uid tk) @ [Json (PDict m)]), Some buffer_ttl))"
    by (rule store_up [OF Cons.prems])
  then have lk: "list_key (view s1) (generate_key uid tk)" by (simp add: list_key_def)
  have "list_at (view s1) (generate_key uid tk) = list_at (view s) (generate_key uid tk) @ [Json (PDict m)]"
    by (subst 1(2)) (rule list_at_upd)
  moreover have "\<forall>k. k \<noteq> generate_key uid tk \<longrightarrow> view s1 k = view s k" by (simp add: 1(2))
  ultimately show ?case using Cons.IH [OF lk] 1(1) by auto
qed

lemma get_pending_up:
  assumes "list_key (view s) (generate_key uid tk)"
    and "list_at (view s) (generate_key uid tk) = map (\<lambda>m. Json (PDict m)) ms"
  obtains s' where "get_pending_messages rc uid tk True s = (map PDict ms, s')"
    "list_key (view s') (generate_key uid tk)" "list_at (view s') (generate_key uid tk) = []"
    "\<And>k. k \<noteq> generate_key uid tk \<Longrightarrow> view s' k = view s k"
proof -
  let ?k = "generate_key uid tk"
  obtain s1 where 1: "r_lrange_all rc ?k s = (Inr (list_at (view s) ?k), s1)" "view s1 = view s"
    by (rule lrange_up [OF assms(1)])
  obtain n s2 where 2: "r_delete rc [?k] s1 = (Inr n, s2)" "view s2 = (view s1)(?k := None)"
    by (rule delete1_up)
  show thesis
  proof (cases "ms = []")
    case True
    then show ?thesis
      using that [of s1] 1 assms by (simp add: get_pending_messages_def Let_def)
  next
    case False
    then show ?thesis
      using that [of s2] 1 2 assms(2) by (simp add: get_pending_messages_def Let_def list_key_def list_at_def)
  qed
qed

end

section \<open>Properties\<close>

text \<open>
  C28: the buffer is a queue that is read once. With Redis up and nothing waiting for a thread,
  messages stored one after the other are all returned, in order, by the next read; a second read
  returns nothing; and no other key of the server is touched by any of it.
\<close>

theorem buffer_fifo:
  assumes "redis_up rc view tick" and "view s (generate_key uid tk) = None"
    and "get_pending_messages rc uid tk True (store_all rc uid tk ms s) = (xs, s1)"
    and "get_pending_messages rc uid tk True s1 = (ys, s2)"
  shows "xs = map PDict ms \<and> ys = [] \<and> (\<forall>k. k \<noteq> generate_key uid tk \<longrightarrow> view s2 k = view s k)"
proof -
  note up = assms(1)
  let ?k = "generate_key uid tk"
  have lk: "list_key (view s) ?k" and la: "list_at (view s) ?k = []"
    using assms(2) by (simp_all add: list_key_def list_at_def)
  note st = redis_up.store_all_up [OF up lk, of ms, unfolded la append_Nil]
  from redis_up.get_pending_up [OF up conjunct1 [OF st] conjunct1 [OF conjunct2 [OF st]]]
  obtain t1 where 1: "get_pending_messages rc uid tk True (store_all rc uid tk ms s) = (map PDict ms, t1)"
    "list_key (view t1) ?k" "list_at (view t1) ?k = []"
    "\<And>k. k \<noteq> ?k \<Longrightarrow> view t1 k = view (store_all rc uid tk ms s) k" by metis
  have "list_at (view t1) ?k = map (\<lambda>m. Json (PDict m)) []" using 1(3) by simp
  from redis_up.get_pending_up [OF up 1(2) this]
  obtain t2 where 2: "get_pending_messages rc uid tk True t1 = (map PDict [], t2)"
    "\<And>k. k \<noteq> ?k \<Longrightarrow> view t2 k = view t1 k" by metis
  show ?thesis using 1 2 st assms(3,4) by auto
qed

theorem buffer_fifo_witness:
  "\<exists>xs s1 ys s2. mem_view empty_mem (generate_key ''u'' ''t'') = None \<and>
     get_pending_messages mem_redis ''u'' ''t'' True
       (store_all mem_redis ''u'' ''t'' [[(''n'', PNum 1)], [(''n'', PNum 2)]] empty_mem) = (xs, s1) \<and>
     get_pending_messages mem_redis ''u'' ''t'' True s1 = (ys, s2) \<and>
     xs = [PDict [(''n'', PNum 1)], PDict [(''n'', PNum 2)]] \<and> ys = []"
proof -
  have h: "mem_view empty_mem (generate_key ''u'' ''t'') = None"
    by (simp add: mem_view_def empty_mem_def)
  obtain xs s1 where 1: "get_pending_messages mem_redis ''u'' ''t'' True
      (store_all mem_redis ''u'' ''t'' [[(''n'', PNum 1)], [(''n'', PNum 2)]] empty_mem) = (xs, s1)" by fastforce
  obtain ys s2 where 2: "get_pending_messages mem_redis ''u'' ''t'' True s1 = (ys, s2)" by fastforce
  from buffer_fifo [OF mem_redis_up h 1 2] h 1 2 show ?thesis by auto
qed

end
