(* ===== verification/Ws_Hub.thy ===== *)
theory Ws_Hub
  imports Ws_Buffer
begin

text \<open>
  \<open>WebSocketHub\<close> of \<open>src/app/ws_hub.py\<close>: the connections of every user, the callbacks on the
  first connection and the last disconnection, and the broadcast with its buffer. A connection is
  a number; the set of connections of a user is a list without repetition in the order a broadcast
  iterates over it. Whether sending on a connection succeeds is the argument \<open>send_ok\<close>, because
  the socket is code outside the repository. Callbacks are outside the hub as well: the model
  returns the events for which they are run.
\<close>

section \<open>Definitions\<close>

type_synonym conn = nat

record hub =
  uid_to_conns :: "string \<Rightarrow> conn list option"
  loop_known :: bool

datatype hub_event = First_connect string | Last_disconnect string

definition init_hub :: hub where
  "init_hub = \<lparr>uid_to_conns = Map.empty, loop_known = False\<rparr>"

definition conns_of :: "hub \<Rightarrow> string \<Rightarrow> conn list" where
  "conns_of h uid = (case uid_to_conns h uid of None \<Rightarrow> [] | Some cs \<Rightarrow> cs)"

definition EVENT_TYPE_NORMALIZATION :: "(string \<times> string) list" where
  "EVENT_TYPE_NORMALIZATION =
     [(''llm_stream_start'', ''llm.stream_start''), (''llm_stream_chunk'', ''llm.stream_delta''),
      (''llm_stream_delta'', ''llm.stream_delta''), (''llm_stream_complete'', ''llm.stream_end''),
      (''llm_stream_end'', ''llm.stream_end''), (''llm_stream_error'', ''llm.error''),
      (''llm_stream_interrupted'', ''llm.error''),
      (''tool_use_start'', ''llm.tool_use_start''), (''tool_use_progress'', ''llm.tool_use_progress''),
      (''tool_use_complete'', ''llm.tool_use_complete''), (''tool_use_error'', ''llm.tool_use_error''),
      (''thinking_start'', ''llm.thinking_start''), (''thinking_delta'', ''llm.thinking_delta''),
      (''thinking_chunk'', ''llm.thinking_delta''), (''thinking_end'', ''llm.thinking_end'')]"

definition register :: "hub \<Rightarrow> string \<Rightarrow> conn \<Rightarrow> hub \<times> hub_event list" where
  "register h uid ws =
     (let cs = conns_of h uid;
          is_first = (cs = []);
          h' = h\<lparr>uid_to_conns := (uid_to_conns h)(uid \<mapsto> (if ws \<in> set cs then cs else cs @ [ws])),
                loop_known := True\<rparr>
      in (h', if is_first then [First_connect uid] else []))"

definition unregister :: "hub \<Rightarrow> string \<Rightarrow> conn \<Rightarrow> hub \<times> hub_event list" where
  "unregister h uid ws =
     (let cs = conns_of h uid in
      if cs \<noteq> [] \<and> ws \<in> set cs then
        let cs' = remove1 ws cs in
        if cs' = [] then (h\<lparr>uid_to_conns := (uid_to_conns h)(uid := None)\<rparr>, [Last_disconnect uid])
        else (h\<lparr>uid_to_conns := (uid_to_conns h)(uid \<mapsto> cs')\<rparr>, [])
      else (h, []))"

definition is_user_connected :: "hub \<Rightarrow> string \<Rightarrow> bool" where
  "is_user_connected h uid = (case uid_to_conns h uid of None \<Rightarrow> False | Some cs \<Rightarrow> 0 < length cs)"

definition get_connected_users :: "hub \<Rightarrow> string set" where
  "get_connected_users h = dom (uid_to_conns h)"

definition normalize_message :: "pydict \<Rightarrow> pydict" where
  "normalize_message message =
     (case dget_or message ''type'' (PStr ''unknown'') of
        PStr t \<Rightarrow> (case map_of EVENT_TYPE_NORMALIZATION t of
                    Some t' \<Rightarrow> if t' \<noteq> t then dset message ''type'' (PStr t') else message
                  | None \<Rightarrow> message)
      | _ \<Rightarrow> message)"

text \<open>\<open>channel.split(":", 1)[1]\<close>, where the channel is not empty and contains a colon.\<close>

definition thread_key_of :: "pydict \<Rightarrow> string option" where
  "thread_key_of message =
     (case dget_or message ''channel'' (PStr []) of
        PStr channel \<Rightarrow>
          if channel \<noteq> [] \<and> CHR '':'' \<in> set channel
          then (let tk = tl (dropWhile (\<lambda>c. c \<noteq> CHR '':'') channel) in if tk = [] then None else Some tk)
          else None
      | _ \<Rightarrow> None)"

definition buffer_message :: "'s redis \<Rightarrow> string \<Rightarrow> pydict \<Rightarrow> 's \<Rightarrow> 's" where
  "buffer_message rc uid message s =
     (case thread_key_of message of
        None \<Rightarrow> s
      | Some tk \<Rightarrow> snd (store_pending_message rc uid tk message s))"

text \<open>
  \<open>broadcast\<close> takes a snapshot of the connections under the lock, sends without the lock, and
  takes the lock again to discard the connections that failed. Other tasks may run in between, so
  the clean-up is an operation of its own on the hub of that moment.
\<close>

definition clean_dead :: "hub \<Rightarrow> string \<Rightarrow> conn list \<Rightarrow> hub" where
  "clean_dead h uid dead =
     (let uid_conns = conns_of h uid in
      if dead \<noteq> [] \<and> uid_conns \<noteq> [] then
        let cs = filter (\<lambda>c. c \<notin> set dead) uid_conns in
        h\<lparr>uid_to_conns := (uid_to_conns h)(uid := (if cs = [] then None else Some cs))\<rparr>
      else h)"

definition broadcast_finish ::
  "'s redis \<Rightarrow> (conn \<Rightarrow> bool) \<Rightarrow> conn list \<Rightarrow> hub \<Rightarrow> string \<Rightarrow> pydict \<Rightarrow> 's \<Rightarrow> hub \<times> 's \<times> (conn \<times> pydict) list" where
  "broadcast_finish rc send_ok conns h uid message s =
     (if conns = [] then (h, buffer_message rc uid message s, [])
      else
        let sent = filter send_ok conns;
            dead = filter (\<lambda>c. \<not> send_ok c) conns;
            s' = (if dead \<noteq> [] \<and> sent = [] then buffer_message rc uid message s else s)
        in (clean_dead h uid dead, s', map (\<lambda>c. (c, message)) sent))"

text \<open>
  A broadcast that no other task interleaves with: the hub, the server state, and the messages
  sent, with their connections.
\<close>

definition broadcast ::
  "'s redis \<Rightarrow> (conn \<Rightarrow> bool) \<Rightarrow> hub \<Rightarrow> string \<Rightarrow> pydict \<Rightarrow> 's \<Rightarrow> hub \<times> 's \<times> (conn \<times> pydict) list" where
  "broadcast rc send_ok h uid message s =
     broadcast_finish rc send_ok (conns_of h uid) h uid (normalize_message message) s"

definition send_to_user ::
  "'s redis \<Rightarrow> (conn \<Rightarrow> bool) \<Rightarrow> hub \<Rightarrow> string \<Rightarrow> pydict \<Rightarrow> 's \<Rightarrow> hub \<times> 's \<times> (conn \<times> pydict) list" where
  "send_to_user rc send_ok h uid message s = broadcast rc send_ok h uid message s"

text \<open>
  \<open>broadcast_threadsafe\<close> schedules a broadcast on the server loop, or drops the message when no
  loop is known yet: the result is the broadcast to run, if any.
\<close>

definition broadcast_threadsafe :: "hub \<Rightarrow> string \<Rightarrow> pydict \<Rightarrow> (string \<times> pydict) list" where
  "broadcast_threadsafe h uid message = (if loop_known h then [(uid, message)] else [])"

section \<open>Runs of the hub\<close>

text \<open>
  A run is a sequence of the three operations that change the hub, each atomic under the lock.
  The clean-up may come at any moment and name any connections, which covers every interleaving
  of broadcasts with registrations. The trace collects the events for which callbacks run.
\<close>

datatype hub_op =
    Op_register string conn
  | Op_unregister string conn
  | Op_clean string "conn list"

fun run_op :: "hub \<Rightarrow> hub_op \<Rightarrow> hub \<times> hub_event list" where
  "run_op h (Op_register uid ws) = register h uid ws"
| "run_op h (Op_unregister uid ws) = unregister h uid ws"
| "run_op h (Op_clean uid dead) = (clean_dead h uid dead, [])"

inductive run :: "hub_op list \<Rightarrow> hub \<Rightarrow> hub_event list \<Rightarrow> bool" where
  run_init: "run [] init_hub []"
| run_step: "run ops h tr \<Longrightarrow> run_op h op = (h', es) \<Longrightarrow> run (ops @ [op]) h' (tr @ es)"

fun is_clean :: "hub_op \<Rightarrow> bool" where
  "is_clean (Op_clean uid dead) = True"
| "is_clean _ = False"

definition hub_wf :: "hub \<Rightarrow> bool" where
  "hub_wf h \<longleftrightarrow> (\<forall>uid. uid_to_conns h uid \<noteq> Some [] \<and> distinct (conns_of h uid))"

definition events_of :: "string \<Rightarrow> hub_event list \<Rightarrow> hub_event list" where
  "events_of uid tr = filter (\<lambda>e. e = First_connect uid \<or> e = Last_disconnect uid) tr"

text \<open>\<open>First_connect\<close> and \<open>Last_disconnect\<close> in turn, starting with the former, \<open>n\<close> events.\<close>

fun alternating :: "string \<Rightarrow> nat \<Rightarrow> hub_event list" where
  "alternating uid 0 = []"
| "alternating uid (Suc n) = alternating uid n @ [if even n then First_connect uid else Last_disconnect uid]"

section \<open>Library lemmas\<close>

lemma connected_iff: "is_user_connected h uid \<longleftrightarrow> conns_of h uid \<noteq> []"
  by (simp add: is_user_connected_def conns_of_def split: option.split)

lemma hub_wf_init: "hub_wf init_hub"
  by (simp add: hub_wf_def init_hub_def conns_of_def)

lemma hub_wf_upd:
  assumes "hub_wf h" and "v \<noteq> Some []" and "\<And>cs. v = Some cs \<Longrightarrow> distinct cs"
  shows "hub_wf (h\<lparr>uid_to_conns := (uid_to_conns h)(uid := v)\<rparr>)"
  using assms by (auto simp: hub_wf_def conns_of_def split: option.split)

lemma conns_of_upd [simp]:
  "conns_of (h\<lparr>uid_to_conns := (uid_to_conns h)(uid := v)\<rparr>) u
     = (if u = uid then (case v of None \<Rightarrow> [] | Some cs \<Rightarrow> cs) else conns_of h u)"
  by (simp add: conns_of_def)

lemma conns_of_loop [simp]: "conns_of (h\<lparr>loop_known := b\<rparr>) u = conns_of h u"
  by (simp add: conns_of_def)

lemma hub_wf_loop [simp]: "hub_wf (h\<lparr>loop_known := b\<rparr>) = hub_wf h"
  by (simp add: hub_wf_def)

lemma register_spec:
  assumes "register h uid ws = (h', es)"
  shows "hub_wf h \<Longrightarrow> hub_wf h'"
    and "conns_of h' u = (if u = uid \<and> ws \<notin> set (conns_of h u) then conns_of h u @ [ws] else conns_of h u)"
    and "es = (if is_user_connected h uid then [] else [First_connect uid])"
proof -
  have h': "h' = (h\<lparr>uid_to_conns := (uid_to_conns h)(uid \<mapsto>
      (if ws \<in> set (conns_of h uid) then conns_of h uid else conns_of h uid @ [ws]))\<rparr>)\<lparr>loop_known := True\<rparr>"
    using assms by (auto simp: register_def Let_def)
  show "hub_wf h'" if "hub_wf h"
    unfolding h' hub_wf_loop using that by (intro hub_wf_upd) (auto simp: hub_wf_def)
  show "conns_of h' u = (if u = uid \<and> ws \<notin> set (conns_of h u) then conns_of h u @ [ws] else conns_of h u)"
    by (simp add: h')
  show "es = (if is_user_connected h uid then [] else [First_connect uid])"
    using assms by (auto simp: register_def Let_def connected_iff)
qed

lemma remove1_Nil_iff: "remove1 ws cs = [] \<longleftrightarrow> cs = [] \<or> cs = [ws]"
  by (cases cs) auto

lemma unregister_spec:
  assumes "unregister h uid ws = (h', es)"
  shows "hub_wf h \<Longrightarrow> hub_wf h'"
    and "conns_of h' u = (if u = uid then remove1 ws (conns_of h u) else conns_of h u)"
    and "es = (if conns_of h uid = [ws] then [Last_disconnect uid] else [])"
proof -
  show "hub_wf h'" if "hub_wf h"
  proof -
    have d: "distinct (conns_of h uid)" using that by (simp add: hub_wf_def)
    show ?thesis using assms that d
      by (auto simp: unregister_def Let_def intro!: hub_wf_upd split: if_splits)
  qed
  show "conns_of h' u = (if u = uid then remove1 ws (conns_of h u) else conns_of h u)"
    using assms by (auto simp: unregister_def Let_def remove1_idem split: if_splits)
  show "es = (if conns_of h uid = [ws] then [Last_disconnect uid] else [])"
    using assms by (auto simp: unregister_def Let_def remove1_Nil_iff split: if_splits)
qed

lemma clean_dead_spec:
  shows "hub_wf h \<Longrightarrow> hub_wf (clean_dead h uid dead)"
    and "conns_of (clean_dead h uid dead) u
      = (if u = uid then filter (\<lambda>c. c \<notin> set dead) (conns_of h u) else conns_of h u)"
proof -
  show "hub_wf (clean_dead h uid dead)" if "hub_wf h"
  proof -
    have d: "distinct (conns_of h uid)" using that by (simp add: hub_wf_def)
    show ?thesis using that d
      by (auto simp: clean_dead_def Let_def intro!: hub_wf_upd split: if_splits)
  qed
  show "conns_of (clean_dead h uid dead) u
      = (if u = uid then filter (\<lambda>c. c \<notin> set dead) (conns_of h u) else conns_of h u)"
    by (auto simp: clean_dead_def Let_def filter_empty_conv)
qed

lemma run_op_wf: "run_op h op = (h', es) \<Longrightarrow> hub_wf h \<Longrightarrow> hub_wf h'"
  by (cases op) (auto dest: register_spec(1) unregister_spec(1) intro: clean_dead_spec(1))

lemma run_wf: "run ops h tr \<Longrightarrow> hub_wf h"
  by (induction rule: run.induct) (auto intro: hub_wf_init run_op_wf)

lemma register_loop_known: "register h uid ws = (h', es) \<Longrightarrow> loop_known h'"
  by (auto simp: register_def Let_def)

text \<open>A registration stores the server loop, so a connected user implies a known loop.\<close>

lemma run_loop_known: "run ops h tr \<Longrightarrow> is_user_connected h uid \<Longrightarrow> loop_known h"
proof (induction arbitrary: uid rule: run.induct)
  case run_init
  then show ?case by (simp add: connected_iff init_hub_def conns_of_def)
next
  case (run_step ops h tr op h' es)
  show ?case
  proof (cases op)
    case (Op_register u ws)
    then show ?thesis using run_step.hyps(2) register_loop_known by simp
  next
    case (Op_unregister u ws)
    then have un: "unregister h u ws = (h', es)" using run_step.hyps(2) by simp
    then have "is_user_connected h uid"
      using run_step.prems unregister_spec(2) [OF un, of uid] by (auto simp: connected_iff split: if_splits)
    then have "loop_known h" by (rule run_step.IH)
    then show ?thesis using un by (auto simp: unregister_def Let_def split: if_splits)
  next
    case (Op_clean u dead)
    then have h': "h' = clean_dead h u dead" using run_step.hyps(2) by simp
    then have "is_user_connected h uid"
      using run_step.prems clean_dead_spec(2) [of h u dead uid] by (auto simp: connected_iff split: if_splits)
    then have "loop_known h" by (rule run_step.IH)
    then show ?thesis using h' by (auto simp: clean_dead_def Let_def)
  qed
qed

lemma events_of_append: "events_of uid (xs @ ys) = events_of uid xs @ events_of uid ys"
  by (simp add: events_of_def)

text \<open>What one registration or unregistration adds to the events of a user.\<close>

lemma run_op_events:
  assumes "run_op h op = (h', es)" and "\<not> is_clean op"
  shows "events_of u es = (if is_user_connected h u = is_user_connected h' u then []
    else if is_user_connected h' u then [First_connect u] else [Last_disconnect u])"
proof (cases op)
  case (Op_register uid ws)
  then show ?thesis
    using assms register_spec(2,3) [of h uid ws h' es]
    by (auto simp: events_of_def connected_iff)
next
  case (Op_unregister uid ws)
  then show ?thesis
    using assms unregister_spec(2,3) [of h uid ws h' es]
    by (auto simp: events_of_def connected_iff remove1_Nil_iff)
qed (use assms in simp)

lemma run_alternating:
  assumes "run ops h tr" and "list_all (\<lambda>op. \<not> is_clean op) ops"
  shows "\<exists>n. events_of uid tr = alternating uid n \<and> (odd n \<longleftrightarrow> is_user_connected h uid)"
  using assms
proof (induction rule: run.induct)
  case run_init
  show ?case by (rule exI [of _ 0]) (simp add: events_of_def connected_iff init_hub_def conns_of_def)
next
  case (run_step ops h tr op h' es)
  then obtain n where n: "events_of uid tr = alternating uid n" "odd n \<longleftrightarrow> is_user_connected h uid" by auto
  have "events_of uid es = (if is_user_connected h uid = is_user_connected h' uid then []
      else if is_user_connected h' uid then [First_connect uid] else [Last_disconnect uid])"
    by (rule run_op_events [OF run_step.hyps(2)]) (use run_step.prems in simp)
  then show ?case
    using n by (intro exI [of _ "if is_user_connected h uid = is_user_connected h' uid then n else Suc n"])
      (auto simp: events_of_append)
qed

lemma broadcast_spec:
  assumes "broadcast rc send_ok h uid m s = (h', s', out)"
  shows "conns_of h' u = (if u = uid then filter send_ok (conns_of h u) else conns_of h u)"
    and "out = map (\<lambda>c. (c, normalize_message m)) (filter send_ok (conns_of h uid))"
    and "s' = (if filter send_ok (conns_of h uid) = [] then buffer_message rc uid (normalize_message m) s else s)"
proof -
  have dead: "filter (\<lambda>c. c \<in> set cs \<longrightarrow> send_ok c) cs = filter send_ok cs" for cs
    by (rule filter_cong) auto
  have h': "h' = (if conns_of h uid = [] then h else clean_dead h uid (filter (\<lambda>c. \<not> send_ok c) (conns_of h uid)))"
    using assms by (auto simp: broadcast_def broadcast_finish_def Let_def split: if_splits)
  show "conns_of h' u = (if u = uid then filter send_ok (conns_of h u) else conns_of h u)"
    by (simp add: h' clean_dead_spec dead)
  show "out = map (\<lambda>c. (c, normalize_message m)) (filter send_ok (conns_of h uid))"
    "s' = (if filter send_ok (conns_of h uid) = [] then buffer_message rc uid (normalize_message m) s else s)"
    using assms by (auto simp: broadcast_def broadcast_finish_def Let_def filter_empty_conv split: if_splits)
qed

lemma dget_normalize_other: "k \<noteq> ''type'' \<Longrightarrow> dget_or (normalize_message m) k v = dget_or m k v"
  by (auto simp: normalize_message_def dget_or_def split: pyval.split option.split)

lemma thread_key_of_normalize [simp]: "thread_key_of (normalize_message m) = thread_key_of m"
  by (simp add: thread_key_of_def dget_normalize_other)

section \<open>Properties\<close>

text \<open>
  Whatever the order of registrations, unregistrations and clean-ups, the hub never keeps a
  user with an empty set of connections, so the two ways to ask who is connected agree: a user is
  in \<open>get_connected_users\<close> exactly when \<open>is_user_connected\<close> holds. No connection is listed twice.
\<close>

theorem hub_connected_users:
  assumes "run ops h tr"
  shows "get_connected_users h = {uid. is_user_connected h uid} \<and> distinct (conns_of h uid)"
  using run_wf [OF assms]
  by (auto simp: hub_wf_def get_connected_users_def is_user_connected_def split: option.splits)

theorem hub_connected_users_witness:
  "\<exists>h tr. run [Op_register ''u'' 1, Op_register ''v'' 2, Op_unregister ''u'' 1] h tr \<and>
     get_connected_users h = {uid. is_user_connected h uid} \<and> \<not> is_user_connected h ''u'' \<and> is_user_connected h ''v''"
proof -
  let ?h1 = "fst (register init_hub ''u'' 1)"
  let ?h2 = "fst (register ?h1 ''v'' 2)"
  let ?h3 = "fst (unregister ?h2 ''u'' 1)"
  have r1: "run ([] @ [Op_register ''u'' 1]) ?h1 ([] @ snd (register init_hub ''u'' 1))"
    by (rule run_step [OF run_init]) simp
  have r2: "run (([] @ [Op_register ''u'' 1]) @ [Op_register ''v'' 2]) ?h2
      (([] @ snd (register init_hub ''u'' 1)) @ snd (register ?h1 ''v'' 2))"
    by (rule run_step [OF r1]) simp
  have r3: "run ((([] @ [Op_register ''u'' 1]) @ [Op_register ''v'' 2]) @ [Op_unregister ''u'' 1]) ?h3
      ((([] @ snd (register init_hub ''u'' 1)) @ snd (register ?h1 ''v'' 2)) @ snd (unregister ?h2 ''u'' 1))"
    by (rule run_step [OF r2]) simp
  have "\<not> is_user_connected ?h3 ''u''" "is_user_connected ?h3 ''v''"
    by (simp_all add: register_def unregister_def connected_iff conns_of_def init_hub_def Let_def)
  with r3 hub_connected_users [OF r3] show ?thesis by (simp only: append_Nil append_Cons) blast
qed

text \<open>
  C30: the life-cycle callbacks come in turn. Without clean-ups of broken connections, the events
  of a user are a first connection, a last disconnection, a first connection and so on, and the
  latest one is a first connection exactly when the user is connected now.
\<close>

theorem hub_callbacks_alternate:
  assumes "run ops h tr" and "list_all (\<lambda>op. \<not> is_clean op) ops"
  shows "\<exists>n. events_of uid tr = alternating uid n \<and> (odd n \<longleftrightarrow> is_user_connected h uid)"
  by (rule run_alternating [OF assms])

theorem hub_callbacks_alternate_witness:
  "\<exists>h tr. run [Op_register ''u'' 1, Op_unregister ''u'' 1] h tr \<and> events_of ''u'' tr = [First_connect ''u'', Last_disconnect ''u''] \<and>
     (\<exists>n. events_of ''u'' tr = alternating ''u'' n \<and> (odd n \<longleftrightarrow> is_user_connected h ''u''))"
proof -
  let ?h1 = "fst (register init_hub ''u'' 1)"
  have r1: "run ([] @ [Op_register ''u'' 1]) ?h1 ([] @ [First_connect ''u''])"
    by (rule run_step [OF run_init]) (simp add: register_def init_hub_def conns_of_def Let_def)
  have r2: "run (([] @ [Op_register ''u'' 1]) @ [Op_unregister ''u'' 1]) (fst (unregister ?h1 ''u'' 1))
      (([] @ [First_connect ''u'']) @ [Last_disconnect ''u''])"
    by (rule run_step [OF r1]) (simp add: register_def unregister_def init_hub_def conns_of_def Let_def)
  have ok: "list_all (\<lambda>op. \<not> is_clean op) (([] @ [Op_register ''u'' 1]) @ [Op_unregister ''u'' 1])" by simp
  have ev: "events_of ''u'' (([] @ [First_connect ''u'']) @ [Last_disconnect ''u'']) = [First_connect ''u'', Last_disconnect ''u'']"
    by (simp add: events_of_def)
  show ?thesis
    using r2 ev hub_callbacks_alternate [OF r2 ok, of "''u''"] unfolding append_Nil append_Cons by blast
qed

text \<open>
  A broadcast that finds the only connection of a user broken removes the user from the hub
  without a last-disconnection event, so the next registration announces a first connection for
  the second time in a row: the on_last_disconnect callbacks of the first session never ran.
\<close>

theorem hub_cleanup_skips_callbacks:
  "\<exists>h tr. run [Op_register ''u'' 1, Op_clean ''u'' [1], Op_register ''u'' 2] h tr \<and>
     tr = [First_connect ''u'', First_connect ''u''] \<and>
     fst (broadcast rc (\<lambda>c. False) (fst (register init_hub ''u'' 1)) ''u'' m s) = fst (run_op (fst (register init_hub ''u'' 1)) (Op_clean ''u'' [1]))"
proof -
  let ?h1 = "fst (register init_hub ''u'' 1)"
  let ?h2 = "clean_dead ?h1 ''u'' [1]"
  have r1: "run ([] @ [Op_register ''u'' 1]) ?h1 ([] @ [First_connect ''u''])"
    by (rule run_step [OF run_init]) (simp add: register_def init_hub_def conns_of_def Let_def)
  have r2: "run (([] @ [Op_register ''u'' 1]) @ [Op_clean ''u'' [1]]) ?h2 (([] @ [First_connect ''u'']) @ [])"
    by (rule run_step [OF r1]) simp
  have r3: "run ((([] @ [Op_register ''u'' 1]) @ [Op_clean ''u'' [1]]) @ [Op_register ''u'' 2]) (fst (register ?h2 ''u'' 2))
      ((([] @ [First_connect ''u'']) @ []) @ [First_connect ''u''])"
    by (rule run_step [OF r2]) (simp add: register_def clean_dead_def init_hub_def conns_of_def Let_def)
  have "fst (broadcast rc (\<lambda>c. False) ?h1 ''u'' m s) = ?h2"
    by (simp add: broadcast_def broadcast_finish_def register_def init_hub_def conns_of_def Let_def)
  then show ?thesis using r3 unfolding append_Nil append_Nil2 append_Cons run_op.simps fst_conv by blast
qed

text \<open>
  Delivery. A broadcast sends the message, with its type in the current naming, exactly once
  to each connection of the user that works, in order; it drops the broken ones and leaves other
  users alone. When no connection took the message and its channel names a thread, the message
  is at the end of that thread's buffer with a fresh time to live and the rest of the server is
  unchanged; otherwise the server is not touched.
\<close>

theorem broadcast_delivers:
  assumes "redis_up rc view tick"
    and "\<And>tk. thread_key_of m = Some tk \<Longrightarrow> list_key (view s) (generate_key uid tk)"
    and "broadcast rc send_ok h uid m s = (h', s', out)"
  shows "out = map (\<lambda>c. (c, normalize_message m)) (filter send_ok (conns_of h uid)) \<and>
    conns_of h' u = (if u = uid then filter send_ok (conns_of h u) else conns_of h u) \<and>
    (if filter send_ok (conns_of h uid) \<noteq> [] then s' = s
     else case thread_key_of m of
        None \<Rightarrow> s' = s
      | Some tk \<Rightarrow> view s' = (view s)(generate_key uid tk \<mapsto>
          (VList (list_at (view s) (generate_key uid tk) @ [Json (PDict (normalize_message m))]), Some buffer_ttl)))"
proof (cases "thread_key_of m")
  case None
  then show ?thesis using broadcast_spec [OF assms(3)] by (auto simp: buffer_message_def)
next
  case (Some tk)
  obtain t where "store_pending_message rc uid tk (normalize_message m) s = (True, t)"
    "view t = (view s)(generate_key uid tk \<mapsto>
      (VList (list_at (view s) (generate_key uid tk) @ [Json (PDict (normalize_message m))]), Some buffer_ttl))"
    by (rule redis_up.store_up [OF assms(1) assms(2) [OF Some]])
  then show ?thesis using Some broadcast_spec [OF assms(3)] by (auto simp: buffer_message_def)
qed

theorem broadcast_delivers_witness:
  "\<exists>h' s' out. broadcast mem_redis (\<lambda>c. c = 2) (fst (register (fst (register init_hub ''u'' 1)) ''u'' 2)) ''u''
       [(''type'', PStr ''thinking_chunk''), (''channel'', PStr ''chat:t'')] empty_mem = (h', s', out) \<and>
     out = [(2, [(''type'', PStr ''llm.thinking_delta''), (''channel'', PStr ''chat:t'')])] \<and>
     conns_of h' ''u'' = [2] \<and> s' = empty_mem"
proof -
  let ?m = "[(''type'', PStr ''thinking_chunk''), (''channel'', PStr ''chat:t'')]"
  let ?h = "fst (register (fst (register init_hub ''u'' 1)) ''u'' 2)"
  obtain h' s' out where b: "broadcast mem_redis (\<lambda>c. c = 2) ?h ''u'' ?m empty_mem = (h', s', out)"
    by (cases "broadcast mem_redis (\<lambda>c. c = 2) ?h ''u'' ?m empty_mem") auto
  have lk: "list_key (mem_view empty_mem) (generate_key ''u'' tk)" for tk
    by (simp add: list_key_def mem_view_def empty_mem_def)
  have c: "conns_of ?h ''u'' = [1, 2]"
    by (simp add: register_def init_hub_def conns_of_def Let_def)
  have n: "normalize_message ?m = [(''type'', PStr ''llm.thinking_delta''), (''channel'', PStr ''chat:t'')]"
    by (simp add: normalize_message_def EVENT_TYPE_NORMALIZATION_def)
  from broadcast_delivers [OF mem_redis_up lk b, of "''u''"] b c n show ?thesis by simp
qed

end
