(* ===== verification/Redis_Namespaces.thy ===== *)
theory Redis_Namespaces
  imports Redis_Client
begin

text \<open>
  The key layout of \<open>src/app/llm_service/redis_namespaces.py\<close>: the three cache levels and the
  business domains, their times to live, the functions that build keys and channels, and the
  migration of keys of the former layout.
\<close>

section \<open>Definitions\<close>

datatype CacheLevel = USER | COMPANY | BUSINESS

datatype BusinessDomain = BANK | ROUTING | INVOICES | EXPENSES | COA | DASHBOARD | TASKS | CHAT | HR

fun level_value :: "CacheLevel \<Rightarrow> string" where
  "level_value USER = ''user''"
| "level_value COMPANY = ''company''"
| "level_value BUSINESS = ''business''"

fun domain_value :: "BusinessDomain \<Rightarrow> string" where
  "domain_value BANK = ''bank''"
| "domain_value ROUTING = ''routing''"
| "domain_value INVOICES = ''invoices''"
| "domain_value EXPENSES = ''expenses''"
| "domain_value COA = ''coa''"
| "domain_value DASHBOARD = ''dashboard''"
| "domain_value TASKS = ''tasks''"
| "domain_value CHAT = ''chat''"
| "domain_value HR = ''hr''"

text \<open>The constants of \<open>RedisTTL\<close> the operations use, in seconds.\<close>

definition TTL_USER_PROFILE :: nat where "TTL_USER_PROFILE = 86400"
definition TTL_USER_BALANCE :: nat where "TTL_USER_BALANCE = 300"
definition TTL_COMPANY_CONTEXT :: nat where "TTL_COMPANY_CONTEXT = 3600"
definition TTL_BUSINESS_DEFAULT :: nat where "TTL_BUSINESS_DEFAULT = 2400"
definition TTL_SESSION :: nat where "TTL_SESSION = 7200"
definition TTL_CACHE :: nat where "TTL_CACHE = 3600"

fun business_ttl :: "BusinessDomain \<Rightarrow> nat" where
  "business_ttl BANK = 2400"
| "business_ttl ROUTING = 1800"
| "business_ttl INVOICES = 2400"
| "business_ttl EXPENSES = 2400"
| "business_ttl COA = 3600"
| "business_ttl DASHBOARD = 1800"
| "business_ttl TASKS = 2400"
| "business_ttl CHAT = 86400"
| "business_ttl HR = 3600"

lemmas ttl_defs = TTL_USER_PROFILE_def TTL_USER_BALANCE_def TTL_COMPANY_CONTEXT_def
  TTL_BUSINESS_DEFAULT_def TTL_SESSION_def TTL_CACHE_def

definition build_user_profile_key :: "string \<Rightarrow> string" where
  "build_user_profile_key uid = ''user:'' @ uid @ '':profile''"

definition build_user_preferences_key :: "string \<Rightarrow> string" where
  "build_user_preferences_key uid = ''user:'' @ uid @ '':preferences''"

definition build_static_data_key :: "string \<Rightarrow> string" where
  "build_static_data_key version = ''static_data:'' @ version"

definition build_user_companies_key :: "string \<Rightarrow> string" where
  "build_user_companies_key uid = ''user:'' @ uid @ '':companies''"

definition build_user_selected_company_key :: "string \<Rightarrow> string" where
  "build_user_selected_company_key uid = ''user:'' @ uid @ '':selected_company_id''"

definition build_user_balance_key :: "string \<Rightarrow> string" where
  "build_user_balance_key uid = ''user:'' @ uid @ '':balance''"

definition build_company_context_key :: "string \<Rightarrow> string \<Rightarrow> string" where
  "build_company_context_key uid company_id = ''company:'' @ uid @ '':'' @ company_id @ '':context''"

definition build_company_settings_key :: "string \<Rightarrow> string \<Rightarrow> string" where
  "build_company_settings_key uid company_id = ''company:'' @ uid @ '':'' @ company_id @ '':settings''"

definition build_company_coa_key :: "string \<Rightarrow> string \<Rightarrow> string" where
  "build_company_coa_key uid company_id = ''company:'' @ uid @ '':'' @ company_id @ '':coa''"

definition build_business_key :: "string \<Rightarrow> string \<Rightarrow> string \<Rightarrow> string option \<Rightarrow> string" where
  "build_business_key uid company_id domain item_key =
     (let base_key = ''business:'' @ uid @ '':'' @ company_id @ '':'' @ domain in
      case item_key of
        Some ik \<Rightarrow> if ik \<noteq> [] then base_key @ '':'' @ ik else base_key
      | None \<Rightarrow> base_key)"

definition build_bank_key :: "string \<Rightarrow> string \<Rightarrow> string" where
  "build_bank_key uid company_id = build_business_key uid company_id (domain_value BANK) None"

definition build_routing_key :: "string \<Rightarrow> string \<Rightarrow> string" where
  "build_routing_key uid company_id = build_business_key uid company_id (domain_value ROUTING) None"

definition build_invoices_key :: "string \<Rightarrow> string \<Rightarrow> string" where
  "build_invoices_key uid company_id = build_business_key uid company_id (domain_value INVOICES) None"

definition build_expenses_key :: "string \<Rightarrow> string \<Rightarrow> string" where
  "build_expenses_key uid company_id = build_business_key uid company_id (domain_value EXPENSES) None"

definition build_coa_key :: "string \<Rightarrow> string \<Rightarrow> string" where
  "build_coa_key uid company_id = build_business_key uid company_id (domain_value COA) None"

definition build_dashboard_key :: "string \<Rightarrow> string \<Rightarrow> string" where
  "build_dashboard_key uid company_id = build_business_key uid company_id (domain_value DASHBOARD) None"

definition build_tasks_key :: "string \<Rightarrow> string \<Rightarrow> string" where
  "build_tasks_key uid company_id = build_business_key uid company_id (domain_value TASKS) None"

definition build_chat_business_key :: "string \<Rightarrow> string \<Rightarrow> string" where
  "build_chat_business_key uid company_id = build_business_key uid company_id (domain_value CHAT) None"

definition build_hr_key :: "string \<Rightarrow> string \<Rightarrow> string" where
  "build_hr_key uid company_id = build_business_key uid company_id (domain_value HR) None"

definition build_session_key :: "string \<Rightarrow> string \<Rightarrow> string" where
  "build_session_key user_id company_id = ''session:'' @ user_id @ '':'' @ company_id @ '':state''"

definition build_chat_history_key :: "string \<Rightarrow> string \<Rightarrow> string \<Rightarrow> string" where
  "build_chat_history_key user_id company_id thread_key =
     ''chat:'' @ user_id @ '':'' @ company_id @ '':'' @ thread_key @ '':history''"

definition build_ws_channel :: "string \<Rightarrow> string \<Rightarrow> string \<Rightarrow> string" where
  "build_ws_channel user_id company_id thread_key =
     ''chat:'' @ user_id @ '':'' @ company_id @ '':'' @ thread_key"

definition build_ws_buffer_key :: "string \<Rightarrow> string \<Rightarrow> string" where
  "build_ws_buffer_key user_id thread_key = ''pending_ws_messages:'' @ user_id @ '':'' @ thread_key"

definition build_lock_key :: "string \<Rightarrow> string \<Rightarrow> string" where
  "build_lock_key lock_type resource_id = ''lock:'' @ lock_type @ '':'' @ resource_id"

definition build_context_key :: "string \<Rightarrow> string \<Rightarrow> string" where
  "build_context_key user_id company_id = ''context:'' @ user_id @ '':'' @ company_id"

definition build_cache_key :: "string \<Rightarrow> string \<Rightarrow> string \<Rightarrow> string option \<Rightarrow> string" where
  "build_cache_key user_id company_id data_type sub_type =
     (let base = ''cache:'' @ user_id @ '':'' @ company_id @ '':'' @ data_type in
      case sub_type of Some st \<Rightarrow> if st \<noteq> [] then base @ '':'' @ st else base | None \<Rightarrow> base)"

definition build_jobs_key :: "string \<Rightarrow> string \<Rightarrow> string \<Rightarrow> string" where
  "build_jobs_key user_id company_id department = ''jobs:'' @ user_id @ '':'' @ company_id @ '':'' @ department"

definition build_notification_channel :: "string \<Rightarrow> string" where
  "build_notification_channel uid = ''notification:'' @ uid"

definition build_messenger_channel :: "string \<Rightarrow> string" where
  "build_messenger_channel uid = ''messenger:'' @ uid"

definition build_company_updates_channel :: "string \<Rightarrow> string \<Rightarrow> string" where
  "build_company_updates_channel uid company_id = ''company:'' @ uid @ '':'' @ company_id @ '':updates''"

definition build_business_updates_channel :: "string \<Rightarrow> string \<Rightarrow> string \<Rightarrow> string" where
  "build_business_updates_channel uid company_id domain =
     ''business:'' @ uid @ '':'' @ company_id @ '':'' @ domain @ '':updates''"

fun get_ttl_for_level :: "CacheLevel \<Rightarrow> nat" where
  "get_ttl_for_level USER = TTL_USER_PROFILE"
| "get_ttl_for_level COMPANY = TTL_COMPANY_CONTEXT"
| "get_ttl_for_level BUSINESS = TTL_BUSINESS_DEFAULT"

definition all_domains :: "BusinessDomain list" where
  "all_domains = [BANK, ROUTING, INVOICES, EXPENSES, COA, DASHBOARD, TASKS, CHAT, HR]"

definition get_ttl_for_domain :: "string \<Rightarrow> nat" where
  "get_ttl_for_domain domain =
     (case map_of (map (\<lambda>d. (domain_value d, business_ttl d)) all_domains) domain of
        Some ttl \<Rightarrow> ttl | None \<Rightarrow> TTL_BUSINESS_DEFAULT)"

definition LEGACY_TO_NEW_MAPPING :: "(string \<times> string \<times> string) list" where
  "LEGACY_TO_NEW_MAPPING =
     [(''mandate:snapshot'', ''company'', ''context''),
      (''bank:transactions'', ''business'', ''bank''),
      (''bank:accounts'', ''business'', ''bank''),
      (''bank:batches'', ''business'', ''bank''),
      (''apbookeeper:documents'', ''business'', ''invoices''),
      (''apbookeeper:pendinglist'', ''business'', ''invoices''),
      (''expenses:details'', ''business'', ''expenses''),
      (''expenses:open'', ''business'', ''expenses''),
      (''expenses:closed'', ''business'', ''expenses''),
      (''drive:documents'', ''business'', ''routing''),
      (''coa:accounts'', ''business'', ''coa''),
      (''coa:functions'', ''business'', ''coa''),
      (''hr:employees'', ''business'', ''hr''),
      (''hr:contracts'', ''business'', ''hr''),
      (''hr:references'', ''business'', ''hr''),
      (''jobs:router'', ''business'', ''dashboard''),
      (''jobs:apbookeeper'', ''business'', ''dashboard''),
      (''jobs:banker'', ''business'', ''dashboard'')]"

definition migrate_legacy_key :: "string \<Rightarrow> string option" where
  "migrate_legacy_key legacy_key =
     (let parts = split_on CHR '':'' legacy_key in
      if length parts < 4 then None
      else
        let namespace = parts ! 0; uid = parts ! 1; cid = parts ! 2 in
        if namespace = ''cache'' \<and> 5 \<le> length parts then
          (case map_of LEGACY_TO_NEW_MAPPING (parts ! 3 @ '':'' @ parts ! 4) of
             None \<Rightarrow> None
           | Some (new_namespace, new_suffix) \<Rightarrow>
               if new_namespace = ''company'' then Some (build_company_context_key uid cid)
               else if new_namespace = ''business'' then Some (build_business_key uid cid new_suffix None)
               else None)
        else if namespace = ''jobs'' \<and> 4 \<le> length parts then
          (case map_of LEGACY_TO_NEW_MAPPING (''jobs:'' @ parts ! 3) of
             None \<Rightarrow> None
           | Some _ \<Rightarrow> Some (build_business_key uid cid (domain_value DASHBOARD) None))
        else None)"

section \<open>Keys as data\<close>

text \<open>The keys the service stores data under, with the arguments they are built from.\<close>

datatype cache_key =
    Profile string | Preferences string | Companies string | Selected_company string | Balance string
  | Company_context string string | Company_settings string string | Company_coa string string
  | Business string string BusinessDomain | Business_item string string BusinessDomain string
  | Session_state string string | Chat_history string string string
  | Ws_pending string string | Lock string string

fun key_string :: "cache_key \<Rightarrow> string" where
  "key_string (Profile u) = build_user_profile_key u"
| "key_string (Preferences u) = build_user_preferences_key u"
| "key_string (Companies u) = build_user_companies_key u"
| "key_string (Selected_company u) = build_user_selected_company_key u"
| "key_string (Balance u) = build_user_balance_key u"
| "key_string (Company_context u c) = build_company_context_key u c"
| "key_string (Company_settings u c) = build_company_settings_key u c"
| "key_string (Company_coa u c) = build_company_coa_key u c"
| "key_string (Business u c d) = build_business_key u c (domain_value d) None"
| "key_string (Business_item u c d i) = build_business_key u c (domain_value d) (Some i)"
| "key_string (Session_state u c) = build_session_key u c"
| "key_string (Chat_history u c t) = build_chat_history_key u c t"
| "key_string (Ws_pending u t) = build_ws_buffer_key u t"
| "key_string (Lock t r) = build_lock_key t r"

definition plain :: "string \<Rightarrow> bool" where
  "plain s \<longleftrightarrow> s \<noteq> [] \<and> CHR '':'' \<notin> set s"

text \<open>The arguments are non-empty and without a colon.\<close>

fun plain_key :: "cache_key \<Rightarrow> bool" where
  "plain_key (Profile u) = plain u"
| "plain_key (Preferences u) = plain u"
| "plain_key (Companies u) = plain u"
| "plain_key (Selected_company u) = plain u"
| "plain_key (Balance u) = plain u"
| "plain_key (Company_context u c) = (plain u \<and> plain c)"
| "plain_key (Company_settings u c) = (plain u \<and> plain c)"
| "plain_key (Company_coa u c) = (plain u \<and> plain c)"
| "plain_key (Business u c d) = (plain u \<and> plain c)"
| "plain_key (Business_item u c d i) = (plain u \<and> plain c \<and> plain i)"
| "plain_key (Session_state u c) = (plain u \<and> plain c)"
| "plain_key (Chat_history u c t) = (plain u \<and> plain c \<and> plain t)"
| "plain_key (Ws_pending u t) = (plain u \<and> plain t)"
| "plain_key (Lock t r) = (plain t \<and> plain r)"

fun key_parts :: "cache_key \<Rightarrow> string list" where
  "key_parts (Profile u) = [''user'', u, ''profile'']"
| "key_parts (Preferences u) = [''user'', u, ''preferences'']"
| "key_parts (Companies u) = [''user'', u, ''companies'']"
| "key_parts (Selected_company u) = [''user'', u, ''selected_company_id'']"
| "key_parts (Balance u) = [''user'', u, ''balance'']"
| "key_parts (Company_context u c) = [''company'', u, c, ''context'']"
| "key_parts (Company_settings u c) = [''company'', u, c, ''settings'']"
| "key_parts (Company_coa u c) = [''company'', u, c, ''coa'']"
| "key_parts (Business u c d) = [''business'', u, c, domain_value d]"
| "key_parts (Business_item u c d i) = [''business'', u, c, domain_value d, i]"
| "key_parts (Session_state u c) = [''session'', u, c, ''state'']"
| "key_parts (Chat_history u c t) = [''chat'', u, c, t, ''history'']"
| "key_parts (Ws_pending u t) = [''pending_ws_messages'', u, t]"
| "key_parts (Lock t r) = [''lock'', t, r]"

section \<open>Library lemmas\<close>

lemmas key_builders = build_user_profile_key_def build_user_preferences_key_def build_user_companies_key_def
  build_user_selected_company_key_def build_user_balance_key_def build_company_context_key_def
  build_company_settings_key_def build_company_coa_key_def build_business_key_def build_session_key_def
  build_chat_history_key_def build_ws_buffer_key_def build_lock_key_def

lemma split_on_plain: "plain s \<Longrightarrow> split_on CHR '':'' s = [s]"
  by (simp add: plain_def split_on_no_sep)

lemma split_on_plain_append: "plain s \<Longrightarrow> split_on CHR '':'' (s @ CHR '':'' # t) = s # split_on CHR '':'' t"
  by (simp add: plain_def split_on_append)

lemma plain_not_Nil: "plain s \<Longrightarrow> s \<noteq> []"
  by (simp add: plain_def)

lemma split_on_inj: "split_on c s = split_on c t \<Longrightarrow> s = t"
  using py_join_split_on by metis

lemma domain_value_inj [simp]: "domain_value d = domain_value d' \<longleftrightarrow> d = d'"
  by (cases d; cases d') simp_all

lemma plain_domain [simp]: "plain (domain_value d)"
  by (cases d) (simp_all add: plain_def)

lemma split_key: "plain_key k \<Longrightarrow> split_on CHR '':'' (key_string k) = key_parts k"
  by (cases k) (auto simp: key_builders split_on_plain split_on_plain_append Let_def dest: plain_not_Nil)

lemma key_parts_inj: "key_parts k = key_parts k' \<Longrightarrow> k = k'"
  by (cases k; cases k') auto

lemma get_ttl_for_domain_pos: "0 < get_ttl_for_domain d"
  by (simp add: get_ttl_for_domain_def all_domains_def ttl_defs)

lemma get_ttl_for_domain_value: "get_ttl_for_domain (domain_value d) = business_ttl d"
  by (cases d) (simp_all add: get_ttl_for_domain_def all_domains_def)

section \<open>Properties\<close>

text \<open>
  Keys keep tenants and kinds of data apart. As long as identifiers are non-empty and hold no
  colon, two keys of the layout are the same string only if they are the same kind of key built
  from the same user, company, domain and item: no operation on one user's or company's data can
  reach another's.
\<close>

theorem cache_keys_disjoint:
  assumes "plain_key k" and "plain_key k'" and "key_string k = key_string k'"
  shows "k = k'"
  using key_parts_inj split_key [OF assms(1)] split_key [OF assms(2)] assms(3) by simp

theorem cache_keys_disjoint_witness:
  "plain_key (Business ''u1'' ''c1'' BANK) \<and> plain_key (Business ''u2'' ''c1'' BANK) \<and>
   key_string (Business ''u1'' ''c1'' BANK) \<noteq> key_string (Business ''u2'' ''c1'' BANK)"
proof -
  have p: "plain_key (Business ''u1'' ''c1'' BANK)" "plain_key (Business ''u2'' ''c1'' BANK)"
    by (simp_all add: plain_def)
  show ?thesis using p cache_keys_disjoint [OF p] by auto
qed

text \<open>
  Migration of the former layout. The legacy cache key of a mapped data type, and the legacy
  jobs key of a mapped department, are turned into the key of the new layout for the same user
  and the same company; a cache key without sub-type is left unmapped.
\<close>

theorem legacy_keys_migrate:
  assumes "plain u" and "plain c"
  shows "list_all (\<lambda>(dt, st, k). migrate_legacy_key (build_cache_key u c dt (Some st)) = Some (key_string k))
      [(''mandate'', ''snapshot'', Company_context u c), (''bank'', ''transactions'', Business u c BANK),
       (''bank'', ''accounts'', Business u c BANK), (''bank'', ''batches'', Business u c BANK),
       (''apbookeeper'', ''documents'', Business u c INVOICES), (''apbookeeper'', ''pendinglist'', Business u c INVOICES),
       (''expenses'', ''details'', Business u c EXPENSES), (''expenses'', ''open'', Business u c EXPENSES),
       (''expenses'', ''closed'', Business u c EXPENSES), (''drive'', ''documents'', Business u c ROUTING),
       (''coa'', ''accounts'', Business u c COA), (''coa'', ''functions'', Business u c COA),
       (''hr'', ''employees'', Business u c HR), (''hr'', ''contracts'', Business u c HR),
       (''hr'', ''references'', Business u c HR)] \<and>
    list_all (\<lambda>dept. migrate_legacy_key (build_jobs_key u c dept) = Some (key_string (Business u c DASHBOARD)))
      [''router'', ''apbookeeper'', ''banker''] \<and>
    (plain dt \<longrightarrow> migrate_legacy_key (build_cache_key u c dt None) = None)"
  using assms
  by (simp add: migrate_legacy_key_def build_cache_key_def build_jobs_key_def LEGACY_TO_NEW_MAPPING_def
      split_on_plain_append split_on_plain)

theorem legacy_keys_migrate_witness:
  "plain ''u'' \<and> plain ''c'' \<and>
   migrate_legacy_key (build_cache_key ''u'' ''c'' ''drive'' (Some ''documents'')) = Some ''business:u:c:routing''"
proof -
  have p: "plain ''u''" "plain ''c''" by (simp_all add: plain_def)
  show ?thesis using p legacy_keys_migrate [OF p] by (simp add: build_business_key_def)
qed

end
