(* ===== verification/Metrics.thy ===== *)
theory Metrics
  imports Redis_Namespaces
begin

text \<open>
  \<open>MetricsCalculator\<close> and \<open>AsyncMetricsCalculator\<close> of \<open>src/app/cache/metrics_calculator.py\<close>: the
  counters of the dashboard, computed from the business caches at every call. The asynchronous
  version issues its four reads together; the model runs them in any order.
\<close>

section \<open>Definitions\<close>

record ModuleMetrics =
  mm_to_process :: nat
  mm_in_process :: nat
  mm_pending :: nat
  mm_processed :: nat

record ExpenseMetrics =
  em_open :: nat
  em_closed :: nat
  em_pending_approval :: nat

record SummaryMetrics =
  sm_to_process :: nat
  sm_in_progress :: nat
  sm_completed :: nat

definition no_module_metrics :: ModuleMetrics where
  "no_module_metrics = \<lparr>mm_to_process = 0, mm_in_process = 0, mm_pending = 0, mm_processed = 0\<rparr>"

definition no_expense_metrics :: ExpenseMetrics where
  "no_expense_metrics = \<lparr>em_open = 0, em_closed = 0, em_pending_approval = 0\<rparr>"

abbreviation pnat :: "nat \<Rightarrow> pyval" where
  "pnat n \<equiv> PNum (of_nat n)"

definition module_to_dict :: "ModuleMetrics \<Rightarrow> pydict" where
  "module_to_dict m = [(''toProcess'', pnat (mm_to_process m)), (''inProcess'', pnat (mm_in_process m)),
     (''pending'', pnat (mm_pending m)), (''processed'', pnat (mm_processed m))]"

definition bank_to_dict :: "ModuleMetrics \<Rightarrow> pydict" where
  "bank_to_dict m = [(''toProcess'', pnat (mm_to_process m)), (''inProcess'', pnat (mm_in_process m)),
     (''pending'', pnat (mm_pending m)), (''matched'', pnat (mm_processed m))]"

definition expense_to_dict :: "ExpenseMetrics \<Rightarrow> pydict" where
  "expense_to_dict m = [(''open'', pnat (em_open m)), (''closed'', pnat (em_closed m)),
     (''pendingApproval'', pnat (em_pending_approval m))]"

definition completion_rate :: "SummaryMetrics \<Rightarrow> rat" where
  "completion_rate m =
     (let total = sm_to_process m + sm_in_progress m + sm_completed m in
      if total = 0 then 0 else py_round 2 (of_nat (sm_completed m) / of_nat total))"

definition summary_to_dict :: "SummaryMetrics \<Rightarrow> pydict" where
  "summary_to_dict m = [(''totalDocumentsToProcess'', pnat (sm_to_process m)),
     (''totalInProgress'', pnat (sm_in_progress m)), (''totalCompleted'', pnat (sm_completed m)),
     (''completionRate'', PNum (completion_rate m))]"

definition TO_PROCESS_STATUSES :: "string list" where
  "TO_PROCESS_STATUSES = [''to_process'', ''to_do'', ''new'', ''pending_process'', ''unprocessed'', ''to_reconcile'']"

definition IN_PROCESS_STATUSES :: "string list" where
  "IN_PROCESS_STATUSES = [''in_process'', ''processing'', ''running'', ''in_progress'']"

definition PENDING_STATUSES :: "string list" where
  "PENDING_STATUSES = [''pending'', ''pending_approval'', ''awaiting_approval'', ''waiting'']"

definition PROCESSED_STATUSES :: "string list" where
  "PROCESSED_STATUSES = [''processed'', ''completed'', ''done'', ''matched'', ''reconciled'', ''approved'']"

datatype metric_category = Cat_toProcess | Cat_inProcess | Cat_pending | Cat_processed

definition classify_status :: "pyval \<Rightarrow> metric_category result" where
  "classify_status status =
     rbind (if truthy status then (case status of PStr st \<Rightarrow> Inr (py_lower st) | _ \<Rightarrow> Inl AttributeError)
            else Inr [])
       (\<lambda>status_lower.
          if status_lower \<in> set TO_PROCESS_STATUSES then Inr Cat_toProcess
          else if status_lower \<in> set IN_PROCESS_STATUSES then Inr Cat_inProcess
          else if status_lower \<in> set PENDING_STATUSES then Inr Cat_pending
          else if status_lower \<in> set PROCESSED_STATUSES then Inr Cat_processed
          else Inr Cat_toProcess)"

definition get_business_data :: "'s redis \<Rightarrow> string \<Rightarrow> string \<Rightarrow> string \<Rightarrow> 's \<Rightarrow> pyval result \<times> 's" where
  "get_business_data rc uid company_id domain =
     sbind (r_get rc (build_business_key uid company_id domain None))
       (\<lambda>data. case data of
          None \<Rightarrow> sret PNone
        | Some t \<Rightarrow>
            if t = Raw [] then sret PNone
            else (case json_loads t of
                Inl _ \<Rightarrow> sret PNone
              | Inr parsed \<Rightarrow>
                  (case parsed of
                     PDict d \<Rightarrow> if map_of d ''cache_version'' \<noteq> None \<and> map_of d ''data'' \<noteq> None
                               then sret (dget d ''data'') else sret parsed
                   | _ \<Rightarrow> sret parsed)))"

fun count_up :: "metric_category \<Rightarrow> ModuleMetrics \<Rightarrow> ModuleMetrics" where
  "count_up Cat_toProcess m = m\<lparr>mm_to_process := mm_to_process m + 1\<rparr>"
| "count_up Cat_inProcess m = m\<lparr>mm_in_process := mm_in_process m + 1\<rparr>"
| "count_up Cat_pending m = m\<lparr>mm_pending := mm_pending m + 1\<rparr>"
| "count_up Cat_processed m = m\<lparr>mm_processed := mm_processed m + 1\<rparr>"

fun count_loop :: "string \<Rightarrow> pyval list \<Rightarrow> ModuleMetrics \<Rightarrow> ModuleMetrics result" where
  "count_loop field [] counts = Inr counts"
| "count_loop field (PDict item # items) counts =
     rbind (classify_status (dget_or item field (PStr [])))
       (\<lambda>category. count_loop field items (count_up category counts))"
| "count_loop field (_ # items) counts = Inl AttributeError"

definition count_by_status :: "pyval \<Rightarrow> string \<Rightarrow> ModuleMetrics result" where
  "count_by_status items status_field =
     rbind (py_iter items) (\<lambda>xs. count_loop status_field xs no_module_metrics)"

text \<open>The body the router and the invoice metrics share, up to the key of the flat list.\<close>

definition module_metrics_of :: "string \<Rightarrow> pyval \<Rightarrow> ModuleMetrics result" where
  "module_metrics_of flat_key data =
     (if \<not> truthy data then Inr no_module_metrics
      else case data of
        PDict d \<Rightarrow>
          (let to_process = dget_or d ''to_process'' (PList []);
               in_process = dget_or d ''in_process'' (PList []);
               pending = dget_or d ''pending'' (PList []);
               processed = dget_or d ''processed'' (PList [])
           in if truthy to_process \<or> truthy in_process \<or> truthy pending \<or> truthy processed then
                rbind (py_len to_process) (\<lambda>a. rbind (py_len in_process) (\<lambda>b.
                rbind (py_len pending) (\<lambda>p. rbind (py_len processed) (\<lambda>z.
                  Inr \<lparr>mm_to_process = a, mm_in_process = b, mm_pending = p, mm_processed = z\<rparr>))))
              else count_by_status (dget_or d flat_key (PList [])) ''status'')
      | _ \<Rightarrow> Inl AttributeError)"

definition bank_metrics_of :: "pyval \<Rightarrow> ModuleMetrics result" where
  "bank_metrics_of data =
     (if \<not> truthy data then Inr no_module_metrics
      else case data of
        PDict d \<Rightarrow>
          (let to_process = dget_or d ''to_process'' (PList []);
               pending = dget_or d ''pending'' (PList []);
               processed = dget_or d ''processed'' (PList []);
               in_process_count = (case dget_or d ''in_process'' (PList []) of
                   PDict batches \<Rightarrow> sum_list (map (\<lambda>kv. case snd kv of PList xs \<Rightarrow> length xs | _ \<Rightarrow> 0) batches)
                 | PList xs \<Rightarrow> length xs
                 | _ \<Rightarrow> 0)
           in rbind (py_len to_process) (\<lambda>a. rbind (py_len pending) (\<lambda>p. rbind (py_len processed) (\<lambda>z.
                Inr \<lparr>mm_to_process = a, mm_in_process = in_process_count, mm_pending = p, mm_processed = z\<rparr>))))
      | _ \<Rightarrow> Inl AttributeError)"

definition expenses_metrics_of :: "pyval \<Rightarrow> ExpenseMetrics result" where
  "expenses_metrics_of data =
     (if \<not> truthy data then Inr no_expense_metrics
      else case data of
        PDict d \<Rightarrow>
          rbind (py_len (dget_or d ''to_process'' (PList []))) (\<lambda>a.
          rbind (py_len (dget_or d ''in_process'' (PList []))) (\<lambda>b.
          rbind (py_len (dget_or d ''pending'' (PList []))) (\<lambda>p.
          rbind (py_len (dget_or d ''processed'' (PList []))) (\<lambda>z.
            Inr \<lparr>em_open = a + b + p, em_closed = z, em_pending_approval = p\<rparr>))))
      | _ \<Rightarrow> Inl AttributeError)"

definition get_routing_metrics :: "'s redis \<Rightarrow> string \<Rightarrow> string \<Rightarrow> 's \<Rightarrow> ModuleMetrics result \<times> 's" where
  "get_routing_metrics rc uid company_id =
     sbind (get_business_data rc uid company_id (domain_value ROUTING)) (\<lambda>data. slift (module_metrics_of ''documents'' data))"

definition get_ap_metrics :: "'s redis \<Rightarrow> string \<Rightarrow> string \<Rightarrow> 's \<Rightarrow> ModuleMetrics result \<times> 's" where
  "get_ap_metrics rc uid company_id =
     sbind (get_business_data rc uid company_id (domain_value INVOICES)) (\<lambda>data. slift (module_metrics_of ''items'' data))"

definition get_bank_metrics :: "'s redis \<Rightarrow> string \<Rightarrow> string \<Rightarrow> 's \<Rightarrow> ModuleMetrics result \<times> 's" where
  "get_bank_metrics rc uid company_id =
     sbind (get_business_data rc uid company_id (domain_value BANK)) (\<lambda>data. slift (bank_metrics_of data))"

definition get_expenses_metrics :: "'s redis \<Rightarrow> string \<Rightarrow> string \<Rightarrow> 's \<Rightarrow> ExpenseMetrics result \<times> 's" where
  "get_expenses_metrics rc uid company_id =
     sbind (get_business_data rc uid company_id (domain_value EXPENSES)) (\<lambda>data. slift (expenses_metrics_of data))"

definition summary_of :: "ModuleMetrics \<Rightarrow> ModuleMetrics \<Rightarrow> ModuleMetrics \<Rightarrow> SummaryMetrics" where
  "summary_of router ap bank =
     \<lparr>sm_to_process = mm_to_process router + mm_to_process ap + mm_to_process bank,
      sm_in_progress = mm_in_process router + mm_in_process ap + mm_in_process bank,
      sm_completed = mm_processed router + mm_processed ap + mm_processed bank\<rparr>"

definition all_metrics_dict :: "ModuleMetrics \<Rightarrow> ModuleMetrics \<Rightarrow> ModuleMetrics \<Rightarrow> ExpenseMetrics \<Rightarrow> pydict" where
  "all_metrics_dict router ap bank expenses =
     [(''router'', PDict (module_to_dict router)), (''ap'', PDict (module_to_dict ap)),
      (''bank'', PDict (bank_to_dict bank)), (''expenses'', PDict (expense_to_dict expenses)),
      (''summary'', PDict (summary_to_dict (summary_of router ap bank)))]"

definition get_all_metrics :: "'s redis \<Rightarrow> string \<Rightarrow> string \<Rightarrow> 's \<Rightarrow> pydict result \<times> 's" where
  "get_all_metrics rc uid company_id =
     sbind (get_routing_metrics rc uid company_id) (\<lambda>router.
     sbind (get_ap_metrics rc uid company_id) (\<lambda>ap.
     sbind (get_bank_metrics rc uid company_id) (\<lambda>bank.
     sbind (get_expenses_metrics rc uid company_id) (\<lambda>expenses.
       sret (all_metrics_dict router ap bank expenses)))))"

subsection \<open>The asynchronous calculator\<close>

datatype metrics_task = T_router | T_ap | T_bank | T_expenses

datatype task_result = R_module ModuleMetrics | R_expense ExpenseMetrics

text \<open>
  The class repeats the methods of \<open>MetricsCalculator\<close>; each copy is translated on its own.
\<close>

definition async_get_business_data :: "'s redis \<Rightarrow> string \<Rightarrow> string \<Rightarrow> string \<Rightarrow> 's \<Rightarrow> pyval result \<times> 's" where
  "async_get_business_data rc uid company_id domain =
     sbind (r_get rc (build_business_key uid company_id domain None))
       (\<lambda>data. case data of
          None \<Rightarrow> sret PNone
        | Some t \<Rightarrow>
            if t = Raw [] then sret PNone
            else (case json_loads t of
                Inl _ \<Rightarrow> sret PNone
              | Inr (PDict parsed) \<Rightarrow>
                  sret (if map_of parsed ''cache_version'' \<noteq> None \<and> map_of parsed ''data'' \<noteq> None then dget parsed ''data'' else PDict parsed)
              | Inr parsed \<Rightarrow> sret parsed))"

fun async_count_loop :: "string \<Rightarrow> pyval list \<Rightarrow> ModuleMetrics \<Rightarrow> ModuleMetrics result" where
  "async_count_loop field [] counts = Inr counts"
| "async_count_loop field (PDict item # items) counts =
     rbind (classify_status (dget_or item field (PStr [])))
       (\<lambda>category. async_count_loop field items (count_up category counts))"
| "async_count_loop field (_ # items) counts = Inl AttributeError"

definition async_count_by_status :: "pyval \<Rightarrow> string \<Rightarrow> ModuleMetrics result" where
  "async_count_by_status items status_field =
     rbind (py_iter items) (\<lambda>xs. async_count_loop status_field xs no_module_metrics)"

definition async_routing_metrics_of :: "pyval \<Rightarrow> ModuleMetrics result" where
  "async_routing_metrics_of data =
     (if \<not> truthy data then Inr no_module_metrics
      else case data of
        PDict d \<Rightarrow>
          (let to_process = dget_or d ''to_process'' (PList []);
               in_process = dget_or d ''in_process'' (PList []);
               pending = dget_or d ''pending'' (PList []);
               processed = dget_or d ''processed'' (PList [])
           in if truthy to_process \<or> truthy in_process \<or> truthy pending \<or> truthy processed then
                rbind (py_len to_process) (\<lambda>a. rbind (py_len in_process) (\<lambda>b.
                rbind (py_len pending) (\<lambda>p. rbind (py_len processed) (\<lambda>z.
                  Inr \<lparr>mm_to_process = a, mm_in_process = b, mm_pending = p, mm_processed = z\<rparr>))))
              else async_count_by_status (dget_or d ''documents'' (PList [])) ''status'')
      | _ \<Rightarrow> Inl AttributeError)"

definition async_ap_metrics_of :: "pyval \<Rightarrow> ModuleMetrics result" where
  "async_ap_metrics_of data =
     (if \<not> truthy data then Inr no_module_metrics
      else case data of
        PDict d \<Rightarrow>
          (let to_process = dget_or d ''to_process'' (PList []);
               in_process = dget_or d ''in_process'' (PList []);
               pending = dget_or d ''pending'' (PList []);
               processed = dget_or d ''processed'' (PList [])
           in if truthy to_process \<or> truthy in_process \<or> truthy pending \<or> truthy processed then
                rbind (py_len to_process) (\<lambda>a. rbind (py_len in_process) (\<lambda>b.
                rbind (py_len pending) (\<lambda>p. rbind (py_len processed) (\<lambda>z.
                  Inr \<lparr>mm_to_process = a, mm_in_process = b, mm_pending = p, mm_processed = z\<rparr>))))
              else async_count_by_status (dget_or d ''items'' (PList [])) ''status'')
      | _ \<Rightarrow> Inl AttributeError)"

definition async_bank_metrics_of :: "pyval \<Rightarrow> ModuleMetrics result" where
  "async_bank_metrics_of data =
     (if \<not> truthy data then Inr no_module_metrics
      else case data of
        PDict d \<Rightarrow>
          (let to_process = dget_or d ''to_process'' (PList []);
               pending = dget_or d ''pending'' (PList []);
               processed = dget_or d ''processed'' (PList []);
               in_process_count = (case dget_or d ''in_process'' (PList []) of
                   PDict batches \<Rightarrow> sum_list (map length (List.map_filter (\<lambda>kv. case snd kv of PList xs \<Rightarrow> Some xs | _ \<Rightarrow> None) batches))
                 | PList xs \<Rightarrow> length xs
                 | _ \<Rightarrow> 0)
           in rbind (py_len to_process) (\<lambda>a. rbind (py_len pending) (\<lambda>p. rbind (py_len processed) (\<lambda>z.
                Inr \<lparr>mm_to_process = a, mm_in_process = in_process_count, mm_pending = p, mm_processed = z\<rparr>))))
      | _ \<Rightarrow> Inl AttributeError)"

definition async_expenses_metrics_of :: "pyval \<Rightarrow> ExpenseMetrics result" where
  "async_expenses_metrics_of data =
     (if \<not> truthy data then Inr no_expense_metrics
      else case data of
        PDict d \<Rightarrow>
          (let to_process = dget_or d ''to_process'' (PList []);
               in_process = dget_or d ''in_process'' (PList []);
               pending = dget_or d ''pending'' (PList []);
               processed = dget_or d ''processed'' (PList [])
           in rbind (py_len to_process) (\<lambda>a. rbind (py_len in_process) (\<lambda>b. rbind (py_len pending) (\<lambda>p.
              rbind (py_len processed) (\<lambda>closed_count. rbind (py_len pending) (\<lambda>pending_approval.
                Inr \<lparr>em_open = a + b + p, em_closed = closed_count, em_pending_approval = pending_approval\<rparr>))))))
      | _ \<Rightarrow> Inl AttributeError)"

definition async_get_routing_metrics :: "'s redis \<Rightarrow> string \<Rightarrow> string \<Rightarrow> 's \<Rightarrow> ModuleMetrics result \<times> 's" where
  "async_get_routing_metrics rc uid company_id =
     sbind (async_get_business_data rc uid company_id (domain_value ROUTING)) (\<lambda>data. slift (async_routing_metrics_of data))"

definition async_get_ap_metrics :: "'s redis \<Rightarrow> string \<Rightarrow> string \<Rightarrow> 's \<Rightarrow> ModuleMetrics result \<times> 's" where
  "async_get_ap_metrics rc uid company_id =
     sbind (async_get_business_data rc uid company_id (domain_value INVOICES)) (\<lambda>data. slift (async_ap_metrics_of data))"

definition async_get_bank_metrics :: "'s redis \<Rightarrow> string \<Rightarrow> string \<Rightarrow> 's \<Rightarrow> ModuleMetrics result \<times> 's" where
  "async_get_bank_metrics rc uid company_id =
     sbind (async_get_business_data rc uid company_id (domain_value BANK)) (\<lambda>data. slift (async_bank_metrics_of data))"

definition async_get_expenses_metrics :: "'s redis \<Rightarrow> string \<Rightarrow> string \<Rightarrow> 's \<Rightarrow> ExpenseMetrics result \<times> 's" where
  "async_get_expenses_metrics rc uid company_id =
     sbind (async_get_business_data rc uid company_id (domain_value EXPENSES)) (\<lambda>data. slift (async_expenses_metrics_of data))"

fun run_task :: "'s redis \<Rightarrow> string \<Rightarrow> string \<Rightarrow> metrics_task \<Rightarrow> 's \<Rightarrow> task_result result \<times> 's" where
  "run_task rc u c T_router = sbind (async_get_routing_metrics rc u c) (\<lambda>m. sret (R_module m))"
| "run_task rc u c T_ap = sbind (async_get_ap_metrics rc u c) (\<lambda>m. sret (R_module m))"
| "run_task rc u c T_bank = sbind (async_get_bank_metrics rc u c) (\<lambda>m. sret (R_module m))"
| "run_task rc u c T_expenses = sbind (async_get_expenses_metrics rc u c) (\<lambda>m. sret (R_expense m))"

text \<open>
  \<open>asyncio.gather\<close>: the tasks end in the order of the schedule; the first exception is raised.
\<close>

fun gather :: "'s redis \<Rightarrow> string \<Rightarrow> string \<Rightarrow> metrics_task list \<Rightarrow> 's \<Rightarrow> (metrics_task \<Rightarrow> task_result option) result \<times> 's" where
  "gather rc u c [] = sret Map.empty"
| "gather rc u c (t # ts) =
     sbind (run_task rc u c t) (\<lambda>r. sbind (gather rc u c ts) (\<lambda>res. sret (res(t \<mapsto> r))))"

definition async_summary_of :: "ModuleMetrics \<Rightarrow> ModuleMetrics \<Rightarrow> ModuleMetrics \<Rightarrow> SummaryMetrics" where
  "async_summary_of router ap bank =
     \<lparr>sm_to_process = mm_to_process router + mm_to_process ap + mm_to_process bank,
      sm_in_progress = mm_in_process router + mm_in_process ap + mm_in_process bank,
      sm_completed = mm_processed router + mm_processed ap + mm_processed bank\<rparr>"

definition async_get_all_metrics ::
  "'s redis \<Rightarrow> metrics_task list \<Rightarrow> string \<Rightarrow> string \<Rightarrow> 's \<Rightarrow> pydict result \<times> 's" where
  "async_get_all_metrics rc schedule uid company_id =
     sbind (gather rc uid company_id schedule) (\<lambda>res.
       case (res T_router, res T_ap, res T_bank, res T_expenses) of
         (Some (R_module router), Some (R_module ap), Some (R_module bank), Some (R_expense expenses)) \<Rightarrow>
           sret [(''router'', PDict (module_to_dict router)), (''ap'', PDict (module_to_dict ap)), (''bank'', PDict (bank_to_dict bank)),
                 (''expenses'', PDict (expense_to_dict expenses)), (''summary'', PDict (summary_to_dict (async_summary_of router ap bank)))]
       | _ \<Rightarrow> sraise TypeError)"

section \<open>Library lemmas\<close>

subsection \<open>The copies agree with the originals\<close>

lemma async_data: "async_get_business_data rc u c d = get_business_data rc u c d"
  unfolding async_get_business_data_def get_business_data_def
  by (intro arg_cong2 [of _ _ _ _ sbind] refl ext) (auto split: option.split sum.split pyval.split)

lemma async_count: "async_count_by_status xs f = count_by_status xs f"
proof -
  have "async_count_loop f ys m = count_loop f ys m" for ys m
    by (induction f ys m rule: count_loop.induct) (simp_all add: rbind_def split: sum.split)
  then show ?thesis by (simp add: async_count_by_status_def count_by_status_def)
qed

lemma async_routing: "async_routing_metrics_of v = module_metrics_of ''documents'' v"
  unfolding async_routing_metrics_of_def module_metrics_of_def async_count ..

lemma async_ap: "async_ap_metrics_of v = module_metrics_of ''items'' v"
  unfolding async_ap_metrics_of_def module_metrics_of_def async_count ..

lemma sum_batches:
  "sum_list (map length (List.map_filter (\<lambda>kv. case snd kv of PList xs \<Rightarrow> Some xs | _ \<Rightarrow> None) bs)) =
   sum_list (map (\<lambda>kv. case snd kv of PList xs \<Rightarrow> length xs | _ \<Rightarrow> 0) bs)"
  by (induction bs) (simp_all split: pyval.split)

lemma async_bank: "async_bank_metrics_of v = bank_metrics_of v"
  unfolding async_bank_metrics_of_def bank_metrics_of_def sum_batches ..

lemma async_expenses: "async_expenses_metrics_of v = expenses_metrics_of v"
  by (simp add: async_expenses_metrics_of_def expenses_metrics_of_def rbind_def Let_def split: sum.split pyval.split)

lemma async_summary: "async_summary_of = summary_of"
  by (simp add: async_summary_of_def summary_of_def fun_eq_iff)

lemmas async_copies = async_data async_routing async_ap async_bank async_expenses

text \<open>What the calculator reads, as a function of the server's content.\<close>

definition data_of :: "rview \<Rightarrow> string \<Rightarrow> string \<Rightarrow> BusinessDomain \<Rightarrow> pyval" where
  "data_of vw u c d =
     (case str_at vw (key_string (Business u c d)) of
        Some (Json (PDict x)) \<Rightarrow> if map_of x ''cache_version'' \<noteq> None \<and> map_of x ''data'' \<noteq> None
                                then dget x ''data'' else PDict x
      | Some (Json v) \<Rightarrow> v
      | _ \<Rightarrow> PNone)"

fun result_of :: "rview \<Rightarrow> string \<Rightarrow> string \<Rightarrow> metrics_task \<Rightarrow> task_result result" where
  "result_of vw u c T_router = rbind (module_metrics_of ''documents'' (data_of vw u c ROUTING)) (\<lambda>m. Inr (R_module m))"
| "result_of vw u c T_ap = rbind (module_metrics_of ''items'' (data_of vw u c INVOICES)) (\<lambda>m. Inr (R_module m))"
| "result_of vw u c T_bank = rbind (bank_metrics_of (data_of vw u c BANK)) (\<lambda>m. Inr (R_module m))"
| "result_of vw u c T_expenses = rbind (expenses_metrics_of (data_of vw u c EXPENSES)) (\<lambda>m. Inr (R_expense m))"

text \<open>None of the four caches holds a list.\<close>

definition metric_keys_ok :: "rview \<Rightarrow> string \<Rightarrow> string \<Rightarrow> bool" where
  "metric_keys_ok vw u c \<longleftrightarrow> list_all (\<lambda>d. str_key vw (key_string (Business u c d))) [ROUTING, INVOICES, BANK, EXPENSES]"

lemma metric_keys_okD:
  assumes "metric_keys_ok vw u c"
  shows "str_key vw (key_string (Business u c ROUTING))" "str_key vw (key_string (Business u c INVOICES))"
    "str_key vw (key_string (Business u c BANK))" "str_key vw (key_string (Business u c EXPENSES))"
  using assms by (simp_all add: metric_keys_ok_def)

context redis_up
begin

lemma get_business_data_up:
  assumes "str_key (view s) (key_string (Business u c d))"
  obtains s' where "get_business_data rc u c (domain_value d) s = (Inr (data_of (view s) u c d), s')"
    "view s' = view s"
proof -
  obtain s' where "r_get rc (key_string (Business u c d)) s = (Inr (str_at (view s) (key_string (Business u c d))), s')"
    "view s' = view s"
    by (rule get_up [OF assms])
  then show thesis
    using that [of s']
    by (auto simp: get_business_data_def data_of_def seq_defs split: option.splits text_val.splits pyval.splits)
qed

lemma run_task_up:
  assumes "metric_keys_ok (view s) u c"
  obtains s' where "run_task rc u c t s = (result_of (view s) u c t, s')" "view s' = view s"
proof (cases t)
  case T_router
  obtain s' where "get_business_data rc u c (domain_value ROUTING) s = (Inr (data_of (view s) u c ROUTING), s')"
    "view s' = view s" by (rule get_business_data_up [OF metric_keys_okD(1) [OF assms]])
  then show thesis using that [of s'] T_router
    by (simp add: async_get_routing_metrics_def async_copies seq_defs rbind_def split: sum.splits)
next
  case T_ap
  obtain s' where "get_business_data rc u c (domain_value INVOICES) s = (Inr (data_of (view s) u c INVOICES), s')"
    "view s' = view s" by (rule get_business_data_up [OF metric_keys_okD(2) [OF assms]])
  then show thesis using that [of s'] T_ap
    by (simp add: async_get_ap_metrics_def async_copies seq_defs rbind_def split: sum.splits)
next
  case T_bank
  obtain s' where "get_business_data rc u c (domain_value BANK) s = (Inr (data_of (view s) u c BANK), s')"
    "view s' = view s" by (rule get_business_data_up [OF metric_keys_okD(3) [OF assms]])
  then show thesis using that [of s'] T_bank
    by (simp add: async_get_bank_metrics_def async_copies seq_defs rbind_def split: sum.splits)
next
  case T_expenses
  obtain s' where "get_business_data rc u c (domain_value EXPENSES) s = (Inr (data_of (view s) u c EXPENSES), s')"
    "view s' = view s" by (rule get_business_data_up [OF metric_keys_okD(4) [OF assms]])
  then show thesis using that [of s'] T_expenses
    by (simp add: async_get_expenses_metrics_def async_copies seq_defs rbind_def split: sum.splits)
qed

lemma gather_up:
  assumes "metric_keys_ok (view s) u c"
  shows "\<exists>r s'. gather rc u c ts s = (r, s') \<and> view s' = view s \<and>
    (if \<exists>t \<in> set ts. isl (result_of (view s) u c t) then isl r
     else r = Inr (\<lambda>t. if t \<in> set ts then Some (projr (result_of (view s) u c t)) else None))"
  using assms
proof (induction ts arbitrary: s)
  case Nil
  then show ?case by (auto simp: seq_defs)
next
  case (Cons t ts)
  obtain s1 where 1: "run_task rc u c t s = (result_of (view s) u c t, s1)" "view s1 = view s"
    by (rule run_task_up [OF Cons.prems])
  show ?case
  proof (cases "result_of (view s) u c t")
    case (Inl e)
    then show ?thesis using 1 by (auto simp: seq_defs)
  next
    case (Inr x)
    obtain r s2 where 2: "gather rc u c ts s1 = (r, s2)" "view s2 = view s1"
      "if \<exists>t \<in> set ts. isl (result_of (view s1) u c t) then isl r
       else r = Inr (\<lambda>t. if t \<in> set ts then Some (projr (result_of (view s1) u c t)) else None)"
      using Cons.IH [of s1] Cons.prems 1(2) by auto
    note g = 2 [unfolded 1(2)]
    show ?thesis
    proof (cases r)
      case (Inl e)
      then show ?thesis using 1 g \<open>result_of (view s) u c t = Inr x\<close> by (auto simp: seq_defs split: if_splits)
    next
      case (Inr f)
      then show ?thesis using 1 g \<open>result_of (view s) u c t = Inr x\<close>
        by (intro exI [of _ "Inr (f(t \<mapsto> x))"] exI [of _ s2]) (auto simp: seq_defs split: if_splits)
    qed
  qed
qed

lemma get_all_metrics_up:
  assumes "metric_keys_ok (view s) u c"
  obtains s' where "view s' = view s"
    "get_all_metrics rc u c s = (rbind (module_metrics_of ''documents'' (data_of (view s) u c ROUTING)) (\<lambda>router.
       rbind (module_metrics_of ''items'' (data_of (view s) u c INVOICES)) (\<lambda>ap.
       rbind (bank_metrics_of (data_of (view s) u c BANK)) (\<lambda>bank.
       rbind (expenses_metrics_of (data_of (view s) u c EXPENSES)) (\<lambda>expenses.
         Inr (all_metrics_dict router ap bank expenses))))), s')"
proof -
  let ?a = "module_metrics_of ''documents'' (data_of (view s) u c ROUTING)"
  let ?b = "module_metrics_of ''items'' (data_of (view s) u c INVOICES)"
  let ?d = "bank_metrics_of (data_of (view s) u c BANK)"
  let ?e = "expenses_metrics_of (data_of (view s) u c EXPENSES)"
  obtain s1 where v1: "view s1 = view s" and r1: "get_routing_metrics rc u c s = (?a, s1)"
    by (rule get_business_data_up [OF metric_keys_okD(1) [OF assms]]) (simp add: get_routing_metrics_def seq_defs)
  obtain s2 where v2: "view s2 = view s" and r2: "get_ap_metrics rc u c s1 = (?b, s2)"
    by (rule get_business_data_up [OF metric_keys_okD(2) [OF assms, folded v1]]) (simp add: v1 get_ap_metrics_def seq_defs)
  obtain s3 where v3: "view s3 = view s" and r3: "get_bank_metrics rc u c s2 = (?d, s3)"
    by (rule get_business_data_up [OF metric_keys_okD(3) [OF assms, folded v2]]) (simp add: v2 get_bank_metrics_def seq_defs)
  obtain s4 where v4: "view s4 = view s" and r4: "get_expenses_metrics rc u c s3 = (?e, s4)"
    by (rule get_business_data_up [OF metric_keys_okD(4) [OF assms, folded v3]]) (simp add: v3 get_expenses_metrics_def seq_defs)
  consider (a) e where "?a = Inl e" | (b) x e where "?a = Inr x" "?b = Inl e"
    | (d) x y e where "?a = Inr x" "?b = Inr y" "?d = Inl e"
    | (e) x y z where "?a = Inr x" "?b = Inr y" "?d = Inr z"
    by (cases ?a; cases ?b; cases ?d) blast+
  then show thesis
  proof cases
    case a then show thesis using that [OF v1] r1 by (simp add: get_all_metrics_def sbind_def rbind_def)
  next
    case b then show thesis using that [OF v2] r1 r2 by (simp add: get_all_metrics_def sbind_def rbind_def)
  next
    case d then show thesis using that [OF v3] r1 r2 r3 by (simp add: get_all_metrics_def sbind_def rbind_def)
  next
    case e then show thesis using that [OF v4] r1 r2 r3 r4
      by (cases ?e) (simp_all add: get_all_metrics_def sbind_def sret_def rbind_def)
  qed
qed

end

lemma count_loop_total:
  "count_loop f xs m = Inr m' \<Longrightarrow>
   mm_to_process m' + mm_in_process m' + mm_pending m' + mm_processed m'
     = mm_to_process m + mm_in_process m + mm_pending m + mm_processed m + length xs"
proof (induction f xs m rule: count_loop.induct)
  case (2 f item items m)
  then obtain k where k: "classify_status (dget_or item f (PStr [])) = Inr k" "count_loop f items (count_up k m) = Inr m'"
    by (auto simp: rbind_def split: sum.splits)
  then show ?case using 2(1) [OF k(2)] by (cases k) auto
qed auto

definition mm_total :: "ModuleMetrics \<Rightarrow> nat" where
  "mm_total m = mm_to_process m + mm_in_process m + mm_pending m + mm_processed m"

lemma count_by_status_total: "count_by_status (PList xs) f = Inr m \<Longrightarrow> mm_total m = length xs"
  using count_loop_total [of f xs no_module_metrics m]
  by (simp add: count_by_status_def rbind_def mm_total_def no_module_metrics_def)

section \<open>Properties\<close>

text \<open>
  No item is lost or counted twice. When the cache holds four lists, the counters of a module
  add up to the number of items in them; when all four are empty, the items of the flat list
  are counted instead, each in exactly one category.
\<close>

theorem module_metrics_total:
  assumes "module_metrics_of flat_key (PDict d) = Inr m"
    and "dget_or d ''to_process'' (PList []) = PList a" and "dget_or d ''in_process'' (PList []) = PList b"
    and "dget_or d ''pending'' (PList []) = PList p" and "dget_or d ''processed'' (PList []) = PList z"
    and "dget_or d flat_key (PList []) = PList xs"
  shows "mm_total m = (if a @ b @ p @ z = [] \<and> d \<noteq> [] then length xs else length (a @ b @ p @ z))"
proof (cases "a @ b @ p @ z = [] \<and> d \<noteq> []")
  case True
  then have "count_by_status (PList xs) ''status'' = Inr m"
    using assms by (simp add: module_metrics_of_def Let_def)
  then show ?thesis using True by (simp add: count_by_status_total)
next
  case False
  then show ?thesis using assms
    by (auto simp: module_metrics_of_def Let_def rbind_def mm_total_def no_module_metrics_def split: if_splits)
qed

theorem module_metrics_total_witness:
  "\<exists>m. module_metrics_of ''documents'' (PDict [(''documents'', PList [PDict [(''status'', PStr ''Running'')], PDict []])]) = Inr m \<and>
     mm_total m = 2"
proof -
  let ?d = "[(''documents'', PList [PDict [(''status'', PStr ''Running'')], PDict []])]"
  have h: "module_metrics_of ''documents'' (PDict ?d) =
      Inr \<lparr>mm_to_process = 1, mm_in_process = 1, mm_pending = 0, mm_processed = 0\<rparr>"
    by code_simp
  have "mm_total \<lparr>mm_to_process = 1, mm_in_process = 1, mm_pending = 0, mm_processed = 0\<rparr> = 2"
    using module_metrics_total [OF h, of "[]" "[]" "[]" "[]" "[PDict [(''status'', PStr ''Running'')], PDict []]"] by simp
  with h show ?thesis by blast
qed

text \<open>
  The completion rate is a fraction. It lies between 0 and 1, is 0 when nothing is completed
  (also when there is no document at all) and 1 when every document is completed.
\<close>

theorem completion_rate_bounds:
  "0 \<le> completion_rate m \<and> completion_rate m \<le> 1 \<and>
   (sm_completed m = 0 \<longrightarrow> completion_rate m = 0) \<and>
   (sm_to_process m + sm_in_progress m = 0 \<and> 0 < sm_completed m \<longrightarrow> completion_rate m = 1)"
proof -
  have "py_round 2 0 = 0" "py_round 2 1 = 1"
    using round_half_even_of_int [of 100] by (simp_all add: py_round_def round_half_even_def)
  then show ?thesis
    by (auto simp: completion_rate_def Let_def intro!: py_round_unit)
qed

theorem completion_rate_bounds_witness:
  "completion_rate \<lparr>sm_to_process = 0, sm_in_progress = 0, sm_completed = 0\<rparr> = 0 \<and>
   completion_rate \<lparr>sm_to_process = 0, sm_in_progress = 0, sm_completed = 3\<rparr> = 1"
  using completion_rate_bounds [of "\<lparr>sm_to_process = 0, sm_in_progress = 0, sm_completed = 0\<rparr>"]
    completion_rate_bounds [of "\<lparr>sm_to_process = 0, sm_in_progress = 0, sm_completed = 3\<rparr>"] by simp

text \<open>
  C35: the two calculators, which repeat each other's code, agree. With Redis up and the four caches
  untouched by others, whatever order the four concurrent reads end in, the asynchronous calculator
  returns exactly the metrics of the synchronous one, raises when it raises, and changes nothing on
  the server.
\<close>

theorem async_metrics_agree:
  assumes up: "redis_up rc view tick" and keys: "metric_keys_ok (view s) u c" and sched: "set schedule = UNIV"
  shows "(case fst (get_all_metrics rc u c s) of
            Inr d \<Rightarrow> fst (async_get_all_metrics rc schedule u c s) = Inr d
          | Inl _ \<Rightarrow> isl (fst (async_get_all_metrics rc schedule u c s))) \<and>
    view (snd (async_get_all_metrics rc schedule u c s)) = view s"
proof -
  let ?R = "result_of (view s) u c"
  obtain r s1 where g: "gather rc u c schedule s = (r, s1)" "view s1 = view s"
    "if \<exists>t. isl (?R t) then isl r else r = Inr (\<lambda>t. Some (projr (?R t)))"
    using redis_up.gather_up [OF up keys, of schedule] sched by auto
  obtain s2 where a: "get_all_metrics rc u c s = (rbind (module_metrics_of ''documents'' (data_of (view s) u c ROUTING)) (\<lambda>router.
       rbind (module_metrics_of ''items'' (data_of (view s) u c INVOICES)) (\<lambda>ap.
       rbind (bank_metrics_of (data_of (view s) u c BANK)) (\<lambda>bank.
       rbind (expenses_metrics_of (data_of (view s) u c EXPENSES)) (\<lambda>expenses.
         Inr (all_metrics_dict router ap bank expenses))))), s2)"
    by (rule redis_up.get_all_metrics_up [OF up keys])
  show ?thesis
  proof (cases r)
    case (Inl e)
    then obtain t where t: "isl (?R t)" using g(3) by (auto split: if_splits)
    have "isl (fst (get_all_metrics rc u c s))"
      using t by (cases t) (auto simp: a rbind_def split: sum.splits)
    then show ?thesis using Inl g by (auto simp: async_get_all_metrics_def seq_defs split: sum.splits)
  next
    case (Inr f)
    then have n: "\<not> isl (?R t)" for t using g(3) by (auto split: if_splits)
    have f: "f = (\<lambda>t. Some (projr (?R t)))" using Inr g(3) n by simp
    show ?thesis
      using n [of T_router] n [of T_ap] n [of T_bank] n [of T_expenses] Inr g f
      by (auto simp: a async_get_all_metrics_def all_metrics_dict_def async_summary seq_defs rbind_def split: sum.splits)
  qed
qed

theorem async_metrics_agree_witness:
  "metric_keys_ok (mem_view empty_mem) ''u'' ''c'' \<and>
   fst (get_all_metrics mem_redis ''u'' ''c'' empty_mem)
     = fst (async_get_all_metrics mem_redis [T_bank, T_expenses, T_router, T_ap] ''u'' ''c'' empty_mem)"
proof -
  have k: "metric_keys_ok (mem_view empty_mem) ''u'' ''c''"
    by (simp add: metric_keys_ok_def str_key_def mem_view_def empty_mem_def)
  have sc: "set [T_bank, T_expenses, T_router, T_ap] = UNIV"
    using metrics_task.exhaust by auto
  have "\<exists>d. fst (get_all_metrics mem_redis ''u'' ''c'' empty_mem) = Inr d"
    by (rule redis_up.get_all_metrics_up [OF mem_redis_up k])
       (simp add: data_of_def str_at_def mem_view_def empty_mem_def module_metrics_of_def bank_metrics_of_def
         expenses_metrics_of_def rbind_def)
  then show ?thesis using k async_metrics_agree [OF mem_redis_up k sc] by auto
qed

end
