(* ===== verification/Contextual_Publisher.thy ===== *)
theory Contextual_Publisher
  imports Metrics Ws_Hub
begin

text \<open>
  \<open>src/app/realtime/contextual_publisher.py\<close> and its client \<open>src/app/realtime/pubsub_helper.py\<close>:
  an event is written to the cache of its level and, if the context of the user allows it, handed
  to the hub. A publication returns its answer, the broadcasts it scheduled on the server loop
  and the Redis state. The parameter \<open>session_id\<close> is not used by the code and left out.

  The client decodes responses, so a value read is a \<open>str\<close>. The selected company is stored as
  a bare text; identifiers and actions are compared as values.
\<close>

section \<open>Definitions\<close>

subsection \<open>Pages, keys and times to live\<close>

definition PAGE_TO_DOMAIN_MAP :: "(string \<times> string) list" where
  "PAGE_TO_DOMAIN_MAP =
     [(''dashboard'', domain_value DASHBOARD), (''banking'', domain_value BANK), (''bank'', domain_value BANK),
      (''routing'', domain_value ROUTING), (''router'', domain_value ROUTING),
      (''invoices'', domain_value INVOICES), (''apbookeeper'', domain_value INVOICES),
      (''expenses'', domain_value EXPENSES), (''coa'', domain_value COA),
      (''chart-of-accounts'', domain_value COA), (''chat'', domain_value CHAT), (''hr'', domain_value HR)]"

definition page_to_domain :: "string \<Rightarrow> string option" where
  "page_to_domain page = map_of PAGE_TO_DOMAIN_MAP (py_lower page)"

definition domain_to_pages :: "string \<Rightarrow> string list" where
  "domain_to_pages domain = map fst (filter (\<lambda>pd. snd pd = domain) PAGE_TO_DOMAIN_MAP)"

text \<open>An optional string that is neither \<open>None\<close> nor empty.\<close>

definition given :: "string option \<Rightarrow> bool" where
  "given x \<longleftrightarrow> x \<noteq> None \<and> x \<noteq> Some []"

fun get_cache_key ::
  "CacheLevel \<Rightarrow> string \<Rightarrow> string option \<Rightarrow> string option \<Rightarrow> string option \<Rightarrow> string result" where
  "get_cache_key USER uid company_id domain subkey =
     Inr (if given subkey then ''user:'' @ uid @ '':'' @ the subkey else build_user_profile_key uid)"
| "get_cache_key COMPANY uid company_id domain subkey =
     (if \<not> given company_id then Inl (ValueError ''company_id required for COMPANY level'')
      else if subkey = Some ''settings'' then Inr (build_company_settings_key uid (the company_id))
      else Inr (build_company_context_key uid (the company_id)))"
| "get_cache_key BUSINESS uid company_id domain subkey =
     (if \<not> given company_id \<or> \<not> given domain
      then Inl (ValueError ''company_id and domain required for BUSINESS level'')
      else Inr (build_business_key uid (the company_id) (the domain) None))"

definition get_ttl_for_cache :: "CacheLevel \<Rightarrow> string option \<Rightarrow> nat" where
  "get_ttl_for_cache level domain =
     (if level = BUSINESS \<and> given domain then get_ttl_for_domain (the domain) else get_ttl_for_level level)"

subsection \<open>The context of a user\<close>

record user_context =
  current_page :: pyval
  current_domain :: "string option"
  ctx_company_id :: "text_val option"
  ctx_connected :: bool

definition page_key :: "string \<Rightarrow> string" where
  "page_key uid = ''session:context:'' @ uid @ '':page''"

definition domain_key :: "string \<Rightarrow> string" where
  "domain_key uid = ''session:context:'' @ uid @ '':domain''"

text \<open>
  The two \<open>try\<close> blocks: the page is set before its domain is looked up, which raises when the
  page is not a string.
\<close>

definition context_page :: "text_val option \<Rightarrow> pyval \<times> string option" where
  "context_page page_data =
     (case page_data of
        None \<Rightarrow> (PNone, None)
      | Some t \<Rightarrow>
          if t = Raw [] then (PNone, None)
          else (case json_loads t of
                  Inl _ \<Rightarrow> (PNone, None)
                | Inr (PStr page) \<Rightarrow> (PStr page, page_to_domain page)
                | Inr page \<Rightarrow> (page, None)))"

definition context_company :: "text_val option \<Rightarrow> text_val option" where
  "context_company data = (if data = Some (Raw []) then None else data)"

definition get_user_context :: "'s redis \<Rightarrow> hub \<Rightarrow> string \<Rightarrow> 's \<Rightarrow> user_context \<times> 's" where
  "get_user_context rc h uid s =
     (case r_get rc (page_key uid) s of (r1, s1) \<Rightarrow>
      case r_get rc (build_user_selected_company_key uid) s1 of (r2, s2) \<Rightarrow>
      let pd = (case r1 of Inl _ \<Rightarrow> (PNone, None) | Inr v \<Rightarrow> context_page v);
          cid = (case r2 of Inl _ \<Rightarrow> None | Inr v \<Rightarrow> context_company v)
      in (\<lparr>current_page = fst pd, current_domain = snd pd, ctx_company_id = cid,
           ctx_connected = is_user_connected h uid\<rparr>, s2))"

subsection \<open>The cache of a level\<close>

definition cached_value :: "text_val option \<Rightarrow> pyval" where
  "cached_value existing =
     (case existing of Some (Json v) \<Rightarrow> v | _ \<Rightarrow> PDict [])"

fun remove_items :: "pyval \<Rightarrow> pyval list \<Rightarrow> pyval list result" where
  "remove_items item_id [] = Inr []"
| "remove_items item_id (PDict it # items) =
     rbind (remove_items item_id items) (\<lambda>rest.
       Inr (if dget it ''id'' \<noteq> item_id \<and> dget it ''docId'' \<noteq> item_id then PDict it # rest else rest))"
| "remove_items item_id (_ # items) = Inl AttributeError"

fun update_first :: "pyval \<Rightarrow> pyval \<Rightarrow> pyval list \<Rightarrow> pyval list result" where
  "update_first item_id changes [] = Inr []"
| "update_first item_id changes (PDict it # items) =
     (if dget it ''id'' = item_id \<or> dget it ''docId'' = item_id
      then (case changes of PDict ch \<Rightarrow> Inr (PDict (dupdate it ch) # items) | _ \<Rightarrow> Inl TypeError)
      else rbind (update_first item_id changes items) (\<lambda>rest. Inr (PDict it # rest)))"
| "update_first item_id changes (_ # items) = Inl AttributeError"

text \<open>The new content of the cache: the branches of \<open>_update_cache\<close> on the action.\<close>

definition cache_apply :: "pyval \<Rightarrow> pydict \<Rightarrow> pyval result" where
  "cache_apply cache_data data =
     (let action = dget_or data ''action'' (PStr ''full'');
          item_id = py_or (dget data ''id'') (dget data ''docId'')
      in if action = PStr ''new'' \<or> action = PStr ''add'' then
           (case cache_data of
              PDict d \<Rightarrow>
                (case dget_or d ''items'' (PList []) of
                   PList items \<Rightarrow>
                     Inr (PDict (dset d ''items'' (PList (take 100 (dget_or data ''item'' (PDict data) # items)))))
                 | _ \<Rightarrow> Inl AttributeError)
            | _ \<Rightarrow> Inl AttributeError)
         else if action = PStr ''remove'' \<or> action = PStr ''delete'' then
           (case cache_data of
              PDict d \<Rightarrow>
                rbind (py_iter (dget_or d ''items'' (PList []))) (\<lambda>items.
                rbind (remove_items item_id items) (\<lambda>rest. Inr (PDict (dset d ''items'' (PList rest)))))
            | _ \<Rightarrow> Inl AttributeError)
         else if action = PStr ''update'' then
           (case cache_data of
              PDict d \<Rightarrow>
                (case dget_or d ''items'' (PList []) of
                   PList items \<Rightarrow>
                     rbind (update_first item_id (dget_or data ''changes'' (PDict [])) items)
                       (\<lambda>items'. Inr (PDict (dset d ''items'' (PList items'))))
                 | other \<Rightarrow>
                     rbind (py_iter other) (\<lambda>xs. if xs = [] then Inr (PDict (dset d ''items'' other)) else Inl AttributeError))
            | _ \<Rightarrow> Inl AttributeError)
         else Inr (PDict data))"

definition update_cache :: "'s redis \<Rightarrow> string \<Rightarrow> pydict \<Rightarrow> nat \<Rightarrow> 's \<Rightarrow> unit \<times> 's" where
  "update_cache rc cache_key data ttl =
     stry (sbind (r_get rc cache_key) (\<lambda>existing.
           sbind (slift (cache_apply (cached_value existing) data)) (\<lambda>cache_data.
             r_setex rc cache_key ttl (json_dumps cache_data))))
       (\<lambda>_. ())"

subsection \<open>Publication\<close>

fun should_publish :: "CacheLevel \<Rightarrow> user_context \<Rightarrow> string option \<Rightarrow> string option \<Rightarrow> bool" where
  "should_publish USER ctx target_company_id target_domain = ctx_connected ctx"
| "should_publish COMPANY ctx target_company_id target_domain =
     (ctx_connected ctx \<and> given target_company_id \<and> ctx_company_id ctx = map_option Raw target_company_id)"
| "should_publish BUSINESS ctx target_company_id target_domain =
     (ctx_connected ctx \<and> given target_company_id \<and> given target_domain \<and>
      ctx_company_id ctx = map_option Raw target_company_id \<and> current_domain ctx = target_domain)"

text \<open>\<open>cache_ttl or default\<close>: a missing or zero argument selects the default.\<close>

definition ttl_or :: "nat option \<Rightarrow> nat \<Rightarrow> nat" where
  "ttl_or t d = (case t of Some n \<Rightarrow> if n \<noteq> 0 then n else d | None \<Rightarrow> d)"

type_synonym broadcasts = "(string \<times> pydict) list"

definition publish_contextual_event ::
  "'s redis \<Rightarrow> hub \<Rightarrow> CacheLevel \<Rightarrow> string \<Rightarrow> string \<Rightarrow> pydict \<Rightarrow> string option \<Rightarrow> string option \<Rightarrow> string option
     \<Rightarrow> nat option \<Rightarrow> bool \<Rightarrow> bool \<Rightarrow> 's \<Rightarrow> bool \<times> broadcasts \<times> 's" where
  "publish_contextual_event rc h level uid event_type payload target_company_id target_domain cache_subkey
     cache_ttl skip_connection_check skip_cache_update s =
     (case get_user_context rc h uid s of (context, s1) \<Rightarrow>
      let s2 = (if skip_cache_update then s1
                else case get_cache_key level uid target_company_id target_domain cache_subkey of
                       Inl _ \<Rightarrow> s1
                     | Inr cache_key \<Rightarrow>
                         snd (update_cache rc cache_key payload
                                (ttl_or cache_ttl (get_ttl_for_cache level target_domain)) s1));
          publish = (skip_connection_check \<or> should_publish level context target_company_id target_domain)
      in if \<not> publish then (False, [], s2)
         else (True, broadcast_threadsafe h uid [(''type'', PStr event_type), (''payload'', PDict payload)], s2))"

definition publish_user_event ::
  "'s redis \<Rightarrow> hub \<Rightarrow> string \<Rightarrow> string \<Rightarrow> pydict \<Rightarrow> string option \<Rightarrow> 's \<Rightarrow> bool \<times> broadcasts \<times> 's" where
  "publish_user_event rc h uid event_type payload cache_subkey =
     publish_contextual_event rc h USER uid event_type payload None None cache_subkey
       (Some TTL_USER_PROFILE) False False"


definition publish_business_event ::
  "'s redis \<Rightarrow> hub \<Rightarrow> string \<Rightarrow> string \<Rightarrow> string \<Rightarrow> string \<Rightarrow> pydict \<Rightarrow> nat option \<Rightarrow> 's \<Rightarrow> bool \<times> broadcasts \<times> 's" where
  "publish_business_event rc h uid company_id domain event_type payload cache_ttl =
     publish_contextual_event rc h BUSINESS uid event_type payload (Some company_id) (Some domain) None
       (Some (ttl_or cache_ttl (get_ttl_for_domain domain))) False False"

text \<open>One publisher per business domain.\<close>

definition publish_bank_event ::
  "'s redis \<Rightarrow> hub \<Rightarrow> string \<Rightarrow> string \<Rightarrow> string \<Rightarrow> pydict \<Rightarrow> 's \<Rightarrow> bool \<times> broadcasts \<times> 's" where
  "publish_bank_event rc h uid company_id event_type payload =
     publish_business_event rc h uid company_id (domain_value BANK) event_type payload None"

definition publish_routing_event ::
  "'s redis \<Rightarrow> hub \<Rightarrow> string \<Rightarrow> string \<Rightarrow> string \<Rightarrow> pydict \<Rightarrow> 's \<Rightarrow> bool \<times> broadcasts \<times> 's" where
  "publish_routing_event rc h uid company_id event_type payload =
     publish_business_event rc h uid company_id (domain_value ROUTING) event_type payload None"

definition publish_invoices_event ::
  "'s redis \<Rightarrow> hub \<Rightarrow> string \<Rightarrow> string \<Rightarrow> string \<Rightarrow> pydict \<Rightarrow> 's \<Rightarrow> bool \<times> broadcasts \<times> 's" where
  "publish_invoices_event rc h uid company_id event_type payload =
     publish_business_event rc h uid company_id (domain_value INVOICES) event_type payload None"

definition publish_expenses_event ::
  "'s redis \<Rightarrow> hub \<Rightarrow> string \<Rightarrow> string \<Rightarrow> string \<Rightarrow> pydict \<Rightarrow> 's \<Rightarrow> bool \<times> broadcasts \<times> 's" where
  "publish_expenses_event rc h uid company_id event_type payload =
     publish_business_event rc h uid company_id (domain_value EXPENSES) event_type payload None"

definition publish_coa_event ::
  "'s redis \<Rightarrow> hub \<Rightarrow> string \<Rightarrow> string \<Rightarrow> string \<Rightarrow> pydict \<Rightarrow> 's \<Rightarrow> bool \<times> broadcasts \<times> 's" where
  "publish_coa_event rc h uid company_id event_type payload =
     publish_business_event rc h uid company_id (domain_value COA) event_type payload None"

definition publish_dashboard_event ::
  "'s redis \<Rightarrow> hub \<Rightarrow> string \<Rightarrow> string \<Rightarrow> string \<Rightarrow> pydict \<Rightarrow> 's \<Rightarrow> bool \<times> broadcasts \<times> 's" where
  "publish_dashboard_event rc h uid company_id event_type payload =
     publish_business_event rc h uid company_id (domain_value DASHBOARD) event_type payload None"

definition publish_chat_event ::
  "'s redis \<Rightarrow> hub \<Rightarrow> string \<Rightarrow> string \<Rightarrow> string \<Rightarrow> pydict \<Rightarrow> 's \<Rightarrow> bool \<times> broadcasts \<times> 's" where
  "publish_chat_event rc h uid company_id event_type payload =
     publish_business_event rc h uid company_id (domain_value CHAT) event_type payload None"

definition publish_hr_event ::
  "'s redis \<Rightarrow> hub \<Rightarrow> string \<Rightarrow> string \<Rightarrow> string \<Rightarrow> pydict \<Rightarrow> 's \<Rightarrow> bool \<times> broadcasts \<times> 's" where
  "publish_hr_event rc h uid company_id event_type payload =
     publish_business_event rc h uid company_id (domain_value HR) event_type payload None"

definition update_page_context :: "'s redis \<Rightarrow> string \<Rightarrow> string \<Rightarrow> 's \<Rightarrow> unit \<times> 's" where
  "update_page_context rc uid page =
     stry (sbind (r_setex rc (page_key uid) TTL_SESSION (json_dumps (PStr page))) (\<lambda>_.
           case page_to_domain page of
             None \<Rightarrow> sret ()
           | Some domain \<Rightarrow> if domain \<noteq> [] then r_setex rc (domain_key uid) TTL_SESSION (json_dumps (PStr domain)) else sret ()))
       (\<lambda>_. ())"

fun metrics_loop ::
  "'s redis \<Rightarrow> string \<Rightarrow> string \<Rightarrow> string list \<Rightarrow> pydict \<Rightarrow> 's \<Rightarrow> pydict result \<times> 's" where
  "metrics_loop rc uid cid [] metrics = sret metrics"
| "metrics_loop rc uid cid (domain # domains) metrics =
     sbind (if domain = domain_value ROUTING then
              sbind (get_routing_metrics rc uid cid) (\<lambda>m. sret (dset metrics ''routing'' (PDict (module_to_dict m))))
            else if domain = domain_value INVOICES then
              sbind (get_ap_metrics rc uid cid) (\<lambda>m. sret (dset metrics ''ap'' (PDict (module_to_dict m))))
            else if domain = domain_value BANK then
              sbind (get_bank_metrics rc uid cid) (\<lambda>m. sret (dset metrics ''bank'' (PDict (bank_to_dict m))))
            else if domain = domain_value EXPENSES then
              sbind (get_expenses_metrics rc uid cid) (\<lambda>m. sret (dset metrics ''expenses'' (PDict (expense_to_dict m))))
            else sret metrics)
       (metrics_loop rc uid cid domains)"

definition publish_metrics_update ::
  "'s redis \<Rightarrow> hub \<Rightarrow> string \<Rightarrow> string \<Rightarrow> string list option \<Rightarrow> 's \<Rightarrow> bool \<times> broadcasts \<times> 's" where
  "publish_metrics_update rc h uid company_id domains s =
     (case (case domains of
              Some (d # ds) \<Rightarrow> metrics_loop rc uid company_id (d # ds) []
            | _ \<Rightarrow> get_all_metrics rc uid company_id) s of
        (Inl _, s1) \<Rightarrow> (False, [], s1)
      | (Inr metrics, s1) \<Rightarrow>
          publish_dashboard_event rc h uid company_id ''dashboard.metrics_update''
            [(''metrics'', PDict metrics), (''action'', PStr ''full'')] s1)"

definition publish_page_event ::
  "'s redis \<Rightarrow> hub \<Rightarrow> string \<Rightarrow> string \<Rightarrow> string \<Rightarrow> string \<Rightarrow> pydict \<Rightarrow> nat \<Rightarrow> 's \<Rightarrow> bool \<times> broadcasts \<times> 's" where
  "publish_page_event rc h uid company_id page event_type payload cache_ttl =
     publish_business_event rc h uid company_id
       (case page_to_domain page of Some d \<Rightarrow> if d \<noteq> [] then d else page | None \<Rightarrow> page)
       event_type payload (Some cache_ttl)"

subsection \<open>Notification and message helpers\<close>

definition publish_delta_event ::
  "string \<Rightarrow> 's redis \<Rightarrow> hub \<Rightarrow> string \<Rightarrow> string \<Rightarrow> pydict \<Rightarrow> bool \<Rightarrow> 's \<Rightarrow> bool \<times> broadcasts \<times> 's" where
  "publish_delta_event event_type rc h uid action data skip_connection_check s =
     (if \<not> skip_connection_check \<and> \<not> is_user_connected h uid then (False, [], s)
      else publish_user_event rc h uid event_type [(''action'', PStr action), (''data'', PDict data)] None s)"

definition publish_notification_event ::
  "'s redis \<Rightarrow> hub \<Rightarrow> string \<Rightarrow> string \<Rightarrow> pydict \<Rightarrow> bool \<Rightarrow> 's \<Rightarrow> bool \<times> broadcasts \<times> 's" where
  "publish_notification_event = publish_delta_event ''notification.delta''"

definition publish_messenger_event ::
  "'s redis \<Rightarrow> hub \<Rightarrow> string \<Rightarrow> string \<Rightarrow> pydict \<Rightarrow> bool \<Rightarrow> 's \<Rightarrow> bool \<times> broadcasts \<times> 's" where
  "publish_messenger_event = publish_delta_event ''messenger.delta''"

definition publish_notification_new :: "'s redis \<Rightarrow> hub \<Rightarrow> string \<Rightarrow> pydict \<Rightarrow> 's \<Rightarrow> bool \<times> broadcasts \<times> 's" where
  "publish_notification_new rc h uid notification = publish_notification_event rc h uid ''new'' notification False"

definition publish_notification_update :: "'s redis \<Rightarrow> hub \<Rightarrow> string \<Rightarrow> pydict \<Rightarrow> 's \<Rightarrow> bool \<times> broadcasts \<times> 's" where
  "publish_notification_update rc h uid notification = publish_notification_event rc h uid ''update'' notification False"

definition publish_notification_remove :: "'s redis \<Rightarrow> hub \<Rightarrow> string \<Rightarrow> string \<Rightarrow> 's \<Rightarrow> bool \<times> broadcasts \<times> 's" where
  "publish_notification_remove rc h uid doc_id =
     publish_notification_event rc h uid ''remove'' [(''docId'', PStr doc_id)] False"

definition publish_messenger_new :: "'s redis \<Rightarrow> hub \<Rightarrow> string \<Rightarrow> pydict \<Rightarrow> 's \<Rightarrow> bool \<times> broadcasts \<times> 's" where
  "publish_messenger_new rc h uid message = publish_messenger_event rc h uid ''new'' message False"

definition publish_messenger_remove :: "'s redis \<Rightarrow> hub \<Rightarrow> string \<Rightarrow> string \<Rightarrow> 's \<Rightarrow> bool \<times> broadcasts \<times> 's" where
  "publish_messenger_remove rc h uid doc_id =
     publish_messenger_event rc h uid ''remove'' [(''docId'', PStr doc_id)] False"

definition publish_notifications_full_data :: "hub \<Rightarrow> string \<Rightarrow> pyval list \<Rightarrow> bool \<Rightarrow> bool \<times> broadcasts" where
  "publish_notifications_full_data h uid notifications skip_connection_check =
     (if \<not> skip_connection_check \<and> \<not> is_user_connected h uid then (False, [])
      else (True, broadcast_threadsafe h uid [(''type'', PStr ''notification.full_data''),
        (''payload'', PDict [(''notifications'', PList notifications), (''count'', pnat (length notifications))])]))"

definition publish_messages_full_data :: "hub \<Rightarrow> string \<Rightarrow> pyval list \<Rightarrow> bool \<Rightarrow> bool \<times> broadcasts" where
  "publish_messages_full_data h uid messages skip_connection_check =
     (if \<not> skip_connection_check \<and> \<not> is_user_connected h uid then (False, [])
      else (True, broadcast_threadsafe h uid [(''type'', PStr ''messenger.full_data''),
        (''payload'', PDict [(''messages'', PList messages), (''count'', pnat (length messages))])]))"

section \<open>Library lemmas\<close>

definition ctx_keys_ok :: "rview \<Rightarrow> string \<Rightarrow> bool" where
  "ctx_keys_ok vw uid \<longleftrightarrow> str_key vw (page_key uid) \<and> str_key vw (build_user_selected_company_key uid)"

definition context_of :: "rview \<Rightarrow> hub \<Rightarrow> string \<Rightarrow> user_context" where
  "context_of vw h uid =
     \<lparr>current_page = fst (context_page (str_at vw (page_key uid))),
      current_domain = snd (context_page (str_at vw (page_key uid))),
      ctx_company_id = context_company (str_at vw (build_user_selected_company_key uid)),
      ctx_connected = is_user_connected h uid\<rparr>"

text \<open>The server after \<open>_update_cache\<close>: an action the cache cannot take leaves it alone.\<close>

definition cache_after :: "rview \<Rightarrow> string \<Rightarrow> pydict \<Rightarrow> nat \<Rightarrow> rview" where
  "cache_after vw key data ttl =
     (case cache_apply (cached_value (str_at vw key)) data of
        Inl _ \<Rightarrow> vw
      | Inr v \<Rightarrow> vw(key \<mapsto> (VStr (Json v), Some ttl)))"

lemma cache_after_other: "k \<noteq> key \<Longrightarrow> cache_after vw key data ttl k = vw k"
  by (simp add: cache_after_def split: sum.split)

lemma str_key_cache_after: "str_key vw k \<Longrightarrow> str_key (cache_after vw key data ttl) k"
  by (simp add: cache_after_def split: sum.split)

lemma ctx_keys_cache_after: "ctx_keys_ok vw uid \<Longrightarrow> ctx_keys_ok (cache_after vw key data ttl) uid"
  by (simp add: ctx_keys_ok_def str_key_cache_after)

lemma ttl_pos: "0 < ttl_or t (get_ttl_for_cache level d)" "0 < ttl_or t (get_ttl_for_domain d')"
  using get_ttl_for_domain_pos
  by (cases level; simp add: ttl_or_def get_ttl_for_cache_def ttl_defs split: option.split)+

context redis_up
begin

lemma get_user_context_up:
  assumes "ctx_keys_ok (view s) uid"
  obtains s' where "get_user_context rc h uid s = (context_of (view s) h uid, s')" "view s' = view s"
proof -
  let ?p = "page_key uid" and ?c = "build_user_selected_company_key uid"
  have k: "str_key (view s) ?p" "str_key (view s) ?c" using assms by (simp_all add: ctx_keys_ok_def)
  obtain s1 where 1: "r_get rc ?p s = (Inr (str_at (view s) ?p), s1)" "view s1 = view s"
    by (rule get_up [OF k(1)])
  have k2: "str_key (view s1) ?c" using k(2) 1(2) by simp
  obtain s2 where 2: "r_get rc ?c s1 = (Inr (str_at (view s1) ?c), s2)" "view s2 = view s1"
    by (rule get_up [OF k2])
  show thesis using that [of s2] 1 2 by (simp add: get_user_context_def context_of_def Let_def)
qed

lemma update_cache_up:
  assumes "str_key (view s) key" and "0 < ttl"
  obtains s' where "update_cache rc key data ttl s = ((), s')" "view s' = cache_after (view s) key data ttl"
proof -
  obtain s1 where 1: "r_get rc key s = (Inr (str_at (view s) key), s1)" "view s1 = view s"
    by (rule get_up [OF assms(1)])
  show thesis
  proof (cases "cache_apply (cached_value (str_at (view s) key)) data")
    case (Inl e)
    then show thesis using that [of s1] 1 by (simp add: update_cache_def seq_defs cache_after_def)
  next
    case (Inr v)
    obtain s2 where "r_setex rc key ttl (json_dumps v) s1 = (Inr (), s2)"
      "view s2 = (view s1)(key \<mapsto> (VStr (json_dumps v), Some ttl))"
      by (rule setex_up [OF assms(2)])
    then show thesis using that [of s2] 1 Inr
      by (simp add: update_cache_def seq_defs cache_after_def json_dumps_def)
  qed
qed

lemma publish_up:
  assumes "ctx_keys_ok (view s) uid" and "get_cache_key level uid tc td subkey = Inr key" and "str_key (view s) key"
  obtains s' where
    "publish_contextual_event rc h level uid et payload tc td subkey ttl False False s =
       (should_publish level (context_of (view s) h uid) tc td,
        (if should_publish level (context_of (view s) h uid) tc td
         then broadcast_threadsafe h uid [(''type'', PStr et), (''payload'', PDict payload)] else []), s')"
    "view s' = cache_after (view s) key payload (ttl_or ttl (get_ttl_for_cache level td))"
proof -
  obtain s1 where 1: "get_user_context rc h uid s = (context_of (view s) h uid, s1)" "view s1 = view s"
    by (rule get_user_context_up [OF assms(1)])
  have "str_key (view s1) key" using assms(3) 1(2) by simp
  then obtain s2 where 2: "update_cache rc key payload (ttl_or ttl (get_ttl_for_cache level td)) s1 = ((), s2)"
    "view s2 = cache_after (view s1) key payload (ttl_or ttl (get_ttl_for_cache level td))"
    by (rule update_cache_up [OF _ ttl_pos(1)])
  show thesis using that [of s2] 1 2 assms(2) by (simp add: publish_contextual_event_def)
qed

lemma update_page_context_up:
  obtains s' where "update_page_context rc uid page s = ((), s')"
    "view s' (page_key uid) = Some (VStr (Json (PStr page)), Some TTL_SESSION)"
    "\<forall>k. k \<noteq> page_key uid \<longrightarrow> k \<noteq> domain_key uid \<longrightarrow> view s' k = view s k"
proof -
  have ne: "domain_key uid \<noteq> page_key uid" by (simp add: domain_key_def page_key_def)
  have t: "0 < TTL_SESSION" by (simp add: ttl_defs)
  obtain s1 where 1: "r_setex rc (page_key uid) TTL_SESSION (json_dumps (PStr page)) s = (Inr (), s1)"
    "view s1 = (view s)(page_key uid \<mapsto> (VStr (json_dumps (PStr page)), Some TTL_SESSION))"
    by (rule setex_up [OF t])
  show thesis
  proof (cases "page_to_domain page = None \<or> page_to_domain page = Some []")
    case True
    then show thesis using that [of s1] 1 by (auto simp: update_page_context_def seq_defs json_dumps_def)
  next
    case False
    then obtain d where d: "page_to_domain page = Some d" "d \<noteq> []" by auto
    obtain s2 where "r_setex rc (domain_key uid) TTL_SESSION (json_dumps (PStr d)) s1 = (Inr (), s2)"
      "view s2 = (view s1)(domain_key uid \<mapsto> (VStr (json_dumps (PStr d)), Some TTL_SESSION))"
      by (rule setex_up [OF t])
    then show thesis using that [of s2] 1 d ne by (simp add: update_page_context_def seq_defs json_dumps_def)
  qed
qed

end

lemma context_page_domain:
  "snd (context_page pd) = Some d \<longleftrightarrow> (\<exists>page. pd = Some (Json (PStr page)) \<and> page_to_domain page = Some d)"
proof (cases pd)
  case (Some t)
  then show ?thesis by (cases t) (auto simp: context_page_def split: pyval.splits)
qed (simp add: context_page_def)

lemma context_company_eq: "c \<noteq> [] \<Longrightarrow> context_company pd = Some (Raw c) \<longleftrightarrow> pd = Some (Raw c)"
  by (auto simp: context_company_def)

text \<open>Who an event of a level is for, read off the server and the hub.\<close>

fun audience :: "CacheLevel \<Rightarrow> rview \<Rightarrow> string \<Rightarrow> string \<Rightarrow> string \<Rightarrow> bool" where
  "audience USER vw uid company domain = True"
| "audience COMPANY vw uid company domain = (str_at vw (build_user_selected_company_key uid) = Some (Raw company))"
| "audience BUSINESS vw uid company domain =
     (str_at vw (build_user_selected_company_key uid) = Some (Raw company) \<and>
      (\<exists>page. str_at vw (page_key uid) = Some (Json (PStr page)) \<and> page_to_domain page = Some domain))"

lemma should_publish_audience:
  assumes "company \<noteq> []" and "domain \<noteq> []"
  shows "should_publish level (context_of vw h uid) (Some company) (Some domain) \<longleftrightarrow>
    is_user_connected h uid \<and> audience level vw uid company domain"
  using assms by (cases level) (auto simp: context_of_def given_def context_page_domain context_company_eq)



subsection \<open>Lists kept by the cache\<close>

text \<open>The cache at a key is absent or a document whose \<open>items\<close>, if any, are a list.\<close>

definition list_cache :: "rview \<Rightarrow> string \<Rightarrow> bool" where
  "list_cache vw key \<longleftrightarrow> str_key vw key \<and>
     (case str_at vw key of
        None \<Rightarrow> True
      | Some (Json (PDict d)) \<Rightarrow> (\<exists>xs. dget_or d ''items'' (PList []) = PList xs)
      | _ \<Rightarrow> False)"

definition items_at :: "rview \<Rightarrow> string \<Rightarrow> pyval list" where
  "items_at vw key =
     (case str_at vw key of
        Some (Json (PDict d)) \<Rightarrow> (case dget_or d ''items'' (PList []) of PList xs \<Rightarrow> xs | _ \<Rightarrow> [])
      | _ \<Rightarrow> [])"

lemma cache_after_new:
  assumes "list_cache vw key" and "map_of data ''action'' = Some (PStr ''new'')" and "map_of data ''item'' = Some x"
  shows "list_cache (cache_after vw key data ttl) key"
    and "items_at (cache_after vw key data ttl) key = take 100 (x # items_at vw key)"
proof -
  have a: "dget_or data ''action'' (PStr ''full'') = PStr ''new''" "dget_or data ''item'' (PDict data) = x"
    using assms(2,3) by (simp_all add: dget_or_def)
  obtain d xs where d: "cached_value (str_at vw key) = PDict d" "dget_or d ''items'' (PList []) = PList xs"
    "items_at vw key = xs"
    using assms(1) by (auto simp: list_cache_def items_at_def cached_value_def split: option.splits text_val.splits pyval.splits)
  have "cache_after vw key data ttl = vw(key \<mapsto> (VStr (Json (PDict (dset d ''items'' (PList (take 100 (x # xs)))))), Some ttl))"
    using a d by (simp add: cache_after_def cache_apply_def Let_def)
  then show "list_cache (cache_after vw key data ttl) key"
    and "items_at (cache_after vw key data ttl) key = take 100 (x # items_at vw key)"
    using d(3) by (simp_all add: list_cache_def items_at_def)
qed

fun publish_new_items ::
  "'s redis \<Rightarrow> hub \<Rightarrow> string \<Rightarrow> string \<Rightarrow> string \<Rightarrow> pyval list \<Rightarrow> 's \<Rightarrow> 's" where
  "publish_new_items rc h uid et subkey [] s = s"
| "publish_new_items rc h uid et subkey (x # xs) s =
     publish_new_items rc h uid et subkey xs
       (snd (snd (publish_user_event rc h uid et [(''action'', PStr ''new''), (''item'', x)] (Some subkey) s)))"

context redis_up
begin

lemma publish_user_up:
  assumes "ctx_keys_ok (view s) uid" and "get_cache_key USER uid None None subkey = Inr key" and "str_key (view s) key"
  obtains b out s' where "publish_user_event rc h uid et payload subkey s = (b, out, s')"
    "view s' = cache_after (view s) key payload TTL_USER_PROFILE"
proof -
  obtain s' where "publish_contextual_event rc h USER uid et payload None None subkey (Some TTL_USER_PROFILE) False False s =
       (should_publish USER (context_of (view s) h uid) None None,
        (if should_publish USER (context_of (view s) h uid) None None
         then broadcast_threadsafe h uid [(''type'', PStr et), (''payload'', PDict payload)] else []), s')"
    "view s' = cache_after (view s) key payload (ttl_or (Some TTL_USER_PROFILE) (get_ttl_for_cache USER None))"
    by (rule publish_up [OF assms])
  moreover have "ttl_or (Some TTL_USER_PROFILE) d = TTL_USER_PROFILE" for d by (simp add: ttl_or_def ttl_defs)
  ultimately show thesis using that by (simp add: publish_user_event_def)
qed

lemma publish_new_items_up:
  assumes "ctx_keys_ok (view s) uid" and "get_cache_key USER uid None None (Some subkey) = Inr key"
    and "list_cache (view s) key"
  shows "items_at (view (publish_new_items rc h uid et subkey xs s)) key =
    (if xs = [] then items_at (view s) key else take 100 (rev xs @ items_at (view s) key))"
  using assms
proof (induction xs arbitrary: s)
  case (Cons x xs)
  let ?p = "[(''action'', PStr ''new''), (''item'', x)]"
  have sk: "str_key (view s) key" using Cons.prems(3) by (simp add: list_cache_def)
  obtain b out s1 where 1: "publish_user_event rc h uid et ?p (Some subkey) s = (b, out, s1)"
    "view s1 = cache_after (view s) key ?p TTL_USER_PROFILE"
    by (rule publish_user_up [OF Cons.prems(1,2) sk])
  have "ctx_keys_ok (view s1) uid" "list_cache (view s1) key"
    "items_at (view s1) key = take 100 (x # items_at (view s) key)"
    using Cons.prems 1(2) cache_after_new [of "view s" key ?p x] by (simp_all add: ctx_keys_cache_after)
  then show ?case using Cons.IH [of s1] Cons.prems(2) 1(1) by (simp add: take_Cons')
qed simp

end

section \<open>Properties\<close>


text \<open>
  The cache is always updated. Whether or not the event was published, whatever the state of
  the hub, the cache of its level afterwards holds the event applied to the former content, with
  the time to live of the level, and no other key of the server has changed.
\<close>

theorem cache_always_updated:
  assumes "redis_up rc view tick" and "ctx_keys_ok (view s) uid"
    and "get_cache_key level uid tc td subkey = Inr key" and "str_key (view s) key"
    and "publish_contextual_event rc h level uid et payload tc td subkey ttl False False s = (b, out, s')"
  shows "view s' = cache_after (view s) key payload (ttl_or ttl (get_ttl_for_cache level td)) \<and>
    (\<forall>k. k \<noteq> key \<longrightarrow> view s' k = view s k)"
proof -
  obtain t where "publish_contextual_event rc h level uid et payload tc td subkey ttl False False s =
       (should_publish level (context_of (view s) h uid) tc td,
        (if should_publish level (context_of (view s) h uid) tc td
         then broadcast_threadsafe h uid [(''type'', PStr et), (''payload'', PDict payload)] else []), t)"
    "view t = cache_after (view s) key payload (ttl_or ttl (get_ttl_for_cache level td))"
    by (rule redis_up.publish_up [OF assms(1-4)])
  then show ?thesis using assms(5) by (simp add: cache_after_other)
qed

text \<open>A server with a selected company, and a hub with one connection of the user.\<close>

definition demo_mem :: mem where
  "demo_mem = \<lparr>m_now = 0, m_db =
     [(''user:u:selected_company_id'', (VStr (Raw ''c''), None)),
      (''session:context:u:page'', (VStr (Json (PStr ''banking'')), None))], m_out = []\<rparr>"

definition demo_hub :: hub where
  "demo_hub = fst (register init_hub ''u'' 1)"

lemma demo_run: "run [Op_register ''u'' 1] demo_hub [First_connect ''u'']"
proof -
  have "run ([] @ [Op_register ''u'' 1]) demo_hub ([] @ [First_connect ''u''])"
    by (rule run_step [OF run_init])
       (simp add: demo_hub_def register_def init_hub_def conns_of_def Let_def)
  then show ?thesis by simp
qed

lemmas key_eval = page_key_def domain_key_def key_builders

lemma demo_view:
  "str_key (mem_view demo_mem) k"
  "str_at (mem_view demo_mem) k =
     (if k = ''user:u:selected_company_id'' then Some (Raw ''c'')
      else if k = ''session:context:u:page'' then Some (Json (PStr ''banking'')) else None)"
  by (simp_all add: str_key_def str_at_def mem_view_def demo_mem_def)

lemma demo_connected: "is_user_connected demo_hub ''u''"
  by (simp add: connected_iff demo_hub_def register_def init_hub_def conns_of_def Let_def)


theorem cache_always_updated_witness:
  "\<exists>b out s'. publish_contextual_event mem_redis init_hub USER ''u'' ''t'' [(''action'', PStr ''new''), (''item'', PNum 1)] None None (Some ''notes'') None False False
       demo_mem = (b, out, s') \<and>
     mem_view s' ''user:u:notes'' = Some (VStr (Json (PDict [(''items'', PList [PNum 1])])), Some 86400)"
proof -
  let ?p = "[(''action'', PStr ''new''), (''item'', PNum 1)]"
  obtain b out s' where p: "publish_contextual_event mem_redis init_hub USER ''u'' ''t'' ?p None None (Some ''notes'') None False False
      demo_mem = (b, out, s')" by (metis prod_cases3)
  have c: "ctx_keys_ok (mem_view demo_mem) ''u''" by (simp add: ctx_keys_ok_def demo_view)
  have k: "get_cache_key USER ''u'' None None (Some ''notes'') = Inr ''user:u:notes''" by (simp add: given_def)
  have "cache_after (mem_view demo_mem) ''user:u:notes'' ?p (ttl_or None (get_ttl_for_cache USER None)) ''user:u:notes''
      = Some (VStr (Json (PDict [(''items'', PList [PNum 1])])), Some 86400)"
    by (simp add: cache_after_def demo_view cached_value_def cache_apply_def Let_def ttl_or_def get_ttl_for_cache_def ttl_defs)
  then show ?thesis
    using p cache_always_updated [OF mem_redis_up c k demo_view(1) p] by auto
qed

text \<open>
  A list in the cache is a bounded, newest-first history. After any number of events that add
  an item under the same key, whether or not they reached the user, the cache holds the
  last hundred items, the latest first, followed by what was there before as far as there is room.
\<close>

theorem cached_history:
  assumes "redis_up rc view tick" and "ctx_keys_ok (view s) uid"
    and "get_cache_key USER uid None None (Some subkey) = Inr key" and "list_cache (view s) key" and "xs \<noteq> []"
  shows "items_at (view (publish_new_items rc h uid et subkey xs s)) key = take 100 (rev xs @ items_at (view s) key)"
  using redis_up.publish_new_items_up [OF assms(1-4)] assms(5) by simp

theorem cached_history_witness:
  "items_at (mem_view (publish_new_items mem_redis init_hub ''u'' ''t'' ''notes'' [PNum 1, PNum 2, PNum 3] demo_mem)) ''user:u:notes''
     = [PNum 3, PNum 2, PNum 1]"
proof -
  have c: "ctx_keys_ok (mem_view demo_mem) ''u''" by (simp add: ctx_keys_ok_def demo_view)
  have k: "get_cache_key USER ''u'' None None (Some ''notes'') = Inr ''user:u:notes''" by (simp add: given_def)
  have l: "list_cache (mem_view demo_mem) ''user:u:notes''" "items_at (mem_view demo_mem) ''user:u:notes'' = []"
    by (simp_all add: list_cache_def items_at_def demo_view)
  show ?thesis using cached_history [OF mem_redis_up c k l(1), of "[PNum 1, PNum 2, PNum 3]"] l(2) by simp
qed

text \<open>
  Navigation decides which business events arrive. Once a user has opened a page, an event of
  a domain is delivered if and only if the user is connected, the company of the event is the
  selected one and the page belongs to the domain.
\<close>

theorem page_context_routes_events:
  assumes "redis_up rc view tick" and "run ops h tr" and "ctx_keys_ok (view s) uid"
    and "str_key (view s) (build_business_key uid company domain None)"
    and "company \<noteq> []" and "domain \<noteq> []"
    and "publish_business_event rc h uid company domain et payload ttl (snd (update_page_context rc uid page s)) = (b, out, s')"
  shows "b = (is_user_connected h uid \<and> str_at (view s) (build_user_selected_company_key uid) = Some (Raw company) \<and>
    page_to_domain page = Some domain)"
proof -
  obtain s1 where 1: "update_page_context rc uid page s = ((), s1)"
    "view s1 (page_key uid) = Some (VStr (Json (PStr page)), Some TTL_SESSION)"
    "\<forall>k. k \<noteq> page_key uid \<longrightarrow> k \<noteq> domain_key uid \<longrightarrow> view s1 k = view s k"
    by (rule redis_up.update_page_context_up [OF assms(1)])
  let ?c = "build_user_selected_company_key uid" and ?k = "build_business_key uid company domain None"
  have ne: "?c \<noteq> page_key uid" "?c \<noteq> domain_key uid" "?k \<noteq> page_key uid" "?k \<noteq> domain_key uid"
    by (simp_all add: key_eval)
  then have v: "view s1 ?c = view s ?c" "view s1 ?k = view s ?k" using 1(3) by simp_all
  have p: "str_at (view s1) (page_key uid) = Some (Json (PStr page))" using 1(2) by (simp add: str_at_def)
  have c: "str_at (view s1) ?c = str_at (view s) ?c" by (simp add: str_at_def v)
  have ok: "ctx_keys_ok (view s1) uid"
    using assms(3) by (simp add: ctx_keys_ok_def str_key_def v 1(2))
  have sk: "str_key (view s1) ?k" using assms(4) by (simp add: str_key_def v)
  have gk: "get_cache_key BUSINESS uid (Some company) (Some domain) None = Inr ?k"
    using assms(5,6) by (simp add: given_def)
  obtain t where "publish_contextual_event rc h BUSINESS uid et payload (Some company) (Some domain) None
      (Some (ttl_or ttl (get_ttl_for_domain domain))) False False s1 =
       (should_publish BUSINESS (context_of (view s1) h uid) (Some company) (Some domain),
        (if should_publish BUSINESS (context_of (view s1) h uid) (Some company) (Some domain)
         then broadcast_threadsafe h uid [(''type'', PStr et), (''payload'', PDict payload)] else []), t)"
    by (rule redis_up.publish_up [OF assms(1) ok gk sk])
  then have "b = should_publish BUSINESS (context_of (view s1) h uid) (Some company) (Some domain)"
    using assms(7) 1(1) by (simp add: publish_business_event_def)
  then show ?thesis
    unfolding should_publish_audience [OF assms(5,6)] audience.simps p c by simp
qed

theorem page_context_routes_events_witness:
  "\<exists>b out s'. publish_business_event mem_redis demo_hub ''u'' ''c'' ''invoices'' ''t'' [] None
       (snd (update_page_context mem_redis ''u'' ''APBookeeper'' demo_mem)) = (b, out, s') \<and> b"
proof -
  obtain b out s' where p: "publish_business_event mem_redis demo_hub ''u'' ''c'' ''invoices'' ''t'' [] None
      (snd (update_page_context mem_redis ''u'' ''APBookeeper'' demo_mem)) = (b, out, s')" by (metis prod_cases3)
  have d: "page_to_domain ''APBookeeper'' = Some ''invoices''" by code_simp
  have c: "ctx_keys_ok (mem_view demo_mem) ''u''" by (simp add: ctx_keys_ok_def demo_view)
  show ?thesis
    using p d demo_connected
      page_context_routes_events [OF mem_redis_up demo_run c demo_view(1) _ _ p] by (auto simp: demo_view key_eval)
qed

text \<open>
  Notifications go to the profile cache. A notification published for a connected user is
  stored among the \<open>items\<close> of that user's profile entry, because the helper gives no sub-key, and
  the identifier of a removal is nested inside the payload where the cache does not look: removing
  a notification with any identifier whatsoever deletes every notification stored there.
\<close>

theorem notification_remove_clears_all:
  assumes "redis_up rc view tick" and "ctx_keys_ok (view s) uid" and "is_user_connected h uid"
    and "view s (build_user_profile_key uid) = Some (VStr (Json (PDict d)), e)"
    and "map_of d ''items'' = None"
    and "publish_notification_new rc h uid n s = (b1, out1, s1)"
    and "publish_notification_remove rc h uid doc_id s1 = (b2, out2, s2)"
  shows "items_at (view s1) (build_user_profile_key uid) = [PDict [(''action'', PStr ''new''), (''data'', PDict n)]] \<and>
    items_at (view s2) (build_user_profile_key uid) = []"
proof -
  let ?k = "build_user_profile_key uid"
  let ?n = "[(''action'', PStr ''new''), (''data'', PDict n)]"
  let ?r = "[(''action'', PStr ''remove''), (''data'', PDict [(''docId'', PStr doc_id)])]"
  have k: "get_cache_key USER uid None None None = Inr ?k" by (simp add: given_def)
  have sk: "str_key (view s) ?k" using assms(4) by (simp add: str_key_def)
  obtain a1 o1 t1 where 1: "publish_user_event rc h uid ''notification.delta'' ?n None s = (a1, o1, t1)"
    "view t1 = cache_after (view s) ?k ?n TTL_USER_PROFILE"
    by (rule redis_up.publish_user_up [OF assms(1,2) k sk])
  have t1: "t1 = s1" using assms(3,6) 1(1)
    by (simp add: publish_notification_new_def publish_notification_event_def publish_delta_event_def)
  have v1: "view s1 = (view s)(?k \<mapsto> (VStr (Json (PDict (dset d ''items'' (PList [PDict ?n])))), Some TTL_USER_PROFILE))"
    using 1(2) assms(4,5)
    by (simp add: t1 cache_after_def str_at_def cached_value_def cache_apply_def Let_def dget_or_def)
  have c1: "ctx_keys_ok (view s1) uid" "str_key (view s1) ?k"
    using assms(2) v1 by (simp_all add: ctx_keys_ok_def)
  obtain a2 o2 t2 where 2: "publish_user_event rc h uid ''notification.delta'' ?r None s1 = (a2, o2, t2)"
    "view t2 = cache_after (view s1) ?k ?r TTL_USER_PROFILE"
    by (rule redis_up.publish_user_up [OF assms(1) c1(1) k c1(2)])
  have t2: "t2 = s2" using assms(3,7) 2(1)
    by (simp add: publish_notification_remove_def publish_notification_event_def publish_delta_event_def)
  have "view s2 = (view s1)(?k \<mapsto> (VStr (Json (PDict (dset (dset d ''items'' (PList [PDict ?n])) ''items'' (PList [])))), Some TTL_USER_PROFILE))"
    using 2(2) by (simp add: t2 v1 cache_after_def cached_value_def cache_apply_def Let_def rbind_def py_or_def)
  then show ?thesis by (simp add: v1 items_at_def)
qed

theorem notification_remove_clears_all_witness:
  "\<exists>s b1 out1 s1 b2 out2 s2. publish_notification_new mem_redis demo_hub ''u'' [(''docId'', PStr ''n1'')] s = (b1, out1, s1) \<and>
     publish_notification_remove mem_redis demo_hub ''u'' ''other'' s1 = (b2, out2, s2) \<and>
     length (items_at (mem_view s1) ''user:u:profile'') = 1 \<and> items_at (mem_view s2) ''user:u:profile'' = []"
proof -
  let ?s = "\<lparr>m_now = 0, m_db = [(''user:u:profile'', (VStr (Json (PDict [(''email'', PStr ''e'')])), None))], m_out = []\<rparr>"
  let ?d = "[(''email'', PStr ''e'')]"
  obtain b1 out1 s1 where 1: "publish_notification_new mem_redis demo_hub ''u'' [(''docId'', PStr ''n1'')] ?s = (b1, out1, s1)"
    by (metis prod_cases3)
  obtain b2 out2 s2 where 2: "publish_notification_remove mem_redis demo_hub ''u'' ''other'' s1 = (b2, out2, s2)"
    by (metis prod_cases3)
  have c: "ctx_keys_ok (mem_view ?s) ''u''" by (simp add: ctx_keys_ok_def str_key_def mem_view_def key_eval)
  have v: "mem_view ?s (build_user_profile_key ''u'') = Some (VStr (Json (PDict ?d)), None)" "map_of ?d ''items'' = None"
    by (simp_all add: mem_view_def key_eval)
  have p: "build_user_profile_key ''u'' = ''user:u:profile''" by (simp add: key_eval)
  show ?thesis
    using 1 2 notification_remove_clears_all [OF mem_redis_up c demo_connected v 1 2] unfolding p by force
qed

end
