(* ===== verification/Page_State.thy ===== *)
theory Page_State
  imports Contextual_Publisher
begin

text \<open>
  \<open>PageStateManager\<close> of \<open>src/app/wrappers/page_state_manager.py\<close>: the content of a page is kept
  in Redis for half an hour, per user, company and page, so that a reload is restored from it.
  Saving a page also tells the publisher which page the user is on. The time stamp of
  \<open>datetime.now\<close> is the argument \<open>now\<close>.
\<close>

section \<open>Definitions\<close>

definition PAGE_STATE_TTL :: nat where
  "PAGE_STATE_TTL = 1800"

definition VALID_PAGES :: "string list" where
  "VALID_PAGES = [''dashboard'', ''invoices'', ''expenses'', ''chat'', ''chat_tasks'', ''hr'', ''settings'',
     ''company_settings'', ''onboarding'', ''billing'', ''routing'', ''coa'', ''banking'']"

definition ps_build_key :: "string \<Rightarrow> string \<Rightarrow> string \<Rightarrow> string" where
  "ps_build_key uid company_id page = ''page_state:'' @ uid @ '':'' @ company_id @ '':'' @ page"

definition validate_page :: "string \<Rightarrow> bool" where
  "validate_page page \<longleftrightarrow> page \<in> set VALID_PAGES"

definition page_state_record :: "string \<Rightarrow> string \<Rightarrow> string \<Rightarrow> pyval \<Rightarrow> string \<Rightarrow> pydict" where
  "page_state_record page company_id mandate_path data now =
     [(''version'', PStr ''1.0''), (''page'', PStr page), (''company_id'', PStr company_id),
      (''mandate_path'', PStr mandate_path), (''loaded_at'', PStr now), (''data'', data)]"

definition save_page_state ::
  "'s redis \<Rightarrow> string \<Rightarrow> string \<Rightarrow> string \<Rightarrow> string \<Rightarrow> string \<Rightarrow> pyval \<Rightarrow> nat \<Rightarrow> 's \<Rightarrow> bool \<times> 's" where
  "save_page_state rc now uid company_id page mandate_path data ttl s =
     (if \<not> validate_page page then (False, s)
      else
        case r_setex rc (ps_build_key uid company_id page) ttl
               (json_dumps (PDict (page_state_record page company_id mandate_path data now))) s of
          (Inl _, s1) \<Rightarrow> (False, s1)
        | (Inr _, s1) \<Rightarrow> (True, snd (update_page_context rc uid page s1)))"

definition get_page_state :: "'s redis \<Rightarrow> string \<Rightarrow> string \<Rightarrow> string \<Rightarrow> 's \<Rightarrow> pydict option \<times> 's" where
  "get_page_state rc uid company_id page s =
     (if \<not> validate_page page then (None, s)
      else if company_id = [] then (None, s)
      else
        case r_get rc (ps_build_key uid company_id page) s of
          (Inl _, s1) \<Rightarrow> (None, s1)
        | (Inr None, s1) \<Rightarrow> (None, s1)
        | (Inr (Some raw), s1) \<Rightarrow>
            (case json_loads raw of Inr (PDict state) \<Rightarrow> (Some state, s1) | _ \<Rightarrow> (None, s1)))"

definition get_page_state_metadata :: "'s redis \<Rightarrow> string \<Rightarrow> string \<Rightarrow> string \<Rightarrow> 's \<Rightarrow> pydict option \<times> 's" where
  "get_page_state_metadata rc uid company_id page s =
     (case get_page_state rc uid company_id page s of
        (Some state, s1) \<Rightarrow>
          if state \<noteq> [] then
            (Some [(''version'', dget state ''version''), (''page'', dget state ''page''),
               (''company_id'', dget state ''company_id''), (''mandate_path'', dget state ''mandate_path''),
               (''loaded_at'', dget state ''loaded_at''), (''has_data'', PBool (truthy (dget state ''data'')))], s1)
          else (None, s1)
      | (None, s1) \<Rightarrow> (None, s1))"

text \<open>Deleting what a \<open>KEYS\<close> pattern finds; an empty answer deletes nothing.\<close>

definition delete_pattern :: "'s redis \<Rightarrow> string \<Rightarrow> 's \<Rightarrow> bool \<times> 's" where
  "delete_pattern rc pattern s =
     (case r_keys rc pattern s of
        (Inl _, s1) \<Rightarrow> (False, s1)
      | (Inr keys, s1) \<Rightarrow>
          if keys = [] then (True, s1)
          else (case r_delete rc keys s1 of (Inl _, s2) \<Rightarrow> (False, s2) | (Inr _, s2) \<Rightarrow> (True, s2)))"

definition invalidate_page_state :: "'s redis \<Rightarrow> string \<Rightarrow> string \<Rightarrow> string option \<Rightarrow> 's \<Rightarrow> bool \<times> 's" where
  "invalidate_page_state rc uid company_id page s =
     (if given page then
        (if \<not> validate_page (the page) then (False, s)
         else case r_delete rc [ps_build_key uid company_id (the page)] s of
                (Inl _, s1) \<Rightarrow> (False, s1)
              | (Inr _, s1) \<Rightarrow> (True, s1))
      else delete_pattern rc (''page_state:'' @ uid @ '':'' @ company_id @ '':*'') s)"

definition invalidate_all_for_user :: "'s redis \<Rightarrow> string \<Rightarrow> 's \<Rightarrow> bool \<times> 's" where
  "invalidate_all_for_user rc uid s = delete_pattern rc (''page_state:'' @ uid @ '':*'') s"

definition get_cached_pages :: "'s redis \<Rightarrow> string \<Rightarrow> string \<Rightarrow> 's \<Rightarrow> string list \<times> 's" where
  "get_cached_pages rc uid company_id s =
     (case r_keys rc (''page_state:'' @ uid @ '':'' @ company_id @ '':*'') s of
        (Inl _, s1) \<Rightarrow> ([], s1)
      | (Inr keys, s1) \<Rightarrow>
          (map (\<lambda>parts. parts ! 3) (filter (\<lambda>parts. 4 \<le> length parts) (map (split_on CHR '':'') keys)), s1))"

definition extend_ttl :: "'s redis \<Rightarrow> string \<Rightarrow> string \<Rightarrow> string \<Rightarrow> nat \<Rightarrow> 's \<Rightarrow> bool \<times> 's" where
  "extend_ttl rc uid company_id page ttl s =
     (let key = ps_build_key uid company_id page in
      case r_exists rc key s of
        (Inl _, s1) \<Rightarrow> (False, s1)
      | (Inr n, s1) \<Rightarrow>
          if n = 0 then (False, s1)
          else (case r_expire rc key ttl s1 of (Inl _, s2) \<Rightarrow> (False, s2) | (Inr _, s2) \<Rightarrow> (True, s2)))"

section \<open>Library lemmas\<close>

lemma ps_key_apart [simp]:
  "ps_build_key uid cid page \<noteq> page_key u" "ps_build_key uid cid page \<noteq> domain_key u"
  by (simp_all add: ps_build_key_def page_key_def domain_key_def)

lemma ps_key_inj:
  assumes "plain u" "plain c" "plain u'" "plain c'"
  shows "ps_build_key u c p = ps_build_key u' c' p' \<longleftrightarrow> u = u' \<and> c = c' \<and> p = p'"
proof
  assume "ps_build_key u c p = ps_build_key u' c' p'"
  then have "split_on CHR '':'' (ps_build_key u c p) = split_on CHR '':'' (ps_build_key u' c' p')" by simp
  then show "u = u' \<and> c = c' \<and> p = p'"
    using assms by (auto simp: ps_build_key_def split_on_plain_append dest: split_on_inj)
qed simp

lemma ps_key_prefix:
  assumes "plain u" "plain c" "plain u'" "plain c'"
  shows "starts_with (''page_state:'' @ u @ '':'' @ c @ '':'') (ps_build_key u' c' p') \<longleftrightarrow> u = u' \<and> c = c'"
proof
  assume "starts_with (''page_state:'' @ u @ '':'' @ c @ '':'') (ps_build_key u' c' p')"
  then obtain t where "ps_build_key u' c' p' = ps_build_key u c t"
    by (auto simp: starts_with_prefix ps_build_key_def)
  then show "u = u' \<and> c = c'" using ps_key_inj [OF assms] by metis
qed (auto simp: starts_with_prefix ps_build_key_def)

context redis_up
begin

lemma save_page_state_up:
  assumes "validate_page page" and "0 < ttl"
  obtains s' where "save_page_state rc now uid cid page mp data ttl s = (True, s')"
    "view s' (ps_build_key uid cid page) =
       Some (VStr (Json (PDict (page_state_record page cid mp data now))), Some ttl)"
    "view s' (page_key uid) = Some (VStr (Json (PStr page)), Some TTL_SESSION)"
proof -
  let ?k = "ps_build_key uid cid page" and ?v = "json_dumps (PDict (page_state_record page cid mp data now))"
  obtain s1 where 1: "r_setex rc ?k ttl ?v s = (Inr (), s1)" "view s1 = (view s)(?k \<mapsto> (VStr ?v, Some ttl))"
    by (rule setex_up [OF assms(2)])
  obtain s2 where 2: "update_page_context rc uid page s1 = ((), s2)"
    "view s2 (page_key uid) = Some (VStr (Json (PStr page)), Some TTL_SESSION)"
    "\<forall>k. k \<noteq> page_key uid \<longrightarrow> k \<noteq> domain_key uid \<longrightarrow> view s2 k = view s1 k"
    by (rule update_page_context_up)
  show thesis using that [of s2] 1 2 assms(1) by (simp add: save_page_state_def json_dumps_def)
qed

lemma get_page_state_up:
  assumes "validate_page page" and "cid \<noteq> []" and "str_key (view s) (ps_build_key uid cid page)"
  shows "fst (get_page_state rc uid cid page s) =
    (case str_at (view s) (ps_build_key uid cid page) of Some (Json (PDict d)) \<Rightarrow> Some d | _ \<Rightarrow> None)"
proof -
  obtain s1 where "r_get rc (ps_build_key uid cid page) s = (Inr (str_at (view s) (ps_build_key uid cid page)), s1)"
    by (rule get_up [OF assms(3)])
  then show ?thesis
    using assms(1,2) by (simp add: get_page_state_def split: option.split text_val.split pyval.split)
qed

lemma delete_pattern_up:
  assumes "no_glob p"
  obtains s' where "delete_pattern rc (p @ ''*'') s = (True, s')"
    "\<forall>k. view s' k = (if starts_with p k then None else view s k)"
proof -
  obtain ks s1 where k: "r_keys rc (p @ ''*'') s = (Inr ks, s1)" using keys_ok by blast
  note kl = keys_law [OF assms k]
  have live: "starts_with p k \<Longrightarrow> k \<notin> set ks \<Longrightarrow> view s k = None" for k using kl by blast
  show thesis
  proof (cases "ks = []")
    case True
    then have "\<forall>k. view s1 k = (if starts_with p k then None else view s k)" using kl live by simp
    then show thesis using that [of s1] k True by (simp add: delete_pattern_def)
  next
    case False
    then obtain n s2 where d: "r_delete rc ks s1 = (Inr n, s2)" using delete_ok by blast
    have "\<forall>k. view s2 k = (if starts_with p k then None else view s k)"
    proof
      fix k
      have v: "view s1 = view s" "view s2 k = (if k \<in> set ks then None else view s1 k)"
        using delete_law [OF d] kl by simp_all
      have "k \<in> set ks \<Longrightarrow> starts_with p k" using kl by blast
      then show "view s2 k = (if starts_with p k then None else view s k)"
        unfolding v using live [of k] by auto
    qed
    then show thesis using that [of s2] k d False by (simp add: delete_pattern_def)
  qed
qed

end

section \<open>Properties\<close>

text \<open>
  A saved page is restored until it expires. After a successful save of a valid page, a read
  less than the time to live later returns the page, the company, the mandate path and the
  data that were saved, and a read at or after it returns nothing; the save also made the page
  the current one for the publisher.
\<close>

theorem page_state_restored:
  assumes "redis_up rc view tick" and "validate_page page" and "cid \<noteq> []" and "0 < ttl"
    and "save_page_state rc now uid cid page mp data ttl s = (b, s')"
  shows "b \<and> fst (get_page_state rc uid cid page (tick d s')) =
      (if d < ttl then Some (page_state_record page cid mp data now) else None) \<and>
    str_at (view s') (page_key uid) = Some (Json (PStr page))"
proof -
  let ?k = "ps_build_key uid cid page"
  obtain t where "save_page_state rc now uid cid page mp data ttl s = (True, t)"
    "view t ?k = Some (VStr (Json (PDict (page_state_record page cid mp data now))), Some ttl)"
    "view t (page_key uid) = Some (VStr (Json (PStr page)), Some TTL_SESSION)"
    by (rule redis_up.save_page_state_up [OF assms(1,2,4)])
  then have b: "b" and v: "view s' ?k = Some (VStr (Json (PDict (page_state_record page cid mp data now))), Some ttl)"
    and p: "view s' (page_key uid) = Some (VStr (Json (PStr page)), Some TTL_SESSION)"
    using assms(5) by auto
  have "redis_server rc view tick" using assms(1) by (simp add: redis_up_def)
  then have a: "view (tick d s') ?k = age d (view s' ?k)" by (rule redis_server.tick_law)
  have "str_key (view (tick d s')) ?k" by (simp add: str_key_def a v age_def)
  note g = redis_up.get_page_state_up [OF assms(1-3) this]
  have "str_at (view (tick d s')) ?k = (if d < ttl then Some (Json (PDict (page_state_record page cid mp data now))) else None)"
    by (simp add: str_at_def a v age_def)
  then show ?thesis using b p g by (simp add: str_at_def)
qed

theorem page_state_restored_witness:
  "\<exists>s'. save_page_state mem_redis ''t0'' ''u'' ''c'' ''coa'' ''mp'' (PNum 7) PAGE_STATE_TTL empty_mem = (True, s') \<and>
     fst (get_page_state mem_redis ''u'' ''c'' ''coa'' (mem_tick 1799 s')) = Some (page_state_record ''coa'' ''c'' ''mp'' (PNum 7) ''t0'') \<and>
     fst (get_page_state mem_redis ''u'' ''c'' ''coa'' (mem_tick 1800 s')) = None"
proof -
  obtain b s' where s: "save_page_state mem_redis ''t0'' ''u'' ''c'' ''coa'' ''mp'' (PNum 7) PAGE_STATE_TTL empty_mem = (b, s')"
    by fastforce
  have h: "validate_page ''coa''" "''c'' \<noteq> []" "0 < PAGE_STATE_TTL"
    by (simp_all add: validate_page_def VALID_PAGES_def PAGE_STATE_TTL_def)
  show ?thesis
    using s page_state_restored [OF mem_redis_up h s, of 1799] page_state_restored [OF mem_redis_up h s, of 1800]
    by (simp add: PAGE_STATE_TTL_def)
qed

text \<open>
  Invalidating a company forgets its pages and only those. Without a page name, invalidation
  succeeds, afterwards no page of that user and company can be read, and the stored pages of
  every other user or company are as before.
\<close>

theorem company_invalidation_exact:
  assumes "redis_up rc view tick" and "plain uid" and "plain cid" and "no_glob uid" and "no_glob cid"
    and "invalidate_page_state rc uid cid None s = (b, s')"
  shows "b \<and> fst (get_page_state rc uid cid page s') = None \<and>
    (\<forall>u c p. plain u \<and> plain c \<and> (u, c) \<noteq> (uid, cid) \<longrightarrow> view s' (ps_build_key u c p) = view s (ps_build_key u c p))"
proof -
  let ?p = "''page_state:'' @ uid @ '':'' @ cid @ '':''"
  have "no_glob ?p" using assms(4,5) by (simp add: no_glob_def)
  then obtain t where t: "delete_pattern rc (?p @ ''*'') s = (True, t)"
    "\<forall>k. view t k = (if starts_with ?p k then None else view s k)"
    by (rule redis_up.delete_pattern_up [OF assms(1)])
  then have b: "b" "t = s'" using assms(6) by (simp_all add: invalidate_page_state_def given_def)
  have own: "view s' (ps_build_key uid cid page) = None"
    using t b ps_key_prefix [OF assms(2,3,2,3)] by simp
  have "fst (get_page_state rc uid cid page s') = None"
  proof (cases "validate_page page")
    case True
    show ?thesis
      using redis_up.get_page_state_up [OF assms(1) True plain_not_Nil [OF assms(3)]] own
      by (simp add: str_key_def str_at_def)
  qed (simp add: get_page_state_def)
  moreover have "\<forall>u c p. plain u \<and> plain c \<and> (u, c) \<noteq> (uid, cid) \<longrightarrow> view s' (ps_build_key u c p) = view s (ps_build_key u c p)"
    using t(2) b(2) ps_key_prefix [OF assms(2,3)] by auto
  ultimately show ?thesis using b by simp
qed

theorem company_invalidation_exact_witness:
  "\<exists>b s'. invalidate_page_state mem_redis ''u'' ''c'' None (snd (save_page_state mem_redis ''t'' ''u'' ''d'' ''hr'' ''m'' PNone 60
       (snd (save_page_state mem_redis ''t'' ''u'' ''c'' ''hr'' ''m'' PNone 60 empty_mem)))) = (b, s') \<and> b \<and>
     fst (get_page_state mem_redis ''u'' ''c'' ''hr'' s') = None \<and> mem_view s' (ps_build_key ''u'' ''d'' ''hr'') \<noteq> None"
proof -
  let ?s1 = "snd (save_page_state mem_redis ''t'' ''u'' ''c'' ''hr'' ''m'' PNone 60 empty_mem)"
  let ?s = "snd (save_page_state mem_redis ''t'' ''u'' ''d'' ''hr'' ''m'' PNone 60 ?s1)"
  obtain b s' where i: "invalidate_page_state mem_redis ''u'' ''c'' None ?s = (b, s')" by fastforce
  have h: "plain ''u''" "plain ''c''" "no_glob ''u''" "no_glob ''c''" by (simp_all add: plain_def no_glob_def)
  have v: "validate_page ''hr''" by (simp add: validate_page_def VALID_PAGES_def)
  have "mem_view ?s (ps_build_key ''u'' ''d'' ''hr'') \<noteq> None"
    by (rule redis_up.save_page_state_up [OF mem_redis_up v, of 60 "''t''" "''u''" "''d''" "''m''" PNone ?s1]) simp_all
  moreover have "plain ''d''" by (simp add: plain_def)
  ultimately show ?thesis
    using i company_invalidation_exact [OF mem_redis_up h i, of "''hr''"] h(1) by auto
qed

text \<open>
  The call in the module's usage notes passes the page before the company: whatever was saved,
  it finds nothing, because the company is then checked as a page name.
\<close>

lemma documented_call_misses:
  "\<not> validate_page company \<Longrightarrow> fst (get_page_state rc uid ''dashboard'' company s) = None"
  by (simp add: get_page_state_def)

end
