(* ===== verification/Balance_Service.thy ===== *)
theory Balance_Service
  imports Contextual_Publisher
begin

text \<open>
  \<open>BalanceService\<close> of \<open>src/app/balance_service.py\<close> and the read it falls back to,
  \<open>get_balance_info\<close> of \<open>src/app/firebase_providers.py\<close>. Firestore is the argument \<open>fs\<close>: the
  document at a path, \<open>None\<close> where it does not exist, or an exception. Amounts are exact; the
  margin 1.2 is 6/5. \<open>float\<close> of a string accepts an optional sign, digits and a decimal point;
  exponents, infinities and NaN are not part of the model and raise.
\<close>

section \<open>Definitions\<close>

definition COST_PER_ITEM :: "(string \<times> rat) list" where
  "COST_PER_ITEM = [(''router'', 1 / 2), (''apbookeeper'', 1), (''bankbookeeper'', 3 / 10), (''exbookeeper'', 0), (''onboarding'', 0)]"

definition CHAT_COST_PER_TURN :: rat where "CHAT_COST_PER_TURN = 1 / 20"
definition SAFETY_MARGIN :: rat where "SAFETY_MARGIN = 6 / 5"
definition CHAT_LOW_BALANCE_THRESHOLD :: rat where "CHAT_LOW_BALANCE_THRESHOLD = 1"

record BalanceCheckResult =
  sufficient :: bool
  current_balance :: rat
  required_balance :: rat
  estimated_cost :: rat
  missing_amount :: rat
  bcr_message :: string
  bcr_warning :: bool

subsection \<open>Numbers and text\<close>

definition decimal :: "string \<Rightarrow> rat result" where
  "decimal t =
     (case split_on CHR ''.'' t of
        [a] \<Rightarrow> if a \<noteq> [] \<and> list_all is_digit a then Inr (of_nat (digits_value a)) else Inl (ValueError t)
      | [a, b] \<Rightarrow> if a @ b \<noteq> [] \<and> list_all is_digit (a @ b)
                  then Inr (of_nat (digits_value (a @ b)) / 10 ^ length b) else Inl (ValueError t)
      | _ \<Rightarrow> Inl (ValueError t))"

fun py_float :: "pyval \<Rightarrow> rat result" where
  "py_float (PNum q) = Inr q"
| "py_float (PBool b) = Inr (if b then 1 else 0)"
| "py_float (PStr t) =
     (case py_strip t of
        c # cs \<Rightarrow> if c = CHR ''-'' then rbind (decimal cs) (\<lambda>q. Inr (- q))
                   else if c = CHR ''+'' then decimal cs else decimal (c # cs)
      | [] \<Rightarrow> Inl (ValueError t))"
| "py_float _ = Inl TypeError"

text \<open>\<open>f"{q:.2f}"\<close>.\<close>

definition fmt_2f :: "rat \<Rightarrow> string" where
  "fmt_2f q =
     (let cents = nat \<bar>round_half_even (q * 100)\<bar> in
      (if q < 0 then ''-'' else []) @ nat_str (cents div 100) @ ''.'' @
      [char_of (48 + cents mod 100 div 10), char_of (48 + cents mod 10)])"

subsection \<open>The balance document\<close>

fun collapse_slashes :: "string \<Rightarrow> string" where
  "collapse_slashes (x # y # xs) =
     (if x = CHR ''/'' \<and> y = CHR ''/'' then collapse_slashes (y # xs) else x # collapse_slashes (y # xs))"
| "collapse_slashes xs = xs"

definition normalize_mandate_path :: "string option \<Rightarrow> string option" where
  "normalize_mandate_path mandate_path =
     (if \<not> given mandate_path then mandate_path
      else Some (collapse_slashes (py_replace ''bo_clientss'' ''bo_clients'' (py_strip (the mandate_path)))))"

definition zero_balance :: pydict where
  "zero_balance = [(''current_balance'', PNum 0), (''current_expenses'', PNum 0), (''current_topping'', PNum 0)]"

type_synonym firestore = "string \<Rightarrow> pydict option result"

definition get_balance_info :: "firestore \<Rightarrow> string option \<Rightarrow> string option \<Rightarrow> pydict" where
  "get_balance_info fs mandate_path0 user_id0 =
     (let mandate_path = normalize_mandate_path mandate_path0;
          user_id = (if given mandate_path
                     then (case split_on CHR ''/'' (the mandate_path) of
                             _ # second # _ \<Rightarrow> Some second
                           | _ \<Rightarrow> None)
                     else user_id0)
      in if \<not> given user_id then zero_balance
         else
           case fs (''clients/'' @ the user_id @ ''/billing/current_balance'') of
             Inl _ \<Rightarrow> zero_balance
           | Inr None \<Rightarrow> zero_balance
           | Inr (Some balance_data) \<Rightarrow>
               (case rbind (py_float (dget_or balance_data ''current_balance'' (PNum 0))) (\<lambda>b.
                     rbind (py_float (dget_or balance_data ''current_expenses'' (PNum 0))) (\<lambda>e.
                     rbind (py_float (dget_or balance_data ''current_topping'' (PNum 0))) (\<lambda>t.
                       Inr [(''current_balance'', PNum b), (''current_expenses'', PNum e), (''current_topping'', PNum t)]))) of
                  Inl _ \<Rightarrow> zero_balance
                | Inr info \<Rightarrow> info))"

subsection \<open>BalanceService\<close>

definition balance_key :: "string \<Rightarrow> string" where
  "balance_key uid = ''user:'' @ uid @ '':balance''"

definition get_cached_balance :: "'s redis \<Rightarrow> string \<Rightarrow> 's \<Rightarrow> pyval \<times> 's" where
  "get_cached_balance rc uid s =
     (case r_get rc (balance_key uid) s of
        (Inl _, s1) \<Rightarrow> (PNone, s1)
      | (Inr None, s1) \<Rightarrow> (PNone, s1)
      | (Inr (Some raw), s1) \<Rightarrow> (case json_loads raw of Inl _ \<Rightarrow> (PNone, s1) | Inr v \<Rightarrow> (v, s1)))"

definition update_balance_cache :: "'s redis \<Rightarrow> string \<Rightarrow> pydict \<Rightarrow> 's \<Rightarrow> 's" where
  "update_balance_cache rc uid balance_data s =
     snd (r_setex rc (balance_key uid) TTL_USER_BALANCE (json_dumps (PDict balance_data)) s)"

definition invalidate_balance_cache :: "'s redis \<Rightarrow> string \<Rightarrow> 's \<Rightarrow> 's" where
  "invalidate_balance_cache rc uid s = snd (r_delete rc [balance_key uid] s)"

text \<open>The decision of \<open>check_balance\<close> on the balance information it has found.\<close>

definition balance_decision :: "pyval \<Rightarrow> rat \<Rightarrow> string \<Rightarrow> BalanceCheckResult result" where
  "balance_decision balance_info cost operation =
     rbind (case balance_info of PDict d \<Rightarrow> py_float (dget_or d ''current_balance'' (PNum 0)) | _ \<Rightarrow> Inl AttributeError)
       (\<lambda>current.
          let required = cost * SAFETY_MARGIN;
              suff = (current \<ge> required);
              missing = max 0 (required - current);
              warning = (\<not> suff \<or> current < CHAT_LOW_BALANCE_THRESHOLD);
              message = (if suff then []
                         else ''Insufficient balance for '' @ operation @ ''. Current: $'' @ fmt_2f current @
                              '', required: $'' @ fmt_2f required @ ''. Please top up your account.'')
          in Inr \<lparr>sufficient = suff, current_balance = current, required_balance = required,
                  estimated_cost = cost, missing_amount = missing, bcr_message = message, bcr_warning = warning\<rparr>)"

definition failsafe_result :: "rat \<Rightarrow> BalanceCheckResult" where
  "failsafe_result cost =
     \<lparr>sufficient = True, current_balance = 0, required_balance = 0, estimated_cost = cost, missing_amount = 0,
      bcr_message = ''Unable to verify balance. Operation allowed by default.'', bcr_warning = False\<rparr>"

definition check_balance ::
  "'s redis \<Rightarrow> firestore \<Rightarrow> string \<Rightarrow> string option \<Rightarrow> rat \<Rightarrow> string \<Rightarrow> 's \<Rightarrow> BalanceCheckResult \<times> 's" where
  "check_balance rc fs uid mandate_path cost operation s =
     (case get_cached_balance rc uid s of (cached, s1) \<Rightarrow>
      let (balance_info, s2) =
            (if cached \<noteq> PNone then (cached, s1)
             else let info = get_balance_info fs mandate_path (Some uid)
                  in (PDict info, update_balance_cache rc uid info s1))
      in case balance_decision balance_info cost operation of
           Inl _ \<Rightarrow> (failsafe_result cost, s2)
         | Inr r \<Rightarrow> (r, s2))"

definition refresh_and_broadcast ::
  "'s redis \<Rightarrow> hub \<Rightarrow> firestore \<Rightarrow> string \<Rightarrow> string \<Rightarrow> 's \<Rightarrow> pydict \<times> broadcasts \<times> 's" where
  "refresh_and_broadcast rc h fs uid mandate_path s =
     (let balance_info = get_balance_info fs (Some mandate_path) (Some uid);
          s1 = update_balance_cache rc uid balance_info s;
          payload = [(''action'', PStr ''update''),
            (''data'', PDict [(''currentBalance'', dget_or balance_info ''current_balance'' (PNum 0)),
               (''currentTopping'', dget_or balance_info ''current_topping'' (PNum 0)),
               (''currentExpenses'', dget_or balance_info ''current_expenses'' (PNum 0))])]
      in case publish_user_event rc h uid ''balance.balance_update'' payload (Some ''balance'') s1 of
           (_, out, s2) \<Rightarrow> (balance_info, out, s2))"

section \<open>Library lemmas\<close>

text \<open>\<open>get_balance_info\<close> always answers with three numbers.\<close>

definition balance_info_ok :: "pydict \<Rightarrow> bool" where
  "balance_info_ok d \<longleftrightarrow> (\<exists>b e t. d = [(''current_balance'', PNum b), (''current_expenses'', PNum e), (''current_topping'', PNum t)])"

definition balance_of :: "pydict \<Rightarrow> rat" where
  "balance_of d = (case dget d ''current_balance'' of PNum q \<Rightarrow> q | _ \<Rightarrow> 0)"

lemma get_balance_info_ok: "balance_info_ok (get_balance_info fs mp u)"
  by (auto simp: get_balance_info_def balance_info_ok_def zero_balance_def Let_def rbind_def
      split: sum.splits option.splits list.splits)

lemma balance_decision_spec:
  assumes "map_of d ''current_balance'' = Some (PNum b)"
  shows "\<exists>r. balance_decision (PDict d) cost op = Inr r \<and> current_balance r = b \<and>
    required_balance r = 6 / 5 * cost \<and> estimated_cost r = cost \<and>
    (sufficient r \<longleftrightarrow> 6 / 5 * cost \<le> b) \<and> missing_amount r = max 0 (6 / 5 * cost - b) \<and>
    (bcr_warning r \<longleftrightarrow> \<not> sufficient r \<or> b < 1) \<and> (bcr_message r = [] \<longleftrightarrow> sufficient r)"
  using assms
  by (simp add: balance_decision_def rbind_def dget_or_def SAFETY_MARGIN_def CHAT_LOW_BALANCE_THRESHOLD_def mult.commute Let_def)

context redis_up
begin

lemma update_balance_cache_up:
  "view (update_balance_cache rc uid d s) = (view s)(balance_key uid \<mapsto> (VStr (Json (PDict d)), Some 300))"
proof -
  have "0 < TTL_USER_BALANCE" by (simp add: ttl_defs)
  then obtain s' where "r_setex rc (balance_key uid) TTL_USER_BALANCE (json_dumps (PDict d)) s = (Inr (), s')"
    "view s' = (view s)(balance_key uid \<mapsto> (VStr (json_dumps (PDict d)), Some TTL_USER_BALANCE))"
    by (rule setex_up)
  then show ?thesis by (simp add: update_balance_cache_def json_dumps_def ttl_defs)
qed

lemma get_cached_balance_up:
  assumes "str_key (view s) (balance_key uid)"
  obtains s' where "get_cached_balance rc uid s =
      ((case str_at (view s) (balance_key uid) of Some (Json v) \<Rightarrow> v | _ \<Rightarrow> PNone), s')" "view s' = view s"
proof -
  obtain s' where "r_get rc (balance_key uid) s = (Inr (str_at (view s) (balance_key uid)), s')" "view s' = view s"
    by (rule get_up [OF assms])
  then show thesis
    using that [of s'] by (simp add: get_cached_balance_def split: option.splits text_val.splits)
qed

lemma check_balance_hit:
  assumes "view s (balance_key uid) = Some (VStr (Json (PDict d)), e)"
    and "map_of d ''current_balance'' = Some (PNum b)"
    and "check_balance rc fs uid mp cost op s = (r, s')"
  shows "balance_decision (PDict d) cost op = Inr r" and "view s' = view s"
proof -
  have sk: "str_key (view s) (balance_key uid)" and sa: "str_at (view s) (balance_key uid) = Some (Json (PDict d))"
    using assms(1) by (simp_all add: str_key_def str_at_def)
  obtain t where t: "get_cached_balance rc uid s =
      ((case str_at (view s) (balance_key uid) of Some (Json v) \<Rightarrow> v | _ \<Rightarrow> PNone), t)" "view t = view s"
    by (rule get_cached_balance_up [OF sk])
  obtain r' where "balance_decision (PDict d) cost op = Inr r'" using balance_decision_spec [OF assms(2)] by blast
  then show "balance_decision (PDict d) cost op = Inr r" and "view s' = view s"
    using t sa assms(3) by (simp_all add: check_balance_def)
qed

lemma check_balance_miss:
  assumes "view s (balance_key uid) = None" and "check_balance rc fs uid mp cost op s = (r, s')"
  shows "balance_decision (PDict (get_balance_info fs mp (Some uid))) cost op = Inr r"
    and "view s' = (view s)(balance_key uid \<mapsto> (VStr (Json (PDict (get_balance_info fs mp (Some uid)))), Some 300))"
proof -
  have sk: "str_key (view s) (balance_key uid)" and sa: "str_at (view s) (balance_key uid) = None"
    using assms(1) by (simp_all add: str_key_def str_at_def)
  obtain t where t: "get_cached_balance rc uid s =
      ((case str_at (view s) (balance_key uid) of Some (Json v) \<Rightarrow> v | _ \<Rightarrow> PNone), t)" "view t = view s"
    by (rule get_cached_balance_up [OF sk])
  have "\<exists>b. map_of (get_balance_info fs mp (Some uid)) ''current_balance'' = Some (PNum b)"
    using get_balance_info_ok [of fs mp "Some uid"] by (auto simp: balance_info_ok_def)
  then obtain r' where "balance_decision (PDict (get_balance_info fs mp (Some uid))) cost op = Inr r'"
    using balance_decision_spec by blast
  then show "balance_decision (PDict (get_balance_info fs mp (Some uid))) cost op = Inr r"
    and "view s' = (view s)(balance_key uid \<mapsto> (VStr (Json (PDict (get_balance_info fs mp (Some uid)))), Some 300))"
    using t sa assms(2) by (auto simp: check_balance_def Let_def update_balance_cache_up)
qed

lemma refresh_up:
  assumes "ctx_keys_ok (view s) uid" and "refresh_and_broadcast rc h fs uid mp s = (info, out, s')"
  shows "info = get_balance_info fs (Some mp) (Some uid)"
    and "view s' = (view s)(balance_key uid \<mapsto>
      (VStr (Json (PDict (dset info ''items'' (PList [])))), Some TTL_USER_PROFILE))"
proof -
  let ?i = "get_balance_info fs (Some mp) (Some uid)"
  let ?s1 = "update_balance_cache rc uid ?i s"
  let ?p = "[(''action'', PStr ''update''),
            (''data'', PDict [(''currentBalance'', dget_or ?i ''current_balance'' (PNum 0)),
               (''currentTopping'', dget_or ?i ''current_topping'' (PNum 0)),
               (''currentExpenses'', dget_or ?i ''current_expenses'' (PNum 0))])]"
  note v1 = update_balance_cache_up [of uid ?i s]
  have c: "ctx_keys_ok (view ?s1) uid" using assms(1) by (simp add: v1 ctx_keys_ok_def)
  have k: "get_cache_key USER uid None None (Some ''balance'') = Inr (balance_key uid)"
    by (simp add: given_def balance_key_def)
  have sk: "str_key (view ?s1) (balance_key uid)" by (simp add: v1)
  obtain b o' t where t: "publish_user_event rc h uid ''balance.balance_update'' ?p (Some ''balance'') ?s1 = (b, o', t)"
    "view t = cache_after (view ?s1) (balance_key uid) ?p TTL_USER_PROFILE"
    by (rule publish_user_up [OF c k sk])
  show i: "info = ?i" using assms(2) t(1) by (simp add: refresh_and_broadcast_def Let_def)
  have "s' = t" using assms(2) t(1) by (simp add: refresh_and_broadcast_def Let_def)
  moreover have "dget_or ?i ''items'' (PList []) = PList []"
    using get_balance_info_ok [of fs "Some mp" "Some uid"] by (auto simp: balance_info_ok_def)
  ultimately show "view s' = (view s)(balance_key uid \<mapsto>
      (VStr (Json (PDict (dset info ''items'' (PList [])))), Some TTL_USER_PROFILE))"
    using t(2) by (simp add: i v1 cache_after_def cached_value_def cache_apply_def Let_def rbind_def)
qed

end

section \<open>Properties\<close>

text \<open>
  The balance check. On a cached balance, or with an empty cache on the balance Firestore
  reports, the operation is allowed exactly when the balance covers the estimated cost plus a
  fifth; the missing amount is what the balance lacks of that and zero when it is allowed; the
  warning is raised when it is refused or the balance is below one; and afterwards the cache
  holds the balance that was used.
\<close>

theorem check_balance_decides:
  assumes "redis_up rc view tick"
    and "view s (balance_key uid) = None \<and> d = get_balance_info fs mp (Some uid) \<or>
         (\<exists>e. view s (balance_key uid) = Some (VStr (Json (PDict d)), e))"
    and "map_of d ''current_balance'' = Some (PNum b)"
    and "check_balance rc fs uid mp cost op s = (r, s')"
  shows "current_balance r = b \<and> (sufficient r \<longleftrightarrow> 6 / 5 * cost \<le> b) \<and>
    missing_amount r = max 0 (6 / 5 * cost - b) \<and> (sufficient r \<longleftrightarrow> missing_amount r = 0) \<and>
    (bcr_warning r \<longleftrightarrow> \<not> sufficient r \<or> b < 1) \<and>
    str_at (view s') (balance_key uid) = Some (Json (PDict d))"
proof -
  consider (miss) "view s (balance_key uid) = None" "d = get_balance_info fs mp (Some uid)"
    | (hit) e where "view s (balance_key uid) = Some (VStr (Json (PDict d)), e)" using assms(2) by (elim disjE conjE exE) simp_all
  then have dec: "balance_decision (PDict d) cost op = Inr r \<and> str_at (view s') (balance_key uid) = Some (Json (PDict d))"
  proof cases
    case miss
    then show ?thesis using redis_up.check_balance_miss [OF assms(1) miss(1) assms(4)] by simp
  next
    case hit
    then show ?thesis using redis_up.check_balance_hit [OF assms(1) hit assms(3,4)] by (simp add: str_at_def)
  qed
  obtain r' where "balance_decision (PDict d) cost op = Inr r'" "current_balance r' = b"
    "sufficient r' \<longleftrightarrow> 6 / 5 * cost \<le> b" "missing_amount r' = max 0 (6 / 5 * cost - b)"
    "bcr_warning r' \<longleftrightarrow> \<not> sufficient r' \<or> b < 1"
    using balance_decision_spec [OF assms(3), of cost op] by blast
  then show ?thesis using dec by (auto simp: max_def)
qed

definition demo_fs :: firestore where
  "demo_fs path = (if path = ''clients/u/billing/current_balance'' then Inr (Some [(''current_balance'', PStr ''2.40'')]) else Inr None)"

lemma demo_balance:
  "get_balance_info demo_fs None (Some ''u'') =
     [(''current_balance'', PNum (12 / 5)), (''current_expenses'', PNum 0), (''current_topping'', PNum 0)]"
  by code_simp

theorem check_balance_decides_witness:
  "\<exists>r s'. check_balance mem_redis demo_fs ''u'' None 2 ''chat'' empty_mem = (r, s') \<and> sufficient r \<and> missing_amount r = 0"
proof -
  obtain r s' where c: "check_balance mem_redis demo_fs ''u'' None 2 ''chat'' empty_mem = (r, s')" by fastforce
  have v: "mem_view empty_mem (balance_key ''u'') = None \<and>
      get_balance_info demo_fs None (Some ''u'') = get_balance_info demo_fs None (Some ''u'') \<or>
      (\<exists>e. mem_view empty_mem (balance_key ''u'') = Some (VStr (Json (PDict (get_balance_info demo_fs None (Some ''u'')))), e))"
    by (simp add: mem_view_def empty_mem_def)
  have b: "map_of (get_balance_info demo_fs None (Some ''u'')) ''current_balance'' = Some (PNum (12 / 5))"
    by (simp add: demo_balance)
  from check_balance_decides [OF mem_redis_up v b c] c show ?thesis by simp
qed

text \<open>
  The announced fail-safe does not cover Firestore. When Firestore raises and nothing is
  cached, the read swallows the exception and answers zero, so any operation with a cost is
  refused, and the zero stays in the cache for the next five minutes.
\<close>

theorem firestore_failure_refuses:
  assumes "redis_up rc view tick" and "view s (balance_key uid) = None" and "\<And>path. isl (fs path)" and "0 < cost"
    and "check_balance rc fs uid mp cost op s = (r, s')"
  shows "\<not> sufficient r \<and> current_balance r = 0 \<and>
    view s' (balance_key uid) = Some (VStr (Json (PDict zero_balance)), Some 300)"
proof -
  have "\<exists>e. fs path = Inl e" for path using assms(3) [of path] by (auto simp: isl_def)
  then obtain f where "\<And>path. fs path = Inl (f path)" by metis
  then have z: "get_balance_info fs mp (Some uid) = zero_balance" by (simp add: get_balance_info_def Let_def)
  have m: "map_of zero_balance ''current_balance'' = Some (PNum 0)" by (simp add: zero_balance_def)
  from redis_up.check_balance_miss [OF assms(1,2,5)] z
  have dec: "balance_decision (PDict zero_balance) cost op = Inr r"
    and v: "view s' = (view s)(balance_key uid \<mapsto> (VStr (Json (PDict zero_balance)), Some 300))" by simp_all
  from balance_decision_spec [OF m, of cost op] dec
  have "current_balance r = 0" "sufficient r \<longleftrightarrow> 6 / 5 * cost \<le> 0" by auto
  then show ?thesis using v assms(4) by auto
qed

theorem firestore_failure_refuses_witness:
  "\<exists>r s'. check_balance mem_redis (\<lambda>_. Inl (ServiceError ''unavailable'')) ''u'' None 1 ''job'' empty_mem = (r, s') \<and> \<not> sufficient r"
proof -
  obtain r s' where c: "check_balance mem_redis (\<lambda>_. Inl (ServiceError ''unavailable'')) ''u'' None 1 ''job'' empty_mem = (r, s')"
    by fastforce
  have v: "mem_view empty_mem (balance_key ''u'') = None" by (simp add: mem_view_def empty_mem_def)
  have f: "isl ((\<lambda>_. Inl (ServiceError ''unavailable'')) path :: pydict option result)" for path :: string by simp
  from firestore_failure_refuses [OF mem_redis_up v f _ c] c show ?thesis by simp
qed

text \<open>
  A refreshed balance outlives its five minutes. Publishing the refreshed balance goes through
  the cache of user events under the same key, which adds an empty list of items to it and
  renews it for a day: for the rest of that day the check uses the balance of the refresh,
  whatever Firestore says by then.
\<close>

theorem refreshed_balance_goes_stale:
  assumes "redis_up rc view tick" and "ctx_keys_ok (view s) uid"
    and "refresh_and_broadcast rc h fs uid mp s = (info, out, s1)"
    and "t < 86400"
    and "check_balance rc fs' uid mp' cost op (tick t s1) = (r, s2)"
  shows "current_balance r = balance_of info \<and> info = get_balance_info fs (Some mp) (Some uid)"
proof -
  let ?d = "dset info ''items'' (PList [])"
  note i = redis_up.refresh_up [OF assms(1-3)]
  obtain b e p where b: "info = [(''current_balance'', PNum b), (''current_expenses'', PNum e), (''current_topping'', PNum p)]"
    using get_balance_info_ok [of fs "Some mp" "Some uid"] i(1) by (auto simp: balance_info_ok_def)
  have "redis_server rc view tick" using assms(1) by (simp add: redis_up_def)
  then have "view (tick t s1) (balance_key uid) = age t (view s1 (balance_key uid))" by (rule redis_server.tick_law)
  then have v: "view (tick t s1) (balance_key uid) = Some (VStr (Json (PDict ?d)), Some (86400 - t))"
    using assms(4) by (simp add: i(2) age_def ttl_defs)
  have m: "map_of ?d ''current_balance'' = Some (PNum b)" by (simp add: b)
  have "balance_decision (PDict ?d) cost op = Inr r" by (rule redis_up.check_balance_hit [OF assms(1) v m assms(5)])
  then have "current_balance r = b" using balance_decision_spec [OF m, of cost op] by auto
  moreover have "balance_of info = b" by (simp add: b balance_of_def)
  ultimately show ?thesis using i(1) by simp
qed

theorem refreshed_balance_goes_stale_witness:
  "\<exists>info out s1 r s2. refresh_and_broadcast mem_redis init_hub demo_fs ''u'' [] empty_mem = (info, out, s1) \<and>
     check_balance mem_redis (\<lambda>_. Inr None) ''u'' None 1 ''job'' (mem_tick 3600 s1) = (r, s2) \<and>
     current_balance r = 12 / 5 \<and> balance_of (get_balance_info (\<lambda>_. Inr None) None (Some ''u'')) = 0"
proof -
  obtain info out s1 where 1: "refresh_and_broadcast mem_redis init_hub demo_fs ''u'' [] empty_mem = (info, out, s1)"
    by (metis prod_cases3)
  obtain r s2 where 2: "check_balance mem_redis (\<lambda>_. Inr None) ''u'' None 1 ''job'' (mem_tick 3600 s1) = (r, s2)" by fastforce
  have c: "ctx_keys_ok (mem_view empty_mem) ''u''" by (simp add: ctx_keys_ok_def str_key_def mem_view_def empty_mem_def)
  have "balance_of (get_balance_info demo_fs (Some []) (Some ''u'')) = 12 / 5" by code_simp
  moreover have "balance_of (get_balance_info (\<lambda>_. Inr None) None (Some ''u'')) = 0" by code_simp
  ultimately show ?thesis using 1 2 refreshed_balance_goes_stale [OF mem_redis_up c 1 _ 2] by auto
qed

end
