(* ===== verification/Cron_Scheduler.thy ===== *)
theory Cron_Scheduler
  imports Redis_Namespaces
begin

text \<open>
  \<open>src/app/cron_scheduler.py\<close>: the distributed lock in Redis and the execution of due tasks by
  several instances of the service. What the scheduler calls outside this module (Firestore, the
  realtime database, the queue of the language-model workers) is the record \<open>services\<close> over a state
  \<open>'w\<close>. Identifiers are strings; the instant \<open>triggered_at\<close> is its ISO text; the
  random identifiers of an instance and of an execution are arguments.
\<close>

section \<open>Definitions\<close>

subsection \<open>DistributedLock\<close>

definition LOCK_DEFAULT_TTL :: nat where
  "LOCK_DEFAULT_TTL = 300"

definition lock_key :: "string \<Rightarrow> string" where
  "lock_key task_id = ''lock:cron:'' @ task_id"

definition lock_ttl :: "nat option \<Rightarrow> nat" where
  "lock_ttl ttl = (case ttl of Some n \<Rightarrow> if n \<noteq> 0 then n else LOCK_DEFAULT_TTL | None \<Rightarrow> LOCK_DEFAULT_TTL)"

definition acquire :: "'s redis \<Rightarrow> string \<Rightarrow> string \<Rightarrow> nat option \<Rightarrow> 's \<Rightarrow> bool \<times> 's" where
  "acquire rc task_id instance_id ttl =
     stry (sbind (r_set_nx_ex rc (lock_key task_id) (Raw instance_id) (lock_ttl ttl)) (\<lambda>result.
             if result then sret True
             else sbind (r_get rc (lock_key task_id)) (\<lambda>current_holder. sret False)))
       (\<lambda>_. False)"

text \<open>
  Releasing is two commands, between which other instances run: the read of the key with the
  comparison of its value, and the deletion. \<open>release\<close> is their composition.
\<close>

definition release_check :: "'s redis \<Rightarrow> string \<Rightarrow> string \<Rightarrow> 's \<Rightarrow> bool result \<times> 's" where
  "release_check rc task_id instance_id =
     sbind (r_get rc (lock_key task_id)) (\<lambda>current_holder. sret (current_holder = Some (Raw instance_id)))"

definition release_delete :: "'s redis \<Rightarrow> string \<Rightarrow> 's \<Rightarrow> bool result \<times> 's" where
  "release_delete rc task_id = sbind (r_delete rc [lock_key task_id]) (\<lambda>_. sret True)"

definition release :: "'s redis \<Rightarrow> string \<Rightarrow> string \<Rightarrow> 's \<Rightarrow> bool \<times> 's" where
  "release rc task_id instance_id =
     stry (sbind (release_check rc task_id instance_id) (\<lambda>held.
             if held then release_delete rc task_id else sret False))
       (\<lambda>_. False)"

definition extend_lock :: "'s redis \<Rightarrow> string \<Rightarrow> string \<Rightarrow> nat option \<Rightarrow> 's \<Rightarrow> bool \<times> 's" where
  "extend_lock rc task_id instance_id ttl =
     stry (sbind (r_get rc (lock_key task_id)) (\<lambda>current_holder.
             if current_holder = Some (Raw instance_id)
             then sbind (r_expire rc (lock_key task_id) (lock_ttl ttl)) (\<lambda>_. sret True)
             else sret False))
       (\<lambda>_. False)"

definition is_locked :: "'s redis \<Rightarrow> string \<Rightarrow> 's \<Rightarrow> bool result \<times> 's" where
  "is_locked rc task_id = sbind (r_exists rc (lock_key task_id)) (\<lambda>n. sret (n \<noteq> 0))"

subsection \<open>Execution of a task\<close>

record 'w services =
  svc_tasks_ready :: "string \<Rightarrow> 'w \<Rightarrow> pydict list result \<times> 'w"
  svc_create_task_execution :: "string \<Rightarrow> string \<Rightarrow> pydict \<Rightarrow> 'w \<Rightarrow> unit result \<times> 'w"
  svc_get_chat :: "string \<Rightarrow> 'w \<Rightarrow> pyval result \<times> 'w"
  svc_create_chat :: "string \<Rightarrow> string \<Rightarrow> pyval \<Rightarrow> string \<Rightarrow> 'w \<Rightarrow> pydict result \<times> 'w"
  svc_enqueue :: "string \<Rightarrow> string \<Rightarrow> string \<Rightarrow> pydict \<Rightarrow> 'w \<Rightarrow> unit result \<times> 'w"
  svc_next_execution :: "pyval \<Rightarrow> pyval \<Rightarrow> string \<Rightarrow> 'w \<Rightarrow> (pyval \<times> pyval) result \<times> 'w"
  svc_update_task :: "string \<Rightarrow> string \<Rightarrow> pydict \<Rightarrow> 'w \<Rightarrow> unit result \<times> 'w"
  svc_update_scheduler :: "string \<Rightarrow> pydict \<Rightarrow> 'w \<Rightarrow> unit result \<times> 'w"
  svc_delete_job :: "string \<Rightarrow> 'w \<Rightarrow> unit result \<times> 'w"

text \<open>\<open>d[k]\<close> where the value is an identifier.\<close>

definition str_item :: "pydict \<Rightarrow> string \<Rightarrow> string result" where
  "str_item d k = (case map_of d k of None \<Rightarrow> Inl (KeyError k) | Some (PStr v) \<Rightarrow> Inr v | Some _ \<Rightarrow> Inl TypeError)"

definition job_id_of :: "string \<Rightarrow> string \<Rightarrow> string" where
  "job_id_of mandate_path task_id =
     map (\<lambda>c. if c = CHR ''/'' then CHR ''_'' else c) mandate_path @ ''_'' @ task_id"

definition py_add_one :: "pyval \<Rightarrow> pyval result" where
  "py_add_one v = (case v of PNum q \<Rightarrow> Inr (PNum (q + 1)) | PBool b \<Rightarrow> Inr (PNum (if b then 2 else 1)) | _ \<Rightarrow> Inl TypeError)"

definition update_scheduled_task :: "'w services \<Rightarrow> pydict \<Rightarrow> string \<Rightarrow> 'w \<Rightarrow> unit \<times> 'w" where
  "update_scheduled_task sv task_data triggered_at =
     stry (sbind (slift (str_item task_data ''task_id'')) (\<lambda>task_id.
           sbind (slift (str_item task_data ''mandate_path'')) (\<lambda>mandate_path.
           sbind (slift (case dget_or task_data ''schedule'' (PDict []) of
                           PDict sch \<Rightarrow> Inr (dget sch ''cron_expression'', dget sch ''timezone'')
                         | _ \<Rightarrow> Inl AttributeError)) (\<lambda>(cron_expr, timezone_str).
             if \<not> truthy cron_expr \<or> \<not> truthy timezone_str then sret ()
             else sbind (svc_next_execution sv cron_expr timezone_str triggered_at) (\<lambda>(next_local, next_utc).
               if \<not> truthy next_local \<or> \<not> truthy next_utc then sret ()
               else sbind (slift (py_add_one (dget_or task_data ''execution_count'' (PNum 0)))) (\<lambda>count.
                    sbind (svc_update_task sv mandate_path task_id
                       [(''schedule.next_execution_local_time'', next_local), (''schedule.next_execution_utc'', next_utc),
                        (''execution_count'', count)]) (\<lambda>_.
                    svc_update_scheduler sv (job_id_of mandate_path task_id)
                       [(''next_execution_local_time'', next_local), (''next_execution_utc'', next_utc),
                        (''updated_at'', PStr ''SERVER_TIMESTAMP'')])))))))
       (\<lambda>_. ())"

definition disable_one_time_task :: "'w services \<Rightarrow> pydict \<Rightarrow> string \<Rightarrow> 'w \<Rightarrow> unit \<times> 'w" where
  "disable_one_time_task sv task_data triggered_at =
     stry (sbind (slift (str_item task_data ''task_id'')) (\<lambda>task_id.
           sbind (slift (str_item task_data ''mandate_path'')) (\<lambda>mandate_path.
           sbind (svc_update_task sv mandate_path task_id
              [(''enabled'', PBool False), (''status'', PStr ''completed''), (''completed_at'', PStr triggered_at)]) (\<lambda>_.
           svc_delete_job sv (job_id_of mandate_path task_id)))))
       (\<lambda>_. ())"

text \<open>The default title \<open>"Tache planifiee"\<close>, with its accents, in UTF-8.\<close>

definition DEFAULT_TITLE :: string where
  "DEFAULT_TITLE = ''T'' @ [CHR 0xC3, CHR 0xA2] @ ''che planifi'' @ [CHR 0xC3, CHR 0xA9] @ ''e''"

text \<open>Steps 1 to 5, once the lock is held.\<close>

definition run_task_steps :: "'w services \<Rightarrow> string \<Rightarrow> pydict \<Rightarrow> string \<Rightarrow> 'w \<Rightarrow> unit result \<times> 'w" where
  "run_task_steps sv execution_id task_data triggered_at =
     sbind (slift (str_item task_data ''task_id'')) (\<lambda>task_id.
     sbind (slift (str_item task_data ''user_id'')) (\<lambda>user_id.
     sbind (slift (str_item task_data ''company_id'')) (\<lambda>company_id.
     sbind (slift (str_item task_data ''mandate_path'')) (\<lambda>mandate_path.
     let thread_key = task_id;
         execution_data = [(''execution_id'', PStr execution_id), (''task_id'', PStr task_id),
           (''thread_key'', PStr thread_key), (''status'', PStr ''running''), (''started_at'', PStr triggered_at),
           (''workflow_checklist'', PNone), (''lpt_tasks'', PDict [])]
     in sbind (svc_create_task_execution sv mandate_path task_id execution_data) (\<lambda>_.
        sbind (svc_get_chat sv (company_id @ ''/chats/'' @ thread_key)) (\<lambda>existing_chat.
        sbind (if truthy existing_chat then sret ()
               else sbind (slift (case dget_or task_data ''mission'' (PDict []) of
                                    PDict m \<Rightarrow> Inr (dget_or m ''title'' (PStr DEFAULT_TITLE))
                                  | _ \<Rightarrow> Inl AttributeError)) (\<lambda>mission_title.
                    sbind (svc_create_chat sv user_id company_id mission_title thread_key) (\<lambda>chat_result.
                    if truthy (dget chat_result ''success'') then sret ()
                    else sraise (ValueError ''chat'')))) (\<lambda>_.
        sbind (svc_enqueue sv user_id company_id thread_key (dset task_data ''execution_id'' (PStr execution_id))) (\<lambda>_.
        \<lambda>w. case map_of task_data ''execution_plan'' of
               Some (PStr plan) \<Rightarrow>
                 if plan = ''SCHEDULED'' then (Inr (), snd (update_scheduled_task sv task_data triggered_at w))
                 else if plan = ''ONE_TIME'' then (Inr (), snd (disable_one_time_task sv task_data triggered_at w))
                 else (Inr (), w)
             | _ \<Rightarrow> (Inr (), w))))))))) "

text \<open>The five keys read before the lock is taken; a missing one raises.\<close>

definition task_keys :: "string list" where
  "task_keys = [''task_id'', ''user_id'', ''company_id'', ''mandate_path'', ''execution_plan'']"

definition execute_task ::
  "'s redis \<Rightarrow> 'w services \<Rightarrow> string \<Rightarrow> string \<Rightarrow> pydict \<Rightarrow> string \<Rightarrow> 's \<times> 'w \<Rightarrow> 's \<times> 'w" where
  "execute_task rc sv instance_id execution_id task_data triggered_at sw =
     (case sw of (s, w) \<Rightarrow>
      let (s1, w1) =
            (if \<exists>k \<in> set task_keys. map_of task_data k = None then (s, w)
             else case str_item task_data ''task_id'' of
                    Inl _ \<Rightarrow> (s, w)
                  | Inr task_id \<Rightarrow>
                      (case acquire rc task_id instance_id None s of
                         (False, s1) \<Rightarrow> (s1, w)
                       | (True, s1) \<Rightarrow> (s1, snd (run_task_steps sv execution_id task_data triggered_at w))));
          final_id = (case dget_or task_data ''task_id'' (PStr ''unknown'') of PStr t \<Rightarrow> t | _ \<Rightarrow> ''unknown'')
      in (snd (release rc final_id instance_id s1), w1))"

fun execute_all ::
  "'s redis \<Rightarrow> 'w services \<Rightarrow> string \<Rightarrow> (nat \<Rightarrow> string) \<Rightarrow> pydict list \<Rightarrow> string \<Rightarrow> 's \<times> 'w \<Rightarrow> 's \<times> 'w" where
  "execute_all rc sv instance_id execution_id [] now sw = sw"
| "execute_all rc sv instance_id execution_id (t # ts) now sw =
     execute_all rc sv instance_id execution_id ts now
       (execute_task rc sv instance_id (execution_id (length ts)) t now sw)"

definition check_and_execute_tasks ::
  "'s redis \<Rightarrow> 'w services \<Rightarrow> string \<Rightarrow> (nat \<Rightarrow> string) \<Rightarrow> string \<Rightarrow> 's \<times> 'w \<Rightarrow> 's \<times> 'w" where
  "check_and_execute_tasks rc sv instance_id execution_id now_utc sw =
     (case sw of (s, w) \<Rightarrow>
      case svc_tasks_ready sv now_utc w of
        (Inl _, w1) \<Rightarrow> (s, w1)
      | (Inr tasks_ready, w1) \<Rightarrow> execute_all rc sv instance_id execution_id tasks_ready now_utc (s, w1))"

subsection \<open>The scheduler object\<close>

record scheduler =
  check_interval :: nat
  running :: bool
  loop_task :: bool

definition new_scheduler :: "nat \<Rightarrow> scheduler" where
  "new_scheduler interval = \<lparr>check_interval = interval, running = False, loop_task = False\<rparr>"

definition start :: "scheduler \<Rightarrow> scheduler" where
  "start sc = (if running sc then sc else sc\<lparr>running := True, loop_task := True\<rparr>)"

definition stop :: "scheduler \<Rightarrow> scheduler" where
  "stop sc = (if \<not> running sc then sc else sc\<lparr>running := False\<rparr>)"

section \<open>Library lemmas\<close>

definition holder :: "rview \<Rightarrow> string \<Rightarrow> text_val option" where
  "holder vw task_id = str_at vw (lock_key task_id)"

lemma lock_ttl_pos: "0 < lock_ttl ttl"
  by (simp add: lock_ttl_def LOCK_DEFAULT_TTL_def split: option.split)

context redis_up
begin

lemma acquire_up:
  assumes "str_key (view s) (lock_key t)"
  obtains s' where "acquire rc t i ttl s = (view s (lock_key t) = None, s')"
    "view s' = (if view s (lock_key t) = None then (view s)(lock_key t \<mapsto> (VStr (Raw i), Some (lock_ttl ttl))) else view s)"
proof -
  let ?k = "lock_key t"
  obtain s1 where 1: "r_set_nx_ex rc ?k (Raw i) (lock_ttl ttl) s = (Inr (view s ?k = None), s1)"
    "view s1 = (if view s ?k = None then (view s)(?k \<mapsto> (VStr (Raw i), Some (lock_ttl ttl))) else view s)"
    by (rule set_nx_up [OF lock_ttl_pos])
  show thesis
  proof (cases "view s ?k = None")
    case True
    then show thesis using that [of s1] 1 by (simp add: acquire_def seq_defs)
  next
    case False
    then have "str_key (view s1) ?k" using assms 1(2) by simp
    then obtain s2 where "r_get rc ?k s1 = (Inr (str_at (view s1) ?k), s2)" "view s2 = view s1" by (rule get_up)
    then show thesis using that [of s2] 1 False by (simp add: acquire_def seq_defs)
  qed
qed

lemma release_check_up:
  assumes "str_key (view s) (lock_key t)"
  obtains s' where "release_check rc t i s = (Inr (holder (view s) t = Some (Raw i)), s')" "view s' = view s"
proof -
  obtain s1 where "r_get rc (lock_key t) s = (Inr (str_at (view s) (lock_key t)), s1)" "view s1 = view s"
    by (rule get_up [OF assms])
  then show thesis using that [of s1] by (simp add: release_check_def seq_defs holder_def)
qed

lemma release_delete_up:
  obtains s' where "release_delete rc t s = (Inr True, s')" "view s' = (view s)(lock_key t := None)"
proof -
  obtain n s1 where "r_delete rc [lock_key t] s = (Inr n, s1)" "view s1 = (view s)(lock_key t := None)"
    by (rule delete1_up)
  then show thesis using that [of s1] by (simp add: release_delete_def seq_defs)
qed

lemma release_up:
  assumes "str_key (view s) (lock_key t)"
  obtains s' where "release rc t i s = (holder (view s) t = Some (Raw i), s')"
    "view s' = (if holder (view s) t = Some (Raw i) then (view s)(lock_key t := None) else view s)"
proof -
  obtain s1 where 1: "release_check rc t i s = (Inr (holder (view s) t = Some (Raw i)), s1)" "view s1 = view s"
    by (rule release_check_up [OF assms])
  obtain s2 where 2: "release_delete rc t s1 = (Inr True, s2)" "view s2 = (view s1)(lock_key t := None)"
    by (rule release_delete_up)
  show thesis
  proof (cases "holder (view s) t = Some (Raw i)")
    case True
    then show thesis using that [of s2] 1 2 by (simp add: release_def seq_defs)
  next
    case False
    then show thesis using that [of s1] 1 by (simp add: release_def seq_defs)
  qed
qed

lemma extend_up:
  assumes "str_key (view s) (lock_key t)"
  obtains s' where "extend_lock rc t i ttl s = (holder (view s) t = Some (Raw i), s')"
    "view s' = (if holder (view s) t = Some (Raw i) then (view s)(lock_key t \<mapsto> (VStr (Raw i), Some (lock_ttl ttl))) else view s)"
proof -
  let ?k = "lock_key t"
  obtain s1 where 1: "r_get rc ?k s = (Inr (str_at (view s) ?k), s1)" "view s1 = view s" by (rule get_up [OF assms])
  obtain b s2 where 2: "r_expire rc ?k (lock_ttl ttl) s1 = (Inr b, s2)"
    "view s2 = (\<lambda>k'. if k' = ?k then map_option (\<lambda>(v, _). (v, Some (lock_ttl ttl))) (view s1 ?k) else view s1 k')"
    by (rule expire_up [OF lock_ttl_pos])
  show thesis
  proof (cases "holder (view s) t = Some (Raw i)")
    case True
    then obtain e where "view s ?k = Some (VStr (Raw i), e)"
      by (auto simp: holder_def str_at_def split: option.splits rvalue.splits)
    then have "view s2 = (view s)(?k \<mapsto> (VStr (Raw i), Some (lock_ttl ttl)))" using 1(2) 2(2) by (simp add: fun_eq_iff)
    then show thesis using that [of s2] 1 2 True by (simp add: extend_lock_def seq_defs holder_def)
  next
    case False
    then show thesis using that [of s1] 1 by (simp add: extend_lock_def seq_defs holder_def)
  qed
qed

end

subsection \<open>Several instances on one lock\<close>

text \<open>
  The life of an instance with respect to one task, as \<open>_execute_task\<close> has it: it calls
  \<open>acquire\<close>, works if it got the lock, and in its \<open>finally\<close> calls \<open>release\<close> either way, so
  an instance that was refused (\<open>Leaving\<close>) runs the same check as the one that worked. Between any
  two commands other instances run and time passes; the steps below are the commands, and
  \<open>Waits\<close> is the passage of time.
\<close>

datatype phase = Idle | Working | Leaving | Releasing

inductive lock_step ::
  "'s redis \<Rightarrow> (nat \<Rightarrow> 's \<Rightarrow> 's) \<Rightarrow> string \<Rightarrow> ('s \<times> (string \<Rightarrow> phase)) \<Rightarrow> ('s \<times> (string \<Rightarrow> phase)) \<Rightarrow> bool"
  for rc tick t where
  Acquires: "ph i = Idle \<Longrightarrow> acquire rc t i None s = (b, s') \<Longrightarrow>
     lock_step rc tick t (s, ph) (s', ph(i := (if b then Working else Leaving)))"
| Checks: "ph i = Working \<or> ph i = Leaving \<Longrightarrow> release_check rc t i s = (r, s') \<Longrightarrow>
     lock_step rc tick t (s, ph) (s', ph(i := (if r = Inr True then Releasing else Idle)))"
| Deletes: "ph i = Releasing \<Longrightarrow> release_delete rc t s = (r, s') \<Longrightarrow>
     lock_step rc tick t (s, ph) (s', ph(i := Idle))"
| Waits: "lock_step rc tick t (s, ph) (tick d s, ph)"

text \<open>The instances that rely on the lock, and runs in which it does not expire under one of them.\<close>

definition under_lock :: "phase \<Rightarrow> bool" where
  "under_lock p \<longleftrightarrow> p = Working \<or> p = Releasing"

inductive lock_run ::
  "'s redis \<Rightarrow> ('s \<Rightarrow> rview) \<Rightarrow> (nat \<Rightarrow> 's \<Rightarrow> 's) \<Rightarrow> string \<Rightarrow> 's \<Rightarrow> ('s \<times> (string \<Rightarrow> phase)) \<Rightarrow> bool"
  for rc view tick t s0 where
  lock_init: "lock_run rc view tick t s0 (s0, \<lambda>_. Idle)"
| lock_more: "lock_run rc view tick t s0 (s, ph) \<Longrightarrow> lock_step rc tick t (s, ph) (s', ph') \<Longrightarrow>
     (ph' = ph \<Longrightarrow> \<exists>i. under_lock (ph i) \<Longrightarrow> holder (view s') t = holder (view s) t) \<Longrightarrow>
     lock_run rc view tick t s0 (s', ph')"

definition lock_inv :: "rview \<Rightarrow> string \<Rightarrow> (string \<Rightarrow> phase) \<Rightarrow> bool" where
  "lock_inv vw t ph \<longleftrightarrow> str_key vw (lock_key t) \<and> (\<forall>i. under_lock (ph i) \<longrightarrow> holder vw t = Some (Raw i))"

lemma under_lock_simps [simp]:
  "under_lock Working" "under_lock Releasing" "\<not> under_lock Idle" "\<not> under_lock Leaving"
  by (simp_all add: under_lock_def)

lemma lock_invD: "lock_inv vw t ph \<Longrightarrow> under_lock (ph i) \<Longrightarrow> holder vw t = Some (Raw i)"
  by (simp add: lock_inv_def)

lemma holder_None: "str_key vw (lock_key t) \<Longrightarrow> holder vw t = None \<longleftrightarrow> vw (lock_key t) = None"
  by (auto simp: holder_def str_at_def str_key_def split: option.splits rvalue.splits)

lemma lock_inv_exclusive: "lock_inv vw t ph \<Longrightarrow> under_lock (ph i) \<Longrightarrow> under_lock (ph j) \<Longrightarrow> i = j"
  by (metis lock_invD option.inject text_val.inject(2))

lemma lock_inv_cong:
  "lock_inv vw t ph \<Longrightarrow> str_key vw' (lock_key t) \<Longrightarrow> holder vw' t = holder vw t \<Longrightarrow> lock_inv vw' t ph"
  by (simp add: lock_inv_def)

context redis_up
begin

lemma lock_step_inv:
  assumes "lock_step rc tick t (s, ph) (s', ph')" and inv: "lock_inv (view s) t ph"
    and keep: "ph' = ph \<Longrightarrow> \<exists>i. under_lock (ph i) \<Longrightarrow> holder (view s') t = holder (view s) t"
  shows "lock_inv (view s') t ph'"
  using assms(1)
proof (cases rule: lock_step.cases)
  case (Acquires i b)
  have sk: "str_key (view s) (lock_key t)" using inv by (simp add: lock_inv_def)
  obtain s1 where 1: "acquire rc t i None s = (view s (lock_key t) = None, s1)"
    "view s1 = (if view s (lock_key t) = None then (view s)(lock_key t \<mapsto> (VStr (Raw i), Some (lock_ttl None))) else view s)"
    by (rule acquire_up [OF sk])
  show ?thesis
  proof (cases b)
    case True
    then have n: "view s (lock_key t) = None" using Acquires 1(1) by simp
    then have "\<not> under_lock (ph j)" for j using lock_invD [OF inv, of j] by (auto simp: holder_None [OF sk, symmetric])
    then show ?thesis using Acquires 1 True n by (simp add: lock_inv_def holder_def)
  next
    case False
    then have "view s (lock_key t) \<noteq> None" using Acquires 1(1) by simp
    then show ?thesis using Acquires 1 inv False by (auto simp: lock_inv_def)
  qed
next
  case (Checks i r)
  have sk: "str_key (view s) (lock_key t)" using inv by (simp add: lock_inv_def)
  obtain s1 where 1: "release_check rc t i s = (Inr (holder (view s) t = Some (Raw i)), s1)" "view s1 = view s"
    by (rule release_check_up [OF sk])
  then show ?thesis using Checks inv by (auto simp: lock_inv_def)
next
  case (Deletes i r)
  obtain s1 where 1: "release_delete rc t s = (Inr True, s1)" "view s1 = (view s)(lock_key t := None)"
    by (rule release_delete_up)
  have "\<not> under_lock (ph j)" if "j \<noteq> i" for j using lock_inv_exclusive [OF inv, of i j] Deletes that by auto
  then show ?thesis using Deletes 1 by (simp add: lock_inv_def str_key_def)
next
  case (Waits d)
  have sk: "str_key (view s) (lock_key t)" using inv by (simp add: lock_inv_def)
  have sk': "str_key (view s') (lock_key t)"
    using sk Waits tick_law [of d s "lock_key t"]
    by (auto simp: str_key_def age_def split: option.splits rvalue.splits if_splits)
  show ?thesis
  proof (cases "\<exists>i. under_lock (ph i)")
    case True
    then show ?thesis using lock_inv_cong [OF inv sk'] keep Waits by simp
  next
    case False
    then show ?thesis using Waits sk' by (simp add: lock_inv_def)
  qed
qed

lemma lock_run_inv:
  assumes "lock_run rc view tick t s0 c" and "str_key (view s0) (lock_key t)"
  shows "lock_inv (view (fst c)) t (snd c)"
  using assms
proof (induction rule: lock_run.induct)
  case lock_init
  then show ?case by (simp add: lock_inv_def)
next
  case (lock_more s ph s' ph')
  then show ?case using lock_step_inv [of t s ph s' ph'] by simp
qed

end

lemma execute_task_up:
  assumes "redis_up rc view tick" and "str_key (view s) (lock_key t)" and "str_item td ''task_id'' = Inr t"
    and "\<forall>k \<in> set task_keys. map_of td k \<noteq> None"
    and "execute_task rc sv i ex td now (s, w) = (s', w')"
  shows "w' = (if view s (lock_key t) = None then snd (run_task_steps sv ex td now w) else w) \<and>
    view s' = (if view s (lock_key t) = None \<or> holder (view s) t = Some (Raw i) then (view s)(lock_key t := None) else view s)"
proof -
  have id: "dget_or td ''task_id'' (PStr ''unknown'') = PStr t"
    using assms(3) by (auto simp: str_item_def dget_or_def split: option.splits pyval.splits)
  obtain s1 where 1: "acquire rc t i None s = (view s (lock_key t) = None, s1)"
    "view s1 = (if view s (lock_key t) = None then (view s)(lock_key t \<mapsto> (VStr (Raw i), Some (lock_ttl None))) else view s)"
    by (rule redis_up.acquire_up [OF assms(1,2)])
  have sk: "str_key (view s1) (lock_key t)"
    using assms(2) by (cases "view s (lock_key t) = None") (simp_all add: 1(2))
  obtain s2 where 2: "release rc t i s1 = (holder (view s1) t = Some (Raw i), s2)"
    "view s2 = (if holder (view s1) t = Some (Raw i) then (view s1)(lock_key t := None) else view s1)"
    by (rule redis_up.release_up [OF assms(1) sk])
  have keys: "(\<exists>k \<in> set task_keys. map_of td k = None) = False" using assms(4) by blast
  have e: "execute_task rc sv i ex td now (s, w) =
      (s2, if view s (lock_key t) = None then snd (run_task_steps sv ex td now w) else w)"
    using 1(1) 2(1) assms(3) id
    by (cases "view s (lock_key t)") (simp_all only: execute_task_def keys prod.case Let_def if_False sum.case pyval.case
        bool.case simp_thms option.distinct if_True snd_conv)
  have v: "view s2 = (if view s (lock_key t) = None \<or> holder (view s) t = Some (Raw i) then (view s)(lock_key t := None) else view s)"
    by (cases "view s (lock_key t)") (simp_all add: 1(2) 2(2) holder_def)
  show ?thesis using e v assms(5) by simp
qed

subsection \<open>A journal of service calls\<close>

text \<open>
  Services that keep a journal of the calls that change anything; \<open>ok\<close> says which of them
  succeed, \<open>chat\<close> whether the chat exists, \<open>nxt\<close> what the next execution is.
\<close>

datatype service_call =
    Create_execution string
  | Create_chat string
  | Enqueue string
  | Update_task string
  | Update_scheduler
  | Delete_job

definition journal_call :: "(service_call \<Rightarrow> bool) \<Rightarrow> service_call \<Rightarrow> 'a \<Rightarrow> service_call list \<Rightarrow> 'a result \<times> service_call list" where
  "journal_call ok c a w = (if ok c then (Inr a, w @ [c]) else (Inl (ServiceError []), w))"

definition journal_services ::
  "(service_call \<Rightarrow> bool) \<Rightarrow> pydict list \<Rightarrow> bool \<Rightarrow> pyval \<times> pyval \<Rightarrow> service_call list services" where
  "journal_services ok ready chat nxt = \<lparr>
     svc_tasks_ready = (\<lambda>now w. (Inr ready, w)),
     svc_create_task_execution = (\<lambda>mp t d. journal_call ok (Create_execution t) ()),
     svc_get_chat = (\<lambda>p w. (Inr (PBool chat), w)),
     svc_create_chat = (\<lambda>u c n t. journal_call ok (Create_chat t) [(''success'', PBool True)]),
     svc_enqueue = (\<lambda>u c t d. journal_call ok (Enqueue t) ()),
     svc_next_execution = (\<lambda>c z now w. (Inr nxt, w)),
     svc_update_task = (\<lambda>mp t d. journal_call ok (Update_task t) ()),
     svc_update_scheduler = (\<lambda>j d. journal_call ok Update_scheduler ()),
     svc_delete_job = (\<lambda>j. journal_call ok Delete_job ()) \<rparr>"

text \<open>A complete task document.\<close>

definition demo_task :: "string \<Rightarrow> pydict" where
  "demo_task plan = [(''task_id'', PStr ''t''), (''user_id'', PStr ''u''), (''company_id'', PStr ''c''),
     (''mandate_path'', PStr ''clients/u''), (''execution_plan'', PStr plan),
     (''schedule'', PDict [(''cron_expression'', PStr ''0 8 * * *''), (''timezone'', PStr ''UTC'')])]"

text \<open>The prefix of a list of calls up to the first one that fails.\<close>

definition until_failure :: "(service_call \<Rightarrow> bool) \<Rightarrow> service_call list \<Rightarrow> service_call list" where
  "until_failure ok cs = takeWhile ok cs"

lemmas task_steps_defs = run_task_steps_def update_scheduled_task_def disable_one_time_task_def
  journal_services_def journal_call_def seq_defs str_item_def

section \<open>Properties\<close>

text \<open>
  The contract of the lock. With Redis up, acquiring succeeds exactly when nobody holds the
  lock and then makes the caller its holder for the time to live, and never disturbs a holder;
  releasing and extending succeed exactly for the holder, and a call by anybody else leaves the
  server as it is.
\<close>

theorem lock_contract:
  assumes "redis_up rc view tick" and "str_key (view s) (lock_key t)"
  shows "fst (acquire rc t i ttl s) = (holder (view s) t = None) \<and>
    view (snd (acquire rc t i ttl s)) =
      (if holder (view s) t = None then (view s)(lock_key t \<mapsto> (VStr (Raw i), Some (lock_ttl ttl))) else view s) \<and>
    fst (release rc t i s) = (holder (view s) t = Some (Raw i)) \<and>
    view (snd (release rc t i s)) = (if holder (view s) t = Some (Raw i) then (view s)(lock_key t := None) else view s) \<and>
    fst (extend_lock rc t i ttl s) = (holder (view s) t = Some (Raw i)) \<and>
    view (snd (extend_lock rc t i ttl s)) =
      (if holder (view s) t = Some (Raw i) then (view s)(lock_key t \<mapsto> (VStr (Raw i), Some (lock_ttl ttl))) else view s)"
proof -
  note h = holder_None [OF assms(2)]
  obtain s1 where 1: "acquire rc t i ttl s = (view s (lock_key t) = None, s1)"
    "view s1 = (if view s (lock_key t) = None then (view s)(lock_key t \<mapsto> (VStr (Raw i), Some (lock_ttl ttl))) else view s)"
    by (rule redis_up.acquire_up [OF assms])
  obtain s2 where 2: "release rc t i s = (holder (view s) t = Some (Raw i), s2)"
    "view s2 = (if holder (view s) t = Some (Raw i) then (view s)(lock_key t := None) else view s)"
    by (rule redis_up.release_up [OF assms])
  obtain s3 where 3: "extend_lock rc t i ttl s = (holder (view s) t = Some (Raw i), s3)"
    "view s3 = (if holder (view s) t = Some (Raw i) then (view s)(lock_key t \<mapsto> (VStr (Raw i), Some (lock_ttl ttl))) else view s)"
    by (rule redis_up.extend_up [OF assms])
  show ?thesis unfolding h 1(1) 2(1) 3(1) fst_conv snd_conv 1(2) 2(2) 3(2) by (intro conjI refl)
qed

theorem lock_contract_witness:
  "str_key (mem_view empty_mem) (lock_key ''t'') \<and> fst (acquire mem_redis ''t'' ''a'' None empty_mem) \<and>
   \<not> fst (release mem_redis ''t'' ''a'' empty_mem)"
proof -
  have k: "str_key (mem_view empty_mem) (lock_key ''t'')" by (simp add: str_key_def mem_view_def empty_mem_def)
  have "holder (mem_view empty_mem) ''t'' = None" by (simp add: holder_def str_at_def mem_view_def empty_mem_def)
  then show ?thesis using k lock_contract [OF mem_redis_up k] by simp
qed

text \<open>
  C2: mutual exclusion. However the instances interleave the commands of \<open>acquire\<close> and
  \<open>release\<close>, the instances that were refused the lock and call \<open>release\<close> all the same included,
  as long as no lock expires while an instance works under it, at most one instance at a time
  is between a successful acquisition and the end of its release, and the key of the lock names
  it as the holder. (With expiry it is false: \<open>lock_release_race\<close>.)
\<close>

theorem lock_mutual_exclusion:
  assumes "redis_up rc view tick" and "str_key (view s0) (lock_key t)"
    and "lock_run rc view tick t s0 (s, ph)" and "under_lock (ph i)"
  shows "holder (view s) t = Some (Raw i) \<and> (\<forall>j. j \<noteq> i \<longrightarrow> ph j = Idle \<or> ph j = Leaving)"
proof -
  have inv: "lock_inv (view s) t ph" using redis_up.lock_run_inv [OF assms(1,3,2)] by simp
  have "ph j = Idle \<or> ph j = Leaving" if "j \<noteq> i" for j
    using lock_inv_exclusive [OF inv assms(4), of j] that by (cases "ph j") auto
  then show ?thesis using lock_invD [OF inv assms(4)] by blast
qed

text \<open>Instance a works; b was refused the lock and is about to call \<open>release\<close>.\<close>

theorem lock_mutual_exclusion_witness:
  "\<exists>s ph. lock_run mem_redis mem_view mem_tick ''t'' empty_mem (s, ph) \<and> ph ''a'' = Working \<and> ph ''b'' = Leaving \<and>
     holder (mem_view s) ''t'' = Some (Raw ''a'')"
proof -
  let ?s = "snd (acquire mem_redis ''t'' ''a'' None empty_mem)"
  let ?pa = "(\<lambda>_. Idle)(''a'' := Working) :: string \<Rightarrow> phase"
  let ?pb = "?pa(''b'' := Leaving)"
  have k: "str_key (mem_view empty_mem) (lock_key ''t'')" by (simp add: str_key_def mem_view_def empty_mem_def)
  have a: "acquire mem_redis ''t'' ''a'' None empty_mem = (True, ?s)"
    by (simp add: acquire_def seq_defs mem_redis_def mem_view_def empty_mem_def lock_ttl_def LOCK_DEFAULT_TTL_def)
  have b: "acquire mem_redis ''t'' ''b'' None ?s = (False, ?s)"
    by (simp add: acquire_def seq_defs mem_redis_def mem_view_def mem_put_def empty_mem_def lock_ttl_def LOCK_DEFAULT_TTL_def
      str_key_def str_at_def)
  have "lock_step mem_redis mem_tick ''t'' (empty_mem, \<lambda>_. Idle) (?s, ?pa)"
    using Acquires [OF _ a, of "\<lambda>_. Idle" mem_tick] by simp
  then have r: "lock_run mem_redis mem_view mem_tick ''t'' empty_mem (?s, ?pa)"
    by (intro lock_more [OF lock_init]) (auto simp: fun_eq_iff)
  have "lock_step mem_redis mem_tick ''t'' (?s, ?pa) (?s, ?pb)"
    using Acquires [OF _ b, of ?pa mem_tick] by simp
  then have r2: "lock_run mem_redis mem_view mem_tick ''t'' empty_mem (?s, ?pb)"
    by (intro lock_more [OF r]) auto
  have "holder (mem_view ?s) ''t'' = Some (Raw ''a'')"
    using lock_mutual_exclusion [OF mem_redis_up k r2, of "''a''"] by simp
  then show ?thesis using r2 by (intro exI [of _ ?s] exI [of _ ?pb]) simp
qed

text \<open>
  With expiry the release can take the lock of another instance. An instance that has read
  itself as the holder deletes the key unconditionally afterwards; if its lock expired in between
  and a second instance acquired it, that deletion frees the second instance's lock, and
  a third instance starts while the second is still working.
\<close>

theorem lock_release_race:
  "\<exists>s ph. (lock_step mem_redis mem_tick ''t'')\<^sup>*\<^sup>* (empty_mem, \<lambda>_. Idle) (s, ph) \<and>
     ph ''b'' = Working \<and> ph ''c'' = Working"
proof -
  let ?step = "lock_step mem_redis mem_tick ''t''"
  let ?lock = "\<lambda>now i. \<lparr>m_now = now, m_db = [(lock_key ''t'', (VStr (Raw i), Some (now + 300)))], m_out = []\<rparr>"
  let ?p0 = "\<lambda>_ :: string. Idle"
  have acq: "acquire mem_redis ''t'' i None \<lparr>m_now = now, m_db = [], m_out = []\<rparr> = (True, ?lock now i)" for i now
    by (simp add: acquire_def seq_defs mem_redis_def mem_view_def mem_put_def lock_ttl_def LOCK_DEFAULT_TTL_def)
  have acq2: "acquire mem_redis ''t'' i None \<lparr>m_now = 300, m_db = [(lock_key ''t'', (VStr (Raw j), Some 300))], m_out = []\<rparr> = (True, ?lock 300 i)" for i j
    by (simp add: acquire_def seq_defs mem_redis_def mem_view_def mem_put_def lock_ttl_def LOCK_DEFAULT_TTL_def)
  have s1: "?step (empty_mem, ?p0) (?lock 0 ''a'', ?p0(''a'' := Working))"
    using Acquires [OF _ acq [of "''a''" 0], of ?p0 mem_tick] by (simp add: empty_mem_def)
  have s2: "?step (?lock 0 ''a'', ?p0(''a'' := Working)) (?lock 0 ''a'', ?p0(''a'' := Releasing))"
    using Checks [of "?p0(''a'' := Working)" "''a''" mem_redis "''t''" "?lock 0 ''a''" "Inr True" "?lock 0 ''a''" mem_tick]
    by (simp add: release_check_def seq_defs mem_redis_def mem_view_def str_at_def str_key_def)
  have s3: "?step (?lock 0 ''a'', ?p0(''a'' := Releasing)) (mem_tick 300 (?lock 0 ''a''), ?p0(''a'' := Releasing))"
    by (rule Waits)
  have s4: "?step (mem_tick 300 (?lock 0 ''a''), ?p0(''a'' := Releasing))
      (?lock 300 ''b'', ?p0(''a'' := Releasing, ''b'' := Working))"
    using Acquires [OF _ acq2 [of "''b''" "''a''"], of "?p0(''a'' := Releasing)" mem_tick] by (simp add: mem_tick_def)
  have s5: "?step (?lock 300 ''b'', ?p0(''a'' := Releasing, ''b'' := Working))
      (\<lparr>m_now = 300, m_db = [], m_out = []\<rparr>, ?p0(''a'' := Idle, ''b'' := Working))"
    using Deletes [of "?p0(''a'' := Releasing, ''b'' := Working)" "''a''" mem_redis "''t''" "?lock 300 ''b''" "Inr True"
      "\<lparr>m_now = 300, m_db = [], m_out = []\<rparr>" mem_tick]
    by (simp add: release_delete_def seq_defs mem_redis_def mem_view_def fun_upd_twist)
  have s6: "?step (\<lparr>m_now = 300, m_db = [], m_out = []\<rparr>, ?p0(''a'' := Idle, ''b'' := Working))
      (?lock 300 ''c'', ?p0(''a'' := Idle, ''b'' := Working, ''c'' := Working))"
    using Acquires [OF _ acq [of "''c''" 300], of "?p0(''a'' := Idle, ''b'' := Working)" mem_tick] by simp
  note cons = converse_rtranclp_into_rtranclp [where r = ?step]
  have "?step\<^sup>*\<^sup>* (empty_mem, ?p0) (?lock 300 ''c'', ?p0(''a'' := Idle, ''b'' := Working, ''c'' := Working))"
    by (intro cons [OF s1] cons [OF s2] cons [OF s3] cons [OF s4] cons [OF s5] cons [OF s6] rtranclp.rtrancl_refl)
  moreover have "(?p0(''a'' := Idle, ''b'' := Working, ''c'' := Working)) ''b'' = Working"
    "(?p0(''a'' := Idle, ''b'' := Working, ''c'' := Working)) ''c'' = Working" by simp_all
  ultimately show ?thesis by blast
qed

text \<open>
  The lock guards the execution of a task. While another instance holds the lock, executing
  the task calls no service and leaves the lock to its holder. Otherwise the steps of the task
  are run once, and whatever they do, error included, the lock is free afterwards.
\<close>

theorem execute_task_guarded:
  assumes "redis_up rc view tick" and "str_key (view s) (lock_key t)" and "str_item td ''task_id'' = Inr t"
    and "\<forall>k \<in> set task_keys. map_of td k \<noteq> None"
    and "execute_task rc sv i ex td now (s, w) = (s', w')"
  shows "(\<forall>j. holder (view s) t = Some (Raw j) \<and> j \<noteq> i \<longrightarrow> w' = w \<and> view s' = view s) \<and>
    (holder (view s) t = None \<longrightarrow> w' = snd (run_task_steps sv ex td now w) \<and> holder (view s') t = None)"
  using execute_task_up [OF assms] holder_None [OF assms(2)] by (auto simp: holder_def str_at_def)

theorem execute_task_guarded_witness:
  "\<exists>s' w'. execute_task mem_redis (journal_services (\<lambda>_. True) [] False (PStr ''l'', PStr ''u'')) ''i'' ''e'' (demo_task ''ONE_TIME'') ''now'' (empty_mem, [])
       = (s', w') \<and> w' \<noteq> [] \<and> holder (mem_view s') ''t'' = None"
proof -
  let ?sv = "journal_services (\<lambda>_. True) [] False (PStr ''l'', PStr ''u'')"
  obtain s' w' where e: "execute_task mem_redis ?sv ''i'' ''e'' (demo_task ''ONE_TIME'') ''now'' (empty_mem, []) = (s', w')"
    by fastforce
  have h: "str_key (mem_view empty_mem) (lock_key ''t'')" "str_item (demo_task ''ONE_TIME'') ''task_id'' = Inr ''t''"
    "\<forall>k \<in> set task_keys. map_of (demo_task ''ONE_TIME'') k \<noteq> None"
    by (simp_all add: str_key_def mem_view_def empty_mem_def str_item_def demo_task_def task_keys_def)
  have "holder (mem_view empty_mem) ''t'' = None" by (simp add: holder_def str_at_def mem_view_def empty_mem_def)
  moreover have "snd (run_task_steps ?sv ''e'' (demo_task ''ONE_TIME'') ''now'' []) \<noteq> []"
    by (simp add: task_steps_defs demo_task_def)
  ultimately show ?thesis using e execute_task_guarded [OF mem_redis_up h e] by auto
qed

text \<open>
  The order of an execution. The document of the execution is created first, then the chat if
  it is missing, then the task is queued, and only then is a one-time task switched off and its
  job deleted, or a scheduled task given its next date in the task and in the scheduler. The
  calls that were made are exactly those up to the first failure: a task that could not be queued
  is neither switched off nor rescheduled.
\<close>

theorem task_steps_order:
  assumes "str_item td ''task_id'' = Inr t" and "str_item td ''user_id'' = Inr usr"
    and "str_item td ''company_id'' = Inr cid" and "str_item td ''mandate_path'' = Inr mp"
    and "map_of td ''execution_plan'' = Some (PStr plan)" and "plan \<in> {''ONE_TIME'', ''SCHEDULED''}"
    and "dget_or td ''mission'' (PDict []) = PDict mission"
    and "dget_or td ''schedule'' (PDict []) = PDict sch" and "truthy (dget sch ''cron_expression'')" and "truthy (dget sch ''timezone'')"
    and "py_add_one (dget_or td ''execution_count'' (PNum 0)) = Inr count" and "truthy l" and "truthy u"
  shows "snd (run_task_steps (journal_services ok ready chat (l, u)) ex td now w) =
    w @ until_failure ok ([Create_execution t] @ (if chat then [] else [Create_chat t]) @ [Enqueue t, Update_task t] @
       (if plan = ''ONE_TIME'' then [Delete_job] else [Update_scheduler]))"
  using assms
  by (cases chat)
     (auto simp: run_task_steps_def update_scheduled_task_def disable_one_time_task_def journal_services_def
       journal_call_def seq_defs until_failure_def)

theorem task_steps_order_witness:
  "snd (run_task_steps (journal_services (\<lambda>c. c \<noteq> Enqueue ''t'') [] True (PStr ''l'', PStr ''u'')) ''e'' (demo_task ''ONE_TIME'') ''now'' [])
     = [Create_execution ''t'']"
proof -
  let ?t = "demo_task ''ONE_TIME''"
  have h: "str_item ?t ''task_id'' = Inr ''t''" "str_item ?t ''user_id'' = Inr ''u''" "str_item ?t ''company_id'' = Inr ''c''"
    "str_item ?t ''mandate_path'' = Inr ''clients/u''" "map_of ?t ''execution_plan'' = Some (PStr ''ONE_TIME'')"
    "''ONE_TIME'' \<in> {''ONE_TIME'', ''SCHEDULED''}" "dget_or ?t ''mission'' (PDict []) = PDict []"
    "dget_or ?t ''schedule'' (PDict []) = PDict [(''cron_expression'', PStr ''0 8 * * *''), (''timezone'', PStr ''UTC'')]"
    "truthy (dget [(''cron_expression'', PStr ''0 8 * * *''), (''timezone'', PStr ''UTC'')] ''cron_expression'')"
    "truthy (dget [(''cron_expression'', PStr ''0 8 * * *''), (''timezone'', PStr ''UTC'')] ''timezone'')"
    "py_add_one (dget_or ?t ''execution_count'' (PNum 0)) = Inr (PNum 1)" "truthy (PStr ''l'')" "truthy (PStr ''u'')"
    by (simp_all add: str_item_def demo_task_def py_add_one_def)
  show ?thesis
    using task_steps_order [OF h, of "\<lambda>c. c \<noteq> Enqueue ''t''" "[]" True "''e''" "''now''" "[]"]
    by (simp add: until_failure_def)
qed

text \<open>
  The lock does not prevent a double execution. It is released as soon as the task is queued,
  and the list of due tasks was read before it was taken: two instances that read the list at the
  same moment both execute the task, the second one after the first has released the lock,
  and the task is queued twice although its date was moved or it was switched off in between.
\<close>

theorem due_task_queued_twice:
  assumes "redis_up rc view tick" and "view s (lock_key ''t'') = None"
    and "svc_tasks_ready (journal_services (\<lambda>_. True) [demo_task plan] True (l, u)) now [] = (Inr tasks, w)"
    and "execute_all rc (journal_services (\<lambda>_. True) [demo_task plan] True (l, u)) ''a'' exa tasks now (s, w) = (s1, w1)"
    and "execute_all rc (journal_services (\<lambda>_. True) [demo_task plan] True (l, u)) ''b'' exb tasks now (s1, w1) = (s2, w2)"
  shows "length (filter (\<lambda>c. c = Enqueue ''t'') w1) = 1 \<and> length (filter (\<lambda>c. c = Enqueue ''t'') w2) = 2"
proof -
  let ?sv = "journal_services (\<lambda>_. True) [demo_task plan] True (l, u)"
  let ?q = "\<lambda>w. length (filter (\<lambda>c. c = Enqueue ''t'') w)"
  have t: "tasks = [demo_task plan]" "w = []" using assms(3) by (simp_all add: journal_services_def)
  have id: "str_item (demo_task plan) ''task_id'' = Inr ''t''" "\<forall>k \<in> set task_keys. map_of (demo_task plan) k \<noteq> None"
    by (simp_all add: str_item_def demo_task_def task_keys_def)
  have q: "?q (snd (run_task_steps ?sv ex (demo_task plan) now w)) = ?q w + 1" for ex w
    by (cases "truthy l"; cases "truthy u") (simp_all add: task_steps_defs demo_task_def py_add_one_def)
  have k0: "str_key (view s) (lock_key ''t'')" using assms(2) by (simp add: str_key_def)
  have e1: "execute_task rc ?sv ''a'' (exa 0) (demo_task plan) now (s, []) = (s1, w1)"
    using assms(4) by (simp add: t)
  note 1 = execute_task_up [OF assms(1) k0 id e1]
  have v1: "view s1 (lock_key ''t'') = None" using 1 assms(2) by simp
  have k1: "str_key (view s1) (lock_key ''t'')" using v1 by (simp add: str_key_def)
  have e2: "execute_task rc ?sv ''b'' (exb 0) (demo_task plan) now (s1, w1) = (s2, w2)"
    using assms(5) by (simp add: t)
  note 2 = execute_task_up [OF assms(1) k1 id e2]
  show ?thesis using 1 2 v1 assms(2) q by simp
qed

theorem due_task_queued_twice_witness:
  "\<exists>s1 w1 s2 w2.
     execute_all mem_redis (journal_services (\<lambda>_. True) [demo_task ''ONE_TIME''] True (PNone, PNone)) ''a'' (\<lambda>_. ''e1'') [demo_task ''ONE_TIME''] ''now''
       (empty_mem, []) = (s1, w1) \<and>
     execute_all mem_redis (journal_services (\<lambda>_. True) [demo_task ''ONE_TIME''] True (PNone, PNone)) ''b'' (\<lambda>_. ''e2'') [demo_task ''ONE_TIME''] ''now''
       (s1, w1) = (s2, w2) \<and> length (filter (\<lambda>c. c = Enqueue ''t'') w2) = 2"
proof -
  let ?sv = "journal_services (\<lambda>_. True) [demo_task ''ONE_TIME''] True (PNone, PNone)"
  obtain s1 w1 where 1: "execute_all mem_redis ?sv ''a'' (\<lambda>_. ''e1'') [demo_task ''ONE_TIME''] ''now'' (empty_mem, []) = (s1, w1)"
    by (metis surj_pair)
  obtain s2 w2 where 2: "execute_all mem_redis ?sv ''b'' (\<lambda>_. ''e2'') [demo_task ''ONE_TIME''] ''now'' (s1, w1) = (s2, w2)"
    by (metis surj_pair)
  have v: "mem_view empty_mem (lock_key ''t'') = None" by (simp add: mem_view_def empty_mem_def)
  have r: "svc_tasks_ready ?sv ''now'' [] = (Inr [demo_task ''ONE_TIME''], [])" by (simp add: journal_services_def)
  show ?thesis using 1 2 due_task_queued_twice [OF mem_redis_up v r 1 2] by blast
qed

end
