(* ===== verification/Fx_Rates.thy ===== *)
theory Fx_Rates
  imports Redis_Client
begin

text \<open>
  \<open>src/app/fx_rate_service.py\<close>: currency codes, the monthly cache of exchange rates and the
  lookup of a rate by date. The HTTP service behind the cache is the argument \<open>api\<close>, from the base
  currency, the two dates and the sorted targets to its JSON answer. Dates are ISO texts compared
  as strings; a table of rates maps a date to the rates of that day.
\<close>

section \<open>Definitions\<close>

type_synonym day_rates = "(string \<times> rat) list"
type_synonym fx_rates = "(string \<times> day_rates) list"

definition FRANKFURTER_CURRENCIES :: "string list" where
  "FRANKFURTER_CURRENCIES =
     [''AUD'', ''BGN'', ''BRL'', ''CAD'', ''CHF'', ''CNY'', ''CZK'', ''DKK'', ''EUR'', ''GBP'',
      ''HKD'', ''HUF'', ''IDR'', ''ILS'', ''INR'', ''ISK'', ''JPY'', ''KRW'', ''MXN'', ''MYR'',
      ''NOK'', ''NZD'', ''PHP'', ''PLN'', ''RON'', ''SEK'', ''SGD'', ''THB'', ''TRY'', ''USD'', ''ZAR'']"

text \<open>The signs of the euro, the pound and the yen are written as UTF-8.\<close>

definition CURRENCY_ALIASES :: "(string \<times> string) list" where
  "CURRENCY_ALIASES =
     [(''DH'', ''MAD''), ([CHR 0xE2, CHR 0x82, CHR 0xAC], ''EUR''), (''$'', ''USD''), ([CHR 0xC2, CHR 0xA3], ''GBP''),
      ([CHR 0xC2, CHR 0xA5], ''JPY''), (''Fr.'', ''CHF''), (''fr.'', ''CHF''), (''SFr.'', ''CHF''), (''Fr'', ''CHF'')]"

definition FX_CACHE_TTL :: nat where
  "FX_CACHE_TTL = 86400"

definition normalize_currency :: "string \<Rightarrow> string" where
  "normalize_currency c = py_strip (py_upper (case map_of CURRENCY_ALIASES c of Some a \<Rightarrow> a | None \<Rightarrow> c))"

definition covers_targets :: "pyval \<Rightarrow> string list \<Rightarrow> bool result" where
  "covers_targets rates targets =
     (if \<not> truthy rates then Inr False
      else case rates of
        PDict ((_, PDict first_day) # _) \<Rightarrow> Inr (\<forall>t \<in> set targets. map_of first_day t \<noteq> None)
      | _ \<Rightarrow> Inl AttributeError)"

definition fx_cache_key :: "string \<Rightarrow> string \<Rightarrow> string" where
  "fx_cache_key base date_from = ''fx_rates:'' @ base @ '':'' @ take 7 date_from"

definition fx_targets :: "string \<Rightarrow> string list \<Rightarrow> string list" where
  "fx_targets base targets =
     filter (\<lambda>c. c \<noteq> base \<and> c \<in> set FRANKFURTER_CURRENCIES) (remdups (map normalize_currency targets))"

text \<open>What the first \<open>try\<close> block finds in the cache: rates that cover the targets, or nothing.\<close>

definition cached_rates :: "'s redis \<Rightarrow> string \<Rightarrow> string list \<Rightarrow> 's \<Rightarrow> pyval option \<times> 's" where
  "cached_rates rc key targets =
     stry (sbind (r_get rc key) (\<lambda>cached.
             case cached of
               None \<Rightarrow> sret None
             | Some t \<Rightarrow>
                 if t = Raw [] then sret None
                 else sbind (slift (json_loads t)) (\<lambda>rates.
                      sbind (slift (covers_targets rates targets)) (\<lambda>c. sret (if c then Some rates else None)))))
       (\<lambda>_. None)"

definition get_fx_rates_cached ::
  "'s redis \<Rightarrow> (string \<Rightarrow> string \<Rightarrow> string \<Rightarrow> string list \<Rightarrow> pyval result) \<Rightarrow> string \<Rightarrow> string list \<Rightarrow> string option \<Rightarrow> string option
     \<Rightarrow> 's \<Rightarrow> pyval \<times> 's" where
  "get_fx_rates_cached rc api base_currency target_currencies date_from date_to s =
     (let base = normalize_currency base_currency;
          targets = fx_targets base target_currencies
      in case (date_from, date_to) of
           (Some f, Some t) \<Rightarrow>
             if targets = [] \<or> f = [] \<or> t = [] then (PDict [], s)
             else
               let key = fx_cache_key base f in
               (case cached_rates rc key targets s of
                  (Some rates, s1) \<Rightarrow> (rates, s1)
                | (None, s1) \<Rightarrow>
                    (case api base f t (sort targets) of
                       Inr (PDict data) \<Rightarrow>
                         let rates = dget_or data ''rates'' (PDict []) in
                         (rates, snd (r_setex rc key FX_CACHE_TTL (json_dumps rates) s1))
                     | _ \<Rightarrow> (PDict [], s1)))
         | _ \<Rightarrow> (PDict [], s))"

text \<open>
  \<open>sorted(...)[-1]\<close> and \<open>sorted(...)[0]\<close> of the dates on either side, and the lookup itself.
\<close>

definition previous_dates :: "fx_rates \<Rightarrow> string \<Rightarrow> string list" where
  "previous_dates rates date_str = sort (filter (\<lambda>d. d \<le> date_str) (map fst rates))"

definition next_dates :: "fx_rates \<Rightarrow> string \<Rightarrow> string list" where
  "next_dates rates date_str = sort (filter (\<lambda>d. date_str < d) (map fst rates))"

definition rate_on :: "fx_rates \<Rightarrow> string \<Rightarrow> string \<Rightarrow> rat option" where
  "rate_on rates target d = (case map_of rates d of None \<Rightarrow> None | Some day \<Rightarrow> map_of day target)"

definition get_fx_rate_for_date :: "fx_rates \<Rightarrow> string \<Rightarrow> string \<Rightarrow> rat option" where
  "get_fx_rate_for_date rates target_currency date_str =
     (let target = normalize_currency target_currency in
      case rate_on rates target date_str of
        Some r \<Rightarrow> Some r
      | None \<Rightarrow>
          (case (if previous_dates rates date_str \<noteq> [] then rate_on rates target (last (previous_dates rates date_str)) else None) of
             Some r \<Rightarrow> Some r
           | None \<Rightarrow>
               if next_dates rates date_str \<noteq> [] then rate_on rates target (hd (next_dates rates date_str)) else None))"

section \<open>Library lemmas\<close>

text \<open>The rates as a list of days in order, all of which list the currency.\<close>

definition complete_for :: "fx_rates \<Rightarrow> string \<Rightarrow> bool" where
  "complete_for rates target \<longleftrightarrow> list_all (\<lambda>(d, day). map_of day target \<noteq> None) rates"

lemma rate_on_complete:
  assumes "complete_for rates target" and "d \<in> fst ` set rates"
  shows "\<exists>r. rate_on rates target d = Some r"
proof -
  obtain day where "map_of rates d = Some day" using assms(2) by (metis map_of_eq_None_iff not_None_eq)
  moreover have "(d, day) \<in> set rates" using calculation by (rule map_of_SomeD)
  ultimately show ?thesis using assms(1) by (auto simp: complete_for_def list_all_iff rate_on_def)
qed

lemma rate_on_missing: "d \<notin> fst ` set rates \<Longrightarrow> rate_on rates target d = None"
  by (metis map_of_eq_None_iff option.simps(4) rate_on_def)

lemma sorted_last_ge: "sorted xs \<Longrightarrow> x \<in> set xs \<Longrightarrow> x \<le> last xs"
  by (induction xs) auto

lemma sort_not_Nil: "xs \<noteq> [] \<Longrightarrow> sort xs \<noteq> []" for xs :: "'a::linorder list"
  by (metis length_0_conv length_sort)

lemma last_sort_Max: "xs \<noteq> [] \<Longrightarrow> last (sort xs) = Max (set xs)"
  using sorted_last_ge [of "sort xs"] last_in_set [OF sort_not_Nil, of xs] by (intro Max_eqI [symmetric]) simp_all

lemma sorted_hd_le: "sorted xs \<Longrightarrow> x \<in> set xs \<Longrightarrow> hd xs \<le> x"
  by (cases xs) auto

lemma hd_sort_Min: "xs \<noteq> [] \<Longrightarrow> hd (sort xs) = Min (set xs)"
  using sorted_hd_le [of "sort xs"] hd_in_set [OF sort_not_Nil, of xs] by (intro Min_eqI [symmetric]) simp_all

section \<open>Properties\<close>

text \<open>
  The rate of the nearest business day. If every listed day has the currency, the lookup
  returns the rate of the latest listed day that is not after the date, or, for a date before
  all of them, the rate of the first listed day; it finds nothing only in an empty table.
\<close>

theorem fx_nearest_day:
  assumes "complete_for rates (normalize_currency cur)"
  shows "get_fx_rate_for_date rates cur d =
    (if \<exists>p \<in> fst ` set rates. p \<le> d then rate_on rates (normalize_currency cur) (Max {p \<in> fst ` set rates. p \<le> d})
     else if rates \<noteq> [] then rate_on rates (normalize_currency cur) (Min (fst ` set rates)) else None)"
proof -
  let ?T = "normalize_currency cur" and ?D = "fst ` set rates"
  have sp: "set (filter (\<lambda>p. p \<le> d) (map fst rates)) = {p \<in> ?D. p \<le> d}" by auto
  show ?thesis
  proof (cases "\<exists>p \<in> ?D. p \<le> d")
    case True
    then have ne: "filter (\<lambda>p. p \<le> d) (map fst rates) \<noteq> []" by (auto simp: filter_empty_conv)
    have l: "last (previous_dates rates d) = Max {p \<in> ?D. p \<le> d}"
      using last_sort_Max [OF ne] by (simp only: previous_dates_def sp)
    have pne: "previous_dates rates d \<noteq> []" using sort_not_Nil [OF ne] by (simp add: previous_dates_def)
    have "Max {p \<in> ?D. p \<le> d} \<in> {p \<in> ?D. p \<le> d}" using True by (intro Max_in) auto
    then obtain r where r: "rate_on rates ?T (Max {p \<in> ?D. p \<le> d}) = Some r" using rate_on_complete [OF assms] by blast
    show ?thesis
    proof (cases "d \<in> ?D")
      case d: True
      then have "Max {p \<in> ?D. p \<le> d} = d" by (intro Max_eqI) auto
      then show ?thesis using True r by (simp add: get_fx_rate_for_date_def)
    next
      case False
      then have "rate_on rates ?T d = None" by (rule rate_on_missing)
      then show ?thesis using True r l pne by (simp add: get_fx_rate_for_date_def)
    qed
  next
    case False
    then have p: "previous_dates rates d = []" by (auto simp: previous_dates_def filter_empty_conv)
    have "d \<notin> ?D" using False by auto
    then have n: "rate_on rates ?T d = None" by (rule rate_on_missing)
    have all: "filter (\<lambda>p. d < p) (map fst rates) = map fst rates"
      using False by (auto simp: filter_id_conv not_le)
    show ?thesis
    proof (cases "rates = []")
      case True
      then show ?thesis by (simp add: get_fx_rate_for_date_def rate_on_def previous_dates_def next_dates_def)
    next
      case ne: False
      then have "hd (next_dates rates d) = Min ?D" "next_dates rates d \<noteq> []"
        using hd_sort_Min [of "map fst rates"] sort_not_Nil [of "map fst rates"] by (simp_all add: next_dates_def all)
      then show ?thesis using False p n ne by (simp add: get_fx_rate_for_date_def)
    qed
  qed
qed

theorem fx_nearest_day_witness:
  "complete_for [(''2026-01-05'', [(''EUR'', 9 / 10)]), (''2026-01-02'', [(''EUR'', 8 / 10)])] (normalize_currency ''eur'') \<and>
   get_fx_rate_for_date [(''2026-01-05'', [(''EUR'', 9 / 10)]), (''2026-01-02'', [(''EUR'', 8 / 10)])] ''eur'' ''2026-01-04'' = Some (8 / 10)"
proof -
  let ?r = "[(''2026-01-05'', [(''EUR'', 9 / 10)]), (''2026-01-02'', [(''EUR'', 8 / 10)])] :: fx_rates"
  have n: "normalize_currency ''eur'' = ''EUR''" by code_simp
  have c: "complete_for ?r (normalize_currency ''eur'')" by (simp only: n) code_simp
  have o: "''2026-01-02'' \<le> ''2026-01-04''" "\<not> ''2026-01-05'' \<le> ''2026-01-04''" by code_simp+
  then have m: "{p \<in> fst ` set ?r. p \<le> ''2026-01-04''} = {''2026-01-02''}" by auto
  from fx_nearest_day [OF c, of "''2026-01-04''"] show ?thesis
    unfolding m using c o by (simp add: n rate_on_def)
qed

text \<open>
  When the latest earlier day lacks the currency, the lookup does not go further back but
  takes the rate of the day after the date, although an earlier day has one.
\<close>

theorem fx_skips_earlier_days:
  "get_fx_rate_for_date [(''2026-01-02'', [(''EUR'', 8 / 10)]), (''2026-01-05'', [(''USD'', 1)]), (''2026-01-07'', [(''EUR'', 9 / 10)])]
     ''EUR'' ''2026-01-06'' = Some (9 / 10)"
  by code_simp

end
