(* ===== verification/Sequence_Matcher.thy ===== *)
theory Sequence_Matcher
  imports Prelude
begin

text \<open>
  \<open>difflib.SequenceMatcher(None, a, b).ratio()\<close> of the Python standard library, which the matching
  engine uses for the similarity of texts: the longest matching block, found first by its end in
  \<open>a\<close> and then in \<open>b\<close>, then the same to the left and to the right of it. Elements of \<open>b\<close> that are
  popular (more than one percent of a \<open>b\<close> of at least two hundred elements) start no block but may
  extend one.
\<close>

section \<open>Definitions\<close>

definition popular :: "'a list \<Rightarrow> 'a \<Rightarrow> bool" where
  "popular b x \<longleftrightarrow> 200 \<le> length b \<and> length b div 100 + 1 < count_list b x"

text \<open>Length of the block of unpopular elements that ends at positions \<open>i\<close> and \<open>j\<close>.\<close>

fun run_len :: "('a \<Rightarrow> bool) \<Rightarrow> 'a list \<Rightarrow> 'a list \<Rightarrow> nat \<Rightarrow> nat \<Rightarrow> nat" where
  "run_len pop a b (Suc i) (Suc j) =
     (if a ! Suc i = b ! Suc j \<and> \<not> pop (b ! Suc j) then Suc (run_len pop a b i j) else 0)"
| "run_len pop a b i j = (if a ! i = b ! j \<and> \<not> pop (b ! j) then 1 else 0)"

type_synonym block = "nat \<times> nat \<times> nat"

definition better :: "('a \<Rightarrow> bool) \<Rightarrow> 'a list \<Rightarrow> 'a list \<Rightarrow> block \<Rightarrow> nat \<times> nat \<Rightarrow> block" where
  "better pop a b best ij =
     (case ij of (i, j) \<Rightarrow> let k = run_len pop a b i j in
      if snd (snd best) < k then (i + 1 - k, j + 1 - k, k) else best)"

definition scan :: "('a \<Rightarrow> bool) \<Rightarrow> 'a list \<Rightarrow> 'a list \<Rightarrow> block" where
  "scan pop a b = foldl (better pop a b) (0, 0, 0) (List.product [0..<length a] [0..<length b])"

fun extend_left :: "'a list \<Rightarrow> 'a list \<Rightarrow> nat \<Rightarrow> nat \<Rightarrow> nat \<Rightarrow> block" where
  "extend_left a b (Suc i) (Suc j) k = (if a ! i = b ! j then extend_left a b i j (Suc k) else (Suc i, Suc j, k))"
| "extend_left a b i j k = (i, j, k)"

fun common_prefix :: "'a list \<Rightarrow> 'a list \<Rightarrow> nat" where
  "common_prefix (x # xs) (y # ys) = (if x = y then Suc (common_prefix xs ys) else 0)"
| "common_prefix _ _ = 0"

definition find_longest_match :: "('a \<Rightarrow> bool) \<Rightarrow> 'a list \<Rightarrow> 'a list \<Rightarrow> block" where
  "find_longest_match pop a b =
     (case scan pop a b of (i0, j0, k0) \<Rightarrow>
      case extend_left a b i0 j0 k0 of (i, j, k) \<Rightarrow>
        (i, j, k + common_prefix (drop (i + k) a) (drop (j + k) b)))"

section \<open>Blocks lie inside both sequences\<close>

definition block_in :: "'a list \<Rightarrow> 'a list \<Rightarrow> block \<Rightarrow> bool" where
  "block_in a b bl \<longleftrightarrow> (case bl of (i, j, k) \<Rightarrow> i + k \<le> length a \<and> j + k \<le> length b)"

lemma run_len_le: "run_len pop a b i j \<le> Suc i" "run_len pop a b i j \<le> Suc j"
  by (induction pop a b i j rule: run_len.induct) auto

lemma better_in:
  assumes "block_in a b best" and "i < length a" and "j < length b"
  shows "block_in a b (better pop a b best (i, j))"
  using assms run_len_le [of pop a b i j] by (auto simp: better_def block_in_def Let_def)

lemma foldl_better_in:
  assumes "block_in a b best" and "\<forall>(i, j) \<in> set ps. i < length a \<and> j < length b"
  shows "block_in a b (foldl (better pop a b) best ps)"
  using assms
proof (induction ps arbitrary: best)
  case (Cons p ps)
  obtain i j where "p = (i, j)" by (cases p)
  then show ?case using Cons better_in [of a b best i j pop] by simp
qed simp

lemma scan_in: "block_in a b (scan pop a b)"
  unfolding scan_def by (rule foldl_better_in) (auto simp: block_in_def)

lemma extend_left_in: "block_in a b (i, j, k) \<Longrightarrow> block_in a b (extend_left a b i j k)"
  by (induction a b i j k rule: extend_left.induct) (auto simp: block_in_def)

lemma common_prefix_le: "common_prefix xs ys \<le> length xs" "common_prefix xs ys \<le> length ys"
  by (induction xs ys rule: common_prefix.induct) auto

lemma find_longest_match_in: "block_in a b (find_longest_match pop a b)"
proof -
  obtain i0 j0 k0 where 0: "scan pop a b = (i0, j0, k0)" by (cases "scan pop a b") auto
  obtain i j k where 1: "extend_left a b i0 j0 k0 = (i, j, k)" by (cases "extend_left a b i0 j0 k0") auto
  have "block_in a b (i, j, k)" using extend_left_in [of a b i0 j0 k0] scan_in [of a b pop] 0 1 by simp
  then show ?thesis
    using common_prefix_le [of "drop (i + k) a" "drop (j + k) b"] 0 1
    by (simp add: find_longest_match_def block_in_def) linarith
qed

lemma find_longest_match_bound:
  "(i, j, k) = find_longest_match pop a b \<Longrightarrow> i + k \<le> length a \<and> j + k \<le> length b"
  using find_longest_match_in [of a b pop] by (auto simp: block_in_def)

section \<open>The ratio\<close>

text \<open>The total length of the matching blocks.\<close>

function matches :: "('a \<Rightarrow> bool) \<Rightarrow> 'a list \<Rightarrow> 'a list \<Rightarrow> nat" where
  "matches pop a b =
     (case find_longest_match pop a b of (i, j, k) \<Rightarrow>
        if k = 0 then 0
        else k + matches pop (take i a) (take j b) + matches pop (drop (i + k) a) (drop (j + k) b))"
  by pat_completeness auto

termination
  by (relation "measure (\<lambda>(pop, a, b). length a)") (auto dest: find_longest_match_bound)

declare matches.simps [simp del]

definition ratio :: "'a list \<Rightarrow> 'a list \<Rightarrow> rat" where
  "ratio a b =
     (if length a + length b = 0 then 1
      else 2 * of_nat (matches (popular b) a b) / of_nat (length a + length b))"

lemma matches_le: "matches pop a b \<le> length a \<and> matches pop a b \<le> length b"
proof (induction pop a b rule: matches.induct)
  case (1 pop a b)
  obtain i j k where f: "find_longest_match pop a b = (i, j, k)" by (cases "find_longest_match pop a b") auto
  have bl: "i + k \<le> length a" "j + k \<le> length b"
    using find_longest_match_in [of a b pop] f by (simp_all add: block_in_def)
  show ?case
  proof (cases "k = 0")
    case False
    have "matches pop (take i a) (take j b) \<le> i" "matches pop (take i a) (take j b) \<le> j"
      "matches pop (drop (i + k) a) (drop (j + k) b) \<le> length a - (i + k)"
      "matches pop (drop (i + k) a) (drop (j + k) b) \<le> length b - (j + k)"
      using 1(1) [OF f [symmetric] refl False] 1(2) [OF f [symmetric] refl False] bl by simp_all
    then show ?thesis using f False bl by (simp add: matches.simps [of pop a b]) linarith
  qed (simp add: matches.simps [of pop a b] f)
qed

lemma ratio_bounds: "0 \<le> ratio a b \<and> ratio a b \<le> 1"
proof (cases "length a + length b = 0")
  case False
  have "2 * matches (popular b) a b \<le> length a + length b" using matches_le [of "popular b" a b] by linarith
  then have "(2 * of_nat (matches (popular b) a b) :: rat) \<le> of_nat (length a + length b)"
    by (metis of_nat_le_iff of_nat_mult of_nat_numeral)
  moreover have "(0 :: rat) < of_nat (length a + length b)" using False by (simp only: of_nat_0_less_iff neq0_conv)
  ultimately show ?thesis using False by (simp add: ratio_def divide_le_eq_1 del: of_nat_add)
qed (simp add: ratio_def)

end
