(* ===== verification/Bulk_Matching.thy ===== *)
theory Bulk_Matching
  imports Sequence_Matcher Fx_Rates
begin

text \<open>
  \<open>BulkMatchingSuggestionEngine\<close> of \<open>src/app/bulk_matching_engine.py\<close>: bank transactions are scored
  against supplier invoices, expenses and customer invoices, and every candidate is given to the
  transaction it fits best. The rows of the caches are records: a missing text is the empty
  string (which the code treats alike; the fields \<open>reference\<close> and \<open>payment_ref\<close> of a transaction are texts or absent,
  a null one, which makes \<open>_score_pair\<close> raise at their concatenation, is outside the records), a missing currency is \<open>None\<close>, amounts are numbers
  and the identifier is the text the code takes of it. Scores are exact rationals.
\<close>

section \<open>Definitions\<close>

subsection \<open>Configuration\<close>

record weights =
  w_amount :: rat
  w_date :: rat
  w_text :: rat
  w_reference :: rat
  w_currency :: rat

record BulkMatchingConfig =
  invoice_weights :: weights
  expense_weights :: weights
  min_display_threshold :: rat
  high_confidence :: rat
  medium_confidence :: rat
  max_suggestions :: nat
  amount_tolerance_native :: rat
  amount_tolerance_fx :: rat
  bucket_pct :: rat
  transfer_date_tolerance_days :: int
  transfer_amount_tolerance :: rat

definition default_config :: BulkMatchingConfig where
  "default_config = \<lparr>
     invoice_weights = \<lparr>w_amount = 25 / 100, w_date = 25 / 100, w_text = 25 / 100, w_reference = 15 / 100, w_currency = 10 / 100\<rparr>,
     expense_weights = \<lparr>w_amount = 30 / 100, w_date = 30 / 100, w_text = 25 / 100, w_reference = 0, w_currency = 15 / 100\<rparr>,
     min_display_threshold = 35 / 100, high_confidence = 85 / 100, medium_confidence = 50 / 100, max_suggestions = 3,
     amount_tolerance_native = 5 / 100, amount_tolerance_fx = 10 / 100, bucket_pct = 20 / 100,
     transfer_date_tolerance_days = 3, transfer_amount_tolerance = 2 / 100\<rparr>"

subsection \<open>Rows\<close>

record score_details =
  d_amount :: rat
  d_date :: rat
  d_text :: rat
  d_reference :: rat
  d_currency :: rat

record suggestion =
  sg_type :: string
  sg_id :: string
  sg_partner_name :: string
  sg_amount :: rat
  sg_currency :: string
  sg_date :: string
  sg_score :: rat
  sg_confidence :: string
  sg_details :: score_details
  sg_fx_rate :: "rat option"
  sg_fx_converted :: "rat option"
  sg_internal_id :: string
  sg_job_id :: string
  sg_file_id :: string

record transfer =
  tr_counterpart_tx_id :: string
  tr_counterpart_journal :: string
  tr_counterpart_amount :: rat
  tr_counterpart_currency :: string
  tr_counterpart_date :: string
  tr_counterpart_description :: string
  tr_is_fx :: bool
  tr_score :: rat

record match_suggestions =
  top_matches :: "suggestion list"
  transfer_match :: "transfer option"
  scored_at :: string

record tx_row =
  tx_id :: string
  tx_amount :: rat
  tx_currency :: "string option"
  tx_date :: string
  tx_account_id :: string
  tx_account_name :: string
  tx_reference :: string
  tx_payment_ref :: string
  tx_partner_name :: string
  tx_description :: string
  tx_match_suggestions :: "match_suggestions option"

record candidate =
  c_id :: string
  c_job_id :: string
  c_file_id :: string
  c_amount :: rat
  c_display_amount :: rat
  c_currency :: "string option"
  c_date :: string
  c_invoice_date :: string
  c_expense_date :: string
  c_display_date :: string
  c_partner_name :: string
  c_ref :: string
  c_payment_reference :: string
  c_name :: string
  c_description :: string
  c_label :: string
  c_display_name :: string
  c_display_ref :: string
  c_employee_name :: string

text \<open>\<open>a or b\<close> on strings; the default currency.\<close>

definition str_or :: "string \<Rightarrow> string \<Rightarrow> string" where
  "str_or a b = (if a \<noteq> [] then a else b)"

definition currency_of :: "string option \<Rightarrow> string" where
  "currency_of c = normalize_currency (case c of Some x \<Rightarrow> x | None \<Rightarrow> ''CHF'')"

subsection \<open>Dates\<close>

definition leap :: "nat \<Rightarrow> bool" where
  "leap y \<longleftrightarrow> 4 dvd y \<and> \<not> 100 dvd y \<or> 400 dvd y"

definition month_length :: "nat \<Rightarrow> nat \<Rightarrow> nat" where
  "month_length y m = (if m = 2 then (if leap y then 29 else 28) else if m \<in> {4, 6, 9, 11} then 30 else 31)"

text \<open>The number of a day, counted from the first of January of year one.\<close>

definition day_number :: "nat \<Rightarrow> nat \<Rightarrow> nat \<Rightarrow> int" where
  "day_number y m d =
     int (365 * (y - 1) + (y - 1) div 4 + (y - 1) div 400 + sum_list (map (month_length y) [1..<m]) + (d - 1))
       - int ((y - 1) div 100)"

definition make_date :: "nat \<Rightarrow> nat \<Rightarrow> nat \<Rightarrow> int option" where
  "make_date y m d =
     (if 1 \<le> y \<and> 1 \<le> m \<and> m \<le> 12 \<and> 1 \<le> d \<and> d \<le> month_length y m then Some (day_number y m d) else None)"

text \<open>What \<open>strptime\<close> accepts for \<open>%Y\<close>, \<open>%m\<close> and \<open>%d\<close>.\<close>

definition year_of :: "string \<Rightarrow> nat option" where
  "year_of t = (if length t = 4 \<and> list_all is_digit t then Some (digits_value t) else None)"

definition month_of :: "string \<Rightarrow> nat option" where
  "month_of t = (if t \<noteq> [] \<and> length t \<le> 2 \<and> list_all is_digit t then Some (digits_value t) else None)"

definition dom_of :: "string \<Rightarrow> nat option" where
  "dom_of t =
     (case t of
        [c, x] \<Rightarrow> if c = CHR '' '' \<and> is_digit x then Some (digits_value [x]) else month_of t
      | _ \<Rightarrow> month_of t)"

definition date_of_parts :: "string \<Rightarrow> string \<Rightarrow> string \<Rightarrow> int option" where
  "date_of_parts y m d =
     (case (year_of y, month_of m, dom_of d) of (Some yy, Some mm, Some dd) \<Rightarrow> make_date yy mm dd | _ \<Rightarrow> None)"

definition parse_with :: "char \<Rightarrow> bool \<Rightarrow> string \<Rightarrow> int option" where
  "parse_with sep year_first t =
     (case split_on sep t of
        [a, b, c] \<Rightarrow> if year_first then date_of_parts a b c else date_of_parts c b a
      | _ \<Rightarrow> None)"

text \<open>\<open>_parse_date\<close> on a text: the first ten code points, in three formats.\<close>

definition parse_date :: "string \<Rightarrow> int option" where
  "parse_date date_str =
     (if date_str = [] then None
      else
        let s = concat (take 10 (py_chars (py_strip date_str))) in
        case parse_with CHR ''-'' True s of
          Some d \<Rightarrow> Some d
        | None \<Rightarrow> (case parse_with CHR ''.'' False s of
                    Some d \<Rightarrow> Some d
                  | None \<Rightarrow> parse_with CHR ''/'' False s))"

subsection \<open>Partial scores\<close>

text \<open>The score of a relative difference.\<close>

definition amount_band :: "rat \<Rightarrow> rat \<Rightarrow> bool \<Rightarrow> rat" where
  "amount_band diff_ratio tolerance is_fx =
     (let fx_tolerance = (if is_fx then 10 / 100 else tolerance)
      in if diff_ratio \<le> 2 / 100 then 95 / 100
         else if diff_ratio \<le> tolerance then 85 / 100
         else if diff_ratio \<le> fx_tolerance then (if is_fx then 70 / 100 else 60 / 100)
         else if diff_ratio \<le> 15 / 100 \<and> is_fx then 55 / 100
         else if diff_ratio \<le> 20 / 100 then 40 / 100
         else 0)"

definition score_amount :: "rat \<Rightarrow> rat \<Rightarrow> rat \<Rightarrow> bool \<Rightarrow> rat" where
  "score_amount expected actual tolerance is_fx =
     (if expected = 0 \<or> actual = 0 then 0
      else amount_band (\<bar>expected - actual\<bar> / max \<bar>expected\<bar> \<bar>actual\<bar>) tolerance is_fx)"

definition score_date :: "int option \<Rightarrow> int option \<Rightarrow> bool \<Rightarrow> rat" where
  "score_date date1 date2 is_expense =
     (case (date1, date2) of
        (Some d1, Some d2) \<Rightarrow>
          let delta_days = \<bar>d1 - d2\<bar> in
          if is_expense then
            (if delta_days \<le> 1 then 1 else if delta_days \<le> 3 then 90 / 100 else if delta_days \<le> 7 then 75 / 100 else 0)
          else
            (if delta_days = 0 then 1 else if delta_days \<le> 3 then 85 / 100 else if delta_days \<le> 7 then 70 / 100
             else if delta_days \<le> 30 then 50 / 100 else 25 / 100)
      | _ \<Rightarrow> 25 / 100)"

definition text_similarity :: "string \<Rightarrow> string \<Rightarrow> rat" where
  "text_similarity text1 text2 =
     (if text1 = [] \<or> text2 = [] then 0
      else
        let t1 = py_strip (py_lower text1); t2 = py_strip (py_lower text2) in
        if py_in t1 t2 \<or> py_in t2 t1 then 1
        else ratio (py_chars t1) (py_chars t2))"

definition build_tx_text :: "tx_row \<Rightarrow> string" where
  "build_tx_text tx =
     py_join '' '' (filter (\<lambda>p. p \<noteq> []) [tx_reference tx, tx_payment_ref tx, tx_partner_name tx, tx_description tx])"

subsection \<open>The score of a pair\<close>

definition MAJOR_CURRENCIES :: "string list" where
  "MAJOR_CURRENCIES = [''CHF'', ''EUR'', ''USD'', ''GBP'']"

definition no_details :: score_details where
  "no_details = \<lparr>d_amount = 0, d_date = 0, d_text = 0, d_reference = 0, d_currency = 0\<rparr>"

text \<open>\<open>rate and rate > 0\<close> for an exchange rate, where the table is not empty.\<close>

definition positive_rate :: "fx_rates \<Rightarrow> string \<Rightarrow> string \<Rightarrow> rat option" where
  "positive_rate fx currency date_str =
     (if fx = [] then None
      else case get_fx_rate_for_date fx currency date_str of Some r \<Rightarrow> if 0 < r then Some r else None | None \<Rightarrow> None)"

definition fx_weights :: "weights \<Rightarrow> bool \<Rightarrow> weights" where
  "fx_weights w is_fx =
     (if is_fx then
        let reduction = w_amount w * (15 / 100) in
        w\<lparr>w_amount := w_amount w - reduction, w_date := w_date w + reduction / 2, w_text := w_text w + reduction / 2\<rparr>
      else w)"

definition score_pair ::
  "BulkMatchingConfig \<Rightarrow> fx_rates \<Rightarrow> tx_row \<Rightarrow> candidate \<Rightarrow> string \<Rightarrow> rat \<times> score_details" where
  "score_pair cfg fx tx cand candidate_type =
     (let is_invoice = (candidate_type = ''invoice'');
          weights = (if is_invoice then invoice_weights cfg else expense_weights cfg);
          tx_amt = \<bar>tx_amount tx\<bar>;
          tx_cur = currency_of (tx_currency tx);
          tx_day = parse_date (tx_date tx);
          cand_amt = \<bar>c_amount cand\<bar>;
          cand_cur = currency_of (c_currency cand);
          cand_day = parse_date (if is_invoice then str_or (c_invoice_date cand) (c_date cand)
                                 else str_or (c_expense_date cand) (c_date cand));
          cand_text = (if is_invoice then c_partner_name cand else str_or (c_description cand) (c_label cand));
          cand_ref = (if is_invoice then str_or (c_ref cand) (str_or (c_payment_reference cand) (c_name cand)) else [])
      in if cand_amt = 0 then (0, no_details)
         else
           let is_fx = (tx_cur \<noteq> cand_cur);
               cur_score = (if \<not> is_fx then 1
                            else if tx_cur \<in> set MAJOR_CURRENCIES \<and> cand_cur \<in> set MAJOR_CURRENCIES then 70 / 100 else 50 / 100);
               rate = (if is_fx then positive_rate fx cand_cur (tx_date tx) else None);
               compare_cand = (case rate of Some r \<Rightarrow> cand_amt / r | None \<Rightarrow> cand_amt);
               currency_score = (if rate \<noteq> None then 70 / 100 else cur_score);
               tolerance = (if is_fx then amount_tolerance_fx cfg else amount_tolerance_native cfg);
               amount_score = score_amount tx_amt compare_cand tolerance is_fx;
               date_score = score_date tx_day cand_day (candidate_type = ''expense'');
               text_score = text_similarity (build_tx_text tx) cand_text;
               ref_score = (if cand_ref \<noteq> [] then text_similarity (tx_reference tx @ '' '' @ tx_payment_ref tx) cand_ref else 0);
               w = fx_weights weights is_fx;
               total = w_amount w * amount_score + w_date w * date_score + w_text w * text_score
                         + w_reference w * ref_score + w_currency w * currency_score
           in (py_round 3 total,
               \<lparr>d_amount = py_round 3 amount_score, d_date = py_round 3 date_score, d_text = py_round 3 text_score,
                d_reference = py_round 3 ref_score, d_currency = py_round 3 currency_score\<rparr>))"

definition build_suggestion ::
  "BulkMatchingConfig \<Rightarrow> fx_rates \<Rightarrow> candidate \<Rightarrow> rat \<Rightarrow> score_details \<Rightarrow> string \<Rightarrow> string \<Rightarrow> suggestion" where
  "build_suggestion cfg fx cand score details candidate_type tx_cur =
     (let amount = (if c_display_amount cand \<noteq> 0 then c_display_amount cand else c_amount cand);
          currency = currency_of (c_currency cand);
          date = str_or (c_display_date cand) (c_date cand);
          display_label = (if candidate_type = ''invoice'' then str_or (c_display_name cand) (c_partner_name cand)
                           else str_or (c_display_name cand) (c_description cand));
          display_ref = (if candidate_type = ''invoice'' then str_or (c_display_ref cand) (c_name cand)
                         else str_or (c_display_ref cand) (c_employee_name cand));
          confidence = (if high_confidence cfg \<le> score then ''HIGH''
                        else if medium_confidence cfg \<le> score then ''MEDIUM'' else ''LOW'');
          rate = (if currency \<noteq> tx_cur then positive_rate fx currency date else None)
      in \<lparr>sg_type = candidate_type, sg_id = str_or display_ref display_label, sg_partner_name = display_label,
          sg_amount = amount, sg_currency = currency, sg_date = date, sg_score = score, sg_confidence = confidence,
          sg_details = details, sg_fx_rate = map_option (py_round 6) rate,
          sg_fx_converted = map_option (\<lambda>r. py_round 2 (amount / r)) rate,
          sg_internal_id = str_or (c_id cand) (c_job_id cand), sg_job_id = c_job_id cand, sg_file_id = c_file_id cand\<rparr>)"

text \<open>The key of a candidate: its type and its internal or displayed identifier.\<close>

definition cand_key :: "suggestion \<Rightarrow> string" where
  "cand_key sg = sg_type sg @ '':'' @ str_or (sg_internal_id sg) (sg_id sg)"

subsection \<open>The index by amount\<close>

definition amount_bucket :: "BulkMatchingConfig \<Rightarrow> rat \<Rightarrow> int" where
  "amount_bucket cfg amount = py_int (amount / max (amount * bucket_pct cfg) 1)"

text \<open>
  An item is in exactly one bucket, so the candidates of three neighbouring buckets have no
  repetition and the check on object identities has no effect.
\<close>

definition build_amount_index :: "BulkMatchingConfig \<Rightarrow> candidate list \<Rightarrow> int \<Rightarrow> candidate list" where
  "build_amount_index cfg items b =
     filter (\<lambda>it. c_amount it \<noteq> 0 \<and> amount_bucket cfg \<bar>c_amount it\<bar> = b) items"

definition get_bucket_candidates :: "BulkMatchingConfig \<Rightarrow> rat \<Rightarrow> (int \<Rightarrow> candidate list) \<Rightarrow> candidate list" where
  "get_bucket_candidates cfg amount index =
     (if amount = 0 then []
      else
        let bucket = amount_bucket cfg amount in
        index (bucket - 1) @ index bucket @ index (bucket + 1))"

subsection \<open>Transfers between accounts\<close>

definition transfer_date_score :: "int \<Rightarrow> rat" where
  "transfer_date_score day_diff =
     (if day_diff = 0 then 1 else if day_diff = 1 then 85 / 100 else if day_diff = 2 then 60 / 100
      else if day_diff \<le> 3 then 40 / 100 else 10 / 100)"

definition TRANSFER_MIN_SCORE :: rat where
  "TRANSFER_MIN_SCORE = 70 / 100"

text \<open>The amounts to compare, converted where the currencies differ and a rate is known.\<close>

definition transfer_amounts :: "fx_rates \<Rightarrow> tx_row \<Rightarrow> tx_row \<Rightarrow> (rat \<times> rat) option" where
  "transfer_amounts fx a b =
     (let cur_a = currency_of (tx_currency a); cur_b = currency_of (tx_currency b);
          abs_a = \<bar>tx_amount a\<bar>; abs_b = \<bar>tx_amount b\<bar>
      in if cur_a \<noteq> cur_b \<and> fx \<noteq> [] then
           (case positive_rate fx cur_b (tx_date a) of
              Some rate \<Rightarrow> Some (abs_a, abs_b / rate)
            | None \<Rightarrow> (case positive_rate fx cur_a (tx_date a) of
                        Some rate_rev \<Rightarrow> Some (abs_a / rate_rev, abs_b)
                      | None \<Rightarrow> None))
         else Some (abs_a, abs_b))"

text \<open>The score of two transactions as a transfer; \<open>None\<close> for every \<open>continue\<close> of the loop.\<close>

definition transfer_score :: "BulkMatchingConfig \<Rightarrow> fx_rates \<Rightarrow> tx_row \<Rightarrow> tx_row \<Rightarrow> rat option" where
  "transfer_score cfg fx a b =
     (if tx_amount a = 0 \<or> tx_amount b = 0 then None
      else if 0 \<le> tx_amount a * tx_amount b then None
      else if tx_account_id a = tx_account_id b then None
      else
        let day_diff = (case (parse_date (tx_date a), parse_date (tx_date b)) of
                          (Some da, Some db) \<Rightarrow> Some \<bar>da - db\<bar> | _ \<Rightarrow> None)
        in if day_diff \<noteq> None \<and> transfer_date_tolerance_days cfg < the day_diff then None
        else
          let is_fx = (currency_of (tx_currency a) \<noteq> currency_of (tx_currency b)) in
          case transfer_amounts fx a b of
            None \<Rightarrow> None
          | Some (ca, cb) \<Rightarrow>
              let diff = \<bar>ca - cb\<bar> / max ca cb;
                  tolerance = (if is_fx then 5 / 100 else transfer_amount_tolerance cfg)
              in if tolerance < diff then None
                 else
                   let amount_score = (if is_fx then (1 - diff) * (90 / 100) else 1 - diff);
                       date_score = transfer_date_score (case day_diff of Some d \<Rightarrow> d | None \<Rightarrow> 99);
                       text_score = text_similarity (build_tx_text a) (build_tx_text b);
                       score = 40 / 100 * amount_score + 30 / 100 * date_score + 30 / 100 * text_score
                   in if score < TRANSFER_MIN_SCORE then None else Some score)"

definition transfer_entry :: "tx_row \<Rightarrow> bool \<Rightarrow> rat \<Rightarrow> transfer" where
  "transfer_entry other is_fx score =
     \<lparr>tr_counterpart_tx_id = tx_id other, tr_counterpart_journal = tx_account_name other,
      tr_counterpart_amount = tx_amount other, tr_counterpart_currency = currency_of (tx_currency other),
      tr_counterpart_date = tx_date other, tr_counterpart_description = tx_description other,
      tr_is_fx = is_fx, tr_score = py_round 3 score\<rparr>"

type_synonym transfer_index = "(string \<times> transfer) list"

definition put_transfer :: "transfer_index \<Rightarrow> tx_row \<Rightarrow> tx_row \<Rightarrow> bool \<Rightarrow> rat \<Rightarrow> transfer_index" where
  "put_transfer index own other is_fx score =
     (case map_of index (tx_id own) of
        None \<Rightarrow> AList.update (tx_id own) (transfer_entry other is_fx score) index
      | Some t \<Rightarrow> if tr_score t < score then AList.update (tx_id own) (transfer_entry other is_fx score) index else index)"

definition transfer_step :: "BulkMatchingConfig \<Rightarrow> fx_rates \<Rightarrow> transfer_index \<Rightarrow> tx_row \<times> tx_row \<Rightarrow> transfer_index" where
  "transfer_step cfg fx index ab =
     (case ab of (a, b) \<Rightarrow>
      case transfer_score cfg fx a b of
        None \<Rightarrow> index
      | Some score \<Rightarrow>
          if tx_id a \<noteq> [] \<and> tx_id b \<noteq> [] then
            let is_fx = (currency_of (tx_currency a) \<noteq> currency_of (tx_currency b)) in
            put_transfer (put_transfer index a b is_fx score) b a is_fx score
          else index)"

fun pairs_of :: "'a list \<Rightarrow> ('a \<times> 'a) list" where
  "pairs_of [] = []"
| "pairs_of (x # xs) = map (Pair x) xs @ pairs_of xs"

definition build_transfer_index :: "BulkMatchingConfig \<Rightarrow> fx_rates \<Rightarrow> tx_row list \<Rightarrow> transfer_index" where
  "build_transfer_index cfg fx transactions =
     (if 500 < length transactions then [] else foldl (transfer_step cfg fx) [] (pairs_of transactions))"

subsection \<open>Suggestions for all transactions\<close>

type_synonym scored_pair = "string \<times> string \<times> rat \<times> suggestion"

definition score_candidates ::
  "BulkMatchingConfig \<Rightarrow> fx_rates \<Rightarrow> tx_row \<Rightarrow> string \<Rightarrow> string \<Rightarrow> candidate list \<Rightarrow> scored_pair list" where
  "score_candidates cfg fx tx scoring_type out_type cands =
     concat (map (\<lambda>c. case score_pair cfg fx tx c scoring_type of (score, details) \<Rightarrow>
        if min_display_threshold cfg \<le> score \<and> 40 / 100 \<le> d_amount details then
          let sg = build_suggestion cfg fx c score details out_type (currency_of (tx_currency tx))
          in [(tx_id tx, cand_key sg, score, sg)]
        else []) cands)"

definition tx_pairs ::
  "BulkMatchingConfig \<Rightarrow> fx_rates \<Rightarrow> candidate list \<Rightarrow> candidate list \<Rightarrow> candidate list \<Rightarrow> transfer_index \<Rightarrow> tx_row \<Rightarrow> scored_pair list" where
  "tx_pairs cfg fx ap exps ar transfers tx =
     (if map_of transfers (tx_id tx) \<noteq> None then []
      else if tx_amount tx < 0 then
        score_candidates cfg fx tx ''invoice'' ''invoice'' (get_bucket_candidates cfg \<bar>tx_amount tx\<bar> (build_amount_index cfg ap)) @
        score_candidates cfg fx tx ''expense'' ''expense'' (get_bucket_candidates cfg \<bar>tx_amount tx\<bar> (build_amount_index cfg exps))
      else
        score_candidates cfg fx tx ''invoice'' ''ar_invoice'' (get_bucket_candidates cfg \<bar>tx_amount tx\<bar> (build_amount_index cfg ar)))"

type_synonym assignment = "(string \<Rightarrow> suggestion list) \<times> string set"

definition assign_step :: "nat \<Rightarrow> assignment \<Rightarrow> scored_pair \<Rightarrow> assignment" where
  "assign_step max_n st p =
     (case (st, p) of ((tx_matches, claimed), (tx, key, score, sg)) \<Rightarrow>
      if key \<in> claimed then st
      else if max_n \<le> length (tx_matches tx) then st
      else (tx_matches(tx := tx_matches tx @ [sg]), insert key claimed))"

definition by_score_desc :: "('a \<Rightarrow> rat) \<Rightarrow> 'a list \<Rightarrow> 'a list" where
  "by_score_desc f xs = sort_key (\<lambda>x. - f x) xs"

definition greedy_assignment :: "nat \<Rightarrow> scored_pair list \<Rightarrow> assignment" where
  "greedy_assignment max_n all_pairs =
     foldl (assign_step max_n) (\<lambda>_. [], {}) (by_score_desc (\<lambda>p. fst (snd (snd p))) all_pairs)"

definition result_for :: "transfer_index \<Rightarrow> (string \<Rightarrow> suggestion list) \<Rightarrow> string \<Rightarrow> string \<Rightarrow> match_suggestions" where
  "result_for transfers tx_matches now tx =
     \<lparr>top_matches = (if map_of transfers tx \<noteq> None then [] else tx_matches tx),
      transfer_match = map_of transfers tx, scored_at = now\<rparr>"

definition compute_suggestions ::
  "BulkMatchingConfig \<Rightarrow> fx_rates \<Rightarrow> string \<Rightarrow> tx_row list \<Rightarrow> candidate list \<Rightarrow> candidate list \<Rightarrow> candidate list
     \<Rightarrow> (string \<times> match_suggestions) list" where
  "compute_suggestions cfg fx now transactions ap_invoices expenses ar_invoices =
     (let transfers = build_transfer_index cfg fx transactions;
          all_pairs = concat (map (tx_pairs cfg fx ap_invoices expenses ar_invoices transfers) transactions);
          tx_matches = fst (greedy_assignment (max_suggestions cfg) all_pairs)
      in foldl (\<lambda>results tx. AList.update (tx_id tx) (result_for transfers tx_matches now (tx_id tx)) results)
         [] transactions)"

subsection \<open>One new candidate\<close>

definition score_single_candidate ::
  "BulkMatchingConfig \<Rightarrow> fx_rates \<Rightarrow> candidate \<Rightarrow> string \<Rightarrow> tx_row list \<Rightarrow> (string \<times> suggestion) list" where
  "score_single_candidate cfg fx cand candidate_type transactions =
     foldl (\<lambda>results tx.
         let tx_is_debit = (tx_amount tx < 0); match_credit = (candidate_type = ''ar_invoice'') in
         if match_credit = tx_is_debit then results
         else
           let scoring_type = (if candidate_type \<in> {''invoice'', ''ar_invoice''} then ''invoice'' else candidate_type) in
           case score_pair cfg fx tx cand scoring_type of (score, details) \<Rightarrow>
             if min_display_threshold cfg \<le> score \<and> 40 / 100 \<le> d_amount details
             then AList.update (tx_id tx) (build_suggestion cfg fx cand score details candidate_type (currency_of (tx_currency tx))) results
             else results)
       [] transactions"

fun replace_first :: "('a \<Rightarrow> bool) \<Rightarrow> 'a \<Rightarrow> 'a list \<Rightarrow> 'a list" where
  "replace_first P y [] = []"
| "replace_first P y (x # xs) = (if P x then y # xs else x # replace_first P y xs)"

text \<open>The new list of matches, or \<open>None\<close> when nothing was replaced.\<close>

definition merge_suggestion :: "nat \<Rightarrow> suggestion \<Rightarrow> suggestion list \<Rightarrow> suggestion list option" where
  "merge_suggestion max_n new tops =
     (case find (\<lambda>m. cand_key m = cand_key new) tops of
        Some m \<Rightarrow> if sg_score m < sg_score new
                   then Some (replace_first (\<lambda>m. cand_key m = cand_key new) new tops) else None
      | None \<Rightarrow>
          if length tops < max_n then Some (tops @ [new])
          else if tops \<noteq> [] \<and> Min (sg_score ` set tops) < sg_score new
               then Some (replace_first (\<lambda>m. sg_score m = Min (sg_score ` set tops)) new tops)
               else None)"

definition update_tx :: "BulkMatchingConfig \<Rightarrow> string \<Rightarrow> (string \<times> suggestion) list \<Rightarrow> tx_row \<Rightarrow> tx_row option" where
  "update_tx cfg now scores tx =
     (case map_of scores (tx_id tx) of
        None \<Rightarrow> None
      | Some new \<Rightarrow>
          let existing = (case tx_match_suggestions tx of
                            Some e \<Rightarrow> e | None \<Rightarrow> \<lparr>top_matches = [], transfer_match = None, scored_at = []\<rparr>)
          in case merge_suggestion (max_suggestions cfg) new (top_matches existing) of
               None \<Rightarrow> None
             | Some tops \<Rightarrow>
                 Some (tx\<lparr>tx_match_suggestions :=
                   Some (existing\<lparr>top_matches := by_score_desc sg_score tops, scored_at := now\<rparr>)\<rparr>))"

text \<open>The transactions after the update, and those that were updated.\<close>

definition update_suggestions_with_candidate ::
  "BulkMatchingConfig \<Rightarrow> fx_rates \<Rightarrow> string \<Rightarrow> tx_row list \<Rightarrow> candidate \<Rightarrow> string \<Rightarrow> tx_row list \<times> tx_row list" where
  "update_suggestions_with_candidate cfg fx now transactions cand candidate_type =
     (let scores = score_single_candidate cfg fx cand candidate_type transactions in
      (map (\<lambda>tx. case update_tx cfg now scores tx of Some tx' \<Rightarrow> tx' | None \<Rightarrow> tx) transactions,
       concat (map (\<lambda>tx. case update_tx cfg now scores tx of Some tx' \<Rightarrow> [tx'] | None \<Rightarrow> []) transactions)))"

subsection \<open>Reconciliation data\<close>

text \<open>\<open>f"{q:.0%}"\<close>, and \<open>int(s)\<close> on a text without underscores between its digits.\<close>

definition fmt_percent :: "rat \<Rightarrow> string" where
  "fmt_percent q = (if q < 0 then ''-'' else []) @ nat_str (nat \<bar>round_half_even (q * 100)\<bar>) @ ''%''"

definition parse_int :: "string \<Rightarrow> int option" where
  "parse_int t =
     (case py_strip t of
        [] \<Rightarrow> None
      | c # cs \<Rightarrow>
          let ds = (if c = CHR ''-'' \<or> c = CHR ''+'' then cs else c # cs) in
          if ds \<noteq> [] \<and> list_all is_digit ds
          then Some (if c = CHR ''-'' then - int (digits_value ds) else int (digits_value ds)) else None)"

datatype reconciliation =
    Counterpart int string int string string
  | No_counterpart int string string string

definition reasoning_of :: "score_details \<Rightarrow> string" where
  "reasoning_of d =
     ''Auto-scoring backend: amount='' @ fmt_percent (d_amount d) @ '', date='' @ fmt_percent (d_date d) @
     '', text='' @ fmt_percent (d_text d) @ '', ref='' @ fmt_percent (d_reference d) @
     '', currency='' @ fmt_percent (d_currency d)"

text \<open>
  \<open>Counterpart\<close> holds the score, the partner, the Odoo move, the contact type and the reasoning;
  \<open>No_counterpart\<close> the score, the job of the expense, the partner and the reasoning. The constant
  entries of the two dictionaries are implied by the constructor.
\<close>

definition build_reconciliation_data :: "suggestion \<Rightarrow> reconciliation option" where
  "build_reconciliation_data sg =
     (let score_int = round_half_even (sg_score sg * 100);
          reasoning = reasoning_of (sg_details sg)
      in if sg_type sg \<in> {''invoice'', ''ar_invoice''} then
           (case (if sg_internal_id sg \<noteq> [] then parse_int (sg_internal_id sg) else None) of
              None \<Rightarrow> None
            | Some mv \<Rightarrow>
                if mv = 0 then None
                else Some (Counterpart score_int (sg_partner_name sg) mv
                        (if sg_type sg = ''ar_invoice'' then ''customer'' else ''supplier'') reasoning))
         else if sg_type sg = ''expense'' then
           Some (No_counterpart score_int (str_or (sg_job_id sg) (sg_internal_id sg)) (sg_partner_name sg) reasoning)
         else None)"

section \<open>Library lemmas\<close>

subsection \<open>Scores\<close>

lemma amount_band_bounds: "0 \<le> amount_band d t f \<and> amount_band d t f \<le> 1"
  by (simp add: amount_band_def)

lemma score_amount_bounds: "0 \<le> score_amount e a t f \<and> score_amount e a t f \<le> 1"
  using amount_band_bounds by (simp only: score_amount_def split: if_split) simp

lemma score_date_bounds: "0 \<le> score_date d1 d2 e \<and> score_date d1 d2 e \<le> 1"
  by (cases d1; cases d2) (simp_all add: score_date_def Let_def)

lemma text_similarity_bounds: "0 \<le> text_similarity a b \<and> text_similarity a b \<le> 1"
  by (simp add: text_similarity_def Let_def ratio_bounds)

definition weights_ok :: "weights \<Rightarrow> bool" where
  "weights_ok w \<longleftrightarrow> 0 \<le> w_amount w \<and> 0 \<le> w_date w \<and> 0 \<le> w_text w \<and> 0 \<le> w_reference w \<and> 0 \<le> w_currency w \<and>
     w_amount w + w_date w + w_text w + w_reference w + w_currency w = 1"

lemma fx_weights_ok: "weights_ok w \<Longrightarrow> weights_ok (fx_weights w f)"
  by (simp add: weights_ok_def fx_weights_def Let_def field_simps)

lemma default_weights_ok: "weights_ok (invoice_weights default_config)" "weights_ok (expense_weights default_config)"
  by (simp_all add: weights_ok_def default_config_def)

lemma weighted_le: "0 \<le> w \<Longrightarrow> 0 \<le> x \<and> x \<le> 1 \<Longrightarrow> 0 \<le> w * x \<and> w * x \<le> (w :: rat)"
  by (simp add: mult_left_le)

lemma weighted_total_bounds:
  assumes "weights_ok w"
    and "0 \<le> a \<and> a \<le> 1" and "0 \<le> d \<and> d \<le> 1" and "0 \<le> t \<and> t \<le> 1" and "0 \<le> r \<and> r \<le> 1" and "0 \<le> c \<and> c \<le> 1"
  shows "0 \<le> w_amount w * a + w_date w * d + w_text w * t + w_reference w * r + w_currency w * c"
    and "w_amount w * a + w_date w * d + w_text w * t + w_reference w * r + w_currency w * c \<le> 1"
proof -
  have w: "0 \<le> w_amount w" "0 \<le> w_date w" "0 \<le> w_text w" "0 \<le> w_reference w" "0 \<le> w_currency w"
    "w_amount w + w_date w + w_text w + w_reference w + w_currency w = 1"
    using assms(1) by (auto simp: weights_ok_def)
  note b = weighted_le [OF w(1) assms(2)] weighted_le [OF w(2) assms(3)] weighted_le [OF w(3) assms(4)]
    weighted_le [OF w(4) assms(5)] weighted_le [OF w(5) assms(6)]
  show "0 \<le> w_amount w * a + w_date w * d + w_text w * t + w_reference w * r + w_currency w * c"
    and "w_amount w * a + w_date w * d + w_text w * t + w_reference w * r + w_currency w * c \<le> 1"
    using b w(6) by linarith+
qed

lemma py_round_unit': "0 \<le> q \<and> q \<le> 1 \<Longrightarrow> 0 \<le> py_round n q \<and> py_round n q \<le> 1"
  using py_round_unit by blast

subsection \<open>Buckets\<close>

lemma default_bucket:
  assumes "0 < x"
  shows "amount_bucket default_config x = (if 5 \<le> x then 5 else \<lfloor>x\<rfloor>)"
proof (cases "5 \<le> x")
  case True
  then have "max (x * (20 / 100)) 1 = x / 5" by simp
  then show ?thesis using True assms by (simp add: amount_bucket_def default_config_def py_int_def)
next
  case False
  then have "max (x * (20 / 100)) 1 = 1" by simp
  then show ?thesis using False assms by (simp add: amount_bucket_def default_config_def py_int_def)
qed

lemma default_bucket_near:
  assumes "0 < x" and "0 < y" and "\<bar>x - y\<bar> / max x y \<le> 20 / 100"
  shows "\<bar>amount_bucket default_config x - amount_bucket default_config y\<bar> \<le> 1"
proof -
  have d: "\<bar>x - y\<bar> \<le> max x y / 5" using assms by (simp add: pos_divide_le_eq max_def split: if_splits)
  consider "5 \<le> x \<and> 5 \<le> y" | "5 \<le> x \<and> y < 5" | "x < 5 \<and> 5 \<le> y" | "x < 5 \<and> y < 5" by linarith
  then show ?thesis
  proof cases
    case 1
    then show ?thesis using assms by (simp add: default_bucket)
  next
    case 2
    then have "4 \<le> y" using d by (simp add: max_def split: if_splits)
    then have "\<lfloor>y\<rfloor> = 4" using 2 by (simp add: floor_eq_iff)
    then show ?thesis using 2 assms by (simp add: default_bucket)
  next
    case 3
    then have "4 \<le> x" using d by (simp add: max_def split: if_splits)
    then have "\<lfloor>x\<rfloor> = 4" using 3 by (simp add: floor_eq_iff)
    then show ?thesis using 3 assms by (simp add: default_bucket)
  next
    case 4
    then have "\<bar>x - y\<bar> \<le> 1" using d by (simp add: max_def split: if_splits)
    then have "\<lfloor>x\<rfloor> \<le> \<lfloor>y\<rfloor> + 1 \<and> \<lfloor>y\<rfloor> \<le> \<lfloor>x\<rfloor> + 1" by (auto simp: floor_le_iff le_floor_iff) linarith+
    then have "\<bar>\<lfloor>x\<rfloor> - \<lfloor>y\<rfloor>\<bar> \<le> 1" by linarith
    then show ?thesis using 4 assms(1,2) by (simp add: default_bucket)
  qed
qed

lemma score_amount_near:
  assumes "0 < score_amount e a t f" and "t \<le> 20 / 100"
  shows "e \<noteq> 0 \<and> a \<noteq> 0 \<and> \<bar>e - a\<bar> / max \<bar>e\<bar> \<bar>a\<bar> \<le> 20 / 100"
proof -
  have near: "0 < amount_band d t f \<Longrightarrow> d \<le> 20 / 100" for d
    using assms(2) by (auto simp: amount_band_def Let_def split: if_splits)
  have n: "e \<noteq> 0" "a \<noteq> 0" using assms(1) by (auto simp: score_amount_def)
  have "0 < amount_band (\<bar>e - a\<bar> / max \<bar>e\<bar> \<bar>a\<bar>) t f"
    using assms(1) n by (simp only: score_amount_def simp_thms if_False)
  then show ?thesis by (intro conjI n near)
qed

subsection \<open>Greedy assignment\<close>

definition pair_ok :: "scored_pair \<Rightarrow> bool" where
  "pair_ok p \<longleftrightarrow> (case p of (tx, key, score, sg) \<Rightarrow> key = cand_key sg \<and> score = sg_score sg)"

text \<open>
  The state after the pairs \<open>ps\<close>: who has what, with the keys claimed so far, at most \<open>n\<close> each, in
  descending order, and every pair passed over for a reason that is at least as good.
\<close>

definition assigned_ok :: "nat \<Rightarrow> scored_pair list \<Rightarrow> assignment \<Rightarrow> bool" where
  "assigned_ok n ps st \<longleftrightarrow> (case st of (m, claimed) \<Rightarrow>
     (\<forall>tx. length (m tx) \<le> n \<and> distinct (map cand_key (m tx)) \<and> sorted_wrt (\<lambda>a b. sg_score b \<le> sg_score a) (m tx) \<and>
        (\<forall>sg \<in> set (m tx). (tx, cand_key sg, sg_score sg, sg) \<in> set ps)) \<and>
     (\<forall>tx tx'. tx \<noteq> tx' \<longrightarrow> cand_key ` set (m tx) \<inter> cand_key ` set (m tx') = {}) \<and>
     claimed = (\<Union>tx. cand_key ` set (m tx)))"

definition passed_over :: "nat \<Rightarrow> (string \<Rightarrow> suggestion list) \<Rightarrow> scored_pair \<Rightarrow> bool" where
  "passed_over n m p \<longleftrightarrow> (case p of (tx, key, score, sg) \<Rightarrow>
     (\<exists>tx' sg'. sg' \<in> set (m tx') \<and> cand_key sg' = key \<and> score \<le> sg_score sg') \<or>
     length (m tx) = n \<and> (\<forall>sg' \<in> set (m tx). score \<le> sg_score sg'))"

lemma assigned_okD:
  assumes "assigned_ok n ps (m, cl)"
  shows "length (m tx) \<le> n" "distinct (map cand_key (m tx))"
    "sorted_wrt (\<lambda>a b. sg_score b \<le> sg_score a) (m tx)"
    "sg \<in> set (m tx) \<Longrightarrow> (tx, cand_key sg, sg_score sg, sg) \<in> set ps"
    "tx \<noteq> tx' \<Longrightarrow> cand_key ` set (m tx) \<inter> cand_key ` set (m tx') = {}"
    "cl = (\<Union>tx. cand_key ` set (m tx))"
  using assms by (auto simp: assigned_ok_def)

lemma UN_keys_append: "(\<Union>t. f ` set ((m(tx := m tx @ [g])) t)) = insert (f g) (\<Union>t. f ` set (m t))"
proof (intro set_eqI iffI)
  fix x
  assume "x \<in> insert (f g) (\<Union>t. f ` set (m t))"
  then consider "x = f g" | t y where "y \<in> set (m t)" "x = f y" by blast
  then show "x \<in> (\<Union>t. f ` set ((m(tx := m tx @ [g])) t))"
  proof cases
    case 1
    then have "x \<in> f ` set ((m(tx := m tx @ [g])) tx)" by simp
    then show ?thesis by blast
  next
    case 2
    then have "x \<in> f ` set ((m(tx := m tx @ [g])) t)" by auto
    then show ?thesis by blast
  qed
next
  fix x
  assume "x \<in> (\<Union>t. f ` set ((m(tx := m tx @ [g])) t))"
  then obtain t where t: "x \<in> f ` set ((m(tx := m tx @ [g])) t)" by blast
  then show "x \<in> insert (f g) (\<Union>t. f ` set (m t))" by (cases "t = tx") auto
qed

lemma assign_step_ok:
  assumes ok: "assigned_ok n ps st" and p: "pair_ok p"
    and low: "\<forall>q \<in> set ps. fst (snd (snd p)) \<le> fst (snd (snd q))"
  shows "assigned_ok n (ps @ [p]) (assign_step n st p)"
proof -
  obtain m cl where st: "st = (m, cl)" by (cases st)
  obtain tx key score sg where pp: "p = (tx, key, score, sg)" by (metis prod_cases4)
  have key: "key = cand_key sg" "score = sg_score sg" using p pp by (simp_all add: pair_ok_def)
  note D = assigned_okD [OF ok [unfolded st]]
  show ?thesis
  proof (cases "key \<in> cl \<or> n \<le> length (m tx)")
    case True
    then have "assign_step n st p = (m, cl)" by (auto simp: assign_step_def st pp)
    then show ?thesis using ok by (auto simp: st assigned_ok_def)
  next
    case False
    have new: "cand_key sg \<notin> cand_key ` set (m t)" for t using False D(6) key(1) by blast
    have hi: "sg_score sg \<le> sg_score x" if "x \<in> set (m tx)" for x
      using low D(4) [OF that] key pp by fastforce
    have "assign_step n st p = (m(tx := m tx @ [sg]), insert key cl)" using False by (simp add: assign_step_def st pp)
    moreover have "assigned_ok n (ps @ [p]) (m(tx := m tx @ [sg]), insert key cl)"
      unfolding assigned_ok_def prod.case
    proof (intro conjI allI impI)
      fix t
      show "length ((m(tx := m tx @ [sg])) t) \<le> n" using D(1) [of t] False by auto
      show "distinct (map cand_key ((m(tx := m tx @ [sg])) t))" using D(2) [of t] new by auto
      show "sorted_wrt (\<lambda>a b. sg_score b \<le> sg_score a) ((m(tx := m tx @ [sg])) t)"
        using D(3) [of t] hi by (auto simp: sorted_wrt_append)
      show "\<forall>x \<in> set ((m(tx := m tx @ [sg])) t). (t, cand_key x, sg_score x, x) \<in> set (ps @ [p])"
        using D(4) [of _ t] key pp by auto
      show "insert key cl = (\<Union>t. cand_key ` set ((m(tx := m tx @ [sg])) t))" unfolding UN_keys_append key(1) D(6) ..
    next
      fix t t' :: string
      assume "t \<noteq> t'"
      then show "cand_key ` set ((m(tx := m tx @ [sg])) t) \<inter> cand_key ` set ((m(tx := m tx @ [sg])) t') = {}"
        using D(5) [of t t'] new by auto
    qed
    ultimately show ?thesis by simp
  qed
qed

lemma passed_over_mono:
  assumes "passed_over n (fst st) q" and "assigned_ok n ps st"
  shows "passed_over n (fst (assign_step n st p)) q"
proof -
  obtain m cl where st: "st = (m, cl)" by (cases st)
  obtain tx key score sg where pp: "p = (tx, key, score, sg)" by (metis prod_cases4)
  obtain t k s g where q: "q = (t, k, s, g)" by (metis prod_cases4)
  have len: "length (m x) \<le> n" for x using assigned_okD(1) assms(2) st by blast
  show ?thesis
  proof (cases "key \<in> cl \<or> n \<le> length (m tx)")
    case True
    then show ?thesis using assms(1) by (auto simp: assign_step_def st pp)
  next
    case False
    then show ?thesis using assms(1) len [of t]
      by (auto simp: assign_step_def st pp q passed_over_def)
  qed
qed

lemma assign_step_passed:
  assumes "assigned_ok n ps st" and "pair_ok p" and "\<forall>q \<in> set ps. fst (snd (snd p)) \<le> fst (snd (snd q))"
  shows "passed_over n (fst (assign_step n st p)) p"
proof -
  obtain m cl where st: "st = (m, cl)" by (cases st)
  obtain tx key score sg where pp: "p = (tx, key, score, sg)" by (metis prod_cases4)
  have key: "key = cand_key sg" "score = sg_score sg" using assms(2) pp by (simp_all add: pair_ok_def)
  note D = assigned_okD [OF assms(1) [unfolded st]]
  have hi: "score \<le> sg_score x" if "x \<in> set (m t)" for x t
    using assms(3) D(4) [OF that] pp by fastforce
  consider (claimed) "key \<in> cl" | (full) "key \<notin> cl" "n \<le> length (m tx)" | (new) "key \<notin> cl" "\<not> n \<le> length (m tx)" by blast
  then show ?thesis
  proof cases
    case claimed
    then obtain t g where "g \<in> set (m t)" "cand_key g = key" using D(6) by auto
    then show ?thesis using claimed hi by (auto simp: assign_step_def st pp passed_over_def)
  next
    case full
    then show ?thesis using D(1) [of tx] hi by (auto simp: assign_step_def st pp passed_over_def)
  next
    case new
    then show ?thesis using key by (auto simp: assign_step_def st pp passed_over_def)
  qed
qed

lemma greedy_foldl:
  assumes "list_all pair_ok ps" and "sorted_wrt (\<lambda>a b. fst (snd (snd b)) \<le> fst (snd (snd a))) ps"
  shows "assigned_ok n ps (foldl (assign_step n) (\<lambda>_. [], {}) ps) \<and>
    (\<forall>p \<in> set ps. passed_over n (fst (foldl (assign_step n) (\<lambda>_. [], {}) ps)) p)"
  using assms
proof (induction ps rule: rev_induct)
  case Nil
  then show ?case by (simp add: assigned_ok_def)
next
  case (snoc p ps)
  let ?st = "foldl (assign_step n) (\<lambda>_. [], {}) ps"
  have ih: "assigned_ok n ps ?st" "\<forall>q \<in> set ps. passed_over n (fst ?st) q"
    using snoc by (simp_all add: sorted_wrt_append)
  have p: "pair_ok p" "\<forall>q \<in> set ps. fst (snd (snd p)) \<le> fst (snd (snd q))"
    using snoc.prems by (simp_all add: sorted_wrt_append)
  show ?case
    using assign_step_ok [OF ih(1) p] assign_step_passed [OF ih(1) p] passed_over_mono [OF _ ih(1), of _ p] ih(2) by simp
qed

lemma by_score_desc_sorted: "sorted_wrt (\<lambda>a b. f b \<le> f a) (by_score_desc f xs)"
  using sorted_sort_key [of "\<lambda>x. - f x" xs] by (simp add: by_score_desc_def sorted_map)

lemma set_by_score_desc [simp]: "set (by_score_desc f xs) = set xs"
  by (simp add: by_score_desc_def)

lemma length_by_score_desc [simp]: "length (by_score_desc f xs) = length xs"
  by (simp add: by_score_desc_def)

lemma greedy_assignment_ok:
  assumes "list_all pair_ok ps"
  shows "\<exists>qs. set qs = set ps \<and> assigned_ok n qs (greedy_assignment n ps)"
    and "\<forall>p \<in> set ps. passed_over n (fst (greedy_assignment n ps)) p"
proof -
  let ?qs = "by_score_desc (\<lambda>p. fst (snd (snd p))) ps"
  have "list_all pair_ok ?qs" using assms by (simp add: list_all_iff)
  from greedy_foldl [OF this by_score_desc_sorted, of n]
  show "\<exists>qs. set qs = set ps \<and> assigned_ok n qs (greedy_assignment n ps)"
    and "\<forall>p \<in> set ps. passed_over n (fst (greedy_assignment n ps)) p"
    by (auto simp: greedy_assignment_def intro: exI [of _ ?qs])
qed

lemma score_candidates_ok: "list_all pair_ok (score_candidates cfg fx tx st ot cands)"
  by (auto simp: score_candidates_def list_all_iff pair_ok_def build_suggestion_def Let_def split: prod.splits if_splits)

lemma tx_pairs_ok: "list_all pair_ok (tx_pairs cfg fx ap exps ar tr tx)"
  by (simp add: tx_pairs_def score_candidates_ok)

lemma all_pairs_ok: "list_all pair_ok (concat (map (tx_pairs cfg fx ap exps ar tr) txs))"
  using tx_pairs_ok by (fastforce simp: list_all_iff)

subsection \<open>Results\<close>

text \<open>The dictionary of results, as a function of the transaction's identifier.\<close>

lemma map_of_results:
  "map_of (foldl (\<lambda>res tx. AList.update (tx_id tx) (f (tx_id tx)) res) r0 txs) i
     = (if i \<in> tx_id ` set txs then Some (f i) else map_of r0 i)"
  by (induction txs arbitrary: r0) (auto simp: update_conv')

text \<open>The pairs phase one collects.\<close>

definition scored_pairs ::
  "BulkMatchingConfig \<Rightarrow> fx_rates \<Rightarrow> tx_row list \<Rightarrow> candidate list \<Rightarrow> candidate list \<Rightarrow> candidate list \<Rightarrow> scored_pair list" where
  "scored_pairs cfg fx txs ap exps ar = concat (map (tx_pairs cfg fx ap exps ar (build_transfer_index cfg fx txs)) txs)"

lemma compute_suggestions_lookup:
  "map_of (compute_suggestions cfg fx now txs ap exps ar) i =
     (if i \<in> tx_id ` set txs
      then Some (result_for (build_transfer_index cfg fx txs)
                  (fst (greedy_assignment (max_suggestions cfg) (scored_pairs cfg fx txs ap exps ar))) now i)
      else None)"
  by (simp add: compute_suggestions_def scored_pairs_def Let_def map_of_results)

text \<open>Two transactions that may be the two sides of a transfer.\<close>

definition opposite :: "tx_row \<Rightarrow> tx_row \<Rightarrow> bool" where
  "opposite a b \<longleftrightarrow> tx_amount a * tx_amount b < 0 \<and> tx_account_id a \<noteq> tx_account_id b"

lemma opposite_sym: "opposite a b \<longleftrightarrow> opposite b a"
  by (auto simp: opposite_def mult.commute)

lemma transfer_score_opposite:
  assumes "transfer_score cfg fx a b = Some s"
  shows "opposite a b \<and> TRANSFER_MIN_SCORE \<le> s"
  using assms by (auto simp: transfer_score_def opposite_def Let_def split: if_splits option.splits prod.splits)

definition transfers_ok :: "tx_row list \<Rightarrow> transfer_index \<Rightarrow> bool" where
  "transfers_ok txs idx \<longleftrightarrow> (\<forall>i t. map_of idx i = Some t \<longrightarrow>
     (\<exists>a \<in> set txs. \<exists>b \<in> set txs. tx_id a = i \<and> opposite a b \<and> tr_counterpart_tx_id t = tx_id b \<and>
        tr_counterpart_amount t = tx_amount b \<and> TRANSFER_MIN_SCORE \<le> tr_score t))"

lemma py_round_ge: "q0 = py_round 3 q0 \<Longrightarrow> q0 \<le> q \<Longrightarrow> q0 \<le> py_round 3 q"
  using py_round_mono [of q0 q 3] by simp

lemma round_min_score: "py_round 3 TRANSFER_MIN_SCORE = TRANSFER_MIN_SCORE"
  using round_half_even_of_int [of 700] by (simp add: py_round_def TRANSFER_MIN_SCORE_def)

lemma put_transfer_ok:
  assumes "transfers_ok txs idx" and "a \<in> set txs" and "b \<in> set txs" and "opposite a b" and "TRANSFER_MIN_SCORE \<le> s"
  shows "transfers_ok txs (put_transfer idx a b f s)"
proof -
  have "TRANSFER_MIN_SCORE \<le> py_round 3 s" using py_round_ge [OF round_min_score [symmetric] assms(5)] .
  then have new: "transfers_ok txs (AList.update (tx_id a) (transfer_entry b f s) idx)"
    using assms by (auto simp: transfers_ok_def update_conv' transfer_entry_def)
  show ?thesis using new assms(1) by (simp add: put_transfer_def split: option.split)
qed

lemma transfer_step_ok:
  assumes "transfers_ok txs idx" and "a \<in> set txs" and "b \<in> set txs"
  shows "transfers_ok txs (transfer_step cfg fx idx (a, b))"
proof (cases "transfer_score cfg fx a b")
  case (Some s)
  then have o: "opposite a b" "TRANSFER_MIN_SCORE \<le> s" "opposite b a"
    using transfer_score_opposite [OF Some] opposite_sym [of a b] by simp_all
  have "transfers_ok txs (put_transfer (put_transfer idx a b f s) b a f s)" for f
    by (intro put_transfer_ok assms o)
  then show ?thesis using Some assms(1) by (simp add: transfer_step_def Let_def)
qed (use assms in \<open>simp add: transfer_step_def\<close>)

lemma pairs_of_subset: "(a, b) \<in> set (pairs_of xs) \<Longrightarrow> a \<in> set xs \<and> b \<in> set xs"
  by (induction xs) auto

lemma transfer_index_ok: "transfers_ok txs (build_transfer_index cfg fx txs)"
proof -
  have fold: "transfers_ok txs idx \<Longrightarrow> \<forall>(a, b) \<in> set ps. a \<in> set txs \<and> b \<in> set txs \<Longrightarrow>
      transfers_ok txs (foldl (transfer_step cfg fx) idx ps)" for idx ps
    by (induction ps arbitrary: idx) (auto intro: transfer_step_ok)
  have nil: "transfers_ok txs []" by (simp add: transfers_ok_def)
  have "\<forall>(a, b) \<in> set (pairs_of txs). a \<in> set txs \<and> b \<in> set txs" by (auto dest: pairs_of_subset)
  then show ?thesis using fold [OF nil, of "pairs_of txs"] nil by (simp add: build_transfer_index_def)
qed

subsection \<open>Merging one candidate\<close>

lemma length_replace_first [simp]: "length (replace_first P y xs) = length xs"
  by (induction xs) auto

lemma merge_suggestion_length:
  "merge_suggestion n new xs = Some ys \<Longrightarrow> length xs \<le> n \<Longrightarrow> length ys \<le> n"
  by (auto simp: merge_suggestion_def split: option.splits if_splits)

lemma set_replace_first: "set (replace_first P y xs) \<subseteq> insert y (set xs)"
  by (induction xs) auto

lemma distinct_replace_first:
  assumes "distinct (map f xs)" and "\<And>x. x \<in> set xs \<Longrightarrow> f x = f y \<Longrightarrow> P x"
    and "\<And>x x'. x \<in> set xs \<Longrightarrow> x' \<in> set xs \<Longrightarrow> P x \<Longrightarrow> f x' = f y \<Longrightarrow> x' = x"
  shows "distinct (map f (replace_first P y xs))"
  using assms
proof (induction xs)
  case (Cons x xs)
  show ?case
  proof (cases "P x")
    case True
    have "f y \<notin> f ` set xs"
    proof
      assume "f y \<in> f ` set xs"
      then obtain x' where x': "x' \<in> set xs" "f x' = f y" by auto
      then have "x' = x" using Cons.prems(3) [of x x'] True by simp
      then show False using Cons.prems(1) x'(1) by auto
    qed
    then show ?thesis using Cons.prems(1) True by simp
  next
    case False
    have "f x \<noteq> f y" using Cons.prems(2) [of x] False by auto
    then have "f x \<notin> f ` set (replace_first P y xs)"
      using set_replace_first [of P y xs] Cons.prems(1) by auto
    moreover have "distinct (map f (replace_first P y xs))"
      by (rule Cons.IH) (use Cons.prems in auto)
    ultimately show ?thesis using False by simp
  qed
qed simp

lemma merge_suggestion_distinct:
  assumes "merge_suggestion n new xs = Some ys" and "distinct (map cand_key xs)"
  shows "distinct (map cand_key ys)"
proof (cases "find (\<lambda>m. cand_key m = cand_key new) xs")
  case None
  then have n: "cand_key new \<notin> cand_key ` set xs" by (auto simp: find_None_iff)
  have "distinct (map cand_key (replace_first P new xs))" for P
    by (rule distinct_replace_first [OF assms(2)]) (use n in \<open>auto simp: image_iff\<close>)
  then show ?thesis using assms None n by (auto simp: merge_suggestion_def split: if_splits)
next
  case (Some m)
  have "distinct (map cand_key (replace_first (\<lambda>m. cand_key m = cand_key new) new xs))"
    by (rule distinct_replace_first [OF assms(2)]) (use assms(2) in \<open>auto simp: distinct_map inj_on_def\<close>)
  then show ?thesis using assms(1) Some by (auto simp: merge_suggestion_def split: if_splits)
qed

lemma by_score_desc_distinct: "distinct (map g xs) \<Longrightarrow> distinct (map g (by_score_desc f xs))"
  by (simp add: by_score_desc_def distinct_map)

section \<open>Properties\<close>

text \<open>
  C31: scores are fractions. With weights that are not negative and add up to one, as the default
  ones do, and with or without the correction for foreign currencies, the score of any
  transaction against any candidate and each of its five components lie between 0 and 1.
\<close>

theorem score_pair_bounds:
  assumes "weights_ok (invoice_weights cfg)" and "weights_ok (expense_weights cfg)"
    and "score_pair cfg fx tx cand ct = (score, d)"
  shows "0 \<le> score \<and> score \<le> 1 \<and> 0 \<le> d_amount d \<and> d_amount d \<le> 1 \<and> 0 \<le> d_date d \<and> d_date d \<le> 1 \<and>
    0 \<le> d_text d \<and> d_text d \<le> 1 \<and> 0 \<le> d_reference d \<and> d_reference d \<le> 1 \<and> 0 \<le> d_currency d \<and> d_currency d \<le> 1"
proof (cases "c_amount cand = 0")
  case True
  then show ?thesis using assms(3) by (auto simp: score_pair_def no_details_def)
next
  case False
  define is_fx where "is_fx = (currency_of (tx_currency tx) \<noteq> currency_of (c_currency cand))"
  define w where "w = fx_weights (if ct = ''invoice'' then invoice_weights cfg else expense_weights cfg) is_fx"
  have w: "weights_ok w" using assms(1,2) by (simp add: w_def fx_weights_ok)
  obtain a dt t r c where b: "0 \<le> a \<and> a \<le> 1" "0 \<le> dt \<and> dt \<le> 1" "0 \<le> t \<and> t \<le> 1" "0 \<le> r \<and> r \<le> 1" "0 \<le> c \<and> c \<le> 1"
    and e: "score_pair cfg fx tx cand ct = (py_round 3 (w_amount w * a + w_date w * dt + w_text w * t + w_reference w * r + w_currency w * c),
       \<lparr>d_amount = py_round 3 a, d_date = py_round 3 dt, d_text = py_round 3 t, d_reference = py_round 3 r, d_currency = py_round 3 c\<rparr>)"
    by (rule that [OF score_amount_bounds score_date_bounds text_similarity_bounds _ _])
       (use False in \<open>auto simp: score_pair_def Let_def w_def is_fx_def text_similarity_bounds\<close>)
  show ?thesis
    using e assms(3) b [THEN py_round_unit', of 3] weighted_total_bounds [OF w b]
      py_round_unit [of "w_amount w * a + w_date w * dt + w_text w * t + w_reference w * r + w_currency w * c" 3] by auto
qed

text \<open>A transaction and a candidate for the examples.\<close>

definition demo_tx :: tx_row where
  "demo_tx = \<lparr>tx_id = ''1'', tx_amount = - 100, tx_currency = None, tx_date = ''2026-01-15'', tx_account_id = ''A'',
     tx_account_name = ''Bank'', tx_reference = [], tx_payment_ref = [], tx_partner_name = ''ACME'', tx_description = [],
     tx_match_suggestions = None\<rparr>"

definition demo_invoice :: candidate where
  "demo_invoice = \<lparr>c_id = ''77'', c_job_id = [], c_file_id = [], c_amount = 100, c_display_amount = 0, c_currency = Some ''CHF'',
     c_date = ''2026-01-15'', c_invoice_date = [], c_expense_date = [], c_display_date = [], c_partner_name = ''Acme SA'',
     c_ref = ''INV-9'', c_payment_reference = [], c_name = [], c_description = [], c_label = [], c_display_name = [],
     c_display_ref = [], c_employee_name = []\<rparr>"

lemmas demo_rows = demo_tx_def demo_invoice_def

definition demo_counterpart :: tx_row where
  "demo_counterpart = demo_tx\<lparr>tx_id := ''2'', tx_amount := 100, tx_account_id := ''B''\<rparr>"

lemma demo_currency: "currency_of None = ''CHF''" "currency_of (Some ''CHF'') = ''CHF''"
  by code_simp+

lemma demo_texts: "build_tx_text demo_tx = ''ACME''" "text_similarity ''ACME'' ''Acme SA'' = 1" "text_similarity ''ACME'' ''ACME'' = 1"
  "text_similarity '' '' ''INV-9'' = 1"
  by code_simp+

lemma py_round_thousandths: "py_round 3 (of_int n / 1000) = of_int n / 1000"
  by (simp add: py_round_def round_half_even_of_int)

lemma demo_score_amount: "score_amount 100 100 (1 / 20) False = 95 / 100"
  by (simp add: score_amount_def amount_band_def Let_def)

lemma demo_score_date: "score_date d d False \<in> {25 / 100, 1}"
  by (cases d) (simp_all add: score_date_def)

lemma demo_score:
  "d_amount (snd (score_pair default_config [] demo_tx demo_invoice ''invoice'')) = 95 / 100"
  using py_round_thousandths [of 950]
  by (simp add: score_pair_def Let_def demo_rows demo_currency default_config_def demo_score_amount)

lemma demo_total:
  "80 / 100 \<le> fst (score_pair default_config [] demo_tx demo_invoice ''invoice'')"
proof -
  have "fst (score_pair default_config [] demo_tx demo_invoice ''invoice'') =
    py_round 3 (25 / 100 * (95 / 100) + 25 / 100 * score_date (parse_date ''2026-01-15'') (parse_date ''2026-01-15'') False + 50 / 100)"
    using demo_texts(1)
    by (simp add: score_pair_def Let_def demo_rows demo_currency default_config_def demo_score_amount demo_texts(2-) str_or_def fx_weights_def)
  moreover have "80 / 100 \<le> 25 / 100 * (95 / 100) + 25 / 100 * score_date (parse_date ''2026-01-15'') (parse_date ''2026-01-15'') False + 50 / 100"
    using demo_score_date [of "parse_date ''2026-01-15''"] by auto
  moreover have "py_round 3 (80 / 100) = 80 / 100" using py_round_thousandths [of 800] by simp
  ultimately show ?thesis using py_round_mono [of "80/100" _ 3] by metis
qed

lemma demo_transfer: "transfer_score default_config [] demo_tx demo_counterpart \<noteq> None"
  using demo_texts(1)
  by (cases "parse_date ''2026-01-15''") (simp_all add: transfer_score_def Let_def demo_tx_def demo_counterpart_def default_config_def transfer_amounts_def
   transfer_date_score_def build_tx_text_def demo_texts(3) TRANSFER_MIN_SCORE_def)

lemma demo_transfer_index: "map_of (build_transfer_index default_config [] [demo_tx, demo_counterpart]) ''1'' \<noteq> None"
  using demo_transfer
  by (auto simp: build_transfer_index_def transfer_step_def put_transfer_def Let_def update_conv' demo_tx_def demo_counterpart_def split: option.splits)

theorem score_pair_bounds_witness:
  "weights_ok (invoice_weights default_config) \<and> weights_ok (expense_weights default_config) \<and>
   (\<exists>score d. score_pair default_config [] demo_tx demo_invoice ''invoice'' = (score, d) \<and> 0 \<le> score \<and> score \<le> 1)"
proof -
  obtain score d where s: "score_pair default_config [] demo_tx demo_invoice ''invoice'' = (score, d)" by fastforce
  show ?thesis using s default_weights_ok score_pair_bounds [OF default_weights_ok s] by auto
qed

text \<open>
  C25: the greedy assignment is exclusive and stable. In the result no candidate is suggested to
  two transactions or twice to one, no transaction gets more than the maximum, and the
  suggestions of a transaction come with descending scores. A scored pair of a transaction that is
  not among its suggestions was passed over for at least as good a reason: the candidate went to
  a pair with a score that is not lower, or the transaction is full of such pairs.
\<close>

theorem suggestions_exclusive_and_stable:
  assumes "map_of (compute_suggestions cfg fx now txs ap exps ar) i = Some mi"
    and "map_of (compute_suggestions cfg fx now txs ap exps ar) j = Some mj"
  shows "length (top_matches mi) \<le> max_suggestions cfg \<and> distinct (map cand_key (top_matches mi)) \<and>
    sorted_wrt (\<lambda>a b. sg_score b \<le> sg_score a) (top_matches mi) \<and>
    (i \<noteq> j \<longrightarrow> cand_key ` set (top_matches mi) \<inter> cand_key ` set (top_matches mj) = {}) \<and>
    (\<forall>key score sg. (i, key, score, sg) \<in> set (scored_pairs cfg fx txs ap exps ar) \<and> transfer_match mi = None \<longrightarrow>
       passed_over (max_suggestions cfg) (fst (greedy_assignment (max_suggestions cfg) (scored_pairs cfg fx txs ap exps ar)))
         (i, key, score, sg))"
proof -
  let ?ps = "scored_pairs cfg fx txs ap exps ar" and ?n = "max_suggestions cfg"
  let ?g = "greedy_assignment ?n ?ps" and ?tr = "build_transfer_index cfg fx txs"
  have ok: "list_all pair_ok ?ps" unfolding scored_pairs_def by (rule all_pairs_ok)
  obtain qs m cl where g: "?g = (m, cl)" "assigned_ok ?n qs (m, cl)" using greedy_assignment_ok(1) [OF ok] by (metis surj_pair)
  note D = assigned_okD [OF g(2)]
  have mi: "mi = result_for ?tr m now i" and mj: "mj = result_for ?tr m now j"
    using assms g(1) by (auto simp: compute_suggestions_lookup split: if_splits)
  have ti: "top_matches mi = [] \<or> top_matches mi = m i" and tj: "top_matches mj = [] \<or> top_matches mj = m j"
    by (simp_all add: mi mj result_for_def)
  have own: "length (top_matches mi) \<le> ?n \<and> distinct (map cand_key (top_matches mi)) \<and>
      sorted_wrt (\<lambda>a b. sg_score b \<le> sg_score a) (top_matches mi)"
    using ti D(1,2,3) [of i] by auto
  have "i \<noteq> j \<Longrightarrow> cand_key ` set (top_matches mi) \<inter> cand_key ` set (top_matches mj) = {}"
    using ti tj D(5) [of i j] by (elim disjE) simp_all
  then show ?thesis using own greedy_assignment_ok(2) [OF ok, of ?n] by blast
qed

lemma demo_results:
  "map_of (compute_suggestions default_config [] now [demo_tx] ap exps ar) ''1'' \<noteq> None"
  by (simp add: compute_suggestions_lookup demo_tx_def)

theorem suggestions_exclusive_and_stable_witness:
  "\<exists>mi. map_of (compute_suggestions default_config [] ''now'' [demo_tx] [demo_invoice] [] []) ''1'' = Some mi \<and>
     length (top_matches mi) \<le> 3 \<and> distinct (map cand_key (top_matches mi))"
proof -
  obtain mi where m: "map_of (compute_suggestions default_config [] ''now'' [demo_tx] [demo_invoice] [] []) ''1'' = Some mi"
    using demo_results by blast
  from suggestions_exclusive_and_stable [OF m m] m show ?thesis by (simp add: default_config_def)
qed

text \<open>
  The index loses no acceptable candidate in the same currency. Under the default
  configuration, a candidate whose currency is the transaction's and whose amount score reaches
  the bound for a suggestion is in one of the three buckets that are looked up.
\<close>

theorem bucket_lookup_complete:
  assumes "cand \<in> set items" and "currency_of (c_currency cand) = currency_of (tx_currency tx)"
    and "score_pair default_config fx tx cand ct = (score, d)" and "40 / 100 \<le> d_amount d"
  shows "cand \<in> set (get_bucket_candidates default_config \<bar>tx_amount tx\<bar> (build_amount_index default_config items))"
proof -
  have na: "c_amount cand \<noteq> 0" using assms(3,4) by (auto simp: score_pair_def no_details_def)
  let ?s = "score_amount \<bar>tx_amount tx\<bar> \<bar>c_amount cand\<bar> (5 / 100) False"
  have "d_amount d = py_round 3 ?s"
    using assms(2,3) na by (auto simp: score_pair_def Let_def default_config_def)
  then have "0 < py_round 3 ?s" using assms(4) by simp
  moreover have "py_round 3 0 = 0" by (simp add: py_round_def round_half_even_def)
  ultimately have "?s \<noteq> 0" by auto
  then have "0 < ?s" using score_amount_bounds [of "\<bar>tx_amount tx\<bar>" "\<bar>c_amount cand\<bar>" "5 / 100" False] by linarith
  then have n: "\<bar>tx_amount tx\<bar> \<noteq> 0 \<and> \<bar>c_amount cand\<bar> \<noteq> 0 \<and>
      \<bar>\<bar>tx_amount tx\<bar> - \<bar>c_amount cand\<bar>\<bar> / max \<bar>\<bar>tx_amount tx\<bar>\<bar> \<bar>\<bar>c_amount cand\<bar>\<bar> \<le> 20 / 100"
    by (rule score_amount_near) simp
  let ?x = "\<bar>tx_amount tx\<bar>" and ?y = "\<bar>c_amount cand\<bar>"
  have pos: "0 < ?x" "0 < ?y" using n by simp_all
  have "\<bar>amount_bucket default_config ?x - amount_bucket default_config ?y\<bar> \<le> 1"
    by (rule default_bucket_near [OF pos]) (use n in \<open>simp only: abs_abs\<close>)
  then have "amount_bucket default_config ?y \<in> {amount_bucket default_config ?x - 1, amount_bucket default_config ?x, amount_bucket default_config ?x + 1}"
    by auto
  then show ?thesis using assms(1) na pos
    by (auto simp: get_bucket_candidates_def build_amount_index_def Let_def)
qed

theorem bucket_lookup_complete_witness:
  "demo_invoice \<in> set (get_bucket_candidates default_config \<bar>tx_amount demo_tx\<bar> (build_amount_index default_config [demo_invoice]))"
proof (rule bucket_lookup_complete)
  show "score_pair default_config [] demo_tx demo_invoice ''invoice'' =
    (fst (score_pair default_config [] demo_tx demo_invoice ''invoice''), snd (score_pair default_config [] demo_tx demo_invoice ''invoice''))" by simp
  show "40 / 100 \<le> d_amount (snd (score_pair default_config [] demo_tx demo_invoice ''invoice''))" by (simp add: demo_score)
qed (simp_all add: demo_rows demo_currency)

text \<open>
  A transaction without any reference is given the full reference score. The two empty
  references are joined by a space, which is not an empty text but is stripped to one, and the
  empty text is contained in every reference of a candidate.
\<close>

theorem missing_reference_scores_full:
  assumes "tx_reference tx = []" and "tx_payment_ref tx = []" and "c_amount cand \<noteq> 0" and "c_ref cand \<noteq> []"
  shows "d_reference (snd (score_pair cfg fx tx cand ''invoice'')) = 1"
proof -
  have "py_strip (py_lower '' '') = []" by code_simp
  moreover have "py_in [] x" for x by (cases x) auto
  ultimately have t: "text_similarity '' '' (c_ref cand) = 1" using assms(4) by (simp add: text_similarity_def Let_def)
  have "py_round 3 1 = 1" using round_half_even_of_int [of 1000] by (simp add: py_round_def)
  then show ?thesis using assms t by (simp add: score_pair_def Let_def str_or_def)
qed

theorem missing_reference_scores_full_witness:
  "d_reference (snd (score_pair default_config [] demo_tx demo_invoice ''invoice'')) = 1"
  by (rule missing_reference_scores_full) (simp_all add: demo_rows)

text \<open>
  C32: transfers exclude suggestions and are sound. A transaction with a transfer has no other
  suggestion, and its transfer names a transaction of the batch with an amount of the opposite
  sign on another account, with a score of at least seventy percent.
\<close>

theorem transfers_sound:
  assumes "map_of (compute_suggestions cfg fx now txs ap exps ar) i = Some mi" and "transfer_match mi = Some t"
  shows "top_matches mi = [] \<and> 70 / 100 \<le> tr_score t \<and>
    (\<exists>a \<in> set txs. \<exists>b \<in> set txs. tx_id a = i \<and> tr_counterpart_tx_id t = tx_id b \<and> tr_counterpart_amount t = tx_amount b \<and>
       tx_amount a * tx_amount b < 0 \<and> tx_account_id a \<noteq> tx_account_id b)"
proof -
  have mi: "mi = result_for (build_transfer_index cfg fx txs)
      (fst (greedy_assignment (max_suggestions cfg) (scored_pairs cfg fx txs ap exps ar))) now i"
    using assms(1) by (simp add: compute_suggestions_lookup split: if_splits)
  then have t: "map_of (build_transfer_index cfg fx txs) i = Some t" and e: "top_matches mi = []"
    using assms(2) by (auto simp: result_for_def)
  obtain a b where "a \<in> set txs" "b \<in> set txs" "tx_id a = i" "opposite a b" "tr_counterpart_tx_id t = tx_id b"
    "tr_counterpart_amount t = tx_amount b" "TRANSFER_MIN_SCORE \<le> tr_score t"
    using transfer_index_ok [of txs cfg fx] t unfolding transfers_ok_def by blast
  then show ?thesis using e by (auto simp: opposite_def TRANSFER_MIN_SCORE_def)
qed

theorem transfers_sound_witness:
  "\<exists>mi t. map_of (compute_suggestions default_config [] ''now'' [demo_tx, demo_counterpart] [demo_invoice] [] []) ''1'' = Some mi \<and>
     transfer_match mi = Some t \<and> top_matches mi = [] \<and> 70 / 100 \<le> tr_score t \<and> tr_counterpart_tx_id t \<in> {''1'', ''2''}"
proof -
  let ?r = "compute_suggestions default_config [] ''now'' [demo_tx, demo_counterpart] [demo_invoice] [] []"
  obtain t where t: "map_of (build_transfer_index default_config [] [demo_tx, demo_counterpart]) ''1'' = Some t"
    using demo_transfer_index by blast
  obtain mi where m: "map_of ?r ''1'' = Some mi" "transfer_match mi = Some t"
    using t by (simp add: compute_suggestions_lookup result_for_def demo_tx_def)
  show ?thesis using transfers_sound [OF m] m by (auto simp: demo_tx_def demo_counterpart_def)
qed

text \<open>
  A new candidate keeps the lists in order. Whatever the transactions and the candidate, every
  updated transaction has its suggestions in descending order of score; if the former ones were
  at most the maximum in number and of distinct candidates, so are the new ones; the rest of
  the transaction and the number and order of the transactions do not change.
\<close>

theorem update_keeps_lists:
  assumes "update_tx cfg now (score_single_candidate cfg fx cand ct txs) tx = Some tx'"
  shows "\<exists>ms. tx_match_suggestions tx' = Some ms \<and> sorted_wrt (\<lambda>a b. sg_score b \<le> sg_score a) (top_matches ms) \<and>
    tx'\<lparr>tx_match_suggestions := None\<rparr> = tx\<lparr>tx_match_suggestions := None\<rparr> \<and>
    ((\<forall>old. tx_match_suggestions tx = Some old \<longrightarrow>
        length (top_matches old) \<le> max_suggestions cfg \<and> distinct (map cand_key (top_matches old))) \<longrightarrow>
      length (top_matches ms) \<le> max_suggestions cfg \<and> distinct (map cand_key (top_matches ms))) \<and>
    map tx_id (fst (update_suggestions_with_candidate cfg fx now txs cand ct)) = map tx_id txs"
proof -
  define old where "old = (case tx_match_suggestions tx of Some e \<Rightarrow> e | None \<Rightarrow> \<lparr>top_matches = [], transfer_match = None, scored_at = []\<rparr>)"
  obtain new ys where u: "merge_suggestion (max_suggestions cfg) new (top_matches old) = Some ys"
    "tx' = tx\<lparr>tx_match_suggestions := Some (old\<lparr>top_matches := by_score_desc sg_score ys, scored_at := now\<rparr>)\<rparr>"
    using assms by (auto simp: update_tx_def old_def Let_def split: option.splits)
  have ids: "map tx_id (fst (update_suggestions_with_candidate cfg fx now txs cand ct)) = map tx_id txs"
    by (auto simp: update_suggestions_with_candidate_def Let_def update_tx_def split: option.split)
  have keep: "length ys \<le> max_suggestions cfg \<and> distinct (map cand_key ys)"
    if "\<forall>o'. tx_match_suggestions tx = Some o' \<longrightarrow> length (top_matches o') \<le> max_suggestions cfg \<and> distinct (map cand_key (top_matches o'))"
  proof -
    have "length (top_matches old) \<le> max_suggestions cfg" "distinct (map cand_key (top_matches old))"
      using that by (simp_all add: old_def split: option.split)
    then show ?thesis using merge_suggestion_length [OF u(1)] merge_suggestion_distinct [OF u(1)] by blast
  qed
  show ?thesis
    using ids keep by (intro exI [of _ "old\<lparr>top_matches := by_score_desc sg_score ys, scored_at := now\<rparr>"])
      (auto simp: u(2) by_score_desc_sorted intro: by_score_desc_distinct)
qed

theorem update_keeps_lists_witness:
  "\<exists>tx' ms. update_tx default_config ''now'' (score_single_candidate default_config [] demo_invoice ''invoice'' [demo_tx]) demo_tx = Some tx' \<and>
     tx_match_suggestions tx' = Some ms \<and> length (top_matches ms) \<le> 3"
proof -
  let ?u = "update_tx default_config ''now'' (score_single_candidate default_config [] demo_invoice ''invoice'' [demo_tx]) demo_tx"
  obtain score d where sp: "score_pair default_config [] demo_tx demo_invoice ''invoice'' = (score, d)" by fastforce
  then have ok: "80 / 100 \<le> score" "d_amount d = 95 / 100" using demo_score demo_total by simp_all
  have row: "tx_amount demo_tx < 0" "tx_match_suggestions demo_tx = None" by (simp_all add: demo_tx_def)
  have cfg: "min_display_threshold default_config = 35 / 100" "max_suggestions default_config = 3" by (simp_all add: default_config_def)
  obtain tx' where u: "?u = Some tx'"
    using ok row by (simp add: update_tx_def score_single_candidate_def merge_suggestion_def sp cfg)
  show ?thesis using u update_keeps_lists [OF u] by (auto simp: demo_tx_def default_config_def)
qed

end
