(* ===== verification/Firestore_Client.thy ===== *)
theory Firestore_Client
  imports Redis_Client
begin

text \<open>
  Firestore is a service outside the repository, so it is a parameter like Redis: a record of the
  calls the service makes, over an abstract server state. The locale \<open>firestore_server\<close> states the
  documented effect of a call that returns, over the documents of every collection;
  \<open>firestore_up\<close> adds that the calls return. A document reference is a collection path and a document
  identifier without a slash.

  \<open>mem_firestore\<close> is an in-memory server that interprets both locales and runs the witnesses.
\<close>

section \<open>Documents and field updates\<close>

type_synonym fview = "string \<Rightarrow> string \<Rightarrow> pydict option"

text \<open>A value, or \<open>firestore.ArrayUnion\<close>.\<close>

datatype field_op = FSet pyval | FArrayUnion "pyval list"

definition array_of :: "pyval \<Rightarrow> pyval list" where
  "array_of v = (case v of PList xs \<Rightarrow> xs | _ \<Rightarrow> [])"

fun field_value :: "field_op \<Rightarrow> pyval \<Rightarrow> pyval" where
  "field_value (FSet v) old = v"
| "field_value (FArrayUnion xs) old = PList (foldl (\<lambda>a x. if x \<in> set a then a else a @ [x]) (array_of old) xs)"

text \<open>The keys of an update are paths of field names separated by dots.\<close>

fun set_field :: "string list \<Rightarrow> field_op \<Rightarrow> pydict \<Rightarrow> pydict" where
  "set_field [] op d = d"
| "set_field [k] op d = dset d k (field_value op (dget d k))"
| "set_field (k # ks) op d = dset d k (PDict (set_field ks op (case dget d k of PDict e \<Rightarrow> e | _ \<Rightarrow> [])))"

definition field_path_ok :: "string \<Rightarrow> bool" where
  "field_path_ok p \<longleftrightarrow> list_all (\<lambda>c. c \<notin> set ''~*/[]'') p \<and> [] \<notin> set (split_on CHR ''.'' p)"

type_synonym field_updates = "(string \<times> field_op) list"

definition apply_updates :: "field_updates \<Rightarrow> pydict \<Rightarrow> pydict" where
  "apply_updates ups d = foldl (\<lambda>d (p, op). set_field (split_on CHR ''.'' p) op d) d ups"

section \<open>The client interface\<close>

record 's firestore =
  f_get :: "string \<Rightarrow> string \<Rightarrow> 's \<Rightarrow> pydict option result \<times> 's"
  f_set :: "string \<Rightarrow> string \<Rightarrow> pydict \<Rightarrow> 's \<Rightarrow> unit result \<times> 's"
  f_update :: "string \<Rightarrow> string \<Rightarrow> field_updates \<Rightarrow> 's \<Rightarrow> unit result \<times> 's"
  f_delete :: "string \<Rightarrow> string \<Rightarrow> 's \<Rightarrow> unit result \<times> 's"
  f_where :: "string \<Rightarrow> string \<Rightarrow> pyval \<Rightarrow> 's \<Rightarrow> (string \<times> pydict) list result \<times> 's"
  f_where_first :: "string \<Rightarrow> string \<Rightarrow> pyval \<Rightarrow> string \<Rightarrow> 's \<Rightarrow> (string \<times> pydict) list result \<times> 's"

text \<open>
  The documents of a collection with a given value of a field: \<open>where(field == v)\<close>; and those of
  them that \<open>order_by(order)\<close> keeps, which have the field \<open>order\<close>.
\<close>

definition matching :: "fview \<Rightarrow> string \<Rightarrow> string \<Rightarrow> pyval \<Rightarrow> (string \<times> pydict) set" where
  "matching vw c f v = {(i, d). vw c i = Some d \<and> map_of d f = Some v}"

definition ordered_matching :: "fview \<Rightarrow> string \<Rightarrow> string \<Rightarrow> pyval \<Rightarrow> string \<Rightarrow> (string \<times> pydict) set" where
  "ordered_matching vw c f v ord = {(i, d) \<in> matching vw c f v. map_of d ord \<noteq> None}"

fun str_of :: "pyval \<Rightarrow> string" where
  "str_of (PStr t) = t"
| "str_of _ = []"

fun is_str :: "pyval \<Rightarrow> bool" where
  "is_str (PStr t) = True"
| "is_str _ = False"

definition put_doc :: "fview \<Rightarrow> string \<Rightarrow> string \<Rightarrow> pydict option \<Rightarrow> fview" where
  "put_doc vw c i d = vw(c := (vw c)(i := d))"

lemma put_doc_apply [simp]: "put_doc vw c i d c' i' = (if c' = c \<and> i' = i then d else vw c' i')"
  by (simp add: put_doc_def)

lemma put_doc_twice [simp]: "put_doc (put_doc vw c i d) c i d' = put_doc vw c i d'"
  by (simp add: put_doc_def)

locale firestore_server =
  fixes fs :: "'s firestore" and docs :: "'s \<Rightarrow> fview"
  assumes f_get_law: "f_get fs c i s = (Inr r, s') \<Longrightarrow> r = docs s c i \<and> docs s' = docs s"
    and f_set_law: "f_set fs c i d s = (Inr u, s') \<Longrightarrow> docs s' = put_doc (docs s) c i (Some d)"
    and f_update_law: "f_update fs c i ups s = (Inr u, s') \<Longrightarrow>
        list_all (\<lambda>p. field_path_ok (fst p)) ups \<and>
        (\<exists>d. docs s c i = Some d \<and> docs s' = put_doc (docs s) c i (Some (apply_updates ups d)))"
    and f_delete_law: "f_delete fs c i s = (Inr u, s') \<Longrightarrow> docs s' = put_doc (docs s) c i None"
    and f_where_law: "f_where fs c f v s = (Inr ds, s') \<Longrightarrow>
        set ds = matching (docs s) c f v \<and> distinct (map fst ds) \<and> sorted (map fst ds) \<and> docs s' = docs s"
    and f_first_law: "f_where_first fs c f v ord s = (Inr ds, s') \<Longrightarrow>
        \<forall>(i, d) \<in> ordered_matching (docs s) c f v ord. is_str (dget d ord) \<Longrightarrow>
        docs s' = docs s \<and>
        (if ordered_matching (docs s) c f v ord = {} then ds = []
         else \<exists>i d. ds = [(i, d)] \<and> (i, d) \<in> ordered_matching (docs s) c f v ord \<and>
            (\<forall>(i', d') \<in> ordered_matching (docs s) c f v ord. str_of (dget d ord) \<le> str_of (dget d' ord)))"

locale firestore_up = firestore_server +
  assumes f_get_ok: "\<exists>r s'. f_get fs c i s = (Inr r, s')"
    and f_set_ok: "\<exists>s'. f_set fs c i d s = (Inr (), s')"
    and f_update_ok: "docs s c i \<noteq> None \<Longrightarrow> list_all (\<lambda>p. field_path_ok (fst p)) ups \<Longrightarrow> \<exists>s'. f_update fs c i ups s = (Inr (), s')"
    and f_delete_ok: "\<exists>s'. f_delete fs c i s = (Inr (), s')"
    and f_where_ok: "\<exists>ds s'. f_where fs c f v s = (Inr ds, s')"
    and f_first_ok: "\<exists>ds s'. f_where_first fs c f v ord s = (Inr ds, s')"
begin

text \<open>With the server up, a call is a function of the documents.\<close>

lemma f_get_up:
  obtains s' where "f_get fs c i s = (Inr (docs s c i), s')" "docs s' = docs s"
proof -
  obtain r s' where r: "f_get fs c i s = (Inr r, s')" using f_get_ok by blast
  show thesis using that [of s'] r f_get_law [OF r] by simp
qed

lemma f_set_up:
  obtains s' where "f_set fs c i d s = (Inr (), s')" "docs s' = put_doc (docs s) c i (Some d)"
proof -
  obtain s' where r: "f_set fs c i d s = (Inr (), s')" using f_set_ok by blast
  show thesis using that [OF r] f_set_law [OF r] by blast
qed

lemma f_update_up:
  assumes "docs s c i = Some d" and "list_all (\<lambda>p. field_path_ok (fst p)) ups"
  obtains s' where "f_update fs c i ups s = (Inr (), s')" "docs s' = put_doc (docs s) c i (Some (apply_updates ups d))"
proof -
  have n: "docs s c i \<noteq> None" using assms(1) by simp
  obtain s' where r: "f_update fs c i ups s = (Inr (), s')" using f_update_ok [OF n assms(2)] by blast
  show thesis using that [OF r] f_update_law [OF r] assms(1) by auto
qed

lemma f_delete_up:
  obtains s' where "f_delete fs c i s = (Inr (), s')" "docs s' = put_doc (docs s) c i None"
proof -
  obtain s' where r: "f_delete fs c i s = (Inr (), s')" using f_delete_ok by blast
  show thesis using that [OF r] f_delete_law [OF r] by blast
qed

lemma f_where_up:
  obtains ds s' where "f_where fs c f v s = (Inr ds, s')" "set ds = matching (docs s) c f v"
    "distinct (map fst ds)" "sorted (map fst ds)" "docs s' = docs s"
proof -
  obtain ds s' where r: "f_where fs c f v s = (Inr ds, s')" using f_where_ok by blast
  show thesis using that [OF r] f_where_law [OF r] by blast
qed

end

section \<open>An in-memory server\<close>

type_synonym mem_docs = "((string \<times> string) \<times> pydict) list"

definition mem_docs_view :: "mem_docs \<Rightarrow> fview" where
  "mem_docs_view s c i = map_of s (c, i)"

definition mem_matching :: "mem_docs \<Rightarrow> string \<Rightarrow> string \<Rightarrow> pyval \<Rightarrow> (string \<times> pydict) list" where
  "mem_matching s c f v =
     map (\<lambda>i. (i, the (map_of s (c, i))))
       (filter (\<lambda>i. case map_of s (c, i) of Some d \<Rightarrow> map_of d f = Some v | None \<Rightarrow> False)
          (sort (remdups (map snd (filter (\<lambda>ci. fst ci = c) (map fst s))))))"

definition NotFound :: exn where
  "NotFound = ServiceError ''404 No document to update''"

definition mem_firestore :: "mem_docs firestore" where
  "mem_firestore = \<lparr>
     f_get = (\<lambda>c i s. (Inr (map_of s (c, i)), s)),
     f_set = (\<lambda>c i d s. (Inr (), AList.update (c, i) d s)),
     f_update = (\<lambda>c i ups s. if \<not> list_all (\<lambda>p. field_path_ok (fst p)) ups then (Inl (ValueError ''path''), s)
        else case map_of s (c, i) of None \<Rightarrow> (Inl NotFound, s)
             | Some d \<Rightarrow> (Inr (), AList.update (c, i) (apply_updates ups d) s)),
     f_delete = (\<lambda>c i s. (Inr (), AList.delete (c, i) s)),
     f_where = (\<lambda>c f v s. (Inr (mem_matching s c f v), s)),
     f_where_first = (\<lambda>c f v ord s.
        (Inr (take 1 (sort_key (\<lambda>(i, d). str_of (dget d ord)) (filter (\<lambda>(i, d). map_of d ord \<noteq> None) (mem_matching s c f v)))), s))
   \<rparr>"

lemma set_mem_matching: "set (mem_matching s c f v) = matching (mem_docs_view s) c f v"
  by (auto simp: mem_matching_def matching_def mem_docs_view_def image_iff split: option.splits)
    (metis (no_types, lifting) fst_conv map_of_SomeD snd_conv)

lemma mem_matching_ids: "distinct (map fst (mem_matching s c f v))" "sorted (map fst (mem_matching s c f v))"
  by (simp_all add: mem_matching_def comp_def sorted_filter [of "\<lambda>x. x", simplified])

lemma hd_sort_key_min:
  assumes "xs \<noteq> []"
  shows "hd (sort_key f xs) \<in> set xs \<and> (\<forall>x \<in> set xs. f (hd (sort_key f xs)) \<le> f x)"
proof -
  have n: "sort_key f xs \<noteq> []" using assms by (metis set_empty set_sort)
  have "sorted (map f (sort_key f xs))" by simp
  then have "\<forall>y \<in> set (sort_key f xs). f (hd (sort_key f xs)) \<le> f y"
    using n by (cases "sort_key f xs") auto
  then show ?thesis using n by (metis hd_in_set set_sort)
qed

lemma take1_sort_key:
  "take 1 (sort_key f xs) = (if xs = [] then [] else [hd (sort_key f xs)])"
  by (cases "sort_key f xs") (auto, (metis set_empty set_sort)+)

interpretation memf: firestore_up mem_firestore mem_docs_view
proof (unfold_locales, goal_cases)
  case (6 c f v ord s ds s')
  let ?xs = "filter (\<lambda>(i, d). map_of d ord \<noteq> None) (mem_matching s c f v)"
  let ?k = "\<lambda>(i, d). str_of (dget d ord)"
  have set: "set ?xs = ordered_matching (mem_docs_view s) c f v ord"
    by (auto simp: set_mem_matching ordered_matching_def)
  have ds: "ds = take 1 (sort_key ?k ?xs)" "s' = s" using 6 by (auto simp: mem_firestore_def)
  show ?case
  proof (cases "?xs = []")
    case True
    then have "ordered_matching (mem_docs_view s) c f v ord = {}" using set by (metis list.set(1))
    then show ?thesis using ds True by simp
  next
    case False
    then have "ordered_matching (mem_docs_view s) c f v ord \<noteq> {}" using set by (metis set_empty)
    moreover obtain i d where h: "hd (sort_key ?k ?xs) = (i, d)" by fastforce
    moreover have "ds = [(i, d)]" using ds(1) False h unfolding take1_sort_key by simp
    moreover have "(i, d) \<in> set ?xs \<and> (\<forall>x \<in> set ?xs. ?k (i, d) \<le> ?k x)"
      using hd_sort_key_min [OF False, of ?k] h by metis
    ultimately show ?thesis using ds(2) unfolding set by auto
  qed
qed (auto simp: mem_firestore_def mem_docs_view_def put_doc_def fun_eq_iff set_mem_matching mem_matching_ids
      delete_conv' split: if_splits option.splits)

lemma mem_firestore_up: "firestore_up mem_firestore mem_docs_view"
  by unfold_locales

end
