(* ===== verification/Mandate_Path.thy ===== *)
theory Mandate_Path
  imports Prelude
begin

text \<open>
  The encoding of a mandate path as one segment of a Firestore path, \<open>_encode_mandate_path\<close> and
  \<open>_decode_mandate_path\<close> of \<open>src/app/active_job_manager.py\<close>, with the parts of the standard library they
  use: \<open>str.replace\<close>, \<open>base64.urlsafe_b64encode\<close>, \<open>base64.urlsafe_b64decode\<close> (which skips characters
  outside the alphabet and stops at the padding) and the check of UTF-8.
\<close>

section \<open>Definitions\<close>

subsection \<open>Standard library\<close>

text \<open>\<open>s.replace(p, r)\<close> for a non-empty \<open>p\<close>: the occurrences from left to right.\<close>

function py_replace :: "string \<Rightarrow> string \<Rightarrow> string \<Rightarrow> string" where
  "py_replace p r [] = []"
| "py_replace p r (x # xs) =
     (if p \<noteq> [] \<and> starts_with p (x # xs) then r @ py_replace p r (drop (length p - 1) xs)
      else x # py_replace p r xs)"
  by pat_completeness auto

termination by (relation "measure (\<lambda>(p, r, s). length s)") auto

definition code_points :: "string \<Rightarrow> nat" where
  "code_points s = length (filter utf8_start s)"

text \<open>The alphabet for URLs: capital and small letters, digits, \<open>-\<close> and \<open>_\<close>.\<close>

definition b64_char :: "nat \<Rightarrow> char" where
  "b64_char n =
     (if n < 26 then char_of (65 + n) else if n < 52 then char_of (71 + n)
      else if n < 62 then char_of (n - 4) else if n = 62 then CHR ''-'' else CHR ''_'')"

fun b64_encode :: "string \<Rightarrow> string" where
  "b64_encode [] = []"
| "b64_encode [a] = [b64_char (code a div 4), b64_char (code a mod 4 * 16), CHR ''='', CHR ''='']"
| "b64_encode [a, b] =
     [b64_char (code a div 4), b64_char (code a mod 4 * 16 + code b div 16), b64_char (code b mod 16 * 4), CHR ''='']"
| "b64_encode (a # b # c # rest) =
     [b64_char (code a div 4), b64_char (code a mod 4 * 16 + code b div 16),
      b64_char (code b mod 16 * 4 + code c div 64), b64_char (code c mod 64)] @ b64_encode rest"

text \<open>The value of a character; the standard alphabet is accepted beside the one for URLs.\<close>

definition b64_value :: "char \<Rightarrow> nat option" where
  "b64_value c =
     (let n = code c in
      if 65 \<le> n \<and> n \<le> 90 then Some (n - 65)
      else if 97 \<le> n \<and> n \<le> 122 then Some (n - 71)
      else if 48 \<le> n \<and> n \<le> 57 then Some (n + 4)
      else if c = CHR ''-'' \<or> c = CHR ''+'' then Some 62
      else if c = CHR ''_'' \<or> c = CHR ''/'' then Some 63
      else None)"

text \<open>
  The decoder: position in the group of four, bits left over, number of padding characters.
  \<open>None\<close> is \<open>binascii.Error\<close>.
\<close>

fun a2b :: "string \<Rightarrow> nat \<Rightarrow> nat \<Rightarrow> nat \<Rightarrow> string option" where
  "a2b [] q l p = (if q = 0 then Some [] else None)"
| "a2b (c # cs) q l p =
     (if c = CHR ''='' then
        (if 2 \<le> q then (if 4 \<le> q + p + 1 then Some [] else a2b cs q l (p + 1)) else a2b cs q l p)
      else case b64_value c of
        None \<Rightarrow> a2b cs q l p
      | Some v \<Rightarrow>
          if q = 0 then a2b cs 1 v 0
          else if q = 1 then map_option (Cons (char_of (l * 4 + v div 16))) (a2b cs 2 (v mod 16) 0)
          else if q = 2 then map_option (Cons (char_of (l * 16 + v div 4))) (a2b cs 3 (v mod 4) 0)
          else map_option (Cons (char_of (l * 64 + v))) (a2b cs 0 0 0))"

definition cont_byte :: "char \<Rightarrow> bool" where
  "cont_byte c \<longleftrightarrow> 128 \<le> code c \<and> code c < 192"

text \<open>The number of bytes of a sequence by its first byte, and the bounds of the second.\<close>

definition lead_info :: "nat \<Rightarrow> (nat \<times> nat \<times> nat) option" where
  "lead_info n =
     (if 194 \<le> n \<and> n \<le> 223 then Some (1, 128, 191)
      else if n = 224 then Some (2, 160, 191)
      else if n = 237 then Some (2, 128, 159)
      else if 225 \<le> n \<and> n \<le> 239 then Some (2, 128, 191)
      else if n = 240 then Some (3, 144, 191)
      else if 241 \<le> n \<and> n \<le> 243 then Some (3, 128, 191)
      else if n = 244 then Some (3, 128, 143)
      else None)"

function utf8_valid :: "string \<Rightarrow> bool" where
  "utf8_valid [] = True"
| "utf8_valid (c # cs) =
     (if code c < 128 then utf8_valid cs
      else case lead_info (code c) of
        None \<Rightarrow> False
      | Some (k, lo, hi) \<Rightarrow>
          k \<le> length cs \<and> lo \<le> code (hd cs) \<and> code (hd cs) \<le> hi \<and> list_all cont_byte (take k cs) \<and> utf8_valid (drop k cs))"
  by pat_completeness auto

termination by (relation "measure length") auto

subsection \<open>Encoding and decoding\<close>

definition escape_path :: "string \<Rightarrow> string" where
  "escape_path mandate_path =
     py_replace ''#'' ''_hash_'' (py_replace ''.'' ''_dot_'' (py_replace ''/'' ''_'' mandate_path))"

definition rstrip_pad :: "string \<Rightarrow> string" where
  "rstrip_pad s = rev (dropWhile (\<lambda>c. c = CHR ''='') (rev s))"

definition encode_mandate_path :: "string \<Rightarrow> string" where
  "encode_mandate_path mandate_path =
     (if mandate_path = [] then ''unknown''
      else
        let encoded = escape_path mandate_path in
        if 1000 < code_points encoded then ''b64_'' @ rstrip_pad (b64_encode mandate_path) else encoded)"

definition repad :: "string \<Rightarrow> string" where
  "repad b64_part =
     (let padding = 4 - code_points b64_part mod 4 in
      if padding \<noteq> 4 then b64_part @ replicate padding CHR ''='' else b64_part)"

definition decode_mandate_path :: "string \<Rightarrow> string" where
  "decode_mandate_path encoded_path =
     (if encoded_path = [] \<or> encoded_path = ''unknown'' then []
      else if starts_with ''b64_'' encoded_path then
        (if \<exists>c \<in> set (drop 4 encoded_path). 128 \<le> code c then encoded_path
         else case a2b (repad (drop 4 encoded_path)) 0 0 0 of
           None \<Rightarrow> encoded_path
         | Some bytes \<Rightarrow> if utf8_valid bytes then bytes else encoded_path)
      else py_replace ''_'' ''/'' (py_replace ''_hash_'' ''#'' (py_replace ''_dot_'' ''.'' encoded_path)))"

section \<open>Library lemmas\<close>

subsection \<open>Replacement\<close>

lemma py_replace_char: "py_replace [x] r s = concat (map (\<lambda>c. if c = x then r else [c]) s)"
  by (induction s) auto

lemma py_replace_absent: "\<not> py_in p s \<Longrightarrow> py_replace p r s = s"
  by (induction s) auto

lemma concat_map_id: "(\<forall>c \<in> set s. f c = [c]) \<Longrightarrow> concat (map f s) = s"
  by (induction s) auto

subsection \<open>Base 64\<close>

lemma code_special: "code CHR ''='' = 61" "code CHR ''-'' = 45" "code CHR ''_'' = 95"
  by (simp_all add: code_def)

lemma b64_char:
  assumes "n < 64"
  shows "b64_value (b64_char n) = Some n" "b64_char n \<noteq> CHR ''=''" "code (b64_char n) < 128"
proof -
  consider "n < 26" | "26 \<le> n \<and> n < 52" | "52 \<le> n \<and> n < 62" | "n = 62" | "n = 63" using assms by linarith
  then have "b64_value (b64_char n) = Some n \<and> code (b64_char n) \<noteq> 61 \<and> code (b64_char n) < 128"
  proof cases
    case 3
    then have k: "n = (n - 4) + 4" "48 \<le> n - 4" "n - 4 \<le> 57" by auto
    then have "b64_char n = char_of (n - 4)" "code (char_of (n - 4)) = n - 4" using 3 by (simp_all add: b64_char_def code_char_of)
    then show ?thesis using k by (simp add: b64_value_def Let_def)
  qed (simp_all add: b64_char_def b64_value_def Let_def code_char_of code_special)
  then show "b64_value (b64_char n) = Some n" "b64_char n \<noteq> CHR ''=''" "code (b64_char n) < 128"
    by (auto simp: code_special)
qed

lemma byte_bounds:
  "code a div 4 < 64" "code a mod 4 * 16 < 64" "code a mod 4 * 16 + code b div 16 < 64"
  "code b mod 16 * 4 < 64" "code b mod 16 * 4 + code c div 64 < 64" "code c mod 64 < 64"
  using code_less [of a] code_less [of b] code_less [of c] by (auto simp: less_mult_imp_div_less)

lemma char_of_code [simp]: "char_of (code c) = c"
  by (simp add: code_def)

lemma join_16: "(q :: nat) < 16 \<Longrightarrow> (k * 16 + q) div 16 = k \<and> (k * 16 + q) mod 16 = q"
  by simp

lemma join_4: "(q :: nat) < 4 \<Longrightarrow> (k * 4 + q) div 4 = k \<and> (k * 4 + q) mod 4 = q"
  by simp

lemma byte_parts:
  "code a div 4 * 4 + (code a mod 4 * 16) div 16 = code a"
  "code a div 4 * 4 + (code a mod 4 * 16 + code b div 16) div 16 = code a"
  "(code a mod 4 * 16 + code b div 16) mod 16 * 16 + (code b mod 16 * 4) div 4 = code b"
  "(code a mod 4 * 16 + code b div 16) mod 16 * 16 + (code b mod 16 * 4 + code c div 64) div 4 = code b"
  "(code b mod 16 * 4 + code c div 64) mod 4 * 64 + code c mod 64 = code c"
proof -
  have b: "code b div 16 < 16" "code c div 64 < 4" using code_less [of b] code_less [of c] by (auto simp: less_mult_imp_div_less)
  note j = join_16 [OF b(1)] join_4 [OF b(2)]
  show "code a div 4 * 4 + (code a mod 4 * 16) div 16 = code a" by simp
  show "code a div 4 * 4 + (code a mod 4 * 16 + code b div 16) div 16 = code a" by (simp only: j) simp
  show "(code a mod 4 * 16 + code b div 16) mod 16 * 16 + (code b mod 16 * 4) div 4 = code b" by (simp only: j) simp
  show "(code a mod 4 * 16 + code b div 16) mod 16 * 16 + (code b mod 16 * 4 + code c div 64) div 4 = code b" by (simp only: j) simp
  show "(code b mod 16 * 4 + code c div 64) mod 4 * 64 + code c mod 64 = code c" by (simp only: j) simp
qed

lemma a2b_group:
  assumes "x < 64" "y < 64" "z < 64" "w < 64"
  shows "a2b (b64_char x # b64_char y # b64_char z # b64_char w # r) 0 0 0 =
    map_option (\<lambda>t. char_of (x * 4 + y div 16) # char_of (y mod 16 * 16 + z div 4) # char_of (z mod 4 * 64 + w) # t) (a2b r 0 0 0)"
  using assms by (simp add: b64_char option.map_comp comp_def)

lemma a2b_three:
  assumes "x < 64" "y < 64" "z < 64"
  shows "a2b [b64_char x, b64_char y, b64_char z, CHR ''=''] 0 0 0 = Some [char_of (x * 4 + y div 16), char_of (y mod 16 * 16 + z div 4)]"
  using assms by (simp add: b64_char)

lemma a2b_two:
  assumes "x < 64" "y < 64"
  shows "a2b [b64_char x, b64_char y, CHR ''='', CHR ''=''] 0 0 0 = Some [char_of (x * 4 + y div 16)]"
  using assms by (simp add: b64_char)

lemma a2b_encode: "a2b (b64_encode s) 0 0 0 = Some s"
proof (induction s rule: b64_encode.induct)
  case (2 a)
  show ?case by (simp only: b64_encode.simps a2b_two [OF byte_bounds(1,2)] byte_parts char_of_code)
next
  case (3 a b)
  show ?case by (simp only: b64_encode.simps a2b_three [OF byte_bounds(1,3,4)] byte_parts char_of_code)
next
  case (4 a b c rest)
  then show ?case
    by (simp only: b64_encode.simps append.simps a2b_group [OF byte_bounds(1,3,5,6)] byte_parts char_of_code option.map)
qed simp

lemma b64_encode_ascii: "c \<in> set (b64_encode s) \<Longrightarrow> code c < 128"
  by (induction s rule: b64_encode.induct) (auto simp: b64_char(3) byte_bounds code_special)

lemma b64_encode_hd:
  assumes "s \<noteq> []"
  obtains c cs where "b64_encode s = c # cs" "c \<noteq> CHR ''=''"
proof (cases s rule: b64_encode.cases)
  case (2 a)
  show thesis by (rule that) (unfold 2 b64_encode.simps, rule refl, rule b64_char(2) [OF byte_bounds(1)])
next
  case (3 a b)
  show thesis by (rule that) (unfold 3 b64_encode.simps, rule refl, rule b64_char(2) [OF byte_bounds(1)])
next
  case (4 a b c rest)
  show thesis by (rule that) (unfold 4 b64_encode.simps append.simps, rule refl, rule b64_char(2) [OF byte_bounds(1)])
qed (use assms in simp)

lemma ascii_starts: "code c < 128 \<Longrightarrow> utf8_start c"
  by (simp add: utf8_start_def code_def)

lemma code_points_ascii: "\<forall>c \<in> set s. code c < 128 \<Longrightarrow> code_points s = length s"
  by (simp add: code_points_def ascii_starts)

lemma rstrip_pad_append: "s \<noteq> [] \<Longrightarrow> rstrip_pad (p @ s) = (if rstrip_pad s = [] then rstrip_pad p else p @ rstrip_pad s)"
  by (auto simp: rstrip_pad_def dropWhile_append)

lemma rstrip_pad_nonempty: "c \<noteq> CHR ''='' \<Longrightarrow> rstrip_pad (c # cs) \<noteq> []"
  by (simp add: rstrip_pad_def dropWhile_append)

lemma rstrip_pad_last: "c \<noteq> CHR ''='' \<Longrightarrow> rstrip_pad (xs @ [c]) = xs @ [c]"
  by (simp add: rstrip_pad_def)

lemma rstrip_pad_pad: "rstrip_pad (xs @ [CHR ''='']) = rstrip_pad xs"
  by (simp add: rstrip_pad_def)

text \<open>Stripping the padding and adding it again gives the encoding back.\<close>

definition pad_of :: "string \<Rightarrow> nat" where
  "pad_of s = (3 - length s mod 3) mod 3"

lemma b64_pad:
  "b64_encode s = rstrip_pad (b64_encode s) @ replicate (pad_of s) CHR ''='' \<and>
   length (rstrip_pad (b64_encode s)) mod 4 = (4 - pad_of s) mod 4"
proof (induction s rule: b64_encode.induct)
  case 1
  then show ?case by (simp add: rstrip_pad_def pad_of_def)
next
  case (2 a)
  let ?x = "[b64_char (code a div 4), b64_char (code a mod 4 * 16)]"
  have "rstrip_pad ([b64_char (code a div 4)] @ [b64_char (code a mod 4 * 16)]) = [b64_char (code a div 4)] @ [b64_char (code a mod 4 * 16)]"
    by (rule rstrip_pad_last [OF b64_char(2) [OF byte_bounds(2)]])
  then have "rstrip_pad ?x = ?x" by simp
  then have "rstrip_pad ((?x @ [CHR ''='']) @ [CHR ''='']) = ?x" unfolding rstrip_pad_pad .
  then show ?case by (simp add: pad_of_def numeral_2_eq_2)
next
  case (3 a b)
  let ?x = "[b64_char (code a div 4), b64_char (code a mod 4 * 16 + code b div 16)]"
  have "rstrip_pad (?x @ [b64_char (code b mod 16 * 4)]) = ?x @ [b64_char (code b mod 16 * 4)]"
    by (rule rstrip_pad_last [OF b64_char(2) [OF byte_bounds(4)]])
  then have "rstrip_pad ((?x @ [b64_char (code b mod 16 * 4)]) @ [CHR ''='']) = ?x @ [b64_char (code b mod 16 * 4)]"
    by (simp only: rstrip_pad_pad)
  then show ?case by (simp add: pad_of_def)
next
  case (4 a b c rest)
  define x where "x = [b64_char (code a div 4), b64_char (code a mod 4 * 16 + code b div 16), b64_char (code b mod 16 * 4 + code c div 64)]"
  define w where "w = b64_char (code c mod 64)"
  have w: "w \<noteq> CHR ''=''" unfolding w_def by (rule b64_char(2) [OF byte_bounds(6)])
  have enc: "b64_encode (a # b # c # rest) = (x @ [w]) @ b64_encode rest" by (simp add: x_def w_def)
  have "rstrip_pad ((x @ [w]) @ b64_encode rest) = (x @ [w]) @ rstrip_pad (b64_encode rest)"
  proof (cases "rest = []")
    case True
    then show ?thesis using rstrip_pad_last [OF w, of x] by (simp add: rstrip_pad_def)
  next
    case False
    then obtain d ds where d: "b64_encode rest = d # ds" "d \<noteq> CHR ''=''" by (rule b64_encode_hd)
    then have "rstrip_pad (b64_encode rest) \<noteq> []" using rstrip_pad_nonempty by simp
    then show ?thesis using rstrip_pad_append [of "b64_encode rest" "x @ [w]"] d by simp
  qed
  moreover have "pad_of (a # b # c # rest) = pad_of rest" by (simp add: pad_of_def)
  moreover have "length (x @ [w]) = 4" by (simp add: x_def)
  ultimately show ?case using 4 by (simp only: enc append_assoc) (simp add: mod_add_left_eq)
qed

lemma repad_encode: "repad (rstrip_pad (b64_encode s)) = b64_encode s"
proof -
  let ?r = "rstrip_pad (b64_encode s)"
  have sub: "set ?r \<subseteq> set (b64_encode s)"
    by (auto simp: rstrip_pad_def dest: set_dropWhileD)
  have cp: "code_points ?r = length ?r"
    by (rule code_points_ascii) (use sub b64_encode_ascii in blast)
  have "pad_of s \<in> {0, 1, 2}" by (auto simp: pad_of_def)
  then have "4 - (4 - pad_of s) mod 4 = (if pad_of s = 0 then 4 else pad_of s)" "pad_of s \<noteq> 4" by auto
  then have "repad ?r = ?r @ replicate (pad_of s) CHR ''=''"
    using conjunct2 [OF b64_pad [of s]] by (simp add: repad_def Let_def cp)
  then show ?thesis using conjunct1 [OF b64_pad [of s]] by simp
qed

section \<open>Properties\<close>

text \<open>
  The paths that can be decoded: long ones, and short ones in which no segment looks like an
  escape and no character is escaped ambiguously.
\<close>

definition decodable :: "string \<Rightarrow> bool" where
  "decodable m \<longleftrightarrow>
     (if 1000 < code_points (escape_path m) then utf8_valid m
      else m \<noteq> ''unknown'' \<and> \<not> starts_with ''b64/'' m \<and> list_all (\<lambda>c. c \<notin> set ''_.#'') m \<and>
        \<not> py_in ''/dot/'' m \<and> \<not> py_in ''/hash/'' m)"

definition slash_char :: "char \<Rightarrow> char" where
  "slash_char c = (if c = CHR ''/'' then CHR ''_'' else c)"

lemma escape_plain:
  assumes "list_all (\<lambda>c. c \<notin> set ''_.#'') m"
  shows "escape_path m = map slash_char m"
proof -
  let ?e = "map slash_char m"
  have "py_replace ''/'' ''_'' m = ?e" by (induction m) (auto simp: py_replace_char slash_char_def)
  moreover have keep: "py_replace [x] r ?e = ?e" if "x \<notin> set ?e" for x r
    unfolding py_replace_char by (rule concat_map_id) (use that in auto)
  have "CHR ''.'' \<notin> set ?e" and "CHR ''#'' \<notin> set ?e" using assms by (auto simp: list_all_iff slash_char_def split: if_splits)
  note this [THEN keep]
  ultimately show ?thesis by (simp only: escape_path_def)
qed

lemma unescape_plain:
  assumes "list_all (\<lambda>c. c \<notin> set ''_.#'') m"
  shows "py_replace ''_'' ''/'' (map slash_char m) = m"
  using assms by (induction m) (auto simp: py_replace_char slash_char_def)

lemma slash_char_eq: "x \<noteq> CHR ''_'' \<Longrightarrow> y \<noteq> CHR ''_'' \<Longrightarrow> slash_char x = slash_char y \<longleftrightarrow> x = y"
  by (auto simp: slash_char_def)

lemma starts_with_escaped:
  "CHR ''_'' \<notin> set m \<Longrightarrow> CHR ''_'' \<notin> set p \<Longrightarrow> starts_with (map slash_char p) (map slash_char m) = starts_with p m"
  by (induction p m rule: starts_with.induct) (auto simp: slash_char_eq)

lemma py_in_escaped:
  "CHR ''_'' \<notin> set m \<Longrightarrow> CHR ''_'' \<notin> set p \<Longrightarrow> py_in (map slash_char p) (map slash_char m) = py_in p m"
proof (induction m)
  case (Cons x xs)
  then show ?case using starts_with_escaped [of "x # xs" p] by simp
qed simp

text \<open>
  A decodable mandate path survives encoding and decoding. A path whose escaped form has more
  than a thousand characters goes through base 64 and always comes back; a shorter one comes
  back when no character or segment of it is mistaken for an escape.
\<close>

theorem mandate_path_round_trip:
  assumes "decodable m"
  shows "decode_mandate_path (encode_mandate_path m) = m"
proof (cases "1000 < code_points (escape_path m)")
  case True
  let ?b = "rstrip_pad (b64_encode m)"
  have n: "m \<noteq> []" using True by (auto simp: escape_path_def code_points_def)
  have e: "encode_mandate_path m = ''b64_'' @ ?b" using True n by (simp add: encode_mandate_path_def Let_def)
  have "set ?b \<subseteq> set (b64_encode m)" by (auto simp: rstrip_pad_def dest: set_dropWhileD)
  then have a: "\<not> (\<exists>c \<in> set ?b. 128 \<le> code c)" using b64_encode_ascii by fastforce
  have d: "drop 4 (''b64_'' @ ?b) = ?b" and s: "starts_with ''b64_'' (''b64_'' @ ?b)" and u: "''b64_'' @ ?b \<noteq> ''unknown''" by simp_all
  show ?thesis using a assms True unfolding e decode_mandate_path_def d
    by (simp add: decodable_def repad_encode a2b_encode)
next
  case False
  let ?e = "map slash_char m"
  have ok: "list_all (\<lambda>c. c \<notin> set ''_.#'') m" "m \<noteq> ''unknown''" "\<not> starts_with ''b64/'' m"
    "\<not> py_in ''/dot/'' m" "\<not> py_in ''/hash/'' m" using assms False by (simp_all add: decodable_def)
  then have nu: "CHR ''_'' \<notin> set m" by (auto simp: list_all_iff)
  show ?thesis
  proof (cases "m = []")
    case True
    then show ?thesis by (simp add: encode_mandate_path_def decode_mandate_path_def)
  next
    case m: False
    have e: "encode_mandate_path m = ?e"
      using m False escape_plain [OF ok(1)] by (simp add: encode_mandate_path_def Let_def)
    have b: "\<not> starts_with ''b64_'' ?e" using starts_with_escaped [OF nu, of "''b64/''"] ok(3) by (simp add: slash_char_def)
    have dot: "\<not> py_in ''_dot_'' ?e" using py_in_escaped [OF nu, of "''/dot/''"] ok(4) by (simp add: slash_char_def)
    have hash: "\<not> py_in ''_hash_'' ?e" using py_in_escaped [OF nu, of "''/hash/''"] ok(5) by (simp add: slash_char_def)
    have "?e \<noteq> ''unknown''"
    proof
      assume u: "?e = ''unknown''"
      have "py_replace ''_'' ''/'' ?e = m" by (rule unescape_plain [OF ok(1)])
      then have "py_replace ''_'' ''/'' ''unknown'' = m" unfolding u .
      then show False using ok(2) by (simp add: py_replace_char)
    qed
    then show ?thesis using m b
      unfolding e decode_mandate_path_def by (simp add: py_replace_absent dot hash unescape_plain [OF ok(1)])
  qed
qed

theorem mandate_path_round_trip_witness:
  "decodable ''clients/u1/mandates/m7'' \<and> encode_mandate_path ''clients/u1/mandates/m7'' = ''clients_u1_mandates_m7'' \<and>
   decode_mandate_path (encode_mandate_path ''clients/u1/mandates/m7'') = ''clients/u1/mandates/m7''"
proof -
  have "escape_path ''clients/u1/mandates/m7'' = ''clients_u1_mandates_m7''" by (simp add: escape_path_def py_replace_char)
  then have d: "decodable ''clients/u1/mandates/m7''" and e: "encode_mandate_path ''clients/u1/mandates/m7'' = ''clients_u1_mandates_m7''"
    by (simp_all add: decodable_def encode_mandate_path_def code_points_def utf8_start_def)
  show ?thesis using d e mandate_path_round_trip [OF d] by simp
qed

text \<open>
  The paths of the production database have a segment \<open>bo_clients\<close>, whose underscore is decoded
  as a slash.
\<close>

lemma production_path_not_decoded:
  "decode_mandate_path (encode_mandate_path ''clients/u/bo_clients/u/mandates/m'') = ''clients/u/bo/clients/u/mandates/m''"
  by code_simp

end
