(* ===== verification/Active_Jobs.thy ===== *)
theory Active_Jobs
  imports Firestore_Client Mandate_Path
begin

text \<open>
  \<open>ActiveJobManager\<close> of \<open>src/app/active_job_manager.py\<close>: the queue of batches of one mandate and one type of
  job in Firestore. A batch is a document of the collection \<open>on_process\<close> while it runs and of \<open>pending\<close>
  while it waits; its field \<open>jobs_status\<close> maps the open jobs to their statuses. Firestore is the
  argument \<open>fs\<close>; the readings of the clock are arguments. A Firestore transaction is one uninterrupted
  sequence of calls. Messages for the log and for display are left out.

  The text of an identifier is the identifier itself, or the decimal digits of a whole number;
  a job's identifiers have no other types.
\<close>

section \<open>Definitions\<close>

definition TERMINAL_STATUSES :: "string list" where
  "TERMINAL_STATUSES = [''completed'', ''error'', ''stopped'', ''skipped'', ''pending'', ''routed'']"

fun id_str :: "pyval \<Rightarrow> string" where
  "id_str (PStr t) = t"
| "id_str (PNum q) = (if q < 0 then ''-'' else []) @ nat_str (nat \<bar>py_int q\<bar>)"
| "id_str (PBool b) = (if b then ''True'' else ''False'')"
| "id_str _ = ''None''"

subsection \<open>The jobs of a payload\<close>

definition in_queue :: "pydict \<Rightarrow> pyval \<Rightarrow> pydict" where
  "in_queue jobs_status jid = (if truthy jid then dset jobs_status (id_str jid) (PStr ''in_queue'') else jobs_status)"

text \<open>A loop over the dictionaries of a list, which raises on anything else.\<close>

fun for_dicts :: "(pydict \<Rightarrow> 'a \<Rightarrow> 'a result) \<Rightarrow> pyval list \<Rightarrow> 'a \<Rightarrow> 'a result" where
  "for_dicts f [] a = Inr a"
| "for_dicts f (PDict d # xs) a = rbind (f d a) (for_dicts f xs)"
| "for_dicts f (_ # xs) a = Inl AttributeError"

definition for_items :: "(pydict \<Rightarrow> 'a \<Rightarrow> 'a result) \<Rightarrow> pyval \<Rightarrow> 'a \<Rightarrow> 'a result" where
  "for_items f v a = rbind (py_iter v) (\<lambda>xs. for_dicts f xs a)"

definition first_of :: "pydict \<Rightarrow> string \<Rightarrow> string \<Rightarrow> pyval" where
  "first_of d k1 k2 = py_or (dget d k1) (dget d k2)"

definition banker_item :: "pydict \<Rightarrow> pydict \<Rightarrow> pydict result" where
  "banker_item item js =
     (let transactions = dget_or item ''transactions'' (PList []) in
      rbind (for_items (\<lambda>tx a. Inr (in_queue a (first_of tx ''transaction_id'' ''id''))) transactions js)
        (\<lambda>js'. Inr (if truthy transactions then js' else in_queue js' (first_of item ''job_id'' ''id''))))"

definition extract_job_ids_from_payload :: "pydict \<Rightarrow> string \<Rightarrow> pydict result" where
  "extract_job_ids_from_payload job_data job_type =
     (if job_type = ''onboarding'' then Inr (in_queue [] (dget job_data ''job_id''))
      else
        let jobs_data = dget_or job_data ''jobs_data'' (PList []) in
        if job_type = ''router'' \<or> job_type = ''apbookeeper'' then
          for_items (\<lambda>item a. Inr (in_queue a (first_of item ''job_id'' ''drive_file_id''))) jobs_data []
        else if job_type = ''banker'' then for_items banker_item jobs_data []
        else if job_type = ''reversereconciliation'' then
          for_items (\<lambda>item a. Inr (in_queue a (first_of item ''job_id'' ''item_id''))) (dget_or job_data ''items'' (PList [])) []
        else Inr [])"

subsection \<open>Registration\<close>

definition on_col :: "string \<Rightarrow> string" where
  "on_col job_type = ''active_jobs/'' @ job_type @ ''/on_process''"

definition pending_col :: "string \<Rightarrow> string" where
  "pending_col job_type = ''active_jobs/'' @ job_type @ ''/pending''"

definition doc_id :: "string \<Rightarrow> string \<Rightarrow> string" where
  "doc_id mandate_path job_key = encode_mandate_path mandate_path @ ''_'' @ job_key"

record register_result =
  should_start :: bool
  rr_job_key :: string
  rr_status :: string
  location :: string
  position_in_queue :: nat

definition job_document :: "string \<Rightarrow> string \<Rightarrow> string \<Rightarrow> pydict \<Rightarrow> pydict \<Rightarrow> bool \<Rightarrow> string \<Rightarrow> pydict" where
  "job_document mandate_path job_key job_type job_data jobs_status start now =
     [(''job_key'', PStr job_key), (''job_id'', PStr job_key), (''batch_id'', PStr job_key),
      (''mandate_path'', PStr mandate_path), (''mandates_path'', PStr mandate_path), (''job_type'', PStr job_type),
      (''payload'', PDict job_data), (''jobs_status'', PDict jobs_status), (''created_at'', PStr now),
      (''started_at'', if start then PStr now else PNone), (''stop_requested'', PBool False),
      (''stop_requested_transactions'', PList []), (''last_updated'', PStr now)]"

definition register_job_transaction ::
  "'s firestore \<Rightarrow> string \<Rightarrow> string \<Rightarrow> pydict \<Rightarrow> string \<Rightarrow> string \<Rightarrow> 's \<Rightarrow> register_result result \<times> 's" where
  "register_job_transaction fs mandate_path job_key job_data job_type now =
     sbind (f_where fs (on_col job_type) ''mandate_path'' (PStr mandate_path)) (\<lambda>running_jobs.
     sbind (f_where fs (pending_col job_type) ''mandate_path'' (PStr mandate_path)) (\<lambda>pending_jobs.
       let start = (running_jobs = []) in
       sbind (slift (extract_job_ids_from_payload job_data job_type)) (\<lambda>jobs_status.
       sbind (f_set fs (if start then on_col job_type else pending_col job_type) (doc_id mandate_path job_key)
                (job_document mandate_path job_key job_type job_data jobs_status start now)) (\<lambda>_.
         sret \<lparr>should_start = start, rr_job_key = job_key, rr_status = (if start then ''running'' else ''pending''),
               location = (if start then ''on_process'' else ''pending''),
               position_in_queue = (if start then 0 else length pending_jobs + 1)\<rparr>))))"

text \<open>The read after the commit has no influence on the result: its errors are caught.\<close>

definition register_job ::
  "'s firestore \<Rightarrow> string \<Rightarrow> pydict \<Rightarrow> string \<Rightarrow> string \<Rightarrow> string \<Rightarrow> 's \<Rightarrow> register_result \<times> 's" where
  "register_job fs mandate_path job_data job_key job_type now =
     stry (sbind (register_job_transaction fs mandate_path job_key job_data job_type now) (\<lambda>result s.
             case f_get fs (if location result = ''pending'' then pending_col job_type else on_col job_type)
                    (doc_id mandate_path job_key) s of
               (_, s') \<Rightarrow> (Inr result, s')))
       (\<lambda>_. \<lparr>should_start = True, rr_job_key = job_key, rr_status = ''on_process'', location = ''on_process'',
             position_in_queue = 0\<rparr>)"

definition register_batch ::
  "'s firestore \<Rightarrow> string \<Rightarrow> pyval \<Rightarrow> string \<Rightarrow> string \<Rightarrow> string \<Rightarrow> 's \<Rightarrow> register_result \<times> 's" where
  "register_batch fs mandate_path jobs_data job_type batch_id now =
     register_job fs mandate_path [(''jobs_data'', jobs_data), (''batch_id'', PStr batch_id)] batch_id job_type now"

subsection \<open>Stopping\<close>

record stop_result =
  stop_success :: bool
  stop_job_key :: string
  stop_location :: string
  synthetic_stops :: "string list"

text \<open>The field \<open>jobs_status\<close> of a document, which is always a map.\<close>

definition jobs_status_of :: "pydict \<Rightarrow> pydict result" where
  "jobs_status_of data = (case dget_or data ''jobs_status'' (PDict []) of PDict js \<Rightarrow> Inr js | _ \<Rightarrow> Inl TypeError)"

definition stopping_updates :: "pydict \<Rightarrow> string list \<Rightarrow> string \<Rightarrow> field_updates" where
  "stopping_updates js ids now =
     foldl (\<lambda>ups jid. if map_of js jid \<noteq> None then AList.update (''jobs_status.'' @ jid) (FSet (PStr ''stopping'')) ups else ups)
       [(''last_updated'', FSet (PStr now))] ids"

definition stop_on_process ::
  "'s firestore \<Rightarrow> string \<Rightarrow> string \<Rightarrow> pydict \<Rightarrow> string \<Rightarrow> string list \<Rightarrow> string list \<Rightarrow> string \<Rightarrow> 's \<Rightarrow> stop_result result \<times> 's" where
  "stop_on_process fs col i data job_key job_ids_to_stop transaction_ids now =
     sbind (slift (jobs_status_of data)) (\<lambda>js.
     sbind (f_update fs col i
             (if job_ids_to_stop \<noteq> [] then stopping_updates js job_ids_to_stop now
              else if transaction_ids \<noteq> [] then
                [(''stop_requested_transactions'', FArrayUnion (map PStr transaction_ids)),
                 (''stop_requested_at'', FSet (PStr now)), (''last_updated'', FSet (PStr now))]
              else [(''stop_requested'', FSet (PBool True)), (''stop_requested_at'', FSet (PStr now)),
                    (''last_updated'', FSet (PStr now))])) (\<lambda>_.
       sret \<lparr>stop_success = True, stop_job_key = job_key, stop_location = ''on_process'', synthetic_stops = []\<rparr>))"

text \<open>The loop over the jobs to stop: what was removed, and what is left.\<close>

fun remove_jobs :: "string list \<Rightarrow> pydict \<Rightarrow> string list \<times> pydict" where
  "remove_jobs [] js = ([], js)"
| "remove_jobs (jid # ids) js =
     (if map_of js jid \<noteq> None
      then (case remove_jobs ids (AList.delete jid js) of (stops, js') \<Rightarrow> (jid # stops, js'))
      else remove_jobs ids js)"

definition stop_pending ::
  "'s firestore \<Rightarrow> string \<Rightarrow> string \<Rightarrow> pydict \<Rightarrow> string \<Rightarrow> string list \<Rightarrow> string \<Rightarrow> 's \<Rightarrow> stop_result result \<times> 's" where
  "stop_pending fs col i data job_key job_ids_to_stop now =
     sbind (slift (jobs_status_of data)) (\<lambda>js.
       let (stops, js') = (if job_ids_to_stop \<noteq> [] then remove_jobs job_ids_to_stop js else (map fst js, [])) in
       sbind (if js' = [] then f_delete fs col i
              else f_update fs col i [(''jobs_status'', FSet (PDict js')), (''last_updated'', FSet (PStr now))]) (\<lambda>_.
         sret \<lparr>stop_success = True, stop_job_key = job_key, stop_location = ''pending'', synthetic_stops = stops\<rparr>))"

text \<open>The first document that has the job; \<open>jid in jobs_status\<close> raises where that is no map.\<close>

fun find_job_doc :: "string \<Rightarrow> (string \<times> pydict) list \<Rightarrow> (string \<times> pydict) option result" where
  "find_job_doc job_id [] = Inr None"
| "find_job_doc job_id ((i, data) # ds) =
     rbind (jobs_status_of data) (\<lambda>js. if map_of js job_id \<noteq> None then Inr (Some (i, data)) else find_job_doc job_id ds)"

definition stop_by_scanning ::
  "'s firestore \<Rightarrow> string \<Rightarrow> string \<Rightarrow> string \<Rightarrow> string list \<Rightarrow> string list \<Rightarrow> string \<Rightarrow> 's \<Rightarrow> stop_result option result \<times> 's" where
  "stop_by_scanning fs job_type mandate_path job_id job_ids_to_stop transaction_ids now =
     (let ids = (if job_ids_to_stop \<noteq> [] then job_ids_to_stop else [job_id]) in
      sbind (f_where fs (on_col job_type) ''mandate_path'' (PStr mandate_path)) (\<lambda>ds.
      sbind (slift (find_job_doc job_id ds)) (\<lambda>found.
        case found of
          Some (i, data) \<Rightarrow>
            sbind (stop_on_process fs (on_col job_type) i data (id_str (dget_or data ''job_key'' (PStr i))) ids transaction_ids now)
              (\<lambda>r. sret (Some r))
        | None \<Rightarrow>
            sbind (f_where fs (pending_col job_type) ''mandate_path'' (PStr mandate_path)) (\<lambda>ds'.
            sbind (slift (find_job_doc job_id ds')) (\<lambda>found'.
              case found' of
                Some (i, data) \<Rightarrow>
                  sbind (stop_pending fs (pending_col job_type) i data (id_str (dget_or data ''job_key'' (PStr i))) ids now)
                    (\<lambda>r. sret (Some r))
              | None \<Rightarrow> sret None)))))"

definition request_stop ::
  "'s firestore \<Rightarrow> string \<Rightarrow> string \<Rightarrow> string \<Rightarrow> string list \<Rightarrow> string list \<Rightarrow> string \<Rightarrow> 's \<Rightarrow> stop_result \<times> 's" where
  "request_stop fs mandate_path job_type job_key job_ids_to_stop transaction_ids now =
     (let i = doc_id mandate_path job_key in
      stry (sbind (f_get fs (on_col job_type) i) (\<lambda>on_doc.
        case on_doc of
          Some data \<Rightarrow> stop_on_process fs (on_col job_type) i data job_key job_ids_to_stop transaction_ids now
        | None \<Rightarrow>
            sbind (f_get fs (pending_col job_type) i) (\<lambda>pending_doc.
              case pending_doc of
                Some data \<Rightarrow> stop_pending fs (pending_col job_type) i data job_key job_ids_to_stop now
              | None \<Rightarrow>
                  sbind (stop_by_scanning fs job_type mandate_path job_key job_ids_to_stop transaction_ids now) (\<lambda>r.
                    case r of
                      Some res \<Rightarrow> sret res
                    | None \<Rightarrow> sret \<lparr>stop_success = False, stop_job_key = job_key, stop_location = ''not_found'', synthetic_stops = []\<rparr>))))
        (\<lambda>_. \<lparr>stop_success = False, stop_job_key = job_key, stop_location = ''error'', synthetic_stops = []\<rparr>))"

subsection \<open>Status updates and promotion\<close>

definition find_active_doc ::
  "'s firestore \<Rightarrow> string \<Rightarrow> string \<Rightarrow> string \<Rightarrow> string option \<Rightarrow> 's \<Rightarrow> (string \<times> pydict) option result \<times> 's" where
  "find_active_doc fs job_type mandate_path job_id batch_id =
     (let slow = sbind (f_where fs (on_col job_type) ''mandate_path'' (PStr mandate_path)) (\<lambda>ds. slift (find_job_doc job_id ds)) in
      case batch_id of
        Some b \<Rightarrow>
          if b = [] then slow
          else sbind (f_get fs (on_col job_type) (doc_id mandate_path b)) (\<lambda>r.
                 case r of Some data \<Rightarrow> sret (Some (doc_id mandate_path b, data)) | None \<Rightarrow> slow)
      | None \<Rightarrow> slow)"

definition promoted_data :: "pydict \<Rightarrow> string \<Rightarrow> pydict" where
  "promoted_data data now = dset (dset data ''started_at'' (PStr now)) ''last_updated'' (PStr now)"

text \<open>\<open>Some\<close> the key of the promoted batch; \<open>None\<close> when nothing waits or a call fails.\<close>

definition promote_next_pending :: "'s firestore \<Rightarrow> string \<Rightarrow> string \<Rightarrow> string \<Rightarrow> 's \<Rightarrow> string option \<times> 's" where
  "promote_next_pending fs job_type mandate_path now =
     stry (sbind (f_where_first fs (pending_col job_type) ''mandate_path'' (PStr mandate_path) ''created_at'') (\<lambda>ds.
             case ds of
               [] \<Rightarrow> sret None
             | (i, next_data) # _ \<Rightarrow>
                 let next_key = id_str (first_of next_data ''job_key'' ''batch_id'') in
                 sbind (f_set fs (on_col job_type) (doc_id mandate_path next_key) (promoted_data next_data now)) (\<lambda>_.
                 sbind (f_delete fs (pending_col job_type) i) (\<lambda>_. sret (Some next_key)))))
       (\<lambda>_. None)"

record update_result =
  updated :: bool
  all_done :: bool
  promoted_next :: bool

definition status_after :: "pydict \<Rightarrow> string \<Rightarrow> string \<Rightarrow> pydict" where
  "status_after js job_id new_status =
     (if new_status \<in> set TERMINAL_STATUSES then AList.delete job_id js else dset js job_id (PStr new_status))"

definition update_job_status_in_active ::
  "'s firestore \<Rightarrow> string \<Rightarrow> string \<Rightarrow> string \<Rightarrow> string \<Rightarrow> string option \<Rightarrow> string \<Rightarrow> 's \<Rightarrow> update_result \<times> 's" where
  "update_job_status_in_active fs job_type mandate_path job_id new_status batch_id now =
     stry (sbind (find_active_doc fs job_type mandate_path job_id batch_id) (\<lambda>found.
        case found of
          None \<Rightarrow> sret \<lparr>updated = False, all_done = False, promoted_next = False\<rparr>
        | Some (i, data) \<Rightarrow>
            if data = [] then sret \<lparr>updated = False, all_done = False, promoted_next = False\<rparr>
            else
              sbind (slift (jobs_status_of data)) (\<lambda>js.
                let js' = status_after js job_id new_status in
                if js' = [] then
                  sbind (f_delete fs (on_col job_type) i) (\<lambda>_ s.
                    case promote_next_pending fs job_type mandate_path now s of
                      (promoted, s') \<Rightarrow> (Inr \<lparr>updated = True, all_done = True, promoted_next = (promoted \<noteq> None)\<rparr>, s'))
                else
                  sbind (f_update fs (on_col job_type) i
                           [(''jobs_status'', FSet (PDict js')), (''last_updated'', FSet (PStr now))]) (\<lambda>_.
                    sret \<lparr>updated = True, all_done = False, promoted_next = False\<rparr>))))
       (\<lambda>_. \<lparr>updated = False, all_done = False, promoted_next = False\<rparr>)"

text \<open>The numbers of running and waiting batches; \<open>None\<close> for the answer with an error.\<close>

definition get_queue_status :: "'s firestore \<Rightarrow> string \<Rightarrow> string \<Rightarrow> 's \<Rightarrow> (nat \<times> nat \<times> nat) option \<times> 's" where
  "get_queue_status fs mandate_path job_type =
     stry (sbind (f_where fs (on_col job_type) ''mandate_path'' (PStr mandate_path)) (\<lambda>running.
           sbind (f_where fs (pending_col job_type) ''mandate_path'' (PStr mandate_path)) (\<lambda>pending.
             sret (Some (length running, length pending, length running + length pending)))))
       (\<lambda>_. None)"

section \<open>The abstract queue\<close>

text \<open>
  A queue has at most one running batch and the waiting batches in the order of their
  registration. A batch has its key, its open jobs with their statuses and its time of creation.
\<close>

record batch =
  b_key :: string
  b_jobs :: pydict
  b_time :: string

type_synonym queue = "batch option \<times> batch list"

definition running_list :: "queue \<Rightarrow> batch list" where
  "running_list q = (case fst q of None \<Rightarrow> [] | Some b \<Rightarrow> [b])"

text \<open>The operations, with the clock reading of each.\<close>

datatype queue_op =
    Register string pydict string
  | Report string string "string option" string
  | Stop string "string list" "string list" string

definition mark_stopping :: "string list \<Rightarrow> pydict \<Rightarrow> pydict" where
  "mark_stopping ids js = foldl (\<lambda>js j. if map_of js j \<noteq> None then dset js j (PStr ''stopping'') else js) js ids"

definition next_running :: "batch list \<Rightarrow> queue" where
  "next_running ws = (case ws of [] \<Rightarrow> (None, []) | w # ws' \<Rightarrow> (Some w, ws'))"

definition q_register :: "string \<Rightarrow> pydict \<Rightarrow> string \<Rightarrow> queue \<Rightarrow> queue" where
  "q_register k js t q =
     (let b = \<lparr>b_key = k, b_jobs = js, b_time = t\<rparr> in
      case fst q of None \<Rightarrow> (Some b, snd q) | Some r \<Rightarrow> (Some r, snd q @ [b]))"

definition q_report :: "string \<Rightarrow> string \<Rightarrow> string option \<Rightarrow> queue \<Rightarrow> queue" where
  "q_report j st bid q =
     (case fst q of
        None \<Rightarrow> q
      | Some r \<Rightarrow>
          if bid = Some (b_key r) \<or> map_of (b_jobs r) j \<noteq> None then
            (let js = status_after (b_jobs r) j st in
             if js = [] then next_running (snd q) else (Some (r\<lparr>b_jobs := js\<rparr>), snd q))
          else q)"

text \<open>Stopping jobs of a waiting batch removes them, and the batch with its last job.\<close>

definition cut_jobs :: "string list \<Rightarrow> batch \<Rightarrow> batch list" where
  "cut_jobs ids b =
     (let js = (if ids \<noteq> [] then snd (remove_jobs ids (b_jobs b)) else []) in
      if js = [] then [] else [b\<lparr>b_jobs := js\<rparr>])"

definition cut_batch :: "string \<Rightarrow> string list \<Rightarrow> batch list \<Rightarrow> batch list" where
  "cut_batch k ids ws = concat (map (\<lambda>b. if b_key b = k then cut_jobs ids b else [b]) ws)"

definition stop_running :: "string list \<Rightarrow> batch \<Rightarrow> batch" where
  "stop_running ids r = (if ids \<noteq> [] then r\<lparr>b_jobs := mark_stopping ids (b_jobs r)\<rparr> else r)"

definition q_stop :: "string \<Rightarrow> string list \<Rightarrow> queue \<Rightarrow> queue" where
  "q_stop k ids q =
     (let ids' = (if ids \<noteq> [] then ids else [k]) in
      if k \<in> set (map b_key (running_list q)) then (map_option (stop_running ids) (fst q), snd q)
      else if k \<in> set (map b_key (snd q)) then (fst q, cut_batch k ids (snd q))
      else case find (\<lambda>b. map_of (b_jobs b) k \<noteq> None) (running_list q) of
        Some r \<Rightarrow> (map_option (stop_running ids') (fst q), snd q)
      | None \<Rightarrow>
          (case find (\<lambda>b. map_of (b_jobs b) k \<noteq> None) (snd q) of
             Some b \<Rightarrow> (fst q, cut_batch (b_key b) ids' (snd q))
           | None \<Rightarrow> q))"

section \<open>Library lemmas\<close>

subsection \<open>Documents of a queue\<close>

definition is_batch :: "string \<Rightarrow> batch \<Rightarrow> pydict \<Rightarrow> bool" where
  "is_batch m b d \<longleftrightarrow> map_of d ''mandate_path'' = Some (PStr m) \<and> map_of d ''job_key'' = Some (PStr (b_key b)) \<and>
     map_of d ''jobs_status'' = Some (PDict (b_jobs b)) \<and> map_of d ''created_at'' = Some (PStr (b_time b))"

text \<open>
  A collection holds the batches \<open>bs\<close> of a mandate: each is at its identifier, and a document that
  names the mandate or has an identifier of it is one of them.
\<close>

definition col_rel :: "fview \<Rightarrow> string \<Rightarrow> string \<Rightarrow> batch list \<Rightarrow> bool" where
  "col_rel vw col m bs \<longleftrightarrow> distinct (map b_key bs) \<and>
     (\<forall>b \<in> set bs. b_key b \<noteq> [] \<and> (\<exists>d. vw col (doc_id m (b_key b)) = Some d \<and> is_batch m b d)) \<and>
     (\<forall>i d. vw col i = Some d \<longrightarrow> map_of d ''mandate_path'' = Some (PStr m) \<or> (\<exists>k. i = doc_id m k) \<longrightarrow>
        (\<exists>b \<in> set bs. i = doc_id m (b_key b)))"

definition queue_rel :: "fview \<Rightarrow> string \<Rightarrow> string \<Rightarrow> queue \<Rightarrow> bool" where
  "queue_rel vw jt m q \<longleftrightarrow> col_rel vw (on_col jt) m (running_list q) \<and> col_rel vw (pending_col jt) m (snd q) \<and>
     sorted_wrt (\<lambda>a b. b_time a < b_time b) (snd q)"

lemma doc_id_inj [simp]: "doc_id m k = doc_id m k' \<longleftrightarrow> k = k'"
  by (simp add: doc_id_def)

lemma cols_distinct [simp]: "on_col jt \<noteq> pending_col jt'" "pending_col jt' \<noteq> on_col jt"
proof -
  have "last (on_col jt) \<noteq> last (pending_col jt')" by (simp add: on_col_def pending_col_def)
  then show "on_col jt \<noteq> pending_col jt'" "pending_col jt' \<noteq> on_col jt" by auto
qed

lemma col_inj [simp]: "on_col jt = on_col jt' \<longleftrightarrow> jt = jt'" "pending_col jt = pending_col jt' \<longleftrightarrow> jt = jt'"
  by (simp_all add: on_col_def pending_col_def)

lemma col_rel_lookup:
  assumes "col_rel vw col m bs"
  shows "vw col (doc_id m k) = None \<longleftrightarrow> k \<notin> set (map b_key bs)"
proof
  assume "vw col (doc_id m k) = None"
  then show "k \<notin> set (map b_key bs)" using assms by (auto simp: col_rel_def)
next
  assume k: "k \<notin> set (map b_key bs)"
  show "vw col (doc_id m k) = None"
  proof (cases "vw col (doc_id m k)")
    case (Some d)
    then obtain b where "b \<in> set bs" "doc_id m k = doc_id m (b_key b)" using assms unfolding col_rel_def by blast
    then show ?thesis using k by auto
  qed
qed

lemma col_rel_key: "col_rel vw col m bs \<Longrightarrow> vw col (doc_id m k) = Some d \<Longrightarrow> \<exists>b \<in> set bs. k = b_key b"
  using col_rel_lookup [of vw col m bs k] by (auto simp: image_iff)

lemma col_rel_batch:
  assumes "col_rel vw col m bs" and "b \<in> set bs"
  shows "b_key b \<noteq> [] \<and> (\<exists>d. vw col (doc_id m (b_key b)) = Some d \<and> is_batch m b d)"
  using assms by (auto simp: col_rel_def)

lemma col_rel_doc:
  assumes "col_rel vw col m bs" and "vw col i = Some d" and "map_of d ''mandate_path'' = Some (PStr m)"
  shows "\<exists>b \<in> set bs. i = doc_id m (b_key b) \<and> is_batch m b d \<and> b_key b \<noteq> []"
proof -
  obtain b where b: "b \<in> set bs" "i = doc_id m (b_key b)" using assms unfolding col_rel_def by blast
  then show ?thesis using col_rel_batch [OF assms(1) b(1)] assms(2) by auto
qed

lemma matching_col:
  assumes "col_rel vw col m bs"
  shows "fst ` matching vw col ''mandate_path'' (PStr m) = doc_id m ` b_key ` set bs"
proof -
  have "i \<in> doc_id m ` b_key ` set bs" if "vw col i = Some d" "map_of d ''mandate_path'' = Some (PStr m)" for i d
    using col_rel_doc [OF assms that] by blast
  moreover have "doc_id m (b_key b) \<in> fst ` matching vw col ''mandate_path'' (PStr m)" if h: "b \<in> set bs" for b
  proof -
    obtain d where "vw col (doc_id m (b_key b)) = Some d" "is_batch m b d" using col_rel_batch [OF assms h] by blast
    then show ?thesis by (auto simp: matching_def is_batch_def image_iff)
  qed
  ultimately show ?thesis by (auto simp: matching_def)
qed

lemma length_matching:
  assumes "col_rel vw col m bs" and "set ds = matching vw col ''mandate_path'' (PStr m)" and "distinct (map fst ds)"
  shows "length ds = length bs"
proof -
  have "set (map fst ds) = set (map (doc_id m) (map b_key bs))"
    using matching_col [OF assms(1)] assms(2) by (metis image_image list.set_map)
  moreover have "distinct (map (doc_id m) (map b_key bs))"
    using assms(1) by (simp add: col_rel_def distinct_map inj_on_def)
  ultimately have "length (map fst ds) = length (map (doc_id m) (map b_key bs))"
    using assms(3) by (metis distinct_card)
  then show ?thesis by simp
qed

subsection \<open>Changes of a collection\<close>

lemma col_rel_other:
  "c \<noteq> col \<Longrightarrow> col_rel (put_doc vw c i d) col m bs = col_rel vw col m bs"
  by (simp add: col_rel_def)

lemma col_rel_add:
  assumes "col_rel vw col m bs" and "is_batch m b d" and "b_key b \<noteq> []" and "b_key b \<notin> set (map b_key bs)"
  shows "col_rel (put_doc vw col (doc_id m (b_key b)) (Some d)) col m (bs @ [b])"
proof -
  have "\<exists>d'. put_doc vw col (doc_id m (b_key b)) (Some d) col (doc_id m (b_key b')) = Some d' \<and> is_batch m b' d'"
    if h: "b' \<in> set bs" for b'
  proof -
    obtain d' where "vw col (doc_id m (b_key b')) = Some d'" "is_batch m b' d'" using col_rel_batch [OF assms(1) h] by blast
    moreover have "b_key b' \<noteq> b_key b" using h assms(4) by (metis image_eqI list.set_map)
    ultimately show ?thesis by simp
  qed
  then show ?thesis using assms by (auto simp: col_rel_def)
qed

lemma col_rel_replace:
  assumes "col_rel vw col m (as @ b # cs)" and "is_batch m b' d" and "b_key b' = b_key b"
  shows "col_rel (put_doc vw col (doc_id m (b_key b)) (Some d)) col m (as @ b' # cs)"
proof -
  have k: "b_key b \<notin> set (map b_key as)" "b_key b \<notin> set (map b_key cs)" using assms(1) by (auto simp: col_rel_def)
  have own: "\<exists>x \<in> set (as @ b # cs). i = doc_id m (b_key x)"
    if "vw col i = Some d'" "map_of d' ''mandate_path'' = Some (PStr m) \<or> (\<exists>k. i = doc_id m k)" for i d'
    using assms(1) that unfolding col_rel_def by blast
  have "\<exists>d'. put_doc vw col (doc_id m (b_key b)) (Some d) col (doc_id m (b_key x)) = Some d' \<and> is_batch m x d'"
    if h: "x \<in> set (as @ cs)" for x
  proof -
    obtain d' where "vw col (doc_id m (b_key x)) = Some d'" "is_batch m x d'"
      using col_rel_batch [OF assms(1), of x] h by auto
    moreover have "b_key x \<noteq> b_key b" using h k by (auto simp: image_iff)
    ultimately show ?thesis by simp
  qed
  then have "\<forall>x \<in> set (as @ b' # cs). b_key x \<noteq> [] \<and>
      (\<exists>d'. put_doc vw col (doc_id m (b_key b)) (Some d) col (doc_id m (b_key x)) = Some d' \<and> is_batch m x d')"
    using assms by (auto simp: col_rel_def)
  moreover have "\<exists>x \<in> set (as @ b' # cs). i = doc_id m (b_key x)"
    if h: "put_doc vw col (doc_id m (b_key b)) (Some d) col i = Some d'"
      "map_of d' ''mandate_path'' = Some (PStr m) \<or> (\<exists>k. i = doc_id m k)" for i d'
  proof (cases "i = doc_id m (b_key b)")
    case False
    then show ?thesis using own [of i d'] h by auto
  qed (use assms(3) in simp)
  moreover have "distinct (map b_key (as @ b' # cs))" using assms(1,3) by (simp add: col_rel_def)
  ultimately show ?thesis unfolding col_rel_def by blast
qed

lemma col_rel_remove:
  assumes "col_rel vw col m (as @ b # cs)"
  shows "col_rel (put_doc vw col (doc_id m (b_key b)) None) col m (as @ cs)"
proof -
  have k: "b_key b \<notin> set (map b_key as)" "b_key b \<notin> set (map b_key cs)" using assms by (auto simp: col_rel_def)
  have own: "\<exists>x \<in> set (as @ b # cs). i = doc_id m (b_key x)"
    if "vw col i = Some d'" "map_of d' ''mandate_path'' = Some (PStr m) \<or> (\<exists>k. i = doc_id m k)" for i d'
    using assms(1) that unfolding col_rel_def by blast
  have "\<exists>d'. put_doc vw col (doc_id m (b_key b)) None col (doc_id m (b_key x)) = Some d' \<and> is_batch m x d'"
    if h: "x \<in> set (as @ cs)" for x
  proof -
    obtain d' where "vw col (doc_id m (b_key x)) = Some d'" "is_batch m x d'"
      using col_rel_batch [OF assms, of x] h by auto
    moreover have "b_key x \<noteq> b_key b" using h k by (auto simp: image_iff)
    ultimately show ?thesis by simp
  qed
  then have "\<forall>x \<in> set (as @ cs). b_key x \<noteq> [] \<and>
      (\<exists>d'. put_doc vw col (doc_id m (b_key b)) None col (doc_id m (b_key x)) = Some d' \<and> is_batch m x d')"
    using assms by (auto simp: col_rel_def)
  moreover have "\<exists>x \<in> set (as @ cs). i = doc_id m (b_key x)"
    if h: "put_doc vw col (doc_id m (b_key b)) None col i = Some d'"
      "map_of d' ''mandate_path'' = Some (PStr m) \<or> (\<exists>k. i = doc_id m k)" for i d'
  proof -
    have "i \<noteq> doc_id m (b_key b)" "vw col i = Some d'" using h(1) by (simp_all split: if_splits)
    then show ?thesis using own [of i d'] h(2) by auto
  qed
  moreover have "distinct (map b_key (as @ cs))" using assms by (simp add: col_rel_def)
  ultimately show ?thesis unfolding col_rel_def by blast
qed

subsection \<open>Registration refines\<close>

lemma is_batch_document:
  "is_batch m \<lparr>b_key = k, b_jobs = js, b_time = t\<rparr> (job_document m k jt data js st t)"
  by (simp add: is_batch_def job_document_def)

lemma queue_rel_running: "queue_rel vw jt m q \<Longrightarrow> col_rel vw (on_col jt) m (running_list q)"
  by (simp add: queue_rel_def)

lemma queue_rel_waiting: "queue_rel vw jt m q \<Longrightarrow> col_rel vw (pending_col jt) m (snd q)"
  by (simp add: queue_rel_def)

text \<open>What an operation may touch: documents of its type and mandate.\<close>

definition touches :: "string \<Rightarrow> string \<Rightarrow> fview \<Rightarrow> fview \<Rightarrow> bool" where
  "touches jt m vw vw' \<longleftrightarrow> (\<forall>c i. vw' c i \<noteq> vw c i \<longrightarrow> (c = on_col jt \<or> c = pending_col jt) \<and> (\<exists>k. i = doc_id m k))"

lemma touches_refl [simp]: "touches jt m vw vw"
  by (simp add: touches_def)

lemma touches_put: "c = on_col jt \<or> c = pending_col jt \<Longrightarrow> touches jt m vw (put_doc vw c (doc_id m k) d)"
  by (auto simp: touches_def)

lemma touches_trans: "touches jt m vw vw' \<Longrightarrow> touches jt m vw' vw'' \<Longrightarrow> touches jt m vw vw''"
  unfolding touches_def by metis

context firestore_up
begin

lemma transaction_up:
  assumes "queue_rel (docs s) jt m q" and "extract_job_ids_from_payload data jt = Inr js"
  obtains s' where "register_job_transaction fs m k data jt t s =
      (Inr \<lparr>should_start = (fst q = None), rr_job_key = k, rr_status = (if fst q = None then ''running'' else ''pending''),
         location = (if fst q = None then ''on_process'' else ''pending''),
         position_in_queue = (if fst q = None then 0 else length (snd q) + 1)\<rparr>, s')"
    "docs s' = put_doc (docs s) (if fst q = None then on_col jt else pending_col jt) (doc_id m k)
       (Some (job_document m k jt data js (fst q = None) t))"
proof -
  obtain ds1 s1 where 1: "f_where fs (on_col jt) ''mandate_path'' (PStr m) s = (Inr ds1, s1)"
    "set ds1 = matching (docs s) (on_col jt) ''mandate_path'' (PStr m)" "distinct (map fst ds1)" "docs s1 = docs s"
    by (rule f_where_up)
  obtain ds2 s2 where 2: "f_where fs (pending_col jt) ''mandate_path'' (PStr m) s1 = (Inr ds2, s2)"
    "set ds2 = matching (docs s1) (pending_col jt) ''mandate_path'' (PStr m)" "distinct (map fst ds2)" "docs s2 = docs s1"
    by (rule f_where_up)
  have "length ds1 = length (running_list q)" by (rule length_matching [OF queue_rel_running [OF assms(1)] 1(2,3)])
  then have e1: "ds1 = [] \<longleftrightarrow> fst q = None" by (cases "fst q") (auto simp: running_list_def)
  have e2: "length ds2 = length (snd q)"
    using length_matching [OF queue_rel_waiting [OF assms(1)]] 2(2,3) 1(4) by simp
  obtain s3 where 3: "f_set fs (if fst q = None then on_col jt else pending_col jt) (doc_id m k)
      (job_document m k jt data js (fst q = None) t) s2 = (Inr (), s3)"
    "docs s3 = put_doc (docs s2) (if fst q = None then on_col jt else pending_col jt) (doc_id m k)
      (Some (job_document m k jt data js (fst q = None) t))" by (rule f_set_up)
  show thesis
    by (rule that [of s3]) (use 1 2 3 e1 e2 assms(2) in \<open>simp_all add: register_job_transaction_def seq_defs Let_def\<close>)
qed

lemma register_up:
  assumes "queue_rel (docs s) jt m q" and "extract_job_ids_from_payload data jt = Inr js"
  obtains s' where "register_job fs m data k jt t s =
      (\<lparr>should_start = (fst q = None), rr_job_key = k, rr_status = (if fst q = None then ''running'' else ''pending''),
         location = (if fst q = None then ''on_process'' else ''pending''),
         position_in_queue = (if fst q = None then 0 else length (snd q) + 1)\<rparr>, s')"
    "docs s' = put_doc (docs s) (if fst q = None then on_col jt else pending_col jt) (doc_id m k)
       (Some (job_document m k jt data js (fst q = None) t))"
proof -
  obtain s1 where 1: "register_job_transaction fs m k data jt t s =
      (Inr \<lparr>should_start = (fst q = None), rr_job_key = k, rr_status = (if fst q = None then ''running'' else ''pending''),
         location = (if fst q = None then ''on_process'' else ''pending''),
         position_in_queue = (if fst q = None then 0 else length (snd q) + 1)\<rparr>, s1)"
    "docs s1 = put_doc (docs s) (if fst q = None then on_col jt else pending_col jt) (doc_id m k)
       (Some (job_document m k jt data js (fst q = None) t))" by (rule transaction_up [OF assms])
  obtain s2 where 2: "f_get fs (if fst q = None then on_col jt else pending_col jt) (doc_id m k) s1 =
      (Inr (docs s1 (if fst q = None then on_col jt else pending_col jt) (doc_id m k)), s2)" "docs s2 = docs s1"
    by (rule f_get_up)
  show thesis
    by (rule that [of s2]) (use 1 2 in \<open>auto simp: register_job_def seq_defs split: if_splits\<close>)
qed

end

lemma register_rel:
  assumes "queue_rel vw jt m q" and "k \<noteq> []" and "k \<notin> set (map b_key (snd q))" and "\<forall>w \<in> set (snd q). b_time w < t"
  shows "queue_rel (put_doc vw (if fst q = None then on_col jt else pending_col jt) (doc_id m k)
      (Some (job_document m k jt data js (fst q = None) t))) jt m (q_register k js t q)"
proof -
  let ?b = "\<lparr>b_key = k, b_jobs = js, b_time = t\<rparr>"
  have b: "b_key ?b = k" by simp
  show ?thesis
  proof (cases "fst q")
    case None
    have "col_rel vw (on_col jt) m []" using queue_rel_running [OF assms(1)] None by (simp add: running_list_def)
    then have "col_rel (put_doc vw (on_col jt) (doc_id m k) (Some (job_document m k jt data js True t))) (on_col jt) m [?b]"
      using col_rel_add [of vw "on_col jt" m "[]" ?b] is_batch_document assms(2) by simp
    then show ?thesis using assms(1) None
      by (simp add: queue_rel_def q_register_def running_list_def col_rel_other)
  next
    case (Some r)
    have "col_rel (put_doc vw (pending_col jt) (doc_id m k) (Some (job_document m k jt data js False t))) (pending_col jt) m (snd q @ [?b])"
      using col_rel_add [OF queue_rel_waiting [OF assms(1)], of ?b] is_batch_document assms(2,3) by simp
    then show ?thesis using assms(1,4) Some
      by (simp add: queue_rel_def q_register_def running_list_def col_rel_other sorted_wrt_append)
  qed
qed

subsection \<open>Reports refine\<close>

lemma jobs_status_of_batch: "is_batch m b d \<Longrightarrow> jobs_status_of d = Inr (b_jobs b)"
  by (simp add: is_batch_def jobs_status_of_def dget_or_def)

lemma is_batch_not_Nil: "is_batch m b d \<Longrightarrow> d \<noteq> []"
  by (auto simp: is_batch_def)

lemma matching_singleton:
  assumes "col_rel vw col m [r]" and "set ds = matching vw col ''mandate_path'' (PStr m)" and "distinct (map fst ds)"
    and "vw col (doc_id m (b_key r)) = Some d"
  shows "ds = [(doc_id m (b_key r), d)]"
proof -
  have "length ds = 1" using length_matching [OF assms(1-3)] by simp
  then obtain x where ds: "ds = [x]" by (auto simp: length_Suc_conv)
  then have "x \<in> matching vw col ''mandate_path'' (PStr m)" using assms(2) by auto
  moreover have "fst x = doc_id m (b_key r)" using matching_col [OF assms(1)] assms(2) ds by auto
  ultimately show ?thesis using ds assms(4) by (auto simp: matching_def)
qed

lemma status_updates:
  "list_all (\<lambda>p. field_path_ok (fst p)) [(''jobs_status'', FSet v), (''last_updated'', FSet w)]"
  "apply_updates [(''jobs_status'', FSet v), (''last_updated'', FSet w)] d = dset (dset d ''jobs_status'' v) ''last_updated'' w"
  by (simp_all add: field_path_ok_def apply_updates_def)

lemma is_batch_status: "is_batch m b d \<Longrightarrow> is_batch m (b\<lparr>b_jobs := js\<rparr>) (dset (dset d ''jobs_status'' (PDict js)) ''last_updated'' w)"
  by (simp add: is_batch_def)

lemma is_batch_promoted: "is_batch m b d \<Longrightarrow> is_batch m b (promoted_data d now)"
  by (simp add: is_batch_def promoted_data_def)

lemma next_key: "is_batch m b d \<Longrightarrow> b_key b \<noteq> [] \<Longrightarrow> id_str (first_of d ''job_key'' ''batch_id'') = b_key b"
  by (simp add: is_batch_def first_of_def py_or_def dget_def)

context firestore_up
begin

lemma find_active_up:
  assumes "queue_rel (docs s) jt m q"
  obtains s' where "docs s' = docs s"
    "find_active_doc fs jt m j bid s = (Inr (case fst q of
        None \<Rightarrow> None
      | Some r \<Rightarrow> if bid = Some (b_key r) \<or> map_of (b_jobs r) j \<noteq> None
                  then Some (doc_id m (b_key r), the (docs s (on_col jt) (doc_id m (b_key r)))) else None), s')"
proof -
  note rel = queue_rel_running [OF assms]
  define slow where "slow = sbind (f_where fs (on_col jt) ''mandate_path'' (PStr m)) (\<lambda>ds. slift (find_job_doc j ds))"
  define hit where "hit = (case fst q of None \<Rightarrow> None | Some r \<Rightarrow> if map_of (b_jobs r) j \<noteq> None
    then Some (doc_id m (b_key r), the (docs s (on_col jt) (doc_id m (b_key r)))) else None)"
  have slow: "\<exists>s'. slow s1 = (Inr hit, s') \<and> docs s' = docs s" if d: "docs s1 = docs s" for s1
  proof -
    obtain ds s2 where w: "f_where fs (on_col jt) ''mandate_path'' (PStr m) s1 = (Inr ds, s2)"
      "set ds = matching (docs s1) (on_col jt) ''mandate_path'' (PStr m)" "distinct (map fst ds)" "docs s2 = docs s1"
      by (rule f_where_up)
    have "find_job_doc j ds = Inr hit"
    proof (cases "fst q")
      case None
      then have "length ds = 0" using length_matching [OF rel] w(2,3) d by (simp add: running_list_def)
      then show ?thesis using None by (simp add: hit_def)
    next
      case (Some r)
      then have c: "col_rel (docs s) (on_col jt) m [r]" using rel by (simp add: running_list_def)
      obtain x where x: "docs s (on_col jt) (doc_id m (b_key r)) = Some x" "is_batch m r x"
        using col_rel_batch [OF c] by auto
      have "ds = [(doc_id m (b_key r), x)]" using matching_singleton [OF c _ w(3) x(1)] w(2) d by simp
      then show ?thesis using Some x jobs_status_of_batch [OF x(2)] by (auto simp: hit_def rbind_def)
    qed
    then show ?thesis using w d by (simp add: slow_def seq_defs)
  qed
  obtain s1 where 1: "f_get fs (on_col jt) (doc_id m (the bid)) s = (Inr (docs s (on_col jt) (doc_id m (the bid))), s1)" "docs s1 = docs s"
    by (rule f_get_up)
  obtain s2 where 2: "slow s = (Inr hit, s2)" "docs s2 = docs s" using slow by blast
  obtain s3 where 3: "slow s1 = (Inr hit, s3)" "docs s3 = docs s" using slow 1(2) by blast
  have def: "find_active_doc fs jt m j bid = (case bid of Some b \<Rightarrow> if b = [] then slow
      else sbind (f_get fs (on_col jt) (doc_id m b)) (\<lambda>r. case r of Some data \<Rightarrow> sret (Some (doc_id m b, data)) | None \<Rightarrow> slow)
    | None \<Rightarrow> slow)" by (simp only: find_active_doc_def slow_def Let_def)
  have nonempty: "b_key r \<noteq> []" if "fst q = Some r" for r using col_rel_batch [OF rel] that by (auto simp: running_list_def)
  show thesis
  proof (cases "bid = None \<or> bid = Some []")
    case True
    then have "find_active_doc fs jt m j bid s = (Inr hit, s2)" using def 2 by (auto split: option.splits)
    then show ?thesis using that [of s2] 2 True nonempty by (auto simp: hit_def split: option.splits)
  next
    case False
    then obtain b where b: "bid = Some b" "b \<noteq> []" by auto
    show ?thesis
    proof (cases "docs s (on_col jt) (doc_id m b)")
      case None
      then have "find_active_doc fs jt m j bid s = (Inr hit, s3)" using def 1 3 b by (simp add: seq_defs)
      moreover have "b \<notin> set (map b_key (running_list q))" using col_rel_lookup [OF rel, of b] None by simp
      ultimately show ?thesis using that [of s3] 3 b by (auto simp: hit_def running_list_def split: option.splits)
    next
      case (Some x)
      then obtain r where "r \<in> set (running_list q)" "b = b_key r" using col_rel_key [OF rel] by blast
      then have r: "fst q = Some r" "b = b_key r" by (auto simp: running_list_def split: option.splits)
      have "find_active_doc fs jt m j bid s = (Inr (Some (doc_id m b, x)), s1)" using def 1 b Some by (simp add: seq_defs)
      then show ?thesis using that [of s1] 1 b r Some by simp
    qed
  qed
qed

lemma promote_up:
  assumes "col_rel (docs s) (on_col jt) m []" and "col_rel (docs s) (pending_col jt) m ws"
    and "sorted_wrt (\<lambda>a b. b_time a < b_time b) ws"
  obtains s' where "promote_next_pending fs jt m now s = (map_option b_key (fst (next_running ws)), s')"
    "queue_rel (docs s') jt m (next_running ws)" "touches jt m (docs s) (docs s')"
proof -
  let ?M = "ordered_matching (docs s) (pending_col jt) ''mandate_path'' (PStr m) ''created_at''"
  have M: "\<exists>b \<in> set ws. i = doc_id m (b_key b) \<and> is_batch m b d \<and> b_key b \<noteq> []" if "(i, d) \<in> ?M" for i d
    using that col_rel_doc [OF assms(2)] by (auto simp: ordered_matching_def matching_def)
  have Mb: "\<exists>d. (doc_id m (b_key b), d) \<in> ?M \<and> is_batch m b d" if "b \<in> set ws" for b
    using col_rel_batch [OF assms(2) that] by (auto simp: ordered_matching_def matching_def is_batch_def)
  have str: "\<forall>(i, d) \<in> ?M. is_str (dget d ''created_at'')" using M by (fastforce simp: is_batch_def dget_def)
  obtain ds s1 where f: "f_where_first fs (pending_col jt) ''mandate_path'' (PStr m) ''created_at'' s = (Inr ds, s1)"
    using f_first_ok by blast
  note law = f_first_law [OF f str]
  show thesis
  proof (cases ws)
    case Nil
    then have "?M = {}" using M by fastforce
    then have "ds = []" "docs s1 = docs s" using law by auto
    then show ?thesis using that [of s1] f Nil assms
      by (simp add: promote_next_pending_def seq_defs next_running_def queue_rel_def running_list_def)
  next
    case (Cons w ws')
    then obtain dw where w: "(doc_id m (b_key w), dw) \<in> ?M" "is_batch m w dw" using Mb by fastforce
    then have "?M \<noteq> {}" by blast
    then obtain i d where id: "ds = [(i, d)]" "(i, d) \<in> ?M" "docs s1 = docs s"
      "\<forall>(i', d') \<in> ?M. str_of (dget d ''created_at'') \<le> str_of (dget d' ''created_at'')" using law by (auto split: if_splits)
    obtain b where b: "b \<in> set ws" "i = doc_id m (b_key b)" "is_batch m b d" "b_key b \<noteq> []" using M [OF id(2)] by blast
    have "b_time b \<le> b_time w" using id(4) w b(3) by (fastforce simp: is_batch_def dget_def)
    then have bw: "b = w" using b(1) assms(3) Cons by auto
    obtain s2 where 2: "f_set fs (on_col jt) (doc_id m (b_key w)) (promoted_data d now) s1 = (Inr (), s2)"
      "docs s2 = put_doc (docs s1) (on_col jt) (doc_id m (b_key w)) (Some (promoted_data d now))" by (rule f_set_up)
    obtain s3 where 3: "f_delete fs (pending_col jt) (doc_id m (b_key w)) s2 = (Inr (), s3)"
      "docs s3 = put_doc (docs s2) (pending_col jt) (doc_id m (b_key w)) None" by (rule f_delete_up)
    have v: "docs s3 = put_doc (put_doc (docs s) (on_col jt) (doc_id m (b_key w)) (Some (promoted_data d now)))
        (pending_col jt) (doc_id m (b_key w)) None" using 2 3 id(3) by simp
    have "col_rel (docs s3) (on_col jt) m [w]"
      using col_rel_add [OF assms(1) is_batch_promoted] b bw by (simp add: v col_rel_other)
    moreover have "col_rel (docs s3) (pending_col jt) m ws'"
      using col_rel_remove [of "put_doc (docs s) (on_col jt) (doc_id m (b_key w)) (Some (promoted_data d now))" "pending_col jt" m "[]" w ws']
        assms(2) Cons by (simp add: v col_rel_other)
    moreover have "touches jt m (docs s) (docs s3)" unfolding v by (rule touches_trans [OF touches_put touches_put]) simp_all
    moreover have "promote_next_pending fs jt m now s = (Some (b_key w), s3)"
      using f id(1) b bw 2 3 next_key [OF b(3,4)] by (simp add: promote_next_pending_def seq_defs Let_def)
    ultimately show ?thesis using that [of s3] Cons assms(3)
      by (simp add: next_running_def queue_rel_def running_list_def)
  qed
qed

lemma report_up:
  assumes "queue_rel (docs s) jt m q"
  obtains s' where "snd (update_job_status_in_active fs jt m j st bid now s) = s'" "queue_rel (docs s') jt m (q_report j st bid q)"
    "touches jt m (docs s) (docs s')"
    "\<forall>r. fst q = Some r \<and> map_of (b_jobs r) j \<noteq> None \<longrightarrow> updated (fst (update_job_status_in_active fs jt m j st bid now s))"
proof -
  obtain s1 where 1: "docs s1 = docs s"
    "find_active_doc fs jt m j bid s = (Inr (case fst q of
        None \<Rightarrow> None
      | Some r \<Rightarrow> if bid = Some (b_key r) \<or> map_of (b_jobs r) j \<noteq> None
                  then Some (doc_id m (b_key r), the (docs s (on_col jt) (doc_id m (b_key r)))) else None), s1)"
    by (rule find_active_up [OF assms])
  show thesis
  proof (cases "\<exists>r. fst q = Some r \<and> (bid = Some (b_key r) \<or> map_of (b_jobs r) j \<noteq> None)")
    case False
    then have "q_report j st bid q = q" by (auto simp: q_report_def split: option.splits)
    then show ?thesis using that [of s1] 1 assms False
      by (auto simp: update_job_status_in_active_def seq_defs split: option.splits if_splits)
  next
    case True
    then obtain r where r: "fst q = Some r" "bid = Some (b_key r) \<or> map_of (b_jobs r) j \<noteq> None" by blast
    have c: "col_rel (docs s) (on_col jt) m [r]" using queue_rel_running [OF assms] r(1) by (simp add: running_list_def)
    obtain d where d: "docs s (on_col jt) (doc_id m (b_key r)) = Some d" "is_batch m r d" using col_rel_batch [OF c] by auto
    define js where "js = status_after (b_jobs r) j st"
    have f: "find_active_doc fs jt m j bid s = (Inr (Some (doc_id m (b_key r), d)), s1)" using 1(2) r d by simp
    note run = update_job_status_in_active_def seq_defs Let_def f jobs_status_of_batch [OF d(2)] is_batch_not_Nil [OF d(2)]
    show ?thesis
    proof (cases "js = []")
      case True
      obtain s2 where 2: "f_delete fs (on_col jt) (doc_id m (b_key r)) s1 = (Inr (), s2)"
        "docs s2 = put_doc (docs s1) (on_col jt) (doc_id m (b_key r)) None" by (rule f_delete_up)
      have on: "col_rel (docs s2) (on_col jt) m []" using col_rel_remove [of "docs s" "on_col jt" m "[]" r "[]"] c 2 1 by simp
      have pe: "col_rel (docs s2) (pending_col jt) m (snd q)" using queue_rel_waiting [OF assms] 2 1 by (simp add: col_rel_other)
      have so: "sorted_wrt (\<lambda>a b. b_time a < b_time b) (snd q)" using assms by (simp add: queue_rel_def)
      obtain s3 where 3: "promote_next_pending fs jt m now s2 = (map_option b_key (fst (next_running (snd q))), s3)"
        "queue_rel (docs s3) jt m (next_running (snd q))" "touches jt m (docs s2) (docs s3)"
        by (rule promote_up [OF on pe so])
      have "touches jt m (docs s) (docs s3)"
        using touches_trans [OF _ 3(3), of "docs s"] touches_put [of "on_col jt" jt m "docs s" "b_key r" None] 2 1 by simp
      then show ?thesis using that [of s3] 2 3 r True
        by (simp add: run js_def q_report_def)
    next
      case False
      obtain s2 where 2: "f_update fs (on_col jt) (doc_id m (b_key r))
          [(''jobs_status'', FSet (PDict js)), (''last_updated'', FSet (PStr now))] s1 = (Inr (), s2)"
        "docs s2 = put_doc (docs s1) (on_col jt) (doc_id m (b_key r)) (Some (dset (dset d ''jobs_status'' (PDict js)) ''last_updated'' (PStr now)))"
        using f_update_up [of s1 "on_col jt" "doc_id m (b_key r)" d] d(1) 1(1) status_updates by (metis (no_types, lifting))
      have "col_rel (docs s2) (on_col jt) m [r\<lparr>b_jobs := js\<rparr>]"
        using col_rel_replace [of "docs s" "on_col jt" m "[]" r "[]", OF _ is_batch_status [OF d(2)]] c 2 1 by simp
      then have "queue_rel (docs s2) jt m (Some (r\<lparr>b_jobs := js\<rparr>), snd q)"
        using assms 2 1 by (simp add: queue_rel_def running_list_def col_rel_other)
      moreover have "touches jt m (docs s) (docs s2)"
        using touches_put [of "on_col jt" jt m "docs s" "b_key r"] 2 1 by simp
      ultimately show ?thesis using that [of s2] 2 r False
        by (simp add: run js_def q_report_def)
    qed
  qed
qed

end

subsection \<open>Stops refine\<close>

text \<open>A job identifier that is a field name of its own in an update.\<close>

definition field_id :: "string \<Rightarrow> bool" where
  "field_id j \<longleftrightarrow> j \<noteq> [] \<and> list_all (\<lambda>c. c \<notin> set ''~*/[].'') j"

definition stop_field :: "string \<Rightarrow> string" where
  "stop_field j = ''jobs_status.'' @ j"

lemma split_stop_field: "field_id j \<Longrightarrow> split_on CHR ''.'' (stop_field j) = [''jobs_status'', j]"
proof -
  assume "field_id j"
  then have "CHR ''.'' \<notin> set j" by (auto simp: field_id_def list_all_iff)
  then show ?thesis
    using split_on_append [of "CHR ''.''" "''jobs_status''" j] by (simp add: stop_field_def split_on_no_sep)
qed

lemma stop_field_ok: "field_id j \<Longrightarrow> field_path_ok (stop_field j)"
  using split_stop_field [of j] by (auto simp: field_path_ok_def field_id_def stop_field_def list_all_iff)

lemma stop_field_inj [simp]: "stop_field j = stop_field j' \<longleftrightarrow> j = j'" "stop_field j \<noteq> ''last_updated''"
  by (auto simp: stop_field_def)

lemma update_absent: "k \<notin> fst ` set al \<Longrightarrow> AList.update k v al = al @ [(k, v)]"
  by (induction al) auto

lemma stopping_updates_snoc:
  "stopping_updates js (ids @ [j]) now =
     (if map_of js j \<noteq> None then AList.update (stop_field j) (FSet (PStr ''stopping'')) (stopping_updates js ids now)
      else stopping_updates js ids now)"
  by (simp add: stopping_updates_def stop_field_def)

lemma mark_stopping_snoc:
  "mark_stopping (ids @ [j]) js = (if map_of (mark_stopping ids js) j \<noteq> None
     then dset (mark_stopping ids js) j (PStr ''stopping'') else mark_stopping ids js)"
  by (simp add: mark_stopping_def)

lemma mark_stopping_dom: "map_of (mark_stopping ids js) j = None \<longleftrightarrow> map_of js j = None"
  by (induction ids rule: rev_induct) (auto simp: mark_stopping_snoc mark_stopping_def)

lemma mark_stopping_in: "j \<in> set ids \<Longrightarrow> map_of js j \<noteq> None \<Longrightarrow> map_of (mark_stopping ids js) j = Some (PStr ''stopping'')"
  by (induction ids rule: rev_induct) (auto simp: mark_stopping_snoc mark_stopping_dom)

lemma map_of_stopping_updates:
  "map_of (stopping_updates js ids now) (stop_field j) = (if j \<in> set ids \<and> map_of js j \<noteq> None then Some (FSet (PStr ''stopping'')) else None)"
proof (induction ids rule: rev_induct)
  case Nil
  then show ?case by (simp add: stopping_updates_def)
next
  case (snoc x ids)
  then show ?case by (auto simp: stopping_updates_snoc)
qed

lemma stopping_updates_ok:
  "list_all field_id ids \<Longrightarrow> list_all (\<lambda>p. field_path_ok (fst p)) (stopping_updates js ids now)"
proof (induction ids rule: rev_induct)
  case Nil
  then show ?case by (simp add: stopping_updates_def field_path_ok_def)
next
  case (snoc j ids)
  then have ih: "list_all (\<lambda>p. field_path_ok (fst p)) (stopping_updates js ids now)" and j: "field_path_ok (stop_field j)"
    using stop_field_ok by auto
  have "\<forall>p \<in> set (AList.update (stop_field j) v ups). fst p = stop_field j \<or> p \<in> set ups" for v ups
    by (induction ups) auto
  then show ?case using ih j by (fastforce simp: stopping_updates_snoc list_all_iff)
qed

lemma apply_updates_snoc: "apply_updates (ups @ [(p, op)]) d = set_field (split_on CHR ''.'' p) op (apply_updates ups d)"
  by (simp add: apply_updates_def)

lemma apply_stopping_updates:
  assumes "map_of d ''jobs_status'' = Some (PDict js)" and "list_all field_id ids"
  shows "map_of (apply_updates (stopping_updates js ids now) d) =
    (map_of d)(''last_updated'' \<mapsto> PStr now, ''jobs_status'' \<mapsto> PDict (mark_stopping ids js))"
  using assms(2)
proof (induction ids rule: rev_induct)
  case Nil
  then show ?case using assms(1) by (auto simp: stopping_updates_def apply_updates_def mark_stopping_def fun_eq_iff)
next
  case (snoc j ids)
  let ?u = "stopping_updates js ids now" and ?m = "mark_stopping ids js"
  have ih: "map_of (apply_updates ?u d) = (map_of d)(''last_updated'' \<mapsto> PStr now, ''jobs_status'' \<mapsto> PDict ?m)"
    using snoc by (simp add: fun_eq_iff)
  consider (absent) "map_of js j = None" | (twice) "map_of js j \<noteq> None" "j \<in> set ids" | (new) "map_of js j \<noteq> None" "j \<notin> set ids" by blast
  then show ?case
  proof cases
    case absent
    then show ?thesis using ih by (simp add: stopping_updates_snoc mark_stopping_snoc mark_stopping_dom fun_eq_iff)
  next
    case twice
    then have "map_of ?u (stop_field j) = Some (FSet (PStr ''stopping''))" by (simp add: map_of_stopping_updates)
    then have "AList.update (stop_field j) (FSet (PStr ''stopping'')) ?u = ?u" by (rule update_triv)
    moreover have "dset ?m j (PStr ''stopping'') = ?m" by (rule update_triv) (rule mark_stopping_in [OF twice(2,1)])
    ultimately show ?thesis using ih twice by (simp add: stopping_updates_snoc mark_stopping_snoc fun_eq_iff)
  next
    case new
    then have "stop_field j \<notin> fst ` set ?u" using map_of_stopping_updates [of js ids now j] by (simp add: map_of_eq_None_iff)
    then have u: "AList.update (stop_field j) (FSet (PStr ''stopping'')) ?u = ?u @ [(stop_field j, FSet (PStr ''stopping''))]"
      by (rule update_absent)
    have f: "field_id j" using snoc.prems by simp
    have g: "dget (apply_updates ?u d) ''jobs_status'' = PDict ?m" using ih by (simp add: dget_def)
    show ?thesis using new ih u
      by (simp add: stopping_updates_snoc mark_stopping_snoc mark_stopping_dom apply_updates_snoc split_stop_field [OF f] g fun_eq_iff)
  qed
qed

text \<open>A request to stop by a key or by a job, for jobs that are field names.\<close>

definition stop_ok :: "string \<Rightarrow> string list \<Rightarrow> queue \<Rightarrow> bool" where
  "stop_ok k ids q \<longleftrightarrow> list_all field_id ids \<and>
     (k \<notin> set (map b_key (running_list q @ snd q)) \<longrightarrow>
        field_id k \<and> length (filter (\<lambda>b. map_of (b_jobs b) k \<noteq> None) (snd q)) \<le> 1)"

lemma is_batch_cong: "map_of d' ''mandate_path'' = map_of d ''mandate_path'' \<Longrightarrow> map_of d' ''job_key'' = map_of d ''job_key'' \<Longrightarrow>
   map_of d' ''created_at'' = map_of d ''created_at'' \<Longrightarrow> map_of d' ''jobs_status'' = Some (PDict js) \<Longrightarrow>
   is_batch m b d \<Longrightarrow> is_batch m (b\<lparr>b_jobs := js\<rparr>) d'"
  by (simp add: is_batch_def)

lemma is_batch_same: "map_of d' ''mandate_path'' = map_of d ''mandate_path'' \<Longrightarrow> map_of d' ''job_key'' = map_of d ''job_key'' \<Longrightarrow>
   map_of d' ''created_at'' = map_of d ''created_at'' \<Longrightarrow> map_of d' ''jobs_status'' = map_of d ''jobs_status'' \<Longrightarrow>
   is_batch m b d \<Longrightarrow> is_batch m b d'"
  by (simp add: is_batch_def)

lemma cut_batch_split:
  assumes "distinct (map b_key (as @ b # cs))"
  shows "cut_batch (b_key b) ids (as @ b # cs) = as @ cut_jobs ids b @ cs"
proof -
  have "concat (map (\<lambda>x. if b_key x = b_key b then cut_jobs ids x else [x]) xs) = xs" if "b_key b \<notin> b_key ` set xs" for xs
    using that by (induction xs) auto
  then show ?thesis using assms by (simp add: cut_batch_def)
qed

lemma cut_jobs_key: "cut_jobs ids b = [] \<or> (\<exists>js. cut_jobs ids b = [b\<lparr>b_jobs := js\<rparr>])"
  by (auto simp: cut_jobs_def Let_def)

lemma find_job_doc_batches:
  assumes "\<forall>(i, d) \<in> set ds. \<exists>b. is_batch m b d"
  shows "find_job_doc j ds = Inr (find (\<lambda>(i, d). \<exists>js. jobs_status_of d = Inr js \<and> map_of js j \<noteq> None) ds)"
  using assms
proof (induction ds)
  case (Cons x ds)
  obtain i d where x: "x = (i, d)" by (cases x)
  then obtain b where "is_batch m b d" using Cons.prems by auto
  then have "jobs_status_of d = Inr (b_jobs b)" by (rule jobs_status_of_batch)
  then show ?case using Cons x by (simp add: rbind_def)
qed simp

context firestore_up
begin

lemma stop_on_process_up:
  assumes "docs s c i = Some d" and "is_batch m r d" and "list_all field_id ids"
  obtains s' d' where "stop_on_process fs c i d key ids txs now s =
      (Inr \<lparr>stop_success = True, stop_job_key = key, stop_location = ''on_process'', synthetic_stops = []\<rparr>, s')"
    "docs s' = put_doc (docs s) c i (Some d')" "is_batch m (stop_running ids r) d'"
proof -
  let ?ups = "if ids \<noteq> [] then stopping_updates (b_jobs r) ids now
    else if txs \<noteq> [] then [(''stop_requested_transactions'', FArrayUnion (map PStr txs)), (''stop_requested_at'', FSet (PStr now)), (''last_updated'', FSet (PStr now))]
    else [(''stop_requested'', FSet (PBool True)), (''stop_requested_at'', FSet (PStr now)), (''last_updated'', FSet (PStr now))]"
  have ok: "list_all (\<lambda>p. field_path_ok (fst p)) ?ups"
    using stopping_updates_ok [OF assms(3)] by (simp add: field_path_ok_def)
  obtain s' where u: "f_update fs c i ?ups s = (Inr (), s')" "docs s' = put_doc (docs s) c i (Some (apply_updates ?ups d))"
    by (rule f_update_up [OF assms(1) ok])
  have "is_batch m (stop_running ids r) (apply_updates ?ups d)"
  proof (cases "ids = []")
    case True
    show ?thesis by (rule is_batch_same [of _ d]) (use True assms(2) in \<open>auto simp: apply_updates_def stop_running_def\<close>)
  next
    case False
    have "map_of d ''jobs_status'' = Some (PDict (b_jobs r))" using assms(2) by (simp add: is_batch_def)
    note m = apply_stopping_updates [OF this assms(3), of now]
    have "is_batch m (r\<lparr>b_jobs := mark_stopping ids (b_jobs r)\<rparr>) (apply_updates (stopping_updates (b_jobs r) ids now) d)"
      by (rule is_batch_cong [of _ d]) (use m assms(2) in auto)
    then show ?thesis using False by (simp add: stop_running_def)
  qed
  then show thesis
    using that [of s'] u by (simp add: stop_on_process_def seq_defs jobs_status_of_batch [OF assms(2)])
qed

lemma stop_pending_up:
  assumes "docs s c i = Some d" and "is_batch m b d"
  obtains s' d' where "stop_pending fs c i d key ids now s =
      (Inr \<lparr>stop_success = True, stop_job_key = key, stop_location = ''pending'',
         synthetic_stops = (if ids \<noteq> [] then fst (remove_jobs ids (b_jobs b)) else map fst (b_jobs b))\<rparr>, s')"
    "docs s' = put_doc (docs s) c i d'"
    "case cut_jobs ids b of [] \<Rightarrow> d' = None | b' # _ \<Rightarrow> \<exists>x. d' = Some x \<and> is_batch m b' x"
proof -
  obtain stops js where p: "(if ids \<noteq> [] then remove_jobs ids (b_jobs b) else (map fst (b_jobs b), [])) = (stops, js)" by fastforce
  then have stops: "stops = (if ids \<noteq> [] then fst (remove_jobs ids (b_jobs b)) else map fst (b_jobs b))" by (auto split: if_splits)
  have cut: "cut_jobs ids b = (if js = [] then [] else [b\<lparr>b_jobs := js\<rparr>])" using p by (auto simp: cut_jobs_def split: if_splits)
  note run = stop_pending_def seq_defs jobs_status_of_batch [OF assms(2)] Let_def p
  show thesis
  proof (cases "js = []")
    case True
    obtain s' where "f_delete fs c i s = (Inr (), s')" "docs s' = put_doc (docs s) c i None" by (rule f_delete_up)
    then show ?thesis using that [of s' None] True cut stops by (simp add: run)
  next
    case False
    let ?x = "dset (dset d ''jobs_status'' (PDict js)) ''last_updated'' (PStr now)"
    obtain s' where "f_update fs c i [(''jobs_status'', FSet (PDict js)), (''last_updated'', FSet (PStr now))] s = (Inr (), s')"
      "docs s' = put_doc (docs s) c i (Some ?x)"
      using f_update_up [OF assms(1) status_updates(1)] status_updates(2) by metis
    then show ?thesis using that [of s' "Some ?x"] False cut stops is_batch_status [OF assms(2), of js] by (simp add: run)
  qed
qed

end

lemma stop_running_rel:
  assumes "queue_rel vw jt m q" and "fst q = Some r" and "is_batch m (stop_running ids r) d'"
  shows "queue_rel (put_doc vw (on_col jt) (doc_id m (b_key r)) (Some d')) jt m (map_option (stop_running ids) (fst q), snd q)"
proof -
  have "col_rel vw (on_col jt) m [r]" using assms by (simp add: queue_rel_def running_list_def)
  then have "col_rel (put_doc vw (on_col jt) (doc_id m (b_key r)) (Some d')) (on_col jt) m [stop_running ids r]"
    using col_rel_replace [of vw "on_col jt" m "[]" r "[]", OF _ assms(3)] by (simp add: stop_running_def)
  then show ?thesis using assms(1,2) by (simp add: queue_rel_def running_list_def col_rel_other)
qed

lemma cut_rel:
  assumes "queue_rel vw jt m q" and "b \<in> set (snd q)"
    and "case cut_jobs ids b of [] \<Rightarrow> d' = None | b' # _ \<Rightarrow> \<exists>x. d' = Some x \<and> is_batch m b' x"
  shows "queue_rel (put_doc vw (pending_col jt) (doc_id m (b_key b)) d') jt m (fst q, cut_batch (b_key b) ids (snd q))"
proof -
  obtain as cs where ws: "snd q = as @ b # cs" using assms(2) by (meson split_list)
  have rel: "col_rel vw (pending_col jt) m (as @ b # cs)" using queue_rel_waiting [OF assms(1)] ws by simp
  then have cut: "cut_batch (b_key b) ids (snd q) = as @ cut_jobs ids b @ cs" using cut_batch_split [of as b cs] ws by (simp add: col_rel_def)
  have so: "sorted_wrt (\<lambda>a b. b_time a < b_time b) (as @ b # cs)" using assms(1) ws by (simp add: queue_rel_def)
  consider (gone) "cut_jobs ids b = []" | (left) js where "cut_jobs ids b = [b\<lparr>b_jobs := js\<rparr>]" using cut_jobs_key by blast
  then have "col_rel (put_doc vw (pending_col jt) (doc_id m (b_key b)) d') (pending_col jt) m (as @ cut_jobs ids b @ cs) \<and>
    sorted_wrt (\<lambda>a b. b_time a < b_time b) (as @ cut_jobs ids b @ cs)"
  proof cases
    case gone
    then show ?thesis using assms(3) col_rel_remove [OF rel] so by (auto simp: sorted_wrt_append)
  next
    case left
    then obtain x where x: "d' = Some x" "is_batch m (b\<lparr>b_jobs := js\<rparr>) x" using assms(3) by auto
    show ?thesis using left x(1) col_rel_replace [OF rel x(2)] so by (auto simp: sorted_wrt_append)
  qed
  then show ?thesis using assms(1) cut by (simp add: queue_rel_def running_list_def col_rel_other)
qed

context firestore_up
begin

lemma scan_col:
  assumes "col_rel (docs s) col m bs"
  obtains ds s' where "f_where fs col ''mandate_path'' (PStr m) s = (Inr ds, s')" "docs s' = docs s"
    "find_job_doc j ds = Inr None \<and> (\<forall>b \<in> set bs. map_of (b_jobs b) j = None) \<or>
     (\<exists>b d. b \<in> set bs \<and> map_of (b_jobs b) j \<noteq> None \<and> docs s col (doc_id m (b_key b)) = Some d \<and> is_batch m b d \<and>
        find_job_doc j ds = Inr (Some (doc_id m (b_key b), d)))"
proof -
  obtain ds s' where w: "f_where fs col ''mandate_path'' (PStr m) s = (Inr ds, s')"
    "set ds = matching (docs s) col ''mandate_path'' (PStr m)" "docs s' = docs s" by (rule f_where_up)
  have b: "\<exists>b \<in> set bs. i = doc_id m (b_key b) \<and> is_batch m b d \<and> docs s col i = Some d" if "(i, d) \<in> set ds" for i d
  proof -
    have i: "docs s col i = Some d" "map_of d ''mandate_path'' = Some (PStr m)" using that w(2) by (auto simp: matching_def)
    show ?thesis using col_rel_doc [OF assms i] i(1) by blast
  qed
  have "\<forall>(i, d) \<in> set ds. \<exists>b. is_batch m b d" using b by fast
  note f = find_job_doc_batches [OF this, of j]
  have "find_job_doc j ds = Inr None \<and> (\<forall>b \<in> set bs. map_of (b_jobs b) j = None) \<or>
     (\<exists>b d. b \<in> set bs \<and> map_of (b_jobs b) j \<noteq> None \<and> docs s col (doc_id m (b_key b)) = Some d \<and> is_batch m b d \<and>
        find_job_doc j ds = Inr (Some (doc_id m (b_key b), d)))"
  proof (cases "find (\<lambda>(i, d). \<exists>js. jobs_status_of d = Inr js \<and> map_of js j \<noteq> None) ds")
    case None
    have "map_of (b_jobs b) j = None" if h: "b \<in> set bs" for b
    proof -
      obtain d where d: "docs s col (doc_id m (b_key b)) = Some d" "is_batch m b d" using col_rel_batch [OF assms h] by blast
      then have "(doc_id m (b_key b), d) \<in> set ds" using w(2) by (simp add: matching_def is_batch_def)
      then show ?thesis using None jobs_status_of_batch [OF d(2)] by (fastforce simp: find_None_iff)
    qed
    then show ?thesis using f None by simp
  next
    case (Some x)
    obtain i d where x: "x = (i, d)" by (cases x)
    then have "(i, d) \<in> set ds" "\<exists>js. jobs_status_of d = Inr js \<and> map_of js j \<noteq> None" using find_SomeD [OF Some] by auto
    then show ?thesis using b [of i d] f Some x jobs_status_of_batch by fastforce
  qed
  then show thesis using that w by blast
qed

lemma stop_up:
  assumes "queue_rel (docs s) jt m q" and "stop_ok k ids q"
  shows "queue_rel (docs (snd (request_stop fs m jt k ids txs now s))) jt m (q_stop k ids q) \<and>
    touches jt m (docs s) (docs (snd (request_stop fs m jt k ids txs now s)))"
proof -
  note on = queue_rel_running [OF assms(1)] and pe = queue_rel_waiting [OF assms(1)]
  have idok: "list_all field_id ids" using assms(2) by (simp add: stop_ok_def)
  obtain s1 where 1: "f_get fs (on_col jt) (doc_id m k) s = (Inr (docs s (on_col jt) (doc_id m k)), s1)" "docs s1 = docs s" by (rule f_get_up)
  obtain s2 where 2: "f_get fs (pending_col jt) (doc_id m k) s1 = (Inr (docs s1 (pending_col jt) (doc_id m k)), s2)" "docs s2 = docs s1" by (rule f_get_up)
  note run = request_stop_def Let_def seq_defs 1 2
  show ?thesis
  proof (cases "k \<in> set (map b_key (running_list q))")
    case True
    then obtain r where r: "fst q = Some r" "k = b_key r" by (cases "fst q") (auto simp: running_list_def)
    then have "r \<in> set (running_list q)" by (simp add: running_list_def)
    then obtain d where d: "docs s (on_col jt) (doc_id m k) = Some d" "is_batch m r d" using col_rel_batch [OF on] r(2) by blast
    have d1: "docs s1 (on_col jt) (doc_id m k) = Some d" using d 1 by simp
    obtain s' d' where st: "stop_on_process fs (on_col jt) (doc_id m k) d k ids txs now s1 =
        (Inr \<lparr>stop_success = True, stop_job_key = k, stop_location = ''on_process'', synthetic_stops = []\<rparr>, s')"
      "docs s' = put_doc (docs s1) (on_col jt) (doc_id m k) (Some d')" "is_batch m (stop_running ids r) d'"
      by (rule stop_on_process_up [OF d1 d(2) idok])
    have "snd (request_stop fs m jt k ids txs now s) = s'" using st(1) d(1) by (simp add: run)
    moreover have "q_stop k ids q = (map_option (stop_running ids) (fst q), snd q)" using True by (simp add: q_stop_def)
    ultimately show ?thesis using stop_running_rel [OF assms(1) r(1) st(3)] st(2) 1(2) r(2) touches_put [of "on_col jt" jt m "docs s" k "Some d'"]
      by simp
  next
    case nr: False
    then have n1: "docs s (on_col jt) (doc_id m k) = None" using col_rel_lookup [OF on] by simp
    show ?thesis
    proof (cases "k \<in> set (map b_key (snd q))")
      case True
      then obtain b where b: "b \<in> set (snd q)" "k = b_key b" by auto
      then obtain d where d: "docs s (pending_col jt) (doc_id m k) = Some d" "is_batch m b d" using col_rel_batch [OF pe] by blast
      have d2: "docs s2 (pending_col jt) (doc_id m k) = Some d" using d 1 2 by simp
      obtain s' d' where st: "stop_pending fs (pending_col jt) (doc_id m k) d k ids now s2 =
          (Inr \<lparr>stop_success = True, stop_job_key = k, stop_location = ''pending'',
             synthetic_stops = (if ids \<noteq> [] then fst (remove_jobs ids (b_jobs b)) else map fst (b_jobs b))\<rparr>, s')"
        "docs s' = put_doc (docs s2) (pending_col jt) (doc_id m k) d'"
        "case cut_jobs ids b of [] \<Rightarrow> d' = None | b' # _ \<Rightarrow> \<exists>x. d' = Some x \<and> is_batch m b' x"
        by (rule stop_pending_up [OF d2 d(2)])
      have "snd (request_stop fs m jt k ids txs now s) = s'" using st(1) n1 d(1) by (simp add: run)
      moreover have "q_stop k ids q = (fst q, cut_batch k ids (snd q))" using True nr by (simp add: q_stop_def)
      ultimately show ?thesis using cut_rel [OF assms(1) b(1) st(3)] st(2) 1(2) 2(2) b(2) touches_put [of "pending_col jt" jt m "docs s" k d']
        by simp
    next
      case nw: False
      then have n2: "docs s (pending_col jt) (doc_id m k) = None" using col_rel_lookup [OF pe] by simp
      let ?ids = "if ids \<noteq> [] then ids else [k]"
      have ids': "list_all field_id ?ids" and uniq: "length (filter (\<lambda>b. map_of (b_jobs b) k \<noteq> None) (snd q)) \<le> 1"
        using assms(2) nr nw by (auto simp: stop_ok_def)
      have on2: "col_rel (docs s2) (on_col jt) m (running_list q)" using on 1 2 by simp
      obtain ds s3 where 3: "f_where fs (on_col jt) ''mandate_path'' (PStr m) s2 = (Inr ds, s3)" "docs s3 = docs s2"
        "find_job_doc k ds = Inr None \<and> (\<forall>b \<in> set (running_list q). map_of (b_jobs b) k = None) \<or>
         (\<exists>b d. b \<in> set (running_list q) \<and> map_of (b_jobs b) k \<noteq> None \<and> docs s2 (on_col jt) (doc_id m (b_key b)) = Some d \<and>
            is_batch m b d \<and> find_job_doc k ds = Inr (Some (doc_id m (b_key b), d)))" by (rule scan_col [OF on2])
      note run' = run n1 n2 stop_by_scanning_def 3(1)
      from 3(3) show ?thesis
      proof (elim disjE exE conjE)
        fix r d
        assume r: "r \<in> set (running_list q)" "map_of (b_jobs r) k \<noteq> None" "docs s2 (on_col jt) (doc_id m (b_key r)) = Some d"
          "is_batch m r d" "find_job_doc k ds = Inr (Some (doc_id m (b_key r), d))"
        then have fr: "fst q = Some r" by (auto simp: running_list_def split: option.splits)
        have d3: "docs s3 (on_col jt) (doc_id m (b_key r)) = Some d" using r 3 by simp
        obtain s' d' where st: "stop_on_process fs (on_col jt) (doc_id m (b_key r)) d (id_str (dget_or d ''job_key'' (PStr (doc_id m (b_key r))))) ?ids txs now s3 =
            (Inr \<lparr>stop_success = True, stop_job_key = id_str (dget_or d ''job_key'' (PStr (doc_id m (b_key r)))), stop_location = ''on_process'', synthetic_stops = []\<rparr>, s')"
          "docs s' = put_doc (docs s3) (on_col jt) (doc_id m (b_key r)) (Some d')" "is_batch m (stop_running ?ids r) d'"
          by (rule stop_on_process_up [OF d3 r(4) ids'])
        have "snd (request_stop fs m jt k ids txs now s) = s'" using st(1) r(5) by (simp add: run')
        moreover have "q_stop k ids q = (map_option (stop_running ?ids) (fst q), snd q)"
          using nr nw r(2) fr by (simp add: q_stop_def Let_def running_list_def)
        moreover have "docs s' = put_doc (docs s) (on_col jt) (doc_id m (b_key r)) (Some d')" using st(2) 1 2 3 by simp
        ultimately show ?thesis using stop_running_rel [OF assms(1) fr st(3)] touches_put [of "on_col jt" jt m "docs s" "b_key r" "Some d'"]
          by metis
      next
        assume f: "find_job_doc k ds = Inr None" and nj: "\<forall>b \<in> set (running_list q). map_of (b_jobs b) k = None"
        have fn: "find (\<lambda>b. map_of (b_jobs b) k \<noteq> None) (running_list q) = None" using nj by (auto simp: find_None_iff)
        have pe3: "col_rel (docs s3) (pending_col jt) m (snd q)" using pe 1 2 3 by simp
        obtain ds' s4 where 4: "f_where fs (pending_col jt) ''mandate_path'' (PStr m) s3 = (Inr ds', s4)" "docs s4 = docs s3"
          "find_job_doc k ds' = Inr None \<and> (\<forall>b \<in> set (snd q). map_of (b_jobs b) k = None) \<or>
           (\<exists>b d. b \<in> set (snd q) \<and> map_of (b_jobs b) k \<noteq> None \<and> docs s3 (pending_col jt) (doc_id m (b_key b)) = Some d \<and>
              is_batch m b d \<and> find_job_doc k ds' = Inr (Some (doc_id m (b_key b), d)))" by (rule scan_col [OF pe3])
        from 4(3) show ?thesis
        proof (elim disjE exE conjE)
          assume g: "find_job_doc k ds' = Inr None" and nj': "\<forall>b \<in> set (snd q). map_of (b_jobs b) k = None"
          have "find (\<lambda>b. map_of (b_jobs b) k \<noteq> None) (snd q) = None" using nj' by (auto simp: find_None_iff)
          then have "q_stop k ids q = q" using nr nw fn by (simp add: q_stop_def Let_def)
          moreover have "snd (request_stop fs m jt k ids txs now s) = s4" using f g 4(1) by (simp add: run')
          ultimately show ?thesis using assms(1) 1 2 3 4 by simp
        next
          fix b d
          assume b: "b \<in> set (snd q)" "map_of (b_jobs b) k \<noteq> None" "docs s3 (pending_col jt) (doc_id m (b_key b)) = Some d"
            "is_batch m b d" "find_job_doc k ds' = Inr (Some (doc_id m (b_key b), d))"
          have d4: "docs s4 (pending_col jt) (doc_id m (b_key b)) = Some d" using b 4 by simp
          obtain s' d' where st: "stop_pending fs (pending_col jt) (doc_id m (b_key b)) d (id_str (dget_or d ''job_key'' (PStr (doc_id m (b_key b))))) ?ids now s4 =
              (Inr \<lparr>stop_success = True, stop_job_key = id_str (dget_or d ''job_key'' (PStr (doc_id m (b_key b)))), stop_location = ''pending'',
                 synthetic_stops = (if ?ids \<noteq> [] then fst (remove_jobs ?ids (b_jobs b)) else map fst (b_jobs b))\<rparr>, s')"
            "docs s' = put_doc (docs s4) (pending_col jt) (doc_id m (b_key b)) d'"
            "case cut_jobs ?ids b of [] \<Rightarrow> d' = None | b' # _ \<Rightarrow> \<exists>x. d' = Some x \<and> is_batch m b' x"
            by (rule stop_pending_up [OF d4 b(4)])
          obtain b' where fb: "find (\<lambda>b. map_of (b_jobs b) k \<noteq> None) (snd q) = Some b'"
            using b(1,2) by (cases "find (\<lambda>b. map_of (b_jobs b) k \<noteq> None) (snd q)") (auto simp: find_None_iff)
          have "b' = b" by (rule length_le_1_eq [OF uniq]) (use find_SomeD [OF fb] b in auto)
          then have "q_stop k ids q = (fst q, cut_batch (b_key b) ?ids (snd q))"
            using nr nw fn fb by (simp add: q_stop_def Let_def)
          moreover have "snd (request_stop fs m jt k ids txs now s) = s'" using st(1) f b(5) 4(1) by (simp add: run')
          moreover have "docs s' = put_doc (docs s) (pending_col jt) (doc_id m (b_key b)) d'" using st(2) 1 2 3 4 by simp
          ultimately show ?thesis using cut_rel [OF assms(1) b(1) st(3)] touches_put [of "pending_col jt" jt m "docs s" "b_key b" d'] by metis
        qed
      qed
    qed
  qed
qed

end

end
