(* ===== verification/Active_Queue.thy ===== *)
theory Active_Queue
  imports Active_Jobs
begin

text \<open>
  Sequences of calls to \<open>ActiveJobManager\<close> (\<open>src/app/active_job_manager.py\<close>): any interleaving of
  registrations, reports and stop requests implements the abstract queue of \<open>Active_Jobs\<close>, keeps at
  most one batch running, lets every waiting batch run once the earlier ones have reported, and
  leaves the queues of other mandates and types alone.
\<close>

section \<open>Sequences of calls\<close>

primrec run_op :: "'s firestore \<Rightarrow> string \<Rightarrow> string \<Rightarrow> queue_op \<Rightarrow> 's \<Rightarrow> 's" where
  "run_op fs jt m (Register k data t) s = snd (register_job fs m data k jt t s)"
| "run_op fs jt m (Report j st bid now) s = snd (update_job_status_in_active fs jt m j st bid now s)"
| "run_op fs jt m (Stop k ids txs now) s = snd (request_stop fs m jt k ids txs now s)"

definition run_ops :: "'s firestore \<Rightarrow> string \<Rightarrow> string \<Rightarrow> queue_op list \<Rightarrow> 's \<Rightarrow> 's" where
  "run_ops fs jt m ops s = fold (run_op fs jt m) ops s"

text \<open>A payload whose jobs cannot be listed is not queued.\<close>

primrec q_op :: "string \<Rightarrow> queue_op \<Rightarrow> queue \<Rightarrow> queue" where
  "q_op jt (Register k data t) q =
     (case extract_job_ids_from_payload data jt of Inl _ \<Rightarrow> q | Inr js \<Rightarrow> q_register k js t q)"
| "q_op jt (Report j st bid now) q = q_report j st bid q"
| "q_op jt (Stop k ids txs now) q = q_stop k ids q"

definition q_ops :: "string \<Rightarrow> queue_op list \<Rightarrow> queue \<Rightarrow> queue" where
  "q_ops jt ops q = fold (q_op jt) ops q"

text \<open>Keys are not empty and not those of a waiting batch, and the clock moves on between registrations.\<close>

primrec op_ok :: "queue_op \<Rightarrow> queue \<Rightarrow> bool" where
  "op_ok (Register k data t) q \<longleftrightarrow> k \<noteq> [] \<and> k \<notin> set (map b_key (snd q)) \<and> (\<forall>w \<in> set (snd q). b_time w < t)"
| "op_ok (Report j st bid now) q \<longleftrightarrow> True"
| "op_ok (Stop k ids txs now) q \<longleftrightarrow> stop_ok k ids q"

primrec ops_ok :: "string \<Rightarrow> queue_op list \<Rightarrow> queue \<Rightarrow> bool" where
  "ops_ok jt [] q \<longleftrightarrow> True"
| "ops_ok jt (x # ops) q \<longleftrightarrow> op_ok x q \<and> ops_ok jt ops (q_op jt x q)"

lemma run_ops_simps [simp]: "run_ops fs jt m [] s = s" "run_ops fs jt m (x # ops) s = run_ops fs jt m ops (run_op fs jt m x s)"
  by (simp_all add: run_ops_def)

lemma q_ops_simps [simp]: "q_ops jt [] q = q" "q_ops jt (x # ops) q = q_ops jt ops (q_op jt x q)"
  by (simp_all add: q_ops_def)

lemma q_ops_append: "q_ops jt (xs @ ys) q = q_ops jt ys (q_ops jt xs q)"
  by (simp add: q_ops_def)

section \<open>Library lemmas\<close>

subsection \<open>Each call implements its abstract operation\<close>

context firestore_up
begin

lemma register_rejected:
  assumes "extract_job_ids_from_payload data jt = Inl e"
  shows "docs (snd (register_job fs m data k jt t s)) = docs s"
proof -
  obtain ds1 s1 where 1: "f_where fs (on_col jt) ''mandate_path'' (PStr m) s = (Inr ds1, s1)" "docs s1 = docs s"
    by (rule f_where_up)
  obtain ds2 s2 where 2: "f_where fs (pending_col jt) ''mandate_path'' (PStr m) s1 = (Inr ds2, s2)" "docs s2 = docs s1"
    by (rule f_where_up)
  show ?thesis using 1 2 assms by (simp add: register_job_def register_job_transaction_def seq_defs Let_def)
qed

lemma run_op_refines:
  assumes "queue_rel (docs s) jt m q" and "op_ok x q"
  shows "queue_rel (docs (run_op fs jt m x s)) jt m (q_op jt x q) \<and> touches jt m (docs s) (docs (run_op fs jt m x s))"
proof (cases x)
  case (Register k data t)
  show ?thesis
  proof (cases "extract_job_ids_from_payload data jt")
    case (Inl e)
    then show ?thesis using Register assms(1) register_rejected [OF Inl] by simp
  next
    case (Inr js)
    let ?c = "if fst q = None then on_col jt else pending_col jt"
    obtain s' where "register_job fs m data k jt t s = (\<lparr>should_start = (fst q = None), rr_job_key = k,
        rr_status = (if fst q = None then ''running'' else ''pending''), location = (if fst q = None then ''on_process'' else ''pending''),
        position_in_queue = (if fst q = None then 0 else length (snd q) + 1)\<rparr>, s')"
      "docs s' = put_doc (docs s) ?c (doc_id m k) (Some (job_document m k jt data js (fst q = None) t))"
      by (rule register_up [OF assms(1) Inr])
    moreover have "touches jt m (docs s) (put_doc (docs s) ?c (doc_id m k) (Some (job_document m k jt data js (fst q = None) t)))"
      by (rule touches_put) simp
    ultimately show ?thesis using Register Inr assms register_rel [OF assms(1), of k t data js] by simp
  qed
next
  case (Report j st bid now)
  obtain s' where "snd (update_job_status_in_active fs jt m j st bid now s) = s'" "queue_rel (docs s') jt m (q_report j st bid q)"
    "touches jt m (docs s) (docs s')" by (rule report_up [OF assms(1)])
  then show ?thesis using Report by simp
next
  case (Stop k ids txs now)
  then show ?thesis using stop_up [OF assms(1)] assms(2) by simp
qed

lemma run_ops_refines:
  assumes "queue_rel (docs s) jt m q" and "ops_ok jt ops q"
  shows "queue_rel (docs (run_ops fs jt m ops s)) jt m (q_ops jt ops q) \<and> touches jt m (docs s) (docs (run_ops fs jt m ops s))"
  using assms
proof (induction ops arbitrary: s q)
  case (Cons x ops)
  have step: "queue_rel (docs (run_op fs jt m x s)) jt m (q_op jt x q)" "touches jt m (docs s) (docs (run_op fs jt m x s))"
    using run_op_refines [OF Cons.prems(1)] Cons.prems(2) by auto
  then show ?case using Cons.IH [OF step(1)] Cons.prems(2) touches_trans [OF step(2)] by simp
qed simp

lemma queue_status_up:
  assumes "queue_rel (docs s) jt m q"
  shows "fst (get_queue_status fs m jt s) =
    Some (length (running_list q), length (snd q), length (running_list q) + length (snd q))"
proof -
  obtain ds1 s1 where 1: "f_where fs (on_col jt) ''mandate_path'' (PStr m) s = (Inr ds1, s1)"
    "set ds1 = matching (docs s) (on_col jt) ''mandate_path'' (PStr m)" "distinct (map fst ds1)" "docs s1 = docs s"
    by (rule f_where_up)
  obtain ds2 s2 where 2: "f_where fs (pending_col jt) ''mandate_path'' (PStr m) s1 = (Inr ds2, s2)"
    "set ds2 = matching (docs s1) (pending_col jt) ''mandate_path'' (PStr m)" "distinct (map fst ds2)" "docs s2 = docs s1"
    by (rule f_where_up)
  have "length ds1 = length (running_list q)" by (rule length_matching [OF queue_rel_running [OF assms] 1(2,3)])
  moreover have "length ds2 = length (snd q)"
    using length_matching [OF queue_rel_waiting [OF assms]] 2(2,3) 1(4) by simp
  ultimately show ?thesis using 1 2 by (simp add: get_queue_status_def seq_defs)
qed

end

subsection \<open>A batch waits only while another runs\<close>

definition no_idle_wait :: "queue \<Rightarrow> bool" where
  "no_idle_wait q \<longleftrightarrow> (fst q = None \<longrightarrow> snd q = [])"

lemma no_idle_wait_next: "no_idle_wait (next_running ws)"
  by (cases ws) (simp_all add: no_idle_wait_def next_running_def)

lemma no_idle_wait_op: "no_idle_wait q \<Longrightarrow> no_idle_wait (q_op jt x q)"
proof (cases x)
  case (Stop k ids txs now)
  assume "no_idle_wait q"
  then show ?thesis using Stop
    by (auto simp: no_idle_wait_def q_stop_def Let_def cut_batch_def running_list_def split: option.splits)
qed (auto simp: no_idle_wait_def q_register_def q_report_def Let_def no_idle_wait_next [unfolded no_idle_wait_def]
  split: sum.splits option.splits)

lemma no_idle_wait_ops: "no_idle_wait q \<Longrightarrow> no_idle_wait (q_ops jt ops q)"
  by (induction ops arbitrary: q) (simp_all add: no_idle_wait_op)

subsection \<open>Draining\<close>

text \<open>Each open job of a batch reports once, with a status that ends it.\<close>

definition finishes :: "(string \<times> string) list \<Rightarrow> batch \<Rightarrow> bool" where
  "finishes rs b \<longleftrightarrow> rs \<noteq> [] \<and> distinct (map fst rs) \<and> set (map fst rs) = set (map fst (b_jobs b)) \<and>
     snd ` set rs \<subseteq> set TERMINAL_STATUSES"

definition reports :: "string \<Rightarrow> (string \<times> string) list \<Rightarrow> queue_op list" where
  "reports now rs = map (\<lambda>(j, st). Report j st None now) rs"

lemma reports_simps [simp]: "reports now [] = []" "reports now ((j, st) # rs) = Report j st None now # reports now rs"
  "reports now (xs @ ys) = reports now xs @ reports now ys"
  by (simp_all add: reports_def)

lemma fst_delete: "fst ` set (AList.delete j al) = fst ` set al - {j}"
  by (induction al) auto

lemma finished: "finishes rs r \<Longrightarrow> q_ops jt (reports now rs) (Some r, ws) = next_running ws"
proof (induction rs arbitrary: r)
  case (Cons x rs)
  obtain j st where x: "x = (j, st)" by (cases x)
  have k: "set (map fst (b_jobs r)) = insert j (set (map fst rs))" and t: "st \<in> set TERMINAL_STATUSES"
    and n: "j \<notin> set (map fst rs)" using Cons.prems x by (auto simp: finishes_def)
  have has: "map_of (b_jobs r) j \<noteq> None" using k by (simp add: map_of_eq_None_iff)
  have left: "set (map fst (AList.delete j (b_jobs r))) = set (map fst rs)"
    using k n by (auto simp: fst_delete)
  have step: "q_report j st None (Some r, ws) =
     (if AList.delete j (b_jobs r) = [] then next_running ws else (Some (r\<lparr>b_jobs := AList.delete j (b_jobs r)\<rparr>), ws))"
    using has t by (simp add: q_report_def status_after_def)
  show ?case
  proof (cases "rs = []")
    case True
    then have "AList.delete j (b_jobs r) = []" using left by simp
    then show ?thesis using step x True by simp
  next
    case False
    then have "AList.delete j (b_jobs r) \<noteq> []" using left by auto
    moreover have "finishes rs (r\<lparr>b_jobs := AList.delete j (b_jobs r)\<rparr>)"
      using Cons.prems x False left by (auto simp: finishes_def)
    ultimately show ?thesis using step x Cons.IH by simp
  qed
qed (simp add: finishes_def)

lemma drained:
  assumes "list_all2 finishes rss (r # take i ws)" and "i < length ws"
  shows "q_ops jt (reports now (concat rss)) (Some r, ws) = (Some (ws ! i), drop (Suc i) ws)"
  using assms
proof (induction i arbitrary: r ws rss)
  case 0
  then obtain rs where "rss = [rs]" "finishes rs r" by (auto simp: list_all2_Cons2)
  then show ?case using 0 by (cases ws) (simp_all add: finished next_running_def)
next
  case (Suc i)
  then obtain w ws' where ws: "ws = w # ws'" by (cases ws) auto
  then obtain rs rss' where "rss = rs # rss'" "finishes rs r" "list_all2 finishes rss' (w # take i ws')"
    using Suc.prems by (auto simp: list_all2_Cons2)
  then show ?case using Suc.IH [of rss' w ws'] Suc.prems ws by (simp add: q_ops_append finished next_running_def)
qed

lemma reports_ok: "ops_ok jt (reports now rs) q"
proof (induction rs arbitrary: q)
  case (Cons x rs)
  then show ?case by (cases x) (simp del: split_paired_All)
qed simp

subsection \<open>Mandates and types do not interfere\<close>

text \<open>
  The path of a mandate, \<open>clients/U/bo_clients/C/mandates/M\<close>, with identifiers Firestore generates: letters and
  digits.
\<close>

definition plain_id :: "string \<Rightarrow> bool" where
  "plain_id u \<longleftrightarrow> u \<noteq> [] \<and> length u \<le> 300 \<and> list_all (\<lambda>c. c \<notin> set ''/.#_'' \<and> utf8_start c) u"

definition mandate_of :: "string \<Rightarrow> string \<Rightarrow> string \<Rightarrow> string" where
  "mandate_of u c a = ''clients/'' @ u @ ''/bo_clients/'' @ c @ ''/mandates/'' @ a"

definition escaped_mandate :: "string \<Rightarrow> string \<Rightarrow> string \<Rightarrow> string" where
  "escaped_mandate u c a = ''clients_'' @ u @ ''_bo_clients_'' @ c @ ''_mandates_'' @ a"

lemma concat_map_plain: "plain_id u \<Longrightarrow> x \<in> set ''/.#'' \<Longrightarrow> concat (map (\<lambda>c. if c = x then r else [c]) u) = u"
  by (rule concat_map_id) (auto simp: plain_id_def list_all_iff)

lemma escape_mandate:
  assumes "plain_id u" and "plain_id c" and "plain_id a"
  shows "escape_path (mandate_of u c a) = escaped_mandate u c a"
  using assms by (simp add: escape_path_def mandate_of_def escaped_mandate_def py_replace_char concat_map_plain)

lemma encode_mandate:
  assumes "plain_id u" and "plain_id c" and "plain_id a"
  shows "encode_mandate_path (mandate_of u c a) = escaped_mandate u c a"
proof -
  have "length (filter utf8_start x) \<le> length x" for x by simp
  then have "code_points (escaped_mandate u c a) \<le> length (escaped_mandate u c a)" unfolding code_points_def .
  also have "\<dots> \<le> 1000" using assms by (simp add: escaped_mandate_def plain_id_def)
  finally show ?thesis using escape_mandate [OF assms] by (simp add: encode_mandate_path_def Let_def mandate_of_def)
qed

lemma plain_prefix:
  assumes "plain_id u" and "plain_id u'" and "u @ CHR ''_'' # xs = u' @ CHR ''_'' # ys"
  shows "u = u' \<and> xs = ys"
proof -
  have "takeWhile (\<lambda>c. c \<noteq> CHR ''_'') (v @ CHR ''_'' # zs) = v" if "plain_id v" for v zs
    using that by (auto simp: plain_id_def list_all_iff takeWhile_append takeWhile_eq_all_conv)
  then have "u = u'" using assms by metis
  then show ?thesis using assms(3) by simp
qed

lemma doc_ids_disjoint:
  assumes "list_all plain_id [u, c, a, u', c', a']" and "mandate_of u c a \<noteq> mandate_of u' c' a'"
  shows "doc_id (mandate_of u c a) k \<noteq> doc_id (mandate_of u' c' a') k'"
proof
  assume e: "doc_id (mandate_of u c a) k = doc_id (mandate_of u' c' a') k'"
  then have 1: "u @ CHR ''_'' # (''bo_clients_'' @ c @ ''_mandates_'' @ a @ ''_'' @ k) =
      u' @ CHR ''_'' # (''bo_clients_'' @ c' @ ''_mandates_'' @ a' @ ''_'' @ k')"
    using assms(1) by (simp add: doc_id_def encode_mandate escaped_mandate_def)
  have u: "u = u'" using plain_prefix [OF _ _ 1] assms(1) by simp
  have 2: "c @ CHR ''_'' # (''mandates_'' @ a @ ''_'' @ k) = c' @ CHR ''_'' # (''mandates_'' @ a' @ ''_'' @ k')"
    using 1 u by simp
  have c: "c = c'" using plain_prefix [OF _ _ 2] assms(1) by simp
  have 3: "a @ CHR ''_'' # k = a' @ CHR ''_'' # k'" using 2 c by simp
  have "a = a'" using plain_prefix [OF _ _ 3] assms(1) by simp
  then show False using u c assms(2) by simp
qed

lemma col_rel_frame:
  assumes "col_rel vw col m' bs'" and "col_rel vw' col m bs"
    and "\<And>i. vw' col i \<noteq> vw col i \<Longrightarrow> \<exists>k. i = doc_id m k"
    and "m \<noteq> m'" and "\<And>k k'. doc_id m k \<noteq> doc_id m' k'"
  shows "col_rel vw' col m' bs'"
proof -
  have same: "vw' col (doc_id m' k) = vw col (doc_id m' k)" for k using assms(3,5) by metis
  have "vw col i = Some d" if h: "vw' col i = Some d" "map_of d ''mandate_path'' = Some (PStr m')" for i d
  proof (rule ccontr)
    assume "\<not> ?thesis"
    then obtain k where k: "i = doc_id m k" using assms(3) h(1) by metis
    then obtain b where "b \<in> set bs" "i = doc_id m (b_key b)" using assms(2) h(1) unfolding col_rel_def by blast
    then have "map_of d ''mandate_path'' = Some (PStr m)" using col_rel_batch [OF assms(2)] h(1) by (fastforce simp: is_batch_def)
    then show False using h(2) assms(4) by simp
  qed
  then show ?thesis using assms(1) same unfolding col_rel_def by metis
qed

lemma queue_rel_frame:
  assumes "queue_rel vw jt' m' q'" and "queue_rel vw' jt m q" and "touches jt m vw vw'"
    and "jt \<noteq> jt' \<or> (m \<noteq> m' \<and> (\<forall>k k'. doc_id m k \<noteq> doc_id m' k'))"
  shows "queue_rel vw' jt' m' q'"
proof (cases "jt = jt'")
  case True
  have t: "\<exists>k. i = doc_id m k" if "vw' col i \<noteq> vw col i" for col i using assms(3) that by (auto simp: touches_def)
  have d: "m \<noteq> m'" "\<And>k k'. doc_id m k \<noteq> doc_id m' k'" using assms(4) True by auto
  have "col_rel vw' col m' bs'" if "col_rel vw col m' bs'" "col_rel vw' col m bs" for col bs bs'
    by (rule col_rel_frame [OF that t d])
  then show ?thesis using assms(1,2) True unfolding queue_rel_def by blast
next
  case False
  then have same: "vw' c i = vw c i" if "c = on_col jt' \<or> c = pending_col jt'" for c i
    using assms(3) that unfolding touches_def by (metis cols_distinct col_inj)
  have "vw' (on_col jt') = vw (on_col jt')" "vw' (pending_col jt') = vw (pending_col jt')" using same by (auto simp: fun_eq_iff)
  then show ?thesis using assms(1) by (simp add: queue_rel_def col_rel_def)
qed

subsection \<open>An example\<close>

definition demo_payload :: "string \<Rightarrow> pydict" where
  "demo_payload j = [(''jobs_data'', PList [PDict [(''job_id'', PStr j)]])]"

definition demo_ops :: "queue_op list" where
  "demo_ops = [Register ''b1'' (demo_payload ''j1'') ''1'', Register ''b2'' (demo_payload ''j2'') ''2'']"

definition demo_batch :: "string \<Rightarrow> string \<Rightarrow> string \<Rightarrow> batch" where
  "demo_batch k j t = \<lparr>b_key = k, b_jobs = [(j, PStr ''in_queue'')], b_time = t\<rparr>"

lemma demo_extract [simp]: "extract_job_ids_from_payload (demo_payload j) ''router'' =
    Inr (if j = [] then [] else [(j, PStr ''in_queue'')])"
  by (simp add: extract_job_ids_from_payload_def demo_payload_def dget_or_def for_items_def rbind_def in_queue_def
      first_of_def py_or_def dget_def Let_def)

lemma demo_q: "q_ops ''router'' demo_ops (None, []) = (Some (demo_batch ''b1'' ''j1'' ''1''), [demo_batch ''b2'' ''j2'' ''2''])"
  by (simp add: demo_ops_def q_register_def Let_def demo_batch_def)

lemma demo_ok: "ops_ok ''router'' demo_ops (None, [])"
  by (simp add: demo_ops_def q_register_def Let_def)

lemma empty_rel: "queue_rel (mem_docs_view []) jt m (None, [])"
  by (simp add: queue_rel_def col_rel_def running_list_def mem_docs_view_def)

section \<open>Properties\<close>

text \<open>C3: Whatever sequence of registrations, status reports and stop requests is made for a mandate and
  a type of job, the documents in Firestore are those of the abstract queue after the same operations:
  one running batch, the waiting batches in order of registration, each with its open jobs. Firestore
  answers; keys are not empty and not in use by a waiting batch, and the clock moves on.\<close>

theorem active_jobs_refine_queue:
  assumes "firestore_up fs docs" and "queue_rel (docs s) jt m q" and "ops_ok jt ops q"
  shows "queue_rel (docs (run_ops fs jt m ops s)) jt m (q_ops jt ops q)"
  using firestore_up.run_ops_refines [OF assms] by blast

theorem active_jobs_refine_queue_witness:
  "queue_rel (mem_docs_view (run_ops mem_firestore ''router'' ''m'' (demo_ops @ [Report ''j1'' ''completed'' None ''3'']) [])) ''router'' ''m''
     (Some (demo_batch ''b2'' ''j2'' ''2''), [])"
proof -
  have "ops_ok ''router'' (demo_ops @ [Report ''j1'' ''completed'' None ''3'']) (None, [])"
    by (simp add: demo_ops_def q_register_def Let_def)
  moreover have "q_ops ''router'' (demo_ops @ [Report ''j1'' ''completed'' None ''3'']) (None, []) = (Some (demo_batch ''b2'' ''j2'' ''2''), [])"
    by (simp add: q_ops_append demo_q) (simp add: q_report_def status_after_def TERMINAL_STATUSES_def next_running_def demo_batch_def)
  ultimately show ?thesis
    using active_jobs_refine_queue [OF mem_firestore_up empty_rel, of "''router''" "demo_ops @ [Report ''j1'' ''completed'' None ''3'']" "''m''"]
    by simp
qed

text \<open>C4: When each call runs as a whole, one after the other, from an empty queue, at most one batch of a
  mandate and type runs, and a batch waits only while another one runs: this is what \<open>get_queue_status\<close>
  counts after any such sequence of registrations, reports and stops. (Overlapping calls can start two:
  \<open>promotion_race\<close>.)\<close>

theorem one_batch_at_a_time:
  assumes "firestore_up fs docs" and "queue_rel (docs s) jt m (None, [])" and "ops_ok jt ops (None, [])"
  shows "\<exists>r w. fst (get_queue_status fs m jt (run_ops fs jt m ops s)) = Some (r, w, r + w) \<and> r \<le> 1 \<and> (0 < w \<longrightarrow> r = 1)"
proof -
  let ?q = "q_ops jt ops (None, [])"
  have "queue_rel (docs (run_ops fs jt m ops s)) jt m ?q" using firestore_up.run_ops_refines [OF assms] by blast
  note status = firestore_up.queue_status_up [OF assms(1) this]
  have "no_idle_wait ?q" by (rule no_idle_wait_ops) (simp add: no_idle_wait_def)
  then show ?thesis using status by (cases "fst ?q") (auto simp: no_idle_wait_def running_list_def)
qed

theorem one_batch_at_a_time_witness:
  "\<exists>r w. fst (get_queue_status mem_firestore ''m'' ''router'' (run_ops mem_firestore ''router'' ''m'' demo_ops [])) = Some (r, w, r + w) \<and>
     r \<le> 1 \<and> (0 < w \<longrightarrow> r = 1)"
  by (rule one_batch_at_a_time [OF mem_firestore_up empty_rel demo_ok])

text \<open>A registration starts the batch exactly when \<open>get_queue_status\<close> counts no running one, and
  otherwise gives it the place behind the batches that wait.\<close>

theorem registration_decides:
  assumes "firestore_up fs docs" and "queue_rel (docs s) jt m q" and "extract_job_ids_from_payload data jt = Inr js"
    and "fst (get_queue_status fs m jt s) = Some (r, w, n)"
  shows "should_start (fst (register_job fs m data k jt t s)) = (r = 0) \<and>
    position_in_queue (fst (register_job fs m data k jt t s)) = (if r = 0 then 0 else w + 1)"
proof -
  have rw: "r = length (running_list q)" "w = length (snd q)"
    using firestore_up.queue_status_up [OF assms(1,2)] assms(4) by simp_all
  then have "r = 0 \<longleftrightarrow> fst q = None" by (cases "fst q") (simp_all add: running_list_def)
  moreover obtain s' where "register_job fs m data k jt t s = (\<lparr>should_start = (fst q = None), rr_job_key = k,
      rr_status = (if fst q = None then ''running'' else ''pending''), location = (if fst q = None then ''on_process'' else ''pending''),
      position_in_queue = (if fst q = None then 0 else length (snd q) + 1)\<rparr>, s')"
    by (rule firestore_up.register_up [OF assms(1-3)])
  ultimately show ?thesis using rw by simp
qed

theorem registration_decides_witness:
  "should_start (fst (register_job mem_firestore ''m'' (demo_payload ''j1'') ''b1'' ''router'' ''1'' [])) \<and>
   position_in_queue (fst (register_job mem_firestore ''m'' (demo_payload ''j1'') ''b1'' ''router'' ''1'' [])) = 0"
proof -
  have "fst (get_queue_status mem_firestore ''m'' ''router'' []) = Some (0, 0, 0)"
    using firestore_up.queue_status_up [OF mem_firestore_up empty_rel] by (simp add: running_list_def)
  from registration_decides [OF mem_firestore_up empty_rel _ this] show ?thesis by simp
qed

text \<open>C5: Every waiting batch gets its turn: once each open job of the running batch and of the batches
  before it has reported a terminal status, in any order within a batch, it is the running document.\<close>

theorem every_batch_gets_its_turn:
  assumes "firestore_up fs docs" and "queue_rel (docs s) jt m (Some r, ws)" and "i < length ws"
    and "list_all2 finishes rss (r # take i ws)"
  shows "queue_rel (docs (run_ops fs jt m (reports now (concat rss)) s)) jt m (Some (ws ! i), drop (Suc i) ws) \<and>
    (\<exists>d. docs (run_ops fs jt m (reports now (concat rss)) s) (on_col jt) (doc_id m (b_key (ws ! i))) = Some d \<and> is_batch m (ws ! i) d)"
proof -
  have q: "queue_rel (docs (run_ops fs jt m (reports now (concat rss)) s)) jt m (Some (ws ! i), drop (Suc i) ws)"
    using firestore_up.run_ops_refines [OF assms(1,2) reports_ok] drained [OF assms(4,3)] by metis
  then show ?thesis using col_rel_batch [OF queue_rel_running [OF q], of "ws ! i"] by (simp add: running_list_def)
qed

theorem every_batch_gets_its_turn_witness:
  "queue_rel (mem_docs_view (run_ops mem_firestore ''router'' ''m'' (reports ''3'' [(''j1'', ''error'')])
      (run_ops mem_firestore ''router'' ''m'' demo_ops []))) ''router'' ''m'' (Some (demo_batch ''b2'' ''j2'' ''2''), [])"
proof -
  have "queue_rel (mem_docs_view (run_ops mem_firestore ''router'' ''m'' demo_ops [])) ''router'' ''m''
      (Some (demo_batch ''b1'' ''j1'' ''1''), [demo_batch ''b2'' ''j2'' ''2''])"
    using firestore_up.run_ops_refines [OF mem_firestore_up empty_rel demo_ok] demo_q by simp
  moreover have "list_all2 finishes [[(''j1'', ''error'')]] (demo_batch ''b1'' ''j1'' ''1'' # take 0 [demo_batch ''b2'' ''j2'' ''2''])"
    by (simp add: finishes_def demo_batch_def TERMINAL_STATUSES_def)
  ultimately show ?thesis
    using every_batch_gets_its_turn [OF mem_firestore_up, where i = 0 and now = "''3''"] by fastforce
qed

text \<open>Operations on the queue of one mandate and type leave the queue of every other mandate or type
  as it is, for mandates under \<open>clients/U/bo_clients/C/mandates/M\<close> with generated identifiers.\<close>

theorem mandates_are_independent:
  assumes "firestore_up fs docs" and "list_all plain_id [u, c, a, u', c', a']"
    and "(jt, mandate_of u c a) \<noteq> (jt', mandate_of u' c' a')"
    and "queue_rel (docs s) jt (mandate_of u c a) q" and "ops_ok jt ops q"
    and "queue_rel (docs s) jt' (mandate_of u' c' a') q'"
  shows "queue_rel (docs (run_ops fs jt (mandate_of u c a) ops s)) jt' (mandate_of u' c' a') q'"
proof -
  note r = firestore_up.run_ops_refines [OF assms(1,4,5)]
  have "jt \<noteq> jt' \<or> (mandate_of u c a \<noteq> mandate_of u' c' a' \<and>
      (\<forall>k k'. doc_id (mandate_of u c a) k \<noteq> doc_id (mandate_of u' c' a') k'))"
    using assms(3) doc_ids_disjoint [OF assms(2)] by blast
  then show ?thesis using queue_rel_frame [OF assms(6)] r by blast
qed

theorem mandates_are_independent_witness:
  "queue_rel (mem_docs_view (run_ops mem_firestore ''router'' (mandate_of ''u'' ''c'' ''a'') demo_ops [])) ''router'' (mandate_of ''u'' ''c'' ''b'') (None, [])"
proof -
  have "list_all plain_id [''u'', ''c'', ''a'', ''u'', ''c'', ''b'']" by (simp add: plain_id_def utf8_start_def)
  moreover have "(''router'', mandate_of ''u'' ''c'' ''a'') \<noteq> (''router'', mandate_of ''u'' ''c'' ''b'')" by (simp add: mandate_of_def)
  ultimately show ?thesis
    by (rule mandates_are_independent [OF mem_firestore_up _ _ empty_rel demo_ok empty_rel])
qed

text \<open>The step from one batch to the next is not atomic. When the last job of \<open>b1\<close> has reported and its
  document is deleted, a registration of \<open>b3\<close> that comes before the promotion is told to start, and the
  promotion then starts \<open>b2\<close> as well: two batches of the mandate run.\<close>

theorem promotion_race:
  "let fs = mem_firestore;
       s0 = run_ops fs ''router'' ''m'' demo_ops [];
       s1 = snd (f_delete fs (on_col ''router'') (doc_id ''m'' ''b1'') s0);
       (res, s2) = register_job fs ''m'' (demo_payload ''j3'') ''b3'' ''router'' ''3'' s1;
       (next, s3) = promote_next_pending fs ''router'' ''m'' ''4'' s2
   in should_start res \<and> next = Some ''b2'' \<and> fst (get_queue_status fs ''m'' ''router'' s3) = Some (2, 0, 2)"
  by code_simp

text \<open>A batch without jobs, such as one of a type \<open>_extract_job_ids_from_payload\<close> does not know, never ends
  by reports without its identifier: the queue behind it stays.\<close>

lemma batch_without_jobs_blocks:
  "b_jobs r = [] \<Longrightarrow> q_ops jt (reports now rs) (Some r, ws) = (Some r, ws)"
  by (induction rs) (auto simp: q_report_def)

text \<open>When the transaction fails, the caller is told to start a batch that is in no collection.\<close>

lemma failed_registration_starts:
  "register_job_transaction fs m k data jt t s = (Inl e, s') \<Longrightarrow>
   should_start (fst (register_job fs m data k jt t s)) \<and> snd (register_job fs m data k jt t s) = s'"
  by (simp add: register_job_def seq_defs)

end
