(* ===== verification/Redis_Scan.thy ===== *)
theory Redis_Scan
  imports Redis_Client
begin

text \<open>
  The command \<open>SCAN\<close> and the loop around it that the service uses to collect the keys of a pattern:
  \<open>while True: cursor, batch = scan(cursor, match, count); ...; if cursor == 0: break\<close>. The command is a
  parameter; the loop may not end for an arbitrary server, so it returns an option. The locale
  \<open>redis_scan\<close> has what Redis documents of a full iteration over a database that does not change:
  every live key that matches is returned, nothing else is, and the iteration comes back to the cursor \<open>0\<close>.
\<close>

section \<open>Definitions\<close>

type_synonym 's scan = "nat \<Rightarrow> string \<Rightarrow> nat \<Rightarrow> 's \<Rightarrow> (nat \<times> string list) result \<times> 's"

partial_function (option) scan_from ::
  "'s scan \<Rightarrow> string \<Rightarrow> nat \<Rightarrow> nat \<Rightarrow> string list \<Rightarrow> 's \<Rightarrow> (string list result \<times> 's) option" where
  "scan_from sc pattern count cursor keys s =
     (case sc cursor pattern count s of
        (Inl e, s') \<Rightarrow> Some (Inl e, s')
      | (Inr (cursor', batch), s') \<Rightarrow>
          if cursor' = 0 then Some (Inr (keys @ batch), s')
          else scan_from sc pattern count cursor' (keys @ batch) s')"

definition scan_all :: "'s scan \<Rightarrow> string \<Rightarrow> nat \<Rightarrow> 's \<Rightarrow> (string list result \<times> 's) option" where
  "scan_all sc pattern count s = scan_from sc pattern count 0 [] s"

text \<open>Patterns with \<open>*\<close> as the only special character.\<close>

fun star_match :: "string \<Rightarrow> string \<Rightarrow> bool" where
  "star_match [] k = (k = [])"
| "star_match (c # p) [] = (c = CHR ''*'' \<and> star_match p [])"
| "star_match (c # p) (d # k) =
     (if c = CHR ''*'' then star_match p (d # k) \<or> star_match (c # p) k else c = d \<and> star_match p k)"

definition star_pattern :: "string \<Rightarrow> bool" where
  "star_pattern p = list_all (\<lambda>c. c \<notin> {CHR ''?'', CHR ''['', CHR '']'', CHR 0x5C}) p"

text \<open>Calls in sequence where one may not return, as \<open>sbind\<close> and \<open>stry\<close>.\<close>

definition osbind :: "('s \<Rightarrow> ('a result \<times> 's) option) \<Rightarrow> ('a \<Rightarrow> 's \<Rightarrow> ('b result \<times> 's) option) \<Rightarrow> 's \<Rightarrow> ('b result \<times> 's) option" where
  "osbind m f s = (case m s of None \<Rightarrow> None | Some (Inl e, s') \<Rightarrow> Some (Inl e, s') | Some (Inr x, s') \<Rightarrow> f x s')"

definition ostry :: "('s \<Rightarrow> ('a result \<times> 's) option) \<Rightarrow> (exn \<Rightarrow> 'a) \<Rightarrow> 's \<Rightarrow> ('a \<times> 's) option" where
  "ostry m h s = (case m s of None \<Rightarrow> None | Some (Inl e, s') \<Rightarrow> Some (h e, s') | Some (Inr x, s') \<Rightarrow> Some (x, s'))"

lemma star_match_star [simp]: "star_match ''*'' k"
  by (induction k) auto

lemma star_match_prefix: "no_glob p \<Longrightarrow> star_match (p @ ''*'') k = starts_with p k"
proof (induction p arbitrary: k)
  case (Cons c p)
  then show ?case by (cases k) (auto simp: no_glob_def)
qed simp

lemma star_match_literal: "no_glob p \<Longrightarrow> star_match p k \<longleftrightarrow> k = p"
proof (induction p arbitrary: k)
  case (Cons c p)
  then show ?case by (cases k) (auto simp: no_glob_def)
qed simp

lemma star_match_suffix: "no_glob q \<Longrightarrow> star_match (CHR ''*'' # q) k \<longleftrightarrow> (\<exists>m. k = m @ q)"
proof (induction k)
  case Nil
  then show ?case by (cases q) (auto simp: no_glob_def)
next
  case (Cons d k)
  have "(\<exists>m. d # k = m @ q) \<longleftrightarrow> d # k = q \<or> (\<exists>m. k = m @ q)" by (metis Cons_eq_append_conv)
  then show ?case using Cons star_match_literal [of q "d # k"] by auto
qed

lemma star_match_middle: "no_glob p \<Longrightarrow> no_glob q \<Longrightarrow> star_match (p @ CHR ''*'' # q) k \<longleftrightarrow> (\<exists>m. k = p @ m @ q)"
proof (induction p arbitrary: k)
  case Nil
  then show ?case by (simp add: star_match_suffix)
next
  case (Cons c p)
  then show ?case by (cases k) (auto simp: no_glob_def)
qed

lemma no_glob_star: "no_glob p \<Longrightarrow> star_pattern p" "no_glob p \<Longrightarrow> star_pattern (p @ ''*'')"
  by (auto simp: no_glob_def star_pattern_def list_all_iff)

lemma star_pattern_append [simp]: "star_pattern (p @ q) \<longleftrightarrow> star_pattern p \<and> star_pattern q"
  by (simp add: star_pattern_def)

lemma star_pattern_Cons [simp]: "star_pattern (c # q) \<longleftrightarrow> c \<notin> {CHR ''?'', CHR ''['', CHR '']'', CHR 0x5C} \<and> star_pattern q"
  by (simp add: star_pattern_def)

lemma star_pattern_Nil [simp]: "star_pattern []"
  by (simp add: star_pattern_def)

lemma no_glob_append [simp]: "no_glob (p @ q) \<longleftrightarrow> no_glob p \<and> no_glob q"
  by (simp add: no_glob_def)

lemma no_glob_Cons [simp]: "no_glob (c # q) \<longleftrightarrow> c \<notin> {CHR ''*'', CHR ''?'', CHR ''['', CHR '']'', CHR 0x5C} \<and> no_glob q"
  by (simp add: no_glob_def)

lemma no_glob_Nil [simp]: "no_glob []"
  by (simp add: no_glob_def)

section \<open>A full iteration\<close>

text \<open>
  \<open>todo c\<close> are the keys an iteration at the cursor \<open>c\<close> has not yet passed, and \<open>rank s c\<close> bounds the calls it still
  needs, also when keys are deleted on the way. A key that stays live is therefore returned.
\<close>

locale redis_scan = redis_up rc view tick
  for rc :: "'s redis" and view :: "'s \<Rightarrow> rview" and tick :: "nat \<Rightarrow> 's \<Rightarrow> 's" +
  fixes sc :: "'s scan" and todo :: "nat \<Rightarrow> string set" and rank :: "'s \<Rightarrow> nat \<Rightarrow> nat"
  assumes todo_start: "todo 0 = UNIV"
    and scan_ok: "\<exists>c' ks s'. sc c p n s = (Inr (c', ks), s')"
    and scan_law: "star_pattern p \<Longrightarrow> sc c p n s = (Inr (c', ks), s') \<Longrightarrow>
        view s' = view s \<and> set ks \<subseteq> {k. view s k \<noteq> None \<and> star_match p k} \<and>
        {k \<in> todo c. view s k \<noteq> None \<and> star_match p k} \<subseteq> set ks \<union> (if c' = 0 then {} else todo c')"
    and scan_rank: "sc c p n s = (Inr (c', ks), s') \<Longrightarrow> c' \<noteq> 0 \<Longrightarrow> rank s' c' < rank s c"
    and rank_mono: "{k. view s' k \<noteq> None} \<subseteq> {k. view s k \<noteq> None} \<Longrightarrow> rank s' c \<le> rank s c"
begin

lemma scan_from_ends:
  assumes "star_pattern p"
  shows "\<exists>ks s'. scan_from sc p n c acc s = Some (Inr (acc @ ks), s') \<and> view s' = view s \<and>
    set ks \<subseteq> {k. view s k \<noteq> None \<and> star_match p k} \<and> {k \<in> todo c. view s k \<noteq> None \<and> star_match p k} \<subseteq> set ks"
proof (induction "rank s c" arbitrary: s c acc rule: less_induct)
  case less
  obtain c' b s1 where b: "sc c p n s = (Inr (c', b), s1)" using scan_ok by blast
  note law = scan_law [OF assms b]
  show ?case
  proof (cases "c' = 0")
    case True
    then show ?thesis using b law by (auto simp: scan_from.simps [of sc p n c])
  next
    case False
    obtain ks s' where ih: "scan_from sc p n c' (acc @ b) s1 = Some (Inr ((acc @ b) @ ks), s')" "view s' = view s1"
      "set ks \<subseteq> {k. view s1 k \<noteq> None \<and> star_match p k}" "{k \<in> todo c'. view s1 k \<noteq> None \<and> star_match p k} \<subseteq> set ks"
      using less [OF scan_rank [OF b False]] by blast
    have "scan_from sc p n c acc s = Some (Inr (acc @ (b @ ks)), s')"
      using b ih(1) False by (simp add: scan_from.simps [of sc p n c])
    moreover have "set (b @ ks) \<subseteq> {k. view s k \<noteq> None \<and> star_match p k}" using law ih(3) by auto
    moreover have "{k \<in> todo c. view s k \<noteq> None \<and> star_match p k} \<subseteq> set (b @ ks)"
    proof
      fix k assume k: "k \<in> {k \<in> todo c. view s k \<noteq> None \<and> star_match p k}"
      then have "k \<in> set b \<or> k \<in> todo c'" using law False by auto
      then show "k \<in> set (b @ ks)" using k ih(4) law by auto
    qed
    moreover have "view s' = view s" using law ih(2) by simp
    ultimately show ?thesis by blast
  qed
qed

lemma scan_all_ends:
  assumes "star_pattern p"
  shows "\<exists>ks s'. scan_all sc p n s = Some (Inr ks, s') \<and> view s' = view s \<and> set ks = {k. view s k \<noteq> None \<and> star_match p k}"
proof -
  obtain ks s' where ks: "scan_from sc p n 0 [] s = Some (Inr ([] @ ks), s')" "view s' = view s"
    "set ks \<subseteq> {k. view s k \<noteq> None \<and> star_match p k}" "{k \<in> todo 0. view s k \<noteq> None \<and> star_match p k} \<subseteq> set ks"
    using scan_from_ends [OF assms] by blast
  have "set ks = {k. view s k \<noteq> None \<and> star_match p k}" using ks(3,4) todo_start by auto
  then show ?thesis using ks(1,2) by (simp add: scan_all_def)
qed

lemma scan_prefix_ends:
  assumes "no_glob p"
  shows "\<exists>ks s'. scan_all sc (p @ ''*'') n s = Some (Inr ks, s') \<and> view s' = view s \<and>
    set ks = {k. view s k \<noteq> None \<and> starts_with p k}"
  using scan_all_ends [OF no_glob_star(2) [OF assms]] star_match_prefix [OF assms] by simp

end

section \<open>The in-memory server\<close>

text \<open>The keys are visited in the order of a number that encodes them; the cursor is the number of the next one.\<close>

fun str_code :: "string \<Rightarrow> nat" where
  "str_code [] = 1"
| "str_code (c # cs) = code c + 1 + 256 * str_code cs"

lemma str_code_pos: "0 < str_code k"
  by (cases k) simp_all

lemma str_code_Nil: "str_code (c # k) \<noteq> 1"
  using str_code_pos [of k] by simp

lemma str_code_inj: "str_code k = str_code k' \<Longrightarrow> k = k'"
proof (induction k arbitrary: k')
  case Nil
  then show ?case using str_code_Nil by (metis list.exhaust str_code.simps(1))
next
  case (Cons c k)
  then obtain c' k2 where k': "k' = c' # k2" using str_code_Nil by (metis list.exhaust str_code.simps(1))
  have e: "code c + 256 * str_code k = code c' + 256 * str_code k2" using Cons.prems k' by simp
  have "code c = code c'" using arg_cong [OF e, of "\<lambda>n. n mod 256"] code_less by simp
  moreover have "str_code k = str_code k2" using e calculation by simp
  moreover have "c = c'" using calculation(1) by (simp add: code_def)
  ultimately show ?case using Cons.IH k' by blast
qed

definition mem_keys :: "nat \<Rightarrow> mem \<Rightarrow> string list" where
  "mem_keys c s = sort_key str_code (filter (\<lambda>k. mem_view s k \<noteq> None \<and> c \<le> str_code k) (remdups (map fst (m_db s))))"

definition mem_scan :: "mem scan" where
  "mem_scan cursor pattern count s =
     (let ks = mem_keys cursor s; n = max 1 count in
      (Inr (if n < length ks then str_code (ks ! n) else 0, filter (star_match pattern) (take n ks)), s))"

definition mem_rank :: "mem \<Rightarrow> nat \<Rightarrow> nat" where
  "mem_rank s c = card {k. mem_view s k \<noteq> None \<and> c \<le> str_code k}"

lemma set_mem_keys: "set (mem_keys c s) = {k. mem_view s k \<noteq> None \<and> c \<le> str_code k}"
  using mem_view_live by (auto simp: mem_keys_def)

lemma mem_live_finite: "finite {k. mem_view s k \<noteq> None}"
  by (rule finite_subset [of _ "fst ` set (m_db s)"]) (use mem_view_live in auto)

lemma mem_keys_sorted: "sorted (map str_code (mem_keys c s))" "distinct (mem_keys c s)"
  by (simp_all add: mem_keys_def)

lemma mem_scan_cursor:
  assumes "n < length (mem_keys c s)" and "0 < n"
  shows "str_code (mem_keys c s ! 0) < str_code (mem_keys c s ! n)"
proof -
  have "str_code (mem_keys c s ! 0) \<le> str_code (mem_keys c s ! n)"
  proof -
    have "map str_code (mem_keys c s) ! 0 \<le> map str_code (mem_keys c s) ! n"
      using sorted_nth_mono [OF mem_keys_sorted(1), of 0 n c s] assms by simp
    moreover have "0 < length (mem_keys c s)" using assms by linarith
    ultimately show ?thesis using assms(1) by (simp only: nth_map)
  qed
  moreover have "mem_keys c s ! 0 \<noteq> mem_keys c s ! n" proof -
    have "0 < length (mem_keys c s)" using assms by linarith
    then show ?thesis using nth_eq_iff_index_eq [OF mem_keys_sorted(2), of 0 c s n] assms by simp
  qed
  ultimately show ?thesis using str_code_inj le_neq_implies_less by blast
qed

lemma mem_scan_passed:
  assumes "k \<in> set (drop n (mem_keys c s))" and "n < length (mem_keys c s)"
  shows "str_code (mem_keys c s ! n) \<le> str_code k"
proof -
  obtain i where "n \<le> i" "i < length (mem_keys c s)" "k = mem_keys c s ! i"
    using assms by (auto simp: in_set_conv_nth) (metis add.commute le_add1 less_diff_conv)
  then show ?thesis using sorted_nth_mono [OF mem_keys_sorted(1), of n i c s] by (simp add: nth_map)
qed

interpretation mem_scan: redis_scan mem_redis mem_view mem_tick mem_scan "\<lambda>c. {k. c \<le> str_code k}" mem_rank
proof unfold_locales
  fix s :: mem and c p n c' ks s'
  assume "mem_scan c p n s = (Inr (c', ks), s')"
  then have d: "s' = s" "ks = filter (star_match p) (take (max 1 n) (mem_keys c s))"
    "c' = (if max 1 n < length (mem_keys c s) then str_code (mem_keys c s ! max 1 n) else 0)"
    by (auto simp: mem_scan_def Let_def)
  have sub: "k \<in> set ks \<Longrightarrow> mem_view s k \<noteq> None \<and> star_match p k" for k
    using d(2) set_mem_keys [of c s] by (auto dest: in_set_takeD)
  have rest: "k \<in> set ks \<or> c' \<noteq> 0 \<and> c' \<le> str_code k" if "c \<le> str_code k" "mem_view s k \<noteq> None" "star_match p k" for k
  proof -
    have "k \<in> set (mem_keys c s)" using that by (simp add: set_mem_keys)
    then have "k \<in> set (take (max 1 n) (mem_keys c s)) \<or> k \<in> set (drop (max 1 n) (mem_keys c s))"
      by (metis Un_iff append_take_drop_id set_append)
    then show ?thesis
    proof
      assume "k \<in> set (take (max 1 n) (mem_keys c s))"
      then show ?thesis using d(2) that(3) by simp
    next
      assume k: "k \<in> set (drop (max 1 n) (mem_keys c s))"
      then have "max 1 n < length (mem_keys c s)" by (metis drop_all empty_iff list.set(1) not_less)
      then show ?thesis using mem_scan_passed [OF k] d(3) str_code_pos by (simp add: neq0_conv)
    qed
  qed
  show "mem_view s' = mem_view s \<and> set ks \<subseteq> {k. mem_view s k \<noteq> None \<and> star_match p k} \<and>
      {k \<in> {k. c \<le> str_code k}. mem_view s k \<noteq> None \<and> star_match p k} \<subseteq> set ks \<union> (if c' = 0 then {} else {k. c' \<le> str_code k})"
    using d(1) sub rest by fastforce
  show "mem_rank s' c' < mem_rank s c" if c0: "c' \<noteq> 0"
  proof -
    have n: "max 1 n < length (mem_keys c s)" using c0 d(3) by (auto split: if_splits)
    have c': "c' = str_code (mem_keys c s ! max 1 n)" using n d(3) by simp
    have in0: "mem_keys c s ! 0 \<in> set (mem_keys c s)" using n by (intro nth_mem) linarith
    have inn: "mem_keys c s ! max 1 n \<in> set (mem_keys c s)" using n by (intro nth_mem)
    have "c \<le> c'" using inn c' by (simp add: set_mem_keys)
    then have "{k. mem_view s k \<noteq> None \<and> c' \<le> str_code k} \<subseteq> {k. mem_view s k \<noteq> None \<and> c \<le> str_code k}" by auto
    moreover have "mem_keys c s ! 0 \<in> {k. mem_view s k \<noteq> None \<and> c \<le> str_code k} - {k. mem_view s k \<noteq> None \<and> c' \<le> str_code k}"
    proof -
      have "0 < max 1 n" by simp
      then show ?thesis using in0 mem_scan_cursor [OF n] c' by (simp add: set_mem_keys)
    qed
    ultimately have "{k. mem_view s k \<noteq> None \<and> c' \<le> str_code k} \<subset> {k. mem_view s k \<noteq> None \<and> c \<le> str_code k}" by blast
    then show ?thesis unfolding mem_rank_def d(1) by (rule psubset_card_mono [rotated]) (rule finite_subset [OF _ mem_live_finite [of s]], auto)
  qed
next
  show "{k. 0 \<le> str_code k} = UNIV" by simp
  show "\<exists>c' ks s'. mem_scan c p n s = (Inr (c', ks), s')" for c p n s by (simp add: mem_scan_def Let_def)
  show "mem_rank s' c \<le> mem_rank s c" if "{k. mem_view s' k \<noteq> None} \<subseteq> {k. mem_view s k \<noteq> None}" for s s' c
  proof -
    have "{k. mem_view s' k \<noteq> None \<and> c \<le> str_code k} \<subseteq> {k. mem_view s k \<noteq> None \<and> c \<le> str_code k}" using that by blast
    then show ?thesis unfolding mem_rank_def
      by (rule card_mono [rotated]) (rule finite_subset [OF _ mem_live_finite [of s]], blast)
  qed
qed

lemma mem_redis_scan: "redis_scan mem_redis mem_view mem_tick mem_scan (\<lambda>c. {k. c \<le> str_code k}) mem_rank"
  by (rule mem_scan.redis_scan_axioms)

end
