(* ===== verification/Unified_Cache.thy ===== *)
theory Unified_Cache
  imports Redis_Scan Redis_Namespaces
begin

text \<open>
  \<open>UnifiedCacheManager\<close> of \<open>src/app/cache/unified_cache_manager.py\<close>: the cache of module data over the
  key layout of \<open>Redis_Namespaces\<close>, with the fallback to the keys of the former layout. The Redis
  client and the command \<open>SCAN\<close> are parameters, as is the clock; the manager's state is the flag for
  the new keys. A reading that scans may not return for an arbitrary server, so it has an option type.
  Log output and the creation of the client are left out.
\<close>

section \<open>Definitions\<close>

definition LEGACY_TO_BUSINESS_MAP :: "((string \<times> string option) \<times> (CacheLevel \<times> string)) list" where
  "LEGACY_TO_BUSINESS_MAP =
     [((''mandate'', Some ''snapshot''), (COMPANY, ''context'')),
      ((''company'', Some ''context''), (COMPANY, ''context'')),
      ((''company'', Some ''settings''), (COMPANY, ''settings'')),
      ((''bank'', Some ''transactions''), (BUSINESS, domain_value BANK)),
      ((''bank'', None), (BUSINESS, domain_value BANK)),
      ((''drive'', Some ''documents''), (BUSINESS, domain_value ROUTING)),
      ((''routing'', None), (BUSINESS, domain_value ROUTING)),
      ((''apbookeeper'', Some ''documents''), (BUSINESS, domain_value INVOICES)),
      ((''apbookeeper'', None), (BUSINESS, domain_value INVOICES)),
      ((''invoices'', None), (BUSINESS, domain_value INVOICES)),
      ((''expenses'', Some ''details''), (BUSINESS, domain_value EXPENSES)),
      ((''expenses'', Some ''open''), (BUSINESS, domain_value EXPENSES)),
      ((''expenses'', Some ''closed''), (BUSINESS, domain_value EXPENSES)),
      ((''expenses'', None), (BUSINESS, domain_value EXPENSES)),
      ((''coa'', Some ''accounts''), (BUSINESS, domain_value COA)),
      ((''coa'', Some ''functions''), (BUSINESS, domain_value COA)),
      ((''coa'', None), (BUSINESS, domain_value COA)),
      ((''approval_pendinglist'', None), (BUSINESS, domain_value DASHBOARD)),
      ((''dashboard'', None), (BUSINESS, domain_value DASHBOARD)),
      ((''tasks'', Some ''list''), (BUSINESS, domain_value TASKS)),
      ((''tasks'', None), (BUSINESS, domain_value TASKS)),
      ((''hr'', Some ''employees''), (BUSINESS, domain_value HR)),
      ((''hr'', Some ''contracts''), (BUSINESS, domain_value HR)),
      ((''hr'', Some ''references''), (BUSINESS, domain_value HR)),
      ((''hr'', None), (BUSINESS, domain_value HR)),
      ((''chat'', None), (BUSINESS, domain_value CHAT))]"

text \<open>A text that counts as true.\<close>

definition some_text :: "string option \<Rightarrow> bool" where
  "some_text t \<longleftrightarrow> t \<noteq> None \<and> t \<noteq> Some []"

definition resolve_cache_level :: "string \<Rightarrow> string option \<Rightarrow> CacheLevel \<times> string" where
  "resolve_cache_level data_type sub_type =
     (case map_of LEGACY_TO_BUSINESS_MAP
             (py_lower data_type, if some_text sub_type then map_option py_lower sub_type else None) of
        Some r \<Rightarrow> r
      | None \<Rightarrow>
          (case map_of LEGACY_TO_BUSINESS_MAP (py_lower data_type, None) of
             Some r \<Rightarrow> r
           | None \<Rightarrow> (BUSINESS, py_lower data_type)))"

definition ITEM_LEVEL_CACHE_TYPES :: "string list" where
  "ITEM_LEVEL_CACHE_TYPES = [''chat:history:raw'', ''chat:sessions'']"

record cache_manager =
  use_new_keys :: bool

definition new_cache_manager :: cache_manager where
  "new_cache_manager = \<lparr>use_new_keys = True\<rparr>"

definition uc_build_cache_key :: "cache_manager \<Rightarrow> string \<Rightarrow> string \<Rightarrow> string \<Rightarrow> string option \<Rightarrow> string" where
  "uc_build_cache_key mgr user_id company_id data_type sub_type =
     (if \<not> use_new_keys mgr then build_cache_key user_id company_id data_type sub_type
      else case resolve_cache_level data_type sub_type of
        (COMPANY, suffix) \<Rightarrow>
          if suffix = ''settings'' then build_company_settings_key user_id company_id
          else build_company_context_key user_id company_id
      | (BUSINESS, domain) \<Rightarrow>
          if py_lower data_type \<in> set ITEM_LEVEL_CACHE_TYPES \<and> some_text sub_type
          then build_business_key user_id company_id domain sub_type
          else build_business_key user_id company_id domain None
      | (USER, _) \<Rightarrow> build_cache_key user_id company_id data_type sub_type)"

definition get_legacy_key :: "string \<Rightarrow> string \<Rightarrow> string \<Rightarrow> string option \<Rightarrow> string" where
  "get_legacy_key = build_cache_key"

text \<open>A value read from Redis that counts as true.\<close>

definition present :: "text_val option \<Rightarrow> bool" where
  "present t \<longleftrightarrow> t \<noteq> None \<and> t \<noteq> Some (Raw [])"

definition migrate_legacy :: "'s redis \<Rightarrow> string \<Rightarrow> nat \<Rightarrow> text_val option \<Rightarrow> 's \<Rightarrow> text_val option result \<times> 's" where
  "migrate_legacy rc new_key ttl cached s =
     (if present cached then (case r_setex rc new_key ttl (the cached) s of (_, s') \<Rightarrow> (Inr cached, s')) else (Inr cached, s))"

definition get_cached_data ::
  "'s redis \<Rightarrow> cache_manager \<Rightarrow> string \<Rightarrow> string \<Rightarrow> string \<Rightarrow> string option \<Rightarrow> nat \<Rightarrow> 's \<Rightarrow> pydict option \<times> 's" where
  "get_cached_data rc mgr user_id company_id data_type sub_type ttl_seconds =
     (let new_cache_key = uc_build_cache_key mgr user_id company_id data_type sub_type;
          legacy_cache_key = get_legacy_key user_id company_id data_type sub_type in
      stry (sbind (r_get rc new_cache_key) (\<lambda>first.
            sbind (if \<not> present first \<and> new_cache_key \<noteq> legacy_cache_key
                   then sbind (r_get rc legacy_cache_key) (migrate_legacy rc new_cache_key ttl_seconds)
                   else sret first) (\<lambda>cached_data.
              if \<not> present cached_data then sret None
              else sbind (slift (json_loads (the cached_data))) (\<lambda>v.
                case v of
                  PDict data \<Rightarrow>
                    if dget_or data ''data'' (PDict []) = PList []
                    then sbind (r_delete rc [new_cache_key]) (\<lambda>_. sret None)
                    else sret (Some data)
                | _ \<Rightarrow> sraise AttributeError))))
        (\<lambda>_. None))"

definition auto_ttl :: "string \<Rightarrow> string option \<Rightarrow> nat" where
  "auto_ttl data_type sub_type =
     (case resolve_cache_level data_type sub_type of
        (BUSINESS, domain) \<Rightarrow> get_ttl_for_domain domain
      | (COMPANY, _) \<Rightarrow> TTL_COMPANY_CONTEXT
      | (USER, _) \<Rightarrow> TTL_CACHE)"

definition cached_payload :: "string \<Rightarrow> string option \<Rightarrow> pyval \<Rightarrow> nat \<Rightarrow> string \<Rightarrow> pydict" where
  "cached_payload data_type sub_type data ttl_seconds now =
     [(''data'', data), (''cached_at'', PStr now), (''ttl_seconds'', PNum (of_nat ttl_seconds)),
      (''source'', PStr (if some_text sub_type then data_type @ ''.'' @ the sub_type else data_type)),
      (''cache_version'', PStr ''3.0'')]"

definition set_cached_data ::
  "'s redis \<Rightarrow> cache_manager \<Rightarrow> string \<Rightarrow> string \<Rightarrow> string \<Rightarrow> string option \<Rightarrow> pyval \<Rightarrow> nat option \<Rightarrow> string \<Rightarrow> 's \<Rightarrow> bool \<times> 's" where
  "set_cached_data rc mgr user_id company_id data_type sub_type data ttl_seconds now =
     (let new_cache_key = uc_build_cache_key mgr user_id company_id data_type sub_type;
          ttl = (case ttl_seconds of Some t \<Rightarrow> t | None \<Rightarrow> auto_ttl data_type sub_type) in
      stry (if data = PNone then sret False
            else sbind (r_setex rc new_cache_key ttl (json_dumps (PDict (cached_payload data_type sub_type data ttl now))))
                   (\<lambda>_. sret True))
        (\<lambda>_. False))"

definition invalidate_cache ::
  "'s redis \<Rightarrow> cache_manager \<Rightarrow> string \<Rightarrow> string \<Rightarrow> string \<Rightarrow> string option \<Rightarrow> 's \<Rightarrow> bool \<times> 's" where
  "invalidate_cache rc mgr user_id company_id data_type sub_type =
     (let new_cache_key = uc_build_cache_key mgr user_id company_id data_type sub_type;
          legacy_cache_key = get_legacy_key user_id company_id data_type sub_type in
      stry (sbind (r_delete rc (new_cache_key # (if legacy_cache_key \<noteq> new_cache_key then [legacy_cache_key] else [])))
              (\<lambda>_. sret True))
        (\<lambda>_. False))"

text \<open>One pattern of the module: a scan and a deletion for a wildcard, else the deletion of the key.\<close>

definition ends_with_star :: "string \<Rightarrow> bool" where
  "ends_with_star p \<longleftrightarrow> p \<noteq> [] \<and> last p = CHR ''*''"

definition purge_pattern :: "'s redis \<Rightarrow> 's scan \<Rightarrow> string \<Rightarrow> 's \<Rightarrow> (nat result \<times> 's) option" where
  "purge_pattern rc sc pattern =
     (if ends_with_star pattern
      then osbind (scan_all sc pattern 100) (\<lambda>keys_to_delete s.
             Some (if keys_to_delete = [] then (Inr 0, s)
                   else sbind (r_delete rc keys_to_delete) (\<lambda>_. sret (length keys_to_delete)) s))
      else (\<lambda>s. Some (r_delete rc [pattern] s)))"

primrec purge_patterns :: "'s redis \<Rightarrow> 's scan \<Rightarrow> string list \<Rightarrow> nat \<Rightarrow> 's \<Rightarrow> (nat result \<times> 's) option" where
  "purge_patterns rc sc [] total_deleted s = Some (Inr total_deleted, s)"
| "purge_patterns rc sc (p # ps) total_deleted s =
     osbind (purge_pattern rc sc p) (\<lambda>n. purge_patterns rc sc ps (total_deleted + n)) s"

definition module_patterns :: "string \<Rightarrow> string \<Rightarrow> string \<Rightarrow> string list" where
  "module_patterns user_id company_id data_type =
     (case resolve_cache_level data_type None of
        (BUSINESS, domain) \<Rightarrow> [''business:'' @ user_id @ '':'' @ company_id @ '':'' @ domain]
      | (COMPANY, domain) \<Rightarrow> [''company:'' @ user_id @ '':'' @ company_id @ '':'' @ domain]
      | (USER, _) \<Rightarrow> []) @
     [''cache:'' @ user_id @ '':'' @ company_id @ '':'' @ data_type @ '':*'']"

definition invalidate_module_cache ::
  "'s redis \<Rightarrow> 's scan \<Rightarrow> string \<Rightarrow> string \<Rightarrow> string \<Rightarrow> 's \<Rightarrow> (bool \<times> 's) option" where
  "invalidate_module_cache rc sc user_id company_id data_type =
     ostry (osbind (purge_patterns rc sc (module_patterns user_id company_id data_type) 0) (\<lambda>_ s. Some (Inr True, s)))
       (\<lambda>_. False)"

definition invalidate_business_domain :: "'s redis \<Rightarrow> string \<Rightarrow> string \<Rightarrow> string \<Rightarrow> 's \<Rightarrow> bool \<times> 's" where
  "invalidate_business_domain rc user_id company_id domain =
     stry (sbind (r_delete rc [build_business_key user_id company_id domain None]) (\<lambda>_. sret True)) (\<lambda>_. False)"

subsection \<open>Statistics\<close>

text \<open>The order of Python on JSON values; values of different kinds are not ordered.\<close>

fun py_lt :: "pyval \<Rightarrow> pyval \<Rightarrow> bool result" and py_lt_list :: "pyval list \<Rightarrow> pyval list \<Rightarrow> bool result" where
  "py_lt (PStr a) (PStr b) = Inr (a < b)"
| "py_lt (PNum a) (PNum b) = Inr (a < b)"
| "py_lt (PBool a) (PBool b) = Inr (\<not> a \<and> b)"
| "py_lt (PBool a) (PNum b) = Inr ((if a then 1 else 0) < b)"
| "py_lt (PNum a) (PBool b) = Inr (a < (if b then 1 else 0))"
| "py_lt (PList xs) (PList ys) = py_lt_list xs ys"
| "py_lt _ _ = Inl TypeError"
| "py_lt_list xs [] = Inr False"
| "py_lt_list [] (y # ys) = Inr True"
| "py_lt_list (x # xs) (y # ys) = (if x = y then py_lt_list xs ys else py_lt x y)"

record cache_stats =
  total_keys :: nat
  data_types :: "(string \<times> nat) list"
  level_business :: nat
  level_company :: nat
  level_legacy :: nat
  total_size_bytes :: nat
  oldest_entry :: pyval
  newest_entry :: pyval

definition empty_stats :: "nat \<Rightarrow> cache_stats" where
  "empty_stats n = \<lparr>total_keys = n, data_types = [], level_business = 0, level_company = 0, level_legacy = 0,
     total_size_bytes = 0, oldest_entry = PNone, newest_entry = PNone\<rparr>"

definition key_domain :: "string \<Rightarrow> string" where
  "key_domain key =
     (if starts_with ''company:'' key then ''company''
      else let key_parts = split_on CHR '':'' key in if 3 < length key_parts then key_parts ! 3 else ''unknown'')"

definition count_level :: "string \<Rightarrow> cache_stats \<Rightarrow> cache_stats" where
  "count_level key st =
     (if starts_with ''business:'' key then st\<lparr>level_business := level_business st + 1\<rparr>
      else if starts_with ''company:'' key then st\<lparr>level_company := level_company st + 1\<rparr>
      else st\<lparr>level_legacy := level_legacy st + 1\<rparr>)"

definition count_domain :: "string \<Rightarrow> cache_stats \<Rightarrow> cache_stats" where
  "count_domain d st =
     st\<lparr>data_types := AList.update d ((case map_of (data_types st) d of Some n \<Rightarrow> n | None \<Rightarrow> 0) + 1) (data_types st)\<rparr>"

text \<open>The two comparisons of the time of an entry; one that raises leaves what was done before.\<close>

definition note_time :: "pyval \<Rightarrow> cache_stats \<Rightarrow> cache_stats" where
  "note_time cached_at st =
     (if \<not> truthy cached_at then st
      else case (if truthy (oldest_entry st) then py_lt cached_at (oldest_entry st) else Inr True) of
        Inl _ \<Rightarrow> st
      | Inr older \<Rightarrow>
          let st1 = (if older then st\<lparr>oldest_entry := cached_at\<rparr> else st) in
          (case (if truthy (newest_entry st1) then py_lt (newest_entry st1) cached_at else Inr True) of
             Inl _ \<Rightarrow> st1
           | Inr newer \<Rightarrow> if newer then st1\<lparr>newest_entry := cached_at\<rparr> else st1))"

text \<open>One entry; \<open>text_len\<close> is the length of the stored text.\<close>

definition count_entry :: "(text_val \<Rightarrow> nat) \<Rightarrow> string \<Rightarrow> text_val \<Rightarrow> cache_stats \<Rightarrow> cache_stats" where
  "count_entry text_len key t st =
     (case json_loads t of
        Inl _ \<Rightarrow> st
      | Inr parsed \<Rightarrow>
          let st1 = count_domain (key_domain key) (count_level key st);
              st2 = st1\<lparr>total_size_bytes := total_size_bytes st1 + text_len t\<rparr> in
          (case parsed of PDict d \<Rightarrow> note_time (dget d ''cached_at'') st2 | _ \<Rightarrow> st2))"

primrec count_entries :: "'s redis \<Rightarrow> (text_val \<Rightarrow> nat) \<Rightarrow> string list \<Rightarrow> cache_stats \<Rightarrow> 's \<Rightarrow> cache_stats \<times> 's" where
  "count_entries rc text_len [] st s = (st, s)"
| "count_entries rc text_len (k # ks) st s =
     (case r_get rc k s of
        (Inr (Some t), s') \<Rightarrow> count_entries rc text_len ks (if t = Raw [] then st else count_entry text_len k t st) s'
      | (_, s') \<Rightarrow> count_entries rc text_len ks st s')"

primrec scan_patterns :: "'s scan \<Rightarrow> string list \<Rightarrow> 's \<Rightarrow> (string list result \<times> 's) option" where
  "scan_patterns sc [] s = Some (Inr [], s)"
| "scan_patterns sc (p # ps) s =
     osbind (scan_all sc p 100) (\<lambda>ks. osbind (scan_patterns sc ps) (\<lambda>rest s. Some (Inr (ks @ rest), s))) s"

definition stats_patterns :: "string \<Rightarrow> string \<Rightarrow> string option \<Rightarrow> string list" where
  "stats_patterns user_id company_id data_type =
     (let all = [''business:'' @ user_id @ '':'' @ company_id @ '':*'', ''company:'' @ user_id @ '':'' @ company_id @ '':*'',
                 ''cache:'' @ user_id @ '':'' @ company_id @ '':*''] in
      if \<not> some_text data_type then all
      else
        let dt = the data_type; (level, domain) = resolve_cache_level dt None in
        (if level = BUSINESS then [''business:'' @ user_id @ '':'' @ company_id @ '':'' @ domain] else all) @
        [''cache:'' @ user_id @ '':'' @ company_id @ '':'' @ dt @ '':*''])"

definition get_cache_stats ::
  "'s redis \<Rightarrow> 's scan \<Rightarrow> (text_val \<Rightarrow> nat) \<Rightarrow> string \<Rightarrow> string \<Rightarrow> string option \<Rightarrow> 's \<Rightarrow> ((exn + cache_stats) \<times> 's) option" where
  "get_cache_stats rc sc text_len user_id company_id data_type =
     ostry (osbind (scan_patterns sc (stats_patterns user_id company_id data_type)) (\<lambda>found s.
              let all_keys = remdups found in
              (case count_entries rc text_len all_keys (empty_stats (length all_keys)) s of (st, s') \<Rightarrow> Some (Inr (Inr st), s'))))
       Inl"

section \<open>Library lemmas\<close>

lemma lower_char_star: "x \<noteq> CHR ''*'' \<Longrightarrow> lower_char x \<noteq> CHR ''*''"
proof
  assume x: "x \<noteq> CHR ''*''" "lower_char x = CHR ''*''"
  have "code (CHR ''*'') = 42" by (simp add: code_def)
  then have "code (lower_char x) = 42" using x(2) by simp
  moreover have "code (lower_char x) = code x + 32" if "65 \<le> code x \<and> code x \<le> 90" using that by (simp add: lower_char_def code_char_of)
  ultimately show False using x by (cases "65 \<le> code x \<and> code x \<le> 90") (auto simp: lower_char_def)
qed

lemma domain_no_star: "map_of LEGACY_TO_BUSINESS_MAP k = Some r \<Longrightarrow> \<not> ends_with_star (CHR '':'' # snd r)"
proof -
  assume "map_of LEGACY_TO_BUSINESS_MAP k = Some r"
  then have "(k, r) \<in> set LEGACY_TO_BUSINESS_MAP" by (rule map_of_SomeD)
  then show ?thesis by (auto simp: LEGACY_TO_BUSINESS_MAP_def ends_with_star_def)
qed

lemma map_level [simp]: "map_of LEGACY_TO_BUSINESS_MAP (d, None) = Some r \<Longrightarrow> fst r = BUSINESS"
  by (auto simp: LEGACY_TO_BUSINESS_MAP_def split: if_splits)

lemma module_level: "fst (resolve_cache_level data_type None) = BUSINESS"
  by (auto simp: resolve_cache_level_def some_text_def split: option.splits)

lemma level_not_user: "fst (resolve_cache_level data_type sub_type) \<noteq> USER"
proof -
  have "fst r \<noteq> USER" if "map_of LEGACY_TO_BUSINESS_MAP k = Some r" for k r
    using map_of_SomeD [OF that] by (auto simp: LEGACY_TO_BUSINESS_MAP_def)
  then show ?thesis by (auto simp: resolve_cache_level_def split: option.splits)
qed

lemma build_cache_key_prefix: "build_cache_key u c d st = ''cache:'' @ u @ '':'' @ c @ '':'' @ d @ (if some_text st then CHR '':'' # the st else [])"
  by (auto simp: build_cache_key_def some_text_def Let_def split: option.splits)

text \<open>A key of the new layout is never one of the former layout.\<close>

lemma new_not_legacy [simp]: "use_new_keys mgr \<Longrightarrow> uc_build_cache_key mgr u c d st \<noteq> build_cache_key u' c' d' st'"
proof (cases "resolve_cache_level d st")
  case (Pair l n)
  assume "use_new_keys mgr"
  then show ?thesis using Pair level_not_user [of d st]
    by (cases l) (auto simp: uc_build_cache_key_def build_cache_key_prefix build_company_settings_key_def
        build_company_context_key_def build_business_key_def Let_def split: option.splits)
qed

lemma auto_ttl_pos: "0 < auto_ttl data_type sub_type"
  by (auto simp: auto_ttl_def get_ttl_for_domain_pos TTL_COMPANY_CONTEXT_def TTL_CACHE_def split: prod.splits CacheLevel.splits)

lemma present_Json [simp]: "present (Some (json_dumps v))" "\<not> present None"
  by (simp_all add: present_def json_dumps_def)

context redis_up
begin

text \<open>A reading that finds an entry under the new key.\<close>

lemma get_cached_new:
  assumes "str_at (view s) (uc_build_cache_key mgr u c d st) = Some (json_dumps (PDict p))"
  shows "fst (get_cached_data rc mgr u c d st ttl s) =
    (if dget_or p ''data'' (PDict []) = PList [] then None else Some p)"
proof -
  let ?k = "uc_build_cache_key mgr u c d st"
  have k: "str_key (view s) ?k" using assms by (auto simp: str_at_def str_key_def split: option.splits rvalue.splits)
  obtain s1 where 1: "r_get rc ?k s = (Inr (str_at (view s) ?k), s1)" "view s1 = view s" by (rule get_up [OF k])
  obtain s2 where 2: "r_delete rc [?k] s1 = (Inr (if view s1 ?k = None then 0 else 1), s2)" by (rule delete1_up)
  show ?thesis using 1 2 assms by (simp add: get_cached_data_def Let_def seq_defs)
qed

lemma set_cached_up:
  assumes "data \<noteq> PNone" and "ttl \<noteq> Some 0"
  obtains s' where "set_cached_data rc mgr u c d st data ttl now s = (True, s')"
    "view s' = (view s)(uc_build_cache_key mgr u c d st \<mapsto>
       (VStr (json_dumps (PDict (cached_payload d st data (case ttl of Some t \<Rightarrow> t | None \<Rightarrow> auto_ttl d st) now))),
        Some (case ttl of Some t \<Rightarrow> t | None \<Rightarrow> auto_ttl d st)))"
proof -
  let ?t = "case ttl of Some t \<Rightarrow> t | None \<Rightarrow> auto_ttl d st"
  have "0 < ?t" using assms(2) auto_ttl_pos by (auto split: option.splits)
  from setex_up [OF this, of "uc_build_cache_key mgr u c d st" "json_dumps (PDict (cached_payload d st data ?t now))" s]
  obtain s' where "r_setex rc (uc_build_cache_key mgr u c d st) ?t (json_dumps (PDict (cached_payload d st data ?t now))) s = (Inr (), s')"
    "view s' = (view s)(uc_build_cache_key mgr u c d st \<mapsto> (VStr (json_dumps (PDict (cached_payload d st data ?t now))), Some ?t))"
    by blast
  then show thesis using that [of s'] assms(1) by (simp add: set_cached_data_def Let_def seq_defs)
qed

lemma get_cached_miss:
  assumes "view s (uc_build_cache_key mgr u c d st) = None" and "view s (get_legacy_key u c d st) = None"
  shows "fst (get_cached_data rc mgr u c d st ttl s) = None \<and> view (snd (get_cached_data rc mgr u c d st ttl s)) = view s"
proof -
  let ?k = "uc_build_cache_key mgr u c d st" and ?l = "get_legacy_key u c d st"
  have k: "str_key (view s) ?k" "str_at (view s) ?k = None" "str_key (view s) ?l" "str_at (view s) ?l = None"
    using assms by (simp_all add: str_key_def str_at_def)
  obtain s1 where 1: "r_get rc ?k s = (Inr None, s1)" "view s1 = view s" using get_up [OF k(1)] k(2) by metis
  obtain s2 where 2: "r_get rc ?l s1 = (Inr None, s2)" "view s2 = view s1" using get_up [of s1 ?l] k(3,4) 1(2) by metis
  show ?thesis using 1 2 by (simp add: get_cached_data_def Let_def seq_defs migrate_legacy_def)
qed

end

subsection \<open>Invalidation\<close>

context redis_up
begin

lemma invalidate_up:
  assumes "use_new_keys mgr"
  obtains s' where "invalidate_cache rc mgr u c d st s = (True, s')"
    "view s' = (view s)(uc_build_cache_key mgr u c d st := None, get_legacy_key u c d st := None)"
proof -
  let ?ks = "[uc_build_cache_key mgr u c d st, get_legacy_key u c d st]"
  obtain n s' where d: "r_delete rc ?ks s = (Inr n, s')" using delete_ok [of ?ks s] by auto
  have "view s' = (view s)(uc_build_cache_key mgr u c d st := None, get_legacy_key u c d st := None)"
    using delete_law [OF d] by (auto simp: fun_eq_iff)
  then show thesis using that [of s'] d assms by (simp add: invalidate_cache_def Let_def seq_defs get_legacy_key_def new_not_legacy [symmetric])
qed

end

context redis_scan
begin

lemma purge_exact:
  assumes "\<not> ends_with_star p"
  obtains n s' where "purge_pattern rc sc p s = Some (Inr n, s')" "view s' = (view s)(p := None)"
proof -
  obtain s' where "r_delete rc [p] s = (Inr (if view s p = None then 0 else 1), s')" "view s' = (view s)(p := None)" by (rule delete1_up)
  then show thesis using that assms by (simp add: purge_pattern_def)
qed

lemma purge_prefix:
  assumes "no_glob p"
  obtains n s' where "purge_pattern rc sc (p @ ''*'') s = Some (Inr n, s')"
    "view s' = (\<lambda>k. if starts_with p k then None else view s k)"
proof -
  obtain ks s1 where ks: "scan_all sc (p @ ''*'') 100 s = Some (Inr ks, s1)" "view s1 = view s"
    "set ks = {k. view s k \<noteq> None \<and> starts_with p k}" using scan_prefix_ends [OF assms] by blast
  have e: "ends_with_star (p @ ''*'')" by (simp add: ends_with_star_def)
  show thesis
  proof (cases "ks = []")
    case True
    then have "{k. view s k \<noteq> None \<and> starts_with p k} = {}" using ks(3) by simp
    then have "view s k = None" if "starts_with p k" for k using that by blast
    then have "view s1 = (\<lambda>k. if starts_with p k then None else view s k)" using ks(2) by (simp add: fun_eq_iff)
    then show ?thesis using that [of 0 s1] ks True e by (simp add: purge_pattern_def osbind_def)
  next
    case False
    then obtain n s2 where d: "r_delete rc ks s1 = (Inr n, s2)" using delete_ok by blast
    have "view s2 k = (if starts_with p k then None else view s k)" for k
      using delete_law [OF d] ks by (cases "view s k") auto
    then have "view s2 = (\<lambda>k. if starts_with p k then None else view s k)" by blast
    then show ?thesis using that [of "length ks" s2] ks False e d by (simp add: purge_pattern_def osbind_def seq_defs)
  qed
qed

lemma invalidate_module_ends:
  assumes "no_glob u" and "no_glob c" and "no_glob d"
  shows "\<exists>s'. invalidate_module_cache rc sc u c d s = Some (True, s') \<and>
    view s' = (\<lambda>k. if k = build_business_key u c (snd (resolve_cache_level d None)) None \<or>
                      starts_with (build_cache_key u c d None @ '':'') k then None else view s k)"
proof -
  let ?b = "build_business_key u c (snd (resolve_cache_level d None)) None"
  let ?l = "''cache:'' @ u @ '':'' @ c @ '':'' @ d @ '':''"
  have lvl: "resolve_cache_level d None = (BUSINESS, snd (resolve_cache_level d None))"
    using module_level [of d] by (metis prod.collapse)
  have pats: "module_patterns u c d = [?b, ?l @ ''*'']"
    by (subst module_patterns_def, subst lvl) (simp add: build_business_key_def)
  have "ends_with_star ?b \<longleftrightarrow> ends_with_star (CHR '':'' # snd (resolve_cache_level d None))"
    by (simp add: build_business_key_def ends_with_star_def)
  also have "\<not> \<dots>"
  proof -
    have "\<not> ends_with_star (CHR '':'' # py_lower d)"
    proof (cases d rule: rev_cases)
      case (snoc d' x)
      then have "x \<noteq> CHR ''*''" using assms(3) by simp
      then have "lower_char x \<noteq> CHR ''*''" by (rule lower_char_star)
      then show ?thesis using snoc by (simp add: ends_with_star_def py_lower_def)
    qed (simp add: ends_with_star_def py_lower_def)
    then show ?thesis by (auto simp: resolve_cache_level_def dest: domain_no_star split: option.splits)
  qed
  finally have ne: "\<not> ends_with_star ?b" .
  obtain n1 s1 where 1: "purge_pattern rc sc ?b s = Some (Inr n1, s1)" "view s1 = (view s)(?b := None)" by (rule purge_exact [OF ne])
  have "no_glob ?l" using assms by simp
  then obtain n2 s2 where 2: "purge_pattern rc sc (?l @ ''*'') s1 = Some (Inr n2, s2)"
    "view s2 = (\<lambda>k. if starts_with ?l k then None else view s1 k)" by (rule purge_prefix)
  have "invalidate_module_cache rc sc u c d s = Some (True, s2)"
    using 1 2 unfolding invalidate_module_cache_def pats by (simp add: ostry_def osbind_def)
  then show ?thesis using 1 2 by (auto simp: build_cache_key_def fun_eq_iff)
qed

end

subsection \<open>Statistics\<close>

definition level_sum :: "cache_stats \<Rightarrow> nat" where
  "level_sum st = level_business st + level_company st + level_legacy st"

definition domain_sum :: "cache_stats \<Rightarrow> nat" where
  "domain_sum st = sum_list (map snd (data_types st))"

lemma sum_update:
  "sum_list (map snd (AList.update k ((case map_of al k of Some n \<Rightarrow> n | None \<Rightarrow> 0) + 1) al)) = sum_list (map snd al) + (1 :: nat)"
  by (induction al) auto

lemma count_level_sums:
  "level_sum (count_level k st) = level_sum st + 1" "domain_sum (count_level k st) = domain_sum st"
  "total_keys (count_level k st) = total_keys st"
  by (simp_all add: count_level_def level_sum_def domain_sum_def)

lemma count_domain_sums:
  "level_sum (count_domain d st) = level_sum st" "domain_sum (count_domain d st) = domain_sum st + 1"
  "total_keys (count_domain d st) = total_keys st"
  using sum_update [of d "data_types st"] by (simp_all add: count_domain_def level_sum_def domain_sum_def)

lemma note_time_sums:
  "level_sum (note_time t st) = level_sum st \<and> domain_sum (note_time t st) = domain_sum st \<and>
   total_keys (note_time t st) = total_keys st"
  by (auto simp: note_time_def level_sum_def domain_sum_def Let_def split: sum.splits)

lemma size_sums [simp]:
  "level_sum (st\<lparr>total_size_bytes := n\<rparr>) = level_sum st" "domain_sum (st\<lparr>total_size_bytes := n\<rparr>) = domain_sum st"
  by (simp_all add: level_sum_def domain_sum_def)

lemma count_entry_sums:
  "\<exists>i \<le> 1. level_sum (count_entry f k t st) = level_sum st + i \<and> domain_sum (count_entry f k t st) = domain_sum st + i \<and>
     total_keys (count_entry f k t st) = total_keys st"
proof (cases "json_loads t")
  case (Inl e)
  then show ?thesis by (auto simp: count_entry_def)
next
  case (Inr v)
  then show ?thesis
    by (intro exI [of _ 1]) (simp add: count_entry_def Let_def note_time_sums count_level_sums count_domain_sums split: pyval.split)
qed

lemma count_entries_sums:
  "case count_entries rc f ks st s of (st', s') \<Rightarrow>
     total_keys st' = total_keys st \<and>
     (\<exists>n \<le> length ks. level_sum st' = level_sum st + n \<and> domain_sum st' = domain_sum st + n)"
proof (induction ks arbitrary: st s)
  case (Cons k ks)
  obtain r s1 where g: "r_get rc k s = (r, s1)" by fastforce
  have step: "\<exists>st1 i. count_entries rc f (k # ks) st s = count_entries rc f ks st1 s1 \<and> i \<le> 1 \<and> level_sum st1 = level_sum st + i \<and>
      domain_sum st1 = domain_sum st + i \<and> total_keys st1 = total_keys st"
  proof (cases "\<exists>t. r = Inr (Some t) \<and> t \<noteq> Raw []")
    case True
    then obtain t where t: "r = Inr (Some t)" "t \<noteq> Raw []" by blast
    then show ?thesis using g count_entry_sums [of f k t st] by (intro exI [of _ "count_entry f k t st"]) simp
  next
    case False
    then show ?thesis using g by (intro exI [of _ st] exI [of _ 0]) (auto split: sum.splits option.splits)
  qed
  then obtain st1 i where 1: "count_entries rc f (k # ks) st s = count_entries rc f ks st1 s1" "i \<le> 1"
    "level_sum st1 = level_sum st + i" "domain_sum st1 = domain_sum st + i" "total_keys st1 = total_keys st" by blast
  obtain st' s' where 2: "count_entries rc f ks st1 s1 = (st', s')" by fastforce
  then obtain n where "n \<le> length ks" "level_sum st' = level_sum st1 + n" "domain_sum st' = domain_sum st1 + n" "total_keys st' = total_keys st1"
    using Cons.IH [of st1 s1] by auto
  then show ?case using 1 2 by (auto simp del: count_entries.simps intro: exI [of _ "i + n"])
qed simp

context redis_scan
begin

lemma scan_patterns_ends:
  assumes "list_all star_pattern ps"
  shows "\<exists>ks s'. scan_patterns sc ps s = Some (Inr ks, s') \<and> view s' = view s \<and>
    set ks = {k. view s k \<noteq> None \<and> (\<exists>p \<in> set ps. star_match p k)}"
  using assms
proof (induction ps arbitrary: s)
  case (Cons p ps)
  obtain ks s1 where 1: "scan_all sc p 100 s = Some (Inr ks, s1)" "view s1 = view s" "set ks = {k. view s k \<noteq> None \<and> star_match p k}"
    using scan_all_ends [of p 100 s] Cons.prems by auto
  obtain ks' s2 where 2: "scan_patterns sc ps s1 = Some (Inr ks', s2)" "view s2 = view s1"
    "set ks' = {k. view s1 k \<noteq> None \<and> (\<exists>p \<in> set ps. star_match p k)}" using Cons.IH [of s1] Cons.prems by auto
  then have "scan_patterns sc (p # ps) s = Some (Inr (ks @ ks'), s2)" using 1 by (simp add: osbind_def)
  moreover have "set (ks @ ks') = {k. view s k \<noteq> None \<and> (\<exists>p \<in> set (p # ps). star_match p k)}" using 1 2 by auto
  ultimately show ?case using 1 2 by metis
qed simp

lemma stats_up:
  assumes "list_all star_pattern (stats_patterns u c d)"
  shows "\<exists>st s'. get_cache_stats rc sc f u c d s = Some (Inr st, s') \<and>
    total_keys st = card {k. view s k \<noteq> None \<and> (\<exists>p \<in> set (stats_patterns u c d). star_match p k)} \<and>
    level_sum st = domain_sum st \<and> level_sum st \<le> total_keys st"
proof -
  obtain ks s1 where 1: "scan_patterns sc (stats_patterns u c d) s = Some (Inr ks, s1)"
    "set ks = {k. view s k \<noteq> None \<and> (\<exists>p \<in> set (stats_patterns u c d). star_match p k)}"
    using scan_patterns_ends [OF assms] by blast
  obtain st s' where 2: "count_entries rc f (remdups ks) (empty_stats (length (remdups ks))) s1 = (st, s')" by fastforce
  have "length (remdups ks) = card (set ks)" by (simp add: length_remdups_card_conv)
  then show ?thesis
    using 1 2 count_entries_sums [where rc = rc and f = f and ks = "remdups ks" and st = "empty_stats (length (remdups ks))" and s = s1]
    by (auto simp: get_cache_stats_def ostry_def osbind_def Let_def empty_stats_def level_sum_def domain_sum_def)
qed

end

section \<open>Properties\<close>

definition live_for :: "string \<Rightarrow> string option \<Rightarrow> nat option \<Rightarrow> nat" where
  "live_for data_type sub_type ttl = (case ttl of Some t \<Rightarrow> t | None \<Rightarrow> auto_ttl data_type sub_type)"

text \<open>What is stored is read back: \<open>set_cached_data\<close> succeeds, and until the time to live ends
  \<open>get_cached_data\<close> returns the entry with the data, or nothing when the data is an empty list, which the
  cache refuses to serve.\<close>

theorem cached_data_round_trip:
  assumes "redis_up rc view tick" and "data \<noteq> PNone" and "ttl \<noteq> Some 0" and "n < live_for d st ttl"
    and "set_cached_data rc mgr u c d st data ttl now s = (ok, s')"
  shows "ok \<and> fst (get_cached_data rc mgr u c d st ttl' (tick n s')) =
    (if data = PList [] then None else Some (cached_payload d st data (live_for d st ttl) now))"
proof -
  obtain s1 where 1: "set_cached_data rc mgr u c d st data ttl now s = (True, s1)"
    "view s1 = (view s)(uc_build_cache_key mgr u c d st \<mapsto>
       (VStr (json_dumps (PDict (cached_payload d st data (live_for d st ttl) now))), Some (live_for d st ttl)))"
    using redis_up.set_cached_up [OF assms(1-3)] unfolding live_for_def by metis
  have s': "s' = s1" "ok" using 1 assms(5) by auto
  have "view (tick n s1) (uc_build_cache_key mgr u c d st) =
      Some (VStr (json_dumps (PDict (cached_payload d st data (live_for d st ttl) now))), Some (live_for d st ttl - n))"
    using redis_server.tick_law [OF redis_up.axioms(1) [OF assms(1)]] 1(2) assms(4) by (simp add: age_def)
  then have "str_at (view (tick n s1)) (uc_build_cache_key mgr u c d st) = Some (json_dumps (PDict (cached_payload d st data (live_for d st ttl) now)))"
    by (simp add: str_at_def)
  from redis_up.get_cached_new [OF assms(1) this] show ?thesis
    using s' by (simp add: cached_payload_def dget_or_def)
qed

theorem cached_data_round_trip_witness:
  "fst (get_cached_data mem_redis new_cache_manager ''u'' ''c'' ''bank'' (Some ''transactions'') 60
     (mem_tick 10 (snd (set_cached_data mem_redis new_cache_manager ''u'' ''c'' ''bank'' (Some ''transactions'') (PList [PStr ''t1'']) (Some 60) ''now'' empty_mem)))) =
   Some (cached_payload ''bank'' (Some ''transactions'') (PList [PStr ''t1'']) 60 ''now'')"
proof -
  obtain ok s' where r: "set_cached_data mem_redis new_cache_manager ''u'' ''c'' ''bank'' (Some ''transactions'') (PList [PStr ''t1'']) (Some 60) ''now'' empty_mem = (ok, s')"
    by fastforce
  have "10 < live_for ''bank'' (Some ''transactions'') (Some 60)" by (simp add: live_for_def)
  from cached_data_round_trip [OF mem_redis_up _ _ this r] show ?thesis using r by (simp add: live_for_def)
qed

text \<open>After an invalidation the entry is read from neither the new nor the former key, and no other
  key has changed.\<close>

theorem invalidation_forces_reload:
  assumes "redis_up rc view tick" and "use_new_keys mgr" and "invalidate_cache rc mgr u c d st s = (ok, s')"
  shows "ok \<and> fst (get_cached_data rc mgr u c d st ttl s') = None \<and>
    (\<forall>k. k \<noteq> uc_build_cache_key mgr u c d st \<longrightarrow> k \<noteq> get_legacy_key u c d st \<longrightarrow> view s' k = view s k)"
proof -
  obtain s1 where 1: "invalidate_cache rc mgr u c d st s = (True, s1)"
    "view s1 = (view s)(uc_build_cache_key mgr u c d st := None, get_legacy_key u c d st := None)"
    by (rule redis_up.invalidate_up [OF assms(1,2)])
  then have "s' = s1" "ok" using assms(3) by auto
  moreover have "fst (get_cached_data rc mgr u c d st ttl s1) = None"
    using redis_up.get_cached_miss [OF assms(1), of s1] 1(2) by simp
  ultimately show ?thesis using 1(2) by simp
qed

theorem invalidation_forces_reload_witness:
  "fst (get_cached_data mem_redis new_cache_manager ''u'' ''c'' ''bank'' None 60
     (snd (invalidate_cache mem_redis new_cache_manager ''u'' ''c'' ''bank'' None
       (snd (set_cached_data mem_redis new_cache_manager ''u'' ''c'' ''bank'' None (PStr ''x'') None ''now'' empty_mem))))) = None"
proof -
  let ?s = "snd (set_cached_data mem_redis new_cache_manager ''u'' ''c'' ''bank'' None (PStr ''x'') None ''now'' empty_mem)"
  obtain ok s' where r: "invalidate_cache mem_redis new_cache_manager ''u'' ''c'' ''bank'' None ?s = (ok, s')" by fastforce
  have "use_new_keys new_cache_manager" by (simp add: new_cache_manager_def)
  from invalidation_forces_reload [OF mem_redis_up this r] show ?thesis using r by simp
qed

text \<open>C7: Invalidating a module ends, whatever number of calls the scan needs, and deletes exactly the key of
  the module's domain without sub-type and those former keys of the module that have a sub-type. The former key of the
  module without sub-type stays, and so do the entries of a module whose data are stored under another domain, although the
  docstring promises the whole module (\<open>drive_module_not_invalidated\<close>). Identifiers hold no character with a
  meaning in a pattern.\<close>

theorem module_invalidation_ends:
  assumes "redis_scan rc view tick sc todo rank" and "no_glob u" and "no_glob c" and "no_glob d"
  shows "\<exists>s'. invalidate_module_cache rc sc u c d s = Some (True, s') \<and>
    view s' = (\<lambda>k. if k = build_business_key u c (snd (resolve_cache_level d None)) None \<or>
                      starts_with (build_cache_key u c d None @ '':'') k then None else view s k)"
  by (rule redis_scan.invalidate_module_ends [OF assms])

theorem module_invalidation_ends_witness:
  "\<exists>s'. invalidate_module_cache mem_redis mem_scan ''u'' ''c'' ''bank''
     (snd (set_cached_data mem_redis new_cache_manager ''u'' ''c'' ''bank'' None (PStr ''x'') None ''now'' empty_mem)) = Some (True, s') \<and>
     mem_view s' (build_business_key ''u'' ''c'' ''bank'' None) = None"
proof -
  let ?s = "snd (set_cached_data mem_redis new_cache_manager ''u'' ''c'' ''bank'' None (PStr ''x'') None ''now'' empty_mem)"
  have "snd (resolve_cache_level ''bank'' None) = ''bank''"
    by (simp add: resolve_cache_level_def LEGACY_TO_BUSINESS_MAP_def some_text_def str_eval)
  moreover have "no_glob ''u''" "no_glob ''c''" "no_glob ''bank''" by simp_all
  ultimately show ?thesis using module_invalidation_ends [OF mem_redis_scan, of "''u''" "''c''" "''bank''" ?s] by auto
qed

text \<open>The statistics count each live key of the company once: the levels and the domains add up to the
  same number, at most the number of keys, and the scan ends.\<close>

theorem stats_consistent:
  assumes "redis_scan rc view tick sc todo rank" and "list_all star_pattern (stats_patterns u c d)"
  shows "\<exists>st s'. get_cache_stats rc sc f u c d s = Some (Inr st, s') \<and>
    total_keys st = card {k. view s k \<noteq> None \<and> (\<exists>p \<in> set (stats_patterns u c d). star_match p k)} \<and>
    level_business st + level_company st + level_legacy st = sum_list (map snd (data_types st)) \<and>
    sum_list (map snd (data_types st)) \<le> total_keys st"
  using redis_scan.stats_up [OF assms] by (fastforce simp: level_sum_def domain_sum_def)

theorem stats_consistent_witness:
  "\<exists>st s'. get_cache_stats mem_redis mem_scan (\<lambda>t. 2) ''u'' ''c'' None empty_mem = Some (Inr st, s') \<and>
     sum_list (map snd (data_types st)) \<le> total_keys st"
proof -
  have "list_all star_pattern (stats_patterns ''u'' ''c'' None)" by (simp add: stats_patterns_def some_text_def star_pattern_def)
  from stats_consistent [OF mem_redis_scan this, of "\<lambda>t. 2" empty_mem] show ?thesis by blast
qed

text \<open>Kinds of data that share a domain share one entry: after accounts and functions of the chart of
  accounts have both been stored, the accounts are read back as the functions.\<close>

theorem coa_kinds_collide:
  assumes "redis_up rc view tick" and "use_new_keys mgr" and "functions \<notin> {PNone, PList []}"
    and "set_cached_data rc mgr u c ''coa'' (Some ''functions'') functions None now s = (ok, s')"
  shows "fst (get_cached_data rc mgr u c ''coa'' (Some ''accounts'') ttl s') =
    Some (cached_payload ''coa'' (Some ''functions'') functions (business_ttl COA) now)"
proof -
  have key: "uc_build_cache_key mgr u c ''coa'' (Some ''accounts'') = uc_build_cache_key mgr u c ''coa'' (Some ''functions'')"
    using assms(2) by (simp add: uc_build_cache_key_def resolve_cache_level_def LEGACY_TO_BUSINESS_MAP_def some_text_def str_eval ITEM_LEVEL_CACHE_TYPES_def)
  have ttl: "auto_ttl ''coa'' (Some ''functions'') = business_ttl COA"
    by (simp add: auto_ttl_def resolve_cache_level_def LEGACY_TO_BUSINESS_MAP_def some_text_def str_eval get_ttl_for_domain_def all_domains_def)
  have n: "functions \<noteq> PNone" "None \<noteq> Some (0 :: nat)" using assms(3) by auto
  obtain s1 where 1: "set_cached_data rc mgr u c ''coa'' (Some ''functions'') functions None now s = (True, s1)"
    "view s1 = (view s)(uc_build_cache_key mgr u c ''coa'' (Some ''functions'') \<mapsto>
       (VStr (json_dumps (PDict (cached_payload ''coa'' (Some ''functions'') functions
          (case None of Some t \<Rightarrow> t | None \<Rightarrow> auto_ttl ''coa'' (Some ''functions'')) now))),
        Some (case None of Some t \<Rightarrow> t | None \<Rightarrow> auto_ttl ''coa'' (Some ''functions''))))"
    by (rule redis_up.set_cached_up [OF assms(1) n])
  then have "str_at (view s') (uc_build_cache_key mgr u c ''coa'' (Some ''accounts'')) =
      Some (json_dumps (PDict (cached_payload ''coa'' (Some ''functions'') functions (business_ttl COA) now)))"
    using assms(4) key ttl by (simp add: str_at_def)
  from redis_up.get_cached_new [OF assms(1) this] show ?thesis using assms(3) by (simp add: cached_payload_def dget_or_def)
qed

theorem coa_kinds_collide_witness:
  "fst (get_cached_data mem_redis new_cache_manager ''u'' ''c'' ''coa'' (Some ''accounts'') 60
     (snd (set_cached_data mem_redis new_cache_manager ''u'' ''c'' ''coa'' (Some ''functions'') (PStr ''f'') None ''now'' empty_mem))) =
   Some (cached_payload ''coa'' (Some ''functions'') (PStr ''f'') (business_ttl COA) ''now'')"
proof -
  obtain ok s' where r: "set_cached_data mem_redis new_cache_manager ''u'' ''c'' ''coa'' (Some ''functions'') (PStr ''f'') None ''now'' empty_mem = (ok, s')"
    by fastforce
  have "use_new_keys new_cache_manager" by (simp add: new_cache_manager_def)
  from coa_kinds_collide [OF mem_redis_up this _ r] show ?thesis using r by simp
qed

text \<open>Invalidating the module of the documents on Drive leaves the entry the documents are read from.\<close>

lemma drive_module_not_invalidated:
  "build_business_key u c (snd (resolve_cache_level ''drive'' None)) None \<noteq>
   uc_build_cache_key new_cache_manager u c ''drive'' (Some ''documents'')"
  by (simp add: uc_build_cache_key_def resolve_cache_level_def LEGACY_TO_BUSINESS_MAP_def some_text_def str_eval
      ITEM_LEVEL_CACHE_TYPES_def build_business_key_def new_cache_manager_def)

end
