(* ===== verification/Session_State.thy ===== *)
theory Session_State
  imports Redis_Scan Redis_Namespaces
begin

text \<open>
  \<open>SessionStateManager\<close> of \<open>src/app/llm_service/session_state_manager.py\<close>: the state of a chat session in
  one JSON document in Redis, its partial updates, and the threads the tabs of a browser show. The
  values in memory have datetimes, sets and tuples beside the JSON values; a document stores datetimes and
  sets as tagged dictionaries. Redis, the text of datetimes and the clock are parameters. The module-level
  singleton and log output are left out.
\<close>

section \<open>Definitions\<close>

subsection \<open>Values in memory\<close>

datatype 'd sval =
    SNone
  | SBool bool
  | SNum rat
  | SStr string
  | SDate 'd
  | SSet "'d sval list"
  | STuple "'d sval list"
  | SList "'d sval list"
  | SDict "(string \<times> 'd sval) list"

type_synonym 'd sdict = "(string \<times> 'd sval) list"

text \<open>
  The text of a datetime and its inverse, which is \<open>None\<close> where \<open>fromisoformat\<close> raises a
  \<open>ValueError\<close>; and \<open>str\<close> of the values JSON does not know.
\<close>

record 'd datetimes =
  isoformat :: "'d \<Rightarrow> string"
  fromisoformat :: "string \<Rightarrow> 'd option"
  str_other :: "'d sval \<Rightarrow> string"

fun s_truthy :: "'d sval \<Rightarrow> bool" where
  "s_truthy SNone = False"
| "s_truthy (SBool b) = b"
| "s_truthy (SNum q) = (q \<noteq> 0)"
| "s_truthy (SStr t) = (t \<noteq> [])"
| "s_truthy (SDate d) = True"
| "s_truthy (SSet xs) = (xs \<noteq> [])"
| "s_truthy (STuple xs) = (xs \<noteq> [])"
| "s_truthy (SList xs) = (xs \<noteq> [])"
| "s_truthy (SDict d) = (d \<noteq> [])"

definition sget :: "'d sdict \<Rightarrow> string \<Rightarrow> 'd sval" where
  "sget d k = (case map_of d k of None \<Rightarrow> SNone | Some v \<Rightarrow> v)"

definition sget_or :: "'d sdict \<Rightarrow> string \<Rightarrow> 'd sval \<Rightarrow> 'd sval" where
  "sget_or d k v = (case map_of d k of None \<Rightarrow> v | Some w \<Rightarrow> w)"

definition s_or :: "'d sval \<Rightarrow> 'd sval \<Rightarrow> 'd sval" where
  "s_or v w = (if s_truthy v then v else w)"

definition supdate :: "'d sdict \<Rightarrow> 'd sdict \<Rightarrow> 'd sdict" where
  "supdate d e = foldl (\<lambda>d (k, v). AList.update k v d) d e"

text \<open>\<open>v.items()\<close>, which only a dictionary has.\<close>

fun s_items :: "'d sval \<Rightarrow> 'd sdict result" where
  "s_items (SDict d) = Inr d"
| "s_items _ = Inl AttributeError"

subsection \<open>Serialisation\<close>

definition ss_build_key :: "string \<Rightarrow> string \<Rightarrow> string" where
  "ss_build_key user_id company_id = ''session:'' @ user_id @ '':'' @ company_id @ '':state''"

definition serialize_datetime :: "'d datetimes \<Rightarrow> 'd sval \<Rightarrow> string" where
  "serialize_datetime dt v = (case v of SDate d \<Rightarrow> isoformat dt d | SStr t \<Rightarrow> t | _ \<Rightarrow> str_other dt v)"

definition deserialize_datetime :: "'d datetimes \<Rightarrow> 'd sval \<Rightarrow> 'd option" where
  "deserialize_datetime dt v = (case v of SStr t \<Rightarrow> if t = [] then None else fromisoformat dt t | _ \<Rightarrow> None)"

definition tagged :: "string \<Rightarrow> 'd sval \<Rightarrow> 'd sval" where
  "tagged ty v = SDict [(''__type__'', SStr ty), (''value'', v)]"

fun serialize_value :: "'d datetimes \<Rightarrow> 'd sval \<Rightarrow> 'd sval" where
  "serialize_value dt (SDate d) = tagged ''datetime'' (SStr (isoformat dt d))"
| "serialize_value dt (SSet xs) = tagged ''set'' (SList xs)"
| "serialize_value dt (SDict d) = SDict (map (\<lambda>(k, v). (k, serialize_value dt v)) d)"
| "serialize_value dt (SList xs) = SList (map (serialize_value dt) xs)"
| "serialize_value dt v = v"

text \<open>\<open>json.dumps(..., default=str)\<close>: tuples are arrays, other values are replaced by their text.\<close>

fun to_json :: "'d datetimes \<Rightarrow> 'd sval \<Rightarrow> pyval" where
  "to_json dt SNone = PNone"
| "to_json dt (SBool b) = PBool b"
| "to_json dt (SNum q) = PNum q"
| "to_json dt (SStr t) = PStr t"
| "to_json dt (SDate d) = PStr (str_other dt (SDate d))"
| "to_json dt (SSet xs) = PStr (str_other dt (SSet xs))"
| "to_json dt (STuple xs) = PList (map (to_json dt) xs)"
| "to_json dt (SList xs) = PList (map (to_json dt) xs)"
| "to_json dt (SDict d) = PDict (map (\<lambda>(k, v). (k, to_json dt v)) d)"

fun of_json :: "pyval \<Rightarrow> 'd sval" where
  "of_json PNone = SNone"
| "of_json (PBool b) = SBool b"
| "of_json (PNum q) = SNum q"
| "of_json (PStr t) = SStr t"
| "of_json (PList xs) = SList (map of_json xs)"
| "of_json (PDict d) = SDict (map (\<lambda>(k, v). (k, of_json v)) d)"

definition serialize_state :: "'d datetimes \<Rightarrow> 'd sdict \<Rightarrow> text_val" where
  "serialize_state dt state = json_dumps (to_json dt (SDict (map (\<lambda>(k, v). (k, serialize_value dt v)) state)))"

text \<open>\<open>set(v)\<close> of a JSON value: its elements must be hashable.\<close>

fun hashable :: "pyval \<Rightarrow> bool" where
  "hashable (PList _) = False"
| "hashable (PDict _) = False"
| "hashable _ = True"

definition set_of_json :: "pyval \<Rightarrow> 'd sval result" where
  "set_of_json v = rbind (py_iter v) (\<lambda>xs. if list_all hashable xs then Inr (SSet (map of_json (remdups xs))) else Inl TypeError)"

fun deserialize_value :: "'d datetimes \<Rightarrow> pyval \<Rightarrow> 'd sval result"
  and deserialize_items :: "'d datetimes \<Rightarrow> (string \<times> pyval) list \<Rightarrow> 'd sdict result"
  and deserialize_list :: "'d datetimes \<Rightarrow> pyval list \<Rightarrow> 'd sval list result" where
  "deserialize_value dt (PDict d) =
     (if map_of d ''__type__'' = Some (PStr ''datetime'') then
        (case map_of d ''value'' of
           None \<Rightarrow> Inl (KeyError ''value'')
         | Some (PStr t) \<Rightarrow> (case fromisoformat dt t of Some x \<Rightarrow> Inr (SDate x) | None \<Rightarrow> Inl (ValueError ''isoformat''))
         | Some _ \<Rightarrow> Inl TypeError)
      else if map_of d ''__type__'' = Some (PStr ''set'') then
        (case map_of d ''value'' of None \<Rightarrow> Inl (KeyError ''value'') | Some v \<Rightarrow> set_of_json v)
      else rbind (deserialize_items dt d) (\<lambda>e. Inr (SDict e)))"
| "deserialize_value dt (PList xs) = rbind (deserialize_list dt xs) (\<lambda>ys. Inr (SList ys))"
| "deserialize_value dt PNone = Inr SNone"
| "deserialize_value dt (PBool b) = Inr (SBool b)"
| "deserialize_value dt (PNum q) = Inr (SNum q)"
| "deserialize_value dt (PStr t) = Inr (SStr t)"
| "deserialize_items dt [] = Inr []"
| "deserialize_items dt ((k, v) # d) =
     rbind (deserialize_value dt v) (\<lambda>w. rbind (deserialize_items dt d) (\<lambda>e. Inr ((k, w) # e)))"
| "deserialize_list dt [] = Inr []"
| "deserialize_list dt (v # vs) =
     rbind (deserialize_value dt v) (\<lambda>w. rbind (deserialize_list dt vs) (\<lambda>ws. Inr (w # ws)))"

definition deserialize_state :: "'d datetimes \<Rightarrow> text_val \<Rightarrow> 'd sdict result" where
  "deserialize_state dt t =
     rbind (json_loads t) (\<lambda>v. case v of PDict d \<Rightarrow> deserialize_items dt d | _ \<Rightarrow> Inl AttributeError)"

subsection \<open>Save, load, update, delete\<close>

definition SESSION_TTL :: nat where
  "SESSION_TTL = 7200"

text \<open>The optional arguments of \<open>save_session_state\<close>; one that is not given is \<open>SNone\<close>.\<close>

record 'd session_args =
  user_context :: "'d sval"
  jobs_data :: "'d sval"
  jobs_metrics :: "'d sval"
  is_on_chat_page :: bool
  current_active_thread :: "'d sval"
  thread_states :: "'d sval"
  active_tasks :: "'d sval"
  last_activity :: "'d sval"
  thread_contexts :: "'d sval"
  active_threads :: "'d sval"

definition session_document :: "'d datetimes \<Rightarrow> 'd session_args \<Rightarrow> string \<Rightarrow> 'd sdict result" where
  "session_document dt a now =
     rbind (if s_truthy (last_activity a) then s_items (last_activity a) else Inr []) (\<lambda>acts. Inr
       [(''user_context'', s_or (user_context a) (SDict [])),
        (''jobs_data'', s_or (jobs_data a) (SDict [])),
        (''jobs_metrics'', s_or (jobs_metrics a) (SDict [])),
        (''is_on_chat_page'', SBool (is_on_chat_page a)),
        (''current_active_thread'', current_active_thread a),
        (''thread_states'', s_or (thread_states a) (SDict [])),
        (''active_tasks'', s_or (active_tasks a) (SDict [])),
        (''last_activity'', SDict (map (\<lambda>(k, v). (k, SStr (serialize_datetime dt v))) acts)),
        (''thread_contexts'', s_or (thread_contexts a) (SDict [])),
        (''active_threads'', s_or (active_threads a) (SList [])),
        (''updated_at'', SStr now), (''version'', SStr ''1.0'')])"

definition save_session_state ::
  "'s redis \<Rightarrow> 'd datetimes \<Rightarrow> string \<Rightarrow> string \<Rightarrow> 'd session_args \<Rightarrow> nat option \<Rightarrow> string \<Rightarrow> 's \<Rightarrow> bool \<times> 's" where
  "save_session_state rc dt user_id company_id a ttl now =
     (let ttl_seconds = (case ttl of Some t \<Rightarrow> if t = 0 then SESSION_TTL else t | None \<Rightarrow> SESSION_TTL) in
      stry (sbind (slift (session_document dt a now)) (\<lambda>state.
            sbind (r_setex rc (ss_build_key user_id company_id) ttl_seconds (serialize_state dt state)) (\<lambda>_. sret True)))
        (\<lambda>_. False))"

text \<open>The activities of a loaded state: texts are read, everything else is dropped.\<close>

definition restore_activity :: "'d datetimes \<Rightarrow> 'd sdict \<Rightarrow> 'd sdict" where
  "restore_activity dt raw =
     foldl (\<lambda>acc (k, v). case deserialize_datetime dt v of Some d \<Rightarrow> AList.update k (SDate d) acc | None \<Rightarrow> acc) [] raw"

definition load_session_state :: "'s redis \<Rightarrow> 'd datetimes \<Rightarrow> string \<Rightarrow> string \<Rightarrow> 's \<Rightarrow> 'd sdict option \<times> 's" where
  "load_session_state rc dt user_id company_id =
     stry (sbind (r_get rc (ss_build_key user_id company_id)) (\<lambda>data.
            case data of
              None \<Rightarrow> sret None
            | Some t \<Rightarrow>
                if t = Raw [] then sret None
                else sbind (slift (deserialize_state dt t)) (\<lambda>state.
                  case map_of state ''last_activity'' of
                    None \<Rightarrow> sret (Some state)
                  | Some v \<Rightarrow> sbind (slift (s_items v)) (\<lambda>raw.
                      sret (Some (AList.update ''last_activity'' (SDict (restore_activity dt raw)) state))))))
       (\<lambda>_. None)"

definition update_session_state ::
  "'s redis \<Rightarrow> 'd datetimes \<Rightarrow> string \<Rightarrow> string \<Rightarrow> 'd sdict \<Rightarrow> bool \<Rightarrow> string \<Rightarrow> 's \<Rightarrow> bool \<times> 's" where
  "update_session_state rc dt user_id company_id updates extend_ttl now s =
     (case load_session_state rc dt user_id company_id s of
        (None, s1) \<Rightarrow> (False, s1)
      | (Some state, s1) \<Rightarrow>
          let state' = AList.update ''updated_at'' (SStr now) (supdate state updates);
              key = ss_build_key user_id company_id; serialized = serialize_state dt state' in
          stry (sbind (if extend_ttl then r_setex rc key SESSION_TTL serialized else r_set rc key serialized) (\<lambda>_. sret True))
            (\<lambda>_. False) s1)"

definition delete_session_state :: "'s redis \<Rightarrow> string \<Rightarrow> string \<Rightarrow> 's \<Rightarrow> bool \<times> 's" where
  "delete_session_state rc user_id company_id =
     stry (sbind (r_delete rc [ss_build_key user_id company_id]) (\<lambda>_. sret True)) (\<lambda>_. False)"

subsection \<open>Presence\<close>

definition update_presence ::
  "'s redis \<Rightarrow> 'd datetimes \<Rightarrow> string \<Rightarrow> string \<Rightarrow> bool \<Rightarrow> 'd sval \<Rightarrow> string \<Rightarrow> 's \<Rightarrow> bool \<times> 's" where
  "update_presence rc dt user_id company_id on_chat thread now =
     update_session_state rc dt user_id company_id [(''is_on_chat_page'', SBool on_chat), (''current_active_thread'', thread)] True now"

definition update_presence_multi_tab ::
  "'s redis \<Rightarrow> 'd datetimes \<Rightarrow> string \<Rightarrow> string \<Rightarrow> string \<Rightarrow> string \<Rightarrow> string \<Rightarrow> 's \<Rightarrow> bool \<times> 's" where
  "update_presence_multi_tab rc dt user_id company_id session_id thread_key now s =
     (case load_session_state rc dt user_id company_id s of
        (None, s1) \<Rightarrow> (False, s1)
      | (Some state, s1) \<Rightarrow>
          (case sget_or state ''active_threads_by_session'' (SDict []) of
             SDict tabs \<Rightarrow>
               update_session_state rc dt user_id company_id
                 [(''active_threads_by_session'', SDict (AList.update session_id (SStr thread_key) tabs)),
                  (''is_on_chat_page'', SBool True), (''current_active_thread'', SStr thread_key)] True now s1
           | _ \<Rightarrow> (False, s1)))"

definition remove_tab_presence ::
  "'s redis \<Rightarrow> 'd datetimes \<Rightarrow> string \<Rightarrow> string \<Rightarrow> string \<Rightarrow> string \<Rightarrow> 's \<Rightarrow> bool \<times> 's" where
  "remove_tab_presence rc dt user_id company_id session_id now s =
     (case load_session_state rc dt user_id company_id s of
        (None, s1) \<Rightarrow> (True, s1)
      | (Some state, s1) \<Rightarrow>
          (case sget_or state ''active_threads_by_session'' (SDict []) of
             SDict tabs \<Rightarrow>
               let tabs' = AList.delete session_id tabs in
               update_session_state rc dt user_id company_id
                 ([(''active_threads_by_session'', SDict tabs'), (''is_on_chat_page'', SBool (tabs' \<noteq> []))] @
                  (if tabs' = [] then [(''current_active_thread'', SNone)] else [])) True now s1
           | _ \<Rightarrow> (False, s1)))"

text \<open>The chat page shows a thread by the fields of a single tab.\<close>

definition on_current_thread :: "'d sdict \<Rightarrow> string \<Rightarrow> bool" where
  "on_current_thread state thread_key \<longleftrightarrow>
     s_truthy (sget_or state ''is_on_chat_page'' (SBool False)) \<and> sget state ''current_active_thread'' = SStr thread_key"

definition is_user_on_thread_multi_tab ::
  "'s redis \<Rightarrow> 'd datetimes \<Rightarrow> string \<Rightarrow> string \<Rightarrow> string \<Rightarrow> 's \<Rightarrow> bool \<times> 's" where
  "is_user_on_thread_multi_tab rc dt user_id company_id thread_key s =
     (case load_session_state rc dt user_id company_id s of
        (None, s1) \<Rightarrow> (False, s1)
      | (Some state, s1) \<Rightarrow>
          if state = [] then (False, s1)
          else
            let tabs = sget_or state ''active_threads_by_session'' (SDict []) in
            if s_truthy tabs then (case tabs of SDict d \<Rightarrow> (SStr thread_key \<in> set (map snd d), s1) | _ \<Rightarrow> (False, s1))
            else (on_current_thread state thread_key, s1))"

definition get_active_tabs_for_thread ::
  "'s redis \<Rightarrow> 'd datetimes \<Rightarrow> string \<Rightarrow> string \<Rightarrow> string \<Rightarrow> 's \<Rightarrow> string list \<times> 's" where
  "get_active_tabs_for_thread rc dt user_id company_id thread_key s =
     (case load_session_state rc dt user_id company_id s of
        (None, s1) \<Rightarrow> ([], s1)
      | (Some state, s1) \<Rightarrow>
          (case sget_or state ''active_threads_by_session'' (SDict []) of
             SDict tabs \<Rightarrow> (map fst (filter (\<lambda>(sid, t). t = SStr thread_key) tabs), s1)
           | _ \<Rightarrow> ([], s1)))"

definition get_all_active_tabs :: "'s redis \<Rightarrow> 'd datetimes \<Rightarrow> string \<Rightarrow> string \<Rightarrow> 's \<Rightarrow> 'd sval \<times> 's" where
  "get_all_active_tabs rc dt user_id company_id s =
     (case load_session_state rc dt user_id company_id s of
        (None, s1) \<Rightarrow> (SDict [], s1)
      | (Some state, s1) \<Rightarrow> (if state = [] then SDict [] else sget_or state ''active_threads_by_session'' (SDict []), s1))"

subsection \<open>Activity, jobs and queries\<close>

definition update_thread_activity ::
  "'s redis \<Rightarrow> 'd datetimes \<Rightarrow> string \<Rightarrow> string \<Rightarrow> string \<Rightarrow> 'd \<Rightarrow> string \<Rightarrow> 's \<Rightarrow> bool result \<times> 's" where
  "update_thread_activity rc dt user_id company_id thread_key moment now s =
     (case load_session_state rc dt user_id company_id s of
        (None, s1) \<Rightarrow> (Inr False, s1)
      | (Some state, s1) \<Rightarrow>
          (case sget_or state ''last_activity'' (SDict []) of
             SDict acts \<Rightarrow>
               (case update_session_state rc dt user_id company_id
                       [(''last_activity'', SDict (AList.update thread_key (SDate moment) acts))] True now s1 of
                  (ok, s2) \<Rightarrow> (Inr ok, s2))
           | _ \<Rightarrow> (Inl TypeError, s1)))"

definition update_jobs_data ::
  "'s redis \<Rightarrow> 'd datetimes \<Rightarrow> string \<Rightarrow> string \<Rightarrow> 'd sval \<Rightarrow> 'd sval \<Rightarrow> string \<Rightarrow> 's \<Rightarrow> bool \<times> 's" where
  "update_jobs_data rc dt user_id company_id jobs metrics now =
     update_session_state rc dt user_id company_id [(''jobs_data'', jobs), (''jobs_metrics'', metrics)] True now"

definition get_user_context :: "'s redis \<Rightarrow> 'd datetimes \<Rightarrow> string \<Rightarrow> string \<Rightarrow> 's \<Rightarrow> 'd sval \<times> 's" where
  "get_user_context rc dt user_id company_id s =
     (case load_session_state rc dt user_id company_id s of
        (None, s1) \<Rightarrow> (SNone, s1) | (Some state, s1) \<Rightarrow> (sget state ''user_context'', s1))"

definition get_jobs_data :: "'s redis \<Rightarrow> 'd datetimes \<Rightarrow> string \<Rightarrow> string \<Rightarrow> 's \<Rightarrow> ('d sval \<times> 'd sval) \<times> 's" where
  "get_jobs_data rc dt user_id company_id s =
     (case load_session_state rc dt user_id company_id s of
        (None, s1) \<Rightarrow> ((SNone, SNone), s1)
      | (Some state, s1) \<Rightarrow> ((sget state ''jobs_data'', sget state ''jobs_metrics''), s1))"

definition is_user_on_thread :: "'s redis \<Rightarrow> 'd datetimes \<Rightarrow> string \<Rightarrow> string \<Rightarrow> string \<Rightarrow> 's \<Rightarrow> bool \<times> 's" where
  "is_user_on_thread rc dt user_id company_id thread_key s =
     (case load_session_state rc dt user_id company_id s of
        (None, s1) \<Rightarrow> (False, s1) | (Some state, s1) \<Rightarrow> (on_current_thread state thread_key, s1))"

definition session_exists :: "'s redis \<Rightarrow> string \<Rightarrow> string \<Rightarrow> 's \<Rightarrow> bool result \<times> 's" where
  "session_exists rc user_id company_id =
     sbind (r_exists rc (ss_build_key user_id company_id)) (\<lambda>n. sret (n \<noteq> 0))"

definition ss_extend_ttl :: "'s redis \<Rightarrow> string \<Rightarrow> string \<Rightarrow> nat option \<Rightarrow> 's \<Rightarrow> bool \<times> 's" where
  "ss_extend_ttl rc user_id company_id ttl =
     (let ttl_seconds = (case ttl of Some t \<Rightarrow> if t = 0 then SESSION_TTL else t | None \<Rightarrow> SESSION_TTL) in
      stry (r_expire rc (ss_build_key user_id company_id) ttl_seconds) (\<lambda>_. False))"

text \<open>\<open>scan_iter\<close> is the loop of \<open>scan_all\<close>, with the default number of keys per call.\<close>

definition list_user_sessions :: "'s scan \<Rightarrow> string \<Rightarrow> 's \<Rightarrow> (string list \<times> 's) option" where
  "list_user_sessions sc user_id =
     ostry (osbind (scan_all sc (''session:'' @ user_id @ '':*:state'') 10) (\<lambda>keys s.
       Some (Inr (concat (map (\<lambda>key. let parts = split_on CHR '':'' key in if 3 \<le> length parts then [parts ! 2] else []) keys)), s)))
       (\<lambda>_. [])"

definition cleanup_expired_sessions :: nat where
  "cleanup_expired_sessions = 0"

record session_stats =
  total_sessions :: nat
  ss_total_size_bytes :: nat
  avg_size_bytes :: nat

primrec sum_strlen :: "'s redis \<Rightarrow> string list \<Rightarrow> nat \<Rightarrow> nat \<Rightarrow> 's \<Rightarrow> (nat \<times> nat) result \<times> 's" where
  "sum_strlen rc [] n bytes s = (Inr (n, bytes), s)"
| "sum_strlen rc (k # ks) n bytes s = sbind (r_strlen rc k) (\<lambda>l. sum_strlen rc ks (n + 1) (bytes + l)) s"

definition get_session_stats :: "'s redis \<Rightarrow> 's scan \<Rightarrow> 's \<Rightarrow> ((exn + session_stats) \<times> 's) option" where
  "get_session_stats rc sc =
     ostry (osbind (scan_all sc ''session:*:state'' 10) (\<lambda>keys.
            osbind (\<lambda>s. Some (sum_strlen rc keys 0 0 s)) (\<lambda>(n, bytes) s.
              Some (Inr (Inr \<lparr>total_sessions = n, ss_total_size_bytes = bytes,
                              avg_size_bytes = (if 0 < n then bytes div n else 0)\<rparr>), s))))
       Inl"

section \<open>Library lemmas\<close>

subsection \<open>What the document keeps\<close>

text \<open>
  Values that come back from the document as they were: no tuples, no dictionary with the key of
  the tag, and sets of distinct simple values.
\<close>

fun simple :: "'d sval \<Rightarrow> bool" where
  "simple SNone = True" | "simple (SBool _) = True" | "simple (SNum _) = True" | "simple (SStr _) = True" | "simple _ = False"

fun storable :: "'d sval \<Rightarrow> bool" where
  "storable (SSet xs) = (list_all simple xs \<and> distinct xs)"
| "storable (STuple xs) = False"
| "storable (SList xs) = list_all storable xs"
| "storable (SDict d) = (''__type__'' \<notin> fst ` set d \<and> list_all (\<lambda>(k, v). storable v) d)"
| "storable _ = True"

locale iso_datetimes =
  fixes dt :: "'d datetimes"
  assumes iso_round_trip: "fromisoformat dt (isoformat dt d) = Some d"
    and iso_nonempty: "isoformat dt d \<noteq> []"
begin

lemma simple_json: "simple v \<Longrightarrow> of_json (to_json dt v) = v \<and> hashable (to_json dt v)"
  by (cases v) simp_all

lemma simple_set:
  assumes "list_all simple xs" and "distinct xs"
  shows "set_of_json (PList (map (to_json dt) xs)) = Inr (SSet xs)"
proof -
  have e: "map of_json (map (to_json dt) xs) = xs" using assms(1) by (induction xs) (simp_all add: simple_json)
  then have "distinct (map (to_json dt) xs)" using assms(2) by (metis distinct_map)
  moreover have "list_all hashable (map (to_json dt) xs)" using assms(1) by (induction xs) (simp_all add: simple_json)
  ultimately show ?thesis using e by (simp add: set_of_json_def rbind_def distinct_remdups_id)
qed

lemma map_of_tagged: "map_of (map (\<lambda>(k, v). (k, f v)) d) k = map_option f (map_of d k)"
  by (induction d) auto

lemma no_tag: "''__type__'' \<notin> fst ` set d \<Longrightarrow> map_of (map (\<lambda>(k, v). (k, f v)) d) ''__type__'' = None"
  by (auto simp: map_of_tagged map_of_eq_None_iff)

lemma items_round_trip:
  assumes "\<And>k v. (k, v) \<in> set d \<Longrightarrow> deserialize_value dt (to_json dt (serialize_value dt v)) = Inr v"
  shows "deserialize_items dt (map (\<lambda>(k, v). (k, to_json dt (serialize_value dt v))) d) = Inr d"
  using assms by (induction d) (fastforce simp: rbind_def)+

lemma value_round_trip: "storable v \<Longrightarrow> deserialize_value dt (to_json dt (serialize_value dt v)) = Inr v"
proof (induction v)
  case (SSet xs)
  then show ?case using simple_set by (simp add: tagged_def)
next
  case (SList xs)
  then have "deserialize_list dt (map (\<lambda>x. to_json dt (serialize_value dt x)) xs) = Inr xs"
    by (induction xs) (auto simp: rbind_def)
  then show ?case by (simp add: rbind_def comp_def)
next
  case (SDict d)
  then have "deserialize_items dt (map (\<lambda>(k, v). (k, to_json dt (serialize_value dt v))) d) = Inr d"
    by (intro items_round_trip) (fastforce simp: list_all_iff)
  then show ?case using SDict.prems no_tag [of d "\<lambda>v. to_json dt (serialize_value dt v)"]
    by (simp add: rbind_def comp_def case_prod_unfold)
qed (simp_all add: tagged_def iso_round_trip)

lemma state_round_trip:
  assumes "list_all (\<lambda>(k, v). storable v) st"
  shows "deserialize_state dt (serialize_state dt st) = Inr st"
proof -
  have "deserialize_items dt (map (\<lambda>(k, v). (k, to_json dt (serialize_value dt v))) st) = Inr st"
    using assms by (intro items_round_trip) (auto simp: list_all_iff value_round_trip)
  then show ?thesis by (simp add: serialize_state_def deserialize_state_def rbind_def comp_def case_prod_unfold)
qed

end

subsection \<open>Activities\<close>

lemma restore_append: "restore_activity dt (xs @ [(k, v)]) =
    (case deserialize_datetime dt v of Some d \<Rightarrow> AList.update k (SDate d) (restore_activity dt xs) | None \<Rightarrow> restore_activity dt xs)"
  by (simp add: restore_activity_def split: option.split)

lemma fst_update: "fst ` set (AList.update k v al) = insert k (fst ` set al)"
  by (induction al) auto

lemma list_all_update: "list_all P al \<Longrightarrow> P (k, v) \<Longrightarrow> list_all P (AList.update k v al)"
  by (induction al) auto

lemma restore_dates: "list_all (\<lambda>(k, v). \<exists>d. v = SDate d) (restore_activity dt raw) \<and> fst ` set (restore_activity dt raw) \<subseteq> fst ` set raw"
proof (induction raw rule: rev_induct)
  case Nil
  then show ?case by (simp add: restore_activity_def)
next
  case (snoc x raw)
  obtain k v where x: "x = (k, v)" by (cases x)
  then show ?case using snoc
    by (auto simp: restore_append fst_update list_all_update split: option.splits)
qed

lemma restore_of_dates: "list_all (\<lambda>(k, v). \<exists>d. v = SDate d) raw \<Longrightarrow> restore_activity dt raw = []"
proof (induction raw rule: rev_induct)
  case (snoc x raw)
  then show ?case by (cases x) (auto simp: restore_append deserialize_datetime_def)
qed (simp add: restore_activity_def)

lemma restore_storable:
  assumes "storable (SDict raw)"
  shows "storable (SDict (restore_activity dt raw))"
proof -
  have "list_all (\<lambda>(k, v). storable v) (restore_activity dt raw)"
    using conjunct1 [OF restore_dates, of dt raw] by (auto simp: list_all_iff)
  then show ?thesis using assms conjunct2 [OF restore_dates, of dt raw] by auto
qed

lemma supdate_simps [simp]: "supdate d [] = d" "supdate d ((k, v) # e) = supdate (AList.update k v d) e"
  by (simp_all add: supdate_def)

lemma list_all_supdate: "list_all P d \<Longrightarrow> list_all P e \<Longrightarrow> list_all P (supdate d e)"
  by (induction e arbitrary: d) (auto simp: list_all_update)

subsection \<open>A session in Redis\<close>

definition is_dict :: "'d sval option \<Rightarrow> bool" where
  "is_dict v \<longleftrightarrow> (\<exists>d. v = Some (SDict d))"

text \<open>A well-typed document: every value comes back as it was, and the activities are a dictionary.\<close>

definition session_doc :: "'d sdict \<Rightarrow> bool" where
  "session_doc st \<longleftrightarrow> list_all (\<lambda>(k, v). storable v) st \<and> is_dict (map_of st ''last_activity'')"

definition holds :: "'d datetimes \<Rightarrow> rview \<Rightarrow> string \<Rightarrow> string \<Rightarrow> 'd sdict \<Rightarrow> bool" where
  "holds dt vw u c st \<longleftrightarrow> str_at vw (ss_build_key u c) = Some (serialize_state dt st) \<and> session_doc st"

text \<open>What \<open>load_session_state\<close> makes of a document.\<close>

definition loaded :: "'d datetimes \<Rightarrow> 'd sdict \<Rightarrow> 'd sdict" where
  "loaded dt st = (case map_of st ''last_activity'' of
     Some (SDict raw) \<Rightarrow> AList.update ''last_activity'' (SDict (restore_activity dt raw)) st | _ \<Rightarrow> st)"

lemma session_doc_update:
  "session_doc st \<Longrightarrow> storable v \<Longrightarrow> k = ''last_activity'' \<longrightarrow> is_dict (Some v) \<Longrightarrow> session_doc (AList.update k v st)"
  by (auto simp: session_doc_def list_all_update update_conv is_dict_def)

lemma session_doc_supdate:
  "session_doc st \<Longrightarrow> list_all (\<lambda>(k, v). storable v \<and> (k = ''last_activity'' \<longrightarrow> is_dict (Some v))) ups \<Longrightarrow> session_doc (supdate st ups)"
  by (induction ups arbitrary: st) (auto simp: session_doc_update)

lemma loaded_doc:
  assumes "session_doc st"
  obtains raw where "map_of st ''last_activity'' = Some (SDict raw)" "storable (SDict raw)"
    "loaded dt st = AList.update ''last_activity'' (SDict (restore_activity dt raw)) st" "session_doc (loaded dt st)"
proof -
  obtain raw where raw: "map_of st ''last_activity'' = Some (SDict raw)" using assms by (auto simp: session_doc_def is_dict_def)
  then have st: "storable (SDict raw)" using assms map_of_SomeD [OF raw]
    by (fastforce simp: session_doc_def list_all_iff simp del: storable.simps)
  have l: "loaded dt st = AList.update ''last_activity'' (SDict (restore_activity dt raw)) st" using raw by (simp add: loaded_def)
  have "session_doc (loaded dt st)"
    unfolding l by (rule session_doc_update [OF assms restore_storable [OF st]]) (simp add: is_dict_def)
  then show thesis using that raw st l by blast
qed

lemma loaded_other: "k \<noteq> ''last_activity'' \<Longrightarrow> map_of (loaded dt st) k = map_of st k"
  by (simp add: loaded_def update_conv split: option.splits sval.splits)

locale session_store = redis_up rc view tick + iso_datetimes dt
  for rc :: "'s redis" and view :: "'s \<Rightarrow> rview" and tick :: "nat \<Rightarrow> 's \<Rightarrow> 's" and dt :: "'d datetimes"
begin

lemma load_up:
  assumes "holds dt (view s) u c st"
  obtains s' where "load_session_state rc dt u c s = (Some (loaded dt st), s')" "view s' = view s"
proof -
  have at: "str_at (view s) (ss_build_key u c) = Some (serialize_state dt st)" and doc: "session_doc st"
    using assms by (auto simp: holds_def)
  have "str_key (view s) (ss_build_key u c)" using at by (auto simp: str_at_def str_key_def split: option.splits rvalue.splits)
  then obtain s' where 1: "r_get rc (ss_build_key u c) s = (Inr (Some (serialize_state dt st)), s')" "view s' = view s"
    using get_up at by metis
  obtain raw where raw: "map_of st ''last_activity'' = Some (SDict raw)"
    "loaded dt st = AList.update ''last_activity'' (SDict (restore_activity dt raw)) st" using loaded_doc [OF doc] by metis
  have "deserialize_state dt (serialize_state dt st) = Inr st" using state_round_trip doc by (simp add: session_doc_def)
  moreover have "serialize_state dt st \<noteq> Raw []" by (simp add: serialize_state_def json_dumps_def)
  ultimately show thesis using that [of s'] 1 raw by (simp add: load_session_state_def seq_defs)
qed

lemma update_up:
  assumes "holds dt (view s) u c st"
    and "list_all (\<lambda>(k, v). storable v \<and> (k = ''last_activity'' \<longrightarrow> is_dict (Some v))) ups"
  obtains s' where "update_session_state rc dt u c ups ext now s = (True, s')"
    "view s' = (view s)(ss_build_key u c \<mapsto> (VStr (serialize_state dt (AList.update ''updated_at'' (SStr now) (supdate (loaded dt st) ups))),
       if ext then Some SESSION_TTL else None))"
    "holds dt (view s') u c (AList.update ''updated_at'' (SStr now) (supdate (loaded dt st) ups))"
proof -
  let ?n = "AList.update ''updated_at'' (SStr now) (supdate (loaded dt st) ups)"
  obtain s1 where 1: "load_session_state rc dt u c s = (Some (loaded dt st), s1)" "view s1 = view s" by (rule load_up [OF assms(1)])
  have "session_doc (loaded dt st)" using assms(1) loaded_doc unfolding holds_def by metis
  then have doc: "session_doc ?n" by (intro session_doc_update session_doc_supdate assms(2)) simp_all
  have ttl: "0 < SESSION_TTL" by (simp add: SESSION_TTL_def)
  obtain s2 where 2: "r_setex rc (ss_build_key u c) SESSION_TTL (serialize_state dt ?n) s1 = (Inr (), s2)"
    "view s2 = (view s1)(ss_build_key u c \<mapsto> (VStr (serialize_state dt ?n), Some SESSION_TTL))" by (rule setex_up [OF ttl])
  obtain s3 where 3: "r_set rc (ss_build_key u c) (serialize_state dt ?n) s1 = (Inr (), s3)"
    "view s3 = (view s1)(ss_build_key u c \<mapsto> (VStr (serialize_state dt ?n), None))" by (rule set_up)
  show thesis
    by (rule that [of "if ext then s2 else s3"])
      (use 1 2 3 doc in \<open>simp_all add: update_session_state_def Let_def seq_defs holds_def str_at_def\<close>)
qed

end

subsection \<open>Tabs\<close>

datatype tab_op = Enter string string | Leave string

primrec run_tab :: "'s redis \<Rightarrow> 'd datetimes \<Rightarrow> string \<Rightarrow> string \<Rightarrow> string \<Rightarrow> tab_op \<Rightarrow> 's \<Rightarrow> 's" where
  "run_tab rc dt u c now (Enter sid th) s = snd (update_presence_multi_tab rc dt u c sid th now s)"
| "run_tab rc dt u c now (Leave sid) s = snd (remove_tab_presence rc dt u c sid now s)"

definition run_tabs :: "'s redis \<Rightarrow> 'd datetimes \<Rightarrow> string \<Rightarrow> string \<Rightarrow> string \<Rightarrow> tab_op list \<Rightarrow> 's \<Rightarrow> 's" where
  "run_tabs rc dt u c now ops s = fold (run_tab rc dt u c now) ops s"

text \<open>The abstract state: the open tabs with the thread each shows.\<close>

type_synonym tabs = "(string \<times> string) list"

primrec tab_step :: "tab_op \<Rightarrow> tabs \<Rightarrow> tabs" where
  "tab_step (Enter sid th) ts = AList.update sid th ts"
| "tab_step (Leave sid) ts = AList.delete sid ts"

definition tab_ok :: "tab_op \<Rightarrow> bool" where
  "tab_ok x \<longleftrightarrow> (case x of Enter sid th \<Rightarrow> sid \<noteq> ''__type__'' | Leave sid \<Rightarrow> True)"

definition tab_dict :: "tabs \<Rightarrow> 'd sdict" where
  "tab_dict ts = map (\<lambda>(sid, th). (sid, SStr th)) ts"

definition tabs_rel :: "'d datetimes \<Rightarrow> rview \<Rightarrow> string \<Rightarrow> string \<Rightarrow> tabs \<Rightarrow> bool" where
  "tabs_rel dt vw u c ts \<longleftrightarrow> (\<exists>st. holds dt vw u c st \<and> sget_or st ''active_threads_by_session'' (SDict []) = SDict (tab_dict ts) \<and>
     ''__type__'' \<notin> fst ` set ts \<and> (ts = [] \<longrightarrow> \<not> s_truthy (sget_or st ''is_on_chat_page'' (SBool False))))"

lemma tab_dict_update: "AList.update sid (SStr th) (tab_dict ts) = tab_dict (AList.update sid th ts)"
  by (induction ts) (auto simp: tab_dict_def)

lemma tab_dict_delete: "AList.delete sid (tab_dict ts) = tab_dict (AList.delete sid ts)"
  by (induction ts) (auto simp: tab_dict_def)

lemma tab_dict_storable: "''__type__'' \<notin> fst ` set ts \<Longrightarrow> storable (SDict (tab_dict ts))"
  by (auto simp: tab_dict_def list_all_iff image_iff)

lemma sget_or_loaded: "k \<noteq> ''last_activity'' \<Longrightarrow> sget_or (loaded dt st) k v = sget_or st k v"
  by (simp add: sget_or_def loaded_other)

lemma sget_or_update: "sget_or (AList.update k v st) k' w = (if k' = k then v else sget_or st k' w)"
  by (simp add: sget_or_def update_conv)

lemma sget_update: "sget (AList.update k v st) k' = (if k' = k then v else sget st k')"
  by (simp add: sget_def update_conv)

lemma fst_delete_sub: "fst ` set (AList.delete k al) \<subseteq> fst ` set al"
  by (induction al) auto

context session_store
begin

lemma tab_up:
  assumes st: "holds dt (view s) u c st" "sget_or st ''active_threads_by_session'' (SDict []) = SDict (tab_dict ts)"
    "''__type__'' \<notin> fst ` set ts" and ok: "tab_ok x"
  shows "tabs_rel dt (view (run_tab rc dt u c now x s)) u c (tab_step x ts)"
proof -
  obtain s1 where 1: "load_session_state rc dt u c s = (Some (loaded dt st), s1)" "view s1 = view s" by (rule load_up [OF st(1)])
  have h1: "holds dt (view s1) u c st" using st(1) 1(2) by simp
  show ?thesis
  proof (cases x)
    case (Enter sid th)
    let ?ups = "[(''active_threads_by_session'', SDict (tab_dict (AList.update sid th ts))),
                 (''is_on_chat_page'', SBool True), (''current_active_thread'', SStr th)] :: 'd sdict"
    have t: "''__type__'' \<notin> fst ` set (AList.update sid th ts)" using st(3) ok Enter by (auto simp: fst_update tab_ok_def)
    have okk: "list_all (\<lambda>(k, v). storable v \<and> (k = ''last_activity'' \<longrightarrow> is_dict (Some v))) ?ups" using tab_dict_storable [OF t] by simp
    obtain s2 where 2: "update_session_state rc dt u c ?ups True now s1 = (True, s2)"
      "holds dt (view s2) u c (AList.update ''updated_at'' (SStr now) (supdate (loaded dt st) ?ups))" by (rule update_up [OF h1 okk])
    have "run_tab rc dt u c now x s = s2"
      using Enter 1 2(1) st(2) by (simp add: update_presence_multi_tab_def sget_or_loaded tab_dict_update)
    moreover have "AList.update sid th ts \<noteq> []" by (cases ts) auto
    ultimately show ?thesis using 2(2) t Enter unfolding tabs_rel_def
      by (intro exI [of _ "AList.update ''updated_at'' (SStr now) (supdate (loaded dt st) ?ups)"]) (simp add: sget_or_update)
  next
    case (Leave sid)
    let ?ts = "AList.delete sid ts"
    let ?ups = "[(''active_threads_by_session'', SDict (tab_dict ?ts)), (''is_on_chat_page'', SBool (tab_dict ?ts \<noteq> ([] :: 'd sdict)))] @
                (if tab_dict ?ts = ([] :: 'd sdict) then [(''current_active_thread'', SNone)] else []) :: 'd sdict"
    have t: "''__type__'' \<notin> fst ` set ?ts" using st(3) fst_delete_sub [of sid ts] by blast
    have "storable (SDict (tab_dict ?ts) :: 'd sval)" by (rule tab_dict_storable [OF t])
    then have okk: "list_all (\<lambda>(k, v). storable v \<and> (k = ''last_activity'' \<longrightarrow> is_dict (Some v))) ?ups" by auto
    obtain s2 where 2: "update_session_state rc dt u c ?ups True now s1 = (True, s2)"
      "holds dt (view s2) u c (AList.update ''updated_at'' (SStr now) (supdate (loaded dt st) ?ups))" by (rule update_up [OF h1 okk])
    have "run_tab rc dt u c now x s = s2"
      using Leave 1 2(1) st(2) by (simp add: remove_tab_presence_def sget_or_loaded tab_dict_delete Let_def del: supdate_simps)
    moreover have "tab_dict ?ts = ([] :: 'd sdict) \<longleftrightarrow> ?ts = []" by (simp add: tab_dict_def)
    ultimately show ?thesis using 2(2) t Leave unfolding tabs_rel_def
      by (intro exI [of _ "AList.update ''updated_at'' (SStr now) (supdate (loaded dt st) ?ups)"]) (auto simp: sget_or_update)
  qed
qed

lemma tab_refines:
  assumes "tabs_rel dt (view s) u c ts" and "tab_ok x"
  shows "tabs_rel dt (view (run_tab rc dt u c now x s)) u c (tab_step x ts)"
  using assms tab_up unfolding tabs_rel_def [of dt "view s"] by blast

lemma tabs_refine:
  "tabs_rel dt (view s) u c ts \<Longrightarrow> list_all tab_ok ops \<Longrightarrow>
   tabs_rel dt (view (run_tabs rc dt u c now ops s)) u c (fold tab_step ops ts)"
  by (induction ops arbitrary: s ts) (simp_all add: run_tabs_def tab_refines)

lemma tabs_queries:
  assumes "tabs_rel dt (view s) u c ts"
  shows "fst (is_user_on_thread_multi_tab rc dt u c th s) \<longleftrightarrow> th \<in> snd ` set ts"
    and "fst (get_active_tabs_for_thread rc dt u c th s) = map fst (filter (\<lambda>p. snd p = th) ts)"
proof -
  obtain st where st: "holds dt (view s) u c st" "sget_or st ''active_threads_by_session'' (SDict []) = SDict (tab_dict ts)"
    "ts = [] \<longrightarrow> \<not> s_truthy (sget_or st ''is_on_chat_page'' (SBool False))" using assms by (auto simp: tabs_rel_def)
  obtain s1 where 1: "load_session_state rc dt u c s = (Some (loaded dt st), s1)" by (rule load_up [OF st(1)])
  have "session_doc (loaded dt st)" using st(1) loaded_doc unfolding holds_def by metis
  then have n: "loaded dt st \<noteq> []" by (auto simp: session_doc_def is_dict_def)
  have e: "tab_dict ts = ([] :: 'd sdict) \<longleftrightarrow> ts = []" by (simp add: tab_dict_def)
  have m: "(SStr th :: 'd sval) \<in> set (map snd (tab_dict ts :: 'd sdict)) \<longleftrightarrow> th \<in> snd ` set ts" by (force simp: tab_dict_def)
  show "fst (is_user_on_thread_multi_tab rc dt u c th s) \<longleftrightarrow> th \<in> snd ` set ts"
    using 1 st(2,3) n m e by (simp add: is_user_on_thread_multi_tab_def sget_or_loaded Let_def on_current_thread_def)
  have "map fst (filter (\<lambda>(sid, t). t = (SStr th :: 'd sval)) (tab_dict ts)) = map fst (filter (\<lambda>p. snd p = th) ts)"
    by (induction ts) (auto simp: tab_dict_def)
  then show "fst (get_active_tabs_for_thread rc dt u c th s) = map fst (filter (\<lambda>p. snd p = th) ts)"
    using 1 st(2) by (simp add: get_active_tabs_for_thread_def sget_or_loaded)
qed

end

subsection \<open>Activities of a saved session\<close>

context iso_datetimes
begin

lemma restore_saved:
  "distinct (map fst acts) \<Longrightarrow> list_all (\<lambda>(k, v). \<exists>d. v = SDate d) acts \<Longrightarrow>
   restore_activity dt (map (\<lambda>(k, v). (k, SStr (serialize_datetime dt v))) acts) = acts"
proof (induction acts rule: rev_induct)
  case (snoc x acts)
  obtain k d where x: "x = (k, SDate d)" using snoc.prems by (cases x) auto
  have "AList.update k (SDate d) acts = acts @ [(k, SDate d)]"
    using snoc.prems(1) x by (induction acts) auto
  then show ?case
    using snoc x by (simp add: restore_append serialize_datetime_def deserialize_datetime_def iso_round_trip iso_nonempty)
qed (simp add: restore_activity_def)

end

subsection \<open>All updates\<close>

datatype 'd session_op =
    Update "'d sdict" bool
  | Presence bool "'d sval"
  | Tab tab_op
  | Activity string 'd
  | Jobs "'d sval" "'d sval"

primrec run_session :: "'s redis \<Rightarrow> 'd datetimes \<Rightarrow> string \<Rightarrow> string \<Rightarrow> string \<Rightarrow> 'd session_op \<Rightarrow> 's \<Rightarrow> 's" where
  "run_session rc dt u c now (Update ups ext) s = snd (update_session_state rc dt u c ups ext now s)"
| "run_session rc dt u c now (Presence b th) s = snd (update_presence rc dt u c b th now s)"
| "run_session rc dt u c now (Tab x) s = run_tab rc dt u c now x s"
| "run_session rc dt u c now (Activity th d) s = snd (update_thread_activity rc dt u c th d now s)"
| "run_session rc dt u c now (Jobs j m) s = snd (update_jobs_data rc dt u c j m now s)"

text \<open>The arguments are values the document keeps, and nobody stores the tab dictionary but the tab operations.\<close>

primrec op_typed :: "'d session_op \<Rightarrow> bool" where
  "op_typed (Update ups ext) = list_all (\<lambda>(k, v). storable v \<and> (k = ''last_activity'' \<longrightarrow> is_dict (Some v)) \<and>
      k \<noteq> ''active_threads_by_session'') ups"
| "op_typed (Presence b th) = storable th"
| "op_typed (Tab x) = tab_ok x"
| "op_typed (Activity th d) = (th \<noteq> ''__type__'')"
| "op_typed (Jobs j m) = (storable j \<and> storable m)"

definition typed_session :: "'d datetimes \<Rightarrow> rview \<Rightarrow> string \<Rightarrow> string \<Rightarrow> bool" where
  "typed_session dt vw u c \<longleftrightarrow> (\<exists>st tabs. holds dt vw u c st \<and> sget_or st ''active_threads_by_session'' (SDict []) = SDict (tab_dict tabs) \<and>
     ''__type__'' \<notin> fst ` set tabs)"

lemma supdate_other: "k \<notin> fst ` set ups \<Longrightarrow> sget_or (supdate st ups) k v = sget_or st k v"
  by (induction ups arbitrary: st) (auto simp: sget_or_update)

context session_store
begin

lemma update_typed:
  assumes "holds dt (view s) u c st" and "sget_or st ''active_threads_by_session'' (SDict []) = SDict (tab_dict tabs)"
    and "''__type__'' \<notin> fst ` set tabs" and "op_typed (Update ups ext)"
  shows "fst (update_session_state rc dt u c ups ext now s) \<and> typed_session dt (view (snd (update_session_state rc dt u c ups ext now s))) u c"
proof -
  have ok: "list_all (\<lambda>(k, v). storable v \<and> (k = ''last_activity'' \<longrightarrow> is_dict (Some v))) ups"
    using assms(4) by (auto simp: list_all_iff)
  obtain s' where 1: "update_session_state rc dt u c ups ext now s = (True, s')"
    "holds dt (view s') u c (AList.update ''updated_at'' (SStr now) (supdate (loaded dt st) ups))" by (rule update_up [OF assms(1) ok])
  have "''active_threads_by_session'' \<notin> fst ` set ups" using assms(4) by (auto simp: list_all_iff)
  then have "sget_or (AList.update ''updated_at'' (SStr now) (supdate (loaded dt st) ups)) ''active_threads_by_session'' (SDict []) =
      SDict (tab_dict tabs)" using assms(2) by (simp add: sget_or_update supdate_other sget_or_loaded)
  then show ?thesis using 1 assms(3) unfolding typed_session_def by auto
qed

lemma activity_up:
  assumes "holds dt (view s) u c st" and "th \<noteq> ''__type__''"
  obtains s1 raw where "map_of st ''last_activity'' = Some (SDict raw)" "view s1 = view s"
    "update_thread_activity rc dt u c th d now s = (case update_session_state rc dt u c
       [(''last_activity'', SDict (AList.update th (SDate d) (restore_activity dt raw)))] True now s1 of (ok, s2) \<Rightarrow> (Inr ok, s2))"
    "storable (SDict (AList.update th (SDate d) (restore_activity dt raw)))"
proof -
  obtain s1 where 1: "load_session_state rc dt u c s = (Some (loaded dt st), s1)" "view s1 = view s" by (rule load_up [OF assms(1)])
  obtain raw where raw: "map_of st ''last_activity'' = Some (SDict raw)" "storable (SDict raw)"
    "loaded dt st = AList.update ''last_activity'' (SDict (restore_activity dt raw)) st"
    using assms(1) loaded_doc unfolding holds_def by metis
  have "storable (SDict (AList.update th (SDate d) (restore_activity dt raw)))"
    using restore_storable [OF raw(2), of dt] assms(2) by (simp add: fst_update list_all_update)
  then show thesis using that [OF raw(1) 1(2)] 1(1) raw(3) by (simp add: update_thread_activity_def sget_or_update)
qed

lemma run_session_typed:
  assumes "typed_session dt (view s) u c" and "op_typed x"
  shows "typed_session dt (view (run_session rc dt u c now x s)) u c"
proof -
  obtain st tabs where st: "holds dt (view s) u c st" "sget_or st ''active_threads_by_session'' (SDict []) = SDict (tab_dict tabs)"
    "''__type__'' \<notin> fst ` set tabs" using assms(1) by (auto simp: typed_session_def)
  note upd = update_typed [OF st]
  show ?thesis
  proof (cases x)
    case (Update ups ext)
    then show ?thesis using upd [of ups ext now] assms(2) by simp
  next
    case (Presence b th)
    then show ?thesis using upd [of "[(''is_on_chat_page'', SBool b), (''current_active_thread'', th)]" True now] assms(2)
      by (simp add: update_presence_def)
  next
    case (Jobs j m)
    then show ?thesis using upd [of "[(''jobs_data'', j), (''jobs_metrics'', m)]" True now] assms(2)
      by (simp add: update_jobs_data_def)
  next
    case (Activity th d)
    then have th: "th \<noteq> ''__type__''" using assms(2) by simp
    obtain s1 raw where a: "view s1 = view s"
      "update_thread_activity rc dt u c th d now s = (case update_session_state rc dt u c
         [(''last_activity'', SDict (AList.update th (SDate d) (restore_activity dt raw)))] True now s1 of (ok, s2) \<Rightarrow> (Inr ok, s2))"
      "storable (SDict (AList.update th (SDate d) (restore_activity dt raw)))" by (rule activity_up [OF st(1) th])
    have h1: "holds dt (view s1) u c st" using st(1) a(1) by simp
    have "op_typed (Update [(''last_activity'', SDict (AList.update th (SDate d) (restore_activity dt raw)))] True)"
      using a(3) by (simp add: is_dict_def del: storable.simps)
    from update_typed [OF h1 st(2,3) this, of now] show ?thesis using Activity a(2) by (simp add: case_prod_unfold)
  next
    case (Tab t)
    then have "tabs_rel dt (view (run_tab rc dt u c now t s)) u c (tab_step t tabs)" using tab_up [OF st] assms(2) by simp
    then show ?thesis using Tab by (auto simp: tabs_rel_def typed_session_def)
  qed
qed

end

context session_store
begin

lemma run_sessions_typed:
  "typed_session dt (view s) u c \<Longrightarrow> list_all op_typed ops \<Longrightarrow> typed_session dt (view (fold (run_session rc dt u c now) ops s)) u c"
  by (induction ops arbitrary: s) (simp_all add: run_session_typed)

lemma save_up:
  assumes "session_document dt a now = Inr doc" and "session_doc doc"
  obtains s' where "save_session_state rc dt u c a ttl now s = (True, s')"
    "view s' = (view s)(ss_build_key u c \<mapsto> (VStr (serialize_state dt doc), Some (case ttl of Some t \<Rightarrow> if t = 0 then SESSION_TTL else t | None \<Rightarrow> SESSION_TTL)))"
proof -
  let ?t = "case ttl of Some t \<Rightarrow> if t = 0 then SESSION_TTL else t | None \<Rightarrow> SESSION_TTL"
  have t: "0 < ?t" by (simp add: SESSION_TTL_def split: option.split)
  obtain s' where "r_setex rc (ss_build_key u c) ?t (serialize_state dt doc) s = (Inr (), s')"
    "view s' = (view s)(ss_build_key u c \<mapsto> (VStr (serialize_state dt doc), Some ?t))" by (rule setex_up [OF t])
  then show thesis using that [of s'] assms by (simp add: save_session_state_def Let_def seq_defs)
qed

end

lemma session_doc_document:
  assumes "session_document dt a now = Inr doc" and "list_all (\<lambda>(k, v). storable v) doc"
  shows "session_doc doc"
  using assms by (auto simp: session_doc_def session_document_def rbind_def is_dict_def split: sum.splits if_splits)

text \<open>A concrete datetime for examples: the text itself.\<close>

definition demo_dates :: "string datetimes" where
  "demo_dates = \<lparr>isoformat = (\<lambda>d. ''T'' @ d), fromisoformat = (\<lambda>t. case t of c # d \<Rightarrow> if c = CHR ''T'' then Some d else None | [] \<Rightarrow> None),
     str_other = (\<lambda>_. ''?'')\<rparr>"

interpretation demo_dates: iso_datetimes demo_dates
  by unfold_locales (simp_all add: demo_dates_def)

interpretation demo_store: session_store mem_redis mem_view mem_tick demo_dates
  by unfold_locales

lemma demo_session_store: "session_store mem_redis mem_view mem_tick demo_dates"
  by unfold_locales

definition demo_args :: "string session_args" where
  "demo_args = \<lparr>user_context = SDict [(''mandate'', SStr ''m'')], jobs_data = SNone, jobs_metrics = SNone, is_on_chat_page = False,
     current_active_thread = SNone, thread_states = SNone, active_tasks = SNone, last_activity = SDict [(''t1'', SDate ''9'')],
     thread_contexts = SNone, active_threads = SList [SStr ''t1'']\<rparr>"

definition demo_doc :: "string sdict" where
  "demo_doc = [(''user_context'', SDict [(''mandate'', SStr ''m'')]), (''jobs_data'', SDict []), (''jobs_metrics'', SDict []),
     (''is_on_chat_page'', SBool False), (''current_active_thread'', SNone), (''thread_states'', SDict []), (''active_tasks'', SDict []),
     (''last_activity'', SDict [(''t1'', SStr ''T9'')]), (''thread_contexts'', SDict []), (''active_threads'', SList [SStr ''t1'']),
     (''updated_at'', SStr ''now''), (''version'', SStr ''1.0'')]"

lemma demo_document: "session_document demo_dates demo_args ''now'' = Inr demo_doc"
  by (simp add: session_document_def demo_args_def demo_doc_def s_or_def rbind_def serialize_datetime_def demo_dates_def)

lemma demo_doc_storable: "list_all (\<lambda>(k, v). storable v) demo_doc"
  by (simp add: demo_doc_def)

definition demo_saved :: mem where
  "demo_saved = snd (save_session_state mem_redis demo_dates ''u'' ''c'' demo_args None ''now'' empty_mem)"

lemma demo_session_view: "mem_view demo_saved = (mem_view empty_mem)(ss_build_key ''u'' ''c'' \<mapsto> (VStr (serialize_state demo_dates demo_doc), Some SESSION_TTL))"
proof -
  obtain s' where "save_session_state mem_redis demo_dates ''u'' ''c'' demo_args None ''now'' empty_mem = (True, s')"
    "mem_view s' = (mem_view empty_mem)(ss_build_key ''u'' ''c'' \<mapsto>
      (VStr (serialize_state demo_dates demo_doc), Some (case None of Some t \<Rightarrow> if t = 0 then SESSION_TTL else t | None \<Rightarrow> SESSION_TTL)))"
    by (rule demo_store.save_up [OF demo_document session_doc_document [OF demo_document demo_doc_storable]])
  then show ?thesis by (simp add: demo_saved_def)
qed

lemma demo_holds: "holds demo_dates (mem_view demo_saved) ''u'' ''c'' demo_doc"
  using session_doc_document [OF demo_document demo_doc_storable] by (simp add: holds_def demo_session_view str_at_def)

section \<open>Properties\<close>

text \<open>A session survives the round trip through Redis: until its time to live ends, what
  \<open>save_session_state\<close> stored is what \<open>load_session_state\<close> returns, field by field, the activities as the
  same datetimes. The values hold no tuple, no dictionary with the key of the tag, and sets of simple values.\<close>

theorem session_round_trip:
  assumes "session_store rc view tick dt" and "session_document dt a now = Inr doc" and "list_all (\<lambda>(k, v). storable v) doc"
    and "last_activity a = SDict acts" and "distinct (map fst acts)" and "list_all (\<lambda>(k, v). \<exists>d. v = SDate d) acts"
    and "save_session_state rc dt u c a (Some ttl) now s = (ok, s')" and "n < ttl"
  shows "ok \<and> (\<exists>st. fst (load_session_state rc dt u c (tick n s')) = Some st \<and>
    map_of st ''last_activity'' = Some (SDict acts) \<and> (\<forall>k. k \<noteq> ''last_activity'' \<longrightarrow> map_of st k = map_of doc k))"
proof -
  note store = assms(1) [unfolded session_store_def]
  note doc = session_doc_document [OF assms(2,3)]
  obtain s1 where 1: "save_session_state rc dt u c a (Some ttl) now s = (True, s1)"
    "view s1 = (view s)(ss_build_key u c \<mapsto> (VStr (serialize_state dt doc), Some (case Some ttl of Some t \<Rightarrow> if t = 0 then SESSION_TTL else t | None \<Rightarrow> SESSION_TTL)))"
    by (rule session_store.save_up [OF assms(1,2) doc])
  have s': "s' = s1" "ok" using 1 assms(7) by auto
  have "view (tick n s1) (ss_build_key u c) = Some (VStr (serialize_state dt doc), Some (ttl - n))"
    using redis_server.tick_law [OF redis_up.axioms(1) [OF conjunct1 [OF store]]] 1(2) assms(8) by (simp add: age_def)
  then have h: "holds dt (view (tick n s1)) u c doc" using doc by (simp add: holds_def str_at_def)
  obtain s2 where 2: "load_session_state rc dt u c (tick n s1) = (Some (loaded dt doc), s2)" by (rule session_store.load_up [OF assms(1) h])
  have raw: "map_of doc ''last_activity'' = Some (SDict (map (\<lambda>(k, v). (k, SStr (serialize_datetime dt v))) acts))"
    using assms(2,4) by (cases acts) (auto simp: session_document_def rbind_def)
  have "map_of (loaded dt doc) ''last_activity'' = Some (SDict acts)"
    using raw iso_datetimes.restore_saved [OF _ assms(5,6), of dt] store by (simp add: loaded_def update_conv)
  then show ?thesis using s' 2 loaded_other by (auto intro!: exI [of _ "loaded dt doc"])
qed

theorem session_round_trip_witness:
  "\<exists>st. fst (load_session_state mem_redis demo_dates ''u'' ''c''
       (mem_tick 10 (snd (save_session_state mem_redis demo_dates ''u'' ''c'' demo_args (Some 60) ''now'' empty_mem)))) = Some st \<and>
     map_of st ''last_activity'' = Some (SDict [(''t1'', SDate ''9'')]) \<and> map_of st ''user_context'' = Some (SDict [(''mandate'', SStr ''m'')])"
proof -
  obtain ok s' where r: "save_session_state mem_redis demo_dates ''u'' ''c'' demo_args (Some 60) ''now'' empty_mem = (ok, s')" by fastforce
  have a: "last_activity demo_args = SDict [(''t1'', SDate ''9'')]" by (simp add: demo_args_def)
  from session_round_trip [OF demo_session_store demo_document demo_doc_storable a _ _ r, of 10] show ?thesis
    using r by (auto simp: demo_doc_def)
qed

text \<open>C33: The tabs of a browser: after any sequence of tabs entering threads and leaving, a thread counts as
  shown exactly when some open tab shows it, and the tabs reported for it are those that do.\<close>

theorem presence_follows_tabs:
  assumes "session_store rc view tick dt" and "tabs_rel dt (view s) u c ts" and "list_all tab_ok ops"
  shows "let s' = run_tabs rc dt u c now ops s; open_tabs = fold tab_step ops ts in
    (fst (is_user_on_thread_multi_tab rc dt u c th s') \<longleftrightarrow> th \<in> snd ` set open_tabs) \<and>
    fst (get_active_tabs_for_thread rc dt u c th s') = map fst (filter (\<lambda>p. snd p = th) open_tabs)"
  using session_store.tabs_queries [OF assms(1) session_store.tabs_refine [OF assms]] by (simp add: Let_def)

theorem presence_follows_tabs_witness:
  "fst (is_user_on_thread_multi_tab mem_redis demo_dates ''u'' ''c'' ''t1''
     (run_tabs mem_redis demo_dates ''u'' ''c'' ''now'' [Enter ''a'' ''t1'', Enter ''b'' ''t2'', Leave ''b''] demo_saved))"
proof -
  have r: "tabs_rel demo_dates (mem_view demo_saved) ''u'' ''c'' []"
    using demo_holds unfolding tabs_rel_def by (intro exI [of _ demo_doc]) (simp add: demo_doc_def sget_or_def tab_dict_def)
  have ok: "list_all tab_ok [Enter ''a'' ''t1'', Enter ''b'' ''t2'', Leave ''b'']" by (simp add: tab_ok_def)
  from presence_follows_tabs [OF demo_session_store r ok, of "''now''" "''t1''"] show ?thesis by (simp add: Let_def)
qed

text \<open>C6: A session stays readable: after any sequence of updates with values the document keeps, the
  state can be loaded and is again well typed.\<close>

theorem session_stays_typed:
  assumes "session_store rc view tick dt" and "typed_session dt (view s) u c" and "list_all op_typed ops"
  shows "\<exists>st. fst (load_session_state rc dt u c (fold (run_session rc dt u c now) ops s)) = Some st \<and> session_doc st"
proof -
  obtain st where h: "holds dt (view (fold (run_session rc dt u c now) ops s)) u c st"
    using session_store.run_sessions_typed [OF assms] by (auto simp: typed_session_def)
  obtain s' where "load_session_state rc dt u c (fold (run_session rc dt u c now) ops s) = (Some (loaded dt st), s')"
    by (rule session_store.load_up [OF assms(1) h])
  moreover have "session_doc (loaded dt st)" using h loaded_doc unfolding holds_def by metis
  ultimately show ?thesis by simp
qed

theorem session_stays_typed_witness:
  "\<exists>st. fst (load_session_state mem_redis demo_dates ''u'' ''c''
     (fold (run_session mem_redis demo_dates ''u'' ''c'' ''now'') [Activity ''t1'' ''10'', Presence True (SStr ''t1''), Tab (Enter ''a'' ''t1'')] demo_saved)) = Some st \<and> session_doc st"
proof -
  have "typed_session demo_dates (mem_view demo_saved) ''u'' ''c''"
    using demo_holds unfolding typed_session_def by (intro exI [of _ demo_doc] exI [of _ "[]"]) (simp add: demo_doc_def sget_or_def tab_dict_def)
  moreover have "list_all op_typed ([Activity ''t1'' ''10'', Presence True (SStr ''t1''), Tab (Enter ''a'' ''t1'')] :: string session_op list)"
    by (simp add: tab_ok_def)
  ultimately show ?thesis by (rule session_stays_typed [OF demo_session_store])
qed

text \<open>Recorded activity is lost: \<open>update_thread_activity\<close> answers that it succeeded, but it stores a
  tagged datetime, which the conversion of \<open>load_session_state\<close> does not take, so the next load has no
  activity of any thread.\<close>

theorem recorded_activity_lost:
  assumes "session_store rc view tick dt" and "holds dt (view s) u c st" and "th \<noteq> ''__type__''"
    and "update_thread_activity rc dt u c th d now s = (r, s')"
  shows "r = Inr True \<and> (\<exists>st'. fst (load_session_state rc dt u c s') = Some st' \<and> map_of st' ''last_activity'' = Some (SDict []))"
proof -
  obtain s1 raw where a: "view s1 = view s"
    "update_thread_activity rc dt u c th d now s = (case update_session_state rc dt u c
       [(''last_activity'', SDict (AList.update th (SDate d) (restore_activity dt raw)))] True now s1 of (ok, s2) \<Rightarrow> (Inr ok, s2))"
    "storable (SDict (AList.update th (SDate d) (restore_activity dt raw)))"
    by (rule session_store.activity_up [OF assms(1-3)])
  let ?acts = "AList.update th (SDate d) (restore_activity dt raw)"
  have h1: "holds dt (view s1) u c st" using assms(2) a(1) by simp
  have ok: "list_all (\<lambda>(k, v). storable v \<and> (k = ''last_activity'' \<longrightarrow> is_dict (Some v))) [(''last_activity'', SDict ?acts)]"
    using a(3) by (simp add: is_dict_def del: storable.simps)
  let ?n = "AList.update ''updated_at'' (SStr now) (supdate (loaded dt st) [(''last_activity'', SDict ?acts)])"
  obtain s2 where 2: "update_session_state rc dt u c [(''last_activity'', SDict ?acts)] True now s1 = (True, s2)"
    "holds dt (view s2) u c ?n" by (rule session_store.update_up [OF assms(1) h1 ok])
  obtain s3 where 3: "load_session_state rc dt u c s2 = (Some (loaded dt ?n), s3)" by (rule session_store.load_up [OF assms(1) 2(2)])
  have "list_all (\<lambda>(k, v). \<exists>d. v = SDate d) ?acts" using restore_dates [of dt raw] by (simp add: list_all_update)
  then have "map_of (loaded dt ?n) ''last_activity'' = Some (SDict [])" by (simp add: loaded_def update_conv restore_of_dates)
  then show ?thesis using assms(4) a(2) 2(1) 3 by auto
qed

theorem recorded_activity_lost_witness:
  "\<exists>st. fst (load_session_state mem_redis demo_dates ''u'' ''c''
      (snd (update_thread_activity mem_redis demo_dates ''u'' ''c'' ''t1'' ''10'' ''now'' demo_saved))) = Some st \<and>
     map_of st ''last_activity'' = Some (SDict [])"
proof -
  obtain r s' where u: "update_thread_activity mem_redis demo_dates ''u'' ''c'' ''t1'' ''10'' ''now'' demo_saved = (r, s')" by fastforce
  from recorded_activity_lost [OF demo_session_store demo_holds _ u] show ?thesis using u by simp
qed

text \<open>The sessions of a user are listed exactly, however many calls the scan takes: the companies whose
  session key is live. User and company identifiers hold no colon and nothing with a meaning in a pattern.\<close>

theorem user_sessions_listed:
  assumes "redis_scan rc view tick sc todo rank" and "plain u" and "no_glob u"
    and "\<forall>k. view s k \<noteq> None \<and> starts_with (''session:'' @ u @ '':'') k \<longrightarrow> (\<exists>c. plain c \<and> k = ss_build_key u c)"
  shows "\<exists>cs s'. list_user_sessions sc u s = Some (cs, s') \<and> set cs = {c. plain c \<and> view s (ss_build_key u c) \<noteq> None}"
proof -
  let ?p = "''session:'' @ u @ '':*:state''"
  have pat: "?p = (''session:'' @ u @ '':'') @ CHR ''*'' # '':state''" by simp
  have sp: "star_pattern ?p" using no_glob_star(1) [OF assms(3)] by simp
  obtain ks s' where ks: "scan_all sc ?p 10 s = Some (Inr ks, s')" "set ks = {k. view s k \<noteq> None \<and> star_match ?p k}"
    using redis_scan.scan_all_ends [OF assms(1) sp] by blast
  have m: "star_match ?p k \<longleftrightarrow> (\<exists>x. k = (''session:'' @ u @ '':'') @ x @ '':state'')" for k
    unfolding pat by (rule star_match_middle) (use assms(3) in simp_all)
  have sw: "starts_with (''session:'' @ u @ '':'') ((''session:'' @ u @ '':'') @ x)" for x using starts_with_prefix by blast
  have parts: "split_on CHR '':'' (ss_build_key u c) = [''session'', u, c, ''state'']" if "plain c" for c
    using assms(2) that by (simp add: ss_build_key_def split_on_plain split_on_plain_append plain_def)
  have keys: "set ks = {ss_build_key u c |c. plain c \<and> view s (ss_build_key u c) \<noteq> None}"
  proof (intro equalityI subsetI)
    fix k assume "k \<in> set ks"
    then have "view s k \<noteq> None" "starts_with (''session:'' @ u @ '':'') k" using ks(2) m sw by auto
    then show "k \<in> {ss_build_key u c |c. plain c \<and> view s (ss_build_key u c) \<noteq> None}" using assms(4) by blast
  next
    fix k assume "k \<in> {ss_build_key u c |c. plain c \<and> view s (ss_build_key u c) \<noteq> None}"
    then obtain c where c: "k = ss_build_key u c" "view s k \<noteq> None" by blast
    have "k = (''session:'' @ u @ '':'') @ c @ '':state''" using c(1) by (simp add: ss_build_key_def)
    then show "k \<in> set ks" using ks(2) c(2) m by blast
  qed
  let ?f = "\<lambda>key. let parts = split_on CHR '':'' key in if 3 \<le> length parts then [parts ! 2] else []"
  have "list_user_sessions sc u s = Some (concat (map ?f ks), s')"
    using ks(1) by (simp add: list_user_sessions_def ostry_def osbind_def)
  moreover have "set (concat (map ?f ks)) = {c. plain c \<and> view s (ss_build_key u c) \<noteq> None}"
  proof -
    have "set (concat (map ?f ks)) = (\<Union>k \<in> set ks. set (?f k))" by simp
    also have "\<dots> = (\<Union>c \<in> {c. plain c \<and> view s (ss_build_key u c) \<noteq> None}. set (?f (ss_build_key u c)))" unfolding keys by blast
    also have "\<dots> = (\<Union>c \<in> {c. plain c \<and> view s (ss_build_key u c) \<noteq> None}. {c})" using parts by (simp add: Let_def)
    finally show ?thesis by simp
  qed
  ultimately show ?thesis by blast
qed

theorem user_sessions_listed_witness:
  "\<exists>cs s'. list_user_sessions mem_scan ''u'' demo_saved = Some (cs, s') \<and> ''c'' \<in> set cs"
proof -
  have e: "mem_view empty_mem k = None" for k by (simp add: mem_view_def empty_mem_def)
  have "\<forall>k. mem_view demo_saved k \<noteq> None \<and> starts_with (''session:'' @ ''u'' @ '':'') k \<longrightarrow> (\<exists>c. plain c \<and> k = ss_build_key ''u'' c)"
  proof (intro allI impI)
    fix k assume "mem_view demo_saved k \<noteq> None \<and> starts_with (''session:'' @ ''u'' @ '':'') k"
    then have "k = ss_build_key ''u'' ''c''" using e by (auto simp: demo_session_view split: if_splits)
    moreover have "plain ''c''" by (simp add: plain_def)
    ultimately show "\<exists>c. plain c \<and> k = ss_build_key ''u'' c" by blast
  qed
  then obtain cs s' where 1: "list_user_sessions mem_scan ''u'' demo_saved = Some (cs, s')"
    "set cs = {c. plain c \<and> mem_view demo_saved (ss_build_key ''u'' c) \<noteq> None}"
    using user_sessions_listed [OF mem_redis_scan, of "''u''" demo_saved] by (auto simp: plain_def)
  moreover have "plain ''c'' \<and> mem_view demo_saved (ss_build_key ''u'' ''c'') \<noteq> None" by (simp add: plain_def demo_session_view)
  ultimately show ?thesis by blast
qed

text \<open>Two tabs that enter at the same time lose one of them: tab \<open>a\<close> has read the open tabs when tab \<open>b\<close>
  enters, and writes back the tabs it has read; nothing shows the thread of \<open>b\<close> any more.\<close>

theorem concurrent_tabs_lose_presence:
  assumes "session_store rc view tick dt" and "tabs_rel dt (view s) u c ts" and "tab_ok (Enter a t1)" and "tab_ok (Enter b t2)"
    and "load_session_state rc dt u c s = (Some st, s1)" and "sget_or st ''active_threads_by_session'' (SDict []) = SDict tabs"
    and "s2 = run_tab rc dt u c now (Enter b t2) s1"
    and "update_session_state rc dt u c [(''active_threads_by_session'', SDict (AList.update a (SStr t1) tabs)),
           (''is_on_chat_page'', SBool True), (''current_active_thread'', SStr t1)] True now' s2 = (ok, s3)"
  shows "ok \<and> (fst (is_user_on_thread_multi_tab rc dt u c t2 s3) \<longleftrightarrow> t2 \<in> snd ` set (AList.update a t1 ts))"
proof -
  obtain st0 where st: "holds dt (view s) u c st0" "sget_or st0 ''active_threads_by_session'' (SDict []) = SDict (tab_dict ts)"
    "''__type__'' \<notin> fst ` set ts" using assms(2) by (auto simp: tabs_rel_def)
  obtain s1' where "load_session_state rc dt u c s = (Some (loaded dt st0), s1')" "view s1' = view s"
    by (rule session_store.load_up [OF assms(1) st(1)])
  then have l: "st = loaded dt st0" "view s1 = view s" using assms(5) by auto
  have "tabs = tab_dict ts" using assms(6) st(2) l(1) by (simp add: sget_or_loaded)
  then have tabs: "AList.update a (SStr t1) tabs = tab_dict (AList.update a t1 ts)" by (simp add: tab_dict_update)
  have t: "''__type__'' \<notin> fst ` set (AList.update a t1 ts)" using st(3) assms(3) by (auto simp: fst_update tab_ok_def)
  have h1: "holds dt (view s1) u c st0" using st(1) l(2) by simp
  obtain st2 where h2: "holds dt (view s2) u c st2"
    using session_store.tab_up [OF assms(1) h1 st(2,3) assms(4)] assms(7) by (auto simp: tabs_rel_def)
  let ?ups = "[(''active_threads_by_session'', SDict (tab_dict (AList.update a t1 ts))), (''is_on_chat_page'', SBool True), (''current_active_thread'', SStr t1)]"
  have okk: "list_all (\<lambda>(k, v). storable v \<and> (k = ''last_activity'' \<longrightarrow> is_dict (Some v))) ?ups" using tab_dict_storable [OF t] by simp
  obtain s' where 3: "update_session_state rc dt u c ?ups True now' s2 = (True, s')"
    "holds dt (view s') u c (AList.update ''updated_at'' (SStr now') (supdate (loaded dt st2) ?ups))"
    by (rule session_store.update_up [OF assms(1) h2 okk])
  then have e: "ok" "s3 = s'" using assms(8) tabs by auto
  have "AList.update a t1 ts \<noteq> []" by (cases ts) auto
  then have "tabs_rel dt (view s3) u c (AList.update a t1 ts)" using 3(2) t e(2) unfolding tabs_rel_def
    by (intro exI [of _ "AList.update ''updated_at'' (SStr now') (supdate (loaded dt st2) ?ups)"]) (simp add: sget_or_update)
  then show ?thesis using session_store.tabs_queries(1) [OF assms(1)] e(1) by blast
qed

theorem concurrent_tabs_lose_presence_witness:
  "\<exists>st s1 ok s3. load_session_state mem_redis demo_dates ''u'' ''c'' demo_saved = (Some st, s1) \<and>
     update_session_state mem_redis demo_dates ''u'' ''c''
       [(''active_threads_by_session'', SDict [(''a'', SStr ''t1'')]), (''is_on_chat_page'', SBool True), (''current_active_thread'', SStr ''t1'')]
       True ''now'' (run_tab mem_redis demo_dates ''u'' ''c'' ''now'' (Enter ''b'' ''t2'') s1) = (ok, s3) \<and>
     ok \<and> \<not> fst (is_user_on_thread_multi_tab mem_redis demo_dates ''u'' ''c'' ''t2'' s3)"
proof -
  have r: "tabs_rel demo_dates (mem_view demo_saved) ''u'' ''c'' []"
    using demo_holds unfolding tabs_rel_def by (intro exI [of _ demo_doc]) (simp add: demo_doc_def sget_or_def tab_dict_def)
  obtain s1 where l: "load_session_state mem_redis demo_dates ''u'' ''c'' demo_saved = (Some (loaded demo_dates demo_doc), s1)"
    by (rule demo_store.load_up [OF demo_holds])
  have g: "sget_or (loaded demo_dates demo_doc) ''active_threads_by_session'' (SDict []) = SDict []"
    by (simp add: sget_or_loaded) (simp add: demo_doc_def sget_or_def)
  obtain ok s3 where u: "update_session_state mem_redis demo_dates ''u'' ''c''
      [(''active_threads_by_session'', SDict (AList.update ''a'' (SStr ''t1'') [])), (''is_on_chat_page'', SBool True), (''current_active_thread'', SStr ''t1'')]
      True ''now'' (run_tab mem_redis demo_dates ''u'' ''c'' ''now'' (Enter ''b'' ''t2'') s1) = (ok, s3)" by fastforce
  have k: "tab_ok (Enter ''a'' ''t1'')" "tab_ok (Enter ''b'' ''t2'')" by (simp_all add: tab_ok_def)
  from concurrent_tabs_lose_presence [OF demo_session_store r k l g refl u] show ?thesis using l u by auto
qed

text \<open>An update that does not extend the time to live removes it: the session no longer expires.\<close>

lemma update_without_extension_persists:
  assumes "session_store rc view tick dt" and "holds dt (view s) u c st"
  shows "ttl_at (view (snd (update_session_state rc dt u c [] False now s))) (ss_build_key u c) = None"
proof -
  have n: "list_all (\<lambda>(k, v). storable v \<and> (k = ''last_activity'' \<longrightarrow> is_dict (Some v))) ([] :: 'b sdict)" by simp
  obtain s' where "update_session_state rc dt u c [] False now s = (True, s')"
    "view s' = (view s)(ss_build_key u c \<mapsto> (VStr (serialize_state dt (AList.update ''updated_at'' (SStr now) (supdate (loaded dt st) []))),
       if False then Some SESSION_TTL else None))" by (rule session_store.update_up [OF assms n])
  then show ?thesis by (simp add: ttl_at_def)
qed

end
