(* ===== verification/Py_Access.thy ===== *)
theory Py_Access
  imports Redis_Client
begin

text \<open>
  Access to dynamic values as the handlers of documents write it: \<open>d[k]\<close>, \<open>xs[i]\<close>, \<open>str(v)\<close>, \<open>int(text)\<close>,
  \<open>text.split(sep, n)\<close>, and a JSON document read from Redis. Where the source uses a value that does not have the
  type the access needs, the access raises; which exception it is does not matter, because every caller
  treats them alike. \<open>str(v)\<close> of a value that is neither a text nor a whole number is the parameter \<open>show\<close>.
\<close>

section \<open>Definitions\<close>

text \<open>A value read from Redis that counts as true.\<close>

definition some_data :: "text_val option \<Rightarrow> bool" where
  "some_data t \<longleftrightarrow> t \<noteq> None \<and> t \<noteq> Some (Raw [])"

definition as_dict :: "pyval \<Rightarrow> pydict result" where
  "as_dict v = (case v of PDict d \<Rightarrow> Inr d | _ \<Rightarrow> Inl TypeError)"

definition as_list :: "pyval \<Rightarrow> pyval list result" where
  "as_list v = (case v of PList xs \<Rightarrow> Inr xs | _ \<Rightarrow> Inl TypeError)"

definition as_str :: "pyval \<Rightarrow> string result" where
  "as_str v = (case v of PStr t \<Rightarrow> Inr t | _ \<Rightarrow> Inl TypeError)"

definition as_num :: "pyval \<Rightarrow> rat result" where
  "as_num v = (case v of PNum q \<Rightarrow> Inr q | _ \<Rightarrow> Inl TypeError)"

text \<open>\<open>d[k]\<close>, and the accesses to a nested dictionary.\<close>

definition ditem :: "pydict \<Rightarrow> string \<Rightarrow> pyval result" where
  "ditem d k = (case map_of d k of Some v \<Rightarrow> Inr v | None \<Rightarrow> Inl (KeyError k))"

definition dict_at :: "pydict \<Rightarrow> string \<Rightarrow> pydict result" where
  "dict_at d k = rbind (ditem d k) as_dict"

definition str_item :: "pydict \<Rightarrow> string \<Rightarrow> string result" where
  "str_item d k = rbind (ditem d k) as_str"

definition list_item :: "pydict \<Rightarrow> string \<Rightarrow> pyval list result" where
  "list_item d k = rbind (ditem d k) as_list"

text \<open>\<open>d[k1][k2] = v\<close>.\<close>

definition set_in :: "string \<Rightarrow> string \<Rightarrow> pyval \<Rightarrow> pydict \<Rightarrow> pydict result" where
  "set_in k1 k2 v d = rbind (dict_at d k1) (\<lambda>e. Inr (dset d k1 (PDict (dset e k2 v))))"

text \<open>\<open>d.get(k, {})\<close> on which \<open>.get\<close> is called again.\<close>

definition get_dict :: "pydict \<Rightarrow> string \<Rightarrow> pydict result" where
  "get_dict d k = as_dict (dget_or d k (PDict []))"

definition load_dict :: "text_val \<Rightarrow> pydict result" where
  "load_dict t = rbind (json_loads t) as_dict"

text \<open>\<open>xs[i]\<close>, where a negative index counts from the end.\<close>

definition py_nth :: "'a list \<Rightarrow> int \<Rightarrow> 'a result" where
  "py_nth xs i =
     (if 0 \<le> i \<and> i < int (length xs) then Inr (xs ! nat i)
      else if i < 0 \<and> - i \<le> int (length xs) then Inr (xs ! nat (int (length xs) + i))
      else Inl (KeyError ''index''))"

text \<open>\<open>str(n)\<close> of a whole number, \<open>str(v)\<close> of a value (whole numbers are integers), and \<open>int(text)\<close>: an optional sign and digits,
  with single underscores between digits and white space around.\<close>

definition int_str :: "int \<Rightarrow> string" where
  "int_str i = (if i < 0 then ''-'' else []) @ nat_str (nat \<bar>i\<bar>)"

definition py_str :: "(pyval \<Rightarrow> string) \<Rightarrow> pyval \<Rightarrow> string" where
  "py_str show v = (case v of PStr t \<Rightarrow> t | PNum q \<Rightarrow> if q = of_int \<lfloor>q\<rfloor> then int_str \<lfloor>q\<rfloor> else show v | _ \<Rightarrow> show v)"

definition digit_groups :: "string \<Rightarrow> int option" where
  "digit_groups t =
     (let gs = split_on CHR ''_'' t in
      if list_all (\<lambda>g. g \<noteq> [] \<and> list_all is_digit g) gs then Some (int (digits_value (concat gs))) else None)"

definition int_of_str :: "string \<Rightarrow> int option" where
  "int_of_str t =
     (case py_strip t of
        c # cs \<Rightarrow> if c = CHR ''-'' then map_option uminus (digit_groups cs)
                   else if c = CHR ''+'' then digit_groups cs else digit_groups (c # cs)
      | [] \<Rightarrow> None)"

text \<open>\<open>text.split(sep, n)\<close>: at most \<open>n\<close> cuts.\<close>

primrec split_max :: "nat \<Rightarrow> char \<Rightarrow> string \<Rightarrow> string list" where
  "split_max 0 c t = [t]"
| "split_max (Suc n) c t =
     (case dropWhile (\<lambda>x. x \<noteq> c) t of
        [] \<Rightarrow> [t]
      | _ # rest \<Rightarrow> takeWhile (\<lambda>x. x \<noteq> c) t # split_max n c rest)"

text \<open>A loop that calls \<open>f\<close> on every element and collects the results.\<close>

primrec rmap :: "('a \<Rightarrow> 'b result) \<Rightarrow> 'a list \<Rightarrow> 'b list result" where
  "rmap f [] = Inr []"
| "rmap f (x # xs) = rbind (f x) (\<lambda>y. rbind (rmap f xs) (\<lambda>ys. Inr (y # ys)))"

text \<open>The elements that are there.\<close>

fun somes :: "'a option list \<Rightarrow> 'a list" where
  "somes [] = []"
| "somes (None # xs) = somes xs"
| "somes (Some x # xs) = x # somes xs"

section \<open>Lemmas\<close>

named_theorems returns

lemma rbind_Inr_iff [returns]: "rbind m f = Inr y \<longleftrightarrow> (\<exists>x. m = Inr x \<and> f x = Inr y)"
  by (cases m) (simp_all add: rbind_def)

lemma as_Inr_iff [returns]: "as_dict v = Inr d \<longleftrightarrow> v = PDict d" "as_list v = Inr xs \<longleftrightarrow> v = PList xs" "as_str v = Inr t \<longleftrightarrow> v = PStr t"
  by (cases v; simp add: as_dict_def as_list_def as_str_def)+

lemma ditem_Inr_iff [returns]: "ditem d k = Inr v \<longleftrightarrow> map_of d k = Some v"
  by (simp add: ditem_def split: option.split)

lemma some_data_simps [simp]: "some_data (Some (Json v))" "\<not> some_data None" "some_data (Some (json_dumps v))"
  by (simp_all add: some_data_def json_dumps_def)

lemma load_dict_Json [simp]: "load_dict (Json (PDict d)) = Inr d" "load_dict (json_dumps (PDict d)) = Inr d"
  by (simp_all add: load_dict_def rbind_def as_dict_def json_dumps_def)

lemma as_simps [simp]: "as_dict (PDict d) = Inr d" "as_list (PList xs) = Inr xs" "as_str (PStr t) = Inr t" "as_num (PNum q) = Inr q"
  by (simp_all add: as_dict_def as_list_def as_str_def as_num_def)

lemma rbind_simps [simp]: "rbind (Inr x) f = f x" "rbind (Inl e) f = Inl e"
  by (simp_all add: rbind_def)

lemma py_nth_nat [simp]: "i < length xs \<Longrightarrow> py_nth xs (int i) = Inr (xs ! i)"
  by (simp add: py_nth_def)

lemma rmap_Inr: "(\<And>x. x \<in> set xs \<Longrightarrow> f x = Inr (g x)) \<Longrightarrow> rmap f xs = Inr (map g xs)"
  by (induction xs) auto

lemma rmap_as_dict [simp]: "rmap as_dict (map PDict xs) = Inr xs"
  by (induction xs) auto

lemma split_max_plain: "c \<notin> set t \<Longrightarrow> split_max n c t = [t]"
proof (cases n)
  case (Suc m)
  assume "c \<notin> set t"
  then have "dropWhile (\<lambda>x. x \<noteq> c) t = []" by (auto simp: dropWhile_eq_Nil_conv)
  then show ?thesis unfolding Suc split_max.simps by (simp only: list.case)
qed simp

lemma split_max_append: "c \<notin> set p \<Longrightarrow> split_max (Suc n) c (p @ c # t) = p # split_max n c t"
proof -
  assume c: "c \<notin> set p"
  have "dropWhile (\<lambda>x. x \<noteq> c) (p @ c # t) = c # t" using c by (induction p) auto
  moreover have "takeWhile (\<lambda>x. x \<noteq> c) (p @ c # t) = p" using c by (induction p) auto
  ultimately show ?thesis by simp
qed

text \<open>\<open>int\<close> reads back \<open>str\<close> of a whole number.\<close>

lemma digit_char: "n < 10 \<Longrightarrow> is_digit (char_of (48 + n)) \<and> code (char_of (48 + n) :: char) = 48 + n"
  by (simp add: is_digit_def code_def)

lemma digits_value_snoc: "digits_value (ds @ [c]) = 10 * digits_value ds + (code c - 48)"
  by (simp add: digits_value_def)

lemma nat_str_digits: "nat_str n \<noteq> [] \<and> list_all is_digit (nat_str n) \<and> digits_value (nat_str n) = n"
proof (induction n rule: nat_str.induct)
  case (1 n)
  show ?case
  proof (cases "n < 10")
    case True
    then show ?thesis using digit_char [of n] by (simp add: nat_str.simps [of n] digits_value_def)
  next
    case False
    have "n mod 10 < 10" by simp
    then show ?thesis using 1 [OF False] digit_char [of "n mod 10"] False
      by (simp add: nat_str.simps [of n] digits_value_snoc)
  qed
qed

lemma is_digit_not: "is_digit c \<Longrightarrow> c \<noteq> CHR ''_'' \<and> c \<noteq> CHR ''-'' \<and> c \<noteq> CHR ''+'' \<and> c \<noteq> CHR '':'' \<and> \<not> is_space c"
  by (auto simp: is_digit_def is_space_def code_def)

lemma dropWhile_hd: "xs \<noteq> [] \<Longrightarrow> \<not> P (hd xs) \<Longrightarrow> dropWhile P xs = xs"
  by (cases xs) auto

lemma int_of_nat_str: "int_of_str (nat_str n) = Some (int n)"
proof -
  have d: "nat_str n \<noteq> []" "list_all is_digit (nat_str n)" "digits_value (nat_str n) = n" using nat_str_digits by blast+
  have hd: "is_digit (hd (nat_str n))" and lst: "is_digit (hd (rev (nat_str n)))" using d(1,2) by (simp_all add: list_all_iff hd_rev)
  have "py_strip (nat_str n) = nat_str n" unfolding py_strip_def
    using d(1) is_digit_not [OF hd] is_digit_not [OF lst] by (simp add: dropWhile_hd)
  moreover obtain c cs where cs: "nat_str n = c # cs" using d(1) by (cases "nat_str n") auto
  moreover have "CHR ''_'' \<notin> set (nat_str n)" using d(2) is_digit_not by (auto simp: list_all_iff)
  ultimately show ?thesis using d hd is_digit_not [of c]
    by (simp add: int_of_str_def digit_groups_def split_on_no_sep)
qed

end
