(* ===== verification/Registry.thy ===== *)
theory Registry
  imports Py_Access Redis_Scan Redis_Namespaces
begin

text \<open>
  \<open>UnifiedRegistryService\<close> of \<open>src/app/registry/unified_registry.py\<close>: the users online, the users of a company
  and the tasks, each a JSON document in the field \<open>data\<close> of a Redis hash. Redis and its command \<open>SCAN\<close> are
  parameters, as are the clock, the parsing of times and numbers, and \<open>sync\<close>, the call that mirrors a
  registration in Firestore. Every document is read, changed and written back as a whole. Log output and the
  module-level singleton are left out.
\<close>

section \<open>Definitions\<close>

definition unified_key :: "string \<Rightarrow> string" where
  "unified_key user_id = ''registry:unified:'' @ user_id"

definition company_key :: "string \<Rightarrow> string" where
  "company_key company_id = ''registry:company:'' @ company_id"

definition task_key :: "string \<Rightarrow> string" where
  "task_key task_id = ''registry:task:'' @ task_id"

definition REGISTRY_TTL :: nat where
  "REGISTRY_TTL = 24 * 3600"

subsection \<open>The registry of a company\<close>

definition new_company_registry :: "string \<Rightarrow> string \<Rightarrow> pydict" where
  "new_company_registry company_id now =
     [(''company_info'', PDict [(''company_id'', PStr company_id), (''created_at'', PStr now)]),
      (''active_users'', PDict []),
      (''services'', PDict [(''chroma_collections'', PList []), (''active_tasks'', PList []), (''llm_conversations'', PList []),
                            (''dms_files'', PList [])]),
      (''quotas'', PDict [(''max_tasks_per_user'', PNum 10), (''max_llm_requests_per_hour'', PNum 1000), (''storage_limit_mb'', PNum 5000)])]"

definition fallback_company_registry :: "string \<Rightarrow> pydict" where
  "fallback_company_registry company_id =
     [(''company_info'', PDict [(''company_id'', PStr company_id)]), (''active_users'', PDict []), (''services'', PDict []), (''quotas'', PDict [])]"

definition get_or_create_company_registry :: "'s redis \<Rightarrow> string \<Rightarrow> string \<Rightarrow> 's \<Rightarrow> pyval \<times> 's" where
  "get_or_create_company_registry rc company_id now =
     stry (sbind (r_hget rc (company_key company_id) ''data'') (\<lambda>data_json.
             if some_data data_json then slift (json_loads (the data_json)) else sret (PDict (new_company_registry company_id now))))
       (\<lambda>_. PDict (fallback_company_registry company_id))"

definition save_data :: "'s redis \<Rightarrow> string \<Rightarrow> pydict \<Rightarrow> 's \<Rightarrow> nat result \<times> 's" where
  "save_data rc key d = r_hset rc key [(''data'', json_dumps (PDict d))]"

text \<open>The body of \<open>_register_user_to_company\<close>; its errors are caught.\<close>

definition register_user_to_company :: "'s redis \<Rightarrow> string \<Rightarrow> string \<Rightarrow> string \<Rightarrow> string \<Rightarrow> 's \<Rightarrow> unit \<times> 's" where
  "register_user_to_company rc user_id company_id session_id now s =
     (case get_or_create_company_registry rc company_id now s of
        (v, s1) \<Rightarrow>
          stry (sbind (slift (rbind (as_dict v) (set_in ''active_users'' user_id
                  (PDict [(''session_id'', PStr session_id), (''last_activity'', PStr now), (''role'', PStr ''user'')])))) (\<lambda>company_data.
                sbind (save_data rc (company_key company_id) company_data) (\<lambda>_.
                sbind (r_expire rc (company_key company_id) REGISTRY_TTL) (\<lambda>_. sret ()))))
            (\<lambda>_. ()) s1)"

definition unregister_user_from_company :: "'s redis \<Rightarrow> string \<Rightarrow> string \<Rightarrow> 's \<Rightarrow> unit \<times> 's" where
  "unregister_user_from_company rc user_id company_id =
     stry (sbind (r_hget rc (company_key company_id) ''data'') (\<lambda>data_json.
             if \<not> some_data data_json then sret ()
             else sbind (slift (rbind (load_dict (the data_json)) (\<lambda>d. rbind (as_dict (dget_or d ''active_users'' (PDict []))) (\<lambda>us. Inr (d, us))))) (\<lambda>(d, us).
               if map_of us user_id = None then sret ()
               else sbind (save_data rc (company_key company_id) (dset d ''active_users'' (PDict (AList.delete user_id us)))) (\<lambda>_. sret ()))))
       (\<lambda>_. ())"

definition get_company_active_users :: "'s redis \<Rightarrow> string \<Rightarrow> 's \<Rightarrow> string list \<times> 's" where
  "get_company_active_users rc company_id =
     stry (sbind (r_hget rc (company_key company_id) ''data'') (\<lambda>data_json.
             if \<not> some_data data_json then sret []
             else slift (rbind (load_dict (the data_json)) (\<lambda>d. rbind (as_dict (dget_or d ''active_users'' (PDict []))) (\<lambda>us. Inr (map fst us))))))
       (\<lambda>_. [])"

subsection \<open>Users\<close>

definition company_roles :: "string list \<Rightarrow> pydict" where
  "company_roles companies = foldl (\<lambda>d c. dset d c (PStr ''user'')) [] companies"

definition registry_record :: "string \<Rightarrow> string \<Rightarrow> string \<Rightarrow> string list \<Rightarrow> string \<Rightarrow> string \<Rightarrow> pydict" where
  "registry_record user_id session_id company_id authorized_companies backend_route now =
     [(''user_info'', PDict [(''user_id'', PStr user_id), (''session_id'', PStr session_id), (''backend_route'', PStr backend_route),
                             (''last_seen_at'', PStr now), (''status'', PStr ''online'')]),
      (''companies'', PDict [(''current_company_id'', PStr company_id), (''authorized_companies_ids'', PList (map PStr authorized_companies)),
                             (''company_roles'', PDict (company_roles authorized_companies))]),
      (''services'', PDict [(''chroma'', PDict [(''collections'', PList []), (''last_heartbeat'', PNone)]),
                            (''llm'', PDict [(''active_conversations'', PList []), (''model_preferences'', PDict [])]),
                            (''tasks'', PDict [(''active_tasks'', PList []), (''task_history'', PList [])]),
                            (''dms'', PDict [(''provider'', PStr ''drive''), (''last_heartbeat'', PStr now), (''config'', PDict [])])]),
      (''heartbeat'', PDict [(''last_heartbeat'', PStr now), (''ttl_seconds'', PNum 90)])]"

text \<open>The mirror in Firestore: a write of four fields; its errors are caught.\<close>

definition sync_to_firestore :: "(string \<Rightarrow> pydict \<Rightarrow> 's \<Rightarrow> unit result \<times> 's) \<Rightarrow> string \<Rightarrow> pydict \<Rightarrow> 's \<Rightarrow> unit \<times> 's" where
  "sync_to_firestore sync user_id r =
     stry (sbind (slift (rbind (dict_at r ''user_info'') (\<lambda>ui. rbind (ditem ui ''status'') (\<lambda>st.
             rbind (dict_at r ''heartbeat'') (\<lambda>hb. rbind (ditem hb ''last_heartbeat'') (\<lambda>lh. rbind (ditem hb ''ttl_seconds'') (\<lambda>tt.
             rbind (dict_at r ''companies'') (\<lambda>co. rbind (ditem co ''authorized_companies_ids'') (\<lambda>au.
               Inr [(''status'', st), (''heartbeat_at'', lh), (''ttl_seconds'', tt), (''authorized_companies_ids'', au)])))))))))
           (sync user_id))
       (\<lambda>_. ())"

definition register_user_session ::
  "'s redis \<Rightarrow> (string \<Rightarrow> pydict \<Rightarrow> 's \<Rightarrow> unit result \<times> 's) \<Rightarrow> string \<Rightarrow> string \<Rightarrow> string \<Rightarrow> string list \<Rightarrow> string option \<Rightarrow> string \<Rightarrow> string \<Rightarrow>
   's \<Rightarrow> pydict result \<times> 's" where
  "register_user_session rc sync user_id session_id company_id authorized_companies backend_route now epoch =
     (let r = registry_record user_id session_id company_id authorized_companies (case backend_route of Some b \<Rightarrow> b | None \<Rightarrow> []) now in
      sbind (r_hset rc (unified_key user_id) [(''data'', json_dumps (PDict r)), (''last_update'', Raw epoch)]) (\<lambda>_.
      sbind (r_expire rc (unified_key user_id) REGISTRY_TTL) (\<lambda>_ s.
        case register_user_to_company rc user_id company_id session_id now s of
          (_, s1) \<Rightarrow> (case sync_to_firestore sync user_id r s1 of (_, s2) \<Rightarrow> (Inr r, s2)))))"

definition update_user_heartbeat :: "'s redis \<Rightarrow> string \<Rightarrow> string \<Rightarrow> string \<Rightarrow> 's \<Rightarrow> bool \<times> 's" where
  "update_user_heartbeat rc user_id now epoch =
     stry (sbind (r_exists rc (unified_key user_id)) (\<lambda>n.
             if n = 0 then sret False
             else sbind (r_hget rc (unified_key user_id) ''data'') (\<lambda>data_json.
               if \<not> some_data data_json then sret False
               else sbind (slift (rbind (load_dict (the data_json)) (\<lambda>d. rbind (set_in ''user_info'' ''last_seen_at'' (PStr now) d)
                       (set_in ''heartbeat'' ''last_heartbeat'' (PStr now))))) (\<lambda>d.
                 sbind (r_hset rc (unified_key user_id) [(''data'', json_dumps (PDict d)), (''last_update'', Raw epoch)]) (\<lambda>_.
                 sbind (r_expire rc (unified_key user_id) REGISTRY_TTL) (\<lambda>_. sret True))))))
       (\<lambda>_. False)"

text \<open>One key of the scan: \<open>True\<close> when it was the session and the user is removed. The ids in a record are strings, as
  \<open>register_user_session\<close> writes them; a record with other ids leaves the companies alone.\<close>

definition session_matches :: "pydict \<Rightarrow> string \<Rightarrow> bool result" where
  "session_matches d session_id =
     rbind (as_dict (dget_or d ''user_info'' (PDict []))) (\<lambda>ui. Inr (dget ui ''session_id'' = PStr session_id))"

definition unregister_key :: "'s redis \<Rightarrow> string \<Rightarrow> string \<Rightarrow> 's \<Rightarrow> bool \<times> 's" where
  "unregister_key rc session_id key =
     stry (sbind (r_hget rc key ''data'') (\<lambda>data_json.
             if \<not> some_data data_json then sret False
             else sbind (slift (load_dict (the data_json))) (\<lambda>d.
               sbind (slift (session_matches d session_id)) (\<lambda>hit.
                 if \<not> hit then sret False
                 else sbind (slift (rbind (dict_at d ''user_info'') (\<lambda>ui. rbind (ditem ui ''user_id'') (\<lambda>u.
                         rbind (dict_at d ''companies'') (\<lambda>co. rbind (ditem co ''current_company_id'') (\<lambda>c. Inr (u, c))))))) (\<lambda>(u, c).
                   sbind (r_delete rc [key]) (\<lambda>_ s.
                     case (case u of PStr us \<Rightarrow> (case c of PStr cs \<Rightarrow> unregister_user_from_company rc us cs s | _ \<Rightarrow> ((), s)) | _ \<Rightarrow> ((), s)) of
                       (_, s1) \<Rightarrow> (Inr True, s1)))))))
       (\<lambda>_. False)"

primrec unregister_keys :: "'s redis \<Rightarrow> string \<Rightarrow> string list \<Rightarrow> 's \<Rightarrow> bool \<times> 's" where
  "unregister_keys rc session_id [] s = (False, s)"
| "unregister_keys rc session_id (k # ks) s =
     (case unregister_key rc session_id k s of (True, s1) \<Rightarrow> (True, s1) | (False, s1) \<Rightarrow> unregister_keys rc session_id ks s1)"

partial_function (option) unregister_from :: "'s redis \<Rightarrow> 's scan \<Rightarrow> string \<Rightarrow> nat \<Rightarrow> 's \<Rightarrow> (bool \<times> 's) option" where
  "unregister_from rc sc session_id cursor s =
     (case sc cursor ''registry:unified:*'' 200 s of
        (Inl e, s1) \<Rightarrow> Some (False, s1)
      | (Inr (cursor', keys), s1) \<Rightarrow>
          (case unregister_keys rc session_id keys s1 of
             (removed, s2) \<Rightarrow> if cursor' = 0 \<or> removed then Some (removed, s2) else unregister_from rc sc session_id cursor' s2))"

definition unregister_user_session :: "'s redis \<Rightarrow> 's scan \<Rightarrow> string \<Rightarrow> 's \<Rightarrow> (bool \<times> 's) option" where
  "unregister_user_session rc sc session_id = unregister_from rc sc session_id 0"

definition get_user_registry :: "'s redis \<Rightarrow> string \<Rightarrow> 's \<Rightarrow> pyval \<times> 's" where
  "get_user_registry rc user_id =
     stry (sbind (r_hget rc (unified_key user_id) ''data'') (\<lambda>data_json.
             if some_data data_json then slift (json_loads (the data_json)) else sret PNone))
       (\<lambda>_. PNone)"

subsection \<open>Services and tasks\<close>

definition update_user_service :: "'s redis \<Rightarrow> string \<Rightarrow> string \<Rightarrow> pydict \<Rightarrow> 's \<Rightarrow> bool \<times> 's" where
  "update_user_service rc user_id service_name service_data =
     stry (sbind (r_hget rc (unified_key user_id) ''data'') (\<lambda>data_json.
             if \<not> some_data data_json then sret False
             else sbind (slift (rbind (load_dict (the data_json)) (\<lambda>d.
                     rbind (as_dict (dget_or d ''services'' (PDict []))) (\<lambda>services.
                     rbind (as_dict (dget_or services service_name (PDict []))) (\<lambda>old.
                       Inr (dset d ''services'' (PDict (dset services service_name (PDict (dupdate old service_data)))))))))) (\<lambda>d.
               sbind (save_data rc (unified_key user_id) d) (\<lambda>_. sret True))))
       (\<lambda>_. False)"

definition task_record :: "string \<Rightarrow> string \<Rightarrow> string \<Rightarrow> string \<Rightarrow> string \<Rightarrow> nat \<Rightarrow> string \<Rightarrow> pydict" where
  "task_record task_id task_type user_id company_id priority max_duration now =
     [(''task_info'', PDict [(''task_id'', PStr task_id), (''task_type'', PStr task_type), (''user_id'', PStr user_id),
                             (''company_id'', PStr company_id), (''created_at'', PStr now), (''status'', PStr ''queued'')]),
      (''isolation'', PDict [(''namespace'', PStr (user_id @ ''_'' @ company_id)), (''priority'', PStr priority),
                             (''max_duration'', PNum (of_nat max_duration))]),
      (''progress'', PDict [(''current_step'', PStr ''queued''), (''progress_percent'', PNum 0), (''estimated_completion'', PNone)]),
      (''resources'', PDict [(''worker_id'', PNone), (''memory_usage'', PNone), (''cpu_usage'', PNone)])]"

text \<open>The task appended to a list of active tasks, once.\<close>

definition with_task :: "string \<Rightarrow> pyval \<Rightarrow> pyval result" where
  "with_task task_id v =
     (case v of PList xs \<Rightarrow> Inr (PList (if PStr task_id \<in> set xs then xs else xs @ [PStr task_id])) | _ \<Rightarrow> Inl TypeError)"

definition add_task_to_user_registry :: "'s redis \<Rightarrow> string \<Rightarrow> string \<Rightarrow> 's \<Rightarrow> unit \<times> 's" where
  "add_task_to_user_registry rc user_id task_id s =
     (case get_user_registry rc user_id s of
        (v, s1) \<Rightarrow>
          if \<not> truthy v then ((), s1)
          else stry (sbind (slift (rbind (as_dict v) (\<lambda>d. rbind (dict_at d ''services'') (\<lambda>sv. rbind (dict_at sv ''tasks'') (\<lambda>ts.
                       rbind (ditem ts ''active_tasks'') (\<lambda>l. rbind (with_task task_id l) (\<lambda>l'.
                         Inr (dset d ''services'' (PDict (dset sv ''tasks'' (PDict (dset ts ''active_tasks'' l')))))))))))) (\<lambda>d.
                     sbind (save_data rc (unified_key user_id) d) (\<lambda>_. sret ())))
                 (\<lambda>_. ()) s1)"

definition add_task_to_company_registry :: "'s redis \<Rightarrow> string \<Rightarrow> string \<Rightarrow> string \<Rightarrow> 's \<Rightarrow> unit \<times> 's" where
  "add_task_to_company_registry rc company_id task_id now s =
     (case get_or_create_company_registry rc company_id now s of
        (v, s1) \<Rightarrow>
          stry (sbind (slift (rbind (as_dict v) (\<lambda>d. rbind (dict_at d ''services'') (\<lambda>sv. rbind (ditem sv ''active_tasks'') (\<lambda>l.
                  rbind (with_task task_id l) (\<lambda>l'. Inr (dset d ''services'' (PDict (dset sv ''active_tasks'' l'))))))))) (\<lambda>d.
                sbind (save_data rc (company_key company_id) d) (\<lambda>_. sret ())))
            (\<lambda>_. ()) s1)"

definition register_task ::
  "'s redis \<Rightarrow> string \<Rightarrow> string \<Rightarrow> string \<Rightarrow> string \<Rightarrow> string \<Rightarrow> nat \<Rightarrow> string \<Rightarrow> string \<Rightarrow> 's \<Rightarrow> pydict result \<times> 's" where
  "register_task rc task_id task_type user_id company_id priority max_duration now epoch =
     (let t = task_record task_id task_type user_id company_id priority max_duration now in
      sbind (r_hset rc (task_key task_id) [(''data'', json_dumps (PDict t)), (''created_at'', Raw epoch)]) (\<lambda>_.
      sbind (r_expire rc (task_key task_id) (max_duration + 300)) (\<lambda>_ s.
        case add_task_to_user_registry rc user_id task_id s of
          (_, s1) \<Rightarrow> (case add_task_to_company_registry rc company_id task_id now s1 of (_, s2) \<Rightarrow> (Inr t, s2)))))"

definition set_opt :: "string \<Rightarrow> string \<Rightarrow> pyval option \<Rightarrow> pydict \<Rightarrow> pydict result" where
  "set_opt k1 k2 v d = (case v of Some w \<Rightarrow> set_in k1 k2 w d | None \<Rightarrow> Inr d)"

definition update_task_progress ::
  "'s redis \<Rightarrow> string \<Rightarrow> string \<Rightarrow> int option \<Rightarrow> string option \<Rightarrow> string option \<Rightarrow> 's \<Rightarrow> bool \<times> 's" where
  "update_task_progress rc task_id status progress_percent current_step worker_id =
     stry (sbind (r_hget rc (task_key task_id) ''data'') (\<lambda>data_json.
             if \<not> some_data data_json then sret False
             else sbind (slift (rbind (load_dict (the data_json)) (\<lambda>d0. rbind (set_in ''task_info'' ''status'' (PStr status) d0) (\<lambda>d1.
                     rbind (set_opt ''progress'' ''progress_percent'' (map_option (\<lambda>p. PNum (of_int p)) progress_percent) d1) (\<lambda>d2.
                     rbind (set_opt ''progress'' ''current_step'' (if current_step = Some [] then None else map_option PStr current_step) d2) (\<lambda>d3.
                       set_opt ''resources'' ''worker_id'' (if worker_id = Some [] then None else map_option PStr worker_id) d3)))))) (\<lambda>d.
               sbind (save_data rc (task_key task_id) d) (\<lambda>_. sret True))))
       (\<lambda>_. False)"

definition get_task_registry :: "'s redis \<Rightarrow> string \<Rightarrow> 's \<Rightarrow> pyval \<times> 's" where
  "get_task_registry rc task_id =
     stry (sbind (r_hget rc (task_key task_id) ''data'') (\<lambda>data_json.
             if some_data data_json then slift (json_loads (the data_json)) else sret PNone))
       (\<lambda>_. PNone)"

subsection \<open>Connection and clean-up\<close>

text \<open>
  \<open>datetime.fromisoformat\<close> is the parameter \<open>parse\<close>: \<open>None\<close> for a text it refuses, else the seconds and whether the
  time has a zone. A time without a zone cannot be subtracted from one with a zone.
\<close>

definition heartbeat_text :: "string \<Rightarrow> string" where
  "heartbeat_text t = (if t \<noteq> [] \<and> last t = CHR ''Z'' then butlast t @ ''+00:00'' else t)"

definition reg_is_user_connected :: "'s redis \<Rightarrow> (string \<Rightarrow> (rat \<times> bool) option) \<Rightarrow> string \<Rightarrow> rat \<Rightarrow> 's \<Rightarrow> bool \<times> 's" where
  "reg_is_user_connected rc parse user_id now s =
     (case get_user_registry rc user_id s of
        (v, s1) \<Rightarrow>
          (case v of
             PDict d \<Rightarrow>
               (case dget_or d ''heartbeat'' (PDict []) of
                  PDict hb \<Rightarrow>
                    (case dget hb ''last_heartbeat'' of
                       PStr t \<Rightarrow>
                         (if t = [] then False
                          else case parse (heartbeat_text t) of
                            Some (h, True) \<Rightarrow> now - h < 300
                          | _ \<Rightarrow> False)
                     | _ \<Rightarrow> False)
                | _ \<Rightarrow> False)
           | _ \<Rightarrow> False, s1))"

definition get_user_connection_mode :: "'s redis \<Rightarrow> (string \<Rightarrow> (rat \<times> bool) option) \<Rightarrow> string \<Rightarrow> rat \<Rightarrow> 's \<Rightarrow> string \<times> 's" where
  "get_user_connection_mode rc parse user_id now s =
     (case reg_is_user_connected rc parse user_id now s of (b, s1) \<Rightarrow> (if b then ''UI'' else ''BACKEND'', s1))"

text \<open>One key of the clean-up; \<open>to_float\<close> is \<open>float(...)\<close> of the stored time.\<close>

definition cleanup_key :: "'s redis \<Rightarrow> (text_val \<Rightarrow> rat option) \<Rightarrow> rat \<Rightarrow> string \<Rightarrow> 's \<Rightarrow> 's" where
  "cleanup_key rc to_float now key s =
     snd (stry (sbind (r_hget rc key ''created_at'') (\<lambda>created_at.
            if \<not> some_data created_at then sret ()
            else case to_float (the created_at) of
              None \<Rightarrow> sraise (ValueError ''float'')
            | Some t \<Rightarrow> if 7200 < now - t then sbind (r_delete rc [key]) (\<lambda>_. sret ()) else sret ())) (\<lambda>_. ()) s)"

partial_function (option) cleanup_from :: "'s redis \<Rightarrow> 's scan \<Rightarrow> (text_val \<Rightarrow> rat option) \<Rightarrow> rat \<Rightarrow> nat \<Rightarrow> 's \<Rightarrow> 's option" where
  "cleanup_from rc sc to_float now cursor s =
     (case sc cursor ''registry:task:*'' 100 s of
        (Inl e, s1) \<Rightarrow> Some s1
      | (Inr (cursor', keys), s1) \<Rightarrow>
          let s2 = fold (cleanup_key rc to_float now) keys s1 in
          if cursor' = 0 then Some s2 else cleanup_from rc sc to_float now cursor' s2)"

definition cleanup_expired_entries :: "'s redis \<Rightarrow> 's scan \<Rightarrow> (text_val \<Rightarrow> rat option) \<Rightarrow> rat \<Rightarrow> 's \<Rightarrow> 's option" where
  "cleanup_expired_entries rc sc to_float now = cleanup_from rc sc to_float now 0"

section \<open>Library lemmas\<close>

subsection \<open>Documents\<close>

definition doc_at :: "rview \<Rightarrow> string \<Rightarrow> pydict option" where
  "doc_at vw k = (case vw k of
     Some (VHash h, _) \<Rightarrow> (case map_of h ''data'' of Some (Json (PDict d)) \<Rightarrow> Some d | _ \<Rightarrow> None)
   | _ \<Rightarrow> None)"

lemma doc_at_Some: "doc_at vw k = Some d \<longleftrightarrow> (\<exists>h t. vw k = Some (VHash h, t) \<and> map_of h ''data'' = Some (Json (PDict d)))"
  by (auto simp: doc_at_def split: option.splits rvalue.splits text_val.splits pyval.splits)

lemma doc_at_hash: "doc_at vw k = Some d \<Longrightarrow> hash_key vw k \<and> map_of (hash_at vw k) ''data'' = Some (Json (PDict d))"
  by (auto simp: doc_at_Some hash_key_def hash_at_def)

lemma doc_at_cong: "vw' k = vw k \<Longrightarrow> doc_at vw' k = doc_at vw k"
  by (simp add: doc_at_def)

lemma key_distinct [simp]: "unified_key u \<noteq> company_key c" "company_key c \<noteq> unified_key u" "task_key i \<noteq> unified_key u" "task_key i \<noteq> company_key c"
  by (simp_all add: unified_key_def company_key_def task_key_def)

lemma key_inj [simp]: "unified_key u = unified_key u' \<longleftrightarrow> u = u'" "company_key u = company_key u' \<longleftrightarrow> u = u'" "task_key u = task_key u' \<longleftrightarrow> u = u'"
  by (simp_all add: unified_key_def company_key_def task_key_def)

text \<open>The names of the users of a company, where its document has them.\<close>

definition company_users :: "rview \<Rightarrow> string \<Rightarrow> string list option" where
  "company_users vw c = (case doc_at vw (company_key c) of
     Some d \<Rightarrow> (case dget_or d ''active_users'' (PDict []) of PDict us \<Rightarrow> Some (map fst us) | _ \<Rightarrow> None)
   | None \<Rightarrow> None)"

lemma company_users_Some:
  "company_users vw c = Some xs \<longleftrightarrow> (\<exists>d us. doc_at vw (company_key c) = Some d \<and> dget_or d ''active_users'' (PDict []) = PDict us \<and> xs = map fst us)"
  by (auto simp: company_users_def split: option.splits pyval.splits)

lemma map_fst_delete: "map fst (AList.delete k al) = filter (\<lambda>x. x \<noteq> k) (map fst al)"
  by (induction al) auto

context redis_up
begin

lemma hget_doc:
  assumes "doc_at (view s) k = Some d"
  obtains s' where "r_hget rc k ''data'' s = (Inr (Some (Json (PDict d))), s')" "view s' = view s"
  using hget_up [of s k "''data''"] doc_at_hash [OF assms] by (metis (no_types, lifting))

lemma save_doc:
  assumes "doc_at (view s) k = Some d"
  obtains n s' where "save_data rc k d' s = (Inr n, s')" "\<forall>k'. k' \<noteq> k \<longrightarrow> view s' k' = view s k'" "doc_at (view s') k = Some d'"
    "view s' k = Some (VHash (AList.update ''data'' (Json (PDict d')) (hash_at (view s) k)), ttl_at (view s) k)"
proof -
  have h: "hash_key (view s) k" using doc_at_hash [OF assms] by blast
  have ne: "[(''data'', json_dumps (PDict d'))] \<noteq> []" by simp
  obtain n s' where 1: "r_hset rc k [(''data'', json_dumps (PDict d'))] s = (Inr n, s')"
    "view s' = (view s)(k \<mapsto> (VHash (AList.updates (map fst [(''data'', json_dumps (PDict d'))]) (map snd [(''data'', json_dumps (PDict d'))]) (hash_at (view s) k)), ttl_at (view s) k))"
    by (rule hset_up [OF h ne])
  then show thesis using that [of n s'] by (simp add: save_data_def doc_at_Some update_conv json_dumps_def)
qed

lemma active_users_up:
  assumes "company_users (view s) c = Some xs"
  shows "fst (get_company_active_users rc c s) = xs"
proof -
  obtain d us where d: "doc_at (view s) (company_key c) = Some d" "dget_or d ''active_users'' (PDict []) = PDict us" "xs = map fst us"
    using assms by (auto simp: company_users_Some)
  obtain s' where "r_hget rc (company_key c) ''data'' s = (Inr (Some (Json (PDict d))), s')" by (rule hget_doc [OF d(1)])
  then show ?thesis using d by (simp add: get_company_active_users_def seq_defs rbind_def)
qed

lemma unregister_company_up:
  assumes "company_users (view s) c = Some xs"
  shows "company_users (view (snd (unregister_user_from_company rc u c s))) c = Some (filter (\<lambda>x. x \<noteq> u) xs) \<and>
    (\<forall>k. k \<noteq> company_key c \<longrightarrow> view (snd (unregister_user_from_company rc u c s)) k = view s k)"
proof -
  obtain d us where d: "doc_at (view s) (company_key c) = Some d" "dget_or d ''active_users'' (PDict []) = PDict us" "xs = map fst us"
    using assms by (auto simp: company_users_Some)
  obtain s1 where 1: "r_hget rc (company_key c) ''data'' s = (Inr (Some (Json (PDict d))), s1)" "view s1 = view s" by (rule hget_doc [OF d(1)])
  show ?thesis
  proof (cases "map_of us u")
    case None
    then have "filter (\<lambda>x. x \<noteq> u) xs = xs" using d(3) by (force simp: filter_id_conv map_of_eq_None_iff)
    moreover have "snd (unregister_user_from_company rc u c s) = s1"
      using 1 d None by (simp add: unregister_user_from_company_def seq_defs rbind_def)
    ultimately show ?thesis using 1(2) assms by (simp add: company_users_def doc_at_def)
  next
    case (Some v)
    let ?d = "dset d ''active_users'' (PDict (AList.delete u us))"
    have d1: "doc_at (view s1) (company_key c) = Some d" using d(1) 1(2) by simp
    obtain n s2 where 2: "save_data rc (company_key c) ?d s1 = (Inr n, s2)" "\<forall>k'. k' \<noteq> company_key c \<longrightarrow> view s2 k' = view s1 k'"
      "doc_at (view s2) (company_key c) = Some ?d" by (rule save_doc [OF d1])
    have "snd (unregister_user_from_company rc u c s) = s2"
      using 1 2(1) d Some by (simp add: unregister_user_from_company_def seq_defs rbind_def)
    then show ?thesis using 1(2) 2(2,3) d(3) by (simp add: company_users_def map_fst_delete)
  qed
qed

end

subsection \<open>Registrations\<close>

definition registration :: "rview \<Rightarrow> string \<Rightarrow> string \<Rightarrow> string \<Rightarrow> bool" where
  "registration vw u sid c \<longleftrightarrow> (\<exists>d ui co. doc_at vw (unified_key u) = Some d \<and>
     map_of d ''user_info'' = Some (PDict ui) \<and> map_of ui ''user_id'' = Some (PStr u) \<and> map_of ui ''session_id'' = Some (PStr sid) \<and>
     map_of d ''companies'' = Some (PDict co) \<and> map_of co ''current_company_id'' = Some (PStr c))"

text \<open>Every key of a user is a registration, and the company it names has a document.\<close>

definition wf_registry :: "rview \<Rightarrow> bool" where
  "wf_registry vw \<longleftrightarrow> (\<forall>k. vw k \<noteq> None \<longrightarrow> starts_with ''registry:unified:'' k \<longrightarrow>
     (\<exists>u sid c. k = unified_key u \<and> registration vw u sid c \<and> company_users vw c \<noteq> None))"

lemma registration_cong: "vw' (unified_key u) = vw (unified_key u) \<Longrightarrow> registration vw' u sid c = registration vw u sid c"
  by (simp add: registration_def doc_at_def)

context redis_up
begin

lemma unregister_other:
  assumes "registration (view s) u sid' c" and "sid' \<noteq> sid"
  obtains s' where "unregister_key rc sid (unified_key u) s = (False, s')" "view s' = view s"
proof -
  obtain d ui where d: "doc_at (view s) (unified_key u) = Some d" "map_of d ''user_info'' = Some (PDict ui)"
    "map_of ui ''session_id'' = Some (PStr sid')" using assms(1) by (auto simp: registration_def)
  obtain s' where "r_hget rc (unified_key u) ''data'' s = (Inr (Some (Json (PDict d))), s')" "view s' = view s" by (rule hget_doc [OF d(1)])
  then show thesis using that [of s'] d assms(2)
    by (simp add: unregister_key_def seq_defs session_matches_def dget_or_def rbind_def dget_def)
qed

lemma unregister_own:
  assumes "registration (view s) u sid c" and "company_users (view s) c = Some xs"
  obtains s' where "unregister_key rc sid (unified_key u) s = (True, s')" "view s' (unified_key u) = None"
    "company_users (view s') c = Some (filter (\<lambda>x. x \<noteq> u) xs)"
    "\<forall>k. k \<noteq> unified_key u \<longrightarrow> k \<noteq> company_key c \<longrightarrow> view s' k = view s k"
proof -
  obtain d ui co where d: "doc_at (view s) (unified_key u) = Some d" "map_of d ''user_info'' = Some (PDict ui)"
    "map_of ui ''user_id'' = Some (PStr u)" "map_of ui ''session_id'' = Some (PStr sid)"
    "map_of d ''companies'' = Some (PDict co)" "map_of co ''current_company_id'' = Some (PStr c)" using assms(1) by (auto simp: registration_def)
  obtain s1 where 1: "r_hget rc (unified_key u) ''data'' s = (Inr (Some (Json (PDict d))), s1)" "view s1 = view s" by (rule hget_doc [OF d(1)])
  obtain s2 where 2: "r_delete rc [unified_key u] s1 = (Inr (if view s1 (unified_key u) = None then 0 else 1), s2)"
    "view s2 = (view s1)(unified_key u := None)" by (rule delete1_up)
  have c2: "company_users (view s2) c = Some xs" using assms(2) 1(2) 2(2) by (simp add: company_users_def doc_at_def)
  let ?s = "snd (unregister_user_from_company rc u c s2)"
  have "unregister_key rc sid (unified_key u) s = (True, ?s)"
    using 1 2 d by (simp add: unregister_key_def seq_defs session_matches_def dget_or_def rbind_def dget_def dict_at_def ditem_def case_prod_unfold)
  moreover note unregister_company_up [OF c2, of u]
  ultimately show thesis using that [of ?s] 1(2) 2(2) by simp
qed

lemma unregister_none:
  assumes "\<And>k. k \<in> set ks \<Longrightarrow> \<exists>u sid' c. k = unified_key u \<and> registration (view s) u sid' c \<and> sid' \<noteq> sid"
  shows "\<exists>s'. unregister_keys rc sid ks s = (False, s') \<and> view s' = view s"
  using assms
proof (induction ks arbitrary: s)
  case (Cons k ks)
  obtain u sid' c where k: "k = unified_key u" "registration (view s) u sid' c" "sid' \<noteq> sid" using Cons.prems [of k] by auto
  obtain s1 where 1: "unregister_key rc sid k s = (False, s1)" "view s1 = view s" using unregister_other [OF k(2,3)] k(1) by metis
  obtain s' where "unregister_keys rc sid ks s1 = (False, s')" "view s' = view s1" using Cons.IH [of s1] Cons.prems 1(2) by auto
  then show ?case using 1 by simp
qed simp

lemma unregister_found:
  assumes "\<And>k. k \<in> set ks \<Longrightarrow> k \<noteq> unified_key u \<Longrightarrow> \<exists>u' sid' c'. k = unified_key u' \<and> registration (view s) u' sid' c' \<and> sid' \<noteq> sid"
    and "unified_key u \<in> set ks" and "registration (view s) u sid c" and "company_users (view s) c = Some xs"
  shows "\<exists>s'. unregister_keys rc sid ks s = (True, s') \<and> view s' (unified_key u) = None \<and>
    company_users (view s') c = Some (filter (\<lambda>x. x \<noteq> u) xs) \<and> (\<forall>k. k \<noteq> unified_key u \<longrightarrow> k \<noteq> company_key c \<longrightarrow> view s' k = view s k)"
  using assms
proof (induction ks arbitrary: s)
  case (Cons k ks)
  show ?case
  proof (cases "k = unified_key u")
    case True
    obtain s' where "unregister_key rc sid (unified_key u) s = (True, s')" "view s' (unified_key u) = None"
      "company_users (view s') c = Some (filter (\<lambda>x. x \<noteq> u) xs)"
      "\<forall>k. k \<noteq> unified_key u \<longrightarrow> k \<noteq> company_key c \<longrightarrow> view s' k = view s k" by (rule unregister_own [OF Cons.prems(3,4)])
    then show ?thesis using True by simp
  next
    case False
    then obtain u' sid' c' where k: "k = unified_key u'" "registration (view s) u' sid' c'" "sid' \<noteq> sid" using Cons.prems(1) [of k] by auto
    obtain s1 where 1: "unregister_key rc sid k s = (False, s1)" "view s1 = view s" using unregister_other [OF k(2,3)] k(1) by metis
    have "unified_key u \<in> set ks" using Cons.prems(2) False by auto
    then show ?thesis using Cons.IH [of s1] Cons.prems(1,3,4) 1 by auto
  qed
qed simp

end

context redis_scan
begin

text \<open>The scan finds the session, or passes every key.\<close>

lemma unregister_from_ends:
  assumes "wf_registry (view s)"
    and "\<forall>u' c'. registration (view s) u' sid c' \<longrightarrow> u' = u"
    and "registration (view s) u sid c" and "company_users (view s) c = Some xs" and "unified_key u \<in> todo cur"
  shows "\<exists>s'. unregister_from rc sc sid cur s = Some (True, s') \<and> view s' (unified_key u) = None \<and>
    company_users (view s') c = Some (filter (\<lambda>x. x \<noteq> u) xs) \<and> (\<forall>k. k \<noteq> unified_key u \<longrightarrow> k \<noteq> company_key c \<longrightarrow> view s' k = view s k)"
  using assms
proof (induction "rank s cur" arbitrary: s cur rule: less_induct)
  case less
  have sp: "star_pattern ''registry:unified:*''" by (simp add: star_pattern_def)
  obtain c' ks s1 where b: "sc cur ''registry:unified:*'' 200 s = (Inr (c', ks), s1)" using scan_ok by blast
  note law = scan_law [OF sp b]
  have v: "view s1 = view s" using law by blast
  have m: "star_match ''registry:unified:*'' k = starts_with ''registry:unified:'' k" for k
    using star_match_prefix [of "''registry:unified:''" k] by simp
  have live: "view s (unified_key u) \<noteq> None" "starts_with ''registry:unified:'' (unified_key u)"
    using less.prems(3) by (auto simp: registration_def doc_at_def unified_key_def split: option.splits)
  have wf: "\<exists>u' sid' c'. k = unified_key u' \<and> registration (view s) u' sid' c'" if "k \<in> set ks" for k
    using that law m less.prems(1) by (fastforce simp: wf_registry_def)
  have others: "\<exists>u' sid' c'. k = unified_key u' \<and> registration (view s1) u' sid' c' \<and> sid' \<noteq> sid" if "k \<in> set ks" "k \<noteq> unified_key u" for k
    using wf [OF that(1)] that(2) less.prems(2) v by metis
  show ?case
  proof (cases "unified_key u \<in> set ks")
    case True
    have r1: "registration (view s1) u sid c" "company_users (view s1) c = Some xs" using less.prems(3,4) v by simp_all
    obtain s' where s': "unregister_keys rc sid ks s1 = (True, s')" "view s' (unified_key u) = None"
      "company_users (view s') c = Some (filter (\<lambda>x. x \<noteq> u) xs)" "\<forall>k. k \<noteq> unified_key u \<longrightarrow> k \<noteq> company_key c \<longrightarrow> view s' k = view s1 k"
      using unregister_found [OF others True r1] by blast
    have "unregister_from rc sc sid cur s = Some (True, s')" using b s'(1) by (simp add: unregister_from.simps [of rc sc sid cur])
    then show ?thesis using s' v by simp
  next
    case False
    then have "unified_key u \<in> (if c' = 0 then {} else todo c')" using law live m less.prems(5) by blast
    then have c': "c' \<noteq> 0" "unified_key u \<in> todo c'" by (auto split: if_splits)
    obtain s2 where s2: "unregister_keys rc sid ks s1 = (False, s2)" "view s2 = view s1" using unregister_none [of ks s1 sid] others False by metis
    have "rank s2 c' \<le> rank s1 c'" by (rule rank_mono) (simp add: s2(2))
    then have rk: "rank s2 c' < rank s cur" using scan_rank [OF b c'(1)] by simp
    have eq: "unregister_from rc sc sid cur s = unregister_from rc sc sid c' s2"
      using b s2(1) c'(1) by (simp add: unregister_from.simps [of rc sc sid cur])
    have v2: "view s2 = view s" using s2(2) v by simp
    show ?thesis unfolding eq using less.hyps [OF rk, unfolded v2, OF less.prems(1-4) c'(2)] by blast
  qed
qed

end

subsection \<open>Registering\<close>

lemma map_fst_update: "map fst (AList.update k v al) = (if k \<in> set (map fst al) then map fst al else map fst al @ [k])"
  by (induction al) auto

text \<open>The company is new, or has a document with its users.\<close>

definition company_ok :: "rview \<Rightarrow> string \<Rightarrow> string list \<Rightarrow> bool" where
  "company_ok vw c xs \<longleftrightarrow> (vw (company_key c) = None \<and> xs = []) \<or>
     (\<exists>d us. doc_at vw (company_key c) = Some d \<and> map_of d ''active_users'' = Some (PDict us) \<and> xs = map fst us)"

context redis_up
begin

lemma expire_doc:
  assumes "doc_at (view s) k = Some d" and "0 < ttl"
  obtains b s' where "r_expire rc k ttl s = (Inr b, s')" "doc_at (view s') k = Some d" "\<forall>k'. k' \<noteq> k \<longrightarrow> view s' k' = view s k'"
proof -
  obtain b s' where 1: "r_expire rc k ttl s = (Inr b, s')"
    "view s' = (\<lambda>k'. if k' = k then map_option (\<lambda>(v, _). (v, Some ttl)) (view s k) else view s k')" by (rule expire_up [OF assms(2)])
  then have "doc_at (view s') k = Some d" using assms(1) by (auto simp: doc_at_Some)
  then show thesis using that [OF 1(1)] 1(2) by simp
qed

lemma get_or_create_up:
  assumes "company_ok (view s) c xs"
  obtains d us s' where "get_or_create_company_registry rc c now s = (PDict d, s')" "view s' = view s"
    "map_of d ''active_users'' = Some (PDict us)" "xs = map fst us" "hash_key (view s) (company_key c)"
  using assms unfolding company_ok_def
proof (elim disjE conjE exE)
  assume n: "view s (company_key c) = None" and x: "xs = []"
  have "hash_key (view s) (company_key c)" "map_of (hash_at (view s) (company_key c)) ''data'' = None" using n by (simp_all add: hash_key_def hash_at_def)
  moreover then obtain s' where "r_hget rc (company_key c) ''data'' s = (Inr None, s')" "view s' = view s" using hget_up by metis
  ultimately show thesis using that [of "new_company_registry c now" s' "[]"] x
    by (simp add: get_or_create_company_registry_def seq_defs new_company_registry_def)
next
  fix d us assume d: "doc_at (view s) (company_key c) = Some d" "map_of d ''active_users'' = Some (PDict us)" "xs = map fst us"
  obtain s' where "r_hget rc (company_key c) ''data'' s = (Inr (Some (Json (PDict d))), s')" "view s' = view s" by (rule hget_doc [OF d(1)])
  then show thesis using that [of d s' us] d doc_at_hash [OF d(1)] by (simp add: get_or_create_company_registry_def seq_defs)
qed

lemma register_company_up:
  assumes "company_ok (view s) c xs"
  shows "company_users (view (snd (register_user_to_company rc u c sid now s))) c = Some (if u \<in> set xs then xs else xs @ [u]) \<and>
    (\<forall>k. k \<noteq> company_key c \<longrightarrow> view (snd (register_user_to_company rc u c sid now s)) k = view s k)"
proof -
  let ?e = "PDict [(''session_id'', PStr sid), (''last_activity'', PStr now), (''role'', PStr ''user'')]"
  obtain d us s1 where 1: "get_or_create_company_registry rc c now s = (PDict d, s1)" "view s1 = view s"
    "map_of d ''active_users'' = Some (PDict us)" "xs = map fst us" "hash_key (view s) (company_key c)" by (rule get_or_create_up [OF assms])
  let ?d = "dset d ''active_users'' (PDict (dset us u ?e))"
  have h: "hash_key (view s1) (company_key c)" using 1 by simp
  have ne: "[(''data'', json_dumps (PDict ?d))] \<noteq> []" by simp
  obtain n s2 where 2: "r_hset rc (company_key c) [(''data'', json_dumps (PDict ?d))] s1 = (Inr n, s2)"
    "view s2 = (view s1)(company_key c \<mapsto> (VHash (AList.updates (map fst [(''data'', json_dumps (PDict ?d))]) (map snd [(''data'', json_dumps (PDict ?d))])
       (hash_at (view s1) (company_key c))), ttl_at (view s1) (company_key c)))" by (rule hset_up [OF h ne])
  have d2: "doc_at (view s2) (company_key c) = Some ?d" using 2(2) by (simp add: doc_at_Some update_conv json_dumps_def)
  have t: "0 < REGISTRY_TTL" by (simp add: REGISTRY_TTL_def)
  obtain b s3 where 3: "r_expire rc (company_key c) REGISTRY_TTL s2 = (Inr b, s3)" "doc_at (view s3) (company_key c) = Some ?d"
    "\<forall>k'. k' \<noteq> company_key c \<longrightarrow> view s3 k' = view s2 k'" by (rule expire_doc [OF d2 t])
  have "snd (register_user_to_company rc u c sid now s) = s3"
    using 1(1,3) 2(1) 3(1) by (simp add: register_user_to_company_def seq_defs set_in_def dict_at_def ditem_def rbind_def save_data_def)
  then show ?thesis using 1 2(2) 3 by (simp add: company_users_def map_fst_update)
qed

lemma register_up:
  assumes "hash_key (view s) (unified_key u)" and "company_ok (view s) c xs" and "\<And>u d s. view (snd (sync u d s)) = view s"
  shows "fst (register_user_session rc sync u sid c auth br now ep s) =
      Inr (registry_record u sid c auth (case br of Some b \<Rightarrow> b | None \<Rightarrow> []) now) \<and>
    doc_at (view (snd (register_user_session rc sync u sid c auth br now ep s))) (unified_key u) =
      Some (registry_record u sid c auth (case br of Some b \<Rightarrow> b | None \<Rightarrow> []) now) \<and>
    company_users (view (snd (register_user_session rc sync u sid c auth br now ep s))) c = Some (if u \<in> set xs then xs else xs @ [u]) \<and>
    (\<forall>k. k \<noteq> unified_key u \<longrightarrow> k \<noteq> company_key c \<longrightarrow> view (snd (register_user_session rc sync u sid c auth br now ep s)) k = view s k)"
proof -
  let ?r = "registry_record u sid c auth (case br of Some b \<Rightarrow> b | None \<Rightarrow> []) now"
  let ?fs = "[(''data'', json_dumps (PDict ?r)), (''last_update'', Raw ep)]"
  have ne: "?fs \<noteq> []" by simp
  obtain n s1 where 1: "r_hset rc (unified_key u) ?fs s = (Inr n, s1)"
    "view s1 = (view s)(unified_key u \<mapsto> (VHash (AList.updates (map fst ?fs) (map snd ?fs) (hash_at (view s) (unified_key u))), ttl_at (view s) (unified_key u)))"
    by (rule hset_up [OF assms(1) ne])
  have d1: "doc_at (view s1) (unified_key u) = Some ?r" using 1(2) by (simp add: doc_at_Some update_conv json_dumps_def)
  have t: "0 < REGISTRY_TTL" by (simp add: REGISTRY_TTL_def)
  obtain b s2 where 2: "r_expire rc (unified_key u) REGISTRY_TTL s1 = (Inr b, s2)" "doc_at (view s2) (unified_key u) = Some ?r"
    "\<forall>k'. k' \<noteq> unified_key u \<longrightarrow> view s2 k' = view s1 k'" by (rule expire_doc [OF d1 t])
  have co: "company_ok (view s2) c xs" using assms(2) 1(2) 2(3) by (auto simp: company_ok_def doc_at_def)
  let ?s3 = "snd (register_user_to_company rc u c sid now s2)"
  note reg = register_company_up [OF co, of u sid now]
  have sy: "view (snd (sync_to_firestore sync u r s)) = view s" for r s
    by (simp add: sync_to_firestore_def seq_defs assms(3) split: prod.split sum.split) (metis assms(3) snd_conv)
  have run: "register_user_session rc sync u sid c auth br now ep s = (Inr ?r, snd (sync_to_firestore sync u ?r ?s3))"
    using 1(1) 2(1) by (simp add: register_user_session_def Let_def seq_defs case_prod_unfold)
  have "doc_at (view ?s3) (unified_key u) = Some ?r" using reg 2(2) by (simp add: doc_at_def)
  then show ?thesis unfolding run using reg sy 1(2) 2(3) by (simp add: company_users_def doc_at_def)
qed

end

subsection \<open>Clean-up\<close>

definition expired_task :: "(text_val \<Rightarrow> rat option) \<Rightarrow> rat \<Rightarrow> rview \<Rightarrow> string \<Rightarrow> bool" where
  "expired_task to_float now vw k \<longleftrightarrow> vw k \<noteq> None \<and> starts_with ''registry:task:'' k \<and>
     (\<exists>t q. map_of (hash_at vw k) ''created_at'' = Some t \<and> t \<noteq> Raw [] \<and> to_float t = Some q \<and> 7200 < now - q)"

definition tasks_are_hashes :: "rview \<Rightarrow> bool" where
  "tasks_are_hashes vw \<longleftrightarrow> (\<forall>k. starts_with ''registry:task:'' k \<longrightarrow> hash_key vw k)"

lemma expired_remove: "expired_task f n (vw(k := None)) k' \<longleftrightarrow> expired_task f n vw k' \<and> k' \<noteq> k"
  by (auto simp: expired_task_def hash_at_def)

context redis_up
begin

lemma cleanup_key_up:
  assumes "hash_key (view s) k" and "starts_with ''registry:task:'' k"
  shows "view (cleanup_key rc to_float now k s) = (if expired_task to_float now (view s) k then (view s)(k := None) else view s)"
proof -
  obtain s1 where 1: "r_hget rc k ''created_at'' s = (Inr (map_of (hash_at (view s) k) ''created_at''), s1)" "view s1 = view s" by (rule hget_up [OF assms(1)])
  obtain s2 where 2: "r_delete rc [k] s1 = (Inr (if view s1 k = None then 0 else 1), s2)" "view s2 = (view s1)(k := None)" by (rule delete1_up)
  have live: "map_of (hash_at (view s) k) ''created_at'' \<noteq> None \<Longrightarrow> view s k \<noteq> None" by (cases "view s k") (simp_all add: hash_at_def)
  show ?thesis using 1 2 live assms(2)
    by (auto simp: cleanup_key_def seq_defs expired_task_def some_data_def split: option.splits)
qed

lemma cleanup_keys_up:
  assumes "tasks_are_hashes (view s)" and "\<forall>k \<in> set ks. starts_with ''registry:task:'' k"
  shows "view (fold (cleanup_key rc to_float now) ks s) =
    (\<lambda>k. if k \<in> set ks \<and> expired_task to_float now (view s) k then None else view s k)"
  using assms
proof (induction ks arbitrary: s)
  case (Cons k ks)
  let ?s1 = "cleanup_key rc to_float now k s"
  have v: "view ?s1 = (if expired_task to_float now (view s) k then (view s)(k := None) else view s)"
    using cleanup_key_up Cons.prems by (simp add: tasks_are_hashes_def)
  have h: "tasks_are_hashes (view ?s1)" using Cons.prems(1) v by (auto simp: tasks_are_hashes_def hash_key_def)
  have ih: "view (fold (cleanup_key rc to_float now) ks ?s1) =
      (\<lambda>k. if k \<in> set ks \<and> expired_task to_float now (view ?s1) k then None else view ?s1 k)"
    using Cons.IH [OF h] Cons.prems(2) by simp
  show ?case unfolding fold_simps ih v by (auto simp: expired_remove fun_eq_iff)
qed simp

end

context redis_scan
begin

lemma cleanup_from_ends:
  assumes "tasks_are_hashes (view s)"
  shows "\<exists>s'. cleanup_from rc sc to_float now c s = Some s' \<and>
    (\<forall>k. view s' k = view s k \<or> (view s' k = None \<and> expired_task to_float now (view s) k)) \<and>
    (\<forall>k \<in> todo c. expired_task to_float now (view s) k \<longrightarrow> view s' k = None)"
  using assms
proof (induction "rank s c" arbitrary: s c rule: less_induct)
  case less
  have sp: "star_pattern ''registry:task:*''" by (simp add: star_pattern_def)
  obtain c' ks s1 where b: "sc c ''registry:task:*'' 100 s = (Inr (c', ks), s1)" using scan_ok by blast
  note law = scan_law [OF sp b]
  have m: "star_match ''registry:task:*'' k = starts_with ''registry:task:'' k" for k
    using star_match_prefix [of "''registry:task:''" k] by simp
  have v: "view s1 = view s" using law by blast
  let ?s2 = "fold (cleanup_key rc to_float now) ks s1"
  have pre: "\<forall>k \<in> set ks. starts_with ''registry:task:'' k" using law m by auto
  have v2: "view ?s2 = (\<lambda>k. if k \<in> set ks \<and> expired_task to_float now (view s) k then None else view s k)"
    using cleanup_keys_up [of s1 ks, unfolded v, OF less.prems pre] .
  have done_or_later: "k \<in> set ks \<or> c' \<noteq> 0 \<and> k \<in> todo c'" if "k \<in> todo c" "expired_task to_float now (view s) k" for k
  proof -
    have "k \<in> set ks \<union> (if c' = 0 then {} else todo c')" using law m that by (auto simp: expired_task_def)
    then show ?thesis by (auto split: if_splits)
  qed
  show ?case
  proof (cases "c' = 0")
    case True
    have "cleanup_from rc sc to_float now c s = Some ?s2" using b True by (simp add: cleanup_from.simps [of rc sc to_float now c] Let_def)
    then show ?thesis using v2 done_or_later True by auto
  next
    case False
    have h2: "tasks_are_hashes (view ?s2)" using less.prems v2 by (auto simp: tasks_are_hashes_def hash_key_def)
    have "rank ?s2 c' \<le> rank s1 c'" by (rule rank_mono) (auto simp: v2 v)
    then have rk: "rank ?s2 c' < rank s c" using scan_rank [OF b False] by simp
    obtain s' where s': "cleanup_from rc sc to_float now c' ?s2 = Some s'"
      "\<forall>k. view s' k = view ?s2 k \<or> (view s' k = None \<and> expired_task to_float now (view ?s2) k)"
      "\<forall>k \<in> todo c'. expired_task to_float now (view ?s2) k \<longrightarrow> view s' k = None" using less.hyps [OF rk h2] by blast
    have e: "expired_task to_float now (view ?s2) k \<longleftrightarrow> expired_task to_float now (view s) k \<and> k \<notin> set ks" for k
      unfolding v2 by (auto simp: expired_task_def hash_at_def)
    have v2k: "view ?s2 k = (if k \<in> set ks \<and> expired_task to_float now (view s) k then None else view s k)" for k
      using v2 by (rule fun_cong)
    have "cleanup_from rc sc to_float now c s = Some s'" using b s'(1) False by (simp add: cleanup_from.simps [of rc sc to_float now c] Let_def)
    moreover have "view s' k = view s k \<or> (view s' k = None \<and> expired_task to_float now (view s) k)" for k
      using s'(2) [rule_format, of k] e [of k] v2k [of k] by presburger
    moreover have "view s' k = None" if "k \<in> todo c" "expired_task to_float now (view s) k" for k
      using done_or_later [OF that] that(2) s'(2) [rule_format, of k] s'(3) [rule_format, of k] e [of k] v2k [of k] by presburger
    ultimately show ?thesis by blast
  qed
qed

end

context redis_up
begin

lemma get_user_registry_doc:
  assumes "doc_at (view s) (unified_key u) = Some d"
  shows "fst (get_user_registry rc u s) = PDict d"
proof -
  obtain s' where "r_hget rc (unified_key u) ''data'' s = (Inr (Some (Json (PDict d))), s')" by (rule hget_doc [OF assms])
  then show ?thesis by (simp add: get_user_registry_def seq_defs)
qed

end

lemma registration_record:
  assumes "doc_at vw (unified_key u) = Some (registry_record u sid c auth br now)"
  shows "registration vw u sid c"
  using assms by (simp add: registration_def registry_record_def)

lemma registration_session: "registration vw u sid c \<Longrightarrow> registration vw u sid' c' \<Longrightarrow> sid' = sid \<and> c' = c"
  by (auto simp: registration_def)

section \<open>Properties\<close>

text \<open>A registration is visible: the user's document is the one returned, the user is among the active users of the
  company, once and after those who were there before, and no other key has changed.\<close>

theorem registration_visible:
  assumes "redis_up rc view tick" and "hash_key (view s) (unified_key u)" and "company_ok (view s) c xs"
    and "\<And>u d s. view (snd (sync u d s)) = view s"
    and "register_user_session rc sync u sid c auth br now ep s = (res, s')"
  shows "\<exists>r. res = Inr r \<and> fst (get_user_registry rc u s') = PDict r \<and>
    fst (get_company_active_users rc c s') = (if u \<in> set xs then xs else xs @ [u]) \<and>
    (\<forall>k. k \<noteq> unified_key u \<longrightarrow> k \<noteq> company_key c \<longrightarrow> view s' k = view s k)"
  using redis_up.register_up [where sync = sync and sid = sid and auth = auth and br = br and now = now and ep = ep, OF assms(1-4)] assms(5)
    redis_up.get_user_registry_doc [OF assms(1), of s' u] redis_up.active_users_up [OF assms(1), of s' c]
  by auto

definition demo_registry :: mem where
  "demo_registry = snd (register_user_session mem_redis (\<lambda>_ _ s. (Inr (), s)) ''u'' ''s1'' ''c'' [''c''] None ''now'' ''0'' empty_mem)"

lemma empty_view: "mem_view empty_mem k = None"
  by (simp add: mem_view_def empty_mem_def)

lemma demo_registry_up:
  "doc_at (mem_view demo_registry) (unified_key ''u'') = Some (registry_record ''u'' ''s1'' ''c'' [''c''] [] ''now'')"
  "company_users (mem_view demo_registry) ''c'' = Some [''u'']"
  "k \<noteq> unified_key ''u'' \<Longrightarrow> k \<noteq> company_key ''c'' \<Longrightarrow> mem_view demo_registry k = None"
proof -
  have h: "hash_key (mem_view empty_mem) (unified_key ''u'')" "company_ok (mem_view empty_mem) ''c'' []" by (simp_all add: hash_key_def company_ok_def empty_view)
  have n: "\<And>u d s. mem_view (snd ((\<lambda>_ _ s. (Inr (), s)) u d s)) = mem_view s" by simp
  note up = redis_up.register_up [OF mem_redis_up h n, of "''s1''" "[''c'']" None "''now''" "''0''"]
  show "doc_at (mem_view demo_registry) (unified_key ''u'') = Some (registry_record ''u'' ''s1'' ''c'' [''c''] [] ''now'')"
    "company_users (mem_view demo_registry) ''c'' = Some [''u'']"
    "k \<noteq> unified_key ''u'' \<Longrightarrow> k \<noteq> company_key ''c'' \<Longrightarrow> mem_view demo_registry k = None"
    using up by (simp_all add: demo_registry_def empty_view)
qed

theorem registration_visible_witness:
  "fst (get_company_active_users mem_redis ''c'' (snd (register_user_session mem_redis (\<lambda>_ _ s. (Inr (), s)) ''v'' ''s2'' ''c'' [''c''] None ''now'' ''0'' demo_registry))) =
    [''u'', ''v'']"
proof -
  have u: "unified_key ''v'' \<noteq> unified_key ''u''" by simp
  have h: "hash_key (mem_view demo_registry) (unified_key ''v'')" using demo_registry_up(3) [OF u] by (simp add: hash_key_def)
  obtain d us where d: "doc_at (mem_view demo_registry) (company_key ''c'') = Some d" "dget_or d ''active_users'' (PDict []) = PDict us" "[''u''] = map fst us"
    using demo_registry_up(2) by (auto simp: company_users_Some)
  have "map_of d ''active_users'' = Some (PDict us)" using d(2,3) by (cases "map_of d ''active_users''") (simp_all add: dget_or_def)
  then have c: "company_ok (mem_view demo_registry) ''c'' [''u'']" using d by (auto simp: company_ok_def)
  show ?thesis using registration_visible [OF mem_redis_up h c, of "\<lambda>_ _ s. (Inr (), s)" "''s2''" "[''c'']" None "''now''" "''0''", OF _ prod.collapse [symmetric]] by auto
qed

text \<open>The end of a session ends: the scan comes to the one user who has the session, the user's key is gone, the user is no
  longer among the active users of the company named in the record, and no other key has changed.\<close>

theorem unregister_removes_session:
  assumes "redis_scan rc view tick sc todo rank" and "wf_registry (view s)" and "registration (view s) u sid c"
    and "\<forall>u' c'. registration (view s) u' sid c' \<longrightarrow> u' = u"
  shows "\<exists>s' xs. unregister_user_session rc sc sid s = Some (True, s') \<and> view s' (unified_key u) = None \<and>
    company_users (view s) c = Some xs \<and> fst (get_company_active_users rc c s') = filter (\<lambda>x. x \<noteq> u) xs \<and>
    (\<forall>k. k \<noteq> unified_key u \<longrightarrow> k \<noteq> company_key c \<longrightarrow> view s' k = view s k)"
proof -
  have up: "redis_up rc view tick" using assms(1) by (rule redis_scan.axioms(1))
  have "view s (unified_key u) \<noteq> None" using assms(3) by (auto simp: registration_def doc_at_def split: option.splits)
  moreover have "starts_with ''registry:unified:'' (unified_key u)" by (simp add: unified_key_def)
  ultimately obtain u' sid' c' where "unified_key u = unified_key u'" "registration (view s) u' sid' c'" "company_users (view s) c' \<noteq> None"
    using assms(2) unfolding wf_registry_def by blast
  then obtain xs where x: "company_users (view s) c = Some xs" using registration_session [OF assms(3)] by auto
  have "unified_key u \<in> todo 0" by (simp add: redis_scan.todo_start [OF assms(1)])
  then obtain s' where s': "unregister_from rc sc sid 0 s = Some (True, s')" "view s' (unified_key u) = None"
      "company_users (view s') c = Some (filter (\<lambda>x. x \<noteq> u) xs)" "\<forall>k. k \<noteq> unified_key u \<longrightarrow> k \<noteq> company_key c \<longrightarrow> view s' k = view s k"
    using redis_scan.unregister_from_ends [OF assms(1,2,4,3) x] by blast
  then show ?thesis using x redis_up.active_users_up [OF up s'(3)] by (simp add: unregister_user_session_def)
qed

lemma demo_registry_wf:
  "wf_registry (mem_view demo_registry)" "registration (mem_view demo_registry) ''u'' ''s1'' ''c''"
  "\<forall>u' c'. registration (mem_view demo_registry) u' ''s1'' c' \<longrightarrow> u' = ''u''"
proof -
  show r: "registration (mem_view demo_registry) ''u'' ''s1'' ''c''" by (rule registration_record) (rule demo_registry_up(1))
  have only: "k = unified_key ''u''" if "mem_view demo_registry k \<noteq> None" "starts_with ''registry:unified:'' k" for k
  proof (rule ccontr)
    assume u: "k \<noteq> unified_key ''u''"
    have "k \<noteq> company_key ''c''" using that(2) by (auto simp: company_key_def)
    then have "mem_view demo_registry k = None" by (rule demo_registry_up(3) [OF u])
    then show False using that(1) by simp
  qed
  show "wf_registry (mem_view demo_registry)" unfolding wf_registry_def using only r demo_registry_up(2) by blast
  show "\<forall>u' c'. registration (mem_view demo_registry) u' ''s1'' c' \<longrightarrow> u' = ''u''"
  proof (intro allI impI)
    fix u' c' assume "registration (mem_view demo_registry) u' ''s1'' c'"
    then have "mem_view demo_registry (unified_key u') \<noteq> None" by (auto simp: registration_def doc_at_def split: option.splits)
    then show "u' = ''u''" using only [of "unified_key u'"] by (simp add: unified_key_def)
  qed
qed

theorem unregister_removes_session_witness:
  "\<exists>s'. unregister_user_session mem_redis mem_scan ''s1'' demo_registry = Some (True, s') \<and> fst (get_company_active_users mem_redis ''c'' s') = []"
  using unregister_removes_session [OF mem_redis_scan demo_registry_wf] demo_registry_up(2) by auto

subsection \<open>Change of company\<close>

lemma wf_registry_hash: "wf_registry vw \<Longrightarrow> hash_key vw (unified_key u)"
proof (cases "vw (unified_key u)")
  case None
  then show ?thesis by (simp add: hash_key_def)
next
  case (Some x)
  assume wf: "wf_registry vw"
  have "starts_with ''registry:unified:'' (unified_key u)" by (simp add: unified_key_def)
  then obtain u' sid c where "unified_key u = unified_key u'" "registration vw u' sid c" using wf Some unfolding wf_registry_def by blast
  then show ?thesis using doc_at_hash by (auto simp: registration_def)
qed

context redis_up
begin

lemma register_wf:
  assumes "wf_registry (view s)" and "company_ok (view s) c xs" and "\<And>u d s. view (snd (sync u d s)) = view s"
  shows "wf_registry (view (snd (register_user_session rc sync u sid c auth br now ep s)))"
    "registration (view (snd (register_user_session rc sync u sid c auth br now ep s))) u sid c"
proof -
  let ?s = "snd (register_user_session rc sync u sid c auth br now ep s)"
  note up = register_up [where sync = sync and sid = sid and auth = auth and br = br and now = now and ep = ep,
      OF wf_registry_hash [OF assms(1)] assms(2,3)]
  show r: "registration (view ?s) u sid c" using up [of u] by (intro registration_record) blast
  show "wf_registry (view ?s)" unfolding wf_registry_def
  proof (intro allI impI)
    fix k assume k: "view ?s k \<noteq> None" "starts_with ''registry:unified:'' k"
    show "\<exists>u sid c. k = unified_key u \<and> registration (view ?s) u sid c \<and> company_users (view ?s) c \<noteq> None"
    proof (cases "k = unified_key u")
      case True
      then show ?thesis using r up [of u] by blast
    next
      case False
      have "k \<noteq> company_key c" using k(2) by (auto simp: company_key_def)
      then have e: "view ?s k = view s k" using up [of u] False by blast
      then obtain u' sid' c' where *: "k = unified_key u'" "registration (view s) u' sid' c'" "company_users (view s) c' \<noteq> None"
        using assms(1) k unfolding wf_registry_def by metis
      have "company_users (view ?s) c' \<noteq> None" using up [of u] *(3) by (cases "c' = c") (simp_all add: company_users_def doc_at_def)
      then show ?thesis using * e registration_cong [of "view ?s" u' "view s"] by blast
    qed
  qed
qed

end

text \<open>A user who registers in a second company with the same session stays an active user of the first one after the session
  has ended: the record names the last company only.\<close>

theorem first_company_keeps_user:
  assumes "redis_scan rc view tick sc todo rank" and "wf_registry (view s)" and "company_ok (view s) c1 xs1" and "company_ok (view s) c2 xs2"
    and "c1 \<noteq> c2" and "\<And>u d s. view (snd (sync u d s)) = view s" and "\<forall>u' c'. registration (view s) u' sid c' \<longrightarrow> u' = u"
    and "s1 = snd (register_user_session rc sync u sid c1 auth br now ep s)"
    and "s2 = snd (register_user_session rc sync u sid c2 auth br now ep s1)"
  shows "\<exists>s3. unregister_user_session rc sc sid s2 = Some (True, s3) \<and>
    u \<in> set (fst (get_company_active_users rc c1 s3)) \<and> u \<notin> set (fst (get_company_active_users rc c2 s3))"
proof -
  have up: "redis_up rc view tick" using assms(1) by (rule redis_scan.axioms(1))
  note reg = redis_up.register_up [where sync = sync and sid = sid and auth = auth and br = br and now = now and ep = ep, OF up wf_registry_hash _ assms(6)]
  note wf = redis_up.register_wf [where sync = sync and sid = sid and auth = auth and br = br and now = now and ep = ep and u = u, OF up _ _ assms(6)]
  note r1 = reg [OF assms(2,3), of u, folded assms(8)] and w1 = wf [OF assms(2,3), folded assms(8)]
  have c2: "company_ok (view s1) c2 xs2" using assms(4,5) r1 by (simp add: company_ok_def doc_at_def)
  note r2 = reg [OF w1(1) c2, of u, folded assms(9)] and w2 = wf [OF w1(1) c2, folded assms(9)]
  have one: "\<forall>u' c'. registration (view s2) u' sid c' \<longrightarrow> u' = u"
  proof (intro allI impI, rule ccontr)
    fix u' c' assume *: "registration (view s2) u' sid c'" "u' \<noteq> u"
    have "view s2 (unified_key u') = view s (unified_key u')" using r1 r2 *(2) by simp
    then show False using * registration_cong [of "view s2" u' "view s"] assms(7) by blast
  qed
  obtain s3 xs where s3: "unregister_user_session rc sc sid s2 = Some (True, s3)" "fst (get_company_active_users rc c2 s3) = filter (\<lambda>x. x \<noteq> u) xs"
    "\<forall>k. k \<noteq> unified_key u \<longrightarrow> k \<noteq> company_key c2 \<longrightarrow> view s3 k = view s2 k" using unregister_removes_session [OF assms(1) w2 one] by blast
  have "view s3 (company_key c1) = view s1 (company_key c1)" using s3(3) r2 assms(5) by simp
  then have "company_users (view s3) c1 = Some (if u \<in> set xs1 then xs1 else xs1 @ [u])" using r1 by (simp add: company_users_def doc_at_def)
  then show ?thesis using s3(1,2) redis_up.active_users_up [OF up] by auto
qed

theorem first_company_keeps_user_witness:
  "\<exists>s3. unregister_user_session mem_redis mem_scan ''s''
      (snd (register_user_session mem_redis (\<lambda>_ _ s. (Inr (), s)) ''u'' ''s'' ''c2'' [] None ''now'' ''0''
        (snd (register_user_session mem_redis (\<lambda>_ _ s. (Inr (), s)) ''u'' ''s'' ''c1'' [] None ''now'' ''0'' empty_mem)))) = Some (True, s3) \<and>
    ''u'' \<in> set (fst (get_company_active_users mem_redis ''c1'' s3))"
proof -
  have h: "wf_registry (mem_view empty_mem)" "company_ok (mem_view empty_mem) ''c1'' []" "company_ok (mem_view empty_mem) ''c2'' []" "''c1'' \<noteq> ''c2''"
    by (simp_all add: wf_registry_def company_ok_def empty_view)
  have n: "\<And>u d s. mem_view (snd ((\<lambda>_ _ s. (Inr (), s)) u d s)) = mem_view s" by simp
  have o: "\<forall>u' c'. registration (mem_view empty_mem) u' ''s'' c' \<longrightarrow> u' = ''u''" by (simp add: registration_def doc_at_def empty_view)
  show ?thesis using first_company_keeps_user [OF mem_redis_scan h n o refl refl] by blast
qed

subsection \<open>Presence and old tasks\<close>

context redis_up
begin

lemma heartbeat_up:
  assumes "doc_at (view s) (unified_key u) = Some d" and "map_of d ''user_info'' = Some (PDict ui)" and "map_of d ''heartbeat'' = Some (PDict hb)"
  shows "fst (update_user_heartbeat rc u now ep s) \<and>
    doc_at (view (snd (update_user_heartbeat rc u now ep s))) (unified_key u) =
      Some (dset (dset d ''user_info'' (PDict (dset ui ''last_seen_at'' (PStr now)))) ''heartbeat'' (PDict (dset hb ''last_heartbeat'' (PStr now))))"
proof -
  let ?d = "dset (dset d ''user_info'' (PDict (dset ui ''last_seen_at'' (PStr now)))) ''heartbeat'' (PDict (dset hb ''last_heartbeat'' (PStr now)))"
  let ?fs = "[(''data'', json_dumps (PDict ?d)), (''last_update'', Raw ep)]"
  have ne: "?fs \<noteq> []" by simp
  have live: "view s (unified_key u) \<noteq> None" using assms(1) by (auto simp: doc_at_def split: option.splits)
  obtain m s1 where e: "r_exists rc (unified_key u) s = (Inr m, s1)" using exists_ok by blast
  then have 1: "r_exists rc (unified_key u) s = (Inr 1, s1)" "view s1 = view s" using exists_law [OF e] live by auto
  have d1: "doc_at (view s1) (unified_key u) = Some d" using assms(1) 1(2) by simp
  obtain s2 where 2: "r_hget rc (unified_key u) ''data'' s1 = (Inr (Some (Json (PDict d))), s2)" "view s2 = view s1" by (rule hget_doc [OF d1])
  have h: "hash_key (view s2) (unified_key u)" using doc_at_hash [OF d1] 2(2) by simp
  obtain n s3 where 3: "r_hset rc (unified_key u) ?fs s2 = (Inr n, s3)"
    "view s3 = (view s2)(unified_key u \<mapsto> (VHash (AList.updates (map fst ?fs) (map snd ?fs) (hash_at (view s2) (unified_key u))), ttl_at (view s2) (unified_key u)))"
    by (rule hset_up [OF h ne])
  have d3: "doc_at (view s3) (unified_key u) = Some ?d" using 3(2) by (simp add: doc_at_Some update_conv json_dumps_def)
  have t: "0 < REGISTRY_TTL" by (simp add: REGISTRY_TTL_def)
  obtain b s4 where 4: "r_expire rc (unified_key u) REGISTRY_TTL s3 = (Inr b, s4)" "doc_at (view s4) (unified_key u) = Some ?d" by (rule expire_doc [OF d3 t])
  have "update_user_heartbeat rc u now ep s = (True, s4)" using 1(1) 2(1) 3(1) 4(1) live assms(2,3)
    by (simp add: update_user_heartbeat_def seq_defs rbind_def set_in_def dict_at_def ditem_def update_conv)
  then show ?thesis using 4(2) by simp
qed

end

text \<open>A heartbeat keeps a registered user connected for 300 seconds: it is recorded whatever the time of the last one, and the
  user counts as connected at \<open>t\<close> exactly when the text of the heartbeat is a time with a zone that is less than 300 seconds before.\<close>

theorem heartbeat_connects:
  assumes "redis_up rc view tick" and "doc_at (view s) (unified_key u) = Some d" and "map_of d ''user_info'' = Some (PDict ui)"
    and "map_of d ''heartbeat'' = Some (PDict hb)" and "update_user_heartbeat rc u now ep s = (ok, s')" and "now \<noteq> []"
  shows "ok \<and> (fst (reg_is_user_connected rc parse u t s') \<longleftrightarrow> (\<exists>h. parse (heartbeat_text now) = Some (h, True) \<and> t - h < 300)) \<and>
    (fst (get_user_connection_mode rc parse u t s') = (if fst (reg_is_user_connected rc parse u t s') then ''UI'' else ''BACKEND''))"
proof -
  let ?d = "dset (dset d ''user_info'' (PDict (dset ui ''last_seen_at'' (PStr now)))) ''heartbeat'' (PDict (dset hb ''last_heartbeat'' (PStr now)))"
  have "doc_at (view s') (unified_key u) = Some ?d" "ok" using redis_up.heartbeat_up [OF assms(1-4), of now ep] assms(5) by auto
  then have "fst (get_user_registry rc u s') = PDict ?d" using redis_up.get_user_registry_doc [OF assms(1)] by blast
  then have "fst (reg_is_user_connected rc parse u t s') \<longleftrightarrow> (\<exists>h. parse (heartbeat_text now) = Some (h, True) \<and> t - h < 300)"
    using assms(6) by (auto simp: reg_is_user_connected_def case_prod_unfold dget_def update_conv split: option.splits bool.splits)
  then show ?thesis using \<open>ok\<close> by (simp add: get_user_connection_mode_def case_prod_unfold)
qed

theorem heartbeat_connects_witness:
  "fst (get_user_connection_mode mem_redis (\<lambda>_. Some (1000, True)) ''u'' 1299 (snd (update_user_heartbeat mem_redis ''u'' ''t'' ''0'' demo_registry))) = ''UI'' \<and>
   fst (get_user_connection_mode mem_redis (\<lambda>_. Some (1000, True)) ''u'' 1300 (snd (update_user_heartbeat mem_redis ''u'' ''t'' ''0'' demo_registry))) = ''BACKEND''"
proof -
  obtain ui hb where d: "map_of (registry_record ''u'' ''s1'' ''c'' [''c''] [] ''now'') ''user_info'' = Some (PDict ui)"
    "map_of (registry_record ''u'' ''s1'' ''c'' [''c''] [] ''now'') ''heartbeat'' = Some (PDict hb)" by (simp add: registry_record_def)
  note h = heartbeat_connects [OF mem_redis_up demo_registry_up(1) d prod.collapse [symmetric],
      where now = "''t''" and parse = "\<lambda>_. Some (1000, True)" and ep = "''0''"]
  show ?thesis using h [where t = 1299] h [where t = 1300] by simp
qed

text \<open>The clean-up of tasks ends and deletes exactly the tasks whose stored time of creation is more than 7200 seconds old,
  whatever their state and the duration they were given.\<close>

theorem cleanup_deletes_old_tasks:
  assumes "redis_scan rc view tick sc todo rank" and "tasks_are_hashes (view s)"
  shows "\<exists>s'. cleanup_expired_entries rc sc to_float now s = Some s' \<and>
    view s' = (\<lambda>k. if expired_task to_float now (view s) k then None else view s k)"
proof -
  obtain s' where s': "cleanup_from rc sc to_float now 0 s = Some s'"
    "\<forall>k. view s' k = view s k \<or> (view s' k = None \<and> expired_task to_float now (view s) k)"
    "\<forall>k \<in> todo 0. expired_task to_float now (view s) k \<longrightarrow> view s' k = None"
    using redis_scan.cleanup_from_ends [OF assms] by blast
  have "view s' = (\<lambda>k. if expired_task to_float now (view s) k then None else view s k)"
    using s'(2,3) redis_scan.todo_start [OF assms(1)] by (auto simp: fun_eq_iff)
  then show ?thesis using s'(1) by (auto simp: cleanup_expired_entries_def)
qed

theorem cleanup_deletes_old_tasks_witness:
  "\<exists>s s'. mem_view s (task_key ''a'') \<noteq> None \<and> cleanup_expired_entries mem_redis mem_scan (\<lambda>_. Some 0) 7201 s = Some s' \<and>
    mem_view s' (task_key ''a'') = None"
proof -
  let ?fs = "[(''created_at'', Raw ''0'')]"
  have h: "hash_key (mem_view empty_mem) (task_key ''a'')" "?fs \<noteq> []" by (simp_all add: hash_key_def empty_view)
  obtain n s where s: "r_hset mem_redis (task_key ''a'') ?fs empty_mem = (Inr n, s)"
    "mem_view s = (mem_view empty_mem)(task_key ''a'' \<mapsto> (VHash (AList.updates (map fst ?fs) (map snd ?fs) (hash_at (mem_view empty_mem) (task_key ''a''))),
       ttl_at (mem_view empty_mem) (task_key ''a'')))" by (rule redis_up.hset_up [OF mem_redis_up h])
  have t: "tasks_are_hashes (mem_view s)" using s(2) by (simp add: tasks_are_hashes_def hash_key_def empty_view)
  have e: "expired_task (\<lambda>_. Some 0) 7201 (mem_view s) (task_key ''a'')" using s(2)
    by (simp add: expired_task_def hash_at_def empty_view task_key_def)
  obtain s' where "cleanup_expired_entries mem_redis mem_scan (\<lambda>_. Some 0) 7201 s = Some s'"
    "mem_view s' = (\<lambda>k. if expired_task (\<lambda>_. Some 0) 7201 (mem_view s) k then None else mem_view s k)"
    using cleanup_deletes_old_tasks [OF mem_redis_scan t] by blast
  then show ?thesis using e s(2) by (intro exI [of _ s] exI [of _ s']) simp
qed

end
