(* ===== verification/Redis_Out.thy ===== *)
theory Redis_Out
  imports Redis_Client
begin

text \<open>
  Messages published on Redis channels. \<open>out\<close> is the sequence of messages published so far; the locale
  \<open>redis_out\<close> adds to a reachable server that \<open>PUBLISH\<close> appends to it and that the other commands of the
  components which publish leave it alone.
\<close>

locale redis_out = redis_up rc view tick
  for rc :: "'s redis" and view :: "'s \<Rightarrow> rview" and tick :: "nat \<Rightarrow> 's \<Rightarrow> 's" +
  fixes out :: "'s \<Rightarrow> (string \<times> text_val) list"
  assumes publish_out: "r_publish rc ch t s = (Inr n, s') \<Longrightarrow> out s' = out s @ [(ch, t)]"
    and get_out: "out (snd (r_get rc k s)) = out s"
    and setex_out: "out (snd (r_setex rc k ttl t s)) = out s"
    and delete_out: "out (snd (r_delete rc ks s)) = out s"
    and lpush_out: "out (snd (r_lpush rc k t s)) = out s"
begin

lemma get_str:
  assumes "str_key (view s) k"
  obtains s' where "r_get rc k s = (Inr (str_at (view s) k), s')" "view s' = view s" "out s' = out s"
proof -
  obtain s' where r: "r_get rc k s = (Inr (str_at (view s) k), s')" "view s' = view s" by (rule get_up [OF assms])
  show thesis using that [OF r] get_out [of k s] r(1) by simp
qed

lemma setex_str:
  assumes "0 < ttl"
  obtains s' where "r_setex rc k ttl t s = (Inr (), s')" "view s' = (view s)(k \<mapsto> (VStr t, Some ttl))" "out s' = out s"
proof -
  obtain s' where r: "r_setex rc k ttl t s = (Inr (), s')" "view s' = (view s)(k \<mapsto> (VStr t, Some ttl))" by (rule setex_up [OF assms])
  show thesis using that [OF r] setex_out [of k ttl t s] r(1) by simp
qed

lemma delete_key:
  obtains n s' where "r_delete rc [k] s = (Inr n, s')" "view s' = (view s)(k := None)" "out s' = out s"
proof -
  obtain s' where r: "r_delete rc [k] s = (Inr (if view s k = None then 0 else 1), s')" "view s' = (view s)(k := None)" by (rule delete1_up)
  show thesis using that [OF r] delete_out [of "[k]" s] r(1) by simp
qed

lemma lpush_list:
  assumes "list_key (view s) k"
  obtains n s' where "r_lpush rc k t s = (Inr n, s')" "view s' = (view s)(k \<mapsto> (VList (t # list_at (view s) k), ttl_at (view s) k))" "out s' = out s"
proof -
  obtain n s' where r: "r_lpush rc k t s = (Inr n, s')" "view s' = (view s)(k \<mapsto> (VList (t # list_at (view s) k), ttl_at (view s) k))"
    by (rule lpush_up [OF assms])
  show thesis using that [OF r] lpush_out [of k t s] r(1) by simp
qed

lemma publish_msg:
  obtains n s' where "r_publish rc ch t s = (Inr n, s')" "view s' = view s" "out s' = out s @ [(ch, t)]"
proof -
  obtain n s' where r: "r_publish rc ch t s = (Inr n, s')" using publish_ok by blast
  show thesis using that [OF r] publish_law [OF r] publish_out [OF r] by blast
qed

end

lemma mem_put_out [simp]: "m_out (mem_put k v ttl s) = m_out s"
  by (simp add: mem_put_def)

interpretation mem_out: redis_out mem_redis mem_view mem_tick m_out
  by unfold_locales (auto simp: mem_redis_def)

lemma mem_redis_out: "redis_out mem_redis mem_view mem_tick m_out"
  by (rule mem_out.redis_out_axioms)

end
