(* ===== verification/Llm_Gateway.thy ===== *)
theory Llm_Gateway
  imports Redis_Out Py_Access
begin

text \<open>
  \<open>ECSManager\<close> of \<open>src/app/ecs_manager.py\<close> and \<open>LLMGateway\<close> of \<open>src/app/llm_service/llm_gateway.py\<close>. The gateway writes the
  requests for the language-model worker to the left end of a Redis list, from the right end of which the worker takes
  them, and starts the worker where none is running. The client of the container service is the argument \<open>ec\<close>; the new
  identifier of a job and the reading of the clock are arguments. Log output and the singletons are left out.
\<close>

section \<open>Definitions\<close>

subsection \<open>Workers\<close>

record service_state =
  svc_desired :: nat
  svc_running :: nat
  svc_pending :: nat
  svc_status :: string

text \<open>Making the client, \<open>describe_services\<close> of one service and \<open>update_service\<close>.\<close>

record 's ecs =
  ecs_client :: "'s \<Rightarrow> unit result \<times> 's"
  describe_service :: "string \<Rightarrow> 's \<Rightarrow> service_state option result \<times> 's"
  update_service :: "string \<Rightarrow> nat \<Rightarrow> 's \<Rightarrow> unit result \<times> 's"

text \<open>The names of the services are the defaults of their environment variables; the container names are not read.\<close>

definition SERVICE_CONFIG :: "(string \<times> string) list" where
  "SERVICE_CONFIG = [(''router'', ''klk_router_service''), (''apbookeeper'', ''klk_apbookeeper_service''),
     (''bankbookeeper'', ''klk_banker_service''), (''hr'', ''pinnokio_hr_worker_service''), (''llm_worker'', ''pinnokio_llm_worker_service'')]"

definition status_dict :: "string \<Rightarrow> pydict \<Rightarrow> pydict" where
  "status_dict status rest = (''status'', PStr status) # rest"

definition ensure_worker_running :: "'s ecs \<Rightarrow> string \<Rightarrow> 's \<Rightarrow> pydict result \<times> 's" where
  "ensure_worker_running ec job_type =
     (case map_of SERVICE_CONFIG job_type of
        None \<Rightarrow> sret (status_dict ''unknown_job_type'' [])
      | Some service_name \<Rightarrow>
          sbind (ecs_client ec) (\<lambda>_. sbind (describe_service ec service_name) (\<lambda>svc.
            case svc of
              None \<Rightarrow> sret (status_dict ''service_not_found'' [])
            | Some v \<Rightarrow>
                if 0 < svc_running v then sret (status_dict ''already_running'' [(''running'', PNum (of_nat (svc_running v)))])
                else if svc_desired v = 0 then sbind (update_service ec service_name 1) (\<lambda>_. sret (status_dict ''starting'' []))
                else sret (status_dict ''provisioning'' [(''pending'', PNum (of_nat (svc_pending v)))]))))"

definition scale_down :: "'s ecs \<Rightarrow> string \<Rightarrow> 's \<Rightarrow> pydict result \<times> 's" where
  "scale_down ec job_type =
     (case map_of SERVICE_CONFIG job_type of
        None \<Rightarrow> sret (status_dict ''unknown_job_type'' [])
      | Some service_name \<Rightarrow> sbind (ecs_client ec) (\<lambda>_. sbind (update_service ec service_name 0) (\<lambda>_. sret (status_dict ''scaling_down'' []))))"

datatype worker_status = Unknown_job_type | Service_not_found | Worker_error | Worker string service_state

definition get_worker_status :: "'s ecs \<Rightarrow> string \<Rightarrow> 's \<Rightarrow> worker_status \<times> 's" where
  "get_worker_status ec job_type =
     (case map_of SERVICE_CONFIG job_type of
        None \<Rightarrow> Pair Unknown_job_type
      | Some service_name \<Rightarrow>
          stry (sbind (ecs_client ec) (\<lambda>_. sbind (describe_service ec service_name) (\<lambda>svc.
                  sret (case svc of None \<Rightarrow> Service_not_found | Some v \<Rightarrow> Worker service_name v))))
            (\<lambda>_. Worker_error))"

subsection \<open>The queue\<close>

definition QUEUE_NAME :: string where
  "QUEUE_NAME = ''queue:llm_jobs''"

definition CHAT_MODE_TO_MODULE :: "(string \<times> string) list" where
  "CHAT_MODE_TO_MODULE = [(''router_chat'', ''router''), (''ap_chat'', ''apbookeeper''), (''banker_chat'', ''banker''),
     (''general_chat'', ''general''), (''onboarding_chat'', ''onboarding'')]"

definition ensure_llm_worker :: "'s ecs \<Rightarrow> 's \<Rightarrow> unit result \<times> 's" where
  "ensure_llm_worker ec s = (Inr (), snd (ensure_worker_running ec ''llm_worker'' s))"

definition gw_job :: "string \<Rightarrow> string \<Rightarrow> pydict \<Rightarrow> string \<Rightarrow> pydict" where
  "gw_job job_id job_type params now =
     [(''job_id'', PStr job_id), (''type'', PStr job_type), (''params'', PDict params), (''queued_at'', PStr now)]"

definition queued :: "string \<Rightarrow> string \<Rightarrow> pydict" where
  "queued job_id message = [(''status'', PStr ''queued''), (''job_id'', PStr job_id), (''message'', PStr message)]"

definition push_job :: "'s redis \<Rightarrow> 's ecs \<Rightarrow> pydict \<Rightarrow> 's \<Rightarrow> unit result \<times> 's" where
  "push_job rc ec job = sbind (r_lpush rc QUEUE_NAME (json_dumps (PDict job))) (\<lambda>_. ensure_llm_worker ec)"

definition opt_str :: "string option \<Rightarrow> pyval" where
  "opt_str t = (case t of None \<Rightarrow> PNone | Some x \<Rightarrow> PStr x)"

definition comm_thread_key :: "string \<Rightarrow> string \<Rightarrow> string" where
  "comm_thread_key user_id mdl = ''comm_thread:'' @ user_id @ '':'' @ mdl"

definition clear_comm_thread :: "'s redis \<Rightarrow> string \<Rightarrow> string \<Rightarrow> pydict \<Rightarrow> 's \<Rightarrow> unit result \<times> 's" where
  "clear_comm_thread rc user_id chat_mode kwargs s =
     (if dget_or kwargs ''communication_chat_type'' (PStr ''pinnokio'') = PStr ''pinnokio''
      then case map_of CHAT_MODE_TO_MODULE chat_mode of
             None \<Rightarrow> (Inr (), s)
           | Some mdl \<Rightarrow> (Inr (), snd (r_delete rc [comm_thread_key user_id mdl] s))
      else (Inr (), s))"

definition message_params :: "string \<Rightarrow> string \<Rightarrow> string \<Rightarrow> string \<Rightarrow> string \<Rightarrow> string option \<Rightarrow> string option \<Rightarrow> pydict \<Rightarrow> pydict" where
  "message_params user_id collection_name thread_key message chat_mode system_prompt selected_tool kwargs =
     dupdate [(''user_id'', PStr user_id), (''collection_name'', PStr collection_name), (''thread_key'', PStr thread_key),
       (''message'', PStr message), (''chat_mode'', PStr chat_mode), (''system_prompt'', opt_str system_prompt),
       (''selected_tool'', opt_str selected_tool)] kwargs"

definition enqueue_message ::
  "'s redis \<Rightarrow> 's ecs \<Rightarrow> string \<Rightarrow> string \<Rightarrow> string \<Rightarrow> string \<Rightarrow> string \<Rightarrow> string option \<Rightarrow> string option \<Rightarrow> pydict \<Rightarrow> string \<Rightarrow> string \<Rightarrow> 's \<Rightarrow> pydict result \<times> 's" where
  "enqueue_message rc ec user_id collection_name thread_key message chat_mode system_prompt selected_tool kwargs job_id now =
     sbind (push_job rc ec (gw_job job_id ''send_message''
              (message_params user_id collection_name thread_key message chat_mode system_prompt selected_tool kwargs) now)) (\<lambda>_.
     sbind (clear_comm_thread rc user_id chat_mode kwargs) (\<lambda>_. sret (queued job_id ''Message enqueued for processing'')))"

definition enqueue_lpt_callback :: "'s redis \<Rightarrow> 's ecs \<Rightarrow> string \<Rightarrow> string \<Rightarrow> string \<Rightarrow> pydict \<Rightarrow> string \<Rightarrow> string \<Rightarrow> 's \<Rightarrow> pydict result \<times> 's" where
  "enqueue_lpt_callback rc ec user_id collection_name thread_key payload job_id now =
     sbind (push_job rc ec (gw_job job_id ''resume_workflow_after_lpt''
              (dupdate [(''user_id'', PStr user_id), (''company_id'', PStr collection_name), (''thread_key'', PStr thread_key)] payload) now))
       (\<lambda>_. sret (queued job_id ''LPT callback enqueued''))"

definition enqueue_scheduled_task :: "'s redis \<Rightarrow> 's ecs \<Rightarrow> string \<Rightarrow> string \<Rightarrow> string \<Rightarrow> pydict \<Rightarrow> string \<Rightarrow> string \<Rightarrow> 's \<Rightarrow> pydict result \<times> 's" where
  "enqueue_scheduled_task rc ec user_id collection_name thread_key task_data job_id now =
     sbind (push_job rc ec (gw_job job_id ''execute_scheduled_task''
              [(''user_id'', PStr user_id), (''collection_name'', PStr collection_name), (''thread_key'', PStr thread_key), (''task_data'', PDict task_data)] now))
       (\<lambda>_. sret (queued job_id ''Scheduled task enqueued''))"

definition enqueue_enter_chat :: "'s redis \<Rightarrow> 's ecs \<Rightarrow> string \<Rightarrow> string \<Rightarrow> string \<Rightarrow> string \<Rightarrow> string option \<Rightarrow> string \<Rightarrow> string \<Rightarrow> string \<Rightarrow> 's \<Rightarrow> pydict result \<times> 's" where
  "enqueue_enter_chat rc ec user_id collection_name thread_key chat_mode initial_message tab_session_id job_id now =
     sbind (push_job rc ec (gw_job job_id ''enter_chat''
              [(''user_id'', PStr user_id), (''collection_name'', PStr collection_name), (''thread_key'', PStr thread_key),
               (''chat_mode'', PStr chat_mode), (''initial_message'', opt_str initial_message), (''tab_session_id'', PStr tab_session_id)] now))
       (\<lambda>_. sret (queued job_id ''Chat initialization enqueued''))"

definition card_response_params :: "string \<Rightarrow> string \<Rightarrow> string \<Rightarrow> string \<Rightarrow> string \<Rightarrow> pyval \<Rightarrow> string \<Rightarrow> pydict \<Rightarrow> string \<Rightarrow> pydict \<Rightarrow> pydict" where
  "card_response_params user_id collection_name thread_key card_name card_message_id action user_message message_data tab_session_id kwargs =
     dupdate [(''user_id'', PStr user_id), (''collection_name'', PStr collection_name), (''thread_key'', PStr thread_key),
       (''card_name'', PStr card_name), (''card_message_id'', PStr card_message_id), (''action'', action), (''user_message'', PStr user_message),
       (''message_data'', PDict message_data), (''tab_session_id'', PStr tab_session_id)] kwargs"

definition enqueue_card_response ::
  "'s redis \<Rightarrow> 's ecs \<Rightarrow> string \<Rightarrow> string \<Rightarrow> string \<Rightarrow> string \<Rightarrow> string \<Rightarrow> pyval \<Rightarrow> string \<Rightarrow> pydict \<Rightarrow> string \<Rightarrow> pydict \<Rightarrow> string \<Rightarrow> string \<Rightarrow> 's \<Rightarrow> pydict result \<times> 's" where
  "enqueue_card_response rc ec user_id collection_name thread_key card_name card_message_id action user_message message_data tab_session_id kwargs job_id now =
     sbind (push_job rc ec (gw_job job_id ''send_card_response''
              (card_response_params user_id collection_name thread_key card_name card_message_id action user_message message_data tab_session_id kwargs) now))
       (\<lambda>_. sret (queued job_id ''Card response enqueued''))"

definition enqueue_onboarding_chat :: "'s redis \<Rightarrow> 's ecs \<Rightarrow> string \<Rightarrow> string \<Rightarrow> string \<Rightarrow> string \<Rightarrow> string \<Rightarrow> string \<Rightarrow> 's \<Rightarrow> pydict result \<times> 's" where
  "enqueue_onboarding_chat rc ec user_id collection_name thread_key chat_mode job_id now =
     sbind (push_job rc ec (gw_job job_id ''start_onboarding_chat''
              [(''user_id'', PStr user_id), (''collection_name'', PStr collection_name), (''thread_key'', PStr thread_key), (''chat_mode'', PStr chat_mode)] now))
       (\<lambda>_. sret (queued job_id ''Onboarding chat enqueued''))"

definition enqueue_invalidate_context :: "'s redis \<Rightarrow> 's ecs \<Rightarrow> string \<Rightarrow> string \<Rightarrow> string \<Rightarrow> string \<Rightarrow> 's \<Rightarrow> pydict result \<times> 's" where
  "enqueue_invalidate_context rc ec user_id collection_name job_id now =
     sbind (push_job rc ec (gw_job job_id ''invalidate_context'' [(''user_id'', PStr user_id), (''collection_name'', PStr collection_name)] now))
       (\<lambda>_. sret (queued job_id ''Context invalidation enqueued''))"

definition enqueue_stop_streaming :: "'s redis \<Rightarrow> 's ecs \<Rightarrow> string \<Rightarrow> string \<Rightarrow> string \<Rightarrow> string \<Rightarrow> string \<Rightarrow> 's \<Rightarrow> pydict result \<times> 's" where
  "enqueue_stop_streaming rc ec user_id collection_name thread_key job_id now =
     sbind (push_job rc ec (gw_job job_id ''stop_streaming''
              [(''user_id'', PStr user_id), (''collection_name'', PStr collection_name), (''thread_key'', PStr thread_key)] now))
       (\<lambda>_. sret (queued job_id ''Stop streaming enqueued''))"

definition enqueue_job_chat_message :: "'s redis \<Rightarrow> 's ecs \<Rightarrow> string \<Rightarrow> string \<Rightarrow> string \<Rightarrow> string \<Rightarrow> pydict \<Rightarrow> string \<Rightarrow> string \<Rightarrow> 's \<Rightarrow> pydict result \<times> 's" where
  "enqueue_job_chat_message rc ec user_id collection_name thread_key job_id message queue_job_id now =
     sbind (push_job rc ec (gw_job queue_job_id ''handle_job_chat_message''
              [(''user_id'', PStr user_id), (''collection_name'', PStr collection_name), (''thread_key'', PStr thread_key), (''job_id'', PStr job_id),
               (''message'', PDict message)] now))
       (\<lambda>_. sret (queued queue_job_id ''Job chat message enqueued''))"

definition get_queue_length :: "'s redis \<Rightarrow> 's \<Rightarrow> nat result \<times> 's" where
  "get_queue_length rc = r_llen rc QUEUE_NAME"

definition get_queue_stats :: "'s redis \<Rightarrow> 's \<Rightarrow> pydict result \<times> 's" where
  "get_queue_stats rc = sbind (get_queue_length rc) (\<lambda>n. sret [(''queue_name'', PStr QUEUE_NAME), (''length'', PNum (of_nat n))])"

section \<open>The queue in Redis\<close>

text \<open>One request to the gateway, with the arguments of its method.\<close>

datatype gw_call =
    Message string string string string string "string option" "string option" pydict
  | Lpt_callback string string string pydict
  | Scheduled_task string string string pydict
  | Enter_chat string string string string "string option" string
  | Card_response string string string string string pyval string pydict string pydict
  | Onboarding_chat string string string string
  | Invalidate_context string string
  | Stop_streaming string string string
  | Job_chat_message string string string string pydict

fun run_call :: "'s redis \<Rightarrow> 's ecs \<Rightarrow> gw_call \<times> string \<times> string \<Rightarrow> 's \<Rightarrow> pydict result \<times> 's" where
  "run_call rc ec (Message u c t m cm sp tool kw, i, now) = enqueue_message rc ec u c t m cm sp tool kw i now"
| "run_call rc ec (Lpt_callback u c t p, i, now) = enqueue_lpt_callback rc ec u c t p i now"
| "run_call rc ec (Scheduled_task u c t d, i, now) = enqueue_scheduled_task rc ec u c t d i now"
| "run_call rc ec (Enter_chat u c t cm im tab, i, now) = enqueue_enter_chat rc ec u c t cm im tab i now"
| "run_call rc ec (Card_response u c t n mi a um md tab kw, i, now) = enqueue_card_response rc ec u c t n mi a um md tab kw i now"
| "run_call rc ec (Onboarding_chat u c t cm, i, now) = enqueue_onboarding_chat rc ec u c t cm i now"
| "run_call rc ec (Invalidate_context u c, i, now) = enqueue_invalidate_context rc ec u c i now"
| "run_call rc ec (Stop_streaming u c t, i, now) = enqueue_stop_streaming rc ec u c t i now"
| "run_call rc ec (Job_chat_message u c t j m, i, now) = enqueue_job_chat_message rc ec u c t j m i now"

text \<open>The kind of job a request becomes, and the job itself.\<close>

fun call_type :: "gw_call \<Rightarrow> string" where
  "call_type (Message _ _ _ _ _ _ _ _) = ''send_message''"
| "call_type (Lpt_callback _ _ _ _) = ''resume_workflow_after_lpt''"
| "call_type (Scheduled_task _ _ _ _) = ''execute_scheduled_task''"
| "call_type (Enter_chat _ _ _ _ _ _) = ''enter_chat''"
| "call_type (Card_response _ _ _ _ _ _ _ _ _ _) = ''send_card_response''"
| "call_type (Onboarding_chat _ _ _ _) = ''start_onboarding_chat''"
| "call_type (Invalidate_context _ _) = ''invalidate_context''"
| "call_type (Stop_streaming _ _ _) = ''stop_streaming''"
| "call_type (Job_chat_message _ _ _ _ _) = ''handle_job_chat_message''"

text \<open>What every job tells the worker: whose it is and what it is about.\<close>

fun call_params :: "gw_call \<Rightarrow> pydict" where
  "call_params (Message u c t m cm sp tool kw) =
     dupdate [(''user_id'', PStr u), (''collection_name'', PStr c), (''thread_key'', PStr t), (''message'', PStr m), (''chat_mode'', PStr cm),
       (''system_prompt'', opt_str sp), (''selected_tool'', opt_str tool)] kw"
| "call_params (Lpt_callback u c t p) = dupdate [(''user_id'', PStr u), (''company_id'', PStr c), (''thread_key'', PStr t)] p"
| "call_params (Scheduled_task u c t d) =
     [(''user_id'', PStr u), (''collection_name'', PStr c), (''thread_key'', PStr t), (''task_data'', PDict d)]"
| "call_params (Enter_chat u c t cm im tab) =
     [(''user_id'', PStr u), (''collection_name'', PStr c), (''thread_key'', PStr t), (''chat_mode'', PStr cm), (''initial_message'', opt_str im),
      (''tab_session_id'', PStr tab)]"
| "call_params (Card_response u c t n mi a um md tab kw) =
     dupdate [(''user_id'', PStr u), (''collection_name'', PStr c), (''thread_key'', PStr t), (''card_name'', PStr n), (''card_message_id'', PStr mi),
       (''action'', a), (''user_message'', PStr um), (''message_data'', PDict md), (''tab_session_id'', PStr tab)] kw"
| "call_params (Onboarding_chat u c t cm) =
     [(''user_id'', PStr u), (''collection_name'', PStr c), (''thread_key'', PStr t), (''chat_mode'', PStr cm)]"
| "call_params (Invalidate_context u c) = [(''user_id'', PStr u), (''collection_name'', PStr c)]"
| "call_params (Stop_streaming u c t) = [(''user_id'', PStr u), (''collection_name'', PStr c), (''thread_key'', PStr t)]"
| "call_params (Job_chat_message u c t j m) =
     [(''user_id'', PStr u), (''collection_name'', PStr c), (''thread_key'', PStr t), (''job_id'', PStr j), (''message'', PDict m)]"

definition call_job :: "gw_call \<times> string \<times> string \<Rightarrow> text_val" where
  "call_job c = Json (PDict (gw_job (fst (snd c)) (call_type (fst c)) (call_params (fst c)) (snd (snd c))))"

definition run_calls :: "'s redis \<Rightarrow> 's ecs \<Rightarrow> (gw_call \<times> string \<times> string) list \<Rightarrow> 's \<Rightarrow> 's" where
  "run_calls rc ec cs s = fold (\<lambda>c s. snd (run_call rc ec c s)) cs s"

lemma queue_not_comm [simp]: "comm_thread_key u m \<noteq> QUEUE_NAME" "QUEUE_NAME \<noteq> comm_thread_key u m"
  by (simp_all add: comm_thread_key_def QUEUE_NAME_def)

locale gateway = redis_out rc view tick out
  for rc :: "'s redis" and view :: "'s \<Rightarrow> rview" and tick :: "nat \<Rightarrow> 's \<Rightarrow> 's" and out :: "'s \<Rightarrow> (string \<times> text_val) list" +
  fixes ec :: "'s ecs"
  assumes client_keeps: "view (snd (ecs_client ec s)) = view s \<and> out (snd (ecs_client ec s)) = out s"
    and describe_keeps: "view (snd (describe_service ec n s)) = view s \<and> out (snd (describe_service ec n s)) = out s"
    and update_keeps: "view (snd (update_service ec n d s)) = view s \<and> out (snd (update_service ec n d s)) = out s"
begin

lemma ensure_keeps: "view (snd (ensure_worker_running ec j s)) = view s \<and> out (snd (ensure_worker_running ec j s)) = out s"
proof (cases "map_of SERVICE_CONFIG j")
  case None
  then show ?thesis by (simp add: ensure_worker_running_def sret_def)
next
  case (Some n)
  obtain r1 s1 where 1: "ecs_client ec s = (r1, s1)" by fastforce
  obtain r2 s2 where 2: "describe_service ec n s1 = (r2, s2)" by fastforce
  obtain r3 s3 where 3: "update_service ec n 1 s2 = (r3, s3)" by fastforce
  show ?thesis using Some 1 2 3 client_keeps [of s] describe_keeps [of n s1] update_keeps [of n 1 s2]
    by (auto simp: ensure_worker_running_def seq_defs split: sum.split option.split)
qed

lemma push_up:
  assumes "list_key (view s) QUEUE_NAME"
  obtains s' where "push_job rc ec j s = (Inr (), s')" "out s' = out s"
    "view s' = (view s)(QUEUE_NAME \<mapsto> (VList (Json (PDict j) # list_at (view s) QUEUE_NAME), ttl_at (view s) QUEUE_NAME))"
proof -
  obtain n s1 where 1: "r_lpush rc QUEUE_NAME (json_dumps (PDict j)) s = (Inr n, s1)"
    "view s1 = (view s)(QUEUE_NAME \<mapsto> (VList (json_dumps (PDict j) # list_at (view s) QUEUE_NAME), ttl_at (view s) QUEUE_NAME))" "out s1 = out s"
    by (rule lpush_list [OF assms])
  show thesis using that [of "snd (ensure_worker_running ec ''llm_worker'' s1)"] 1 ensure_keeps [of "''llm_worker''" s1]
    by (simp add: push_job_def sbind_def ensure_llm_worker_def json_dumps_def)
qed

lemma push_ret:
  assumes "list_key (view s) QUEUE_NAME"
  shows "\<exists>s'. sbind (push_job rc ec j) (\<lambda>_. sret r) s = (Inr r, s') \<and> out s' = out s \<and>
    view s' = (view s)(QUEUE_NAME \<mapsto> (VList (Json (PDict j) # list_at (view s) QUEUE_NAME), ttl_at (view s) QUEUE_NAME))"
proof -
  obtain s' where "push_job rc ec j s = (Inr (), s')" "out s' = out s"
    "view s' = (view s)(QUEUE_NAME \<mapsto> (VList (Json (PDict j) # list_at (view s) QUEUE_NAME), ttl_at (view s) QUEUE_NAME))" by (rule push_up [OF assms])
  then show ?thesis by (simp add: seq_defs)
qed

lemma clear_up:
  "fst (clear_comm_thread rc u cm kw s) = Inr () \<and> out (snd (clear_comm_thread rc u cm kw s)) = out s \<and>
   view (snd (clear_comm_thread rc u cm kw s)) =
     (case map_of CHAT_MODE_TO_MODULE cm of
        Some m \<Rightarrow> if dget_or kw ''communication_chat_type'' (PStr ''pinnokio'') = PStr ''pinnokio''
                   then (view s)(comm_thread_key u m := None) else view s
      | None \<Rightarrow> view s)"
proof (cases "map_of CHAT_MODE_TO_MODULE cm")
  case (Some m)
  obtain n s' where "r_delete rc [comm_thread_key u m] s = (Inr n, s')" "view s' = (view s)(comm_thread_key u m := None)" "out s' = out s"
    by (rule delete_key)
  then show ?thesis using Some by (simp add: clear_comm_thread_def)
qed (simp add: clear_comm_thread_def)

lemma message_up:
  assumes "list_key (view s) QUEUE_NAME"
  shows "\<exists>s' s1. enqueue_message rc ec u c t m cm sp tool kw i now s = (Inr (queued i ''Message enqueued for processing''), s') \<and> out s' = out s \<and>
    view s1 = (view s)(QUEUE_NAME \<mapsto> (VList (Json (PDict (gw_job i ''send_message'' (message_params u c t m cm sp tool kw) now)) # list_at (view s) QUEUE_NAME),
      ttl_at (view s) QUEUE_NAME)) \<and>
    view s' = (case map_of CHAT_MODE_TO_MODULE cm of
        Some m \<Rightarrow> if dget_or kw ''communication_chat_type'' (PStr ''pinnokio'') = PStr ''pinnokio''
                   then (view s1)(comm_thread_key u m := None) else view s1
      | None \<Rightarrow> view s1)"
proof -
  let ?j = "gw_job i ''send_message'' (message_params u c t m cm sp tool kw) now"
  obtain s1 where 1: "push_job rc ec ?j s = (Inr (), s1)" "out s1 = out s"
    "view s1 = (view s)(QUEUE_NAME \<mapsto> (VList (Json (PDict ?j) # list_at (view s) QUEUE_NAME), ttl_at (view s) QUEUE_NAME))" by (rule push_up [OF assms])
  obtain s2 where c: "clear_comm_thread rc u cm kw s1 = (Inr (), s2)" using clear_up [of u cm kw s1] by (metis prod.collapse)
  have "enqueue_message rc ec u c t m cm sp tool kw i now s = (Inr (queued i ''Message enqueued for processing''), s2)"
    using 1(1) c by (simp add: enqueue_message_def sbind_def sret_def)
  then show ?thesis using clear_up [of u cm kw s1] 1(2,3) c by auto
qed

lemma run_call_up:
  assumes "list_key (view s) QUEUE_NAME"
  shows "\<exists>msg. fst (run_call rc ec c s) = Inr (queued (fst (snd c)) msg) \<and> out (snd (run_call rc ec c s)) = out s \<and>
    list_key (view (snd (run_call rc ec c s))) QUEUE_NAME \<and>
    list_at (view (snd (run_call rc ec c s))) QUEUE_NAME = call_job c # list_at (view s) QUEUE_NAME"
proof -
  obtain call i now where c: "c = (call, i, now)" by (cases c) auto
  have q: "\<exists>msg. fst (sbind (push_job rc ec (gw_job i ty ps now)) (\<lambda>_. sret (queued i m)) s) = Inr (queued i msg) \<and>
      out (snd (sbind (push_job rc ec (gw_job i ty ps now)) (\<lambda>_. sret (queued i m)) s)) = out s \<and>
      list_key (view (snd (sbind (push_job rc ec (gw_job i ty ps now)) (\<lambda>_. sret (queued i m)) s))) QUEUE_NAME \<and>
      list_at (view (snd (sbind (push_job rc ec (gw_job i ty ps now)) (\<lambda>_. sret (queued i m)) s))) QUEUE_NAME =
        Json (PDict (gw_job i ty ps now)) # list_at (view s) QUEUE_NAME" for ty ps m
    using push_ret [OF assms, of "gw_job i ty ps now" "queued i m"] by (auto simp: list_key_def list_at_def)
  show ?thesis
  proof (cases call)
    case (Message u co t m cm sp tool kw)
    note up = message_up [OF assms, of u co t m cm sp tool kw i now]
    then show ?thesis unfolding c Message
      by (elim exE conjE) (auto simp: call_job_def message_params_def list_key_def list_at_def split: option.splits if_splits)
  qed (use q in \<open>simp_all add: c call_job_def card_response_params_def enqueue_lpt_callback_def enqueue_scheduled_task_def enqueue_enter_chat_def
      enqueue_card_response_def enqueue_onboarding_chat_def enqueue_invalidate_context_def enqueue_stop_streaming_def enqueue_job_chat_message_def\<close>)
qed

end

section \<open>Properties\<close>

context gateway
begin

lemma run_calls_up:
  assumes "list_key (view s) QUEUE_NAME"
  shows "list_key (view (run_calls rc ec cs s)) QUEUE_NAME \<and>
    list_at (view (run_calls rc ec cs s)) QUEUE_NAME = rev (map call_job cs) @ list_at (view s) QUEUE_NAME"
  using assms
proof (induction cs arbitrary: s)
  case (Cons c cs)
  have "list_key (view (snd (run_call rc ec c s))) QUEUE_NAME"
    "list_at (view (snd (run_call rc ec c s))) QUEUE_NAME = call_job c # list_at (view s) QUEUE_NAME" using run_call_up [OF Cons.prems, of c] by blast+
  then show ?case using Cons.IH [of "snd (run_call rc ec c s)"] by (simp add: run_calls_def)
qed (simp add: run_calls_def)

end

text \<open>C9: The gateway is a first-in-first-out queue for the worker, which takes jobs from the right end: after any sequence of
  requests the jobs waiting before come first, then the jobs of the requests, one for each and in their order, and the length reported
  is their number.\<close>

theorem gateway_fifo:
  assumes "gateway rc view tick out ec" and "list_key (view s) QUEUE_NAME"
  shows "rev (list_at (view (run_calls rc ec cs s)) QUEUE_NAME) = rev (list_at (view s) QUEUE_NAME) @ map call_job cs \<and>
    fst (get_queue_length rc (run_calls rc ec cs s)) = Inr (length (list_at (view s) QUEUE_NAME) + length cs)"
proof -
  have up: "redis_up rc view tick" using assms(1) by (simp add: gateway_def redis_out_def)
  have sv: "redis_server rc view tick" using up by (rule redis_up.axioms(1))
  have q: "list_key (view (run_calls rc ec cs s)) QUEUE_NAME"
    "list_at (view (run_calls rc ec cs s)) QUEUE_NAME = rev (map call_job cs) @ list_at (view s) QUEUE_NAME"
    using gateway.run_calls_up [OF assms] by blast+
  obtain n s' where l: "r_llen rc QUEUE_NAME (run_calls rc ec cs s) = (Inr n, s')" using redis_up.llen_ok [OF up q(1)] by blast
  show ?thesis using redis_server.llen_law [OF sv l] l q(2) by (simp add: get_queue_length_def)
qed

text \<open>A container service that answers that a worker runs.\<close>

definition demo_ecs :: "mem ecs" where
  "demo_ecs = \<lparr>ecs_client = (\<lambda>s. (Inr (), s)),
     describe_service = (\<lambda>_ s. (Inr (Some \<lparr>svc_desired = 1, svc_running = 1, svc_pending = 0, svc_status = ''ACTIVE''\<rparr>), s)),
     update_service = (\<lambda>_ _ s. (Inr (), s))\<rparr>"

interpretation demo_gw: gateway mem_redis mem_view mem_tick m_out demo_ecs
  by unfold_locales (simp_all add: demo_ecs_def)

lemma demo_gateway: "gateway mem_redis mem_view mem_tick m_out demo_ecs"
  by (rule demo_gw.gateway_axioms)

theorem gateway_fifo_witness:
  "fst (get_queue_length mem_redis (run_calls mem_redis demo_ecs
     [(Message ''u'' ''c'' ''t'' ''hello'' ''general_chat'' None None [], ''1'', ''now''), (Stop_streaming ''u'' ''c'' ''t'', ''2'', ''now'')] empty_mem)) = Inr 2"
proof -
  have k: "list_key (mem_view empty_mem) QUEUE_NAME" "list_at (mem_view empty_mem) QUEUE_NAME = []"
    by (simp_all add: list_key_def list_at_def mem_view_def empty_mem_def)
  show ?thesis using gateway_fifo [OF demo_gateway k(1), of "[(Message ''u'' ''c'' ''t'' ''hello'' ''general_chat'' None None [], ''1'', ''now''),
      (Stop_streaming ''u'' ''c'' ''t'', ''2'', ''now'')]"] k(2) by simp
qed

end
