(* ===== verification/Card_Transformer.thy ===== *)
theory Card_Transformer
  imports Py_Access
begin

text \<open>
  \<open>CardTransformer\<close> of \<open>src/app/realtime/card_transformer.py\<close>: the widgets of a card in the \<open>cardsV2\<close> format of Google Chat are
  normalised for the browser, and a user's answer becomes the payload \<open>CARD_CLICKED_PINNOKIO\<close> the external workers read.
  \<open>show\<close> is \<open>str\<close> of a value that is neither a text nor a whole number, \<open>loads\<close> is \<open>json.loads\<close> of a text inside a message, \<open>None\<close> where it raises; the new
  identifier and the time are arguments. The parts of a card are dictionaries and lists as the format prescribes; a
  part of another type raises.
\<close>

section \<open>Definitions\<close>

subsection \<open>Tables\<close>

definition EXTERNAL_WORKER_CARD_IDS :: "string list" where
  "EXTERNAL_WORKER_CARD_IDS = [''klk_router_card'', ''klk_router_approval_card'', ''four_eyes_approval_card'', ''approval_card'',
     ''job_menu_card'', ''bank_list_file_card'', ''bank_file_list_card'', ''email_draft_approval_card'', ''journal_entry_approval_card'']"

definition DEFAULT_INVOKED_FUNCTION :: "(string \<times> string) list" where
  "DEFAULT_INVOKED_FUNCTION = [(''klk_router_card'', ''answer_pinnokio''), (''klk_router_approval_card'', ''answer_pinnokio''),
     (''four_eyes_approval_card'', ''approve_four_eyes''), (''approval_card'', ''approve_four_eyes''), (''job_menu_card'', ''navigate''),
     (''bank_list_file_card'', ''start_router_job''), (''bank_file_list_card'', ''start_router_job''),
     (''email_draft_approval_card'', ''email_draft_decision''), (''journal_entry_approval_card'', ''journal_entry_decision'')]"

definition FORM_FIELDS_BY_CARD :: "(string \<times> string list) list" where
  "FORM_FIELDS_BY_CARD = [(''klk_router_card'', [''pinnokio_func'', ''instructions'']),
     (''klk_router_approval_card'', [''pinnokio_func'', ''second_dropdown'', ''instructions'']),
     (''four_eyes_approval_card'', [''user_message'']), (''approval_card'', [''user_message'']), (''job_menu_card'', [''next_step'']),
     (''bank_list_file_card'', [''selected_files'', ''methode'']), (''bank_file_list_card'', [''selected_files'', ''methode'']),
     (''email_draft_approval_card'', [''decision'', ''modified_body'']), (''journal_entry_approval_card'', [''decision'', ''rejection_reason''])]"

definition is_external_worker_card :: "string \<Rightarrow> bool" where
  "is_external_worker_card card_id \<longleftrightarrow> card_id \<in> set EXTERNAL_WORKER_CARD_IDS"

subsection \<open>Widgets\<close>

text \<open>\<open>for x in d.get(k, [])\<close> over dictionaries.\<close>

definition each_dict :: "pydict \<Rightarrow> string \<Rightarrow> (pydict \<Rightarrow> 'a result) \<Rightarrow> 'a list result" where
  "each_dict d k f = rbind (py_iter (dget_or d k (PList []))) (rmap (\<lambda>v. rbind (as_dict v) f))"

definition selection_item :: "(pyval \<Rightarrow> string) \<Rightarrow> pydict \<Rightarrow> pydict" where
  "selection_item show d =
     [(''text'', PStr (py_str show (dget_or d ''text'' (PStr [])))),
      (''value'', PStr (py_str show (dget_or d ''value'' (dget_or d ''text'' (PStr [])))))]"

definition parse_selection :: "(pyval \<Rightarrow> string) \<Rightarrow> pydict \<Rightarrow> pydict result" where
  "parse_selection show sel =
     rbind (each_dict sel ''items'' (\<lambda>d. Inr (selection_item show d))) (\<lambda>items.
       let raw_default = dget sel ''value'';
           default_val = (if raw_default \<noteq> PNone then PStr (py_str show raw_default)
                          else case items of [] \<Rightarrow> PNone | it # _ \<Rightarrow> dget it ''value'') in
       Inr [(''type'', PStr (if dget_or sel ''type'' (PStr ''DROPDOWN'') = PStr ''MULTI_SELECT'' then ''multi_select'' else ''dropdown'')),
            (''name'', dget_or sel ''name'' (PStr [])), (''label'', dget_or sel ''label'' (PStr [])),
            (''items'', PList (map PDict items)), (''defaultValue'', default_val)])"

definition button_params :: "pydict \<Rightarrow> pydict result" where
  "button_params action_data =
     rbind (each_dict action_data ''parameters'' (\<lambda>p. rbind (as_str (dget_or p ''key'' (PStr []))) (\<lambda>k. Inr (k, dget_or p ''value'' (PStr [])))))
       (\<lambda>kvs. Inr (dupdate [] kvs))"

definition button_color :: "pyval \<Rightarrow> pyval result" where
  "button_color color =
     (if \<not> truthy color then Inr PNone
      else rbind (as_dict color) (\<lambda>c. rbind (as_num (dget_or c ''red'' (PNum 0))) (\<lambda>r. rbind (as_num (dget_or c ''green'' (PNum 0))) (\<lambda>g.
             rbind (as_num (dget_or c ''blue'' (PNum 0))) (\<lambda>b.
               Inr (if r < g \<and> b < g then PStr ''green'' else if g < r \<and> b < r then PStr ''red'' else PNone))))))"

definition parse_button :: "pydict \<Rightarrow> pydict result" where
  "parse_button btn =
     rbind (get_dict btn ''onClick'') (\<lambda>oc. rbind (get_dict oc ''action'') (\<lambda>action_data. rbind (button_params action_data) (\<lambda>btn_params.
     rbind (button_color (dget_or btn ''color'' (PDict []))) (\<lambda>color_str.
       Inr [(''text'', dget_or btn ''text'' (PStr [])), (''action'', dget_or action_data ''function'' (PStr [])),
            (''params'', if btn_params \<noteq> [] then PDict btn_params else PNone), (''color'', color_str),
            (''disabled'', dget_or btn ''disabled'' (PBool False))]))))"

definition parse_widget :: "(pyval \<Rightarrow> string) \<Rightarrow> pydict \<Rightarrow> pydict option result" where
  "parse_widget show widget =
     (case map_of widget ''selectionInput'' of
        Some v \<Rightarrow> rbind (as_dict v) (\<lambda>sel. rbind (parse_selection show sel) (\<lambda>w. Inr (Some w)))
      | None \<Rightarrow> (case map_of widget ''textInput'' of
        Some v \<Rightarrow> rbind (as_dict v) (\<lambda>ti.
          Inr (Some [(''type'', PStr ''text_input''), (''name'', dget_or ti ''name'' (PStr [])), (''label'', dget_or ti ''label'' (PStr [])),
                     (''hintText'', dget_or ti ''hintText'' (PStr []))]))
      | None \<Rightarrow> (case map_of widget ''buttonList'' of
        Some v \<Rightarrow> rbind (as_dict v) (\<lambda>bl. rbind (each_dict bl ''buttons'' parse_button) (\<lambda>buttons.
          Inr (Some [(''type'', PStr ''button_list''), (''buttons'', PList (map PDict buttons))])))
      | None \<Rightarrow> (case map_of widget ''textParagraph'' of
        Some v \<Rightarrow> rbind (as_dict v) (\<lambda>tp. Inr (Some [(''type'', PStr ''text_paragraph''), (''text'', dget_or tp ''text'' (PStr []))]))
      | None \<Rightarrow> (case map_of widget ''decoratedText'' of
        Some v \<Rightarrow> rbind (as_dict v) (\<lambda>dt.
          let label = dget_or dt ''topLabel'' (PStr []); text = dget_or dt ''text'' (PStr []) in
          Inr (Some [(''type'', PStr ''text_paragraph''),
                     (''text'', if truthy label then PStr (py_str show label @ '': '' @ py_str show text) else text)]))
      | None \<Rightarrow> Inr None)))))"

text \<open>The two nested loops over the sections of a card and their widgets.\<close>

definition extract_widgets_from_card_body :: "(pyval \<Rightarrow> string) \<Rightarrow> pydict \<Rightarrow> pydict list result" where
  "extract_widgets_from_card_body show card_body =
     rbind (each_dict card_body ''sections'' (\<lambda>section. each_dict section ''widgets'' (parse_widget show)))
       (\<lambda>wss. Inr (somes (concat wss)))"

subsection \<open>Cards for the browser\<close>

definition message_content :: "(string \<Rightarrow> pyval option) \<Rightarrow> pydict \<Rightarrow> pyval option" where
  "message_content loads message =
     (let raw = dget message ''content'' in
      if \<not> truthy raw then None else case raw of PStr t \<Rightarrow> loads t | v \<Rightarrow> Some v)"

definition button_card_params :: "pydict list \<Rightarrow> pydict result" where
  "button_card_params widgets =
     rbind (rmap (\<lambda>w. if dget w ''type'' = PStr ''button_list''
                       then each_dict w ''buttons'' (\<lambda>b. if truthy (dget b ''params'') then as_dict (dget b ''params'') else Inr [])
                       else Inr []) widgets)
       (\<lambda>pss. Inr (foldl dupdate [] (concat pss)))"

definition interactive_card :: "(pyval \<Rightarrow> string) \<Rightarrow> pydict \<Rightarrow> pydict \<Rightarrow> string \<Rightarrow> string \<Rightarrow> pydict option result" where
  "interactive_card show message content thread_key new_id =
     (let cards_v2 = dget_or content ''cardsV2'' (PList []) in
      if \<not> truthy cards_v2 then Inr None
      else rbind (as_list cards_v2) (\<lambda>cs. rbind (as_dict (hd cs)) (\<lambda>first_card.
        let card_id = dget_or first_card ''cardId'' (PStr []) in
        case card_id of
          PStr cid \<Rightarrow>
            (if \<not> is_external_worker_card cid then Inr None
             else rbind (get_dict first_card ''card'') (\<lambda>card_body. rbind (get_dict card_body ''header'') (\<lambda>header.
               rbind (extract_widgets_from_card_body show card_body) (\<lambda>widgets.
               rbind (rmap (\<lambda>w. as_str (dget_or w ''text'' (PStr []))) (filter (\<lambda>w. dget w ''type'' = PStr ''text_paragraph'') widgets)) (\<lambda>text_paragraphs.
               rbind (button_card_params widgets) (\<lambda>card_params.
                 Inr (Some [(''cardId'', card_id), (''cardType'', card_id), (''title'', dget_or header ''title'' (PStr ''Carte Interactive'')),
                   (''subtitle'', dget header ''subtitle''),
                   (''text'', if text_paragraphs \<noteq> [] then PStr (py_join [CHR 0x0A] text_paragraphs) else PNone),
                   (''params'', PDict card_params), (''entryData'', dget content ''entry_data''), (''isVisible'', PBool True),
                   (''threadKey'', PStr thread_key),
                   (''messageId'', py_or (dget message ''id'') (py_or (dget message ''message_id'') (PStr new_id))),
                   (''widgets'', PList (map PDict widgets))])))))))
        | _ \<Rightarrow> Inr None)))"

definition cardsv2_to_interactive_card ::
  "(pyval \<Rightarrow> string) \<Rightarrow> (string \<Rightarrow> pyval option) \<Rightarrow> pydict \<Rightarrow> string \<Rightarrow> string \<Rightarrow> pydict option" where
  "cardsv2_to_interactive_card show loads message thread_key new_id =
     (case message_content loads message of
        Some (PDict content) \<Rightarrow>
          (case interactive_card show message content thread_key new_id of Inr c \<Rightarrow> c | Inl _ \<Rightarrow> None)
      | _ \<Rightarrow> None)"

definition extract_card_id_from_message :: "(string \<Rightarrow> pyval option) \<Rightarrow> pydict \<Rightarrow> pyval" where
  "extract_card_id_from_message loads message =
     (case message_content loads message of
        Some (PDict content) \<Rightarrow>
          (let cards_v2 = dget_or content ''cardsV2'' (PList []) in
           case (if truthy cards_v2
                 then rbind (as_list cards_v2) (\<lambda>cs. rbind (as_dict (hd cs)) (\<lambda>c. Inr (dget c ''cardId'')))
                 else rbind (get_dict content ''message'') (\<lambda>m. Inr (dget m ''cardType''))) of
             Inr v \<Rightarrow> v | Inl _ \<Rightarrow> PNone)
      | _ \<Rightarrow> PNone)"

subsection \<open>Answers for the workers\<close>

definition determine_invoked_function :: "string \<Rightarrow> pyval \<Rightarrow> string" where
  "determine_invoked_function card_id action =
     (if card_id \<in> {''four_eyes_approval_card'', ''approval_card''}
      then if action \<in> {PStr ''reject'', PStr ''rejected'', PStr ''reject_four_eyes''} then ''reject_four_eyes'' else ''approve_four_eyes''
      else if card_id = ''job_menu_card'' then ''navigate''
      else case map_of DEFAULT_INVOKED_FUNCTION card_id of Some f \<Rightarrow> f | None \<Rightarrow> ''answer_pinnokio'')"

definition string_inputs :: "pyval list \<Rightarrow> pyval" where
  "string_inputs xs = PDict [(''stringInputs'', PDict [(''value'', PList xs)])]"

definition form_value :: "(pyval \<Rightarrow> string) \<Rightarrow> pydict \<Rightarrow> string \<Rightarrow> pyval list" where
  "form_value show values field_name =
     (let raw = dget values field_name;
          raw = (if raw = PNone \<and> field_name \<in> {''instructions'', ''user_message''}
                 then py_or (dget_or values ''comment'' (PStr [])) (dget_or values ''user_message'' (PStr [])) else raw) in
      case raw of PList xs \<Rightarrow> xs | PNone \<Rightarrow> [PStr []] | v \<Rightarrow> [PStr (py_str show v)])"

definition build_form_inputs :: "(pyval \<Rightarrow> string) \<Rightarrow> string \<Rightarrow> pydict \<Rightarrow> pydict result" where
  "build_form_inputs show card_id widget_values =
     rbind (as_dict (dget_or widget_values ''widget_values'' (PDict widget_values))) (\<lambda>values.
       Inr (dupdate [] (map (\<lambda>f. (f, string_inputs (form_value show values f)))
              (case map_of FORM_FIELDS_BY_CARD card_id of Some fs \<Rightarrow> fs | None \<Rightarrow> []))))"

definition build_card_clicked_payload :: "(pyval \<Rightarrow> string) \<Rightarrow> string \<Rightarrow> pydict \<Rightarrow> string \<Rightarrow> string \<Rightarrow> string \<Rightarrow> pydict result" where
  "build_card_clicked_payload show card_id widget_values thread_key user_id now =
     (let action = dget_or widget_values ''action'' (PStr ''approve'') in
      rbind (build_form_inputs show card_id widget_values) (\<lambda>form_inputs.
        Inr [(''type'', PStr ''CARD_CLICKED''), (''threadKey'', PStr thread_key),
             (''message'', PDict [(''cardsV2'', PList [PDict [(''cardId'', PStr card_id),
                (''card'', PDict [(''header'', PDict [(''title'', PStr ''Reponse utilisateur''),
                                                        (''subtitle'', PStr (''Action: '' @ py_str show action))])])]])]),
             (''common'', PDict [(''invokedFunction'', PStr (determine_invoked_function card_id action)), (''formInputs'', PDict form_inputs)]),
             (''message_type'', PStr ''CARD_CLICKED_PINNOKIO''), (''timestamp'', PStr now), (''sender_id'', PStr user_id), (''read'', PBool False)]))"

end
