(* ===== verification/Comm_Dispatcher.thy ===== *)
theory Comm_Dispatcher
  imports Card_Transformer Llm_Gateway
begin

text \<open>
  The outbound side of \<open>src/app/realtime/pubsub_transport.py\<close> and \<open>CommunicationDispatcher\<close> of
  \<open>src/app/realtime/communication_dispatcher.py\<close>: messages of the workers go to Telegram through a topic of Google Pub/Sub or a Redis channel;
  a card with drop-down lists becomes a wizard, whose state is a JSON document in Redis and which asks one question
  per message. \<open>cm\<close> holds the configuration and the services: Redis, the publisher of Google Pub/Sub, the container service, and the
  reading of the context of a company and of a mandate document. Log output, the subscriptions and the stubs for
  Google Chat, which only log, are left out.
\<close>

section \<open>Definitions\<close>

record comm_config =
  TRANSPORT_MODE :: string
  GOOGLE_PROJECT_ID :: string
  TELEGRAM_OUTBOUND_TOPIC :: string
  DISPATCH_TELEGRAM_ENABLED :: bool

record 's comm =
  cm_config :: comm_config
  cm_redis :: "'s redis"
  cm_google :: "string \<Rightarrow> text_val \<Rightarrow> pydict \<Rightarrow> 's \<Rightarrow> unit result \<times> 's"
  cm_ecs :: "'s ecs"
  cm_company_context :: "string \<Rightarrow> string \<Rightarrow> 's \<Rightarrow> pyval result \<times> 's"
  cm_document :: "string \<Rightarrow> 's \<Rightarrow> pydict option result \<times> 's"
  cm_show :: "pyval \<Rightarrow> string"
  cm_loads :: "string \<Rightarrow> pyval option"
  cm_dumps :: "pyval \<Rightarrow> string"

subsection \<open>Transport\<close>

definition transport_mode :: "comm_config \<Rightarrow> string" where
  "transport_mode c = (if TRANSPORT_MODE c = ''pubsub'' \<and> GOOGLE_PROJECT_ID c = [] then ''redis'' else TRANSPORT_MODE c)"

definition publish_pubsub :: "'s comm \<Rightarrow> string \<Rightarrow> pydict \<Rightarrow> 's \<Rightarrow> unit result \<times> 's" where
  "publish_pubsub cm topic message =
     cm_google cm topic (json_dumps (PDict message)) (filter (\<lambda>kv. fst kv = ''action'') message @ filter (\<lambda>kv. fst kv = ''module'') message)"

definition redis_channel :: "string \<Rightarrow> string" where
  "redis_channel topic = ''outbound:'' @ py_replace ''telegram-'' [] topic"

definition publish_redis :: "'s comm \<Rightarrow> string \<Rightarrow> pydict \<Rightarrow> 's \<Rightarrow> unit result \<times> 's" where
  "publish_redis cm topic message = sbind (r_publish (cm_redis cm) (redis_channel topic) (json_dumps (PDict message))) (\<lambda>_. sret ())"

definition transport_publish :: "'s comm \<Rightarrow> string \<Rightarrow> pydict \<Rightarrow> 's \<Rightarrow> unit result \<times> 's" where
  "transport_publish cm topic message =
     (if transport_mode (cm_config cm) = ''pubsub'' then publish_pubsub cm topic message else publish_redis cm topic message)"

definition publish_outbound :: "'s comm \<Rightarrow> string \<Rightarrow> pydict \<Rightarrow> 's \<Rightarrow> unit result \<times> 's" where
  "publish_outbound cm channel message =
     transport_publish cm (if channel = ''telegram'' then TELEGRAM_OUTBOUND_TOPIC (cm_config cm) else channel @ ''-outbound'') message"

subsection \<open>Wizards\<close>

definition WIZARD_PREFIX :: string where
  "WIZARD_PREFIX = ''card_wizard''"

definition WIZARD_TTL :: nat where
  "WIZARD_TTL = 1800"

definition wizard_key :: "int \<Rightarrow> string \<Rightarrow> string" where
  "wizard_key chat_id wizard_id = WIZARD_PREFIX @ '':'' @ int_str chat_id @ '':'' @ wizard_id"

definition active_key :: "int \<Rightarrow> string" where
  "active_key chat_id = WIZARD_PREFIX @ ''_active:'' @ int_str chat_id"

definition as_int :: "pyval \<Rightarrow> int result" where
  "as_int v = (case v of PNum q \<Rightarrow> if q = of_int \<lfloor>q\<rfloor> then Inr \<lfloor>q\<rfloor> else Inl TypeError | _ \<Rightarrow> Inl TypeError)"

definition cut64 :: "string \<Rightarrow> string" where
  "cut64 t = concat (take 64 (py_chars t))"

definition is_choice :: "pyval \<Rightarrow> bool" where
  "is_choice wtype \<longleftrightarrow> wtype = PStr ''dropdown'' \<or> wtype = PStr ''multi_select''"

definition wizard_step :: "pydict \<Rightarrow> pydict option result" where
  "wizard_step w =
     (let wtype = dget w ''type'' in
      if is_choice wtype then rbind (ditem w ''name'') (\<lambda>name.
        Inr (Some [(''field'', name), (''type'', PStr ''choice''), (''label'', dget_or w ''label'' name), (''items'', dget_or w ''items'' (PList [])),
                   (''default'', dget w ''defaultValue''), (''selected'', PNone)]))
      else if wtype = PStr ''text_input'' then rbind (ditem w ''name'') (\<lambda>name.
        Inr (Some [(''field'', name), (''type'', PStr ''text_input''), (''label'', dget_or w ''label'' name), (''hint'', dget_or w ''hintText'' (PStr [])),
                   (''selected'', PNone)]))
      else Inr None)"

definition wizard_context :: "pyval \<Rightarrow> pydict list \<Rightarrow> string result" where
  "wizard_context context_text widgets =
     rbind (rmap as_str (filter truthy (context_text #
        map (\<lambda>w. dget_or w ''text'' (PStr [])) (filter (\<lambda>w. dget w ''type'' = PStr ''text_paragraph'') widgets))))
       (\<lambda>parts. Inr (py_join [CHR 0x0A] parts))"

definition step_button :: "(pyval \<Rightarrow> string) \<Rightarrow> string \<Rightarrow> int \<Rightarrow> pydict \<Rightarrow> pydict \<Rightarrow> pyval result" where
  "step_button show wizard_id step_idx step it =
     rbind (ditem it ''value'') (\<lambda>v. rbind (ditem it ''text'') (\<lambda>label.
       Inr (PList [PDict [(''text'', if v = dget step ''default'' then PStr (''>> '' @ py_str show label) else label),
         (''callback_data'', PStr (cut64 (''w:'' @ wizard_id @ '':'' @ int_str step_idx @ '':'' @ py_str show v)))]])))"

definition buttons_message :: "pyval \<Rightarrow> string \<Rightarrow> pyval list \<Rightarrow> pyval \<Rightarrow> pydict" where
  "buttons_message chat_id text buttons mandate_path =
     [(''action'', PStr ''send_message_with_buttons''), (''chat_id'', chat_id), (''text'', PStr text), (''buttons'', PList buttons), (''mandate_path'', mandate_path)]"

text \<open>The message of the current step: \<open>None\<close> when there is none to send.\<close>

definition step_message :: "(pyval \<Rightarrow> string) \<Rightarrow> pydict \<Rightarrow> pydict option result" where
  "step_message show state =
     rbind (rbind (ditem state ''current_step'') as_int) (\<lambda>step_idx. rbind (list_item state ''steps'') (\<lambda>steps.
     rbind (ditem state ''wizard_id'') (\<lambda>wid. rbind (ditem state ''chat_id'') (\<lambda>chat_id.
       if int (length steps) \<le> step_idx then Inr None
       else rbind (py_nth steps step_idx) (\<lambda>sv. rbind (as_dict sv) (\<lambda>step. rbind (ditem step ''type'') (\<lambda>ty.
         let wizard_id = py_str show wid;
             header = (if step_idx = 0 \<and> truthy (dget state ''context_text'') then py_str show (dget state ''context_text'') @ [CHR 0x0A, CHR 0x0A] else []);
             progress = ''['' @ int_str (step_idx + 1) @ ''/'' @ int_str (int (length steps)) @ '']'' in
         if ty = PStr ''choice'' then
           rbind (ditem step ''label'') (\<lambda>label. rbind (rbind (ditem step ''items'') py_iter) (\<lambda>items.
           rbind (rmap (\<lambda>v. rbind (as_dict v) (step_button show wizard_id step_idx step)) items) (\<lambda>buttons.
           rbind (ditem state ''mandate_path'') (\<lambda>mp.
             Inr (Some (buttons_message chat_id (header @ progress @ '' '' @ py_str show label @ '' :'') buttons mp))))))
         else if ty = PStr ''text_input'' then
           rbind (ditem step ''label'') (\<lambda>label. rbind (ditem state ''mandate_path'') (\<lambda>mp.
             let hint = dget step ''hint'' in
             Inr (Some (buttons_message chat_id
               (progress @ '' '' @ py_str show label @ '' :'' @ (if truthy hint then [CHR 0x0A] @ py_str show hint else []) @
                  [CHR 0x0A, CHR 0x0A] @ ''Tapez votre texte ou appuyez sur '' @ [CHR 0x27] @ ''Passer'' @ [CHR 0x27])
               [PList [PDict [(''text'', PStr ''Passer''), (''callback_data'', PStr (''w:'' @ wizard_id @ '':'' @ int_str step_idx @ '':__skip__''))]]] mp))))
         else Inr None)))))))"

definition send_wizard_step :: "'s comm \<Rightarrow> pydict \<Rightarrow> 's \<Rightarrow> unit result \<times> 's" where
  "send_wizard_step cm state =
     sbind (slift (step_message (cm_show cm) state)) (\<lambda>m. case m of None \<Rightarrow> sret () | Some msg \<Rightarrow> publish_outbound cm ''telegram'' msg)"

definition wizard_state :: "pyval \<Rightarrow> string \<Rightarrow> int \<Rightarrow> string \<Rightarrow> string \<Rightarrow> string \<Rightarrow> pydict list \<Rightarrow> string \<Rightarrow> pydict" where
  "wizard_state card_id mandate_path chat_id thread_key department context steps wizard_id =
     [(''card_id'', card_id), (''mandate_path'', PStr mandate_path), (''chat_id'', PNum (of_int chat_id)), (''thread_key'', PStr thread_key),
      (''department'', PStr department), (''context_text'', PStr context), (''steps'', PList (map PDict steps)), (''current_step'', PNum 0),
      (''wizard_id'', PStr wizard_id)]"

definition send_telegram_wizard ::
  "'s comm \<Rightarrow> int \<Rightarrow> pydict \<Rightarrow> pydict list \<Rightarrow> pyval \<Rightarrow> string \<Rightarrow> string \<Rightarrow> string \<Rightarrow> string \<Rightarrow> 's \<Rightarrow> unit result \<times> 's" where
  "send_telegram_wizard cm chat_id card_data widgets context_text mandate_path thread_key department wizard_id =
     sbind (slift (rmap wizard_step widgets)) (\<lambda>ss.
       let steps = somes ss in
       if steps = [] then sret ()
       else sbind (slift (wizard_context context_text widgets)) (\<lambda>context.
         let state = wizard_state (dget_or card_data ''cardId'' (PStr ''unknown'')) mandate_path chat_id thread_key department context steps wizard_id in
         sbind (r_setex (cm_redis cm) (wizard_key chat_id wizard_id) WIZARD_TTL (json_dumps (PDict state))) (\<lambda>_.
         sbind (r_setex (cm_redis cm) (active_key chat_id) WIZARD_TTL (Raw wizard_id)) (\<lambda>_. send_wizard_step cm state))))"

subsection \<open>Cards and texts\<close>

text \<open>One button per option or enabled button, two in a row.\<close>

definition keyboard_buttons :: "(pyval \<Rightarrow> string) \<Rightarrow> string \<Rightarrow> pydict \<Rightarrow> pydict list result" where
  "keyboard_buttons show card_id w =
     (let wtype = dget w ''type'' in
      if is_choice wtype then
        each_dict w ''items'' (\<lambda>it. rbind (ditem it ''value'') (\<lambda>v. rbind (ditem it ''text'') (\<lambda>label.
          Inr [(''text'', label),
               (''callback_data'', PStr (cut64 (card_id @ '':'' @ py_str show (dget_or w ''name'' (PStr [])) @ '':'' @ py_str show v)))])))
      else if wtype = PStr ''button_list'' then
        rbind (each_dict w ''buttons'' (\<lambda>b.
          if truthy (dget b ''disabled'') then Inr []
          else rbind (ditem b ''text'') (\<lambda>label.
            Inr [[(''text'', label), (''callback_data'', PStr (cut64 (card_id @ '':'' @ py_str show (dget_or b ''action'' (PStr [])))))]])))
          (\<lambda>bss. Inr (concat bss))
      else Inr [])"

definition keyboard_text :: "(pyval \<Rightarrow> string) \<Rightarrow> pydict \<Rightarrow> pyval list" where
  "keyboard_text show w =
     (let wtype = dget w ''type'' in
      if wtype = PStr ''text_paragraph'' then [dget_or w ''text'' (PStr [])]
      else if wtype = PStr ''text_input'' then [PStr (''[Input: '' @ py_str show (dget_or w ''label'' (PStr [])) @ '']'')]
      else [])"

fun rows_of_two :: "'a list \<Rightarrow> 'a list list" where
  "rows_of_two (x # y # zs) = [x, y] # rows_of_two zs"
| "rows_of_two [x] = [[x]]"
| "rows_of_two [] = []"

definition cardsv2_to_telegram_keyboard :: "(pyval \<Rightarrow> string) \<Rightarrow> pydict \<Rightarrow> (pyval \<times> pyval) result" where
  "cardsv2_to_telegram_keyboard show card_data =
     rbind (extract_widgets_from_card_body show card_data) (\<lambda>widgets.
     rbind (rmap (keyboard_buttons show (py_str show (dget_or card_data ''cardId'' (PStr ''unknown'')))) widgets) (\<lambda>bss.
     rbind (rmap as_str (concat (map (keyboard_text show) widgets))) (\<lambda>parts.
     rbind (if py_join [CHR 0x0A] parts \<noteq> [] then Inr (PStr (py_join [CHR 0x0A] parts))
            else rbind (get_dict card_data ''header'') (\<lambda>h. Inr (dget_or h ''title'' (PStr [])))) (\<lambda>text.
       Inr (text, PList (map (\<lambda>row. PList (map PDict row)) (rows_of_two (concat bss))))))))"

definition content_dict :: "'s comm \<Rightarrow> pydict \<Rightarrow> pydict result option" where
  "content_dict cm message_data =
     (case dget_or message_data ''content'' (PStr []) of
        PStr t \<Rightarrow> map_option as_dict (cm_loads cm t)
      | PDict d \<Rightarrow> Some (Inr d)
      | _ \<Rightarrow> None)"

definition extract_text :: "'s comm \<Rightarrow> pydict \<Rightarrow> pyval result" where
  "extract_text cm message_data =
     (case content_dict cm message_data of
        Some r \<Rightarrow> rbind r (\<lambda>d. rbind (get_dict d ''message'') (\<lambda>m. Inr (dget_or m ''argumentText'' (PStr []))))
      | None \<Rightarrow> Inr (PStr (py_str (cm_show cm) (dget_or message_data ''content'' (PStr [])))))"

definition extract_cardsv2 :: "'s comm \<Rightarrow> pydict \<Rightarrow> pyval result" where
  "extract_cardsv2 cm message_data =
     (case content_dict cm message_data of
        Some r \<Rightarrow> rbind r (\<lambda>d. Inr (dget_or d ''cardsV2'' (PList [])))
      | None \<Rightarrow> Inr (PList []))"

subsection \<open>Dispatch\<close>

definition DEPARTMENT_TO_ROOM :: "(string \<times> string) list" where
  "DEPARTMENT_TO_ROOM = [(''Router'', ''router_room''), (''router'', ''router_room''), (''APbookeeper'', ''accountbookeeper_room''),
     (''apbookeeper'', ''accountbookeeper_room''), (''Bankbookeeper'', ''banker_room''), (''banker'', ''banker_room''),
     (''bankbookeeper'', ''banker_room''), (''general'', ''general_accountant_room'')]"

definition get_telegram_mapping :: "'s comm \<Rightarrow> string \<Rightarrow> string \<Rightarrow> string \<Rightarrow> 's \<Rightarrow> pyval \<times> 's" where
  "get_telegram_mapping cm uid company_id mandate_path s =
     (case stry (sbind (cm_company_context cm uid company_id) (\<lambda>ctx.
             if \<not> truthy ctx then sret PNone else slift (rbind (as_dict ctx) (\<lambda>d. Inr (dget d ''telegram_users_mapping''))))) (\<lambda>_. PNone) s of
        (mapping, s1) \<Rightarrow>
          if truthy mapping then (mapping, s1)
          else stry (sbind (cm_document cm mandate_path) (\<lambda>doc.
                 sret (case doc of None \<Rightarrow> PNone | Some data \<Rightarrow> dget data ''telegram_users_mapping''))) (\<lambda>_. PNone) s1)"

text \<open>\<open>int(chat_id)\<close> of a text or a number.\<close>

definition chat_int :: "pyval \<Rightarrow> int option" where
  "chat_int v = (case v of PStr t \<Rightarrow> int_of_str t | PNum q \<Rightarrow> Some (py_int q) | PBool b \<Rightarrow> Some (if b then 1 else 0) | _ \<Rightarrow> None)"

definition text_message :: "pyval \<Rightarrow> pyval \<Rightarrow> string \<Rightarrow> pydict" where
  "text_message chat_id text mandate_path =
     [(''action'', PStr ''send_message''), (''chat_id'', chat_id), (''text'', text), (''mandate_path'', PStr mandate_path)]"

definition send_telegram_card :: "'s comm \<Rightarrow> int \<Rightarrow> string \<Rightarrow> pyval \<Rightarrow> pydict \<Rightarrow> string \<Rightarrow> string \<Rightarrow> string \<Rightarrow> 's \<Rightarrow> unit result \<times> 's" where
  "send_telegram_card cm chat_id thread_key text first_card mandate_path department wizard_id =
     sbind (slift (get_dict first_card ''card'')) (\<lambda>card_body.
       let card_data = [(''cardId'', dget_or first_card ''cardId'' (PStr ''unknown'')), (''header'', dget_or card_body ''header'' (PDict [])),
                        (''sections'', dget_or card_body ''sections'' (PList []))] in
       sbind (slift (extract_widgets_from_card_body (cm_show cm) card_data)) (\<lambda>widgets.
         if list_ex (\<lambda>w. is_choice (dget w ''type'')) widgets
         then send_telegram_wizard cm chat_id card_data widgets text mandate_path thread_key department wizard_id
         else sbind (slift (cardsv2_to_telegram_keyboard (cm_show cm) card_data)) (\<lambda>(kt, kb).
           let msg_text = (if truthy text \<and> truthy kt then PStr (py_str (cm_show cm) text @ [CHR 0x0A, CHR 0x0A] @ py_str (cm_show cm) kt)
                           else if truthy text then text else kt) in
           publish_outbound cm ''telegram''
             [(''action'', PStr ''send_message_with_buttons''), (''chat_id'', PNum (of_int chat_id)), (''text'', msg_text), (''buttons'', kb),
              (''mandate_path'', PStr mandate_path)])))"

definition send_telegram :: "'s comm \<Rightarrow> pydict \<Rightarrow> string \<Rightarrow> pyval \<Rightarrow> pyval list \<Rightarrow> string \<Rightarrow> string \<Rightarrow> string \<Rightarrow> 's \<Rightarrow> unit result \<times> 's" where
  "send_telegram cm telegram_mapping thread_key text cards_v2 mandate_path department wizard_id =
     (let room_field = (case map_of DEPARTMENT_TO_ROOM department of Some r \<Rightarrow> r | None \<Rightarrow> ''router_room''); chat_id = dget telegram_mapping room_field in
      if \<not> truthy chat_id then sret ()
      else case chat_int chat_id of
        None \<Rightarrow> sret ()
      | Some chat_id_int \<Rightarrow>
          (case cards_v2 of
             c # _ \<Rightarrow> sbind (slift (as_dict c)) (\<lambda>first_card. send_telegram_card cm chat_id_int thread_key text first_card mandate_path department wizard_id)
           | [] \<Rightarrow> if truthy text then publish_outbound cm ''telegram'' (text_message (PNum (of_int chat_id_int)) text mandate_path) else sret ()))"

definition dispatch_message ::
  "'s comm \<Rightarrow> string \<Rightarrow> string \<Rightarrow> string \<Rightarrow> string \<Rightarrow> pydict \<Rightarrow> string \<Rightarrow> string \<Rightarrow> string \<Rightarrow> 's \<Rightarrow> unit result \<times> 's" where
  "dispatch_message cm uid mandate_path space_code thread_key message_data department communication_chat_type wizard_id =
     (if communication_chat_type = ''telegram'' \<and> DISPATCH_TELEGRAM_ENABLED (cm_config cm)
      then (\<lambda>s. case get_telegram_mapping cm uid space_code mandate_path s of
             (mapping, s1) \<Rightarrow>
               if truthy mapping
               then sbind (slift (extract_text cm message_data)) (\<lambda>text. sbind (slift (rbind (extract_cardsv2 cm message_data) (\<lambda>v. if truthy v then as_list v else Inr []))) (\<lambda>cards_v2.
                      sbind (slift (as_dict mapping)) (\<lambda>m. send_telegram cm m thread_key text cards_v2 mandate_path department wizard_id))) s1
               else (Inr (), s1))
      else sret ())"

definition outbound_text :: "'s comm \<Rightarrow> string \<Rightarrow> pydict \<Rightarrow> pyval option" where
  "outbound_text cm message_type inner =
     (if message_type \<in> {''llm_stream_complete'', ''llm.stream_end'', ''CMMD''}
      then Some (py_or (dget_or inner ''full_content'' (PStr [])) (dget_or inner ''content'' (PStr [])))
      else if message_type = ''llm_stream_error''
      then Some (PStr (''Erreur: '' @ py_str (cm_show cm) (dget_or inner ''error'' (PStr ''Unknown error''))))
      else if message_type = ''notification''
      then Some (py_or (dget_or inner ''message'' (PStr [])) (dget_or inner ''content'' (PStr [])))
      else None)"

definition send_telegram_outbound :: "'s comm \<Rightarrow> pyval \<Rightarrow> string \<Rightarrow> pydict \<Rightarrow> 's \<Rightarrow> unit result \<times> 's" where
  "send_telegram_outbound cm chat_id message_type payload =
     sbind (slift (get_dict payload ''payload'')) (\<lambda>inner.
       if message_type \<in> {''CARD'', ''FOLLOW_CARD''}
       then sbind (slift (rbind (get_dict inner ''card_data'') (cardsv2_to_telegram_keyboard (cm_show cm)))) (\<lambda>(kt, kb).
              publish_outbound cm ''telegram'' [(''action'', PStr ''send_message_with_buttons''), (''chat_id'', chat_id), (''text'', kt), (''buttons'', kb)])
       else case outbound_text cm message_type inner of
         None \<Rightarrow> sret ()
       | Some text \<Rightarrow> publish_outbound cm ''telegram'' [(''action'', PStr ''send_message''), (''chat_id'', chat_id), (''text'', text)])"

definition dispatch_outbound :: "'s comm \<Rightarrow> string \<Rightarrow> pyval \<Rightarrow> string \<Rightarrow> pydict \<Rightarrow> 's \<Rightarrow> unit result \<times> 's" where
  "dispatch_outbound cm channel external_thread_id message_type payload =
     (if channel = ''telegram'' \<and> DISPATCH_TELEGRAM_ENABLED (cm_config cm) then send_telegram_outbound cm external_thread_id message_type payload else sret ())"

end
