(* ===== verification/Response_Collector.thy ===== *)
theory Response_Collector
  imports Comm_Dispatcher
begin

text \<open>
  \<open>CommunicationResponseCollector\<close> of \<open>src/app/realtime/communication_response_collector.py\<close>: what comes in from Telegram goes to the
  language-model worker, to an external worker, or to the wizard that waits for it. Starting and stopping the
  listeners and the stub of Google Chat are left out. The identifiers stored in the documents of users and mandates
  are texts; one of another type counts as missing. A field of a wizard is named by a text.
\<close>

section \<open>Definitions\<close>

definition MODULE_TO_CHAT_MODE :: "(string \<times> string) list" where
  "MODULE_TO_CHAT_MODE = [(''router'', ''router_chat''), (''apbookeeper'', ''ap_chat''), (''banker'', ''banker_chat''), (''general'', ''general_chat''),
     (''onboarding'', ''onboarding_chat'')]"

subsection \<open>Standard answers\<close>

definition nested_dict :: "pydict \<Rightarrow> string list \<Rightarrow> pydict result" where
  "nested_dict d ks = foldl (\<lambda>r k. rbind r (\<lambda>e. get_dict e k)) (Inr d) ks"

definition google_chat_to_standard :: "pydict \<Rightarrow> string \<Rightarrow> pydict option" where
  "google_chat_to_standard json_data now =
     (case rbind (nested_dict json_data [''common'', ''parameters'']) (\<lambda>_. rbind (nested_dict json_data [''common'']) (\<lambda>common.
           rbind (nested_dict json_data [''message'', ''thread'']) (\<lambda>thread. rbind (nested_dict json_data [''message'']) (\<lambda>msg.
           rbind (nested_dict json_data [''user'']) (\<lambda>user.
             Inr [(''type'', PStr ''CARD_CLICKED''), (''message_type'', PStr ''CARD_CLICKED_PINNOKIO''),
                  (''threadKey'', py_or (dget_or thread ''name'' (PStr [])) (dget_or msg ''threadKey'' (PStr []))),
                  (''message'', dget_or json_data ''message'' (PDict [])),
                  (''common'', PDict [(''invokedFunction'', dget_or common ''invokedFunction'' (PStr [])), (''formInputs'', dget_or common ''formInputs'' (PDict []))]),
                  (''timestamp'', PStr now), (''sender_id'', dget_or user ''name'' (PStr [])), (''read'', PBool False)]))))) of
        Inr d \<Rightarrow> Some d | Inl _ \<Rightarrow> None)"

definition telegram_to_standard :: "string \<Rightarrow> string \<Rightarrow> string \<Rightarrow> string \<Rightarrow> pydict" where
  "telegram_to_standard callback_data card_id thread_key now =
     [(''type'', PStr ''CARD_CLICKED''), (''message_type'', PStr ''CARD_CLICKED_PINNOKIO''), (''threadKey'', PStr thread_key),
      (''common'', PDict [(''invokedFunction'', PStr (case map_of DEFAULT_INVOKED_FUNCTION card_id of Some f \<Rightarrow> f | None \<Rightarrow> ''answer_pinnokio'')),
                           (''formInputs'', PDict [(''pinnokio_func'', string_inputs [PStr callback_data])])]),
      (''timestamp'', PStr now), (''sender_id'', PStr ''telegram_user''), (''read'', PBool False)]"

definition worker_channel :: "string \<Rightarrow> string" where
  "worker_channel uid = ''user:'' @ uid @ ''/job_chats''"

definition worker_payload :: "string \<Rightarrow> string \<Rightarrow> pydict \<Rightarrow> string \<Rightarrow> pydict" where
  "worker_payload space_code thread_key response_data now =
     [(''type'', PStr ''job_chat_message''), (''job_id'', PStr thread_key), (''collection_name'', PStr space_code), (''thread_key'', PStr thread_key),
      (''message'', PDict response_data), (''timestamp'', PStr now)]"

definition publish_response_to_worker :: "'s comm \<Rightarrow> string \<Rightarrow> string \<Rightarrow> string \<Rightarrow> pydict \<Rightarrow> string \<Rightarrow> 's \<Rightarrow> unit result \<times> 's" where
  "publish_response_to_worker cm uid space_code thread_key response_data now s =
     (Inr (), snd (r_publish (cm_redis cm) (worker_channel uid) (json_dumps (PDict (worker_payload space_code thread_key response_data now))) s))"

subsection \<open>Wizards\<close>

text \<open>The values chosen, after \<open>widget_values = {"action": "approve"}\<close>; and the summary for the user.\<close>

definition step_value :: "pydict \<Rightarrow> (string \<times> pyval) result" where
  "step_value step = rbind (str_item step ''field'') (\<lambda>f. Inr (f, dget_or step ''selected'' (PStr [])))"

definition wizard_values :: "pydict list \<Rightarrow> pydict result" where
  "wizard_values steps = rbind (rmap step_value steps) (\<lambda>kvs. Inr (dupdate [(''action'', PStr ''approve'')] kvs))"

definition summary_line :: "(pyval \<Rightarrow> string) \<Rightarrow> pydict \<Rightarrow> string result" where
  "summary_line show step =
     rbind (ditem step ''label'') (\<lambda>l. let val = dget_or step ''selected'' (PStr []) in
       Inr (''- '' @ py_str show l @ '': '' @ (if truthy val then py_str show val else ''(vide)'')))"

definition external_fields :: "pyval \<Rightarrow> (pyval \<Rightarrow> string) \<Rightarrow> pydict" where
  "external_fields chat_id show = [(''communication_chat_type'', PStr ''telegram''), (''external_thread_id'', PStr (py_str show chat_id))]"

definition complete_wizard :: "'s comm \<Rightarrow> pydict \<Rightarrow> string \<Rightarrow> string \<Rightarrow> string \<Rightarrow> string \<Rightarrow> string \<Rightarrow> 's \<Rightarrow> unit result \<times> 's" where
  "complete_wizard cm state uid company_id mandate_path job_id now =
     sbind (slift (rbind (str_item state ''card_id'') (\<lambda>c. rbind (str_item state ''thread_key'') (\<lambda>t. rbind (ditem state ''chat_id'') (\<lambda>ch.
       rbind (rbind (list_item state ''steps'') (rmap as_dict)) (\<lambda>steps. rbind (wizard_values steps) (\<lambda>vs.
       rbind (build_card_clicked_payload (cm_show cm) c vs t uid now) (\<lambda>p. rbind (rmap (summary_line (cm_show cm)) steps) (\<lambda>ls.
         Inr (c, t, ch, vs, dupdate p (external_fields ch (cm_show cm)), ls))))))))))
     (\<lambda>(card_id, thread_key, chat_id, widget_values, standard, summary).
       sbind (publish_outbound cm ''telegram''
         (text_message chat_id (PStr (''Reponse enregistree:'' @ [CHR 0x0A] @ py_join [CHR 0x0A] summary)) mandate_path)) (\<lambda>_.
       if card_id \<in> set EXTERNAL_WORKER_CARD_IDS then publish_response_to_worker cm uid company_id thread_key standard now
       else sbind (enqueue_card_response (cm_redis cm) (cm_ecs cm) uid company_id thread_key card_id [] (PStr (cm_dumps cm (PDict widget_values))) [] []
              ''legacy'' (external_fields chat_id (cm_show cm)) job_id now) (\<lambda>_. sret ())))"

text \<open>\<open>steps[i]["selected"] = value\<close>, \<open>state["current_step"] = i + 1\<close>.\<close>

definition answer_step :: "int \<Rightarrow> pyval \<Rightarrow> pydict \<Rightarrow> pydict result" where
  "answer_step i v state =
     rbind (list_item state ''steps'') (\<lambda>steps. rbind (rbind (py_nth steps i) as_dict) (\<lambda>step.
       Inr (dset (dset state ''steps'' (PList (steps[nat (if i < 0 then int (length steps) + i else i) := PDict (dset step ''selected'' v)]))) ''current_step'' (PNum (of_int (i + 1))))))"

definition handle_wizard_callback :: "'s comm \<Rightarrow> string \<Rightarrow> int \<Rightarrow> string \<Rightarrow> string \<Rightarrow> string \<Rightarrow> string \<Rightarrow> string \<Rightarrow> 's \<Rightarrow> unit result \<times> 's" where
  "handle_wizard_callback cm callback_data chat_id uid company_id mandate_path job_id now =
     (case split_max 3 CHR '':'' callback_data of
        [_, wizard_id, step_idx_str, val] \<Rightarrow>
          (case int_of_str step_idx_str of
             None \<Rightarrow> sret ()
           | Some step_idx \<Rightarrow>
               sbind (r_get (cm_redis cm) (wizard_key chat_id wizard_id)) (\<lambda>raw.
               if \<not> some_data raw then sret ()
               else sbind (slift (rbind (load_dict (the raw)) (\<lambda>state. rbind (list_item state ''steps'') (\<lambda>steps.
                      rbind (rbind (ditem state ''current_step'') as_int) (\<lambda>cur. Inr (state, steps, cur)))))) (\<lambda>(state, steps, cur).
                 if step_idx \<noteq> cur then sret ()
                 else sbind (slift (answer_step step_idx (PStr (if val = ''__skip__'' then [] else val)) state)) (\<lambda>state'.
                   if int (length steps) \<le> step_idx + 1
                   then sbind (r_delete (cm_redis cm) [wizard_key chat_id wizard_id]) (\<lambda>_.
                        sbind (r_delete (cm_redis cm) [active_key chat_id]) (\<lambda>_.
                          complete_wizard cm state' uid company_id mandate_path job_id now))
                   else sbind (r_setex (cm_redis cm) (wizard_key chat_id wizard_id) WIZARD_TTL (json_dumps (PDict state'))) (\<lambda>_.
                        sbind (slift (rbind (rbind (py_nth steps (step_idx + 1)) as_dict) (\<lambda>next_step. ditem next_step ''type''))) (\<lambda>ty.
                        sbind (if ty = PStr ''text_input'' then r_setex (cm_redis cm) (active_key chat_id) WIZARD_TTL (Raw wizard_id) else sret ()) (\<lambda>_.
                          send_wizard_step cm state')))))))
      | _ \<Rightarrow> sret ())"

definition raw_text :: "text_val \<Rightarrow> string" where
  "raw_text t = (case t of Raw x \<Rightarrow> x | Json _ \<Rightarrow> [])"

definition check_wizard_text_input :: "'s comm \<Rightarrow> int \<Rightarrow> pyval \<Rightarrow> string \<Rightarrow> string \<Rightarrow> string \<Rightarrow> string \<Rightarrow> string \<Rightarrow> 's \<Rightarrow> bool result \<times> 's" where
  "check_wizard_text_input cm chat_id text uid company_id mandate_path job_id now =
     sbind (r_get (cm_redis cm) (active_key chat_id)) (\<lambda>wid.
     if \<not> some_data wid then sret False
     else let key = wizard_key chat_id (raw_text (the wid)) in
       sbind (r_get (cm_redis cm) key) (\<lambda>raw.
       if \<not> some_data raw then sbind (r_delete (cm_redis cm) [active_key chat_id]) (\<lambda>_. sret False)
       else sbind (slift (rbind (load_dict (the raw)) (\<lambda>state. rbind (list_item state ''steps'') (\<lambda>steps.
              rbind (rbind (ditem state ''current_step'') as_int) (\<lambda>cur. Inr (state, steps, cur)))))) (\<lambda>(state, steps, cur).
         if int (length steps) \<le> cur then sret False
         else sbind (slift (rbind (rbind (py_nth steps cur) as_dict) (\<lambda>step. ditem step ''type''))) (\<lambda>ty.
           if ty \<noteq> PStr ''text_input'' then sret False
           else sbind (slift (answer_step cur text state)) (\<lambda>state'.
             if int (length steps) \<le> cur + 1
             then sbind (r_delete (cm_redis cm) [key]) (\<lambda>_. sbind (r_delete (cm_redis cm) [active_key chat_id]) (\<lambda>_.
                  sbind (complete_wizard cm state' uid company_id mandate_path job_id now) (\<lambda>_. sret True)))
             else sbind (r_setex (cm_redis cm) key WIZARD_TTL (json_dumps (PDict state'))) (\<lambda>_.
                  sbind (send_wizard_step cm state') (\<lambda>_. sret True)))))))"

subsection \<open>Messages from Telegram\<close>

definition id_text :: "pyval \<Rightarrow> string" where
  "id_text v = (case v of PStr t \<Rightarrow> t | _ \<Rightarrow> [])"

definition strip_slashes :: "string \<Rightarrow> string" where
  "strip_slashes t = rev (dropWhile (\<lambda>c. c = CHR ''/'') (rev (dropWhile (\<lambda>c. c = CHR ''/'') t)))"

text \<open>The user and the company of a sender; \<open>None\<close> where the source answers \<open>(None, None)\<close>.\<close>

definition contact_space :: "'s comm \<Rightarrow> string \<Rightarrow> pydict \<Rightarrow> 's \<Rightarrow> string \<times> 's" where
  "contact_space cm mandate_path mandate_data s =
     (case stry (sbind (cm_document cm mandate_path) (\<lambda>doc. sret (case doc of None \<Rightarrow> [] | Some d \<Rightarrow> id_text (dget d ''contact_space_id'')))) (\<lambda>_. []) s of
        (c, s1) \<Rightarrow>
          (if c \<noteq> [] then c
           else if id_text (dget mandate_data ''mandate_doc_id'') \<noteq> [] then id_text (dget mandate_data ''mandate_doc_id'')
           else last (split_on CHR ''/'' (strip_slashes mandate_path)), s1))"

definition resolve_telegram_user :: "'s comm \<Rightarrow> string \<Rightarrow> string \<Rightarrow> 's \<Rightarrow> (string \<times> string) option \<times> 's" where
  "resolve_telegram_user cm username mandate_path =
     (if username = [] then Pair None
      else stry (sbind (cm_document cm (''telegram_users/'' @ username)) (\<lambda>doc.
             case doc of
               None \<Rightarrow> sret None
             | Some user_data \<Rightarrow>
                 sbind (slift (rbind (get_dict user_data ''authorized_mandates'') (\<lambda>a. get_dict a mandate_path))) (\<lambda>mandate_data.
                   if id_text (dget mandate_data ''firebase_user_id'') = [] then sret None
                   else (\<lambda>s. case contact_space cm mandate_path mandate_data s of
                          (c, s1) \<Rightarrow> (Inr (Some (id_text (dget mandate_data ''firebase_user_id''), c)), s1)))))
        (\<lambda>_. None))"

definition telegram_thread :: "int \<Rightarrow> string \<Rightarrow> string" where
  "telegram_thread chat_id mdl = ''tg_'' @ int_str \<bar>chat_id\<bar> @ ''_'' @ mdl"

definition telegram_message :: "'s comm \<Rightarrow> pydict \<Rightarrow> int \<Rightarrow> string \<Rightarrow> string \<Rightarrow> string \<Rightarrow> string \<Rightarrow> string \<Rightarrow> string \<Rightarrow> string \<Rightarrow> 's \<Rightarrow> unit result \<times> 's" where
  "telegram_message cm response chat_id mdl uid company_id thread_key mandate_path job_id now =
     (let text = dget_or response ''text'' (PStr []) in
      sbind (check_wizard_text_input cm chat_id text uid company_id mandate_path job_id now) (\<lambda>wizard_handled.
        if wizard_handled then sret ()
        else sbind (slift (as_str text)) (\<lambda>t.
          sbind (enqueue_message (cm_redis cm) (cm_ecs cm) uid company_id thread_key t
            (case map_of MODULE_TO_CHAT_MODE mdl of Some m \<Rightarrow> m | None \<Rightarrow> ''general_chat'') None None
            ([(''communication_chat_type'', PStr ''telegram''), (''external_thread_id'', PStr (int_str chat_id))] @
             (if truthy (dget response ''attachments'') then [(''attachments'', dget response ''attachments'')] else [])) job_id now) (\<lambda>_. sret ()))))"

definition telegram_callback :: "'s comm \<Rightarrow> string \<Rightarrow> int \<Rightarrow> string \<Rightarrow> string \<Rightarrow> string \<Rightarrow> string \<Rightarrow> string \<Rightarrow> string \<Rightarrow> 's \<Rightarrow> unit result \<times> 's" where
  "telegram_callback cm callback_data chat_id uid company_id thread_key mandate_path job_id now =
     (if starts_with ''w:'' callback_data then handle_wizard_callback cm callback_data chat_id uid company_id mandate_path job_id now
      else let card_id = hd (split_max 2 CHR '':'' callback_data);
               external = [(''communication_chat_type'', PStr ''telegram''), (''external_thread_id'', PStr (int_str chat_id))];
               standard = dupdate (telegram_to_standard callback_data card_id thread_key now) external in
        if card_id \<in> set EXTERNAL_WORKER_CARD_IDS then publish_response_to_worker cm uid company_id thread_key standard now
        else sbind (enqueue_card_response (cm_redis cm) (cm_ecs cm) uid company_id thread_key card_id [] (PStr callback_data) [] [] ''legacy''
               external job_id now) (\<lambda>_. sret ()))"

definition handle_telegram_inbound :: "'s comm \<Rightarrow> pydict \<Rightarrow> string \<Rightarrow> string \<Rightarrow> 's \<Rightarrow> unit result \<times> 's" where
  "handle_telegram_inbound cm data job_id now =
     sbind (slift (get_dict data ''response'')) (\<lambda>response.
       let mandate_path = dget data ''mandate_path''; mdl = py_str (cm_show cm) (dget_or data ''module'' (PStr ''router''));
           msg_type = dget response ''type''; chat = dget response ''chat_id'' in
       if \<not> truthy mandate_path \<or> \<not> truthy chat then sret ()
       else sbind (slift (as_str mandate_path)) (\<lambda>mp s.
         case resolve_telegram_user cm (id_text (dget response ''username'')) mp s of
           (None, s1) \<Rightarrow> (Inr (), s1)
         | (Some (uid, company_id), s1) \<Rightarrow>
             sbind (slift (as_int chat)) (\<lambda>chat_id.
               let thread_key = telegram_thread chat_id mdl in
               (\<lambda>s2. (if msg_type = PStr ''message'' then telegram_message cm response chat_id mdl uid company_id thread_key mp job_id now
                       else if msg_type = PStr ''callback'' then sbind (slift (as_str (dget_or response ''data'' (PStr [])))) (\<lambda>cb.
                         telegram_callback cm cb chat_id uid company_id thread_key mp job_id now)
                       else sret ())
                      (snd (r_setex (cm_redis cm) (comm_thread_key uid mdl) 86400 (Raw thread_key) s2)))) s1))"

end
