(* ===== verification/Card_Wizard.thy ===== *)
theory Card_Wizard
  imports Response_Collector
begin

text \<open>
  The wizard as a state machine: the dispatcher of \<open>Comm_Dispatcher\<close> asks, the collector of \<open>Response_Collector\<close> takes the answers.
  The locale \<open>comm_up\<close> has the services both rely on; the lemmas follow the wizard's document in Redis from step to
  step, and the properties are those of whole runs.
\<close>

section \<open>The services\<close>

text \<open>Where a message for a topic appears: on the topic itself or on the channel that stands for it.\<close>

definition transport_channel :: "comm_config \<Rightarrow> string \<Rightarrow> string" where
  "transport_channel c topic = (if transport_mode c = ''pubsub'' then topic else redis_channel topic)"

definition to_telegram :: "'s comm \<Rightarrow> pydict \<Rightarrow> string \<times> text_val" where
  "to_telegram cm m = (transport_channel (cm_config cm) (TELEGRAM_OUTBOUND_TOPIC (cm_config cm)), Json (PDict m))"

locale comm_up = gateway "cm_redis cm" view tick out "cm_ecs cm"
  for cm :: "'s comm" and view :: "'s \<Rightarrow> rview" and tick :: "nat \<Rightarrow> 's \<Rightarrow> 's" and out :: "'s \<Rightarrow> (string \<times> text_val) list" +
  assumes google_up: "\<exists>s'. cm_google cm topic t attrs s = (Inr (), s') \<and> view s' = view s \<and> out s' = out s @ [(topic, t)]"
begin

lemma telegram_up:
  obtains s' where "publish_outbound cm ''telegram'' m s = (Inr (), s')" "view s' = view s" "out s' = out s @ [to_telegram cm m]"
proof (cases "transport_mode (cm_config cm) = ''pubsub''")
  case True
  then show thesis using google_up [of "TELEGRAM_OUTBOUND_TOPIC (cm_config cm)" "json_dumps (PDict m)"
      "filter (\<lambda>kv. fst kv = ''action'') m @ filter (\<lambda>kv. fst kv = ''module'') m" s] that
    by (auto simp: publish_outbound_def transport_publish_def publish_pubsub_def to_telegram_def transport_channel_def json_dumps_def)
next
  case False
  obtain n s' where "r_publish (cm_redis cm) (redis_channel (TELEGRAM_OUTBOUND_TOPIC (cm_config cm))) (json_dumps (PDict m)) s = (Inr n, s')"
    "view s' = view s" "out s' = out s @ [(redis_channel (TELEGRAM_OUTBOUND_TOPIC (cm_config cm)), json_dumps (PDict m))]" by (rule publish_msg)
  then show thesis using False that [of s']
    by (simp add: publish_outbound_def transport_publish_def publish_redis_def to_telegram_def transport_channel_def json_dumps_def seq_defs)
qed

end

section \<open>Wizards in Redis\<close>

definition wf_step :: "pydict \<Rightarrow> bool" where
  "wf_step step \<longleftrightarrow> (\<exists>f. map_of step ''field'' = Some (PStr f) \<and> f \<noteq> ''widget_values'') \<and> map_of step ''label'' \<noteq> None \<and>
     (map_of step ''type'' = Some (PStr ''text_input'') \<or>
      map_of step ''type'' = Some (PStr ''choice'') \<and>
      (\<exists>its. map_of step ''items'' = Some (PList (map PDict its)) \<and>
         (\<forall>it \<in> set its. map_of it ''value'' \<noteq> None \<and> map_of it ''text'' \<noteq> None)))"

text \<open>A document that asks for step \<open>i\<close> of \<open>steps\<close>, for a card of the thread.\<close>

definition asks :: "pydict \<Rightarrow> pydict list \<Rightarrow> nat \<Rightarrow> string \<Rightarrow> string \<Rightarrow> string \<Rightarrow> int \<Rightarrow> bool" where
  "asks st steps i wid cid thread chat \<longleftrightarrow>
     map_of st ''steps'' = Some (PList (map PDict steps)) \<and> map_of st ''current_step'' = Some (PNum (of_nat i)) \<and>
     map_of st ''wizard_id'' = Some (PStr wid) \<and> map_of st ''card_id'' = Some (PStr cid) \<and> map_of st ''thread_key'' = Some (PStr thread) \<and>
     map_of st ''chat_id'' = Some (PNum (of_int chat)) \<and> map_of st ''mandate_path'' \<noteq> None \<and> list_all wf_step steps"

definition answer :: "string \<Rightarrow> pyval" where
  "answer v = PStr (if v = ''__skip__'' then [] else v)"

definition answered :: "pydict list \<Rightarrow> nat \<Rightarrow> pyval \<Rightarrow> pydict list" where
  "answered steps i v = steps[i := dset (steps ! i) ''selected'' v]"

definition callback :: "string \<Rightarrow> nat \<Rightarrow> string \<Rightarrow> string" where
  "callback wid i v = ''w:'' @ wid @ '':'' @ int_str (int i) @ '':'' @ v"

lemma as_int_of_nat [simp]: "as_int (PNum (of_nat n)) = Inr (int n)"
  by (simp add: as_int_def)

lemma int_str_nat: "int_str (int i) = nat_str i"
  by (simp add: int_str_def)

lemma split_callback: "CHR '':'' \<notin> set wid \<Longrightarrow> split_max 3 CHR '':'' (callback wid i v) = [''w'', wid, nat_str i, v]"
proof -
  assume w: "CHR '':'' \<notin> set wid"
  have n: "CHR '':'' \<notin> set (nat_str i)" using nat_str_digits [of i] is_digit_not by (auto simp: list_all_iff)
  have 3: "(3 :: nat) = Suc (Suc (Suc 0))" by simp
  have c: "callback wid i v = ''w'' @ CHR '':'' # (wid @ CHR '':'' # (nat_str i @ CHR '':'' # v))" by (simp add: callback_def int_str_nat)
  have w1: "CHR '':'' \<notin> set ''w''" by simp
  show ?thesis unfolding 3 c split_max_append [OF w1] split_max_append [OF w] split_max_append [OF n] by simp
qed

lemma key_ne [simp]: "wizard_key c w \<noteq> active_key c'" "active_key c' \<noteq> wizard_key c w"
  by (simp_all add: wizard_key_def active_key_def WIZARD_PREFIX_def)

lemma queue_key_ne [simp]: "wizard_key c w \<noteq> QUEUE_NAME" "active_key c \<noteq> QUEUE_NAME"
  by (simp_all add: wizard_key_def active_key_def WIZARD_PREFIX_def QUEUE_NAME_def)

lemma wf_step_answer: "wf_step step \<Longrightarrow> wf_step (dset step ''selected'' v)"
  by (auto simp: wf_step_def)

lemma answered_simps [simp]: "length (answered steps i v) = length steps"
  by (simp add: answered_def)

lemma asks_answer:
  assumes "asks st steps i wid cid thread chat" and "i < length steps"
  obtains st' where "answer_step (int i) v st = Inr st'" "asks st' (answered steps i v) (i + 1) wid cid thread chat"
proof -
  let ?st = "dset (dset st ''steps'' (PList ((map PDict steps)[i := PDict (dset (steps ! i) ''selected'' v)]))) ''current_step'' (PNum (of_int (int i + 1)))"
  have "answer_step (int i) v st = Inr ?st" using assms by (simp add: answer_step_def asks_def list_item_def ditem_def)
  moreover have "asks ?st (answered steps i v) (i + 1) wid cid thread chat"
    using assms wf_step_answer by (auto simp: asks_def answered_def map_update list_all_length nth_list_update add.commute)
  ultimately show thesis using that by blast
qed

lemma rmap_total: "(\<And>x. x \<in> set xs \<Longrightarrow> \<exists>y. f x = Inr y) \<Longrightarrow> \<exists>ys. rmap f xs = Inr ys"
  by (induction xs) (auto, metis Inr_inject rbind_simps(1))

lemma step_message_ok:
  assumes "asks st steps i wid cid thread chat" and "i < length steps"
  shows "\<exists>m. step_message show st = Inr (Some m)"
proof -
  have w: "wf_step (steps ! i)" using assms by (auto simp: asks_def list_all_length)
  have bs: "\<exists>ys. rmap (\<lambda>v. rbind (as_dict v) (step_button show (py_str show (PStr wid)) (int i) (steps ! i))) (map PDict its) = Inr ys"
    if "\<forall>it \<in> set its. map_of it ''value'' \<noteq> None \<and> map_of it ''text'' \<noteq> None" for its
    by (rule rmap_total) (use that in \<open>auto simp: step_button_def ditem_def\<close>)
  from w show ?thesis unfolding wf_step_def
  proof (elim conjE disjE exE)
    fix f its
    assume "map_of (steps ! i) ''type'' = Some (PStr ''choice'')" "map_of (steps ! i) ''items'' = Some (PList (map PDict its))"
      "\<forall>it \<in> set its. map_of it ''value'' \<noteq> None \<and> map_of it ''text'' \<noteq> None" "map_of (steps ! i) ''label'' \<noteq> None"
    moreover then obtain ys where "rmap (\<lambda>v. rbind (as_dict v) (step_button show (py_str show (PStr wid)) (int i) (steps ! i))) (map PDict its) = Inr ys"
      using bs by blast
    ultimately show ?thesis using assms by (auto simp: step_message_def asks_def list_item_def ditem_def Let_def)
  qed (use assms in \<open>auto simp: step_message_def asks_def list_item_def ditem_def Let_def\<close>)
qed

section \<open>One answer\<close>

definition field :: "pydict \<Rightarrow> string" where
  "field step = (case map_of step ''field'' of Some (PStr f) \<Rightarrow> f | _ \<Rightarrow> [])"

definition chosen :: "pydict list \<Rightarrow> pydict" where
  "chosen steps = dupdate [(''action'', PStr ''approve'')] (map (\<lambda>s. (field s, dget_or s ''selected'' (PStr []))) steps)"

lemma wf_step_field: "wf_step step \<Longrightarrow> map_of step ''field'' = Some (PStr (field step)) \<and> field step \<noteq> ''widget_values''"
  by (auto simp: wf_step_def field_def)

lemma map_of_dupdate_absent: "k \<notin> fst ` set e \<Longrightarrow> map_of (dupdate d e) k = map_of d k"
proof (induction e arbitrary: d)
  case (Cons x e)
  then show ?case by (cases x) (simp add: dupdate_def)
qed (simp add: dupdate_def)

lemma wizard_values_ok: "list_all wf_step steps \<Longrightarrow> wizard_values steps = Inr (chosen steps)"
proof -
  assume w: "list_all wf_step steps"
  have "rmap step_value steps = Inr (map (\<lambda>s. (field s, dget_or s ''selected'' (PStr []))) steps)"
    by (rule rmap_Inr) (use w wf_step_field in \<open>auto simp: list_all_iff step_value_def str_item_def ditem_def\<close>)
  then show ?thesis by (simp add: wizard_values_def chosen_def)
qed

lemma payload_ok:
  assumes "list_all wf_step steps"
  shows "\<exists>p. build_card_clicked_payload show cid (chosen steps) thread uid now = Inr p"
proof -
  have ne: "field s \<noteq> ''widget_values''" if "s \<in> set steps" for s using that assms wf_step_field by (simp add: list_all_iff)
  have "''widget_values'' \<notin> fst ` set (map (\<lambda>s. (field s, dget_or s ''selected'' (PStr []))) steps)" using ne by force
  then have "map_of (chosen steps) ''widget_values'' = None" unfolding chosen_def by (simp add: map_of_dupdate_absent)
  then show ?thesis by (simp add: build_card_clicked_payload_def build_form_inputs_def dget_or_def Let_def)
qed

lemma summary_ok: "list_all wf_step steps \<Longrightarrow> \<exists>ls. rmap (summary_line show) steps = Inr ls"
  by (rule rmap_total) (auto simp: list_all_iff wf_step_def summary_line_def ditem_def Let_def)

text \<open>What the worker of the card receives at the end: a message on its channel, or a job of the language-model worker.\<close>

definition worker_message :: "'s comm \<Rightarrow> string \<Rightarrow> string \<Rightarrow> string \<Rightarrow> string \<Rightarrow> int \<Rightarrow> string \<Rightarrow> pydict \<Rightarrow> (string \<times> text_val) option" where
  "worker_message cm uid company cid thread chat now vs =
     (case build_card_clicked_payload (cm_show cm) cid vs thread uid now of
        Inr p \<Rightarrow> Some (worker_channel uid, Json (PDict (worker_payload company thread (dupdate p (external_fields (PNum (of_int chat)) (cm_show cm))) now)))
      | Inl _ \<Rightarrow> None)"

definition own_job :: "'s comm \<Rightarrow> string \<Rightarrow> string \<Rightarrow> string \<Rightarrow> string \<Rightarrow> int \<Rightarrow> string \<Rightarrow> string \<Rightarrow> pydict \<Rightarrow> text_val" where
  "own_job cm uid company cid thread chat jid now vs =
     call_job (Card_response uid company thread cid [] (PStr (cm_dumps cm (PDict vs))) [] [] ''legacy'' (external_fields (PNum (of_int chat)) (cm_show cm)), jid, now)"

context comm_up
begin

lemma complete_up:
  assumes "asks st steps i wid cid thread chat" and "list_key (view s) QUEUE_NAME"
  shows "\<exists>s' m. complete_wizard cm st uid company mp jid now s = (Inr (), s') \<and>
    (if cid \<in> set EXTERNAL_WORKER_CARD_IDS
     then view s' = view s \<and> (\<exists>w. worker_message cm uid company cid thread chat now (chosen steps) = Some w \<and> out s' = out s @ [to_telegram cm m, w])
     else view s' = (view s)(QUEUE_NAME \<mapsto> (VList (own_job cm uid company cid thread chat jid now (chosen steps) # list_at (view s) QUEUE_NAME), ttl_at (view s) QUEUE_NAME)) \<and>
       out s' = out s @ [to_telegram cm m])"
proof -
  let ?show = "cm_show cm"
  have w: "list_all wf_step steps" using assms(1) by (simp add: asks_def)
  obtain p where p: "build_card_clicked_payload ?show cid (chosen steps) thread uid now = Inr p" using payload_ok [OF w] by blast
  obtain ls where ls: "rmap (summary_line ?show) steps = Inr ls" using summary_ok [OF w] by blast
  let ?ch = "PNum (of_int chat)"
  let ?m = "text_message ?ch (PStr (''Reponse enregistree:'' @ [CHR 0x0A] @ py_join [CHR 0x0A] ls)) mp"
  obtain s1 where 1: "publish_outbound cm ''telegram'' ?m s = (Inr (), s1)" "view s1 = view s" "out s1 = out s @ [to_telegram cm ?m]" by (rule telegram_up)
  have run: "complete_wizard cm st uid company mp jid now s =
      (if cid \<in> set EXTERNAL_WORKER_CARD_IDS then publish_response_to_worker cm uid company thread (dupdate p (external_fields ?ch ?show)) now s1
       else sbind (enqueue_card_response (cm_redis cm) (cm_ecs cm) uid company thread cid [] (PStr (cm_dumps cm (PDict (chosen steps)))) [] []
              ''legacy'' (external_fields ?ch ?show) jid now) (\<lambda>_. sret ()) s1)"
    using assms(1) 1(1) p ls wizard_values_ok [OF w]
    by (simp add: complete_wizard_def asks_def str_item_def ditem_def list_item_def slift_def sbind_def)
  show ?thesis
  proof (cases "cid \<in> set EXTERNAL_WORKER_CARD_IDS")
    case True
    let ?w = "worker_payload company thread (dupdate p (external_fields ?ch ?show)) now"
    obtain n s2 where 2: "r_publish (cm_redis cm) (worker_channel uid) (json_dumps (PDict ?w)) s1 = (Inr n, s2)" "view s2 = view s1"
      "out s2 = out s1 @ [(worker_channel uid, json_dumps (PDict ?w))]" by (rule publish_msg)
    have "complete_wizard cm st uid company mp jid now s = (Inr (), s2)" using run True 2(1) by (simp add: publish_response_to_worker_def)
    moreover have "worker_message cm uid company cid thread chat now (chosen steps) = Some (worker_channel uid, json_dumps (PDict ?w))"
      using p by (simp add: worker_message_def json_dumps_def)
    ultimately show ?thesis using True 1 2 by auto
  next
    case False
    have k: "list_key (view s1) QUEUE_NAME" using assms(2) 1(2) by simp
    let ?params = "card_response_params uid company thread cid [] (PStr (cm_dumps cm (PDict (chosen steps)))) [] [] ''legacy'' (external_fields ?ch ?show)"
    obtain s2 where 2: "sbind (push_job (cm_redis cm) (cm_ecs cm) (gw_job jid ''send_card_response'' ?params now)) (\<lambda>_. sret (queued jid ''Card response enqueued'')) s1 =
        (Inr (queued jid ''Card response enqueued''), s2)" "out s2 = out s1"
      "view s2 = (view s1)(QUEUE_NAME \<mapsto> (VList (Json (PDict (gw_job jid ''send_card_response'' ?params now)) # list_at (view s1) QUEUE_NAME), ttl_at (view s1) QUEUE_NAME))"
      using push_ret [OF k, of "gw_job jid ''send_card_response'' ?params now" "queued jid ''Card response enqueued''"] by (elim exE conjE)
    have "enqueue_card_response (cm_redis cm) (cm_ecs cm) uid company thread cid [] (PStr (cm_dumps cm (PDict (chosen steps)))) [] []
        ''legacy'' (external_fields ?ch ?show) jid now s1 = (Inr (queued jid ''Card response enqueued''), s2)"
      unfolding enqueue_card_response_def by (rule 2(1))
    then have "complete_wizard cm st uid company mp jid now s = (Inr (), s2)" unfolding run using False by (simp add: sbind_def sret_def)
    moreover have "own_job cm uid company cid thread chat jid now (chosen steps) = Json (PDict (gw_job jid ''send_card_response'' ?params now))"
      by (simp add: own_job_def call_job_def card_response_params_def)
    ultimately show ?thesis using False 1 2(2,3) by auto
  qed
qed

end

text \<open>The document of a wizard of the chat.\<close>

definition wizard_at :: "rview \<Rightarrow> int \<Rightarrow> string \<Rightarrow> pydict \<Rightarrow> bool" where
  "wizard_at vw chat wid st \<longleftrightarrow> (\<exists>t. vw (wizard_key chat wid) = Some (VStr (Json (PDict st)), t))"

text \<open>The pointer of a chat names the wizard that waits for a text.\<close>

definition points_to :: "rview \<Rightarrow> int \<Rightarrow> string \<Rightarrow> bool" where
  "points_to vw chat wid \<longleftrightarrow> (\<exists>t. vw (active_key chat) = Some (VStr (Raw wid), t))"

lemma wizard_at_str: "wizard_at vw chat wid st \<Longrightarrow> str_key vw (wizard_key chat wid) \<and> str_at vw (wizard_key chat wid) = Some (Json (PDict st))"
  by (auto simp: wizard_at_def str_key_def str_at_def)

lemma asks_reads:
  assumes "asks st steps i wid cid thread chat"
  shows "list_item st ''steps'' = Inr (map PDict steps)" "rbind (ditem st ''current_step'') as_int = Inr (int i)"
    "j < length steps \<Longrightarrow> rbind (py_nth (map PDict steps) (int j)) as_dict = Inr (steps ! j)"
  using assms by (simp_all add: asks_def list_item_def ditem_def)

lemma wf_step_type: "wf_step step \<Longrightarrow> \<exists>ty. ditem step ''type'' = Inr ty"
  by (auto simp: wf_step_def ditem_def)

context comm_up
begin

lemma callback_next:
  assumes "CHR '':'' \<notin> set wid" and "wizard_at (view s) chat wid st" and "asks st steps i wid cid thread chat" and "Suc i < length steps"
  shows "\<exists>s' st' m. handle_wizard_callback cm (callback wid i v) chat uid company mp jid now s = (Inr (), s') \<and>
    asks st' (answered steps i (answer v)) (Suc i) wid cid thread chat \<and> wizard_at (view s') chat wid st' \<and>
    step_message (cm_show cm) st' = Inr (Some m) \<and> out s' = out s @ [to_telegram cm m] \<and>
    (points_to (view s) chat wid \<longrightarrow> points_to (view s') chat wid) \<and>
    (\<forall>k. k \<noteq> wizard_key chat wid \<longrightarrow> k \<noteq> active_key chat \<longrightarrow> view s' k = view s k)"
proof -
  let ?k = "wizard_key chat wid"
  have i: "i < length steps" using assms(4) by simp
  have sk: "str_key (view s) ?k" and sa: "str_at (view s) ?k = Some (Json (PDict st))" using wizard_at_str [OF assms(2)] by blast+
  obtain s1 where 1: "r_get (cm_redis cm) ?k s = (Inr (str_at (view s) ?k), s1)" "view s1 = view s" "out s1 = out s" by (rule get_str [OF sk])
  obtain st' where st': "answer_step (int i) (answer v) st = Inr st'" "asks st' (answered steps i (answer v)) (i + 1) wid cid thread chat"
    by (rule asks_answer [OF assms(3) i])
  have t: "0 < WIZARD_TTL" by (simp add: WIZARD_TTL_def)
  obtain s2 where 2: "r_setex (cm_redis cm) ?k WIZARD_TTL (json_dumps (PDict st')) s1 = (Inr (), s2)"
    "view s2 = (view s1)(?k \<mapsto> (VStr (json_dumps (PDict st')), Some WIZARD_TTL))" "out s2 = out s1" by (rule setex_str [OF t])
  have "wf_step (steps ! Suc i)" using assms(3,4) by (simp add: asks_def list_all_length)
  then obtain ty where ty: "ditem (steps ! Suc i) ''type'' = Inr ty" using wf_step_type by blast
  obtain s3 where 3: "(if ty = PStr ''text_input'' then r_setex (cm_redis cm) (active_key chat) WIZARD_TTL (Raw wid) else sret ()) s2 = (Inr (), s3)"
    "out s3 = out s2" "points_to (view s2) chat wid \<longrightarrow> points_to (view s3) chat wid" "\<forall>k. k \<noteq> active_key chat \<longrightarrow> view s3 k = view s2 k"
  proof (cases "ty = PStr ''text_input''")
    case True
    obtain s3 where "r_setex (cm_redis cm) (active_key chat) WIZARD_TTL (Raw wid) s2 = (Inr (), s3)"
      "view s3 = (view s2)(active_key chat \<mapsto> (VStr (Raw wid), Some WIZARD_TTL))" "out s3 = out s2" by (rule setex_str [OF t])
    then show thesis using that [of s3] True by (simp add: points_to_def)
  next
    case False
    then show thesis using that [of s2] by (simp add: sret_def)
  qed
  have l: "Suc i < length (answered steps i (answer v))" using assms(4) by simp
  obtain m where m: "step_message (cm_show cm) st' = Inr (Some m)" using step_message_ok [OF st'(2)] l by auto
  obtain s4 where 4: "publish_outbound cm ''telegram'' m s3 = (Inr (), s4)" "view s4 = view s3" "out s4 = out s3 @ [to_telegram cm m]" by (rule telegram_up)
  have nx: "rbind (py_nth (map PDict steps) (int i + 1)) as_dict = Inr (steps ! Suc i)" using asks_reads(3) [OF assms(3,4)] by (simp add: add.commute)
  have "handle_wizard_callback cm (callback wid i v) chat uid company mp jid now s = (Inr (), s4)"
    using 1(1) 2(1) 3(1) 4(1) st'(1) ty m nx asks_reads(1,2) [OF assms(3)] sa assms(4)
    by (simp add: handle_wizard_callback_def split_callback [OF assms(1)] int_of_nat_str sbind_def slift_def send_wizard_step_def answer_def)
  moreover have "points_to (view s) chat wid \<longrightarrow> points_to (view s4) chat wid" using 1(2) 2(2) 3(3) 4(2) by (simp add: points_to_def)
  moreover have "wizard_at (view s4) chat wid st'" using 2(2) 3(4) 4(2) by (simp add: wizard_at_def json_dumps_def)
  moreover have "out s4 = out s @ [to_telegram cm m]" using 1(3) 2(3) 3(2) 4(3) by simp
  moreover have "\<forall>k. k \<noteq> ?k \<longrightarrow> k \<noteq> active_key chat \<longrightarrow> view s4 k = view s k" using 1(2) 2(2) 3(4) 4(2) by simp
  ultimately show ?thesis using st'(2) m by (intro exI [of _ s4] exI [of _ st'] exI [of _ m]) simp
qed

end

text \<open>The end of a wizard: its keys are gone and the worker of the card has the answers.\<close>

definition finished_with ::
  "'s comm \<Rightarrow> ('s \<Rightarrow> rview) \<Rightarrow> ('s \<Rightarrow> (string \<times> text_val) list) \<Rightarrow> string \<Rightarrow> string \<Rightarrow> string \<Rightarrow> string \<Rightarrow> string \<Rightarrow> int \<Rightarrow> string \<Rightarrow> string \<Rightarrow> pydict \<Rightarrow> rview \<Rightarrow> (string \<times> text_val) list \<Rightarrow> 's \<Rightarrow> bool" where
  "finished_with cm view out wid uid company cid thread chat jid now vs vw sent s' \<longleftrightarrow>
     view s' (wizard_key chat wid) = None \<and> view s' (active_key chat) = None \<and>
     (\<forall>k. k \<notin> {wizard_key chat wid, active_key chat, QUEUE_NAME} \<longrightarrow> view s' k = vw k) \<and>
     (\<exists>m. if cid \<in> set EXTERNAL_WORKER_CARD_IDS
          then list_at (view s') QUEUE_NAME = list_at vw QUEUE_NAME \<and>
            (\<exists>w. worker_message cm uid company cid thread chat now vs = Some w \<and> out s' = sent @ [to_telegram cm m, w])
          else list_at (view s') QUEUE_NAME = own_job cm uid company cid thread chat jid now vs # list_at vw QUEUE_NAME \<and>
            out s' = sent @ [to_telegram cm m])"

context comm_up
begin

text \<open>The end of a wizard, whichever way the last answer came.\<close>

lemma finish_up:
  assumes "asks st' steps i wid cid thread chat" and "list_key (view s1) QUEUE_NAME"
  shows "\<exists>n2 s2 n3 s3 s'. r_delete (cm_redis cm) [wizard_key chat wid] s1 = (Inr n2, s2) \<and> r_delete (cm_redis cm) [active_key chat] s2 = (Inr n3, s3) \<and>
    complete_wizard cm st' uid company mp jid now s3 = (Inr (), s') \<and>
    finished_with cm view out wid uid company cid thread chat jid now (chosen steps) (view s1) (out s1) s'"
proof -
  let ?k = "wizard_key chat wid" and ?a = "active_key chat"
  obtain n2 s2 where 2: "r_delete (cm_redis cm) [?k] s1 = (Inr n2, s2)" "view s2 = (view s1)(?k := None)" "out s2 = out s1" by (rule delete_key)
  obtain n3 s3 where 3: "r_delete (cm_redis cm) [?a] s2 = (Inr n3, s3)" "view s3 = (view s2)(?a := None)" "out s3 = out s2" by (rule delete_key)
  have v3: "view s3 k = (if k = ?k \<or> k = ?a then None else view s1 k)" for k using 2(2) 3(2) by simp
  have q: "view s3 QUEUE_NAME = view s1 QUEUE_NAME" by (simp add: v3 queue_key_ne [symmetric])
  then have qk: "list_key (view s3) QUEUE_NAME" and ql: "list_at (view s3) QUEUE_NAME = list_at (view s1) QUEUE_NAME"
    using assms(2) by (simp_all add: list_key_def list_at_def)
  obtain s' m where c: "complete_wizard cm st' uid company mp jid now s3 = (Inr (), s')"
    "if cid \<in> set EXTERNAL_WORKER_CARD_IDS
     then view s' = view s3 \<and> (\<exists>w. worker_message cm uid company cid thread chat now (chosen steps) = Some w \<and> out s' = out s3 @ [to_telegram cm m, w])
     else view s' = (view s3)(QUEUE_NAME \<mapsto> (VList (own_job cm uid company cid thread chat jid now (chosen steps) # list_at (view s3) QUEUE_NAME), ttl_at (view s3) QUEUE_NAME)) \<and>
       out s' = out s3 @ [to_telegram cm m]" using complete_up [OF assms(1) qk, of uid company mp jid now] by blast
  have o: "out s3 = out s1" using 2(3) 3(3) by simp
  have f: "view s' k = view s3 k" if "k \<noteq> QUEUE_NAME" for k using c(2) that by (simp split: if_splits)
  have l: "if cid \<in> set EXTERNAL_WORKER_CARD_IDS then list_at (view s') QUEUE_NAME = list_at (view s1) QUEUE_NAME
     else list_at (view s') QUEUE_NAME = own_job cm uid company cid thread chat jid now (chosen steps) # list_at (view s1) QUEUE_NAME"
    using c(2) ql by (simp add: list_at_def split: if_splits)
  have "finished_with cm view out wid uid company cid thread chat jid now (chosen steps) (view s1) (out s1) s'"
    using c(2) v3 o f l unfolding finished_with_def by (intro conjI allI impI exI [of _ m]) (auto split: if_splits)
  then show ?thesis using 2(1) 3(1) c(1) by blast
qed

lemma callback_last:
  assumes "CHR '':'' \<notin> set wid" and "wizard_at (view s) chat wid st" and "asks st steps i wid cid thread chat" and "Suc i = length steps"
    and "list_key (view s) QUEUE_NAME"
  shows "\<exists>s'. handle_wizard_callback cm (callback wid i v) chat uid company mp jid now s = (Inr (), s') \<and>
    finished_with cm view out wid uid company cid thread chat jid now (chosen (answered steps i (answer v))) (view s) (out s) s'"
proof -
  let ?k = "wizard_key chat wid"
  have i: "i < length steps" using assms(4) by simp
  have sk: "str_key (view s) ?k" and sa: "str_at (view s) ?k = Some (Json (PDict st))" using wizard_at_str [OF assms(2)] by blast+
  obtain s1 where 1: "r_get (cm_redis cm) ?k s = (Inr (str_at (view s) ?k), s1)" "view s1 = view s" "out s1 = out s" by (rule get_str [OF sk])
  obtain st' where st': "answer_step (int i) (answer v) st = Inr st'" "asks st' (answered steps i (answer v)) (i + 1) wid cid thread chat"
    by (rule asks_answer [OF assms(3) i])
  have q: "list_key (view s1) QUEUE_NAME" using assms(5) 1(2) by simp
  obtain n2 s2 n3 s3 s' where c: "r_delete (cm_redis cm) [?k] s1 = (Inr n2, s2)" "r_delete (cm_redis cm) [active_key chat] s2 = (Inr n3, s3)"
    "complete_wizard cm st' uid company mp jid now s3 = (Inr (), s')"
    "finished_with cm view out wid uid company cid thread chat jid now (chosen (answered steps i (answer v))) (view s1) (out s1) s'"
    using finish_up [OF st'(2) q] by blast
  have "handle_wizard_callback cm (callback wid i v) chat uid company mp jid now s = (Inr (), s')"
    using 1(1) c(1-3) st'(1) asks_reads(1,2) [OF assms(3)] sa assms(4)
    by (simp add: handle_wizard_callback_def split_callback [OF assms(1)] int_of_nat_str sbind_def slift_def answer_def)
  then show ?thesis using c(4) 1(2,3) by simp
qed

lemma text_reads:
  assumes "wid \<noteq> []" and "points_to (view s) chat wid" and "wizard_at (view s) chat wid st"
  obtains s1 s2 where "r_get (cm_redis cm) (active_key chat) s = (Inr (Some (Raw wid)), s1)"
    "r_get (cm_redis cm) (wizard_key chat wid) s1 = (Inr (Some (Json (PDict st))), s2)" "view s2 = view s" "out s2 = out s"
proof -
  have a: "str_key (view s) (active_key chat)" "str_at (view s) (active_key chat) = Some (Raw wid)"
    using assms(2) by (auto simp: points_to_def str_key_def str_at_def)
  obtain s1 where 1: "r_get (cm_redis cm) (active_key chat) s = (Inr (str_at (view s) (active_key chat)), s1)" "view s1 = view s" "out s1 = out s"
    by (rule get_str [OF a(1)])
  have k: "str_key (view s1) (wizard_key chat wid)" using wizard_at_str [OF assms(3)] 1(2) by simp
  obtain s2 where 2: "r_get (cm_redis cm) (wizard_key chat wid) s1 = (Inr (str_at (view s1) (wizard_key chat wid)), s2)" "view s2 = view s1" "out s2 = out s1"
    by (rule get_str [OF k])
  show thesis using that [of s1 s2] 1 2 a(2) wizard_at_str [OF assms(3)] by simp
qed

lemma text_next:
  assumes "wid \<noteq> []" and "points_to (view s) chat wid" and "wizard_at (view s) chat wid st" and "asks st steps i wid cid thread chat"
    and "Suc i < length steps" and "map_of (steps ! i) ''type'' = Some (PStr ''text_input'')"
  shows "\<exists>s' st' m. check_wizard_text_input cm chat (PStr v) uid company mp jid now s = (Inr True, s') \<and>
    asks st' (answered steps i (PStr v)) (Suc i) wid cid thread chat \<and> wizard_at (view s') chat wid st' \<and>
    step_message (cm_show cm) st' = Inr (Some m) \<and> out s' = out s @ [to_telegram cm m] \<and> points_to (view s') chat wid \<and>
    (\<forall>k. k \<noteq> wizard_key chat wid \<longrightarrow> k \<noteq> active_key chat \<longrightarrow> view s' k = view s k)"
proof -
  let ?k = "wizard_key chat wid"
  have i: "i < length steps" using assms(5) by simp
  obtain s0 s1 where 1: "r_get (cm_redis cm) (active_key chat) s = (Inr (Some (Raw wid)), s0)"
    "r_get (cm_redis cm) ?k s0 = (Inr (Some (Json (PDict st))), s1)" "view s1 = view s" "out s1 = out s" by (rule text_reads [OF assms(1-3)])
  obtain st' where st': "answer_step (int i) (PStr v) st = Inr st'" "asks st' (answered steps i (PStr v)) (i + 1) wid cid thread chat"
    by (rule asks_answer [OF assms(4) i])
  have t: "0 < WIZARD_TTL" by (simp add: WIZARD_TTL_def)
  obtain s2 where 2: "r_setex (cm_redis cm) ?k WIZARD_TTL (json_dumps (PDict st')) s1 = (Inr (), s2)"
    "view s2 = (view s1)(?k \<mapsto> (VStr (json_dumps (PDict st')), Some WIZARD_TTL))" "out s2 = out s1" by (rule setex_str [OF t])
  have l: "Suc i < length (answered steps i (PStr v))" using assms(5) by simp
  obtain m where m: "step_message (cm_show cm) st' = Inr (Some m)" using step_message_ok [OF st'(2)] l by auto
  obtain s3 where 3: "publish_outbound cm ''telegram'' m s2 = (Inr (), s3)" "view s3 = view s2" "out s3 = out s2 @ [to_telegram cm m]" by (rule telegram_up)
  have ty: "ditem (steps ! i) ''type'' = Inr (PStr ''text_input'')" using assms(6) by (simp add: ditem_def)
  have "check_wizard_text_input cm chat (PStr v) uid company mp jid now s = (Inr True, s3)"
    using 1(1,2) 2(1) 3(1) st'(1) ty m asks_reads(1,2) [OF assms(4)] asks_reads(3) [OF assms(4) i] assms(1,5)
    by (simp add: check_wizard_text_input_def raw_text_def some_data_def Let_def sbind_def slift_def sret_def send_wizard_step_def)
  moreover have "wizard_at (view s3) chat wid st'" using 2(2) 3(2) by (simp add: wizard_at_def json_dumps_def)
  moreover have "points_to (view s3) chat wid" using assms(2) 1(3) 2(2) 3(2) by (simp add: points_to_def)
  ultimately show ?thesis using st'(2) m 1 2 3 by (intro exI [of _ s3] exI [of _ st'] exI [of _ m]) simp
qed

lemma text_last:
  assumes "wid \<noteq> []" and "points_to (view s) chat wid" and "wizard_at (view s) chat wid st" and "asks st steps i wid cid thread chat"
    and "Suc i = length steps" and "map_of (steps ! i) ''type'' = Some (PStr ''text_input'')" and "list_key (view s) QUEUE_NAME"
  shows "\<exists>s'. check_wizard_text_input cm chat (PStr v) uid company mp jid now s = (Inr True, s') \<and>
    finished_with cm view out wid uid company cid thread chat jid now (chosen (answered steps i (PStr v))) (view s) (out s) s'"
proof -
  let ?k = "wizard_key chat wid"
  have i: "i < length steps" using assms(5) by simp
  obtain s0 s1 where 1: "r_get (cm_redis cm) (active_key chat) s = (Inr (Some (Raw wid)), s0)"
    "r_get (cm_redis cm) ?k s0 = (Inr (Some (Json (PDict st))), s1)" "view s1 = view s" "out s1 = out s" by (rule text_reads [OF assms(1-3)])
  obtain st' where st': "answer_step (int i) (PStr v) st = Inr st'" "asks st' (answered steps i (PStr v)) (i + 1) wid cid thread chat"
    by (rule asks_answer [OF assms(4) i])
  have q: "list_key (view s1) QUEUE_NAME" using assms(7) 1(3) by simp
  obtain s2 s3 s' n2 n3 where c: "r_delete (cm_redis cm) [?k] s1 = (Inr n2, s2)" "r_delete (cm_redis cm) [active_key chat] s2 = (Inr n3, s3)"
    "complete_wizard cm st' uid company mp jid now s3 = (Inr (), s')"
    "finished_with cm view out wid uid company cid thread chat jid now (chosen (answered steps i (PStr v))) (view s1) (out s1) s'"
    using finish_up [OF st'(2) q] by blast
  have ty: "ditem (steps ! i) ''type'' = Inr (PStr ''text_input'')" using assms(6) by (simp add: ditem_def)
  have "check_wizard_text_input cm chat (PStr v) uid company mp jid now s = (Inr True, s')"
    using 1(1,2) c(1-3) st'(1) ty asks_reads(1,2) [OF assms(4)] asks_reads(3) [OF assms(4) i] assms(1,5)
    by (simp add: check_wizard_text_input_def raw_text_def some_data_def Let_def sbind_def slift_def sret_def)
  then show ?thesis using c(4) 1(3,4) by simp
qed

lemma callback_ignored:
  assumes "CHR '':'' \<notin> set wid"
    and "view s (wizard_key chat wid) = None \<or> (\<exists>st steps j cid thread. wizard_at (view s) chat wid st \<and> asks st steps j wid cid thread chat \<and> j \<noteq> i)"
  shows "\<exists>s'. handle_wizard_callback cm (callback wid i v) chat uid company mp jid now s = (Inr (), s') \<and> view s' = view s \<and> out s' = out s"
proof -
  let ?k = "wizard_key chat wid"
  have sk: "str_key (view s) ?k" using assms(2) by (auto simp: str_key_def wizard_at_def)
  obtain s1 where 1: "r_get (cm_redis cm) ?k s = (Inr (str_at (view s) ?k), s1)" "view s1 = view s" "out s1 = out s" by (rule get_str [OF sk])
  from assms(2) have "handle_wizard_callback cm (callback wid i v) chat uid company mp jid now s = (Inr (), s1)"
  proof (elim disjE exE conjE)
    assume "view s ?k = None"
    then show ?thesis using 1(1) by (simp add: handle_wizard_callback_def split_callback [OF assms(1)] int_of_nat_str sbind_def str_at_def sret_def)
  next
    fix st steps j cid thread
    assume w: "wizard_at (view s) chat wid st" "asks st steps j wid cid thread chat" "j \<noteq> i"
    then show ?thesis using 1(1) wizard_at_str [OF w(1)] asks_reads(1,2) [OF w(2)]
      by (simp add: handle_wizard_callback_def split_callback [OF assms(1)] int_of_nat_str sbind_def slift_def sret_def)
  qed
  then show ?thesis using 1(2,3) by blast
qed

end

section \<open>Whole runs\<close>

text \<open>A reply is a button pressed or, where the step asks for a text, a text message.\<close>

datatype reply = Click string | Text string

fun reply_value :: "reply \<Rightarrow> pyval" where
  "reply_value (Click v) = answer v"
| "reply_value (Text t) = PStr t"

fun fits :: "pydict \<Rightarrow> reply \<Rightarrow> bool" where
  "fits step (Click v) = True"
| "fits step (Text t) = (map_of step ''type'' = Some (PStr ''text_input''))"

text \<open>The replies taken one after the other, from step \<open>i\<close> on, and the steps with these answers.\<close>

fun take_reply :: "'s comm \<Rightarrow> string \<Rightarrow> int \<Rightarrow> string \<Rightarrow> string \<Rightarrow> string \<Rightarrow> string \<Rightarrow> string \<Rightarrow> nat \<Rightarrow> reply \<Rightarrow> 's \<Rightarrow> 's" where
  "take_reply cm wid chat uid company mp jid now i (Click v) s = snd (handle_wizard_callback cm (callback wid i v) chat uid company mp jid now s)"
| "take_reply cm wid chat uid company mp jid now i (Text t) s = snd (check_wizard_text_input cm chat (PStr t) uid company mp jid now s)"

primrec reply_all :: "'s comm \<Rightarrow> string \<Rightarrow> int \<Rightarrow> string \<Rightarrow> string \<Rightarrow> string \<Rightarrow> string \<Rightarrow> string \<Rightarrow> reply list \<Rightarrow> nat \<Rightarrow> 's \<Rightarrow> 's" where
  "reply_all cm wid chat uid company mp jid now [] i s = s"
| "reply_all cm wid chat uid company mp jid now (v # vs) i s =
     reply_all cm wid chat uid company mp jid now vs (Suc i) (take_reply cm wid chat uid company mp jid now i v s)"

primrec answer_all :: "pydict list \<Rightarrow> nat \<Rightarrow> reply list \<Rightarrow> pydict list" where
  "answer_all steps i [] = steps"
| "answer_all steps i (v # vs) = answer_all (answered steps i (reply_value v)) (Suc i) vs"

lemma chosen_pairs:
  assumes "i + length vs = length steps"
  shows "map (\<lambda>s. (field s, dget_or s ''selected'' (PStr []))) (answer_all steps i vs) =
    map (\<lambda>s. (field s, dget_or s ''selected'' (PStr []))) (take i steps) @ zip (map field (drop i steps)) (map reply_value vs)"
  using assms
proof (induction vs arbitrary: steps i)
  case (Cons v vs)
  let ?g = "\<lambda>s. (field s, dget_or s ''selected'' (PStr []))" and ?st = "answered steps i (reply_value v)"
  have i: "i < length steps" using Cons.prems by simp
  have f: "field (dset d ''selected'' x) = field d" for d x by (simp add: field_def)
  have "take (Suc i) ?st = take i steps @ [dset (steps ! i) ''selected'' (reply_value v)]" using i by (simp add: answered_def take_Suc_conv_app_nth)
  moreover have "drop (Suc i) ?st = drop (Suc i) steps" by (simp add: answered_def)
  moreover have "drop i steps = steps ! i # drop (Suc i) steps" using i by (simp add: Cons_nth_drop_Suc)
  ultimately show ?case using Cons.IH [of "Suc i" ?st] Cons.prems by (simp add: f)
qed simp

lemma chosen_all: "length vs = length steps \<Longrightarrow> chosen (answer_all steps 0 vs) = dupdate [(''action'', PStr ''approve'')] (zip (map field steps) (map reply_value vs))"
  using chosen_pairs [of 0 vs steps] by (simp add: chosen_def)

lemma finished_frame:
  assumes "finished_with cm view out wid uid company cid thread chat jid now vs vw' sent s'"
    and "\<forall>k. k \<noteq> wizard_key chat wid \<longrightarrow> k \<noteq> active_key chat \<longrightarrow> vw' k = vw k"
  shows "finished_with cm view out wid uid company cid thread chat jid now vs vw sent s'"
proof -
  have e: "list_at vw' QUEUE_NAME = list_at vw QUEUE_NAME" using assms(2) by (simp add: list_at_def queue_key_ne [symmetric])
  note f = assms(1) [unfolded finished_with_def e]
  have "\<forall>k. k \<notin> {wizard_key chat wid, active_key chat, QUEUE_NAME} \<longrightarrow> view s' k = vw k" using f assms(2) by (elim conjE) simp
  then show ?thesis unfolding finished_with_def using f by (elim conjE) (intro conjI)
qed

context comm_up
begin

lemma reply_next:
  assumes "CHR '':'' \<notin> set wid" and "wid \<noteq> []" and "wizard_at (view s) chat wid st" and "points_to (view s) chat wid"
    and "asks st steps i wid cid thread chat" and "Suc i < length steps" and "fits (steps ! i) v"
  shows "\<exists>s' st' m. take_reply cm wid chat uid company mp jid now i v s = s' \<and>
    asks st' (answered steps i (reply_value v)) (Suc i) wid cid thread chat \<and> wizard_at (view s') chat wid st' \<and> points_to (view s') chat wid \<and>
    out s' = out s @ [to_telegram cm m] \<and> (\<forall>k. k \<noteq> wizard_key chat wid \<longrightarrow> k \<noteq> active_key chat \<longrightarrow> view s' k = view s k)"
proof (cases v)
  case (Click x)
  obtain s' st' m where 1: "handle_wizard_callback cm (callback wid i x) chat uid company mp jid now s = (Inr (), s')"
    "asks st' (answered steps i (answer x)) (Suc i) wid cid thread chat" "wizard_at (view s') chat wid st'" "out s' = out s @ [to_telegram cm m]"
    "points_to (view s) chat wid \<longrightarrow> points_to (view s') chat wid" "\<forall>k. k \<noteq> wizard_key chat wid \<longrightarrow> k \<noteq> active_key chat \<longrightarrow> view s' k = view s k"
    using callback_next [OF assms(1,3,5,6), of x uid company mp jid now] by blast
  then show ?thesis using Click assms(4) by (intro exI [of _ s'] exI [of _ st'] exI [of _ m]) simp
next
  case (Text t)
  then have "map_of (steps ! i) ''type'' = Some (PStr ''text_input'')" using assms(7) by simp
  then obtain s' st' m where 1: "check_wizard_text_input cm chat (PStr t) uid company mp jid now s = (Inr True, s')"
    "asks st' (answered steps i (PStr t)) (Suc i) wid cid thread chat" "wizard_at (view s') chat wid st'" "out s' = out s @ [to_telegram cm m]"
    "points_to (view s') chat wid" "\<forall>k. k \<noteq> wizard_key chat wid \<longrightarrow> k \<noteq> active_key chat \<longrightarrow> view s' k = view s k"
    using text_next [OF assms(2,4,3,5,6), of t uid company mp jid now] by blast
  then show ?thesis using Text by (intro exI [of _ s'] exI [of _ st'] exI [of _ m]) simp
qed

lemma reply_last:
  assumes "CHR '':'' \<notin> set wid" and "wid \<noteq> []" and "wizard_at (view s) chat wid st" and "points_to (view s) chat wid"
    and "asks st steps i wid cid thread chat" and "Suc i = length steps" and "fits (steps ! i) v" and "list_key (view s) QUEUE_NAME"
  shows "finished_with cm view out wid uid company cid thread chat jid now (chosen (answered steps i (reply_value v))) (view s) (out s)
    (take_reply cm wid chat uid company mp jid now i v s)"
proof (cases v)
  case (Click x)
  then show ?thesis using callback_last [OF assms(1,3,5,6,8), of x uid company mp jid now] by (elim exE conjE) simp
next
  case (Text t)
  then have "map_of (steps ! i) ''type'' = Some (PStr ''text_input'')" using assms(7) by simp
  then obtain s' where "check_wizard_text_input cm chat (PStr t) uid company mp jid now s = (Inr True, s')"
    "finished_with cm view out wid uid company cid thread chat jid now (chosen (answered steps i (PStr t))) (view s) (out s) s'"
    using text_last [OF assms(2,4,3,5,6) _ assms(8), of t uid company mp jid now] by blast
  then show ?thesis using Text by simp
qed

lemma replies_finish:
  assumes "CHR '':'' \<notin> set wid" and "wid \<noteq> []" and "wizard_at (view s) chat wid st" and "points_to (view s) chat wid"
    and "asks st steps i wid cid thread chat" and "list_all2 fits (drop i steps) vs" and "vs \<noteq> []" and "list_key (view s) QUEUE_NAME"
  shows "\<exists>ms. length ms = length vs - 1 \<and>
    finished_with cm view out wid uid company cid thread chat jid now (chosen (answer_all steps i vs)) (view s) (out s @ map (to_telegram cm) ms)
      (reply_all cm wid chat uid company mp jid now vs i s)"
  using assms(3-8)
proof (induction vs arbitrary: s st steps i)
  case (Cons v vs)
  have i: "i < length steps" using Cons.prems(4) by (metis drop_all list_all2_Nil list.distinct(1) not_less)
  have d: "drop i steps = steps ! i # drop (Suc i) steps" using i by (simp add: Cons_nth_drop_Suc)
  have f: "fits (steps ! i) v" and fs: "list_all2 fits (drop (Suc i) steps) vs" using Cons.prems(4) unfolding d by simp_all
  have len: "length vs = length steps - Suc i" using list_all2_lengthD [OF fs] by simp
  show ?case
  proof (cases vs)
    case Nil
    then have l: "Suc i = length steps" using len i by simp
    show ?thesis using reply_last [OF assms(1,2) Cons.prems(1-3) l f Cons.prems(6)] Nil by (intro exI [of _ "[]"]) simp
  next
    case (Cons w ws)
    then have l: "Suc i < length steps" using len by simp
    obtain s' st' m where 1: "take_reply cm wid chat uid company mp jid now i v s = s'"
      "asks st' (answered steps i (reply_value v)) (Suc i) wid cid thread chat" "wizard_at (view s') chat wid st'" "points_to (view s') chat wid"
      "out s' = out s @ [to_telegram cm m]" "\<forall>k. k \<noteq> wizard_key chat wid \<longrightarrow> k \<noteq> active_key chat \<longrightarrow> view s' k = view s k"
      using reply_next [OF assms(1,2) Cons.prems(1-3) l f] by blast
    have "view s' QUEUE_NAME = view s QUEUE_NAME" using 1(6) queue_key_ne by metis
    then have q: "list_key (view s') QUEUE_NAME" using Cons.prems(6) by (simp add: list_key_def)
    have n: "list_all2 fits (drop (Suc i) (answered steps i (reply_value v))) vs" "vs \<noteq> []" using fs Cons by (simp_all add: answered_def)
    obtain ms where ms: "length ms = length vs - 1"
      "finished_with cm view out wid uid company cid thread chat jid now (chosen (answer_all (answered steps i (reply_value v)) (Suc i) vs)) (view s')
        (out s' @ map (to_telegram cm) ms) (reply_all cm wid chat uid company mp jid now vs (Suc i) s')"
      using Cons.IH [OF 1(3,4,2) n q] by blast
    show ?thesis using finished_frame [OF ms(2) 1(6)] 1(1,5) ms(1) Cons by (intro exI [of _ "m # ms"]) simp
  qed
qed simp

end

section \<open>From the card to the wizard\<close>

definition interactive :: "pydict list \<Rightarrow> pydict list" where
  "interactive widgets = filter (\<lambda>w. is_choice (dget w ''type'') \<or> dget w ''type'' = PStr ''text_input'') widgets"

definition wname :: "pydict \<Rightarrow> string" where
  "wname w = (case map_of w ''name'' of Some (PStr f) \<Rightarrow> f | _ \<Rightarrow> [])"

definition wf_widget :: "pydict \<Rightarrow> bool" where
  "wf_widget w \<longleftrightarrow>
     ((is_choice (dget w ''type'') \<or> dget w ''type'' = PStr ''text_input'') \<longrightarrow> (\<exists>f. map_of w ''name'' = Some (PStr f) \<and> f \<noteq> ''widget_values'')) \<and>
     (is_choice (dget w ''type'') \<longrightarrow> (\<exists>its. dget_or w ''items'' (PList []) = PList (map PDict its) \<and>
        (\<forall>it \<in> set its. map_of it ''value'' \<noteq> None \<and> map_of it ''text'' \<noteq> None))) \<and>
     (dget w ''type'' = PStr ''text_paragraph'' \<longrightarrow> (\<exists>t. dget_or w ''text'' (PStr []) = PStr t))"

lemma wizard_step_ok:
  assumes "wf_widget w"
  shows "if is_choice (dget w ''type'') \<or> dget w ''type'' = PStr ''text_input''
    then \<exists>step. wizard_step w = Inr (Some step) \<and> wf_step step \<and> field step = wname w \<and>
      (dget w ''type'' = PStr ''text_input'' \<longrightarrow> map_of step ''type'' = Some (PStr ''text_input''))
    else wizard_step w = Inr None"
  using assms by (auto simp: wf_widget_def wizard_step_def is_choice_def Let_def ditem_def wf_step_def field_def wname_def)

lemma wizard_steps_ok:
  assumes "list_all wf_widget widgets"
  shows "\<exists>ss. rmap wizard_step widgets = Inr ss \<and> list_all wf_step (somes ss) \<and>
    map field (somes ss) = map wname (interactive widgets) \<and>
    list_all2 (\<lambda>step w. dget w ''type'' = PStr ''text_input'' \<longrightarrow> map_of step ''type'' = Some (PStr ''text_input'')) (somes ss) (interactive widgets)"
  using assms
proof (induction widgets)
  case Nil
  then show ?case by (simp add: interactive_def)
next
  case (Cons w ws)
  have "list_all wf_widget ws" using Cons.prems by simp
  then obtain ss where ss: "rmap wizard_step ws = Inr ss" "list_all wf_step (somes ss)"
    "map field (somes ss) = map wname (interactive ws)"
    "list_all2 (\<lambda>step w. dget w ''type'' = PStr ''text_input'' \<longrightarrow> map_of step ''type'' = Some (PStr ''text_input'')) (somes ss) (interactive ws)"
    using Cons.IH by blast
  show ?case
  proof (cases "is_choice (dget w ''type'') \<or> dget w ''type'' = PStr ''text_input''")
    case True
    then obtain step where "wizard_step w = Inr (Some step)" "wf_step step" "field step = wname w"
      "dget w ''type'' = PStr ''text_input'' \<longrightarrow> map_of step ''type'' = Some (PStr ''text_input'')" using wizard_step_ok [of w] Cons.prems by auto
    then show ?thesis using ss True by (intro exI [of _ "Some step # ss"]) (simp add: interactive_def)
  next
    case False
    then have "wizard_step w = Inr None" using wizard_step_ok [of w] Cons.prems by auto
    then show ?thesis using ss False by (intro exI [of _ "None # ss"]) (simp add: interactive_def)
  qed
qed

lemma wizard_context_ok:
  assumes "list_all wf_widget widgets"
  shows "\<exists>c. wizard_context (PStr text) widgets = Inr c"
proof -
  have "\<exists>ys. rmap as_str (filter truthy (PStr text # map (\<lambda>w. dget_or w ''text'' (PStr [])) (filter (\<lambda>w. dget w ''type'' = PStr ''text_paragraph'') widgets))) = Inr ys"
  proof (rule rmap_total)
    fix x assume "x \<in> set (filter truthy (PStr text # map (\<lambda>w. dget_or w ''text'' (PStr [])) (filter (\<lambda>w. dget w ''type'' = PStr ''text_paragraph'') widgets)))"
    then consider "x = PStr text" | w where "w \<in> set widgets" "dget w ''type'' = PStr ''text_paragraph''" "x = dget_or w ''text'' (PStr [])"
      by (auto split: if_splits)
    then show "\<exists>y. as_str x = Inr y" using assms by cases (auto simp: list_all_iff wf_widget_def)
  qed
  then show ?thesis unfolding wizard_context_def by (elim exE) simp
qed

context comm_up
begin

lemma wizard_start:
  assumes "list_all wf_widget widgets" and "interactive widgets \<noteq> []" and "dget_or card_data ''cardId'' (PStr ''unknown'') = PStr cid"
  shows "\<exists>s' st steps m. send_telegram_wizard cm chat card_data widgets (PStr text) mp thread dept wid s = (Inr (), s') \<and>
    asks st steps 0 wid cid thread chat \<and> map field steps = map wname (interactive widgets) \<and>
    list_all2 (\<lambda>step w. dget w ''type'' = PStr ''text_input'' \<longrightarrow> map_of step ''type'' = Some (PStr ''text_input'')) steps (interactive widgets) \<and>
    wizard_at (view s') chat wid st \<and> points_to (view s') chat wid \<and>
    out s' = out s @ [to_telegram cm m] \<and> (\<forall>k. k \<noteq> wizard_key chat wid \<longrightarrow> k \<noteq> active_key chat \<longrightarrow> view s' k = view s k)"
proof -
  obtain ss where ss: "rmap wizard_step widgets = Inr ss" "list_all wf_step (somes ss)"
    "map field (somes ss) = map wname (interactive widgets)"
    "list_all2 (\<lambda>step w. dget w ''type'' = PStr ''text_input'' \<longrightarrow> map_of step ''type'' = Some (PStr ''text_input'')) (somes ss) (interactive widgets)"
    using wizard_steps_ok [OF assms(1)] by blast
  obtain c where c: "wizard_context (PStr text) widgets = Inr c" using wizard_context_ok [OF assms(1)] by blast
  let ?steps = "somes ss"
  let ?st = "wizard_state (PStr cid) mp chat thread dept c ?steps wid"
  have ne: "?steps \<noteq> []" using ss(3) assms(2) by auto
  have a: "asks ?st ?steps 0 wid cid thread chat" using ss(2) by (simp add: asks_def wizard_state_def)
  have t: "0 < WIZARD_TTL" by (simp add: WIZARD_TTL_def)
  obtain s1 where 1: "r_setex (cm_redis cm) (wizard_key chat wid) WIZARD_TTL (json_dumps (PDict ?st)) s = (Inr (), s1)"
    "view s1 = (view s)(wizard_key chat wid \<mapsto> (VStr (json_dumps (PDict ?st)), Some WIZARD_TTL))" "out s1 = out s" by (rule setex_str [OF t])
  obtain s2 where 2: "r_setex (cm_redis cm) (active_key chat) WIZARD_TTL (Raw wid) s1 = (Inr (), s2)"
    "view s2 = (view s1)(active_key chat \<mapsto> (VStr (Raw wid), Some WIZARD_TTL))" "out s2 = out s1" by (rule setex_str [OF t])
  obtain m where m: "step_message (cm_show cm) ?st = Inr (Some m)" using step_message_ok [OF a] ne by blast
  obtain s3 where 3: "publish_outbound cm ''telegram'' m s2 = (Inr (), s3)" "view s3 = view s2" "out s3 = out s2 @ [to_telegram cm m]" by (rule telegram_up)
  have "send_telegram_wizard cm chat card_data widgets (PStr text) mp thread dept wid s = (Inr (), s3)"
    using ss(1) c ne 1(1) 2(1) m 3(1) assms(3) by (simp add: send_telegram_wizard_def send_wizard_step_def Let_def sbind_def slift_def)
  moreover have "wizard_at (view s3) chat wid ?st" using 1(2) 2(2) 3(2) by (simp add: wizard_at_def json_dumps_def)
  moreover have "points_to (view s3) chat wid" using 2(2) 3(2) by (simp add: points_to_def)
  ultimately show ?thesis using a ss(3,4) 1 2 3 by (intro exI [of _ s3] exI [of _ ?st] exI [of _ ?steps] exI [of _ m]) simp
qed

end

section \<open>Properties\<close>

text \<open>A reply to the question of a widget: a button, or a text where the widget asks for one.\<close>

fun answers :: "pydict \<Rightarrow> reply \<Rightarrow> bool" where
  "answers w (Click v) = True"
| "answers w (Text t) = (dget w ''type'' = PStr ''text_input'')"

lemma answers_fit:
  assumes "list_all2 (\<lambda>step w. dget w ''type'' = PStr ''text_input'' \<longrightarrow> map_of step ''type'' = Some (PStr ''text_input'')) steps ws"
    and "list_all2 answers ws vs"
  shows "list_all2 fits steps vs"
proof -
  have "fits step v" if "dget w ''type'' = PStr ''text_input'' \<longrightarrow> map_of step ''type'' = Some (PStr ''text_input'')" "answers w v" for step w v
    using that by (cases v) auto
  then show ?thesis using list_all2_trans [OF _ assms] by blast
qed

text \<open>C8: A card with questions ends with the answers: the dispatcher opens a wizard for the card, and when the user has replied to every
  question in order, by a button or by a text where one is asked for, the wizard's document and the pointer to it are gone, one question has been
  sent for each interactive widget, and the worker of the card has received exactly once, after the summary for the user, the action
  \<open>approve\<close> with every field and its answer; no other key has changed.\<close>

theorem wizard_delivers_answers:
  assumes "comm_up cm view tick out" and "CHR '':'' \<notin> set wid" and "wid \<noteq> []" and "list_all wf_widget widgets" and "interactive widgets \<noteq> []"
    and "dget_or card_data ''cardId'' (PStr ''unknown'') = PStr cid" and "list_all2 answers (interactive widgets) vs" and "list_key (view s) QUEUE_NAME"
    and "send_telegram_wizard cm chat card_data widgets (PStr text) mp thread dept wid s = (r, s1)"
  shows "r = Inr () \<and> (\<exists>ms. length ms = length (interactive widgets) \<and>
    finished_with cm view out wid uid company cid thread chat jid now
      (dupdate [(''action'', PStr ''approve'')] (zip (map wname (interactive widgets)) (map reply_value vs))) (view s) (out s @ map (to_telegram cm) ms)
      (reply_all cm wid chat uid company mp jid now vs 0 s1))"
proof -
  obtain s' st steps m where w: "send_telegram_wizard cm chat card_data widgets (PStr text) mp thread dept wid s = (Inr (), s')"
    "asks st steps 0 wid cid thread chat" "map field steps = map wname (interactive widgets)" "wizard_at (view s') chat wid st" "points_to (view s') chat wid"
    "out s' = out s @ [to_telegram cm m]" "\<forall>k. k \<noteq> wizard_key chat wid \<longrightarrow> k \<noteq> active_key chat \<longrightarrow> view s' k = view s k"
    "list_all2 (\<lambda>step w. dget w ''type'' = PStr ''text_input'' \<longrightarrow> map_of step ''type'' = Some (PStr ''text_input'')) steps (interactive widgets)"
    using comm_up.wizard_start [OF assms(1,4-6)] by blast
  have e: "r = Inr ()" "s' = s1" using w(1) assms(9) by auto
  have "view s' QUEUE_NAME = view s QUEUE_NAME" using w(7) queue_key_ne by metis
  then have q: "list_key (view s') QUEUE_NAME" using assms(8) by (simp add: list_key_def)
  have fit: "list_all2 fits (drop 0 steps) vs" using answers_fit [OF w(8) assms(7)] by simp
  have l: "length steps = length (interactive widgets)" "length vs = length steps" using arg_cong [OF w(3), of length] list_all2_lengthD [OF fit] by simp_all
  have n: "vs \<noteq> []" using assms(5) l by auto
  obtain ms where ms: "length ms = length vs - 1"
    "finished_with cm view out wid uid company cid thread chat jid now (chosen (answer_all steps 0 vs)) (view s') (out s' @ map (to_telegram cm) ms)
      (reply_all cm wid chat uid company mp jid now vs 0 s')" using comm_up.replies_finish [OF assms(1-3) w(4,5,2) fit n q] by blast
  have c: "chosen (answer_all steps 0 vs) = dupdate [(''action'', PStr ''approve'')] (zip (map wname (interactive widgets)) (map reply_value vs))"
    using chosen_all [of vs steps] l w(3) by simp
  have "length (m # ms) = length (interactive widgets)" using ms(1) n l by (cases vs) simp_all
  moreover have "out s' @ map (to_telegram cm) ms = out s @ map (to_telegram cm) (m # ms)" using w(6) by simp
  ultimately show ?thesis using finished_frame [OF ms(2) w(7)] e unfolding c by metis
qed

text \<open>A card of the router with a list and a text, over the in-memory server.\<close>

definition demo_comm :: "mem comm" where
  "demo_comm = \<lparr>cm_config = \<lparr>TRANSPORT_MODE = ''redis'', GOOGLE_PROJECT_ID = [], TELEGRAM_OUTBOUND_TOPIC = ''telegram-outbound'', DISPATCH_TELEGRAM_ENABLED = True\<rparr>,
     cm_redis = mem_redis, cm_google = (\<lambda>topic t _ s. (Inr (), s\<lparr>m_out := m_out s @ [(topic, t)]\<rparr>)), cm_ecs = demo_ecs,
     cm_company_context = (\<lambda>_ _ s. (Inr PNone, s)), cm_document = (\<lambda>_ s. (Inr None, s)), cm_show = (\<lambda>_. ''?''), cm_loads = (\<lambda>_. None), cm_dumps = (\<lambda>_. ''{}'')\<rparr>"

lemma demo_comm_up: "comm_up demo_comm mem_view mem_tick m_out"
proof (rule comm_up.intro)
  show "gateway (cm_redis demo_comm) mem_view mem_tick m_out (cm_ecs demo_comm)" using demo_gateway by (simp add: demo_comm_def)
  show "comm_up_axioms demo_comm mem_view m_out" by unfold_locales (simp add: demo_comm_def)
qed

interpretation demo_cm: comm_up demo_comm mem_view mem_tick m_out
  by (rule demo_comm_up)

definition demo_widgets :: "pydict list" where
  "demo_widgets =
     [[(''type'', PStr ''text_paragraph''), (''text'', PStr ''Choose'')],
      [(''type'', PStr ''dropdown''), (''name'', PStr ''pinnokio_func''), (''items'', PList [PDict [(''text'', PStr ''A''), (''value'', PStr ''a'')]])],
      [(''type'', PStr ''text_input''), (''name'', PStr ''instructions'')]]"

lemma demo_widgets_ok: "list_all wf_widget demo_widgets" "map wname (interactive demo_widgets) = [''pinnokio_func'', ''instructions'']"
  "list_all2 answers (interactive demo_widgets) [Click ''a'', Text ''now'']"
proof -
  have "\<exists>its. PList [PDict [(''text'', PStr ''A''), (''value'', PStr ''a'')]] = PList (map PDict its) \<and>
      (\<forall>it \<in> set its. map_of it ''value'' \<noteq> None \<and> map_of it ''text'' \<noteq> None)"
    by (intro exI [of _ "[[(''text'', PStr ''A''), (''value'', PStr ''a'')]]"]) simp
  then show "list_all wf_widget demo_widgets" by (simp add: demo_widgets_def wf_widget_def is_choice_def)
qed (simp_all add: demo_widgets_def interactive_def is_choice_def wname_def)

theorem wizard_delivers_answers_witness:
  "\<exists>s1 ms m w. send_telegram_wizard demo_comm 7 [(''cardId'', PStr ''klk_router_card'')] demo_widgets (PStr []) ''mp'' ''t'' ''Router'' ''ab12'' empty_mem = (Inr (), s1) \<and>
     length ms = 2 \<and> m_out (reply_all demo_comm ''ab12'' 7 ''u'' ''c'' ''mp'' ''j'' ''now'' [Click ''a'', Text ''now''] 0 s1) = map (to_telegram demo_comm) ms @ [m, w] \<and>
     worker_message demo_comm ''u'' ''c'' ''klk_router_card'' ''t'' 7 ''now''
       [(''action'', PStr ''approve''), (''pinnokio_func'', PStr ''a''), (''instructions'', PStr ''now'')] = Some w"
proof -
  have q: "list_key (mem_view empty_mem) QUEUE_NAME" "m_out empty_mem = []" by (simp_all add: list_key_def mem_view_def empty_mem_def)
  have i: "interactive demo_widgets \<noteq> []" "length (interactive demo_widgets) = 2" by (simp_all add: demo_widgets_def interactive_def is_choice_def)
  have wid: "CHR '':'' \<notin> set ''ab12''" "''ab12'' \<noteq> []" by simp_all
  have c: "dget_or [(''cardId'', PStr ''klk_router_card'')] ''cardId'' (PStr ''unknown'') = PStr ''klk_router_card''" by simp
  obtain r s1 where s1: "send_telegram_wizard demo_comm 7 [(''cardId'', PStr ''klk_router_card'')] demo_widgets (PStr []) ''mp'' ''t'' ''Router'' ''ab12'' empty_mem = (r, s1)"
    by fastforce
  have ext: "''klk_router_card'' \<in> set EXTERNAL_WORKER_CARD_IDS" by (simp add: EXTERNAL_WORKER_CARD_IDS_def)
  show ?thesis
    using wizard_delivers_answers [OF demo_comm_up wid demo_widgets_ok(1) i(1) c demo_widgets_ok(3) q(1) s1, of "''u''" "''c''" "''j''" "''now''"] s1 q(2) i(2) ext
    by (auto simp: finished_with_def demo_widgets_ok(2) answer_def dupdate_def)
qed

text \<open>A button pressed twice counts once: the second callback of the same step changes neither Redis nor the messages sent, whether the wizard has
  gone on to the next step or has ended.\<close>

theorem repeated_click_ignored:
  assumes "comm_up cm view tick out" and "CHR '':'' \<notin> set wid" and "wizard_at (view s) chat wid st" and "asks st steps i wid cid thread chat"
    and "i < length steps" and "list_key (view s) QUEUE_NAME"
    and "handle_wizard_callback cm (callback wid i v) chat uid company mp jid now s = (r, s1)"
    and "handle_wizard_callback cm (callback wid i v') chat uid company mp jid' now' s1 = (r', s2)"
  shows "r = Inr () \<and> r' = Inr () \<and> view s2 = view s1 \<and> out s2 = out s1"
proof -
  have "r = Inr () \<and> (view s1 (wizard_key chat wid) = None \<or>
      (\<exists>st steps j cid thread. wizard_at (view s1) chat wid st \<and> asks st steps j wid cid thread chat \<and> j \<noteq> i))"
  proof (cases "Suc i < length steps")
    case True
    obtain s' st' where "handle_wizard_callback cm (callback wid i v) chat uid company mp jid now s = (Inr (), s')"
      "asks st' (answered steps i (answer v)) (Suc i) wid cid thread chat" "wizard_at (view s') chat wid st'"
      using comm_up.callback_next [OF assms(1-4) True] by blast
    then show ?thesis using assms(7) by (metis n_not_Suc_n prod.inject)
  next
    case False
    then have l: "Suc i = length steps" using assms(5) by simp
    obtain s' where "handle_wizard_callback cm (callback wid i v) chat uid company mp jid now s = (Inr (), s')"
      "finished_with cm view out wid uid company cid thread chat jid now (chosen (answered steps i (answer v))) (view s) (out s) s'"
      using comm_up.callback_last [OF assms(1-4) l assms(6)] by blast
    then show ?thesis using assms(7) by (simp add: finished_with_def)
  qed
  then show ?thesis using comm_up.callback_ignored [OF assms(1,2), of s1 chat i v' uid company mp jid' now'] assms(8) by auto
qed

lemma demo_opened:
  obtains s st steps where "wizard_at (mem_view s) 7 ''ab12'' st" "asks st steps 0 ''ab12'' ''klk_router_card'' ''t'' 7" "length steps = 2"
    "list_key (mem_view s) QUEUE_NAME"
proof -
  have c: "dget_or [(''cardId'', PStr ''klk_router_card'')] ''cardId'' (PStr ''unknown'') = PStr ''klk_router_card''" by simp
  have i: "interactive demo_widgets \<noteq> []" by (simp add: demo_widgets_def interactive_def is_choice_def)
  obtain s st steps where w: "asks st steps 0 ''ab12'' ''klk_router_card'' ''t'' 7" "map field steps = map wname (interactive demo_widgets)"
    "wizard_at (mem_view s) 7 ''ab12'' st" "\<forall>k. k \<noteq> wizard_key 7 ''ab12'' \<longrightarrow> k \<noteq> active_key 7 \<longrightarrow> mem_view s k = mem_view empty_mem k"
    using demo_cm.wizard_start [OF demo_widgets_ok(1) i c] by blast
  have "mem_view s QUEUE_NAME = None" using w(4) queue_key_ne by (metis (no_types, lifting) empty_mem_def map_of.simps(1) mem.select_convs(2) mem_view_def option.simps(4))
  moreover have "length steps = 2" using arg_cong [OF w(2), of length] demo_widgets_ok(2) by simp
  ultimately show thesis using that w(1,3) by (simp add: list_key_def)
qed

theorem repeated_click_ignored_witness:
  "\<exists>s st steps r s1 r' s2. wizard_at (mem_view s) 7 ''ab12'' st \<and> asks st steps 0 ''ab12'' ''klk_router_card'' ''t'' 7 \<and>
     handle_wizard_callback demo_comm (callback ''ab12'' 0 ''a'') 7 ''u'' ''c'' ''mp'' ''j'' ''now'' s = (r, s1) \<and>
     handle_wizard_callback demo_comm (callback ''ab12'' 0 ''a'') 7 ''u'' ''c'' ''mp'' ''j'' ''now'' s1 = (r', s2) \<and> m_out s2 = m_out s1"
proof -
  obtain s st steps where w: "wizard_at (mem_view s) 7 ''ab12'' st" "asks st steps 0 ''ab12'' ''klk_router_card'' ''t'' 7" "length steps = 2"
    "list_key (mem_view s) QUEUE_NAME" by (rule demo_opened)
  obtain r s1 where 1: "handle_wizard_callback demo_comm (callback ''ab12'' 0 ''a'') 7 ''u'' ''c'' ''mp'' ''j'' ''now'' s = (r, s1)" by fastforce
  obtain r' s2 where 2: "handle_wizard_callback demo_comm (callback ''ab12'' 0 ''a'') 7 ''u'' ''c'' ''mp'' ''j'' ''now'' s1 = (r', s2)" by fastforce
  have c: "CHR '':'' \<notin> set ''ab12''" by simp
  have l: "0 < length steps" using w(3) by simp
  show ?thesis using repeated_click_ignored [OF demo_comm_up c w(1,2) l w(4) 1 2] w(1,2) 1 2 by blast
qed

lemma py_chars_ascii: "list_all utf8_start t \<Longrightarrow> py_chars t = map (\<lambda>c. [c]) t"
  by (induction t) (auto split: list.split)

lemma cut64_ascii: "list_all utf8_start t \<Longrightarrow> cut64 t = take 64 t"
proof -
  assume "list_all utf8_start t"
  then have "cut64 t = concat (map (\<lambda>c. [c]) (take 64 t))" by (simp add: cut64_def py_chars_ascii take_map)
  then show ?thesis by simp
qed

text \<open>The data of a button is cut to 64 characters, so an option with a longer value is recorded as a prefix of it: the button shown for the value
  \<open>v\<close> selects what fits after the identification of the wizard and the step.\<close>

theorem long_option_truncated:
  assumes "comm_up cm view tick out" and "CHR '':'' \<notin> set wid" and "wizard_at (view s) chat wid st" and "asks st steps i wid cid thread chat"
    and "Suc i < length steps" and "list_all utf8_start (callback wid i v)" and "length (callback wid i []) \<le> 64"
    and "map_of it ''value'' = Some (PStr v)" and "map_of it ''text'' = Some label"
  shows "\<exists>cb s' st' shown. step_button (cm_show cm) wid (int i) (steps ! i) it = Inr (PList [PDict [(''text'', shown), (''callback_data'', PStr cb)]]) \<and>
    handle_wizard_callback cm cb chat uid company mp jid now s = (Inr (), s') \<and> wizard_at (view s') chat wid st' \<and>
    asks st' (answered steps i (answer (take (64 - length (callback wid i [])) v))) (Suc i) wid cid thread chat"
proof -
  let ?n = "64 - length (callback wid i [])"
  have "callback wid i v = callback wid i [] @ v" by (simp add: callback_def)
  then have "take 64 (callback wid i v) = callback wid i [] @ take ?n v" using assms(7) by simp
  then have c: "cut64 (callback wid i v) = callback wid i (take ?n v)" using cut64_ascii [OF assms(6)] by (simp add: callback_def)
  have b: "step_button (cm_show cm) wid (int i) (steps ! i) it = Inr (PList [PDict [(''text'', if PStr v = dget (steps ! i) ''default'' then PStr (''>> '' @ py_str (cm_show cm) label) else label),
      (''callback_data'', PStr (cut64 (callback wid i v)))]])" using assms(8,9) by (simp add: step_button_def ditem_def callback_def py_str_def)
  show ?thesis unfolding b c using comm_up.callback_next [OF assms(1-5), of "take ?n v" uid company mp jid now] by blast
qed

theorem long_option_truncated_witness:
  "\<exists>s cb s' st' steps shown. step_button (cm_show demo_comm) ''ab12'' 0 (steps ! 0) [(''value'', PStr (replicate 60 CHR ''x'')), (''text'', PStr ''X'')] =
       Inr (PList [PDict [(''text'', shown), (''callback_data'', PStr cb)]]) \<and>
     handle_wizard_callback demo_comm cb 7 ''u'' ''c'' ''mp'' ''j'' ''now'' s = (Inr (), s') \<and> wizard_at (mem_view s') 7 ''ab12'' st' \<and>
     asks st' (answered steps 0 (PStr (replicate 55 CHR ''x''))) 1 ''ab12'' ''klk_router_card'' ''t'' 7"
proof -
  obtain s st steps where w: "wizard_at (mem_view s) 7 ''ab12'' st" "asks st steps 0 ''ab12'' ''klk_router_card'' ''t'' 7" "length steps = 2"
    "list_key (mem_view s) QUEUE_NAME" by (rule demo_opened)
  have c: "CHR '':'' \<notin> set ''ab12''" by simp
  have l: "Suc 0 < length steps" using w(3) by simp
  have "int_str 0 = ''0''" by code_simp
  then have cb: "callback ''ab12'' 0 v = ''w:ab12:0:'' @ v" for v by (simp add: callback_def)
  have u: "list_all utf8_start (callback ''ab12'' 0 (replicate 60 CHR ''x''))" unfolding cb by (simp add: utf8_start_def list_all_iff)
  have n: "length (callback ''ab12'' 0 []) \<le> 64" unfolding cb by simp
  have m: "map_of [(''value'', PStr (replicate 60 CHR ''x'')), (''text'', PStr ''X'')] ''value'' = Some (PStr (replicate 60 CHR ''x''))"
    "map_of [(''value'', PStr (replicate 60 CHR ''x'')), (''text'', PStr ''X'')] ''text'' = Some (PStr ''X'')" by simp_all
  have a: "answer (take (64 - length (callback ''ab12'' 0 [])) (replicate 60 CHR ''x'')) = PStr (replicate 55 CHR ''x'')"
  proof -
    have "64 - length (callback ''ab12'' 0 []) = 55" unfolding cb by simp
    moreover have "take 55 (replicate 60 CHR ''x'') = replicate 55 CHR ''x''" by (simp only: take_replicate) simp
    moreover have "replicate 55 CHR ''x'' \<noteq> ''__skip__''" 
    proof
      assume "replicate 55 CHR ''x'' = ''__skip__''"
      then have "length (replicate 55 CHR ''x'') = length ''__skip__''" by (rule arg_cong)
      then show False by (simp only: length_replicate) simp
    qed
    ultimately show ?thesis by (simp only: answer_def if_False)
  qed
  show ?thesis using long_option_truncated [OF demo_comm_up c w(1,2) l u n m, of "''u''" "''c''" "''mp''" "''j''" "''now''"] unfolding a of_nat_0 One_nat_def by blast
qed

text \<open>The wizard is deleted before its answers are sent: when the message to Telegram fails at the last step, the callback raises, the answers have reached
  no worker, and the callback delivered again finds no wizard and is dropped without an error.\<close>

theorem answers_lost_when_sending_fails:
  assumes "gateway (cm_redis cm) view tick out (cm_ecs cm)" and "\<And>m s. publish_outbound cm ''telegram'' m s = (Inl e, s)"
    and "CHR '':'' \<notin> set wid" and "wizard_at (view s) chat wid st" and "asks st steps i wid cid thread chat" and "Suc i = length steps"
  shows "\<exists>s' s''. handle_wizard_callback cm (callback wid i v) chat uid company mp jid now s = (Inl e, s') \<and> view s' (wizard_key chat wid) = None \<and>
    out s' = out s \<and> view s' QUEUE_NAME = view s QUEUE_NAME \<and>
    handle_wizard_callback cm (callback wid i v) chat uid company mp jid now s' = (Inr (), s'') \<and> view s'' = view s' \<and> out s'' = out s"
proof -
  let ?k = "wizard_key chat wid"
  have ro: "redis_out (cm_redis cm) view tick out" using assms(1) by (rule gateway.axioms(1))
  have i: "i < length steps" using assms(6) by simp
  have sk: "str_key (view s) ?k" and sa: "str_at (view s) ?k = Some (Json (PDict st))" using wizard_at_str [OF assms(4)] by blast+
  obtain s1 where 1: "r_get (cm_redis cm) ?k s = (Inr (str_at (view s) ?k), s1)" "view s1 = view s" "out s1 = out s" by (rule redis_out.get_str [OF ro sk])
  obtain st' where st': "answer_step (int i) (answer v) st = Inr st'" "asks st' (answered steps i (answer v)) (i + 1) wid cid thread chat"
    by (rule asks_answer [OF assms(5) i])
  obtain n2 s2 where 2: "r_delete (cm_redis cm) [?k] s1 = (Inr n2, s2)" "view s2 = (view s1)(?k := None)" "out s2 = out s1" by (rule redis_out.delete_key [OF ro])
  obtain n3 s3 where 3: "r_delete (cm_redis cm) [active_key chat] s2 = (Inr n3, s3)" "view s3 = (view s2)(active_key chat := None)" "out s3 = out s2"
    by (rule redis_out.delete_key [OF ro])
  let ?steps = "answered steps i (answer v)"
  have w: "list_all wf_step ?steps" using st'(2) by (simp add: asks_def)
  obtain p where p: "build_card_clicked_payload (cm_show cm) cid (chosen ?steps) thread uid now = Inr p" using payload_ok [OF w] by blast
  obtain ls where ls: "rmap (summary_line (cm_show cm)) ?steps = Inr ls" using summary_ok [OF w] by blast
  have "complete_wizard cm st' uid company mp jid now s3 = (Inl e, s3)"
    using st'(2) assms(2) p ls wizard_values_ok [OF w] by (simp add: complete_wizard_def asks_def str_item_def ditem_def list_item_def slift_def sbind_def)
  then have run: "handle_wizard_callback cm (callback wid i v) chat uid company mp jid now s = (Inl e, s3)"
    using 1(1) 2(1) 3(1) st'(1) asks_reads(1,2) [OF assms(5)] sa assms(6)
    by (simp add: handle_wizard_callback_def split_callback [OF assms(3)] int_of_nat_str sbind_def slift_def answer_def)
  have gone: "view s3 ?k = None" using 2(2) 3(2) by simp
  then have sk3: "str_key (view s3) ?k" "str_at (view s3) ?k = None" by (simp_all add: str_key_def str_at_def)
  obtain s4 where 4: "r_get (cm_redis cm) ?k s3 = (Inr (str_at (view s3) ?k), s4)" "view s4 = view s3" "out s4 = out s3" by (rule redis_out.get_str [OF ro sk3(1)])
  have "handle_wizard_callback cm (callback wid i v) chat uid company mp jid now s3 = (Inr (), s4)"
    using 4(1) sk3(2) by (simp add: handle_wizard_callback_def split_callback [OF assms(3)] int_of_nat_str sbind_def sret_def)
  moreover have "view s3 QUEUE_NAME = view s QUEUE_NAME" using 1(2) 2(2) 3(2) by (simp add: queue_key_ne [symmetric])
  ultimately show ?thesis using run gone 1(3) 2(3) 3(3) 4(2,3) by (intro exI [of _ s3] exI [of _ s4]) simp
qed

text \<open>The same services with a publisher that fails.\<close>

definition demo_failing :: "mem comm" where
  "demo_failing = demo_comm\<lparr>cm_config := (cm_config demo_comm)\<lparr>TRANSPORT_MODE := ''pubsub'', GOOGLE_PROJECT_ID := ''p''\<rparr>,
     cm_google := (\<lambda>_ _ _ s. (Inl (ServiceError ''timeout''), s))\<rparr>"

theorem answers_lost_when_sending_fails_witness:
  "\<exists>s s' s''. handle_wizard_callback demo_failing (callback ''ab12'' 1 ''x'') 7 ''u'' ''c'' ''mp'' ''j'' ''now'' s = (Inl (ServiceError ''timeout''), s') \<and>
     m_out s' = m_out s \<and> handle_wizard_callback demo_failing (callback ''ab12'' 1 ''x'') 7 ''u'' ''c'' ''mp'' ''j'' ''now'' s' = (Inr (), s'') \<and> m_out s'' = m_out s"
proof -
  obtain s st steps where w: "wizard_at (mem_view s) 7 ''ab12'' st" "asks st steps 0 ''ab12'' ''klk_router_card'' ''t'' 7" "length steps = 2" by (rule demo_opened)
  have c: "CHR '':'' \<notin> set ''ab12''" by simp
  have l: "Suc 0 < length steps" using w(3) by simp
  obtain s1 st1 where 1: "asks st1 (answered steps 0 (answer ''a'')) (Suc 0) ''ab12'' ''klk_router_card'' ''t'' 7" "wizard_at (mem_view s1) 7 ''ab12'' st1"
    using demo_cm.callback_next [OF c w(1,2) l] by blast
  have g: "gateway (cm_redis demo_failing) mem_view mem_tick m_out (cm_ecs demo_failing)" using demo_gateway by (simp add: demo_failing_def demo_comm_def)
  have f: "\<And>m s. publish_outbound demo_failing ''telegram'' m s = (Inl (ServiceError ''timeout''), s)"
    by (simp add: publish_outbound_def transport_publish_def transport_mode_def publish_pubsub_def demo_failing_def)
  have n: "Suc (Suc 0) = length (answered steps 0 (answer ''a''))" using w(3) by simp
  show ?thesis using answers_lost_when_sending_fails [OF g f c 1(2,1) n, of "''x''" "''u''" "''c''" "''mp''" "''j''" "''now''"] by auto
qed

end
