(* ===== verification/Hub_State.thy ===== *)
theory Hub_State
  imports Ws_Hub Py_Access
begin

text \<open>
  One instance of the service as the handlers see it: the state of the Redis server, the WebSocket hub, and the messages
  its connections have taken. \<open>send_ok\<close> tells which connections accept a message. The record is extended by components that keep
  state of their own.
\<close>

record 's node =
  n_srv :: 's
  n_hub :: hub
  n_sent :: "(conn \<times> pydict) list"

definition on_srv :: "('s \<Rightarrow> 'a \<times> 's) \<Rightarrow> ('s, 'z) node_scheme \<Rightarrow> 'a \<times> ('s, 'z) node_scheme" where
  "on_srv f n = (case f (n_srv n) of (a, s') \<Rightarrow> (a, n\<lparr>n_srv := s'\<rparr>))"

definition hub_broadcast ::
  "'s redis \<Rightarrow> (conn \<Rightarrow> bool) \<Rightarrow> string \<Rightarrow> pydict \<Rightarrow> ('s, 'z) node_scheme \<Rightarrow> unit result \<times> ('s, 'z) node_scheme" where
  "hub_broadcast rc send_ok uid message n =
     (case broadcast rc send_ok (n_hub n) uid message (n_srv n) of
        (h', s', sent) \<Rightarrow> (Inr (), n\<lparr>n_hub := h', n_srv := s', n_sent := n_sent n @ sent\<rparr>))"

lemma on_srv_eq: "f (n_srv n) = (a, s') \<Longrightarrow> on_srv f n = (a, n\<lparr>n_srv := s'\<rparr>)"
  by (simp add: on_srv_def)

text \<open>
  A message without a thread in its channel is not buffered: the broadcast leaves the server alone, and with every
  connection open it leaves the hub alone and reaches each of them.
\<close>

definition sent_to :: "hub \<Rightarrow> string \<Rightarrow> pydict \<Rightarrow> (conn \<times> pydict) list" where
  "sent_to h uid message = map (\<lambda>c. (c, normalize_message message)) (conns_of h uid)"

lemma buffer_none: "thread_key_of (normalize_message m) = None \<Longrightarrow> buffer_message rc uid (normalize_message m) s = s"
  by (simp add: buffer_message_def)

lemma hub_broadcast_result: "\<exists>n'. hub_broadcast rc send_ok uid m n = (Inr (), n')"
  by (simp add: hub_broadcast_def split: prod.split)

lemma hub_broadcast_srv:
  assumes "thread_key_of (normalize_message m) = None" and "hub_broadcast rc send_ok uid m n = (r, n')"
  shows "n_srv n' = n_srv n"
  using assms by (auto simp: hub_broadcast_def broadcast_def broadcast_finish_def buffer_none Let_def split: if_splits)

lemma hub_broadcast_open:
  assumes "thread_key_of (normalize_message m) = None" and "\<And>c. send_ok c"
  shows "hub_broadcast rc send_ok uid m n = (Inr (), n\<lparr>n_sent := n_sent n @ sent_to (n_hub n) uid m\<rparr>)"
  using assms by (simp add: hub_broadcast_def broadcast_def broadcast_finish_def buffer_none clean_dead_def sent_to_def Let_def)

lemma thread_key_of_dset_type: "thread_key_of (dset m ''type'' v) = thread_key_of m"
  by (simp add: thread_key_of_def)

lemma thread_key_normalize: "thread_key_of (normalize_message m) = thread_key_of m"
  by (simp add: normalize_message_def thread_key_of_dset_type split: pyval.split option.split)

end
