(* ===== verification/Subscriptions.thy ===== *)
theory Subscriptions
  imports Hub_State "HOL-Library.Product_Lexorder"
begin

text \<open>
  \<open>RealtimeSubscriptionManager\<close> of \<open>src/app/realtime/subscription_manager.py\<close>: notifications and messages of a connected user are loaded,
  cached in Redis as JSON lists and sent to the browser; afterwards a background task per user listens to two channels of Redis and
  applies each event to the cached list. \<open>fb\<close> holds the reads of Firestore and of the realtime database, the parser of JSON texts inside a
  document, the indented JSON text of a value and \<open>str\<close> of a value; a timestamp of a document is its ISO text. Background tasks are numbers:
  \<open>rt_running\<close> lists those that have not ended, \<open>rt_tasks\<close> is the dictionary of the manager. Log output, the waiting times and the singleton are left out.
\<close>

section \<open>Definitions\<close>

definition CACHE_TTL_SECONDS :: nat where
  "CACHE_TTL_SECONDS = 7200"

definition get_notifications_cache_key :: "string \<Rightarrow> string" where
  "get_notifications_cache_key uid = ''realtime:'' @ uid @ '':notifications''"

definition get_messages_cache_key :: "string \<Rightarrow> string" where
  "get_messages_cache_key uid = ''realtime:'' @ uid @ '':messages''"

record 's rt = "'s node" +
  rt_active :: "string set"
  rt_tasks :: "string \<Rightarrow> nat option"
  rt_running :: "(nat \<times> string) list"
  rt_next :: nat
  rt_sync :: bool

record fb =
  fb_query :: "string \<Rightarrow> bool option \<Rightarrow> nat \<Rightarrow> (string \<times> pydict) list result"
  fb_child :: "string \<Rightarrow> pyval result"
  fb_loads :: "string \<Rightarrow> pyval option"
  fb_indented :: "pyval \<Rightarrow> string"
  fb_show :: "pyval \<Rightarrow> string"

subsection \<open>Loading\<close>

text \<open>\<open>FirebaseManagement.get_notifications\<close>; \<open>fb_query\<close> is the Firestore query with its optional filter on \<open>read\<close> and its limit.\<close>

definition get_notifications :: "fb \<Rightarrow> string \<Rightarrow> bool option \<Rightarrow> nat \<Rightarrow> pydict list" where
  "get_notifications fb user_id read limit =
     (if user_id = [] then []
      else case fb_query fb (''clients/'' @ user_id @ ''/notifications'') read limit of
        Inl _ \<Rightarrow> []
      | Inr docs \<Rightarrow> map (\<lambda>(doc_id, d). dset d ''id'' (PStr doc_id)) docs)"

definition serialize_timestamp :: "(pyval \<Rightarrow> string) \<Rightarrow> pyval \<Rightarrow> string" where
  "serialize_timestamp show v = (case v of PNone \<Rightarrow> [] | PStr t \<Rightarrow> t | _ \<Rightarrow> py_str show v)"

definition FUNCTION_NAME_NORMALIZE :: "(string \<times> string) list" where
  "FUNCTION_NAME_NORMALIZE = [(''router'', ''Router''), (''apbookeeper'', ''APbookeeper''), (''bankbookeeper'', ''Bankbookeeper''), (''onboarding'', ''Onboarding'')]"

text \<open>\<open>d.get(k, d.get(k', default))\<close>.\<close>

definition either_key :: "pydict \<Rightarrow> string \<Rightarrow> string \<Rightarrow> pyval \<Rightarrow> pyval" where
  "either_key d k k' v = dget_or d k (dget_or d k' v)"

definition normalize_function_name :: "pyval \<Rightarrow> pyval" where
  "normalize_function_name raw_fn =
     (case map_of FUNCTION_NAME_NORMALIZE (case raw_fn of PStr t \<Rightarrow> py_lower t | _ \<Rightarrow> []) of Some n \<Rightarrow> PStr n | None \<Rightarrow> raw_fn)"

definition format_additional_info :: "fb \<Rightarrow> pyval \<Rightarrow> pyval" where
  "format_additional_info fb info =
     (if \<not> truthy info then PStr []
      else case info of
        PStr t \<Rightarrow> (case fb_loads fb t of Some v \<Rightarrow> PStr (fb_indented fb v) | None \<Rightarrow> PStr t)
      | v \<Rightarrow> PStr (fb_indented fb v))"

definition transform_notification :: "fb \<Rightarrow> pyval \<Rightarrow> pydict \<Rightarrow> pydict" where
  "transform_notification fb doc_id data =
     (let additional_info = dget_or data ''additional_info'' (PStr []);
          file_name = either_key data ''file_name'' ''fileName'' (PStr []);
          status = dget_or data ''status'' (PStr ''pending'');
          message = dget_or data ''message'' (PStr []) in
      [(''docId'', doc_id),
       (''message'', if \<not> truthy message \<and> truthy file_name then PStr (py_str (fb_show fb) file_name @ '' - '' @ py_str (fb_show fb) status) else message),
       (''fileName'', file_name), (''collectionId'', either_key data ''collection_id'' ''collectionId'' (PStr [])),
       (''collectionName'', either_key data ''collection_name'' ''collectionName'' (PStr [])), (''status'', status),
       (''read'', dget_or data ''read'' (PBool False)), (''jobId'', either_key data ''job_id'' ''jobId'' (PStr [])),
       (''fileId'', either_key data ''file_id'' ''fileId'' (PStr [])),
       (''functionName'', normalize_function_name (either_key data ''function_name'' ''functionName'' (PStr ''Router''))),
       (''timestamp'', PStr (serialize_timestamp (fb_show fb) (dget data ''timestamp''))), (''additionalInfo'', additional_info),
       (''hasAdditionalInfo'', PBool (truthy additional_info)), (''additionalInfoFormatted'', format_additional_info fb additional_info),
       (''driveLink'', either_key data ''drive_link'' ''driveLink'' (PStr [])), (''batchId'', either_key data ''batch_id'' ''batchId'' (PStr []))])"

definition transform_message :: "fb \<Rightarrow> pyval \<Rightarrow> pydict \<Rightarrow> pydict" where
  "transform_message fb doc_id data =
     [(''docId'', doc_id), (''message'', dget_or data ''message'' (PStr [])), (''fileName'', either_key data ''file_name'' ''fileName'' (PStr [])),
      (''collectionId'', either_key data ''collection_id'' ''collectionId'' (PStr [])),
      (''collectionName'', either_key data ''collection_name'' ''collectionName'' (PStr [])), (''status'', dget_or data ''status'' (PStr [])),
      (''jobId'', either_key data ''job_id'' ''jobId'' (PStr [])), (''fileId'', either_key data ''file_id'' ''fileId'' (PStr [])),
      (''functionName'', either_key data ''function_name'' ''functionName'' (PStr ''Chat'')),
      (''timestamp'', PStr (serialize_timestamp (fb_show fb) (dget data ''timestamp''))),
      (''additionalInfo'', either_key data ''additional_info'' ''additionalInfo'' (PStr [])),
      (''chatMode'', either_key data ''chat_mode'' ''chatMode'' (PStr [])), (''threadKey'', either_key data ''thread_key'' ''threadKey'' (PStr [])),
      (''driveLink'', either_key data ''drive_link'' ''driveLink'' (PStr [])), (''batchId'', either_key data ''batch_id'' ''batchId'' (PStr []))]"

definition load_notifications :: "fb \<Rightarrow> string \<Rightarrow> pydict list" where
  "load_notifications fb uid =
     map (\<lambda>data. transform_notification fb (dget_or data ''id'' (PStr [])) data)
       (filter (\<lambda>data. data \<noteq> []) (get_notifications fb uid (Some False) 50))"

definition message_time :: "pydict \<Rightarrow> string" where
  "message_time m = (case dget_or m ''timestamp'' (PStr []) of PStr t \<Rightarrow> t | _ \<Rightarrow> [])"

definition load_messages :: "fb \<Rightarrow> string \<Rightarrow> pydict list" where
  "load_messages fb uid =
     (case fb_child fb (''clients/'' @ uid @ ''/direct_message_notif'') of
        Inr (PDict docs) \<Rightarrow>
          take 50 (rev (sort_key message_time (rev (concat (map
            (\<lambda>(doc_id, v). case v of PDict data \<Rightarrow> if data \<noteq> [] then [transform_message fb (PStr doc_id) data] else [] | _ \<Rightarrow> []) docs)))))
      | _ \<Rightarrow> [])"

subsection \<open>Cache and browser\<close>

definition json_list :: "pydict list \<Rightarrow> pyval" where
  "json_list ds = PList (map PDict ds)"

definition cache_data :: "'s redis \<Rightarrow> string \<Rightarrow> pydict list \<Rightarrow> pydict list \<Rightarrow> 's \<Rightarrow> 's" where
  "cache_data rc uid notifications messages s =
     snd (sbind (r_setex rc (get_notifications_cache_key uid) CACHE_TTL_SECONDS (json_dumps (json_list notifications))) (\<lambda>_.
            r_setex rc (get_messages_cache_key uid) CACHE_TTL_SECONDS (json_dumps (json_list messages))) s)"

text \<open>\<open>PNone\<close> where the source answers \<open>None\<close>.\<close>

definition get_cached_list :: "'s redis \<Rightarrow> string \<Rightarrow> 's \<Rightarrow> pyval \<times> 's" where
  "get_cached_list rc key = stry (sbind (r_get rc key) (\<lambda>data. if some_data data then slift (json_loads (the data)) else sret PNone)) (\<lambda>_. PNone)"

definition get_cached_notifications :: "'s redis \<Rightarrow> string \<Rightarrow> 's \<Rightarrow> pyval \<times> 's" where
  "get_cached_notifications rc uid = get_cached_list rc (get_notifications_cache_key uid)"

definition get_cached_messages :: "'s redis \<Rightarrow> string \<Rightarrow> 's \<Rightarrow> pyval \<times> 's" where
  "get_cached_messages rc uid = get_cached_list rc (get_messages_cache_key uid)"

definition full_data_event :: "string \<Rightarrow> string \<Rightarrow> pydict list \<Rightarrow> pydict" where
  "full_data_event event_type name items =
     [(''type'', PStr event_type), (''payload'', PDict [(name, json_list items), (''count'', PNum (of_nat (length items)))])]"

definition send_full_data :: "'s redis \<Rightarrow> (conn \<Rightarrow> bool) \<Rightarrow> string \<Rightarrow> pydict list \<Rightarrow> pydict list \<Rightarrow> 's rt \<Rightarrow> 's rt" where
  "send_full_data rc send_ok uid notifications messages n =
     snd (sbind (hub_broadcast rc send_ok uid (full_data_event ''notification.full_data'' ''notifications'' notifications)) (\<lambda>_.
            hub_broadcast rc send_ok uid (full_data_event ''messenger.full_data'' ''messages'' messages)) n)"

subsection \<open>Background tasks\<close>

text \<open>\<open>_subscribe_to_pubsub_channels\<close> up to the end of \<open>await task\<close>, where other coroutines run, and from there on.\<close>

definition cancel_listener :: "string \<Rightarrow> 's rt \<Rightarrow> 's rt" where
  "cancel_listener uid n = (case rt_tasks n uid of None \<Rightarrow> n | Some t \<Rightarrow> n\<lparr>rt_running := filter (\<lambda>p. fst p \<noteq> t) (rt_running n)\<rparr>)"

definition create_listener :: "string \<Rightarrow> 's rt \<Rightarrow> 's rt" where
  "create_listener uid n =
     n\<lparr>rt_running := rt_running n @ [(rt_next n, uid)], rt_tasks := (rt_tasks n)(uid \<mapsto> rt_next n), rt_next := Suc (rt_next n)\<rparr>"

definition subscribe_to_pubsub_channels :: "string \<Rightarrow> 's rt \<Rightarrow> 's rt" where
  "subscribe_to_pubsub_channels uid n = create_listener uid (cancel_listener uid n)"

definition started :: "pydict list \<Rightarrow> pydict list \<Rightarrow> pydict" where
  "started notifications messages =
     [(''success'', PBool True), (''notification_count'', PNum (of_nat (length notifications))), (''message_count'', PNum (of_nat (length messages)))]"

definition start_user_subscriptions :: "'s redis \<Rightarrow> (conn \<Rightarrow> bool) \<Rightarrow> fb \<Rightarrow> string \<Rightarrow> 's rt \<Rightarrow> pydict \<times> 's rt" where
  "start_user_subscriptions rc send_ok fb uid n =
     (let notifications = load_notifications fb uid;
          messages = load_messages fb uid;
          n1 = n\<lparr>n_srv := cache_data rc uid notifications messages (n_srv n)\<rparr>;
          n2 = send_full_data rc send_ok uid notifications messages n1;
          n3 = subscribe_to_pubsub_channels uid n2 in
      (started notifications messages, n3\<lparr>rt_active := insert uid (rt_active n3)\<rparr>))"

definition stop_user_subscriptions :: "string \<Rightarrow> 's rt \<Rightarrow> 's rt" where
  "stop_user_subscriptions uid n =
     (cancel_listener uid n)\<lparr>rt_active := rt_active n - {uid}, rt_tasks := (rt_tasks n)(uid := None)\<rparr>"

definition refresh_user_data :: "'s redis \<Rightarrow> (conn \<Rightarrow> bool) \<Rightarrow> fb \<Rightarrow> string \<Rightarrow> 's rt \<Rightarrow> pydict \<times> 's rt" where
  "refresh_user_data rc send_ok fb uid n =
     (if \<not> is_user_connected (n_hub n) uid then ([(''success'', PBool False), (''error'', PStr ''User not connected'')], n)
      else start_user_subscriptions rc send_ok fb uid n)"

subsection \<open>Events\<close>

text \<open>One round of \<open>for i, item in enumerate(items)\<close> with its \<open>break\<close>.\<close>

primrec merge_first :: "pyval \<Rightarrow> pydict \<Rightarrow> pyval list \<Rightarrow> pyval list result" where
  "merge_first doc_id data [] = Inr []"
| "merge_first doc_id data (v # vs) =
     rbind (as_dict v) (\<lambda>d. if dget d ''docId'' = doc_id then Inr (PDict (dupdate d data) # vs)
                            else rbind (merge_first doc_id data vs) (\<lambda>ws. Inr (v # ws)))"

definition drop_docs :: "pyval \<Rightarrow> pyval list \<Rightarrow> pyval list result" where
  "drop_docs doc_id vs = rbind (rmap as_dict vs) (\<lambda>ds. Inr (map PDict (filter (\<lambda>d. dget d ''docId'' \<noteq> doc_id) ds)))"

definition apply_action :: "pyval \<Rightarrow> pyval \<Rightarrow> pyval \<Rightarrow> pyval result" where
  "apply_action action data cached =
     (if action = PStr ''new'' then rbind (as_list cached) (\<lambda>vs. Inr (PList (take 50 (data # vs))))
      else if action = PStr ''update'' then rbind (as_dict data) (\<lambda>d. rbind (as_list cached) (\<lambda>vs.
        rbind (merge_first (dget d ''docId'') d vs) (\<lambda>ws. Inr (PList ws))))
      else if action = PStr ''remove'' then rbind (as_dict data) (\<lambda>d. rbind (as_list cached) (\<lambda>vs.
        rbind (drop_docs (dget d ''docId'') vs) (\<lambda>ws. Inr (PList ws))))
      else Inr cached)"

definition delta_event :: "string \<Rightarrow> pyval \<Rightarrow> pyval \<Rightarrow> pydict" where
  "delta_event event_type action data = [(''type'', PStr event_type), (''payload'', PDict [(''action'', action), (''data'', data)])]"

definition event_parts :: "pyval \<Rightarrow> (pyval \<times> pyval) result" where
  "event_parts event_data =
     rbind (as_dict event_data) (\<lambda>e. rbind (get_dict e ''payload'') (\<lambda>p. Inr (dget_or p ''action'' (PStr ''new''), dget_or p ''data'' (PDict []))))"

definition handle_event :: "string \<Rightarrow> string \<Rightarrow> 's redis \<Rightarrow> (conn \<Rightarrow> bool) \<Rightarrow> string \<Rightarrow> pyval \<Rightarrow> 's rt \<Rightarrow> 's rt" where
  "handle_event key event_type rc send_ok uid event_data n =
     snd (sbind (slift (event_parts event_data)) (\<lambda>(action, data) n1.
       case on_srv (get_cached_list rc key) n1 of
         (cached, n2) \<Rightarrow>
           sbind (slift (apply_action action data (py_or cached (PList [])))) (\<lambda>items.
           sbind (on_srv (r_setex rc key CACHE_TTL_SECONDS (json_dumps items))) (\<lambda>_.
             hub_broadcast rc send_ok uid (delta_event event_type action data))) n2) n)"

definition handle_notification_event :: "'s redis \<Rightarrow> (conn \<Rightarrow> bool) \<Rightarrow> string \<Rightarrow> pyval \<Rightarrow> 's rt \<Rightarrow> 's rt" where
  "handle_notification_event rc send_ok uid = handle_event (get_notifications_cache_key uid) ''notification.delta'' rc send_ok uid"

definition handle_messenger_event :: "'s redis \<Rightarrow> (conn \<Rightarrow> bool) \<Rightarrow> string \<Rightarrow> pyval \<Rightarrow> 's rt \<Rightarrow> 's rt" where
  "handle_messenger_event rc send_ok uid = handle_event (get_messages_cache_key uid) ''messenger.delta'' rc send_ok uid"

definition notification_channel :: "string \<Rightarrow> string" where
  "notification_channel uid = ''notification:'' @ uid"

definition messenger_channel :: "string \<Rightarrow> string" where
  "messenger_channel uid = ''messenger:'' @ uid"

definition handle_pubsub_message :: "'s redis \<Rightarrow> (conn \<Rightarrow> bool) \<Rightarrow> string \<Rightarrow> string \<Rightarrow> text_val \<Rightarrow> 's rt \<Rightarrow> 's rt" where
  "handle_pubsub_message rc send_ok uid channel data n =
     (case json_loads data of
        Inl _ \<Rightarrow> n
      | Inr event_data \<Rightarrow>
          if channel = notification_channel uid then handle_notification_event rc send_ok uid event_data n
          else if channel = messenger_channel uid then handle_messenger_event rc send_ok uid event_data n
          else n)"

text \<open>What \<open>_pubsub_listener_loop\<close> does with one item of its subscription; the loop goes on whatever happens.\<close>

datatype pubsub_item = Subscribed string | Unsubscribed string | Published string text_val

definition listener_receive :: "'s redis \<Rightarrow> (conn \<Rightarrow> bool) \<Rightarrow> string \<Rightarrow> pubsub_item option \<Rightarrow> 's rt \<Rightarrow> 's rt" where
  "listener_receive rc send_ok uid message n =
     (case message of Some (Published channel data) \<Rightarrow> handle_pubsub_message rc send_ok uid channel data n | _ \<Rightarrow> n)"

text \<open>Redis hands a published message to every running task that has subscribed to the channel.\<close>

definition deliver :: "'s redis \<Rightarrow> (conn \<Rightarrow> bool) \<Rightarrow> string \<Rightarrow> text_val \<Rightarrow> 's rt \<Rightarrow> 's rt" where
  "deliver rc send_ok channel data n =
     foldl (\<lambda>m (t, uid). if channel \<in> {notification_channel uid, messenger_channel uid}
                         then listener_receive rc send_ok uid (Some (Published channel data)) m else m) n (rt_running n)"

subsection \<open>Periodic synchronisation\<close>

definition start_periodic_sync :: "'s rt \<Rightarrow> 's rt" where
  "start_periodic_sync n = n\<lparr>rt_sync := True\<rparr>"

definition stop_periodic_sync :: "'s rt \<Rightarrow> 's rt" where
  "stop_periodic_sync n = n\<lparr>rt_sync := False\<rparr>"

text \<open>One round of \<open>_periodic_sync_loop\<close> over the connected users, in the order \<open>uids\<close> the set yields them.\<close>

definition periodic_sync_round :: "'s redis \<Rightarrow> (conn \<Rightarrow> bool) \<Rightarrow> fb \<Rightarrow> string list \<Rightarrow> 's rt \<Rightarrow> 's rt" where
  "periodic_sync_round rc send_ok fb uids n = foldl (\<lambda>m uid. snd (refresh_user_data rc send_ok fb uid m)) n uids"

section \<open>The cached lists\<close>

text \<open>The abstract list of a user: the most recent first, at most fifty; an event adds, changes or removes by document.\<close>

datatype delta = New pydict | Update pydict | Remove pydict

fun action_name :: "delta \<Rightarrow> string" where
  "action_name (New _) = ''new''" | "action_name (Update _) = ''update''" | "action_name (Remove _) = ''remove''"

fun delta_data :: "delta \<Rightarrow> pydict" where
  "delta_data (New d) = d" | "delta_data (Update d) = d" | "delta_data (Remove d) = d"

primrec change_first :: "('a \<Rightarrow> bool) \<Rightarrow> ('a \<Rightarrow> 'a) \<Rightarrow> 'a list \<Rightarrow> 'a list" where
  "change_first p f [] = []"
| "change_first p f (x # xs) = (if p x then f x # xs else x # change_first p f xs)"

fun apply_delta :: "delta \<Rightarrow> pydict list \<Rightarrow> pydict list" where
  "apply_delta (New d) xs = take 50 (d # xs)"
| "apply_delta (Update d) xs = change_first (\<lambda>x. dget x ''docId'' = dget d ''docId'') (\<lambda>x. dupdate x d) xs"
| "apply_delta (Remove d) xs = filter (\<lambda>x. dget x ''docId'' \<noteq> dget d ''docId'') xs"

datatype source = Notifications | Messages

fun channel_of :: "source \<Rightarrow> string \<Rightarrow> string" where
  "channel_of Notifications uid = notification_channel uid" | "channel_of Messages uid = messenger_channel uid"

fun cache_key_of :: "source \<Rightarrow> string \<Rightarrow> string" where
  "cache_key_of Notifications uid = get_notifications_cache_key uid" | "cache_key_of Messages uid = get_messages_cache_key uid"

fun delta_type :: "source \<Rightarrow> string" where
  "delta_type Notifications = ''notification.delta''" | "delta_type Messages = ''messenger.delta''"

text \<open>An event that carries a change; the list cached at a key; the events of one source.\<close>

definition carries :: "pyval \<Rightarrow> delta \<Rightarrow> bool" where
  "carries e dl \<longleftrightarrow> event_parts e = Inr (PStr (action_name dl), PDict (delta_data dl))"

definition caches :: "rview \<Rightarrow> string \<Rightarrow> pydict list \<Rightarrow> bool" where
  "caches vw k xs \<longleftrightarrow> str_key vw k \<and> (str_at vw k = Some (Json (json_list xs)) \<or> str_at vw k = None \<and> xs = [])"

type_synonym event = "source \<times> delta \<times> pyval"

definition after :: "event list \<Rightarrow> source \<Rightarrow> pydict list \<Rightarrow> pydict list" where
  "after es src xs = foldl (\<lambda>ys (_, dl, _). apply_delta dl ys) xs (filter (\<lambda>ev. fst ev = src) es)"

definition delta_message :: "event \<Rightarrow> pydict" where
  "delta_message ev = (case ev of (src, dl, _) \<Rightarrow> delta_event (delta_type src) (PStr (action_name dl)) (PDict (delta_data dl)))"

definition deliver_all :: "'s redis \<Rightarrow> (conn \<Rightarrow> bool) \<Rightarrow> string \<Rightarrow> event list \<Rightarrow> 's rt \<Rightarrow> 's rt" where
  "deliver_all rc send_ok uid es n = foldl (\<lambda>m (src, _, e). deliver rc send_ok (channel_of src uid) (json_dumps e) m) n es"

lemma merge_first_spec: "merge_first k d (map PDict xs) = Inr (map PDict (change_first (\<lambda>x. dget x ''docId'' = k) (\<lambda>x. dupdate x d) xs))"
  by (induction xs) auto

lemma apply_action_spec:
  "apply_action (PStr (action_name dl)) (PDict (delta_data dl)) (json_list xs) = Inr (json_list (apply_delta dl xs))"
  by (cases dl) (simp_all add: apply_action_def json_list_def merge_first_spec drop_docs_def take_map take_Cons')

lemma length_change_first [simp]: "length (change_first p f xs) = length xs"
  by (induction xs) auto

lemma apply_delta_bound: "length xs \<le> 50 \<Longrightarrow> length (apply_delta dl xs) \<le> 50"
  by (cases dl) (auto intro: le_trans [OF length_filter_le])

lemma after_Nil [simp]: "after [] src xs = xs"
  by (simp add: after_def)

lemma after_Cons [simp]: "after ((s, dl, e) # es) src xs = after es src (if s = src then apply_delta dl xs else xs)"
  by (simp add: after_def)

lemma after_bound: "length xs \<le> 50 \<Longrightarrow> length (after es src xs) \<le> 50"
  by (induction es arbitrary: xs) (auto simp: apply_delta_bound)

lemma cache_keys_differ [simp]: "cache_key_of src uid = cache_key_of src' uid \<longleftrightarrow> src = src'"
  by (cases src; cases src') (simp_all add: get_notifications_cache_key_def get_messages_cache_key_def)

lemma list_keys_differ [simp]: "get_notifications_cache_key uid \<noteq> get_messages_cache_key uid" "get_messages_cache_key uid \<noteq> get_notifications_cache_key uid"
  by (simp_all add: get_notifications_cache_key_def get_messages_cache_key_def)

lemma channels_differ: "channel_of src uid \<in> {notification_channel uid', messenger_channel uid'} \<longleftrightarrow> uid = uid'"
  by (cases src) (auto simp: notification_channel_def messenger_channel_def)

lemma cached_or_empty: "caches vw k xs \<Longrightarrow> py_or (case str_at vw k of Some t \<Rightarrow> (case json_loads t of Inr v \<Rightarrow> v | Inl _ \<Rightarrow> PNone) | None \<Rightarrow> PNone) (PList []) = json_list xs"
  by (auto simp: caches_def py_or_def json_list_def)

lemma thread_key_delta [simp]: "thread_key_of (normalize_message (delta_event ty a d)) = None"
  unfolding thread_key_normalize by (simp add: thread_key_of_def delta_event_def)

lemma thread_key_full [simp]: "thread_key_of (normalize_message (full_data_event ty a d)) = None"
  unfolding thread_key_normalize by (simp add: thread_key_of_def full_data_event_def)

context redis_up
begin

lemma get_cached_list_up:
  assumes "str_key (view s) k"
  obtains s' where "get_cached_list rc k s = (case str_at (view s) k of Some t \<Rightarrow> (case json_loads t of Inr v \<Rightarrow> v | Inl _ \<Rightarrow> PNone) | None \<Rightarrow> PNone, s')"
    "view s' = view s"
proof -
  obtain s' where r: "r_get rc k s = (Inr (str_at (view s) k), s')" "view s' = view s" by (rule get_up [OF assms])
  show thesis
  proof (rule that [of s'])
    show "get_cached_list rc k s = (case str_at (view s) k of Some t \<Rightarrow> (case json_loads t of Inr v \<Rightarrow> v | Inl _ \<Rightarrow> PNone) | None \<Rightarrow> PNone, s')"
      using r(1) by (auto simp: get_cached_list_def seq_defs some_data_def split: option.split sum.split)
  qed (rule r(2))
qed

lemma handle_event_up:
  fixes n :: "'a rt"
  assumes "caches (view (n_srv n)) key xs" and "carries e dl"
  obtains n1 where "handle_event key ty rc send_ok uid e n = snd (hub_broadcast rc send_ok uid (delta_event ty (PStr (action_name dl)) (PDict (delta_data dl))) n1)"
    and "\<exists>s'. n1 = n\<lparr>n_srv := s'\<rparr> \<and> view s' = (view (n_srv n))(key \<mapsto> (VStr (Json (json_list (apply_delta dl xs))), Some CACHE_TTL_SECONDS))"
proof -
  have sk: "str_key (view (n_srv n)) key" using assms(1) by (simp add: caches_def)
  let ?c = "case str_at (view (n_srv n)) key of Some t \<Rightarrow> (case json_loads t of Inr v \<Rightarrow> v | Inl _ \<Rightarrow> PNone) | None \<Rightarrow> PNone"
  obtain s1 where 1: "get_cached_list rc key (n_srv n) = (?c, s1)" "view s1 = view (n_srv n)" by (rule get_cached_list_up [OF sk])
  have "0 < CACHE_TTL_SECONDS" by (simp add: CACHE_TTL_SECONDS_def)
  then obtain s2 where 2: "r_setex rc key CACHE_TTL_SECONDS (json_dumps (json_list (apply_delta dl xs))) s1 = (Inr (), s2)"
    "view s2 = (view s1)(key \<mapsto> (VStr (json_dumps (json_list (apply_delta dl xs))), Some CACHE_TTL_SECONDS))" by (rule setex_up)
  have "handle_event key ty rc send_ok uid e n =
      snd (hub_broadcast rc send_ok uid (delta_event ty (PStr (action_name dl)) (PDict (delta_data dl))) (n\<lparr>n_srv := s2\<rparr>))"
    using assms(2) 1(1) 2(1) cached_or_empty [OF assms(1)]
    by (simp add: handle_event_def carries_def seq_defs on_srv_def apply_action_spec)
  then show thesis using that [of "n\<lparr>n_srv := s2\<rparr>"] 2(2) 1(2) by (auto simp: json_dumps_def)
qed

end

text \<open>What an instance keeps of itself while it handles events.\<close>

definition same_tasks :: "'s rt \<Rightarrow> 's rt \<Rightarrow> bool" where
  "same_tasks n n' \<longleftrightarrow> rt_running n' = rt_running n \<and> rt_tasks n' = rt_tasks n \<and> rt_next n' = rt_next n \<and> rt_active n' = rt_active n"

lemma same_tasks_refl [simp]: "same_tasks n n"
  by (simp add: same_tasks_def)

lemma same_tasks_trans: "same_tasks n n' \<Longrightarrow> same_tasks n' n'' \<Longrightarrow> same_tasks n n''"
  by (simp add: same_tasks_def)

lemma same_tasks_srv [simp]: "same_tasks n (n\<lparr>n_srv := s\<rparr>)"
  by (simp add: same_tasks_def)

lemma hub_broadcast_tasks: "same_tasks n (snd (hub_broadcast rc send_ok uid m n))"
  by (simp add: hub_broadcast_def same_tasks_def split: prod.split)

lemma sbind_tasks:
  assumes "same_tasks n (snd (m n))" and "\<And>x n'. m n = (Inr x, n') \<Longrightarrow> same_tasks n' (snd (f x n'))"
  shows "same_tasks n (snd (sbind m f n))"
proof (cases "m n")
  case (Pair r n')
  then show ?thesis using assms same_tasks_trans by (cases r) (fastforce simp: sbind_def)+
qed

lemma on_srv_tasks: "same_tasks n (snd (on_srv f n))"
  by (simp add: on_srv_def same_tasks_def split: prod.split)

lemma handle_event_tasks: "same_tasks n (handle_event key ty rc send_ok uid e n)"
  unfolding handle_event_def
proof (rule sbind_tasks)
  fix ad n' assume "slift (event_parts e) n = (Inr ad, n')"
  obtain a d where [simp]: "ad = (a, d)" by fastforce
  obtain c n2 where o: "on_srv (get_cached_list rc key) n' = (c, n2)" by fastforce
  have "same_tasks n2 (snd (sbind (slift (apply_action a d (py_or c (PList [])))) (\<lambda>items.
      sbind (on_srv (r_setex rc key CACHE_TTL_SECONDS (json_dumps items))) (\<lambda>_. hub_broadcast rc send_ok uid (delta_event ty a d))) n2))"
    by (intro sbind_tasks on_srv_tasks hub_broadcast_tasks) (simp add: slift_def)
  moreover have "same_tasks n' n2" using on_srv_tasks [of n' "get_cached_list rc key"] o by simp
  ultimately show "same_tasks n' (snd ((case ad of (action, data) \<Rightarrow> \<lambda>n1. case on_srv (get_cached_list rc key) n1 of (cached, n2) \<Rightarrow>
      sbind (slift (apply_action action data (py_or cached (PList [])))) (\<lambda>items.
      sbind (on_srv (r_setex rc key CACHE_TTL_SECONDS (json_dumps items))) (\<lambda>_. hub_broadcast rc send_ok uid (delta_event ty action data))) n2) n'))"
    using o by (auto intro: same_tasks_trans)
qed (simp add: slift_def)

lemma handle_pubsub_tasks: "same_tasks n (handle_pubsub_message rc send_ok uid ch t n)"
  by (simp add: handle_pubsub_message_def handle_notification_event_def handle_messenger_event_def handle_event_tasks split: sum.split)

lemma foldl_filter: "foldl (\<lambda>m p. if P p then f m p else m) n ps = foldl f n (filter P ps)"
  by (induction ps arbitrary: n) auto

lemma deliver_foldl: "deliver rc send_ok ch t n =
    foldl (\<lambda>m p. handle_pubsub_message rc send_ok (snd p) ch t m) n (filter (\<lambda>p. ch \<in> {notification_channel (snd p), messenger_channel (snd p)}) (rt_running n))"
  unfolding deliver_def foldl_filter [symmetric] by (rule foldl_cong) (auto simp: listener_receive_def)

lemma deliver_to_user:
  "deliver rc send_ok (channel_of src uid) t n =
     foldl (\<lambda>m p. handle_pubsub_message rc send_ok (snd p) (channel_of src uid) t m) n (filter (\<lambda>p. snd p = uid) (rt_running n))"
  unfolding deliver_foldl channels_differ by (simp add: eq_commute)

lemma handle_pubsub_source:
  "handle_pubsub_message rc send_ok uid (channel_of src uid) (json_dumps e) n = handle_event (cache_key_of src uid) (delta_type src) rc send_ok uid e n"
  by (cases src) (simp_all add: handle_pubsub_message_def handle_notification_event_def handle_messenger_event_def notification_channel_def messenger_channel_def)

section \<open>Listeners\<close>

definition listeners :: "'s rt \<Rightarrow> string \<Rightarrow> (nat \<times> string) list" where
  "listeners n uid = filter (\<lambda>p. snd p = uid) (rt_running n)"

text \<open>Every running listener is the one the manager knows for its user.\<close>

definition rt_inv :: "'s rt \<Rightarrow> bool" where
  "rt_inv n \<longleftrightarrow> (\<forall>(t, uid) \<in> set (rt_running n). rt_tasks n uid = Some t \<and> t < rt_next n) \<and> distinct (rt_running n) \<and>
     (\<forall>uid t. rt_tasks n uid = Some t \<longrightarrow> t < rt_next n)"

text \<open>
  Runs of the manager in which no two calls for the same user overlap: subscriptions start, stop and are refreshed, messages are
  delivered, a listener ends by an error of its connection, and the hub and the server change by other components.
\<close>

inductive rt_reach :: "'s redis \<Rightarrow> (conn \<Rightarrow> bool) \<Rightarrow> 's rt \<Rightarrow> bool" for rc send_ok where
  Init: "rt_running n = [] \<Longrightarrow> rt_tasks n = (\<lambda>_. None) \<Longrightarrow> rt_reach rc send_ok n"
| Start: "rt_reach rc send_ok n \<Longrightarrow> rt_reach rc send_ok (snd (start_user_subscriptions rc send_ok fb uid n))"
| Stop: "rt_reach rc send_ok n \<Longrightarrow> rt_reach rc send_ok (stop_user_subscriptions uid n)"
| Sync: "rt_reach rc send_ok n \<Longrightarrow> rt_reach rc send_ok (periodic_sync_round rc send_ok fb uids n)"
| Deliver: "rt_reach rc send_ok n \<Longrightarrow> rt_reach rc send_ok (deliver rc send_ok ch t n)"
| Ended: "rt_reach rc send_ok n \<Longrightarrow> rt_reach rc send_ok (n\<lparr>rt_running := filter (\<lambda>p. fst p \<noteq> t) (rt_running n)\<rparr>)"
| Other: "rt_reach rc send_ok n \<Longrightarrow> rt_reach rc send_ok (n\<lparr>n_hub := h, n_srv := s\<rparr>)"

lemma rt_inv_tasks: "rt_inv n \<Longrightarrow> same_tasks n n' \<Longrightarrow> rt_inv n'"
  by (simp add: rt_inv_def same_tasks_def)

lemma cancel_listener_inv: "rt_inv n \<Longrightarrow> rt_inv (cancel_listener uid n)"
  by (auto simp: rt_inv_def cancel_listener_def split: option.split)

lemma cancel_listener_gone: "rt_inv n \<Longrightarrow> (t, uid) \<notin> set (rt_running (cancel_listener uid n))"
  by (auto simp: rt_inv_def cancel_listener_def split: option.split)

lemma create_listener_inv:
  assumes "rt_inv n" and "\<And>t. (t, uid) \<notin> set (rt_running n)"
  shows "rt_inv (create_listener uid n)"
  using assms by (fastforce simp: rt_inv_def create_listener_def)

lemma subscribe_inv: "rt_inv n \<Longrightarrow> rt_inv (subscribe_to_pubsub_channels uid n)"
  unfolding subscribe_to_pubsub_channels_def by (intro create_listener_inv cancel_listener_inv cancel_listener_gone)

lemma subscribe_listener:
  assumes "rt_inv n"
  shows "listeners (subscribe_to_pubsub_channels uid n) uid = [(rt_next n, uid)]"
proof -
  have "filter (\<lambda>p. snd p = uid) (rt_running (cancel_listener uid n)) = []"
    using cancel_listener_gone [OF assms, of _ uid] by (auto simp: filter_empty_conv)
  moreover have "rt_next (cancel_listener uid n) = rt_next n" by (simp add: cancel_listener_def split: option.split)
  ultimately show ?thesis by (simp add: listeners_def subscribe_to_pubsub_channels_def create_listener_def)
qed

lemma stop_inv: "rt_inv n \<Longrightarrow> rt_inv (stop_user_subscriptions uid n)"
  using cancel_listener_inv [of n uid] cancel_listener_gone [of n _ uid]
  by (fastforce simp: rt_inv_def stop_user_subscriptions_def cancel_listener_def split: option.splits if_splits)

lemma send_full_data_tasks: "same_tasks n (send_full_data rc send_ok uid ns ms n)"
  unfolding send_full_data_def by (intro sbind_tasks hub_broadcast_tasks)

lemma start_tasks:
  obtains m where "same_tasks n m"
    "snd (start_user_subscriptions rc send_ok fb uid n) = (subscribe_to_pubsub_channels uid m)\<lparr>rt_active := insert uid (rt_active (subscribe_to_pubsub_channels uid m))\<rparr>"
    "m = send_full_data rc send_ok uid (load_notifications fb uid) (load_messages fb uid)
       (n\<lparr>n_srv := cache_data rc uid (load_notifications fb uid) (load_messages fb uid) (n_srv n)\<rparr>)"
proof (rule that)
  let ?m = "send_full_data rc send_ok uid (load_notifications fb uid) (load_messages fb uid)
       (n\<lparr>n_srv := cache_data rc uid (load_notifications fb uid) (load_messages fb uid) (n_srv n)\<rparr>)"
  show "same_tasks n ?m" by (rule same_tasks_trans [OF same_tasks_srv send_full_data_tasks])
  show "snd (start_user_subscriptions rc send_ok fb uid n) = (subscribe_to_pubsub_channels uid ?m)\<lparr>rt_active := insert uid (rt_active (subscribe_to_pubsub_channels uid ?m))\<rparr>"
    by (simp add: start_user_subscriptions_def Let_def)
qed simp_all

lemma rt_inv_active [simp]: "rt_inv (n\<lparr>rt_active := A\<rparr>) = rt_inv n"
  by (simp add: rt_inv_def)

lemma listeners_active [simp]: "listeners (n\<lparr>rt_active := A\<rparr>) uid = listeners n uid"
  by (simp add: listeners_def)

lemma start_inv: "rt_inv n \<Longrightarrow> rt_inv (snd (start_user_subscriptions rc send_ok fb uid n))"
proof -
  assume n: "rt_inv n"
  obtain m where "same_tasks n m" "snd (start_user_subscriptions rc send_ok fb uid n) =
      (subscribe_to_pubsub_channels uid m)\<lparr>rt_active := insert uid (rt_active (subscribe_to_pubsub_channels uid m))\<rparr>" by (rule start_tasks)
  then show ?thesis using subscribe_inv [OF rt_inv_tasks [OF n]] by simp
qed

lemma sync_inv: "rt_inv n \<Longrightarrow> rt_inv (periodic_sync_round rc send_ok fb uids n)"
  unfolding periodic_sync_round_def by (induction uids arbitrary: n) (auto simp: refresh_user_data_def start_inv)

lemma deliver_tasks: "same_tasks n (deliver rc send_ok ch t n)"
proof -
  have "same_tasks n (foldl (\<lambda>m p. handle_pubsub_message rc send_ok (snd p) ch t m) n ps)" for ps
  proof (induction ps arbitrary: n)
    case (Cons p ps)
    show ?case using same_tasks_trans [OF handle_pubsub_tasks Cons] by simp
  qed simp
  then show ?thesis unfolding deliver_foldl .
qed

lemma reach_inv: "rt_reach rc send_ok n \<Longrightarrow> rt_inv n"
proof (induction rule: rt_reach.induct)
  case (Init n)
  then show ?case by (simp add: rt_inv_def)
next
  case (Ended n t)
  then show ?case by (auto simp: rt_inv_def)
next
  case (Deliver n ch t)
  show ?case by (rule rt_inv_tasks [OF Deliver.IH deliver_tasks])
next
  case (Other n h s)
  then show ?case by (simp add: rt_inv_def)
qed (simp_all add: start_inv stop_inv sync_inv)

text \<open>C24: As long as no two calls for the same user overlap, a user has at most one running listener, and it is the one the manager can stop: after
  \<open>stop_user_subscriptions\<close> no listener of the user runs.\<close>

theorem one_listener_per_user:
  assumes "rt_reach rc send_ok n"
  shows "length (listeners n uid) \<le> 1 \<and> (\<forall>t. (t, uid) \<in> set (listeners n uid) \<longrightarrow> rt_tasks n uid = Some t) \<and>
    listeners (stop_user_subscriptions uid n) uid = []"
proof -
  note inv = reach_inv [OF assms]
  have sub: "set (listeners n uid) \<subseteq> {(the (rt_tasks n uid), uid)}" using inv by (fastforce simp: listeners_def rt_inv_def)
  have d: "distinct (listeners n uid)" using inv by (simp add: listeners_def rt_inv_def)
  have "length (listeners n uid) \<le> 1" using card_mono [OF _ sub] distinct_card [OF d] by simp
  moreover have "\<forall>t. (t, uid) \<in> set (listeners n uid) \<longrightarrow> rt_tasks n uid = Some t" using inv by (fastforce simp: listeners_def rt_inv_def)
  moreover have "listeners (stop_user_subscriptions uid n) uid = []"
    using cancel_listener_gone [OF inv, of _ uid] by (auto simp: listeners_def stop_user_subscriptions_def filter_empty_conv)
  ultimately show ?thesis by blast
qed

definition demo_fb :: fb where
  "demo_fb = \<lparr>fb_query = (\<lambda>_ _ limit. Inr (take limit [(''n1'', [(''file_name'', PStr ''a.pdf'')])])), fb_child = (\<lambda>_. Inr (PDict [(''m1'', PDict [(''message'', PStr ''hi'')])])),
     fb_loads = (\<lambda>_. None), fb_indented = (\<lambda>_. []), fb_show = (\<lambda>_. [])\<rparr>"

definition demo_rt :: "mem rt" where
  "demo_rt = \<lparr>n_srv = empty_mem, n_hub = fst (register init_hub ''u'' 1), n_sent = [], rt_active = {}, rt_tasks = (\<lambda>_. None), rt_running = [], rt_next = 0, rt_sync = False\<rparr>"

lemma demo_reach: "rt_reach mem_redis (\<lambda>_. True) demo_rt"
  by (rule rt_reach.Init) (simp_all add: demo_rt_def)

theorem one_listener_per_user_witness:
  "\<exists>n. rt_reach mem_redis (\<lambda>_. True) n \<and> listeners n ''u'' \<noteq> [] \<and> length (listeners n ''u'') \<le> 1"
proof -
  let ?n = "snd (start_user_subscriptions mem_redis (\<lambda>_. True) demo_fb ''u'' demo_rt)"
  have r: "rt_reach mem_redis (\<lambda>_. True) ?n" by (rule rt_reach.Start [OF demo_reach])
  obtain m where m: "same_tasks demo_rt m" "?n = (subscribe_to_pubsub_channels ''u'' m)\<lparr>rt_active := insert ''u'' (rt_active (subscribe_to_pubsub_channels ''u'' m))\<rparr>"
    by (rule start_tasks)
  have "listeners ?n ''u'' \<noteq> []" using m(2) subscribe_listener [OF rt_inv_tasks [OF reach_inv [OF demo_reach] m(1)]] by simp
  then show ?thesis using r one_listener_per_user [OF r] by blast
qed

section \<open>Events and the cached lists\<close>

context redis_up
begin

lemma deliver_up:
  fixes n :: "'a rt"
  assumes "caches (view (n_srv n)) (cache_key_of src uid) xs" and "carries e dl" and "listeners n uid = [(t, uid)]"
    and "n' = deliver rc send_ok (channel_of src uid) (json_dumps e) n"
  shows "view (n_srv n') = (view (n_srv n))(cache_key_of src uid \<mapsto> (VStr (Json (json_list (apply_delta dl xs))), Some CACHE_TTL_SECONDS))"
    and "(\<And>c. send_ok c) \<Longrightarrow> n_sent n' = n_sent n @ sent_to (n_hub n) uid (delta_message (src, dl, e)) \<and> n_hub n' = n_hub n"
proof -
  let ?m = "delta_event (delta_type src) (PStr (action_name dl)) (PDict (delta_data dl))"
  have n': "n' = handle_event (cache_key_of src uid) (delta_type src) rc send_ok uid e n"
    using assms(3,4) by (simp add: deliver_to_user listeners_def handle_pubsub_source)
  obtain n1 where n1: "n' = snd (hub_broadcast rc send_ok uid ?m n1)"
      "\<exists>s'. n1 = n\<lparr>n_srv := s'\<rparr> \<and> view s' = (view (n_srv n))(cache_key_of src uid \<mapsto> (VStr (Json (json_list (apply_delta dl xs))), Some CACHE_TTL_SECONDS))"
    using handle_event_up [OF assms(1,2), of "delta_type src" send_ok uid] n' by metis
  obtain n2 where b: "hub_broadcast rc send_ok uid ?m n1 = (Inr (), n2)" using hub_broadcast_result by blast
  show "view (n_srv n') = (view (n_srv n))(cache_key_of src uid \<mapsto> (VStr (Json (json_list (apply_delta dl xs))), Some CACHE_TTL_SECONDS))"
    using n1 b hub_broadcast_srv [OF thread_key_delta b] by auto
  show "n_sent n' = n_sent n @ sent_to (n_hub n) uid (delta_message (src, dl, e)) \<and> n_hub n' = n_hub n" if "\<And>c. send_ok c"
    using n1 by (auto simp: hub_broadcast_open [OF thread_key_delta that] delta_message_def)
qed

lemma caches_upd [simp]: "caches (vw(k \<mapsto> (VStr (Json (json_list xs)), e))) k xs"
  by (simp add: caches_def)

lemma caches_upd_other: "k \<noteq> k' \<Longrightarrow> caches vw k xs \<Longrightarrow> caches (vw(k' \<mapsto> (VStr t, e))) k xs"
  by (simp add: caches_def)

lemma deliver_all_up:
  fixes n :: "'a rt"
  assumes "\<And>src. caches (view (n_srv n)) (cache_key_of src uid) (held src)" and "\<forall>(src, dl, e) \<in> set es. carries e dl"
    and "listeners n uid = [(t, uid)]" and "n' = deliver_all rc send_ok uid es n"
  shows "(\<forall>src. caches (view (n_srv n')) (cache_key_of src uid) (after es src (held src))) \<and>
    (\<forall>k. (\<forall>src. k \<noteq> cache_key_of src uid) \<longrightarrow> view (n_srv n') k = view (n_srv n) k) \<and>
    ((\<forall>c. send_ok c) \<longrightarrow> n_sent n' = n_sent n @ concat (map (\<lambda>ev. sent_to (n_hub n) uid (delta_message ev)) es))"
  using assms
proof (induction es arbitrary: n held)
  case Nil
  then show ?case by (simp add: deliver_all_def)
next
  case (Cons ev es)
  obtain src dl e where ev: "ev = (src, dl, e)" by (metis prod_cases3)
  define n1 where "n1 = deliver rc send_ok (channel_of src uid) (json_dumps e) n"
  have c: "carries e dl" using Cons.prems(2) ev by auto
  note step = deliver_up [OF Cons.prems(1) c Cons.prems(3) n1_def]
  have l: "listeners n1 uid = [(t, uid)]"
    using Cons.prems(3) deliver_tasks [of n rc send_ok "channel_of src uid" "json_dumps e"] by (simp add: n1_def listeners_def same_tasks_def)
  have ls: "caches (view (n_srv n1)) (cache_key_of src' uid) (if src' = src then apply_delta dl (held src') else held src')" for src'
    using Cons.prems(1) [of src'] by (auto simp: step(1) intro: caches_upd_other)
  have r: "n' = deliver_all rc send_ok uid es n1" using Cons.prems(4) by (simp add: deliver_all_def n1_def ev)
  have ca: "\<forall>(src, dl, e) \<in> set es. carries e dl" using Cons.prems(2) by simp
  note ih = Cons.IH [OF ls ca l r]
  show ?case
  proof (intro conjI allI impI)
    fix src'
    show "caches (view (n_srv n')) (cache_key_of src' uid) (after (ev # es) src' (held src'))"
      using conjunct1 [OF ih, rule_format, of src'] by (cases "src' = src") (simp_all add: ev)
  next
    fix k assume "\<forall>src. k \<noteq> cache_key_of src uid"
    then show "view (n_srv n') k = view (n_srv n) k" using ih by (simp add: step(1))
  next
    assume s: "\<forall>c. send_ok c"
    then show "n_sent n' = n_sent n @ concat (map (\<lambda>ev. sent_to (n_hub n) uid (delta_message ev)) (ev # es))"
      using ih step(2) by (simp add: ev)
  qed
qed

lemma cache_data_up:
  "view (cache_data rc uid ns ms s) = (view s)(cache_key_of Notifications uid \<mapsto> (VStr (Json (json_list ns)), Some CACHE_TTL_SECONDS),
     cache_key_of Messages uid \<mapsto> (VStr (Json (json_list ms)), Some CACHE_TTL_SECONDS))"
proof -
  have p: "0 < CACHE_TTL_SECONDS" by (simp add: CACHE_TTL_SECONDS_def)
  obtain s1 where 1: "r_setex rc (get_notifications_cache_key uid) CACHE_TTL_SECONDS (json_dumps (json_list ns)) s = (Inr (), s1)"
    "view s1 = (view s)(get_notifications_cache_key uid \<mapsto> (VStr (json_dumps (json_list ns)), Some CACHE_TTL_SECONDS))" by (rule setex_up [OF p])
  obtain s2 where 2: "r_setex rc (get_messages_cache_key uid) CACHE_TTL_SECONDS (json_dumps (json_list ms)) s1 = (Inr (), s2)"
    "view s2 = (view s1)(get_messages_cache_key uid \<mapsto> (VStr (json_dumps (json_list ms)), Some CACHE_TTL_SECONDS))" by (rule setex_up [OF p])
  show ?thesis using 1 2 by (simp add: cache_data_def sbind_def json_dumps_def)
qed

end

fun loaded :: "fb \<Rightarrow> string \<Rightarrow> source \<Rightarrow> pydict list" where
  "loaded fb uid Notifications = load_notifications fb uid" | "loaded fb uid Messages = load_messages fb uid"

text \<open>A Firestore query answers with no more documents than its limit.\<close>

definition query_limited :: "fb \<Rightarrow> bool" where
  "query_limited fb \<longleftrightarrow> (\<forall>p r l ds. fb_query fb p r l = Inr ds \<longrightarrow> length ds \<le> l)"

lemma loaded_bound:
  assumes "query_limited fb"
  shows "length (loaded fb uid src) \<le> 50"
proof (cases src)
  case Notifications
  have "length (get_notifications fb uid (Some False) 50) \<le> 50"
    using assms by (auto simp: get_notifications_def query_limited_def split: sum.split)
  then show ?thesis unfolding Notifications by (auto simp: load_notifications_def intro: le_trans [OF length_filter_le])
next
  case Messages
  then show ?thesis by (auto simp: load_messages_def split: sum.split pyval.split)
qed

lemma send_full_data_srv: "n_srv (send_full_data rc send_ok uid ns ms n) = n_srv n"
proof -
  obtain n1 where 1: "hub_broadcast rc send_ok uid (full_data_event ''notification.full_data'' ''notifications'' ns) n = (Inr (), n1)"
    using hub_broadcast_result by blast
  obtain n2 where 2: "hub_broadcast rc send_ok uid (full_data_event ''messenger.full_data'' ''messages'' ms) n1 = (Inr (), n2)"
    using hub_broadcast_result by blast
  show ?thesis using hub_broadcast_srv [OF thread_key_full 1] hub_broadcast_srv [OF thread_key_full 2] 1 2 by (simp add: send_full_data_def sbind_def)
qed

lemma send_full_data_open:
  assumes "\<And>c. send_ok c"
  shows "send_full_data rc send_ok uid ns ms n = n\<lparr>n_sent := n_sent n @ sent_to (n_hub n) uid (full_data_event ''notification.full_data'' ''notifications'' ns) @
      sent_to (n_hub n) uid (full_data_event ''messenger.full_data'' ''messages'' ms)\<rparr>"
  by (simp add: send_full_data_def sbind_def hub_broadcast_open [OF thread_key_full assms])

lemma subscribe_node [simp]: "n_srv (subscribe_to_pubsub_channels uid n) = n_srv n" "n_hub (subscribe_to_pubsub_channels uid n) = n_hub n"
  "n_sent (subscribe_to_pubsub_channels uid n) = n_sent n"
  by (simp_all add: subscribe_to_pubsub_channels_def create_listener_def cancel_listener_def split: option.split)

lemma start_up:
  assumes "redis_up rc view tick" and "rt_inv n" and "start_user_subscriptions rc send_ok fb uid n = (answer, n1)"
  shows "\<exists>t. listeners n1 uid = [(t, uid)] \<and> rt_tasks n1 uid = Some t"
    and "caches (view (n_srv n1)) (cache_key_of src uid) (loaded fb uid src)"
    and "(\<And>src. k \<noteq> cache_key_of src uid) \<Longrightarrow> view (n_srv n1) k = view (n_srv n) k"
    and "(\<And>c. send_ok c) \<Longrightarrow> n_sent n1 = n_sent n @ sent_to (n_hub n) uid (full_data_event ''notification.full_data'' ''notifications'' (load_notifications fb uid)) @
      sent_to (n_hub n) uid (full_data_event ''messenger.full_data'' ''messages'' (load_messages fb uid)) \<and> n_hub n1 = n_hub n"
proof -
  let ?m0 = "n\<lparr>n_srv := cache_data rc uid (load_notifications fb uid) (load_messages fb uid) (n_srv n)\<rparr>"
  obtain m where m: "same_tasks n m" "n1 = (subscribe_to_pubsub_channels uid m)\<lparr>rt_active := insert uid (rt_active (subscribe_to_pubsub_channels uid m))\<rparr>"
    "m = send_full_data rc send_ok uid (load_notifications fb uid) (load_messages fb uid) ?m0"
    using start_tasks [of n rc send_ok fb uid] assms(3) by (metis snd_conv)
  have "listeners n1 uid = [(rt_next m, uid)]" using m(2) subscribe_listener [OF rt_inv_tasks [OF assms(2) m(1)]] by simp
  moreover have "rt_tasks n1 uid = Some (rt_next m)"
    using m(2) by (simp add: subscribe_to_pubsub_channels_def create_listener_def cancel_listener_def split: option.split)
  ultimately show "\<exists>t. listeners n1 uid = [(t, uid)] \<and> rt_tasks n1 uid = Some t" by blast
  have v: "view (n_srv n1) = (view (n_srv n))(cache_key_of Notifications uid \<mapsto> (VStr (Json (json_list (load_notifications fb uid))), Some CACHE_TTL_SECONDS),
      cache_key_of Messages uid \<mapsto> (VStr (Json (json_list (load_messages fb uid))), Some CACHE_TTL_SECONDS))"
    using m(2,3) redis_up.cache_data_up [OF assms(1)] by (simp add: send_full_data_srv)
  show "caches (view (n_srv n1)) (cache_key_of src uid) (loaded fb uid src)"
    unfolding v by (cases src) (simp_all add: caches_def)
  show "view (n_srv n1) k = view (n_srv n) k" if "\<And>src. k \<noteq> cache_key_of src uid"
    unfolding v using that [of Notifications] that [of Messages] by simp
  show "n_sent n1 = n_sent n @ sent_to (n_hub n) uid (full_data_event ''notification.full_data'' ''notifications'' (load_notifications fb uid)) @
      sent_to (n_hub n) uid (full_data_event ''messenger.full_data'' ''messages'' (load_messages fb uid)) \<and> n_hub n1 = n_hub n" if "\<And>c. send_ok c"
    using m(2,3) by (simp add: send_full_data_open [OF that])
qed

text \<open>C22: From the start of a user's subscriptions on, the cached lists follow the published events: each is what was loaded, changed by its own events in
  order, with at most fifty entries; no other key changes; and, with every connection open, each connection of the user receives both
  full lists and then every change in order, once.\<close>

theorem subscription_follows_events:
  assumes "redis_up rc view tick" and "rt_reach rc send_ok n" and "\<forall>(src, dl, e) \<in> set es. carries e dl"
    and "query_limited fb"
    and "start_user_subscriptions rc send_ok fb uid n = (answer, n1)" and "n' = deliver_all rc send_ok uid es n1"
  shows "(\<forall>src. caches (view (n_srv n')) (cache_key_of src uid) (after es src (loaded fb uid src)) \<and> length (after es src (loaded fb uid src)) \<le> 50) \<and>
    (\<forall>k. (\<forall>src. k \<noteq> cache_key_of src uid) \<longrightarrow> view (n_srv n') k = view (n_srv n) k) \<and>
    ((\<forall>c. send_ok c) \<longrightarrow> n_sent n' = n_sent n @
       sent_to (n_hub n) uid (full_data_event ''notification.full_data'' ''notifications'' (load_notifications fb uid)) @
       sent_to (n_hub n) uid (full_data_event ''messenger.full_data'' ''messages'' (load_messages fb uid)) @
       concat (map (\<lambda>ev. sent_to (n_hub n) uid (delta_message ev)) es))"
proof -
  note st = start_up [OF assms(1) reach_inv [OF assms(2)] assms(5)]
  obtain t where l: "listeners n1 uid = [(t, uid)]" using st(1) by blast
  note run = redis_up.deliver_all_up [OF assms(1) st(2) assms(3) l assms(6)]
  have b: "length (after es src (loaded fb uid src)) \<le> 50" for src by (rule after_bound [OF loaded_bound [OF assms(4)]])
  show ?thesis
  proof (intro conjI allI impI)
    fix k assume k: "\<forall>src. k \<noteq> cache_key_of src uid"
    then show "view (n_srv n') k = view (n_srv n) k" using run st(3) [of k] by simp
  next
    assume "\<forall>c. send_ok c"
    then show "n_sent n' = n_sent n @ sent_to (n_hub n) uid (full_data_event ''notification.full_data'' ''notifications'' (load_notifications fb uid)) @
       sent_to (n_hub n) uid (full_data_event ''messenger.full_data'' ''messages'' (load_messages fb uid)) @
       concat (map (\<lambda>ev. sent_to (n_hub n) uid (delta_message ev)) es)" using run st(4) by simp
  qed (use run b in blast)+
qed

theorem subscription_follows_events_witness:
  "\<exists>answer n1 n'. start_user_subscriptions mem_redis (\<lambda>_. True) demo_fb ''u'' demo_rt = (answer, n1) \<and>
     n' = deliver_all mem_redis (\<lambda>_. True) ''u'' [(Notifications, Remove [(''docId'', PStr ''n1'')],
       PDict [(''payload'', PDict [(''action'', PStr ''remove''), (''data'', PDict [(''docId'', PStr ''n1'')])])])] n1 \<and>
     caches (mem_view (n_srv n')) (get_notifications_cache_key ''u'') [] \<and> caches (mem_view (n_srv n')) (get_messages_cache_key ''u'') (load_messages demo_fb ''u'')"
proof -
  let ?e = "PDict [(''payload'', PDict [(''action'', PStr ''remove''), (''data'', PDict [(''docId'', PStr ''n1'')])])]"
  let ?es = "[(Notifications, Remove [(''docId'', PStr ''n1'')], ?e)]"
  obtain answer n1 where r: "start_user_subscriptions mem_redis (\<lambda>_. True) demo_fb ''u'' demo_rt = (answer, n1)" by fastforce
  have c: "\<forall>(src, dl, e) \<in> set ?es. carries e dl" by (simp add: carries_def event_parts_def get_dict_def)
  have q: "query_limited demo_fb" by (auto simp: query_limited_def demo_fb_def)
  have a: "after ?es Notifications (loaded demo_fb ''u'' Notifications) = []" "after ?es Messages (loaded demo_fb ''u'' Messages) = load_messages demo_fb ''u''"
    by (simp_all add: load_notifications_def get_notifications_def demo_fb_def transform_notification_def Let_def)
  have f: "caches (mem_view (n_srv (deliver_all mem_redis (\<lambda>_. True) ''u'' ?es n1))) (cache_key_of src ''u'') (after ?es src (loaded demo_fb ''u'' src))" for src
    using subscription_follows_events [OF mem_redis_up demo_reach c q r refl] by blast
  show ?thesis using r f [of Notifications] f [of Messages] unfolding a by (intro exI [of _ answer] exI [of _ n1] exI) simp
qed

text \<open>Two calls for the same user that overlap where the first waits for the cancelled listener both create one; only the second is known to the
  manager. A new notification is then handled by both: it is cached twice and sent twice, and stopping the subscriptions leaves a listener running.\<close>

theorem overlapping_starts_leak_listener:
  assumes "redis_up rc view tick" and "rt_reach rc send_ok n" and "rt_tasks n uid = Some t" and "\<And>c. send_ok c"
    and "caches (view (n_srv n)) (get_notifications_cache_key uid) xs" and "carries e (New d)"
    and "n1 = create_listener uid (create_listener uid (cancel_listener uid (cancel_listener uid n)))"
    and "n' = deliver rc send_ok (notification_channel uid) (json_dumps e) n1"
  shows "length (listeners n1 uid) = 2 \<and> length (listeners (stop_user_subscriptions uid n1) uid) = 1 \<and>
    caches (view (n_srv n')) (get_notifications_cache_key uid) (take 50 (d # d # xs)) \<and>
    n_sent n' = n_sent n @ sent_to (n_hub n) uid (delta_message (Notifications, New d, e)) @ sent_to (n_hub n) uid (delta_message (Notifications, New d, e))"
proof -
  let ?k = "get_notifications_cache_key uid" and ?m = "delta_event ''notification.delta'' (PStr ''new'') (PDict d)"
  let ?c = "cancel_listener uid (cancel_listener uid n)"
  note inv = reach_inv [OF assms(2)]
  have g: "filter (\<lambda>p. snd p = uid) (rt_running ?c) = []"
    using cancel_listener_gone [OF cancel_listener_inv [OF inv, of uid], of _ uid] by (auto simp: filter_empty_conv)
  have nx: "rt_next ?c = rt_next n" "n_srv ?c = n_srv n" "n_hub ?c = n_hub n" "n_sent ?c = n_sent n"
    by (simp_all add: cancel_listener_def split: option.split)
  have l: "listeners n1 uid = [(rt_next n, uid), (Suc (rt_next n), uid)]" using assms(7) g nx by (simp add: listeners_def create_listener_def)
  have "rt_tasks n1 uid = Some (Suc (rt_next n))" using assms(7) nx by (simp add: create_listener_def)
  then have st: "listeners (stop_user_subscriptions uid n1) uid = [(rt_next n, uid)]"
    using arg_cong [OF l, of "filter (\<lambda>p. fst p \<noteq> Suc (rt_next n))"]
    by (simp add: listeners_def stop_user_subscriptions_def cancel_listener_def conj_commute)
  have n1: "n_srv n1 = n_srv n" "n_hub n1 = n_hub n" "n_sent n1 = n_sent n" using assms(7) nx by (simp_all add: create_listener_def)
  have run: "n' = handle_event ?k ''notification.delta'' rc send_ok uid e (handle_event ?k ''notification.delta'' rc send_ok uid e n1)"
    using assms(8) l handle_pubsub_source [of rc send_ok uid Notifications e] deliver_to_user [of rc send_ok Notifications uid "json_dumps e" n1]
    by (simp add: listeners_def)
  have once: "caches (view (n_srv (handle_event ?k ''notification.delta'' rc send_ok uid e a))) ?k (take 50 (d # ys)) \<and>
      n_sent (handle_event ?k ''notification.delta'' rc send_ok uid e a) = n_sent a @ sent_to (n_hub a) uid ?m \<and>
      n_hub (handle_event ?k ''notification.delta'' rc send_ok uid e a) = n_hub a" if y: "caches (view (n_srv a)) ?k ys" for a ys
  proof -
    obtain b where b: "handle_event ?k ''notification.delta'' rc send_ok uid e a = snd (hub_broadcast rc send_ok uid ?m b)"
      "\<exists>s'. b = a\<lparr>n_srv := s'\<rparr> \<and> view s' = (view (n_srv a))(?k \<mapsto> (VStr (Json (json_list (take 50 (d # ys)))), Some CACHE_TTL_SECONDS))"
      using redis_up.handle_event_up [OF assms(1) y assms(6), of "''notification.delta''" send_ok uid]
      unfolding action_name.simps delta_data.simps apply_delta.simps by metis
    show ?thesis using b by (auto simp: hub_broadcast_open [OF thread_key_delta assms(4)] caches_def)
  qed
  have "caches (view (n_srv n1)) ?k xs" using assms(5) n1 by simp
  from once [OF this] once [OF conjunct1 [OF once [OF this]]] show ?thesis
    using run l st n1 by (simp add: delta_message_def take_Cons' min_def)
qed

theorem overlapping_starts_leak_listener_witness:
  "\<exists>n n1. rt_reach mem_redis (\<lambda>_. True) n \<and> n1 = create_listener ''u'' (create_listener ''u'' (cancel_listener ''u'' (cancel_listener ''u'' n))) \<and>
     length (listeners n1 ''u'') = 2 \<and> length (listeners (stop_user_subscriptions ''u'' n1) ''u'') = 1"
proof -
  obtain answer n where r: "start_user_subscriptions mem_redis (\<lambda>_. True) demo_fb ''u'' demo_rt = (answer, n)" by fastforce
  have reach: "rt_reach mem_redis (\<lambda>_. True) n" using rt_reach.Start [OF demo_reach, of demo_fb "''u''"] r by simp
  note st = start_up [OF mem_redis_up reach_inv [OF demo_reach] r]
  obtain t where t: "rt_tasks n ''u'' = Some t" using st(1) by blast
  have c: "caches (mem_view (n_srv n)) (get_notifications_cache_key ''u'') (load_notifications demo_fb ''u'')" using st(2) [of Notifications] by simp
  have d: "carries (PDict [(''payload'', PDict [(''data'', PDict [])])]) (New [])" by (simp add: carries_def event_parts_def get_dict_def)
  show ?thesis using reach overlapping_starts_leak_listener [OF mem_redis_up reach t TrueI c d refl refl] by blast
qed

end
