(* ===== verification/Redis_Pair.thy ===== *)
theory Redis_Pair
  imports Redis_Out
begin

text \<open>
  A Redis server beside another service: the state is a pair, and a command of Redis acts on its first component. The laws of the
  server carry over, so that a witness can run a component that uses both.
\<close>

definition on_fst :: "('s \<Rightarrow> 'a \<times> 's) \<Rightarrow> 's \<times> 'e \<Rightarrow> 'a \<times> 's \<times> 'e" where
  "on_fst f p = (case f (fst p) of (a, s') \<Rightarrow> (a, s', snd p))"

definition on_snd :: "('e \<Rightarrow> 'a \<times> 'e) \<Rightarrow> 's \<times> 'e \<Rightarrow> 'a \<times> 's \<times> 'e" where
  "on_snd f p = (case f (snd p) of (a, e') \<Rightarrow> (a, fst p, e'))"

definition pair_redis :: "'s redis \<Rightarrow> ('s \<times> 'e) redis" where
  "pair_redis rc = \<lparr>r_get = (\<lambda>k. on_fst (r_get rc k)), r_setex = (\<lambda>k t v. on_fst (r_setex rc k t v)), r_set_nx_ex = (\<lambda>k v t. on_fst (r_set_nx_ex rc k v t)),
     r_delete = (\<lambda>ks. on_fst (r_delete rc ks)), r_exists = (\<lambda>k. on_fst (r_exists rc k)), r_expire = (\<lambda>k t. on_fst (r_expire rc k t)),
     r_keys = (\<lambda>p. on_fst (r_keys rc p)), r_rpush = (\<lambda>k v. on_fst (r_rpush rc k v)), r_lrange_all = (\<lambda>k. on_fst (r_lrange_all rc k)),
     r_llen = (\<lambda>k. on_fst (r_llen rc k)), r_set = (\<lambda>k v. on_fst (r_set rc k v)), r_strlen = (\<lambda>k. on_fst (r_strlen rc k)),
     r_hset = (\<lambda>k fs. on_fst (r_hset rc k fs)), r_hget = (\<lambda>k f. on_fst (r_hget rc k f)), r_lpush = (\<lambda>k v. on_fst (r_lpush rc k v)),
     r_publish = (\<lambda>ch v. on_fst (r_publish rc ch v))\<rparr>"

definition pair_tick :: "(nat \<Rightarrow> 's \<Rightarrow> 's) \<Rightarrow> nat \<Rightarrow> 's \<times> 'e \<Rightarrow> 's \<times> 'e" where
  "pair_tick tick d p = (tick d (fst p), snd p)"

lemma on_fst_iff: "on_fst f p = (a, p') \<longleftrightarrow> (\<exists>s'. f (fst p) = (a, s') \<and> p' = (s', snd p))"
  by (auto simp: on_fst_def split: prod.splits)

lemma on_fst_parts [simp]: "fst (snd (on_fst f p)) = snd (f (fst p))" "snd (snd (on_fst f p)) = snd p"
  by (auto simp: on_fst_def split: prod.splits)

lemma on_snd_parts [simp]: "fst (snd (on_snd f p)) = fst p" "snd (snd (on_snd f p)) = snd (f (snd p))"
  by (auto simp: on_snd_def split: prod.splits)

lemma on_snd_iff: "on_snd f p = (a, p') \<longleftrightarrow> (\<exists>e'. f (snd p) = (a, e') \<and> p' = (fst p, e'))"
  by (auto simp: on_snd_def split: prod.splits)

lemma pair_redis_simps [simp]:
  "r_get (pair_redis rc) k = on_fst (r_get rc k)" "r_setex (pair_redis rc) k t v = on_fst (r_setex rc k t v)"
  "r_set_nx_ex (pair_redis rc) k v t = on_fst (r_set_nx_ex rc k v t)" "r_delete (pair_redis rc) ks = on_fst (r_delete rc ks)"
  "r_exists (pair_redis rc) k = on_fst (r_exists rc k)" "r_expire (pair_redis rc) k t = on_fst (r_expire rc k t)"
  "r_keys (pair_redis rc) q = on_fst (r_keys rc q)" "r_rpush (pair_redis rc) k v = on_fst (r_rpush rc k v)"
  "r_lrange_all (pair_redis rc) k = on_fst (r_lrange_all rc k)" "r_llen (pair_redis rc) k = on_fst (r_llen rc k)"
  "r_set (pair_redis rc) k v = on_fst (r_set rc k v)" "r_strlen (pair_redis rc) k = on_fst (r_strlen rc k)"
  "r_hset (pair_redis rc) k fs = on_fst (r_hset rc k fs)" "r_hget (pair_redis rc) k f = on_fst (r_hget rc k f)"
  "r_lpush (pair_redis rc) k v = on_fst (r_lpush rc k v)" "r_publish (pair_redis rc) ch v = on_fst (r_publish rc ch v)"
  by (simp_all add: pair_redis_def)

context redis_server
begin

lemma pair_server: "redis_server (pair_redis rc) (\<lambda>p. view (fst p)) (pair_tick tick)"
  by unfold_locales
    (auto simp: on_fst_iff pair_tick_def tick_law dest: get_law get_err setex_law set_nx_law delete_law exists_law expire_law keys_law rpush_law lrange_law llen_law
      set_law strlen_law hset_law hget_law lpush_law publish_law)

end

context redis_up
begin

lemma pair_up: "redis_up (pair_redis rc) (\<lambda>p. view (fst p)) (pair_tick tick)"
  by (intro redis_up.intro pair_server redis_up_axioms.intro)
    (auto simp: on_fst_iff intro: get_ok setex_ok set_nx_ok delete_ok exists_ok expire_ok keys_ok rpush_ok lrange_ok llen_ok set_ok strlen_ok hset_ok hget_ok lpush_ok publish_ok)

end

context redis_out
begin

lemma pair_out: "redis_out (pair_redis rc) (\<lambda>p. view (fst p)) (pair_tick tick) (\<lambda>p. out (fst p))"
  by (intro redis_out.intro pair_up redis_out_axioms.intro)
    (auto simp: on_fst_iff get_out setex_out delete_out lpush_out dest: publish_out)

end

interpretation mem_pair: redis_out "pair_redis mem_redis" "\<lambda>p. mem_view (fst p)" "pair_tick mem_tick" "\<lambda>p. m_out (fst p)"
  by (rule mem_out.pair_out)

lemma mem_pair_out: "redis_out (pair_redis mem_redis) (\<lambda>p. mem_view (fst p)) (pair_tick mem_tick) (\<lambda>p. m_out (fst p))"
  by (rule mem_pair.redis_out_axioms)

end
