(* ===== verification/Journal_Entry.thy ===== *)
theory Journal_Entry
  imports Redis_Pair Py_Access
begin

text \<open>
  \<open>JournalEntryHandler\<close> of \<open>src/app/realtime/journal_entry_handler.py\<close> and \<open>OdooAdapter\<close> of \<open>src/app/erp/adapters/odoo_adapter.py\<close>: an entry that a
  worker has prepared waits in Redis for the decision of the user; approved, it is created and validated in Odoo and the key is deleted. The
  calls to Odoo (\<open>execute_kw\<close> on \<open>account.move\<close>), the connection, the realtime database, \<open>str\<close> of a value and of an exception and \<open>float\<close> of a text are fields of
  \<open>je\<close>; the reading of the clock and the new identifier of a message are arguments. Log output is left out.
\<close>

section \<open>Definitions\<close>

record 's je =
  je_redis :: "'s redis"
  je_connect :: "string \<Rightarrow> string \<Rightarrow> 's \<Rightarrow> unit result \<times> 's"
  o_create :: "pydict \<Rightarrow> 's \<Rightarrow> pyval result \<times> 's"
  o_call :: "string \<Rightarrow> pyval \<Rightarrow> 's \<Rightarrow> unit result \<times> 's"
  o_read_name :: "pyval \<Rightarrow> 's \<Rightarrow> pyval result \<times> 's"
  je_rtdb_set :: "string list \<Rightarrow> pydict \<Rightarrow> 's \<Rightarrow> unit result \<times> 's"
  je_show :: "pyval \<Rightarrow> string"
  je_show_exn :: "exn \<Rightarrow> string"
  je_float :: "string \<Rightarrow> rat option"

subsection \<open>The adapter for Odoo\<close>

text \<open>\<open>int(v)\<close> of an identifier and \<open>float(v)\<close> of an amount; the number a text stands for is the parameter \<open>je_float\<close>.\<close>

definition id_int :: "pyval \<Rightarrow> int result" where
  "id_int v = (case v of
       PNum q \<Rightarrow> Inr (py_int q)
     | PBool b \<Rightarrow> Inr (if b then 1 else 0)
     | PStr t \<Rightarrow> (case int_of_str t of Some i \<Rightarrow> Inr i | None \<Rightarrow> Inl (ValueError ''int''))
     | _ \<Rightarrow> Inl TypeError)"

definition amount :: "'s je \<Rightarrow> pyval \<Rightarrow> rat result" where
  "amount je v = (case v of
       PNum q \<Rightarrow> Inr q
     | PBool b \<Rightarrow> Inr (if b then 1 else 0)
     | PStr t \<Rightarrow> (case je_float je t of Some q \<Rightarrow> Inr q | None \<Rightarrow> Inl (ValueError ''float''))
     | _ \<Rightarrow> Inl TypeError)"

definition move_line :: "'s je \<Rightarrow> pydict \<Rightarrow> pyval \<Rightarrow> pyval result" where
  "move_line je entry v =
     rbind (as_dict v) (\<lambda>line.
       let acc = dget line ''_erp_account_id'' in
       if \<not> truthy acc
       then Inl (ValueError (''Missing _erp_account_id for account '' @ py_str (je_show je) (dget line ''account_number'')))
       else rbind (id_int acc) (\<lambda>i. rbind (amount je (dget_or line ''debit'' (PNum 0))) (\<lambda>debit. rbind (amount je (dget_or line ''credit'' (PNum 0))) (\<lambda>credit.
         Inr (PList [PNum 0, PNum 0, PDict [(''account_id'', PNum (of_int i)),
           (''name'', py_or (dget_or line ''description'' (PStr [])) (dget_or entry ''description'' (PStr []))),
           (''debit'', PNum debit), (''credit'', PNum credit)]])))))"

definition build_account_move_payload :: "'s je \<Rightarrow> pydict \<Rightarrow> pydict result" where
  "build_account_move_payload je entry =
     rbind (rbind (py_iter (dget_or entry ''lines'' (PList []))) (rmap (move_line je entry))) (\<lambda>line_ids.
       let journal = dget entry ''_erp_journal_id'' in
       if \<not> truthy journal then Inl (ValueError ''Missing _erp_journal_id'')
       else rbind (id_int journal) (\<lambda>j.
         Inr [(''journal_id'', PNum (of_int j)), (''date'', dget entry ''entry_date''),
              (''ref'', py_or (dget entry ''document_ref'') (dget_or entry ''description'' (PStr []))),
              (''line_ids'', PList line_ids), (''move_type'', PStr ''entry'')]))"

definition failed :: "pyval \<Rightarrow> pydict" where
  "failed error = [(''success'', PBool False), (''error'', error)]"

definition discard_draft :: "'s je \<Rightarrow> pyval \<Rightarrow> 's \<Rightarrow> unit result \<times> 's" where
  "discard_draft je move_id = sbind (o_call je ''button_cancel'' move_id) (\<lambda>_. o_call je ''unlink'' move_id)"

definition get_move_name :: "'s je \<Rightarrow> pyval \<Rightarrow> 's \<Rightarrow> pyval \<times> 's" where
  "get_move_name je move_id =
     stry (sbind (o_read_name je move_id) (\<lambda>r.
            case r of
              PList (v # _) \<Rightarrow> if truthy v then slift (rbind (as_dict v) (\<lambda>d. Inr (dget_or d ''name'' (PStr (py_str (je_show je) move_id)))))
                               else sret (PStr (py_str (je_show je) move_id))
            | _ \<Rightarrow> sret (PStr (py_str (je_show je) move_id))))
       (\<lambda>_. PStr (py_str (je_show je) move_id))"

definition posted_answer :: "'s je \<Rightarrow> pyval \<Rightarrow> pyval \<Rightarrow> pydict" where
  "posted_answer je move_id entry_name =
     [(''success'', PBool True), (''erp_entry_id'', move_id), (''erp_entry_name'', py_or entry_name (PStr (py_str (je_show je) move_id))),
      (''message'', PStr (''Ecriture postee dans Odoo: '' @ py_str (je_show je) (py_or entry_name move_id)))]"

text \<open>The validation of the draft and what follows it.\<close>

definition validate_move :: "'s je \<Rightarrow> pyval \<Rightarrow> 's \<Rightarrow> pydict \<times> 's" where
  "validate_move je move_id s =
     (case o_call je ''action_post'' move_id s of
        (Inl e, s1) \<Rightarrow> (failed (PStr (je_show_exn je e)), snd (discard_draft je move_id s1))
      | (Inr _, s1) \<Rightarrow> (case get_move_name je move_id s1 of (name, s2) \<Rightarrow> (posted_answer je move_id name, s2)))"

definition post_journal_entry :: "'s je \<Rightarrow> pydict \<Rightarrow> 's \<Rightarrow> pydict \<times> 's" where
  "post_journal_entry je entry =
     stry (sbind (slift (build_account_move_payload je entry)) (\<lambda>payload. sbind (o_create je payload) (\<lambda>move_id s1.
            if \<not> truthy move_id then (Inr (failed (PStr ''account.move.create() returned empty result'')), s1)
            else case validate_move je move_id s1 of (r, s2) \<Rightarrow> (Inr r, s2))))
       (\<lambda>e. failed (PStr (''Erreur Odoo: '' @ je_show_exn je e)))"

text \<open>\<open>delete_draft_entry\<close>, whose failure the caller ignores.\<close>

definition delete_draft_entry :: "'s je \<Rightarrow> pyval \<Rightarrow> 's \<Rightarrow> bool \<times> 's" where
  "delete_draft_entry je move_id =
     stry (sbind (slift (id_int move_id)) (\<lambda>i. sbind (discard_draft je (PNum (of_int i))) (\<lambda>_. sret True))) (\<lambda>_. False)"

subsection \<open>The handler\<close>

definition error_response :: "string \<Rightarrow> pydict" where
  "error_response error = [(''type'', PStr ''chat.card_clicked''), (''payload'', PDict [(''success'', PBool False), (''error'', PStr error)])]"

definition approval_key :: "string \<Rightarrow> string" where
  "approval_key approval_id = ''je_approval:'' @ approval_id"

definition notify_user :: "'s je \<Rightarrow> string \<Rightarrow> string \<Rightarrow> pydict \<Rightarrow> string \<Rightarrow> string \<Rightarrow> string \<Rightarrow> 's \<Rightarrow> 's" where
  "notify_user je uid thread_key data company_id now msg_id s =
     snd (sbind (r_publish (je_redis je) (''ws:broadcast:'' @ uid) (json_dumps (PDict [(''event'', dget_or data ''type'' (PStr ''journal_entry.update'')),
                   (''data'', PDict data), (''timestamp'', PStr now)]))) (\<lambda>_ s1.
            if thread_key = [] then (Inr (), s1)
            else je_rtdb_set je [company_id, ''chats'', thread_key, ''messages'', ''je_notif_'' @ msg_id]
                   [(''type'', PStr ''system_log''), (''sender'', PStr ''system''), (''content'', dget_or data ''message'' (PStr [])), (''metadata'', PDict data),
                    (''timestamp'', PStr now)] s1) s)"

definition trigger_gl_sync :: "'s je \<Rightarrow> string \<Rightarrow> string \<Rightarrow> pyval \<Rightarrow> 's \<Rightarrow> 's" where
  "trigger_gl_sync je uid company_id mandate_path s =
     snd (r_publish (je_redis je) (''user:'' @ uid @ ''/task_manager'') (json_dumps (PDict [(''type'', PStr ''gl_sync_requested''), (''department'', PStr ''coa''),
       (''collection_id'', PStr company_id), (''mandate_path'', mandate_path),
       (''data'', PDict [(''force_full'', PBool False), (''overlap_months'', PNum 1), (''requested_by'', PStr ''journal_entry_handler'')])])) s)"

text \<open>The checks before the entry is posted: the answer to an incomplete payload, or the entry and the mandate.\<close>

definition check_payload :: "pyval \<Rightarrow> (pydict + pydict \<times> pyval) result" where
  "check_payload payload =
     rbind (as_dict payload) (\<lambda>p.
       let mandate_path = dget_or p ''mandate_path'' (PStr []) in
       if \<not> truthy mandate_path then Inr (Inl (error_response ''mandate_path manquant dans le payload''))
       else rbind (get_dict p ''entry'') (\<lambda>entry.
         if \<not> truthy (dget entry ''_erp_journal_id'')
         then Inr (Inl (error_response (''_erp_journal_id manquant '' @ [CHR 0xE2, CHR 0x80, CHR 0x94] @ '' le payload n'' @ [CHR 0x27] @ ''a pas ete resolu correctement'')))
         else Inr (Inr (entry, mandate_path))))"

definition error_note :: "string \<Rightarrow> string \<Rightarrow> pydict" where
  "error_note message approval_id = [(''type'', PStr ''journal_entry.error''), (''message'', PStr message), (''approval_id'', PStr approval_id)]"

definition report_failure :: "'s je \<Rightarrow> string \<Rightarrow> string \<Rightarrow> string \<Rightarrow> string \<Rightarrow> pydict \<Rightarrow> string \<Rightarrow> string \<Rightarrow> 's \<Rightarrow> pydict \<times> 's" where
  "report_failure je uid company_id thread_key approval_id result now msg_id s =
     (let error_msg = py_str (je_show je) (dget_or result ''error'' (PStr ''Erreur inconnue''));
          draft_id = dget result ''draft_erp_id'';
          s1 = (if truthy draft_id then snd (delete_draft_entry je draft_id s) else s) in
      (error_response (''Erreur posting ERP: '' @ error_msg),
       notify_user je uid thread_key (error_note (''Erreur lors du posting ERP: '' @ error_msg) approval_id) company_id now msg_id s1))"

definition report_success :: "'s je \<Rightarrow> string \<Rightarrow> string \<Rightarrow> string \<Rightarrow> string \<Rightarrow> pyval \<Rightarrow> pydict \<Rightarrow> string \<Rightarrow> string \<Rightarrow> 's \<Rightarrow> pydict \<times> 's" where
  "report_success je uid company_id thread_key approval_id mandate_path result now msg_id s =
     (let erp_entry_id = dget_or result ''erp_entry_id'' (PStr []);
          erp_entry_name = dget_or result ''erp_entry_name'' (PStr (py_str (je_show je) erp_entry_id));
          s1 = notify_user je uid thread_key [(''type'', PStr ''journal_entry.posted''),
                 (''message'', PStr (''Ecriture postee avec succes: '' @ py_str (je_show je) erp_entry_name)), (''erp_entry_id'', erp_entry_id),
                 (''erp_entry_name'', erp_entry_name), (''approval_id'', PStr approval_id)] company_id now msg_id s in
      ([(''type'', PStr ''chat.card_clicked''), (''payload'', PDict [(''success'', PBool True), (''action'', PStr ''approve''), (''erp_entry_id'', erp_entry_id),
          (''erp_entry_name'', erp_entry_name), (''message'', PStr (''Ecriture postee: '' @ py_str (je_show je) erp_entry_name))])],
       trigger_gl_sync je uid company_id mandate_path s1))"

text \<open>The body of the \<open>try\<close> statement of \<open>_handle_approval\<close>.\<close>

definition post_and_clean :: "'s je \<Rightarrow> string \<Rightarrow> string \<Rightarrow> string \<Rightarrow> string \<Rightarrow> pydict \<Rightarrow> pyval \<Rightarrow> string \<Rightarrow> string \<Rightarrow> 's \<Rightarrow> pydict result \<times> 's" where
  "post_and_clean je uid company_id thread_key approval_id entry mandate_path now msg_id =
     sbind (je_connect je uid company_id) (\<lambda>_ s1.
       case post_journal_entry je entry s1 of
         (result, s2) \<Rightarrow>
           if \<not> truthy (dget result ''success'')
           then (case report_failure je uid company_id thread_key approval_id result now msg_id s2 of (a, s3) \<Rightarrow> (Inr a, s3))
           else sbind (r_delete (je_redis je) [approval_key approval_id]) (\<lambda>_ s3.
                  case report_success je uid company_id thread_key approval_id mandate_path result now msg_id s3 of (a, s4) \<Rightarrow> (Inr a, s4)) s2)"

definition handle_approval :: "'s je \<Rightarrow> string \<Rightarrow> string \<Rightarrow> string \<Rightarrow> string \<Rightarrow> pyval \<Rightarrow> string \<Rightarrow> string \<Rightarrow> 's \<Rightarrow> pydict result \<times> 's" where
  "handle_approval je uid company_id thread_key approval_id payload now msg_id =
     sbind (slift (check_payload payload)) (\<lambda>c s.
       case c of
         Inl answer \<Rightarrow> (Inr answer, s)
       | Inr (entry, mandate_path) \<Rightarrow>
           (case post_and_clean je uid company_id thread_key approval_id entry mandate_path now msg_id s of
              (Inr a, s1) \<Rightarrow> (Inr a, s1)
            | (Inl e, s1) \<Rightarrow> (Inr (error_response (je_show_exn je e)),
                notify_user je uid thread_key (error_note (''Erreur: '' @ je_show_exn je e) approval_id) company_id now msg_id s1)))"

definition handle_rejection :: "'s je \<Rightarrow> string \<Rightarrow> string \<Rightarrow> string \<Rightarrow> string \<Rightarrow> pyval \<Rightarrow> pyval \<Rightarrow> string \<Rightarrow> string \<Rightarrow> 's \<Rightarrow> pydict result \<times> 's" where
  "handle_rejection je uid company_id thread_key approval_id payload reason now msg_id =
     sbind (r_delete (je_redis je) [approval_key approval_id]) (\<lambda>_.
     sbind (slift (rbind (as_dict payload) (\<lambda>p. get_dict p ''entry''))) (\<lambda>entry s.
       (Inr [(''type'', PStr ''chat.card_clicked''), (''payload'', PDict [(''success'', PBool True), (''action'', PStr ''reject''),
          (''message'', PStr (''Ecriture rejetee: '' @ py_str (je_show je) (py_or reason (PStr ''sans motif''))))])],
        notify_user je uid thread_key [(''type'', PStr ''journal_entry.rejected''),
          (''message'', PStr (''Ecriture rejetee: '' @ py_str (je_show je) (dget_or entry ''description'' (PStr [])))),
          (''reason'', py_or reason (PStr ''Aucun motif fourni'')), (''approval_id'', PStr approval_id)] company_id now msg_id s)))"

text \<open>A parameter of the card, directly or among its widget values.\<close>

definition card_param :: "pydict \<Rightarrow> string \<Rightarrow> pyval result" where
  "card_param params k =
     (let v = dget_or params k (PStr []) in
      if truthy v then Inr v
      else rbind (as_dict (py_or (dget_or params ''widget_values'' (PDict [])) (PDict []))) (\<lambda>w. Inr (dget_or w k (PStr []))))"

definition expired_note :: pydict where
  "expired_note = [(''type'', PStr ''journal_entry.expired''),
     (''message'', PStr (''Approbation expiree (delai de 24h depasse). Veuillez recreer l'' @ [CHR 0x27] @ ''ecriture.''))]"

definition handle_card_response :: "'s je \<Rightarrow> string \<Rightarrow> string \<Rightarrow> string \<Rightarrow> pydict \<Rightarrow> string \<Rightarrow> string \<Rightarrow> 's \<Rightarrow> pydict result \<times> 's" where
  "handle_card_response je uid company_id thread_key params now msg_id =
     sbind (slift (rbind (card_param params ''decision'') (\<lambda>d. rbind (card_param params ''rejection_reason'') (\<lambda>r. Inr (d, r))))) (\<lambda>(decision, reason).
       let approval = dget_or params ''approval_id'' (PStr []); approval_id = py_str (je_show je) approval in
       if \<not> truthy approval then sret (error_response ''approval_id manquant dans les parametres'')
       else if \<not> truthy decision then sret (error_response ''decision manquante (approve/reject)'')
       else sbind (r_get (je_redis je) (approval_key approval_id)) (\<lambda>payload_json s.
         if \<not> some_data payload_json
         then (Inr (error_response ''Approbation expiree (TTL 24h)''), notify_user je uid thread_key expired_note [] now msg_id s)
         else case json_loads (the payload_json) of
           Inl e \<Rightarrow> (Inr (error_response (''Payload invalide: '' @ je_show_exn je e)), s)
         | Inr payload \<Rightarrow>
             if decision = PStr ''reject'' then handle_rejection je uid company_id thread_key approval_id payload reason now msg_id s
             else if decision = PStr ''approve'' then handle_approval je uid company_id thread_key approval_id payload now msg_id s
             else (Inr (error_response (''Decision inconnue: '' @ py_str (je_show je) decision)), s)))"

section \<open>Odoo and the waiting approvals\<close>

datatype move_state = Draft | Posted | Cancelled

definition posted_moves :: "(pyval \<Rightarrow> (pydict \<times> move_state) option) \<Rightarrow> (pyval \<times> pydict) set" where
  "posted_moves m = {(v, p). m v = Some (p, Posted)}"

text \<open>What the browser is told.\<close>

definition answered :: "string \<Rightarrow> pydict \<Rightarrow> bool" where
  "answered action a \<longleftrightarrow> (\<exists>p. map_of a ''payload'' = Some (PDict p) \<and> dget p ''success'' = PBool True \<and> dget p ''action'' = PStr action)"

definition waiting_entry :: "pyval \<Rightarrow> pydict option" where
  "waiting_entry payload = (case payload of PDict pl \<Rightarrow> (case dget_or pl ''entry'' (PDict []) of PDict e \<Rightarrow> Some e | _ \<Rightarrow> None) | _ \<Rightarrow> None)"

text \<open>
  The moves of the accounting system with their state. A call that raises has no effect, a created move is a new draft, and the calls of
  one service leave the others alone.
\<close>

locale odoo = redis_out "je_redis je" view tick out
  for je :: "'s je" and view :: "'s \<Rightarrow> rview" and tick :: "nat \<Rightarrow> 's \<Rightarrow> 's" and out :: "'s \<Rightarrow> (string \<times> text_val) list" +
  fixes moves :: "'s \<Rightarrow> pyval \<Rightarrow> (pydict \<times> move_state) option"
  assumes create_law: "o_create je p s = (Inr v, s') \<Longrightarrow> truthy v \<Longrightarrow> moves s v = None \<and> moves s' = (moves s)(v \<mapsto> (p, Draft))"
    and create_none: "o_create je p s = (r, s') \<Longrightarrow> (\<And>v. r = Inr v \<Longrightarrow> \<not> truthy v) \<Longrightarrow> moves s' = moves s"
    and post_law: "o_call je ''action_post'' v s = (Inr u, s') \<Longrightarrow> moves s v = Some (p, Draft) \<Longrightarrow> moves s' = (moves s)(v \<mapsto> (p, Posted))"
    and cancel_law: "o_call je ''button_cancel'' v s = (Inr u, s') \<Longrightarrow> moves s' = (moves s)(v := map_option (\<lambda>m. (fst m, Cancelled)) (moves s v))"
    and unlink_law: "o_call je ''unlink'' v s = (Inr u, s') \<Longrightarrow> moves s' = (moves s)(v := None)"
    and call_err: "o_call je c v s = (Inl e, s') \<Longrightarrow> moves s' = moves s"
    and read_moves: "moves (snd (o_read_name je v s)) = moves s"
    and others_moves: "moves (snd (r_get (je_redis je) k s)) = moves s" "moves (snd (r_delete (je_redis je) ks s)) = moves s"
      "moves (snd (r_publish (je_redis je) ch t s)) = moves s" "moves (snd (je_connect je uid cid s)) = moves s" "moves (snd (je_rtdb_set je path d s)) = moves s"
    and others_view: "view (snd (o_create je p s)) = view s" "view (snd (o_call je c v s)) = view s" "view (snd (o_read_name je v s)) = view s"
      "view (snd (je_connect je uid cid s)) = view s" "view (snd (je_rtdb_set je path d s)) = view s"
begin

abbreviation posted :: "'s \<Rightarrow> (pyval \<times> pydict) set" where
  "posted s \<equiv> posted_moves (moves s)"

text \<open>Two states with the same moves and the same keys.\<close>

definition same :: "'s \<Rightarrow> 's \<Rightarrow> bool" where
  "same s s' \<longleftrightarrow> moves s' = moves s \<and> view s' = view s"

lemma same_posted: "same s s' \<Longrightarrow> posted s' = posted s"
  by (simp add: same_def posted_moves_def)

lemma same_trans: "same s s' \<Longrightarrow> same s' s'' \<Longrightarrow> same s s''"
  by (simp add: same_def)

lemma publish_same: "same s (snd (r_publish (je_redis je) ch t s))"
proof -
  obtain n s' where "r_publish (je_redis je) ch t s = (Inr n, s')" "view s' = view s" by (rule publish_msg)
  then show ?thesis using others_moves(3) [of ch t s] by (simp add: same_def)
qed

lemma notify_same: "same s (notify_user je uid tk d c now mid s)"
proof -
  obtain r s1 where p: "r_publish (je_redis je) (''ws:broadcast:'' @ uid) (json_dumps (PDict [(''event'', dget_or d ''type'' (PStr ''journal_entry.update'')),
      (''data'', PDict d), (''timestamp'', PStr now)])) s = (r, s1)" by fastforce
  have s1: "same s s1" using publish_same p by (metis snd_conv)
  have "same s1 (snd (je_rtdb_set je q e s1))" for q e using others_moves(5) others_view(5) by (simp add: same_def)
  then show ?thesis using s1 p same_trans unfolding notify_user_def sbind_def by (cases r) auto
qed

lemma gl_sync_same: "same s (trigger_gl_sync je uid c mp s)"
  unfolding trigger_gl_sync_def by (rule publish_same)

lemma read_same: "same s (snd (get_move_name je v s))"
  using read_moves [of v s] others_view(3) [of v s]
  by (auto simp: get_move_name_def stry_def sbind_def slift_def sret_def same_def split: prod.split sum.split pyval.split list.split)

text \<open>Cancelling and deleting never adds a posted move, and on a draft it removes none.\<close>

lemma call_view: "o_call je c v s = (r, s') \<Longrightarrow> view s' = view s"
  using others_view(2) [of c v s] by simp

lemma cancel_posted:
  assumes "o_call je ''button_cancel'' v s = (r, s')" and "\<forall>p. moves s v \<noteq> Some (p, Posted)"
  shows "posted s' = posted s \<and> (\<forall>p. moves s' v \<noteq> Some (p, Posted)) \<and> view s' = view s"
proof (cases r)
  case (Inl e)
  then show ?thesis using assms call_err call_view [OF assms(1)] by (simp add: posted_moves_def)
next
  case (Inr u)
  then have "moves s' = (moves s)(v := map_option (\<lambda>m. (fst m, Cancelled)) (moves s v))" using assms(1) cancel_law by simp
  then show ?thesis using assms(2) call_view [OF assms(1)] by (auto simp: posted_moves_def split: if_splits)
qed

lemma unlink_posted:
  assumes "o_call je ''unlink'' v s = (r, s')" and "\<forall>p. moves s v \<noteq> Some (p, Posted)"
  shows "posted s' = posted s \<and> view s' = view s"
proof (cases r)
  case (Inl e)
  then show ?thesis using assms call_err call_view [OF assms(1)] by (simp add: posted_moves_def)
next
  case (Inr u)
  then have "moves s' = (moves s)(v := None)" using assms(1) unlink_law by simp
  then show ?thesis using assms(2) call_view [OF assms(1)] by (auto simp: posted_moves_def split: if_splits)
qed

lemma discard_posted:
  assumes "\<forall>p. moves s v \<noteq> Some (p, Posted)"
  shows "posted (snd (discard_draft je v s)) = posted s \<and> view (snd (discard_draft je v s)) = view s"
proof -
  obtain r s1 where 1: "o_call je ''button_cancel'' v s = (r, s1)" by fastforce
  obtain r' s2 where 2: "o_call je ''unlink'' v s1 = (r', s2)" by fastforce
  note c = cancel_posted [OF 1 assms]
  have "posted s2 = posted s1 \<and> view s2 = view s1" using unlink_posted [OF 2] c by blast
  then show ?thesis using 1 2 c by (cases r) (simp_all add: discard_draft_def sbind_def)
qed

lemma validate_move_spec:
  assumes "moves s v = Some (p, Draft)" and "validate_move je v s = (r, s')"
  shows "view s' = view s \<and> (if truthy (dget r ''success'') then moves s' = (moves s)(v \<mapsto> (p, Posted)) else posted s' = posted s)"
proof -
  obtain q s1 where c: "o_call je ''action_post'' v s = (q, s1)" by fastforce
  note vw = call_view [OF c]
  show ?thesis
  proof (cases q)
    case (Inl e)
    have m: "moves s1 = moves s" using call_err c Inl by simp
    have "posted s1 = posted s" using m by (simp add: posted_moves_def)
    moreover have "\<forall>p. moves s1 v \<noteq> Some (p, Posted)" using assms(1) m by simp
    ultimately show ?thesis using assms(2) c Inl vw discard_posted [of s1 v] by (auto simp: validate_move_def failed_def)
  next
    case (Inr u)
    have "moves s1 = (moves s)(v \<mapsto> (p, Posted))" using post_law c Inr assms(1) by simp
    then show ?thesis using assms(2) c Inr vw read_same [of s1 v]
      by (auto simp: validate_move_def posted_answer_def same_def split: prod.splits)
  qed
qed

text \<open>The adapter answers success exactly when it has posted one new move, built from the entry.\<close>

lemma post_journal_entry_spec:
  assumes "post_journal_entry je entry s = (r, s')"
  shows "view s' = view s \<and>
    (if truthy (dget r ''success'')
     then \<exists>v p. build_account_move_payload je entry = Inr p \<and> moves s v = None \<and> posted s' = insert (v, p) (posted s)
     else posted s' = posted s)"
proof (cases "build_account_move_payload je entry")
  case (Inl e)
  then show ?thesis using assms by (auto simp: post_journal_entry_def stry_def sbind_def slift_def failed_def)
next
  case (Inr p)
  obtain q s1 where c: "o_create je p s = (q, s1)" by fastforce
  have vw: "view s1 = view s" using others_view(1) [of p s] c by simp
  show ?thesis
  proof (cases "\<exists>v. q = Inr v \<and> truthy v")
    case True
    then obtain v where v: "q = Inr v" "truthy v" by blast
    have m: "moves s v = None" "moves s1 = (moves s)(v \<mapsto> (p, Draft))" using create_law c v by auto
    obtain r2 s2 where va: "validate_move je v s1 = (r2, s2)" by fastforce
    have run: "r = r2" "s' = s2" using assms Inr c v va by (auto simp: post_journal_entry_def stry_def sbind_def slift_def)
    have "posted s1 = posted s" using m by (auto simp: posted_moves_def split: if_splits)
    moreover have "posted s2 = insert (v, p) (posted s)" if "moves s2 = (moves s1)(v \<mapsto> (p, Posted))"
      using that m by (auto simp: posted_moves_def split: if_splits)
    ultimately show ?thesis using validate_move_spec [OF _ va, of p] m Inr vw unfolding run by auto
  next
    case False
    then have "moves s1 = moves s" using create_none [OF c] by blast
    moreover have "r = failed (PStr ''account.move.create() returned empty result'') \<or> (\<exists>e. r = failed e)" "s' = s1"
      using assms Inr c False by (cases q; auto simp: post_journal_entry_def stry_def sbind_def slift_def)+
    ultimately show ?thesis using vw by (auto simp: failed_def posted_moves_def)
  qed
qed

end

lemma not_answered [simp]: "\<not> answered action (error_response e)"
  by (simp add: answered_def error_response_def)

lemma post_failed: "post_journal_entry je entry s = (r, s') \<Longrightarrow> \<not> truthy (dget r ''success'') \<Longrightarrow> \<exists>e. r = failed e"
  by (auto simp: post_journal_entry_def validate_move_def posted_answer_def stry_def sbind_def slift_def split: prod.splits sum.splits if_splits)

lemma check_payload_entry: "check_payload payload = Inr (Inr (entry, mp)) \<Longrightarrow> waiting_entry payload = Some entry"
  by (auto simp: check_payload_def waiting_entry_def get_dict_def Let_def as_dict_def split: pyval.splits if_splits)

lemma check_payload_error: "check_payload payload = Inr (Inl a) \<Longrightarrow> \<exists>e. a = error_response e"
  by (auto simp: check_payload_def get_dict_def Let_def rbind_def split: sum.splits if_splits)

context odoo
begin

lemma connect_same: "same s (snd (je_connect je uid cid s))"
  by (simp add: same_def others_moves(4) others_view(4))

lemma report_failure_same:
  assumes "report_failure je uid cid tk a (failed e) now mid s = (r, s')"
  shows "same s s' \<and> (\<exists>t. r = error_response t)"
proof -
  have "s' = notify_user je uid tk (error_note (''Erreur lors du posting ERP: '' @ py_str (je_show je) e) a) cid now mid s"
    and "r = error_response (''Erreur posting ERP: '' @ py_str (je_show je) e)"
    using assms by (simp_all add: report_failure_def failed_def Let_def)
  then show ?thesis using notify_same by blast
qed

lemma report_success_same: "report_success je uid cid tk a mp res now mid s = (r, s') \<Longrightarrow> same s s' \<and> answered ''approve'' r"
  using same_trans [OF notify_same gl_sync_same] by (auto simp: report_success_def answered_def Let_def)

text \<open>One approval: either one new posted move built from the waiting entry, the key gone and success told, or nothing posted and the key kept.\<close>

definition posts :: "string \<Rightarrow> pydict \<Rightarrow> 's \<Rightarrow> 's \<Rightarrow> bool" where
  "posts a entry s s' \<longleftrightarrow> (\<exists>v p. build_account_move_payload je entry = Inr p \<and> moves s v = None \<and> posted s' = insert (v, p) (posted s)) \<and>
     view s' = (view s)(approval_key a := None)"

definition keeps :: "'s \<Rightarrow> 's \<Rightarrow> bool" where
  "keeps s s' \<longleftrightarrow> posted s' = posted s \<and> view s' = view s"

lemma same_keeps: "same s s' \<Longrightarrow> keeps s s'"
  by (simp add: same_def keeps_def)

lemma keeps_trans: "keeps s s' \<Longrightarrow> keeps s' s'' \<Longrightarrow> keeps s s''"
  by (simp add: keeps_def)

lemma post_and_clean_spec:
  assumes "post_and_clean je uid cid tk a entry mp now mid s = (r, s')"
  shows "(\<exists>ans. r = Inr ans \<and> answered ''approve'' ans \<and> posts a entry s s') \<or>
    (keeps s s' \<and> (\<forall>ans. r = Inr ans \<longrightarrow> (\<exists>t. ans = error_response t)))"
proof -
  obtain q s1 where c: "je_connect je uid cid s = (q, s1)" by fastforce
  have s1: "same s s1" using connect_same c by (metis snd_conv)
  obtain res s2 where p: "post_journal_entry je entry s1 = (res, s2)" by fastforce
  note spec = post_journal_entry_spec [OF p]
  show ?thesis
  proof (cases q)
    case (Inl e)
    then show ?thesis using assms c same_keeps [OF s1] by (auto simp: post_and_clean_def sbind_def)
  next
    case (Inr u)
    show ?thesis
    proof (cases "truthy (dget res ''success'')")
      case False
      obtain e where e: "res = failed e" using post_failed [OF p False] by blast
      obtain ans s3 where f: "report_failure je uid cid tk a (failed e) now mid s2 = (ans, s3)" by fastforce
      have run: "r = Inr ans" "s' = s3" using assms c Inr p False f e by (simp_all add: post_and_clean_def sbind_def)
      have "keeps s1 s2" using spec False by (simp add: keeps_def)
      then have "keeps s s3" using same_keeps [OF s1] same_keeps [OF conjunct1 [OF report_failure_same [OF f]]] keeps_trans by blast
      then show ?thesis using run report_failure_same [OF f] by simp
    next
      case True
      obtain n s3 where d: "r_delete (je_redis je) [approval_key a] s2 = (Inr n, s3)" "view s3 = (view s2)(approval_key a := None)" by (rule delete_key)
      have m3: "moves s3 = moves s2" using others_moves(2) [of "[approval_key a]" s2] d(1) by simp
      obtain ans s4 where f: "report_success je uid cid tk a mp res now mid s3 = (ans, s4)" by fastforce
      have run: "r = Inr ans" "s' = s4" using assms c Inr p True d f by (simp_all add: post_and_clean_def sbind_def)
      have "posts a entry s s4" using spec True m3 d(2) s1 report_success_same [OF f] by (auto simp: posts_def same_def)
      then show ?thesis using run report_success_same [OF f] by simp
    qed
  qed
qed

lemma handle_approval_spec:
  assumes "handle_approval je uid cid tk a payload now mid s = (r, s')"
  shows "(\<exists>ans entry. r = Inr ans \<and> answered ''approve'' ans \<and> waiting_entry payload = Some entry \<and> posts a entry s s') \<or>
    (keeps s s' \<and> (\<forall>ans. r = Inr ans \<longrightarrow> \<not> answered ''approve'' ans))"
proof (cases "\<exists>entry mp. check_payload payload = Inr (Inr (entry, mp))")
  case True
  then obtain entry mp where c: "check_payload payload = Inr (Inr (entry, mp))" by blast
  obtain q s1 where p: "post_and_clean je uid cid tk a entry mp now mid s = (q, s1)" by fastforce
  show ?thesis
  proof (cases q)
    case (Inl e)
    have "same s1 s'" "r = Inr (error_response (je_show_exn je e))"
      using assms c p Inl notify_same by (auto simp: handle_approval_def sbind_def slift_def)
    then show ?thesis using post_and_clean_spec [OF p] Inl same_keeps keeps_trans by (simp; blast)
  next
    case (Inr ans)
    then have "r = q" "s' = s1" using assms c p by (simp_all add: handle_approval_def sbind_def slift_def)
    then show ?thesis using post_and_clean_spec [OF p] check_payload_entry [OF c] by auto
  qed
next
  case False
  then have "s' = s \<and> (\<forall>ans. r = Inr ans \<longrightarrow> \<not> answered ''approve'' ans)"
    using assms check_payload_error [of payload]
    by (cases "check_payload payload") (auto simp: handle_approval_def sbind_def slift_def split: sum.splits)
  then show ?thesis by (simp add: keeps_def)
qed

lemma handle_rejection_spec:
  assumes "handle_rejection je uid cid tk a payload reason now mid s = (r, s')"
  shows "posted s' = posted s \<and> view s' = (view s)(approval_key a := None) \<and> (\<forall>ans. r = Inr ans \<longrightarrow> \<not> answered ''approve'' ans)"
proof -
  obtain n s1 where d: "r_delete (je_redis je) [approval_key a] s = (Inr n, s1)" "view s1 = (view s)(approval_key a := None)" by (rule delete_key)
  have m1: "moves s1 = moves s" using others_moves(2) [of "[approval_key a]" s] d(1) by simp
  have "same s1 s' \<and> (\<forall>ans. r = Inr ans \<longrightarrow> \<not> answered ''approve'' ans)"
    using assms d(1) notify_same
    by (cases "rbind (as_dict payload) (\<lambda>p. get_dict p ''entry'')") (auto simp: handle_rejection_def sbind_def slift_def same_def answered_def)
  then show ?thesis using d(2) m1 by (simp add: same_def)
qed

end

section \<open>Decisions on a waiting entry\<close>

definition for_approval :: "'s je \<Rightarrow> string \<Rightarrow> pydict \<Rightarrow> bool" where
  "for_approval je a params \<longleftrightarrow> py_str (je_show je) (dget_or params ''approval_id'' (PStr [])) = a"

type_synonym card_call = "string \<times> string \<times> string \<times> pydict \<times> string \<times> string"

definition call_params :: "card_call \<Rightarrow> pydict" where
  "call_params c = fst (snd (snd (snd c)))"

definition run_call :: "'s je \<Rightarrow> 's \<Rightarrow> card_call \<Rightarrow> 's" where
  "run_call je s c = (case c of (uid, cid, tk, params, now, mid) \<Rightarrow> snd (handle_card_response je uid cid tk params now mid s))"

lemma some_data_str: "some_data t \<Longrightarrow> \<exists>v. t = Some v"
  by (auto simp: some_data_def)

context odoo
begin

lemma card_response_spec:
  assumes "str_key (view s) (approval_key a)" and "for_approval je a params" and "handle_card_response je uid cid tk params now mid s = (r, s')"
  shows "(\<exists>ans payload entry. r = Inr ans \<and> answered ''approve'' ans \<and> str_at (view s) (approval_key a) = Some (Json payload) \<and>
      waiting_entry payload = Some entry \<and> posts a entry s s') \<or>
    (posted s' = posted s \<and> (view s' = view s \<or> view s' = (view s)(approval_key a := None)) \<and> (\<forall>ans. r = Inr ans \<longrightarrow> \<not> answered ''approve'' ans))"
    (is "?posted \<or> ?kept")
proof -
  let ?k = "approval_key a"
  let ?c = "rbind (card_param params ''decision'') (\<lambda>d. rbind (card_param params ''rejection_reason'') (\<lambda>r. Inr (d, r)))"
  obtain s1 where g: "r_get (je_redis je) ?k s = (Inr (str_at (view s) ?k), s1)" "view s1 = view s" by (rule get_str [OF assms(1)])
  have m1: "moves s1 = moves s" using others_moves(1) [of ?k s] g(1) by simp
  have k1: "keeps s s1" using m1 g(2) by (simp add: keeps_def)
  have a: "py_str (je_show je) (dget_or params ''approval_id'' (PStr [])) = a" using assms(2) by (simp add: for_approval_def)
  have stop: ?kept if "keeps s s'" "\<And>ans. r = Inr ans \<Longrightarrow> \<exists>e. ans = error_response e"
    using that by (auto simp: keeps_def)
  show ?thesis
  proof (cases ?c)
    case (Inl e)
    then show ?thesis using assms(3) by (auto simp: handle_card_response_def sbind_def slift_def)
  next
    case (Inr dr)
    obtain d q where dr: "dr = (d, q)" by fastforce
    show ?thesis
    proof (cases "truthy (dget_or params ''approval_id'' (PStr [])) \<and> truthy d \<and> some_data (str_at (view s) ?k)")
      case False
      have "keeps s1 (notify_user je uid tk expired_note [] now mid s1)" by (rule same_keeps [OF notify_same])
      then have "keeps s s' \<and> (\<forall>ans. r = Inr ans \<longrightarrow> (\<exists>e. ans = error_response e))"
        using assms(3) Inr dr False a g(1) k1 keeps_trans
        by (auto simp: handle_card_response_def sbind_def slift_def sret_def Let_def keeps_def split: if_splits)
      then show ?thesis using stop by blast
    next
      case True
      then obtain t where t: "str_at (view s) ?k = Some t" using some_data_str by blast
      show ?thesis
      proof (cases t)
        case (Raw x)
        then have "s' = s1 \<and> (\<exists>e. r = Inr (error_response e))"
          using assms(3) Inr dr True a g(1) t by (auto simp: handle_card_response_def sbind_def slift_def Let_def)
        then show ?thesis using stop k1 by auto
      next
        case (Json payload)
        have run: "handle_card_response je uid cid tk params now mid s =
            (if d = PStr ''reject'' then handle_rejection je uid cid tk a payload q now mid s1
             else if d = PStr ''approve'' then handle_approval je uid cid tk a payload now mid s1
             else (Inr (error_response (''Decision inconnue: '' @ py_str (je_show je) d)), s1))"
          using Inr dr True a g(1) t Json by (simp add: handle_card_response_def sbind_def slift_def Let_def)
        consider (rej) "d = PStr ''reject''" | (app) "d = PStr ''approve''" | (other) "d \<noteq> PStr ''reject''" "d \<noteq> PStr ''approve''" by blast
        then show ?thesis
        proof cases
          case rej
          then have "handle_rejection je uid cid tk a payload q now mid s1 = (r, s')" using run assms(3) by simp
          from handle_rejection_spec [OF this] show ?thesis using m1 g(2) by simp
        next
          case app
          then have "handle_approval je uid cid tk a payload now mid s1 = (r, s')" using run assms(3) by simp
          from handle_approval_spec [OF this] show ?thesis using m1 g(2) k1 t Json by (auto simp: posts_def keeps_def)
        next
          case other
          then show ?thesis using run assms(3) stop k1 by auto
        qed
      qed
    qed
  qed
qed

lemma posts_new: "posts a entry s s' \<Longrightarrow> \<exists>v p. build_account_move_payload je entry = Inr p \<and> (\<forall>q. (v, q) \<notin> posted s) \<and> posted s' = insert (v, p) (posted s)"
proof -
  assume "posts a entry s s'"
  then obtain v p where "build_account_move_payload je entry = Inr p" "moves s v = None" "posted s' = insert (v, p) (posted s)" by (auto simp: posts_def)
  moreover from this(2) have "\<forall>q. (v, q) \<notin> posted s" by (simp add: posted_moves_def)
  ultimately show ?thesis by blast
qed

lemma posts_gone: "posts a entry s s' \<Longrightarrow> view s' = (view s)(approval_key a := None)"
  by (simp add: posts_def)

lemma run_calls_spec:
  assumes "str_key (view s) (approval_key a)" and "\<forall>c \<in> set cs. for_approval je a (call_params c)"
  shows "(posted (foldl (run_call je) s cs) = posted s \<and> (view s (approval_key a) = None \<longrightarrow> view (foldl (run_call je) s cs) (approval_key a) = None)) \<or>
    (\<exists>v p payload entry. str_at (view s) (approval_key a) = Some (Json payload) \<and> waiting_entry payload = Some entry \<and>
       build_account_move_payload je entry = Inr p \<and> (\<forall>q. (v, q) \<notin> posted s) \<and> posted (foldl (run_call je) s cs) = insert (v, p) (posted s) \<and>
       view (foldl (run_call je) s cs) (approval_key a) = None)"
  using assms
proof (induction cs arbitrary: s)
  case (Cons c cs)
  let ?k = "approval_key a"
  obtain uid cid tk params now mid where c: "c = (uid, cid, tk, params, now, mid)" by (metis prod_cases3)
  obtain r s1 where h: "handle_card_response je uid cid tk params now mid s = (r, s1)" by fastforce
  have f: "for_approval je a params" using Cons.prems(2) c by (simp add: call_params_def)
  have rc: "run_call je s c = s1" using h c by (simp add: run_call_def)
  note spec = card_response_spec [OF Cons.prems(1) f h]
  have sk: "str_key (view s1) ?k" using spec Cons.prems(1) by (auto simp: posts_def str_key_def)
  note ih = Cons.IH [OF sk]
  have rest: "\<forall>c \<in> set cs. for_approval je a (call_params c)" using Cons.prems(2) by simp
  from spec show ?case
  proof
    assume "\<exists>ans payload entry. r = Inr ans \<and> answered ''approve'' ans \<and> str_at (view s) ?k = Some (Json payload) \<and>
      waiting_entry payload = Some entry \<and> posts a entry s s1"
    then obtain payload entry where p: "str_at (view s) ?k = Some (Json payload)" "waiting_entry payload = Some entry" "posts a entry s s1" by blast
    have gone: "view s1 ?k = None" using p(3) by (simp add: posts_def)
    then have "posted (foldl (run_call je) s1 cs) = posted s1" "view (foldl (run_call je) s1 cs) ?k = None"
      using ih [OF rest] by (auto simp: str_at_def)
    then show ?thesis using posts_new [OF p(3)] p(1,2) rc by auto
  next
    assume "posted s1 = posted s \<and> (view s1 = view s \<or> view s1 = (view s)(?k := None)) \<and> (\<forall>ans. r = Inr ans \<longrightarrow> \<not> answered ''approve'' ans)"
    then show ?thesis using ih [OF rest] rc by (auto simp: str_at_def)
  qed
qed simp

end

text \<open>C21: Whatever decisions reach the handler for one approval, one after the other, the entry is posted at most once: Odoo has no new posted move, or exactly one,
  built from the entry that waited, and the approval is gone.\<close>

theorem journal_entry_posted_at_most_once:
  assumes "odoo je view tick out moves" and "str_key (view s) (approval_key a)"
    and "\<forall>c \<in> set cs. for_approval je a (call_params c)" and "s' = foldl (run_call je) s cs"
  shows "posted_moves (moves s') = posted_moves (moves s) \<or>
    (\<exists>v p payload entry. str_at (view s) (approval_key a) = Some (Json payload) \<and> waiting_entry payload = Some entry \<and>
       build_account_move_payload je entry = Inr p \<and> (\<forall>q. (v, q) \<notin> posted_moves (moves s)) \<and>
       posted_moves (moves s') = insert (v, p) (posted_moves (moves s)) \<and> view s' (approval_key a) = None)"
  using odoo.run_calls_spec [OF assms(1-3)] assms(4) by blast

text \<open>The answer tells the truth: the handler reports an approval exactly when Odoo has one more posted move, and then the approval is gone; any other
  answer, and an exception, leaves the posted moves as they are.\<close>

theorem approval_answer_truthful:
  assumes "odoo je view tick out moves" and "str_key (view s) (approval_key a)" and "for_approval je a params"
    and "handle_card_response je uid cid tk params now mid s = (r, s')"
  shows "((\<exists>ans. r = Inr ans \<and> answered ''approve'' ans) \<longleftrightarrow> posted_moves (moves s') \<noteq> posted_moves (moves s)) \<and>
    (posted_moves (moves s') \<noteq> posted_moves (moves s) \<longrightarrow> view s' = (view s)(approval_key a := None) \<and>
       (\<exists>v p. (\<forall>q. (v, q) \<notin> posted_moves (moves s)) \<and> posted_moves (moves s') = insert (v, p) (posted_moves (moves s))))"
proof -
  from odoo.card_response_spec [OF assms] show ?thesis
  proof (elim disjE exE conjE)
    fix ans payload entry assume r: "r = Inr ans" "answered ''approve'' ans" and p: "odoo.posts je view moves a entry s s'"
    obtain v p where v: "\<forall>q. (v, q) \<notin> posted_moves (moves s)" "posted_moves (moves s') = insert (v, p) (posted_moves (moves s))"
      using odoo.posts_new [OF assms(1) p] by blast
    then have "posted_moves (moves s') \<noteq> posted_moves (moves s)" by blast
    then show ?thesis using r v odoo.posts_gone [OF assms(1) p] by blast
  qed blast+
qed

text \<open>C39: Two approvals of the same card that overlap, each having read the waiting entry before the other deletes it, post it twice.\<close>

theorem overlapping_approvals_post_twice:
  assumes "odoo je view tick out moves"
    and "handle_approval je uid cid tk a payload now mid s = (Inr ans, s1)" and "answered ''approve'' ans"
    and "handle_approval je uid' cid' tk' a payload now' mid' s1 = (Inr ans', s2)" and "answered ''approve'' ans'"
  shows "\<exists>v w p. v \<noteq> w \<and> (\<forall>q. (v, q) \<notin> posted_moves (moves s) \<and> (w, q) \<notin> posted_moves (moves s)) \<and>
    posted_moves (moves s2) = posted_moves (moves s) \<union> {(v, p), (w, p)}"
proof -
  obtain entry where 1: "waiting_entry payload = Some entry" "odoo.posts je view moves a entry s s1"
    using odoo.handle_approval_spec [OF assms(1,2)] assms(3) by blast
  obtain entry' where 2: "waiting_entry payload = Some entry'" "odoo.posts je view moves a entry' s1 s2"
    using odoo.handle_approval_spec [OF assms(1,4)] assms(5) by blast
  obtain v p where v: "build_account_move_payload je entry = Inr p" "\<forall>q. (v, q) \<notin> posted_moves (moves s)"
    "posted_moves (moves s1) = insert (v, p) (posted_moves (moves s))" using odoo.posts_new [OF assms(1) 1(2)] by blast
  obtain w p' where w: "build_account_move_payload je entry' = Inr p'" "\<forall>q. (w, q) \<notin> posted_moves (moves s1)"
    "posted_moves (moves s2) = insert (w, p') (posted_moves (moves s1))" using odoo.posts_new [OF assms(1) 2(2)] by blast
  have "p' = p" using v(1) w(1) 1(1) 2(1) by simp
  then show ?thesis using v w by (intro exI [of _ v] exI [of _ w] exI [of _ p]) auto
qed

section \<open>An instance\<close>

text \<open>An in-memory Odoo beside the in-memory Redis server; a new move gets the number after those that exist.\<close>

type_synonym demo_moves = "pyval \<Rightarrow> (pydict \<times> move_state) option"

definition demo_create :: "pydict \<Rightarrow> demo_moves \<Rightarrow> pyval result \<times> demo_moves" where
  "demo_create p m = (let v = PNum (of_nat (Suc (card (dom m)))) in if m v = None then (Inr v, m(v \<mapsto> (p, Draft))) else (Inl (ServiceError ''busy''), m))"

definition demo_call :: "string \<Rightarrow> pyval \<Rightarrow> demo_moves \<Rightarrow> unit result \<times> demo_moves" where
  "demo_call c v m =
     (if c = ''action_post'' then (case m v of Some (p, Draft) \<Rightarrow> (Inr (), m(v \<mapsto> (p, Posted))) | _ \<Rightarrow> (Inl (ServiceError ''state''), m))
      else if c = ''button_cancel'' then (Inr (), m(v := map_option (\<lambda>x. (fst x, Cancelled)) (m v)))
      else if c = ''unlink'' then (Inr (), m(v := None)) else (Inl (ServiceError ''method''), m))"

definition demo_je :: "(mem \<times> demo_moves) je" where
  "demo_je = \<lparr>je_redis = pair_redis mem_redis, je_connect = (\<lambda>_ _ s. (Inr (), s)), o_create = (\<lambda>p. on_snd (demo_create p)), o_call = (\<lambda>c v. on_snd (demo_call c v)),
     o_read_name = (\<lambda>_ s. (Inr (PList []), s)), je_rtdb_set = (\<lambda>_ _ s. (Inr (), s)), je_show = (\<lambda>_. []), je_show_exn = (\<lambda>_. []), je_float = (\<lambda>_. None)\<rparr>"

interpretation demo_je: odoo demo_je "\<lambda>p. mem_view (fst p)" "pair_tick mem_tick" "\<lambda>p. m_out (fst p)" snd
proof (intro odoo.intro odoo_axioms.intro)
  show "redis_out (je_redis demo_je) (\<lambda>p. mem_view (fst p)) (pair_tick mem_tick) (\<lambda>p. m_out (fst p))" using mem_pair_out by (simp add: demo_je_def)
qed (auto simp: demo_je_def on_snd_iff demo_create_def demo_call_def Let_def split: if_splits option.splits prod.splits move_state.splits)

lemma demo_je_odoo: "odoo demo_je (\<lambda>p. mem_view (fst p)) (pair_tick mem_tick) (\<lambda>p. m_out (fst p)) snd"
  by (rule demo_je.odoo_axioms)

definition demo_entry :: pydict where
  "demo_entry = [(''_erp_journal_id'', PNum 3), (''entry_date'', PStr ''2026-01-01''),
     (''lines'', PList [PDict [(''_erp_account_id'', PNum 10), (''debit'', PNum 5)], PDict [(''_erp_account_id'', PNum 11), (''credit'', PNum 5)]])]"

definition demo_payload :: pyval where
  "demo_payload = PDict [(''mandate_path'', PStr ''m''), (''entry'', PDict demo_entry)]"

definition demo_params :: pydict where
  "demo_params = [(''approval_id'', PStr ''ap1''), (''decision'', PStr ''approve'')]"

definition demo_waiting :: "mem \<times> demo_moves" where
  "demo_waiting = (snd (r_setex mem_redis (approval_key ''ap1'') 86400 (Json demo_payload) empty_mem), \<lambda>_. None)"

lemma demo_waiting_key: "str_key (mem_view (fst demo_waiting)) (approval_key ''ap1'')" "str_at (mem_view (fst demo_waiting)) (approval_key ''ap1'') = Some (Json demo_payload)"
proof -
  have "0 < (86400 :: nat)" by simp
  then obtain s where s: "r_setex mem_redis (approval_key ''ap1'') 86400 (Json demo_payload) empty_mem = (Inr (), s)"
    "mem_view s = (mem_view empty_mem)(approval_key ''ap1'' \<mapsto> (VStr (Json demo_payload), Some 86400))"
    by (rule redis_up.setex_up [OF mem_redis_up])
  then show "str_key (mem_view (fst demo_waiting)) (approval_key ''ap1'')" "str_at (mem_view (fst demo_waiting)) (approval_key ''ap1'') = Some (Json demo_payload)"
    by (simp_all add: demo_waiting_def str_key_def str_at_def)
qed

lemma demo_for_approval: "for_approval demo_je ''ap1'' demo_params"
  by (simp add: for_approval_def demo_params_def py_str_def)

lemma demo_payload_ok: "check_payload demo_payload = Inr (Inr (demo_entry, PStr ''m''))" "\<exists>p. build_account_move_payload demo_je demo_entry = Inr p"
  by (simp_all add: check_payload_def demo_payload_def demo_entry_def get_dict_def build_account_move_payload_def move_line_def id_int_def amount_def Let_def)

text \<open>With a free number the entry is posted.\<close>

lemma demo_post:
  assumes "snd s (PNum (of_nat (Suc (card (dom (snd s)))))) = None"
  shows "\<exists>r s'. post_journal_entry demo_je demo_entry s = (r, s') \<and> truthy (dget r ''success'') \<and>
    (\<exists>p. snd s' = (snd s)(PNum (of_nat (Suc (card (dom (snd s))))) \<mapsto> (p, Posted)))"
proof -
  obtain p where p: "build_account_move_payload demo_je demo_entry = Inr p" using demo_payload_ok(2) by blast
  show ?thesis using assms p
    by (simp add: post_journal_entry_def validate_move_def get_move_name_def posted_answer_def stry_def sbind_def slift_def sret_def
        demo_je_def on_snd_def demo_create_def demo_call_def Let_def del: of_nat_Suc) (rule exI, rule refl)
qed

lemma demo_approval:
  assumes "snd s (PNum (of_nat (Suc (card (dom (snd s)))))) = None"
  shows "\<exists>ans s' p. handle_approval demo_je ''u'' ''c'' ''t'' ''ap1'' demo_payload ''now'' ''id'' s = (Inr ans, s') \<and> answered ''approve'' ans \<and>
    snd s' = (snd s)(PNum (of_nat (Suc (card (dom (snd s))))) \<mapsto> (p, Posted))"
proof -
  obtain r s1 p where 1: "post_journal_entry demo_je demo_entry s = (r, s1)" "truthy (dget r ''success'')"
    "snd s1 = (snd s)(PNum (of_nat (Suc (card (dom (snd s))))) \<mapsto> (p, Posted))" using demo_post [OF assms] by blast
  obtain n s2 where 2: "r_delete (je_redis demo_je) [approval_key ''ap1''] s1 = (Inr n, s2)" by (rule demo_je.delete_key)
  have m2: "snd s2 = snd s1" using demo_je.others_moves(2) [of "[approval_key ''ap1'']" s1] 2 by simp
  obtain ans s3 where 3: "report_success demo_je ''u'' ''c'' ''t'' ''ap1'' (PStr ''m'') r ''now'' ''id'' s2 = (ans, s3)" by (meson surj_pair)
  have "je_connect demo_je ''u'' ''c'' s = (Inr (), s)" by (simp add: demo_je_def)
  then have "handle_approval demo_je ''u'' ''c'' ''t'' ''ap1'' demo_payload ''now'' ''id'' s = (Inr ans, s3)"
    using 1(1,2) 2 3 demo_payload_ok(1) by (simp add: handle_approval_def post_and_clean_def sbind_def slift_def)
  then show ?thesis using demo_je.report_success_same [OF 3] 1(3) m2 by (auto simp: demo_je.same_def)
qed

lemma demo_waiting_free: "snd demo_waiting (PNum (of_nat (Suc (card (dom (snd demo_waiting)))))) = None"
  by (simp add: demo_waiting_def)

lemma demo_approve_run:
  "\<exists>ans s'. handle_card_response demo_je ''u'' ''c'' ''t'' demo_params ''now'' ''id'' demo_waiting = (Inr ans, s') \<and> answered ''approve'' ans"
proof -
  obtain s1 where g: "r_get (je_redis demo_je) (approval_key ''ap1'') demo_waiting = (Inr (Some (Json demo_payload)), s1)" 
    using demo_je.get_str [of demo_waiting "approval_key ''ap1''"] demo_waiting_key by metis
  have "snd s1 = snd demo_waiting" using demo_je.others_moves(1) [of "approval_key ''ap1''" demo_waiting] g by simp
  then obtain ans s' where "handle_approval demo_je ''u'' ''c'' ''t'' ''ap1'' demo_payload ''now'' ''id'' s1 = (Inr ans, s')" "answered ''approve'' ans"
    using demo_approval [of s1] demo_waiting_free by metis
  then show ?thesis using g demo_for_approval
    by (simp add: handle_card_response_def card_param_def demo_params_def for_approval_def sbind_def slift_def sret_def py_or_def Let_def)
qed

theorem journal_entry_posted_at_most_once_witness:
  "\<exists>s'. s' = foldl (run_call demo_je) demo_waiting [(''u'', ''c'', ''t'', demo_params, ''now'', ''id''), (''u'', ''c'', ''t'', demo_params, ''now'', ''id'')] \<and>
     (posted_moves (snd s') = posted_moves (snd demo_waiting) \<or> (\<exists>v p. posted_moves (snd s') = insert (v, p) (posted_moves (snd demo_waiting))))"
proof -
  let ?cs = "[(''u'', ''c'', ''t'', demo_params, ''now'', ''id''), (''u'', ''c'', ''t'', demo_params, ''now'', ''id'')]"
  have c: "\<forall>c \<in> set ?cs. for_approval demo_je ''ap1'' (call_params c)" using demo_for_approval by (simp add: call_params_def)
  show ?thesis using journal_entry_posted_at_most_once [OF demo_je_odoo demo_waiting_key(1) c refl] by blast
qed

theorem approval_answer_truthful_witness:
  "\<exists>r s'. handle_card_response demo_je ''u'' ''c'' ''t'' demo_params ''now'' ''id'' demo_waiting = (r, s') \<and>
     posted_moves (snd s') \<noteq> posted_moves (snd demo_waiting) \<and> mem_view (fst s') (approval_key ''ap1'') = None"
proof -
  obtain ans s' where r: "handle_card_response demo_je ''u'' ''c'' ''t'' demo_params ''now'' ''id'' demo_waiting = (Inr ans, s')" "answered ''approve'' ans"
    using demo_approve_run by blast
  have "posted_moves (snd s') \<noteq> posted_moves (snd demo_waiting)" "mem_view (fst s') = (mem_view (fst demo_waiting))(approval_key ''ap1'' := None)"
    using approval_answer_truthful [OF demo_je_odoo demo_waiting_key(1) demo_for_approval r(1)] r(2) by blast+
  then show ?thesis using r(1) by (intro exI [of _ "Inr ans"] exI [of _ s']) simp
qed

theorem overlapping_approvals_post_twice_witness:
  "\<exists>ans s1 ans' s2 v w p. handle_approval demo_je ''u'' ''c'' ''t'' ''ap1'' demo_payload ''now'' ''id'' demo_waiting = (Inr ans, s1) \<and>
     handle_approval demo_je ''u'' ''c'' ''t'' ''ap1'' demo_payload ''now'' ''id'' s1 = (Inr ans', s2) \<and>
     v \<noteq> w \<and> posted_moves (snd s2) = posted_moves (snd demo_waiting) \<union> {(v, p), (w, p)}"
proof -
  obtain ans s1 p where 1: "handle_approval demo_je ''u'' ''c'' ''t'' ''ap1'' demo_payload ''now'' ''id'' demo_waiting = (Inr ans, s1)" "answered ''approve'' ans"
    "snd s1 = (snd demo_waiting)(PNum (of_nat (Suc (card (dom (snd demo_waiting))))) \<mapsto> (p, Posted))" using demo_approval [OF demo_waiting_free] by blast
  have "snd s1 (PNum (of_nat (Suc (card (dom (snd s1)))))) = None" unfolding 1(3) by (simp add: demo_waiting_def)
  then obtain ans' s2 where 2: "handle_approval demo_je ''u'' ''c'' ''t'' ''ap1'' demo_payload ''now'' ''id'' s1 = (Inr ans', s2)" "answered ''approve'' ans'"
    using demo_approval by blast
  obtain v w p where "v \<noteq> w" "posted_moves (snd s2) = posted_moves (snd demo_waiting) \<union> {(v, p), (w, p)}"
    using overlapping_approvals_post_twice [OF demo_je_odoo 1(1,2) 2] by blast
  then show ?thesis using 1(1) 2(1) by (intro exI [of _ ans] exI [of _ s1] exI [of _ ans'] exI [of _ s2] exI [of _ v] exI [of _ w] exI [of _ p] conjI)
qed

end
