(* ===== verification/Hub_Listener.thy ===== *)
theory Hub_Listener
  imports Ws_Hub
begin

text \<open>
  A listener that follows the hub: it joins the channels of a user when the first connection of the user opens and leaves them when the last one closes. The worker
  broadcast listener and the Redis subscriber both do so. The locale has what they promise of joining and leaving; whatever connections open, close or
  break, every connected user is joined and the channels are those of the joined users.
\<close>

section \<open>Following the hub\<close>

fun hub_callback :: "(string \<Rightarrow> 'l \<Rightarrow> 'l) \<Rightarrow> (string \<Rightarrow> 'l \<Rightarrow> 'l) \<Rightarrow> 'l \<Rightarrow> hub_event \<Rightarrow> 'l" where
  "hub_callback join leave l (First_connect uid) = join uid l"
| "hub_callback join leave l (Last_disconnect uid) = leave uid l"

definition follow_op :: "(string \<Rightarrow> 'l \<Rightarrow> 'l) \<Rightarrow> (string \<Rightarrow> 'l \<Rightarrow> 'l) \<Rightarrow> hub \<times> 'l \<Rightarrow> hub_op \<Rightarrow> hub \<times> 'l" where
  "follow_op join leave p op = (case run_op (fst p) op of (h', es) \<Rightarrow> (h', foldl (hub_callback join leave) (snd p) es))"

locale hub_listener =
  fixes chans :: "string \<Rightarrow> string list" and up :: "'l \<Rightarrow> bool" and uids :: "'l \<Rightarrow> string set" and chs :: "'l \<Rightarrow> string set"
    and join :: "string \<Rightarrow> 'l \<Rightarrow> 'l" and leave :: "string \<Rightarrow> 'l \<Rightarrow> 'l"
  assumes chans_inj: "c \<in> set (chans u) \<Longrightarrow> c \<in> set (chans v) \<Longrightarrow> u = v"
    and join_up: "up l \<Longrightarrow> up (join u l)"
    and leave_up: "up l \<Longrightarrow> up (leave u l)"
    and join_uids: "up l \<Longrightarrow> uids (join u l) = insert u (uids l)"
    and join_chs: "up l \<Longrightarrow> u \<notin> uids l \<Longrightarrow> chs (join u l) = chs l \<union> set (chans u)"
    and join_again: "u \<in> uids l \<Longrightarrow> chs (join u l) = chs l"
    and leave_uids: "up l \<Longrightarrow> uids (leave u l) = uids l - {u}"
    and leave_chs: "up l \<Longrightarrow> u \<in> uids l \<Longrightarrow> chs (leave u l) = chs l - set (chans u)"
    and leave_again: "u \<notin> uids l \<Longrightarrow> chs (leave u l) = chs l"
begin

definition covers :: "'l \<Rightarrow> bool" where
  "covers l \<longleftrightarrow> up l \<and> chs l = (\<Union>u \<in> uids l. set (chans u))"

definition sync :: "hub \<Rightarrow> 'l \<Rightarrow> bool" where
  "sync h l \<longleftrightarrow> covers l \<and> (\<forall>u. is_user_connected h u \<longrightarrow> u \<in> uids l)"

lemma sync_channel: "sync h l \<Longrightarrow> is_user_connected h u \<Longrightarrow> c \<in> set (chans u) \<Longrightarrow> c \<in> chs l"
  by (auto simp: sync_def covers_def)

lemma join_covers:
  assumes "covers l"
  shows "covers (join u l)"
proof (cases "u \<in> uids l")
  case True
  then show ?thesis using assms join_up [of l u] join_uids [of l u] join_again [of u l] by (auto simp: covers_def insert_absorb)
next
  case False
  then show ?thesis using assms join_up [of l u] join_uids [of l u] join_chs [of l u] by (auto simp: covers_def)
qed

lemma leave_covers:
  assumes "covers l"
  shows "covers (leave u l)"
proof (cases "u \<in> uids l")
  case True
  have "(\<Union>v \<in> U. set (chans v)) - set (chans u) = (\<Union>v \<in> U - {u}. set (chans v))" for U by (auto dest: chans_inj)
  then show ?thesis using assms True leave_up [of l u] leave_uids [of l u] leave_chs [of l u] by (simp add: covers_def)
next
  case False
  then show ?thesis using assms leave_up [of l u] leave_uids [of l u] leave_again [of u l] by (simp add: covers_def)
qed

lemma sync_step:
  assumes "sync h l" and "follow_op join leave (h, l) op = (h', l')"
  shows "sync h' l'"
proof (cases op)
  case (Op_register uid ws)
  obtain es where r: "register h uid ws = (h', es)" and l': "l' = foldl (hub_callback join leave) l es"
    using assms(2) Op_register by (auto simp: follow_op_def split: prod.splits)
  have c: "is_user_connected h' u \<Longrightarrow> is_user_connected h u \<or> u = uid" for u
    using register_spec(2) [OF r, of u] by (auto simp: connected_iff split: if_splits)
  show ?thesis
  proof (cases "is_user_connected h uid")
    case True
    then show ?thesis using register_spec(3) [OF r] l' c assms(1) by (auto simp: sync_def)
  next
    case False
    then have "l' = join uid l" using register_spec(3) [OF r] l' by simp
    then show ?thesis using join_covers [of l uid] join_uids [of l uid] c assms(1) unfolding sync_def covers_def by blast
  qed
next
  case (Op_unregister uid ws)
  obtain es where r: "unregister h uid ws = (h', es)" and l': "l' = foldl (hub_callback join leave) l es"
    using assms(2) Op_unregister by (auto simp: follow_op_def split: prod.splits)
  have c: "is_user_connected h' u \<Longrightarrow> is_user_connected h u" "conns_of h uid = [ws] \<Longrightarrow> \<not> is_user_connected h' uid" for u
    using unregister_spec(2) [OF r] by (auto simp: connected_iff split: if_splits)
  show ?thesis
  proof (cases "conns_of h uid = [ws]")
    case True
    then have "l' = leave uid l" using unregister_spec(3) [OF r] l' by simp
    then show ?thesis using leave_covers [of l uid] leave_uids [of l uid] assms(1) c True by (auto simp: sync_def covers_def)
  next
    case False
    then show ?thesis using unregister_spec(3) [OF r] l' c(1) assms(1) by (auto simp: sync_def)
  qed
next
  case (Op_clean uid dead)
  then have "h' = clean_dead h uid dead" "l' = l" using assms(2) by (simp_all add: follow_op_def)
  moreover have "conns_of (clean_dead h uid dead) u \<noteq> [] \<Longrightarrow> conns_of h u \<noteq> []" for u
    using clean_dead_spec(2) [of h uid dead u] by (cases "conns_of h u") (auto split: if_splits)
  ultimately show ?thesis using assms(1) by (simp add: sync_def connected_iff)
qed

lemma sync_run:
  assumes "sync h l" and "foldl (follow_op join leave) (h, l) ops = (h', l')"
  shows "sync h' l'"
  using assms
proof (induction ops arbitrary: h l)
  case (Cons op ops)
  obtain h1 l1 where s: "follow_op join leave (h, l) op = (h1, l1)" by fastforce
  show ?case using Cons.IH [OF sync_step [OF Cons.prems(1) s]] Cons.prems(2) s by simp
qed simp

text \<open>Starting joins the users who are connected.\<close>

lemma join_all: "covers l \<Longrightarrow> covers (foldl (\<lambda>l u. join u l) l us) \<and> uids (foldl (\<lambda>l u. join u l) l us) = uids l \<union> set us"
proof (induction us arbitrary: l)
  case (Cons u us)
  then show ?case using Cons.IH [OF join_covers [OF Cons.prems, of u]] join_uids [of l u] by (simp add: covers_def)
qed simp

lemma start_sync:
  assumes "covers l" and "set us = get_connected_users h"
  shows "sync h (foldl (\<lambda>l u. join u l) l us)"
proof -
  have "is_user_connected h u \<Longrightarrow> u \<in> set us" for u using assms(2) by (auto simp: is_user_connected_def get_connected_users_def split: option.splits)
  then show ?thesis using join_all [OF assms(1), of us] by (simp add: sync_def)
qed

text \<open>What joining and leaving keep, following the hub keeps.\<close>

lemma run_keeps:
  assumes "\<And>u l. f (join u l) = f l" and "\<And>u l. f (leave u l) = f l" and "foldl (follow_op join leave) (h, l) ops = (h', l')"
  shows "f l' = f l"
proof -
  have e: "f (foldl (hub_callback join leave) l es) = f l" for l es
  proof (induction es arbitrary: l)
    case (Cons e es)
    then show ?case using assms(1,2) by (cases e) simp_all
  qed simp
  show ?thesis using assms(3)
  proof (induction ops arbitrary: h l)
    case (Cons op ops)
    obtain h1 l1 where s: "follow_op join leave (h, l) op = (h1, l1)" by fastforce
    then have "f l1 = f l" using e by (auto simp: follow_op_def split: prod.splits)
    then show ?case using Cons.IH [of h1 l1] Cons.prems s by simp
  qed simp
qed

end

end
