(* ===== verification/Worker_Broadcast.thy ===== *)
theory Worker_Broadcast
  imports Hub_State Hub_Listener Comm_Dispatcher
begin

text \<open>
  \<open>WorkerBroadcastListener\<close> of \<open>src/app/realtime/worker_broadcast_listener.py\<close>: it subscribes to three channels of every connected user, driven by the callbacks of the
  hub, and hands what the workers publish there to the browser or to an external chat. The callbacks of the hub run one after the other,
  in the order of their events: each waits for the same lock. \<open>ok\<close> tells whether a call to the subscription of Redis returns. Log output, waiting times and the singleton
  are left out.
\<close>

section \<open>Definitions\<close>

definition DISPATCHABLE_TYPES :: "string list" where
  "DISPATCHABLE_TYPES = [''llm_stream_complete'', ''llm.stream_end'', ''CARD'', ''FOLLOW_CARD'', ''CMMD'', ''notification'', ''llm_stream_error'']"

definition CHANNEL_PREFIXES :: "string list" where
  "CHANNEL_PREFIXES = [''ws:broadcast'', ''ws:stream'', ''ws:notification'']"

record wb =
  wb_pubsub :: bool
  wb_running :: bool
  wb_uids :: "string set"
  wb_channels :: "string set"

definition new_listener :: wb where
  "new_listener = \<lparr>wb_pubsub = False, wb_running = False, wb_uids = {}, wb_channels = {}\<rparr>"

definition channels_for_uid :: "string \<Rightarrow> string list" where
  "channels_for_uid uid = map (\<lambda>prefix. prefix @ '':'' @ uid) CHANNEL_PREFIXES"

definition wb_subscribe_user :: "bool \<Rightarrow> string \<Rightarrow> wb \<Rightarrow> wb" where
  "wb_subscribe_user ok uid w =
     (if uid \<in> wb_uids w then w
      else if \<not> wb_pubsub w then w
      else if ok then w\<lparr>wb_channels := wb_channels w \<union> set (channels_for_uid uid), wb_uids := insert uid (wb_uids w)\<rparr>
      else w)"

definition wb_unsubscribe_user :: "bool \<Rightarrow> string \<Rightarrow> wb \<Rightarrow> wb" where
  "wb_unsubscribe_user ok uid w =
     (if uid \<notin> wb_uids w then w
      else if \<not> wb_pubsub w then w
      else if ok then w\<lparr>wb_channels := wb_channels w - set (channels_for_uid uid), wb_uids := wb_uids w - {uid}\<rparr>
      else w)"

text \<open>\<open>uids\<close> are the users connected when the listener starts, in the order the set yields them.\<close>

definition wb_start :: "bool \<Rightarrow> string list \<Rightarrow> wb \<Rightarrow> wb" where
  "wb_start ok uids w =
     (if wb_running w then w
      else (foldl (\<lambda>v uid. wb_subscribe_user ok uid v) (w\<lparr>wb_pubsub := True, wb_channels := {}\<rparr>) uids)\<lparr>wb_running := True\<rparr>)"

definition wb_stop :: "wb \<Rightarrow> wb" where
  "wb_stop w = w\<lparr>wb_running := False, wb_channels := {}, wb_uids := {}\<rparr>"

definition forward_to_websocket :: "'s comm \<Rightarrow> (conn \<Rightarrow> bool) \<Rightarrow> string \<Rightarrow> pydict \<Rightarrow> ('s, 'z) node_scheme \<Rightarrow> ('s, 'z) node_scheme" where
  "forward_to_websocket cm send_ok user_id payload n =
     (let communication_chat_type = dget_or payload ''communication_chat_type'' (PStr ''pinnokio'') in
      if communication_chat_type = PStr ''pinnokio'' then snd (hub_broadcast (cm_redis cm) send_ok user_id payload n)
      else case dget_or payload ''type'' (PStr []) of
        PStr msg_type \<Rightarrow>
          if msg_type \<in> set DISPATCHABLE_TYPES
          then (case communication_chat_type of
                  PStr channel \<Rightarrow> snd (on_srv (dispatch_outbound cm channel (dget payload ''external_thread_id'') msg_type payload) n)
                | _ \<Rightarrow> n)
          else n
      | _ \<Rightarrow> n)"

definition wb_handle_message :: "'s comm \<Rightarrow> (conn \<Rightarrow> bool) \<Rightarrow> string \<Rightarrow> text_val \<Rightarrow> ('s, 'z) node_scheme \<Rightarrow> ('s, 'z) node_scheme" where
  "wb_handle_message cm send_ok channel data n =
     (let parts = split_on CHR '':'' channel in
      if length parts < 3 then n
      else case rbind (json_loads data) as_dict of
        Inl _ \<Rightarrow> n
      | Inr payload \<Rightarrow> forward_to_websocket cm send_ok (parts ! 2) payload n)"

text \<open>One round of \<open>_listen_loop\<close> with what \<open>get_message\<close> returned.\<close>

definition wb_listen :: "'s comm \<Rightarrow> (conn \<Rightarrow> bool) \<Rightarrow> wb \<Rightarrow> (string \<times> text_val) option \<Rightarrow> ('s, 'z) node_scheme \<Rightarrow> ('s, 'z) node_scheme" where
  "wb_listen cm send_ok w message n =
     (if \<not> wb_running w then n else case message of None \<Rightarrow> n | Some (channel, data) \<Rightarrow> wb_handle_message cm send_ok channel data n)"

text \<open>The callbacks of the hub; Redis delivers a message only on a channel that is subscribed to.\<close>

abbreviation wb_op :: "hub \<times> wb \<Rightarrow> hub_op \<Rightarrow> hub \<times> wb" where
  "wb_op \<equiv> follow_op (wb_subscribe_user True) (wb_unsubscribe_user True)"

definition wb_deliver :: "'s comm \<Rightarrow> (conn \<Rightarrow> bool) \<Rightarrow> wb \<Rightarrow> string \<Rightarrow> text_val \<Rightarrow> ('s, 'z) node_scheme \<Rightarrow> ('s, 'z) node_scheme" where
  "wb_deliver cm send_ok w channel data n = (if channel \<in> wb_channels w then wb_listen cm send_ok w (Some (channel, data)) n else n)"

section \<open>Subscriptions follow the hub\<close>

lemma channels_inj: "c \<in> set (channels_for_uid u) \<Longrightarrow> c \<in> set (channels_for_uid v) \<Longrightarrow> u = v"
  by (auto simp: channels_for_uid_def CHANNEL_PREFIXES_def)

interpretation wb: hub_listener channels_for_uid wb_pubsub wb_uids wb_channels "wb_subscribe_user True" "wb_unsubscribe_user True"
  by unfold_locales (auto simp: wb_subscribe_user_def wb_unsubscribe_user_def dest: channels_inj)

lemma wb_started:
  assumes "set us = get_connected_users h"
  shows "wb.sync h (wb_start True us new_listener)" and "wb_running (wb_start True us new_listener)"
proof -
  have "wb.covers (new_listener\<lparr>wb_pubsub := True, wb_channels := {}\<rparr>)" by (simp add: wb.covers_def new_listener_def)
  from wb.start_sync [OF this assms] show "wb.sync h (wb_start True us new_listener)"
    by (simp add: wb_start_def new_listener_def wb.sync_def wb.covers_def)
qed (simp add: wb_start_def new_listener_def)

lemma wb_running_kept: "wb_running (wb_subscribe_user ok u w) = wb_running w" "wb_running (wb_unsubscribe_user ok u w) = wb_running w"
  by (simp_all add: wb_subscribe_user_def wb_unsubscribe_user_def)

lemma hub_broadcast_connected:
  assumes "is_user_connected (n_hub n) uid" and "\<And>c. send_ok c"
  shows "hub_broadcast rc send_ok uid m n = (Inr (), n\<lparr>n_sent := n_sent n @ sent_to (n_hub n) uid m\<rparr>)"
  using assms by (simp add: hub_broadcast_def broadcast_def broadcast_finish_def clean_dead_def sent_to_def connected_iff Let_def)

text \<open>C23: A worker's message for the browser, that is one whose \<open>communication_chat_type\<close> is \<open>pinnokio\<close> or absent, reaches every connection of a connected user exactly once
  while its connections accept what is sent, with or without a thread in its channel, whatever connections opened, closed or broke since the listener started. (Messages of another chat type go to
  that chat and not to the browser.)\<close>

theorem worker_message_reaches_browser:
  assumes "set us = get_connected_users h0" and "foldl wb_op (h0, wb_start True us new_listener) ops = (n_hub n, w)"
    and "is_user_connected (n_hub n) uid" and "CHR '':'' \<notin> set uid" and "prefix \<in> set CHANNEL_PREFIXES"
    and "dget_or payload ''communication_chat_type'' (PStr ''pinnokio'') = PStr ''pinnokio''" and "\<And>c. send_ok c"
  shows "wb_deliver cm send_ok w (prefix @ '':'' @ uid) (json_dumps (PDict payload)) n = n\<lparr>n_sent := n_sent n @ sent_to (n_hub n) uid payload\<rparr> \<and>
    sent_to (n_hub n) uid payload \<noteq> []"
proof -
  have sync: "wb.sync (n_hub n) w" by (rule wb.sync_run [OF wb_started(1) [OF assms(1)] assms(2)])
  have run: "wb_running w" using wb.run_keeps [of wb_running, OF wb_running_kept assms(2)] wb_started(2) [OF assms(1)] by simp
  have ch: "prefix @ '':'' @ uid \<in> set (channels_for_uid uid)" using assms(5) by (auto simp: channels_for_uid_def)
  have parts: "split_on CHR '':'' (prefix @ '':'' @ uid) = [''ws'', tl (tl (tl prefix)), uid]"
    using assms(4,5) by (auto simp: CHANNEL_PREFIXES_def split_on_no_sep)
  have "wb_handle_message cm send_ok (prefix @ '':'' @ uid) (json_dumps (PDict payload)) n = n\<lparr>n_sent := n_sent n @ sent_to (n_hub n) uid payload\<rparr>"
    using parts assms(6) by (simp add: wb_handle_message_def forward_to_websocket_def hub_broadcast_connected [OF assms(3,7)])
  moreover have "prefix @ '':'' @ uid \<in> wb_channels w" using wb.sync_channel [OF sync assms(3) ch] by simp
  ultimately show ?thesis using assms(3) run by (simp add: wb_deliver_def wb_listen_def sent_to_def connected_iff)
qed

theorem worker_message_reaches_browser_witness:
  "\<exists>(n :: mem node) w. foldl wb_op (init_hub, wb_start True [] new_listener) [Op_register ''u'' 1] = (n_hub n, w) \<and>
     (\<forall>cm. n_sent (wb_deliver cm (\<lambda>_. True) w ''ws:broadcast:u'' (json_dumps (PDict [(''type'', PStr ''x''), (''channel'', PStr ''chat:t'')])) n) \<noteq> [])"
proof -
  obtain h w where r: "foldl wb_op (init_hub, wb_start True [] new_listener) [Op_register ''u'' 1] = (h, w)" by fastforce
  let ?n = "\<lparr>n_srv = empty_mem, n_hub = h, n_sent = []\<rparr>"
  have u: "set [] = get_connected_users init_hub" by (simp add: get_connected_users_def init_hub_def)
  have run: "foldl wb_op (init_hub, wb_start True [] new_listener) [Op_register ''u'' 1] = (n_hub ?n, w)" using r by simp
  have "h = fst (register init_hub ''u'' 1)" using r by (simp add: follow_op_def split: prod.splits)
  then have c: "is_user_connected (n_hub ?n) ''u''" by (simp add: register_def init_hub_def is_user_connected_def conns_of_def Let_def)
  have p: "''ws:broadcast'' \<in> set CHANNEL_PREFIXES" by (simp add: CHANNEL_PREFIXES_def)
  have t: "dget_or [(''type'', PStr ''x''), (''channel'', PStr ''chat:t'')] ''communication_chat_type'' (PStr ''pinnokio'') = PStr ''pinnokio''"
    by simp
  have "n_sent (wb_deliver cm (\<lambda>_. True) w ''ws:broadcast:u'' (json_dumps (PDict [(''type'', PStr ''x''), (''channel'', PStr ''chat:t'')])) ?n) \<noteq> []" for cm :: "mem comm"
    using worker_message_reaches_browser [OF u run c _ p t, of "\<lambda>_. True" cm] by simp
  then show ?thesis using run by blast
qed

end
