(* ===== verification/Business_Cache.thy ===== *)
theory Business_Cache
  imports Contextual_Publisher Py_Access Status_Normalization "HOL-Library.Multiset"
begin

text \<open>
  The page caches that \<open>RedisSubscriber\<close> (\<open>src/app/realtime/redis_subscriber.py\<close>) keeps up to date when a worker reports on a job:
  \<open>_update_business_cache_item\<close> moves the item between the four lists of a page. The page is a dictionary,
  bare or wrapped by the unified cache manager. A value that is not of the type the code needs raises, the exception is caught and nothing
  is written. \<open>show\<close> is \<open>str\<close> of a value that is neither a text nor a whole number; \<open>str.isdigit\<close> is taken for ASCII digits. Log output is left out.
\<close>

section \<open>Definitions\<close>

subsection \<open>Categories\<close>

definition CATEGORY_KEYS :: "string list" where
  "CATEGORY_KEYS = [''to_process'', ''in_process'', ''pending'', ''processed'']"

definition DOMAIN_CATEGORY_KEYS :: "(string \<times> string list) list" where
  "DOMAIN_CATEGORY_KEYS = map (\<lambda>d. (d, CATEGORY_KEYS)) [''routing'', ''invoices'', ''bank'', ''expenses'']"

definition STATUS_TO_ABSTRACT_CATEGORY :: "(string \<times> string) list" where
  "STATUS_TO_ABSTRACT_CATEGORY =
     map (\<lambda>s. (s, ''to_process'')) [''to_process'', ''to_do'', ''new'', ''error'', ''stopped'', ''unprocessed'', ''to_reconcile'', ''skipped''] @
     map (\<lambda>s. (s, ''in_process'')) [''in_process'', ''on_process'', ''processing'', ''in_progress'', ''in_queue'', ''running'', ''stopping''] @
     map (\<lambda>s. (s, ''pending'')) [''pending'', ''pending_approval'', ''awaiting_approval''] @
     map (\<lambda>s. (s, ''processed'')) [''processed'', ''completed'', ''done'', ''close'', ''closed'', ''matched'', ''reconciled'', ''approved'', ''routed'']"

definition UNIVERSAL_KEY :: "(string \<times> string) list" where
  "UNIVERSAL_KEY = map (\<lambda>k. (k, k)) CATEGORY_KEYS"

definition get_target_category_key :: "string \<Rightarrow> string \<Rightarrow> string" where
  "get_target_category_key domain status =
     (let abstract = (case map_of STATUS_TO_ABSTRACT_CATEGORY status of Some c \<Rightarrow> c | None \<Rightarrow> ''to_process'') in
      case map_of UNIVERSAL_KEY abstract of Some k \<Rightarrow> k | None \<Rightarrow> ''to_process'')"

definition category_keys :: "string \<Rightarrow> string list" where
  "category_keys domain = (case map_of DOMAIN_CATEGORY_KEYS domain of Some ks \<Rightarrow> ks
     | None \<Rightarrow> (case map_of DOMAIN_CATEGORY_KEYS ''routing'' of Some ks \<Rightarrow> ks | None \<Rightarrow> []))"

subsection \<open>Finding an item\<close>

text \<open>\<open>tx_id_for_match\<close>, empty where the code has \<open>None\<close> or an empty text: the identifier of a bank transaction, from the data of the
  department, from a key that is a path with dots, or from the end of the job's identifier.\<close>

definition department_tx :: "(pyval \<Rightarrow> string) \<Rightarrow> pydict \<Rightarrow> string result" where
  "department_tx show item_data =
     (case dget_or item_data ''department_data'' (PDict []) of
        PDict dept_data \<Rightarrow>
          if dept_data = [] then Inr []
          else let bk_data = dget_or dept_data ''Bankbookeeper'' (dget_or dept_data ''banker'' (dget_or dept_data ''Banker'' (PDict []))) in
               if truthy bk_data then rbind (as_dict bk_data) (\<lambda>b. Inr (py_str show (dget_or b ''transaction_id'' (PStr [])))) else Inr []
      | _ \<Rightarrow> Inr [])"

definition dotted_tx :: "(pyval \<Rightarrow> string) \<Rightarrow> pydict \<Rightarrow> string" where
  "dotted_tx show item_data =
     (case filter truthy (map (dget item_data) [''department_data.Bankbookeeper.transaction_id'', ''department_data.banker.transaction_id'']) of
        v # _ \<Rightarrow> py_str show v | [] \<Rightarrow> [])"

definition composite_tx :: "string \<Rightarrow> string" where
  "composite_tx job_id =
     (let last_segment = last (split_on CHR ''_'' job_id) in
      if CHR ''_'' \<in> set job_id \<and> last_segment \<noteq> [] \<and> list_all is_digit last_segment then last_segment else [])"

definition tx_id_for_match :: "(pyval \<Rightarrow> string) \<Rightarrow> string \<Rightarrow> string \<Rightarrow> pydict \<Rightarrow> string result" where
  "tx_id_for_match show domain job_id item_data =
     (if domain \<noteq> ''bank'' \<and> domain \<noteq> ''banking'' then Inr []
      else rbind (department_tx show item_data) (\<lambda>t.
             if t \<noteq> [] then Inr t
             else if dotted_tx show item_data \<noteq> [] then Inr (dotted_tx show item_data)
             else Inr (composite_tx job_id)))"

definition is_job :: "(pyval \<Rightarrow> string) \<Rightarrow> string \<Rightarrow> string \<Rightarrow> pydict \<Rightarrow> bool" where
  "is_job show job_id tx item \<longleftrightarrow>
     dget item ''job_id'' = PStr job_id \<or> dget item ''id'' = PStr job_id \<or> dget item ''task_id'' = PStr job_id \<or>
     tx \<noteq> [] \<and> (py_str show (dget_or item ''id'' (PStr [])) = tx \<or> py_str show (dget_or item ''transaction_id'' (PStr [])) = tx)"

text \<open>The list under a category; \<open>None\<close> for another value, which the loops skip.\<close>

definition category_list :: "pydict \<Rightarrow> string \<Rightarrow> pyval list option" where
  "category_list d k = (case dget_or d k (PList []) of PList xs \<Rightarrow> Some xs | _ \<Rightarrow> None)"

primrec find_matching :: "(pydict \<Rightarrow> bool) \<Rightarrow> pyval list \<Rightarrow> pydict option result" where
  "find_matching f [] = Inr None"
| "find_matching f (v # vs) = rbind (as_dict v) (\<lambda>it. if f it then Inr (Some it) else find_matching f vs)"

primrec find_existing :: "(pydict \<Rightarrow> bool) \<Rightarrow> pydict \<Rightarrow> string list \<Rightarrow> pydict option result" where
  "find_existing f d [] = Inr None"
| "find_existing f d (k # ks) =
     (case category_list d k of
        None \<Rightarrow> find_existing f d ks
      | Some xs \<Rightarrow> rbind (find_matching f xs) (\<lambda>r. if r \<noteq> None then Inr r else find_existing f d ks))"

definition drop_matching :: "(pydict \<Rightarrow> bool) \<Rightarrow> pyval list \<Rightarrow> pyval list result" where
  "drop_matching f xs = rbind (rmap as_dict xs) (\<lambda>ds. Inr (map PDict (filter (\<lambda>it. \<not> f it) ds)))"

primrec drop_from_lists :: "(pydict \<Rightarrow> bool) \<Rightarrow> string list \<Rightarrow> pydict \<Rightarrow> pydict result" where
  "drop_from_lists f [] d = Inr d"
| "drop_from_lists f (k # ks) d =
     (case category_list d k of
        None \<Rightarrow> drop_from_lists f ks d
      | Some xs \<Rightarrow> rbind (drop_matching f xs) (\<lambda>ys. drop_from_lists f ks (dset d k (PList ys))))"

subsection \<open>Updating an item\<close>

text \<open>\<open>(d.get("status") or "").lower()\<close>.\<close>

definition lower_status :: "pydict \<Rightarrow> string result" where
  "lower_status d = (case py_or (dget d ''status'') (PStr []) of PStr t \<Rightarrow> Inr (py_lower t) | _ \<Rightarrow> Inl AttributeError)"

definition insert_item :: "string \<Rightarrow> pydict \<Rightarrow> pydict \<Rightarrow> pydict" where
  "insert_item k it d = dset d k (PList (PDict it # (case map_of d k of Some (PList xs) \<Rightarrow> xs | _ \<Rightarrow> [])))"

definition merged_item :: "pydict option \<Rightarrow> pydict \<Rightarrow> pydict" where
  "merged_item existing_item item_data = (case existing_item of Some it \<Rightarrow> dupdate it item_data | None \<Rightarrow> item_data)"

definition status_for :: "pydict option \<Rightarrow> pydict \<Rightarrow> string result" where
  "status_for existing_item item_data =
     rbind (lower_status item_data) (\<lambda>st.
       if st = [] then (case existing_item of Some it \<Rightarrow> lower_status it | None \<Rightarrow> Inr st) else Inr st)"

text \<open>A page with the four lists.\<close>

definition update_categorized :: "(pyval \<Rightarrow> string) \<Rightarrow> string \<Rightarrow> string \<Rightarrow> pydict \<Rightarrow> pydict \<Rightarrow> pydict result" where
  "update_categorized show domain job_id item_data inner_data =
     rbind (tx_id_for_match show domain job_id item_data) (\<lambda>tx.
     rbind (find_existing (is_job show job_id tx) inner_data (category_keys domain)) (\<lambda>existing_item.
     rbind (status_for existing_item item_data) (\<lambda>new_status.
     rbind (drop_from_lists (is_job show job_id tx) (category_keys domain) inner_data) (\<lambda>rest.
       Inr (insert_item (get_target_category_key domain new_status) (merged_item existing_item item_data) rest)))))"

text \<open>A page with one list, or an empty one.\<close>

definition has_job_id :: "string \<Rightarrow> pydict \<Rightarrow> bool" where
  "has_job_id job_id item \<longleftrightarrow> dget item ''job_id'' = PStr job_id \<or> dget item ''id'' = PStr job_id"

primrec merge_items :: "string \<Rightarrow> pydict \<Rightarrow> pyval list \<Rightarrow> pyval list option result" where
  "merge_items job_id item_data [] = Inr None"
| "merge_items job_id item_data (v # vs) =
     rbind (as_dict v) (\<lambda>item.
       if has_job_id job_id item then Inr (Some (PDict (dupdate item item_data) # vs))
       else rbind (merge_items job_id item_data vs) (\<lambda>r. Inr (map_option (Cons v) r)))"

definition update_flat :: "string \<Rightarrow> pydict \<Rightarrow> pydict \<Rightarrow> pydict result" where
  "update_flat job_id item_data inner_data =
     rbind (as_list (dget_or inner_data ''items'' (PList []))) (\<lambda>items.
     rbind (merge_items job_id item_data items) (\<lambda>r.
       Inr (dset inner_data ''items'' (PList (case r of Some items' \<Rightarrow> items' | None \<Rightarrow> PDict item_data # items)))))"

definition is_wrapped :: "pydict \<Rightarrow> bool" where
  "is_wrapped cache_data \<longleftrightarrow> map_of cache_data ''cache_version'' \<noteq> None \<and> map_of cache_data ''data'' \<noteq> None"

text \<open>The page inside the cached value, and the cached value with another page.\<close>

definition unwrap :: "pydict \<Rightarrow> pydict result" where
  "unwrap cache_data = (if is_wrapped cache_data then as_dict (dget cache_data ''data'') else Inr cache_data)"

definition rewrap :: "pydict \<Rightarrow> pydict \<Rightarrow> pydict" where
  "rewrap cache_data inner_data = (if is_wrapped cache_data then dset cache_data ''data'' (PDict inner_data) else inner_data)"

definition update_page :: "(pyval \<Rightarrow> string) \<Rightarrow> string \<Rightarrow> string \<Rightarrow> pydict \<Rightarrow> pyval \<Rightarrow> pyval result" where
  "update_page show domain job_id item_data v =
     rbind (as_dict v) (\<lambda>cache_data.
     rbind (unwrap cache_data) (\<lambda>inner_data.
     rbind (if list_ex (\<lambda>k. map_of inner_data k \<noteq> None) (category_keys domain)
            then update_categorized show domain job_id item_data inner_data
            else update_flat job_id item_data inner_data) (\<lambda>inner_data'.
       Inr (PDict (rewrap cache_data inner_data')))))"

definition update_business_cache_item ::
  "(pyval \<Rightarrow> string) \<Rightarrow> 's redis \<Rightarrow> string \<Rightarrow> string \<Rightarrow> string \<Rightarrow> string \<Rightarrow> pydict \<Rightarrow> 's \<Rightarrow> 's" where
  "update_business_cache_item show rc uid company_id domain job_id item_data s =
     (let cache_key = build_business_key uid company_id domain None in
      snd (stry (sbind (r_get rc cache_key) (\<lambda>raw.
                 sbind (slift (update_page show domain job_id item_data (cached_value raw))) (\<lambda>cache_data.
                   r_setex rc cache_key (get_ttl_for_domain domain) (json_dumps cache_data))))
             (\<lambda>_. ()) s))"

section \<open>The abstract page\<close>

text \<open>A page as four lists of items, and what a report on a job does to it: the item of the job leaves its list and comes back, merged with the
  report, at the head of the list of its status.\<close>

definition dict_of :: "pyval \<Rightarrow> pydict" where
  "dict_of v = (case v of PDict d \<Rightarrow> d | _ \<Rightarrow> [])"

definition page_list :: "pydict \<Rightarrow> string \<Rightarrow> pydict list" where
  "page_list d k = (case dget_or d k (PList []) of PList xs \<Rightarrow> map dict_of xs | _ \<Rightarrow> [])"

definition page_items :: "pydict \<Rightarrow> pydict list" where
  "page_items d = concat (map (page_list d) CATEGORY_KEYS)"

definition wf_list :: "pydict \<Rightarrow> string \<Rightarrow> bool" where
  "wf_list d k = (case dget_or d k (PList []) of PList xs \<Rightarrow> list_all (\<lambda>v. v = PDict (dict_of v)) xs | _ \<Rightarrow> False)"

definition wf_page :: "pydict \<Rightarrow> bool" where
  "wf_page d \<longleftrightarrow> list_all (wf_list d) CATEGORY_KEYS \<and> list_ex (\<lambda>k. map_of d k \<noteq> None) CATEGORY_KEYS"

definition report_page :: "(pydict \<Rightarrow> bool) \<Rightarrow> string \<Rightarrow> pydict \<Rightarrow> (string \<Rightarrow> pydict list) \<Rightarrow> string \<Rightarrow> pydict list" where
  "report_page same target item_data page k =
     (if k = target then [merged_item (find same (concat (map page CATEGORY_KEYS))) item_data] else []) @ filter (\<lambda>it. \<not> same it) (page k)"

section \<open>Lemmas\<close>

lemma category_keys_eq [simp]: "category_keys d = CATEGORY_KEYS"
  by (auto simp: category_keys_def DOMAIN_CATEGORY_KEYS_def)

lemma target_category: "get_target_category_key d s \<in> set CATEGORY_KEYS"
proof -
  have "map_of STATUS_TO_ABSTRACT_CATEGORY s = Some c \<Longrightarrow> c \<in> set CATEGORY_KEYS" for c
    by (drule map_of_SomeD) (auto simp: STATUS_TO_ABSTRACT_CATEGORY_def CATEGORY_KEYS_def)
  then show ?thesis
    by (auto simp: get_target_category_key_def UNIVERSAL_KEY_def Let_def map_of_map_keys split: option.split dest!: map_of_SomeD)
       (auto simp: CATEGORY_KEYS_def)
qed

lemma wf_list_iff: "wf_list d k \<longleftrightarrow> dget_or d k (PList []) = PList (map PDict (page_list d k))"
proof (cases "dget_or d k (PList [])")
  case (PList xs)
  have "list_all (\<lambda>v. v = PDict (dict_of v)) xs \<longleftrightarrow> xs = map PDict (map dict_of xs)" by (induction xs) auto
  then show ?thesis using PList by (simp add: wf_list_def page_list_def)
qed (simp_all add: wf_list_def page_list_def)

lemma wf_pageD: "wf_page d \<Longrightarrow> k \<in> set CATEGORY_KEYS \<Longrightarrow> dget_or d k (PList []) = PList (map PDict (page_list d k))"
  by (simp add: wf_page_def list_all_iff wf_list_iff)

lemma page_list_dset [simp]: "page_list (dset d k (PList (map PDict xs))) k' = (if k' = k then xs else page_list d k')"
  by (simp add: page_list_def dict_of_def o_def)

lemma wf_list_dset [simp]: "wf_list (dset d k (PList (map PDict xs))) k' \<longleftrightarrow> k' = k \<or> wf_list d k'"
  by (auto simp: wf_list_def dict_of_def list_all_iff)

lemma find_matching_dicts: "find_matching f (map PDict ds) = Inr (find f ds)"
  by (induction ds) auto

lemma find_append: "find f (xs @ ys) = (case find f xs of Some x \<Rightarrow> Some x | None \<Rightarrow> find f ys)"
  by (induction xs) auto

lemma find_existing_wf:
  "list_all (wf_list d) ks \<Longrightarrow> find_existing f d ks = Inr (find f (concat (map (page_list d) ks)))"
  by (induction ks) (auto simp: wf_list_iff category_list_def find_matching_dicts find_append split: option.split)

lemma drop_matching_dicts: "drop_matching f (map PDict ds) = Inr (map PDict (filter (\<lambda>it. \<not> f it) ds))"
  by (simp add: drop_matching_def)

lemma drop_from_lists_wf:
  "list_all (wf_list d) ks \<Longrightarrow> distinct ks \<Longrightarrow> \<exists>d'. drop_from_lists f ks d = Inr d' \<and>
     (\<forall>k. page_list d' k = (if k \<in> set ks then filter (\<lambda>it. \<not> f it) (page_list d k) else page_list d k)) \<and>
     (\<forall>k. wf_list d k \<longrightarrow> wf_list d' k) \<and> (\<forall>k. k \<notin> set ks \<longrightarrow> map_of d' k = map_of d k)"
proof (induction ks arbitrary: d)
  case (Cons k ks)
  let ?d = "dset d k (PList (map PDict (filter (\<lambda>it. \<not> f it) (page_list d k))))"
  have step: "drop_from_lists f (k # ks) d = drop_from_lists f ks ?d"
    using Cons.prems(1) by (simp add: category_list_def wf_list_iff drop_matching_dicts)
  have "list_all (wf_list ?d) ks" using Cons.prems by (simp add: list_all_iff)
  from Cons.IH [OF this] Cons.prems(2) obtain d' where "drop_from_lists f ks ?d = Inr d'"
    "\<forall>k'. page_list d' k' = (if k' \<in> set ks then filter (\<lambda>it. \<not> f it) (page_list ?d k') else page_list ?d k')"
    "\<forall>k'. wf_list ?d k' \<longrightarrow> wf_list d' k'" "\<forall>k'. k' \<notin> set ks \<longrightarrow> map_of d' k' = map_of ?d k'" by auto
  then show ?case using step Cons.prems by (intro exI [of _ d']) (auto simp: map_of_dset)
qed simp

lemma insert_item_eq:
  assumes "wf_list d k"
  shows "insert_item k it d = dset d k (PList (map PDict (it # page_list d k)))"
proof (cases "map_of d k")
  case None
  then have "dget_or d k (PList []) = PList []" by (simp add: dget_or_def)
  then have "page_list d k = []" by (simp add: page_list_def)
  then show ?thesis using None by (simp add: insert_item_def)
next
  case (Some v)
  then have "dget_or d k (PList []) = v" by (simp add: dget_or_def)
  then show ?thesis using Some assms by (simp add: insert_item_def wf_list_iff)
qed

lemma distinct_keys [simp]: "distinct CATEGORY_KEYS"
  by (simp add: CATEGORY_KEYS_def)

lemma update_categorized_spec:
  assumes "wf_page d" and "tx_id_for_match show dm job item = Inr tx"
    and "status_for (find (is_job show job tx) (page_items d)) item = Inr st"
  obtains d' where "update_categorized show dm job item d = Inr d'" "wf_page d'"
    "\<forall>k \<in> set CATEGORY_KEYS. page_list d' k = report_page (is_job show job tx) (get_target_category_key dm st) item (page_list d) k"
    "\<forall>k. k \<notin> set CATEGORY_KEYS \<longrightarrow> map_of d' k = map_of d k"
proof -
  let ?f = "is_job show job tx" and ?t = "get_target_category_key dm st"
  have wf: "list_all (wf_list d) CATEGORY_KEYS" using assms(1) by (simp add: wf_page_def)
  note ex = find_existing_wf [OF wf, of ?f]
  obtain r where r: "drop_from_lists ?f CATEGORY_KEYS d = Inr r"
    "\<forall>k. page_list r k = (if k \<in> set CATEGORY_KEYS then filter (\<lambda>it. \<not> ?f it) (page_list d k) else page_list d k)"
    "\<forall>k. wf_list d k \<longrightarrow> wf_list r k" "\<forall>k. k \<notin> set CATEGORY_KEYS \<longrightarrow> map_of r k = map_of d k"
    using drop_from_lists_wf [OF wf distinct_keys, of ?f] by blast
  have t: "?t \<in> set CATEGORY_KEYS" by (rule target_category)
  have wr: "wf_list r ?t" using r(3) wf t by (auto simp: list_all_iff)
  let ?m = "merged_item (find ?f (page_items d)) item"
  let ?d = "dset r ?t (PList (map PDict (?m # page_list r ?t)))"
  have up: "update_categorized show dm job item d = Inr ?d"
    using assms(2,3) ex r(1) by (simp add: update_categorized_def page_items_def insert_item_eq [OF wr])
  have "wf_page ?d" using wf r(3) t by (auto simp: wf_page_def list_all_iff list_ex_iff map_of_dset simp del: list.map intro!: bexI [of _ ?t])
  moreover have "\<forall>k \<in> set CATEGORY_KEYS. page_list ?d k = report_page ?f ?t item (page_list d) k"
    using r(2) t by (simp add: report_page_def page_items_def del: list.map)
  moreover have "\<forall>k. k \<notin> set CATEGORY_KEYS \<longrightarrow> map_of ?d k = map_of d k" using r(4) t by (auto simp: map_of_dset)
  ultimately show thesis using that [OF up] by blast
qed

subsection \<open>The cached page\<close>

definition cached_page :: "rview \<Rightarrow> string \<Rightarrow> pydict \<Rightarrow> bool" where
  "cached_page vw key d \<longleftrightarrow> (\<exists>c. str_at vw key = Some (Json (PDict c)) \<and> unwrap c = Inr d)"

lemma cached_page_str_key: "cached_page vw key d \<Longrightarrow> str_key vw key"
  by (auto simp: cached_page_def str_at_def str_key_def split: option.splits rvalue.splits)

lemma cached_page_inj: "cached_page vw key d \<Longrightarrow> cached_page vw key d' \<Longrightarrow> d = d'"
  by (auto simp: cached_page_def)

lemma cached_page_cong: "vw' key = vw key \<Longrightarrow> cached_page vw' key d = cached_page vw key d"
  by (simp add: cached_page_def str_at_def)

lemma category_not_wrapper: "k \<in> set CATEGORY_KEYS \<Longrightarrow> k \<noteq> ''cache_version'' \<and> k \<noteq> ''data''"
  by (auto simp: CATEGORY_KEYS_def)

lemma unwrap_rewrap:
  assumes "unwrap c = Inr d" and "\<forall>k. k \<notin> set CATEGORY_KEYS \<longrightarrow> map_of d' k = map_of d k"
  shows "unwrap (rewrap c d') = Inr d'"
proof (cases "is_wrapped c")
  case True
  then show ?thesis by (simp add: unwrap_def rewrap_def is_wrapped_def map_of_dset dget_dset)
next
  case False
  have "''cache_version'' \<notin> set CATEGORY_KEYS" "''data'' \<notin> set CATEGORY_KEYS" using category_not_wrapper by blast+
  then have "\<not> is_wrapped d'" using False assms by (auto simp: is_wrapped_def unwrap_def split: if_splits)
  then show ?thesis using False by (simp add: unwrap_def rewrap_def)
qed

context redis_up
begin

lemma update_business_cache_item_up:
  fixes s :: 'a
  assumes "cached_page (view s) key d" and "wf_page d" and "key = build_business_key uid cid dm None"
    and "tx_id_for_match show dm job item = Inr tx" and "status_for (find (is_job show job tx) (page_items d)) item = Inr st"
  obtains d' where "cached_page (view (update_business_cache_item show rc uid cid dm job item s)) key d'" "wf_page d'"
    "\<forall>k \<in> set CATEGORY_KEYS. page_list d' k = report_page (is_job show job tx) (get_target_category_key dm st) item (page_list d) k"
    "\<forall>k. k \<notin> set CATEGORY_KEYS \<longrightarrow> map_of d' k = map_of d k"
    "\<forall>k. k \<noteq> key \<longrightarrow> view (update_business_cache_item show rc uid cid dm job item s) k = view s k"
proof -
  obtain c where c: "str_at (view s) key = Some (Json (PDict c))" "unwrap c = Inr d" using assms(1) by (auto simp: cached_page_def)
  obtain d' where d': "update_categorized show dm job item d = Inr d'" "wf_page d'"
    "\<forall>k \<in> set CATEGORY_KEYS. page_list d' k = report_page (is_job show job tx) (get_target_category_key dm st) item (page_list d) k"
    "\<forall>k. k \<notin> set CATEGORY_KEYS \<longrightarrow> map_of d' k = map_of d k"
    by (rule update_categorized_spec [OF assms(2,4,5)])
  have "list_ex (\<lambda>k. map_of d k \<noteq> None) CATEGORY_KEYS" using assms(2) by (simp add: wf_page_def)
  then have up: "update_page show dm job item (PDict c) = Inr (PDict (rewrap c d'))"
    using c(2) d'(1) by (simp add: update_page_def)
  obtain s1 where 1: "r_get rc key s = (Inr (Some (Json (PDict c))), s1)" "view s1 = view s"
    using get_up [OF cached_page_str_key [OF assms(1)]] c(1) by metis
  obtain s2 where 2: "r_setex rc key (get_ttl_for_domain dm) (json_dumps (PDict (rewrap c d'))) s1 = (Inr (), s2)"
    "view s2 = (view s1)(key \<mapsto> (VStr (json_dumps (PDict (rewrap c d'))), Some (get_ttl_for_domain dm)))"
    by (rule setex_up [OF get_ttl_for_domain_pos])
  have eq: "update_business_cache_item show rc uid cid dm job item s = s2"
    using 1 2 up by (simp add: update_business_cache_item_def assms(3) seq_defs cached_value_def Let_def)
  have v: "view s2 = (view s)(key \<mapsto> (VStr (Json (PDict (rewrap c d'))), Some (get_ttl_for_domain dm)))"
    using 1 2 by (simp add: json_dumps_def)
  have "cached_page (view s2) key d'" using v unwrap_rewrap [OF c(2) d'(4)] by (simp add: cached_page_def)
  moreover have "\<forall>k. k \<noteq> key \<longrightarrow> view s2 k = view s k" using v by simp
  ultimately show thesis using that [of d'] d'(2-4) unfolding eq by blast
qed

end

subsection \<open>Each job once\<close>

definition unique_jobs :: "pydict \<Rightarrow> bool" where
  "unique_jobs d \<longleftrightarrow> wf_page d \<and> (\<forall>it \<in> set (page_items d). \<exists>j. dget it ''job_id'' = PStr j) \<and> distinct (map (\<lambda>it. dget it ''job_id'') (page_items d))"

text \<open>A report that carries the identifier of its job and a status.\<close>

definition full_report :: "(pyval \<Rightarrow> string) \<Rightarrow> string \<Rightarrow> string \<times> pydict \<Rightarrow> bool" where
  "full_report show dm r \<longleftrightarrow> dget (snd r) ''job_id'' = PStr (fst r) \<and> (\<exists>t. t \<noteq> [] \<and> dget (snd r) ''status'' = PStr t) \<and>
     (\<exists>tx. tx_id_for_match show dm (fst r) (snd r) = Inr tx) \<and> distinct (map fst (snd r))"

definition run_reports :: "(pyval \<Rightarrow> string) \<Rightarrow> 's redis \<Rightarrow> string \<Rightarrow> string \<Rightarrow> string \<Rightarrow> (string \<times> pydict) list \<Rightarrow> 's \<Rightarrow> 's" where
  "run_reports show rc uid cid dm rs s = foldl (\<lambda>s r. update_business_cache_item show rc uid cid dm (fst r) (snd r) s) s rs"

lemma dget_dupdate: "dget (dupdate d e) k = (case map_of (rev e) k of Some v \<Rightarrow> v | None \<Rightarrow> dget d k)"
  by (induction e arbitrary: d) (auto simp: dupdate_def dget_dset map_add_def split: option.split)

lemma map_of_rev_distinct: "distinct (map fst e) \<Longrightarrow> map_of (rev e) = map_of e"
  by (rule map_of_inject_set [THEN iffD2]) (simp_all add: rev_map [symmetric])

lemma merged_job_id:
  assumes "distinct (map fst item)" and "dget item k = PStr j"
  shows "dget (merged_item ex item) k = PStr j"
proof -
  have "map_of item k = Some (PStr j)" using assms(2) by (simp add: dget_def split: option.splits)
  then show ?thesis using assms by (simp add: merged_item_def dget_dupdate map_of_rev_distinct [OF assms(1)] split: option.split)
qed

text \<open>The items of the page after a report: those of the other jobs, and one of this job.\<close>

lemma report_items:
  assumes "\<forall>k \<in> set CATEGORY_KEYS. page_list d' k = report_page f t item (page_list d) k" and "t \<in> set CATEGORY_KEYS"
  shows "mset (page_items d') = add_mset (merged_item (find f (page_items d)) item) (filter_mset (\<lambda>it. \<not> f it) (mset (page_items d)))"
  using assms by (auto simp: page_items_def CATEGORY_KEYS_def report_page_def)

lemma unique_after_report:
  assumes "unique_jobs d" and "wf_page d'" and "mset (page_items d') = add_mset m (filter_mset (\<lambda>it. \<not> f it) (mset (page_items d)))"
    and "dget m ''job_id'' = PStr job" and "\<And>it. dget it ''job_id'' = PStr job \<Longrightarrow> f it"
  shows "unique_jobs d'" and "filter (\<lambda>it. dget it ''job_id'' = PStr job) (page_items d') = [m]"
proof -
  let ?id = "\<lambda>it. dget it ''job_id''" and ?rest = "filter (\<lambda>it. \<not> f it) (page_items d)"
  have ms: "mset (page_items d') = mset (m # ?rest)" using assms(3) by simp
  have st: "set (page_items d') = insert m (set ?rest)" using arg_cong [OF ms, of set_mset] by simp
  have "distinct (map ?id (m # ?rest))" using assms(1,4,5) by (auto simp: unique_jobs_def distinct_map_filter)
  moreover have "mset (map ?id (page_items d')) = mset (map ?id (m # ?rest))" using arg_cong [OF ms, of "image_mset ?id"] by simp
  ultimately have "distinct (map ?id (page_items d'))" using mset_eq_imp_distinct_iff by blast
  then show "unique_jobs d'" using assms(1,2,4) st by (auto simp: unique_jobs_def)
  have "mset (filter (\<lambda>it. ?id it = PStr job) (page_items d')) = filter_mset (\<lambda>it. ?id it = PStr job) (mset (m # ?rest))"
    using arg_cong [OF ms, of "filter_mset (\<lambda>it. ?id it = PStr job)"] by (simp only: mset_filter)
  also have "\<dots> = mset (filter (\<lambda>it. ?id it = PStr job) (m # ?rest))" by (simp only: mset_filter)
  also have "filter (\<lambda>it. ?id it = PStr job) (m # ?rest) = [m]" using assms(4,5) by (auto simp: filter_empty_conv)
  finally show "filter (\<lambda>it. ?id it = PStr job) (page_items d') = [m]" by (simp del: mset_filter)
qed

text \<open>A full report on a page where each job is once: the job is there once, at the head of the list of its status.\<close>

lemma full_report_status:
  assumes "full_report show dm (job, item)" and "dget item ''status'' = PStr t"
  obtains tx where "tx_id_for_match show dm job item = Inr tx" "\<And>ex. status_for ex item = Inr (py_lower t)"
  using assms by (auto simp: full_report_def status_for_def lower_status_def py_or_def)

lemma full_report_page:
  assumes "unique_jobs d" and "wf_page d'" and "full_report show dm (job, item)" and "tx_id_for_match show dm job item = Inr tx"
    and "\<forall>k \<in> set CATEGORY_KEYS. page_list d' k = report_page (is_job show job tx) (get_target_category_key dm st) item (page_list d) k"
  obtains it rest where "unique_jobs d'" "page_list d' (get_target_category_key dm st) = it # rest" "dget it ''job_id'' = PStr job"
    "filter (\<lambda>it. dget it ''job_id'' = PStr job) (page_items d') = [it]"
proof -
  have j: "dget item ''job_id'' = PStr job" and ds: "distinct (map fst item)" using assms(3) by (auto simp: full_report_def)
  let ?f = "is_job show job tx" and ?t = "get_target_category_key dm st"
  let ?m = "merged_item (find ?f (page_items d)) item"
  have m: "dget ?m ''job_id'' = PStr job" by (rule merged_job_id [OF ds j])
  note u = unique_after_report [OF assms(1,2) report_items [OF assms(5) target_category] m]
  have f: "dget it ''job_id'' = PStr job \<Longrightarrow> ?f it" for it by (simp add: is_job_def)
  have h: "page_list d' ?t = ?m # filter (\<lambda>it. \<not> ?f it) (page_list d ?t)"
    using assms(5) target_category by (simp add: report_page_def page_items_def)
  show thesis by (rule that [OF u(1) h m u(2)]) (use f in blast)+
qed

context redis_up
begin

lemma full_report_up:
  fixes s :: 'a
  assumes "cached_page (view s) key d" and "unique_jobs d" and "key = build_business_key uid cid dm None" and "full_report show dm (job, item)"
    and "dget item ''status'' = PStr t"
  obtains d' it rest where "cached_page (view (update_business_cache_item show rc uid cid dm job item s)) key d'" "unique_jobs d'"
    "page_list d' (get_target_category_key dm (py_lower t)) = it # rest" "dget it ''job_id'' = PStr job"
    "filter (\<lambda>it. dget it ''job_id'' = PStr job) (page_items d') = [it]"
    "\<forall>k. k \<noteq> key \<longrightarrow> view (update_business_cache_item show rc uid cid dm job item s) k = view s k"
proof -
  obtain tx where tx: "tx_id_for_match show dm job item = Inr tx" and st: "\<And>ex. status_for ex item = Inr (py_lower t)"
    using full_report_status [OF assms(4,5)] by blast
  have wf: "wf_page d" using assms(2) by (simp add: unique_jobs_def)
  obtain d' where d': "cached_page (view (update_business_cache_item show rc uid cid dm job item s)) key d'" "wf_page d'"
    "\<forall>k \<in> set CATEGORY_KEYS. page_list d' k = report_page (is_job show job tx) (get_target_category_key dm (py_lower t)) item (page_list d) k"
    "\<forall>k. k \<noteq> key \<longrightarrow> view (update_business_cache_item show rc uid cid dm job item s) k = view s k"
    by (rule update_business_cache_item_up [OF assms(1) wf assms(3) tx st])
  show thesis by (rule full_report_page [OF assms(2) d'(2) assms(4) tx d'(3)]) (use that d'(1,4) in blast)
qed

lemma run_reports_up:
  fixes s :: 'a
  assumes "cached_page (view s) key d" and "unique_jobs d" and "key = build_business_key uid cid dm None" and "\<forall>r \<in> set rs. full_report show dm r"
  shows "\<exists>d'. cached_page (view (run_reports show rc uid cid dm rs s)) key d' \<and> unique_jobs d' \<and>
    (\<forall>k. k \<noteq> key \<longrightarrow> view (run_reports show rc uid cid dm rs s) k = view s k)"
  using assms
proof (induction rs arbitrary: s d)
  case Nil
  then show ?case by (auto simp: run_reports_def)
next
  case (Cons r rs)
  obtain job item where r: "r = (job, item)" by force
  then have f: "full_report show dm (job, item)" using Cons.prems(4) by simp
  then obtain t where t: "dget item ''status'' = PStr t" by (auto simp: full_report_def)
  let ?s = "update_business_cache_item show rc uid cid dm job item s"
  obtain d1 where d1: "cached_page (view ?s) key d1" "unique_jobs d1" "\<forall>k. k \<noteq> key \<longrightarrow> view ?s k = view s k"
    by (rule full_report_up [OF Cons.prems(1-3) f t])
  show ?case using Cons.IH [OF d1(1,2) Cons.prems(3)] Cons.prems(4) d1(3) r by (simp add: run_reports_def)
qed

end

section \<open>Properties\<close>

definition demo_bank_page :: pydict where
  "demo_bank_page = [(''to_process'', PList [PDict [(''id'', PStr ''577''), (''job_id'', PStr ''tx577''), (''amount'', PNum 12)],
                                             PDict [(''id'', PStr ''578''), (''job_id'', PStr ''tx578'')]]),
                     (''processed'', PList [])]"

definition demo_bank :: mem where
  "demo_bank = mem_put (build_business_key ''u'' ''c'' ''bank'' None)
     (VStr (Json (PDict [(''cache_version'', PStr ''2.0''), (''data'', PDict demo_bank_page)]))) (Some 3600) empty_mem"

definition demo_report :: pydict where
  "demo_report = [(''job_id'', PStr ''c_18_577''), (''status'', PStr ''completed'')]"

lemma demo_bank_cached: "cached_page (mem_view demo_bank) (build_business_key ''u'' ''c'' ''bank'' None) demo_bank_page"
  by (simp add: cached_page_def demo_bank_def mem_put_def mem_view_def empty_mem_def str_at_def unwrap_def is_wrapped_def dget_def)

lemma demo_bank_unique: "unique_jobs demo_bank_page"
  by (simp add: unique_jobs_def wf_page_def wf_list_def page_items_def page_list_def CATEGORY_KEYS_def demo_bank_page_def dget_or_def dget_def dict_of_def)

lemma demo_tx: "tx_id_for_match show ''bank'' ''c_18_577'' demo_report = Inr ''577''"
  by (simp add: tx_id_for_match_def department_tx_def dotted_tx_def composite_tx_def demo_report_def dget_def dget_or_def is_digit_def code_def)

lemma demo_found: "find (is_job show ''c_18_577'' ''577'') (page_items demo_bank_page) = Some [(''id'', PStr ''577''), (''job_id'', PStr ''tx577''), (''amount'', PNum 12)]"
  by (simp add: is_job_def page_items_def page_list_def CATEGORY_KEYS_def demo_bank_page_def dget_or_def dget_def dict_of_def py_str_def)

text \<open>C11: A report on a job refines the abstract page: the item of the job leaves whatever list it is in and comes back merged with the report at the head
  of the list its status names, the order of all other items and everything else in the cached value stay, and no other key changes.\<close>

theorem report_refines_page:
  assumes "redis_up rc view tick" and "cached_page (view s) key d" and "wf_page d" and "key = build_business_key uid cid dm None"
    and "tx_id_for_match show dm job item = Inr tx" and "status_for (find (is_job show job tx) (page_items d)) item = Inr st"
    and "s' = update_business_cache_item show rc uid cid dm job item s"
  shows "\<exists>d'. cached_page (view s') key d' \<and> wf_page d' \<and>
    (\<forall>k \<in> set CATEGORY_KEYS. page_list d' k = report_page (is_job show job tx) (get_target_category_key dm st) item (page_list d) k) \<and>
    (\<forall>k. k \<notin> set CATEGORY_KEYS \<longrightarrow> map_of d' k = map_of d k) \<and> (\<forall>k. k \<noteq> key \<longrightarrow> view s' k = view s k)"
proof -
  obtain d' where "cached_page (view s') key d'" "wf_page d'"
    "\<forall>k \<in> set CATEGORY_KEYS. page_list d' k = report_page (is_job show job tx) (get_target_category_key dm st) item (page_list d) k"
    "\<forall>k. k \<notin> set CATEGORY_KEYS \<longrightarrow> map_of d' k = map_of d k" "\<forall>k. k \<noteq> key \<longrightarrow> view s' k = view s k"
    using redis_up.update_business_cache_item_up [OF assms(1-6)] unfolding assms(7) by blast
  then show ?thesis by blast
qed

theorem report_refines_page_witness:
  "\<exists>d'. cached_page (mem_view (update_business_cache_item (\<lambda>_. []) mem_redis ''u'' ''c'' ''bank'' ''c_18_577'' demo_report demo_bank))
       (build_business_key ''u'' ''c'' ''bank'' None) d' \<and>
     page_list d' ''to_process'' = [[(''id'', PStr ''578''), (''job_id'', PStr ''tx578'')]] \<and>
     page_list d' ''processed'' = [[(''id'', PStr ''577''), (''job_id'', PStr ''c_18_577''), (''amount'', PNum 12), (''status'', PStr ''completed'')]]"
proof -
  have wf: "wf_page demo_bank_page" using demo_bank_unique by (simp add: unique_jobs_def)
  have st: "status_for (find (is_job (\<lambda>_. []) ''c_18_577'' ''577'') (page_items demo_bank_page)) demo_report = Inr ''completed''"
    by (simp add: demo_found status_for_def lower_status_def demo_report_def dget_def py_or_def py_lower_def lower_char_def code_def)
  note t = report_refines_page [OF mem_redis_up demo_bank_cached wf refl demo_tx st refl]
  have c: "get_target_category_key ''bank'' ''completed'' = ''processed''"
    by (simp add: get_target_category_key_def STATUS_TO_ABSTRACT_CATEGORY_def UNIVERSAL_KEY_def CATEGORY_KEYS_def)
  have k: "''to_process'' \<in> set CATEGORY_KEYS" "''processed'' \<in> set CATEGORY_KEYS" by (simp_all add: CATEGORY_KEYS_def)
  have f: "concat (map (page_list demo_bank_page) CATEGORY_KEYS) = page_items demo_bank_page" by (simp add: page_items_def)
  have "report_page (is_job (\<lambda>_. []) ''c_18_577'' ''577'') ''processed'' demo_report (page_list demo_bank_page) ''to_process'' = [[(''id'', PStr ''578''), (''job_id'', PStr ''tx578'')]]"
    by (simp add: report_page_def page_list_def demo_bank_page_def dget_or_def dget_def dict_of_def is_job_def py_str_def)
  moreover have "report_page (is_job (\<lambda>_. []) ''c_18_577'' ''577'') ''processed'' demo_report (page_list demo_bank_page) ''processed'' =
      [[(''id'', PStr ''577''), (''job_id'', PStr ''c_18_577''), (''amount'', PNum 12), (''status'', PStr ''completed'')]]"
    unfolding report_page_def f demo_found by (simp add: merged_item_def dupdate_def demo_report_def page_list_def demo_bank_page_def dget_or_def)
  ultimately show ?thesis using t k unfolding c by metis
qed

text \<open>C20: As long as the reports carry the identifier of their job and a status, no job is ever twice on the page, however the reports are ordered; and
  the item of the last report is on the page once, at the head of the list of its status.\<close>

theorem page_items_stay_unique:
  assumes "redis_up rc view tick" and "cached_page (view s) key d" and "unique_jobs d" and "key = build_business_key uid cid dm None"
    and "\<forall>r \<in> set (rs @ [(job, item)]). full_report show dm r" and "dget item ''status'' = PStr t"
    and "s' = run_reports show rc uid cid dm (rs @ [(job, item)]) s"
  shows "\<exists>d' it rest. cached_page (view s') key d' \<and> unique_jobs d' \<and>
    page_list d' (get_target_category_key dm (py_lower t)) = it # rest \<and>
    filter (\<lambda>it. dget it ''job_id'' = PStr job) (page_items d') = [it] \<and> (\<forall>k. k \<noteq> key \<longrightarrow> view s' k = view s k)"
proof -
  let ?s = "run_reports show rc uid cid dm rs s"
  obtain d1 where d1: "cached_page (view ?s) key d1" "unique_jobs d1" "\<forall>k. k \<noteq> key \<longrightarrow> view ?s k = view s k"
    using redis_up.run_reports_up [OF assms(1-4), of rs "show"] assms(5) by auto
  have f: "full_report show dm (job, item)" using assms(5) by simp
  have s': "s' = update_business_cache_item show rc uid cid dm job item ?s" using assms(7) by (simp add: run_reports_def)
  show ?thesis using redis_up.full_report_up [OF assms(1) d1(1,2) assms(4) f assms(6)] d1(3) unfolding s' by metis
qed

theorem page_items_stay_unique_witness:
  "\<exists>d' it rest. cached_page (mem_view (run_reports (\<lambda>_. []) mem_redis ''u'' ''c'' ''bank'' ([(''tx578'', [(''job_id'', PStr ''tx578''), (''status'', PStr ''pending'')])] @
       [(''c_18_577'', demo_report)]) demo_bank)) (build_business_key ''u'' ''c'' ''bank'' None) d' \<and> unique_jobs d' \<and> page_list d' ''processed'' = it # rest"
proof -
  have f: "\<forall>r \<in> set ([(''tx578'', [(''job_id'', PStr ''tx578''), (''status'', PStr ''pending'')])] @ [(''c_18_577'', demo_report)]). full_report (\<lambda>_. []) ''bank'' r"
    using demo_tx by (auto simp: full_report_def tx_id_for_match_def department_tx_def dget_or_def dget_def demo_report_def)
  have st: "dget demo_report ''status'' = PStr ''completed''" by (simp add: demo_report_def dget_def)
  have c: "get_target_category_key ''bank'' (py_lower ''completed'') = ''processed''"
    by (simp add: get_target_category_key_def STATUS_TO_ABSTRACT_CATEGORY_def UNIVERSAL_KEY_def CATEGORY_KEYS_def py_lower_def lower_char_def code_def)
  show ?thesis using page_items_stay_unique [OF mem_redis_up demo_bank_cached demo_bank_unique refl f st refl] unfolding c by blast
qed

end
