(* ===== verification/Billing_Cache.thy ===== *)
theory Billing_Cache
  imports Business_Cache Firestore_Client
begin

text \<open>
  Two more caches that \<open>RedisSubscriber\<close> writes when a worker reports on a job: the history of expenses on the dashboard
  (\<open>_update_billing_history_cache\<close>), and the page of the department that a routed document goes to (\<open>_cross_domain_add_after_routing\<close>), which is
  read from Firestore. \<open>show\<close> and \<open>flt\<close> are \<open>str\<close> of a value and \<open>float\<close> of a text. Log output is left out.
\<close>

section \<open>Definitions\<close>

text \<open>\<open>int(v)\<close> and \<open>float(v)\<close>, \<open>k in v\<close> and \<open>v[k]\<close> for a text \<open>k\<close>.\<close>

definition to_int :: "pyval \<Rightarrow> int result" where
  "to_int v = (case v of
       PNum q \<Rightarrow> Inr (py_int q)
     | PBool b \<Rightarrow> Inr (if b then 1 else 0)
     | PStr t \<Rightarrow> (case int_of_str t of Some i \<Rightarrow> Inr i | None \<Rightarrow> Inl (ValueError ''int''))
     | _ \<Rightarrow> Inl TypeError)"

definition to_float :: "(string \<Rightarrow> rat option) \<Rightarrow> pyval \<Rightarrow> rat result" where
  "to_float flt v = (case v of
       PNum q \<Rightarrow> Inr q
     | PBool b \<Rightarrow> Inr (if b then 1 else 0)
     | PStr t \<Rightarrow> (case flt t of Some q \<Rightarrow> Inr q | None \<Rightarrow> Inl (ValueError ''float''))
     | _ \<Rightarrow> Inl TypeError)"

definition contains :: "pyval \<Rightarrow> string \<Rightarrow> bool result" where
  "contains v k = (case v of
       PDict d \<Rightarrow> Inr (map_of d k \<noteq> None)
     | PList xs \<Rightarrow> Inr (PStr k \<in> set xs)
     | PStr t \<Rightarrow> Inr (py_in k t)
     | _ \<Rightarrow> Inl TypeError)"

definition item_at :: "pyval \<Rightarrow> string \<Rightarrow> pyval result" where
  "item_at v k = rbind (as_dict v) (\<lambda>d. ditem d k)"

text \<open>\<open>if k in v: d[k'] = f(v[k])\<close>.\<close>

definition copy_with :: "(pyval \<Rightarrow> pyval result) \<Rightarrow> pyval \<Rightarrow> string \<Rightarrow> string \<Rightarrow> pydict \<Rightarrow> pydict result" where
  "copy_with f v k k' d =
     rbind (contains v k) (\<lambda>b. if b then rbind (rbind (item_at v k) f) (\<lambda>x. Inr (dset d k' x)) else Inr d)"

primrec copy_all :: "(pyval \<Rightarrow> pyval result) \<Rightarrow> pyval \<Rightarrow> (string \<times> string) list \<Rightarrow> pydict \<Rightarrow> pydict result" where
  "copy_all f v [] d = Inr d"
| "copy_all f v (p # ps) d = rbind (copy_with f v (fst p) (snd p) d) (copy_all f v ps)"

definition float_or_0 :: "(string \<Rightarrow> rat option) \<Rightarrow> pyval \<Rightarrow> pyval result" where
  "float_or_0 flt v = rbind (to_float flt (py_or v (PNum 0))) (\<lambda>q. Inr (PNum q))"

subsection \<open>The history of expenses\<close>

definition normalize_department :: "pyval \<Rightarrow> pyval result" where
  "normalize_department dept =
     rbind (as_str (py_or dept (PStr []))) (\<lambda>t.
       let dept_lower = py_strip (py_lower t) in
       Inr (if dept_lower \<in> {''apbookeeper'', ''ap_bookeeper''} then PStr ''APBookkeeper''
            else if dept_lower = ''router'' then PStr ''Router''
            else if dept_lower \<in> {''banker'', ''bank''} then PStr ''Banker''
            else if dept_lower \<in> {''chat'', ''chat_usage'', ''chat_daily''} then PStr ''Chat''
            else if dept_lower \<in> {''exbookeeper'', ''ex_bookeeper''} then PStr ''EXbookeeper''
            else if dept_lower \<in> {''hr'', ''payroll''} then PStr ''HR''
            else if dept_lower = ''onboarding'' then PStr ''Onboarding''
            else if dept_lower \<in> {''reverse_reconciliation'', ''reversereconciliation''} then PStr ''Reverse_reconciliation''
            else py_or dept (PStr ''Other'')))"

definition new_billing_item :: "string \<Rightarrow> pydict \<Rightarrow> pydict result" where
  "new_billing_item job_id md =
     rbind (as_dict (dget_or md ''data'' (PDict md))) (\<lambda>item_data.
     rbind (normalize_department (py_or (py_or (dget md ''department'') (dget item_data ''department'')) (PStr []))) (\<lambda>department.
       Inr [(''jobId'', PStr job_id), (''id'', PStr job_id),
            (''status'', dget_or md ''status'' (dget_or item_data ''status'' (PStr ''unknown''))), (''department'', department),
            (''fileName'', dget_or item_data ''file_name'' (PStr [])),
            (''mandatePath'', dget_or md ''mandate_path'' (dget_or item_data ''mandate_path'' (PStr []))),
            (''createdAt'', dget_or item_data ''started_at'' (dget_or item_data ''last_event_time'' (PStr []))),
            (''timestamp'', py_or (py_or (dget item_data ''started_at'') (dget item_data ''last_event_time'')) (dget_or md ''timestamp'' (PStr []))),
            (''totalTokens'', PNum 0), (''cost'', PNum 0), (''currency'', PStr ''CHF''), (''currentStep'', PStr []), (''lastMessage'', PStr []),
            (''lastOutcome'', PStr [])]))"

text \<open>\<open>md.get(k) or item_data.get(k)\<close>, and its assignment when it counts as true.\<close>

definition either_field :: "pydict \<Rightarrow> pydict \<Rightarrow> string \<Rightarrow> pyval" where
  "either_field md item_data k = py_or (dget md k) (dget item_data k)"

definition set_if :: "pyval \<Rightarrow> string \<Rightarrow> pydict \<Rightarrow> pydict" where
  "set_if v k d = (if truthy v then dset d k v else d)"

definition BILLING_FIELDS :: "(string \<times> string) list" where
  "BILLING_FIELDS = [(''current_step'', ''currentStep''), (''last_message'', ''lastMessage''), (''last_outcome'', ''lastOutcome''),
     (''file_name'', ''fileName''), (''uri_file_link'', ''uriFileLink'')]"

definition merge_fields :: "pydict \<Rightarrow> pydict \<Rightarrow> pydict \<Rightarrow> pydict" where
  "merge_fields md item_data it =
     foldl (\<lambda>d p. set_if (either_field md item_data (fst p)) (snd p) d) (set_if (either_field md item_data ''status'') ''status'' it) BILLING_FIELDS"

definition merge_billing :: "(string \<Rightarrow> rat option) \<Rightarrow> pyval \<Rightarrow> pydict \<Rightarrow> pydict result" where
  "merge_billing flt billing it =
     (case billing of
        PDict b \<Rightarrow>
          rbind (copy_with (\<lambda>v. rbind (to_int (py_or v (PNum 0))) (\<lambda>i. Inr (PNum (of_int i)))) billing ''total_tokens'' ''totalTokens'' it) (\<lambda>it1.
          rbind (copy_with (float_or_0 flt) billing ''total_sales_price'' ''cost'' it1) (\<lambda>it2.
          rbind (copy_with Inr billing ''currency'' ''currency'' it2) (\<lambda>it3.
            copy_with (\<lambda>v. Inr (PBool (truthy v))) billing ''billed'' ''billed'' it3)))
      | _ \<Rightarrow> Inr it)"

definition AP_TEXT_FIELDS :: "(string \<times> string) list" where
  "AP_TEXT_FIELDS = [(''supplier_name'', ''supplierName''), (''invoice_ref'', ''invoiceRef''), (''invoice_date'', ''invoiceDate''), (''due_date'', ''dueDate''),
     (''accounting_date'', ''accountingDate''), (''invoice_description'', ''invoiceDescription'')]"

definition AP_AMOUNT_FIELDS :: "(string \<times> string) list" where
  "AP_AMOUNT_FIELDS = [(''amount_vat_excluded'', ''amountVatExcluded''), (''amount_vat_included'', ''amountVatIncluded''), (''amount_vat'', ''amountVat'')]"

definition accounting_line :: "(string \<Rightarrow> rat option) \<Rightarrow> pydict \<Rightarrow> pyval result" where
  "accounting_line flt acc_line =
     rbind (float_or_0 flt (dget acc_line ''price_unit'')) (\<lambda>price.
       Inr (PDict [(''name'', dget_or acc_line ''name'' (PStr [])), (''accountNumber'', dget_or acc_line ''account_number'' (PStr [])),
         (''accountName'', dget_or acc_line ''account_name'' (PStr [])), (''priceUnit'', price), (''quantity'', dget_or acc_line ''quantity'' (PNum 1)),
         (''taxPercent'', case dget acc_line ''tax_percent'' of PList (v # _) \<Rightarrow> v | _ \<Rightarrow> dget_or acc_line ''tax_percent'' (PNum 0)),
         (''discount'', dget_or acc_line ''discount'' (PNum 0))]))"

definition is_dict :: "pyval \<Rightarrow> bool" where
  "is_dict v = (case v of PDict _ \<Rightarrow> True | _ \<Rightarrow> False)"

definition merge_accounting_lines :: "(string \<Rightarrow> rat option) \<Rightarrow> pyval \<Rightarrow> pydict \<Rightarrow> pydict result" where
  "merge_accounting_lines flt ap_data it =
     rbind (contains ap_data ''accounting_lines'') (\<lambda>b.
       if \<not> b then Inr it
       else rbind (item_at ap_data ''accounting_lines'') (\<lambda>v.
         case v of
           PList acc_lines \<Rightarrow> rbind (rmap (\<lambda>acc_line. accounting_line flt (dict_of acc_line)) (filter is_dict acc_lines)) (\<lambda>ls. Inr (dset it ''accountingLines'' (PList ls)))
         | _ \<Rightarrow> Inr it))"

definition merge_ap :: "(string \<Rightarrow> rat option) \<Rightarrow> pydict \<Rightarrow> pydict \<Rightarrow> pydict result" where
  "merge_ap flt dept_data it =
     (let ap_data = py_or (dget dept_data ''APbookeeper'') (dget dept_data ''Apbookeeper'') in
      if \<not> truthy ap_data then Inr it
      else rbind (copy_all Inr ap_data AP_TEXT_FIELDS it) (\<lambda>it1.
           rbind (copy_all (float_or_0 flt) ap_data AP_AMOUNT_FIELDS it1) (\<lambda>it2.
           rbind (copy_all Inr ap_data [(''currency'', ''currency''), (''currency_rate'', ''currencyRate'')] it2) (\<lambda>it3.
             merge_accounting_lines flt ap_data it3))))"

definition merge_router :: "(string \<Rightarrow> rat option) \<Rightarrow> pydict \<Rightarrow> pydict \<Rightarrow> pydict result" where
  "merge_router flt dept_data it =
     (let router_data = py_or (dget dept_data ''Router'') (dget dept_data ''router'') in
      if \<not> truthy router_data then Inr it
      else rbind (copy_with Inr router_data ''destination'' ''routeDestination'' it) (copy_with (float_or_0 flt) router_data ''confidence'' ''routeConfidence''))"

definition merge_banker :: "pydict \<Rightarrow> pydict \<Rightarrow> pydict result" where
  "merge_banker dept_data it =
     (let banker_data = py_or (dget dept_data ''Banker'') (dget dept_data ''banker'') in
      if \<not> truthy banker_data then Inr it
      else copy_all Inr banker_data [(''bank_account'', ''bankAccount''), (''transaction_type'', ''transactionType'')] it)"

definition merge_departments :: "(string \<Rightarrow> rat option) \<Rightarrow> pyval \<Rightarrow> pydict \<Rightarrow> pydict result" where
  "merge_departments flt v it =
     (case v of
        PDict dept_data \<Rightarrow> rbind (merge_ap flt dept_data it) (\<lambda>it1. rbind (merge_router flt dept_data it1) (merge_banker dept_data))
      | _ \<Rightarrow> Inr it)"

definition merge_report :: "(string \<Rightarrow> rat option) \<Rightarrow> pydict \<Rightarrow> pydict \<Rightarrow> pydict result" where
  "merge_report flt md it =
     rbind (as_dict (dget_or md ''data'' (PDict []))) (\<lambda>item_data.
     let dept = either_field md item_data ''department'' in
     rbind (if truthy dept then rbind (normalize_department dept) (\<lambda>n. Inr (dset (merge_fields md item_data it) ''department'' n))
            else Inr (merge_fields md item_data it)) (\<lambda>it1.
     rbind (merge_billing flt (either_field md item_data ''billing'') it1) (\<lambda>it2.
       merge_departments flt (either_field md item_data ''department_data'') it2)))"

definition is_billing_item :: "string \<Rightarrow> pydict \<Rightarrow> bool" where
  "is_billing_item job_id it \<longleftrightarrow> dget it ''jobId'' = PStr job_id \<or> dget it ''id'' = PStr job_id"

text \<open>The first item of the job is changed in its place; the answer is the item with the new list.\<close>

primrec change_item :: "(pydict \<Rightarrow> bool) \<Rightarrow> (pydict \<Rightarrow> pydict result) \<Rightarrow> pyval list \<Rightarrow> (pydict \<times> pyval list) option result" where
  "change_item f g [] = Inr None"
| "change_item f g (v # vs) =
     rbind (as_dict v) (\<lambda>it.
       if f it then rbind (g it) (\<lambda>it'. Inr (Some (it', PDict it' # vs)))
       else rbind (change_item f g vs) (\<lambda>r. Inr (map_option (\<lambda>(it', vs'). (it', v # vs')) r)))"

definition update_billing_page :: "(string \<Rightarrow> rat option) \<Rightarrow> string \<Rightarrow> pydict \<Rightarrow> pyval \<Rightarrow> (pydict \<times> pyval) result" where
  "update_billing_page flt job_id md v =
     rbind (as_dict v) (\<lambda>cache_data.
     rbind (unwrap cache_data) (\<lambda>inner_data.
     rbind (as_list (dget_or inner_data ''items'' (PList []))) (\<lambda>items_list.
     rbind (change_item (is_billing_item job_id) (merge_report flt md) items_list) (\<lambda>r.
     rbind (case r of Some p \<Rightarrow> Inr p
                    | None \<Rightarrow> rbind (new_billing_item job_id md) (\<lambda>it. rbind (merge_report flt md it) (\<lambda>it'. Inr (it', PDict it' # items_list)))) (\<lambda>p.
       Inr (fst p, PDict (rewrap cache_data (if map_of inner_data ''items'' = None then inner_data else dset inner_data ''items'' (PList (snd p))))))))))"

definition BILLING_TTL :: nat where
  "BILLING_TTL = 1800"

definition update_billing_history_cache ::
  "(string \<Rightarrow> rat option) \<Rightarrow> 's redis \<Rightarrow> string \<Rightarrow> string \<Rightarrow> string \<Rightarrow> pydict \<Rightarrow> 's \<Rightarrow> pydict option \<times> 's" where
  "update_billing_history_cache flt rc uid company_id job_id md =
     (let cache_key = build_business_key uid company_id ''billing_history'' None in
      stry (sbind (r_get rc cache_key) (\<lambda>raw.
            case raw of
              Some (Json v) \<Rightarrow>
                sbind (slift (update_billing_page flt job_id md v)) (\<lambda>p.
                sbind (r_setex rc cache_key BILLING_TTL (json_dumps (snd p))) (\<lambda>_. sret (Some (fst p))))
            | _ \<Rightarrow> sret None))
        (\<lambda>_. None))"

subsection \<open>Documents for another department\<close>

text \<open>\<open>FirebaseManagement.get_document\<close>: a path with an even number of segments; every failure answers \<open>None\<close>.\<close>

definition get_document :: "'s firestore \<Rightarrow> string \<Rightarrow> 's \<Rightarrow> pydict option \<times> 's" where
  "get_document fs document_path s =
     (let parts = split_on CHR ''/'' (case document_path of c # cs \<Rightarrow> if c = CHR ''/'' then cs else document_path | [] \<Rightarrow> []) in
      if odd (length parts) then (None, s)
      else stry (sbind (f_get fs (py_join ''/'' (butlast parts)) (last parts)) (\<lambda>doc.
                   sret (map_option (\<lambda>data. dset data ''id'' (PStr (last parts))) doc)))
             (\<lambda>_. None) s)"

definition TARGET_DEPT_KEYS :: "string list" where
  "TARGET_DEPT_KEYS = [''EXbookeeper'', ''exbookeeper'', ''APbookeeper'', ''Apbookeeper'', ''apbookeeper'']"

definition DEPT_KEY_TO_DOMAIN :: "(string \<times> string) list" where
  "DEPT_KEY_TO_DOMAIN = [(''exbookeeper'', ''expenses''), (''apbookeeper'', ''invoices'')]"

definition build_cross_domain_item :: "string \<Rightarrow> pydict \<Rightarrow> pydict \<Rightarrow> string \<Rightarrow> pydict" where
  "build_cross_domain_item target_domain dept_entry task_doc job_id =
     (let base = [(''job_id'', dget_or task_doc ''job_id'' (PStr job_id)),
                  (''file_name'', dget_or task_doc ''file_name'' (dget_or dept_entry ''file_name'' (PStr []))),
                  (''file_id'', dget_or task_doc ''file_id'' (dget_or dept_entry ''file_id'' (PStr []))),
                  (''mandate_path'', dget_or task_doc ''mandate_path'' (PStr [])),
                  (''status'', dget_or dept_entry ''status'' (PStr ''to_process''))];
          paid = [(''supplier'', dget_or dept_entry ''supplier'' (PStr [])), (''amount'', dget_or dept_entry ''amount'' (PNum 0)),
                  (''date'', dget_or dept_entry ''date'' (PStr [])), (''currency'', dget_or dept_entry ''currency'' (PStr []))] in
      if target_domain = ''expenses''
      then base @ [(''expense_id'', dget_or task_doc ''id'' (PStr job_id))] @ paid @
           [(''category'', dget_or dept_entry ''category'' (PStr [])), (''description'', dget_or dept_entry ''description'' (PStr []))]
      else if target_domain = ''invoices'' then base @ paid @ [(''current_step'', dget_or dept_entry ''current_step'' (PStr []))]
      else base)"

text \<open>The departments of the document that are a target, each domain once.\<close>

fun cross_targets :: "pydict \<Rightarrow> string list \<Rightarrow> string list \<Rightarrow> (string \<times> pydict) list" where
  "cross_targets dept_data processed_domains [] = []"
| "cross_targets dept_data processed_domains (dept_key # ks) =
     (case (dget dept_data dept_key, map_of DEPT_KEY_TO_DOMAIN (py_lower dept_key)) of
        (PDict entry, Some target_domain) \<Rightarrow>
          if entry = [] \<or> target_domain \<in> set processed_domains then cross_targets dept_data processed_domains ks
          else (target_domain, entry) # cross_targets dept_data (target_domain # processed_domains) ks
      | _ \<Rightarrow> cross_targets dept_data processed_domains ks)"

definition cross_items :: "string \<Rightarrow> pydict option \<Rightarrow> (string \<times> pydict) list" where
  "cross_items job_id task_doc =
     (case task_doc of
        None \<Rightarrow> []
      | Some doc \<Rightarrow>
          (case dget_or doc ''department_data'' (PDict []) of
             PDict dept_data \<Rightarrow> map (\<lambda>p. (fst p, build_cross_domain_item (fst p) (snd p) doc job_id)) (cross_targets dept_data [] TARGET_DEPT_KEYS)
           | _ \<Rightarrow> []))"

definition cross_domain_add_after_routing ::
  "(pyval \<Rightarrow> string) \<Rightarrow> 's redis \<Rightarrow> 's firestore \<Rightarrow> string \<Rightarrow> string \<Rightarrow> string \<Rightarrow> 's \<Rightarrow> (string \<times> pydict) list \<times> 's" where
  "cross_domain_add_after_routing show rc fs uid company_id job_id s =
     (case get_document fs (''clients/'' @ uid @ ''/task_manager/'' @ job_id) s of
        (task_doc, s1) \<Rightarrow>
          let added_items = cross_items job_id task_doc in
          (added_items, foldl (\<lambda>s p. update_business_cache_item show rc uid company_id (fst p) job_id (snd p) s) s1 added_items))"

end
