(* ===== verification/State_Frame.thy ===== *)
theory State_Frame
  imports Redis_Client Firestore_Client Redis_Pair
begin

text \<open>
  What an operation leaves alone: \<open>preserves g f\<close> says that the observation \<open>g\<close> of the state is the same after \<open>f\<close>. The rules follow the
  combinators of stateful code, so that the frame of a component is found by its structure. The locale \<open>frame\<close> is what a
  component that only reads and writes keys of Redis needs to know of an observation: with the observation of another key it gives the
  frame of the component, with the documents of Firestore its independence from Redis.

  \<open>pair_firestore\<close> puts Firestore beside Redis in one state.
\<close>

section \<open>Preservation\<close>

definition preserves :: "('s \<Rightarrow> 'x) \<Rightarrow> ('s \<Rightarrow> 'a \<times> 's) \<Rightarrow> bool" where
  "preserves g f \<longleftrightarrow> (\<forall>s. g (snd (f s)) = g s)"

named_theorems frames

lemma preservesD: "preserves g f \<Longrightarrow> g (snd (f s)) = g s"
  by (simp add: preserves_def)

lemma preserves_eq: "preserves g f \<Longrightarrow> f s = (a, s') \<Longrightarrow> g s' = g s"
  by (metis preservesD snd_conv)

lemma preserves_sret [frames]: "preserves g (sret x)" "preserves g (slift r)" "preserves g (sraise e)"
  by (simp_all add: preserves_def seq_defs)

lemma preserves_sbind [frames]: "preserves g m \<Longrightarrow> (\<And>x. preserves g (f x)) \<Longrightarrow> preserves g (sbind m f)"
  unfolding preserves_def sbind_def by (auto split: prod.split sum.split) (metis snd_conv)+

lemma preserves_stry [frames]: "preserves g m \<Longrightarrow> preserves g (stry m h)"
  unfolding preserves_def stry_def by (auto split: prod.split sum.split) (metis snd_conv)+

lemma preserves_map [frames]: "preserves g f \<Longrightarrow> preserves g (\<lambda>s. case f s of (a, s') \<Rightarrow> (h a, s'))"
  unfolding preserves_def by (auto split: prod.split) (metis snd_conv)

lemma preserves_if [frames]: "preserves g f \<Longrightarrow> preserves g f' \<Longrightarrow> preserves g (if b then f else f')"
  by simp

lemma preserves_option [frames]: "preserves g a \<Longrightarrow> (\<And>x. preserves g (f x)) \<Longrightarrow> preserves g (case v of None \<Rightarrow> a | Some x \<Rightarrow> f x)"
  by (simp split: option.split)

lemma preserves_text [frames]: "(\<And>x. preserves g (f x)) \<Longrightarrow> (\<And>x. preserves g (h x)) \<Longrightarrow> preserves g (case v of Json x \<Rightarrow> f x | Raw x \<Rightarrow> h x)"
  by (simp split: text_val.split)

lemma preserves_foldl:
  assumes "\<And>x s. x \<in> set xs \<Longrightarrow> g (f s x) = g s"
  shows "g (foldl f s xs) = g s"
  using assms by (induction xs arbitrary: s) simp_all

section \<open>Reading and writing keys\<close>

locale frame =
  fixes rc :: "'s redis" and g :: "'s \<Rightarrow> 'x" and K :: "string set"
  assumes get_frame [frames]: "preserves g (r_get rc k)"
    and setex_frame [frames]: "k \<in> K \<Longrightarrow> 0 < ttl \<Longrightarrow> preserves g (r_setex rc k ttl t)"

context redis_up
begin

text \<open>The other keys of the server.\<close>

lemma key_frame: "frame rc (\<lambda>s. view s k) (- {k})"
proof (unfold_locales, goal_cases)
  case (1 k')
  show ?case unfolding preserves_def
    by (metis get_err get_law snd_conv sum.exhaust surj_pair)
next
  case (2 k' ttl t)
  show ?case unfolding preserves_def
  proof
    fix s
    obtain s' where "r_setex rc k' ttl t s = (Inr (), s')" "view s' = (view s)(k' \<mapsto> (VStr t, Some ttl))" by (rule setex_up [OF 2(2)])
    then show "view (snd (r_setex rc k' ttl t s)) k = view s k" using 2(1) by auto
  qed
qed

end

section \<open>Firestore beside Redis\<close>

definition pair_firestore :: "'e firestore \<Rightarrow> ('s \<times> 'e) firestore" where
  "pair_firestore fs = \<lparr>f_get = (\<lambda>c i. on_snd (f_get fs c i)), f_set = (\<lambda>c i d. on_snd (f_set fs c i d)), f_update = (\<lambda>c i u. on_snd (f_update fs c i u)),
     f_delete = (\<lambda>c i. on_snd (f_delete fs c i)), f_where = (\<lambda>c f v. on_snd (f_where fs c f v)), f_where_first = (\<lambda>c f v w. on_snd (f_where_first fs c f v w))\<rparr>"

lemma pair_firestore_simps [simp]:
  "f_get (pair_firestore fs) c i = on_snd (f_get fs c i)" "f_set (pair_firestore fs) c i d = on_snd (f_set fs c i d)"
  "f_update (pair_firestore fs) c i u = on_snd (f_update fs c i u)" "f_delete (pair_firestore fs) c i = on_snd (f_delete fs c i)"
  "f_where (pair_firestore fs) c f v = on_snd (f_where fs c f v)" "f_where_first (pair_firestore fs) c f v w = on_snd (f_where_first fs c f v w)"
  by (simp_all add: pair_firestore_def)

context firestore_up
begin

lemma pair_firestore_up: "firestore_up (pair_firestore fs) (\<lambda>p. docs (snd p))"
proof (intro firestore_up.intro firestore_server.intro firestore_up_axioms.intro, goal_cases)
  case (6 c f v w s ds s')
  then obtain e' where e: "f_where_first fs c f v w (snd s) = (Inr ds, e')" "s' = (fst s, e')" by (auto simp: on_snd_iff)
  show ?case using f_first_law [OF e(1) 6(2)] e(2) by simp
qed (auto simp: on_snd_iff intro: f_get_ok f_set_ok f_update_ok f_delete_ok f_where_ok f_first_ok dest: f_get_law f_set_law f_update_law f_delete_law f_where_law)

end

end
