(* ===== verification/Task_Reports.thy ===== *)
theory Task_Reports
  imports Billing_Cache Active_Jobs Page_State Hub_State State_Frame
begin

text \<open>
  \<open>RedisSubscriber._handle_task_manager_message\<close> of \<open>src/app/realtime/redis_subscriber.py\<close>: what happens when a worker reports on a job. The status is normalised,
  the page of the department and the history of expenses are updated, the queue of active jobs is told, and the browser receives what concerns the page it
  shows. \<open>sub\<close> holds the services of the handler; Redis and Firestore share the state \<open>'s\<close>. The two messages about the chart of accounts, which go to the
  accounting database, and the scoring of new expenses against bank transactions, which runs as a task of its own, are parameters or left out. The identifiers of a job, a
  department and a company are texts, as the annotations say; another value is treated like an exception. Broadcasts that are scheduled on the server loop run when the
  handler has finished. The clock is read once. Log output is left out.

  The dictionary of the message is changed in place: an item that is the message itself, or its field \<open>data\<close>, is written back to it.
\<close>

section \<open>Definitions\<close>

record 's sub =
  sb_redis :: "'s redis"
  sb_fs :: "'s firestore"
  sb_show :: "pyval \<Rightarrow> string"
  sb_float :: "string \<Rightarrow> rat option"
  sb_coa :: "string \<Rightarrow> pydict \<Rightarrow> 's \<Rightarrow> 's"
  sb_gl_sync :: "string \<Rightarrow> pydict \<Rightarrow> 's \<Rightarrow> 's"

subsection \<open>Reading a message\<close>

definition ACTIVE_JOB_TYPES :: "(string \<times> string) list" where
  "ACTIVE_JOB_TYPES = [(''router'', ''router''), (''routing'', ''router''), (''apbookeeper'', ''apbookeeper''), (''accounting'', ''apbookeeper''),
     (''banker'', ''banker''), (''bankbookeeper'', ''banker''), (''banking'', ''banker''), (''exbookeeper'', ''exbookeeper''), (''onboarding'', ''onboarding''), (''hr'', ''hr'')]"

definition extract_active_job_type :: "string \<Rightarrow> string option" where
  "extract_active_job_type department = (if department \<noteq> [] then map_of ACTIVE_JOB_TYPES (py_lower department) else None)"

definition DEPARTMENT_DOMAINS :: "(string \<times> string) list" where
  "DEPARTMENT_DOMAINS = [(''accounting'', ''invoices''), (''apbookeeper'', ''invoices''), (''banking'', ''bank''), (''banker'', ''bank''), (''bankbookeeper'', ''bank''),
     (''exbookeeper'', ''expenses''), (''routing'', ''routing''), (''router'', ''routing''), (''hr'', ''hr''), (''expenses'', ''expenses''), (''coa'', ''coa''),
     (''onboarding'', ''onboarding'')]"

definition extract_department_to_domain :: "string \<Rightarrow> string" where
  "extract_department_to_domain department = (case map_of DEPARTMENT_DOMAINS (py_lower department) of Some d \<Rightarrow> d | None \<Rightarrow> py_lower department)"

definition sanitize_value :: "string \<Rightarrow> pyval \<Rightarrow> pyval" where
  "sanitize_value now v = (case v of PStr t \<Rightarrow> if starts_with ''Sentinel:'' t then PStr now else v | _ \<Rightarrow> v)"

definition sanitize_message :: "string \<Rightarrow> pydict \<Rightarrow> pydict" where
  "sanitize_message now md =
     (let clean = map (\<lambda>p. (fst p, sanitize_value now (snd p)));
          md1 = clean md in
      case dget md1 ''data'' of PDict d \<Rightarrow> dset md1 ''data'' (PDict (clean d)) | _ \<Rightarrow> md1)"

definition normalize_report :: "string \<Rightarrow> pydict \<Rightarrow> pydict result" where
  "normalize_report department md =
     (let raw_status = dget md ''status'' in
      if \<not> truthy raw_status then Inr md
      else rbind (as_str raw_status) (\<lambda>raw.
        let function_name = (if department \<noteq> ''unknown'' then py_lower department else []);
            normalized_status = normalize_for_function (Some function_name) (Some raw) DEFAULT_STATUS in
        Inr (dset (dset md ''status'' (PStr normalized_status)) ''status_category'' (PStr (get_category normalized_status)))))"

subsection \<open>The item of the message\<close>

text \<open>The item is the field \<open>data\<close> of the message or, without it, the message itself (\<open>own\<close>).\<close>

definition put_item :: "bool \<Rightarrow> pydict \<Rightarrow> pydict \<Rightarrow> pydict" where
  "put_item own md it = (if own then it else dset md ''data'' (PDict it))"

text \<open>\<open>d.get(k1, {}) or d.get(k2, {}) or \<dots>\<close>.\<close>

primrec first_given :: "pydict \<Rightarrow> string list \<Rightarrow> pyval" where
  "first_given d [] = PDict []"
| "first_given d (k # ks) = py_or (dget_or d k (PDict [])) (first_given d ks)"

definition set_default :: "pydict \<Rightarrow> string \<Rightarrow> pyval \<Rightarrow> pydict" where
  "set_default d k v = (if map_of d k = None then dset d k v else d)"

definition copy_missing :: "string list \<Rightarrow> pydict \<Rightarrow> pydict \<Rightarrow> pydict" where
  "copy_missing ks sub it = foldl (\<lambda>it k. case map_of sub k of Some v \<Rightarrow> set_default it k v | None \<Rightarrow> it) it ks"

definition EXPENSE_FLAT_KEYS :: "string list" where
  "EXPENSE_FLAT_KEYS = [''supplier'', ''amount'', ''date'', ''currency'', ''category'', ''description'', ''payment_method'']"

definition AP_FLAT_KEYS :: "string list" where
  "AP_FLAT_KEYS = [''supplier_name'', ''invoice_ref'', ''invoice_description'', ''invoice_date'', ''due_date'', ''accounting_date'', ''amount_vat_excluded'',
     ''amount_vat_included'', ''amount_vat'', ''currency'', ''currency_rate'', ''accounting_lines'']"

definition BANK_FLAT_KEYS :: "string list" where
  "BANK_FLAT_KEYS = [''step_id'', ''step_label'', ''result_code'', ''reconciliation_details'']"

definition AP_VARIANTS :: "string list" where
  "AP_VARIANTS = [''APbookeeper'', ''Apbookeeper'', ''apbookeeper'']"

definition flatten_department :: "string \<Rightarrow> string \<Rightarrow> pydict \<Rightarrow> pydict" where
  "flatten_department domain job_id it =
     (let dept_data = dict_of (dget_or it ''department_data'' (PDict [])) in
      if domain = ''routing'' then
        (let sub = dict_of (first_given dept_data [''Router'', ''router'']) in
         if truthy (dget sub ''selected_service'') then dset it ''routed_to'' (dget sub ''selected_service'') else it)
      else if domain = ''expenses'' then
        (let sub = dict_of (first_given dept_data [''EXbookeeper'', ''exbookeeper'']) in
         if sub = [] then it else set_default (copy_missing EXPENSE_FLAT_KEYS sub it) ''expense_id'' (PStr job_id))
      else if domain = ''invoices'' then copy_missing AP_FLAT_KEYS (dict_of (first_given dept_data AP_VARIANTS)) it
      else if domain = ''bank'' \<or> domain = ''banking'' then copy_missing BANK_FLAT_KEYS (dict_of (first_given dept_data [''Bankbookeeper'', ''banker'', ''Banker''])) it
      else it)"

definition lift_value :: "string \<Rightarrow> pydict \<Rightarrow> string \<Rightarrow> pyval" where
  "lift_value domain it k =
     (if \<not> truthy (dget it k) \<and> domain = ''invoices''
      then (let dept_data = dict_of (dget_or it ''department_data'' (PDict [])) in
            case somes (map (\<lambda>variant. map_of (dict_of (dget dept_data variant)) k) AP_VARIANTS) of v # _ \<Rightarrow> v | [] \<Rightarrow> dget it k)
      else dget it k)"

definition lift_key :: "bool \<Rightarrow> string \<Rightarrow> pydict \<times> pydict \<Rightarrow> string \<Rightarrow> pydict \<times> pydict" where
  "lift_key own domain mi k =
     (let v = lift_value domain (snd mi) k; it = set_default (snd mi) k v in
      if truthy v then (set_default (put_item own (fst mi) it) k v, it) else mi)"

definition DOT_PREFIX :: string where
  "DOT_PREFIX = ''department_data.Bankbookeeper.''"

definition flatten_dots :: "string \<Rightarrow> pydict \<Rightarrow> pydict" where
  "flatten_dots domain it =
     (if domain = ''bank'' \<or> domain = ''banking''
      then foldl (\<lambda>it dk. let short_key = drop (length DOT_PREFIX) dk in if short_key \<noteq> [] then set_default it short_key (dget it dk) else it)
             it (filter (starts_with DOT_PREFIX) (map fst it))
      else it)"

text \<open>The message and its item, ready for the page.\<close>

definition prepare_report :: "string \<Rightarrow> string \<Rightarrow> pyval \<Rightarrow> pydict \<Rightarrow> (pydict \<times> pydict) result" where
  "prepare_report domain job_id raw_status md =
     rbind (as_dict (dget_or md ''data'' (PDict md))) (\<lambda>it.
       let own = (map_of md ''data'' = None);
           it1 = (if truthy raw_status then set_default it ''status'' (dget_or md ''status'' raw_status) else it);
           it2 = flatten_department domain job_id it1;
           mi = foldl (lift_key own domain) (put_item own md it2, it2) [''current_step'', ''current_step_technical''];
           it3 = flatten_dots domain (snd mi) in
       Inr (put_item own (fst mi) it3, it3))"

subsection \<open>The queue of active jobs\<close>

definition batch_of :: "pyval \<Rightarrow> string option result" where
  "batch_of v = (case v of PNone \<Rightarrow> Inr None | PStr t \<Rightarrow> Inr (Some t) | _ \<Rightarrow> Inl TypeError)"

definition tell_active_jobs :: "'s sub \<Rightarrow> string \<Rightarrow> pydict \<Rightarrow> string \<Rightarrow> string \<Rightarrow> pyval \<Rightarrow> string \<Rightarrow> 's \<Rightarrow> 's" where
  "tell_active_jobs sb job_type md job_id new_status batch now s =
     (case (as_str (dget_or md ''mandate_path'' (PStr [])), batch_of batch) of
        (Inr mandate_path, Inr batch_id) \<Rightarrow> snd (update_job_status_in_active (sb_fs sb) job_type mandate_path job_id new_status batch_id now s)
      | _ \<Rightarrow> s)"

text \<open>\<open>item_data.get("batch_id") or message_data.get("data", {}).get("batch_id")\<close>.\<close>

definition message_batch :: "pydict \<Rightarrow> pydict \<Rightarrow> pyval result" where
  "message_batch it md = (if truthy (dget it ''batch_id'') then Inr (dget it ''batch_id'')
                          else rbind (as_dict (dget_or md ''data'' (PDict []))) (\<lambda>d. Inr (dget d ''batch_id'')))"

definition report_active_jobs :: "'s sub \<Rightarrow> string \<Rightarrow> string \<Rightarrow> pyval \<Rightarrow> pydict \<Rightarrow> pydict \<Rightarrow> string \<Rightarrow> 's \<Rightarrow> 's" where
  "report_active_jobs sb department job_id raw_status md it now s =
     (case (extract_active_job_type department, raw_status, message_batch it md) of
        (Some job_type, PStr raw, Inr batch) \<Rightarrow> if raw = [] then s else tell_active_jobs sb job_type md job_id raw batch now s
      | _ \<Rightarrow> s)"

subsection \<open>Publication\<close>

text \<open>A publication on the node: its broadcasts are scheduled, to run when the handler has finished.\<close>

definition publish_on :: "(hub \<Rightarrow> 's \<Rightarrow> bool \<times> broadcasts \<times> 's) \<Rightarrow> broadcasts \<times> ('s, 'z) node_scheme \<Rightarrow> broadcasts \<times> ('s, 'z) node_scheme" where
  "publish_on p bn = (case p (n_hub (snd bn)) (n_srv (snd bn)) of (_, bs, s') \<Rightarrow> (fst bn @ bs, (snd bn)\<lparr>n_srv := s'\<rparr>))"

definition run_scheduled :: "'s redis \<Rightarrow> (conn \<Rightarrow> bool) \<Rightarrow> broadcasts \<times> ('s, 'z) node_scheme \<Rightarrow> ('s, 'z) node_scheme" where
  "run_scheduled rc send_ok bn = foldl (\<lambda>n b. snd (hub_broadcast rc send_ok (fst b) (snd b) n)) (snd bn) (fst bn)"

definition ONBOARDING_STATUS_MAP :: "(string \<times> string) list" where
  "ONBOARDING_STATUS_MAP = [(''in_queue'', ''queued''), (''processing'', ''running''), (''on_process'', ''running''), (''running'', ''running''), (''completed'', ''completed''),
     (''failed'', ''error''), (''stopped'', ''idle''), (''stopping'', ''stopping''), (''error'', ''error'')]"

definition onboarding_status :: "string \<Rightarrow> string" where
  "onboarding_status tm_status = (case map_of ONBOARDING_STATUS_MAP tm_status of Some m \<Rightarrow> m | None \<Rightarrow> tm_status)"

definition report_event :: "pydict \<Rightarrow> pydict" where
  "report_event md = [(''action'', PStr ''update''), (''data'', PDict md)]"

definition billing_event :: "pydict \<Rightarrow> string \<Rightarrow> string \<Rightarrow> pydict" where
  "billing_event item job_id domain = [(''action'', PStr ''update''), (''item'', PDict item), (''job_id'', PStr job_id), (''domain'', PStr domain)]"

definition publish_report ::
  "'s sub \<Rightarrow> (conn \<Rightarrow> bool) \<Rightarrow> string \<Rightarrow> string \<Rightarrow> string \<Rightarrow> string \<Rightarrow> pydict \<Rightarrow> pydict option \<Rightarrow> ('s, 'z) node_scheme \<Rightarrow> broadcasts \<times> ('s, 'z) node_scheme" where
  "publish_report sb send_ok uid company_id domain job_id md billing_item n0 =
     (case on_srv (get_user_context (sb_redis sb) (n_hub n0) uid) n0 of
        (context, n) \<Rightarrow>
          let here = (ctx_company_id context = Some (Raw company_id)) in
          if here \<and> current_domain context = Some domain
          then publish_on (\<lambda>h. publish_business_event (sb_redis sb) h uid company_id domain (domain @ ''.task_manager_update'') (report_event md) None) ([], n)
          else if here \<and> domain = ''onboarding'' \<and> current_domain context = Some ''chat''
          then (case lower_status md of
                  Inl _ \<Rightarrow> ([], n)
                | Inr tm_status \<Rightarrow>
                    ([], snd (hub_broadcast (sb_redis sb) send_ok uid [(''type'', PStr ''chat.onboarding_job_status''),
                       (''payload'', PDict [(''job_id'', PStr job_id), (''status'', PStr (onboarding_status tm_status))])] n)))
          else if here \<and> current_domain context = Some ''dashboard''
          then publish_on (\<lambda>h. publish_metrics_update (sb_redis sb) h uid company_id None)
                 (case billing_item of
                    Some (p # item) \<Rightarrow> publish_on (\<lambda>h. publish_dashboard_event (sb_redis sb) h uid company_id ''dashboard.billing_item_update''
                                                 (billing_event (p # item) job_id domain)) ([], n)
                  | _ \<Rightarrow> ([], n))
          else ([], n))"

text \<open>The event about an item that was added to the page of another department.\<close>

definition cross_event :: "string \<Rightarrow> string \<Rightarrow> string \<Rightarrow> pydict \<Rightarrow> pydict result" where
  "cross_event job_id department company_id flat_item =
     rbind (as_str (py_or (dget flat_item ''status'') (PStr ''to_process''))) (\<lambda>st.
       Inr (report_event (dupdate [(''type'', PStr ''task_manager_created''), (''job_id'', PStr job_id), (''department'', PStr department),
         (''collection_id'', PStr company_id), (''status'', PStr (py_lower st)), (''status_category'', PStr (get_category (py_lower st)))] flat_item)))"

definition publish_cross_item ::
  "'s sub \<Rightarrow> string \<Rightarrow> string \<Rightarrow> string \<Rightarrow> string \<Rightarrow> user_context \<Rightarrow> broadcasts \<times> ('s, 'z) node_scheme \<Rightarrow> string \<times> pydict \<Rightarrow> broadcasts \<times> ('s, 'z) node_scheme" where
  "publish_cross_item sb uid company_id department job_id context bn p =
     (if ctx_company_id context = Some (Raw company_id) \<and> current_domain context = Some (fst p)
      then (case cross_event job_id department company_id (snd p) of
              Inl _ \<Rightarrow> bn
            | Inr payload \<Rightarrow> publish_on (\<lambda>h. publish_business_event (sb_redis sb) h uid company_id (fst p) (fst p @ ''.task_manager_update'') payload None) bn)
      else bn)"

definition publish_cross ::
  "'s sub \<Rightarrow> string \<Rightarrow> string \<Rightarrow> string \<Rightarrow> string \<Rightarrow> (string \<times> pydict) list \<Rightarrow> broadcasts \<times> ('s, 'z) node_scheme \<Rightarrow> broadcasts \<times> ('s, 'z) node_scheme" where
  "publish_cross sb uid company_id department job_id added_items bn =
     (case on_srv (get_user_context (sb_redis sb) (n_hub (snd bn)) uid) (snd bn) of
        (context, n) \<Rightarrow> foldl (publish_cross_item sb uid company_id department job_id context) (fst bn, n) added_items)"

subsection \<open>Reports of the HR department\<close>

text \<open>The event for the browser, if there is one. The variable \<open>batch_id\<close> is not bound when its computation raised.\<close>

definition hr_event :: "string \<Rightarrow> pydict \<Rightarrow> pyval \<Rightarrow> pyval result \<Rightarrow> pydict option result" where
  "hr_event job_id md normalized batch =
     rbind (as_dict (first_given (dict_of (dget_or md ''department_data'' (PDict []))) [''HR'', ''hr''])) (\<lambda>hr_data.
       let period = (''period'', dget_or hr_data ''period'' (PStr []));
           fld = (\<lambda>k. (k, dget hr_data k));
           event = (\<lambda>name fields. rbind batch (\<lambda>batch_id.
             Inr (Some [(''type'', PStr name), (''payload'', PDict ([(''job_id'', PStr job_id), (''batch_id'', batch_id)] @ fields))]))) in
       if normalized = PStr ''on_process'' then
         event ''hr.job_progress'' [(''status'', PStr ''processing''), fld ''employee_id'', fld ''employee_name'', period]
       else if normalized = PStr ''completed'' then
         event ''hr.payroll_calculated'' ([(''success'', PBool True)] @ map fld [''employee_id'', ''employee_name'', ''gross_salary'', ''net_salary'', ''total_deductions'',
           ''employer_contributions'', ''items_count''] @ [period] @ map fld [''payroll_result_id'', ''currency''])
       else if normalized = PStr ''error'' \<or> normalized = PStr ''stopped'' then
         event ''hr.error'' [(''error'', py_or (py_or (dget md ''message'') (dget md ''error'')) (PStr (''Job '' @ job_id @ '' failed''))),
           fld ''employee_id'', fld ''employee_name'', period]
       else if normalized = PStr ''in_queue'' then event ''hr.job_progress'' [(''status'', PStr ''queued''), period]
       else Inr None)"

definition handle_hr_task_manager ::
  "'s sub \<Rightarrow> (conn \<Rightarrow> bool) \<Rightarrow> string \<Rightarrow> string \<Rightarrow> string \<Rightarrow> pyval \<Rightarrow> pydict \<Rightarrow> string \<Rightarrow> ('s, 'z) node_scheme \<Rightarrow> ('s, 'z) node_scheme" where
  "handle_hr_task_manager sb send_ok uid company_id job_id raw_status md now n =
     (let normalized = dget_or md ''status'' (py_or raw_status (PStr []));
          s1 = (case (message_batch md md, py_or raw_status (PStr ''unknown'')) of
                  (Inr batch, PStr raw) \<Rightarrow> tell_active_jobs sb ''hr'' md job_id raw batch now (n_srv n)
                | _ \<Rightarrow> n_srv n);
          s2 = (if normalized \<in> {PStr ''completed'', PStr ''error'', PStr ''stopped''}
                then snd (invalidate_page_state (sb_redis sb) uid company_id (Some ''hr'') s1) else s1);
          n2 = n\<lparr>n_srv := s2\<rparr> in
      if \<not> is_user_connected (n_hub n2) uid then n2
      else case on_srv (get_user_context (sb_redis sb) (n_hub n2) uid) n2 of
        (context, n3) \<Rightarrow>
          if ctx_company_id context \<noteq> Some (Raw company_id) then n3
          else case hr_event job_id md normalized (message_batch md md) of
                 Inr (Some message) \<Rightarrow> snd (hub_broadcast (sb_redis sb) send_ok uid message n3)
               | _ \<Rightarrow> n3)"

subsection \<open>The handler\<close>

definition cross_domain_step :: "'s sub \<Rightarrow> string \<Rightarrow> string \<Rightarrow> string \<Rightarrow> string \<Rightarrow> pyval \<Rightarrow> 's \<Rightarrow> (string \<times> pydict) list \<times> 's" where
  "cross_domain_step sb uid company_id domain job_id raw_status s =
     (case raw_status of
        PStr raw \<Rightarrow>
          if domain = ''routing'' \<and> py_lower raw \<in> {''completed'', ''routed''}
          then cross_domain_add_after_routing (sb_show sb) (sb_redis sb) (sb_fs sb) uid company_id job_id s else ([], s)
      | _ \<Rightarrow> ([], s))"

text \<open>The steps after the message has been read, for every department but HR.\<close>

definition apply_report ::
  "'s sub \<Rightarrow> (conn \<Rightarrow> bool) \<Rightarrow> string \<Rightarrow> string \<Rightarrow> string \<Rightarrow> string \<Rightarrow> string \<Rightarrow> pyval \<Rightarrow> pydict \<times> pydict \<Rightarrow> string \<Rightarrow> ('s, 'z) node_scheme \<Rightarrow> ('s, 'z) node_scheme" where
  "apply_report sb send_ok uid company_id domain department job_id raw_status mi now n =
     (let is_connected = is_user_connected (n_hub n) uid;
          s1 = update_business_cache_item (sb_show sb) (sb_redis sb) uid company_id domain job_id (snd mi) (n_srv n) in
      case cross_domain_step sb uid company_id domain job_id raw_status s1 of
        (added_items, s2) \<Rightarrow>
          (case update_billing_history_cache (sb_float sb) (sb_redis sb) uid company_id job_id (fst mi) (report_active_jobs sb department job_id raw_status (fst mi) (snd mi) now s2) of
             (billing_item, s4) \<Rightarrow>
               let bn = (if is_connected then publish_report sb send_ok uid company_id domain job_id (fst mi) billing_item (n\<lparr>n_srv := s4\<rparr>) else ([], n\<lparr>n_srv := s4\<rparr>));
                   bn' = (if added_items \<noteq> [] \<and> is_connected then publish_cross sb uid company_id department job_id added_items bn else bn) in
               run_scheduled (sb_redis sb) send_ok bn'))"

definition handle_report ::
  "'s sub \<Rightarrow> (conn \<Rightarrow> bool) \<Rightarrow> string \<Rightarrow> string \<Rightarrow> string \<Rightarrow> string \<Rightarrow> pydict \<Rightarrow> string \<Rightarrow> ('s, 'z) node_scheme \<Rightarrow> ('s, 'z) node_scheme" where
  "handle_report sb send_ok uid company_id department job_id md now n =
     (let domain = extract_department_to_domain department; raw_status = dget md ''status'' in
      case normalize_report department md of
        Inl _ \<Rightarrow> n
      | Inr md1 \<Rightarrow>
          if domain = ''hr'' then handle_hr_task_manager sb send_ok uid company_id job_id raw_status md1 now n
          else (case prepare_report domain job_id raw_status md1 of
                  Inl _ \<Rightarrow> n
                | Inr mi \<Rightarrow> apply_report sb send_ok uid company_id domain department job_id raw_status mi now n))"

definition handle_task_manager_message ::
  "'s sub \<Rightarrow> (conn \<Rightarrow> bool) \<Rightarrow> string \<Rightarrow> pydict \<Rightarrow> string \<Rightarrow> ('s, 'z) node_scheme \<Rightarrow> ('s, 'z) node_scheme" where
  "handle_task_manager_message sb send_ok uid message_data now n =
     (let task_type = dget_or message_data ''type'' (PStr ''unknown'');
          md = sanitize_message now message_data;
          company = py_or (dget md ''collection_id'') (dget md ''company_id'') in
      case (as_str (dget_or message_data ''job_id'' (PStr ''unknown'')), as_str (dget_or message_data ''department'' (PStr ''unknown'')), as_str company) of
        (Inr job_id, Inr department, Inr company_id) \<Rightarrow>
          (let domain = extract_department_to_domain department in
           if company_id = [] \<or> domain = [] then n
           else if domain = ''coa'' \<and> task_type = PStr ''coa_harmonized'' then n\<lparr>n_srv := sb_coa sb uid md (n_srv n)\<rparr>
           else if domain = ''coa'' \<and> task_type = PStr ''gl_sync_requested'' then n\<lparr>n_srv := sb_gl_sync sb uid md (n_srv n)\<rparr>
           else handle_report sb send_ok uid company_id department job_id md now n)
      | _ \<Rightarrow> n)"

section \<open>Frames\<close>

definition business_keys :: "string \<Rightarrow> string \<Rightarrow> string set" where
  "business_keys uid company_id = range (\<lambda>d. build_business_key uid company_id d None)"

lemma business_key_in: "build_business_key uid cid d None \<in> business_keys uid cid"
  by (simp add: business_keys_def)

lemma business_key_inj [simp]: "build_business_key uid cid d None = build_business_key uid cid d' None \<longleftrightarrow> d = d'"
  by (simp add: build_business_key_def)

context frame
begin

lemma business_data_frame [frames]: "preserves g (get_business_data rc uid cid d)"
  unfolding get_business_data_def by (intro preserves_sbind get_frame) (auto intro: frames split: option.split text_val.split pyval.split sum.split)

lemma metrics_frame: "preserves g (get_all_metrics rc uid cid)"
  unfolding get_all_metrics_def get_routing_metrics_def get_ap_metrics_def get_bank_metrics_def get_expenses_metrics_def by (intro frames)

lemma update_cache_frame: "key \<in> K \<Longrightarrow> 0 < ttl \<Longrightarrow> preserves g (update_cache rc key data ttl)"
  unfolding update_cache_def by (intro frames)

lemma user_context_frame: "preserves g (get_user_context rc h uid)"
  unfolding preserves_def get_user_context_def
  using preservesD [OF get_frame] by (auto simp: Let_def split: prod.split) (metis snd_conv)

lemma publish_business_frame:
  assumes "build_business_key uid cid d None \<in> K"
  shows "g (snd (snd (publish_business_event rc h uid cid d et payload ttl s))) = g s"
proof -
  obtain c s1 where 1: "get_user_context rc h uid s = (c, s1)" by force
  note g1 = preserves_eq [OF user_context_frame 1]
  show ?thesis
  proof (cases "get_cache_key BUSINESS uid (Some cid) (Some d) None")
    case (Inl e)
    then show ?thesis using 1 g1 by (simp add: publish_business_event_def publish_contextual_event_def Let_def)
  next
    case (Inr key)
    then have "key \<in> K" using assms by (auto split: if_splits)
    note u = preservesD [OF update_cache_frame [OF this ttl_pos(1)]]
    show ?thesis using 1 g1 Inr u by (simp add: publish_business_event_def publish_contextual_event_def Let_def)
  qed
qed

lemma publish_metrics_frame:
  assumes "build_business_key uid cid (domain_value DASHBOARD) None \<in> K"
  shows "g (snd (snd (publish_metrics_update rc h uid cid None s))) = g s"
proof -
  obtain r s1 where 1: "get_all_metrics rc uid cid s = (r, s1)" by force
  show ?thesis using 1 preserves_eq [OF metrics_frame 1] publish_business_frame [OF assms]
    by (cases r) (simp_all add: publish_metrics_update_def publish_dashboard_event_def)
qed

lemma business_cache_frame:
  assumes "build_business_key uid cid d None \<in> K"
  shows "g (update_business_cache_item show rc uid cid d job item s) = g s"
  unfolding update_business_cache_item_def Let_def
  by (rule preservesD, intro frames assms get_ttl_for_domain_pos)

lemma billing_frame:
  assumes "build_business_key uid cid ''billing_history'' None \<in> K"
  shows "preserves g (update_billing_history_cache flt rc uid cid job md)"
  unfolding update_billing_history_cache_def Let_def
  by (intro frames assms) (simp add: BILLING_TTL_def)

end

text \<open>Broadcasts whose message names no thread: nothing is buffered for them.\<close>

definition plain_broadcasts :: "broadcasts \<Rightarrow> bool" where
  "plain_broadcasts bs = list_all (\<lambda>b. thread_key_of (snd b) = None) bs"

lemma plain_append [simp]: "plain_broadcasts (xs @ ys) \<longleftrightarrow> plain_broadcasts xs \<and> plain_broadcasts ys" "plain_broadcasts []"
  by (simp_all add: plain_broadcasts_def)

lemma thread_key_event [simp]: "thread_key_of [(''type'', t), (''payload'', p)] = None"
  by (simp add: thread_key_of_def dget_or_def)

lemma publish_contextual_plain: "plain_broadcasts (fst (snd (publish_contextual_event rc h level uid et payload tc td sk ttl a b s)))"
  by (auto simp: publish_contextual_event_def Let_def plain_broadcasts_def broadcast_threadsafe_def split: prod.split)

lemma publish_plain:
  "plain_broadcasts (fst (snd (publish_business_event rc h uid cid d et payload ttl s)))"
  "plain_broadcasts (fst (snd (publish_metrics_update rc h uid cid ds s)))"
  "plain_broadcasts (fst (snd (publish_dashboard_event rc h uid cid et payload s)))"
  by (auto simp: publish_business_event_def publish_dashboard_event_def publish_metrics_update_def publish_contextual_plain split: prod.split sum.split)

lemma publish_on_plain:
  assumes "\<And>h s. plain_broadcasts (fst (snd (p h s)))" and "plain_broadcasts (fst bn)"
  shows "plain_broadcasts (fst (publish_on p bn))"
  using assms(1) [of "n_hub (snd bn)" "n_srv (snd bn)"] assms(2) by (auto simp: publish_on_def split: prod.split)

lemma publish_on_srv:
  assumes "\<And>h s. g (snd (snd (p h s))) = g s"
  shows "g (n_srv (snd (publish_on p bn))) = g (n_srv (snd bn))"
  using assms [of "n_hub (snd bn)" "n_srv (snd bn)"] by (auto simp: publish_on_def split: prod.split)

lemma hub_broadcast_event: "n_srv (snd (hub_broadcast rc send_ok uid [(''type'', t), (''payload'', p)] n)) = n_srv n"
  using hub_broadcast_srv [of "[(''type'', t), (''payload'', p)]"] thread_key_normalize by (metis thread_key_event prod.collapse)

lemma run_scheduled_srv: "plain_broadcasts (fst bn) \<Longrightarrow> n_srv (run_scheduled rc send_ok bn) = n_srv (snd bn)"
proof (cases bn)
  case (Pair bs n)
  assume "plain_broadcasts (fst bn)"
  then have "plain_broadcasts bs" using Pair by simp
  then have "n_srv (foldl (\<lambda>n b. snd (hub_broadcast rc send_ok (fst b) (snd b) n)) n bs) = n_srv n"
  proof (induction bs arbitrary: n)
    case (Cons b bs)
    then have "n_srv (snd (hub_broadcast rc send_ok (fst b) (snd b) n)) = n_srv n"
      using hub_broadcast_srv [of "snd b" rc send_ok "fst b" n] thread_key_normalize by (simp add: plain_broadcasts_def) (metis prod.collapse)
    then show ?case using Cons by (simp add: plain_broadcasts_def)
  qed simp
  then show ?thesis using Pair by (simp add: run_scheduled_def)
qed

lemma publish_report_plain: "plain_broadcasts (fst (publish_report sb send_ok uid cid d job md bi n))"
  unfolding publish_report_def
  by (auto simp: Let_def publish_plain intro!: publish_on_plain split: prod.split sum.split option.split list.split)

lemma publish_cross_item_plain: "plain_broadcasts (fst bn) \<Longrightarrow> plain_broadcasts (fst (publish_cross_item sb uid cid dep job c bn p))"
  by (auto simp: publish_cross_item_def publish_plain intro!: publish_on_plain split: sum.split)

lemma publish_cross_items_plain:
  "plain_broadcasts (fst bn) \<Longrightarrow> plain_broadcasts (fst (foldl (publish_cross_item sb uid cid dep job c) bn items))"
  by (induction items arbitrary: bn) (simp_all add: publish_cross_item_plain)

lemma publish_cross_plain: "plain_broadcasts (fst bn) \<Longrightarrow> plain_broadcasts (fst (publish_cross sb uid cid dep job items bn))"
  by (simp add: publish_cross_def publish_cross_items_plain split: prod.split)

context frame
begin

lemma publish_report_frame:
  assumes "sb_redis sb = rc" and "business_keys uid cid \<subseteq> K"
  shows "g (n_srv (snd (publish_report sb send_ok uid cid d job md bi n))) = g (n_srv n)"
proof -
  have k: "build_business_key uid cid d' None \<in> K" for d' using assms(2) business_key_in by blast
  note p = publish_on_srv [where g = g, OF publish_business_frame [OF k]] publish_on_srv [where g = g, OF publish_metrics_frame [OF k]]
  obtain c s1 where 1: "get_user_context rc (n_hub n) uid (n_srv n) = (c, s1)" by force
  note g1 = preserves_eq [OF user_context_frame 1]
  show ?thesis unfolding publish_report_def assms(1)
    using g1 by (auto simp: 1 on_srv_def Let_def p publish_dashboard_event_def hub_broadcast_event split: sum.split option.split list.split)
qed

lemma publish_cross_items_frame:
  assumes "sb_redis sb = rc" and "business_keys uid cid \<subseteq> K"
  shows "g (n_srv (snd (foldl (publish_cross_item sb uid cid dep job c) bn items))) = g (n_srv (snd bn))"
proof (induction items arbitrary: bn)
  case (Cons p items)
  have k: "build_business_key uid cid d' None \<in> K" for d' using assms(2) business_key_in by blast
  have "g (n_srv (snd (publish_cross_item sb uid cid dep job c bn p))) = g (n_srv (snd bn))"
    by (auto simp: publish_cross_item_def assms(1) intro!: publish_on_srv [where g = g] publish_business_frame k split: sum.split)
  then show ?case using Cons by simp
qed simp

lemma publish_cross_frame:
  assumes "sb_redis sb = rc" and "business_keys uid cid \<subseteq> K"
  shows "g (n_srv (snd (publish_cross sb uid cid dep job items bn))) = g (n_srv (snd bn))"
proof -
  obtain c s1 where 1: "get_user_context rc (n_hub (snd bn)) uid (n_srv (snd bn)) = (c, s1)" by force
  show ?thesis using preserves_eq [OF user_context_frame 1] 1 by (simp add: publish_cross_def assms(1) on_srv_def publish_cross_items_frame [OF assms])
qed

end

lemma get_document_frame:
  assumes "\<And>c i. preserves g (f_get fs c i)"
  shows "preserves g (get_document fs p)"
proof -
  have "preserves g (stry (sbind (f_get fs c i) (\<lambda>doc. sret (map_option (\<lambda>data. dset data ''id'' (PStr i)) doc))) (\<lambda>_. None))" for c i
    by (intro frames assms)
  then show ?thesis by (simp add: preserves_def get_document_def Let_def)
qed

section \<open>Redis and Firestore side by side\<close>

text \<open>The services of the handler, up, and independent of each other.\<close>

locale reporting = redis_up "sb_redis sb" view tick + fs: firestore_up "sb_fs sb" docs
  for sb :: "'s sub" and view :: "'s \<Rightarrow> rview" and tick :: "nat \<Rightarrow> 's \<Rightarrow> 's" and docs :: "'s \<Rightarrow> fview" +
  assumes f_get_view [frames]: "preserves view (f_get (sb_fs sb) c i)"
    and f_set_view [frames]: "preserves view (f_set (sb_fs sb) c i d)"
    and f_update_view [frames]: "preserves view (f_update (sb_fs sb) c i u)"
    and f_delete_view [frames]: "preserves view (f_delete (sb_fs sb) c i)"
    and f_where_view [frames]: "preserves view (f_where (sb_fs sb) c f v)"
    and f_first_view [frames]: "preserves view (f_where_first (sb_fs sb) c f v w)"
    and get_docs: "preserves docs (r_get (sb_redis sb) k)"
    and setex_docs: "preserves docs (r_setex (sb_redis sb) k ttl t)"
begin

lemma docs_frame: "frame (sb_redis sb) docs UNIV"
  by unfold_locales (simp_all add: get_docs setex_docs)

lemma find_active_view [frames]: "preserves view (find_active_doc (sb_fs sb) jt m j bid)"
  unfolding find_active_doc_def Let_def by (intro frames)

lemma promote_view [frames]: "preserves view (promote_next_pending (sb_fs sb) jt m now)"
  unfolding promote_next_pending_def by (intro frames) (auto simp: Let_def intro!: frames split: list.split prod.split)

lemma update_job_status_view: "preserves view (update_job_status_in_active (sb_fs sb) jt m j st bid now)"
  unfolding update_job_status_in_active_def
  by (intro preserves_stry preserves_sbind find_active_view) (auto simp: Let_def intro!: frames split: option.split prod.split)

lemma tell_view: "view (tell_active_jobs sb jt md job st b now s) = view s"
  by (auto simp: tell_active_jobs_def preservesD [OF update_job_status_view] split: sum.split)

lemma report_active_view: "view (report_active_jobs sb dep job raw md it now s) = view s"
  by (simp add: report_active_jobs_def tell_view split: option.split pyval.split sum.split)

lemma document_view: "preserves view (get_document (sb_fs sb) p)"
  by (intro get_document_frame frames)

lemma document_docs: "preserves docs (get_document (sb_fs sb) p)"
proof (rule get_document_frame)
  show "preserves docs (f_get (sb_fs sb) c i)" for c i unfolding preserves_def using fs.f_get_up by (metis snd_conv)
qed

lemma cross_docs: "docs (snd (cross_domain_step sb uid cid d job raw s)) = docs s"
proof -
  note item = frame.business_cache_frame [OF docs_frame UNIV_I]
  have "docs (snd (cross_domain_add_after_routing (sb_show sb) (sb_redis sb) (sb_fs sb) uid cid job s)) = docs s"
    using preservesD [OF document_docs, of "''clients/'' @ uid @ ''/task_manager/'' @ job" s]
    by (auto simp: cross_domain_add_after_routing_def Let_def item preserves_foldl [where g = docs] split: prod.split)
  then show ?thesis by (simp add: cross_domain_step_def split: pyval.split)
qed

text \<open>The whole report is one step of the abstract queue of active jobs.\<close>

lemma apply_report_queue:
  assumes "queue_rel (docs (n_srv n)) jt m q" and "extract_active_job_type dep = Some jt" and "raw \<noteq> []"
    and "dget_or md ''mandate_path'' (PStr []) = PStr m" and "rbind (message_batch it md) batch_of = Inr bid"
  shows "queue_rel (docs (n_srv (apply_report sb send_ok uid cid d dep job (PStr raw) (md, it) now n))) jt m (q_report job raw bid q)"
proof -
  note df = docs_frame
  let ?s1 = "update_business_cache_item (sb_show sb) (sb_redis sb) uid cid d job it (n_srv n)"
  obtain items s2 where 2: "cross_domain_step sb uid cid d job (PStr raw) ?s1 = (items, s2)" by force
  have d2: "docs s2 = docs (n_srv n)"
    using cross_docs [of uid cid d job "PStr raw" ?s1] 2 frame.business_cache_frame [OF df UNIV_I] by simp
  let ?s3 = "report_active_jobs sb dep job (PStr raw) md it now s2"
  have s3: "?s3 = snd (update_job_status_in_active (sb_fs sb) jt m job raw bid now s2)"
    using assms(2-5) by (auto simp: report_active_jobs_def tell_active_jobs_def returns)
  have q3: "queue_rel (docs ?s3) jt m (q_report job raw bid q)"
    using fs.report_up [of s2 jt m q job raw bid now] assms(1) unfolding s3 d2 by blast
  obtain bi s4 where 4: "update_billing_history_cache (sb_float sb) (sb_redis sb) uid cid job md ?s3 = (bi, s4)" by force
  have d4: "docs s4 = docs ?s3" by (rule preserves_eq [OF frame.billing_frame [OF df UNIV_I] 4])
  let ?n = "n\<lparr>n_srv := s4\<rparr>"
  define bn where "bn = (if is_user_connected (n_hub n) uid then publish_report sb send_ok uid cid d job md bi ?n else ([], ?n))"
  define bn' where "bn' = (if items \<noteq> [] \<and> is_user_connected (n_hub n) uid then publish_cross sb uid cid dep job items bn else bn)"
  have p: "plain_broadcasts (fst bn')" by (simp add: bn_def bn'_def publish_report_plain publish_cross_plain)
  have "docs (n_srv (snd bn')) = docs s4"
    by (simp add: bn_def bn'_def frame.publish_report_frame [OF df refl subset_UNIV] frame.publish_cross_frame [OF df refl subset_UNIV])
  moreover have "apply_report sb send_ok uid cid d dep job (PStr raw) (md, it) now n = run_scheduled (sb_redis sb) send_ok bn'"
    using 2 4 by (simp add: apply_report_def Let_def bn_def bn'_def)
  ultimately show ?thesis using q3 d4 run_scheduled_srv [OF p] by simp
qed

end

section \<open>The prepared message\<close>

definition prepared :: "string \<Rightarrow> string \<Rightarrow> pydict \<Rightarrow> (pydict \<times> pydict) result" where
  "prepared department job_id md =
     rbind (normalize_report department md) (prepare_report (extract_department_to_domain department) job_id (dget md ''status''))"

text \<open>A report of a worker, for a page: its identifiers are texts and no value is the text of a Firestore sentinel.\<close>

definition no_sentinel :: "pydict \<Rightarrow> bool" where
  "no_sentinel d = list_all (\<lambda>p. case snd p of PStr t \<Rightarrow> \<not> starts_with ''Sentinel:'' t | _ \<Rightarrow> True) d"

definition report_message :: "pydict \<Rightarrow> string \<Rightarrow> string \<Rightarrow> string \<Rightarrow> string \<Rightarrow> bool" where
  "report_message md job dep cid raw \<longleftrightarrow>
     dget_or md ''job_id'' (PStr ''unknown'') = PStr job \<and> dget_or md ''department'' (PStr ''unknown'') = PStr dep \<and> dget md ''collection_id'' = PStr cid \<and> cid \<noteq> [] \<and>
     dget md ''status'' = PStr raw \<and> raw \<noteq> [] \<and> extract_department_to_domain dep \<notin> {[], ''hr'', ''coa''} \<and> no_sentinel md \<and> no_sentinel (dict_of (dget md ''data''))"

lemma clean_id: "no_sentinel d \<Longrightarrow> map (\<lambda>p. (fst p, sanitize_value now (snd p))) d = d"
  by (induction d) (auto simp: no_sentinel_def sanitize_value_def split: pyval.splits)

lemma sanitize_id:
  assumes "no_sentinel md" and "no_sentinel (dict_of (dget md ''data''))"
  shows "sanitize_message now md = md"
proof (cases "dget md ''data''")
  case (PDict d)
  then have "map_of md ''data'' = Some (PDict d)" by (simp add: dget_def split: option.splits)
  then show ?thesis using assms PDict by (simp add: sanitize_message_def clean_id dict_of_def update_triv)
qed (simp_all add: sanitize_message_def clean_id [OF assms(1)])

lemma handle_task_manager_eq:
  assumes "report_message md job dep cid raw"
  shows "handle_task_manager_message sb send_ok uid md now n =
    (case prepared dep job md of Inl _ \<Rightarrow> n
     | Inr mi \<Rightarrow> apply_report sb send_ok uid cid (extract_department_to_domain dep) dep job (PStr raw) mi now n)"
  using assms sanitize_id [of md now]
  by (auto simp: report_message_def handle_task_manager_message_def handle_report_def prepared_def Let_def py_or_def split: sum.split)

subsection \<open>The keys a preparation keeps\<close>

definition extends :: "pydict \<Rightarrow> pydict \<Rightarrow> bool" where
  "extends d e \<longleftrightarrow> (\<forall>k v. k \<noteq> ''routed_to'' \<longrightarrow> k \<noteq> ''data'' \<longrightarrow> map_of d k = Some v \<longrightarrow> map_of e k = Some v) \<and> (distinct (map fst d) \<longrightarrow> distinct (map fst e))"

lemma extends_refl [simp]: "extends d d"
  by (simp add: extends_def)

lemma extendsD: "extends d e \<Longrightarrow> map_of d k = Some v \<Longrightarrow> k \<noteq> ''routed_to'' \<Longrightarrow> k \<noteq> ''data'' \<Longrightarrow> map_of e k = Some v"
  by (simp add: extends_def)

lemma extends_trans: "extends d e \<Longrightarrow> extends e f \<Longrightarrow> extends d f"
  by (simp add: extends_def)

lemma extends_dset: "k = ''routed_to'' \<or> k = ''data'' \<or> map_of d k = None \<Longrightarrow> extends d (dset d k v)"
  by (auto simp: extends_def map_of_dset distinct_update)

lemma extends_set_default: "extends d e \<Longrightarrow> extends d (set_default e k v)"
  using extends_trans [OF _ extends_dset [of k e v], of d] by (simp add: set_default_def)

lemma extends_foldl: "(\<And>e x. extends e (f e x)) \<Longrightarrow> extends d (foldl f d xs)"
  by (induction xs arbitrary: d) (auto intro: extends_trans)

lemma extends_copy_missing: "extends d (copy_missing ks sub d)"
  unfolding copy_missing_def by (rule extends_foldl) (simp add: extends_set_default split: option.split)

lemma extends_flatten: "extends d (flatten_department dm job d)"
  by (simp add: flatten_department_def Let_def extends_copy_missing extends_dset extends_set_default)

lemma extends_dots: "extends d (flatten_dots dm d)"
  unfolding flatten_dots_def by (auto simp: Let_def intro!: extends_foldl extends_set_default)

lemma set_default_idem [simp]: "set_default (set_default d k v) k v = set_default d k v"
  by (simp add: set_default_def)

lemma lift_key_extends: "extends (snd mi) (snd (lift_key own dm mi k))"
  by (simp add: lift_key_def Let_def extends_set_default)

lemma lift_key_nested: "extends (fst mi) (fst (lift_key False dm mi k))"
  by (simp add: lift_key_def Let_def put_item_def extends_set_default extends_dset)

lemma lift_keys_extends: "extends (snd mi) (snd (foldl (lift_key own dm) mi ks))" "extends (fst mi) (fst (foldl (lift_key False dm) mi ks))"
proof -
  show "extends (snd mi) (snd (foldl (lift_key own dm) mi ks))"
    by (induction ks arbitrary: mi) (simp, simp only: foldl_Cons, rule extends_trans [OF lift_key_extends])
  show "extends (fst mi) (fst (foldl (lift_key False dm) mi ks))"
    by (induction ks arbitrary: mi) (simp, simp only: foldl_Cons, rule extends_trans [OF lift_key_nested])
qed

definition status_of :: "string \<Rightarrow> string \<Rightarrow> string" where
  "status_of dep raw = normalize_for_function (Some (if dep \<noteq> ''unknown'' then py_lower dep else [])) (Some raw) DEFAULT_STATUS"

definition item_in :: "pydict \<Rightarrow> pydict" where
  "item_in md = (case map_of md ''data'' of Some v \<Rightarrow> dict_of v | None \<Rightarrow> md)"

definition item_status :: "pydict \<Rightarrow> string \<Rightarrow> pyval" where
  "item_status md st = (if map_of md ''data'' = None then PStr st else dget_or (item_in md) ''status'' (PStr st))"

text \<open>The item has the normalised status of the message, unless it came with a status of its own; whatever else it had it keeps.\<close>

lemma prepared_spec:
  assumes "prepared dep job md = Inr (md2, it)" and "dget md ''status'' = PStr raw" and "raw \<noteq> []"
  shows "map_of it ''status'' = Some (item_status md (status_of dep raw))" and "map_of md2 ''status'' = Some (PStr (status_of dep raw))"
    and "map_of md2 ''status_category'' = Some (PStr (get_category (status_of dep raw)))"
    and "k \<notin> {''status'', ''status_category'', ''routed_to'', ''data''} \<Longrightarrow> map_of (item_in md) k = Some v \<Longrightarrow> map_of it k = Some v"
    and "distinct (map fst (item_in md)) \<Longrightarrow> distinct (map fst it)"
proof -
  let ?st = "status_of dep raw" and ?dm = "extract_department_to_domain dep"
  define md1 where "md1 = dset (dset md ''status'' (PStr ?st)) ''status_category'' (PStr (get_category ?st))"
  have p: "prepare_report ?dm job (PStr raw) md1 = Inr (md2, it)"
    using assms(1-3) by (simp add: prepared_def normalize_report_def status_of_def md1_def Let_def)
  have m1: "map_of md1 ''status'' = Some (PStr ?st)" "map_of md1 ''status_category'' = Some (PStr (get_category ?st))"
    "map_of md1 ''data'' = map_of md ''data''" by (simp_all add: md1_def map_of_dset)
  define own where "own = (map_of md ''data'' = None)"
  obtain it0 where it0: "as_dict (dget_or md1 ''data'' (PDict md1)) = Inr it0"
    using p by (auto simp: prepare_report_def returns)
  define it1 where "it1 = set_default it0 ''status'' (PStr ?st)"
  define it2 where "it2 = flatten_department ?dm job it1"
  define mi where "mi = foldl (lift_key own ?dm) (put_item own md1 it2, it2) [''current_step'', ''current_step_technical'']"
  have res: "it = flatten_dots ?dm (snd mi)" "md2 = put_item own (fst mi) it"
    using p it0 m1(1,3) assms(3) by (auto simp: prepare_report_def own_def it1_def it2_def mi_def Let_def dget_or_def)
  have "extends (snd (put_item own md1 it2, it2)) (snd mi)" unfolding mi_def by (rule lift_keys_extends)
  then have ext: "extends it1 it" using res(1) extends_trans extends_dots extends_flatten it2_def by (metis snd_conv)
  have item: "it0 = (if own then md1 else item_in md)" using it0 m1(3) by (auto simp: own_def dget_or_def item_in_def returns dict_of_def)
  have "map_of it1 ''status'' = Some (item_status md ?st)"
    using m1(1) by (auto simp: it1_def item item_status_def set_default_def own_def dget_or_def map_of_dset)
  then show s: "map_of it ''status'' = Some (item_status md ?st)" using extendsD [OF ext] by simp
  have md: "map_of md2 k = Some v" if "map_of md1 k = Some v" "k \<noteq> ''routed_to''" "k \<noteq> ''data''" for k v
  proof (cases own)
    case True
    then have "md2 = it" "it0 = md1" using res(2) it0 m1(3) by (simp_all add: put_item_def own_def dget_or_def)
    moreover have "it1 = md1" using calculation(2) m1(1) by (simp add: it1_def set_default_def)
    ultimately show ?thesis using extendsD [OF ext, of k v] that by simp
  next
    case False
    then have e: "extends (dset md1 ''data'' (PDict it2)) (fst mi)"
      using lift_keys_extends(2) [of "(dset md1 ''data'' (PDict it2), it2)" ?dm "[''current_step'', ''current_step_technical'']"]
      by (simp add: mi_def put_item_def)
    have "map_of (fst mi) k = Some v" by (rule extendsD [OF e]) (use that in \<open>simp_all add: map_of_dset\<close>)
    then show ?thesis using False res(2) that(3) by (simp add: put_item_def map_of_dset)
  qed
  show "map_of md2 ''status'' = Some (PStr ?st)" "map_of md2 ''status_category'' = Some (PStr (get_category ?st))" using md m1 by simp_all
  show "map_of it k = Some v" if "k \<notin> {''status'', ''status_category'', ''routed_to'', ''data''}" "map_of (item_in md) k = Some v"
  proof -
    have "map_of it1 k = Some v" using that item by (auto simp: it1_def set_default_def map_of_dset md1_def own_def item_in_def split: if_splits)
    then show ?thesis using that ext by (simp add: extends_def)
  qed
  show "distinct (map fst it)" if "distinct (map fst (item_in md))"
  proof -
    have "distinct (map fst it1)" using that item by (auto simp: it1_def set_default_def md1_def own_def item_in_def distinct_update split: if_splits)
    then show ?thesis using ext by (simp add: extends_def)
  qed
qed

context reporting
begin

lemma handled_report_queue:
  assumes "report_message md job dep cid raw" and "prepared dep job md = Inr (md', it)"
    and "extract_active_job_type dep = Some jt" and "dget_or md' ''mandate_path'' (PStr []) = PStr m" and "rbind (message_batch it md') batch_of = Inr bid"
    and "queue_rel (docs (n_srv n)) jt m q"
  shows "queue_rel (docs (n_srv (handle_task_manager_message sb send_ok uid md now n))) jt m (q_report job raw bid q)"
proof -
  have "raw \<noteq> []" using assms(1) by (simp add: report_message_def)
  from apply_report_queue [OF assms(6,3) this assms(4,5)] show ?thesis unfolding handle_task_manager_eq [OF assms(1)] assms(2) by simp
qed

end

section \<open>The page after a report\<close>

text \<open>The publication writes to the page it is about; it leaves the four lists alone.\<close>

lemma update_first_none: "update_first PNone (PDict []) xs = Inr ys \<Longrightarrow> ys = xs"
  by (induction PNone "PDict []" xs arbitrary: ys rule: update_first.induct) (auto simp: dupdate_def returns split: if_splits)

lemma unwrap_dset_items: "unwrap c = Inr d \<Longrightarrow> \<exists>d'. unwrap (dset c ''items'' v) = Inr d' \<and> (\<forall>k. k \<noteq> ''items'' \<longrightarrow> map_of d' k = map_of d k)"
  by (auto simp: unwrap_def is_wrapped_def map_of_dset dget_dset split: if_splits)

lemma report_event_page:
  assumes "cached_page vw key d"
  shows "\<exists>d'. cached_page (cache_after vw key (report_event md) ttl) key d' \<and> (\<forall>k. k \<noteq> ''items'' \<longrightarrow> map_of d' k = map_of d k)"
proof -
  obtain c where c: "str_at vw key = Some (Json (PDict c))" "unwrap c = Inr d" using assms by (auto simp: cached_page_def)
  show ?thesis
  proof (cases "cache_apply (PDict c) (report_event md)")
    case (Inl e)
    then show ?thesis using c assms by (auto simp: cache_after_def cached_value_def)
  next
    case (Inr v)
    have "py_or (dget (report_event md) ''id'') (dget (report_event md) ''docId'') = PNone" by (simp add: report_event_def py_or_def dget_def)
    then obtain w where w: "v = PDict (dset c ''items'' w)"
      using Inr by (auto simp: cache_apply_def Let_def report_event_def dget_or_def returns split: pyval.splits if_splits option.splits dest: update_first_none)
    obtain d' where "unwrap (dset c ''items'' w) = Inr d'" "\<forall>k. k \<noteq> ''items'' \<longrightarrow> map_of d' k = map_of d k" using unwrap_dset_items [OF c(2)] by blast
    then show ?thesis using c Inr w by (auto simp: cache_after_def cached_value_def cached_page_def)
  qed
qed

lemma same_lists:
  assumes "\<forall>k. k \<noteq> ''items'' \<longrightarrow> map_of d' k = map_of d k"
  shows "k \<noteq> ''items'' \<Longrightarrow> page_list d' k = page_list d k" and "page_items d' = page_items d" and "unique_jobs d' = unique_jobs d" and "wf_page d' = wf_page d"
proof -
  have g: "k \<noteq> ''items'' \<Longrightarrow> dget_or d' k v = dget_or d k v" for k v using assms by (simp add: dget_or_def)
  then show p: "k \<noteq> ''items'' \<Longrightarrow> page_list d' k = page_list d k" for k by (simp add: page_list_def)
  show i: "page_items d' = page_items d" by (simp add: page_items_def CATEGORY_KEYS_def p)
  show "wf_page d' = wf_page d" using assms by (simp add: wf_page_def CATEGORY_KEYS_def wf_list_def g)
  then show "unique_jobs d' = unique_jobs d" using i by (simp add: unique_jobs_def)
qed

lemma cross_targets_domains: "p \<in> set (cross_targets dd ds ks) \<Longrightarrow> fst p \<in> {''expenses'', ''invoices''}"
  by (induction dd ds ks rule: cross_targets.induct) (auto simp: DEPT_KEY_TO_DOMAIN_def split: pyval.splits option.splits if_splits)

lemma cross_items_domains: "p \<in> set (cross_items job doc) \<Longrightarrow> fst p \<in> {''expenses'', ''invoices''}"
  by (auto simp: cross_items_def dest!: cross_targets_domains split: option.splits pyval.splits)

lemma target_of_valid:
  assumes "is_valid_status st"
  shows "get_target_category_key dm (py_lower st) = get_category st"
proof -
  obtain x where x: "st = status_value x" using assms by (auto simp: is_valid_status_def NormalizedStatus_of_Inr split: sum.splits)
  have "get_category st = category_value (the (map_of NORMALIZED_TO_CATEGORY x))" unfolding x by (rule get_category_value)
  moreover have "get_target_category_key dm (py_lower st) = category_value (the (map_of NORMALIZED_TO_CATEGORY x))" unfolding x
    by (cases x) (simp_all add: get_target_category_key_def STATUS_TO_ABSTRACT_CATEGORY_def UNIVERSAL_KEY_def CATEGORY_KEYS_def NORMALIZED_TO_CATEGORY_def
      py_lower_def lower_char_def code_def)
  ultimately show ?thesis by simp
qed

lemma context_keys_not_business: "page_key uid \<notin> business_keys uid cid" "build_user_selected_company_key uid \<notin> business_keys uid cid"
  by (auto simp: business_keys_def page_key_def build_user_selected_company_key_def build_business_key_def)

context reporting
begin

lemma key_frame_at: "frame (sb_redis sb) (\<lambda>s. view s k) (- {k})"
  by (rule key_frame)

lemma cross_view:
  assumes "k \<noteq> build_business_key uid cid ''expenses'' None" and "k \<noteq> build_business_key uid cid ''invoices'' None"
  shows "view (snd (cross_domain_step sb uid cid d job raw s)) k = view s k"
proof -
  let ?p = "''clients/'' @ uid @ ''/task_manager/'' @ job"
  have step: "view (foldl (\<lambda>s p. update_business_cache_item (sb_show sb) (sb_redis sb) uid cid (fst p) job (snd p) s) s1 (cross_items job doc)) k = view s1 k" for s1 doc
  proof (rule preserves_foldl [where g = "\<lambda>s. view s k"])
    fix p s assume "p \<in> set (cross_items job doc)"
    then have "build_business_key uid cid (fst p) None \<in> - {k}" using cross_items_domains assms by fastforce
    then show "view (update_business_cache_item (sb_show sb) (sb_redis sb) uid cid (fst p) job (snd p) s) k = view s k"
      by (rule frame.business_cache_frame [OF key_frame_at])
  qed
  have "view (snd (cross_domain_add_after_routing (sb_show sb) (sb_redis sb) (sb_fs sb) uid cid job s)) k = view s k"
    using preservesD [OF document_view, of ?p s] by (auto simp: cross_domain_add_after_routing_def Let_def step split: prod.split)
  then show ?thesis by (simp add: cross_domain_step_def split: pyval.split)
qed

end

text \<open>A page that a report may change: one of the four with lists.\<close>

definition list_domain :: "string \<Rightarrow> bool" where
  "list_domain dm \<longleftrightarrow> dm \<in> {''routing'', ''invoices'', ''bank'', ''expenses''}"

text \<open>The user has the page of the company open.\<close>

definition watching :: "rview \<Rightarrow> hub \<Rightarrow> string \<Rightarrow> string \<Rightarrow> string \<Rightarrow> bool" where
  "watching vw h uid cid dm \<longleftrightarrow> is_user_connected h uid \<and> loop_known h \<and> audience BUSINESS vw uid cid dm"

lemma watching_context:
  assumes "watching vw h uid cid dm" and "cid \<noteq> []"
  shows "ctx_keys_ok vw uid" "ctx_company_id (context_of vw h uid) = Some (Raw cid)" "current_domain (context_of vw h uid) = Some dm"
  using assms by (auto simp: watching_def ctx_keys_ok_def context_of_def context_page_def context_company_def str_key_def str_at_def split: option.splits rvalue.splits)

context reporting
begin

text \<open>The server when the handler comes to the publication.\<close>

definition before_publication :: "string \<Rightarrow> string \<Rightarrow> string \<Rightarrow> string \<Rightarrow> string \<Rightarrow> pyval \<Rightarrow> pydict \<Rightarrow> pydict \<Rightarrow> string \<Rightarrow> 's \<Rightarrow> (string \<times> pydict) list \<times> pydict option \<times> 's" where
  "before_publication uid cid dm dep job raw md it now s =
     (case cross_domain_step sb uid cid dm job raw (update_business_cache_item (sb_show sb) (sb_redis sb) uid cid dm job it s) of
        (items, s2) \<Rightarrow> (items, update_billing_history_cache (sb_float sb) (sb_redis sb) uid cid job md (report_active_jobs sb dep job raw md it now s2)))"

lemma before_publication_page:
  assumes page: "cached_page (view s) key d" "wf_page d" "key = build_business_key uid cid dm None"
    and item: "tx_id_for_match (sb_show sb) dm job it = Inr tx" "status_for (find (is_job (sb_show sb) job tx) (page_items d)) it = Inr st" and dm: "list_domain dm"
    and run: "before_publication uid cid dm dep job raw md it now s = (items, bi, s4)"
  obtains d1 where "cached_page (view s4) key d1" "wf_page d1"
    "\<forall>k \<in> set CATEGORY_KEYS. page_list d1 k = report_page (is_job (sb_show sb) job tx) (get_target_category_key dm st) it (page_list d) k"
    "\<forall>k. k \<notin> business_keys uid cid \<longrightarrow> view s4 k = view s k" "\<forall>p \<in> set items. fst p \<noteq> dm"
proof -
  define s1 where "s1 = update_business_cache_item (sb_show sb) (sb_redis sb) uid cid dm job it s"
  obtain d1 where 1: "cached_page (view s1) key d1" "wf_page d1"
    "\<forall>k \<in> set CATEGORY_KEYS. page_list d1 k = report_page (is_job (sb_show sb) job tx) (get_target_category_key dm st) it (page_list d) k"
    "\<forall>k. k \<noteq> key \<longrightarrow> view s1 k = view s k"
    unfolding s1_def by (rule update_business_cache_item_up [OF page item])
  obtain s2 where 2: "cross_domain_step sb uid cid dm job raw s1 = (items, s2)"
    and 4: "update_billing_history_cache (sb_float sb) (sb_redis sb) uid cid job md (report_active_jobs sb dep job raw md it now s2) = (bi, s4)"
    using run by (auto simp: before_publication_def s1_def split: prod.splits)
  have routing: "items = [] \<and> s2 = s1" if "dm \<noteq> ''routing''" using 2 that by (simp add: cross_domain_step_def split: pyval.splits)
  have bill: "k \<noteq> build_business_key uid cid ''billing_history'' None \<Longrightarrow> view s4 k = view s2 k" for k
    using preserves_eq [OF frame.billing_frame [OF key_frame_at] 4] by (simp add: report_active_view)
  have v4: "view s4 k = view s1 k" if k: "k = key \<or> k \<notin> business_keys uid cid" for k
  proof -
    have n: "k \<noteq> build_business_key uid cid ''billing_history'' None" using k page(3) dm business_key_in by (auto simp: list_domain_def)
    have "view s2 k = view s1 k"
    proof (cases "dm = ''routing''")
      case True
      have "k \<noteq> build_business_key uid cid ''expenses'' None" "k \<noteq> build_business_key uid cid ''invoices'' None"
        using k page(3) True business_key_in by auto
      then show ?thesis using cross_view [of k uid cid dm job raw s1] 2 by simp
    qed (simp add: routing)
    then show ?thesis using bill [OF n] by simp
  qed
  have "\<forall>k. k \<notin> business_keys uid cid \<longrightarrow> view s4 k = view s k" using v4 1(4) page(3) business_key_in by metis
  moreover have "cached_page (view s4) key d1" using 1(1) v4 [of key] cached_page_cong by blast
  moreover have "\<forall>p \<in> set items. fst p \<noteq> dm"
    using 2 routing cross_items_domains by (fastforce simp: cross_domain_step_def cross_domain_add_after_routing_def Let_def split: pyval.splits if_splits prod.splits)
  ultimately show thesis using that 1(2,3) by blast
qed

lemma watching_cong: "\<forall>k. k \<notin> business_keys uid cid \<longrightarrow> vw' k = vw k \<Longrightarrow> watching vw' h uid cid dm = watching vw h uid cid dm"
  using context_keys_not_business by (simp add: watching_def str_at_def)

lemma publish_watched:
  fixes n :: "('s, 'z) node_scheme"
  assumes page: "cached_page (view s) key d" "key = build_business_key uid cid dm None" and w: "watching (view s) (n_hub n) uid cid dm" and ne: "cid \<noteq> []" "dm \<noteq> []"
  obtains s' d' where "publish_report sb send_ok uid cid dm job md bi (n\<lparr>n_srv := s\<rparr>) =
      ([(uid, [(''type'', PStr (dm @ ''.task_manager_update'')), (''payload'', PDict (report_event md))])], n\<lparr>n_srv := s'\<rparr>)"
    "cached_page (view s') key d'" "\<forall>k. k \<noteq> ''items'' \<longrightarrow> map_of d' k = map_of d k" "\<forall>k. k \<notin> business_keys uid cid \<longrightarrow> view s' k = view s k"
proof -
  let ?rc = "sb_redis sb" and ?e = "dm @ ''.task_manager_update''"
  note wc = watching_context [OF w ne(1)]
  obtain s5 where 5: "get_user_context ?rc (n_hub n) uid s = (context_of (view s) (n_hub n) uid, s5)" "view s5 = view s" by (rule get_user_context_up [OF wc(1)])
  have key: "get_cache_key BUSINESS uid (Some cid) (Some dm) None = Inr key" using ne page(2) by (simp add: given_def)
  have k5: "ctx_keys_ok (view s5) uid" "str_key (view s5) key" using 5(2) wc(1) cached_page_str_key [OF page(1)] by simp_all
  have conn: "ctx_connected (context_of (view s) (n_hub n) uid)" "loop_known (n_hub n)" using w by (simp_all add: watching_def context_of_def)
  let ?ttl = "ttl_or (Some (ttl_or None (get_ttl_for_domain dm))) (get_ttl_for_cache BUSINESS (Some dm))"
  obtain s6 where 6: "publish_business_event ?rc (n_hub n) uid cid dm ?e (report_event md) None s5 =
      (True, [(uid, [(''type'', PStr ?e), (''payload'', PDict (report_event md))])], s6)" "view s6 = cache_after (view s5) key (report_event md) ?ttl"
    using publish_up [OF k5(1) key k5(2), of "n_hub n" ?e "report_event md" "Some (ttl_or None (get_ttl_for_domain dm))"] wc(2,3) conn 5(2) ne
    by (auto simp: publish_business_event_def given_def broadcast_threadsafe_def)
  obtain d' where d': "cached_page (view s6) key d'" "\<forall>k. k \<noteq> ''items'' \<longrightarrow> map_of d' k = map_of d k"
    using report_event_page [OF page(1)] 5(2) 6(2) by metis
  have "\<forall>k. k \<notin> business_keys uid cid \<longrightarrow> view s6 k = view s k"
    using cache_after_other 6(2) 5(2) page(2) business_key_in by metis
  then show thesis using that [of s6 d'] d' 5(1) 6(1) wc(2,3) by (simp add: publish_report_def on_srv_def publish_on_def Let_def)
qed

lemma publish_cross_elsewhere:
  assumes "watching (view (n_srv n)) (n_hub n) uid cid dm" and "cid \<noteq> []" and "\<forall>p \<in> set items. fst p \<noteq> dm"
  shows "\<exists>s'. publish_cross sb uid cid dep job items (bs, n) = (bs, n\<lparr>n_srv := s'\<rparr>) \<and> view s' = view (n_srv n)"
proof -
  note wc = watching_context [OF assms(1,2)]
  let ?c = "context_of (view (n_srv n)) (n_hub n) uid"
  obtain s' where g: "get_user_context (sb_redis sb) (n_hub n) uid (n_srv n) = (?c, s')" "view s' = view (n_srv n)" by (rule get_user_context_up [OF wc(1)])
  have "foldl (publish_cross_item sb uid cid dep job ?c) (bs, n\<lparr>n_srv := s'\<rparr>) items = (bs, n\<lparr>n_srv := s'\<rparr>)"
    by (rule preserves_foldl [where g = "\<lambda>x. x"]) (use assms(3) wc(3) in \<open>auto simp: publish_cross_item_def\<close>)
  then show ?thesis using g by (intro exI [of _ s']) (simp add: publish_cross_def on_srv_def)
qed

lemma apply_report_page:
  assumes page: "cached_page (view (n_srv n)) key d" "wf_page d" "key = build_business_key uid cid dm None"
    and item: "tx_id_for_match (sb_show sb) dm job it = Inr tx" "status_for (find (is_job (sb_show sb) job tx) (page_items d)) it = Inr st"
    and dm: "list_domain dm" "cid \<noteq> []" and w: "watching (view (n_srv n)) (n_hub n) uid cid dm" and ok: "\<And>c. send_ok c"
  obtains s' d' where "cached_page (view s') key d'" "wf_page d'"
    "\<forall>k \<in> set CATEGORY_KEYS. page_list d' k = report_page (is_job (sb_show sb) job tx) (get_target_category_key dm st) it (page_list d) k"
    "\<forall>k. k \<notin> business_keys uid cid \<longrightarrow> view s' k = view (n_srv n) k"
    "apply_report sb send_ok uid cid dm dep job raw (md, it) now n =
       n\<lparr>n_srv := s', n_sent := n_sent n @ sent_to (n_hub n) uid [(''type'', PStr (dm @ ''.task_manager_update'')), (''payload'', PDict (report_event md))]\<rparr>"
proof -
  let ?m = "[(''type'', PStr (dm @ ''.task_manager_update'')), (''payload'', PDict (report_event md))]"
  obtain items bi s4 where run: "before_publication uid cid dm dep job raw md it now (n_srv n) = (items, bi, s4)" using prod_cases3 by blast
  obtain d1 where 1: "cached_page (view s4) key d1" "wf_page d1"
    "\<forall>k \<in> set CATEGORY_KEYS. page_list d1 k = report_page (is_job (sb_show sb) job tx) (get_target_category_key dm st) it (page_list d) k"
    "\<forall>k. k \<notin> business_keys uid cid \<longrightarrow> view s4 k = view (n_srv n) k" "\<forall>p \<in> set items. fst p \<noteq> dm"
    by (rule before_publication_page [OF page item dm(1) run])
  have ne: "dm \<noteq> []" using dm(1) by (auto simp: list_domain_def)
  have w4: "watching (view s4) (n_hub n) uid cid dm" using w watching_cong [OF 1(4)] by simp
  obtain s6 d' where 6: "publish_report sb send_ok uid cid dm job md bi (n\<lparr>n_srv := s4\<rparr>) = ([(uid, ?m)], n\<lparr>n_srv := s6\<rparr>)"
    "cached_page (view s6) key d'" "\<forall>k. k \<noteq> ''items'' \<longrightarrow> map_of d' k = map_of d1 k" "\<forall>k. k \<notin> business_keys uid cid \<longrightarrow> view s6 k = view s4 k"
    by (rule publish_watched [OF 1(1) page(3) w4 dm(2) ne])
  have "watching (view (n_srv (n\<lparr>n_srv := s6\<rparr>))) (n_hub (n\<lparr>n_srv := s6\<rparr>)) uid cid dm" using w4 watching_cong [OF 6(4)] by simp
  from publish_cross_elsewhere [OF this dm(2) 1(5), of dep job "[(uid, ?m)]"]
  obtain s7 where 7: "publish_cross sb uid cid dep job items ([(uid, ?m)], n\<lparr>n_srv := s6\<rparr>) = ([(uid, ?m)], n\<lparr>n_srv := s7\<rparr>)" "view s7 = view s6" by auto
  define s8 where "s8 = (if items \<noteq> [] then s7 else s6)"
  have "apply_report sb send_ok uid cid dm dep job raw (md, it) now n = run_scheduled (sb_redis sb) send_ok ([(uid, ?m)], n\<lparr>n_srv := s8\<rparr>)"
    using run 6(1) 7(1) w by (auto simp: apply_report_def before_publication_def watching_def s8_def Let_def split: prod.splits)
  then have fin: "apply_report sb send_ok uid cid dm dep job raw (md, it) now n = n\<lparr>n_srv := s8, n_sent := n_sent n @ sent_to (n_hub n) uid ?m\<rparr>"
    using hub_broadcast_open [of ?m send_ok "sb_redis sb" uid "n\<lparr>n_srv := s8\<rparr>"] thread_key_normalize [of ?m] ok by (simp add: run_scheduled_def)
  note same = same_lists [OF 6(3)]
  have c: "\<forall>k \<in> set CATEGORY_KEYS. k \<noteq> ''items''" by (auto simp: CATEGORY_KEYS_def)
  show thesis
  proof (rule that [of s8 d'])
    show "cached_page (view s8) key d'" using 6(2) 7(2) by (simp add: s8_def)
    show "wf_page d'" using 1(2) same(4) by simp
    show "\<forall>k \<in> set CATEGORY_KEYS. page_list d' k = report_page (is_job (sb_show sb) job tx) (get_target_category_key dm st) it (page_list d) k"
      using 1(3) c same(1) by simp
    show "\<forall>k. k \<notin> business_keys uid cid \<longrightarrow> view s8 k = view (n_srv n) k" using 1(4) 6(4) 7(2) by (simp add: s8_def)
  qed (rule fin)
qed

end

section \<open>Properties\<close>

definition demo_sub :: "(mem \<times> mem_docs) sub" where
  "demo_sub = \<lparr>sb_redis = pair_redis mem_redis, sb_fs = pair_firestore mem_firestore, sb_show = (\<lambda>_. []), sb_float = (\<lambda>_. None), sb_coa = (\<lambda>_ _ s. s), sb_gl_sync = (\<lambda>_ _ s. s)\<rparr>"

interpretation demo_sub: reporting demo_sub "\<lambda>p. mem_view (fst p)" "pair_tick mem_tick" "\<lambda>p. mem_docs_view (snd p)"
proof (intro reporting.intro reporting_axioms.intro)
  show "redis_up (sb_redis demo_sub) (\<lambda>p. mem_view (fst p)) (pair_tick mem_tick)"
    using redis_up.pair_up [OF mem_redis_up] by (simp add: demo_sub_def)
  show "firestore_up (sb_fs demo_sub) (\<lambda>p. mem_docs_view (snd p))"
    using firestore_up.pair_firestore_up [OF mem_firestore_up] by (simp add: demo_sub_def)
qed (simp_all add: demo_sub_def preserves_def)

lemma demo_reporting: "reporting demo_sub (\<lambda>p. mem_view (fst p)) (pair_tick mem_tick) (\<lambda>p. mem_docs_view (snd p))"
  by unfold_locales

interpretation demo_docs: frame "sb_redis demo_sub" "\<lambda>p. mem_docs_view (snd p)" UNIV
  by (rule demo_sub.docs_frame)

text \<open>A report of the banker on a page that the user has open, while one batch runs and another one waits.\<close>

definition demo_msg :: "string \<Rightarrow> pydict" where
  "demo_msg raw = [(''job_id'', PStr ''c_18_577''), (''department'', PStr ''banker''), (''collection_id'', PStr ''c''), (''status'', PStr raw), (''mandate_path'', PStr ''m'')]"

definition demo_item :: pydict where
  "demo_item = dset (demo_msg ''completed'') ''status_category'' (PStr ''processed'')"

definition demo_doc :: "string \<Rightarrow> string \<Rightarrow> pydict" where
  "demo_doc k j = [(''mandate_path'', PStr ''m''), (''job_key'', PStr k), (''jobs_status'', PDict [(j, PStr ''in_queue'')]), (''created_at'', PStr ''1'')]"

definition demo_node :: "(mem \<times> mem_docs) node" where
  "demo_node = \<lparr>n_srv = (mem_put ''user:u:selected_company_id'' (VStr (Raw ''c'')) None (mem_put ''session:context:u:page'' (VStr (Json (PStr ''banking''))) None demo_bank),
       [((on_col ''banker'', doc_id ''m'' ''b1''), demo_doc ''b1'' ''c_18_577''), ((pending_col ''banker'', doc_id ''m'' ''b2''), demo_doc ''b2'' ''c_18_600'')]),
     n_hub = demo_hub, n_sent = []\<rparr>"

abbreviation waiting_batch :: "string \<Rightarrow> string \<Rightarrow> batch" where
  "waiting_batch k j \<equiv> \<lparr>b_key = k, b_jobs = [(j, PStr ''in_queue'')], b_time = ''1''\<rparr>"

lemma demo_status: "status_of ''banker'' ''success'' = ''completed''" "status_of ''banker'' ''completed'' = ''completed''"
  by code_simp+

lemma demo_category: "get_category ''completed'' = ''processed''"
  by code_simp

lemma demo_domain: "extract_department_to_domain ''banker'' = ''bank''" "extract_active_job_type ''banker'' = Some ''banker''"
  by code_simp+

lemma demo_message: "raw \<in> {''success'', ''completed''} \<Longrightarrow> report_message (demo_msg raw) ''c_18_577'' ''banker'' ''c'' raw"
  by (auto simp: report_message_def demo_domain demo_msg_def no_sentinel_def dget_def dget_or_def dict_of_def)

lemma demo_none: "map_of demo_item ''data'' = None" "map_of demo_item ''department_data'' = None" "map_of demo_item ''current_step'' = None"
  "map_of demo_item ''current_step_technical'' = None" "map_of demo_item ''status'' = Some (PStr ''completed'')"
  by (simp_all add: demo_item_def demo_msg_def)

lemma demo_flat: "flatten_department ''bank'' j demo_item = demo_item" "flatten_dots ''bank'' demo_item = demo_item"
  "lift_key own ''bank'' (m, demo_item) ''current_step'' = (m, demo_item)" "lift_key own ''bank'' (m, demo_item) ''current_step_technical'' = (m, demo_item)"
proof -
  show "flatten_department ''bank'' j demo_item = demo_item"
    by (simp add: flatten_department_def demo_none dget_or_def dict_of_def py_or_def copy_missing_def BANK_FLAT_KEYS_def)
  have "filter (starts_with DOT_PREFIX) (map fst demo_item) = []" by code_simp
  then show "flatten_dots ''bank'' demo_item = demo_item" by (simp add: flatten_dots_def)
qed (simp_all add: lift_key_def lift_value_def dget_def demo_none)

lemma demo_prepared: "raw \<in> {''success'', ''completed''} \<Longrightarrow> prepared ''banker'' ''c_18_577'' (demo_msg raw) = Inr (demo_item, demo_item)"
proof -
  assume "raw \<in> {''success'', ''completed''}"
  then have "status_of ''banker'' raw = ''completed''" "raw \<noteq> []" using demo_status by auto
  then have "normalize_report ''banker'' (demo_msg raw) = Inr demo_item"
    using demo_category by (simp add: normalize_report_def demo_msg_def demo_item_def dget_def Let_def status_of_def)
  moreover have "prepare_report ''bank'' ''c_18_577'' (dget (demo_msg raw) ''status'') demo_item = Inr (demo_item, demo_item)"
    using demo_flat by (simp add: prepare_report_def demo_none dget_or_def set_default_def put_item_def)
  ultimately show ?thesis by (simp add: prepared_def demo_domain)
qed

lemma demo_watching: "watching (mem_view (fst (n_srv demo_node))) (n_hub demo_node) ''u'' ''c'' ''bank''"
proof -
  have "page_to_domain ''banking'' = Some ''bank''" by code_simp
  then show ?thesis
    using demo_connected by (simp add: watching_def demo_node_def mem_put_def mem_view_def str_at_def key_eval demo_hub_def register_def init_hub_def Let_def)
qed

lemma demo_page: "cached_page (mem_view (fst (n_srv demo_node))) (build_business_key ''u'' ''c'' ''bank'' None) demo_bank_page"
  by (simp add: cached_page_def demo_node_def demo_bank_def mem_put_def mem_view_def empty_mem_def str_at_def key_eval unwrap_def is_wrapped_def dget_def)

lemma col_rel_one:
  assumes "\<And>i. vw c i = (if i = doc_id m (b_key b) then Some d else None)" and "is_batch m b d" and "b_key b \<noteq> []"
  shows "col_rel vw c m [b]"
  using assms(2,3) unfolding col_rel_def assms(1) by simp

lemma demo_queue: "queue_rel (mem_docs_view (snd (n_srv demo_node))) ''banker'' ''m'' (Some (waiting_batch ''b1'' ''c_18_577''), [waiting_batch ''b2'' ''c_18_600''])"
proof -
  have on: "\<And>i. vw (on_col ''banker'') i = (if i = doc_id ''m'' ''b1'' then Some (demo_doc ''b1'' ''c_18_577'') else None)"
    and pend: "\<And>i. vw (pending_col ''banker'') i = (if i = doc_id ''m'' ''b2'' then Some (demo_doc ''b2'' ''c_18_600'') else None)" if "vw = mem_docs_view (snd (n_srv demo_node))" for vw
    unfolding that by (simp_all add: demo_node_def mem_docs_view_def)
  show ?thesis unfolding queue_rel_def running_list_def
    by (auto intro!: col_rel_one simp: on [OF refl] pend [OF refl] demo_doc_def is_batch_def)
qed

lemma demo_batch_id: "rbind (message_batch demo_item demo_item) batch_of = Inr None" "dget_or demo_item ''mandate_path'' (PStr []) = PStr ''m''"
  by code_simp+

text \<open>C10: A report on a job reaches the page and the browser alike, for a user who has the page open. Let the worker call the status of the message by any name the
  normaliser knows; if the item inside \<open>data\<close> carries a status of its own, let it be the normalised one. Then the item of the job is on the cached page once, at the head of
  the list of the normalised status, every connection receives one event, and the category it names is that list. (With a status in \<open>data\<close> under another name the two
  differ: \<open>nested_status_misplaced\<close>.)\<close>

theorem report_reaches_page_and_browser:
  assumes "reporting sb view tick docs" and "report_message md job dep cid raw" and "prepared dep job md = Inr (md', it)"
    and "item_status md (status_of dep raw) = PStr (status_of dep raw)" and "map_of (item_in md) ''job_id'' = Some (PStr job)" and "distinct (map fst (item_in md))"
    and "dm = extract_department_to_domain dep" and "list_domain dm" and "tx_id_for_match (sb_show sb) dm job it = Inr tx"
    and "is_valid_status (status_of dep raw)"
    and "cached_page (view (n_srv n)) (build_business_key uid cid dm None) d" and "unique_jobs d"
    and "watching (view (n_srv n)) (n_hub n) uid cid dm" and "\<And>c. send_ok c"
    and "n' = handle_task_manager_message sb send_ok uid md now n"
  shows "\<exists>d' x rest. cached_page (view (n_srv n')) (build_business_key uid cid dm None) d' \<and> unique_jobs d' \<and>
    page_list d' (get_category (status_of dep raw)) = x # rest \<and> filter (\<lambda>it. dget it ''job_id'' = PStr job) (page_items d') = [x] \<and>
    n_sent n' = n_sent n @ sent_to (n_hub n) uid [(''type'', PStr (dm @ ''.task_manager_update'')), (''payload'', PDict (report_event md'))] \<and>
    dget md' ''status_category'' = PStr (get_category (status_of dep raw))"
proof -
  have raw: "dget md ''status'' = PStr raw" "raw \<noteq> []" "cid \<noteq> []" using assms(2) by (simp_all add: report_message_def)
  note p = prepared_spec [OF assms(3) raw(1,2)]
  have job: "dget it ''job_id'' = PStr job" using p(4) [of "''job_id''" "PStr job"] assms(5) by (simp add: dget_def)
  have st: "dget it ''status'' = PStr (status_of dep raw)" using p(1) assms(4) by (simp add: dget_def)
  have "status_of dep raw \<noteq> []" using assms(10) status_value_not_Nil by (metis is_valid_status_iff)
  then have f: "full_report (sb_show sb) dm (job, it)" using job st assms(9) p(5) [OF assms(6)] by (simp add: full_report_def)
  have n': "n' = apply_report sb send_ok uid cid dm dep job (PStr raw) (md', it) now n"
    using handle_task_manager_eq [OF assms(2)] assms(3,7,15) by simp
  obtain tx where tx: "tx_id_for_match (sb_show sb) dm job it = Inr tx" and stf: "\<And>ex. status_for ex it = Inr (py_lower (status_of dep raw))"
    using full_report_status [OF f st] by blast
  have wf: "wf_page d" using assms(12) by (simp add: unique_jobs_def)
  obtain s' d' where 1: "cached_page (view s') (build_business_key uid cid dm None) d'" "wf_page d'"
    "\<forall>k \<in> set CATEGORY_KEYS. page_list d' k = report_page (is_job (sb_show sb) job tx) (get_target_category_key dm (py_lower (status_of dep raw))) it (page_list d) k"
    "n' = n\<lparr>n_srv := s', n_sent := n_sent n @ sent_to (n_hub n) uid [(''type'', PStr (dm @ ''.task_manager_update'')), (''payload'', PDict (report_event md'))]\<rparr>"
    unfolding n' by (rule reporting.apply_report_page [OF assms(1,11) wf refl tx stf assms(8) raw(3) assms(13,14)])
  obtain x rest where 2: "unique_jobs d'" "page_list d' (get_target_category_key dm (py_lower (status_of dep raw))) = x # rest"
    "filter (\<lambda>it. dget it ''job_id'' = PStr job) (page_items d') = [x]"
    by (rule full_report_page [OF assms(12) 1(2) f tx 1(3)])
  show ?thesis using 1(1,4) 2 target_of_valid [OF assms(10)] p(3) by (auto simp: dget_def)
qed

theorem report_reaches_page_and_browser_witness:
  "\<exists>d' x rest. cached_page (mem_view (fst (n_srv (handle_task_manager_message demo_sub (\<lambda>_. True) ''u'' (demo_msg ''success'') ''t'' demo_node)))) (build_business_key ''u'' ''c'' ''bank'' None) d' \<and>
    page_list d' ''processed'' = x # rest \<and> filter (\<lambda>it. dget it ''job_id'' = PStr ''c_18_577'') (page_items d') = [x]"
proof -
  have i: "item_in (demo_msg ''success'') = demo_msg ''success''" "map_of (demo_msg ''success'') ''data'' = None" by (simp_all add: item_in_def demo_msg_def)
  have tx: "tx_id_for_match (sb_show demo_sub) ''bank'' ''c_18_577'' demo_item = Inr ''577''"
    by (simp add: tx_id_for_match_def department_tx_def dotted_tx_def composite_tx_def demo_item_def demo_msg_def dget_def dget_or_def is_digit_def code_def)
  have v: "is_valid_status (status_of ''banker'' ''success'')" unfolding demo_status by code_simp
  have l: "list_domain ''bank''" by (simp add: list_domain_def)
  have "map_of (item_in (demo_msg ''success'')) ''job_id'' = Some (PStr ''c_18_577'')" "distinct (map fst (item_in (demo_msg ''success'')))"
    unfolding i by (simp_all add: demo_msg_def)
  from report_reaches_page_and_browser [OF demo_reporting demo_message demo_prepared _ this demo_domain(1) [symmetric] l tx v demo_page demo_bank_unique demo_watching _ refl, of "\<lambda>_. True" "''t''"]
  show ?thesis using i(2) unfolding demo_status demo_category by (fastforce simp: item_status_def)
qed

text \<open>C12: A report is one step of the queue of active jobs: whatever else the handler does, the documents of Firestore go on to represent the abstract queue, after the
  report of the raw status.\<close>

theorem report_advances_queue:
  assumes "reporting sb view tick docs" and "report_message md job dep cid raw" and "prepared dep job md = Inr (md', it)"
    and "extract_active_job_type dep = Some jt" and "dget_or md' ''mandate_path'' (PStr []) = PStr m" and "rbind (message_batch it md') batch_of = Inr bid"
    and "queue_rel (docs (n_srv n)) jt m q" and "n' = handle_task_manager_message sb send_ok uid md now n"
  shows "queue_rel (docs (n_srv n')) jt m (q_report job raw bid q)"
  using reporting.handled_report_queue [OF assms(1-7)] assms(8) by simp

theorem report_advances_queue_witness:
  "queue_rel (mem_docs_view (snd (n_srv (handle_task_manager_message demo_sub (\<lambda>_. True) ''u'' (demo_msg ''completed'') ''t'' demo_node)))) ''banker'' ''m''
     (Some (waiting_batch ''b2'' ''c_18_600''), [])"
proof -
  have "q_report ''c_18_577'' ''completed'' None (Some (waiting_batch ''b1'' ''c_18_577''), [waiting_batch ''b2'' ''c_18_600'']) = (Some (waiting_batch ''b2'' ''c_18_600''), [])"
    by (simp add: q_report_def status_after_def TERMINAL_STATUSES_def next_running_def)
  then show ?thesis
    using report_advances_queue [OF demo_reporting demo_message demo_prepared demo_domain(2) demo_batch_id(2,1) demo_queue refl, of "''completed''" "\<lambda>_. True" "''u''" "''t''"] by simp
qed

text \<open>C38: The queue is told the status as the worker writes it, and knows only the normalised names. A job that ends with \<open>success\<close>, \<open>done\<close> or any other name of a final status
  stays open: its batch keeps running and the next one waits, although the page shows the job as processed.\<close>

theorem final_status_by_another_name_blocks_queue:
  assumes "reporting sb view tick docs" and "report_message md job dep cid raw" and "prepared dep job md = Inr (md', it)"
    and "extract_active_job_type dep = Some jt" and "dget_or md' ''mandate_path'' (PStr []) = PStr m" and "rbind (message_batch it md') batch_of = Inr bid"
    and "queue_rel (docs (n_srv n)) jt m (Some r, ws)" and "map_of (b_jobs r) job \<noteq> None"
    and "raw \<notin> set TERMINAL_STATUSES" and "status_of dep raw \<in> set TERMINAL_STATUSES"
    and "n' = handle_task_manager_message sb send_ok uid md now n"
  shows "\<exists>r'. queue_rel (docs (n_srv n')) jt m (Some r', ws) \<and> b_key r' = b_key r \<and> map_of (b_jobs r') job = Some (PStr raw)"
proof -
  have "dset (b_jobs r) job (PStr raw) \<noteq> []" by (cases "b_jobs r") auto
  then have "q_report job raw bid (Some r, ws) = (Some (r\<lparr>b_jobs := dset (b_jobs r) job (PStr raw)\<rparr>), ws)"
    using assms(8,9) by (simp add: q_report_def status_after_def Let_def)
  moreover have "queue_rel (docs (n_srv n')) jt m (q_report job raw bid (Some r, ws))"
    using reporting.handled_report_queue [OF assms(1-7)] assms(11) by simp
  ultimately show ?thesis by (intro exI [of _ "r\<lparr>b_jobs := dset (b_jobs r) job (PStr raw)\<rparr>"]) (simp add: map_of_dset)
qed

theorem final_status_by_another_name_blocks_queue_witness:
  "\<exists>r'. queue_rel (mem_docs_view (snd (n_srv (handle_task_manager_message demo_sub (\<lambda>_. True) ''u'' (demo_msg ''success'') ''t'' demo_node)))) ''banker'' ''m''
     (Some r', [waiting_batch ''b2'' ''c_18_600'']) \<and> b_key r' = ''b1'' \<and> map_of (b_jobs r') ''c_18_577'' = Some (PStr ''success'')"
proof -
  have "''success'' \<notin> set TERMINAL_STATUSES" "status_of ''banker'' ''success'' \<in> set TERMINAL_STATUSES" unfolding demo_status by (simp_all add: TERMINAL_STATUSES_def)
  from final_status_by_another_name_blocks_queue [OF demo_reporting demo_message demo_prepared demo_domain(2) demo_batch_id(2,1) demo_queue _ this refl, of "\<lambda>_. True" "''u''" "''t''"]
  show ?thesis by simp
qed

lemma success_final: "status_of dep ''success'' \<in> {''completed'', ''routed''}"
proof -
  have "normalized_key ''success'' = ''success''" by (simp add: normalized_key_def py_lower_def lower_char_def code_def py_strip_def is_space_def)
  then show ?thesis
    by (simp add: status_of_def FUNCTION_SPECIFIC_OVERRIDES_def RAW_TO_NORMALIZED_def Let_def split: option.split)
qed

text \<open>A status inside \<open>data\<close> is not normalised: with \<open>success\<close> both in the message and in its item, the item goes to the list of what is to be processed while the
  event says that it is processed.\<close>

theorem nested_status_misplaced:
  assumes "dget md ''status'' = PStr ''success''" and "map_of md ''data'' = Some (PDict i)" and "map_of i ''status'' = Some (PStr ''success'')"
    and "prepared dep job md = Inr (md', it)"
  shows "status_for ex it = Inr ''success'' \<and> get_target_category_key dm ''success'' = ''to_process'' \<and>
    dget md' ''status_category'' = PStr ''processed''"
proof -
  note p = prepared_spec [OF assms(4,1)]
  have "dget it ''status'' = PStr ''success''" using p(1) assms(2,3) by (simp add: dget_def item_status_def item_in_def dict_of_def dget_or_def)
  then have "status_for ex it = Inr ''success''" by (simp add: status_for_def lower_status_def py_or_def py_lower_def lower_char_def code_def)
  moreover have "get_target_category_key dm ''success'' = ''to_process''"
    by (simp add: get_target_category_key_def STATUS_TO_ABSTRACT_CATEGORY_def UNIVERSAL_KEY_def CATEGORY_KEYS_def)
  moreover have "get_category (status_of dep ''success'') = ''processed''" using success_final [of dep] get_category_value [of COMPLETED] get_category_value [of ROUTED]
    by (auto simp: NORMALIZED_TO_CATEGORY_def)
  ultimately show ?thesis using p(3) by (simp add: dget_def)
qed

theorem nested_status_misplaced_witness:
  "\<exists>md' it. prepared ''banker'' ''j'' [(''status'', PStr ''success''), (''data'', PDict [(''status'', PStr ''success'')])] = Inr (md', it) \<and> status_for None it = Inr ''success'' \<and>
     get_target_category_key ''bank'' ''success'' = ''to_process'' \<and> dget md' ''status_category'' = PStr ''processed''"
proof -
  let ?md = "[(''status'', PStr ''success''), (''data'', PDict [(''status'', PStr ''success'')])]"
  have "normalize_report ''banker'' ?md \<noteq> Inl e" for e by (simp add: normalize_report_def dget_def Let_def)
  then obtain md1 where "normalize_report ''banker'' ?md = Inr md1" by (cases "normalize_report ''banker'' ?md") auto
  moreover from this have "map_of md1 ''data'' = Some (PDict [(''status'', PStr ''success'')])" by (auto simp: normalize_report_def dget_def Let_def)
  ultimately obtain md' it where p: "prepared ''banker'' ''j'' ?md = Inr (md', it)" by (auto simp: prepared_def prepare_report_def dget_or_def Let_def)
  then show ?thesis using nested_status_misplaced [OF _ _ _ p] by (simp add: dget_def)
qed

end
