(* ===== verification/User_Channels.thy ===== *)
theory User_Channels
  imports Task_Reports Subscriptions
begin

text \<open>
  Three more channels of \<open>RedisSubscriber\<close> in \<open>src/app/realtime/redis_subscriber.py\<close>: notifications, direct messages and pending approvals. A notification on the
  channel is a signal: the document is read from Firestore, transformed for the browser, put at the head of the cached list and sent to the connections of
  the user. \<open>fb\<close> parses and prints JSON texts inside documents, as in \<open>Subscriptions\<close>. Log output is left out, except that a log line which slices a value raises when the
  value cannot be sliced.
\<close>

section \<open>Definitions\<close>

subsection \<open>Notifications\<close>

definition nested_update :: "pydict \<Rightarrow> pyval" where
  "nested_update md = py_or (dget md ''update_data'') (dget md ''data'')"

definition resolve_notification_doc_id :: "pydict \<Rightarrow> pyval" where
  "resolve_notification_doc_id md =
     (let drive_id = (case nested_update md of PDict nested \<Rightarrow> py_or (dget nested ''drive_id'') (dget md ''drive_id'') | _ \<Rightarrow> dget md ''drive_id'') in
      py_or drive_id (dget_or md ''job_id'' (PStr [])))"

definition notification_timestamp :: "(pyval \<Rightarrow> string) \<Rightarrow> pyval \<Rightarrow> string" where
  "notification_timestamp show raw_ts =
     (case raw_ts of PNone \<Rightarrow> [] | PStr t \<Rightarrow> if starts_with ''Sentinel:'' t then [] else t | _ \<Rightarrow> py_str show raw_ts)"

text \<open>The subscriber has a table of names and a formatting of its own, beside those of the subscription manager.\<close>

definition RS_FUNCTION_NAME_NORMALIZE :: "(string \<times> string) list" where
  "RS_FUNCTION_NAME_NORMALIZE =
     [(''router'', ''Router''), (''apbookeeper'', ''APbookeeper''), (''bankbookeeper'', ''Bankbookeeper''), (''onboarding'', ''Onboarding'')]"

definition rs_function_name :: "pyval \<Rightarrow> pyval" where
  "rs_function_name raw_fn =
     (let key = (case raw_fn of PStr t \<Rightarrow> py_lower t | _ \<Rightarrow> []) in
      case map_of RS_FUNCTION_NAME_NORMALIZE key of None \<Rightarrow> raw_fn | Some name \<Rightarrow> PStr name)"

definition rs_additional_info :: "fb \<Rightarrow> pyval \<Rightarrow> bool \<times> string" where
  "rs_additional_info fb additional_info =
     (if truthy additional_info
      then (True, case additional_info of
              PStr t \<Rightarrow> (case fb_loads fb t of None \<Rightarrow> t | Some parsed \<Rightarrow> fb_indented fb parsed)
            | _ \<Rightarrow> fb_indented fb additional_info)
      else (False, []))"

definition rs_transform_notification :: "fb \<Rightarrow> pyval \<Rightarrow> pydict \<Rightarrow> pydict" where
  "rs_transform_notification fb docid data =
     (let additional_info = dget_or data ''additional_info'' (PStr []);
          formatted = rs_additional_info fb additional_info;
          function_name = rs_function_name (dget_or data ''function_name'' (dget_or data ''functionName'' (PStr ''Router'')));
          file_name = either_key data ''file_name'' ''fileName'' (PStr []);
          status = dget_or data ''status'' (PStr ''pending'');
          message = dget_or data ''message'' (PStr []) in
      [(''docId'', docid),
       (''message'', if \<not> truthy message \<and> truthy file_name then PStr (py_str (fb_show fb) file_name @ '' - '' @ py_str (fb_show fb) status) else message),
       (''fileName'', file_name),
       (''collectionId'', either_key data ''collection_id'' ''collectionId'' (PStr [])),
       (''collectionName'', either_key data ''collection_name'' ''collectionName'' (PStr [])),
       (''status'', status),
       (''read'', dget_or data ''read'' (PBool False)),
       (''jobId'', either_key data ''job_id'' ''jobId'' (PStr [])),
       (''fileId'', either_key data ''file_id'' ''fileId'' (PStr [])),
       (''functionName'', function_name),
       (''timestamp'', PStr (notification_timestamp (fb_show fb) (dget data ''timestamp''))),
       (''additionalInfo'', additional_info),
       (''hasAdditionalInfo'', PBool (fst formatted)),
       (''additionalInfoFormatted'', PStr (snd formatted)),
       (''driveLink'', either_key data ''drive_link'' ''driveLink'' (PStr [])),
       (''batchId'', either_key data ''batch_id'' ''batchId'' (PStr []))])"

text \<open>The message with the fields of the nested update that it lacks.\<close>

definition flat_message :: "pydict \<Rightarrow> pydict" where
  "flat_message md = (case nested_update md of PDict nested \<Rightarrow> foldl (\<lambda>flat p. set_default flat (fst p) (snd p)) md nested | _ \<Rightarrow> md)"

text \<open>The notification replaces the one with its identifier; \<open>update\<close> is reported when there was one.\<close>

definition upsert_notification :: "pyval \<Rightarrow> pydict \<Rightarrow> pyval \<Rightarrow> (string \<times> pyval) result" where
  "upsert_notification docid notification_data v =
     rbind (as_dict (case v of PList xs \<Rightarrow> PDict [(''items'', PList xs)] | _ \<Rightarrow> v)) (\<lambda>notif_cache.
     rbind (py_iter (dget_or notif_cache ''items'' (PList []))) (\<lambda>xs.
     rbind (rmap as_dict xs) (\<lambda>notif_items.
       let others = filter (\<lambda>it. dget it ''docId'' \<noteq> docid) notif_items in
       Inr (if length others < length notif_items then ''update'' else ''new'',
            PDict (dset notif_cache ''items'' (PList (take 100 (PDict notification_data # map PDict others))))))))"

definition notifications_key :: "string \<Rightarrow> string" where
  "notifications_key uid = ''user:'' @ uid @ '':notifications''"

definition cache_notification :: "'s redis \<Rightarrow> string \<Rightarrow> pyval \<Rightarrow> pydict \<Rightarrow> 's \<Rightarrow> string \<times> 's" where
  "cache_notification rc uid docid notification_data s =
     (case r_get rc (notifications_key uid) s of
        (Inl _, s1) \<Rightarrow> (''new'', s1)
      | (Inr raw_notif, s1) \<Rightarrow>
          (case upsert_notification docid notification_data (cached_value raw_notif) of
             Inl _ \<Rightarrow> (''new'', s1)
           | Inr (ws_action, notif_cache) \<Rightarrow> (ws_action, snd (r_setex rc (notifications_key uid) (get_ttl_for_cache USER None) (json_dumps notif_cache) s1))))"

definition sliceable :: "pyval \<Rightarrow> bool" where
  "sliceable v = (case v of PStr _ \<Rightarrow> True | PList _ \<Rightarrow> True | _ \<Rightarrow> False)"

definition notification_event :: "string \<Rightarrow> pydict \<Rightarrow> pydict" where
  "notification_event ws_action notification_data =
     [(''type'', PStr ''notification.delta''), (''payload'', PDict [(''action'', PStr ws_action), (''data'', PDict notification_data)])]"

definition handle_notification_message :: "fb \<Rightarrow> 's sub \<Rightarrow> (conn \<Rightarrow> bool) \<Rightarrow> string \<Rightarrow> pydict \<Rightarrow> ('s, 'z) node_scheme \<Rightarrow> ('s, 'z) node_scheme" where
  "handle_notification_message fb sb send_ok uid md n =
     (let docid = resolve_notification_doc_id md in
      if \<not> truthy docid then n
      else case on_srv (get_document (sb_fs sb) (''clients/'' @ uid @ ''/notifications/'' @ py_str (fb_show fb) docid)) n of
        (raw_doc, n1) \<Rightarrow>
          let notification_data = rs_transform_notification fb docid (case raw_doc of Some d \<Rightarrow> d | None \<Rightarrow> flat_message md) in
          case on_srv (cache_notification (sb_redis sb) uid docid notification_data) n1 of
            (ws_action, n2) \<Rightarrow>
              if is_user_connected (n_hub n1) uid \<and> sliceable (dget notification_data ''fileName'') \<and> sliceable (dget notification_data ''message'')
              then snd (hub_broadcast (sb_redis sb) send_ok uid (notification_event ws_action notification_data) n2)
              else n2)"

subsection \<open>Direct messages\<close>

definition transform_direct_message :: "pydict \<Rightarrow> pydict result" where
  "transform_direct_message md =
     (if dget_or md ''action_type'' (PStr ''new'') = PStr ''remove''
      then Inr [(''docId'', either_key md ''message_id'' ''docId'' (PStr []))]
      else rbind (as_dict (dget_or md ''data'' (PDict md))) (\<lambda>raw.
        Inr [(''docId'', dget_or md ''message_id'' (PStr [])),
             (''message'', either_key raw ''message'' ''status'' (PStr [])),
             (''fileName'', either_key raw ''file_name'' ''fileName'' (PStr [])),
             (''collectionId'', either_key raw ''collection_id'' ''collectionId'' (PStr [])),
             (''collectionName'', either_key raw ''collection_name'' ''collectionName'' (PStr [])),
             (''status'', dget_or raw ''status'' (PStr [])),
             (''jobId'', either_key raw ''job_id'' ''jobId'' (PStr [])),
             (''fileId'', either_key raw ''file_id'' ''fileId'' (PStr [])),
             (''functionName'', either_key raw ''function_name'' ''functionName'' (PStr ''Chat'')),
             (''timestamp'', dget_or raw ''timestamp'' (dget_or md ''timestamp'' (PStr []))),
             (''chatMode'', either_key raw ''chat_mode'' ''chatMode'' (PStr [])),
             (''threadKey'', either_key raw ''thread_key'' ''threadKey'' (PStr [])),
             (''driveLink'', either_key raw ''drive_link'' ''driveLink'' (PStr [])),
             (''batchId'', either_key raw ''batch_id'' ''batchId'' (PStr []))]))"

definition direct_payload :: "pydict \<Rightarrow> pydict \<Rightarrow> pydict" where
  "direct_payload md transformed_data = [(''action'', dget_or md ''action_type'' (PStr ''new'')), (''data'', PDict transformed_data)]"

definition handle_direct_message_message :: "'s sub \<Rightarrow> (conn \<Rightarrow> bool) \<Rightarrow> string \<Rightarrow> pydict \<Rightarrow> ('s, 'z) node_scheme \<Rightarrow> ('s, 'z) node_scheme" where
  "handle_direct_message_message sb send_ok uid md n =
     (case transform_direct_message md of
        Inl _ \<Rightarrow> n
      | Inr transformed_data \<Rightarrow>
          let payload = direct_payload md transformed_data;
              n1 = snd (on_srv (update_cache (sb_redis sb) (''user:'' @ uid @ '':messages'') payload (get_ttl_for_cache USER None)) n) in
          if is_user_connected (n_hub n) uid
          then run_scheduled (sb_redis sb) send_ok (publish_on (\<lambda>h. publish_user_event (sb_redis sb) h uid ''messenger.delta'' payload (Some ''messages'')) ([], n1))
          else n1)"

subsection \<open>Pending approvals\<close>

definition PENDING_DEPT_MAP :: "(string \<times> string) list" where
  "PENDING_DEPT_MAP = [(''routing'', ''router''), (''banking'', ''banker''), (''bankbookeeper'', ''banker''), (''accounting'', ''apbookeeper'')]"

definition pending_department :: "pyval \<Rightarrow> string result" where
  "pending_department raw_department =
     (if \<not> truthy raw_department then Inr []
      else rbind (as_str raw_department) (\<lambda>t. Inr (case map_of PENDING_DEPT_MAP (py_lower t) of Some d \<Rightarrow> d | None \<Rightarrow> py_lower t)))"

text \<open>\<open>str(v) if v else ""\<close>.\<close>

definition str_if :: "(pyval \<Rightarrow> string) \<Rightarrow> pyval \<Rightarrow> pyval" where
  "str_if show v = PStr (if truthy v then py_str show v else [])"

definition confidence_str :: "pyval \<Rightarrow> pyval result" where
  "confidence_str c = (if truthy c then rbind (as_num c) (\<lambda>q. Inr (PStr (int_str (py_int (q * 100)) @ ''%''))) else Inr (PStr ''0%''))"

definition confidence_color :: "pyval \<Rightarrow> pyval result" where
  "confidence_color c = rbind (as_num c) (\<lambda>q. Inr (PStr (if 8 / 10 \<le> q then ''green'' else if 5 / 10 \<le> q then ''yellow'' else ''red'')))"

definition approval_item :: "(pyval \<Rightarrow> string) \<Rightarrow> pyval \<Rightarrow> pydict \<Rightarrow> pydict result" where
  "approval_item show job_id item_data =
     (let raw_years = dget_or item_data ''available_years'' (PList []);
          confidence_score = dget_or item_data ''confidence_score'' (PNum 0);
          selected_service = py_or (dget_or item_data ''selected_service'' (PStr [])) (dget_or item_data ''service'' (PStr []));
          selected_year = str_if show (dget_or item_data ''selected_fiscal_year'' (PStr [])) in
      rbind (if truthy raw_years then rbind (py_iter raw_years) (\<lambda>ys. Inr (map (\<lambda>y. PStr (py_str show y)) ys)) else Inr []) (\<lambda>available_years.
      rbind (confidence_str confidence_score) (\<lambda>score_str.
      rbind (confidence_color confidence_score) (\<lambda>color.
        Inr [(''id'', dget_or item_data ''id'' job_id),
             (''fileName'', dget_or item_data ''file_name'' (PStr [])),
             (''account'', dget_or item_data ''account'' (PStr [])),
             (''agentNote'', py_or (dget_or item_data ''selected_motivation'' (PStr [])) (dget_or item_data ''agent_note'' (PStr []))),
             (''confidenceScore'', confidence_score), (''confidenceScoreStr'', score_str), (''confidenceColor'', color),
             (''driveFileId'', dget_or item_data ''drive_file_id'' (PStr [])),
             (''createdAt'', dget_or item_data ''timestamp'' (PStr [])),
             (''contextPayload'', dget_or item_data ''context_payload'' (PDict [])),
             (''availableServices'', dget_or item_data ''service_list'' (PList [])),
             (''availableYears'', PList available_years),
             (''selectedService'', selected_service), (''selectedFiscalYear'', selected_year),
             (''suggestedService'', selected_service), (''suggestedYear'', selected_year),
             (''instructions'', dget_or item_data ''instructions'' (PStr [])),
             (''jobId'', dget_or item_data ''job_id'' job_id),
             (''fileId'', dget_or item_data ''file_id'' (PStr [])),
             (''driveLink'', dget_or item_data ''drive_link'' (PStr []))]))))"

definition approval_event :: "(pyval \<Rightarrow> string) \<Rightarrow> string \<Rightarrow> pydict \<Rightarrow> pydict result" where
  "approval_event show department md =
     (let job_id = dget_or md ''job_id'' (PStr ''unknown'') in
      rbind (as_dict (dget_or md ''data'' (PDict []))) (\<lambda>item_data.
      rbind (approval_item show job_id item_data) (\<lambda>formatted_item.
        Inr [(''action'', dget_or md ''action'' (PStr ''add'')), (''item'', PDict formatted_item), (''job_id'', job_id), (''department'', PStr department)])))"

definition approvals_key :: "string \<Rightarrow> string" where
  "approvals_key company_id = ''approvals:'' @ company_id"

text \<open>The identifier of a company is a text, as in the other channels; another value is treated like an exception.\<close>

definition handle_pending_approval_message :: "'s sub \<Rightarrow> (conn \<Rightarrow> bool) \<Rightarrow> string \<Rightarrow> pydict \<Rightarrow> ('s, 'z) node_scheme \<Rightarrow> ('s, 'z) node_scheme" where
  "handle_pending_approval_message sb send_ok uid md n =
     (case (as_str (dget_or md ''company_id'' (PStr [])), pending_department (dget_or md ''department'' (PStr []))) of
        (Inr company_id, Inr department) \<Rightarrow>
          if company_id = [] then n
          else
            let n1 = snd (on_srv (r_delete (sb_redis sb) [approvals_key company_id]) n) in
            if is_user_connected (n_hub n1) uid
            then (case on_srv (get_user_context (sb_redis sb) (n_hub n1) uid) n1 of
                    (context, n2) \<Rightarrow>
                      if ctx_company_id context = Some (Raw company_id) \<and> current_domain context = Some ''dashboard''
                      then (case approval_event (sb_show sb) department md of
                              Inl _ \<Rightarrow> n2
                            | Inr ws_payload \<Rightarrow> run_scheduled (sb_redis sb) send_ok
                                (publish_on (\<lambda>h. publish_dashboard_event (sb_redis sb) h uid company_id ''dashboard.pending_approval_update'' ws_payload) ([], n2)))
                      else n2)
            else n1
      | _ \<Rightarrow> n)"

section \<open>Lemmas\<close>

subsection \<open>Notifications\<close>

text \<open>The document behind a path, the notification a message stands for, and what handling it does to the list and to the connections.\<close>

definition document_at :: "fview \<Rightarrow> string \<Rightarrow> pydict option" where
  "document_at docs path = (let parts = split_on CHR ''/'' path in
     if odd (length parts) then None else map_option (\<lambda>d. dset d ''id'' (PStr (last parts))) (docs (py_join ''/'' (butlast parts)) (last parts)))"

definition notification_of :: "fb \<Rightarrow> fview \<Rightarrow> string \<Rightarrow> pydict \<Rightarrow> pydict" where
  "notification_of fb docs uid md =
     (let docid = resolve_notification_doc_id md in
      rs_transform_notification fb docid (case document_at docs (''clients/'' @ uid @ ''/notifications/'' @ py_str (fb_show fb) docid) of Some d \<Rightarrow> d | None \<Rightarrow> flat_message md))"

definition put_notification :: "pydict \<Rightarrow> pydict list \<Rightarrow> pydict list" where
  "put_notification nd xs = take 100 (nd # filter (\<lambda>it. dget it ''docId'' \<noteq> dget nd ''docId'') xs)"

definition delta_for :: "pydict \<Rightarrow> pydict list \<Rightarrow> pydict" where
  "delta_for nd xs = notification_event (if \<exists>it \<in> set xs. dget it ''docId'' = dget nd ''docId'' then ''update'' else ''new'') nd"

fun put_all :: "pydict list \<Rightarrow> pydict list \<Rightarrow> pydict list" where
  "put_all [] xs = xs"
| "put_all (nd # nds) xs = put_all nds (put_notification nd xs)"

fun deltas :: "pydict list \<Rightarrow> pydict list \<Rightarrow> pydict list" where
  "deltas [] xs = []"
| "deltas (nd # nds) xs = delta_for nd xs # deltas nds (put_notification nd xs)"

definition holds_items :: "rview \<Rightarrow> string \<Rightarrow> pydict list \<Rightarrow> bool" where
  "holds_items vw k xs \<longleftrightarrow> str_key vw k \<and>
     (case str_at vw k of
        None \<Rightarrow> xs = []
      | Some (Json (PDict c)) \<Rightarrow> dget_or c ''items'' (PList []) = PList (map PDict xs)
      | Some (Json (PList ys)) \<Rightarrow> ys = map PDict xs
      | _ \<Rightarrow> False)"

lemma docId_transform: "dget (rs_transform_notification fb docid d) ''docId'' = docid"
  by (simp add: rs_transform_notification_def dget_def Let_def)

lemma docId_notification: "dget (notification_of fb docs uid md) ''docId'' = resolve_notification_doc_id md"
  by (simp add: notification_of_def docId_transform Let_def)

lemma rmap_dicts: "rmap as_dict (map PDict xs) = Inr xs"
  by (induction xs) (simp_all add: as_dict_def)

lemma others_fewer: "length (filter P xs) < length xs \<longleftrightarrow> (\<exists>x \<in> set xs. \<not> P x)"
  by (metis filter_id_conv length_filter_less nless_le)

lemma upsert_eq:
  assumes "dget nd ''docId'' = docid" and "rbind (as_dict (case v of PList xs \<Rightarrow> PDict [(''items'', PList xs)] | _ \<Rightarrow> v)) Inr = Inr c" and "dget_or c ''items'' (PList []) = PList (map PDict xs)"
  shows "upsert_notification docid nd v =
    Inr (if \<exists>it \<in> set xs. dget it ''docId'' = docid then ''update'' else ''new'', PDict (dset c ''items'' (PList (map PDict (put_notification nd xs)))))"
  using assms by (auto simp: upsert_notification_def rbind_def rmap_dicts others_fewer put_notification_def take_map Let_def split: sum.splits) blast

lemma holds_upsert:
  assumes "holds_items vw k xs" and "dget nd ''docId'' = docid"
  obtains c where "upsert_notification docid nd (cached_value (str_at vw k)) =
    Inr (if \<exists>it \<in> set xs. dget it ''docId'' = docid then ''update'' else ''new'', PDict (dset c ''items'' (PList (map PDict (put_notification nd xs)))))"
proof -
  obtain c where "rbind (as_dict (case cached_value (str_at vw k) of PList xs \<Rightarrow> PDict [(''items'', PList xs)] | _ \<Rightarrow> cached_value (str_at vw k))) Inr = Inr c"
    "dget_or c ''items'' (PList []) = PList (map PDict xs)"
    using assms(1) by (auto simp: holds_items_def cached_value_def as_dict_def dget_or_def split: option.splits text_val.splits pyval.splits)
  from upsert_eq [OF assms(2) this] show thesis by (rule that)
qed

lemma user_ttl_pos: "0 < get_ttl_for_cache USER None"
  by (simp add: get_ttl_for_cache_def ttl_defs)

context redis_up
begin

lemma cache_notification_up:
  assumes "holds_items (view s) (notifications_key uid) xs" and "dget nd ''docId'' = docid"
  obtains s' where "cache_notification rc uid docid nd s = (if \<exists>it \<in> set xs. dget it ''docId'' = docid then ''update'' else ''new'', s')"
    "holds_items (view s') (notifications_key uid) (put_notification nd xs)" "\<And>k. k \<noteq> notifications_key uid \<Longrightarrow> view s' k = view s k"
proof -
  let ?k = "notifications_key uid"
  have "str_key (view s) ?k" using assms(1) by (simp add: holds_items_def)
  then obtain s1 where 1: "r_get rc ?k s = (Inr (str_at (view s) ?k), s1)" "view s1 = view s" by (rule get_up)
  obtain c where c: "upsert_notification docid nd (cached_value (str_at (view s) ?k)) =
    Inr (if \<exists>it \<in> set xs. dget it ''docId'' = docid then ''update'' else ''new'', PDict (dset c ''items'' (PList (map PDict (put_notification nd xs)))))"
    by (rule holds_upsert [OF assms])
  let ?t = "json_dumps (PDict (dset c ''items'' (PList (map PDict (put_notification nd xs)))))"
  obtain s2 where 2: "r_setex rc ?k (get_ttl_for_cache USER None) ?t s1 = (Inr (), s2)" "view s2 = (view s1)(?k \<mapsto> (VStr ?t, Some (get_ttl_for_cache USER None)))"
    by (rule setex_up [OF user_ttl_pos])
  show thesis
    by (rule that [of s2]) (use 1 2 c in \<open>simp_all add: cache_notification_def holds_items_def str_key_def str_at_def dget_or_def json_dumps_def\<close>)
qed

end

lemma get_document_path:
  assumes "firestore_up fs docs" and "path \<noteq> []" and "hd path \<noteq> CHR ''/''"
  shows "fst (get_document fs path s) = document_at (docs s) path"
proof -
  let ?parts = "split_on CHR ''/'' path"
  have p: "(case path of c # cs \<Rightarrow> if c = CHR ''/'' then cs else path | [] \<Rightarrow> []) = path" using assms(2,3) by (cases path) auto
  obtain s' where "f_get fs (py_join ''/'' (butlast ?parts)) (last ?parts) s = (Inr (docs s (py_join ''/'' (butlast ?parts)) (last ?parts)), s')"
    by (rule firestore_up.f_get_up [OF assms(1)])
  then show ?thesis unfolding get_document_def document_at_def p by (simp add: Let_def seq_defs)
qed

context reporting
begin

text \<open>The caches of notifications and the documents, before and after one message.\<close>

lemma cache_notification_docs: "docs (snd (cache_notification (sb_redis sb) uid docid nd s)) = docs s"
  using preservesD [OF get_docs] preservesD [OF setex_docs]
  by (auto simp: cache_notification_def split: prod.split sum.split) (metis snd_conv)+

lemma notification_step:
  fixes n :: "('s, 'z) node_scheme"
  assumes "holds_items (view (n_srv n)) (notifications_key uid) xs" and "truthy (resolve_notification_doc_id md)" and "\<And>c. send_ok c"
    and "nd = notification_of fb (docs (n_srv n)) uid md" and "n' = handle_notification_message fb sb send_ok uid md n"
  shows "holds_items (view (n_srv n')) (notifications_key uid) (put_notification nd xs)" and "docs (n_srv n') = docs (n_srv n)" and "n_hub n' = n_hub n"
    and "n_sent n' = n_sent n @ (if is_user_connected (n_hub n) uid \<and> sliceable (dget nd ''fileName'') \<and> sliceable (dget nd ''message'')
           then sent_to (n_hub n) uid (delta_for nd xs) else [])"
proof -
  let ?path = "''clients/'' @ uid @ ''/notifications/'' @ py_str (fb_show fb) (resolve_notification_doc_id md)"
  obtain d s1 where g: "get_document (sb_fs sb) ?path (n_srv n) = (d, s1)" by fastforce
  have d: "d = document_at (docs (n_srv n)) ?path" using get_document_path [OF fs.firestore_up_axioms, of ?path "n_srv n"] g by simp
  have s1: "view s1 = view (n_srv n)" "docs s1 = docs (n_srv n)"
    using preserves_eq [OF document_view g] preserves_eq [OF document_docs g] by simp_all
  have nd: "nd = rs_transform_notification fb (resolve_notification_doc_id md) (case d of Some d \<Rightarrow> d | None \<Rightarrow> flat_message md)"
    using assms(4) d by (simp add: notification_of_def Let_def)
  have i: "dget nd ''docId'' = resolve_notification_doc_id md" by (simp add: nd docId_transform)
  have h1: "holds_items (view s1) (notifications_key uid) xs" using assms(1) s1(1) by simp
  let ?a = "if \<exists>it \<in> set xs. dget it ''docId'' = resolve_notification_doc_id md then ''update'' else ''new''"
  obtain s2 where c: "cache_notification (sb_redis sb) uid (resolve_notification_doc_id md) nd s1 = (?a, s2)"
    "holds_items (view s2) (notifications_key uid) (put_notification nd xs)"
    by (rule cache_notification_up [OF h1 i])
  have s2: "docs s2 = docs (n_srv n)" using cache_notification_docs [of uid "resolve_notification_doc_id md" nd s1] c(1) s1(2) by simp
  have e: "notification_event ?a nd = delta_for nd xs" by (simp add: delta_for_def i)
  have b: "hub_broadcast (sb_redis sb) send_ok uid (delta_for nd xs) m = (Inr (), m\<lparr>n_sent := n_sent m @ sent_to (n_hub m) uid (delta_for nd xs)\<rparr>)" for m :: "('s, 'z) node_scheme"
    by (rule hub_broadcast_open) (simp_all add: thread_key_normalize delta_for_def notification_event_def assms(3))
  have step: "n' = (if is_user_connected (n_hub n) uid \<and> sliceable (dget nd ''fileName'') \<and> sliceable (dget nd ''message'')
      then snd (hub_broadcast (sb_redis sb) send_ok uid (notification_event ?a nd) (n\<lparr>n_srv := s2\<rparr>)) else n\<lparr>n_srv := s2\<rparr>)"
    using assms(2) g c(1) unfolding assms(5) handle_notification_message_def Let_def on_srv_def by (simp add: nd [symmetric])
  have n': "n' = (if is_user_connected (n_hub n) uid \<and> sliceable (dget nd ''fileName'') \<and> sliceable (dget nd ''message'')
      then n\<lparr>n_srv := s2, n_sent := n_sent n @ sent_to (n_hub n) uid (delta_for nd xs)\<rparr> else n\<lparr>n_srv := s2\<rparr>)"
    unfolding step e by (simp add: b)
  show "holds_items (view (n_srv n')) (notifications_key uid) (put_notification nd xs)" "docs (n_srv n') = docs (n_srv n)" "n_hub n' = n_hub n"
    "n_sent n' = n_sent n @ (if is_user_connected (n_hub n) uid \<and> sliceable (dget nd ''fileName'') \<and> sliceable (dget nd ''message'')
       then sent_to (n_hub n) uid (delta_for nd xs) else [])"
    using n' c(2) s2 by simp_all
qed

end

definition handle_notifications :: "fb \<Rightarrow> 's sub \<Rightarrow> (conn \<Rightarrow> bool) \<Rightarrow> string \<Rightarrow> pydict list \<Rightarrow> ('s, 'z) node_scheme \<Rightarrow> ('s, 'z) node_scheme" where
  "handle_notifications fb sb send_ok uid mds n = foldl (\<lambda>n md. handle_notification_message fb sb send_ok uid md n) n mds"

context reporting
begin

lemma notifications_run:
  fixes n :: "('s, 'z) node_scheme"
  assumes "holds_items (view (n_srv n)) (notifications_key uid) xs" and "\<forall>md \<in> set mds. truthy (resolve_notification_doc_id md)" and "\<And>c. send_ok c"
    and "is_user_connected (n_hub n) uid" and "nds = map (notification_of fb (docs (n_srv n)) uid) mds"
    and "\<forall>nd \<in> set nds. sliceable (dget nd ''fileName'') \<and> sliceable (dget nd ''message'')" and "n' = handle_notifications fb sb send_ok uid mds n"
  shows "holds_items (view (n_srv n')) (notifications_key uid) (put_all nds xs) \<and> n_sent n' = n_sent n @ concat (map (sent_to (n_hub n) uid) (deltas nds xs))"
  using assms
proof (induction mds arbitrary: n xs nds)
  case (Cons md mds)
  let ?nd = "notification_of fb (docs (n_srv n)) uid md" and ?m = "handle_notification_message fb sb send_ok uid md n"
  have t: "truthy (resolve_notification_doc_id md)" using Cons.prems(2) by simp
  note st = notification_step [OF Cons.prems(1) t Cons.prems(3) refl refl, where fb = fb]
  have "holds_items (view (n_srv n')) (notifications_key uid) (put_all (map (notification_of fb (docs (n_srv ?m)) uid) mds) (put_notification ?nd xs)) \<and>
      n_sent n' = n_sent ?m @ concat (map (sent_to (n_hub ?m) uid) (deltas (map (notification_of fb (docs (n_srv ?m)) uid) mds) (put_notification ?nd xs)))"
    by (rule Cons.IH [OF st(1) _ Cons.prems(3) _ refl]) (use Cons.prems st(2,3) in \<open>simp_all add: handle_notifications_def\<close>)
  then show ?case using st Cons.prems by simp
qed (simp add: handle_notifications_def)

end

lemma put_notification_unique: "distinct (map (\<lambda>it. dget it ''docId'') xs) \<Longrightarrow> distinct (map (\<lambda>it. dget it ''docId'') (put_notification nd xs))"
proof -
  assume d: "distinct (map (\<lambda>it. dget it ''docId'') xs)"
  have "distinct (map (\<lambda>it. dget it ''docId'') (nd # filter (\<lambda>it. dget it ''docId'' \<noteq> dget nd ''docId'') xs))"
    using distinct_map_filter [OF d, of "\<lambda>it. dget it ''docId'' \<noteq> dget nd ''docId''"] by (simp add: image_iff) metis
  then show ?thesis unfolding put_notification_def by (simp only: take_map [symmetric] distinct_take)
qed

lemma put_all_invariant:
  "distinct (map (\<lambda>it. dget it ''docId'') xs) \<Longrightarrow> length xs \<le> 100 \<Longrightarrow>
   distinct (map (\<lambda>it. dget it ''docId'') (put_all nds xs)) \<and> length (put_all nds xs) \<le> 100"
proof (induction nds arbitrary: xs)
  case (Cons nd nds)
  then show ?case using Cons.IH [OF put_notification_unique [OF Cons.prems(1)]] by (simp add: put_notification_def)
qed simp

text \<open>The last notification is at the head of the list, until the next one comes.\<close>

lemma put_all_snoc: "put_all (nds @ [nd]) xs = put_notification nd (put_all nds xs)"
  by (induction nds arbitrary: xs) simp_all

subsection \<open>Direct messages\<close>

context redis_up
begin

lemma direct_message_view:
  assumes "rc = sb_redis sb" and "transform_direct_message md = Inr d" and "ctx_keys_ok (view (n_srv n)) uid" and "str_key (view (n_srv n)) (''user:'' @ uid @ '':messages'')"
    and "is_user_connected (n_hub n) uid" and "n' = handle_direct_message_message sb send_ok uid md n"
  obtains t t' where "view (n_srv n') = cache_after (cache_after (view (n_srv n)) (''user:'' @ uid @ '':messages'') (direct_payload md d) t) (''user:'' @ uid @ '':messages'') (direct_payload md d) t'"
proof -
  let ?k = "''user:'' @ uid @ '':messages''" and ?p = "direct_payload md d"
  obtain s1 where 1: "update_cache rc ?k ?p (get_ttl_for_cache USER None) (n_srv n) = ((), s1)" "view s1 = cache_after (view (n_srv n)) ?k ?p (get_ttl_for_cache USER None)"
    by (rule update_cache_up [OF assms(4) user_ttl_pos])
  have c: "ctx_keys_ok (view s1) uid" "str_key (view s1) ?k" using assms(3,4) 1(2) ctx_keys_cache_after str_key_cache_after by simp_all
  have g: "get_cache_key USER uid None None (Some ''messages'') = Inr ?k" by (simp add: given_def)
  obtain a b s2 where 2: "publish_user_event rc (n_hub n) uid ''messenger.delta'' ?p (Some ''messages'') s1 = (a, b, s2)" "view s2 = cache_after (view s1) ?k ?p TTL_USER_PROFILE"
    by (rule publish_user_up [OF c(1) g c(2)])
  have "plain_broadcasts b" using publish_contextual_plain 2(1) unfolding publish_user_event_def by (metis fst_conv snd_conv)
  then have "n_srv n' = s2" using assms 1(1) 2(1) run_scheduled_srv [of "(b, n\<lparr>n_srv := s2\<rparr>)"]
    by (simp add: handle_direct_message_message_def on_srv_def publish_on_def Let_def)
  then show thesis using that 1(2) 2(2) by metis
qed

end

lemma cache_after_envelope:
  assumes "list_cache vw key" and "map_of data ''action'' = Some (PStr ''new'')" and "map_of data ''item'' = None"
  shows "list_cache (cache_after vw key data ttl) key" and "items_at (cache_after vw key data ttl) key = take 100 (PDict data # items_at vw key)"
proof -
  have a: "dget_or data ''action'' (PStr ''full'') = PStr ''new''" "dget_or data ''item'' (PDict data) = PDict data" using assms(2,3) by (simp_all add: dget_or_def)
  obtain d xs where d: "cached_value (str_at vw key) = PDict d" "dget_or d ''items'' (PList []) = PList xs" "items_at vw key = xs"
    using assms(1) by (auto simp: list_cache_def items_at_def cached_value_def split: option.splits text_val.splits pyval.splits)
  have "cache_after vw key data ttl = vw(key \<mapsto> (VStr (Json (PDict (dset d ''items'' (PList (take 100 (PDict data # xs)))))), Some ttl))"
    using a d by (simp add: cache_after_def cache_apply_def Let_def)
  then show "list_cache (cache_after vw key data ttl) key" "items_at (cache_after vw key data ttl) key = take 100 (PDict data # items_at vw key)"
    using d(3) by (simp_all add: list_cache_def items_at_def)
qed

subsection \<open>Pending approvals\<close>

context redis_up
begin

lemma approval_step:
  fixes n :: "('a, 'z) node_scheme"
  assumes "rc = sb_redis sb" and "dget_or md ''company_id'' (PStr []) = PStr cid" and "cid \<noteq> []" and "pending_department (dget_or md ''department'' (PStr [])) = Inr dep"
    and "approval_event (sb_show sb) dep md = Inr ev" and "watching (view (n_srv n)) (n_hub n) uid cid ''dashboard''"
    and "str_key (view (n_srv n)) (build_business_key uid cid ''dashboard'' None)" and "\<And>c. send_ok c" and "n' = handle_pending_approval_message sb send_ok uid md n"
  shows "view (n_srv n') (approvals_key cid) = None \<and>
    n_sent n' = n_sent n @ sent_to (n_hub n) uid [(''type'', PStr ''dashboard.pending_approval_update''), (''payload'', PDict ev)]"
proof -
  let ?k = "build_business_key uid cid ''dashboard'' None" and ?e = "''dashboard.pending_approval_update''" and ?a = "approvals_key cid"
  let ?m = "[(''type'', PStr ?e), (''payload'', PDict ev)]"
  obtain d s1 where 1: "r_delete rc [?a] (n_srv n) = (Inr d, s1)" and v1: "view s1 = (view (n_srv n))(?a := None)" by (rule delete1_up)
  have ne: "?a \<noteq> page_key uid" "?a \<noteq> build_user_selected_company_key uid" "?a \<noteq> ?k" by (simp_all add: approvals_key_def key_eval)
  have w1: "watching (view s1) (n_hub n) uid cid ''dashboard''" using assms(6) ne unfolding watching_def by (simp add: v1 str_at_def)
  note wc = watching_context [OF w1 assms(3)]
  obtain s2 where 2: "get_user_context rc (n_hub n) uid s1 = (context_of (view s1) (n_hub n) uid, s2)" "view s2 = view s1" by (rule get_user_context_up [OF wc(1)])
  have k2: "ctx_keys_ok (view s2) uid" "str_key (view s2) ?k" using wc(1) 2(2) assms(7) ne by (simp_all add: v1 str_key_def)
  have key: "get_cache_key BUSINESS uid (Some cid) (Some ''dashboard'') None = Inr ?k" using assms(3) by (simp add: given_def)
  have conn: "is_user_connected (n_hub n) uid" "ctx_connected (context_of (view s1) (n_hub n) uid)" "loop_known (n_hub n)" using w1 by (simp_all add: watching_def context_of_def)
  let ?ttl = "Some (ttl_or None (get_ttl_for_domain ''dashboard''))"
  obtain s3 where 3: "publish_dashboard_event rc (n_hub n) uid cid ?e ev s2 = (True, [(uid, ?m)], s3)"
    "view s3 = cache_after (view s2) ?k ev (ttl_or ?ttl (get_ttl_for_cache BUSINESS (Some ''dashboard'')))"
    using publish_up [OF k2(1) key k2(2), of "n_hub n" ?e ev ?ttl] wc(2,3) conn 2(2) assms(3)
    by (auto simp: publish_dashboard_event_def publish_business_event_def given_def broadcast_threadsafe_def)
  have "n' = run_scheduled rc send_ok ([(uid, ?m)], n\<lparr>n_srv := s3\<rparr>)"
    using assms 1 2(1) 3(1) wc(2,3) conn(1) by (simp add: handle_pending_approval_message_def as_str_def on_srv_def publish_on_def Let_def)
  then have "n' = n\<lparr>n_srv := s3, n_sent := n_sent n @ sent_to (n_hub n) uid ?m\<rparr>"
    using hub_broadcast_open [of ?m send_ok rc uid "n\<lparr>n_srv := s3\<rparr>"] thread_key_normalize [of ?m] assms(8) by (simp add: run_scheduled_def)
  moreover have "view s3 ?a = None" using 3(2) 2(2) v1 cache_after_other [OF ne(3)] by simp
  ultimately show ?thesis by simp
qed

end

text \<open>The copies of the subscriber compute what those of the subscription manager do.\<close>

lemma rs_function_name_eq: "rs_function_name v = normalize_function_name v"
proof -
  have "RS_FUNCTION_NAME_NORMALIZE = FUNCTION_NAME_NORMALIZE" by (simp add: RS_FUNCTION_NAME_NORMALIZE_def FUNCTION_NAME_NORMALIZE_def)
  then show ?thesis by (simp add: rs_function_name_def normalize_function_name_def Let_def split: option.split)
qed

lemma rs_additional_info_eq: "rs_additional_info fb v = (truthy v, (case format_additional_info fb v of PStr t \<Rightarrow> t | _ \<Rightarrow> []))"
  by (simp add: rs_additional_info_def format_additional_info_def split: pyval.split option.split)

lemma format_additional_info_text: "\<exists>t. format_additional_info fb v = PStr t"
  by (simp add: format_additional_info_def split: pyval.split option.split)

section \<open>Properties\<close>

definition demo_note :: "string \<Rightarrow> string \<Rightarrow> pydict" where
  "demo_note k st = [(''job_id'', PStr k), (''data'', PDict [(''file_name'', PStr ''a.pdf''), (''status'', PStr st)])]"

text \<open>C19: The notifications on the channel of a connected user implement a list of documents: whatever messages arrive that name a document and whose notification has a
  \<open>fileName\<close> and a \<open>message\<close> that can be sliced for the log (a null one is never sent: \<open>null_file_name_never_sent\<close>), the cached list has the notification of the last message
  at its head, each document once and never more than a hundred, and every connection receives, in the same order, one event for each message,
  \<open>update\<close> when the document was in the list and \<open>new\<close> otherwise.\<close>

theorem notifications_refine_list:
  assumes "reporting sb view tick docs" and "holds_items (view (n_srv n)) (notifications_key uid) xs" and "distinct (map (\<lambda>it. dget it ''docId'') xs)" and "length xs \<le> 100"
    and "\<forall>md \<in> set mds. truthy (resolve_notification_doc_id md)" and "\<And>c. send_ok c" and "is_user_connected (n_hub n) uid"
    and "nds = map (notification_of fb (docs (n_srv n)) uid) mds" and "\<forall>nd \<in> set nds. sliceable (dget nd ''fileName'') \<and> sliceable (dget nd ''message'')"
    and "n' = handle_notifications fb sb send_ok uid mds n"
  shows "holds_items (view (n_srv n')) (notifications_key uid) (put_all nds xs) \<and> distinct (map (\<lambda>it. dget it ''docId'') (put_all nds xs)) \<and>
    length (put_all nds xs) \<le> 100 \<and> (nds \<noteq> [] \<longrightarrow> hd (put_all nds xs) = last nds) \<and> n_sent n' = n_sent n @ concat (map (sent_to (n_hub n) uid) (deltas nds xs))"
proof -
  have "nds \<noteq> [] \<longrightarrow> hd (put_all nds xs) = last nds"
    using put_all_snoc [of "butlast nds" "last nds" xs] by (auto simp: put_notification_def)
  then show ?thesis
    using reporting.notifications_run [OF assms(1,2,5,6,7,8,9,10)] put_all_invariant [OF assms(3,4), of nds] by simp
qed

theorem notifications_refine_list_witness:
  "\<exists>x. holds_items (mem_view (fst (n_srv (handle_notifications demo_fb demo_sub (\<lambda>_. True) ''u'' [demo_note ''n1'' ''pending'', demo_note ''n1'' ''completed''] demo_node)))) (notifications_key ''u'') [x]"
proof -
  let ?mds = "[demo_note ''n1'' ''pending'', demo_note ''n1'' ''completed'']"
  let ?nds = "map (notification_of demo_fb (mem_docs_view (snd (n_srv demo_node))) ''u'') ?mds"
  have e: "holds_items (mem_view (fst (n_srv demo_node))) (notifications_key ''u'') []"
    by (simp add: holds_items_def notifications_key_def demo_node_def demo_bank_def mem_put_def mem_view_def empty_mem_def str_at_def str_key_def key_eval)
  have i: "resolve_notification_doc_id (demo_note ''n1'' st) = PStr ''n1''" for st
    by (simp add: resolve_notification_doc_id_def demo_note_def nested_update_def py_or_def dget_def dget_or_def Let_def)
  have d: "document_at (mem_docs_view (snd (n_srv demo_node))) ''clients/u/notifications/n1'' = None"
    by (simp add: document_at_def mem_docs_view_def demo_node_def on_col_def pending_col_def Let_def)
  have f: "notification_of demo_fb (mem_docs_view (snd (n_srv demo_node))) ''u'' (demo_note ''n1'' st) = rs_transform_notification demo_fb (PStr ''n1'') (flat_message (demo_note ''n1'' st))" for st
    using d by (simp add: notification_of_def i py_str_def Let_def)
  have s: "\<forall>nd \<in> set ?nds. sliceable (dget nd ''fileName'') \<and> sliceable (dget nd ''message'')"
    by (simp add: f) (simp add: flat_message_def nested_update_def demo_note_def py_or_def set_default_def rs_transform_notification_def
        dget_def dget_or_def either_key_def sliceable_def Let_def)
  have "put_all ?nds [] = [last ?nds]" by (simp add: put_notification_def docId_notification i)
  with notifications_refine_list [OF demo_reporting e _ _ _ _ _ refl s refl, of "\<lambda>_. True"] show ?thesis
    using demo_connected i by (auto simp: demo_node_def)
qed

text \<open>A document whose file name is null is put into the cached list but never sent to a connection: a log line slices the value.\<close>

theorem null_file_name_never_sent:
  assumes "reporting sb view tick docs" and "holds_items (view (n_srv n)) (notifications_key uid) xs" and "truthy (resolve_notification_doc_id md)" and "\<And>c. send_ok c"
    and "document_at (docs (n_srv n)) (''clients/'' @ uid @ ''/notifications/'' @ py_str (fb_show fb) (resolve_notification_doc_id md)) = Some d" and "map_of d ''file_name'' = Some PNone"
    and "n' = handle_notification_message fb sb send_ok uid md n"
  shows "n_sent n' = n_sent n \<and> holds_items (view (n_srv n')) (notifications_key uid) (put_notification (notification_of fb (docs (n_srv n)) uid md) xs)"
proof -
  have "dget (notification_of fb (docs (n_srv n)) uid md) ''fileName'' = PNone"
    using assms(5,6) by (simp add: notification_of_def rs_transform_notification_def either_key_def dget_or_def dget_def Let_def)
  then show ?thesis using reporting.notification_step [OF assms(1-4) refl assms(7)] by (simp add: sliceable_def)
qed

text \<open>A direct message for a connected user is cached twice: the handler updates the cache and the publication does so again. What is cached is the event with its action and not the
  message.\<close>

theorem direct_message_cached_twice:
  assumes "redis_up (sb_redis sb) view tick" and "ctx_keys_ok (view (n_srv n)) uid" and "list_cache (view (n_srv n)) (''user:'' @ uid @ '':messages'')" and "is_user_connected (n_hub n) uid"
    and "transform_direct_message md = Inr d" and "map_of md ''action_type'' = None" and "n' = handle_direct_message_message sb send_ok uid md n"
    and "items_at (view (n_srv n)) (''user:'' @ uid @ '':messages'') = xs"
  shows "items_at (view (n_srv n')) (''user:'' @ uid @ '':messages'') = take 100 (PDict (direct_payload md d) # PDict (direct_payload md d) # xs)"
proof -
  let ?k = "''user:'' @ uid @ '':messages''" and ?p = "direct_payload md d"
  have k: "str_key (view (n_srv n)) ?k" using assms(3) by (simp add: list_cache_def)
  have p: "map_of ?p ''action'' = Some (PStr ''new'')" "map_of ?p ''item'' = None" using assms(6) by (simp_all add: direct_payload_def dget_or_def)
  obtain t t' where "view (n_srv n') = cache_after (cache_after (view (n_srv n)) ?k ?p t) ?k ?p t'"
    by (rule redis_up.direct_message_view [OF assms(1) refl assms(5,2) k assms(4,7)])
  then have "items_at (view (n_srv n')) ?k = take 100 (PDict ?p # take 100 (PDict ?p # xs))"
    using cache_after_envelope [OF cache_after_envelope(1) [OF assms(3) p] p, where ttl = t'] cache_after_envelope(2) [OF assms(3) p] assms(8) by simp
  then show ?thesis by (simp add: numeral_eq_Suc)
qed

theorem direct_message_cached_twice_witness:
  "\<exists>e. items_at (mem_view (fst (n_srv (handle_direct_message_message demo_sub (\<lambda>_. True) ''u'' [(''message_id'', PStr ''m1'')] demo_node)))) ''user:u:messages'' = [e, e]"
proof -
  have c: "ctx_keys_ok (mem_view (fst (n_srv demo_node))) ''u''" "list_cache (mem_view (fst (n_srv demo_node))) (''user:'' @ ''u'' @ '':messages'')"
    "items_at (mem_view (fst (n_srv demo_node))) (''user:'' @ ''u'' @ '':messages'') = []"
    by (simp_all add: ctx_keys_ok_def list_cache_def items_at_def demo_node_def demo_bank_def mem_put_def mem_view_def empty_mem_def str_at_def str_key_def key_eval)
  have h: "is_user_connected (n_hub demo_node) ''u''" using demo_connected by (simp add: demo_node_def)
  obtain d where t: "transform_direct_message [(''message_id'', PStr ''m1'')] = Inr d" by (auto simp: transform_direct_message_def dget_or_def as_dict_def)
  from direct_message_cached_twice [OF demo_sub.redis_up_axioms c(1,2) h t _ refl c(3), of "\<lambda>_. True"] show ?thesis by simp
qed

text \<open>A message about a pending approval ends the cached list of approvals of the company, and a user who shows the dashboard of the company receives it on every connection.\<close>

theorem approval_change_forces_reload:
  assumes "redis_up (sb_redis sb) view tick" and "dget_or md ''company_id'' (PStr []) = PStr cid" and "cid \<noteq> []" and "pending_department (dget_or md ''department'' (PStr [])) = Inr dep"
    and "approval_event (sb_show sb) dep md = Inr ev" and "watching (view (n_srv n)) (n_hub n) uid cid ''dashboard''"
    and "str_key (view (n_srv n)) (build_business_key uid cid ''dashboard'' None)" and "\<And>c. send_ok c" and "n' = handle_pending_approval_message sb send_ok uid md n"
  shows "view (n_srv n') (approvals_key cid) = None \<and>
    n_sent n' = n_sent n @ sent_to (n_hub n) uid [(''type'', PStr ''dashboard.pending_approval_update''), (''payload'', PDict ev)]"
  by (rule redis_up.approval_step [OF assms(1) refl assms(2-9)])

text \<open>C36: The subscriber and the subscription manager, which have separate tables and separate code for it, give every document the same form, as the comment of the former
  says, with one exception: a timestamp that is the text of a Firestore sentinel is emptied by the subscriber and kept by the subscription manager.\<close>

theorem notification_formats_agree:
  "rs_transform_notification fb docid data =
     (case dget data ''timestamp'' of
        PStr t \<Rightarrow> if starts_with ''Sentinel:'' t then dset (transform_notification fb docid data) ''timestamp'' (PStr []) else transform_notification fb docid data
      | _ \<Rightarrow> transform_notification fb docid data)"
proof -
  have t: "notification_timestamp (fb_show fb) v = (case v of PStr t \<Rightarrow> if starts_with ''Sentinel:'' t then [] else t | _ \<Rightarrow> serialize_timestamp (fb_show fb) v)" for v
    by (simp add: notification_timestamp_def serialize_timestamp_def split: pyval.split)
  obtain i where i: "format_additional_info fb (dget_or data ''additional_info'' (PStr [])) = PStr i" using format_additional_info_text by blast
  show ?thesis unfolding rs_transform_notification_def transform_notification_def Let_def t rs_function_name_eq rs_additional_info_eq either_key_def fst_conv snd_conv
    by (cases "dget data ''timestamp''") (simp_all add: i serialize_timestamp_def)
qed

end
