(* ===== verification/Job_Chats.thy ===== *)
theory Job_Chats
  imports Task_Reports Card_Wizard Session_State
begin

text \<open>
  The channel \<open>job_chats\<close> of \<open>RedisSubscriber\<close> in \<open>src/app/realtime/redis_subscriber.py\<close>, on which the workers talk to the user of a job. A workflow command goes to the
  browser when one of its tabs shows the thread; a card goes to the browser, to the external chat of the company or into a direct message, and to the agent; any other message goes to
  the agent through the gateway of the language model. The handler is where the session state, the transformer of cards, the dispatcher, the gateway, the hub and the
  publisher meet.

  \<open>ch_push\<close> is the push of the realtime database, \<open>ids\<close> has the identifiers and times a message is handled with. The identifiers of a message and the names
  of department and chat are texts; another value is treated like an exception. Tasks the handler creates run when it has finished, in the
  order of their creation. Log output is left out.
\<close>

section \<open>Definitions\<close>

record ('s, 'd) chat =
  ch_comm :: "'s comm"
  ch_dates :: "'d datetimes"
  ch_push :: "string \<Rightarrow> pydict \<Rightarrow> 's \<Rightarrow> string result \<times> 's"

record chat_ids =
  id_card :: string
  id_wizard :: string
  id_queue :: string
  at_now :: string
  at_expiry :: string

subsection \<open>Direct messages about a job\<close>

definition CARD_ID_TO_DEPARTMENT :: "(string \<times> string) list" where
  "CARD_ID_TO_DEPARTMENT = [(''klk_router_card'', ''Router''), (''klk_router_approval_card'', ''Router''), (''four_eyes_approval_card'', ''Router''), (''approval_card'', ''APbookeeper''),
     (''job_menu_card'', ''APbookeeper''), (''bank_list_file_card'', ''Bankbookeeper''), (''bank_file_list_card'', ''Bankbookeeper''), (''email_draft_approval_card'', ''Router''),
     (''journal_entry_approval_card'', ''Accounting'')]"

definition DEPARTMENT_MESSAGES :: "(string \<times> string) list" where
  "DEPARTMENT_MESSAGES = [(''Router'', ''Approval required for document routing''), (''APbookeeper'', ''Approval required for invoice processing''),
     (''Bankbookeeper'', ''Action required on bank transaction'')]"

definition card_department :: "pydict option \<Rightarrow> string" where
  "card_department card_data =
     (case card_data of
        Some (c # cs) \<Rightarrow> (case dget_or (c # cs) ''cardId'' (PStr []) of PStr card_id \<Rightarrow> (case map_of CARD_ID_TO_DEPARTMENT card_id of Some d \<Rightarrow> d | None \<Rightarrow> ''Chat'') | _ \<Rightarrow> ''Chat'')
      | _ \<Rightarrow> ''Chat'')"

definition department_message :: "string \<Rightarrow> string" where
  "department_message function_name = (case map_of DEPARTMENT_MESSAGES function_name of Some m \<Rightarrow> m | None \<Rightarrow> ''Response required'')"

definition notif_data :: "string \<Rightarrow> string \<Rightarrow> string \<Rightarrow> chat_ids \<Rightarrow> pydict" where
  "notif_data function_name collection_name thread_key ids =
     [(''job_id'', PStr thread_key), (''function_name'', PStr function_name), (''collection_id'', PStr collection_name), (''collection_name'', PStr collection_name),
      (''status'', PStr ''Action required''), (''message'', PStr (department_message function_name)), (''timestamp'', PStr (at_now ids)), (''expires_at'', PStr (at_expiry ids))]"

definition with_file :: "(pyval \<Rightarrow> string) \<Rightarrow> pydict \<Rightarrow> string \<Rightarrow> pydict \<Rightarrow> pydict" where
  "with_file show item human_message notif =
     (let file_name = dget_or item ''file_name'' (PStr []) in
      if truthy file_name then dset notif ''message'' (PStr (human_message @ '': '' @ py_str show file_name)) else notif)"

text \<open>A department that is not a text cannot be looked up; what has been written before stays.\<close>

definition enrich_from :: "(pyval \<Rightarrow> string) \<Rightarrow> string \<Rightarrow> pydict \<Rightarrow> pydict \<Rightarrow> pydict" where
  "enrich_from show function_name item notif =
     (let n1 = dset (dset (dset notif ''file_name'' (dget_or item ''file_name'' (PStr []))) ''file_id'' (dget_or item ''file_id'' (PStr []))) ''mandate_path'' (dget_or item ''mandate_path'' (PStr []));
          cached_dept = dget_or item ''department'' (PStr []) in
      if function_name = ''Chat'' \<and> truthy cached_dept
      then let n2 = dset n1 ''function_name'' cached_dept in
           (case cached_dept of
              PStr d \<Rightarrow> with_file show item (department_message d) (dset n2 ''message'' (PStr (department_message d)))
            | PList _ \<Rightarrow> n2
            | PDict _ \<Rightarrow> n2
            | _ \<Rightarrow> with_file show item ''Response required'' (dset n2 ''message'' (PStr ''Response required'')))
      else with_file show item (department_message function_name) n1)"

definition enrich_notif :: "(pyval \<Rightarrow> string) \<Rightarrow> string \<Rightarrow> string \<Rightarrow> text_val option \<Rightarrow> pydict \<Rightarrow> pydict" where
  "enrich_notif show thread_key function_name cached notif =
     (case cached of
        Some (Json (PList items)) \<Rightarrow>
          (case find (\<lambda>v. Billing_Cache.is_dict v \<and> dget (dict_of v) ''job_id'' = PStr thread_key) items of
             Some v \<Rightarrow> enrich_from show function_name (dict_of v) notif
           | None \<Rightarrow> notif)
      | _ \<Rightarrow> notif)"

definition messenger_data :: "string \<Rightarrow> pydict \<Rightarrow> string \<Rightarrow> pydict" where
  "messenger_data message_id md now =
     [(''docId'', PStr message_id), (''message'', dget_or md ''message'' (PStr [])), (''fileName'', dget_or md ''file_name'' (PStr [])),
      (''collectionId'', dget_or md ''collection_id'' (PStr [])), (''collectionName'', dget_or md ''collection_name'' (PStr [])), (''status'', dget_or md ''status'' (PStr [])),
      (''jobId'', dget_or md ''job_id'' (PStr [])), (''fileId'', dget_or md ''file_id'' (PStr [])), (''functionName'', dget_or md ''function_name'' (PStr ''Chat'')),
      (''timestamp'', dget_or md ''timestamp'' (PStr now)), (''additionalInfo'', dget_or md ''additional_info'' (PStr [])), (''chatMode'', dget_or md ''chat_mode'' (PStr [])),
      (''threadKey'', dget_or md ''thread_key'' (PStr [])), (''driveLink'', dget_or md ''drive_link'' (PStr [])), (''batchId'', dget_or md ''batch_id'' (PStr []))]"

text \<open>\<open>FirebaseRealtimeChat.send_direct_message\<close>: the identifier of the message, and what a task publishes afterwards. The caller runs in the event loop.\<close>

definition send_direct_message :: "('s, 'd) chat \<Rightarrow> string \<Rightarrow> string \<Rightarrow> pydict \<Rightarrow> string \<Rightarrow> 's \<Rightarrow> (string \<times> pydict) option \<times> 's" where
  "send_direct_message ch user_id recipient_id message_data now s =
     (let md = set_default (set_default message_data ''sender_id'' (PStr user_id)) ''timestamp'' (PStr now) in
      case ch_push ch (''clients/'' @ recipient_id @ ''/direct_message_notif'') md s of
        (Inl _, s1) \<Rightarrow> (None, s1)
      | (Inr message_id, s1) \<Rightarrow> (Some (message_id, messenger_data message_id md now), s1))"

definition tracking_key :: "string \<Rightarrow> string \<Rightarrow> string" where
  "tracking_key uid thread_key = ''messenger_notif:'' @ uid @ '':'' @ thread_key"

definition create_messenger_notif ::
  "('s, 'd) chat \<Rightarrow> (conn \<Rightarrow> bool) \<Rightarrow> string \<Rightarrow> string \<Rightarrow> string \<Rightarrow> pydict option \<Rightarrow> chat_ids \<Rightarrow> ('s, 'z) node_scheme \<Rightarrow> ('s, 'z) node_scheme" where
  "create_messenger_notif ch send_ok uid collection_name thread_key card_data ids n =
     (let rc = cm_redis (ch_comm ch); function_name = card_department card_data in
      case on_srv (r_get rc (build_business_key uid collection_name ''task_manager'' None)) n of
        (cached, n1) \<Rightarrow>
          let notif = enrich_notif (cm_show (ch_comm ch)) thread_key function_name (case cached of Inr v \<Rightarrow> v | Inl _ \<Rightarrow> None) (notif_data function_name collection_name thread_key ids) in
          case on_srv (send_direct_message ch uid uid notif (at_now ids)) n1 of
            (None, n2) \<Rightarrow> n2
          | (Some (message_id, data), n2) \<Rightarrow>
              let n3 = (if message_id = [] then n2 else snd (on_srv (r_setex rc (tracking_key uid thread_key) 7200 (Raw message_id)) n2)) in
              run_scheduled rc send_ok (publish_on (\<lambda>h. publish_messenger_new rc h uid data) ([], n3)))"

subsection \<open>The thread of the agent\<close>

definition DEPARTMENT_TO_MODULE :: "(string \<times> string) list" where
  "DEPARTMENT_TO_MODULE = [(''Router'', ''router''), (''router'', ''router''), (''APbookeeper'', ''apbookeeper''), (''apbookeeper'', ''apbookeeper''), (''Bankbookeeper'', ''banker''),
     (''banker'', ''banker''), (''bankbookeeper'', ''banker''), (''general'', ''general'')]"

definition resolve_llm_thread_key :: "'s comm \<Rightarrow> string \<Rightarrow> string \<Rightarrow> string \<Rightarrow> string \<Rightarrow> 's \<Rightarrow> string \<times> 's" where
  "resolve_llm_thread_key cm uid thread_key department communication_chat_type s =
     (if communication_chat_type = ''pinnokio'' then (thread_key, s)
      else case map_of DEPARTMENT_TO_MODULE department of
        None \<Rightarrow> (thread_key, s)
      | Some mdl \<Rightarrow>
          (case r_get (cm_redis cm) (comm_thread_key uid mdl) s of
             (Inr (Some (Raw t)), s1) \<Rightarrow> (if t \<noteq> [] then t else thread_key, s1)
           | (Inr (Some (Json v)), s1) \<Rightarrow> (cm_dumps cm v, s1)
           | (_, s1) \<Rightarrow> (thread_key, s1)))"

definition forward_to_agent :: "'s comm \<Rightarrow> string \<Rightarrow> string \<Rightarrow> string \<Rightarrow> string \<Rightarrow> pydict \<Rightarrow> string \<Rightarrow> string \<Rightarrow> chat_ids \<Rightarrow> 's \<Rightarrow> 's" where
  "forward_to_agent cm uid collection_name thread_key job_id message department communication_chat_type ids s =
     (case resolve_llm_thread_key cm uid thread_key department communication_chat_type s of
        (llm_thread_key, s1) \<Rightarrow> snd (enqueue_job_chat_message (cm_redis cm) (cm_ecs cm) uid collection_name llm_thread_key job_id message (id_queue ids) (at_now ids) s1))"

subsection \<open>Messages\<close>

definition chat_fields :: "pydict \<Rightarrow> (string \<times> string \<times> string) option" where
  "chat_fields md =
     (let job_id = dget md ''job_id''; collection_name = dget md ''collection_name''; thread_key = dget md ''thread_key'' in
      if \<not> truthy job_id \<or> \<not> truthy collection_name then None
      else case (job_id, collection_name, if truthy thread_key then thread_key else job_id) of
        (PStr j, PStr c, PStr t) \<Rightarrow> Some (j, c, t)
      | _ \<Rightarrow> None)"

definition cmmd_event :: "string \<Rightarrow> string \<Rightarrow> string \<Rightarrow> pydict \<Rightarrow> pydict" where
  "cmmd_event job_id collection_name thread_key message =
     [(''type'', PStr ''CMMD''),
      (''payload'', PDict [(''content'', dget message ''content''), (''message_type'', PStr ''CMMD''), (''thread_key'', PStr thread_key), (''job_id'', PStr job_id),
        (''collection_name'', PStr collection_name)])]"

definition card_event :: "string \<Rightarrow> string \<Rightarrow> string \<Rightarrow> pydict \<Rightarrow> pydict option \<Rightarrow> pydict" where
  "card_event job_id collection_name thread_key message card_data =
     [(''type'', PStr ''CARD''),
      (''payload'', PDict [(''content'', dget message ''content''), (''message_type'', PStr ''CARD''), (''thread_key'', PStr thread_key), (''job_id'', PStr job_id),
        (''collection_name'', PStr collection_name), (''card_data'', case card_data of Some c \<Rightarrow> PDict c | None \<Rightarrow> PNone),
        (''message_id'', py_or (dget message ''id'') (dget message ''message_id'')), (''timestamp'', dget message ''timestamp'')])]"

text \<open>The event goes to the browser when one of its tabs shows the thread.\<close>

definition show_on_thread :: "('s, 'd) chat \<Rightarrow> (conn \<Rightarrow> bool) \<Rightarrow> string \<Rightarrow> string \<Rightarrow> string \<Rightarrow> pydict \<Rightarrow> ('s, 'z) node_scheme \<Rightarrow> ('s, 'z) node_scheme" where
  "show_on_thread ch send_ok uid collection_name thread_key event n =
     (case on_srv (is_user_on_thread_multi_tab (cm_redis (ch_comm ch)) (ch_dates ch) uid collection_name thread_key) n of
        (user_on_thread, n1) \<Rightarrow> if user_on_thread then snd (hub_broadcast (cm_redis (ch_comm ch)) send_ok uid event n1) else n1)"

definition handle_card ::
  "('s, 'd) chat \<Rightarrow> (conn \<Rightarrow> bool) \<Rightarrow> string \<Rightarrow> string \<Rightarrow> string \<Rightarrow> string \<Rightarrow> pydict \<Rightarrow> pydict \<Rightarrow> chat_ids \<Rightarrow> ('s, 'z) node_scheme \<Rightarrow> ('s, 'z) node_scheme" where
  "handle_card ch send_ok uid job_id collection_name thread_key message md ids n =
     (let cm = ch_comm ch;
          card_data = cardsv2_to_interactive_card (cm_show cm) (cm_loads cm) message thread_key (id_card ids);
          n1 = show_on_thread ch send_ok uid collection_name thread_key (card_event job_id collection_name thread_key message card_data) n;
          mandate_path = dget md ''mandate_path'' in
      case (dget_or md ''communication_chat_type'' (PStr ''pinnokio''), dget_or md ''department'' (PStr ''Router''), if truthy mandate_path then as_str mandate_path else Inr []) of
        (PStr comm_chat_type, PStr dept, Inr path) \<Rightarrow>
          let n2 = snd (on_srv (\<lambda>s. ((), forward_to_agent cm uid collection_name thread_key job_id message dept comm_chat_type ids s)) n1);
              n3 = (if path \<noteq> [] \<and> comm_chat_type \<noteq> ''pinnokio''
                    then snd (on_srv (dispatch_message cm uid path collection_name thread_key message dept comm_chat_type (id_wizard ids)) n2) else n2) in
          (case card_data of
             Some (c # cs) \<Rightarrow> if comm_chat_type = ''pinnokio'' then create_messenger_notif ch send_ok uid collection_name thread_key card_data ids n3 else n3
           | _ \<Rightarrow> n3)
      | _ \<Rightarrow> n1)"

definition handle_text ::
  "('s, 'd) chat \<Rightarrow> (conn \<Rightarrow> bool) \<Rightarrow> string \<Rightarrow> string \<Rightarrow> string \<Rightarrow> string \<Rightarrow> pydict \<Rightarrow> pydict \<Rightarrow> chat_ids \<Rightarrow> ('s, 'z) node_scheme \<Rightarrow> ('s, 'z) node_scheme" where
  "handle_text ch send_ok uid job_id collection_name thread_key message md ids n =
     (let n1 = (case (py_or (dget message ''department'') (dget_or md ''department'' (PStr ''Router'')),
                      py_or (dget message ''communication_chat_type'') (dget_or md ''communication_chat_type'' (PStr ''pinnokio''))) of
                  (PStr msg_dept, PStr msg_comm_type) \<Rightarrow>
                    snd (on_srv (\<lambda>s. ((), forward_to_agent (ch_comm ch) uid collection_name thread_key job_id message msg_dept msg_comm_type ids s)) n)
                | _ \<Rightarrow> n) in
      if dget message ''message_type'' = PStr ''FOLLOW_MESSAGE'' \<and> dget_or md ''communication_chat_type'' (PStr ''pinnokio'') = PStr ''pinnokio''
      then create_messenger_notif ch send_ok uid collection_name thread_key None ids n1 else n1)"

definition handle_job_chat_message ::
  "('s, 'd) chat \<Rightarrow> (conn \<Rightarrow> bool) \<Rightarrow> string \<Rightarrow> pydict \<Rightarrow> chat_ids \<Rightarrow> ('s, 'z) node_scheme \<Rightarrow> ('s, 'z) node_scheme" where
  "handle_job_chat_message ch send_ok uid md ids n =
     (case (chat_fields md, dget_or md ''message'' (PDict md)) of
        (Some (job_id, collection_name, thread_key), PDict message) \<Rightarrow>
          let message_type = dget message ''message_type'' in
          if message_type = PStr ''CMMD''
          then show_on_thread ch send_ok uid collection_name thread_key (cmmd_event job_id collection_name thread_key message) n
          else if message_type = PStr ''FOLLOW_CARD'' \<or> message_type = PStr ''CARD''
          then handle_card ch send_ok uid job_id collection_name thread_key message md ids n
          else handle_text ch send_ok uid job_id collection_name thread_key message md ids n
      | _ \<Rightarrow> n)"

section \<open>What the handler leaves alone\<close>

lemma preserves_let_pair [frames]: "(\<And>x y. preserves g (f x y)) \<Longrightarrow> preserves g (case p of (x, y) \<Rightarrow> f x y)"
  by (simp split: prod.split)

lemma preserves_pair: "preserves g f \<Longrightarrow> (\<And>x. preserves g (h x)) \<Longrightarrow> preserves g (\<lambda>s. case f s of (x, s1) \<Rightarrow> h x s1)"
  unfolding preserves_def by (auto split: prod.split) (metis snd_conv)

lemma preserves_cases: "(b \<Longrightarrow> preserves g f) \<Longrightarrow> preserves g (\<lambda>s. if b then f s else (x, s))" "(\<not> b \<Longrightarrow> preserves g f) \<Longrightarrow> preserves g (\<lambda>s. if b then (x, s) else f s)"
  by (simp_all add: preserves_def)

lemma preserves_list [frames]: "preserves g a \<Longrightarrow> (\<And>x xs. preserves g (f x xs)) \<Longrightarrow> preserves g (case v of [] \<Rightarrow> a | x # xs \<Rightarrow> f x xs)"
  by (simp split: list.split)

context frame
begin

lemma publish_user_frame:
  assumes "get_cache_key USER uid None None sk = Inr key" and "key \<in> K"
  shows "g (snd (snd (publish_user_event rc h uid et payload sk s))) = g s"
proof -
  obtain c s1 where 1: "Contextual_Publisher.get_user_context rc h uid s = (c, s1)" by force
  note u = preservesD [OF update_cache_frame [OF assms(2) ttl_pos(1)]]
  show ?thesis using 1 preserves_eq [OF user_context_frame 1] u assms(1) unfolding publish_user_event_def publish_contextual_event_def by (simp add: Let_def)
qed

lemma messenger_new_frame: "build_user_profile_key uid \<in> K \<Longrightarrow> g (snd (snd (publish_messenger_new rc h uid data s))) = g s"
  using publish_user_frame [of uid None "build_user_profile_key uid"]
  by (simp add: publish_messenger_new_def publish_messenger_event_def publish_delta_event_def given_def)

end

lemma messenger_new_plain: "plain_broadcasts (fst (snd (publish_messenger_new rc h uid data s)))"
  by (simp add: publish_messenger_new_def publish_messenger_event_def publish_delta_event_def publish_user_event_def publish_contextual_plain)

text \<open>The services of the handler, up; the realtime database and the lookups of the dispatcher have nothing to do with Redis.\<close>

locale chat_up = comm_up "ch_comm ch" view tick out + iso_datetimes "ch_dates ch"
  for ch :: "('s, 'd) chat" and view :: "'s \<Rightarrow> rview" and tick :: "nat \<Rightarrow> 's \<Rightarrow> 's" and out :: "'s \<Rightarrow> (string \<times> text_val) list" +
  assumes push_view: "preserves view (ch_push ch p d)"
    and context_view: "preserves view (cm_company_context (ch_comm ch) u c)"
    and document_view: "preserves view (cm_document (ch_comm ch) p)"

sublocale chat_up \<subseteq> session: session_store "cm_redis (ch_comm ch)" view tick "ch_dates ch"
  by unfold_locales

context chat_up
begin

abbreviation "queue s \<equiv> view s QUEUE_NAME"

lemma preserves_view: "preserves view f \<Longrightarrow> preserves (\<lambda>s. queue s) f"
  by (simp add: preserves_def)

lemma queue_frame: "frame (cm_redis (ch_comm ch)) (\<lambda>s. queue s) (- {QUEUE_NAME})"
  by (rule key_frame)

lemma setex_queue: "k \<noteq> QUEUE_NAME \<Longrightarrow> 0 < ttl \<Longrightarrow> preserves (\<lambda>s. queue s) (r_setex (cm_redis (ch_comm ch)) k ttl t)"
  by (rule frame.setex_frame [OF queue_frame]) simp_all

lemma google_queue: "preserves (\<lambda>s. queue s) (cm_google (ch_comm ch) topic t attrs)"
  unfolding preserves_def using google_up by (metis snd_conv)

lemma publish_queue: "preserves (\<lambda>s. queue s) (r_publish (cm_redis (ch_comm ch)) c t)"
  unfolding preserves_def using publish_msg by (metis snd_conv)

lemma outbound_queue: "preserves (\<lambda>s. queue s) (publish_outbound (ch_comm ch) c m)"
  unfolding publish_outbound_def transport_publish_def publish_pubsub_def publish_redis_def
  by (auto intro!: frames google_queue publish_queue simp: Let_def)

lemma wizard_queue: "preserves (\<lambda>s. queue s) (send_telegram_wizard (ch_comm ch) chat cd ws t mp th dep wid)"
  unfolding send_telegram_wizard_def send_wizard_step_def Let_def
  by (intro frames setex_queue outbound_queue) (simp_all add: WIZARD_TTL_def)

lemma telegram_queue: "preserves (\<lambda>s. queue s) (send_telegram (ch_comm ch) m th t cards mp dep wid)"
  unfolding send_telegram_def send_telegram_card_def Let_def
  by (intro frames wizard_queue outbound_queue)

lemma mapping_queue: "preserves (\<lambda>s. queue s) (get_telegram_mapping (ch_comm ch) u c mp)"
  unfolding get_telegram_mapping_def
  by (intro preserves_pair preserves_cases frames preserves_view [OF context_view] preserves_view [OF document_view])

lemma dispatch_queue: "preserves (\<lambda>s. queue s) (dispatch_message (ch_comm ch) u mp c th m dep cct wid)"
  unfolding dispatch_message_def
  by (intro preserves_if preserves_pair preserves_cases mapping_queue preserves_sbind telegram_queue preserves_sret)

lemma messenger_notif_queue:
  fixes n :: "('s, 'z) node_scheme"
  shows "queue (n_srv (create_messenger_notif ch send_ok uid c th cd ids n)) = queue (n_srv n)"
proof -
  let ?rc = "cm_redis (ch_comm ch)"
  obtain r n1 where 1: "on_srv (r_get ?rc (build_business_key uid c ''task_manager'' None)) n = (r, n1)" by fastforce
  have q1: "queue (n_srv n1) = queue (n_srv n)" using 1 preservesD [OF frame.get_frame [OF queue_frame]] by (auto simp: on_srv_def split: prod.splits) (metis snd_conv)
  have d: "preserves (\<lambda>s. queue s) (send_direct_message ch u v md now)" for u v md now
    using preserves_view [OF push_view] unfolding preserves_def send_direct_message_def by (auto simp: Let_def split: prod.split sum.split) (metis snd_conv)+
  have k: "tracking_key uid th \<noteq> QUEUE_NAME" by (simp add: tracking_key_def QUEUE_NAME_def)
  have t: "queue (n_srv (snd (on_srv (r_setex ?rc (tracking_key uid th) 7200 x) m))) = queue (n_srv m)" for x and m :: "('s, 'z) node_scheme"
    using preservesD [OF setex_queue [OF k], of 7200 x "n_srv m"] by (auto simp: on_srv_def split: prod.split)
  have p: "queue (n_srv (run_scheduled ?rc send_ok (publish_on (\<lambda>h. publish_messenger_new ?rc h uid data) ([], m)))) = queue (n_srv m)" for data and m :: "('s, 'z) node_scheme"
  proof -
    have "build_user_profile_key uid \<in> - {QUEUE_NAME}" by (simp add: key_eval QUEUE_NAME_def)
    note f = frame.messenger_new_frame [OF queue_frame this]
    have "queue (n_srv (snd (publish_on (\<lambda>h. publish_messenger_new ?rc h uid data) ([], m)))) = queue (n_srv m)"
      using publish_on_srv [where g = "\<lambda>s. queue s" and bn = "([], m)" and p = "\<lambda>h. publish_messenger_new ?rc h uid data"] f by simp
    then show ?thesis
      using run_scheduled_srv [OF publish_on_plain [OF messenger_new_plain], of "([], m)"] by simp
  qed
  let ?notif = "enrich_notif (cm_show (ch_comm ch)) th (card_department cd) (case r of Inr v \<Rightarrow> v | Inl _ \<Rightarrow> None) (notif_data (card_department cd) c th ids)"
  obtain x n2 where 2: "on_srv (send_direct_message ch uid uid ?notif (at_now ids)) n1 = (x, n2)" by fastforce
  have q2: "queue (n_srv n2) = queue (n_srv n1)" using 2 preservesD [OF d, of uid uid ?notif "at_now ids" "n_srv n1"] by (auto simp: on_srv_def split: prod.splits)
  show ?thesis
  proof (cases x)
    case None
    then show ?thesis using 1 2 q1 q2 by (simp add: create_messenger_notif_def Let_def)
  next
    case (Some y)
    then show ?thesis using 1 2 q1 q2 p t by (cases y) (simp add: create_messenger_notif_def Let_def)
  qed
qed

end

text \<open>Looking at the tabs of a user only reads.\<close>

context frame
begin

lemma on_thread_frame: "preserves g (is_user_on_thread_multi_tab rc dt u c th)"
proof -
  have l: "preserves g (load_session_state rc dt u c)" unfolding load_session_state_def by (auto intro!: frames split: option.split)
  show ?thesis unfolding preserves_def
  proof
    fix s
    obtain r s1 where 1: "load_session_state rc dt u c s = (r, s1)" by fastforce
    show "g (snd (is_user_on_thread_multi_tab rc dt u c th s)) = g s"
      using preserves_eq [OF l 1] 1 by (auto simp: is_user_on_thread_multi_tab_def Let_def split: option.split sval.split)
  qed
qed

end

text \<open>The thread under which the agent knows the conversation.\<close>

definition agent_thread :: "'s comm \<Rightarrow> rview \<Rightarrow> string \<Rightarrow> string \<Rightarrow> string \<times> string \<Rightarrow> string" where
  "agent_thread cm vw uid th t =
     (if snd t = ''pinnokio'' then th
      else case map_of DEPARTMENT_TO_MODULE (fst t) of
        None \<Rightarrow> th
      | Some m \<Rightarrow> (case str_at vw (comm_thread_key uid m) of Some (Raw r) \<Rightarrow> if r \<noteq> [] then r else th | Some (Json v) \<Rightarrow> cm_dumps cm v | None \<Rightarrow> th))"

definition is_card :: "pydict \<Rightarrow> bool" where
  "is_card m \<longleftrightarrow> dget m ''message_type'' = PStr ''FOLLOW_CARD'' \<or> dget m ''message_type'' = PStr ''CARD''"

text \<open>Department and external chat of a message: of the envelope for a card, of the message first for a text.\<close>

definition chat_target :: "pydict \<Rightarrow> pydict \<Rightarrow> (string \<times> string) option" where
  "chat_target md m =
     (let dep = dget_or md ''department'' (PStr ''Router''); cct = dget_or md ''communication_chat_type'' (PStr ''pinnokio'') in
      case (if is_card m then (dep, cct) else (py_or (dget m ''department'') dep, py_or (dget m ''communication_chat_type'') cct)) of
        (PStr d, PStr t) \<Rightarrow> Some (d, t)
      | _ \<Rightarrow> None)"

context chat_up
begin

lemma resolve_up:
  assumes "\<And>m. str_key (view s) (comm_thread_key uid m)"
  shows "fst (resolve_llm_thread_key (ch_comm ch) uid th dep cct s) = agent_thread (ch_comm ch) (view s) uid th (dep, cct) \<and>
    view (snd (resolve_llm_thread_key (ch_comm ch) uid th dep cct s)) = view s"
proof (cases "map_of DEPARTMENT_TO_MODULE dep")
  case (Some m)
  obtain s' where "r_get (cm_redis (ch_comm ch)) (comm_thread_key uid m) s = (Inr (str_at (view s) (comm_thread_key uid m)), s')" "view s' = view s" by (rule get_up [OF assms])
  then show ?thesis using Some by (auto simp: resolve_llm_thread_key_def agent_thread_def split: option.split text_val.split)
qed (simp add: resolve_llm_thread_key_def agent_thread_def)

lemma forward_up:
  assumes "\<And>m. str_key (view s) (comm_thread_key uid m)" and "list_key (view s) QUEUE_NAME"
  shows "list_at (view (forward_to_agent (ch_comm ch) uid c th j m dep cct ids s)) QUEUE_NAME =
    call_job (Job_chat_message uid c (agent_thread (ch_comm ch) (view s) uid th (dep, cct)) j m, id_queue ids, at_now ids) # list_at (view s) QUEUE_NAME"
proof -
  obtain t s1 where r: "resolve_llm_thread_key (ch_comm ch) uid th dep cct s = (t, s1)" by fastforce
  then have t: "t = agent_thread (ch_comm ch) (view s) uid th (dep, cct)" "view s1 = view s" using resolve_up [OF assms(1), of th dep cct] by simp_all
  have q: "list_key (view s1) QUEUE_NAME" using assms(2) t(2) by simp
  from run_call_up [OF q, of "(Job_chat_message uid c t j m, id_queue ids, at_now ids)"] show ?thesis
    using r t by (auto simp: forward_to_agent_def)
qed

lemma show_on_thread_queue:
  "view (n_srv (show_on_thread ch send_ok uid c th [(''type'', t), (''payload'', p)] n)) k = view (n_srv n) k"
proof -
  obtain b s1 where 1: "is_user_on_thread_multi_tab (cm_redis (ch_comm ch)) (ch_dates ch) uid c th (n_srv n) = (b, s1)" by fastforce
  then have "view s1 k = view (n_srv n) k" using preserves_eq [OF frame.on_thread_frame [OF key_frame] 1] by simp
  then show ?thesis using 1 by (simp add: show_on_thread_def on_srv_def hub_broadcast_event)
qed

text \<open>An event for a thread, for a user whose open tabs show the threads of \<open>ts\<close>.\<close>

lemma show_on_thread_up:
  fixes n :: "('s, 'z) node_scheme"
  assumes "tabs_rel (ch_dates ch) (view (n_srv n)) uid c ts" and "\<And>x. send_ok x"
  shows "n_sent (show_on_thread ch send_ok uid c th [(''type'', t), (''payload'', p)] n) =
    n_sent n @ (if th \<in> snd ` set ts then sent_to (n_hub n) uid [(''type'', t), (''payload'', p)] else [])"
proof -
  let ?e = "[(''type'', t), (''payload'', p)]"
  obtain b s1 where 1: "is_user_on_thread_multi_tab (cm_redis (ch_comm ch)) (ch_dates ch) uid c th (n_srv n) = (b, s1)" by fastforce
  have "b \<longleftrightarrow> th \<in> snd ` set ts" using session.tabs_queries(1) [OF assms(1), of th] 1 by simp
  moreover have "hub_broadcast (cm_redis (ch_comm ch)) send_ok uid ?e (n\<lparr>n_srv := s1\<rparr>) = (Inr (), (n\<lparr>n_srv := s1\<rparr>)\<lparr>n_sent := n_sent n @ sent_to (n_hub n) uid ?e\<rparr>)"
    using hub_broadcast_open [of ?e send_ok "cm_redis (ch_comm ch)" uid "n\<lparr>n_srv := s1\<rparr>"] thread_key_normalize [of ?e] assms(2) by simp
  ultimately show ?thesis using 1 by (simp add: show_on_thread_def on_srv_def)
qed

end

context chat_up
begin

lemma on_srv_unit: "snd (on_srv (\<lambda>s. ((), f s)) m) = m\<lparr>n_srv := f (n_srv m)\<rparr>"
  by (simp add: on_srv_def)

lemma list_at_cong: "view s' QUEUE_NAME = view s QUEUE_NAME \<Longrightarrow> list_at (view s') QUEUE_NAME = list_at (view s) QUEUE_NAME"
  by (simp add: list_at_def)

lemma handle_card_queue:
  fixes n :: "('s, 'z) node_scheme"
  assumes "\<And>m. str_key (view (n_srv n)) (comm_thread_key uid m)" and "list_key (view (n_srv n)) QUEUE_NAME" and "chat_target md m = Some t" and "is_card m"
    and "\<not> truthy (dget md ''mandate_path'') \<or> (\<exists>p. dget md ''mandate_path'' = PStr p)"
  shows "list_at (view (n_srv (handle_card ch send_ok uid j c th m md ids n))) QUEUE_NAME =
    call_job (Job_chat_message uid c (agent_thread (ch_comm ch) (view (n_srv n)) uid th t) j m, id_queue ids, at_now ids) # list_at (view (n_srv n)) QUEUE_NAME"
proof -
  let ?card = "cardsv2_to_interactive_card (cm_show (ch_comm ch)) (cm_loads (ch_comm ch)) m th (id_card ids)"
  let ?n1 = "show_on_thread ch send_ok uid c th (card_event j c th m ?card) n"
  obtain dep cct where t: "t = (dep, cct)" by fastforce
  have f: "dget_or md ''communication_chat_type'' (PStr ''pinnokio'') = PStr cct" "dget_or md ''department'' (PStr ''Router'') = PStr dep"
    using assms(3,4) t by (auto simp: chat_target_def Let_def split: pyval.splits)
  obtain path where path: "(if truthy (dget md ''mandate_path'') then as_str (dget md ''mandate_path'') else Inr []) = Inr path" using assms(5) by (cases "truthy (dget md ''mandate_path'')") (auto simp: as_str_def)
  have v: "view (n_srv ?n1) = view (n_srv n)" by (rule ext) (simp add: card_event_def show_on_thread_queue)
  let ?s2 = "forward_to_agent (ch_comm ch) uid c th j m dep cct ids (n_srv ?n1)"
  have q: "list_at (view ?s2) QUEUE_NAME = call_job (Job_chat_message uid c (agent_thread (ch_comm ch) (view (n_srv n)) uid th t) j m, id_queue ids, at_now ids) # list_at (view (n_srv n)) QUEUE_NAME"
    using forward_up [of "n_srv ?n1" uid c th j m dep cct ids] assms(1,2) v t by simp
  have d: "queue (snd (dispatch_message (ch_comm ch) uid path c th m dep cct (id_wizard ids) ?s2)) = queue ?s2" by (rule preservesD [OF dispatch_queue])
  define n3 where "n3 = (if path \<noteq> [] \<and> cct \<noteq> ''pinnokio'' then snd (on_srv (dispatch_message (ch_comm ch) uid path c th m dep cct (id_wizard ids)) (?n1\<lparr>n_srv := ?s2\<rparr>)) else ?n1\<lparr>n_srv := ?s2\<rparr>)"
  have q3: "queue (n_srv n3) = queue ?s2" using d by (auto simp: n3_def on_srv_def split: prod.splits)
  have "handle_card ch send_ok uid j c th m md ids n =
      (case ?card of Some (x # xs) \<Rightarrow> if cct = ''pinnokio'' then create_messenger_notif ch send_ok uid c th ?card ids n3 else n3 | _ \<Rightarrow> n3)"
    unfolding handle_card_def Let_def f path on_srv_unit n3_def by simp
  then have "queue (n_srv (handle_card ch send_ok uid j c th m md ids n)) = queue ?s2"
    by (simp add: q3 messenger_notif_queue split: option.split list.split)
  then show ?thesis using list_at_cong q by metis
qed

lemma handle_text_queue:
  fixes n :: "('s, 'z) node_scheme"
  assumes "\<And>m. str_key (view (n_srv n)) (comm_thread_key uid m)" and "list_key (view (n_srv n)) QUEUE_NAME" and "chat_target md m = Some t" and "\<not> is_card m"
  shows "list_at (view (n_srv (handle_text ch send_ok uid j c th m md ids n))) QUEUE_NAME =
    call_job (Job_chat_message uid c (agent_thread (ch_comm ch) (view (n_srv n)) uid th t) j m, id_queue ids, at_now ids) # list_at (view (n_srv n)) QUEUE_NAME"
proof -
  obtain dep cct where t: "t = (dep, cct)" by fastforce
  have f: "py_or (dget m ''department'') (dget_or md ''department'' (PStr ''Router'')) = PStr dep"
    "py_or (dget m ''communication_chat_type'') (dget_or md ''communication_chat_type'' (PStr ''pinnokio'')) = PStr cct"
    using assms(3,4) t by (auto simp: chat_target_def Let_def split: pyval.splits)
  let ?s1 = "forward_to_agent (ch_comm ch) uid c th j m dep cct ids (n_srv n)"
  have q: "list_at (view ?s1) QUEUE_NAME = call_job (Job_chat_message uid c (agent_thread (ch_comm ch) (view (n_srv n)) uid th t) j m, id_queue ids, at_now ids) # list_at (view (n_srv n)) QUEUE_NAME"
    using forward_up [OF assms(1,2)] t by simp
  have "queue (n_srv (handle_text ch send_ok uid j c th m md ids n)) = queue ?s1"
    unfolding handle_text_def f Let_def on_srv_unit by (simp add: messenger_notif_queue)
  then show ?thesis using list_at_cong q by metis
qed

end

section \<open>Properties\<close>

text \<open>C18: Every message of a worker other than a workflow command reaches the agent once: it is the next job of the queue of the language model, under the thread the agent knows for the
  department and the chat of the message. What else the handler does, to the browser, to Telegram or as a direct message, leaves the queue alone.\<close>

theorem job_chat_reaches_agent:
  assumes "chat_up ch view tick out" and "chat_fields md = Some (j, c, th)" and "dget_or md ''message'' (PDict md) = PDict m" and "dget m ''message_type'' \<noteq> PStr ''CMMD''"
    and "chat_target md m = Some t" and "\<not> truthy (dget md ''mandate_path'') \<or> (\<exists>p. dget md ''mandate_path'' = PStr p)"
    and "list_key (view (n_srv n)) QUEUE_NAME" and "\<And>d. str_key (view (n_srv n)) (comm_thread_key uid d)" and "n' = handle_job_chat_message ch send_ok uid md ids n"
  shows "list_at (view (n_srv n')) QUEUE_NAME =
    call_job (Job_chat_message uid c (agent_thread (ch_comm ch) (view (n_srv n)) uid th t) j m, id_queue ids, at_now ids) # list_at (view (n_srv n)) QUEUE_NAME"
proof (cases "is_card m")
  case True
  then have "n' = handle_card ch send_ok uid j c th m md ids n" using assms(2,3,4,9) by (simp add: handle_job_chat_message_def is_card_def Let_def)
  then show ?thesis using chat_up.handle_card_queue [OF assms(1,8,7,5) True assms(6)] by simp
next
  case False
  then have "n' = handle_text ch send_ok uid j c th m md ids n" using assms(2,3,4,9) by (simp add: handle_job_chat_message_def is_card_def Let_def)
  then show ?thesis using chat_up.handle_text_queue [OF assms(1,8,7,5) False] by simp
qed

text \<open>A workflow command reaches every connection of a user one of whose open tabs shows its thread, and nobody otherwise; neither the agent nor anything else in Redis learns of it.\<close>

theorem command_shown_on_open_thread:
  assumes "chat_up ch view tick out" and "chat_fields md = Some (j, c, th)" and "dget_or md ''message'' (PDict md) = PDict m" and "dget m ''message_type'' = PStr ''CMMD''"
    and "tabs_rel (ch_dates ch) (view (n_srv n)) uid c ts" and "\<And>x. send_ok x" and "n' = handle_job_chat_message ch send_ok uid md ids n"
  shows "n_sent n' = n_sent n @ (if th \<in> snd ` set ts then sent_to (n_hub n) uid (cmmd_event j c th m) else []) \<and> view (n_srv n') = view (n_srv n)"
proof -
  have n': "n' = show_on_thread ch send_ok uid c th (cmmd_event j c th m) n" using assms(2,3,4,7) by (simp add: handle_job_chat_message_def)
  have "view (n_srv n') = view (n_srv n)" unfolding n' cmmd_event_def by (rule ext) (rule chat_up.show_on_thread_queue [OF assms(1)])
  moreover have "n_sent n' = n_sent n @ (if th \<in> snd ` set ts then sent_to (n_hub n) uid (cmmd_event j c th m) else [])"
    unfolding n' cmmd_event_def by (rule chat_up.show_on_thread_up [OF assms(1,5)]) (rule assms(6))
  ultimately show ?thesis by simp
qed

text \<open>A user with one tab on the thread \<open>j1\<close>, over the in-memory server.\<close>

definition demo_chat :: "(mem, string) chat" where
  "demo_chat = \<lparr>ch_comm = demo_comm, ch_dates = demo_dates, ch_push = (\<lambda>_ _ s. (Inr ''m1'', s))\<rparr>"

interpretation demo_chat: chat_up demo_chat mem_view mem_tick m_out
proof (rule chat_up.intro)
  show "comm_up (ch_comm demo_chat) mem_view mem_tick m_out" using demo_comm_up by (simp add: demo_chat_def)
  show "iso_datetimes (ch_dates demo_chat)" using demo_dates.iso_datetimes_axioms by (simp add: demo_chat_def)
  show "chat_up_axioms demo_chat mem_view" by unfold_locales (simp_all add: demo_chat_def demo_comm_def preserves_def)
qed

definition demo_chat_node :: "mem \<Rightarrow> mem node" where
  "demo_chat_node s = \<lparr>n_srv = s, n_hub = demo_hub, n_sent = []\<rparr>"

definition demo_chat_msg :: "string \<Rightarrow> pydict" where
  "demo_chat_msg ty = [(''job_id'', PStr ''j1''), (''collection_name'', PStr ''c''), (''message'', PDict [(''message_type'', PStr ty), (''content'', PStr ''hello'')])]"

definition demo_ids :: chat_ids where
  "demo_ids = \<lparr>id_card = ''k'', id_wizard = ''w'', id_queue = ''q'', at_now = ''1'', at_expiry = ''2''\<rparr>"

lemma demo_chat_fields: "chat_fields (demo_chat_msg ty) = Some (''j1'', ''c'', ''j1'')"
  "dget_or (demo_chat_msg ty) ''message'' (PDict (demo_chat_msg ty)) = PDict [(''message_type'', PStr ty), (''content'', PStr ''hello'')]"
  by (simp_all add: chat_fields_def demo_chat_msg_def dget_def dget_or_def)

theorem job_chat_reaches_agent_witness:
  "length (list_at (mem_view (n_srv (handle_job_chat_message demo_chat (\<lambda>_. True) ''u'' (demo_chat_msg ''MESSAGE'') demo_ids (demo_chat_node empty_mem)))) QUEUE_NAME) = 1"
proof -
  let ?m = "[(''message_type'', PStr ''MESSAGE''), (''content'', PStr ''hello'')]"
  have t: "chat_target (demo_chat_msg ''MESSAGE'') ?m = Some (''Router'', ''pinnokio'')"
    by (simp add: chat_target_def is_card_def demo_chat_msg_def dget_def dget_or_def py_or_def Let_def)
  have k: "list_key (mem_view (n_srv (demo_chat_node empty_mem))) QUEUE_NAME" "str_key (mem_view (n_srv (demo_chat_node empty_mem))) k" for k
    by (simp_all add: list_key_def str_key_def mem_view_def demo_chat_node_def empty_mem_def)
  have p: "\<not> truthy (dget (demo_chat_msg ''MESSAGE'') ''mandate_path'')" by (simp add: demo_chat_msg_def dget_def)
  have c: "dget ?m ''message_type'' \<noteq> PStr ''CMMD''" by (simp add: dget_def)
  from job_chat_reaches_agent [OF demo_chat.chat_up_axioms demo_chat_fields c t disjI1 [OF p] k refl, where ids = demo_ids and send_ok = "\<lambda>_. True"] show ?thesis
    by (simp add: demo_chat_node_def list_at_def mem_view_def empty_mem_def)
qed

theorem command_shown_on_open_thread_witness:
  "n_sent (handle_job_chat_message demo_chat (\<lambda>_. True) ''u'' (demo_chat_msg ''CMMD'') demo_ids
     (demo_chat_node (run_tabs mem_redis demo_dates ''u'' ''c'' ''now'' [Enter ''a'' ''j1''] demo_saved))) \<noteq> []"
proof -
  let ?s = "run_tabs mem_redis demo_dates ''u'' ''c'' ''now'' [Enter ''a'' ''j1''] demo_saved" and ?m = "[(''message_type'', PStr ''CMMD''), (''content'', PStr ''hello'')]"
  have r: "tabs_rel demo_dates (mem_view demo_saved) ''u'' ''c'' []"
    using demo_holds unfolding tabs_rel_def by (intro exI [of _ Session_State.demo_doc]) (simp add: Session_State.demo_doc_def sget_or_def tab_dict_def)
  have ok: "list_all tab_ok [Enter ''a'' ''j1'']" by (simp add: tab_ok_def)
  have t: "tabs_rel (ch_dates demo_chat) (mem_view (n_srv (demo_chat_node ?s))) ''u'' ''c'' (fold tab_step [Enter ''a'' ''j1''] [])"
    using session_store.tabs_refine [OF demo_session_store r ok] by (simp add: demo_chat_def demo_chat_node_def)
  have c: "dget ?m ''message_type'' = PStr ''CMMD''" by (simp add: dget_def)
  have h: "sent_to (n_hub (demo_chat_node ?s)) ''u'' e \<noteq> []" for e
    using demo_connected by (simp add: sent_to_def demo_chat_node_def connected_iff)
  from command_shown_on_open_thread [OF demo_chat.chat_up_axioms demo_chat_fields c t _ refl, where ids = demo_ids and send_ok = "\<lambda>_. True"] h show ?thesis by simp
qed

end
