(* ===== verification/Channel_Router.thy ===== *)
theory Channel_Router
  imports User_Channels Job_Chats Hub_Listener
begin

text \<open>
  The frame of \<open>RedisSubscriber\<close> in \<open>src/app/realtime/redis_subscriber.py\<close>: it subscribes to five channels of every connected user, driven by the callbacks of the hub, and hands
  what arrives to the handler of the channel. \<open>ok\<close> tells whether a call to the subscription of Redis returns; the callbacks run one after the other, since each waits for
  the same lock. \<open>us\<close> are users in the order a set yields them. Statistics, waiting times, log output and the singleton are left out.
\<close>

section \<open>Definitions\<close>

definition extract_uid_from_channel :: "string \<Rightarrow> string option" where
  "extract_uid_from_channel channel =
     (if starts_with ''user:'' channel
      then let rest = drop 5 channel; uid = takeWhile (\<lambda>c. c \<noteq> CHR ''/'') rest in
           if uid \<noteq> [] \<and> length uid < length rest then Some uid else None
      else None)"

definition USER_CHANNEL_SUFFIXES :: "string list" where
  "USER_CHANNEL_SUFFIXES = [''notifications'', ''direct_message_notif'', ''task_manager'', ''job_chats'', ''pending_approval'']"

record rs =
  rs_pubsub :: bool
  rs_running :: bool
  rs_listener :: bool
  rs_uids :: "string set"
  rs_channels :: "string set"

definition new_subscriber :: rs where
  "new_subscriber = \<lparr>rs_pubsub = False, rs_running = False, rs_listener = False, rs_uids = {}, rs_channels = {}\<rparr>"

definition max_reconnect_attempts :: nat where
  "max_reconnect_attempts = 10"

definition user_channels :: "string \<Rightarrow> string list" where
  "user_channels uid = map (\<lambda>suffix. ''user:'' @ uid @ ''/'' @ suffix) USER_CHANNEL_SUFFIXES"

definition rs_subscribe_user :: "bool \<Rightarrow> string \<Rightarrow> rs \<Rightarrow> rs" where
  "rs_subscribe_user ok uid r =
     (if uid \<in> rs_uids r then r
      else if \<not> rs_pubsub r then r
      else if ok then r\<lparr>rs_channels := rs_channels r \<union> set (user_channels uid), rs_uids := insert uid (rs_uids r)\<rparr>
      else r)"

definition rs_unsubscribe_user :: "bool \<Rightarrow> string \<Rightarrow> rs \<Rightarrow> rs" where
  "rs_unsubscribe_user ok uid r =
     (if uid \<notin> rs_uids r then r
      else if \<not> rs_pubsub r then r
      else if ok then r\<lparr>rs_channels := rs_channels r - set (user_channels uid), rs_uids := rs_uids r - {uid}\<rparr>
      else r)"

definition rs_start :: "bool \<Rightarrow> string list \<Rightarrow> rs \<Rightarrow> rs" where
  "rs_start ok us r =
     (if rs_running r then r
      else (foldl (\<lambda>q uid. rs_subscribe_user ok uid q) (r\<lparr>rs_running := True, rs_pubsub := True, rs_channels := {}\<rparr>) us)\<lparr>rs_listener := True\<rparr>)"

definition rs_stop :: "rs \<Rightarrow> rs" where
  "rs_stop r = (if \<not> rs_running r then r else r\<lparr>rs_running := False, rs_listener := False, rs_pubsub := False, rs_channels := {}, rs_uids := {}\<rparr>)"

text \<open>The users to subscribe again are the subscribed ones; a Python set has no order that matters here, so they are taken in order of their names.\<close>

definition rs_reconnect :: "bool \<Rightarrow> rs \<Rightarrow> rs" where
  "rs_reconnect ok r =
     (let uids_to_resub = sorted_list_of_set (rs_uids r) in
      foldl (\<lambda>q uid. rs_subscribe_user ok uid q) (r\<lparr>rs_pubsub := True, rs_channels := {}, rs_uids := {}\<rparr>) uids_to_resub)"

subsection \<open>Routing\<close>

record ('s, 'd) router =
  ro_sub :: "'s sub"
  ro_fb :: fb
  ro_chat :: "('s, 'd) chat"

definition ends_with :: "string \<Rightarrow> string \<Rightarrow> bool" where
  "ends_with suffix t = starts_with (rev suffix) (rev t)"

definition route_message ::
  "('s, 'd) router \<Rightarrow> (conn \<Rightarrow> bool) \<Rightarrow> string \<Rightarrow> text_val \<Rightarrow> chat_ids \<Rightarrow> ('s, 'z) node_scheme \<Rightarrow> ('s, 'z) node_scheme" where
  "route_message ro send_ok channel data ids n =
     (case extract_uid_from_channel channel of
        None \<Rightarrow> n
      | Some uid \<Rightarrow>
          (case rbind (json_loads data) as_dict of
             Inl _ \<Rightarrow> n
           | Inr md \<Rightarrow>
               if ends_with ''/notifications'' channel then handle_notification_message (ro_fb ro) (ro_sub ro) send_ok uid md n
               else if ends_with ''/direct_message_notif'' channel then handle_direct_message_message (ro_sub ro) send_ok uid md n
               else if ends_with ''/task_manager'' channel then handle_task_manager_message (ro_sub ro) send_ok uid md (at_now ids) n
               else if ends_with ''/job_chats'' channel then handle_job_chat_message (ro_chat ro) send_ok uid md ids n
               else if ends_with ''/pending_approval'' channel then handle_pending_approval_message (ro_sub ro) send_ok uid md n
               else n))"

text \<open>One round of \<open>_listener_loop\<close>, with what \<open>get_message\<close> gave: an exception, nothing for this loop, or a message.\<close>

datatype received = Lost | Quiet | Received string text_val chat_ids

definition listen_round ::
  "('s, 'd) router \<Rightarrow> (conn \<Rightarrow> bool) \<Rightarrow> rs \<times> nat \<times> ('s, 'z) node_scheme \<Rightarrow> received \<Rightarrow> rs \<times> nat \<times> ('s, 'z) node_scheme" where
  "listen_round ro send_ok st m =
     (case st of (r0, attempts0, n) \<Rightarrow>
      if \<not> rs_running r0 then st
      else
        let (r, reconnect_attempts) = (if rs_pubsub r0 then (r0, attempts0) else (rs_reconnect True r0, 0)) in
        case m of
          Lost \<Rightarrow> (if max_reconnect_attempts \<le> Suc reconnect_attempts then r\<lparr>rs_running := False, rs_listener := False\<rparr> else r, Suc reconnect_attempts, n)
        | Quiet \<Rightarrow> (r, reconnect_attempts, n)
        | Received channel data ids \<Rightarrow> (r, reconnect_attempts, route_message ro send_ok channel data ids n))"

text \<open>Redis delivers a message only on a channel that is subscribed to.\<close>

definition rs_deliver ::
  "('s, 'd) router \<Rightarrow> (conn \<Rightarrow> bool) \<Rightarrow> rs \<Rightarrow> nat \<Rightarrow> string \<Rightarrow> text_val \<Rightarrow> chat_ids \<Rightarrow> ('s, 'z) node_scheme \<Rightarrow> ('s, 'z) node_scheme" where
  "rs_deliver ro send_ok r a channel data ids n =
     (if channel \<in> rs_channels r then snd (snd (listen_round ro send_ok (r, a, n) (Received channel data ids))) else n)"

section \<open>Lemmas\<close>

lemma takeWhile_sep: "c \<notin> set x \<Longrightarrow> takeWhile (\<lambda>d. d \<noteq> c) (x @ c # y) = x"
  by (induction x) auto

lemma last_segment:
  assumes "w @ c # s = v @ c # t" and "c \<notin> set s" and "c \<notin> set t"
  shows "s = t"
proof -
  have "rev (takeWhile (\<lambda>d. d \<noteq> c) (rev (w @ c # s))) = s" "rev (takeWhile (\<lambda>d. d \<noteq> c) (rev (v @ c # t))) = t" using assms(2,3) by (simp_all add: takeWhile_sep)
  then show ?thesis using assms(1) by metis
qed

lemma suffix_no_slash: "x \<in> set USER_CHANNEL_SUFFIXES \<Longrightarrow> CHR ''/'' \<notin> set x"
  by (auto simp: USER_CHANNEL_SUFFIXES_def)

lemma user_channels_inj:
  assumes "c \<in> set (user_channels u)" and "c \<in> set (user_channels v)"
  shows "u = v"
proof -
  obtain s t where st: "u @ ''/'' @ s = v @ ''/'' @ t" "s \<in> set USER_CHANNEL_SUFFIXES" "t \<in> set USER_CHANNEL_SUFFIXES" using assms by (auto simp: user_channels_def)
  have "s = t" by (rule last_segment [of u "CHR ''/''" s v t]) (use st suffix_no_slash in simp_all)
  then show ?thesis using st(1) by simp
qed

interpretation sub: hub_listener user_channels rs_pubsub rs_uids rs_channels "rs_subscribe_user True" "rs_unsubscribe_user True"
  by unfold_locales (auto simp: rs_subscribe_user_def rs_unsubscribe_user_def dest: user_channels_inj)

abbreviation rs_op :: "hub \<times> rs \<Rightarrow> hub_op \<Rightarrow> hub \<times> rs" where
  "rs_op \<equiv> follow_op (rs_subscribe_user True) (rs_unsubscribe_user True)"

lemma rs_flags_kept: "rs_running (rs_subscribe_user ok u r) = rs_running r" "rs_running (rs_unsubscribe_user ok u r) = rs_running r"
  "rs_listener (rs_subscribe_user ok u r) = rs_listener r" "rs_listener (rs_unsubscribe_user ok u r) = rs_listener r"
  by (simp_all add: rs_subscribe_user_def rs_unsubscribe_user_def)

lemma rs_started:
  assumes "set us = get_connected_users h"
  shows "sub.sync h (rs_start True us new_subscriber)" and "rs_running (rs_start True us new_subscriber)"
proof -
  let ?r = "new_subscriber\<lparr>rs_running := True, rs_pubsub := True, rs_channels := {}\<rparr>"
  have "sub.covers ?r" by (simp add: sub.covers_def new_subscriber_def)
  from sub.start_sync [OF this assms] show "sub.sync h (rs_start True us new_subscriber)"
    by (simp add: rs_start_def new_subscriber_def sub.sync_def sub.covers_def)
  have "rs_running (foldl (\<lambda>q uid. rs_subscribe_user True uid q) r us) = rs_running r" for r
    by (induction us arbitrary: r) (simp_all add: rs_flags_kept)
  then show "rs_running (rs_start True us new_subscriber)" by (simp add: rs_start_def new_subscriber_def)
qed

lemma starts_with_append: "starts_with p (p @ t)"
  by (induction p) simp_all

lemma starts_with_take: "starts_with p t \<longleftrightarrow> take (length p) t = p"
  by (induction p t rule: starts_with.induct) auto

text \<open>The channel names the user, when the identifier of the user has no slash, and the handler.\<close>

lemma extract_uid:
  assumes "uid \<noteq> []" and "CHR ''/'' \<notin> set uid"
  shows "extract_uid_from_channel (''user:'' @ uid @ ''/'' @ suffix) = Some uid"
  using assms by (simp add: extract_uid_from_channel_def starts_with_append takeWhile_sep Let_def)

fun handler_of :: "('s, 'd) router \<Rightarrow> (conn \<Rightarrow> bool) \<Rightarrow> string \<Rightarrow> string \<Rightarrow> pydict \<Rightarrow> chat_ids \<Rightarrow> ('s, 'z) node_scheme \<Rightarrow> ('s, 'z) node_scheme" where
  "handler_of ro send_ok uid suffix md ids n =
     (if suffix = ''notifications'' then handle_notification_message (ro_fb ro) (ro_sub ro) send_ok uid md n
      else if suffix = ''direct_message_notif'' then handle_direct_message_message (ro_sub ro) send_ok uid md n
      else if suffix = ''task_manager'' then handle_task_manager_message (ro_sub ro) send_ok uid md (at_now ids) n
      else if suffix = ''job_chats'' then handle_job_chat_message (ro_chat ro) send_ok uid md ids n
      else handle_pending_approval_message (ro_sub ro) send_ok uid md n)"

lemma ends_with_iff: "ends_with x t \<longleftrightarrow> (\<exists>w. t = w @ x)"
proof
  assume "ends_with x t"
  then have "take (length x) (rev t) = rev x" by (simp add: ends_with_def starts_with_take)
  then have "rev t = rev x @ drop (length x) (rev t)" by (metis append_take_drop_id)
  then have "t = rev (drop (length x) (rev t)) @ x" by (metis rev_append rev_rev_ident)
  then show "\<exists>w. t = w @ x" by blast
qed (auto simp: ends_with_def starts_with_append)

lemma ends_with_suffix:
  assumes "s \<in> set USER_CHANNEL_SUFFIXES" and "t \<in> set USER_CHANNEL_SUFFIXES"
  shows "ends_with (''/'' @ s) (''user:'' @ uid @ ''/'' @ t) \<longleftrightarrow> s = t"
proof
  assume "ends_with (''/'' @ s) (''user:'' @ uid @ ''/'' @ t)"
  then obtain w where "''user:'' @ uid @ ''/'' @ t = w @ ''/'' @ s" by (auto simp: ends_with_iff)
  then have "(''user:'' @ uid) @ CHR ''/'' # t = w @ CHR ''/'' # s" by simp
  from last_segment [OF this suffix_no_slash [OF assms(2)] suffix_no_slash [OF assms(1)]] show "s = t" by simp
next
  assume "s = t"
  then show "ends_with (''/'' @ s) (''user:'' @ uid @ ''/'' @ t)" unfolding ends_with_iff by (intro exI [of _ "''user:'' @ uid"]) simp
qed

lemma route_to_handler:
  assumes "uid \<noteq> []" and "CHR ''/'' \<notin> set uid" and "suffix \<in> set USER_CHANNEL_SUFFIXES"
  shows "route_message ro send_ok (''user:'' @ uid @ ''/'' @ suffix) (json_dumps (PDict md)) ids n = handler_of ro send_ok uid suffix md ids n"
proof -
  let ?c = "''user:'' @ uid @ ''/'' @ suffix"
  have e: "ends_with (''/'' @ s) ?c \<longleftrightarrow> suffix = s" if "s \<in> set USER_CHANNEL_SUFFIXES" for s
    using ends_with_suffix [OF that assms(3)] by auto
  have f: "ends_with ''/notifications'' ?c \<longleftrightarrow> suffix = ''notifications''" "ends_with ''/direct_message_notif'' ?c \<longleftrightarrow> suffix = ''direct_message_notif''"
    "ends_with ''/task_manager'' ?c \<longleftrightarrow> suffix = ''task_manager''" "ends_with ''/job_chats'' ?c \<longleftrightarrow> suffix = ''job_chats''"
    "ends_with ''/pending_approval'' ?c \<longleftrightarrow> suffix = ''pending_approval''"
    using e [of "''notifications''"] e [of "''direct_message_notif''"] e [of "''task_manager''"] e [of "''job_chats''"] e [of "''pending_approval''"]
    by (simp_all add: USER_CHANNEL_SUFFIXES_def)
  have last: "suffix = ''pending_approval''"
    if "suffix \<noteq> ''notifications''" "suffix \<noteq> ''direct_message_notif''" "suffix \<noteq> ''task_manager''" "suffix \<noteq> ''job_chats''"
    using assms(3) that by (auto simp: USER_CHANNEL_SUFFIXES_def)
  have "rbind (json_loads (json_dumps (PDict md))) as_dict = Inr md" by (simp add: json_loads_dumps as_dict_def)
  then show ?thesis unfolding route_message_def extract_uid [OF assms(1,2)] f handler_of.simps using last by auto
qed

text \<open>C17: The message of a worker on a channel of a connected user reaches the handler of the channel, whatever connections opened, closed or broke since the subscriber started.\<close>

theorem channel_message_handled:
  assumes "set us = get_connected_users h0" and "foldl rs_op (h0, rs_start True us new_subscriber) ops = (n_hub n, r)"
    and "is_user_connected (n_hub n) uid" and "uid \<noteq> []" and "CHR ''/'' \<notin> set uid" and "suffix \<in> set USER_CHANNEL_SUFFIXES"
  shows "rs_deliver ro send_ok r a (''user:'' @ uid @ ''/'' @ suffix) (json_dumps (PDict md)) ids n = handler_of ro send_ok uid suffix md ids n"
proof -
  have sync: "sub.sync (n_hub n) r" by (rule sub.sync_run [OF rs_started(1) [OF assms(1)] assms(2)])
  have run: "rs_running r" using sub.run_keeps [of rs_running, OF rs_flags_kept(1,2) assms(2)] rs_started(2) [OF assms(1)] by simp
  have up: "rs_pubsub r" using sync by (simp add: sub.sync_def sub.covers_def)
  have "''user:'' @ uid @ ''/'' @ suffix \<in> set (user_channels uid)" using assms(6) by (auto simp: user_channels_def)
  then have "''user:'' @ uid @ ''/'' @ suffix \<in> rs_channels r" by (rule sub.sync_channel [OF sync assms(3)])
  moreover have "snd (snd (listen_round ro send_ok (r, a, n) (Received c data ids))) = route_message ro send_ok c data ids n" for c data
    by (simp add: listen_round_def run up)
  ultimately show ?thesis unfolding rs_deliver_def by (simp only: if_True route_to_handler [OF assms(4-6)])
qed

section \<open>The reconnect counter\<close>

text \<open>A reconnection gives every subscribed user the channels back.\<close>

lemma rs_reconnect_users:
  assumes "finite (rs_uids r)"
  shows "rs_uids (rs_reconnect True r) = rs_uids r" and "rs_channels (rs_reconnect True r) = (\<Union>u \<in> rs_uids r. set (user_channels u))"
proof -
  have f: "rs_uids (foldl (\<lambda>q uid. rs_subscribe_user True uid q) q us) = rs_uids q \<union> set us \<and>
      rs_channels (foldl (\<lambda>q uid. rs_subscribe_user True uid q) q us) = rs_channels q \<union> (\<Union>u \<in> set us. set (user_channels u))"
    if "rs_pubsub q" "\<forall>u \<in> rs_uids q. set (user_channels u) \<subseteq> rs_channels q" for q us
    using that
  proof (induction us arbitrary: q)
    case (Cons u us)
    have "rs_pubsub (rs_subscribe_user True u q)" "\<forall>v \<in> rs_uids (rs_subscribe_user True u q). set (user_channels v) \<subseteq> rs_channels (rs_subscribe_user True u q)"
      using Cons.prems by (auto simp: rs_subscribe_user_def)
    from Cons.IH [OF this] show ?case using Cons.prems by (auto simp: rs_subscribe_user_def)
  qed simp
  show "rs_uids (rs_reconnect True r) = rs_uids r" "rs_channels (rs_reconnect True r) = (\<Union>u \<in> rs_uids r. set (user_channels u))"
    using f [of "r\<lparr>rs_pubsub := True, rs_channels := {}, rs_uids := {}\<rparr>"] assms by (simp_all add: rs_reconnect_def Let_def)
qed

lemma stopped_stays: "\<not> rs_running r \<Longrightarrow> foldl (listen_round ro send_ok) (r, a, n) ms = (r, a, n)"
  by (induction ms) (simp_all add: listen_round_def)

lemma round_running:
  assumes "rs_running r" and "rs_pubsub r"
  obtains r' n' where "listen_round ro send_ok (r, a, n) m = (r', (if m = Lost then Suc a else a), n')" and "rs_pubsub r'"
    and "rs_running r' \<longleftrightarrow> \<not> (m = Lost \<and> 9 \<le> a)"
  using assms by (cases m) (simp_all add: listen_round_def max_reconnect_attempts_def)

lemma running_count:
  assumes "rs_running r" and "rs_pubsub r" and "a < 10"
  shows "rs_running (fst (foldl (listen_round ro send_ok) (r, a, n) ms)) \<longleftrightarrow> a + length (filter (\<lambda>m. m = Lost) ms) < 10"
  using assms
proof (induction ms arbitrary: r a n)
  case (Cons m ms)
  obtain r' n' where s: "listen_round ro send_ok (r, a, n) m = (r', (if m = Lost then Suc a else a), n')" and p: "rs_pubsub r'"
    and w: "rs_running r' \<longleftrightarrow> \<not> (m = Lost \<and> 9 \<le> a)" by (rule round_running [OF Cons.prems(1,2)])
  show ?case
  proof (cases "rs_running r'")
    case True
    then have "(if m = Lost then Suc a else a) < 10" using w Cons.prems(3) by auto
    from Cons.IH [OF True p this] show ?thesis using s by auto
  next
    case False
    then show ?thesis using w s by (auto simp: stopped_stays)
  qed
qed simp

text \<open>C40: The counter of failures is never reset while the subscription stands: the tenth failure since the start ends the listener, however many messages were
  handled in between, and everything after it is ignored.\<close>

theorem ten_losses_stop_listener:
  assumes "rs_running r" and "rs_pubsub r"
  shows "(rs_running (fst (foldl (listen_round ro send_ok) (r, 0, n) ms)) \<longleftrightarrow> length (filter (\<lambda>m. m = Lost) ms) < 10) \<and>
    (10 \<le> length (filter (\<lambda>m. m = Lost) ms) \<longrightarrow>
      foldl (listen_round ro send_ok) (r, 0, n) (ms @ ms') = foldl (listen_round ro send_ok) (r, 0, n) ms)"
proof -
  have run: "rs_running (fst (foldl (listen_round ro send_ok) (r, 0, n) ms)) \<longleftrightarrow> length (filter (\<lambda>m. m = Lost) ms) < 10"
    using running_count [OF assms, of 0 ro send_ok n ms] by simp
  obtain r' a' n' where st: "foldl (listen_round ro send_ok) (r, 0, n) ms = (r', a', n')" by (cases "foldl (listen_round ro send_ok) (r, 0, n) ms") auto
  then show ?thesis using run stopped_stays [of r' ro send_ok a' n' ms'] by auto
qed

theorem ten_losses_stop_listener_witness:
  "\<forall>(ro :: (mem, string) router) n. rs_running (fst (foldl (listen_round ro (\<lambda>_. True)) (rs_start True [] new_subscriber, 0, (n :: mem node)) (replicate 9 Lost @ [Quiet]))) \<and>
     \<not> rs_running (fst (foldl (listen_round ro (\<lambda>_. True)) (rs_start True [] new_subscriber, 0, n) (replicate 9 Lost @ [Quiet, Lost])))"
proof (intro allI)
  fix ro :: "(mem, string) router" and n :: "mem node"
  have r: "rs_running (rs_start True [] new_subscriber)" "rs_pubsub (rs_start True [] new_subscriber)" by (simp_all add: rs_start_def new_subscriber_def)
  note stop = ten_losses_stop_listener [OF r, of ro "\<lambda>_. True" n, THEN conjunct1]
  have "length (filter (\<lambda>m. m = Lost) (replicate 9 Lost @ [Quiet])) = 9" "length (filter (\<lambda>m. m = Lost) (replicate 9 Lost @ [Quiet, Lost])) = 10" by simp_all
  then show "rs_running (fst (foldl (listen_round ro (\<lambda>_. True)) (rs_start True [] new_subscriber, 0, n) (replicate 9 Lost @ [Quiet]))) \<and>
     \<not> rs_running (fst (foldl (listen_round ro (\<lambda>_. True)) (rs_start True [] new_subscriber, 0, n) (replicate 9 Lost @ [Quiet, Lost])))"
    unfolding stop by simp
qed

theorem channel_message_handled_witness:
  "\<exists>(n :: mem node) r. foldl rs_op (init_hub, rs_start True [] new_subscriber) [Op_register ''u'' 1] = (n_hub n, r) \<and>
     (\<forall>ro :: (mem, string) router. rs_deliver ro (\<lambda>_. True) r 0 ''user:u/job_chats'' (json_dumps (PDict [])) demo_ids n =
        handle_job_chat_message (ro_chat ro) (\<lambda>_. True) ''u'' [] demo_ids n)"
proof -
  obtain h r where g: "foldl rs_op (init_hub, rs_start True [] new_subscriber) [Op_register ''u'' 1] = (h, r)" by fastforce
  let ?n = "\<lparr>n_srv = empty_mem, n_hub = h, n_sent = []\<rparr>"
  have u: "set [] = get_connected_users init_hub" by (simp add: get_connected_users_def init_hub_def)
  have run: "foldl rs_op (init_hub, rs_start True [] new_subscriber) [Op_register ''u'' 1] = (n_hub ?n, r)" using g by simp
  have "h = fst (register init_hub ''u'' 1)" using g by (simp add: follow_op_def split: prod.splits)
  then have c: "is_user_connected (n_hub ?n) ''u''" by (simp add: register_def init_hub_def is_user_connected_def conns_of_def Let_def)
  have s: "''job_chats'' \<in> set USER_CHANNEL_SUFFIXES" by (simp add: USER_CHANNEL_SUFFIXES_def)
  have "rs_deliver ro (\<lambda>_. True) r 0 ''user:u/job_chats'' (json_dumps (PDict [])) demo_ids ?n = handle_job_chat_message (ro_chat ro) (\<lambda>_. True) ''u'' [] demo_ids ?n"
    for ro :: "(mem, string) router"
    using channel_message_handled [OF u run c _ _ s, of ro "\<lambda>_. True" 0 "[]" demo_ids] by simp
  then show ?thesis using run by blast
qed

end
