(* ===== verification/Job_Stop.thy ===== *)
theory Job_Stop
  imports Channel_Router Active_Queue
begin

text \<open>
  \<open>handle_job_stop\<close> of \<open>src/app/wrappers/job_actions_handler.py\<close>: a request to stop is written to the queue of active jobs. A job that was still waiting is taken out of the queue at
  once; no worker will ever report on it, so the handler writes the status to Firestore and publishes the report a worker would have published. The Redis subscriber
  handles it like any other report. \<open>FirebaseManagement\<close> writes the two documents and announces the notification to the browser.

  \<open>jb_merge\<close> is \<open>set\<close> with \<open>merge=True\<close> of Firestore, \<open>jb_error\<close> the text of an exception. A request whose \<open>job_ids\<close> cannot be counted and iterated is answered with
  \<open>STOP_ERROR\<close> by the \<open>except\<close> branch of the handler; the Firestore client exists, so nothing else in its body raises (\<open>request_stop\<close> and the reports catch their own
  exceptions). The mandate path, which a log line before the \<open>try\<close> slices, the company and the identifiers inside the lists are texts, as the annotations say; the model
  is not defined for others and gives an exception of the call. A publication from a
  worker thread is scheduled on the server loop and runs at the next await of the handler, that is, before its next call. The clock is read once. Log output is left out.
\<close>

section \<open>Definitions\<close>

record 's jobs =
  jb_sub :: "'s sub"
  jb_merge :: "string \<Rightarrow> string \<Rightarrow> pydict \<Rightarrow> 's \<Rightarrow> unit result \<times> 's"
  jb_error :: "exn \<Rightarrow> string"

subsection \<open>Job types\<close>

record job_config =
  process_endpoint :: "string option"
  stop_endpoint :: "string option"
  local_port :: "nat option"
  jc_department :: string
  jc_domain :: string
  approval_prefix :: string

definition ROUTER_CONFIG :: job_config where
  "ROUTER_CONFIG = \<lparr>process_endpoint = Some ''/event-trigger'', stop_endpoint = Some ''/stop_router'', local_port = Some 8080, jc_department = ''Router'', jc_domain = ''routing'',
     approval_prefix = ''router_''\<rparr>"

definition JOB_TYPE_CONFIG :: "(string \<times> job_config) list" where
  "JOB_TYPE_CONFIG =
    [(''router'', ROUTER_CONFIG),
     (''apbookeeper'', \<lparr>process_endpoint = Some ''/apbookeeper-event-trigger'', stop_endpoint = Some ''/stop_apbookeeper'', local_port = Some 8081, jc_department = ''APbookeeper'',
        jc_domain = ''invoices'', approval_prefix = ''ap_''\<rparr>),
     (''bankbookeeper'', \<lparr>process_endpoint = Some ''/banker-event-trigger'', stop_endpoint = Some ''/stop_banker'', local_port = Some 8082, jc_department = ''Bankbookeeper'',
        jc_domain = ''bank'', approval_prefix = ''bank_''\<rparr>),
     (''exbookeeper'', \<lparr>process_endpoint = None, stop_endpoint = None, local_port = None, jc_department = ''EXbookeeper'', jc_domain = ''expenses'', approval_prefix = ''ex_''\<rparr>),
     (''onboarding'', \<lparr>process_endpoint = Some ''/onboarding_manager_agent'', stop_endpoint = Some ''/stop-onboarding'', local_port = Some 8080, jc_department = ''Onboarding'',
        jc_domain = ''onboarding'', approval_prefix = ''onboarding_''\<rparr>),
     (''hr'', \<lparr>process_endpoint = Some ''/hr-event-trigger'', stop_endpoint = Some ''/stop-hr'', local_port = Some 8083, jc_department = ''HR'', jc_domain = ''hr'', approval_prefix = ''hr_''\<rparr>)]"

definition ACTIVE_JOB_TYPE_MAP :: "(string \<times> string) list" where
  "ACTIVE_JOB_TYPE_MAP = [(''router'', ''router''), (''apbookeeper'', ''apbookeeper''), (''bankbookeeper'', ''banker''), (''exbookeeper'', ''exbookeeper''), (''onboarding'', ''onboarding''),
     (''hr'', ''hr'')]"

definition config_of :: "string \<Rightarrow> job_config" where
  "config_of job_type = (case map_of JOB_TYPE_CONFIG job_type of Some c \<Rightarrow> c | None \<Rightarrow> ROUTER_CONFIG)"

definition active_type :: "string \<Rightarrow> string" where
  "active_type job_type = (case map_of ACTIVE_JOB_TYPE_MAP job_type of Some t \<Rightarrow> t | None \<Rightarrow> job_type)"

subsection \<open>Documents of jobs\<close>

text \<open>\<open>FirebaseManagement._publish_notification_event\<close>. It runs after the document was written, so the action is \<open>update\<close> whenever the identifier names that document.\<close>

definition FN_NORMALIZE :: "(string \<times> string) list" where
  "FN_NORMALIZE = [(''router'', ''Router''), (''apbookeeper'', ''APbookeeper''), (''bankbookeeper'', ''Bankbookeeper''), (''onboarding'', ''Onboarding'')]"

definition normalized_fn :: "pyval \<Rightarrow> pyval" where
  "normalized_fn raw_fn = (case raw_fn of PStr t \<Rightarrow> (case map_of FN_NORMALIZE (py_lower t) of Some f \<Rightarrow> PStr f | None \<Rightarrow> raw_fn) | _ \<Rightarrow> raw_fn)"

definition job_document_id :: "pydict \<Rightarrow> pyval" where
  "job_document_id d = py_or (py_or (dget d ''job_id'') (dget d ''file_id'')) (dget d ''batch_id'')"

definition notification_payload :: "(pyval \<Rightarrow> string) \<Rightarrow> pydict \<Rightarrow> string \<Rightarrow> pydict" where
  "notification_payload show d now =
     (let file_name = dget_or d ''file_name'' (PStr []); status = dget_or d ''status'' (PStr ''pending''); message = dget_or d ''message'' (PStr []) in
      [(''docId'', job_document_id d),
       (''message'', if \<not> truthy message \<and> truthy file_name then PStr (py_str show file_name @ '' - '' @ py_str show status) else message),
       (''fileName'', file_name), (''collectionId'', dget_or d ''collection_id'' (PStr [])), (''collectionName'', dget_or d ''collection_name'' (PStr [])), (''status'', status),
       (''read'', dget_or d ''read'' (PBool False)), (''jobId'', dget_or d ''job_id'' (PStr [])), (''fileId'', dget_or d ''file_id'' (PStr [])),
       (''functionName'', normalized_fn (dget_or d ''function_name'' (PStr ''Router''))), (''timestamp'', dget_or d ''timestamp'' (PStr now)),
       (''additionalInfo'', dget_or d ''additional_info'' (PStr [])), (''driveLink'', dget_or d ''drive_link'' (PStr [])), (''batchId'', dget_or d ''batch_id'' (PStr []))])"

definition publish_job_notification :: "'s jobs \<Rightarrow> (conn \<Rightarrow> bool) \<Rightarrow> string \<Rightarrow> pydict \<Rightarrow> string \<Rightarrow> ('s, 'z) node_scheme \<Rightarrow> ('s, 'z) node_scheme" where
  "publish_job_notification jb send_ok collection_path job_data now n =
     (case (split_on CHR ''/'' collection_path, job_document_id job_data) of
        (base # user_id # _, PStr i) \<Rightarrow>
          if base \<noteq> ''clients'' then n
          else (case on_srv (f_get (sb_fs (jb_sub jb)) collection_path i) n of
                  (Inl _, n1) \<Rightarrow> n1
                | (Inr doc, n1) \<Rightarrow>
                    run_scheduled (sb_redis (jb_sub jb)) send_ok
                      (publish_on (\<lambda>h. publish_notification_event (sb_redis (jb_sub jb)) h user_id (if doc \<noteq> None then ''update'' else ''new'')
                         (notification_payload (sb_show (jb_sub jb)) job_data now) False) ([], n1)))
      | _ \<Rightarrow> n)"

text \<open>\<open>add_or_update_job_by_job_id\<close> and \<open>add_or_update_job_by_file_id\<close>, which differ in the field that has the identifier.\<close>

definition put_job_document :: "'s jobs \<Rightarrow> string \<Rightarrow> string \<Rightarrow> pydict \<Rightarrow> 's \<Rightarrow> unit result \<times> 's" where
  "put_job_document jb collection_path i job_data =
     sbind (f_get (sb_fs (jb_sub jb)) collection_path i) (\<lambda>doc.
       if doc \<noteq> None then jb_merge jb collection_path i job_data else f_set (sb_fs (jb_sub jb)) collection_path i job_data)"

definition add_or_update_job :: "'s jobs \<Rightarrow> (conn \<Rightarrow> bool) \<Rightarrow> string \<Rightarrow> string \<Rightarrow> pydict \<Rightarrow> string \<Rightarrow> ('s, 'z) node_scheme \<Rightarrow> string option \<times> ('s, 'z) node_scheme" where
  "add_or_update_job jb send_ok key_field collection_path job_data now n =
     (case map_of job_data key_field of
        Some (PStr i) \<Rightarrow>
          (let data = dset job_data ''timestamp'' (PStr now) in
           case on_srv (put_job_document jb collection_path i data) n of
             (Inl _, n1) \<Rightarrow> (None, n1)
           | (Inr _, n1) \<Rightarrow> (Some i, if py_in ''notifications'' collection_path then publish_job_notification jb send_ok collection_path data now n1 else n1))
      | _ \<Rightarrow> (None, n))"

definition add_or_update_job_by_job_id :: "'s jobs \<Rightarrow> (conn \<Rightarrow> bool) \<Rightarrow> string \<Rightarrow> pydict \<Rightarrow> string \<Rightarrow> ('s, 'z) node_scheme \<Rightarrow> string option \<times> ('s, 'z) node_scheme" where
  "add_or_update_job_by_job_id jb send_ok = add_or_update_job jb send_ok ''job_id''"

definition add_or_update_job_by_file_id :: "'s jobs \<Rightarrow> (conn \<Rightarrow> bool) \<Rightarrow> string \<Rightarrow> pydict \<Rightarrow> string \<Rightarrow> ('s, 'z) node_scheme \<Rightarrow> string option \<times> ('s, 'z) node_scheme" where
  "add_or_update_job_by_file_id jb send_ok = add_or_update_job jb send_ok ''file_id''"

subsection \<open>Stopping\<close>

definition stopped_data :: pydict where
  "stopped_data = [(''status'', PStr ''stopped''), (''stopped_by'', PStr ''user_pending_cancel'')]"

definition stopped_message :: "string \<Rightarrow> string \<Rightarrow> string \<Rightarrow> string \<Rightarrow> string \<Rightarrow> pydict" where
  "stopped_message job_type job_id company_id mandate_path now =
     [(''type'', PStr ''task_manager_update''), (''job_id'', PStr job_id), (''status'', PStr ''stopped''), (''department'', PStr (jc_department (config_of job_type))),
      (''collection_id'', PStr company_id), (''mandate_path'', PStr mandate_path), (''data'', PDict stopped_data), (''timestamp'', PStr now)]"

definition send_synthetic_stopped_notification ::
  "'s jobs \<Rightarrow> (conn \<Rightarrow> bool) \<Rightarrow> string \<Rightarrow> string \<Rightarrow> string \<Rightarrow> string \<Rightarrow> string \<Rightarrow> string \<Rightarrow> ('s, 'z) node_scheme \<Rightarrow> ('s, 'z) node_scheme" where
  "send_synthetic_stopped_notification jb send_ok uid job_type job_id mandate_path company_id now n =
     (let n1 = snd (add_or_update_job_by_job_id jb send_ok (''clients/'' @ uid @ ''/task_manager'')
                 [(''job_id'', PStr job_id), (''status'', PStr ''stopped''), (''stopped_at'', PStr now), (''stopped_by'', PStr ''user_pending_cancel'')] now n);
          n2 = snd (add_or_update_job_by_job_id jb send_ok (''clients/'' @ uid @ ''/notifications'') [(''job_id'', PStr job_id), (''status'', PStr ''stopped'')] now n1) in
      snd (on_srv (r_publish (sb_redis (jb_sub jb)) (''user:'' @ uid @ ''/task_manager'')
             (json_dumps (PDict (stopped_message job_type job_id company_id mandate_path now)))) n2))"

text \<open>A list of texts, or nothing.\<close>

definition texts_of :: "pyval \<Rightarrow> string list result" where
  "texts_of v = (if v = PNone then Inr [] else rbind (py_iter v) (rmap as_str))"

definition stop_keys :: "pydict \<Rightarrow> pyval" where
  "stop_keys payload =
     (let job_ids = dget_or payload ''job_ids'' (PList []); single_job_id = dget payload ''job_id'' in
      if truthy single_job_id \<and> \<not> truthy job_ids then PList [single_job_id] else job_ids)"

fun request_stops :: "'s firestore \<Rightarrow> string \<Rightarrow> string \<Rightarrow> string list \<Rightarrow> string list \<Rightarrow> string list \<Rightarrow> string \<Rightarrow> 's \<Rightarrow> stop_result list \<times> 's" where
  "request_stops fs mandate_path job_type [] job_ids_to_stop transaction_ids now s = ([], s)"
| "request_stops fs mandate_path job_type (jid # jids) job_ids_to_stop transaction_ids now s =
     (case request_stop fs mandate_path job_type jid job_ids_to_stop transaction_ids now s of
        (r, s1) \<Rightarrow> (case request_stops fs mandate_path job_type jids job_ids_to_stop transaction_ids now s1 of (rs, s2) \<Rightarrow> (r # rs, s2)))"

definition stop_answer :: "string list \<Rightarrow> stop_result list \<Rightarrow> pydict" where
  "stop_answer job_ids stop_results =
     [(''success'', PBool True), (''stopped_jobs'', PList (map PStr job_ids)), (''synthetic_stops'', PNum (of_nat (length (concat (map synthetic_stops stop_results))))),
      (''message'', PStr (''Stop requested for '' @ nat_str (length (filter stop_success stop_results)) @ ''/'' @ nat_str (length job_ids) @ '' jobs via active_jobs''))]"

definition stop_error :: "'s jobs \<Rightarrow> exn \<Rightarrow> pydict" where
  "stop_error jb e = [(''success'', PBool False), (''error'', PStr (jb_error jb e)), (''code'', PStr ''STOP_ERROR'')]"

definition handle_job_stop ::
  "'s jobs \<Rightarrow> (conn \<Rightarrow> bool) \<Rightarrow> string \<Rightarrow> string \<Rightarrow> pydict \<Rightarrow> pydict \<Rightarrow> string \<Rightarrow> ('s, 'z) node_scheme \<Rightarrow> pydict result \<times> ('s, 'z) node_scheme" where
  "handle_job_stop jb send_ok uid job_type payload company_data now n =
     (if \<not> truthy (stop_keys payload)
      then (Inr [(''success'', PBool False), (''error'', PStr ''No jobs specified''), (''code'', PStr ''NO_JOBS'')], n)
      else case rbind (py_len (stop_keys payload)) (\<lambda>_. py_iter (stop_keys payload)) of
        Inl e \<Rightarrow> (Inr (stop_error jb e), n)
      | Inr ids \<Rightarrow>
      (case (rmap as_str ids, texts_of (dget payload ''job_ids_to_stop''), texts_of (dget payload ''transaction_ids''),
             as_str (dget_or company_data ''mandate_path'' (PStr [])), as_str (dget_or company_data ''company_id'' (PStr []))) of
        (Inr job_ids, Inr job_ids_to_stop, Inr transaction_ids, Inr mandate_path, Inr company_id) \<Rightarrow>
          (case on_srv (request_stops (sb_fs (jb_sub jb)) mandate_path (active_type job_type) job_ids job_ids_to_stop transaction_ids now) n of
             (stop_results, n1) \<Rightarrow>
               (Inr (stop_answer job_ids stop_results),
                foldl (\<lambda>n stopped_job_id. send_synthetic_stopped_notification jb send_ok uid job_type stopped_job_id mandate_path company_id now n)
                  n1 (concat (map synthetic_stops stop_results))))
      | _ \<Rightarrow> (Inl TypeError, n)))"

section \<open>What the announcements leave alone\<close>

lemma publish_user_plain: "plain_broadcasts (fst (snd (publish_notification_event rc h uid a d skip s)))"
  by (auto simp: publish_notification_event_def publish_delta_event_def publish_user_event_def publish_contextual_plain)

lemma run_scheduled_hub:
  assumes "plain_broadcasts (fst bn)" and "\<And>c. send_ok c"
  shows "n_hub (run_scheduled rc send_ok bn) = n_hub (snd bn)"
proof -
  have "n_hub (foldl (\<lambda>n b. snd (hub_broadcast rc send_ok (fst b) (snd b) n)) n bs) = n_hub n" if "plain_broadcasts bs" for n :: "('a, 'b) node_scheme" and bs
    using that
  proof (induction bs arbitrary: n)
    case (Cons b bs)
    then have "thread_key_of (normalize_message (snd b)) = None" by (simp add: plain_broadcasts_def thread_key_normalize)
    then show ?case using Cons by (simp add: plain_broadcasts_def hub_broadcast_open assms(2))
  qed simp
  then show ?thesis using assms(1) by (simp add: run_scheduled_def)
qed

text \<open>An observation of the state that neither the cached profiles of users nor the documents below \<open>clients\<close> matter to.\<close>

locale bystander = frame "sb_redis (jb_sub jb)" g K
  for jb :: "'s jobs" and g :: "'s \<Rightarrow> 'x" and K :: "string set" +
  assumes profile_keys: "build_user_profile_key u \<in> K"
    and client_get: "preserves g (f_get (sb_fs (jb_sub jb)) c i)"
    and client_set: "starts_with ''clients/'' c \<Longrightarrow> preserves g (f_set (sb_fs (jb_sub jb)) c i d)"
    and client_merge: "starts_with ''clients/'' c \<Longrightarrow> preserves g (jb_merge jb c i d)"
begin

lemma publish_event_bystander: "g (snd (snd (publish_notification_event (sb_redis (jb_sub jb)) h uid a d skip s))) = g s"
proof -
  obtain c s1 where 1: "Contextual_Publisher.get_user_context (sb_redis (jb_sub jb)) h uid s = (c, s1)" by force
  have ttl: "0 < ttl_or (Some TTL_USER_PROFILE) (get_ttl_for_cache USER None)" by (simp add: TTL_USER_PROFILE_def ttl_or_def)
  show ?thesis using 1 preserves_eq [OF user_context_frame 1] preservesD [OF update_cache_frame [OF profile_keys ttl]]
    by (simp add: publish_notification_event_def publish_delta_event_def publish_user_event_def publish_contextual_event_def given_def Let_def)
qed

lemma job_notification_bystander: "g (n_srv (publish_job_notification jb send_ok p d now n)) = g (n_srv n)"
proof -
  have pub: "g (n_srv (run_scheduled (sb_redis (jb_sub jb)) send_ok (publish_on (\<lambda>h. publish_notification_event (sb_redis (jb_sub jb)) h u a e False) ([], m)))) = g (n_srv m)"
    for u a e and m :: "('s, 'z) node_scheme"
  proof -
    let ?p = "\<lambda>h. publish_notification_event (sb_redis (jb_sub jb)) h u a e False"
    have "plain_broadcasts (fst (publish_on ?p ([], m)))" by (rule publish_on_plain) (simp_all add: publish_user_plain)
    then show ?thesis using run_scheduled_srv publish_on_srv [where g = g and p = ?p and bn = "([], m)"] publish_event_bystander by (metis snd_conv)
  qed
  show ?thesis
    using preservesD [OF client_get] by (auto simp: publish_job_notification_def on_srv_def pub split: list.split pyval.split prod.split sum.split) (metis snd_conv)+
qed

lemma add_or_update_bystander:
  assumes "starts_with ''clients/'' p"
  shows "g (n_srv (snd (add_or_update_job jb send_ok fld p d now n))) = g (n_srv n)"
proof -
  have w: "preserves g (put_job_document jb p i e)" for i e
    unfolding put_job_document_def by (intro preserves_sbind preserves_if client_get client_set client_merge assms)
  show ?thesis
  proof (cases "\<exists>i. map_of d fld = Some (PStr i)")
    case True
    then obtain i where i: "map_of d fld = Some (PStr i)" by blast
    obtain r s1 where f: "put_job_document jb p i (dset d ''timestamp'' (PStr now)) (n_srv n) = (r, s1)" by force
    show ?thesis using i f preserves_eq [OF w f] by (cases r) (simp_all add: add_or_update_job_def on_srv_def job_notification_bystander Let_def)
  qed (auto simp: add_or_update_job_def split: option.split pyval.split)
qed

lemma documents_bystander:
  "g (n_srv (snd (add_or_update_job_by_job_id jb send_ok (''clients/'' @ uid @ q) d now n))) = g (n_srv n)"
  by (simp add: add_or_update_job_by_job_id_def add_or_update_bystander)

end

section \<open>Items of stopped jobs\<close>

definition same_job :: "(pyval \<Rightarrow> string) \<Rightarrow> string \<Rightarrow> string \<Rightarrow> pydict \<Rightarrow> bool" where
  "same_job show dm j it = (case tx_id_for_match show dm j stopped_data of Inr tx \<Rightarrow> is_job show j tx it | Inl _ \<Rightarrow> False)"

lemma stopped_tx: "\<exists>tx. tx_id_for_match show dm j stopped_data = Inr tx"
  by (simp add: tx_id_for_match_def department_tx_def dotted_tx_def stopped_data_def dget_or_def dget_def)

lemma dget_or_dupdate: "dget_or (dupdate d e) k v = (case map_of (rev e) k of Some w \<Rightarrow> w | None \<Rightarrow> dget_or d k v)"
  by (induction e arbitrary: d) (auto simp: dupdate_def dget_or_def map_of_dset map_add_def split: option.split)

lemma same_job_merged: "same_job show dm j' (merged_item (Some it) stopped_data) = same_job show dm j' it"
  by (simp add: same_job_def merged_item_def is_job_def dget_dupdate stopped_data_def dget_or_dupdate split: sum.split)

text \<open>Each job has one item on the page; those in \<open>to_process\<close> with the status \<open>stopped\<close> have been stopped.\<close>

definition on_page :: "(pyval \<Rightarrow> string) \<Rightarrow> string \<Rightarrow> pydict \<Rightarrow> string \<Rightarrow> bool" where
  "on_page show dm d j \<longleftrightarrow> (\<exists>it. filter (same_job show dm j) (page_items d) = [it])"

definition is_back :: "(pyval \<Rightarrow> string) \<Rightarrow> string \<Rightarrow> pydict \<Rightarrow> string \<Rightarrow> bool" where
  "is_back show dm d j \<longleftrightarrow> (\<exists>it \<in> set (page_list d ''to_process''). same_job show dm j it \<and> dget it ''status'' = PStr ''stopped'')"

lemma stopped_target: "get_target_category_key dm ''stopped'' = ''to_process''"
  by (simp add: get_target_category_key_def STATUS_TO_ABSTRACT_CATEGORY_def UNIVERSAL_KEY_def CATEGORY_KEYS_def)

lemma stopped_status: "status_for ex stopped_data = Inr ''stopped''"
proof -
  have "py_lower ''stopped'' = ''stopped''" by (simp add: py_lower_def lower_char_def code_def)
  then show ?thesis by (simp add: status_for_def lower_status_def stopped_data_def dget_def py_or_def)
qed

lemma merged_stopped: "dget (merged_item ex stopped_data) ''status'' = PStr ''stopped''"
  by (simp add: merged_item_def stopped_data_def dget_dupdate dget_def split: option.split)

lemma filter_single:
  assumes "filter f xs = [x]"
  shows "x \<in> set xs" and "f x" and "y \<in> set xs \<Longrightarrow> f y \<longleftrightarrow> y = x"
proof -
  have "set (filter f xs) = {x}" using assms by simp
  then show "x \<in> set xs" "f x" "y \<in> set xs \<Longrightarrow> f y \<longleftrightarrow> y = x" by auto
qed

lemma find_filter: "filter f xs = [x] \<Longrightarrow> find f xs = Some x"
  by (induction xs) (auto split: if_splits)

lemma filter_single_mset: "mset (filter f xs) = {#x#} \<longleftrightarrow> filter f xs = [x]"
  by (metis mset_single_iff_right)

lemma stop_page_step:
  assumes "\<forall>k \<in> set CATEGORY_KEYS. page_list d' k = report_page (same_job show dm j) ''to_process'' stopped_data (page_list d) k" and "on_page show dm d j"
  shows "on_page show dm d j' \<Longrightarrow> on_page show dm d' j'" and "is_back show dm d' j" and "is_back show dm d j' \<Longrightarrow> is_back show dm d' j'"
proof -
  let ?f = "same_job show dm j" and ?g = "same_job show dm j'"
  obtain ex where ex: "filter ?f (page_items d) = [ex]" using assms(2) by (auto simp: on_page_def)
  let ?m = "merged_item (Some ex) stopped_data"
  note fd = find_filter [OF ex]
  have t: "''to_process'' \<in> set CATEGORY_KEYS" by (simp add: CATEGORY_KEYS_def)
  have ms: "mset (page_items d') = add_mset ?m (filter_mset (\<lambda>it. \<not> ?f it) (mset (page_items d)))"
    using report_items [OF assms(1) t] fd by simp
  have l: "page_list d' ''to_process'' = ?m # filter (\<lambda>it. \<not> ?f it) (page_list d ''to_process'')"
    using assms(1) t fd by (simp add: report_page_def page_items_def)
  note exj = filter_single [OF ex]
  show "is_back show dm d' j" using l exj(2) same_job_merged merged_stopped by (auto simp: is_back_def)
  show "is_back show dm d' j'" if b: "is_back show dm d j'"
  proof -
    obtain it where it: "it \<in> set (page_list d ''to_process'')" "?g it" "dget it ''status'' = PStr ''stopped''" using b by (auto simp: is_back_def)
    have "it \<in> set (page_items d)" using it(1) t by (auto simp: page_items_def)
    then have "?f it \<longleftrightarrow> it = ex" by (rule exj(3))
    then show ?thesis using l it same_job_merged merged_stopped by (cases "?f it") (auto simp: is_back_def)
  qed
  show "on_page show dm d' j'" if o: "on_page show dm d j'"
  proof -
    obtain it where it: "filter ?g (page_items d) = [it]" using o by (auto simp: on_page_def)
    have "filter_mset ?g (filter_mset (\<lambda>it. \<not> ?f it) (mset (page_items d))) = filter_mset (\<lambda>it. \<not> ?f it) {#it#}"
      using arg_cong [OF it, of "\<lambda>xs. filter_mset (\<lambda>it. \<not> ?f it) (mset xs)"] by (simp add: filter_filter_mset conj_commute)
    then have s: "mset (filter ?g (page_items d')) = (if ?g ex then {#?m#} else {#}) + (if ?f it then {#} else {#it#})"
      using ms same_job_merged by simp
    have "?f it \<longleftrightarrow> it = ex" by (rule exj(3)) (rule filter_single(1) [OF it])
    moreover have "?g ex \<longleftrightarrow> ex = it" by (rule filter_single(3) [OF it exj(1)])
    ultimately have "\<exists>x. mset (filter ?g (page_items d')) = {#x#}" using s by auto
    then show ?thesis unfolding on_page_def by (simp only: filter_single_mset)
  qed
qed

section \<open>The services of the handler\<close>

lemma request_stop_preserves:
  assumes "\<And>c i. preserves g (f_get fs c i)" and "\<And>c i u. preserves g (f_update fs c i u)" and "\<And>c i. preserves g (f_delete fs c i)" and "\<And>c f v. preserves g (f_where fs c f v)"
  shows "preserves g (request_stop fs m jt k ids txs now)"
proof -
  have on: "preserves g (stop_on_process fs c i d key jids txs now)" for c i d key jids
    unfolding stop_on_process_def by (intro preserves_sbind preserves_sret assms)
  have pe: "preserves g (stop_pending fs c i d key jids now)" for c i d key jids
    unfolding stop_pending_def by (intro preserves_sbind preserves_sret) (auto simp: Let_def intro!: preserves_sbind preserves_sret assms split: prod.split)
  have sc: "preserves g (stop_by_scanning fs jt m k ids txs now)"
    unfolding stop_by_scanning_def Let_def by (intro preserves_sbind preserves_sret assms) (auto intro!: preserves_sbind preserves_sret on pe assms split: option.split prod.split)
  show ?thesis unfolding request_stop_def Let_def
    by (intro preserves_stry preserves_sbind assms) (auto intro!: preserves_sbind preserves_sret on pe sc assms split: option.split)
qed

locale job_services = reporting "jb_sub jb" view tick docs + redis_out "sb_redis (jb_sub jb)" view tick out
  for jb :: "'s jobs" and view :: "'s \<Rightarrow> rview" and tick :: "nat \<Rightarrow> 's \<Rightarrow> 's" and docs :: "'s \<Rightarrow> fview" and out :: "'s \<Rightarrow> (string \<times> text_val) list" +
  assumes merge_law: "docs s c i = Some e0 \<Longrightarrow> \<exists>e s'. jb_merge jb c i d s = (Inr (), s') \<and> docs s' = put_doc (docs s) c i (Some e) \<and>
        (\<forall>k v. map_of d k = Some v \<longrightarrow> (\<forall>x. v \<noteq> PDict x) \<longrightarrow> map_of e k = Some v) \<and> (\<forall>k. map_of d k = None \<longrightarrow> map_of e k = map_of e0 k)"
    and merge_elsewhere: "c' \<noteq> c \<Longrightarrow> docs (snd (jb_merge jb c i d s)) c' = docs s c'"
    and merge_view: "preserves view (jb_merge jb c i d)"
    and merge_out: "preserves out (jb_merge jb c i d)"
    and f_get_out: "preserves out (f_get (sb_fs (jb_sub jb)) c i)"
    and f_set_out: "preserves out (f_set (sb_fs (jb_sub jb)) c i d)"
    and f_update_out: "preserves out (f_update (sb_fs (jb_sub jb)) c i u)"
    and f_delete_out: "preserves out (f_delete (sb_fs (jb_sub jb)) c i)"
    and f_where_out: "preserves out (f_where (sb_fs (jb_sub jb)) c f v)"
    and publish_docs: "preserves docs (r_publish (sb_redis (jb_sub jb)) ch t)"
begin

lemma key_bystander: "k \<notin> range build_user_profile_key \<Longrightarrow> bystander jb (\<lambda>s. view s k) (- {k})"
proof (intro bystander.intro bystander_axioms.intro)
  show "frame (sb_redis (jb_sub jb)) (\<lambda>s. view s k) (- {k})" by (rule key_frame)
qed (use f_get_view f_set_view merge_view in \<open>auto simp: preserves_def\<close>)

lemma col_bystander: "\<not> starts_with ''clients/'' c \<Longrightarrow> bystander jb (\<lambda>s. docs s c) UNIV"
proof (intro bystander.intro bystander_axioms.intro)
  show "frame (sb_redis (jb_sub jb)) (\<lambda>s. docs s c) UNIV" using docs_frame by (simp add: frame_def preserves_def)
  show "preserves (\<lambda>s. docs s c) (f_get (sb_fs (jb_sub jb)) c' i)" for c' i unfolding preserves_def using fs.f_get_up by (metis snd_conv)
  assume c: "\<not> starts_with ''clients/'' c"
  show "preserves (\<lambda>s. docs s c) (jb_merge jb c' i d)" if "starts_with ''clients/'' c'" for c' i d using c that merge_elsewhere [of c c'] by (auto simp: preserves_def)
  show "preserves (\<lambda>s. docs s c) (f_set (sb_fs (jb_sub jb)) c' i d)" if "starts_with ''clients/'' c'" for c' i d
    unfolding preserves_def
  proof
    fix s
    obtain s' where "f_set (sb_fs (jb_sub jb)) c' i d s = (Inr (), s')" "docs s' = put_doc (docs s) c' i (Some d)" by (rule fs.f_set_up)
    then show "docs (snd (f_set (sb_fs (jb_sub jb)) c' i d s)) c = docs s c" using c that by (auto simp: put_doc_def)
  qed
qed auto

lemma out_bystander: "bystander jb out UNIV"
proof (intro bystander.intro bystander_axioms.intro)
  show "frame (sb_redis (jb_sub jb)) out UNIV" using get_out setex_out by (simp add: frame_def preserves_def)
qed (use f_get_out f_set_out merge_out in auto)

lemma request_stop_frames: "preserves view (request_stop (sb_fs (jb_sub jb)) m jt k ids txs now)" "preserves out (request_stop (sb_fs (jb_sub jb)) m jt k ids txs now)"
  by (rule request_stop_preserves, (rule f_get_view f_update_view f_delete_view f_where_view f_get_out f_update_out f_delete_out f_where_out)+)+

end

lemma job_notification_hub:
  assumes "\<And>c. send_ok c"
  shows "n_hub (publish_job_notification jb send_ok p d now n) = n_hub n"
proof -
  have pub: "n_hub (run_scheduled rc send_ok (publish_on (\<lambda>h. publish_notification_event rc h u a e False) ([], m))) = n_hub m"
    for rc :: "'a redis" and u a e and m :: "('a, 'b) node_scheme"
  proof -
    let ?p = "\<lambda>h. publish_notification_event rc h u a e False"
    have "plain_broadcasts (fst (publish_on ?p ([], m)))" by (rule publish_on_plain) (simp_all add: publish_user_plain)
    from run_scheduled_hub [OF this assms, of rc] show ?thesis by (simp add: publish_on_def split: prod.split)
  qed
  show ?thesis by (auto simp: publish_job_notification_def on_srv_def pub split: list.split pyval.split prod.split sum.split)
qed

lemma add_or_update_hub: "(\<And>c. send_ok c) \<Longrightarrow> n_hub (snd (add_or_update_job jb send_ok fld p d now n)) = n_hub n"
  by (auto simp: add_or_update_job_def on_srv_def job_notification_hub Let_def split: option.split pyval.split prod.split sum.split)

context job_services
begin

text \<open>What follows the removal of a waiting job: a message for the subscriber, and nothing that the queue, the page or the context of the user depend on.\<close>

lemma synthetic_stop:
  fixes n :: "('s, 'z) node_scheme"
  assumes "n' = send_synthetic_stopped_notification jb send_ok uid jt j m cid now n"
  shows "k \<notin> range build_user_profile_key \<Longrightarrow> view (n_srv n') k = view (n_srv n) k"
    and "\<not> starts_with ''clients/'' c \<Longrightarrow> docs (n_srv n') c = docs (n_srv n) c"
    and "out (n_srv n') = out (n_srv n) @ [(''user:'' @ uid @ ''/task_manager'', json_dumps (PDict (stopped_message jt j cid m now)))]"
    and "(\<And>c. send_ok c) \<Longrightarrow> n_hub n' = n_hub n"
proof -
  define n1 where "n1 = snd (add_or_update_job_by_job_id jb send_ok (''clients/'' @ uid @ ''/task_manager'')
    [(''job_id'', PStr j), (''status'', PStr ''stopped''), (''stopped_at'', PStr now), (''stopped_by'', PStr ''user_pending_cancel'')] now n)"
  define n2 where "n2 = snd (add_or_update_job_by_job_id jb send_ok (''clients/'' @ uid @ ''/notifications'') [(''job_id'', PStr j), (''status'', PStr ''stopped'')] now n1)"
  obtain x s3 where 3: "r_publish (sb_redis (jb_sub jb)) (''user:'' @ uid @ ''/task_manager'') (json_dumps (PDict (stopped_message jt j cid m now))) (n_srv n2) = (Inr x, s3)"
    "view s3 = view (n_srv n2)" "out s3 = out (n_srv n2) @ [(''user:'' @ uid @ ''/task_manager'', json_dumps (PDict (stopped_message jt j cid m now)))]"
    by (rule publish_msg)
  have n': "n' = n2\<lparr>n_srv := s3\<rparr>"
    unfolding assms send_synthetic_stopped_notification_def Let_def n1_def [symmetric] n2_def [symmetric] by (simp only: on_srv_def 3(1) prod.case snd_conv)
  have d3: "docs s3 = docs (n_srv n2)" using preserves_eq [OF publish_docs 3(1)] .
  have 2: "g (n_srv n2) = g (n_srv n)" if "bystander jb g K" for g :: "'s \<Rightarrow> 'y" and K
    unfolding n1_def n2_def by (simp only: bystander.documents_bystander [OF that])
  show "view (n_srv n') k = view (n_srv n) k" if "k \<notin> range build_user_profile_key" using 2 [OF key_bystander [OF that]] 3(2) n' by simp
  show "docs (n_srv n') c = docs (n_srv n) c" if "\<not> starts_with ''clients/'' c" using 2 [OF col_bystander [OF that]] d3 n' by simp
  show "out (n_srv n') = out (n_srv n) @ [(''user:'' @ uid @ ''/task_manager'', json_dumps (PDict (stopped_message jt j cid m now)))]"
    using 2 [OF out_bystander] 3(3) n' by simp
  show "n_hub n' = n_hub n" if "\<And>c. send_ok c"
    by (simp add: n' n1_def n2_def add_or_update_job_by_job_id_def add_or_update_hub that)
qed

lemma synthetic_stops_run:
  fixes n :: "('s, 'z) node_scheme"
  assumes "n' = foldl (\<lambda>n j. send_synthetic_stopped_notification jb send_ok uid jt j m cid now n) n js"
  shows "k \<notin> range build_user_profile_key \<Longrightarrow> view (n_srv n') k = view (n_srv n) k"
    and "\<not> starts_with ''clients/'' c \<Longrightarrow> docs (n_srv n') c = docs (n_srv n) c"
    and "out (n_srv n') = out (n_srv n) @ map (\<lambda>j. (''user:'' @ uid @ ''/task_manager'', json_dumps (PDict (stopped_message jt j cid m now)))) js"
    and "(\<And>c. send_ok c) \<Longrightarrow> n_hub n' = n_hub n"
  unfolding assms by (induction js arbitrary: n) (simp_all add: synthetic_stop [OF refl])

lemma stop_waiting_batch:
  assumes "queue_rel (docs s) jt m q" and "b \<in> set (snd q)" and "b_key b \<notin> b_key ` set (running_list q)"
  obtains s' where "request_stop (sb_fs (jb_sub jb)) m jt (b_key b) [] txs now s =
      (\<lparr>stop_success = True, stop_job_key = b_key b, stop_location = ''pending'', synthetic_stops = map fst (b_jobs b)\<rparr>, s')"
    "queue_rel (docs s') jt m (fst q, filter (\<lambda>b'. b_key b' \<noteq> b_key b) (snd q))" "view s' = view s" "out s' = out s"
proof -
  let ?fs = "sb_fs (jb_sub jb)" and ?i = "doc_id m (b_key b)"
  note on = queue_rel_running [OF assms(1)] and pe = queue_rel_waiting [OF assms(1)]
  obtain s1 where 1: "f_get ?fs (on_col jt) ?i s = (Inr None, s1)" "docs s1 = docs s"
    using fs.f_get_up [of "on_col jt" ?i s] col_rel_lookup [OF on, of "b_key b"] assms(3) by auto
  obtain d where d: "docs s (pending_col jt) ?i = Some d" "is_batch m b d" using col_rel_batch [OF pe assms(2)] by blast
  obtain s2 where 2: "f_get ?fs (pending_col jt) ?i s1 = (Inr (Some d), s2)" "docs s2 = docs s" using fs.f_get_up [of "pending_col jt" ?i s1] 1 d by auto
  have d2: "docs s2 (pending_col jt) ?i = Some d" using d 2 by simp
  obtain s' d' where st: "stop_pending ?fs (pending_col jt) ?i d (b_key b) [] now s2 =
      (Inr \<lparr>stop_success = True, stop_job_key = b_key b, stop_location = ''pending'', synthetic_stops = map fst (b_jobs b)\<rparr>, s')"
    using fs.stop_pending_up [OF d2 d(2), of "b_key b" "[]" now] by auto
  have run: "request_stop ?fs m jt (b_key b) [] txs now s =
      (\<lparr>stop_success = True, stop_job_key = b_key b, stop_location = ''pending'', synthetic_stops = map fst (b_jobs b)\<rparr>, s')"
    using 1(1) 2(1) st by (simp add: request_stop_def Let_def seq_defs)
  have "stop_ok (b_key b) [] q" using assms(2) by (simp add: stop_ok_def)
  from fs.stop_up [OF assms(1) this, of txs now] have "queue_rel (docs s') jt m (q_stop (b_key b) [] q)" using run by simp
  moreover have "concat (map (\<lambda>b'. if b_key b' = b_key b then cut_jobs [] b' else [b']) ws) = filter (\<lambda>b'. b_key b' \<noteq> b_key b) ws" for ws
    by (induction ws) (simp_all add: cut_jobs_def)
  then have "q_stop (b_key b) [] q = (fst q, filter (\<lambda>b'. b_key b' \<noteq> b_key b) (snd q))" using assms(2,3) by (simp add: q_stop_def cut_batch_def)
  ultimately show thesis using that [OF run] preserves_eq [OF request_stop_frames(1) run] preserves_eq [OF request_stop_frames(2) run] by simp
qed

end

section \<open>The report of a stopped job\<close>

text \<open>The job types whose items are on a page with lists.\<close>

definition listed_type :: "string \<Rightarrow> bool" where
  "listed_type jt \<longleftrightarrow> jt \<in> {''router'', ''apbookeeper'', ''bankbookeeper'', ''exbookeeper''}"

lemma config_eval:
  "jc_department (config_of ''router'') = ''Router''" "jc_department (config_of ''apbookeeper'') = ''APbookeeper''"
  "jc_department (config_of ''bankbookeeper'') = ''Bankbookeeper''" "jc_department (config_of ''exbookeeper'') = ''EXbookeeper''"
  "jc_domain (config_of ''router'') = ''routing''" "jc_domain (config_of ''apbookeeper'') = ''invoices''" "jc_domain (config_of ''bankbookeeper'') = ''bank''"
  "jc_domain (config_of ''exbookeeper'') = ''expenses''"
  by (simp_all add: config_of_def JOB_TYPE_CONFIG_def ROUTER_CONFIG_def)

lemma type_eval: "active_type ''router'' = ''router''" "active_type ''apbookeeper'' = ''apbookeeper''" "active_type ''bankbookeeper'' = ''banker''" "active_type ''exbookeeper'' = ''exbookeeper''"
  by (simp_all add: active_type_def ACTIVE_JOB_TYPE_MAP_def)

lemma department_eval:
  "extract_department_to_domain ''Router'' = ''routing''" "extract_department_to_domain ''APbookeeper'' = ''invoices''" "extract_department_to_domain ''Bankbookeeper'' = ''bank''"
  "extract_department_to_domain ''EXbookeeper'' = ''expenses''" "extract_active_job_type ''Router'' = Some ''router''" "extract_active_job_type ''APbookeeper'' = Some ''apbookeeper''"
  "extract_active_job_type ''Bankbookeeper'' = Some ''banker''" "extract_active_job_type ''EXbookeeper'' = Some ''exbookeeper''"
  "status_of ''Router'' ''stopped'' = ''stopped''" "status_of ''APbookeeper'' ''stopped'' = ''stopped''" "status_of ''Bankbookeeper'' ''stopped'' = ''stopped''"
  "status_of ''EXbookeeper'' ''stopped'' = ''stopped''"
  by code_simp+

text \<open>The subscriber maps the department of a job type back to its page and its queue.\<close>

lemma listed_types:
  assumes "listed_type jt"
  shows "extract_department_to_domain (jc_department (config_of jt)) = jc_domain (config_of jt)" and "list_domain (jc_domain (config_of jt))"
    and "extract_active_job_type (jc_department (config_of jt)) = Some (active_type jt)" and "status_of (jc_department (config_of jt)) ''stopped'' = ''stopped''"
  using assms by (auto simp: listed_type_def config_eval type_eval department_eval list_domain_def)

lemma stopped_unchanged: "flatten_department dm j stopped_data = stopped_data" "flatten_dots dm stopped_data = stopped_data"
  "lift_value dm stopped_data ''current_step'' = PNone" "lift_value dm stopped_data ''current_step_technical'' = PNone"
proof -
  have g: "dget_or stopped_data ''department_data'' (PDict []) = PDict []" "dict_of (PDict []) = []" by (simp_all add: stopped_data_def dget_or_def dict_of_def)
  have f: "first_given [] ks = PDict []" for ks by (induction ks) (simp_all add: py_or_def dget_or_def)
  have c: "copy_missing ks [] it = it" for ks it by (induction ks) (simp_all add: copy_missing_def)
  show "flatten_department dm j stopped_data = stopped_data" by (simp add: flatten_department_def g f c dget_def Let_def del: first_given.simps)
  show "flatten_dots dm stopped_data = stopped_data" by (simp add: flatten_dots_def stopped_data_def DOT_PREFIX_def)
  show "lift_value dm stopped_data ''current_step'' = PNone" "lift_value dm stopped_data ''current_step_technical'' = PNone"
    by (simp_all add: lift_value_def g AP_VARIANTS_def stopped_data_def dget_def dget_or_def dict_of_def)
qed

lemma stopped_prepared:
  obtains md' where "prepared dep j (stopped_message jt j cid m now) = Inr (md', stopped_data)" "dget_or md' ''mandate_path'' (PStr []) = PStr m"
    "rbind (message_batch stopped_data md') batch_of = Inr None"
proof -
  let ?md = "stopped_message jt j cid m now"
  define md1 where "md1 = dset (dset ?md ''status'' (PStr (status_of dep ''stopped''))) ''status_category'' (PStr (get_category (status_of dep ''stopped'')))"
  have g: "dget ?md ''status'' = PStr ''stopped''" "map_of md1 ''data'' = Some (PDict stopped_data)" "map_of md1 ''mandate_path'' = Some (PStr m)"
    by (simp_all add: md1_def stopped_message_def dget_def map_of_dset)
  have n: "normalize_report dep ?md = Inr md1" by (simp add: normalize_report_def g(1) as_str_def status_of_def md1_def Let_def)
  have s: "set_default stopped_data ''status'' v = stopped_data" for v by (simp add: set_default_def stopped_data_def)
  let ?md' = "dset (dset md1 ''data'' (PDict stopped_data)) ''data'' (PDict stopped_data)"
  have p: "prepared dep j ?md = Inr (?md', stopped_data)"
    by (simp add: prepared_def n g(1) prepare_report_def dget_or_def g(2) as_dict_def s stopped_unchanged lift_key_def put_item_def Let_def)
  have b: "rbind (message_batch stopped_data ?md') batch_of = Inr None"
    by (simp add: message_batch_def batch_of_def dget_or_def map_of_dset as_dict_def stopped_data_def dget_def)
  show thesis by (rule that [OF p _ b]) (simp add: dget_or_def map_of_dset g(3))
qed

context reporting
begin

lemma stopped_report:
  fixes n :: "('s, 'z) node_scheme"
  assumes jt: "listed_type jt" "dm = jc_domain (config_of jt)" and cid: "cid \<noteq> []" and clean: "no_sentinel (stopped_message jt j cid m now)"
    and page: "cached_page (view (n_srv n)) (build_business_key uid cid dm None) d" "wf_page d" "on_page (sb_show sb) dm d j"
    and w: "watching (view (n_srv n)) (n_hub n) uid cid dm" and ok: "\<And>c. send_ok c"
    and q: "queue_rel (docs (n_srv n)) (active_type jt) m q" "\<forall>r. fst q = Some r \<longrightarrow> map_of (b_jobs r) j = None"
  obtains n' d' where "handle_task_manager_message sb send_ok uid (stopped_message jt j cid m now) now' n = n'"
    "cached_page (view (n_srv n')) (build_business_key uid cid dm None) d'" "wf_page d'"
    "\<forall>k \<in> set CATEGORY_KEYS. page_list d' k = report_page (same_job (sb_show sb) dm j) ''to_process'' stopped_data (page_list d) k"
    "watching (view (n_srv n')) (n_hub n') uid cid dm" "queue_rel (docs (n_srv n')) (active_type jt) m q"
proof -
  let ?dep = "jc_department (config_of jt)" and ?md = "stopped_message jt j cid m now"
  note types = listed_types [OF jt(1)]
  have "no_sentinel stopped_data" by (simp add: no_sentinel_def stopped_data_def)
  moreover have "jc_domain (config_of jt) \<notin> {[], ''hr'', ''coa''}" using types(2) by (auto simp: list_domain_def)
  ultimately have r: "report_message ?md j ?dep cid ''stopped''"
    using clean cid types(1) by (simp add: report_message_def stopped_message_def dget_def dget_or_def dict_of_def)
  obtain md' where p: "prepared ?dep j ?md = Inr (md', stopped_data)" "dget_or md' ''mandate_path'' (PStr []) = PStr m" "rbind (message_batch stopped_data md') batch_of = Inr None"
    by (rule stopped_prepared)
  have e: "handle_task_manager_message sb send_ok uid ?md now' n = apply_report sb send_ok uid cid dm ?dep j (PStr ''stopped'') (md', stopped_data) now' n"
    using handle_task_manager_eq [OF r] p(1) types(1) jt(2) by simp
  obtain tx where tx: "tx_id_for_match (sb_show sb) dm j stopped_data = Inr tx" using stopped_tx by blast
  have same: "same_job (sb_show sb) dm j = is_job (sb_show sb) j tx" by (simp add: fun_eq_iff same_job_def tx)
  have ld: "list_domain dm" using types(2) jt(2) by simp
  obtain s' d' where 1: "cached_page (view s') (build_business_key uid cid dm None) d'" "wf_page d'"
    "\<forall>k \<in> set CATEGORY_KEYS. page_list d' k = report_page (is_job (sb_show sb) j tx) (get_target_category_key dm ''stopped'') stopped_data (page_list d) k"
    "\<forall>k. k \<notin> business_keys uid cid \<longrightarrow> view s' k = view (n_srv n) k"
    "apply_report sb send_ok uid cid dm ?dep j (PStr ''stopped'') (md', stopped_data) now' n =
       n\<lparr>n_srv := s', n_sent := n_sent n @ sent_to (n_hub n) uid [(''type'', PStr (dm @ ''.task_manager_update'')), (''payload'', PDict (report_event md'))]\<rparr>"
    by (rule apply_report_page [OF page(1,2) refl tx stopped_status ld cid w ok])
  have "queue_rel (docs (n_srv (handle_task_manager_message sb send_ok uid ?md now' n))) (active_type jt) m (q_report j ''stopped'' None q)"
    by (rule handled_report_queue [OF r p(1) types(3) p(2,3) q(1)])
  moreover have "q_report j ''stopped'' None q = q" using q(2) by (simp add: q_report_def split: option.split)
  ultimately have "queue_rel (docs s') (active_type jt) m q" using e 1(5) by simp
  then show thesis
    using that [OF e] 1 w watching_cong [OF 1(4), of "n_hub n" dm] same stopped_target by simp
qed

lemma stopped_reports:
  fixes n :: "('s, 'z) node_scheme"
  assumes "listed_type jt" and "dm = jc_domain (config_of jt)" and "cid \<noteq> []" and "\<forall>j \<in> set js. no_sentinel (stopped_message jt j cid m now)"
    and "cached_page (view (n_srv n)) (build_business_key uid cid dm None) d" and "wf_page d" and "\<forall>j \<in> set js. on_page (sb_show sb) dm d j"
    and "watching (view (n_srv n)) (n_hub n) uid cid dm" and "\<And>c. send_ok c"
    and "queue_rel (docs (n_srv n)) (active_type jt) m q" and "\<forall>j \<in> set js. \<forall>r. fst q = Some r \<longrightarrow> map_of (b_jobs r) j = None"
    and "n' = foldl (\<lambda>n j. handle_task_manager_message sb send_ok uid (stopped_message jt j cid m now) now' n) n js"
  shows "\<exists>d'. cached_page (view (n_srv n')) (build_business_key uid cid dm None) d' \<and> wf_page d' \<and>
    (\<forall>j. on_page (sb_show sb) dm d j \<longrightarrow> on_page (sb_show sb) dm d' j) \<and> (\<forall>j. j \<in> set js \<or> is_back (sb_show sb) dm d j \<longrightarrow> is_back (sb_show sb) dm d' j) \<and>
    queue_rel (docs (n_srv n')) (active_type jt) m q"
  using assms(4-8,10-12)
proof (induction js arbitrary: n d)
  case Nil
  then show ?case by auto
next
  case (Cons j js)
  have c: "no_sentinel (stopped_message jt j cid m now)" "on_page (sb_show sb) dm d j" "\<forall>r. fst q = Some r \<longrightarrow> map_of (b_jobs r) j = None" using Cons.prems by simp_all
  obtain n1 d1 where 1: "handle_task_manager_message sb send_ok uid (stopped_message jt j cid m now) now' n = n1"
    "cached_page (view (n_srv n1)) (build_business_key uid cid dm None) d1" "wf_page d1"
    "\<forall>k \<in> set CATEGORY_KEYS. page_list d1 k = report_page (same_job (sb_show sb) dm j) ''to_process'' stopped_data (page_list d) k"
    "watching (view (n_srv n1)) (n_hub n1) uid cid dm" "queue_rel (docs (n_srv n1)) (active_type jt) m q"
    by (rule stopped_report [OF assms(1-3) c(1) Cons.prems(2,3) c(2) Cons.prems(5) assms(9) Cons.prems(6) c(3)])
  note step = stop_page_step [OF 1(4) c(2)]
  have o: "\<forall>j \<in> set js. on_page (sb_show sb) dm d1 j" using Cons.prems(4) step(1) by simp
  from Cons.IH [OF _ 1(2,3) o 1(5,6)] Cons.prems 1(1) obtain d' where d': "cached_page (view (n_srv n')) (build_business_key uid cid dm None) d'" "wf_page d'"
    "\<forall>j. on_page (sb_show sb) dm d1 j \<longrightarrow> on_page (sb_show sb) dm d' j" "\<forall>j. j \<in> set js \<or> is_back (sb_show sb) dm d1 j \<longrightarrow> is_back (sb_show sb) dm d' j"
    "queue_rel (docs (n_srv n')) (active_type jt) m q" by auto
  then show ?case using step by (intro exI [of _ d']) auto
qed

end

section \<open>Properties\<close>

definition deliver_messages :: "('s, 'd) router \<Rightarrow> (conn \<Rightarrow> bool) \<Rightarrow> chat_ids \<Rightarrow> (string \<times> text_val) list \<Rightarrow> ('s, 'z) node_scheme \<Rightarrow> ('s, 'z) node_scheme" where
  "deliver_messages ro send_ok ids ms n = foldl (\<lambda>n m. route_message ro send_ok (fst m) (snd m) ids n) n ms"

lemma last_profile: "last (build_user_profile_key u) = CHR ''e''" and hd_profile: "hd (build_user_profile_key u) = CHR ''u''"
  by (simp_all add: build_user_profile_key_def)

lemma not_profile: "build_business_key uid cid dm None \<notin> range build_user_profile_key" "page_key uid \<notin> range build_user_profile_key"
  "build_user_selected_company_key uid \<notin> range build_user_profile_key"
proof -
  have o: "hd k \<noteq> CHR ''u'' \<Longrightarrow> k \<notin> range build_user_profile_key" "last k \<noteq> CHR ''e'' \<Longrightarrow> k \<notin> range build_user_profile_key" for k
    using last_profile hd_profile by auto
  show "build_business_key uid cid dm None \<notin> range build_user_profile_key" by (rule o(1)) (simp add: build_business_key_def)
  show "page_key uid \<notin> range build_user_profile_key" by (rule o(1)) (simp add: page_key_def)
  show "build_user_selected_company_key uid \<notin> range build_user_profile_key" by (rule o(2)) (simp add: build_user_selected_company_key_def)
qed

lemma queue_rel_cong: "vw' (on_col jt) = vw (on_col jt) \<Longrightarrow> vw' (pending_col jt) = vw (pending_col jt) \<Longrightarrow> queue_rel vw' jt m q = queue_rel vw jt m q"
  by (simp add: queue_rel_def col_rel_def)

lemma watching_keys:
  "vw' (page_key uid) = vw (page_key uid) \<Longrightarrow> vw' (build_user_selected_company_key uid) = vw (build_user_selected_company_key uid) \<Longrightarrow>
     watching vw' h uid cid dm = watching vw h uid cid dm"
  by (simp add: watching_def str_at_def)

context job_services
begin

lemma stop_batch_run:
  fixes n :: "('s, 'z) node_scheme"
  assumes "queue_rel (docs (n_srv n)) (active_type jt) m q" and "b \<in> set (snd q)" and "b_key b \<notin> b_key ` set (running_list q)"
    and "dget_or company ''mandate_path'' (PStr []) = PStr m" and "dget_or company ''company_id'' (PStr []) = PStr cid"
    and "handle_job_stop jb send_ok uid jt [(''job_id'', PStr (b_key b))] company now n = (ans, n1)"
  shows "out (n_srv n1) = out (n_srv n) @ map (\<lambda>j. (''user:'' @ uid @ ''/task_manager'', json_dumps (PDict (stopped_message jt j cid m now)))) (map fst (b_jobs b))"
    and "queue_rel (docs (n_srv n1)) (active_type jt) m (fst q, filter (\<lambda>b'. b_key b' \<noteq> b_key b) (snd q))"
    and "k \<notin> range build_user_profile_key \<Longrightarrow> view (n_srv n1) k = view (n_srv n) k" and "(\<And>c. send_ok c) \<Longrightarrow> n_hub n1 = n_hub n"
    and "ans = Inr (stop_answer [b_key b] [\<lparr>stop_success = True, stop_job_key = b_key b, stop_location = ''pending'', synthetic_stops = map fst (b_jobs b)\<rparr>])"
proof -
  let ?r = "\<lparr>stop_success = True, stop_job_key = b_key b, stop_location = ''pending'', synthetic_stops = map fst (b_jobs b)\<rparr>"
  obtain s' where s': "request_stop (sb_fs (jb_sub jb)) m (active_type jt) (b_key b) [] [] now (n_srv n) = (?r, s')"
    "queue_rel (docs s') (active_type jt) m (fst q, filter (\<lambda>b'. b_key b' \<noteq> b_key b) (snd q))" "view s' = view (n_srv n)" "out s' = out (n_srv n)"
    by (rule stop_waiting_batch [OF assms(1-3)])
  have "b_key b \<noteq> []" using col_rel_def assms(2) queue_rel_waiting [OF assms(1)] by (auto simp: col_rel_def)
  then have k: "stop_keys [(''job_id'', PStr (b_key b))] = PList [PStr (b_key b)]" by (simp add: stop_keys_def dget_or_def dget_def Let_def)
  have t: "texts_of (dget [(''job_id'', PStr (b_key b))] ''job_ids_to_stop'') = Inr []" "texts_of (dget [(''job_id'', PStr (b_key b))] ''transaction_ids'') = Inr []"
    by (simp_all add: texts_of_def dget_def)
  have run: "ans = Inr (stop_answer [b_key b] [?r]) \<and> n1 = foldl (\<lambda>n j. send_synthetic_stopped_notification jb send_ok uid jt j m cid now n) (n\<lparr>n_srv := s'\<rparr>) (map fst (b_jobs b))"
    using assms(6) unfolding handle_job_stop_def k t assms(4,5) by (simp add: as_str_def on_srv_def s'(1))
  then show "ans = Inr (stop_answer [b_key b] [?r])" by simp
  note syn = synthetic_stops_run [OF conjunct2 [OF run]]
  show "out (n_srv n1) = out (n_srv n) @ map (\<lambda>j. (''user:'' @ uid @ ''/task_manager'', json_dumps (PDict (stopped_message jt j cid m now)))) (map fst (b_jobs b))"
    using syn(3) s'(4) by simp
  have "\<not> starts_with ''clients/'' (on_col (active_type jt))" "\<not> starts_with ''clients/'' (pending_col (active_type jt))" by (simp_all add: on_col_def pending_col_def)
  then show "queue_rel (docs (n_srv n1)) (active_type jt) m (fst q, filter (\<lambda>b'. b_key b' \<noteq> b_key b) (snd q))"
    using syn(2) s'(2) queue_rel_cong [of "docs (n_srv n1)" "active_type jt" "docs s'"] by simp
  show "view (n_srv n1) k = view (n_srv n) k" if "k \<notin> range build_user_profile_key" using syn(1) [OF that] s'(3) by simp
  show "n_hub n1 = n_hub n" if "\<And>c. send_ok c" using syn(4) that by simp
qed

end

lemma stop_returns_items:
  assumes "job_services jb view tick docs out" and "listed_type jt" and "dm = jc_domain (config_of jt)"
    and "queue_rel (docs (n_srv n)) (active_type jt) m q" and "b \<in> set (snd q)" and "b_key b \<notin> b_key ` set (running_list q)"
    and "\<forall>j \<in> fst ` set (b_jobs b). no_sentinel (stopped_message jt j cid m now) \<and> on_page (sb_show (jb_sub jb)) dm d j \<and> (\<forall>r. fst q = Some r \<longrightarrow> map_of (b_jobs r) j = None)"
    and "dget_or company ''mandate_path'' (PStr []) = PStr m" and "dget_or company ''company_id'' (PStr []) = PStr cid" and "cid \<noteq> []"
    and "cached_page (view (n_srv n)) (build_business_key uid cid dm None) d" and "wf_page d"
    and "watching (view (n_srv n)) (n_hub n) uid cid dm" and "\<And>c. send_ok c" and "uid \<noteq> []" and "CHR ''/'' \<notin> set uid"
    and "handle_job_stop jb send_ok uid jt [(''job_id'', PStr (b_key b))] company now n = (ans, n1)"
    and "out (n_srv n1) = out (n_srv n) @ ms" and "ro_sub ro = jb_sub jb" and "n2 = deliver_messages ro send_ok ids ms n1"
  shows "queue_rel (docs (n_srv n2)) (active_type jt) m (fst q, filter (\<lambda>b'. b_key b' \<noteq> b_key b) (snd q)) \<and>
    (\<exists>d'. cached_page (view (n_srv n2)) (build_business_key uid cid dm None) d' \<and>
       (\<forall>j \<in> fst ` set (b_jobs b). on_page (sb_show (jb_sub jb)) dm d' j \<and> is_back (sb_show (jb_sub jb)) dm d' j))"
proof -
  note run = job_services.stop_batch_run [OF assms(1,4-6,8,9,17)]
  let ?js = "map fst (b_jobs b)" and ?ch = "''user:'' @ uid @ ''/task_manager''"
  have ms: "ms = map (\<lambda>j. (?ch, json_dumps (PDict (stopped_message jt j cid m now)))) ?js" using run(1) assms(18) by simp
  have suffix: "''task_manager'' \<in> set USER_CHANNEL_SUFFIXES" by (simp add: USER_CHANNEL_SUFFIXES_def)
  have route: "route_message ro send_ok ?ch (json_dumps (PDict md)) ids n = handle_task_manager_message (jb_sub jb) send_ok uid md (at_now ids) n" for md and n :: "('a, 'b) node_scheme"
    using route_to_handler [OF assms(15,16) suffix, of ro send_ok md ids n] assms(19) by simp
  have n2: "n2 = foldl (\<lambda>n j. handle_task_manager_message (jb_sub jb) send_ok uid (stopped_message jt j cid m now) (at_now ids) n) n1 ?js"
    unfolding assms(20) ms deliver_messages_def foldl_map fst_conv snd_conv route ..
  have rep: "reporting (jb_sub jb) view tick docs" using assms(1) by (simp add: job_services_def)
  have p: "cached_page (view (n_srv n1)) (build_business_key uid cid dm None) d"
    using assms(11) cached_page_cong [of "view (n_srv n1)" _ "view (n_srv n)"] run(3) [OF not_profile(1)] by metis
  have w: "watching (view (n_srv n1)) (n_hub n1) uid cid dm"
    using assms(13) watching_keys [OF run(3) [OF not_profile(2)] run(3) [OF not_profile(3)]] run(4) [OF assms(14)] by metis
  have c: "\<forall>j \<in> set ?js. no_sentinel (stopped_message jt j cid m now)" "\<forall>j \<in> set ?js. on_page (sb_show (jb_sub jb)) dm d j"
    "\<forall>j \<in> set ?js. \<forall>r. fst (fst q, filter (\<lambda>b'. b_key b' \<noteq> b_key b) (snd q)) = Some r \<longrightarrow> map_of (b_jobs r) j = None" using assms(7) by auto
  from reporting.stopped_reports [OF rep assms(2,3,10) c(1) p assms(12) c(2) w assms(14) run(2) c(3) n2]
  obtain d' where d': "cached_page (view (n_srv n2)) (build_business_key uid cid dm None) d'" "\<forall>j. on_page (sb_show (jb_sub jb)) dm d j \<longrightarrow> on_page (sb_show (jb_sub jb)) dm d' j"
    "\<forall>j. j \<in> set ?js \<or> is_back (sb_show (jb_sub jb)) dm d j \<longrightarrow> is_back (sb_show (jb_sub jb)) dm d' j"
    "queue_rel (docs (n_srv n2)) (active_type jt) m (fst q, filter (\<lambda>b'. b_key b' \<noteq> b_key b) (snd q))" by blast
  have "\<forall>j \<in> set ?js. on_page (sb_show (jb_sub jb)) dm d' j \<and> is_back (sb_show (jb_sub jb)) dm d' j" using d'(2,3) c(2) by blast
  then show ?thesis using d'(1,4) by (metis set_map)
qed

text \<open>C16: A request to stop a waiting batch takes it out of the queue, and every item of its jobs comes back to the page: the handler publishes the reports no worker will ever
  send, and once the subscriber has handled them each item is in the list of what is to be processed, with the status \<open>stopped\<close>.\<close>

theorem stopped_batch_returns:
  assumes "job_services jb view tick docs out" and "listed_type jt" and "dm = jc_domain (config_of jt)"
    and "queue_rel (docs (n_srv n)) (active_type jt) m q" and "b \<in> set (snd q)" and "b_key b \<notin> b_key ` set (running_list q)"
    and "\<forall>j \<in> fst ` set (b_jobs b). no_sentinel (stopped_message jt j cid m now) \<and> on_page (sb_show (jb_sub jb)) dm d j \<and> (\<forall>r. fst q = Some r \<longrightarrow> map_of (b_jobs r) j = None)"
    and "dget_or company ''mandate_path'' (PStr []) = PStr m" and "dget_or company ''company_id'' (PStr []) = PStr cid" and "cid \<noteq> []"
    and "cached_page (view (n_srv n)) (build_business_key uid cid dm None) d" and "wf_page d"
    and "watching (view (n_srv n)) (n_hub n) uid cid dm" and "\<And>c. send_ok c" and "uid \<noteq> []" and "CHR ''/'' \<notin> set uid"
    and "handle_job_stop jb send_ok uid jt [(''job_id'', PStr (b_key b))] company now n = (ans, n1)"
    and "out (n_srv n1) = out (n_srv n) @ ms" and "ro_sub ro = jb_sub jb" and "n2 = deliver_messages ro send_ok ids ms n1"
  shows "queue_rel (docs (n_srv n2)) (active_type jt) m (fst q, filter (\<lambda>b'. b_key b' \<noteq> b_key b) (snd q)) \<and>
    (\<exists>d'. cached_page (view (n_srv n2)) (build_business_key uid cid dm None) d' \<and>
       (\<forall>j \<in> fst ` set (b_jobs b). on_page (sb_show (jb_sub jb)) dm d' j \<and> is_back (sb_show (jb_sub jb)) dm d' j))"
  by (rule stop_returns_items [OF assms])

text \<open>A batch of the banker waits while the user has the page open.\<close>

definition mem_merge :: "string \<Rightarrow> string \<Rightarrow> pydict \<Rightarrow> mem_docs \<Rightarrow> unit result \<times> mem_docs" where
  "mem_merge c i d s = (Inr (), AList.update (c, i) (dupdate (case map_of s (c, i) of Some e \<Rightarrow> e | None \<Rightarrow> []) (rev d)) s)"

definition demo_jobs :: "(mem \<times> mem_docs) jobs" where
  "demo_jobs = \<lparr>jb_sub = demo_sub, jb_merge = (\<lambda>c i d. on_snd (mem_merge c i d)), jb_error = (\<lambda>_. [])\<rparr>"

lemma map_of_dupdate: "map_of (dupdate e d) k = (case map_of (rev d) k of Some v \<Rightarrow> Some v | None \<Rightarrow> map_of e k)"
  by (induction d arbitrary: e) (auto simp: dupdate_def map_of_dset map_add_def split: option.split)

interpretation demo_jobs: job_services demo_jobs "\<lambda>p. mem_view (fst p)" "pair_tick mem_tick" "\<lambda>p. mem_docs_view (snd p)" "\<lambda>p. m_out (fst p)"
proof (intro job_services.intro job_services_axioms.intro)
  show "reporting (jb_sub demo_jobs) (\<lambda>p. mem_view (fst p)) (pair_tick mem_tick) (\<lambda>p. mem_docs_view (snd p))" using demo_reporting by (simp add: demo_jobs_def)
  show "redis_out (sb_redis (jb_sub demo_jobs)) (\<lambda>p. mem_view (fst p)) (pair_tick mem_tick) (\<lambda>p. m_out (fst p))" using mem_pair_out by (simp add: demo_jobs_def demo_sub_def)
  fix s :: "mem \<times> mem_docs" and c i e0 d
  assume "mem_docs_view (snd s) c i = Some e0"
  then have "mem_merge c i d (snd s) = (Inr (), AList.update (c, i) (dupdate e0 (rev d)) (snd s))" by (simp add: mem_merge_def mem_docs_view_def)
  then have "jb_merge demo_jobs c i d s = (Inr (), fst s, AList.update (c, i) (dupdate e0 (rev d)) (snd s))" by (simp add: demo_jobs_def on_snd_def)
  then show "\<exists>e s'. jb_merge demo_jobs c i d s = (Inr (), s') \<and> mem_docs_view (snd s') = put_doc (mem_docs_view (snd s)) c i (Some e) \<and>
      (\<forall>k v. map_of d k = Some v \<longrightarrow> (\<forall>x. v \<noteq> PDict x) \<longrightarrow> map_of e k = Some v) \<and> (\<forall>k. map_of d k = None \<longrightarrow> map_of e k = map_of e0 k)"
    by (intro exI [of _ "dupdate e0 (rev d)"] exI [of _ "(fst s, AList.update (c, i) (dupdate e0 (rev d)) (snd s))"])
       (auto simp: fun_eq_iff mem_docs_view_def update_conv' map_of_dupdate)
qed (simp_all add: demo_jobs_def demo_sub_def preserves_def mem_merge_def mem_docs_view_def update_conv' fun_eq_iff)

definition demo_waiting :: "(mem \<times> mem_docs) node" where
  "demo_waiting = demo_node\<lparr>n_srv := (fst (n_srv demo_node), [((pending_col ''banker'', doc_id ''m'' ''b2''), Task_Reports.demo_doc ''b2'' ''c_18_578'')])\<rparr>"

lemma demo_waiting_queue: "queue_rel (mem_docs_view (snd (n_srv demo_waiting))) (active_type ''bankbookeeper'') ''m'' (None, [waiting_batch ''b2'' ''c_18_578''])"
proof -
  have pend: "\<And>i. vw (pending_col ''banker'') i = (if i = doc_id ''m'' ''b2'' then Some (Task_Reports.demo_doc ''b2'' ''c_18_578'') else None)"
    and on: "\<And>i. vw (on_col ''banker'') i = None" if "vw = mem_docs_view (snd (n_srv demo_waiting))" for vw
    unfolding that by (simp_all add: demo_waiting_def mem_docs_view_def)
  have "col_rel (mem_docs_view (snd (n_srv demo_waiting))) (on_col ''banker'') ''m'' []" by (simp add: col_rel_def on [OF refl])
  then show ?thesis unfolding queue_rel_def running_list_def type_eval
    by (auto intro!: col_rel_one simp: pend [OF refl] Task_Reports.demo_doc_def is_batch_def)
qed

lemma demo_on_page: "on_page (\<lambda>_. []) ''bank'' demo_bank_page ''c_18_578''"
proof -
  have t: "tx_id_for_match (\<lambda>_. []) ''bank'' ''c_18_578'' stopped_data = Inr ''578''"
    by (simp add: tx_id_for_match_def department_tx_def dotted_tx_def composite_tx_def stopped_data_def dget_def dget_or_def is_digit_def code_def)
  show ?thesis
    by (simp add: on_page_def same_job_def t is_job_def page_items_def page_list_def CATEGORY_KEYS_def demo_bank_page_def dget_or_def dget_def dict_of_def py_str_def)
qed

theorem stopped_batch_returns_witness:
  "\<exists>ans n1 ms. handle_job_stop demo_jobs (\<lambda>_. True) ''u'' ''bankbookeeper'' [(''job_id'', PStr ''b2'')] [(''mandate_path'', PStr ''m''), (''company_id'', PStr ''c'')] ''t'' demo_waiting = (ans, n1) \<and>
     m_out (fst (n_srv n1)) = m_out (fst (n_srv demo_waiting)) @ ms \<and>
     (\<forall>ro :: ((mem \<times> mem_docs), string) router. ro_sub ro = demo_sub \<longrightarrow>
        queue_rel (mem_docs_view (snd (n_srv (deliver_messages ro (\<lambda>_. True) demo_ids ms n1)))) ''banker'' ''m'' (None, []))"
proof -
  let ?c = "[(''mandate_path'', PStr ''m''), (''company_id'', PStr ''c'')]" and ?b = "waiting_batch ''b2'' ''c_18_578''"
  obtain ans n1 where run: "handle_job_stop demo_jobs (\<lambda>_. True) ''u'' ''bankbookeeper'' [(''job_id'', PStr (b_key ?b))] ?c ''t'' demo_waiting = (ans, n1)" by force
  have l: "listed_type ''bankbookeeper''" by (simp add: listed_type_def)
  have b: "?b \<in> set (snd (None :: batch option, [?b]))" "b_key ?b \<notin> b_key ` set (running_list (None, [?b]))" by (simp_all add: running_list_def)
  have co: "dget_or ?c ''mandate_path'' (PStr []) = PStr ''m''" "dget_or ?c ''company_id'' (PStr []) = PStr ''c''" by (simp_all add: dget_or_def)
  have sh: "sb_show (jb_sub demo_jobs) = (\<lambda>_. [])" by (simp add: demo_jobs_def demo_sub_def)
  have j: "\<forall>j \<in> fst ` set (b_jobs ?b). no_sentinel (stopped_message ''bankbookeeper'' j ''c'' ''m'' ''t'') \<and> on_page (sb_show (jb_sub demo_jobs)) (jc_domain (config_of ''bankbookeeper'')) demo_bank_page j \<and>
      (\<forall>r. fst (None :: batch option, [?b]) = Some r \<longrightarrow> map_of (b_jobs r) j = None)"
    using demo_on_page by (simp add: no_sentinel_def stopped_message_def config_eval sh)
  have p: "cached_page (mem_view (fst (n_srv demo_waiting))) (build_business_key ''u'' ''c'' (jc_domain (config_of ''bankbookeeper'')) None) demo_bank_page"
    "watching (mem_view (fst (n_srv demo_waiting))) (n_hub demo_waiting) ''u'' ''c'' (jc_domain (config_of ''bankbookeeper''))"
    using demo_page demo_watching by (simp_all add: demo_waiting_def config_eval)
  have wf: "wf_page demo_bank_page" using demo_bank_unique by (simp add: unique_jobs_def)
  have out: "m_out (fst (n_srv n1)) = m_out (fst (n_srv demo_waiting)) @ map (\<lambda>j. (''user:'' @ ''u'' @ ''/task_manager'', json_dumps (PDict (stopped_message ''bankbookeeper'' j ''c'' ''m'' ''t'')))) (map fst (b_jobs ?b))"
    by (rule demo_jobs.stop_batch_run(1) [OF demo_waiting_queue b co run])
  have "queue_rel (mem_docs_view (snd (n_srv (deliver_messages ro (\<lambda>_. True) demo_ids (map (\<lambda>j. (''user:'' @ ''u'' @ ''/task_manager'', json_dumps (PDict (stopped_message ''bankbookeeper'' j ''c'' ''m'' ''t''))))
      (map fst (b_jobs ?b))) n1)))) ''banker'' ''m'' (None, [])" if "ro_sub ro = demo_sub" for ro :: "((mem \<times> mem_docs), string) router"
  proof -
    have ro: "ro_sub ro = jb_sub demo_jobs" using that by (simp add: demo_jobs_def)
    from stopped_batch_returns [OF demo_jobs.job_services_axioms l refl demo_waiting_queue b j co _ p(1) wf p(2) _ _ _ run out ro refl, of demo_ids] show ?thesis by (simp add: type_eval)
  qed
  then show ?thesis using run out by (intro exI conjI) auto
qed

end
