(* ===== verification/Job_Payload.thy ===== *)
theory Job_Payload
  imports Job_Stop Llm_Gateway Balance_Service Page_State
begin

text \<open>
  What \<open>handle_job_process\<close> of \<open>src/app/wrappers/job_actions_handler.py\<close> sends and stores when jobs are started: the selected documents, the company, the data of the jobs,
  the payload of the worker, the notifications and the documents of the task manager. These parts read the request and the cached page and change nothing.

  The selected documents are a list of texts, the mandate path and the identifier of a batch are texts, as the annotations say; another value is an exception of the
  call. Log lines are left out. \<open>show\<close> is \<open>str\<close> of a value that is neither a text nor a whole number.
\<close>

section \<open>The request\<close>

definition derived_id :: "(pyval \<Rightarrow> string) \<Rightarrow> pydict \<Rightarrow> string \<Rightarrow> string \<Rightarrow> string list" where
  "derived_id show d k1 k2 = (let i = py_or (dget d k1) (dget d k2) in if truthy i then [py_str show i] else [])"

definition concat_dicts :: "(pydict \<Rightarrow> 'a list result) \<Rightarrow> pyval \<Rightarrow> 'a list result" where
  "concat_dicts f v = rbind (py_iter v) (\<lambda>xs. rbind (rmap (\<lambda>x. rbind (as_dict x) f) xs) (\<lambda>ys. Inr (concat ys)))"

definition derived_ids :: "(pyval \<Rightarrow> string) \<Rightarrow> string \<Rightarrow> pyval \<Rightarrow> string list result" where
  "derived_ids show job_type raw =
     concat_dicts (\<lambda>job. if job_type = ''bankbookeeper''
       then concat_dicts (\<lambda>tx. Inr (derived_id show tx ''transaction_id'' ''id'')) (dget_or job ''transactions'' (PList []))
       else Inr (derived_id show job ''job_id'' ''drive_file_id'')) raw"

definition requested_ids :: "(pyval \<Rightarrow> string) \<Rightarrow> string \<Rightarrow> pydict \<Rightarrow> string list result" where
  "requested_ids show job_type payload =
     (let ids = dget_or payload ''document_ids'' (PList []) in
      if truthy ids then rbind (as_list ids) (rmap as_str)
      else rbind (if truthy (dget payload ''jobs_data'') then derived_ids show job_type (dget payload ''jobs_data'') else Inr []) (\<lambda>derived.
             if derived = [] then rbind (py_len ids) (\<lambda>_. Inr []) else rbind (as_list ids) (\<lambda>_. Inr derived)))"

definition company_id_of :: "pydict \<Rightarrow> pydict \<Rightarrow> pyval" where
  "company_id_of payload company_data =
     py_or (py_or (py_or (dget company_data ''company_id'') (dget company_data ''collection_name'')) (dget payload ''company_id'')) (dget payload ''collection_name'')"

definition enriched_company :: "pydict \<Rightarrow> pydict \<Rightarrow> pydict" where
  "enriched_company payload company_data =
     (let company_id = company_id_of payload company_data in
      if truthy company_id \<and> \<not> truthy (dget company_data ''company_id'') then dset company_data ''company_id'' company_id else company_data)"

text \<open>The search for the mandate of the company; a mandate without a path does not end it.\<close>

fun recover_mandate :: "pyval \<Rightarrow> pyval list \<Rightarrow> string" where
  "recover_mandate company_id [] = []"
| "recover_mandate company_id (m # ms) =
     (case m of
        PDict d \<Rightarrow>
          if company_id \<in> {dget d ''contact_space_id'', dget d ''id'', dget d ''contact_space_name''}
          then (case dget_or d ''mandate_path'' (PStr []) of PStr (c # p) \<Rightarrow> c # p | _ \<Rightarrow> recover_mandate company_id ms)
          else recover_mandate company_id ms
      | _ \<Rightarrow> [])"

section \<open>The data of the jobs\<close>

subsection \<open>Bank transactions\<close>

fun add_to_group :: "string \<Rightarrow> 'a \<Rightarrow> (string \<times> 'a list) list \<Rightarrow> (string \<times> 'a list) list" where
  "add_to_group k x [] = [(k, [x])]"
| "add_to_group k x ((k', xs) # gs) = (if k' = k then (k', xs @ [x]) # gs else (k', xs) # add_to_group k x gs)"

definition account_of :: "(pyval \<Rightarrow> string) \<Rightarrow> pyval \<Rightarrow> pydict \<Rightarrow> string" where
  "account_of show bank_account_id tx = py_str show (py_or (py_or (dget tx ''account_id'') (dget tx ''journal_id'')) bank_account_id)"

definition account_groups :: "(pyval \<Rightarrow> string) \<Rightarrow> pyval \<Rightarrow> pydict list \<Rightarrow> (string \<times> pydict list) list" where
  "account_groups show bank_account_id txs = foldl (\<lambda>gs tx. add_to_group (account_of show bank_account_id tx) tx gs) [] txs"

definition banker_job :: "pyval \<Rightarrow> pyval \<Rightarrow> pyval \<Rightarrow> pyval \<Rightarrow> pyval \<Rightarrow> pyval \<Rightarrow> pydict" where
  "banker_job bank_account account_id transactions instructions approval_required approval_threshold =
     [(''bank_account'', bank_account), (''bank_account_id'', account_id), (''transactions'', transactions), (''instructions'', instructions),
      (''banker_approval_required'', approval_required), (''banker_approval_thresholdworkflow'', approval_threshold)]"

definition build_banker_jobs_data :: "(pyval \<Rightarrow> string) \<Rightarrow> pydict \<Rightarrow> pydict \<Rightarrow> pyval result" where
  "build_banker_jobs_data show payload company_data =
     (if truthy (dget payload ''jobs_data'') then Inr (dget payload ''jobs_data'')
      else
        let transactions_data = dget_or payload ''transactions_data'' (PList []); bank_account = dget_or payload ''bank_account'' (PStr []);
            bank_account_id = dget_or payload ''bank_account_id'' (PStr []); instructions = dget_or payload ''instructions'' (PStr []) in
        rbind (rbind (get_dict company_data ''workflow_params'') (\<lambda>w. get_dict w ''Banker_param'')) (\<lambda>banker_params.
        let required = dget_or banker_params ''banker_approval_required'' (PBool False);
            threshold = PStr (py_str show (dget_or banker_params ''banker_approval_thresholdworkflow'' (PStr ''95''))) in
        rbind (rbind (py_iter transactions_data) (rmap as_dict)) (\<lambda>txs. Inr (PList (map PDict
          (if txs \<noteq> []
           then map (\<lambda>(acct, g). banker_job (py_or (py_or (dget_or (hd g) ''account_name'' (PStr [])) (dget_or (hd g) ''journal_name'' (PStr []))) bank_account)
                  (PStr acct) (PList (map PDict g)) instructions required threshold) (account_groups show bank_account_id txs)
           else [banker_job bank_account bank_account_id transactions_data instructions required threshold]))))))"

subsection \<open>Documents\<close>

text \<open>The part of a cached value that has the lists, and the lookup of the selected documents there. An exception ends the lookup with what was found until then.\<close>

definition documents_section :: "pydict \<Rightarrow> pyval" where
  "documents_section cached = dget_or cached ''data'' (dget_or cached ''documents'' (PDict cached))"

type_synonym found = "(string \<times> pydict) list"

definition collect_item :: "string list \<Rightarrow> pyval \<Rightarrow> found \<Rightarrow> unit result \<times> found" where
  "collect_item document_ids item =
     sbind (slift (as_dict item)) (\<lambda>d found.
       case py_or (dget d ''id'') (dget d ''job_id'') of
         PStr i \<Rightarrow>
           (Inr (), if i \<noteq> [] \<and> i \<in> set document_ids
                    then AList.update i [(''file_name'', dget_or d ''file_name'' (PStr i)), (''status'', dget_or d ''status'' (PStr [])), (''client'', dget_or d ''client'' (PStr [])),
                           (''created_time'', dget_or d ''created_time'' (PStr [])), (''uri_file_link'', dget_or d ''uri_file_link'' (PStr []))] found
                    else found)
       | _ \<Rightarrow> (Inr (), found))"

primrec for_each :: "('a \<Rightarrow> 's \<Rightarrow> unit result \<times> 's) \<Rightarrow> 'a list \<Rightarrow> 's \<Rightarrow> unit result \<times> 's" where
  "for_each f [] = sret ()"
| "for_each f (x # xs) = sbind (f x) (\<lambda>_. for_each f xs)"

definition collect_documents :: "string list \<Rightarrow> pydict \<Rightarrow> found \<Rightarrow> unit result \<times> found" where
  "collect_documents document_ids documents_data =
     for_each (\<lambda>list_name. sbind (slift (py_iter (dget_or documents_data list_name (PList [])))) (for_each (collect_item document_ids)))
       [''to_process'', ''in_process'', ''pending'', ''processed'']"

definition business_cache_key :: "(pyval \<Rightarrow> string) \<Rightarrow> string \<Rightarrow> pyval \<Rightarrow> string \<Rightarrow> string" where
  "business_cache_key show uid company_id domain = ''business:'' @ uid @ '':'' @ py_str show company_id @ '':'' @ domain"

definition get_documents_from_cache :: "'s redis \<Rightarrow> (pyval \<Rightarrow> string) \<Rightarrow> string \<Rightarrow> pyval \<Rightarrow> string \<Rightarrow> string list \<Rightarrow> 's \<Rightarrow> found \<times> 's" where
  "get_documents_from_cache rc show uid company_id domain document_ids s =
     (case r_get rc (business_cache_key show uid company_id domain) s of
        (Inr (Some t), s1) \<Rightarrow>
          (if \<not> some_data (Some t) then ([], s1)
           else case rbind (load_dict t) (\<lambda>c. as_dict (documents_section c)) of
             Inl _ \<Rightarrow> ([], s1)
           | Inr d \<Rightarrow> (snd (collect_documents document_ids d []), s1))
      | (_, s1) \<Rightarrow> ([], s1))"

definition document_job :: "(pyval \<Rightarrow> string) \<Rightarrow> string \<Rightarrow> pydict \<Rightarrow> found \<Rightarrow> pydict \<Rightarrow> pydict \<Rightarrow> pydict \<Rightarrow> string \<Rightarrow> pydict" where
  "document_job show job_type company_data documents_info document_instructions approval_states workflow_states i =
     (let doc_info = (case map_of documents_info i of Some d \<Rightarrow> d | None \<Rightarrow> []);
          ap = (job_type = ''apbookeeper'') in
      [(''file_name'', PStr (py_str show (dget_or doc_info ''file_name'' (PStr i)))), (''drive_file_id'', PStr i), (''job_id'', PStr i),
       (''instructions'', PStr (py_str show (dget_or document_instructions i (PStr [])))),
       (''status'', PStr (if job_type = ''router'' then ''to_route'' else ''to_process'')),
       (''approval_required'', dget_or approval_states i (dget_or company_data (if ap then ''apbookeeper_approval_required'' else ''router_approval_required'') (PBool False))),
       (if ap then (''approval_contact_creation'', dget_or workflow_states i (dget_or company_data ''apbookeeper_approval_contact_creation'' (PBool False)))
        else (''automated_workflow'', dget_or workflow_states i (dget_or company_data ''router_automated_workflow'' (PBool True))))])"

definition document_jobs :: "(pyval \<Rightarrow> string) \<Rightarrow> string \<Rightarrow> pydict \<Rightarrow> pydict \<Rightarrow> found \<Rightarrow> string list \<Rightarrow> pyval result" where
  "document_jobs show job_type payload company_data documents_info document_ids =
     rbind (get_dict payload ''document_instructions'') (\<lambda>instructions.
     rbind (get_dict payload ''approval_states'') (\<lambda>approvals.
     rbind (get_dict payload ''workflow_states'') (\<lambda>workflows.
       Inr (PList (map (\<lambda>i. PDict (document_job show job_type company_data documents_info instructions approvals workflows i)) document_ids)))))"

text \<open>Where the data of the jobs comes from.\<close>

definition jobs_data_for :: "'s redis \<Rightarrow> (pyval \<Rightarrow> string) \<Rightarrow> string \<Rightarrow> string \<Rightarrow> pydict \<Rightarrow> pydict \<Rightarrow> pyval \<Rightarrow> string list \<Rightarrow> 's \<Rightarrow> pyval list result \<times> 's" where
  "jobs_data_for rc show uid job_type payload company_data company_id document_ids s =
     (if truthy (dget payload ''jobs_data_prebuilt'') then (as_list (dget payload ''jobs_data_prebuilt''), s)
      else if job_type = ''bankbookeeper'' then (rbind (build_banker_jobs_data show payload company_data) as_list, s)
      else if truthy (dget payload ''jobs_data'') then (as_list (dget payload ''jobs_data''), s)
      else case get_documents_from_cache rc show uid company_id (jc_domain (config_of job_type)) document_ids s of
        (info, s1) \<Rightarrow> (rbind (document_jobs show job_type payload company_data info document_ids) as_list, s1))"

section \<open>The payload of the worker\<close>

type_synonym modes = "pyval \<times> pyval \<times> pyval"

definition LOG_MODES :: "pyval list" where
  "LOG_MODES = [PStr ''google_chat'', PStr ''pinnokio'', PStr ''telegram'']"

definition add_setting :: "modes \<Rightarrow> pyval \<Rightarrow> modes" where
  "add_setting ms v =
     (case (ms, v) of
        ((c, l, d), PDict e) \<Rightarrow> (py_or c (dget_or e ''communication_mode'' (PStr [])), py_or l (dget_or e ''log_communication_mode'' (PStr [])), py_or d (dget_or e ''dms_system'' (PStr [])))
      | _ \<Rightarrow> ms)"

definition communication_modes :: "pydict \<Rightarrow> pydict \<Rightarrow> modes result" where
  "communication_modes payload company_data =
     (let ms0 = (dget_or company_data ''communication_mode'' (PStr []), dget_or company_data ''log_communication_mode'' (PStr []), dget_or company_data ''dms_type'' (PStr [])) in
      rbind (if \<not> truthy (fst ms0) \<and> truthy (dget payload ''settings'') then rbind (py_iter (dget payload ''settings'')) (\<lambda>xs. Inr (foldl add_setting ms0 xs)) else Inr ms0)
        (\<lambda>(c, l, d).
           let comm = py_or c (PStr ''pinnokio'') in
           Inr (comm, if l \<in> set LOG_MODES then l else if comm \<in> set LOG_MODES then comm else PStr ''pinnokio'', py_or d (PStr ''odoo''))))"

definition jobbeur_payload :: "string \<Rightarrow> pydict \<Rightarrow> pydict \<Rightarrow> string \<Rightarrow> pyval list \<Rightarrow> string \<Rightarrow> string \<Rightarrow> string \<Rightarrow> modes \<Rightarrow> pydict" where
  "jobbeur_payload uid payload company_data company_text jobs batch_id pub_sub_id mandate_path ms =
     (case ms of (comm, logs, dms) \<Rightarrow>
      [(''collection_name'', PStr company_text), (''jobs_data'', PList jobs),
       (''start_instructions'', dget_or payload ''general_instructions'' (dget_or payload ''start_instructions'' (PStr []))),
       (''client_uuid'', dget_or company_data ''client_uuid'' (PStr [])), (''user_id'', PStr uid), (''pub_sub_id'', PStr pub_sub_id), (''mandates_path'', PStr mandate_path),
       (''batch_id'', PStr batch_id),
       (''settings'', PList [PDict [(''communication_mode'', comm)], PDict [(''log_communication_mode'', logs)], PDict [(''dms_system'', dms)]])])"

definition onboarding_payload :: "string \<Rightarrow> pydict \<Rightarrow> string \<Rightarrow> pydict \<Rightarrow> string \<Rightarrow> string \<Rightarrow> string \<Rightarrow> modes \<Rightarrow> pydict" where
  "onboarding_payload uid company_data company_text first_job batch_id pub_sub_id mandate_path ms =
     (case ms of (comm, logs, dms) \<Rightarrow>
      [(''firebase_user_id'', PStr uid), (''user_id'', PStr uid), (''client_uuid'', dget_or company_data ''client_uuid'' (PStr [])),
       (''job_id'', dget_or first_job ''job_id'' (PStr batch_id)), (''mandate_path'', PStr mandate_path), (''mandates_path'', PStr mandate_path), (''mode'', PStr ''onboarding''),
       (''setup_coa_type'', dget first_job ''setup_coa_type''), (''erp_system'', dget first_job ''erp_system''), (''context'', dget_or first_job ''initial_context_data'' (PStr [])),
       (''batch_id'', PStr batch_id), (''pub_sub_id'', PStr pub_sub_id), (''collection_name'', PStr company_text),
       (''settings'', PList [PDict [(''communication_mode'', comm)], PDict [(''log_communication_mode'', logs)]])])"

definition batch_payload ::
  "string \<Rightarrow> string \<Rightarrow> pydict \<Rightarrow> pydict \<Rightarrow> string \<Rightarrow> pyval list \<Rightarrow> string \<Rightarrow> string \<Rightarrow> string \<Rightarrow> pydict option \<Rightarrow> pydict result" where
  "batch_payload uid job_type payload company_data company_text jobs batch_id pub_sub_id mandate_path traceability =
     rbind (communication_modes payload company_data) (\<lambda>ms.
     rbind (if job_type = ''onboarding''
            then rbind (case jobs of [] \<Rightarrow> Inr [] | j # _ \<Rightarrow> as_dict j) (\<lambda>first_job.
                   Inr (onboarding_payload uid company_data company_text first_job batch_id pub_sub_id mandate_path ms))
            else Inr (jobbeur_payload uid payload company_data company_text jobs batch_id pub_sub_id mandate_path ms)) (\<lambda>p.
     let p1 = (if job_type = ''bankbookeeper''
               then dset (dset p ''journal_name'' (dget_or payload ''journal_name'' (PStr []))) ''proxy'' (dget_or payload ''proxy'' (PBool False)) else p) in
     Inr (case traceability of Some (t # ts) \<Rightarrow> dset p1 ''traceability'' (PDict (t # ts)) | _ \<Rightarrow> p1)))"

section \<open>Notifications of a batch\<close>

text \<open>The document of a notification and the event for the browser, by kind of job. \<open>total\<close> is the number of jobs of the batch.\<close>

definition batch_head :: "string \<Rightarrow> string \<Rightarrow> string \<Rightarrow> pydict" where
  "batch_head job_type aws_instance_id batch_id =
     [(''function_name'', PStr (jc_department (config_of job_type))), (''aws_instance_id'', PStr aws_instance_id), (''job_id'', PStr batch_id), (''batch_id'', PStr batch_id)]"

definition batch_tail :: "pyval \<Rightarrow> pyval \<Rightarrow> string \<Rightarrow> pydict" where
  "batch_tail company_id company_name now =
     [(''status'', PStr ''in queue''), (''read'', PBool False), (''timestamp'', PStr now), (''collection_id'', company_id), (''collection_name'', company_name),
      (''batch_index'', PNum 1), (''batch_total'', PNum 1)]"

definition transactions_of :: "pyval list \<Rightarrow> pyval list result" where
  "transactions_of jobs = concat_dicts (\<lambda>ji. py_iter (dget_or ji ''transactions'' (PList []))) (PList jobs)"

definition account_names :: "pyval list \<Rightarrow> string list result" where
  "account_names jobs =
     rbind (rmap as_dict jobs) (\<lambda>ds.
       rmap as_str (foldl (\<lambda>names v. if truthy v \<and> v \<notin> set names then names @ [v] else names) [] (map (\<lambda>d. dget_or d ''bank_account'' (PStr [])) ds)))"

definition bank_fields :: "pyval list \<Rightarrow> pydict result" where
  "bank_fields jobs =
     rbind (transactions_of jobs) (\<lambda>txs. rbind (account_names jobs) (\<lambda>names.
     rbind (case jobs of [] \<Rightarrow> Inr [] | j # _ \<Rightarrow> as_dict j) (\<lambda>j.
       Inr [(''bank_account'', PStr (py_join '', '' names)), (''bank_account_id'', dget_or j ''bank_account_id'' (PStr [])), (''transactions'', PList txs)])))"

definition file_of :: "pydict \<Rightarrow> pyval \<times> pyval" where
  "file_of job_item = (let file_id = py_or (dget job_item ''drive_file_id'') (dget_or job_item ''job_id'' (PStr [])) in (file_id, dget_or job_item ''file_name'' file_id))"

definition batch_notification ::
  "string \<Rightarrow> pyval list \<Rightarrow> string \<Rightarrow> string \<Rightarrow> string \<Rightarrow> pyval \<Rightarrow> pyval \<Rightarrow> string \<Rightarrow> nat \<Rightarrow> pyval \<Rightarrow> (string \<times> pydict) result" where
  "batch_notification job_type jobs batch_id aws_instance_id pub_sub_id company_id company_name now index job_item =
     (if job_type = ''onboarding''
      then Inr (''job_id'', batch_head job_type aws_instance_id batch_id @ batch_tail company_id company_name now)
      else if job_type = ''bankbookeeper''
      then rbind (bank_fields jobs) (\<lambda>fs. Inr (''job_id'', batch_head job_type aws_instance_id batch_id @ fs @ batch_tail company_id company_name now))
      else rbind (as_dict job_item) (\<lambda>d. case file_of d of (file_id, file_name) \<Rightarrow>
             Inr (''file_id'',
               [(''function_name'', PStr (jc_department (config_of job_type))), (''aws_instance_id'', PStr aws_instance_id), (''file_id'', file_id), (''job_id'', file_id),
                (''file_name'', file_name), (''journal_entries'', PStr []), (''status'', PStr ''in queue''), (''read'', PBool False), (''timestamp'', PStr now),
                (''collection_id'', company_id), (''collection_name'', company_name), (''total_files'', PNum 1), (''batch_index'', PNum (of_nat index)),
                (''batch_total'', PNum (of_nat (length jobs))), (''batch_id'', PStr batch_id)] @
               (if job_type = ''router'' then [(''pub_sub_id'', PStr pub_sub_id)] else []))))"

definition batch_event ::
  "(pyval \<Rightarrow> string) \<Rightarrow> string \<Rightarrow> string \<Rightarrow> string \<Rightarrow> string \<Rightarrow> string \<Rightarrow> pydict \<Rightarrow> pydict" where
  "batch_event show job_type batch_id aws_instance_id pub_sub_id notification_id fb =
     (let hd_fields = [(''docId'', PStr notification_id), (''functionName'', PStr (jc_department (config_of job_type))), (''awsInstanceId'', PStr aws_instance_id)];
          state = [(''status'', PStr ''in_queue''), (''read'', PBool False), (''timestamp'', dget fb ''timestamp''), (''collectionId'', dget fb ''collection_id''),
                   (''collectionName'', dget fb ''collection_name'')] in
      if job_type = ''onboarding''
      then hd_fields @ [(''jobId'', PStr batch_id), (''batchId'', PStr batch_id)] @ state @
           [(''batchIndex'', PNum 1), (''batchTotal'', PNum 1), (''message'', PStr ''Onboarding - in queue''), (''hasAdditionalInfo'', PBool False)]
      else if job_type = ''bankbookeeper''
      then hd_fields @ [(''jobId'', PStr batch_id), (''batchId'', PStr batch_id), (''bankAccount'', dget fb ''bank_account''), (''bankAccountId'', dget fb ''bank_account_id''),
             (''transactions'', dget fb ''transactions'')] @ state @
           [(''batchIndex'', PNum 1), (''batchTotal'', PNum 1), (''message'', PStr ''Bank reconciliation - in queue''), (''hasAdditionalInfo'', PBool False)]
      else hd_fields @ [(''fileId'', dget fb ''file_id''), (''jobId'', dget fb ''file_id''), (''fileName'', dget fb ''file_name''), (''journalEntries'', PStr [])] @ state @
           [(''totalFiles'', PNum 1), (''batchIndex'', dget fb ''batch_index''), (''batchTotal'', dget fb ''batch_total''), (''batchId'', PStr batch_id),
            (''message'', PStr (py_str show (dget fb ''file_name'') @ '' - in queue'')), (''hasAdditionalInfo'', PBool False)] @
           (if job_type = ''router'' then [(''pubSubId'', PStr pub_sub_id)] else []))"

section \<open>Documents of the task manager\<close>

definition queued_document :: "string \<Rightarrow> string \<Rightarrow> pydict \<Rightarrow> pyval \<Rightarrow> string \<Rightarrow> pydict" where
  "queued_document job_id department mandate_part company_id batch_id =
     [(''job_id'', PStr job_id), (''status'', PStr ''in_queue''), (''department'', PStr department)] @ mandate_part @ [(''collection_id'', company_id), (''batch_id'', PStr batch_id)]"

definition file_name_map :: "(pyval \<Rightarrow> string) \<Rightarrow> pydict list \<Rightarrow> pydict" where
  "file_name_map show jobs =
     foldl (\<lambda>m item. let jid = py_or (py_or (dget item ''job_id'') (dget item ''drive_file_id'')) (PStr []) in
       if truthy jid then dset m (py_str show jid) (dget_or item ''file_name'' (PStr [])) else m) [] jobs"

text \<open>The transactions of the request, or those in the data of the jobs with the account of their job.\<close>

definition enriched_tx :: "pyval \<Rightarrow> pyval \<Rightarrow> pydict \<Rightarrow> pydict" where
  "enriched_tx acct_id bank_account tx = set_default (set_default (set_default (set_default tx ''account_id'' acct_id) ''journal_id'' acct_id) ''account_name'' bank_account) ''journal_name'' bank_account"

definition transactions_to_store :: "pydict \<Rightarrow> pydict list \<Rightarrow> pydict list result" where
  "transactions_to_store payload jobs =
     (let transactions_data = dget_or payload ''transactions_data'' (PList []); bank_account_id = dget_or payload ''bank_account_id'' (PStr []) in
      if \<not> truthy transactions_data \<and> jobs \<noteq> []
      then rbind (as_list transactions_data) (\<lambda>_. concat_dicts (\<lambda>jd. concat_dicts (\<lambda>tx. Inr [enriched_tx (dget_or jd ''bank_account_id'' bank_account_id) (dget_or jd ''bank_account'' (PStr [])) tx])
             (dget_or jd ''transactions'' (PList []))) (PList (map PDict jobs)))
      else rbind (py_iter transactions_data) (rmap as_dict))"

definition bank_document :: "(pyval \<Rightarrow> string) \<Rightarrow> pyval \<Rightarrow> string \<Rightarrow> pyval \<Rightarrow> string \<Rightarrow> pydict \<Rightarrow> pydict" where
  "bank_document show bank_account_id mandate_path company_id batch_id tx =
     (let move_id = py_str show (py_or (py_or (dget tx ''id'') (dget tx ''move_id'')) (dget_or tx ''transaction_id'' (PStr [])));
          acct_id = account_of show bank_account_id tx;
          either = (\<lambda>k1 k2. py_or (dget_or tx k1 (PStr [])) (dget_or tx k2 (PStr []))) in
      queued_document (py_str show company_id @ ''_'' @ acct_id @ ''_'' @ move_id) ''Bankbookeeper'' [(''mandate_path'', PStr mandate_path)] company_id batch_id @
      [(''department_data'', PDict [(''Bankbookeeper'', PDict
         [(''batch_id'', PStr batch_id), (''bank_account_id'', PStr acct_id), (''transaction_id'', PStr move_id), (''txn_amount'', dget_or tx ''amount'' (PNum 0)),
          (''txn_currency'', either ''currency'' ''currency_name''), (''transaction_date'', either ''date'' ''created_at''), (''description'', either ''description'' ''payment_ref''),
          (''partner_name'', dget_or tx ''partner_name'' (PStr [])), (''payment_ref'', dget_or tx ''payment_ref'' (PStr [])), (''reference'', either ''reference'' ''ref''),
          (''bank_account_name'', either ''account_name'' ''journal_name'')])])])"

definition hr_document :: "string \<Rightarrow> pyval \<Rightarrow> string \<Rightarrow> pydict \<Rightarrow> pydict" where
  "hr_document mandate_path company_id batch_id job_item =
     [(''job_id'', dget_or job_item ''job_id'' (PStr (''payroll_'' @ batch_id))), (''status'', PStr ''in_queue''), (''department'', PStr ''HR''), (''mandate_path'', PStr mandate_path),
      (''collection_id'', company_id), (''batch_id'', PStr batch_id),
      (''department_data'', PDict [(''HR'', PDict [(''employee_id'', dget_or job_item ''employee_id'' (PStr [])), (''action'', dget_or job_item ''action'' (PStr ''calculate'')),
         (''period_year'', dget job_item ''period_year''), (''period_month'', dget job_item ''period_month'')])])]"

definition task_documents ::
  "(pyval \<Rightarrow> string) \<Rightarrow> string \<Rightarrow> string list \<Rightarrow> pydict \<Rightarrow> string \<Rightarrow> pydict \<Rightarrow> pyval list \<Rightarrow> pydict list result" where
  "task_documents show job_type document_ids company_data batch_id payload jobs =
     (let company_id = py_or (dget company_data ''company_id'') (dget_or company_data ''collection_name'' (PStr [])) in
      if map_of JOB_TYPE_CONFIG job_type = None then Inl (KeyError job_type)
      else rbind (as_str (dget_or company_data ''mandate_path'' (PStr []))) (\<lambda>mandate_path. rbind (rmap as_dict jobs) (\<lambda>ds.
        let mandate = [(''mandate_path'', PStr mandate_path)] in
        if job_type = ''router''
        then Inr (map (\<lambda>i. queued_document i ''Router'' mandate company_id batch_id @ [(''file_name'', dget_or (file_name_map show ds) i (PStr []))]) document_ids)
        else if job_type = ''apbookeeper'' then Inr (map (\<lambda>i. queued_document i ''APbookeeper'' [] company_id batch_id) document_ids)
        else if job_type = ''bankbookeeper''
        then rbind (transactions_to_store payload ds) (\<lambda>txs.
               Inr (map (bank_document show (dget_or payload ''bank_account_id'' (PStr [])) mandate_path company_id batch_id) txs))
        else if job_type = ''onboarding'' then Inr (map (\<lambda>i. queued_document i ''Onboarding'' mandate company_id batch_id) document_ids)
        else if job_type = ''hr'' then Inr (map (hr_document mandate_path company_id batch_id) ds)
        else Inr [])))"

end
