(* ===== verification/Page_Change.thy ===== *)
theory Page_Change
  imports List_Manager Business_Cache
begin

text \<open>
  \<open>ListManager.apply_status_change\<close> of \<open>src/app/domain_config/list_manager.py\<close> on the dictionary its callers pass, which comes from JSON and may hold
  anything. \<open>List_Manager\<close> has the same code on typed lists, where nothing can raise; here each access raises as in Python, the dictionary is changed in
  place as far as the code got, and the \<open>except\<close> branch answers with the text of the exception (\<open>err\<close>). The theory shows that on a page whose lists are
  lists of dictionaries this code implements the typed one.

  After a search that found nothing the code logs the first identifiers of each list; it has read the same items before, so the log cannot raise.
\<close>

section \<open>Definitions\<close>

definition as_item :: "pyval \<Rightarrow> item result" where
  "as_item v = (case v of PDict it \<Rightarrow> Inr it | _ \<Rightarrow> Inl AttributeError)"

fun item_in :: "pyval \<Rightarrow> pyval list \<Rightarrow> item option result" where
  "item_in x [] = Inr None"
| "item_in x (v # vs) = rbind (as_item v) (\<lambda>it. if has_id it x then Inr (Some it) else item_in x vs)"

fun page_find_item :: "pydict \<Rightarrow> pyval \<Rightarrow> string list \<Rightarrow> (item \<times> string) option result" where
  "page_find_item d x [] = Inr None"
| "page_find_item d x (n # ns) =
     (let items = dget_or d n (PList []) in
      rbind (py_len items) (\<lambda>_. rbind (py_iter items) (\<lambda>vs. rbind (item_in x vs) (\<lambda>found.
        case found of Some it \<Rightarrow> Inr (Some (it, n)) | None \<Rightarrow> page_find_item d x ns))))"

text \<open>The list without its first item with the identifier, if there is one.\<close>

fun pop_item :: "pyval \<Rightarrow> pyval list \<Rightarrow> pyval list option result" where
  "pop_item x [] = Inr None"
| "pop_item x (v # vs) =
     rbind (as_item v) (\<lambda>it. if has_id it x then Inr (Some vs) else rbind (pop_item x vs) (\<lambda>r. Inr (map_option (\<lambda>ws. v # ws) r)))"

definition page_remove_item :: "pyval \<Rightarrow> string \<Rightarrow> pydict \<Rightarrow> bool result \<times> pydict" where
  "page_remove_item x n d =
     (case map_of d n of
        None \<Rightarrow> (Inr False, d)
      | Some items \<Rightarrow>
          (case rbind (py_iter items) (pop_item x) of
             Inl e \<Rightarrow> (Inl e, d)
           | Inr None \<Rightarrow> (Inr False, d)
           | Inr (Some vs) \<Rightarrow> (Inr True, dset d n (PList vs))))"

text \<open>Whether an existing entry gives way to the item; an item without identifiers never looks at the entry.\<close>

definition gives_way :: "item \<Rightarrow> pyval \<Rightarrow> bool result" where
  "gives_way it existing =
     (if truthy (dget it ''id'') \<or> truthy (dget it ''job_id'') \<or> truthy (dget it ''expense_id'')
      then rbind (as_item existing) (\<lambda>old. Inr (same_item it old)) else Inr False)"

fun others_of :: "item \<Rightarrow> pyval list \<Rightarrow> pyval list result" where
  "others_of it [] = Inr []"
| "others_of it (v # vs) = rbind (gives_way it v) (\<lambda>b. rbind (others_of it vs) (\<lambda>ws. Inr (if b then ws else v # ws)))"

definition page_add_item :: "item \<Rightarrow> string \<Rightarrow> pydict \<Rightarrow> unit result \<times> pydict" where
  "page_add_item it n d =
     (let d1 = (if map_of d n = None then dset d n (PList []) else d) in
      case rbind (py_iter (dget d1 n)) (others_of it) of
        Inl e \<Rightarrow> (Inl e, d1)
      | Inr vs \<Rightarrow> (Inr (), dset d1 n (PList (PDict it # vs))))"

definition page_counts :: "pydict \<Rightarrow> string list \<Rightarrow> (string \<times> nat) list result" where
  "page_counts d names = rmap (\<lambda>n. rbind (py_len (dget_or d n (PList []))) (\<lambda>k. Inr (n, k))) names"

definition counts_dict :: "(string \<times> nat) list \<Rightarrow> pyval" where
  "counts_dict cs = PDict (map (\<lambda>(k, n). (k, PNum (of_nat n))) cs)"

text \<open>The body of the loop over \<open>item_ids\<close>, and the loop.\<close>

definition page_move_one ::
  "string list \<Rightarrow> string \<Rightarrow> string \<Rightarrow> string option \<Rightarrow> string \<Rightarrow> pydict option \<Rightarrow> pyval \<Rightarrow> item list \<times> string option \<Rightarrow> pydict
     \<Rightarrow> (item list \<times> string option) result \<times> pydict" where
  "page_move_one names to status action now extra x acc d =
     (case page_find_item d x names of
        Inl e \<Rightarrow> (Inl e, d)
      | Inr None \<Rightarrow> (Inr acc, d)
      | Inr (Some (it, src)) \<Rightarrow>
          if it = [] then (Inr acc, d)
          else let upd = update_item it status now extra in
            sbind (page_remove_item x src) (\<lambda>_.
            sbind (if action \<noteq> Some ''delete'' \<and> to \<noteq> [] then page_add_item upd to else sret ()) (\<lambda>_.
              sret (fst acc @ [upd], case snd acc of None \<Rightarrow> Some src | Some f \<Rightarrow> Some f))) d)"

primrec page_move_all ::
  "string list \<Rightarrow> string \<Rightarrow> string \<Rightarrow> string option \<Rightarrow> string \<Rightarrow> pydict option \<Rightarrow> pyval list \<Rightarrow> item list \<times> string option \<Rightarrow> pydict
     \<Rightarrow> (item list \<times> string option) result \<times> pydict" where
  "page_move_all names to status action now extra [] acc = sret acc"
| "page_move_all names to status action now extra (x # xs) acc =
     sbind (page_move_one names to status action now extra x acc) (page_move_all names to status action now extra xs)"

definition failed_change :: "string \<Rightarrow> ListChangeResult" where
  "failed_change msg = \<lparr>lcr_success = False, items_moved = [], from_list = [], to_list = [], new_status = [], lcr_counts = [], lcr_error = Some msg, lcr_ws_payload = None\<rparr>"

definition page_apply_status_change ::
  "(exn \<Rightarrow> string) \<Rightarrow> registry \<Rightarrow> string \<Rightarrow> pyval list \<Rightarrow> string option \<Rightarrow> string option \<Rightarrow> pydict option \<Rightarrow> string \<Rightarrow> pydict
     \<Rightarrow> (registry \<times> ListChangeResult) \<times> pydict" where
  "page_apply_status_change err reg domain item_ids status action extra now d =
     (case List_Manager.get_domain_config reg domain of
        (reg', None) \<Rightarrow> ((reg', failed_change (''Unknown domain: '' @ domain)), d)
      | (reg', Some cfg) \<Rightarrow>
          let nst = normalize status DEFAULT_STATUS;
              to = cls_get_list_for_status cfg nst;
              names = map snd (LIST_NAMES cfg) in
          case stry (sbind (page_move_all names to nst action now extra item_ids ([], None)) (\<lambda>acc d1.
                 case page_counts d1 names of
                   Inl e \<Rightarrow> (Inl e, d1)
                 | Inr cnts \<Rightarrow>
                     let f = (case snd acc of None \<Rightarrow> [] | Some f \<Rightarrow> f) in
                     (Inr \<lparr>lcr_success = True, items_moved = fst acc, from_list = f, to_list = to, new_status = nst, lcr_counts = cnts, lcr_error = None,
                           lcr_ws_payload = Some (build_ws_payload domain action (fst acc) f to nst cnts now)\<rparr>,
                      dset d1 ''counts'' (counts_dict cnts)))) (\<lambda>e. failed_change (err e)) d of
            (r, d') \<Rightarrow> ((reg', r), d'))"

section \<open>The page as lists\<close>

definition page_cache :: "pydict \<Rightarrow> cache" where
  "page_cache d = \<lparr>lists = (\<lambda>k. if k \<in> set LISTS \<and> map_of d k \<noteq> None then Some (page_list d k) else None), cache_counts = None\<rparr>"

lemma LISTS_eq: "LISTS = CATEGORY_KEYS"
  by (simp add: LISTS_def CATEGORY_KEYS_def)

lemma get_list_page [simp]: "k \<in> set LISTS \<Longrightarrow> get_list (page_cache d) k = page_list d k"
  by (auto simp: get_list_def page_cache_def page_list_def dget_or_def split: option.split)

lemma all_items_page: "all_items (page_cache d) LISTS = page_items d"
  by (simp add: all_items_def page_items_def LISTS_eq [symmetric] cong: map_cong)

text \<open>A dictionary that holds the lists of a cache and otherwise what another dictionary holds.\<close>

definition page_sim :: "pydict \<Rightarrow> pydict \<Rightarrow> cache \<Rightarrow> bool" where
  "page_sim d0 d c \<longleftrightarrow> (\<forall>k \<in> set LISTS. map_of d k = map_option (\<lambda>xs. PList (map PDict xs)) (List_Manager.lists c k)) \<and>
     (\<forall>k. k \<notin> set LISTS \<longrightarrow> map_of d k = map_of d0 k)"

lemma page_simD:
  assumes "page_sim d0 d c" and "k \<in> set LISTS"
  shows "map_of d k = map_option (\<lambda>xs. PList (map PDict xs)) (List_Manager.lists c k)" and "dget_or d k (PList []) = PList (map PDict (get_list c k))"
  using assms by (auto simp: page_sim_def dget_or_def get_list_def split: option.split)

lemma page_sim_set: "page_sim d0 d c \<Longrightarrow> n \<in> set LISTS \<Longrightarrow> page_sim d0 (dset d n (PList (map PDict xs))) (set_list c n xs)"
  by (auto simp: page_sim_def set_list_def)

lemma page_sim_page:
  assumes "list_all (wf_list d) LISTS"
  shows "page_sim d d (page_cache d)"
proof -
  have "map_of d k = map_option (\<lambda>xs. PList (map PDict xs)) (List_Manager.lists (page_cache d) k)" if "k \<in> set LISTS" for k
  proof -
    have "wf_list d k" using assms that by (simp add: list_all_iff)
    then show ?thesis using that
      by (auto simp: wf_list_def page_cache_def page_list_def dget_or_def list_all_iff intro!: map_idI [symmetric] split: option.splits pyval.splits)
  qed
  then show ?thesis by (simp add: page_sim_def)
qed

lemma page_sim_lists:
  assumes "page_sim d0 d c" and "k \<in> set LISTS"
  shows "page_list d k = get_list c k" and "wf_list d k"
  using page_simD(2) [OF assms] by (simp_all add: page_list_def wf_list_def dict_of_def o_def list.pred_map list_all_iff)

section \<open>The code implements the typed change\<close>

lemma as_item_PDict [simp]: "as_item (PDict it) = Inr it"
  by (simp add: as_item_def)

lemma item_in_dicts: "item_in x (map PDict xs) = Inr (find (\<lambda>it. has_id it x) xs)"
  by (induction xs) simp_all

lemma page_find_refines:
  assumes "page_sim d0 d c"
  shows "set ns \<subseteq> set LISTS \<Longrightarrow> page_find_item d x ns = Inr (find_item_in_lists c x ns)"
  by (induction ns) (simp_all add: page_simD(2) [OF assms] item_in_dicts Let_def split: option.split)

lemma pop_item_dicts:
  "pop_item x (map PDict xs) = Inr (if list_ex (\<lambda>it. has_id it x) xs then Some (map PDict (remove_first (\<lambda>it. has_id it x) xs)) else None)"
  by (induction xs) simp_all

lemma remove_first_none: "\<not> list_ex P xs \<Longrightarrow> remove_first P xs = xs"
  by (induction xs) auto

lemma page_remove_refines:
  assumes "page_sim d0 d c" and "n \<in> set LISTS"
  obtains b d' where "page_remove_item x n d = (Inr b, d')" "page_sim d0 d' (remove_item_from_list c x n)"
proof (cases "List_Manager.lists c n")
  case None
  then show thesis using that [of False d] assms page_simD(1) [OF assms] by (simp add: page_remove_item_def remove_item_from_list_def)
next
  case (Some xs)
  note m = page_simD(1) [OF assms, unfolded Some option.map]
  have c: "remove_item_from_list c x n = set_list c n (remove_first (\<lambda>it. has_id it x) xs)" by (simp add: remove_item_from_list_def Some)
  show thesis
  proof (cases "list_ex (\<lambda>it. has_id it x) xs")
    case True
    then show thesis using that [of True] m page_sim_set [OF assms] by (simp add: page_remove_item_def pop_item_dicts c)
  next
    case False
    then have "set_list c n (remove_first (\<lambda>it. has_id it x) xs) = c" using Some by (simp add: set_list_def remove_first_none fun_upd_idem)
    then show thesis using that [of False d] m False assms(1) by (simp add: page_remove_item_def pop_item_dicts c)
  qed
qed

lemma others_of_dicts: "others_of it (map PDict xs) = Inr (map PDict (filter (\<lambda>old. \<not> same_item it old) xs))"
proof (induction xs)
  case (Cons a xs)
  have "gives_way it (PDict a) = Inr (same_item it a)" by (auto simp: gives_way_def same_item_def)
  then show ?case using Cons by simp
qed simp

lemma page_add_refines:
  assumes "page_sim d0 d c" and "n \<in> set LISTS"
  obtains d' where "page_add_item it n d = (Inr (), d')" "page_sim d0 d' (add_item_to_list c it n)"
proof -
  define d1 where "d1 = (if map_of d n = None then dset d n (PList []) else d)"
  have n: "dget d1 n = PList (map PDict (get_list c n))" using page_simD(1) [OF assms] by (auto simp: d1_def dget_def get_list_def split: option.split)
  have "page_sim d0 (dset d1 n (PList (map PDict ys))) (set_list c n ys)" for ys
    using assms by (auto simp: d1_def page_sim_def set_list_def)
  from this [of "it # filter (\<lambda>old. \<not> same_item it old) (get_list c n)"] show thesis
    using that [of "dset d1 n (PList (map PDict (it # filter (\<lambda>old. \<not> same_item it old) (get_list c n))))"]
    by (simp add: page_add_item_def Let_def d1_def [symmetric] n others_of_dicts add_item_to_list_def)
qed

lemma page_move_refines:
  assumes "page_sim d0 d c" and "set ns \<subseteq> set LISTS" and "to \<in> set LISTS" and "move_one ns to st a now e (c, moved, frm) x = (c', moved', frm')"
  obtains d' where "page_move_one ns to st a now e x (moved, frm) d = (Inr (moved', frm'), d')" "page_sim d0 d' c'"
proof (cases "find_item_in_lists c x ns")
  case None
  then show thesis using that [of d] assms by (simp add: page_move_one_def page_find_refines [OF assms(1,2)] move_one_def)
next
  case (Some p)
  obtain it src where p: "p = (it, src)" by force
  have src: "src \<in> set LISTS" using find_item_in_lists_Some [of c x ns it src] Some p assms(2) by auto
  note find = page_find_refines [OF assms(1,2), of x, unfolded Some p]
  show thesis
  proof (cases "it = []")
    case True
    then show thesis using that [of d] assms(1,4) by (simp add: page_move_one_def find move_one_def Some p)
  next
    case False
    let ?c1 = "remove_item_from_list c x src" and ?u = "update_item it st now e"
    obtain b d1 where 1: "page_remove_item x src d = (Inr b, d1)" "page_sim d0 d1 ?c1" by (rule page_remove_refines [OF assms(1) src])
    obtain d2 where 2: "page_add_item ?u to d1 = (Inr (), d2)" "page_sim d0 d2 (add_item_to_list ?c1 ?u to)" by (rule page_add_refines [OF 1(2) assms(3)])
    show thesis using that [of d1] that [of d2] assms(4) False 1 2
      by (cases "a \<noteq> Some ''delete'' \<and> to \<noteq> []") (auto simp: page_move_one_def find move_one_def Some p Let_def seq_defs)
  qed
qed

lemma page_moves_refine:
  assumes "set ns \<subseteq> set LISTS" and "to \<in> set LISTS"
  shows "page_sim d0 d c \<Longrightarrow> foldl (move_one ns to st a now e) (c, moved, frm) xs = (c', moved', frm') \<Longrightarrow>
     \<exists>d'. page_move_all ns to st a now e xs (moved, frm) d = (Inr (moved', frm'), d') \<and> page_sim d0 d' c'"
proof (induction xs arbitrary: d c moved frm)
  case Nil
  then show ?case by (simp add: seq_defs)
next
  case (Cons x xs)
  obtain c1 moved1 frm1 where m: "move_one ns to st a now e (c, moved, frm) x = (c1, moved1, frm1)" by (metis prod_cases3)
  obtain d1 where 1: "page_move_one ns to st a now e x (moved, frm) d = (Inr (moved1, frm1), d1)" "page_sim d0 d1 c1"
    by (rule page_move_refines [OF Cons.prems(1) assms m])
  then show ?case using Cons.IH [OF 1(2)] Cons.prems(2) m by (simp add: seq_defs)
qed

lemma page_counts_refines:
  assumes "page_sim d0 d c" and "set ns \<subseteq> set LISTS"
  shows "page_counts d ns = Inr (calculate_counts c ns)"
  using assms(2) unfolding page_counts_def calculate_counts_def by (intro rmap_Inr) (auto simp: page_simD(2) [OF assms(1)])

text \<open>The whole operation on a page of lists of dictionaries.\<close>

lemma page_apply_refines:
  assumes cfg: "map_of DOMAIN_CONFIGS dm = Some cfg" and wf: "list_all (wf_list d) LISTS"
    and run: "apply_status_change DOMAIN_CONFIGS dm (page_cache d) ids st a e now = (reg', c', r)"
  obtains d' where "page_apply_status_change err DOMAIN_CONFIGS dm ids st a e now d = ((DOMAIN_CONFIGS, r), d')"
    "map_of d' ''counts'' = Some (counts_dict (lcr_counts r))" "page_sim (dset d ''counts'' (counts_dict (lcr_counts r))) d' c'"
proof -
  note contract = domain_configs_contract [OF cfg] and names = domain_configs_lists [OF cfg]
  let ?st = "normalize st DEFAULT_STATUS"
  let ?to = "cls_get_list_for_status cfg ?st"
  obtain c1 moved frm where f: "foldl (move_one LISTS ?to ?st a now e) (page_cache d, [], None) ids = (c1, moved, frm)" by (metis prod_cases3)
  have to: "?to \<in> set LISTS"
  proof -
    have "?to \<in> set (map snd (LIST_NAMES cfg))" using list_assignment.assigned_listed [OF contract] by simp
    then show ?thesis using names by simp
  qed
  obtain d1 where 1: "page_move_all LISTS ?to ?st a now e ids ([], None) d = (Inr (moved, frm), d1)" "page_sim d d1 c1"
    using page_moves_refine [OF subset_refl to page_sim_page [OF wf] f] by blast
  note n = page_counts_refines [OF 1(2) subset_refl]
  let ?d = "dset d1 ''counts'' (counts_dict (calculate_counts c1 LISTS))"
  have r: "c' = c1\<lparr>cache_counts := Some (calculate_counts c1 LISTS)\<rparr>" "lcr_counts r = calculate_counts c1 LISTS"
    and go: "page_apply_status_change err DOMAIN_CONFIGS dm ids st a e now d = ((DOMAIN_CONFIGS, r), ?d)"
    using run by (auto simp: apply_status_change_def page_apply_status_change_def get_domain_config_hit [OF cfg] Let_def names f 1(1) n seq_defs)
  have "''counts'' \<notin> set LISTS" by (simp add: LISTS_def)
  then have "page_sim (dset d ''counts'' (counts_dict (lcr_counts r))) ?d c'" using 1(2) by (auto simp: page_sim_def r)
  then show thesis using that [OF go] r by simp
qed

text \<open>What the code keeps on every branch: a failed change has moved nothing it reports, and its text is that of the exception.\<close>

lemma page_apply_failure:
  assumes "page_apply_status_change err reg dm ids st a e now d = ((reg', r), d')" and "\<not> lcr_success r"
  shows "\<exists>x. r = failed_change x \<and> (x = ''Unknown domain: '' @ dm \<or> x \<in> range err)"
  using assms
  by (auto simp: page_apply_status_change_def Let_def stry_def sbind_def split: prod.splits option.splits sum.splits)

lemma list_change_success:
  assumes "map_of DOMAIN_CONFIGS dm = Some cfg" and "apply_status_change DOMAIN_CONFIGS dm c ids st a e now = (reg', pc, r)"
  shows "cache_counts pc = Some (lcr_counts r)" and "lcr_success r" and "to_list r = cls_get_list_for_status cfg (normalize st DEFAULT_STATUS)"
  using assms by (auto simp: apply_status_change_def List_Manager.get_domain_config_def Let_def split: prod.splits if_splits)

text \<open>No change of a status takes a list away.\<close>

lemma move_keeps_lists: "List_Manager.lists c k \<noteq> None \<Longrightarrow> List_Manager.lists (fst (move_one names to st a now e (c, moved, frm) x)) k \<noteq> None"
  by (auto simp: move_one_def Let_def remove_item_from_list_def add_item_to_list_def set_list_def split: option.split prod.split if_splits)

lemma moves_keep_lists: "List_Manager.lists (fst st0) k \<noteq> None \<Longrightarrow> List_Manager.lists (fst (foldl (move_one names to st a now e) st0 ids)) k \<noteq> None"
proof (induction ids arbitrary: st0)
  case (Cons x ids)
  obtain c moved frm where "st0 = (c, moved, frm)" by (cases st0)
  then show ?case using Cons.IH [of "move_one names to st a now e st0 x"] Cons.prems move_keeps_lists [of c k] by simp
qed simp

lemma change_keeps_lists:
  assumes "map_of reg dm = Some cfg" and "apply_status_change reg dm c ids st a e now = (reg', c', r)" and "List_Manager.lists c' k = None"
  shows "List_Manager.lists c k = None"
proof -
  obtain c1 moved frm where
    f: "foldl (move_one (map snd (LIST_NAMES cfg)) (cls_get_list_for_status cfg (normalize st DEFAULT_STATUS)) (normalize st DEFAULT_STATUS) a now e) (c, [], None) ids = (c1, moved, frm)"
    and r: "c' = c1\<lparr>cache_counts := Some (calculate_counts c1 (map snd (LIST_NAMES cfg)))\<rparr>"
    by (rule apply_status_change_hit [OF assms(1,2)]) blast
  have "List_Manager.lists c1 k = None" using r assms(3) by simp
  then show ?thesis using moves_keep_lists [of "(c, [], None)" k] f by (metis fst_conv)
qed

section \<open>Properties\<close>

text \<open>
  C37: On a page whose four lists are lists of dictionaries, whatever other keys it has, the code that changes the dictionary in place succeeds with the answer of the
  typed list manager, leaves in each list exactly the items the typed one has there, writes the counts, and keeps every other key.
\<close>

theorem page_change_implements:
  assumes "map_of DOMAIN_CONFIGS dm = Some cfg" and "list_all (wf_list d) LISTS"
    and "apply_status_change DOMAIN_CONFIGS dm (page_cache d) ids st a e now = (reg', c', r)"
    and "page_apply_status_change err DOMAIN_CONFIGS dm ids st a e now d = ((reg'', r'), d')"
  shows "r' = r \<and> lcr_success r' \<and> lcr_error r' = None \<and> list_all (wf_list d') LISTS \<and> (\<forall>k \<in> set LISTS. page_list d' k = get_list c' k) \<and>
    map_of d' ''counts'' = Some (counts_dict (lcr_counts r)) \<and> (\<forall>k. k \<notin> set LISTS \<and> k \<noteq> ''counts'' \<longrightarrow> map_of d' k = map_of d k)"
proof -
  obtain d1 where 1: "page_apply_status_change err DOMAIN_CONFIGS dm ids st a e now d = ((DOMAIN_CONFIGS, r), d1)"
    "map_of d1 ''counts'' = Some (counts_dict (lcr_counts r))" "page_sim (dset d ''counts'' (counts_dict (lcr_counts r))) d1 c'"
    by (rule page_apply_refines [OF assms(1-3)])
  have eq: "r' = r" "d' = d1" using 1(1) assms(4) by simp_all
  have "lcr_error r = None" by (rule apply_status_change_hit [OF assms(1,3)])
  moreover have "map_of d1 k = map_of d k" if "k \<notin> set LISTS" "k \<noteq> ''counts''" for k using 1(3) that by (simp add: page_sim_def)
  ultimately show ?thesis using 1(2) page_sim_lists [OF 1(3)] list_change_success(2) [OF assms(1,3)] by (simp add: eq list_all_iff)
qed

theorem page_change_implements_witness:
  "\<exists>r d'. page_apply_status_change (\<lambda>_. []) DOMAIN_CONFIGS ''invoices'' [PStr ''i''] (Some ''in_queue'') (Some ''process'') None ''t''
       [(''to_process'', PList [PDict [(''id'', PStr ''i'')]]), (''step_mapping'', PDict [])] = ((DOMAIN_CONFIGS, r), d') \<and>
     lcr_success r \<and> map_of d' ''step_mapping'' = Some (PDict [])"
proof -
  let ?d = "[(''to_process'', PList [PDict [(''id'', PStr ''i'')]]), (''step_mapping'', PDict [])]"
  have cfg: "map_of DOMAIN_CONFIGS ''invoices'' = Some InvoicesDomainConfig" by (simp add: DOMAIN_CONFIGS_def)
  have wf: "list_all (wf_list ?d) LISTS" by (simp add: wf_list_def LISTS_def dget_or_def dict_of_def)
  obtain reg' c' r where run: "apply_status_change DOMAIN_CONFIGS ''invoices'' (page_cache ?d) [PStr ''i''] (Some ''in_queue'') (Some ''process'') None ''t'' = (reg', c', r)" by (metis prod_cases3)
  obtain d' where go: "page_apply_status_change (\<lambda>_. []) DOMAIN_CONFIGS ''invoices'' [PStr ''i''] (Some ''in_queue'') (Some ''process'') None ''t'' ?d = ((DOMAIN_CONFIGS, r), d')"
    by (rule page_apply_refines [OF cfg wf run])
  from page_change_implements [OF cfg wf run go] have "lcr_success r" "map_of d' ''step_mapping'' = map_of ?d ''step_mapping''" by (simp_all add: LISTS_def)
  then show ?thesis using go by auto
qed

text \<open>A list that is not a list of dictionaries makes the change fail with the text of the exception, also when only one of the items it meets is wrong.\<close>

theorem ill_typed_page_fails:
  "page_apply_status_change err DOMAIN_CONFIGS ''routing'' [PStr ''x''] (Some ''in_queue'') (Some ''process'') None now [(''to_process'', PNone)] =
     ((DOMAIN_CONFIGS, failed_change (err TypeError)), [(''to_process'', PNone)]) \<and>
   page_apply_status_change err DOMAIN_CONFIGS ''routing'' [PStr ''x''] (Some ''in_queue'') (Some ''process'') None now [(''to_process'', PList [PStr ''y''])] =
     ((DOMAIN_CONFIGS, failed_change (err AttributeError)), [(''to_process'', PList [PStr ''y''])])"
proof -
  have cfg: "List_Manager.get_domain_config DOMAIN_CONFIGS ''routing'' = (DOMAIN_CONFIGS, Some RoutingDomainConfig)" by (simp add: get_domain_config_hit DOMAIN_CONFIGS_def)
  have names: "map snd (LIST_NAMES RoutingDomainConfig) = LISTS" using domain_configs_lists [of "''routing''" RoutingDomainConfig] by (simp add: DOMAIN_CONFIGS_def)
  show ?thesis
    by (simp add: page_apply_status_change_def cfg names Let_def page_move_one_def LISTS_def dget_or_def as_item_def seq_defs)
qed

end
