(* ===== verification/Job_Process.thy ===== *)
theory Job_Process
  imports Job_Payload Page_Change
begin

text \<open>
  \<open>handle_job_process\<close> of \<open>src/app/wrappers/job_actions_handler.py\<close>: a batch of jobs is checked against the balance, registered in the queue of active jobs, sent to
  its worker when one is alive, announced in notifications and the task manager, and its items move on the cached page before any worker has reported.

  The worker's HTTP interface, the container service and the list of mandates are parameters. Whether the balance can be read depends on the state (\<open>pr_billing\<close>). The
  environment is the default one, where workers are containers; \<open>pr_source\<close> is the variable \<open>PINNOKIO_SOURCE\<close> with its default, \<open>pr_error\<close> the text of an
  exception. The change of the page is the one of \<open>Page_Change\<close>, which fails where a
  list holds something else than dictionaries. The registries of page configurations are the built-in ones. The clock is read once.
\<close>

section \<open>Definitions\<close>

datatype http_answer = Answered nat pyval | Unreachable | Http_raised exn

record 's processing =
  pr_jobs :: "'s jobs"
  pr_ecs :: "'s ecs"
  pr_billing :: "'s \<Rightarrow> string \<Rightarrow> pydict option result"
  pr_mandates :: "string \<Rightarrow> 's \<Rightarrow> pyval result \<times> 's"
  pr_post :: "string \<Rightarrow> pydict \<Rightarrow> 's \<Rightarrow> http_answer \<times> 's"
  pr_source :: string

record process_ids =
  pi_batch :: string
  pi_aws :: string
  pi_pubsub :: string

abbreviation pr_redis :: "'s processing \<Rightarrow> 's redis" where
  "pr_redis pr \<equiv> sb_redis (jb_sub (pr_jobs pr))"

abbreviation pr_fs :: "'s processing \<Rightarrow> 's Firestore_Client.firestore" where
  "pr_fs pr \<equiv> sb_fs (jb_sub (pr_jobs pr))"

abbreviation pr_error :: "'s processing \<Rightarrow> exn \<Rightarrow> string" where
  "pr_error pr \<equiv> jb_error (pr_jobs pr)"

abbreviation pr_show :: "'s processing \<Rightarrow> pyval \<Rightarrow> string" where
  "pr_show pr \<equiv> sb_show (jb_sub (pr_jobs pr))"

subsection \<open>Addresses of the workers\<close>

definition DOCKER_URL :: string where "DOCKER_URL = ''http://localhost:8080''"
definition AWS_URL :: string where "AWS_URL = ''http://klk-load-balancer-http-https-435479360.us-east-1.elb.amazonaws.com''"
definition LOCAL_URL_BASE :: string where "LOCAL_URL_BASE = ''http://127.0.0.1''"

definition get_base_url :: "string \<Rightarrow> string \<Rightarrow> string" where
  "get_base_url source job_type =
     (if source = ''docker'' then DOCKER_URL
      else if source = ''local'' then LOCAL_URL_BASE @ '':'' @ (case local_port (config_of job_type) of Some p \<Rightarrow> nat_str p | None \<Rightarrow> ''None'')
      else AWS_URL)"

definition process_url :: "string \<Rightarrow> string \<Rightarrow> string" where
  "process_url source job_type = get_base_url source job_type @ (case process_endpoint (config_of job_type) of Some e \<Rightarrow> e | None \<Rightarrow> ''None'')"

subsection \<open>The items of the page\<close>

definition put_documents :: "pydict \<Rightarrow> pydict \<Rightarrow> pyval \<Rightarrow> pydict" where
  "put_documents cached documents cnts =
     (if map_of cached ''data'' \<noteq> None then dset cached ''data'' (PDict (if map_of documents ''counts'' \<noteq> None then dset documents ''counts'' cnts else documents))
      else if map_of cached ''documents'' \<noteq> None then dset (dset cached ''documents'' (PDict documents)) ''counts'' cnts
      else dset documents ''counts'' cnts)"

definition event_payload :: "ws_payload \<Rightarrow> pydict" where
  "event_payload w =
     [(''action'', PStr ''status_change''), (''trigger_action'', opt_str (wp_trigger_action w)), (''items'', PList (map PDict (wp_items w))), (''item_ids'', PList (wp_item_ids w)),
      (''from_list'', PStr (wp_from_list w)), (''to_list'', PStr (wp_to_list w)), (''new_status'', PStr (wp_new_status w)), (''counts'', counts_dict (wp_counts w)),
      (''timestamp'', PStr (wp_timestamp w))]"

definition change_event :: "string \<Rightarrow> ListChangeResult \<Rightarrow> pydict" where
  "change_event domain r =
     [(''type'', PStr (domain @ ''.item_update'')), (''payload'', PDict (case lcr_ws_payload r of Some w \<Rightarrow> event_payload w | None \<Rightarrow> []))]"

definition change_answer :: "ListChangeResult \<Rightarrow> pydict" where
  "change_answer r =
     [(''success'', PBool True), (''items_moved'', PNum (of_nat (length (items_moved r)))), (''from_list'', PStr (from_list r)), (''to_list'', PStr (to_list r)),
      (''new_status'', PStr (new_status r)), (''counts'', counts_dict (lcr_counts r))]"

text \<open>The page inside the cached value.\<close>

definition cached_documents :: "text_val \<Rightarrow> (pydict \<times> pydict) result" where
  "cached_documents t =
     rbind (load_dict t) (\<lambda>c. rbind (as_dict (documents_section c)) (\<lambda>d. Inr (c, d)))"

definition change_page ::
  "'s processing \<Rightarrow> (conn \<Rightarrow> bool) \<Rightarrow> string \<Rightarrow> string \<Rightarrow> string list \<Rightarrow> string \<Rightarrow> string \<Rightarrow> string \<Rightarrow> pydict option \<Rightarrow> string \<Rightarrow> ('s, 'z) node_scheme
     \<Rightarrow> pydict option \<times> ('s, 'z) node_scheme" where
  "change_page pr send_ok uid cache_key document_ids domain status action extra_data now n =
     (case on_srv (r_get (pr_redis pr) cache_key) n of
        (Inr (Some t), n1) \<Rightarrow>
          (if \<not> some_data (Some t) then (None, n1)
           else case cached_documents t of
             Inl _ \<Rightarrow> (None, n1)
           | Inr (c, d) \<Rightarrow>
               (case page_apply_status_change (pr_error pr) DOMAIN_CONFIGS domain (map PStr document_ids) (Some status) (Some action) extra_data now d of
                  ((_, r), documents) \<Rightarrow>
                    if \<not> lcr_success r then (None, n1)
                    else case on_srv (r_setex (pr_redis pr) cache_key 1800 (json_dumps (PDict (put_documents c documents (counts_dict (lcr_counts r)))))) n1 of
                      (Inl _, n2) \<Rightarrow> (None, n2)
                    | (Inr _, n2) \<Rightarrow> (Some (change_answer r), snd (hub_broadcast (pr_redis pr) send_ok uid (change_event domain r) n2))))
      | (_, n1) \<Rightarrow> (None, n1))"

definition apply_optimistic_list_change ::
  "'s processing \<Rightarrow> (conn \<Rightarrow> bool) \<Rightarrow> string \<Rightarrow> string \<Rightarrow> string list \<Rightarrow> pydict \<Rightarrow> string \<Rightarrow> pydict option \<Rightarrow> string \<Rightarrow> ('s, 'z) node_scheme
     \<Rightarrow> pydict option \<times> ('s, 'z) node_scheme" where
  "apply_optimistic_list_change pr send_ok uid job_type document_ids company_data action extra_data now n =
     (let domain = jc_domain (config_of job_type); company_id = dget_or company_data ''company_id'' (PStr []) in
      case package_get_domain_config DOMAIN_CONFIGS domain of
        Inl _ \<Rightarrow> (None, n)
      | Inr cfg \<Rightarrow>
          if \<not> is_optimistic cfg action then (None, n)
          else case get_initial_status cfg action of
            Some (c # cs) \<Rightarrow>
              let n1 = snd (on_srv (invalidate_page_state (pr_redis pr) uid (py_str (pr_show pr) company_id) (Some domain)) n) in
              change_page pr send_ok uid (business_cache_key (pr_show pr) uid company_id domain) document_ids domain (c # cs) action extra_data now n1
          | _ \<Rightarrow> (None, n))"

subsection \<open>Notifications and documents\<close>

fun notify_jobs ::
  "'s processing \<Rightarrow> (conn \<Rightarrow> bool) \<Rightarrow> string \<Rightarrow> string \<Rightarrow> pyval list \<Rightarrow> string \<Rightarrow> process_ids \<Rightarrow> pyval \<Rightarrow> pyval \<Rightarrow> string \<Rightarrow> nat \<Rightarrow> pyval list \<Rightarrow> ('s, 'z) node_scheme
     \<Rightarrow> string list \<times> ('s, 'z) node_scheme" where
  "notify_jobs pr send_ok uid job_type jobs batch_id ids company_id company_name now index [] n = ([], n)"
| "notify_jobs pr send_ok uid job_type jobs batch_id ids company_id company_name now index (j # js) n =
     (case batch_notification job_type jobs batch_id (''aws_instance_id_'' @ pi_aws ids) (''klk_google_pubsub_id_'' @ pi_pubsub ids) company_id company_name now index j of
        Inl _ \<Rightarrow> ([], n)
      | Inr (upsert_key, fb) \<Rightarrow>
          let path = ''clients/'' @ uid @ ''/notifications'' in
          case (if upsert_key = ''job_id'' then add_or_update_job_by_job_id (pr_jobs pr) send_ok path fb now n else add_or_update_job_by_file_id (pr_jobs pr) send_ok path fb now n) of
            (written, n1) \<Rightarrow>
              let made = (case written of Some (c # cs) \<Rightarrow> [c # cs] | _ \<Rightarrow> []);
                  n2 = foldl (\<lambda>n i. run_scheduled (pr_redis pr) send_ok (publish_on (\<lambda>h. publish_notification_new (pr_redis pr) h uid
                         (batch_event (pr_show pr) job_type batch_id (''aws_instance_id_'' @ pi_aws ids) (''klk_google_pubsub_id_'' @ pi_pubsub ids) i (dset fb ''timestamp'' (PStr now)))) ([], n)))
                       n1 made in
              if job_type = ''bankbookeeper'' then (made, n2)
              else case notify_jobs pr send_ok uid job_type jobs batch_id ids company_id company_name now (Suc index) js n2 of (rest, n3) \<Rightarrow> (made @ rest, n3))"

definition create_batch_notifications ::
  "'s processing \<Rightarrow> (conn \<Rightarrow> bool) \<Rightarrow> string \<Rightarrow> string \<Rightarrow> pyval list \<Rightarrow> string \<Rightarrow> process_ids \<Rightarrow> pyval \<Rightarrow> pyval \<Rightarrow> string \<Rightarrow> ('s, 'z) node_scheme
     \<Rightarrow> string list \<times> ('s, 'z) node_scheme" where
  "create_batch_notifications pr send_ok uid job_type jobs batch_id ids company_id company_name now =
     notify_jobs pr send_ok uid job_type jobs batch_id ids company_id company_name now 1 jobs"

definition persist_jobs_to_task_manager ::
  "'s processing \<Rightarrow> (conn \<Rightarrow> bool) \<Rightarrow> string \<Rightarrow> string \<Rightarrow> string list \<Rightarrow> pydict \<Rightarrow> string \<Rightarrow> pydict \<Rightarrow> pyval list \<Rightarrow> string \<Rightarrow> ('s, 'z) node_scheme
     \<Rightarrow> ('s, 'z) node_scheme" where
  "persist_jobs_to_task_manager pr send_ok uid job_type document_ids company_data batch_id payload jobs now n =
     (case task_documents (pr_show pr) job_type document_ids company_data batch_id payload jobs of
        Inl _ \<Rightarrow> n
      | Inr ds \<Rightarrow> foldl (\<lambda>n d. snd (add_or_update_job_by_job_id (pr_jobs pr) send_ok (''clients/'' @ uid @ ''/task_manager'') d now n)) n ds)"

subsection \<open>Starting a batch\<close>

definition find_mandate :: "'s processing \<Rightarrow> string \<Rightarrow> pyval \<Rightarrow> pydict \<Rightarrow> ('s, 'z) node_scheme \<Rightarrow> (string \<times> pydict) result \<times> ('s, 'z) node_scheme" where
  "find_mandate pr uid company_id company_data n =
     (case as_str (dget_or company_data ''mandate_path'' (PStr [])) of
        Inl e \<Rightarrow> (Inl e, n)
      | Inr mandate_path \<Rightarrow>
          if mandate_path = [] \<and> uid \<noteq> [] \<and> truthy company_id
          then (case on_srv (pr_mandates pr uid) n of
                  (Inl _, n1) \<Rightarrow> (Inr ([], company_data), n1)
                | (Inr mandates, n1) \<Rightarrow>
                    (let p = (case py_iter (py_or mandates (PList [])) of Inl _ \<Rightarrow> [] | Inr ms \<Rightarrow> recover_mandate company_id ms) in
                     (Inr (p, if p \<noteq> [] then dset company_data ''mandate_path'' (PStr p) else company_data), n1)))
          else (Inr (mandate_path, company_data), n))"

definition balance_refusal :: "BalanceCheckResult \<Rightarrow> pydict" where
  "balance_refusal r =
     [(''success'', PBool False), (''error'', PStr ''insufficient_balance''), (''code'', PStr ''INSUFFICIENT_BALANCE''),
      (''balance_info'', PDict [(''currentBalance'', PNum (current_balance r)), (''requiredBalance'', PNum (required_balance r)), (''missingAmount'', PNum (missing_amount r))]),
      (''message'', PStr (bcr_message r))]"

definition job_cost :: "string \<Rightarrow> nat \<Rightarrow> rat" where
  "job_cost job_type k = of_nat k * (case map_of COST_PER_ITEM job_type of Some c \<Rightarrow> c | None \<Rightarrow> 1 / 2)"

definition refuse_for_balance :: "'s processing \<Rightarrow> string \<Rightarrow> string \<Rightarrow> string \<Rightarrow> nat \<Rightarrow> ('s, 'z) node_scheme \<Rightarrow> pydict option \<times> ('s, 'z) node_scheme" where
  "refuse_for_balance pr uid job_type mandate_path k n =
     (if 0 < job_cost job_type k
      then (case on_srv (check_balance (pr_redis pr) (pr_billing pr (n_srv n)) uid (Some mandate_path) (job_cost job_type k) (''job_'' @ job_type)) n of
              (r, n1) \<Rightarrow> (if sufficient r then None else Some (balance_refusal r), n1))
      else (None, n))"

definition heartbeat_key :: "string \<Rightarrow> string" where
  "heartbeat_key job_type = ''worker:'' @ active_type job_type @ '':heartbeat''"

definition dispatch_batch :: "'s processing \<Rightarrow> string \<Rightarrow> string \<Rightarrow> pydict \<Rightarrow> ('s, 'z) node_scheme \<Rightarrow> (string \<times> pyval) result \<times> ('s, 'z) node_scheme" where
  "dispatch_batch pr job_type batch_id worker_data n =
     (case on_srv (ensure_worker_running (pr_ecs pr) job_type) n of
        (w, n1) \<Rightarrow>
          let ecs_starting = (case w of Inr st \<Rightarrow> dget st ''status'' \<in> {PStr ''starting'', PStr ''provisioning''} | Inl _ \<Rightarrow> False);
              waits = (''active_jobs_pending'', PStr batch_id) in
          if ecs_starting then (Inr (''ecs_starting'', PStr batch_id), n1)
          else (case on_srv (r_get (pr_redis pr) (heartbeat_key job_type)) n1 of
                  (hb, n2) \<Rightarrow>
                    if (case hb of Inr v \<Rightarrow> \<not> some_data v | Inl _ \<Rightarrow> False) then (Inr waits, n2)
                    else (case on_srv (pr_post pr (process_url (pr_source pr) job_type) worker_data) n2 of
                            (Answered st res, n3) \<Rightarrow>
                              (if st \<in> {200, 202} then (rbind (as_dict res) (\<lambda>d. Inr (''http'', dget_or d ''job_id'' (PStr batch_id))), n3) else (Inr waits, n3))
                          | (Unreachable, n3) \<Rightarrow> (Inr waits, n3)
                          | (Http_raised e, n3) \<Rightarrow> (Inl e, n3))))"

definition process_answer :: "pyval \<Rightarrow> string \<Rightarrow> nat \<Rightarrow> string \<Rightarrow> pydict option \<Rightarrow> pydict" where
  "process_answer job_id batch_id k dispatch_method list_change =
     [(''success'', PBool True), (''job_id'', job_id), (''batch_id'', PStr batch_id), (''processed_count'', PNum (of_nat k)), (''dispatch_method'', PStr dispatch_method),
      (''message'', PStr (''Processing started for '' @ nat_str k @ '' documents'')), (''list_change'', case list_change of Some d \<Rightarrow> PDict d | None \<Rightarrow> PNone)]"

definition internal_error :: "'s processing \<Rightarrow> exn \<Rightarrow> pydict" where
  "internal_error pr e = [(''success'', PBool False), (''error'', PStr (pr_error pr e)), (''code'', PStr ''INTERNAL_ERROR'')]"

text \<open>What follows the dispatch, whether or not it reached a worker.\<close>

definition announce_batch ::
  "'s processing \<Rightarrow> (conn \<Rightarrow> bool) \<Rightarrow> string \<Rightarrow> string \<Rightarrow> pydict \<Rightarrow> pydict \<Rightarrow> pyval \<Rightarrow> string list \<Rightarrow> pyval list \<Rightarrow> string \<Rightarrow> process_ids \<Rightarrow> string \<Rightarrow> ('s, 'z) node_scheme
     \<Rightarrow> pydict option \<times> ('s, 'z) node_scheme" where
  "announce_batch pr send_ok uid job_type payload company_data company_id document_ids jobs batch_id ids now n =
     (let n1 = snd (create_batch_notifications pr send_ok uid job_type jobs batch_id ids company_id (dget_or company_data ''company_name'' company_id) now n);
          n2 = persist_jobs_to_task_manager pr send_ok uid job_type document_ids company_data batch_id payload jobs now n1 in
      apply_optimistic_list_change pr send_ok uid job_type document_ids company_data ''process''
        (if job_type = ''bankbookeeper'' then Some [(''batch_id'', PStr batch_id)] else None) now n2)"

definition start_batch ::
  "'s processing \<Rightarrow> (conn \<Rightarrow> bool) \<Rightarrow> string \<Rightarrow> string \<Rightarrow> pydict \<Rightarrow> pydict \<Rightarrow> pyval \<Rightarrow> string \<Rightarrow> string list \<Rightarrow> pydict option \<Rightarrow> process_ids \<Rightarrow> string \<Rightarrow> ('s, 'z) node_scheme
     \<Rightarrow> pydict result \<times> ('s, 'z) node_scheme" where
  "start_batch pr send_ok uid job_type payload company_data company_id mandate_path document_ids traceability ids now n =
     (case (as_str (py_or (dget payload ''batch_id'') (PStr (''batch_'' @ pi_batch ids))),
            on_srv (jobs_data_for (pr_redis pr) (pr_show pr) uid job_type payload company_data company_id document_ids) n) of
        (Inl e, n1) \<Rightarrow> (Inl e, n)
      | (Inr batch_id, (Inl e, n1)) \<Rightarrow> (Inl e, n1)
      | (Inr batch_id, (Inr jobs, n1)) \<Rightarrow>
          (case batch_payload uid job_type payload company_data (py_str (pr_show pr) company_id) jobs batch_id (''klk_google_pubsub_id_'' @ pi_pubsub ids) mandate_path traceability of
             Inl e \<Rightarrow> (Inl e, n1)
           | Inr worker_data \<Rightarrow>
               let n2 = snd (on_srv (register_job (pr_fs pr) mandate_path worker_data batch_id (active_type job_type) now) n1) in
               (case dispatch_batch pr job_type batch_id worker_data n2 of
                  (Inl e, n3) \<Rightarrow> (Inl e, n3)
                | (Inr (dispatch_method, job_id), n3) \<Rightarrow>
                    (case announce_batch pr send_ok uid job_type payload company_data company_id document_ids jobs batch_id ids now n3 of
                       (list_change, n4) \<Rightarrow> (Inr (process_answer job_id batch_id (length document_ids) dispatch_method list_change), n4)))))"

definition handle_job_process ::
  "'s processing \<Rightarrow> (conn \<Rightarrow> bool) \<Rightarrow> string \<Rightarrow> string \<Rightarrow> pydict \<Rightarrow> pydict \<Rightarrow> pydict option \<Rightarrow> process_ids \<Rightarrow> string \<Rightarrow> ('s, 'z) node_scheme
     \<Rightarrow> pydict result \<times> ('s, 'z) node_scheme" where
  "handle_job_process pr send_ok uid job_type payload company_data traceability ids now n =
     (let company_id = company_id_of payload company_data; company1 = enriched_company payload company_data in
      case requested_ids (pr_show pr) job_type payload of
        Inl e \<Rightarrow> (Inl e, n)
      | Inr document_ids \<Rightarrow>
          (case find_mandate pr uid company_id company1 n of
             (Inl e, n1) \<Rightarrow> (Inl e, n1)
           | (Inr (mandate_path, company2), n1) \<Rightarrow>
               if document_ids = [] then (Inr [(''success'', PBool False), (''error'', PStr ''No documents selected''), (''code'', PStr ''NO_DOCUMENTS'')], n1)
               else (case refuse_for_balance pr uid job_type mandate_path (length document_ids) n1 of
                       (Some refusal, n2) \<Rightarrow> (Inr refusal, n2)
                     | (None, n2) \<Rightarrow>
                         (case start_batch pr send_ok uid job_type payload company2 company_id mandate_path document_ids traceability ids now n2 of
                            (Inl e, n3) \<Rightarrow> (Inr (internal_error pr e), n3)
                          | (Inr res, n3) \<Rightarrow> (Inr res, n3)))))"

section \<open>The cached page\<close>

text \<open>A cached value the handler and the subscriber read alike: the page inside a wrapper with a version, or the page itself.\<close>

definition holds_page :: "pydict \<Rightarrow> pydict \<Rightarrow> bool" where
  "holds_page c d \<longleftrightarrow> (is_wrapped c \<and> map_of c ''data'' = Some (PDict d)) \<or> (map_of c ''data'' = None \<and> map_of c ''documents'' = None \<and> c = d)"

lemma holds_page_read:
  assumes "holds_page c d"
  shows "documents_section c = PDict d" and "unwrap c = Inr d"
  using assms by (auto simp: holds_page_def documents_section_def dget_or_def unwrap_def is_wrapped_def dget_def as_dict_def)

lemma holds_page_put:
  assumes "holds_page c d" and "map_of d' ''counts'' = Some v" and "map_of d' ''data'' = map_of d ''data''" and "map_of d' ''documents'' = map_of d ''documents''"
  shows "holds_page (put_documents c d' v) (dset d' ''counts'' v)"
proof -
  consider (wrapped) "is_wrapped c" "map_of c ''data'' = Some (PDict d)" | (plain) "map_of c ''data'' = None" "map_of c ''documents'' = None" "c = d"
    using assms(1) by (auto simp: holds_page_def)
  then show ?thesis
  proof cases
    case wrapped
    then show ?thesis using assms(2) by (simp add: holds_page_def put_documents_def is_wrapped_def map_of_dset)
  next
    case plain
    then show ?thesis using assms(3,4) by (simp add: holds_page_def put_documents_def map_of_dset)
  qed
qed

section \<open>What starting a batch leaves alone\<close>

text \<open>What writing the documents and announcing them keeps, the whole batch keeps.\<close>

lemma clients_path: "starts_with ''clients/'' (''clients/'' @ p)"
  by simp

lemma notify_keeps:
  fixes n :: "('s, 'z) node_scheme"
  assumes w: "\<And>fld d (n :: ('s, 'z) node_scheme). I (snd (add_or_update_job (pr_jobs pr) send_ok fld (''clients/'' @ uid @ ''/notifications'') d now n)) = I n"
    and p: "\<And>d (n :: ('s, 'z) node_scheme). I (run_scheduled (pr_redis pr) send_ok (publish_on (\<lambda>h. publish_notification_new (pr_redis pr) h uid d) ([], n))) = I n"
  shows "I (snd (notify_jobs pr send_ok uid jt jobs b ids cid cname now i js n)) = I n"
proof (induction js arbitrary: i n)
  case (Cons j js)
  have f: "I (foldl (\<lambda>n i. run_scheduled (pr_redis pr) send_ok (publish_on (\<lambda>h. publish_notification_new (pr_redis pr) h uid (ev i)) ([], n))) n is) = I n"
    for ev "is" and n :: "('s, 'z) node_scheme"
    by (induction "is" arbitrary: n) (simp_all only: foldl.simps p)
  show ?case
  proof (cases "batch_notification jt jobs b (''aws_instance_id_'' @ pi_aws ids) (''klk_google_pubsub_id_'' @ pi_pubsub ids) cid cname now i j")
    case (Inr p)
    obtain k fb where p: "p = (k, fb)" by force
    obtain wr n1 where 1: "(if k = ''job_id'' then add_or_update_job_by_job_id (pr_jobs pr) send_ok (''clients/'' @ uid @ ''/notifications'') fb now n
      else add_or_update_job_by_file_id (pr_jobs pr) send_ok (''clients/'' @ uid @ ''/notifications'') fb now n) = (wr, n1)" by force
    have "I (snd (if k = ''job_id'' then add_or_update_job_by_job_id (pr_jobs pr) send_ok (''clients/'' @ uid @ ''/notifications'') fb now n
      else add_or_update_job_by_file_id (pr_jobs pr) send_ok (''clients/'' @ uid @ ''/notifications'') fb now n)) = I n"
      by (simp only: add_or_update_job_by_job_id_def add_or_update_job_by_file_id_def w split: if_split) simp
    then have g1: "I n1 = I n" unfolding 1 snd_conv .
    define made where "made = (case wr of Some (c # cs) \<Rightarrow> [c # cs] | _ \<Rightarrow> [])"
    define n2 where "n2 = foldl (\<lambda>n i. run_scheduled (pr_redis pr) send_ok (publish_on (\<lambda>h. publish_notification_new (pr_redis pr) h uid
      (batch_event (pr_show pr) jt b (''aws_instance_id_'' @ pi_aws ids) (''klk_google_pubsub_id_'' @ pi_pubsub ids) i (dset fb ''timestamp'' (PStr now)))) ([], n))) n1 made"
    obtain rest n3 where 3: "notify_jobs pr send_ok uid jt jobs b ids cid cname now (Suc i) js n2 = (rest, n3)" by force
    have g2: "I n2 = I n" unfolding n2_def f by (rule g1)
    have g3: "I n3 = I n" using Cons.IH [of "Suc i" n2] g2 by (simp only: 3 snd_conv)
    have "notify_jobs pr send_ok uid jt jobs b ids cid cname now i (j # js) n = (if jt = ''bankbookeeper'' then (made, n2) else (made @ rest, n3))"
      unfolding notify_jobs.simps Inr p sum.case prod.case Let_def 1 made_def [symmetric] n2_def [symmetric] 3 ..
    then have "snd (notify_jobs pr send_ok uid jt jobs b ids cid cname now i (j # js) n) \<in> {n2, n3}" by (simp only: split: if_split) simp
    then show ?thesis using g2 g3 by (elim insertE) (simp_all only: empty_iff)
  qed simp
qed simp

lemma persist_keeps:
  assumes "\<And>fld d n. I (snd (add_or_update_job (pr_jobs pr) send_ok fld (''clients/'' @ uid @ ''/task_manager'') d now n)) = I n"
  shows "I (persist_jobs_to_task_manager pr send_ok uid jt ids company b payload jobs now n) = I n"
proof -
  have "I (foldl (\<lambda>n d. snd (add_or_update_job_by_job_id (pr_jobs pr) send_ok (''clients/'' @ uid @ ''/task_manager'') d now n)) n ds) = I n" for ds
    by (induction ds arbitrary: n) (simp_all only: foldl.simps assms add_or_update_job_by_job_id_def)
  then show ?thesis by (simp add: persist_jobs_to_task_manager_def split: sum.split)
qed

context frame
begin

lemma check_balance_frame:
  assumes "balance_key uid \<in> K"
  shows "preserves g (check_balance rc fb uid m cost op)"
  unfolding preserves_def
proof
  fix s
  have ttl: "0 < TTL_USER_BALANCE" by (simp add: TTL_USER_BALANCE_def)
  have 1: "g (snd (get_cached_balance rc uid s)) = g s" for s
    using preservesD [OF get_frame, of "balance_key uid" s] by (auto simp: get_cached_balance_def split: prod.splits sum.splits option.splits)
  have 2: "g (update_balance_cache rc uid d s) = g s" for d s
    using preservesD [OF setex_frame [OF assms ttl]] by (simp add: update_balance_cache_def)
  show "g (snd (check_balance rc fb uid m cost op s)) = g s"
    using 1 [of s] 2 by (auto simp: check_balance_def Let_def split: prod.split sum.split)
qed

end

text \<open>An observation that does not depend on the container service, the call to the worker, the cached balance and the cached state of pages.\<close>

locale start_frame = bystander "pr_jobs pr" g K
  for pr :: "'s processing" and g :: "'s \<Rightarrow> 'x" and K :: "string set" +
  assumes ecs_frame: "preserves g (ecs_client (pr_ecs pr))" "preserves g (describe_service (pr_ecs pr) nm)" "preserves g (update_service (pr_ecs pr) nm k)"
    and post_frame: "preserves g (pr_post pr url wd)"
    and balance_keys: "balance_key uid \<in> K"
    and state_frame: "preserves g (r_delete (pr_redis pr) [ps_build_key uid cid page])"
begin

lemma on_srv_frame: "preserves g f \<Longrightarrow> g (n_srv (snd (on_srv f n))) = g (n_srv n)"
  using preservesD [of g f] by (simp add: on_srv_def split: prod.split) (metis snd_conv)

lemma refuse_frame: "g (n_srv (snd (refuse_for_balance pr uid jt m k n))) = g (n_srv n)"
proof -
  obtain r n1 where 1: "on_srv (check_balance (pr_redis pr) (pr_billing pr (n_srv n)) uid (Some m) (job_cost jt k) (''job_'' @ jt)) n = (r, n1)" by force
  have "g (n_srv n1) = g (n_srv n)" using on_srv_frame [OF check_balance_frame [OF balance_keys], where n = n] 1 by (metis snd_conv)
  then show ?thesis unfolding refuse_for_balance_def 1 by simp
qed

lemma documents_frame: "preserves g (get_documents_from_cache (pr_redis pr) show uid cid dm ids)"
  unfolding preserves_def
proof
  fix s
  obtain r s1 where 1: "r_get (pr_redis pr) (business_cache_key show uid cid dm) s = (r, s1)" by force
  have "snd (get_documents_from_cache (pr_redis pr) show uid cid dm ids s) = s1" by (simp add: get_documents_from_cache_def 1 split: sum.split option.split)
  then show "g (snd (get_documents_from_cache (pr_redis pr) show uid cid dm ids s)) = g s" using preserves_eq [OF get_frame 1] by simp
qed

lemma jobs_data_frame: "preserves g (jobs_data_for (pr_redis pr) show uid jt payload company cid ids)"
  unfolding preserves_def
proof
  fix s
  obtain i s1 where 1: "get_documents_from_cache (pr_redis pr) show uid cid (jc_domain (config_of jt)) ids s = (i, s1)" by force
  show "g (snd (jobs_data_for (pr_redis pr) show uid jt payload company cid ids s)) = g s"
    using preserves_eq [OF documents_frame 1] by (simp add: jobs_data_for_def 1)
qed

lemma worker_frame: "preserves g (ensure_worker_running (pr_ecs pr) jt)"
  unfolding ensure_worker_running_def by (intro frames ecs_frame)

lemma dispatch_frame: "g (n_srv (snd (dispatch_batch pr jt b wd n))) = g (n_srv n)"
proof -
  obtain w n1 where 1: "on_srv (ensure_worker_running (pr_ecs pr) jt) n = (w, n1)" by force
  obtain hb n2 where 2: "on_srv (r_get (pr_redis pr) (heartbeat_key jt)) n1 = (hb, n2)" by force
  obtain a n3 where 3: "on_srv (pr_post pr (process_url (pr_source pr) jt) wd) n2 = (a, n3)" by force
  have "g (n_srv n1) = g (n_srv n)" "g (n_srv n2) = g (n_srv n1)" "g (n_srv n3) = g (n_srv n2)"
    using on_srv_frame [OF worker_frame, of jt n] on_srv_frame [OF get_frame, of "heartbeat_key jt" n1] on_srv_frame [OF post_frame, of _ wd n2] 1 2 3 by (metis snd_conv)+
  then show ?thesis by (simp add: dispatch_batch_def 1 2 3 Let_def split: http_answer.split)
qed

lemma publish_new_frame:
  "g (n_srv (run_scheduled (pr_redis pr) send_ok (publish_on (\<lambda>h. publish_notification_new (pr_redis pr) h uid d) ([], n)))) = g (n_srv n)"
proof -
  let ?p = "\<lambda>h. publish_notification_event (pr_redis pr) h uid ''new'' d False"
  have "plain_broadcasts (fst (publish_on ?p ([], n)))" by (rule publish_on_plain) (simp_all add: publish_user_plain)
  then show ?thesis unfolding publish_notification_new_def
    using run_scheduled_srv publish_on_srv [where g = g and p = ?p and bn = "([], n)"] publish_event_bystander by (metis snd_conv)
qed

lemma notify_frame: "g (n_srv (snd (notify_jobs pr send_ok uid jt jobs b ids cid cname now i js n))) = g (n_srv n)"
  by (rule notify_keeps [where I = "\<lambda>n. g (n_srv n)"]) (simp_all only: publish_new_frame add_or_update_bystander clients_path)

lemma persist_frame: "g (n_srv (persist_jobs_to_task_manager pr send_ok uid jt ids company b payload jobs now n)) = g (n_srv n)"
  by (rule persist_keeps [where I = "\<lambda>n. g (n_srv n)"]) (simp only: add_or_update_bystander clients_path)

lemma page_state_frame: "dm \<noteq> [] \<Longrightarrow> g (n_srv (snd (on_srv (invalidate_page_state (pr_redis pr) uid cid (Some dm)) n))) = g (n_srv n)"
proof (rule on_srv_frame)
  assume "dm \<noteq> []"
  then show "preserves g (invalidate_page_state (pr_redis pr) uid cid (Some dm))"
    unfolding preserves_def invalidate_page_state_def
    using preservesD [OF state_frame] by (auto simp: given_def split: prod.split sum.split) (metis snd_conv)+
qed

end

section \<open>A request for documents\<close>

text \<open>The user has selected documents of the pages of the router or of the invoices; the company is known.\<close>

definition documents_request :: "string \<Rightarrow> pydict \<Rightarrow> string list \<Rightarrow> bool" where
  "documents_request jt payload ids \<longleftrightarrow> jt \<in> {''router'', ''apbookeeper''} \<and> ids \<noteq> [] \<and> distinct ids \<and> [] \<notin> set ids \<and> map_of payload ''document_ids'' = Some (PList (map PStr ids)) \<and>
     map_of payload ''jobs_data_prebuilt'' = None \<and> map_of payload ''jobs_data'' = None \<and> map_of payload ''settings'' = None \<and>
     list_all (\<lambda>k. case map_of payload k of Some (PDict d) \<Rightarrow> True | None \<Rightarrow> True | _ \<Rightarrow> False) [''document_instructions'', ''approval_states'', ''workflow_states'']"

definition known_company :: "pydict \<Rightarrow> string \<Rightarrow> string \<Rightarrow> bool" where
  "known_company company cid m \<longleftrightarrow> map_of company ''company_id'' = Some (PStr cid) \<and> cid \<noteq> [] \<and> map_of company ''mandate_path'' = Some (PStr m) \<and> m \<noteq> []"

lemma rmap_PStr [simp]: "rmap as_str (map PStr ids) = Inr ids"
  by (induction ids) simp_all

lemma requested_documents: "documents_request jt payload ids \<Longrightarrow> requested_ids show jt payload = Inr ids"
  by (auto simp: documents_request_def requested_ids_def dget_or_def Let_def)

lemma known_company_ids:
  assumes "known_company company cid m"
  shows "company_id_of payload company = PStr cid" and "enriched_company payload company = company" and "find_mandate pr uid v company n = (Inr (m, company), n)"
  using assms by (auto simp: known_company_def company_id_of_def enriched_company_def find_mandate_def dget_def dget_or_def py_or_def Let_def)

lemma get_dict_request:
  assumes "documents_request jt payload ids" and "k \<in> {''document_instructions'', ''approval_states'', ''workflow_states''}"
  obtains d where "get_dict payload k = Inr d"
proof -
  have "case map_of payload k of Some (PDict d) \<Rightarrow> True | None \<Rightarrow> True | _ \<Rightarrow> False" using assms by (auto simp: documents_request_def)
  then show thesis using that by (auto simp: get_dict_def dget_or_def as_dict_def split: option.splits pyval.splits)
qed

lemma jobs_data_documents:
  assumes "documents_request jt payload ids"
  obtains f s' where "jobs_data_for rc show uid jt payload company v ids s = (Inr (map (\<lambda>i. PDict (f i)) ids), s')" "\<And>i. dget (f i) ''job_id'' = PStr i"
proof -
  note gd = get_dict_request [OF assms]
  obtain di where di: "get_dict payload ''document_instructions'' = Inr di" using gd [of "''document_instructions''"] by auto
  obtain ap where ap: "get_dict payload ''approval_states'' = Inr ap" using gd [of "''approval_states''"] by auto
  obtain wf where wf: "get_dict payload ''workflow_states'' = Inr wf" using gd [of "''workflow_states''"] by auto
  obtain info s' where g: "get_documents_from_cache rc show uid v (jc_domain (config_of jt)) ids s = (info, s')" by force
  let ?f = "document_job show jt company info di ap wf"
  have j: "jt \<noteq> ''bankbookeeper''" "dget payload ''jobs_data_prebuilt'' = PNone" "dget payload ''jobs_data'' = PNone" using assms by (auto simp: documents_request_def dget_def)
  have "jobs_data_for rc show uid jt payload company v ids s = (Inr (map (\<lambda>i. PDict (?f i)) ids), s')"
    unfolding jobs_data_for_def j g document_jobs_def di ap wf using j(1) by simp
  moreover have "dget (?f i) ''job_id'' = PStr i" for i by (simp add: document_job_def Let_def dget_def)
  ultimately show thesis by (rule that)
qed

lemma queued_documents:
  assumes "distinct ids" and "[] \<notin> set ids" and "set ids \<inter> fst ` set a = {}" and "\<And>i. dget (f i) ''job_id'' = PStr i"
  shows "for_dicts (\<lambda>item a. Inr (in_queue a (Active_Jobs.first_of item ''job_id'' ''drive_file_id''))) (map (\<lambda>i. PDict (f i)) ids) a = Inr (a @ map (\<lambda>i. (i, PStr ''in_queue'')) ids)"
  using assms(1-3)
proof (induction ids arbitrary: a)
  case (Cons i ids)
  have new: "AList.update i v xs = xs @ [(i, v)]" if "i \<notin> fst ` set xs" for v :: pyval and xs
    using that by (induction xs) auto
  have "i \<noteq> []" "i \<notin> fst ` set a" using Cons.prems by auto
  then have "in_queue a (Active_Jobs.first_of (f i) ''job_id'' ''drive_file_id'') = a @ [(i, PStr ''in_queue'')]"
    by (simp add: in_queue_def Active_Jobs.first_of_def py_or_def assms(4) new)
  then show ?case using Cons by auto
qed simp

lemma batch_payload_documents:
  assumes "documents_request jt payload ids" and "\<And>i. dget (f i) ''job_id'' = PStr i"
  obtains wd where "batch_payload uid jt payload company ct (map (\<lambda>i. PDict (f i)) ids) b ps m tr = Inr wd"
    "extract_job_ids_from_payload wd (active_type jt) = Inr (map (\<lambda>i. (i, PStr ''in_queue'')) ids)"
proof -
  let ?jobs = "map (\<lambda>i. PDict (f i)) ids"
  have jt: "jt \<noteq> ''onboarding''" "jt \<noteq> ''bankbookeeper''" "active_type jt = jt" "jt = ''router'' \<or> jt = ''apbookeeper''" using assms(1) by (auto simp: documents_request_def type_eval)
  have "dget payload ''settings'' = PNone" using assms(1) by (simp add: documents_request_def dget_def)
  then have "\<exists>ms. communication_modes payload company = Inr ms" by (simp add: communication_modes_def Let_def)
  then obtain ms where ms: "communication_modes payload company = Inr ms" by blast
  define p where "p = jobbeur_payload uid payload company ct ?jobs b ps m ms"
  define wd where "wd = (case tr of Some (t # ts) \<Rightarrow> dset p ''traceability'' (PDict (t # ts)) | _ \<Rightarrow> p)"
  have w: "batch_payload uid jt payload company ct ?jobs b ps m tr = Inr wd"
    unfolding batch_payload_def ms wd_def p_def using jt by (simp add: Let_def)
  have "map_of p ''jobs_data'' = Some (PList ?jobs)" by (cases ms) (simp add: p_def jobbeur_payload_def)
  then have "map_of wd ''jobs_data'' = Some (PList ?jobs)" by (simp add: wd_def map_of_dset split: option.split list.split)
  then have j: "dget_or wd ''jobs_data'' (PList []) = PList ?jobs" by (simp add: dget_or_def)
  have "distinct ids" "[] \<notin> set ids" using assms(1) by (simp_all add: documents_request_def)
  then have "extract_job_ids_from_payload wd jt = Inr (map (\<lambda>i. (i, PStr ''in_queue'')) ids)"
    unfolding extract_job_ids_from_payload_def j Let_def for_items_def py_iter.simps rbind_simps using jt queued_documents [of ids "[]" f] assms(2) by auto
  then show thesis using w jt(3) that by simp
qed

section \<open>The services of the handler\<close>

lemma register_preserves:
  assumes "\<And>c i. preserves g (f_get fs c i)" and "\<And>c i d. preserves g (f_set fs c i d)" and "\<And>c f v. preserves g (f_where fs c f v)"
  shows "preserves g (register_job fs m data k jt now)"
proof -
  have 1: "preserves g (register_job_transaction fs m k data jt now)"
    unfolding register_job_transaction_def Let_def by (intro preserves_sbind preserves_sret preserves_if assms)
  have "preserves g (\<lambda>s. case f_get fs c i s of (_, s') \<Rightarrow> (Inr r, s'))" for c i and r :: register_result
    using preserves_map [OF assms(1), of "\<lambda>_. Inr r" c i] by (simp add: case_prod_beta)
  then show ?thesis unfolding register_job_def by (intro preserves_stry preserves_sbind 1)
qed

text \<open>Keys that starting a batch may write: profiles, cached balances and cached states of pages.\<close>

definition ordinary_key :: "string \<Rightarrow> bool" where
  "ordinary_key k \<longleftrightarrow> k \<notin> range build_user_profile_key \<and> k \<notin> range balance_key \<and> (\<forall>uid cid p. k \<noteq> ps_build_key uid cid p)"

lemma ordinary_keys: "ordinary_key (build_business_key uid cid dm None)" "ordinary_key (page_key uid)" "ordinary_key (build_user_selected_company_key uid)"
proof -
  have b: "hd (balance_key u) = CHR ''u''" "last (balance_key u) = CHR ''e''" "hd (ps_build_key u c p) = CHR ''p''" "take 6 (ps_build_key u c p) = ''page_s''" for u c p
    by (simp_all add: balance_key_def ps_build_key_def)
  have o: "k \<notin> range build_user_profile_key \<Longrightarrow> hd k \<noteq> CHR ''u'' \<or> last k \<noteq> CHR ''e'' \<Longrightarrow> hd k \<noteq> CHR ''p'' \<or> take 6 k \<noteq> ''page_s'' \<Longrightarrow> ordinary_key k" for k
    using b by (auto simp: ordinary_key_def)
  show "ordinary_key (build_business_key uid cid dm None)" by (rule o [OF not_profile(1)]) (simp_all add: build_business_key_def)
  show "ordinary_key (page_key uid)" by (rule o [OF not_profile(2)]) (simp_all add: page_key_def)
  show "ordinary_key (build_user_selected_company_key uid)" by (rule o [OF not_profile(3)]) (simp_all add: build_user_selected_company_key_def)
qed

locale processing_services = job_services "pr_jobs pr" view tick docs out
  for pr :: "'s processing" and view :: "'s \<Rightarrow> rview" and tick :: "nat \<Rightarrow> 's \<Rightarrow> 's" and docs :: "'s \<Rightarrow> fview" and out :: "'s \<Rightarrow> (string \<times> text_val) list" +
  assumes ecs_quiet: "preserves (\<lambda>s. (view s, docs s)) (ecs_client (pr_ecs pr))" "preserves (\<lambda>s. (view s, docs s)) (describe_service (pr_ecs pr) nm)"
      "preserves (\<lambda>s. (view s, docs s)) (update_service (pr_ecs pr) nm k)"
    and post_quiet: "preserves (\<lambda>s. (view s, docs s)) (pr_post pr url wd)"
    and post_answers: "fst (pr_post pr url wd s) \<noteq> Http_raised e" "fst (pr_post pr url wd s) = Answered st v \<Longrightarrow> st \<in> {200, 202} \<Longrightarrow> \<exists>d. v = PDict d"
    and delete_docs: "preserves docs (r_delete (pr_redis pr) ks)"
begin

lemma key_start: "ordinary_key k \<Longrightarrow> start_frame pr (\<lambda>s. view s k) (- {k})"
proof (intro start_frame.intro start_frame_axioms.intro)
  assume k: "ordinary_key k"
  then show "bystander (pr_jobs pr) (\<lambda>s. view s k) (- {k})" by (intro key_bystander) (simp add: ordinary_key_def)
  show "balance_key uid \<in> - {k}" for uid using k by (auto simp: ordinary_key_def)
  show "preserves (\<lambda>s. view s k) (r_delete (pr_redis pr) [ps_build_key uid cid page])" for uid cid page
    unfolding preserves_def
  proof
    fix s
    have "ps_build_key uid cid page \<noteq> k" using k unfolding ordinary_key_def by metis
    then show "view (snd (r_delete (pr_redis pr) [ps_build_key uid cid page] s)) k = view s k" using delete_ok [of "[ps_build_key uid cid page]" s] delete_law by force
  qed
qed (use ecs_quiet post_quiet in \<open>simp_all add: preserves_def\<close>)

lemma col_start: "\<not> starts_with ''clients/'' c \<Longrightarrow> start_frame pr (\<lambda>s. docs s c) UNIV"
proof (intro start_frame.intro start_frame_axioms.intro)
  assume c: "\<not> starts_with ''clients/'' c"
  show "bystander (pr_jobs pr) (\<lambda>s. docs s c) UNIV" by (rule col_bystander [OF c])
qed (use ecs_quiet post_quiet delete_docs in \<open>simp_all add: preserves_def\<close>)

lemma register_view: "preserves view (register_job (pr_fs pr) m data k jt now)"
  by (rule register_preserves) (rule f_get_view f_set_view f_where_view)+

lemma dispatch_answers: "\<exists>meth j n'. dispatch_batch pr jt b wd n = (Inr (meth, j), n')"
proof -
  obtain w n1 where 1: "on_srv (ensure_worker_running (pr_ecs pr) jt) n = (w, n1)" by force
  obtain hb n2 where 2: "on_srv (r_get (pr_redis pr) (heartbeat_key jt)) n1 = (hb, n2)" by force
  obtain a n3 where 3: "on_srv (pr_post pr (process_url (pr_source pr) jt) wd) n2 = (a, n3)" by force
  have a: "fst (pr_post pr (process_url (pr_source pr) jt) wd (n_srv n2)) = a" using 3 by (auto simp: on_srv_def split: prod.splits)
  show ?thesis
  proof (cases a)
    case (Answered st v)
    then show ?thesis using post_answers(2) [OF a [unfolded Answered]] by (auto simp: dispatch_batch_def 1 2 3 Let_def)
  next
    case (Http_raised e)
    then show ?thesis using post_answers(1) a by metis
  qed (auto simp: dispatch_batch_def 1 2 3 Let_def)
qed

end

text \<open>The page state of bank transactions is stored under \<open>banking\<close>; the name of the domain is none the manager knows, so it stays.\<close>

lemma bank_state_kept: "invalidate_page_state rc uid cid (Some (jc_domain (config_of ''bankbookeeper''))) s = (False, s)"
  by (simp add: invalidate_page_state_def given_def validate_page_def VALID_PAGES_def config_eval)

section \<open>The browser during a start\<close>

lemma on_srv_hub [simp]: "n_hub (snd (on_srv f n)) = n_hub n"
  by (simp add: on_srv_def split: prod.split)

lemma publish_new_hub:
  assumes "\<And>c. send_ok c"
  shows "n_hub (run_scheduled rc send_ok (publish_on (\<lambda>h. publish_notification_new rc h uid d) ([], n))) = n_hub n"
proof -
  let ?p = "\<lambda>h. publish_notification_event rc h uid ''new'' d False"
  have "plain_broadcasts (fst (publish_on ?p ([], n)))" by (rule publish_on_plain) (simp_all add: publish_user_plain)
  from run_scheduled_hub [OF this assms, of rc] show ?thesis by (simp add: publish_notification_new_def publish_on_def split: prod.split)
qed

lemma dispatch_hub: "n_hub (snd (dispatch_batch pr jt b wd n)) = n_hub n"
proof -
  obtain w n1 where 1: "on_srv (ensure_worker_running (pr_ecs pr) jt) n = (w, n1)" by force
  obtain hb n2 where 2: "on_srv (r_get (pr_redis pr) (heartbeat_key jt)) n1 = (hb, n2)" by force
  obtain a n3 where 3: "on_srv (pr_post pr (process_url (pr_source pr) jt) wd) n2 = (a, n3)" by force
  have "n_hub n1 = n_hub n" "n_hub n2 = n_hub n1" "n_hub n3 = n_hub n2" using 1 2 3 on_srv_hub by (metis snd_conv)+
  then show ?thesis by (simp add: dispatch_batch_def 1 2 3 Let_def split: http_answer.split)
qed

lemma refuse_hub: "n_hub (snd (refuse_for_balance pr uid jt m k n)) = n_hub n"
proof -
  obtain r n1 where 1: "on_srv (check_balance (pr_redis pr) (pr_billing pr (n_srv n)) uid (Some m) (job_cost jt k) (''job_'' @ jt)) n = (r, n1)" by force
  then have "n_hub n1 = n_hub n" using on_srv_hub by (metis snd_conv)
  then show ?thesis unfolding refuse_for_balance_def 1 by simp
qed

lemma announce_hub:
  assumes "\<And>c. send_ok c"
  shows "n_hub (snd (notify_jobs pr send_ok uid jt jobs b ids cid cname now i js n)) = n_hub n"
    and "n_hub (persist_jobs_to_task_manager pr send_ok uid jt docids company b payload jobs now n) = n_hub n"
  by (rule notify_keeps [where I = n_hub] persist_keeps [where I = n_hub]; simp only: add_or_update_hub publish_new_hub assms)+

lemma change_event_plain: "thread_key_of (normalize_message (change_event dm r)) = None"
proof -
  have "map_of (change_event dm r) ''channel'' = None" by (simp add: change_event_def)
  then have "thread_key_of (change_event dm r) = None" by (simp add: thread_key_of_def dget_or_def)
  then show ?thesis by (simp add: thread_key_normalize)
qed

section \<open>The page after a start\<close>

text \<open>The event lists the moved items.\<close>

lemma change_event_payload:
  assumes "map_of DOMAIN_CONFIGS dm = Some cfg" and "apply_status_change DOMAIN_CONFIGS dm c ids st a e now = (reg', c', r)"
  obtains p where "change_event dm r = [(''type'', PStr (dm @ ''.item_update'')), (''payload'', PDict p)]" "dget p ''items'' = PList (map PDict (items_moved r))"
    "dget p ''to_list'' = PStr (cls_get_list_for_status cfg (normalize st DEFAULT_STATUS))" "dget p ''new_status'' = PStr (new_status r)"
proof -
  obtain w where w: "lcr_ws_payload r = Some w" "wp_items w = items_moved r" "wp_to_list w = cls_get_list_for_status cfg (normalize st DEFAULT_STATUS)" "wp_new_status w = new_status r"
    using assms by (auto simp: apply_status_change_def get_domain_config_hit Let_def build_ws_payload_def split: prod.splits)
  show thesis using that [of "event_payload w"] w by (simp add: change_event_def event_payload_def dget_def)
qed

text \<open>The pages of documents and what starting does on them.\<close>

lemma document_domain:
  assumes "jt \<in> {''router'', ''apbookeeper''}"
  obtains cfg st where "map_of DOMAIN_CONFIGS (jc_domain (config_of jt)) = Some cfg" "package_get_domain_config DOMAIN_CONFIGS (jc_domain (config_of jt)) = Inr cfg"
    "is_optimistic cfg ''process''" "get_initial_status cfg ''process'' = Some st" "st \<noteq> []" "cls_get_list_for_status cfg (normalize (Some st) DEFAULT_STATUS) = ''in_process''"
    "normalize (Some st) DEFAULT_STATUS = ''in_queue''"
proof -
  have c: "map_of DOMAIN_CONFIGS (jc_domain (config_of jt)) = Some (if jt = ''router'' then RoutingDomainConfig else InvoicesDomainConfig)"
    using assms by (auto simp: config_eval DOMAIN_CONFIGS_def)
  let ?cfg = "if jt = ''router'' then RoutingDomainConfig else InvoicesDomainConfig"
  have st: "get_initial_status ?cfg ''process'' = Some ''in_queue''" "''in_queue'' \<noteq> []"
    by (simp_all add: get_initial_status_def RoutingDomainConfig_def InvoicesDomainConfig_def mk_action_def)
  have q: "normalize (Some ''in_queue'') DEFAULT_STATUS = ''in_queue''" by code_simp
  have "?cfg \<in> {RoutingDomainConfig, InvoicesDomainConfig, BankingDomainConfig}" by simp
  from job_workflow_lists [OF this] show thesis using that [OF c _ _ st _ q] c st(1) by (simp add: package_get_domain_config_def)
qed

text \<open>The selected items on the page, with the status they get.\<close>

definition moved_items :: "pydict \<Rightarrow> string list \<Rightarrow> string \<Rightarrow> string \<Rightarrow> item multiset" where
  "moved_items d ids st now = image_mset (\<lambda>it. update_item it st now None) (filter_mset (requested (map PStr ids)) (mset (page_items d)))"

definition started_page :: "pydict \<Rightarrow> string list \<Rightarrow> string \<Rightarrow> string \<Rightarrow> pydict \<Rightarrow> bool" where
  "started_page d ids st now d' \<longleftrightarrow>
     (\<forall>k \<in> set LISTS. mset (page_list d' k) = filter_mset (\<lambda>it. \<not> requested (map PStr ids) it) (mset (page_list d k)) +
        (if k = ''in_process'' then moved_items d ids st now else {#}))"

lemma started_page_lists:
  assumes "map_of DOMAIN_CONFIGS dm = Some cfg" and "cls_get_list_for_status cfg (normalize (Some st) DEFAULT_STATUS) = ''in_process''"
    and "wf_page d" and "wf_cache (page_cache d) LISTS" and "proper_request (page_cache d) LISTS (map PStr ids)"
    and "apply_status_change DOMAIN_CONFIGS dm (page_cache d) (map PStr ids) (Some st) (Some ''process'') None now = (reg', pc, r)"
    and "page_sim d0 d1 pc"
  shows "started_page d ids (new_status r) now (dset d1 ''counts'' v)" and "wf_page (dset d1 ''counts'' v)"
proof -
  let ?d = "dset d1 ''counts'' v"
  note cfg = domain_configs_contract [OF assms(1)] and names = domain_configs_lists [OF assms(1)]
  have img: "snd ` set (LIST_NAMES cfg) = set LISTS" using names by (metis set_map)
  note ref = list_assignment.apply_refines [OF cfg assms(1), unfolded names img, OF assms(4,5) _ assms(6)]
  have cnt: "dget_or ?d k w = dget_or d1 k w" if "k \<in> set LISTS" for k w using that by (auto simp: dget_or_def map_of_dset LISTS_def)
  have pl: "page_list ?d k = get_list pc k" "wf_list ?d k" if "k \<in> set LISTS" for k
    using page_sim_lists [OF assms(7) that] unfolding page_list_def wf_list_def cnt [OF that] by blast+
  show "started_page d ids (new_status r) now ?d"
    unfolding started_page_def moved_items_def
    using ref(3) list_change_success(3) [OF assms(1,6)] assms(2) by (simp add: pl keeps_ids_def all_items_page)
  obtain k where k: "k \<in> set LISTS" "map_of d k \<noteq> None" using assms(3) by (auto simp: wf_page_def list_ex_iff LISTS_eq)
  then have "List_Manager.lists pc k \<noteq> None" using change_keeps_lists [OF assms(1,6), of k] by (auto simp: page_cache_def)
  then have "map_of ?d k \<noteq> None" using page_simD(1) [OF assms(7) k(1)] by (auto simp: map_of_dset)
  then have "\<exists>k \<in> set LISTS. map_of ?d k \<noteq> None" using k(1) by blast
  then show "wf_page ?d" using pl(2) by (simp only: wf_page_def list_all_iff list_ex_iff LISTS_eq [symmetric]) blast
qed

section \<open>Starting documents\<close>

context processing_services
begin

lemma change_page_up:
  fixes n :: "('s, 'z) node_scheme"
  assumes "str_at (view (n_srv n)) key = Some (Json (PDict c))" and "holds_page c d" and "map_of DOMAIN_CONFIGS dm = Some cfg" and "\<And>c. send_ok c"
    and "page_apply_status_change (pr_error pr) DOMAIN_CONFIGS dm (map PStr ids) (Some st) (Some a) e now d = ((reg', r), d')" and "lcr_success r"
  obtains s' where "change_page pr send_ok uid key ids dm st a e now n =
      (Some (change_answer r), n\<lparr>n_srv := s', n_sent := n_sent n @ sent_to (n_hub n) uid (change_event dm r)\<rparr>)"
    "str_at (view s') key = Some (Json (PDict (put_documents c d' (counts_dict (lcr_counts r)))))" "\<forall>k. k \<noteq> key \<longrightarrow> view s' k = view (n_srv n) k"
    "docs s' = docs (n_srv n)"
proof -
  let ?v = "json_dumps (PDict (put_documents c d' (counts_dict (lcr_counts r))))"
  have sk: "str_key (view (n_srv n)) key" using assms(1) by (auto simp: str_at_def str_key_def split: option.splits rvalue.splits)
  obtain s1 where 1: "r_get (pr_redis pr) key (n_srv n) = (Inr (Some (Json (PDict c))), s1)" "view s1 = view (n_srv n)"
    using get_up [OF sk] assms(1) by metis
  obtain s2 where 2: "r_setex (pr_redis pr) key 1800 ?v s1 = (Inr (), s2)" "view s2 = (view s1)(key \<mapsto> (VStr ?v, Some 1800))" using setex_up [of 1800 key ?v s1] by auto
  have cd: "cached_documents (Json (PDict c)) = Inr (c, d)" by (simp add: cached_documents_def holds_page_read [OF assms(2)])
  have run: "change_page pr send_ok uid key ids dm st a e now n =
      (Some (change_answer r), n\<lparr>n_srv := s2, n_sent := n_sent n @ sent_to (n_hub n) uid (change_event dm r)\<rparr>)"
    unfolding change_page_def on_srv_def 1(1) using assms(5,6) 2(1) cd
    by (simp add: hub_broadcast_open [OF change_event_plain assms(4)] on_srv_def)
  have v: "str_at (view s2) key = Some (Json (PDict (put_documents c d' (counts_dict (lcr_counts r)))))" using 2(2) by (simp add: str_at_def json_dumps_def)
  have o: "\<forall>k. k \<noteq> key \<longrightarrow> view s2 k = view (n_srv n) k" using 1(2) 2(2) by simp
  have "docs s2 = docs (n_srv n)" using preserves_eq [OF get_docs 1(1)] preserves_eq [OF setex_docs 2(1)] by simp
  from that [OF run v o this] show thesis .
qed

lemma on_srv_run: "on_srv f n = (fst (f (n_srv n)), n\<lparr>n_srv := snd (f (n_srv n))\<rparr>)"
  by (simp add: on_srv_def split: prod.split)

lemma business_key_eq: "business_cache_key show uid (PStr cid) dm = build_business_key uid cid dm None"
  by (simp add: business_cache_key_def build_business_key_def py_str_def)

text \<open>The steps before the page changes: the batch is registered, the rest only concerns keys and documents of its own.\<close>

lemma process_steps:
  fixes n :: "('s, 'z) node_scheme"
  assumes "documents_request jt payload ids" and "known_company company cid m" and "fst (refuse_for_balance pr uid jt m (length ids) n) = None"
    and "py_or (dget payload ''batch_id'') (PStr (''batch_'' @ pi_batch pids)) = PStr b" and "\<And>c. send_ok c"
  obtains s1 wd s2 n3 meth j where
    "handle_job_process pr send_ok uid jt payload company tr pids now n =
       (case apply_optimistic_list_change pr send_ok uid jt ids company ''process'' None now n3 of (lc, n4) \<Rightarrow> (Inr (process_answer j b (length ids) meth lc), n4))"
    "snd (register_job (pr_fs pr) m wd b (active_type jt) now s1) = s2" "extract_job_ids_from_payload wd (active_type jt) = Inr (map (\<lambda>i. (i, PStr ''in_queue'')) ids)"
    "\<forall>k. ordinary_key k \<longrightarrow> view s1 k = view (n_srv n) k" "\<forall>c. \<not> starts_with ''clients/'' c \<longrightarrow> docs s1 c = docs (n_srv n) c"
    "\<forall>k. ordinary_key k \<longrightarrow> view (n_srv n3) k = view s2 k" "\<forall>c. \<not> starts_with ''clients/'' c \<longrightarrow> docs (n_srv n3) c = docs s2 c" "n_hub n3 = n_hub n"
proof -
  let ?ps = "''klk_google_pubsub_id_'' @ pi_pubsub pids"
  define n0 where "n0 = snd (refuse_for_balance pr uid jt m (length ids) n)"
  have ref: "refuse_for_balance pr uid jt m (length ids) n = (None, n0)" using assms(3) by (simp add: n0_def prod_eq_iff)
  obtain f s1 where jd: "jobs_data_for (pr_redis pr) (pr_show pr) uid jt payload company (PStr cid) ids (n_srv n0) = (Inr (map (\<lambda>i. PDict (f i)) ids), s1)" "\<And>i. dget (f i) ''job_id'' = PStr i"
    using jobs_data_documents [OF assms(1), of "pr_redis pr" "pr_show pr" uid company "PStr cid" "n_srv n0"] by blast
  let ?jobs = "map (\<lambda>i. PDict (f i)) ids"
  obtain wd where wd: "batch_payload uid jt payload company (py_str (pr_show pr) (PStr cid)) ?jobs b ?ps m tr = Inr wd"
    "extract_job_ids_from_payload wd (active_type jt) = Inr (map (\<lambda>i. (i, PStr ''in_queue'')) ids)" by (rule batch_payload_documents [OF assms(1) jd(2)])
  define s2 where "s2 = snd (register_job (pr_fs pr) m wd b (active_type jt) now s1)"
  define n2 where "n2 = n0\<lparr>n_srv := s2\<rparr>"
  obtain meth j n2' where dis: "dispatch_batch pr jt b wd n2 = (Inr (meth, j), n2')" using dispatch_answers by blast
  define n2a where "n2a = snd (create_batch_notifications pr send_ok uid jt ?jobs b pids (PStr cid) (dget_or company ''company_name'' (PStr cid)) now n2')"
  define n3 where "n3 = persist_jobs_to_task_manager pr send_ok uid jt ids company b payload ?jobs now n2a"
  have ids: "ids \<noteq> []" "jt \<noteq> ''bankbookeeper''" using assms(1) by (auto simp: documents_request_def)
  have jdn: "on_srv (jobs_data_for (pr_redis pr) (pr_show pr) uid jt payload company (PStr cid) ids) n0 = (Inr ?jobs, n0\<lparr>n_srv := s1\<rparr>)" by (simp add: on_srv_run jd(1))
  have reg: "snd (on_srv (register_job (pr_fs pr) m wd b (active_type jt) now) (n0\<lparr>n_srv := s1\<rparr>)) = n2" by (simp add: on_srv_run n2_def s2_def)
  have start: "start_batch pr send_ok uid jt payload company (PStr cid) m ids tr pids now n0 =
      (case apply_optimistic_list_change pr send_ok uid jt ids company ''process'' None now n3 of (lc, n4) \<Rightarrow> (Inr (process_answer j b (length ids) meth lc), n4))"
    unfolding start_batch_def assms(4) as_simps jdn prod.case sum.case wd(1) Let_def reg dis announce_batch_def n2a_def [symmetric] n3_def [symmetric] if_not_P [OF ids(2)] ..
  have run: "handle_job_process pr send_ok uid jt payload company tr pids now n =
      (case apply_optimistic_list_change pr send_ok uid jt ids company ''process'' None now n3 of (lc, n4) \<Rightarrow> (Inr (process_answer j b (length ids) meth lc), n4))"
    unfolding handle_job_process_def known_company_ids [OF assms(2)] requested_documents [OF assms(1)] Let_def sum.case prod.case ref start using ids(1) by (simp split: prod.split)
  have f1: "g s1 = g (n_srv n)" if "start_frame pr g K" for g :: "'s \<Rightarrow> 'y" and K
    using preserves_eq [OF start_frame.jobs_data_frame [OF that] jd(1)] start_frame.refuse_frame [OF that, of uid jt m "length ids" n] by (simp only: n0_def)
  have f3: "g (n_srv n3) = g s2" if "start_frame pr g K" for g :: "'s \<Rightarrow> 'y" and K
  proof -
    have "g (n_srv n2') = g (n_srv n2)" using start_frame.dispatch_frame [OF that, of jt b wd n2] by (simp only: dis snd_conv)
    moreover have "g (n_srv n2a) = g (n_srv n2')" unfolding n2a_def create_batch_notifications_def by (rule start_frame.notify_frame [OF that])
    moreover have "g (n_srv n3) = g (n_srv n2a)" unfolding n3_def by (rule start_frame.persist_frame [OF that])
    ultimately show ?thesis by (simp add: n2_def)
  qed
  have "n_hub n2' = n_hub n2" using dispatch_hub [of pr jt b wd n2] by (simp add: dis)
  then have "n_hub n2' = n_hub n" using refuse_hub [of pr uid jt m "length ids" n] by (simp add: n2_def n0_def)
  then have hub: "n_hub n3 = n_hub n" unfolding n3_def n2a_def create_batch_notifications_def by (simp only: announce_hub [OF assms(5)])
  show thesis
    by (rule that [OF run s2_def [symmetric] wd(2) _ _ _ _ hub]; intro allI impI; rule f1 [OF key_start] f1 [OF col_start] f3 [OF key_start] f3 [OF col_start])
qed

end

context processing_services
begin

text \<open>The whole start: the queue, the page, and what the browser depends on.\<close>

lemma process_documents:
  fixes n :: "('s, 'z) node_scheme"
  assumes "documents_request jt payload ids" and "known_company company cid m" and "fst (refuse_for_balance pr uid jt m (length ids) n) = None"
    and "py_or (dget payload ''batch_id'') (PStr (''batch_'' @ pi_batch pids)) = PStr b" and "\<And>c. send_ok c"
    and "queue_rel (docs (n_srv n)) (active_type jt) m q" and "b \<noteq> []" and "b \<notin> set (map b_key (snd q))" and "\<forall>w \<in> set (snd q). b_time w < now"
    and "key = build_business_key uid cid (jc_domain (config_of jt)) None" and "str_at (view (n_srv n)) key = Some (Json (PDict c))" and "holds_page c d" and "wf_page d"
    and "wf_cache (page_cache d) LISTS" and "proper_request (page_cache d) LISTS (map PStr ids)"
    and "handle_job_process pr send_ok uid jt payload company tr pids now n = (ans, n')"
  obtains res c' d' where "ans = Inr res" "dget res ''success'' = PBool True"
    "queue_rel (docs (n_srv n')) (active_type jt) m (q_register b (map (\<lambda>i. (i, PStr ''in_queue'')) ids) now q)"
    "str_at (view (n_srv n')) key = Some (Json (PDict c'))" "holds_page c' d'" "wf_page d'" "started_page d ids ''in_queue'' now d'"
    "\<forall>k. ordinary_key k \<longrightarrow> k \<noteq> key \<longrightarrow> view (n_srv n') k = view (n_srv n) k" "n_hub n' = n_hub n"
    "\<exists>sent p its. n_sent n' = sent @ sent_to (n_hub n) uid [(''type'', PStr (jc_domain (config_of jt) @ ''.item_update'')), (''payload'', PDict p)] \<and>
       dget p ''items'' = PList (map PDict its) \<and> mset its = moved_items d ids ''in_queue'' now \<and> dget p ''to_list'' = PStr ''in_process'' \<and> dget p ''new_status'' = PStr ''in_queue''"
proof -
  let ?dm = "jc_domain (config_of jt)" and ?jt = "active_type jt" and ?js = "map (\<lambda>i. (i, PStr ''in_queue'')) ids"
  obtain s1 wd s2 n3 meth j where st:
    "handle_job_process pr send_ok uid jt payload company tr pids now n =
       (case apply_optimistic_list_change pr send_ok uid jt ids company ''process'' None now n3 of (lc, n4) \<Rightarrow> (Inr (process_answer j b (length ids) meth lc), n4))"
    "snd (register_job (pr_fs pr) m wd b ?jt now s1) = s2" "extract_job_ids_from_payload wd ?jt = Inr ?js"
    "\<forall>k. ordinary_key k \<longrightarrow> view s1 k = view (n_srv n) k" "\<forall>c. \<not> starts_with ''clients/'' c \<longrightarrow> docs s1 c = docs (n_srv n) c"
    "\<forall>k. ordinary_key k \<longrightarrow> view (n_srv n3) k = view s2 k" "\<forall>c. \<not> starts_with ''clients/'' c \<longrightarrow> docs (n_srv n3) c = docs s2 c" "n_hub n3 = n_hub n"
    by (rule process_steps [OF assms(1-5)])
  have col: "\<not> starts_with ''clients/'' (on_col ?jt)" "\<not> starts_with ''clients/'' (pending_col ?jt)" by (simp_all add: on_col_def pending_col_def)
  have q1: "queue_rel (docs s1) ?jt m q" using assms(6) queue_rel_cong [of "docs s1" ?jt "docs (n_srv n)"] st(5) col by simp
  have q2: "queue_rel (docs s2) ?jt m (q_register b ?js now q)"
    using fs.register_up [OF q1 st(3), of b now] register_rel [OF q1 assms(7-9)] st(2) by (metis snd_conv)
  have v2: "view s2 = view s1" using preservesD [OF register_view, of m wd b ?jt now s1] st(2) by simp
  have jt: "jt \<in> {''router'', ''apbookeeper''}" using assms(1) by (simp add: documents_request_def)
  obtain cfg i where cfg: "map_of DOMAIN_CONFIGS ?dm = Some cfg" "package_get_domain_config DOMAIN_CONFIGS ?dm = Inr cfg" "is_optimistic cfg ''process''"
    "get_initial_status cfg ''process'' = Some i" "i \<noteq> []" "cls_get_list_for_status cfg (normalize (Some i) DEFAULT_STATUS) = ''in_process''"
    "normalize (Some i) DEFAULT_STATUS = ''in_queue''"
    by (rule document_domain [OF jt])
  have cid: "dget_or company ''company_id'' (PStr []) = PStr cid" using assms(2) by (simp add: known_company_def dget_or_def)
  define n3' where "n3' = snd (on_srv (invalidate_page_state (pr_redis pr) uid (py_str (pr_show pr) (PStr cid)) (Some ?dm)) n3)"
  have dm: "?dm \<noteq> []" using jt by (auto simp: config_eval)
  have inv: "g (n_srv n3') = g (n_srv n3)" if "start_frame pr g K" for g :: "'s \<Rightarrow> 'y" and K
    unfolding n3'_def by (rule start_frame.page_state_frame [OF that dm])
  have h3: "n_hub n3' = n_hub n" by (simp add: n3'_def st(8))
  have keys: "view (n_srv n3') k = view (n_srv n) k" if "ordinary_key k" for k using inv [OF key_start [OF that]] st(4,6) that v2 by simp
  have ok: "ordinary_key key" unfolding assms(10) by (rule ordinary_keys(1))
  have at: "str_at (view (n_srv n3')) key = Some (Json (PDict c))" using assms(11) keys [OF ok] by (simp add: str_at_def)
  obtain reg' pc r where ch: "apply_status_change DOMAIN_CONFIGS ?dm (page_cache d) (map PStr ids) (Some i) (Some ''process'') None now = (reg', pc, r)" by (metis prod_cases3)
  obtain d1 where pa: "page_apply_status_change (pr_error pr) DOMAIN_CONFIGS ?dm (map PStr ids) (Some i) (Some ''process'') None now d = ((DOMAIN_CONFIGS, r), d1)"
    "map_of d1 ''counts'' = Some (counts_dict (lcr_counts r))" "page_sim (dset d ''counts'' (counts_dict (lcr_counts r))) d1 pc"
    by (rule page_apply_refines [OF cfg(1) _ ch]) (use assms(13) in \<open>simp add: wf_page_def LISTS_eq\<close>)
  obtain s4 where 4: "change_page pr send_ok uid key ids ?dm i ''process'' None now n3' =
      (Some (change_answer r), n3'\<lparr>n_srv := s4, n_sent := n_sent n3' @ sent_to (n_hub n3') uid (change_event ?dm r)\<rparr>)"
    "str_at (view s4) key = Some (Json (PDict (put_documents c d1 (counts_dict (lcr_counts r)))))" "\<forall>k. k \<noteq> key \<longrightarrow> view s4 k = view (n_srv n3') k"
    "docs s4 = docs (n_srv n3')"
    by (rule change_page_up [OF at assms(12) cfg(1) assms(5) pa(1) list_change_success(2) [OF cfg(1) ch]])
  have "apply_optimistic_list_change pr send_ok uid jt ids company ''process'' None now n3 =
      (Some (change_answer r), n3'\<lparr>n_srv := s4, n_sent := n_sent n3' @ sent_to (n_hub n3') uid (change_event ?dm r)\<rparr>)"
    using cfg(2-5) 4(1) unfolding apply_optimistic_list_change_def Let_def cid business_key_eq assms(10) [symmetric] n3'_def [symmetric] by (cases i) simp_all
  then have res: "ans = Inr (process_answer j b (length ids) meth (Some (change_answer r)))"
    and n': "n' = n3'\<lparr>n_srv := s4, n_sent := n_sent n3' @ sent_to (n_hub n3') uid (change_event ?dm r)\<rparr>" using assms(16) st(1) by simp_all
  have "docs (n_srv n') c = docs s2 c" if "\<not> starts_with ''clients/'' c" for c using 4(4) inv [OF col_start [OF that]] st(7) that by (simp add: n')
  then have Q: "queue_rel (docs (n_srv n')) ?jt m (q_register b ?js now q)" using q2 queue_rel_cong [of "docs (n_srv n')" ?jt "docs s2"] col by simp
  have ns: "new_status r = ''in_queue''" by (rule apply_status_change_hit [OF cfg(1) ch]) (simp only: cfg(7))
  note page = started_page_lists [OF cfg(1,6) assms(13-15) ch pa(3), where v = "counts_dict (lcr_counts r)", unfolded ns]
  have same: "map_of d1 ''data'' = map_of d ''data''" "map_of d1 ''documents'' = map_of d ''documents''" using pa(3) by (simp_all add: page_sim_def LISTS_def)
  have mv: "mset (items_moved r) = moved_items d ids ''in_queue'' now"
    using list_assignment.apply_refines(2) [OF domain_configs_contract [OF cfg(1)] cfg(1), unfolded domain_configs_lists [OF cfg(1)], OF assms(14,15) _ ch]
    by (simp add: moved_items_def all_items_page keeps_ids_def ns)
  obtain p where ev: "change_event ?dm r = [(''type'', PStr (?dm @ ''.item_update'')), (''payload'', PDict p)]" "dget p ''items'' = PList (map PDict (items_moved r))"
    "dget p ''to_list'' = PStr ''in_process''" "dget p ''new_status'' = PStr ''in_queue''"
    by (rule change_event_payload [OF cfg(1) ch, unfolded cfg(6) ns])
  show thesis
  proof (rule that [OF res _ Q _ holds_page_put [OF assms(12) pa(2) same] page(2,1)])
    show "dget (process_answer j b (length ids) meth (Some (change_answer r))) ''success'' = PBool True" by (simp add: process_answer_def dget_def)
    show "str_at (view (n_srv n')) key = Some (Json (PDict (put_documents c d1 (counts_dict (lcr_counts r)))))" using 4(2) by (simp add: n')
    show "\<forall>k. ordinary_key k \<longrightarrow> k \<noteq> key \<longrightarrow> view (n_srv n') k = view (n_srv n) k" using 4(3) keys by (simp add: n')
    show "n_hub n' = n_hub n" by (simp add: n' h3)
    show "\<exists>sent p its. n_sent n' = sent @ sent_to (n_hub n) uid [(''type'', PStr (?dm @ ''.item_update'')), (''payload'', PDict p)] \<and>
       dget p ''items'' = PList (map PDict its) \<and> mset its = moved_items d ids ''in_queue'' now \<and> dget p ''to_list'' = PStr ''in_process'' \<and> dget p ''new_status'' = PStr ''in_queue''"
      using mv ev(2-4) by (intro exI [of _ "n_sent n3'"] exI [of _ p] exI [of _ "items_moved r"]) (simp add: n' h3 ev(1))
  qed
qed

end

end
