(* ===== verification/Job_Cycle.thy ===== *)
theory Job_Cycle
  imports Job_Process
begin

text \<open>
  What starting and stopping a batch do together: a refused start leaves queue and page alone, an accepted one registers the batch and moves its items, and a stop before
  its turn takes both back. The properties are over the services of \<open>Job_Process\<close>, which a concrete instance provides.
\<close>

section \<open>Items of a started page\<close>

lemma dget_started: "k \<notin> {''status'', ''updated_at''} \<Longrightarrow> dget (update_item it st now None) k = dget it k" "k \<notin> {''status'', ''updated_at''} \<Longrightarrow> dget_or (update_item it st now None) k v = dget_or it k v"
  by (simp_all add: update_item_def Let_def dget_def dget_or_def map_of_dset)

lemma same_job_started: "same_job show dm j (update_item it st now None) = same_job show dm j it"
  by (simp add: same_job_def is_job_def dget_started split: sum.split)

lemma started_items:
  assumes "started_page d ids st now d'"
  shows "mset (page_items d') = filter_mset (\<lambda>it. \<not> requested (map PStr ids) it) (mset (page_items d)) + moved_items d ids st now"
proof -
  have l: "mset (page_list d' k) = filter_mset (\<lambda>it. \<not> requested (map PStr ids) it) (mset (page_list d k)) + (if k = ''in_process'' then moved_items d ids st now else {#})"
    if "k \<in> set CATEGORY_KEYS" for k using assms that by (simp add: started_page_def LISTS_eq)
  show ?thesis by (simp add: page_items_def CATEGORY_KEYS_def l)
qed

text \<open>Each job still has its item.\<close>

lemma on_page_started:
  assumes "started_page d ids st now d'" and "on_page show dm d j"
  shows "on_page show dm d' j"
proof -
  let ?f = "same_job show dm j" and ?r = "requested (map PStr ids)" and ?u = "\<lambda>it. update_item it st now None"
  obtain it where it: "filter ?f (page_items d) = [it]" using assms(2) by (auto simp: on_page_def)
  then have m: "filter_mset ?f (mset (page_items d)) = {#it#}" by (metis mset_filter mset_single_iff)
  have "filter_mset ?f (mset (page_items d')) = filter_mset (\<lambda>x. \<not> ?r x) (filter_mset ?f (mset (page_items d))) + image_mset ?u (filter_mset ?r (filter_mset ?f (mset (page_items d))))"
    unfolding started_items [OF assms(1)] moved_items_def by (simp add: filter_filter_mset filter_mset_image_mset same_job_started conj_commute)
  then have "\<exists>x. filter_mset ?f (mset (page_items d')) = {#x#}" by (simp add: m)
  then show ?thesis unfolding on_page_def by (simp only: filter_single_mset flip: mset_filter)
qed

lemma holds_cached: "str_at vw key = Some (Json (PDict c)) \<Longrightarrow> holds_page c d \<Longrightarrow> cached_page vw key d"
  by (auto simp: cached_page_def holds_page_read)

section \<open>Starting\<close>

text \<open>C15: A batch that costs more than the balance allows is refused: the answer names the balance and the amount needed, which is the cost with a margin of a fifth, and nothing changes but the cached balance.\<close>

theorem refused_start_changes_nothing:
  assumes "processing_services pr view tick docs out" and "known_company company cid m" and "requested_ids (pr_show pr) jt payload = Inr ids" and "ids \<noteq> []" and "0 < job_cost jt (length ids)"
    and "check_balance (pr_redis pr) (pr_billing pr (n_srv n)) uid (Some m) (job_cost jt (length ids)) (''job_'' @ jt) (n_srv n) = (r, s')" and "\<not> sufficient r"
    and "handle_job_process pr send_ok uid jt payload company tr pids now n = (ans, n')"
  shows "ans = Inr (balance_refusal r) \<and> required_balance r = job_cost jt (length ids) * (6 / 5) \<and> current_balance r < required_balance r \<and> docs (n_srv n') = docs (n_srv n) \<and>
    (\<forall>k. k \<noteq> balance_key uid \<longrightarrow> view (n_srv n') k = view (n_srv n) k) \<and> n_hub n' = n_hub n \<and> n_sent n' = n_sent n"
proof -
  have ref: "refuse_for_balance pr uid jt m (length ids) n = (Some (balance_refusal r), n\<lparr>n_srv := s'\<rparr>)"
    unfolding refuse_for_balance_def on_srv_def using assms(5-7) by simp
  have run: "ans = Inr (balance_refusal r)" "n' = n\<lparr>n_srv := s'\<rparr>"
    using assms(8) assms(4) unfolding handle_job_process_def known_company_ids [OF assms(2)] assms(3) Let_def sum.case prod.case ref by auto
  have j: "job_services (pr_jobs pr) view tick docs out" using assms(1) by (simp add: processing_services_def)
  then have rep: "reporting (jb_sub (pr_jobs pr)) view tick docs" by (simp add: job_services_def)
  then have up: "redis_up (pr_redis pr) view tick" by (simp add: reporting_def)
  have "docs s' = docs (n_srv n)" using preserves_eq [OF frame.check_balance_frame [OF reporting.docs_frame [OF rep]] assms(6)] by simp
  moreover have "view s' k = view (n_srv n) k" if "k \<noteq> balance_key uid" for k
    using preserves_eq [OF frame.check_balance_frame [OF redis_up.key_frame [OF up, of k]] assms(6)] that by simp
  moreover have "required_balance r = job_cost jt (length ids) * (6 / 5)" "current_balance r < required_balance r"
    using assms(6,7) by (auto simp: SAFETY_MARGIN_def check_balance_def balance_decision_def failsafe_result_def rbind_def Let_def split: prod.splits sum.splits)
  ultimately show ?thesis using run by simp
qed

text \<open>C13: An accepted batch of documents is behind the batches that wait, or runs when none does, with each selected document as a job; on the cached page the selected items are in
  process with the status \<open>in_queue\<close> and all others stay where they are; the last message to each open connection is the event of that page whose payload lists exactly the
  moved items, with the list and the status they got.\<close>

theorem started_batch_queued_and_shown:
  assumes "processing_services pr view tick docs out" and "documents_request jt payload ids" and "known_company company cid m"
    and "fst (refuse_for_balance pr uid jt m (length ids) n) = None"
    and "py_or (dget payload ''batch_id'') (PStr (''batch_'' @ pi_batch pids)) = PStr b" and "\<And>c. send_ok c"
    and "queue_rel (docs (n_srv n)) (active_type jt) m q" and "b \<noteq> []" and "b \<notin> set (map b_key (snd q))" and "\<forall>w \<in> set (snd q). b_time w < now"
    and "key = build_business_key uid cid (jc_domain (config_of jt)) None" and "str_at (view (n_srv n)) key = Some (Json (PDict c))" and "holds_page c d" and "wf_page d"
    and "wf_cache (page_cache d) LISTS" and "proper_request (page_cache d) LISTS (map PStr ids)"
    and "handle_job_process pr send_ok uid jt payload company tr pids now n = (ans, n')"
  shows "\<exists>res d' sent p its. ans = Inr res \<and> dget res ''success'' = PBool True \<and>
    queue_rel (docs (n_srv n')) (active_type jt) m (q_register b (map (\<lambda>i. (i, PStr ''in_queue'')) ids) now q) \<and>
    cached_page (view (n_srv n')) key d' \<and> started_page d ids ''in_queue'' now d' \<and>
    n_sent n' = sent @ sent_to (n_hub n) uid [(''type'', PStr (jc_domain (config_of jt) @ ''.item_update'')), (''payload'', PDict p)] \<and>
    dget p ''items'' = PList (map PDict its) \<and> mset its = moved_items d ids ''in_queue'' now \<and> dget p ''to_list'' = PStr ''in_process'' \<and> dget p ''new_status'' = PStr ''in_queue''"
proof -
  obtain res c' d' where "ans = Inr res" "dget res ''success'' = PBool True"
    "queue_rel (docs (n_srv n')) (active_type jt) m (q_register b (map (\<lambda>i. (i, PStr ''in_queue'')) ids) now q)"
    and page: "str_at (view (n_srv n')) key = Some (Json (PDict c'))" "holds_page c' d'" and "started_page d ids ''in_queue'' now d'"
    and "\<exists>sent p its. n_sent n' = sent @ sent_to (n_hub n) uid [(''type'', PStr (jc_domain (config_of jt) @ ''.item_update'')), (''payload'', PDict p)] \<and>
      dget p ''items'' = PList (map PDict its) \<and> mset its = moved_items d ids ''in_queue'' now \<and> dget p ''to_list'' = PStr ''in_process'' \<and> dget p ''new_status'' = PStr ''in_queue''"
    by (rule processing_services.process_documents [OF assms])
  then show ?thesis using holds_cached [OF page] by blast
qed

section \<open>Starting and stopping\<close>

text \<open>C14: A batch that is started while another one runs, and stopped before its turn, leaves no trace in the queue, and once the reports of the stop were delivered the item of
  each of its documents is back in the list to process.\<close>

theorem started_batch_stopped:
  assumes "processing_services pr view tick docs out" and "documents_request jt payload ids" and "known_company company cid m"
    and "fst (refuse_for_balance pr uid jt m (length ids) n) = None"
    and "py_or (dget payload ''batch_id'') (PStr (''batch_'' @ pi_batch pids)) = PStr b" and "\<And>c. send_ok c"
    and "queue_rel (docs (n_srv n)) (active_type jt) m (Some r, ws)" and "b \<noteq> []" and "b \<notin> b_key ` set (r # ws)" and "\<forall>w \<in> set ws. b_time w < now"
    and "key = build_business_key uid cid (jc_domain (config_of jt)) None" and "str_at (view (n_srv n)) key = Some (Json (PDict c))" and "holds_page c d" and "wf_page d"
    and "wf_cache (page_cache d) LISTS" and "proper_request (page_cache d) LISTS (map PStr ids)"
    and "\<forall>i \<in> set ids. no_sentinel (stopped_message jt i cid m now') \<and> on_page (pr_show pr) (jc_domain (config_of jt)) d i \<and> map_of (b_jobs r) i = None"
    and "watching (view (n_srv n)) (n_hub n) uid cid (jc_domain (config_of jt))" and "uid \<noteq> []" and "CHR ''/'' \<notin> set uid"
    and "handle_job_process pr send_ok uid jt payload company tr pids now n = (ans, n1)"
    and "handle_job_stop (pr_jobs pr) send_ok uid jt [(''job_id'', PStr b)] company now' n1 = (ans', n2)"
    and "out (n_srv n2) = out (n_srv n1) @ ms" and "ro_sub ro = jb_sub (pr_jobs pr)" and "n3 = deliver_messages ro send_ok rids ms n2"
  shows "queue_rel (docs (n_srv n3)) (active_type jt) m (Some r, ws) \<and>
    (\<exists>d'. cached_page (view (n_srv n3)) key d' \<and> (\<forall>i \<in> set ids. on_page (pr_show pr) (jc_domain (config_of jt)) d' i \<and> is_back (pr_show pr) (jc_domain (config_of jt)) d' i))"
proof -
  let ?dm = "jc_domain (config_of jt)" and ?b = "\<lparr>b_key = b, b_jobs = map (\<lambda>i. (i, PStr ''in_queue'')) ids, b_time = now\<rparr>"
  have fresh: "b \<notin> set (map b_key (snd (Some r, ws)))" "\<forall>w \<in> set (snd (Some r, ws)). b_time w < now" using assms(9,10) by auto
  obtain res c' d1 where start: "queue_rel (docs (n_srv n1)) (active_type jt) m (q_register b (map (\<lambda>i. (i, PStr ''in_queue'')) ids) now (Some r, ws))"
    "str_at (view (n_srv n1)) key = Some (Json (PDict c'))" "holds_page c' d1" "wf_page d1" "started_page d ids ''in_queue'' now d1"
    "\<forall>k. ordinary_key k \<longrightarrow> k \<noteq> key \<longrightarrow> view (n_srv n1) k = view (n_srv n) k" "n_hub n1 = n_hub n"
    by (rule processing_services.process_documents [OF assms(1-8) fresh assms(11-16,21)])
  have js: "job_services (pr_jobs pr) view tick docs out" using assms(1) by (simp add: processing_services_def)
  have l: "listed_type jt" using assms(2) by (auto simp: documents_request_def listed_type_def)
  have q: "queue_rel (docs (n_srv n1)) (active_type jt) m (Some r, ws @ [?b])" using start(1) by (simp add: q_register_def Let_def)
  have b: "?b \<in> set (snd (Some r, ws @ [?b]))" "b_key ?b \<notin> b_key ` set (running_list (Some r, ws @ [?b]))" using assms(9) by (auto simp: running_list_def)
  have jobs: "\<forall>j \<in> fst ` set (b_jobs ?b). no_sentinel (stopped_message jt j cid m now') \<and> on_page (pr_show pr) ?dm d1 j \<and> (\<forall>r'. fst (Some r, ws @ [?b]) = Some r' \<longrightarrow> map_of (b_jobs r') j = None)"
    using assms(17) on_page_started [OF start(5)] by auto
  have co: "dget_or company ''mandate_path'' (PStr []) = PStr m" "dget_or company ''company_id'' (PStr []) = PStr cid" "cid \<noteq> []" using assms(3) by (simp_all add: known_company_def dget_or_def)
  have p: "cached_page (view (n_srv n1)) (build_business_key uid cid ?dm None) d1" using holds_cached [OF start(2,3)] assms(11) by simp
  have neq: "page_key uid \<noteq> key" "build_user_selected_company_key uid \<noteq> key" by (simp_all add: assms(11) page_key_def build_user_selected_company_key_def build_business_key_def)
  have w: "watching (view (n_srv n1)) (n_hub n1) uid cid ?dm"
    using assms(18) watching_keys [of "view (n_srv n1)" uid "view (n_srv n)" "n_hub n" cid ?dm] start(6,7) ordinary_keys(2,3) neq by simp
  have stop: "handle_job_stop (pr_jobs pr) send_ok uid jt [(''job_id'', PStr (b_key ?b))] company now' n1 = (ans', n2)" using assms(22) by simp
  from stop_returns_items [OF js l refl q b jobs co p start(4) w assms(6,19,20) stop assms(23-25)]
  have ret: "queue_rel (docs (n_srv n3)) (active_type jt) m (Some r, filter (\<lambda>b'. b_key b' \<noteq> b) (ws @ [?b]))"
    "\<exists>d'. cached_page (view (n_srv n3)) (build_business_key uid cid ?dm None) d' \<and> (\<forall>j \<in> fst ` set (b_jobs ?b). on_page (pr_show pr) ?dm d' j \<and> is_back (pr_show pr) ?dm d' j)" by simp_all
  have "filter (\<lambda>b'. b_key b' \<noteq> b) ws = ws" using assms(9) by (auto intro!: filter_True)
  then have "filter (\<lambda>b'. b_key b' \<noteq> b) (ws @ [?b]) = ws" by simp
  moreover have "fst ` set (b_jobs ?b) = set ids" by force
  ultimately show ?thesis using ret assms(11) by simp
qed

section \<open>An instance\<close>

text \<open>A user with two documents on the page of the router, one batch running, and a worker that does not answer.\<close>

definition demo_processing :: "(mem \<times> mem_docs) processing" where
  "demo_processing =
     \<lparr>pr_jobs = demo_jobs,
      pr_ecs = \<lparr>ecs_client = (\<lambda>s. (Inr (), s)), describe_service = (\<lambda>_ s. (Inr (Some \<lparr>svc_desired = 1, svc_running = 1, svc_pending = 0, svc_status = ''ACTIVE''\<rparr>), s)),
                update_service = (\<lambda>_ _ s. (Inr (), s))\<rparr>,
      pr_billing = (\<lambda>_ _. Inr None), pr_mandates = (\<lambda>_ s. (Inr (PList []), s)), pr_post = (\<lambda>_ _ s. (Unreachable, s)),
      pr_source = ''aws''\<rparr>"

interpretation demo_processing: processing_services demo_processing "\<lambda>p. mem_view (fst p)" "pair_tick mem_tick" "\<lambda>p. mem_docs_view (snd p)" "\<lambda>p. m_out (fst p)"
proof (intro processing_services.intro processing_services_axioms.intro)
  show "job_services (pr_jobs demo_processing) (\<lambda>p. mem_view (fst p)) (pair_tick mem_tick) (\<lambda>p. mem_docs_view (snd p)) (\<lambda>p. m_out (fst p))"
    using demo_jobs.job_services_axioms by (simp add: demo_processing_def)
qed (simp_all add: demo_processing_def preserves_def demo_jobs_def demo_sub_def)

definition demo_routing_page :: pydict where
  "demo_routing_page = [(''to_process'', PList [PDict [(''id'', PStr ''f1'')], PDict [(''id'', PStr ''f2'')]])]"

definition demo_desk :: "rat \<Rightarrow> (mem \<times> mem_docs) node" where
  "demo_desk balance = \<lparr>n_srv = (mem_put ''user:u:balance'' (VStr (Json (PDict [(''current_balance'', PNum balance)]))) (Some 300) (mem_put ''user:u:selected_company_id'' (VStr (Raw ''c'')) None (mem_put ''session:context:u:page'' (VStr (Json (PStr ''routing''))) None
       (mem_put (build_business_key ''u'' ''c'' ''routing'' None) (VStr (Json (PDict demo_routing_page))) (Some 3600) empty_mem))),
       [((on_col ''router'', doc_id ''m'' ''b1''), Task_Reports.demo_doc ''b1'' ''f9'')]), n_hub = demo_hub, n_sent = []\<rparr>"

abbreviation demo_start :: pydict where
  "demo_start \<equiv> [(''document_ids'', PList [PStr ''f1'']), (''batch_id'', PStr ''b2'')]"

abbreviation demo_company :: pydict where
  "demo_company \<equiv> [(''company_id'', PStr ''c''), (''mandate_path'', PStr ''m'')]"

abbreviation demo_pids :: process_ids where
  "demo_pids \<equiv> \<lparr>pi_batch = ''0'', pi_aws = ''0'', pi_pubsub = ''0''\<rparr>"

lemma demo_request: "documents_request ''router'' demo_start [''f1'']" "known_company demo_company ''c'' ''m''"
  by (simp_all add: documents_request_def known_company_def)

lemma demo_desk_queue: "queue_rel (mem_docs_view (snd (n_srv (demo_desk balance)))) (active_type ''router'') ''m'' (Some (waiting_batch ''b1'' ''f9''), [])"
proof -
  have on: "\<And>i. vw (on_col ''router'') i = (if i = doc_id ''m'' ''b1'' then Some (Task_Reports.demo_doc ''b1'' ''f9'') else None)"
    and pend: "\<And>i. vw (pending_col ''router'') i = None" if "vw = mem_docs_view (snd (n_srv (demo_desk balance)))" for vw
    unfolding that by (simp_all add: demo_desk_def mem_docs_view_def)
  have "col_rel (mem_docs_view (snd (n_srv (demo_desk balance)))) (pending_col ''router'') ''m'' []" by (simp add: col_rel_def pend [OF refl])
  then show ?thesis unfolding queue_rel_def running_list_def type_eval
    by (auto intro!: col_rel_one simp: on [OF refl] Task_Reports.demo_doc_def is_batch_def)
qed

lemma demo_desk_page: "str_at (mem_view (fst (n_srv (demo_desk balance)))) (build_business_key ''u'' ''c'' (jc_domain (config_of ''router'')) None) = Some (Json (PDict demo_routing_page))"
  "holds_page demo_routing_page demo_routing_page" "wf_page demo_routing_page"
  by (simp_all add: demo_desk_def mem_put_def mem_view_def empty_mem_def str_at_def key_eval build_business_key_def config_eval holds_page_def demo_routing_page_def wf_page_def wf_list_def
      CATEGORY_KEYS_def dget_or_def dict_of_def)

lemma demo_desk_items: "wf_cache (page_cache demo_routing_page) LISTS" "proper_request (page_cache demo_routing_page) LISTS (map PStr [''f1''])"
proof -
  have i: "page_items demo_routing_page = [[(''id'', PStr ''f1'')], [(''id'', PStr ''f2'')]]" by (simp add: page_items_def page_list_def demo_routing_page_def CATEGORY_KEYS_def dget_or_def dict_of_def)
  show "wf_cache (page_cache demo_routing_page) LISTS" "proper_request (page_cache demo_routing_page) LISTS (map PStr [''f1''])"
    by (simp_all add: wf_cache_def proper_request_def all_items_page i unique_ids_def ids_of_def has_id_def dget_def)
qed

lemma demo_desk_balance:
  "check_balance (pr_redis demo_processing) fb ''u'' (Some ''m'') cost op (n_srv (demo_desk balance)) =
     (case balance_decision (PDict [(''current_balance'', PNum balance)]) cost op of Inr r \<Rightarrow> r | Inl _ \<Rightarrow> failsafe_result cost, n_srv (demo_desk balance))"
proof -
  have "r_get (pr_redis demo_processing) (balance_key ''u'') (n_srv (demo_desk balance)) = (Inr (Some (Json (PDict [(''current_balance'', PNum balance)]))), n_srv (demo_desk balance))"
    by (simp add: demo_processing_def demo_jobs_def demo_sub_def balance_key_def demo_desk_def mem_put_def mem_redis_def on_fst_def str_key_def str_at_def mem_view_def empty_mem_def)
  then show ?thesis by (simp add: check_balance_def get_cached_balance_def Let_def split: sum.split)
qed

lemma demo_decision: "balance_decision (PDict [(''current_balance'', PNum balance)]) cost op = Inr r \<Longrightarrow> sufficient r \<longleftrightarrow> cost * SAFETY_MARGIN \<le> balance"
  by (auto simp: balance_decision_def dget_or_def rbind_def Let_def)

lemma demo_cost: "job_cost ''router'' (length [''f1'']) = 1 / 2"
  by (simp add: job_cost_def COST_PER_ITEM_def)

lemma demo_accepted: "fst (refuse_for_balance demo_processing ''u'' ''router'' ''m'' (length [''f1'']) (demo_desk 10)) = None"
proof -
  obtain r where r: "balance_decision (PDict [(''current_balance'', PNum 10)]) (1 / 2) (''job_'' @ ''router'') = Inr r" by (auto simp: balance_decision_def dget_or_def rbind_def Let_def)
  then have "sufficient r" using demo_decision [OF r] by (simp add: SAFETY_MARGIN_def)
  then show ?thesis unfolding refuse_for_balance_def demo_cost on_srv_def demo_desk_balance r by simp
qed

lemma demo_batch_name: "py_or (dget demo_start ''batch_id'') (PStr (''batch_'' @ pi_batch demo_pids)) = PStr ''b2''"
  by (simp add: dget_def py_or_def)

theorem refused_start_changes_nothing_witness:
  "\<exists>r s' n'. handle_job_process demo_processing (\<lambda>_. True) ''u'' ''router'' demo_start demo_company None demo_pids ''2'' (demo_desk 0) = (Inr (balance_refusal r), n') \<and>
     check_balance (pr_redis demo_processing) (pr_billing demo_processing (n_srv (demo_desk 0))) ''u'' (Some ''m'') (1 / 2) ''job_router'' (n_srv (demo_desk 0)) = (r, s') \<and> \<not> sufficient r"
proof -
  obtain r where r: "balance_decision (PDict [(''current_balance'', PNum 0)]) (job_cost ''router'' (length [''f1''])) (''job_'' @ ''router'') = Inr r"
    by (auto simp: balance_decision_def dget_or_def rbind_def Let_def)
  have c: "check_balance (pr_redis demo_processing) (pr_billing demo_processing (n_srv (demo_desk 0))) ''u'' (Some ''m'') (job_cost ''router'' (length [''f1''])) (''job_'' @ ''router'') (n_srv (demo_desk 0)) =
      (r, n_srv (demo_desk 0))" unfolding demo_desk_balance r by simp
  have s: "\<not> sufficient r" using demo_decision [OF r] by (simp add: job_cost_def COST_PER_ITEM_def SAFETY_MARGIN_def)
  obtain ans n' where run: "handle_job_process demo_processing (\<lambda>_. True) ''u'' ''router'' demo_start demo_company None demo_pids ''2'' (demo_desk 0) = (ans, n')" by force
  have "ans = Inr (balance_refusal r)"
    using refused_start_changes_nothing [OF demo_processing.processing_services_axioms demo_request(2) requested_documents [OF demo_request(1)] _ _ c s run] by (simp add: job_cost_def COST_PER_ITEM_def)
  then show ?thesis using run c s unfolding demo_cost by auto
qed

theorem started_batch_queued_and_shown_witness:
  "\<exists>ans n'. handle_job_process demo_processing (\<lambda>_. True) ''u'' ''router'' demo_start demo_company None demo_pids ''2'' (demo_desk 10) = (ans, n') \<and>
     queue_rel (mem_docs_view (snd (n_srv n'))) ''router'' ''m'' (Some (waiting_batch ''b1'' ''f9''), [\<lparr>b_key = ''b2'', b_jobs = [(''f1'', PStr ''in_queue'')], b_time = ''2''\<rparr>])"
proof -
  obtain ans n' where run: "handle_job_process demo_processing (\<lambda>_. True) ''u'' ''router'' demo_start demo_company None demo_pids ''2'' (demo_desk 10) = (ans, n')" by force
  from started_batch_queued_and_shown [OF demo_processing.processing_services_axioms demo_request demo_accepted demo_batch_name _ demo_desk_queue _ _ _ refl demo_desk_page demo_desk_items run]
  have "queue_rel (mem_docs_view (snd (n_srv n'))) (active_type ''router'') ''m'' (q_register ''b2'' (map (\<lambda>i. (i, PStr ''in_queue'')) [''f1'']) ''2'' (Some (waiting_batch ''b1'' ''f9''), []))"
    by auto
  then show ?thesis using run by (auto simp: type_eval q_register_def Let_def)
qed

lemma demo_desk_on_page: "on_page (pr_show demo_processing) (jc_domain (config_of ''router'')) demo_routing_page ''f1''"
proof -
  have i: "page_items demo_routing_page = [[(''id'', PStr ''f1'')], [(''id'', PStr ''f2'')]]" by (simp add: page_items_def page_list_def demo_routing_page_def CATEGORY_KEYS_def dget_or_def dict_of_def)
  have t: "tx_id_for_match (pr_show demo_processing) ''routing'' ''f1'' stopped_data = Inr []"
    by (simp add: tx_id_for_match_def department_tx_def dotted_tx_def composite_tx_def stopped_data_def dget_def dget_or_def)
  show ?thesis by (simp add: on_page_def same_job_def config_eval t i is_job_def dget_def)
qed

lemma demo_desk_watching: "watching (mem_view (fst (n_srv (demo_desk balance)))) (n_hub (demo_desk balance)) ''u'' ''c'' (jc_domain (config_of ''router''))"
proof -
  have "page_to_domain ''routing'' = Some ''routing''" by code_simp
  then show ?thesis
    using demo_connected by (simp add: watching_def demo_desk_def mem_put_def mem_view_def empty_mem_def str_at_def key_eval demo_hub_def register_def init_hub_def Let_def config_eval)
qed

theorem started_batch_stopped_witness:
  "\<exists>ans n1 ans' n2 ms. handle_job_process demo_processing (\<lambda>_. True) ''u'' ''router'' demo_start demo_company None demo_pids ''2'' (demo_desk 10) = (ans, n1) \<and>
     handle_job_stop demo_jobs (\<lambda>_. True) ''u'' ''router'' [(''job_id'', PStr ''b2'')] demo_company ''3'' n1 = (ans', n2) \<and>
     m_out (fst (n_srv n2)) = m_out (fst (n_srv n1)) @ ms \<and>
     (\<forall>ro :: ((mem \<times> mem_docs), string) router. ro_sub ro = demo_sub \<longrightarrow>
        queue_rel (mem_docs_view (snd (n_srv (deliver_messages ro (\<lambda>_. True) demo_ids ms n2)))) ''router'' ''m'' (Some (waiting_batch ''b1'' ''f9''), []))"
proof -
  let ?start = "handle_job_process demo_processing (\<lambda>_. True) ''u'' ''router'' demo_start demo_company None demo_pids ''2'' (demo_desk 10)"
  let ?w = "waiting_batch ''b1'' ''f9''" and ?b = "\<lparr>b_key = ''b2'', b_jobs = [(''f1'', PStr ''in_queue'')], b_time = ''2''\<rparr>" and ?dm = "jc_domain (config_of ''router'')"
  obtain ans n1 where start: "?start = (ans, n1)" by force
  obtain ans' n2 where stop: "handle_job_stop demo_jobs (\<lambda>_. True) ''u'' ''router'' [(''job_id'', PStr ''b2'')] demo_company ''3'' n1 = (ans', n2)" by force
  have fresh: "''b2'' \<noteq> []" "''b2'' \<notin> b_key ` set [?w]" "''b2'' \<notin> set (map b_key (snd (Some ?w, [])))" "\<forall>w \<in> set (snd (Some ?w, [])). b_time w < ''2''" by simp_all
  have "queue_rel (mem_docs_view (snd (n_srv n1))) (active_type ''router'') ''m'' (q_register ''b2'' (map (\<lambda>i. (i, PStr ''in_queue'')) [''f1'']) ''2'' (Some ?w, []))"
    by (rule demo_processing.process_documents [OF demo_request demo_accepted demo_batch_name _ demo_desk_queue fresh(1,3,4) refl demo_desk_page demo_desk_items start]) simp
  then have q: "queue_rel (mem_docs_view (snd (n_srv n1))) (active_type ''router'') ''m'' (Some ?w, [?b])" by (simp add: q_register_def Let_def)
  have b: "?b \<in> set (snd (Some ?w, [?b]))" "b_key ?b \<notin> b_key ` set (running_list (Some ?w, [?b]))" by (simp_all add: running_list_def)
  have co: "dget_or demo_company ''mandate_path'' (PStr []) = PStr ''m''" "dget_or demo_company ''company_id'' (PStr []) = PStr ''c''" by (simp_all add: dget_or_def)
  have stop': "handle_job_stop demo_jobs (\<lambda>_. True) ''u'' ''router'' [(''job_id'', PStr (b_key ?b))] demo_company ''3'' n1 = (ans', n2)" using stop by simp
  note out = demo_jobs.stop_batch_run(1) [OF q b co stop']
  have pj: "pr_jobs demo_processing = demo_jobs" by (simp add: demo_processing_def)
  have jobs: "\<forall>i \<in> set [''f1'']. no_sentinel (stopped_message ''router'' i ''c'' ''m'' ''3'') \<and> on_page (pr_show demo_processing) ?dm demo_routing_page i \<and> map_of (b_jobs ?w) i = None"
    using demo_desk_on_page by (simp add: no_sentinel_def stopped_message_def config_eval)
  have "queue_rel (mem_docs_view (snd (n_srv (deliver_messages ro (\<lambda>_. True) demo_ids ms n2)))) ''router'' ''m'' (Some ?w, [])"
    if "ro_sub ro = demo_sub" "m_out (fst (n_srv n2)) = m_out (fst (n_srv n1)) @ ms" for ro :: "((mem \<times> mem_docs), string) router" and ms
  proof -
    have ro: "ro_sub ro = jb_sub (pr_jobs demo_processing)" using that(1) by (simp add: pj demo_jobs_def)
    from started_batch_stopped [OF demo_processing.processing_services_axioms demo_request demo_accepted demo_batch_name _ demo_desk_queue fresh(1) _ _ refl demo_desk_page demo_desk_items jobs demo_desk_watching
        _ _ start stop [folded pj] that(2) ro refl, of demo_ids]
    show ?thesis by (simp add: type_eval)
  qed
  then show ?thesis using start stop out by (intro exI conjI) auto
qed

end
