(* ===== verification/Spec2Isabelle.thy ===== *)
theory Spec2Isabelle
  imports Status_Normalization Domain_Config List_Manager Redis_Client Pending_Actions Ws_Buffer Ws_Hub
    Redis_Namespaces Metrics Contextual_Publisher Page_State Balance_Service Cron_Scheduler
    Fx_Rates Sequence_Matcher Bulk_Matching Firestore_Client Mandate_Path Active_Jobs Active_Queue
    Redis_Scan Unified_Cache Session_State Registry Llm_Gateway Card_Transformer Comm_Dispatcher
    Response_Collector Card_Wizard Subscriptions Journal_Entry Worker_Broadcast Job_Cycle
begin

text \<open>
  A verification development for the Pinnokio Firebase microservice, the Python backend under
  \<^verbatim>\<open>src/app\<close> that keeps accounting pages in a Redis cache, pushes changes to browsers over
  WebSockets, runs scheduled tasks and proposes matches for bank transactions.

  \<^bold>\<open>The program and its parts.\<close> A browser holds WebSocket connections to one instance; the hub
  (\<^verbatim>\<open>ws_hub.py\<close>) knows them and keeps messages for absent users in a Redis list
  (\<^verbatim>\<open>ws_message_buffer.py\<close>). What a page shows is cached in Redis under keys of three levels, user,
  company and business domain (\<^verbatim>\<open>llm_service/redis_namespaces.py\<close>). A change of a job's status
  moves items between the four lists of a page (\<^verbatim>\<open>domain_config\<close>, over the vocabulary of
  \<^verbatim>\<open>status_normalization\<close>). An event is written to the cache of its level and, if the user
  is looking at the right company and page, given to the hub (\<^verbatim>\<open>realtime/contextual_publisher.py\<close> and
  its client \<^verbatim>\<open>realtime/pubsub_helper.py\<close>); the dashboard's counters are computed from the same
  caches (\<^verbatim>\<open>cache/metrics_calculator.py\<close>). A page is restored after a reload and a redirect to an
  external service is resumed once (\<^verbatim>\<open>wrappers/page_state_manager.py\<close>,
  \<^verbatim>\<open>wrappers/pending_action_manager.py\<close>). The balance decides whether a job may start
  (\<^verbatim>\<open>balance_service.py\<close>). A scheduler with a distributed lock runs tasks on several instances
  (\<^verbatim>\<open>cron_scheduler.py\<close>). The matching engine (\<^verbatim>\<open>bulk_matching_engine.py\<close>, with exchange rates of
  \<^verbatim>\<open>fx_rate_service.py\<close>) assigns invoices and expenses to bank transactions.

  Jobs run on workers outside the repository. The job actions (\<^verbatim>\<open>wrappers/job_actions_handler.py\<close>) start and
  stop batches; a queue in Firestore (\<^verbatim>\<open>active_job_manager.py\<close>) lets one batch of a mandate run at a time. Workers
  report over Redis channels: the subscriber (\<^verbatim>\<open>realtime/redis_subscriber.py\<close>) puts reports, notifications, messages,
  chats and approvals into the caches, the queue and the browsers, and a second listener
  (\<^verbatim>\<open>realtime/worker_broadcast_listener.py\<close>) forwards what the worker of the language models streams. Questions
  of a job reach the user as cards in the browser or in Telegram
  (\<^verbatim>\<open>realtime/card_transformer.py\<close>, \<^verbatim>\<open>realtime/communication_dispatcher.py\<close>,
  \<^verbatim>\<open>realtime/communication_response_collector.py\<close>, \<^verbatim>\<open>realtime/journal_entry_handler.py\<close>), requests to the agents
  go through a queue (\<^verbatim>\<open>llm_service/llm_gateway.py\<close>). Sessions, presence, users and subscriptions are kept by
  \<^verbatim>\<open>llm_service/session_state_manager.py\<close>, \<^verbatim>\<open>registry/unified_registry.py\<close> and
  \<^verbatim>\<open>realtime/subscription_manager.py\<close>; \<^verbatim>\<open>cache/unified_cache_manager.py\<close> reads and migrates cached data.

  \<^bold>\<open>The theories.\<close>
  \<^item> \<open>Prelude\<close>: Python values, dictionaries, exceptions as \<open>exn + 'a\<close>, string methods, rounding,
    and the list and map lemmas of all components.
  \<^item> \<open>Status_Normalization\<close>: \<^verbatim>\<open>constants.py\<close> and \<^verbatim>\<open>normalizer.py\<close>. Normalisation is idempotent; the
    tables of categories agree.
  \<^item> \<open>Domain_Config\<close>: the configurations of the four domains. The locale \<open>list_assignment\<close> is what a
    configuration owes the list manager; it is interpreted on the four configurations.
  \<^item> \<open>List_Manager\<close>: \<open>apply_status_change\<close> and \<open>rollback_status_change\<close> with every helper, on an explicit
    registry and cache. The abstract specification is a move between multisets; the refinement,
    the round trip of a rollback and the counts are proved, and where expenses break them.
  \<^item> \<open>Page_Change\<close>: the same change on the dictionary of the cache as the code has it, with every exception and the
    branch that catches it. On a page of dictionaries it implements the change of \<open>List_Manager\<close>.
  \<^item> \<open>Redis_Client\<close>: Redis as a record of commands over an abstract state, with the locales
    \<open>redis_server\<close> and \<open>redis_up\<close>, and an in-memory server that interprets them.
  \<^item> \<open>Redis_Namespaces\<close>: keys, channels, times to live, legacy keys. Keys of different owners differ.
  \<^item> \<open>Pending_Actions\<close>, \<open>Page_State\<close>: save, read, complete, invalidate. One-time use in a
    sequence, its failure in an interleaving, restoring until expiry, exact invalidation.
  \<^item> \<open>Ws_Buffer\<close>, \<open>Ws_Hub\<close>: the buffer is a queue that is read once; the hub as a step relation with an
    invariant, alternating callbacks, and delivery of a broadcast.
  \<^item> \<open>Metrics\<close>: the synchronous and the asynchronous calculator, each translated from its own class, totals, and their
    agreement under any schedule of the four reads.
  \<^item> \<open>Contextual_Publisher\<close>: all publication functions, the cache update and the publication rules.
  \<^item> \<open>Balance_Service\<close>: the decision on every branch, the cache of the balance and its refresh.
  \<^item> \<open>Cron_Scheduler\<close>: the lock, its steps by several instances (one that was refused releases too, as the code does)
    with the invariant that gives mutual exclusion, the execution of a task, and the double execution the lock does not exclude.
  \<^item> \<open>Fx_Rates\<close>, \<open>Sequence_Matcher\<close>, \<open>Bulk_Matching\<close>: the lookup of a rate, the similarity ratio of
    the standard library, scores, the index by amount, transfers, the greedy assignment and the
    merge of a new candidate.
  \<^item> \<open>Redis_Scan\<close>, \<open>Redis_Out\<close>, \<open>Redis_Pair\<close>, \<open>Firestore_Client\<close>, \<open>State_Frame\<close>, \<open>Py_Access\<close>: the loop around
    \<open>SCAN\<close>, published messages, a server beside another one, Firestore as a record of calls with its laws, what an
    operation leaves alone, and access to dynamic values.
  \<^item> \<open>Mandate_Path\<close>, \<open>Active_Jobs\<close>, \<open>Active_Queue\<close>: the queue of batches in Firestore. Registrations, reports and
    stops implement an abstract queue; one batch runs at a time and each gets its turn.
  \<^item> \<open>Unified_Cache\<close>, \<open>Session_State\<close>, \<open>Registry\<close>: cached data with migration and invalidation, the
    session of a user as a typed document, users and companies online.
  \<^item> \<open>Llm_Gateway\<close>: requests to the agents as a first-in first-out queue, and starting of workers.
  \<^item> \<open>Card_Transformer\<close>, \<open>Comm_Dispatcher\<close>, \<open>Response_Collector\<close>, \<open>Card_Wizard\<close>, \<open>Journal_Entry\<close>: cards, their
    way to Telegram and back as a state machine of steps, and the posting of an approved entry in Odoo.
  \<^item> \<open>Hub_State\<close>, \<open>Hub_Listener\<close>, \<open>Worker_Broadcast\<close>, \<open>Channel_Router\<close>: the hub with what it has sent, the contract of a listener that
    joins the channels of connected users, and its two instances with their reconnection.
  \<^item> \<open>Subscriptions\<close>: the listener of each user, the cached lists that follow its events, and overlapping starts.
  \<^item> \<open>Business_Cache\<close>, \<open>Billing_Cache\<close>, \<open>Task_Reports\<close>, \<open>User_Channels\<close>, \<open>Job_Chats\<close>: the handlers of the
    subscriber. A report moves one item of an abstract page and is one step of the abstract queue.
  \<^item> \<open>Job_Stop\<close>, \<open>Job_Payload\<close>, \<open>Job_Process\<close>, \<open>Job_Cycle\<close>: stopping and starting batches, and what they do together over
    the queue, the subscriber, the page and the browser.
  \<^item> this theory: the counters of the dashboard, each page's with its own calculator, follow the pages.

  \<^bold>\<open>Conventions.\<close> An operation with the name of a Python function models the whole function; a
  definition that models a part of one is said so in the theory. State is passed explicitly; a
  call that may raise returns a sum, and code that catches has a branch for it. Clocks, random
  tokens, sockets, Firestore, the HTTP service of exchange rates and Redis are arguments.
  Also arguments are \<open>str\<close> of values that are neither texts nor whole numbers, texts of datetimes, numbers in texts and
  JSON inside documents. Numbers are exact (\<open>int\<close>, \<open>nat\<close>, \<open>rat\<close>), since Python integers are unbounded and a \<open>float\<close> is
  taken without its binary rounding. Texts are UTF-8 byte strings. Log output is left out. A coroutine
  runs without interruption between two commands to Redis, a Firestore transaction is one uninterrupted sequence of calls, and
  what a handler schedules runs at its next await or when it has finished; interleavings matter for the lock, the pending
  actions, the scheduler, the metrics, the approvals and the subscriptions and are explicit there. Recursions are structural
  or have a termination proof. The loop around \<open>SCAN\<close> may run as long as the server gives new cursors: it is a
  \<open>partial_function\<close> into \<open>option\<close>, and that it returns is proved from the law of the command. No fuel is used.

  \<^bold>\<open>Not modelled.\<close> The agents of the language models and their tools, the Drive, Odoo and database clients (calls to
  third-party services with no logic of their own), the chart of accounts, the ledger synchronisation and the automatic
  reconciliation of the subscriber, the job actions that delete, refresh or restart, the lists of approvals and the
  documents of scheduled tasks, the RPC entry points and page handlers that forward to services, process management,
  and the scripts. Of \<^verbatim>\<open>firebase_providers.py\<close> only the calls the modelled components make are there.
\<close>

section \<open>Status changes and the dashboard\<close>

lemma metrics_of_page:
  assumes "list_all (wf_list d) LISTS" and "page_items d \<noteq> []"
  shows "module_metrics_of flat_key (PDict d) =
      Inr \<lparr>mm_to_process = length (page_list d ''to_process''), mm_in_process = length (page_list d ''in_process''),
           mm_pending = length (page_list d ''pending''), mm_processed = length (page_list d ''processed'')\<rparr>"
    and "bank_metrics_of (PDict d) =
      Inr \<lparr>mm_to_process = length (page_list d ''to_process''), mm_in_process = length (page_list d ''in_process''),
           mm_pending = length (page_list d ''pending''), mm_processed = length (page_list d ''processed'')\<rparr>"
    and "expenses_metrics_of (PDict d) =
      Inr \<lparr>em_open = length (page_list d ''to_process'') + length (page_list d ''in_process'') + length (page_list d ''pending''),
           em_closed = length (page_list d ''processed''), em_pending_approval = length (page_list d ''pending'')\<rparr>"
proof -
  have l: "\<exists>xs. dget_or d k (PList []) = PList xs \<and> length (page_list d k) = length xs" if "k \<in> set LISTS" for k
    using assms(1) that by (auto simp: list_all_iff wf_list_def page_list_def split: pyval.splits)
  obtain a where a: "dget_or d ''to_process'' (PList []) = PList a" "length (page_list d ''to_process'') = length a" using l [of "''to_process''"] by (auto simp: LISTS_def)
  obtain b where b: "dget_or d ''in_process'' (PList []) = PList b" "length (page_list d ''in_process'') = length b" using l [of "''in_process''"] by (auto simp: LISTS_def)
  obtain p where p: "dget_or d ''pending'' (PList []) = PList p" "length (page_list d ''pending'') = length p" using l [of "''pending''"] by (auto simp: LISTS_def)
  obtain z where z: "dget_or d ''processed'' (PList []) = PList z" "length (page_list d ''processed'') = length z" using l [of "''processed''"] by (auto simp: LISTS_def)
  have "a \<noteq> [] \<or> b \<noteq> [] \<or> p \<noteq> [] \<or> z \<noteq> []"
    using assms(2) a(2) b(2) p(2) z(2) by (auto simp: page_items_def CATEGORY_KEYS_def)
  moreover have "d \<noteq> []" using assms(2) by (auto simp: page_items_def page_list_def dget_or_def)
  ultimately show "module_metrics_of flat_key (PDict d) =
      Inr \<lparr>mm_to_process = length (page_list d ''to_process''), mm_in_process = length (page_list d ''in_process''),
           mm_pending = length (page_list d ''pending''), mm_processed = length (page_list d ''processed'')\<rparr>"
    "bank_metrics_of (PDict d) =
      Inr \<lparr>mm_to_process = length (page_list d ''to_process''), mm_in_process = length (page_list d ''in_process''),
           mm_pending = length (page_list d ''pending''), mm_processed = length (page_list d ''processed'')\<rparr>"
    "expenses_metrics_of (PDict d) =
      Inr \<lparr>em_open = length (page_list d ''to_process'') + length (page_list d ''in_process'') + length (page_list d ''pending''),
           em_closed = length (page_list d ''processed''), em_pending_approval = length (page_list d ''pending'')\<rparr>"
    by (auto simp: module_metrics_of_def bank_metrics_of_def expenses_metrics_of_def Let_def a b p z)
qed

text \<open>A change that deletes nothing keeps the number of items.\<close>

lemma page_change_keeps_number:
  assumes "map_of DOMAIN_CONFIGS dm = Some cfg" and "wf_cache (page_cache d) LISTS" and "proper_request (page_cache d) LISTS ids" and "keeps_ids extra" and "action \<noteq> Some ''delete''"
    and "apply_status_change DOMAIN_CONFIGS dm (page_cache d) ids status action extra now = (reg', c', r)"
  shows "length (all_items c' LISTS) = length (page_items d)"
proof -
  note cfg = domain_configs_contract [OF assms(1)] and names = domain_configs_lists [OF assms(1)]
  note all = list_assignment.apply_all_items [OF cfg assms(1), unfolded names, OF assms(2-6)]
  note moved = list_assignment.apply_refines(2) [OF cfg assms(1), unfolded names, OF assms(2-4,6)]
  have part: "size (filter_mset (\<lambda>it. \<not> requested ids it) M) + size (filter_mset (requested ids) M) = size M" for M
    by (metis multiset_partition size_union add.commute)
  show ?thesis using arg_cong [OF all, of size] arg_cong [OF moved, of size] part by (simp add: all_items_page)
qed

text \<open>
  C34: the dashboard follows the pages. After a change of status that deletes nothing on a page that is not empty, the calculator of each page (the router's for
  \<open>routing\<close>, the one of invoices, of the bank and of expenses, which counts what is open, closed and awaits approval) computes from the changed page exactly the counts
  the page itself received with the change, and these still add up to the number of items before it.
\<close>

theorem dashboard_follows_pages:
  assumes "map_of DOMAIN_CONFIGS domain = Some cfg" and "list_all (wf_list d) LISTS" and "page_items d \<noteq> []"
    and "wf_cache (page_cache d) LISTS" and "proper_request (page_cache d) LISTS ids" and "keeps_ids extra" and "action \<noteq> Some ''delete''"
    and "page_apply_status_change err DOMAIN_CONFIGS domain ids status action extra now d = ((reg', r), d')"
  shows "lcr_success r \<and> (\<exists>a b p z. lcr_counts r = [(''to_process'', a), (''in_process'', b), (''pending'', p), (''processed'', z)] \<and> a + b + p + z = length (page_items d) \<and>
    (domain = ''routing'' \<longrightarrow> module_metrics_of ''documents'' (PDict d') = Inr \<lparr>mm_to_process = a, mm_in_process = b, mm_pending = p, mm_processed = z\<rparr>) \<and>
    (domain = ''invoices'' \<longrightarrow> module_metrics_of ''items'' (PDict d') = Inr \<lparr>mm_to_process = a, mm_in_process = b, mm_pending = p, mm_processed = z\<rparr>) \<and>
    (domain \<in> {''bank'', ''banking''} \<longrightarrow> bank_metrics_of (PDict d') = Inr \<lparr>mm_to_process = a, mm_in_process = b, mm_pending = p, mm_processed = z\<rparr>) \<and>
    (domain = ''expenses'' \<longrightarrow> expenses_metrics_of (PDict d') = Inr \<lparr>em_open = a + b + p, em_closed = z, em_pending_approval = p\<rparr>))"
proof -
  obtain reg1 c' r1 where run: "apply_status_change DOMAIN_CONFIGS domain (page_cache d) ids status action extra now = (reg1, c', r1)" by (metis prod_cases3)
  obtain d1 where 1: "page_apply_status_change err DOMAIN_CONFIGS domain ids status action extra now d = ((DOMAIN_CONFIGS, r1), d1)"
    "page_sim (dset d ''counts'' (counts_dict (lcr_counts r1))) d1 c'" by (rule page_apply_refines [OF assms(1,2) run])
  have eq: "r = r1" "d' = d1" using 1(1) assms(8) by simp_all
  note l = page_sim_lists [OF 1(2)]
  have i: "page_items d1 = all_items c' LISTS" by (simp add: page_items_def all_items_def LISTS_eq [symmetric] l(1) cong: map_cong)
  have n: "length (page_items d1) = length (page_items d)" using page_change_keeps_number [OF assms(1,4-7) run] by (simp add: i)
  have "lcr_counts r1 = calculate_counts c' (map snd (LIST_NAMES cfg))" by (rule apply_status_change_hit [OF assms(1) run]) (simp add: calculate_counts_def)
  then have c: "lcr_counts r1 = calculate_counts c' LISTS" using domain_configs_lists [OF assms(1)] by simp
  have w: "list_all (wf_list d1) LISTS" "page_items d1 \<noteq> []" using l(2) n assms(3) by (auto simp: list_all_iff)
  note m = metrics_of_page [OF w]
  have k: "page_list d1 ''to_process'' = get_list c' ''to_process''" "page_list d1 ''in_process'' = get_list c' ''in_process''" "page_list d1 ''pending'' = get_list c' ''pending''"
    "page_list d1 ''processed'' = get_list c' ''processed''" by (simp_all add: l(1) LISTS_def)
  have s: "length (get_list c' ''to_process'') + length (get_list c' ''in_process'') + length (get_list c' ''pending'') + length (get_list c' ''processed'') = length (page_items d)"
    using n by (simp add: i all_items_def LISTS_def)
  have e: "lcr_counts r1 = [(''to_process'', length (get_list c' ''to_process'')), (''in_process'', length (get_list c' ''in_process'')),
      (''pending'', length (get_list c' ''pending'')), (''processed'', length (get_list c' ''processed''))]" by (simp add: c calculate_counts_def LISTS_def)
  show ?thesis unfolding eq using list_change_success(2) [OF assms(1) run] e s m [unfolded k] by blast
qed

theorem dashboard_follows_pages_witness:
  "\<exists>r d' b. page_apply_status_change (\<lambda>_. []) DOMAIN_CONFIGS ''expenses'' [PStr ''e1''] (Some ''completed'') (Some ''close'') None ''t''
       [(''to_process'', PList [PDict [(''expense_id'', PStr ''e1'')], PDict [(''expense_id'', PStr ''e2'')]])] = ((DOMAIN_CONFIGS, r), d') \<and>
     (\<exists>p z. expenses_metrics_of (PDict d') = Inr \<lparr>em_open = b, em_closed = z, em_pending_approval = p\<rparr> \<and> b + z = 2)"
proof -
  let ?d = "[(''to_process'', PList [PDict [(''expense_id'', PStr ''e1'')], PDict [(''expense_id'', PStr ''e2'')]])]"
  have i: "page_items ?d = [[(''expense_id'', PStr ''e1'')], [(''expense_id'', PStr ''e2'')]]" by (simp add: page_items_def page_list_def CATEGORY_KEYS_def dget_or_def dict_of_def)
  have cfg: "map_of DOMAIN_CONFIGS ''expenses'' = Some ExpensesDomainConfig" by (simp add: DOMAIN_CONFIGS_def)
  have wf: "list_all (wf_list ?d) LISTS" by (simp add: wf_list_def LISTS_def dget_or_def dict_of_def)
  have ok: "wf_cache (page_cache ?d) LISTS" "proper_request (page_cache ?d) LISTS [PStr ''e1'']"
    by (simp_all add: wf_cache_def proper_request_def all_items_page i unique_ids_def ids_of_def has_id_def dget_def)
  obtain reg' c' r where run: "apply_status_change DOMAIN_CONFIGS ''expenses'' (page_cache ?d) [PStr ''e1''] (Some ''completed'') (Some ''close'') None ''t'' = (reg', c', r)" by (metis prod_cases3)
  obtain d' where go: "page_apply_status_change (\<lambda>_. []) DOMAIN_CONFIGS ''expenses'' [PStr ''e1''] (Some ''completed'') (Some ''close'') None ''t'' ?d = ((DOMAIN_CONFIGS, r), d')"
    by (rule page_apply_refines [OF cfg wf run])
  from dashboard_follows_pages [OF cfg wf _ ok _ _ go]
  obtain a b p z where "a + b + p + z = 2" "expenses_metrics_of (PDict d') = Inr \<lparr>em_open = a + b + p, em_closed = z, em_pending_approval = p\<rparr>"
    by (auto simp: i keeps_ids_def)
  then show ?thesis using go by (intro exI [of _ r] exI [of _ d'] exI [of _ "a + b + p"] conjI exI [of _ p] exI [of _ z]) simp_all
qed

text \<open>The counter of the dashboard that shows the items of a tab.\<close>

fun metric_of_category :: "string \<Rightarrow> metric_category option" where
  "metric_of_category cat = map_of [(''to_process'', Cat_toProcess), (''in_process'', Cat_inProcess),
     (''pending'', Cat_pending), (''processed'', Cat_processed)] cat"

text \<open>
  The dashboard and the tabs classify by different tables. For a normalised status the counter
  \<open>classify_status\<close> chooses on a flat list is the one of the tab \<open>get_category\<close> chooses, except for
  exactly four statuses, three of running jobs and one of routed documents, which the dashboard
  counts as still to be processed.
\<close>

theorem metrics_and_tabs_disagree:
  "map_option Inr (metric_of_category (get_category (status_value st))) = Some (classify_status (PStr (status_value st)))
     \<longleftrightarrow> st \<notin> {IN_QUEUE, ON_PROCESS, STOPPING, ROUTED}"
  by (induction st; code_simp)
end
